(* ===== verification/Prelude.thy ===== *)
theory Prelude
  imports Main "HOL-Library.Word" "HOL-Library.Signed_Division"
begin

text \<open>
  Shared vocabulary of the development: the transaction monad every database operation is
  written in, the collections its automation uses, the Rust integer operations the code
  calls (\<open>saturating_mul\<close>, the wrapping \<open>*\<close> of a release build, \<open>to_u128\<close>), and generic
  lemmas on lists of rows.

  A transaction is a function from the session state to either an error or a value and the
  next state. An error carries no state: the caller's \<open>?\<close> drops the \<open>sqlx::Transaction\<close>,
  which rolls back, and \<open>commit_tx\<close> below makes that explicit.
\<close>

section \<open>Collections\<close>

named_theorems tx_simps "what it means for a transaction to have succeeded"
named_theorems tx_defs "definitions of the transaction combinators"
named_theorems frame_simps "which tables an operation leaves alone"

section \<open>Transactions\<close>

type_synonym ('s, 'e, 'a) tx = "'s \<Rightarrow> 'e + 'a \<times> 's"

definition tx_return :: "'a \<Rightarrow> ('s, 'e, 'a) tx" where
  "tx_return x = (\<lambda>s. Inr (x, s))"

definition tx_throw :: "'e \<Rightarrow> ('s, 'e, 'a) tx" where
  "tx_throw e = (\<lambda>s. Inl e)"

definition tx_bind :: "('s, 'e, 'a) tx \<Rightarrow> ('a \<Rightarrow> ('s, 'e, 'b) tx) \<Rightarrow> ('s, 'e, 'b) tx" where
  "tx_bind m f = (\<lambda>s. case m s of Inl e \<Rightarrow> Inl e | Inr (x, s') \<Rightarrow> f x s')"

definition tx_gets :: "('s \<Rightarrow> 'a) \<Rightarrow> ('s, 'e, 'a) tx" where
  "tx_gets f = (\<lambda>s. Inr (f s, s))"

definition tx_modify :: "('s \<Rightarrow> 's) \<Rightarrow> ('s, 'e, unit) tx" where
  "tx_modify f = (\<lambda>s. Inr ((), f s))"

definition tx_assert :: "bool \<Rightarrow> 'e \<Rightarrow> ('s, 'e, unit) tx" where
  "tx_assert b e = (if b then tx_return () else tx_throw e)"

definition tx_ok_or :: "'e \<Rightarrow> 'a option \<Rightarrow> ('s, 'e, 'a) tx" where
  "tx_ok_or e v = (case v of None \<Rightarrow> tx_throw e | Some x \<Rightarrow> tx_return x)"

definition tx_map_err :: "('e \<Rightarrow> 'f) \<Rightarrow> ('s, 'e, 'a) tx \<Rightarrow> ('s, 'f, 'a) tx" where
  "tx_map_err g m = (\<lambda>s. case m s of Inl e \<Rightarrow> Inl (g e) | Inr r \<Rightarrow> Inr r)"

primrec tx_for_each :: "('a \<Rightarrow> ('s, 'e, unit) tx) \<Rightarrow> 'a list \<Rightarrow> ('s, 'e, unit) tx" where
  "tx_for_each f [] = tx_return ()"
| "tx_for_each f (x # xs) = tx_bind (f x) (\<lambda>_. tx_for_each f xs)"

text \<open>
  \<open>pool.begin()\<close>, the body, then \<open>tx.commit()\<close> on success; on an error the transaction is
  dropped and the database is the one before it began.
\<close>

definition commit_tx :: "('s \<Rightarrow> 's) \<Rightarrow> ('s, 'e, 'a) tx \<Rightarrow> 's \<Rightarrow> ('e + 'a) \<times> 's" where
  "commit_tx release m s =
     (case m s of Inl e \<Rightarrow> (Inl e, s) | Inr (x, s') \<Rightarrow> (Inr x, release s'))"

lemmas tx_combinators [tx_defs] =
  tx_return_def tx_throw_def tx_bind_def tx_gets_def tx_modify_def tx_assert_def
  tx_ok_or_def tx_map_err_def

subsection \<open>Inverting a successful run\<close>

text \<open>
  A hypothesis \<open>op s = Inr (x, s')\<close> is taken apart by these equations, down to the
  primitive statements; the simplifier then knows every check that passed and the final
  state as an update of the first.
\<close>

lemma tx_return_Inr [tx_simps]: "tx_return x s = Inr (y, s') \<longleftrightarrow> y = x \<and> s' = s"
  by (auto simp: tx_return_def)

lemma tx_throw_Inr [tx_simps]: "tx_throw e s = Inr r \<longleftrightarrow> False"
  by (simp add: tx_throw_def)

lemma tx_bind_Inr [tx_simps]:
  "tx_bind m f s = Inr r \<longleftrightarrow> (\<exists>x s1. m s = Inr (x, s1) \<and> f x s1 = Inr r)"
  by (auto simp: tx_bind_def split: sum.splits)

lemma tx_gets_Inr [tx_simps]: "tx_gets f s = Inr (x, s') \<longleftrightarrow> x = f s \<and> s' = s"
  by (auto simp: tx_gets_def)

lemma tx_modify_Inr [tx_simps]: "tx_modify f s = Inr (x, s') \<longleftrightarrow> s' = f s"
  by (auto simp: tx_modify_def)

lemma tx_assert_Inr [tx_simps]: "tx_assert b e s = Inr (x, s') \<longleftrightarrow> b \<and> s' = s"
  by (auto simp: tx_assert_def tx_return_def tx_throw_def)

lemma tx_ok_or_Inr [tx_simps]: "tx_ok_or e v s = Inr (x, s') \<longleftrightarrow> v = Some x \<and> s' = s"
  by (auto simp: tx_ok_or_def tx_return_def tx_throw_def split: option.splits)

lemma tx_map_err_Inr [tx_simps]: "tx_map_err g m s = Inr r \<longleftrightarrow> m s = Inr r"
  by (auto simp: tx_map_err_def split: sum.splits)

text \<open>The same for a failing run.\<close>

lemma tx_bind_Inl:
  "tx_bind m f s = Inl e \<longleftrightarrow> m s = Inl e \<or> (\<exists>x s1. m s = Inr (x, s1) \<and> f x s1 = Inl e)"
  by (auto simp: tx_bind_def split: sum.splits)

lemma tx_map_err_Inl: "tx_map_err g m s = Inl e \<longleftrightarrow> (\<exists>e0. m s = Inl e0 \<and> e = g e0)"
  by (auto simp: tx_map_err_def split: sum.splits)

text \<open>Forward rules, to compute a run from the results of its steps.\<close>

lemma tx_bind_step: "m s = Inr (x, s') \<Longrightarrow> tx_bind m f s = f x s'"
  by (simp add: tx_bind_def)

lemma tx_bind_stop: "m s = Inl e \<Longrightarrow> tx_bind m f s = Inl e"
  by (simp add: tx_bind_def)

lemma tx_bind_assoc: "tx_bind (tx_bind m f) g = tx_bind m (\<lambda>x. tx_bind (f x) g)"
  by (rule ext) (auto simp: tx_bind_def split: sum.splits)

lemma tx_bind_return_left: "tx_bind (tx_return x) f = f x"
  by (rule ext) (simp add: tx_bind_def tx_return_def)

lemma commit_tx_Inl: "m s = Inl e \<Longrightarrow> commit_tx rel m s = (Inl e, s)"
  by (simp add: commit_tx_def)

lemma commit_tx_Inr: "m s = Inr (x, s') \<Longrightarrow> commit_tx rel m s = (Inr x, rel s')"
  by (simp add: commit_tx_def)

lemma commit_tx_success:
  "commit_tx rel m s = (Inr x, t) \<longleftrightarrow> (\<exists>s'. m s = Inr (x, s') \<and> t = rel s')"
  by (auto simp: commit_tx_def split: sum.splits)

lemma commit_tx_failure: "commit_tx rel m s = (Inl e, t) \<longleftrightarrow> m s = Inl e \<and> t = s"
  by (auto simp: commit_tx_def split: sum.splits)

lemma commit_cases:
  assumes "commit_tx rel m s = (r, s')"
  obtains (rolled_back) e where "r = Inl e" "s' = s"
    | (committed) x t where "r = Inr x" "m s = Inr (x, t)" "s' = rel t"
  using assms by (cases r) (auto simp: commit_tx_success commit_tx_failure)

subsection \<open>Preservation\<close>

text \<open>
  \<open>keeps I m\<close>: a run of \<open>m\<close> that succeeds leaves \<open>I\<close> true. The rules follow the
  combinators, so an operation keeps an invariant as soon as its statements do.
\<close>

definition keeps :: "('s \<Rightarrow> bool) \<Rightarrow> ('s, 'e, 'a) tx \<Rightarrow> bool" where
  "keeps I m \<longleftrightarrow> (\<forall>s x s'. I s \<longrightarrow> m s = Inr (x, s') \<longrightarrow> I s')"

named_theorems keeps_intros "preservation rules for the combinators and the operations"

lemma keepsD: "keeps I m \<Longrightarrow> m s = Inr (x, s') \<Longrightarrow> I s \<Longrightarrow> I s'"
  by (auto simp: keeps_def)

lemma keeps_return [keeps_intros]: "keeps I (tx_return x)"
  by (auto simp: keeps_def tx_simps)

lemma keeps_throw [keeps_intros]: "keeps I (tx_throw e)"
  by (auto simp: keeps_def tx_simps)

lemma keeps_gets [keeps_intros]: "keeps I (tx_gets f)"
  by (auto simp: keeps_def tx_simps)

lemma keeps_assert [keeps_intros]: "keeps I (tx_assert b e)"
  by (auto simp: keeps_def tx_simps)

lemma keeps_ok_or [keeps_intros]: "keeps I (tx_ok_or e v)"
  by (auto simp: keeps_def tx_simps)

lemma keeps_map_err [keeps_intros]: "keeps I m \<Longrightarrow> keeps I (tx_map_err g m)"
  by (auto simp: keeps_def tx_simps)

lemma keeps_bind [keeps_intros]:
  "keeps I m \<Longrightarrow> (\<And>x. keeps I (f x)) \<Longrightarrow> keeps I (tx_bind m f)"
  unfolding keeps_def tx_bind_Inr by blast

lemma keeps_if [keeps_intros]:
  "(b \<Longrightarrow> keeps I m) \<Longrightarrow> (\<not> b \<Longrightarrow> keeps I n) \<Longrightarrow> keeps I (if b then m else n)"
  by simp

lemma keeps_case_option [keeps_intros]:
  "(v = None \<Longrightarrow> keeps I m) \<Longrightarrow> (\<And>x. v = Some x \<Longrightarrow> keeps I (f x)) \<Longrightarrow>
   keeps I (case v of None \<Rightarrow> m | Some x \<Rightarrow> f x)"
  by (cases v) auto

lemma keeps_case_prod [keeps_intros]:
  "(\<And>a b. p = (a, b) \<Longrightarrow> keeps I (f a b)) \<Longrightarrow> keeps I (case p of (a, b) \<Rightarrow> f a b)"
  by (cases p) auto

lemma keeps_modify: "(\<And>s. I s \<Longrightarrow> I (f s)) \<Longrightarrow> keeps I (tx_modify f)"
  by (auto simp: keeps_def tx_simps)

lemma keeps_for_each [keeps_intros]:
  "(\<And>x. x \<in> set xs \<Longrightarrow> keeps I (f x)) \<Longrightarrow> keeps I (tx_for_each f xs)"
  by (induction xs) (auto intro!: keeps_intros)

lemma keeps_conj: "keeps I m \<Longrightarrow> keeps J m \<Longrightarrow> keeps (\<lambda>s. I s \<and> J s) m"
  unfolding keeps_def by blast

lemma keeps_commit:
  assumes "keeps I m" and "I s" and "\<And>t. I t \<Longrightarrow> I (rel t)"
  shows "I (snd (commit_tx rel m s))"
proof (cases "m s")
  case (Inl e)
  with assms(2) show ?thesis by (simp add: commit_tx_def)
next
  case (Inr r)
  obtain x s' where r: "r = (x, s')" by (cases r)
  with Inr assms have "I s'" by (auto dest: keepsD)
  with Inr r assms(3) show ?thesis by (simp add: commit_tx_def)
qed

section \<open>Rust integers\<close>

text \<open>
  \<open>u128\<close> values are naturals below \<open>2 ^ 128\<close>, with the overflow behaviour of each operation
  written out; \<open>u128_mul_word\<close> and \<open>u128_sat_mul_word\<close> tie them to the 128-bit words of
  the library. The workspace has no \<open>overflow-checks\<close> in a release profile, so a plain
  \<open>*\<close> or \<open>+\<close> wraps.
\<close>

definition u128_max :: nat where
  "u128_max = 2 ^ 128 - 1"

definition u128_mul :: "nat \<Rightarrow> nat \<Rightarrow> nat" where
  "u128_mul a b = (a * b) mod 2 ^ 128"

definition u128_add :: "nat \<Rightarrow> nat \<Rightarrow> nat" where
  "u128_add a b = (a + b) mod 2 ^ 128"

definition u128_sat_mul :: "nat \<Rightarrow> nat \<Rightarrow> nat" where
  "u128_sat_mul a b = min (a * b) u128_max"

definition u128_sat_add :: "nat \<Rightarrow> nat \<Rightarrow> nat" where
  "u128_sat_add a b = min (a + b) u128_max"

text \<open>\<open>BigUint::to_u128()\<close> and \<open>BigInt::to_u128()\<close>: \<open>None\<close> when the value does not fit.\<close>

definition nat_to_u128 :: "nat \<Rightarrow> nat option" where
  "nat_to_u128 n = (if n \<le> u128_max then Some n else None)"

text \<open>
  \<open>x.to_string().parse::<u128>()\<close> on a \<open>BigDecimal\<close> read from a \<open>numeric(39, 0)\<close> column,
  which holds an integer: it fails on a negative value or one past \<open>u128::MAX\<close>.
\<close>

definition dec_to_u128 :: "int \<Rightarrow> nat option" where
  "dec_to_u128 x = (if 0 \<le> x \<and> x < 2 ^ 128 then Some (nat x) else None)"

definition dec_to_u128_or :: "nat \<Rightarrow> int \<Rightarrow> nat" where
  "dec_to_u128_or d x = (case dec_to_u128 x of None \<Rightarrow> d | Some n \<Rightarrow> n)"

lemma u128_mul_word: "unat (a * b :: 128 word) = u128_mul (unat a) (unat b)"
  by (simp add: u128_mul_def unat_word_ariths)

lemma u128_add_word: "unat (a + b :: 128 word) = u128_add (unat a) (unat b)"
  by (simp add: u128_add_def unat_word_ariths)

lemma u128_mul_exact: "a * b \<le> u128_max \<Longrightarrow> u128_mul a b = a * b"
  by (simp add: u128_mul_def u128_max_def)

lemma u128_mul_bound: "u128_mul a b \<le> u128_max"
  by (simp add: u128_mul_def u128_max_def)

lemma u128_add_exact: "a + b \<le> u128_max \<Longrightarrow> u128_add a b = a + b"
  by (simp add: u128_add_def u128_max_def)

lemma u128_sat_mul_exact [simp]: "a * b \<le> u128_max \<Longrightarrow> u128_sat_mul a b = a * b"
  by (simp add: u128_sat_mul_def)

lemma u128_sat_mul_bound: "u128_sat_mul a b \<le> u128_max"
  by (simp add: u128_sat_mul_def)

lemma u128_sat_mul_le: "u128_sat_mul a b \<le> a * b"
  by (simp add: u128_sat_mul_def)

lemma u128_sat_mul_mono: "a \<le> a' \<Longrightarrow> b \<le> b' \<Longrightarrow> u128_sat_mul a b \<le> u128_sat_mul a' b'"
  unfolding u128_sat_mul_def by (rule min.mono) (auto intro: mult_le_mono)

lemma u128_sat_mul_0 [simp]: "u128_sat_mul a 0 = 0" "u128_sat_mul 0 b = 0"
  by (simp_all add: u128_sat_mul_def)

lemma dec_to_u128_or_of_nat [simp]: "n \<le> u128_max \<Longrightarrow> dec_to_u128_or d (int n) = n"
  by (auto simp: dec_to_u128_or_def dec_to_u128_def u128_max_def)

lemma dec_to_u128_or_0_le: "0 \<le> x \<Longrightarrow> int (dec_to_u128_or 0 x) \<le> x"
  by (auto simp: dec_to_u128_or_def dec_to_u128_def)

section \<open>Rows\<close>

text \<open>
  A table is the list of its rows in insertion order. \<open>update_where\<close> is an \<open>UPDATE\<close> of
  the rows a \<open>WHERE\<close> clause selects.
\<close>

definition update_where :: "('r \<Rightarrow> bool) \<Rightarrow> ('r \<Rightarrow> 'r) \<Rightarrow> 'r list \<Rightarrow> 'r list" where
  "update_where p f rows = map (\<lambda>r. if p r then f r else r) rows"

lemma length_update_where [simp]: "length (update_where p f rows) = length rows"
  by (simp add: update_where_def)

lemma update_where_Nil [simp]: "update_where p f [] = []"
  by (simp add: update_where_def)

lemma update_where_Cons [simp]:
  "update_where p f (r # rows) = (if p r then f r else r) # update_where p f rows"
  by (simp add: update_where_def)

lemma set_update_where:
  "set (update_where p f rows) = (\<lambda>r. if p r then f r else r) ` set rows"
  by (simp add: update_where_def)

lemma in_set_update_where:
  "r \<in> set (update_where p f rows) \<longleftrightarrow>
     (\<exists>r0\<in>set rows. r = (if p r0 then f r0 else r0))"
  by (auto simp: update_where_def)

lemma map_update_where:
  "(\<And>r. r \<in> set rows \<Longrightarrow> p r \<Longrightarrow> g (f r) = g r) \<Longrightarrow> map g (update_where p f rows) = map g rows"
  by (simp add: update_where_def)

lemma find_Some_props: "List.find p xs = Some x \<Longrightarrow> p x \<and> x \<in> set xs"
  by (auto simp: find_Some_iff)

lemma find_append:
  "List.find p (xs @ ys) = (case List.find p xs of None \<Rightarrow> List.find p ys | Some x \<Rightarrow> Some x)"
  by (induction xs) auto

lemma find_key_distinct:
  "distinct (map k xs) \<Longrightarrow> x \<in> set xs \<Longrightarrow> List.find (\<lambda>y. k y = k x) xs = Some x"
  by (induction xs) (auto simp: image_iff)

lemma find_update_where_key:
  assumes "\<And>r. k (f r) = k r"
  shows "List.find (\<lambda>r. k r = a) (update_where (\<lambda>r. k r = b) f rows) =
    (if a = b then map_option f (List.find (\<lambda>r. k r = a) rows)
     else List.find (\<lambda>r. k r = a) rows)"
  using assms by (induction rows) auto

text \<open>Sums over the rows of a table.\<close>

lemma sum_map_nonneg:
  fixes f :: "'a \<Rightarrow> int"
  shows "(\<And>y. y \<in> set xs \<Longrightarrow> 0 \<le> f y) \<Longrightarrow> 0 \<le> (\<Sum>y\<leftarrow>xs. f y)"
  by (rule sum_list_nonneg) auto

lemma sum_map_member:
  fixes f :: "'a \<Rightarrow> int"
  shows "x \<in> set xs \<Longrightarrow> (\<And>y. y \<in> set xs \<Longrightarrow> 0 \<le> f y) \<Longrightarrow> f x \<le> (\<Sum>y\<leftarrow>xs. f y)"
proof (induction xs)
  case (Cons y ys)
  have "0 \<le> f y" and "0 \<le> (\<Sum>z\<leftarrow>ys. f z)" using Cons.prems(2) by (auto intro: sum_map_nonneg)
  moreover have "f x \<le> (\<Sum>z\<leftarrow>ys. f z)" if "x \<noteq> y" using Cons that by simp
  ultimately show ?case by (cases "x = y") simp_all
qed simp

lemma sum_map_zero:
  fixes f :: "'a \<Rightarrow> int"
  shows "(\<And>y. y \<in> set xs \<Longrightarrow> f y = 0) \<Longrightarrow> (\<Sum>y\<leftarrow>xs. f y) = 0"
  by (induction xs) auto

lemma update_where_none: "(\<And>r. r \<in> set rows \<Longrightarrow> \<not> p r) \<Longrightarrow> update_where p f rows = rows"
  by (induction rows) auto

lemma sum_update_where_key:
  fixes g :: "'r \<Rightarrow> int"
  assumes "distinct (map k rows)" and "r \<in> set rows"
  shows "(\<Sum>x\<leftarrow>update_where (\<lambda>x. k x = k r) f rows. g x) = (\<Sum>x\<leftarrow>rows. g x) - g r + g (f r)"
  using assms
proof (induction rows)
  case (Cons x xs)
  show ?case
  proof (cases "x = r")
    case True
    with Cons.prems(1) have "update_where (\<lambda>y. k y = k r) f xs = xs"
      by (intro update_where_none) (auto simp: image_iff)
    with True show ?thesis by simp
  next
    case False
    with Cons.prems have "r \<in> set xs" and "k x \<noteq> k r" by (auto simp: image_iff)
    with Cons show ?thesis by simp
  qed
qed simp

lemma find_key_Some:
  "List.find (\<lambda>r. k r = a) rows = Some r \<Longrightarrow> r \<in> set rows \<and> k r = a"
  by (drule find_Some_props) simp

section \<open>Keyed operations\<close>

text \<open>
  What a keyed operation promises: a replay changes nothing and answers with the stored
  result, and a first run stores its result under the key.
\<close>

locale keyed_operation =
  fixes lookup :: "'s \<Rightarrow> 'k \<Rightarrow> 'r option"
    and run :: "'k \<Rightarrow> 's \<Rightarrow> ('e + 'r \<times> bool) \<times> 's"
  assumes replay:
      "lookup s k = Some r \<Longrightarrow> run k s = (x, s') \<Longrightarrow> s' = s \<and> (\<forall>y. x = Inr y \<longrightarrow> y = (r, False))"
    and stored: "run k s = (Inr (r, b), s') \<Longrightarrow> lookup s' k = Some r"
    and failed: "run k s = (Inl e, s') \<Longrightarrow> s' = s"
begin

primrec retries :: "nat \<Rightarrow> 'k \<Rightarrow> 's \<Rightarrow> 's" where
  "retries 0 k s = s"
| "retries (Suc n) k s = retries n k (snd (run k s))"

lemma retries_after:
  assumes "lookup s k = Some r"
  shows "retries n k s = s"
  using assms
proof (induction n)
  case (Suc n)
  obtain x s' where run: "run k s = (x, s')" by (cases "run k s")
  with replay [OF Suc.prems run] Suc show ?case by simp
qed simp

lemma retries_once:
  assumes "run k s = (Inr (r, b), s')"
  shows "retries (Suc n) k s = s' \<and> lookup s' k = Some r"
  using stored [OF assms] retries_after assms by simp

lemma retries_one_of: "retries n k s = s \<or> (\<exists>r b. run k s = (Inr (r, b), retries n k s))"
proof (induction n)
  case (Suc n)
  obtain x s' where run: "run k s = (x, s')" by (cases "run k s")
  show ?case
  proof (cases x)
    case (Inl e)
    with run failed have "s' = s" by simp
    with run Suc show ?thesis by simp
  next
    case (Inr y)
    obtain r b where y: "y = (r, b)" by (cases y)
    with run Inr have "run k s = (Inr (r, b), s')" by simp
    with retries_once [OF this, of n] show ?thesis by auto
  qed
qed simp

end

end
