(* ===== verification/Text.thy ===== *)
theory Text
  imports Prelude
begin

text \<open>
  The text the code formats and parses: decimal numbers (\<open>to_string\<close>, \<open>parse::<u128>\<close>,
  zero padding), UUIDs in their hyphenated form, ASCII case folding and trimming, and the
  composite keys \<open>"{user_id}:{key}"\<close>. A string is the list of its bytes, so a non-ASCII
  character of a memo is its UTF-8 sequence.

  The lemmas show that printing a number and parsing it back gives the number, that distinct
  UUIDs print differently, and that a scoped key determines both its user and the client's
  part.
\<close>

section \<open>Decimal numbers\<close>

definition digit_char :: "nat \<Rightarrow> char" where
  "digit_char d = char_of (48 + d)"

fun show_nat :: "nat \<Rightarrow> string" where
  "show_nat n = (if n < 10 then [digit_char n] else show_nat (n div 10) @ [digit_char (n mod 10)])"

declare show_nat.simps [simp del]

definition show_int :: "int \<Rightarrow> string" where
  "show_int x = (if x < 0 then CHR ''-'' # show_nat (nat (- x)) else show_nat (nat x))"

text \<open>\<open>format!("{:0width$}", n)\<close>.\<close>

definition show_padded :: "nat \<Rightarrow> nat \<Rightarrow> string" where
  "show_padded width n = replicate (width - length (show_nat n)) (CHR ''0'') @ show_nat n"

definition digit_value :: "char \<Rightarrow> nat option" where
  "digit_value c =
     (let k = of_char c :: nat in if 48 \<le> k \<and> k \<le> 57 then Some (k - 48) else None)"

fun parse_digits :: "nat \<Rightarrow> string \<Rightarrow> nat option" where
  "parse_digits acc [] = Some acc"
| "parse_digits acc (c # cs) =
     (case digit_value c of None \<Rightarrow> None | Some d \<Rightarrow> parse_digits (acc * 10 + d) cs)"

text \<open>
  \<open>str::parse::<u128>\<close>: an optional \<open>+\<close>, at least one digit, digits only, and an error
  when the value is past \<open>u128::MAX\<close>.
\<close>

definition parse_u128 :: "string \<Rightarrow> nat option" where
  "parse_u128 s =
     (let body = (case s of [] \<Rightarrow> [] | c # cs \<Rightarrow> if c = CHR ''+'' then cs else s)
      in if body = [] then None
         else case parse_digits 0 body of
           None \<Rightarrow> None
         | Some n \<Rightarrow> if n \<le> u128_max then Some n else None)"

lemma digit_value_char [simp]: "d < 10 \<Longrightarrow> digit_value (digit_char d) = Some d"
  by (simp add: digit_value_def digit_char_def Let_def)

lemma digit_char_not_plus: "d < 10 \<Longrightarrow> digit_char d \<noteq> CHR ''+''"
proof
  assume "d < 10" and "digit_char d = CHR ''+''"
  then have "digit_value (CHR ''+'') = Some d" using digit_value_char by metis
  then show False by (simp add: digit_value_def)
qed

lemma parse_digits_append:
  "parse_digits acc (xs @ ys) =
    (case parse_digits acc xs of None \<Rightarrow> None | Some n \<Rightarrow> parse_digits n ys)"
  by (induction xs arbitrary: acc) (auto split: option.splits)

lemma show_nat_not_Nil [simp]: "show_nat n \<noteq> []"
  by (subst show_nat.simps) simp

lemma parse_digits_show_nat: "parse_digits 0 (show_nat n) = Some n"
proof (induction n rule: show_nat.induct)
  case (1 n)
  show ?case
  proof (cases "n < 10")
    case True
    then show ?thesis by (subst show_nat.simps) simp
  next
    case False
    with "1.IH" have "parse_digits 0 (show_nat (n div 10)) = Some (n div 10)" by simp
    with False show ?thesis by (subst show_nat.simps) (simp add: parse_digits_append)
  qed
qed

lemma show_nat_digits: "c \<in> set (show_nat n) \<Longrightarrow> \<exists>d<10. c = digit_char d"
proof (induction n rule: show_nat.induct)
  case (1 n)
  then show ?case
    by (subst (asm) (2) show_nat.simps) (auto split: if_splits intro: exI [of _ "n mod 10"])
qed

lemma parse_u128_show_nat: "n \<le> u128_max \<Longrightarrow> parse_u128 (show_nat n) = Some n"
proof -
  assume le: "n \<le> u128_max"
  obtain c cs where s: "show_nat n = c # cs" by (cases "show_nat n") auto
  with show_nat_digits [of c n] have "c \<noteq> CHR ''+''" by (auto simp: digit_char_not_plus)
  with s le show ?thesis using parse_digits_show_nat [of n]
    by (simp add: parse_u128_def Let_def)
qed

lemma show_nat_inj: "show_nat m = show_nat n \<longleftrightarrow> m = n"
  using parse_digits_show_nat by (metis option.inject)

section \<open>ASCII case and white space\<close>

definition lower_char :: "char \<Rightarrow> char" where
  "lower_char c = (let k = of_char c :: nat in if 65 \<le> k \<and> k \<le> 90 then char_of (k + 32) else c)"

definition upper_char :: "char \<Rightarrow> char" where
  "upper_char c = (let k = of_char c :: nat in if 97 \<le> k \<and> k \<le> 122 then char_of (k - 32) else c)"

definition eq_ignore_case :: "string \<Rightarrow> string \<Rightarrow> bool" where
  "eq_ignore_case s t \<longleftrightarrow> map lower_char s = map lower_char t"

definition is_space :: "char \<Rightarrow> bool" where
  "is_space c \<longleftrightarrow> (let k = of_char c :: nat in (9 \<le> k \<and> k \<le> 13) \<or> k = 32)"

text \<open>\<open>str::trim\<close> on ASCII text.\<close>

definition trim :: "string \<Rightarrow> string" where
  "trim s = rev (dropWhile is_space (rev (dropWhile is_space s)))"

text \<open>\<open>trim_end_matches(c)\<close>.\<close>

definition trim_end_char :: "char \<Rightarrow> string \<Rightarrow> string" where
  "trim_end_char c s = rev (dropWhile (\<lambda>x. x = c) (rev s))"

section \<open>UUIDs and scoped keys\<close>

text \<open>
  A UUID is the natural number its 128 bits spell; it prints as 32 hexadecimal digits in
  groups of 8, 4, 4, 4 and 12.
\<close>

type_synonym uuid = nat

definition hex_char :: "nat \<Rightarrow> char" where
  "hex_char d = (if d < 10 then char_of (48 + d) else char_of (87 + d))"

primrec hex_digits :: "nat \<Rightarrow> nat \<Rightarrow> string" where
  "hex_digits 0 n = []"
| "hex_digits (Suc k) n = hex_digits k (n div 16) @ [hex_char (n mod 16)]"

definition show_uuid :: "uuid \<Rightarrow> string" where
  "show_uuid u =
     (let h = hex_digits 32 u
      in take 8 h @ ''-'' @ take 4 (drop 8 h) @ ''-'' @ take 4 (drop 12 h) @ ''-'' @
         take 4 (drop 16 h) @ ''-'' @ drop 20 h)"

text \<open>\<open>format!("{user_id}:{key}")\<close>.\<close>

definition scoped_key :: "uuid \<Rightarrow> string \<Rightarrow> string" where
  "scoped_key user key = show_uuid user @ '':'' @ key"

lemma length_hex_digits [simp]: "length (hex_digits k n) = k"
  by (induction k arbitrary: n) auto

lemma hex_char_inj: "a < 16 \<Longrightarrow> b < 16 \<Longrightarrow> hex_char a = hex_char b \<Longrightarrow> a = b"
proof -
  assume ab: "a < 16" "b < 16" and eq: "hex_char a = hex_char b"
  have "of_char (hex_char a) = (of_char (hex_char b) :: nat)" using eq by simp
  with ab show "a = b" by (auto simp: hex_char_def split: if_splits)
qed

lemma hex_digits_inj: "m < 16 ^ k \<Longrightarrow> n < 16 ^ k \<Longrightarrow> hex_digits k m = hex_digits k n \<Longrightarrow> m = n"
proof (induction k arbitrary: m n)
  case 0
  then show ?case by simp
next
  case (Suc k)
  from Suc.prems have low: "hex_char (m mod 16) = hex_char (n mod 16)"
    and high: "hex_digits k (m div 16) = hex_digits k (n div 16)"
    by simp_all
  from low have "m mod 16 = n mod 16" by (rule hex_char_inj [rotated -1]) simp_all
  moreover from Suc.prems high have "m div 16 = n div 16"
    by (intro Suc.IH) (simp_all add: less_mult_imp_div_less mult.commute)
  ultimately show ?case by (metis div_mult_mod_eq)
qed

lemma length_show_uuid [simp]: "length (show_uuid u) = 36"
  by (simp add: show_uuid_def Let_def)

lemma show_uuid_inj:
  assumes "u < 2 ^ 128" and "v < 2 ^ 128" and "show_uuid u = show_uuid v"
  shows "u = v"
proof -
  let ?f = "\<lambda>s. take 8 s @ take 4 (drop 9 s) @ take 4 (drop 14 s) @ take 4 (drop 19 s) @ drop 24 s"
  have parts: "?f (show_uuid w) = hex_digits 32 w" for w
  proof -
    let ?h = "hex_digits 32 w"
    have "?f (show_uuid w) =
        take 8 ?h @ take 4 (drop 8 ?h) @ take 4 (drop 12 ?h) @ take 4 (drop 16 ?h) @ drop 20 ?h"
      by (simp add: show_uuid_def Let_def)
    also have "\<dots> = ?h"
    proof -
      have "drop 16 ?h = take 4 (drop 16 ?h) @ drop 20 ?h"
        and "drop 12 ?h = take 4 (drop 12 ?h) @ drop 16 ?h"
        and "drop 8 ?h = take 4 (drop 8 ?h) @ drop 12 ?h"
        using append_take_drop_id [of 4 "drop 16 ?h"] append_take_drop_id [of 4 "drop 12 ?h"]
          append_take_drop_id [of 4 "drop 8 ?h"] by simp_all
      then show ?thesis by (metis append_take_drop_id)
    qed
    finally show ?thesis .
  qed
  from assms(3) have "hex_digits 32 u = hex_digits 32 v" using parts by metis
  then show ?thesis using assms(1,2) by (intro hex_digits_inj [of u 32 v]) simp_all
qed

lemma scoped_key_inj:
  assumes "u < 2 ^ 128" and "v < 2 ^ 128"
  shows "scoped_key u a = scoped_key v b \<longleftrightarrow> u = v \<and> a = b"
proof
  assume "scoped_key u a = scoped_key v b"
  then have "show_uuid u = show_uuid v" and "a = b"
    by (auto simp: scoped_key_def dest: append_eq_append_conv [THEN iffD1, rotated])
  with show_uuid_inj [OF assms] show "u = v \<and> a = b" by simp
qed auto

section \<open>UTF-8 pieces of the memos\<close>

definition utf8_middot :: string where
  "utf8_middot = [CHR 0xC2, CHR 0xB7]"

definition utf8_times :: string where
  "utf8_times = [CHR 0xC3, CHR 0x97]"

definition utf8_arrow :: string where
  "utf8_arrow = [CHR 0xE2, CHR 0x86, CHR 0x92]"

definition utf8_ellipsis :: string where
  "utf8_ellipsis = [CHR 0xE2, CHR 0x80, CHR 0xA6]"

end
