(* ===== verification/SwapMath.thy ===== *)
theory SwapMath
  imports Coins
begin

text \<open>
  \<open>crates/shared/src/swap.rs\<close>: the swap quote, in arbitrary-precision integers with the
  results narrowed to \<open>u128\<close>. \<open>None\<close> is the panic of the \<open>BigUint\<close> subtraction when the fee
  rate exceeds 100 percent.

  The lemmas give the quote in closed form, bound it by the value paid in, and show that a
  round trip through the opposite pair never returns more than it started with.
\<close>

datatype SwapError = ZeroAmount | InvalidPrices

record SwapQuote =
  from_amount :: nat
  to_amount :: nat
  fee_amount :: nat
  fee_bps :: nat
  price_from :: nat
  price_to :: nat
  price_decimals :: nat

definition to_u128_or_max :: "nat \<Rightarrow> nat" where
  "to_u128_or_max n = (case nat_to_u128 n of None \<Rightarrow> u128_max | Some v \<Rightarrow> v)"

definition compute_swap ::
    "Coin \<Rightarrow> Coin \<Rightarrow> nat \<Rightarrow> nat \<Rightarrow> nat \<Rightarrow> nat \<Rightarrow> nat \<Rightarrow> (SwapError + SwapQuote) option" where
  "compute_swap from_coin to_coin amount pf pt bps pdec =
     (if amount = 0 then Some (Inl ZeroAmount)
      else if pf = 0 \<or> pt = 0 then Some (Inl InvalidPrices)
      else
        let from_dec = decimals (coin_config from_coin);
            to_dec = decimals (coin_config to_coin);
            numer = amount * pf * 10 ^ to_dec;
            denom = pt * 10 ^ from_dec;
            gross = numer div denom;
            fee = gross * bps div 10000
        in if gross < fee then None
           else Some (Inr
             \<lparr>from_amount = amount, to_amount = to_u128_or_max (gross - fee),
              fee_amount = to_u128_or_max fee, fee_bps = bps, price_from = pf, price_to = pt,
              price_decimals = pdec\<rparr>))"

text \<open>The quote before the fee: the decimals of the two coins cancel.\<close>

definition swap_gross :: "nat \<Rightarrow> nat \<Rightarrow> nat \<Rightarrow> nat" where
  "swap_gross amount pf pt = amount * pf div pt"

lemma to_u128_or_max_le: "to_u128_or_max n \<le> n"
  by (auto simp: to_u128_or_max_def nat_to_u128_def)

lemma to_u128_or_max_bound [simp]: "to_u128_or_max n \<le> u128_max"
  by (auto simp: to_u128_or_max_def nat_to_u128_def)

lemma to_u128_or_max_exact [simp]: "n \<le> u128_max \<Longrightarrow> to_u128_or_max n = n"
  by (simp add: to_u128_or_max_def nat_to_u128_def)

lemma swap_fee_le: "bps \<le> 10000 \<Longrightarrow> gross * bps div 10000 \<le> (gross::nat)"
proof -
  assume "bps \<le> 10000"
  then have "gross * bps div 10000 \<le> gross * 10000 div 10000"
    by (intro div_le_mono mult_le_mono) simp_all
  then show ?thesis by simp
qed

lemma compute_swap_Inr:
  "compute_swap a b amount pf pt bps pdec = Some (Inr q) \<Longrightarrow>
     0 < amount \<and> 0 < pf \<and> 0 < pt \<and>
     q = \<lparr>from_amount = amount,
          to_amount = to_u128_or_max (swap_gross amount pf pt - swap_gross amount pf pt * bps div 10000),
          fee_amount = to_u128_or_max (swap_gross amount pf pt * bps div 10000),
          fee_bps = bps, price_from = pf, price_to = pt, price_decimals = pdec\<rparr>"
  by (auto simp: compute_swap_def swap_gross_def Let_def split: if_splits)

lemma to_amount_le_gross:
  assumes "compute_swap a b amount pf pt bps pdec = Some (Inr q)"
  shows "to_amount q \<le> swap_gross amount pf pt"
proof -
  let ?g = "swap_gross amount pf pt"
  from compute_swap_Inr [OF assms]
  have "to_amount q = to_u128_or_max (?g - ?g * bps div 10000)" by simp
  also have "\<dots> \<le> ?g - ?g * bps div 10000" by (rule to_u128_or_max_le)
  finally show ?thesis by simp
qed

lemma to_u128_or_max_min: "to_u128_or_max n = min u128_max n"
  by (auto simp: to_u128_or_max_def nat_to_u128_def)

text \<open>
  C28. The outcome of every quote for a positive amount at positive prices. It panics exactly
  when the fee, the floor of the fee rate of the gross amount, exceeds the gross amount, so never
  for a rate of at most 100 percent; it is never refused. A quote that is given names that fee
  and the rest as the payout, each cut off at the largest \<open>u128\<close>; while the gross amount
  fits \<open>u128\<close> and the rate is at most 100 percent the two add up to the gross amount.
\<close>

theorem compute_swap_exact:
  assumes "0 < amount" and "0 < pf" and "0 < pt"
  shows "(compute_swap a b amount pf pt bps pdec = None \<longleftrightarrow>
      amount * pf div pt < (amount * pf div pt) * bps div 10000) \<and>
    (bps \<le> 10000 \<longrightarrow> compute_swap a b amount pf pt bps pdec \<noteq> None) \<and>
    (compute_swap a b amount pf pt bps pdec \<noteq> None \<longrightarrow>
      (\<exists>q. compute_swap a b amount pf pt bps pdec = Some (Inr q) \<and> from_amount q = amount \<and>
        fee_amount q = min u128_max ((amount * pf div pt) * bps div 10000) \<and>
        to_amount q = min u128_max (amount * pf div pt - (amount * pf div pt) * bps div 10000) \<and>
        (bps \<le> 10000 \<longrightarrow> amount * pf div pt \<le> u128_max \<longrightarrow>
           fee_amount q = (amount * pf div pt) * bps div 10000 \<and>
           fee_amount q + to_amount q = amount * pf div pt)))"
proof -
  let ?c = "compute_swap a b amount pf pt bps pdec" and ?g = "amount * pf div pt"
  let ?fee = "?g * bps div 10000"
  have none: "?c = None \<longleftrightarrow> ?g < ?fee"
    using assms by (simp add: compute_swap_def Let_def)
  have le: "bps \<le> 10000 \<Longrightarrow> ?fee \<le> ?g" by (rule swap_fee_le)
  have some: "\<exists>q. ?c = Some (Inr q)" if "?c \<noteq> None"
    using that assms by (auto simp: compute_swap_def Let_def split: if_splits)
  have amounts: "from_amount q = amount \<and> fee_amount q = min u128_max ?fee \<and>
      to_amount q = min u128_max (?g - ?fee)" if "?c = Some (Inr q)" for q
    using compute_swap_Inr [OF that] by (simp add: swap_gross_def to_u128_or_max_min)
  have exact: "fee_amount q = ?fee \<and> fee_amount q + to_amount q = ?g"
    if "?c = Some (Inr q)" "bps \<le> 10000" "?g \<le> u128_max" for q
    using amounts [OF that(1)] le [OF that(2)] that(3) by simp
  show ?thesis
  proof (intro conjI impI)
    show "?c = None \<longleftrightarrow> ?g < ?fee" by (rule none)
    show "?c \<noteq> None" if "bps \<le> 10000" using none le [OF that] by simp
    assume "?c \<noteq> None"
    then obtain q where "?c = Some (Inr q)" using some by blast
    then show "\<exists>q. ?c = Some (Inr q) \<and> from_amount q = amount \<and> fee_amount q = min u128_max ?fee \<and>
        to_amount q = min u128_max (?g - ?fee) \<and>
        (bps \<le> 10000 \<longrightarrow> ?g \<le> u128_max \<longrightarrow> fee_amount q = ?fee \<and> fee_amount q + to_amount q = ?g)"
      using amounts exact by blast
  qed
qed

theorem compute_swap_exact_witness:
  "(\<exists>q. compute_swap Btc Ltc 1000000 60000 80 25 8 = Some (Inr q) \<and>
      fee_amount q = 1875000 \<and> to_amount q = 748125000) \<and>
   compute_swap Btc Ltc 1000000 60000 80 10001 8 = None"
  using compute_swap_exact [of 1000000 60000 80 Btc Ltc 25 8]
    compute_swap_exact [of 1000000 60000 80 Btc Ltc 10001 8]
  by (auto simp: u128_max_def)

lemma swap_value_bound:
  assumes "compute_swap a b amount pf pt bps pdec = Some (Inr q)"
  shows "to_amount q * pt \<le> from_amount q * pf"
proof -
  have "to_amount q * pt \<le> swap_gross amount pf pt * pt"
    using to_amount_le_gross [OF assms] by (rule mult_le_mono1)
  also have "\<dots> \<le> amount * pf" by (simp add: swap_gross_def)
  finally show ?thesis using compute_swap_Inr [OF assms] by simp
qed

text \<open>
  A swap never pays out more value than was paid in, at the quoted prices, even when a
  result saturates, and both results fit \<open>u128\<close>.
\<close>

theorem swap_never_creates_value:
  assumes "compute_swap a b amount pf pt bps pdec = Some (Inr q)"
  shows "to_amount q * pt \<le> from_amount q * pf \<and> from_amount q = amount \<and>
    to_amount q \<le> u128_max \<and> fee_amount q \<le> u128_max"
  using swap_value_bound [OF assms] compute_swap_Inr [OF assms] by simp

theorem swap_never_creates_value_witness:
  "\<exists>q. compute_swap Btc Doge 500 7 3 25 8 = Some (Inr q) \<and> to_amount q * 3 \<le> from_amount q * 7"
proof -
  have "\<exists>q. compute_swap Btc Doge 500 7 3 25 8 = Some (Inr q)"
    by (simp add: compute_swap_def)
  then obtain q where q: "compute_swap Btc Doge 500 7 3 25 8 = Some (Inr q)" ..
  with swap_never_creates_value [OF q] show ?thesis by blast
qed

text \<open>
  Swapping there and back at the same prices never returns more than the amount that
  went in.
\<close>

theorem swap_roundtrip_no_profit:
  assumes "compute_swap a b amount pf pt bps pdec = Some (Inr q)"
    and "compute_swap b a (to_amount q) pt pf bps' pdec' = Some (Inr q')"
  shows "to_amount q' \<le> amount"
proof -
  have pf: "0 < pf" using compute_swap_Inr [OF assms(1)] by simp
  have "to_amount q' \<le> to_amount q * pt div pf"
    using to_amount_le_gross [OF assms(2)] by (simp add: swap_gross_def)
  also have "\<dots> \<le> amount * pf div pf"
    using swap_value_bound [OF assms(1)] compute_swap_Inr [OF assms(1)]
    by (intro div_le_mono) simp
  finally show ?thesis using pf by simp
qed

theorem swap_roundtrip_no_profit_witness:
  "\<exists>q q'. compute_swap Btc Ltc 1000 50 3 25 8 = Some (Inr q) \<and>
     compute_swap Ltc Btc (to_amount q) 3 50 25 8 = Some (Inr q') \<and> to_amount q' \<le> 1000"
proof -
  obtain q where q: "compute_swap Btc Ltc 1000 50 3 25 8 = Some (Inr q)"
    by (simp add: compute_swap_def)
  then have "to_amount q = 16625"
    by (auto simp: compute_swap_def to_u128_or_max_def nat_to_u128_def u128_max_def)
  then obtain q' where q': "compute_swap Ltc Btc (to_amount q) 3 50 25 8 = Some (Inr q')"
    by (simp add: compute_swap_def)
  show ?thesis using q q' swap_roundtrip_no_profit [OF q q'] by blast
qed

end
