(* ===== verification/StakeMath.thy ===== *)
theory StakeMath
  imports Text
begin

text \<open>
  \<open>crates/shared/src/stake.rs\<close>: the plan table and the two reward formulas. The lemmas show
  that a reward never exceeds the advertised rate (saturation only lowers it), that it is
  exact while the product fits \<open>u128\<close>, and that it grows with the elapsed time.
\<close>

record StakePlan =
  lock_days :: nat
  reward_bps :: nat
  plan_label :: string

definition STAKE_PLANS :: "StakePlan list" where
  "STAKE_PLANS =
     [\<lparr>lock_days = 0, reward_bps = 200, plan_label = ''Flexible''\<rparr>,
      \<lparr>lock_days = 7, reward_bps = 300, plan_label = ''Starter '' @ utf8_middot @ '' 7d''\<rparr>,
      \<lparr>lock_days = 30, reward_bps = 600, plan_label = ''Standard '' @ utf8_middot @ '' 30d''\<rparr>,
      \<lparr>lock_days = 90, reward_bps = 1000, plan_label = ''Growth '' @ utf8_middot @ '' 90d''\<rparr>,
      \<lparr>lock_days = 180, reward_bps = 1500, plan_label = ''Locked '' @ utf8_middot @ '' 180d''\<rparr>]"

definition is_flexible_plan :: "nat \<Rightarrow> bool" where
  "is_flexible_plan days = (days = 0)"

definition calc_stake_reward :: "nat \<Rightarrow> nat \<Rightarrow> nat \<Rightarrow> nat" where
  "calc_stake_reward amt bps days =
     u128_sat_mul (u128_sat_mul amt bps) days div (10000 * 365)"

text \<open>The cast \<open>as u32\<close> keeps the low 32 bits of the number of days.\<close>

definition calc_flex_reward :: "nat \<Rightarrow> nat \<Rightarrow> int \<Rightarrow> nat" where
  "calc_flex_reward amt bps elapsed_ms =
     (let elapsed_days = nat (max elapsed_ms 0 div (24 * 60 * 60 * 1000)) mod 2 ^ 32
      in calc_stake_reward amt bps elapsed_days)"

lemma stake_plan_bounds:
  "plan \<in> set STAKE_PLANS \<Longrightarrow> reward_bps plan \<le> 1500 \<and> lock_days plan \<le> 180"
  by (auto simp: STAKE_PLANS_def)

lemma calc_stake_reward_mono:
  "p \<le> p' \<Longrightarrow> b \<le> b' \<Longrightarrow> d \<le> d' \<Longrightarrow> calc_stake_reward p b d \<le> calc_stake_reward p' b' d'"
  unfolding calc_stake_reward_def by (intro div_le_mono u128_sat_mul_mono)

lemma calc_stake_reward_bound: "calc_stake_reward p b d \<le> u128_max"
proof -
  have "calc_stake_reward p b d \<le> u128_sat_mul (u128_sat_mul p b) d"
    by (simp add: calc_stake_reward_def)
  also have "\<dots> \<le> u128_max" by (rule u128_sat_mul_bound)
  finally show ?thesis .
qed

lemma calc_stake_reward_exact:
  "p * b * d \<le> u128_max \<Longrightarrow> 0 < d \<Longrightarrow> calc_stake_reward p b d = p * b * d div 3650000"
proof -
  assume le: "p * b * d \<le> u128_max" and d: "0 < d"
  have "p * b \<le> p * b * d" using d by simp
  with le have "p * b \<le> u128_max" by (rule order_trans [rotated])
  with le show ?thesis by (simp add: calc_stake_reward_def)
qed

text \<open>
  A stake never earns more than its advertised annual rate pro rata: the reward times a
  year of basis points is at most principal times rate times days, also when a product
  saturates, and it is the exact floor whenever the product fits \<open>u128\<close>.
\<close>

theorem stake_reward_within_rate:
  "calc_stake_reward p b d * (10000 * 365) \<le> p * b * d \<and>
   (p * b * max d 1 \<le> u128_max \<longrightarrow> calc_stake_reward p b d = p * b * d div (10000 * 365))"
proof
  have "calc_stake_reward p b d * (10000 * 365) \<le> u128_sat_mul (u128_sat_mul p b) d"
    by (simp add: calc_stake_reward_def)
  also have "\<dots> \<le> u128_sat_mul p b * d" by (rule u128_sat_mul_le)
  also have "\<dots> \<le> p * b * d" by (intro mult_le_mono1 u128_sat_mul_le)
  finally show "calc_stake_reward p b d * (10000 * 365) \<le> p * b * d" .
  show "p * b * max d 1 \<le> u128_max \<longrightarrow> calc_stake_reward p b d = p * b * d div (10000 * 365)"
    using calc_stake_reward_exact [of p b d]
    by (cases "d = 0") (simp_all add: max.absorb1 calc_stake_reward_def [of p b 0] Suc_le_eq)
qed

theorem stake_reward_within_rate_witness:
  "calc_stake_reward 1000000 600 30 * (10000 * 365) \<le> 1000000 * 600 * 30 \<and>
   calc_stake_reward 1000000 600 30 = 4931"
  using stake_reward_within_rate [of 1000000 600 30] by (simp add: u128_max_def)

text \<open>
  A flexible stake accrues nothing before a full day, nothing for a clock that ran
  backwards, and never less as time passes (for the first eleven million years, after which
  the 32-bit day counter of the code wraps).
\<close>

theorem flex_reward_monotone:
  assumes "e \<le> e'" and "e' < 86400000 * 2 ^ 32"
  shows "calc_flex_reward p b e \<le> calc_flex_reward p b e' \<and>
    (e < 86400000 \<longrightarrow> calc_flex_reward p b e = 0)"
proof
  have wrap: "nat (max x 0 div 86400000) mod 2 ^ 32 = nat (max x 0 div 86400000)"
    if "x \<le> e'" for x
    using that assms(2) by (intro mod_less) (auto simp: nat_less_iff)
  have "nat (max e 0 div 86400000) \<le> nat (max e' 0 div 86400000)"
    using assms(1) by (intro nat_mono zdiv_mono1) auto
  with wrap [OF assms(1)] wrap [of e']
  show "calc_flex_reward p b e \<le> calc_flex_reward p b e'"
    by (simp add: calc_flex_reward_def calc_stake_reward_mono)
  show "e < 86400000 \<longrightarrow> calc_flex_reward p b e = 0"
    by (auto simp: calc_flex_reward_def calc_stake_reward_def max_def)
qed

theorem flex_reward_monotone_witness:
  "calc_flex_reward 1000000000 200 86399999 \<le> calc_flex_reward 1000000000 200 864000000 \<and>
   calc_flex_reward 1000000000 200 86399999 = 0"
  using flex_reward_monotone [of 86399999 864000000 1000000000 200] by simp

end
