(* ===== verification/F64.thy ===== *)
theory F64
  imports Complex_Main Prelude
begin

text \<open>
  The \<open>f64\<close> arithmetic of the rate model and of the airdrop multiplier. A finite
  non-negative double in the normal range is the rational it denotes, and every operation
  of the code is the exact rational operation followed by \<open>f64\<close>, the IEEE 754 rounding to
  53 significant bits, ties to even. \<open>f64_round_u\<close> is \<open>f64::round\<close> (ties away from zero)
  followed by a cast to an unsigned integer.

  The lemmas show that rounding is monotone and exact on integers below \<open>2 ^ 53\<close>, which is
  all the bounds of the rate model need.
\<close>

section \<open>Rounding to 53 bits\<close>

fun ilog2 :: "nat \<Rightarrow> nat" where
  "ilog2 n = (if n \<le> 1 then 0 else Suc (ilog2 (n div 2)))"

declare ilog2.simps [simp del]

definition pow2 :: "int \<Rightarrow> rat" where
  "pow2 k = (if 0 \<le> k then 2 ^ nat k else 1 / 2 ^ nat (- k))"

definition bexp :: "rat \<Rightarrow> int" where
  "bexp x =
     (case quotient_of x of (n, d) \<Rightarrow>
        let k = int (ilog2 (nat n)) - int (ilog2 (nat d))
        in if pow2 k \<le> x then k else k - 1)"

definition round_even :: "rat \<Rightarrow> int" where
  "round_even x =
     (let f = \<lfloor>x\<rfloor>; d = x - of_int f
      in if d < 1 / 2 then f else if 1 / 2 < d then f + 1 else if even f then f else f + 1)"

definition f64 :: "rat \<Rightarrow> rat" where
  "f64 x = (if x \<le> 0 then 0
            else let e = bexp x - 52 in of_int (round_even (x / pow2 e)) * pow2 e)"

definition f64_round_u :: "rat \<Rightarrow> nat" where
  "f64_round_u x = nat \<lfloor>x + 1 / 2\<rfloor>"

subsection \<open>Powers of two\<close>

lemma pow2_powi: "pow2 k = 2 powi k"
  by (simp add: pow2_def power_int_def power_one_over)

lemma pow2_pos [simp]: "0 < pow2 k"
  by (simp add: pow2_def)

lemma pow2_add: "pow2 (a + b) = pow2 a * pow2 b"
  by (simp add: pow2_powi power_int_add)

lemma pow2_mono: "a \<le> b \<Longrightarrow> pow2 a \<le> pow2 b"
  by (simp add: pow2_powi power_int_increasing)

lemma pow2_of_nat: "pow2 (int n) = 2 ^ n"
  by (simp add: pow2_def)

lemma pow2_diff: "pow2 (a - b) = pow2 a / pow2 b"
  by (simp add: pow2_powi power_int_diff)

lemma ilog2_bounds: "0 < n \<Longrightarrow> 2 ^ ilog2 n \<le> n \<and> n < 2 ^ Suc (ilog2 n)"
proof (induction n rule: ilog2.induct)
  case (1 n)
  show ?case
  proof (cases "n \<le> 1")
    case True
    with "1.prems" show ?thesis by (subst (1 2) ilog2.simps) simp
  next
    case False
    with "1.IH" have "2 ^ ilog2 (n div 2) \<le> n div 2 \<and> n div 2 < 2 ^ Suc (ilog2 (n div 2))"
      by simp
    with False show ?thesis by (subst (1 2) ilog2.simps) (simp, linarith)
  qed
qed

lemma bexp_bounds:
  assumes "0 < x"
  shows "pow2 (bexp x) \<le> x \<and> x < pow2 (bexp x + 1)"
proof -
  obtain n d where nd: "quotient_of x = (n, d)" by (cases "quotient_of x")
  then have x: "x = of_int n / of_int d" and d: "0 < d"
    by (auto intro: quotient_of_div quotient_of_denom_pos)
  with assms have n: "0 < n" by (auto simp: zero_less_divide_iff)
  let ?a = "ilog2 (nat n)" and ?b = "ilog2 (nat d)"
  let ?k = "int ?a - int ?b"
  have "2 ^ ?a \<le> nat n \<and> nat n < 2 ^ Suc ?a" using n by (intro ilog2_bounds) simp
  then have na: "(2::rat) ^ ?a \<le> of_int n" "(of_int n :: rat) < 2 ^ Suc ?a"
    using n by (metis (mono_tags) le_nat_iff less_imp_le nat_less_iff of_int_le_iff of_int_less_iff
      of_int_numeral of_int_power of_nat_numeral of_nat_power)+
  have "2 ^ ?b \<le> nat d \<and> nat d < 2 ^ Suc ?b" using d by (intro ilog2_bounds) simp
  then have db: "(2::rat) ^ ?b \<le> of_int d" "(of_int d :: rat) < 2 ^ Suc ?b"
    using d by (metis (mono_tags) le_nat_iff less_imp_le nat_less_iff of_int_le_iff of_int_less_iff
      of_int_numeral of_int_power of_nat_numeral of_nat_power)+
  have dpos: "(0::rat) < of_int d" using d by simp
  have "x < 2 ^ Suc ?a / 2 ^ ?b"
    unfolding x using na db dpos n by (intro frac_less) auto
  also have "2 ^ Suc ?a / 2 ^ ?b = pow2 (?k + 1)"
    by (simp add: pow2_diff pow2_add pow2_of_nat) (simp add: pow2_def)
  finally have up: "x < pow2 (?k + 1)" .
  have "2 ^ ?a / 2 ^ Suc ?b \<le> x"
    unfolding x using na db dpos n by (intro frac_le) auto
  also have "2 ^ ?a / 2 ^ Suc ?b = pow2 (?k - 1)"
    by (simp add: pow2_diff pow2_of_nat) (simp add: pow2_def)
  finally have low: "pow2 (?k - 1) \<le> x" .
  show ?thesis using up low by (auto simp: bexp_def nd Let_def)
qed

subsection \<open>Monotonicity and exactness\<close>

lemma round_even_bounds: "of_int (round_even x) \<le> x + 1 / 2 \<and> x - 1 / 2 \<le> of_int (round_even x)"
  unfolding round_even_def Let_def by (auto; linarith)

lemma round_even_of_int [simp]: "round_even (of_int z) = z"
  by (simp add: round_even_def)

lemma round_even_mono:
  assumes "x \<le> y"
  shows "round_even x \<le> round_even y"
proof (cases "\<lfloor>x\<rfloor> = \<lfloor>y\<rfloor>")
  case True
  with assms show ?thesis by (auto simp: round_even_def Let_def)
next
  case False
  with assms have "\<lfloor>x\<rfloor> + 1 \<le> \<lfloor>y\<rfloor>" using floor_mono [OF assms] by linarith
  moreover have "round_even x \<le> \<lfloor>x\<rfloor> + 1" by (simp add: round_even_def Let_def)
  moreover have "\<lfloor>y\<rfloor> \<le> round_even y" by (simp add: round_even_def Let_def)
  ultimately show ?thesis by linarith
qed

lemma f64_nonneg [simp]: "0 \<le> f64 x"
proof (cases "0 < x")
  case True
  have "round_even 0 \<le> round_even (x / pow2 (bexp x - 52))"
    using True by (intro round_even_mono) (simp add: less_imp_le)
  then have "0 \<le> round_even (x / pow2 (bexp x - 52))"
    using round_even_of_int [of 0] by simp
  then show ?thesis
    by (auto simp: f64_def Let_def intro: mult_nonneg_nonneg less_imp_le [OF pow2_pos])
qed (simp add: f64_def)

text \<open>A positive value keeps its binade: the mantissa stays between \<open>2 ^ 52\<close> and \<open>2 ^ 53\<close>.\<close>

lemma f64_binade:
  assumes "0 < x"
  shows "pow2 (bexp x) \<le> f64 x \<and> f64 x \<le> pow2 (bexp x + 1)"
proof -
  let ?e = "bexp x - 52"
  have pe: "pow2 (bexp x) = 2 ^ 52 * pow2 ?e" "pow2 (bexp x + 1) = 2 ^ 53 * pow2 ?e"
    using pow2_add [of 52 ?e] pow2_add [of 53 ?e] by (simp_all add: pow2_def algebra_simps)
  have "2 ^ 52 * pow2 ?e \<le> x" "x \<le> 2 ^ 53 * pow2 ?e"
    using bexp_bounds [OF assms] pe by auto
  then have "of_int (2 ^ 52) \<le> x / pow2 ?e" "x / pow2 ?e \<le> of_int (2 ^ 53)"
    by (simp_all add: pos_le_divide_eq pos_divide_le_eq)
  then have "round_even (of_int (2 ^ 52)) \<le> round_even (x / pow2 ?e)"
    "round_even (x / pow2 ?e) \<le> round_even (of_int (2 ^ 53))"
    by (blast intro: round_even_mono)+
  then have "2 ^ 52 \<le> round_even (x / pow2 ?e)" "round_even (x / pow2 ?e) \<le> 2 ^ 53"
    by (simp_all only: round_even_of_int)
  then have "(2::rat) ^ 52 \<le> of_int (round_even (x / pow2 ?e))"
    "of_int (round_even (x / pow2 ?e)) \<le> (2::rat) ^ 53"
    by (metis of_int_le_iff of_int_numeral of_int_power)+
  with assms show ?thesis
    by (auto simp: f64_def Let_def pe intro: mult_right_mono less_imp_le)
qed

lemma bexp_mono: "0 < x \<Longrightarrow> x \<le> y \<Longrightarrow> bexp x \<le> bexp y"
proof (rule ccontr)
  assume x: "0 < x" and xy: "x \<le> y" and "\<not> bexp x \<le> bexp y"
  then have "pow2 (bexp y + 1) \<le> pow2 (bexp x)" by (intro pow2_mono) simp
  also have "\<dots> \<le> x" using bexp_bounds [OF x] by simp
  also note xy
  also have "y < pow2 (bexp y + 1)" using bexp_bounds [of y] x xy by simp
  finally show False by simp
qed

lemma f64_mono:
  assumes "x \<le> y"
  shows "f64 x \<le> f64 y"
proof (cases "0 < x")
  case False
  then show ?thesis by (simp add: f64_def [of x])
next
  case True
  with assms have y: "0 < y" by simp
  show ?thesis
  proof (cases "bexp x = bexp y")
    case True
    have "round_even (x / pow2 (bexp x - 52)) \<le> round_even (y / pow2 (bexp x - 52))"
      using assms by (intro round_even_mono divide_right_mono) (auto intro: less_imp_le)
    with True \<open>0 < x\<close> y show ?thesis
      by (auto simp: f64_def Let_def intro!: mult_right_mono less_imp_le [OF pow2_pos])
  next
    case False
    with bexp_mono [OF True assms] have "bexp x + 1 \<le> bexp y" by simp
    then have "pow2 (bexp x + 1) \<le> pow2 (bexp y)" by (rule pow2_mono)
    with f64_binade [OF True] f64_binade [OF y] show ?thesis by linarith
  qed
qed

lemma f64_of_nat:
  assumes "n < 2 ^ 53"
  shows "f64 (of_nat n) = of_nat n"
proof (cases "n = 0")
  case True
  then show ?thesis by (simp add: f64_def)
next
  case False
  let ?x = "of_nat n :: rat"
  let ?e = "bexp ?x - 52"
  have x: "0 < ?x" using False by simp
  have "?x < pow2 53" using assms by (simp add: pow2_def)
  then have "pow2 (bexp ?x) < pow2 53" using bexp_bounds [OF x] by linarith
  then have "bexp ?x < 53" by (meson not_less pow2_mono)
  then have e: "?e \<le> 0" by simp
  have "?x / pow2 ?e = of_int (int n * 2 ^ nat (- ?e))"
    using e by (auto simp: pow2_def)
  then have "of_int (round_even (?x / pow2 ?e)) = ?x / pow2 ?e"
    by (simp only: round_even_of_int)
  moreover have "pow2 ?e \<noteq> 0" by (metis less_irrefl pow2_pos)
  ultimately show ?thesis using x by (simp add: f64_def Let_def)
qed

lemma f64_round_u_mono: "x \<le> y \<Longrightarrow> f64_round_u x \<le> f64_round_u y"
  unfolding f64_round_u_def by (intro nat_mono floor_mono) simp

lemma f64_round_u_of_nat [simp]: "f64_round_u (of_nat n) = n"
proof -
  have "\<lfloor>(of_nat n :: rat) + 1 / 2\<rfloor> = int n" by (rule floor_unique) simp_all
  then show ?thesis by (simp add: f64_round_u_def)
qed

end
