(* ===== verification/LendMath.thy ===== *)
theory LendMath
  imports Coins F64
begin

text \<open>
  \<open>crates/shared/src/lend.rs\<close>: the market parameters, utilisation, the kinked rate model in
  \<open>f64\<close>, and the interest indexes with the conversions between real amounts and scaled
  units. An \<open>expect\<close> that fails is \<open>None\<close>.

  The lemmas bound the rate model and show it monotone in spite of its floating-point
  rounding; the locale \<open>index_conversion\<close> states what the conversions promise (floor
  division in both directions) and derives what the lending service relies on.
\<close>

section \<open>Markets\<close>

definition RAY :: nat where
  "RAY = 1000000000000000000"

definition MS_PER_YEAR :: nat where
  "MS_PER_YEAR = 365 * 24 * 60 * 60 * 1000"

definition BPS :: nat where
  "BPS = 10000"

record LendMarket =
  collateral_factor_bps :: nat
  liquidation_threshold_bps :: nat
  liquidation_bonus_bps :: nat
  reserve_factor_bps :: nat
  base_rate_bps :: nat
  slope1_bps :: nat
  slope2_bps :: nat
  optimal_utilization_bps :: nat
  borrow_enabled :: bool
  can_be_collateral :: bool

fun lend_market :: "Coin \<Rightarrow> LendMarket" where
  "lend_market Btc =
     \<lparr>collateral_factor_bps = 7500, liquidation_threshold_bps = 8000, liquidation_bonus_bps = 500,
      reserve_factor_bps = 1000, base_rate_bps = 0, slope1_bps = 400, slope2_bps = 30000,
      optimal_utilization_bps = 8000, borrow_enabled = True, can_be_collateral = True\<rparr>"
| "lend_market Ltc =
     \<lparr>collateral_factor_bps = 7000, liquidation_threshold_bps = 7500, liquidation_bonus_bps = 750,
      reserve_factor_bps = 1500, base_rate_bps = 0, slope1_bps = 500, slope2_bps = 30000,
      optimal_utilization_bps = 8000, borrow_enabled = True, can_be_collateral = True\<rparr>"
| "lend_market Bch =
     \<lparr>collateral_factor_bps = 7000, liquidation_threshold_bps = 7500, liquidation_bonus_bps = 750,
      reserve_factor_bps = 1500, base_rate_bps = 0, slope1_bps = 500, slope2_bps = 30000,
      optimal_utilization_bps = 8000, borrow_enabled = True, can_be_collateral = True\<rparr>"
| "lend_market Doge =
     \<lparr>collateral_factor_bps = 5000, liquidation_threshold_bps = 6000, liquidation_bonus_bps = 1000,
      reserve_factor_bps = 2000, base_rate_bps = 0, slope1_bps = 700, slope2_bps = 40000,
      optimal_utilization_bps = 7000, borrow_enabled = True, can_be_collateral = True\<rparr>"
| "lend_market Pol =
     \<lparr>collateral_factor_bps = 5000, liquidation_threshold_bps = 6000, liquidation_bonus_bps = 1000,
      reserve_factor_bps = 2000, base_rate_bps = 0, slope1_bps = 700, slope2_bps = 40000,
      optimal_utilization_bps = 7000, borrow_enabled = True, can_be_collateral = True\<rparr>"
| "lend_market Dgb =
     \<lparr>collateral_factor_bps = 4500, liquidation_threshold_bps = 5500, liquidation_bonus_bps = 1000,
      reserve_factor_bps = 2000, base_rate_bps = 0, slope1_bps = 800, slope2_bps = 40000,
      optimal_utilization_bps = 6500, borrow_enabled = True, can_be_collateral = True\<rparr>"
| "lend_market Sol =
     \<lparr>collateral_factor_bps = 6500, liquidation_threshold_bps = 7000, liquidation_bonus_bps = 750,
      reserve_factor_bps = 1500, base_rate_bps = 0, slope1_bps = 500, slope2_bps = 30000,
      optimal_utilization_bps = 7500, borrow_enabled = True, can_be_collateral = True\<rparr>"
| "lend_market Zer =
     \<lparr>collateral_factor_bps = 4000, liquidation_threshold_bps = 5000, liquidation_bonus_bps = 1000,
      reserve_factor_bps = 2000, base_rate_bps = 0, slope1_bps = 800, slope2_bps = 40000,
      optimal_utilization_bps = 6500, borrow_enabled = True, can_be_collateral = True\<rparr>"
| "lend_market Pepe =
     \<lparr>collateral_factor_bps = 4000, liquidation_threshold_bps = 5000, liquidation_bonus_bps = 1000,
      reserve_factor_bps = 2000, base_rate_bps = 0, slope1_bps = 800, slope2_bps = 40000,
      optimal_utilization_bps = 6500, borrow_enabled = True, can_be_collateral = True\<rparr>"
| "lend_market Usdt =
     \<lparr>collateral_factor_bps = 8000, liquidation_threshold_bps = 8500, liquidation_bonus_bps = 500,
      reserve_factor_bps = 1000, base_rate_bps = 0, slope1_bps = 400, slope2_bps = 20000,
      optimal_utilization_bps = 9000, borrow_enabled = True, can_be_collateral = True\<rparr>"
| "lend_market Usdc =
     \<lparr>collateral_factor_bps = 8000, liquidation_threshold_bps = 8500, liquidation_bonus_bps = 500,
      reserve_factor_bps = 1000, base_rate_bps = 0, slope1_bps = 400, slope2_bps = 20000,
      optimal_utilization_bps = 9000, borrow_enabled = True, can_be_collateral = True\<rparr>"

section \<open>Utilisation and rates\<close>

definition calc_utilization_bps :: "nat \<Rightarrow> nat \<Rightarrow> nat" where
  "calc_utilization_bps total_debt available =
     (let denom = u128_sat_add total_debt available
      in if denom = 0 then 0 else (u128_mul total_debt BPS div denom) mod 2 ^ 32)"

definition calc_borrow_rate_bps :: "nat \<Rightarrow> LendMarket \<Rightarrow> nat" where
  "calc_borrow_rate_bps utilization_bps m =
     (let u = min utilization_bps 10000; opt = optimal_utilization_bps m
      in if u \<le> opt then
           let ratio = (if opt = 0 then 0 else f64 (of_nat u / of_nat opt))
           in min (f64_round_u (f64 (of_nat (base_rate_bps m) + f64 (of_nat (slope1_bps m) * ratio))))
                (2 ^ 32 - 1)
         else
           let excess = f64 (of_nat (u - opt) / of_nat (10000 - opt))
           in min (f64_round_u (f64 (f64 (of_nat (base_rate_bps m) + of_nat (slope1_bps m)) +
                  f64 (of_nat (slope2_bps m) * excess))))
                (2 ^ 32 - 1))"

text \<open>\<open>u64\<close> arithmetic, with the wrap-around of a reserve factor above 100 percent.\<close>

definition calc_supply_rate_bps :: "nat \<Rightarrow> nat \<Rightarrow> nat \<Rightarrow> nat" where
  "calc_supply_rate_bps borrow_rate utilization reserve_factor =
     (let gross = (borrow_rate * utilization mod 2 ^ 64) div 10000
      in (gross * ((2 ^ 64 + 10000 - reserve_factor) mod 2 ^ 64) mod 2 ^ 64 div 10000) mod 2 ^ 32)"

section \<open>Interest indexes\<close>

definition accrue_index :: "nat \<Rightarrow> nat \<Rightarrow> int \<Rightarrow> nat option" where
  "accrue_index index rate_bps elapsed_ms =
     (if elapsed_ms \<le> 0 \<or> rate_bps = 0 then Some index
      else
        let growth = index * rate_bps * nat elapsed_ms div (BPS * MS_PER_YEAR)
        in nat_to_u128 (index + growth))"

definition scaled_to_amount :: "nat \<Rightarrow> nat \<Rightarrow> nat option" where
  "scaled_to_amount scaled index = nat_to_u128 (scaled * index div RAY)"

definition amount_to_scaled :: "nat \<Rightarrow> nat \<Rightarrow> nat option" where
  "amount_to_scaled amount index =
     (if index = 0 then Some 0 else nat_to_u128 (amount * RAY div index))"

section \<open>The rate model\<close>

lemma lend_market_bounds:
  "base_rate_bps (lend_market c) = 0 \<and> slope1_bps (lend_market c) \<le> 800 \<and>
   slope2_bps (lend_market c) \<le> 40000 \<and> reserve_factor_bps (lend_market c) \<le> 2000 \<and>
   0 < optimal_utilization_bps (lend_market c) \<and> optimal_utilization_bps (lend_market c) < 10000 \<and>
   collateral_factor_bps (lend_market c) < liquidation_threshold_bps (lend_market c)"
  by (cases c) simp_all

lemma utilization_le:
  assumes "total_debt * BPS \<le> u128_max"
  shows "calc_utilization_bps total_debt available \<le> 10000"
proof -
  have debt: "total_debt \<le> u128_sat_add total_debt available"
    using assms by (auto simp: u128_sat_add_def BPS_def)
  have "total_debt * BPS div u128_sat_add total_debt available \<le> 10000"
  proof (cases "total_debt = 0")
    case False
    have "total_debt * BPS div u128_sat_add total_debt available \<le> total_debt * BPS div total_debt"
      using debt False by (intro div_le_mono2) auto
    also have "\<dots> = 10000" using False by (simp add: BPS_def)
    finally show ?thesis .
  qed simp
  then show ?thesis
    using assms by (simp add: calc_utilization_bps_def Let_def u128_mul_exact)
qed

lemma f64_of_nat_div_le_1: "a \<le> b \<Longrightarrow> f64 (of_nat a / of_nat b) \<le> 1"
proof -
  assume "a \<le> b"
  then have "of_nat a / of_nat b \<le> (1 :: rat)" by (cases "b = 0") (simp_all add: field_simps)
  then have "f64 (of_nat a / of_nat b) \<le> f64 (of_nat 1)" using f64_mono by fastforce
  then show ?thesis by (subst (asm) f64_of_nat) simp_all
qed

lemma f64_of_nat_div_self: "0 < b \<Longrightarrow> f64 (of_nat b / of_nat b) = 1"
  using f64_of_nat [of 1] by simp

text \<open>The kink: the value of both branches at the optimum, and the ceiling of each.\<close>

definition kink_rate :: "LendMarket \<Rightarrow> nat" where
  "kink_rate m = base_rate_bps m + slope1_bps m"

definition max_rate :: "LendMarket \<Rightarrow> nat" where
  "max_rate m = kink_rate m + slope2_bps m"

definition below_kink :: "LendMarket \<Rightarrow> rat \<Rightarrow> nat" where
  "below_kink m ratio = f64_round_u (f64 (of_nat (base_rate_bps m) + f64 (of_nat (slope1_bps m) * ratio)))"

definition above_kink :: "LendMarket \<Rightarrow> rat \<Rightarrow> nat" where
  "above_kink m excess = f64_round_u (f64 (f64 (of_nat (base_rate_bps m) + of_nat (slope1_bps m)) +
     f64 (of_nat (slope2_bps m) * excess)))"

lemma below_kink_mono: "r \<le> r' \<Longrightarrow> below_kink m r \<le> below_kink m r'"
  unfolding below_kink_def
  by (intro f64_round_u_mono f64_mono add_mono order_refl mult_left_mono) simp_all

lemma above_kink_mono: "r \<le> r' \<Longrightarrow> above_kink m r \<le> above_kink m r'"
  unfolding above_kink_def
  by (intro f64_round_u_mono f64_mono add_mono order_refl mult_left_mono) simp_all

lemma below_kink_1:
  "max_rate m < 2 ^ 32 \<Longrightarrow> below_kink m 1 = kink_rate m"
  by (simp add: below_kink_def max_rate_def kink_rate_def f64_of_nat flip: of_nat_add)

lemma above_kink_0:
  "max_rate m < 2 ^ 32 \<Longrightarrow> above_kink m 0 = kink_rate m"
  by (simp add: above_kink_def max_rate_def kink_rate_def f64_of_nat f64_def [of 0] flip: of_nat_add)

lemma above_kink_1:
  "max_rate m < 2 ^ 32 \<Longrightarrow> above_kink m 1 = max_rate m"
  by (simp add: above_kink_def max_rate_def kink_rate_def f64_of_nat flip: of_nat_add)

lemma borrow_rate_below:
  assumes "max_rate m < 2 ^ 32" and "u \<le> optimal_utilization_bps m"
    and "optimal_utilization_bps m < 10000"
  shows "calc_borrow_rate_bps u m =
    below_kink m (if optimal_utilization_bps m = 0 then 0
                  else f64 (of_nat u / of_nat (optimal_utilization_bps m)))"
    (is "_ = below_kink m ?r")
proof -
  have "?r \<le> 1" using assms(2) by (simp add: f64_of_nat_div_le_1)
  then have "below_kink m ?r \<le> kink_rate m"
    using below_kink_mono below_kink_1 [OF assms(1)] by metis
  with assms show ?thesis
    by (simp add: calc_borrow_rate_bps_def Let_def min_def kink_rate_def max_rate_def flip: below_kink_def)
qed

lemma borrow_rate_above:
  assumes "max_rate m < 2 ^ 32" and "optimal_utilization_bps m < u"
    and "optimal_utilization_bps m < 10000"
  shows "calc_borrow_rate_bps u m =
    above_kink m (f64 (of_nat (min u 10000 - optimal_utilization_bps m) /
                       of_nat (10000 - optimal_utilization_bps m)))"
    (is "_ = above_kink m ?r")
proof -
  have "?r \<le> 1" by (intro f64_of_nat_div_le_1) simp
  then have "above_kink m ?r \<le> max_rate m"
    using above_kink_mono above_kink_1 [OF assms(1)] by metis
  moreover have "\<not> min u 10000 \<le> optimal_utilization_bps m" using assms by simp
  ultimately show ?thesis
    using assms(1) by (simp only: calc_borrow_rate_bps_def Let_def if_False
      above_kink_def [symmetric]) (simp add: min.absorb1 del: of_nat_diff)
qed

lemma borrow_rate_mono:
  assumes m: "max_rate m < 2 ^ 32" "optimal_utilization_bps m < 10000" and "u \<le> v"
  shows "calc_borrow_rate_bps u m \<le> calc_borrow_rate_bps v m"
proof -
  let ?o = "optimal_utilization_bps m"
  consider "v \<le> ?o" | "u \<le> ?o" "?o < v" | "?o < u" by linarith
  then show ?thesis
  proof cases
    case 1
    then have "(of_nat u :: rat) / of_nat ?o \<le> of_nat v / of_nat ?o"
      using assms(3) by (simp add: divide_right_mono)
    with 1 assms show ?thesis
      by (auto simp: borrow_rate_below intro!: below_kink_mono f64_mono)
  next
    case 2
    have "calc_borrow_rate_bps u m \<le> below_kink m 1"
      using 2 m by (auto simp: borrow_rate_below f64_of_nat_div_le_1 intro!: below_kink_mono)
    also have "\<dots> = above_kink m 0" using m by (simp add: below_kink_1 above_kink_0)
    also have "\<dots> \<le> calc_borrow_rate_bps v m"
      unfolding borrow_rate_above [OF m(1) 2(2) m(2)] by (intro above_kink_mono) simp
    finally show ?thesis .
  next
    case 3
    have "(of_nat (min u 10000 - ?o) :: rat) / of_nat (10000 - ?o) \<le>
      of_nat (min v 10000 - ?o) / of_nat (10000 - ?o)"
      using assms(3) by (intro divide_right_mono) (auto simp del: of_nat_diff)
    with 3 assms show ?thesis
      unfolding borrow_rate_above [OF m(1) 3 m(2)]
      by (subst borrow_rate_above) (auto intro!: above_kink_mono f64_mono simp del: of_nat_diff)
  qed
qed

lemma borrow_rate_at_kink:
  assumes "max_rate m < 2 ^ 32" and "optimal_utilization_bps m < 10000" and "0 < optimal_utilization_bps m"
  shows "calc_borrow_rate_bps (optimal_utilization_bps m) m = kink_rate m"
  using assms f64_of_nat_div_self [OF assms(3)]
  by (subst borrow_rate_below) (simp_all add: below_kink_1)

lemma borrow_rate_at_full:
  assumes "max_rate m < 2 ^ 32" and "optimal_utilization_bps m < 10000" and "10000 \<le> u"
  shows "calc_borrow_rate_bps u m = max_rate m"
proof -
  have "f64 (of_nat (min u 10000 - optimal_utilization_bps m) /
     of_nat (10000 - optimal_utilization_bps m)) = 1"
    using f64_of_nat_div_self [of "10000 - optimal_utilization_bps m"] assms
    by (simp add: min_def del: of_nat_diff)
  with assms show ?thesis by (subst borrow_rate_above) (simp_all add: above_kink_1 del: of_nat_diff)
qed

text \<open>
  For every market of the protocol, in \<open>f64\<close> arithmetic, the borrow rate never falls when
  utilisation rises, across the kink as well; it is exactly base plus first slope at the
  optimum, and base plus both slopes, its ceiling, at full utilisation.
\<close>

theorem borrow_rate_model:
  assumes "u \<le> v"
  shows "calc_borrow_rate_bps u (lend_market c) \<le> calc_borrow_rate_bps v (lend_market c) \<and>
    calc_borrow_rate_bps (optimal_utilization_bps (lend_market c)) (lend_market c) =
      base_rate_bps (lend_market c) + slope1_bps (lend_market c) \<and>
    calc_borrow_rate_bps 10000 (lend_market c) =
      base_rate_bps (lend_market c) + slope1_bps (lend_market c) + slope2_bps (lend_market c) \<and>
    calc_borrow_rate_bps v (lend_market c) \<le> calc_borrow_rate_bps 10000 (lend_market c)"
proof -
  let ?m = "lend_market c"
  have m: "max_rate ?m < 2 ^ 32" "optimal_utilization_bps ?m < 10000" "0 < optimal_utilization_bps ?m"
    using lend_market_bounds [of c] by (simp_all add: max_rate_def kink_rate_def)
  have "calc_borrow_rate_bps v ?m \<le> calc_borrow_rate_bps (max v 10000) ?m"
    using m by (intro borrow_rate_mono) simp_all
  also have "\<dots> = calc_borrow_rate_bps 10000 ?m" using m by (simp add: borrow_rate_at_full)
  finally show ?thesis
    using m assms
    by (simp add: borrow_rate_mono borrow_rate_at_kink borrow_rate_at_full max_rate_def kink_rate_def)
qed

theorem borrow_rate_model_witness:
  "calc_borrow_rate_bps 7999 (lend_market Btc) \<le> calc_borrow_rate_bps 8001 (lend_market Btc) \<and>
   calc_borrow_rate_bps 8000 (lend_market Btc) = 400 \<and>
   calc_borrow_rate_bps 10000 (lend_market Btc) = 30400"
  using borrow_rate_model [of 7999 8001 Btc] by simp

lemma supply_rate_le:
  assumes "rate < 2 ^ 32" and "u \<le> 10000" and "rf \<le> 10000"
  shows "calc_supply_rate_bps rate u rf \<le> rate"
proof -
  let ?g = "rate * u div 10000"
  have ru: "rate * u \<le> rate * 10000" using assms(2) by simp
  have g: "?g \<le> rate" using div_le_mono [OF ru, of 10000] by simp
  have w: "(2 ^ 64 + 10000 - rf) mod 2 ^ 64 = 10000 - rf"
  proof -
    have "2 ^ 64 + 10000 - rf = (10000 - rf) + 2 ^ 64" using assms(3) by simp
    then show ?thesis by (simp only: mod_add_self2) simp
  qed
  have "calc_supply_rate_bps rate u rf \<le>
      (rate * u mod 2 ^ 64 div 10000) * (10000 - rf) mod 2 ^ 64 div 10000"
    unfolding calc_supply_rate_bps_def Let_def w by (rule mod_less_eq_dividend)
  also have "\<dots> \<le> (rate * u mod 2 ^ 64 div 10000) * (10000 - rf) div 10000"
    by (intro div_le_mono mod_less_eq_dividend)
  also have "\<dots> \<le> ?g * 10000 div 10000"
    by (intro div_le_mono mult_le_mono mod_less_eq_dividend) simp
  finally show ?thesis using g by simp
qed

text \<open>
  Lenders are never promised more than borrowers pay: for every market and utilisation the
  supply rate is at most the borrow rate.
\<close>

theorem supply_rate_le_borrow_rate:
  "calc_supply_rate_bps (calc_borrow_rate_bps (min u 10000) (lend_market c)) (min u 10000)
     (reserve_factor_bps (lend_market c)) \<le> calc_borrow_rate_bps (min u 10000) (lend_market c)"
proof (rule supply_rate_le)
  have "calc_borrow_rate_bps (min u 10000) (lend_market c) \<le> 2 ^ 32 - 1"
    by (simp add: calc_borrow_rate_bps_def Let_def)
  then show "calc_borrow_rate_bps (min u 10000) (lend_market c) < 2 ^ 32" by simp
  show "reserve_factor_bps (lend_market c) \<le> 10000" using lend_market_bounds [of c] by simp
qed simp

section \<open>The indexes\<close>

lemma accrue_index_grows: "accrue_index i r e = Some i' \<Longrightarrow> i \<le> i'"
  by (auto simp: accrue_index_def nat_to_u128_def Let_def split: if_splits)

lemma accrue_index_simple:
  "accrue_index i r e = Some i' \<Longrightarrow>
     i' = i + i * r * nat e div (BPS * MS_PER_YEAR)"
  by (auto simp: accrue_index_def nat_to_u128_def Let_def split: if_splits)

lemma accrue_index_monotone:
  assumes "accrue_index i r e = Some a" and "accrue_index j r' e' = Some b"
    and "i \<le> j" and "r \<le> r'" and "e \<le> e'"
  shows "a \<le> b"
  unfolding accrue_index_simple [OF assms(1)] accrue_index_simple [OF assms(2)]
  using assms(3-5) by (intro add_mono div_le_mono mult_le_mono) simp_all

lemma accrue_index_total:
  assumes "i + i * r * nat e div (BPS * MS_PER_YEAR) \<le> u128_max"
  shows "\<exists>i'. accrue_index i r e = Some i'"
  using assms by (auto simp: accrue_index_def nat_to_u128_def Let_def)

text \<open>
  Interest never runs backwards: accruing returns an index at least as large, growing with
  the index, the rate and the elapsed time, equal to simple interest rounded down; splitting
  a window into two ticks never earns less than the two simple accruals on the first index.
\<close>

theorem accrue_index_monotone_growth:
  assumes "accrue_index i r e = Some a" and "accrue_index a r e' = Some b"
    and "0 \<le> e" and "0 \<le> e'"
  shows "i \<le> a \<and> a \<le> b \<and>
    i + i * r * nat e div (BPS * MS_PER_YEAR) + i * r * nat e' div (BPS * MS_PER_YEAR) \<le> b"
proof -
  have le: "i \<le> a" "a \<le> b" using assms(1,2) by (auto dest: accrue_index_grows)
  have "i * r * nat e' div (BPS * MS_PER_YEAR) \<le> a * r * nat e' div (BPS * MS_PER_YEAR)"
    using le by (intro div_le_mono mult_le_mono) simp_all
  with le show ?thesis
    using accrue_index_simple [OF assms(1)] accrue_index_simple [OF assms(2)] by simp
qed

theorem accrue_index_monotone_growth_witness:
  "RAY \<le> RAY + 400000000000 \<and>
   RAY + RAY * 400 * nat 315360 div (BPS * MS_PER_YEAR) \<le> 1000000800000160000"
  using accrue_index_monotone_growth [of RAY 400 315360 "RAY + 400000000000" 315360 "1000000800000160000"]
  by (simp add: accrue_index_def RAY_def BPS_def MS_PER_YEAR_def nat_to_u128_def u128_max_def)

section \<open>Conversions between amounts and scaled units\<close>

text \<open>
  What the service relies on: both conversions are floor divisions against a common unit.
\<close>

locale index_conversion =
  fixes to_scaled :: "nat \<Rightarrow> nat \<Rightarrow> nat option"
    and to_real :: "nat \<Rightarrow> nat \<Rightarrow> nat option"
    and scale_unit :: nat
  assumes unit_pos: "0 < scale_unit"
    and to_scaled_floor:
      "0 < i \<Longrightarrow> to_scaled a i = Some s \<Longrightarrow> s * i \<le> a * scale_unit \<and> a * scale_unit < Suc s * i"
    and to_real_floor:
      "to_real s i = Some a \<Longrightarrow> a * scale_unit \<le> s * i \<and> s * i < Suc a * scale_unit"
begin

lemma below_unit: "a * scale_unit < Suc b * scale_unit \<Longrightarrow> a \<le> b"
  using unit_pos by (metis Suc_leI less_Suc_eq_le mult_less_cancel2)

lemma supply_then_withdraw_le:
  assumes "0 < i" and "to_scaled a i = Some s" and "to_real s i = Some a'"
  shows "a' \<le> a"
proof -
  have "a' * scale_unit \<le> s * i" using to_real_floor [OF assms(3)] by simp
  also have "\<dots> \<le> a * scale_unit" using to_scaled_floor [OF assms(1,2)] by simp
  finally show ?thesis using unit_pos by simp
qed

lemma conversion_loss:
  assumes "0 < i" and "to_scaled a i = Some s" and "to_real s i = Some a'"
  shows "a * scale_unit < Suc a' * scale_unit + i"
proof -
  have "a * scale_unit < s * i + i" using to_scaled_floor [OF assms(1,2)] by simp
  also have "s * i + i < Suc a' * scale_unit + i" using to_real_floor [OF assms(3)] by simp
  finally show ?thesis .
qed

lemma position_grows:
  assumes "to_real s i = Some a" and "to_real s' i' = Some b" and "s \<le> s'" and "i \<le> i'"
  shows "a \<le> b"
proof (rule below_unit)
  have "a * scale_unit \<le> s * i" using to_real_floor [OF assms(1)] by simp
  also have "\<dots> \<le> s' * i'" using assms(3,4) by (rule mult_le_mono)
  also have "\<dots> < Suc b * scale_unit" using to_real_floor [OF assms(2)] by simp
  finally show "a * scale_unit < Suc b * scale_unit" .
qed

lemma splitting_loses:
  assumes "to_real s i = Some a" and "to_real t i = Some b" and "to_real (s + t) i = Some c"
  shows "a + b \<le> c \<and> c \<le> a + b + 1"
proof
  have "(a + b) * scale_unit \<le> (s + t) * i"
    using to_real_floor [OF assms(1)] to_real_floor [OF assms(2)] by (simp add: algebra_simps)
  also have "\<dots> < Suc c * scale_unit" using to_real_floor [OF assms(3)] by simp
  finally show "a + b \<le> c" by (rule below_unit)
  have "c * scale_unit \<le> (s + t) * i" using to_real_floor [OF assms(3)] by simp
  also have "\<dots> < Suc a * scale_unit + Suc b * scale_unit"
    using to_real_floor [OF assms(1)] to_real_floor [OF assms(2)] by (simp add: algebra_simps)
  also have "\<dots> = Suc (a + b + 1) * scale_unit" by (simp add: algebra_simps)
  finally show "c \<le> a + b + 1" by (rule below_unit)
qed

lemma scaling_splits_lose:
  assumes "0 < i" and "to_scaled a i = Some s" and "to_scaled b i = Some t"
    and "to_scaled (a + b) i = Some u"
  shows "s + t \<le> u \<and> u \<le> s + t + 1"
proof
  note fl = to_scaled_floor [OF assms(1,2)] to_scaled_floor [OF assms(1,3)]
    to_scaled_floor [OF assms(1,4)]
  have cancel: "x * i < Suc y * i \<Longrightarrow> x \<le> y" for x y
    by (metis less_Suc_eq_le mult_less_cancel2)
  have "(s + t) * i < Suc u * i" using fl by (simp add: algebra_simps)
  then show "s + t \<le> u" by (rule cancel)
  have "u * i < Suc (s + t + 1) * i" using fl by (simp add: algebra_simps)
  then show "u \<le> s + t + 1" by (rule cancel)
qed

lemma undervalued_burn:
  assumes "0 < i" and "to_scaled a i = Some b" and "b \<le> s"
    and "to_real s i = Some v" and "to_real (s - b) i = Some w"
  shows "v \<le> w + a \<and> w \<le> v"
proof
  have "v * scale_unit \<le> (s - b) * i + b * i"
    using to_real_floor [OF assms(4)] assms(3) by (simp flip: add_mult_distrib)
  also have "\<dots> < Suc w * scale_unit + a * scale_unit"
    using to_real_floor [OF assms(5)] to_scaled_floor [OF assms(1,2)] by simp
  also have "\<dots> = (Suc w + a) * scale_unit" by (simp add: algebra_simps)
  finally have "v * scale_unit < Suc (w + a) * scale_unit" by simp
  then show "v \<le> w + a" by (rule below_unit)
  show "w \<le> v" using position_grows [OF assms(5,4)] by simp
qed

end

interpretation lend_index: index_conversion amount_to_scaled scaled_to_amount RAY
proof
  show "0 < RAY" by (simp add: RAY_def)
  show "s * i \<le> a * RAY \<and> a * RAY < Suc s * i" if "0 < i" "amount_to_scaled a i = Some s" for i a s
    using that div_mult2_eq dividend_less_times_div [of i "a * RAY"]
    by (auto simp: amount_to_scaled_def nat_to_u128_def mult.commute [of i] split: if_splits)
  show "a * RAY \<le> s * i \<and> s * i < Suc a * RAY" if "scaled_to_amount s i = Some a" for s i a
    using that dividend_less_times_div [of RAY "s * i"]
    by (auto simp: scaled_to_amount_def nat_to_u128_def RAY_def mult.commute split: if_splits)
qed

text \<open>
  A lending position never gives back more than was put in while the index stands still,
  loses less than one unit plus the value of one scaled unit to the two roundings, and never
  shrinks when the index grows.
\<close>

theorem lend_position_roundtrip:
  assumes "0 < i" and "i \<le> j" and "amount_to_scaled a i = Some s"
    and "scaled_to_amount s i = Some now_value" and "scaled_to_amount s j = Some later_value"
  shows "now_value \<le> a \<and> a * RAY < Suc now_value * RAY + i \<and> now_value \<le> later_value"
  using lend_index.supply_then_withdraw_le [OF assms(1,3,4)]
    lend_index.conversion_loss [OF assms(1,3,4)]
    lend_index.position_grows [OF assms(4,5) order_refl assms(2)] by simp

theorem lend_position_roundtrip_witness:
  "(1999 :: nat) \<le> 2000 \<and> 2000 * RAY < Suc 1999 * RAY + (RAY + RAY div 3) \<and> (1999 :: nat) \<le> 3000"
  using lend_position_roundtrip [of "RAY + RAY div 3" "2 * RAY" 2000 1500 1999 3000]
  by (simp add: RAY_def amount_to_scaled_def scaled_to_amount_def nat_to_u128_def u128_max_def)

text \<open>
  Rounding on the way out favours the borrower of the scaled units: as soon as the index
  exceeds its starting value, an amount of one unit converts to no scaled units at all.
\<close>

theorem one_unit_burns_nothing:
  "amount_to_scaled 1 (Suc RAY + d) = Some 0"
  by (simp add: amount_to_scaled_def nat_to_u128_def)

end
