(* ===== verification/Events.thy ===== *)
theory Events
  imports Text
begin

text \<open>
  \<open>crates/events/src/domain.rs\<close> and \<open>topics.rs\<close>: the domain events, their aggregate (the
  outbox and Kafka partition key) and the topic each one is published to. The fields of a
  variant are the constructor's arguments, in the order of the payload struct; the free-form
  \<open>details\<close> of an admin action is its JSON text.

  The lemmas show that every event has a topic (the \<open>unreachable!\<close> arm of \<open>topic_for\<close> is
  unreachable), and that events with the same aggregate type share a topic.
\<close>

datatype DomainEvent =
  DepositConfirmed uuid uuid string string string int
    \<comment> \<open>wallet_id, deposit_id, coin, amount, tx_hash, confirmed_at\<close>
| WithdrawalBroadcasted uuid uuid string string string
    \<comment> \<open>wallet_id, withdrawal_id, coin, amount, tx_hash\<close>
| WithdrawalConfirmed uuid uuid nat
    \<comment> \<open>wallet_id, withdrawal_id, confirmations\<close>
| WithdrawalFailed uuid uuid string bool
    \<comment> \<open>wallet_id, withdrawal_id, reason, safe_to_reverse\<close>
| SwapExecuted uuid uuid string string string string string
    \<comment> \<open>swap_id, wallet_id, from_coin, to_coin, from_amount, to_amount, fee_amount\<close>
| LedgerEntryCreated uuid uuid string string uuid string
    \<comment> \<open>wallet_id, entry_id, ledger_type, amount, reference_id, reference_type\<close>
| FaucetClaimed uuid string string
    \<comment> \<open>wallet_id, coin, amount\<close>
| StakeCreated uuid uuid string string nat
    \<comment> \<open>stake_id, wallet_id, coin, principal, lock_days\<close>
| StakeClosed uuid uuid string
    \<comment> \<open>stake_id, wallet_id, reward_paid\<close>
| LendPositionOpened uuid uuid string string string
    \<comment> \<open>position_id, wallet_id, coin, kind, amount\<close>
| LendPositionClosed uuid uuid
    \<comment> \<open>position_id, wallet_id\<close>
| RewardGranted uuid string string string
    \<comment> \<open>wallet_id, coin, amount, reason\<close>
| AdminActionPerformed uuid string "uuid option" string
    \<comment> \<open>admin_id, action, target_id, details\<close>

fun aggregate_type :: "DomainEvent \<Rightarrow> string" where
  "aggregate_type (DepositConfirmed _ _ _ _ _ _) = ''wallet''"
| "aggregate_type (WithdrawalBroadcasted _ _ _ _ _) = ''wallet''"
| "aggregate_type (WithdrawalConfirmed _ _ _) = ''wallet''"
| "aggregate_type (WithdrawalFailed _ _ _ _) = ''wallet''"
| "aggregate_type (SwapExecuted _ _ _ _ _ _ _) = ''swap''"
| "aggregate_type (LedgerEntryCreated _ _ _ _ _ _) = ''ledger''"
| "aggregate_type (FaucetClaimed _ _ _) = ''faucet''"
| "aggregate_type (StakeCreated _ _ _ _ _) = ''stake''"
| "aggregate_type (StakeClosed _ _ _) = ''stake''"
| "aggregate_type (LendPositionOpened _ _ _ _ _) = ''lend''"
| "aggregate_type (LendPositionClosed _ _) = ''lend''"
| "aggregate_type (RewardGranted _ _ _ _) = ''rewards''"
| "aggregate_type (AdminActionPerformed _ _ _ _) = ''admin''"

fun aggregate_id :: "DomainEvent \<Rightarrow> uuid" where
  "aggregate_id (DepositConfirmed w _ _ _ _ _) = w"
| "aggregate_id (WithdrawalBroadcasted w _ _ _ _) = w"
| "aggregate_id (WithdrawalConfirmed w _ _) = w"
| "aggregate_id (WithdrawalFailed w _ _ _) = w"
| "aggregate_id (SwapExecuted swap _ _ _ _ _ _) = swap"
| "aggregate_id (LedgerEntryCreated w _ _ _ _ _) = w"
| "aggregate_id (FaucetClaimed w _ _) = w"
| "aggregate_id (StakeCreated stake _ _ _ _) = stake"
| "aggregate_id (StakeClosed stake _ _) = stake"
| "aggregate_id (LendPositionOpened position _ _ _ _) = position"
| "aggregate_id (LendPositionClosed position _) = position"
| "aggregate_id (RewardGranted w _ _ _) = w"
| "aggregate_id (AdminActionPerformed admin _ _ _) = admin"

fun event_type_name :: "DomainEvent \<Rightarrow> string" where
  "event_type_name (DepositConfirmed _ _ _ _ _ _) = ''DepositConfirmed''"
| "event_type_name (WithdrawalBroadcasted _ _ _ _ _) = ''WithdrawalBroadcasted''"
| "event_type_name (WithdrawalConfirmed _ _ _) = ''WithdrawalConfirmed''"
| "event_type_name (WithdrawalFailed _ _ _ _) = ''WithdrawalFailed''"
| "event_type_name (SwapExecuted _ _ _ _ _ _ _) = ''SwapExecuted''"
| "event_type_name (LedgerEntryCreated _ _ _ _ _ _) = ''LedgerEntryCreated''"
| "event_type_name (FaucetClaimed _ _ _) = ''FaucetClaimed''"
| "event_type_name (StakeCreated _ _ _ _ _) = ''StakeCreated''"
| "event_type_name (StakeClosed _ _ _) = ''StakeClosed''"
| "event_type_name (LendPositionOpened _ _ _ _ _) = ''LendPositionOpened''"
| "event_type_name (LendPositionClosed _ _) = ''LendPositionClosed''"
| "event_type_name (RewardGranted _ _ _ _) = ''RewardGranted''"
| "event_type_name (AdminActionPerformed _ _ _ _) = ''AdminActionPerformed''"

text \<open>The \<open>match\<close> on the aggregate type; \<open>None\<close> is its \<open>unreachable!\<close> arm.\<close>

definition topic_of_aggregate :: "string \<Rightarrow> string option" where
  "topic_of_aggregate = map_of
     [(''wallet'', ''bitcosats.wallet.events''), (''swap'', ''bitcosats.swap.events''),
      (''ledger'', ''bitcosats.ledger.events''), (''faucet'', ''bitcosats.faucet.events''),
      (''stake'', ''bitcosats.stake.events''), (''lend'', ''bitcosats.lend.events''),
      (''rewards'', ''bitcosats.rewards.events''), (''admin'', ''bitcosats.admin.events'')]"

definition topic_for :: "DomainEvent \<Rightarrow> string option" where
  "topic_for e = topic_of_aggregate (aggregate_type e)"

lemma topic_for_eq:
  "topic_for e = Some (''bitcosats.'' @ aggregate_type e @ ''.events'')"
  by (cases e) (simp_all add: topic_for_def topic_of_aggregate_def)

lemma topic_for_not_None [simp]: "topic_for e \<noteq> None"
  by (simp add: topic_for_eq)

text \<open>
  Routing is total and per aggregate: every event has a topic, so the \<open>unreachable!\<close> arm
  is never taken, and two events go to the same topic exactly when they have the same
  aggregate type; an event's name fixes its aggregate type.
\<close>

theorem topic_routing:
  "\<exists>t. topic_for e = Some t \<and>
     (topic_for e' = Some t) = (aggregate_type e' = aggregate_type e) \<and>
     (event_type_name e' = event_type_name e \<longrightarrow> topic_for e' = topic_for e)"
proof -
  have "aggregate_type e' = aggregate_type e" if "event_type_name e' = event_type_name e"
    using that by (cases e; cases e') simp_all
  then show ?thesis by (auto simp: topic_for_eq)
qed

theorem topic_routing_witness:
  "topic_for (StakeClosed 1 2 ''0'') = Some ''bitcosats.stake.events'' \<and>
   topic_for (StakeClosed 5 6 ''7'') = topic_for (StakeClosed 1 2 ''0'')"
  using topic_routing [of "StakeClosed 1 2 ''0''" "StakeClosed 5 6 ''7''"]
  by (simp add: topic_for_eq)

end
