(* ===== verification/Database.thy ===== *)
theory Database
  imports Events Coins F64
begin

text \<open>
  The Postgres schema of \<open>crates/db/migrations\<close> as one session state: a record of tables, each
  the list of its rows in insertion order, with the supply of fresh identifiers
  (\<open>gen_random_uuid()\<close>, \<open>Uuid::new_v4()\<close>: assumed not to collide, so a counter), the instant
  the operation runs at (\<open>now()\<close>, \<open>Utc::now()\<close>, in microseconds) and the row locks the open
  transaction holds. \<open>numeric(39, 0)\<close> amounts are integers whose range the inserts check.

  An SQL enum is a datatype with the labels of \<open>create type\<close>.
\<close>

section \<open>Enumerations\<close>

datatype wallet_kind = PERSONAL | DEVELOPER | HOUSE | LEND_POOL | MERCHANT

fun kind_str :: "wallet_kind \<Rightarrow> string" where
  "kind_str PERSONAL = ''PERSONAL''"
| "kind_str DEVELOPER = ''DEVELOPER''"
| "kind_str HOUSE = ''HOUSE''"
| "kind_str LEND_POOL = ''LEND_POOL''"
| "kind_str MERCHANT = ''MERCHANT''"

datatype ledger_type =
  DEPOSIT | DEPOSIT_REVERSAL | WITHDRAWAL | WITHDRAWAL_FEE | WITHDRAWAL_REVERSAL
| FAUCET | TRANSFER_IN | TRANSFER_OUT | ADJUSTMENT
| STAKE_LOCK | STAKE_UNLOCK | STAKE_REWARD | SWAP_OUT | SWAP_IN | SWAP_FEE
| LEND_SUPPLY | LEND_WITHDRAW | LEND_BORROW | LEND_REPAY | LEND_INTEREST
| LIQUIDATION | REWARD
| DEX_SWAP_OUT | DEX_SWAP_IN | DEX_SWAP_REFUND | MERCHANT_DEPOSIT | MERCHANT_CHECKOUT

datatype deposit_status = DepPending | DepConfirmed | DepCredited | DepOrphaned

datatype withdrawal_status =
  WPending | WApproved | WQueued | WBroadcasting | WBroadcasted | WConfirmed | WFailed | WCanceled

datatype stake_status = Active | Completed | Canceled

datatype job_status = JPending | JRunning | JDone | JFailed

datatype site_status = SitePending | SiteApproved | SiteRejected | SiteSuspended

section \<open>Rows\<close>

record user_row =
  u_id :: uuid
  u_email :: string
  u_username :: string
  u_password_hash :: string

record wallet_row =
  w_id :: uuid
  w_user :: uuid
  w_coin :: Coin
  w_kind :: wallet_kind
  w_address :: "string option"
  w_reorg_hold_at :: "int option"
  w_hd_index :: "int option"

record ledger_row =
  le_id :: uuid
  le_wallet :: uuid
  le_amount :: int
  le_type :: ledger_type
  le_reference_id :: "uuid option"
  le_reference_type :: "string option"
  le_reference_key :: "string option"
  le_memo :: "string option"
  le_created_at :: int

record swap_row =
  sw_id :: uuid
  sw_user :: uuid
  sw_from_coin :: Coin
  sw_to_coin :: Coin
  sw_from_amount :: int
  sw_to_amount :: int
  sw_fee_amount :: int
  sw_fee_bps :: int
  sw_price_from :: int
  sw_price_to :: int
  sw_price_decimals :: int
  sw_idempotency_key :: "string option"
  sw_created_at :: int

record stake_row =
  st_id :: uuid
  st_user :: uuid
  st_coin :: Coin
  st_principal :: int
  st_reward_bps :: int
  st_lock_days :: int
  st_reward :: int
  st_status :: stake_status
  st_started_at :: int
  st_matures_at :: int
  st_claimed_at :: "int option"

record faucet_claim_row =
  fc_id :: uuid
  fc_user :: uuid
  fc_coin :: Coin
  fc_amount :: int
  fc_ip :: string
  fc_created_at :: int

record deposit_row =
  dp_id :: uuid
  dp_wallet :: uuid
  dp_tx_hash :: string
  dp_vout :: int
  dp_amount :: int
  dp_confirmations :: int
  dp_status :: deposit_status
  dp_detected_at :: int
  dp_credited_at :: "int option"
  dp_orphaned_at :: "int option"

record withdrawal_row =
  wd_id :: uuid
  wd_wallet :: uuid
  wd_to_address :: string
  wd_amount :: int
  wd_fee_amount :: int
  wd_status :: withdrawal_status
  wd_tx_hash :: "string option"
  wd_requires_approval :: bool
  wd_approved_by :: "uuid option"
  wd_approved_at :: "int option"
  wd_requested_ip :: "string option"
  wd_idempotency_key :: "string option"
  wd_created_at :: int
  wd_updated_at :: int

record price_row =
  pc_coin :: Coin
  pc_price_scaled :: int
  pc_price_decimals :: int
  pc_fetched_at :: int

record season_row =
  se_id :: uuid
  se_number :: int
  se_status :: string
  se_start_at :: int
  se_end_at :: int

record point_log_row =
  pl_season :: uuid
  pl_user :: uuid
  pl_activity :: string
  pl_description :: string
  pl_points :: int
  pl_bonus_points :: int

record user_points_row =
  up_season :: uuid
  up_user :: uuid
  up_base_points :: int
  up_bonus_points :: int
  up_total_points :: int
  up_tier :: string
  up_multiplier :: rat

record reserve_row =
  rs_coin :: Coin
  rs_liquidity_index :: int
  rs_borrow_index :: int
  rs_total_scaled_supply :: int
  rs_total_scaled_debt :: int
  rs_last_accrued_at :: int

record position_row =
  po_id :: uuid
  po_user :: uuid
  po_coin :: Coin
  po_scaled_supply :: int
  po_scaled_debt :: int
  po_use_as_collateral :: bool

record network_fee_row =
  nf_coin :: Coin
  nf_kind :: string
  nf_amount :: int
  nf_tx_hash :: "string option"
  nf_reference_id :: "uuid option"
  nf_reference_type :: "string option"

record outbox_row =
  ob_id :: uuid
  ob_aggregate_type :: string
  ob_aggregate_id :: uuid
  ob_event_type :: string
  ob_payload :: DomainEvent
  ob_created_at :: int
  ob_published_at :: "int option"

record job_row =
  jb_id :: uuid
  jb_type :: string
  jb_payload :: string
  jb_status :: job_status
  jb_attempts :: int
  jb_max_attempts :: int
  jb_run_after :: int
  jb_locked_by :: "string option"
  jb_locked_at :: "int option"
  jb_last_error :: "string option"

record address_row =
  ab_id :: uuid
  ab_user :: uuid
  ab_coin :: Coin
  ab_label :: string
  ab_address :: string
  ab_created_at :: int

record audit_row =
  al_user :: "uuid option"
  al_action :: string
  al_entity :: string
  al_entity_id :: "uuid option"
  al_metadata :: "string option"
  al_ip :: "string option"
  al_created_at :: int

record site_row =
  fs_id :: uuid
  fs_owner :: uuid
  fs_name :: string
  fs_url :: string
  fs_status :: site_status
  fs_rejection_reason :: "string option"
  fs_reviewed_by :: "uuid option"
  fs_reviewed_at :: "int option"
  fs_clicks :: int

text \<open>JSON values, with numbers by their text.\<close>

datatype json = JNull | JBool bool | JNum string | JStr string | JArr "json list" | JObj "(string \<times> json) list"

text \<open>The merchant gateway: invoices, their webhook state and every address they have shown.\<close>

datatype invoice_status = IvPending | IvDetected | IvConfirmed | IvExpired | IvCancelled

record webhook_state =
  hk_delivered :: bool
  hk_status_code :: "int option"
  hk_attempts :: int
  hk_last_error :: "string option"
  hk_last_attempt_at :: "int option"
  hk_next_retry_at :: "int option"

record invoice_row =
  iv_id :: uuid
  iv_merchant :: uuid
  iv_api_key :: "uuid option"
  iv_site_user :: "string option"
  iv_order_id :: string
  iv_site_name :: "string option"
  iv_coin :: Coin
  iv_amount :: int
  iv_fee_amount :: int
  iv_net_amount :: int
  iv_deposit_address :: string
  iv_hd_index :: "int option"
  iv_tx_hash :: "string option"
  iv_confirmations :: int
  iv_received_amount :: int
  iv_callback_url :: string
  iv_success_url :: "string option"
  iv_cancel_url :: "string option"
  iv_customer_email :: "string option"
  iv_customer_name :: "string option"
  iv_description :: "string option"
  iv_status :: invoice_status
  iv_expires_at :: int
  iv_paid_at :: "int option"
  iv_webhook :: webhook_state
  iv_accepted_coins :: "Coin list"
  iv_price_usd_scaled :: "int option"
  iv_price_decimals :: "int option"
  iv_coin_locked_at :: "int option"
  iv_quote_price_scaled :: "int option"
  iv_created_at :: int

record invoice_address_row =
  ia_id :: uuid
  ia_invoice :: uuid
  ia_coin :: Coin
  ia_address :: string
  ia_hd_index :: "int option"
  ia_amount :: int
  ia_quote_price_scaled :: "int option"
  ia_created_at :: int

text \<open>Provider-backed swaps.\<close>

datatype dex_status =
  DxQuoted | DxLocked | DxBroadcasting | DxInFlight | DxCrediting | DxCompleted | DxFailed | DxRefunding | DxRefunded

record dex_swap_row =
  dx_id :: uuid
  dx_user :: uuid
  dx_from_coin :: Coin
  dx_to_coin :: Coin
  dx_from_amount :: int
  dx_expected_to_amount :: int
  dx_min_to_amount :: "int option"
  dx_actual_to_amount :: "int option"
  dx_status :: dex_status
  dx_provider :: string
  dx_providers :: "string list"
  dx_route_id :: "string option"
  dx_quote_id :: "string option"
  dx_platform_fee_bps :: int
  dx_platform_fee_amount :: int
  dx_fees :: json
  dx_eta_seconds :: "int option"
  dx_tx_hint :: "string option"
  dx_inbound_memo :: "string option"
  dx_deposit_address :: "string option"
  dx_destination_address :: "string option"
  dx_source_address :: "string option"
  dx_inbound_tx :: "string option"
  dx_outbound_tx :: "string option"
  dx_payload :: "json option"
  dx_error :: "string option"
  dx_idempotency_key :: string
  dx_broadcast_at :: "int option"
  dx_completed_at :: "int option"
  dx_created_at :: int
  dx_updated_at :: int

text \<open>Liquidity mining.\<close>

datatype reward_side = SUPPLY_SIDE | BORROW_SIDE | BOTH_SIDES

record reward_program_row =
  rp_id :: uuid
  rp_reward_coin :: Coin
  rp_market_coin :: Coin
  rp_side :: reward_side
  rp_emission_per_day :: int
  rp_start_at :: int
  rp_end_at :: "int option"
  rp_last_emitted_at :: int
  rp_active :: bool
  rp_created_by :: "uuid option"
  rp_created_at :: int

record reward_accrual_row =
  ra_user :: uuid
  ra_program :: uuid
  ra_claimed_total :: int
  ra_updated_at :: int

text \<open>Referrals; the amounts are \<open>NUMERIC\<close> columns with decimals.\<close>

record referral_link_row =
  rf_referrer :: uuid
  rf_referred :: uuid
  rf_code :: string
  rf_created_at :: int

record commission_row =
  cm_id :: uuid
  cm_referrer :: uuid
  cm_referred :: uuid
  cm_activity :: string
  cm_coin :: string
  cm_amount :: rat
  cm_amount_usd :: rat
  cm_created_at :: int

section \<open>The session state\<close>

datatype row_lock =
  WalletLock uuid | StakeLock uuid | DepositLock uuid | WithdrawalLock uuid
| ReserveLock Coin | AdvisoryLock int | InvoiceLock uuid | DexSwapLock uuid | ProgramLock uuid

record db =
  users :: "user_row list"
  wallets :: "wallet_row list"
  ledger :: "ledger_row list"
  swaps :: "swap_row list"
  stakes :: "stake_row list"
  faucet_claims :: "faucet_claim_row list"
  deposits :: "deposit_row list"
  withdrawals :: "withdrawal_row list"
  price_cache :: "price_row list"
  seasons :: "season_row list"
  point_logs :: "point_log_row list"
  user_points :: "user_points_row list"
  reserves :: "reserve_row list"
  positions :: "position_row list"
  network_fees :: "network_fee_row list"
  outbox :: "outbox_row list"
  jobs :: "job_row list"
  address_book :: "address_row list"
  audit_logs :: "audit_row list"
  faucet_sites :: "site_row list"
  invoices :: "invoice_row list"
  invoice_addresses :: "invoice_address_row list"
  dex_swaps :: "dex_swap_row list"
  reward_programs :: "reward_program_row list"
  reward_accruals :: "reward_accrual_row list"
  referral_links :: "referral_link_row list"
  commissions :: "commission_row list"
  next_id :: uuid
  clock :: int
  row_locks :: "row_lock list"

type_synonym ('e, 'a) op = "(db, 'e, 'a) tx"

definition empty_db :: db where
  "empty_db =
     \<lparr>users = [], wallets = [], ledger = [], swaps = [], stakes = [], faucet_claims = [],
      deposits = [], withdrawals = [], price_cache = [], seasons = [], point_logs = [],
      user_points = [], reserves = [], positions = [], network_fees = [], outbox = [],
      jobs = [], address_book = [], audit_logs = [],
      faucet_sites = [], invoices = [], invoice_addresses = [], dex_swaps = [],
      reward_programs = [], reward_accruals = [], referral_links = [], commissions = [],
      next_id = 0, clock = 0, row_locks = []\<rparr>"

section \<open>Errors of the driver\<close>

text \<open>
  The \<open>sqlx::Error\<close> values the code tells apart or passes on: a database error with its
  constraint, a protocol error the services make from another error's text, and a missing row.
\<close>

datatype db_error =
  UniqueViolation string
| ForeignKeyViolation string string
| CheckViolation string string
| NumericOverflow
| InvalidEnum string string
| ValueTooLong nat
| RowNotFound
| Protocol string

definition quoted :: "string \<Rightarrow> string" where
  "quoted s = [CHR 0x22] @ s @ [CHR 0x22]"

fun db_error_str :: "db_error \<Rightarrow> string" where
  "db_error_str (UniqueViolation c) =
     ''error returned from database: duplicate key value violates unique constraint '' @ quoted c"
| "db_error_str (ForeignKeyViolation t c) =
     ''error returned from database: insert or update on table '' @ quoted t @
     '' violates foreign key constraint '' @ quoted c"
| "db_error_str (CheckViolation t c) =
     ''error returned from database: new row for relation '' @ quoted t @
     '' violates check constraint '' @ quoted c"
| "db_error_str NumericOverflow = ''error returned from database: numeric field overflow''"
| "db_error_str (InvalidEnum t v) =
     ''error returned from database: invalid input value for enum '' @ t @ '': '' @ quoted v"
| "db_error_str (ValueTooLong n) =
     ''error returned from database: value too long for type character varying('' @ show_nat n @ '')''"
| "db_error_str RowNotFound =
     ''no rows returned by a query that expected to return at least one row''"
| "db_error_str (Protocol m) = ''encountered unexpected or invalid data: '' @ m"

fun is_unique_violation :: "db_error \<Rightarrow> bool" where
  "is_unique_violation (UniqueViolation _) = True"
| "is_unique_violation _ = False"

section \<open>Primitive statements\<close>

definition numeric_limit :: int where
  "numeric_limit = 10 ^ 39"

definition fits_numeric :: "int \<Rightarrow> bool" where
  "fits_numeric x = (\<bar>x\<bar> < numeric_limit)"

definition check_numeric :: "int \<Rightarrow> (db_error, unit) op" where
  "check_numeric x = tx_assert (fits_numeric x) NumericOverflow"

definition fresh_uuid :: "('e, uuid) op" where
  "fresh_uuid = (\<lambda>s. Inr (next_id s, s\<lparr>next_id := Suc (next_id s)\<rparr>))"

definition acquire :: "row_lock \<Rightarrow> row_lock list \<Rightarrow> row_lock list" where
  "acquire l ls = (if l \<in> set ls then ls else ls @ [l])"

definition take_lock :: "row_lock \<Rightarrow> ('e, unit) op" where
  "take_lock l = tx_modify (\<lambda>s. s\<lparr>row_locks := acquire l (row_locks s)\<rparr>)"

definition release_locks :: "db \<Rightarrow> db" where
  "release_locks s = s\<lparr>row_locks := []\<rparr>"

text \<open>The cast \<open>$n::coin\<close> accepts the labels of the enum, in exactly that spelling.\<close>

definition cast_coin :: "string \<Rightarrow> (db_error, Coin) op" where
  "cast_coin v = tx_ok_or (InvalidEnum ''coin'' v) (List.find (\<lambda>c. coin_str c = v) COINS)"

definition find_wallet :: "db \<Rightarrow> uuid \<Rightarrow> wallet_row option" where
  "find_wallet s w = List.find (\<lambda>r. w_id r = w) (wallets s)"

text \<open>The foreign key of a table's \<open>user_id\<close> column.\<close>

definition check_user_fk :: "string \<Rightarrow> uuid \<Rightarrow> (db_error, unit) op" where
  "check_user_fk table user =
     tx_bind (tx_gets (\<lambda>s. \<exists>u\<in>set (users s). u_id u = user)) (\<lambda>found.
     tx_assert found (ForeignKeyViolation table (table @ ''_user_id_fkey'')))"

text \<open>\<open>SELECT id FROM wallets WHERE user_id = $1 AND coin = $2::coin AND kind = $3\<close>.\<close>

definition wallet_id_of :: "db \<Rightarrow> uuid \<Rightarrow> Coin \<Rightarrow> wallet_kind \<Rightarrow> uuid option" where
  "wallet_id_of s user coin kind =
     map_option w_id
       (List.find (\<lambda>r. w_user r = user \<and> w_coin r = coin \<and> w_kind r = kind) (wallets s))"

definition select_wallet :: "uuid \<Rightarrow> Coin \<Rightarrow> wallet_kind \<Rightarrow> ('e, uuid option) op" where
  "select_wallet user coin kind = tx_gets (\<lambda>s. wallet_id_of s user coin kind)"

definition now :: "('e, int) op" where
  "now = tx_gets clock"

lemma check_numeric_Inr [tx_simps]:
  "check_numeric x s = Inr (u, s') \<longleftrightarrow> fits_numeric x \<and> s' = s"
  by (auto simp: check_numeric_def tx_simps)

lemma check_user_fk_Inr [tx_simps]:
  "check_user_fk t u s = Inr (x, s') \<longleftrightarrow> (\<exists>r\<in>set (users s). u_id r = u) \<and> s' = s"
  by (auto simp: check_user_fk_def tx_simps)

lemma fresh_uuid_Inr [tx_simps]:
  "fresh_uuid s = Inr (u, s') \<longleftrightarrow> u = next_id s \<and> s' = s\<lparr>next_id := Suc (next_id s)\<rparr>"
  by (auto simp: fresh_uuid_def)

lemma take_lock_Inr [tx_simps]:
  "take_lock l s = Inr (u, s') \<longleftrightarrow> s' = s\<lparr>row_locks := acquire l (row_locks s)\<rparr>"
  by (auto simp: take_lock_def tx_simps)

lemma cast_coin_Inr [tx_simps]: "cast_coin v s = Inr (c, s') \<longleftrightarrow> v = coin_str c \<and> s' = s"
proof -
  have "List.find (\<lambda>c. coin_str c = v) COINS = Some c \<longleftrightarrow> v = coin_str c"
  proof
    assume "List.find (\<lambda>c. coin_str c = v) COINS = Some c"
    then show "v = coin_str c" by (auto dest: find_Some_props)
  next
    assume "v = coin_str c"
    then show "List.find (\<lambda>c. coin_str c = v) COINS = Some c"
      using find_key_distinct [of id COINS c] by simp
  qed
  then show ?thesis by (simp add: cast_coin_def tx_simps)
qed

lemma select_wallet_Inr [tx_simps]:
  "select_wallet u c k s = Inr (x, s') \<longleftrightarrow> x = wallet_id_of s u c k \<and> s' = s"
  by (auto simp: select_wallet_def tx_simps)

lemma now_Inr [tx_simps]: "now s = Inr (x, s') \<longleftrightarrow> x = clock s \<and> s' = s"
  by (auto simp: now_def tx_simps)

lemma set_acquire [simp]: "set (acquire l ls) = insert l (set ls)"
  by (auto simp: acquire_def)

lemma distinct_acquire [simp]: "distinct ls \<Longrightarrow> distinct (acquire l ls)"
  by (simp add: acquire_def)

lemma acquire_held [simp]: "l \<in> set ls \<Longrightarrow> acquire l ls = ls"
  by (simp add: acquire_def)

lemma fits_numeric_u128 [simp]: "n \<le> u128_max \<Longrightarrow> fits_numeric (int n)"
  by (simp add: fits_numeric_def numeric_limit_def u128_max_def)

lemma fits_numeric_minus [simp]: "fits_numeric (- x) = fits_numeric x"
  by (simp add: fits_numeric_def)

lemma find_wallet_Some: "find_wallet s w = Some r \<Longrightarrow> w_id r = w \<and> r \<in> set (wallets s)"
  unfolding find_wallet_def by (drule find_Some_props) simp

lemma find_wallet_None: "find_wallet s w = None \<longleftrightarrow> w \<notin> w_id ` set (wallets s)"
  by (auto simp: find_wallet_def find_None_iff)

lemma wallet_id_of_Some:
  "wallet_id_of s u c k = Some w \<Longrightarrow>
     \<exists>r\<in>set (wallets s). w_id r = w \<and> w_user r = u \<and> w_coin r = c \<and> w_kind r = k"
  by (auto simp: wallet_id_of_def dest!: find_Some_props)

text \<open>The lookups read the wallet table only.\<close>

lemma find_wallet_cong [frame_simps]: "wallets s = wallets t \<Longrightarrow> find_wallet s w = find_wallet t w"
  by (simp add: find_wallet_def)

lemma wallet_id_of_cong [frame_simps]:
  "wallets s = wallets t \<Longrightarrow> wallet_id_of s u c k = wallet_id_of t u c k"
  by (simp add: wallet_id_of_def)

end
