(* ===== verification/Ledger.thy ===== *)
theory Ledger
  imports Database
begin

text \<open>
  \<open>crates/db/src/ledger.rs\<close>: the wallet row locks, the balance as a sum over the entries, and
  \<open>apply_ledger_entry\<close>, with the \<open>INSERT\<close> under the constraints of the schema (foreign key,
  numeric range, and the two partial unique indexes of migrations 0001 and 0004).

  The lemmas characterise a successful post completely (\<open>can_post\<close>, \<open>post_entry\<close>), so that the
  services' proofs only see the resulting state; the locale \<open>account_ledger\<close> states what a
  ledger promises its clients (a post moves one balance by its amount and never overdraws) and
  derives conservation and solvency for sequences of posts.
\<close>

section \<open>Operations\<close>

datatype LedgerError =
  LedgerDb db_error
| InsufficientBalance uuid int int \<comment> \<open>wallet_id, available, required\<close>
| ReorgHold uuid

fun ledger_error_str :: "LedgerError \<Rightarrow> string" where
  "ledger_error_str (LedgerDb e) = db_error_str e"
| "ledger_error_str (InsufficientBalance w available required) =
     ''insufficient balance: wallet '' @ show_uuid w @ '' has '' @ show_int available @
     '', needs '' @ show_int required"
| "ledger_error_str (ReorgHold w) =
     ''wallet '' @ show_uuid w @ '' is restricted pending deposit reorganization review''"

record LedgerCreditInput =
  in_wallet_id :: uuid
  in_amount :: int
  in_type :: ledger_type
  in_reference_id :: "uuid option"
  in_reference_type :: "string option"
  in_reference_key :: "string option"
  in_memo :: "string option"

definition simple_input ::
    "uuid \<Rightarrow> int \<Rightarrow> ledger_type \<Rightarrow> uuid option \<Rightarrow> string option \<Rightarrow> string option \<Rightarrow> LedgerCreditInput" where
  "simple_input w amount ty rid rty memo =
     \<lparr>in_wallet_id = w, in_amount = amount, in_type = ty, in_reference_id = rid,
      in_reference_type = rty, in_reference_key = None, in_memo = memo\<rparr>"

text \<open>\<open>SELECT \<dots> FOR UPDATE\<close> locks the row it finds, and nothing when there is none.\<close>

definition lock_wallet :: "uuid \<Rightarrow> (LedgerError, unit) op" where
  "lock_wallet w =
     tx_bind (tx_gets (\<lambda>s. find_wallet s w)) (\<lambda>row.
       case row of None \<Rightarrow> tx_return () | Some _ \<Rightarrow> take_lock (WalletLock w))"

definition lock_wallets :: "uuid list \<Rightarrow> (LedgerError, unit) op" where
  "lock_wallets ws = tx_for_each lock_wallet (remdups_adj (sort ws))"

definition wallet_balance :: "db \<Rightarrow> uuid \<Rightarrow> int" where
  "wallet_balance s w = (\<Sum>e\<leftarrow>ledger s. if le_wallet e = w then le_amount e else 0)"

definition get_wallet_balance :: "uuid \<Rightarrow> (LedgerError, int) op" where
  "get_wallet_balance w = tx_gets (\<lambda>s. wallet_balance s w)"

text \<open>The two unique indexes: a row conflicts when it repeats a non-null reference.\<close>

definition reference_conflict :: "LedgerCreditInput \<Rightarrow> ledger_row \<Rightarrow> bool" where
  "reference_conflict i e \<longleftrightarrow>
     le_wallet e = in_wallet_id i \<and> le_type e = in_type i \<and>
     in_reference_id i \<noteq> None \<and> le_reference_id e = in_reference_id i \<and>
     in_reference_type i \<noteq> None \<and> le_reference_type e = in_reference_type i"

definition key_conflict :: "LedgerCreditInput \<Rightarrow> ledger_row \<Rightarrow> bool" where
  "key_conflict i e \<longleftrightarrow>
     le_wallet e = in_wallet_id i \<and> le_type e = in_type i \<and>
     in_reference_key i \<noteq> None \<and> le_reference_key e = in_reference_key i \<and>
     in_reference_type i \<noteq> None \<and> le_reference_type e = in_reference_type i"

definition entry_of :: "LedgerCreditInput \<Rightarrow> uuid \<Rightarrow> int \<Rightarrow> ledger_row" where
  "entry_of i eid ts =
     \<lparr>le_id = eid, le_wallet = in_wallet_id i, le_amount = in_amount i, le_type = in_type i,
      le_reference_id = in_reference_id i, le_reference_type = in_reference_type i,
      le_reference_key = in_reference_key i, le_memo = in_memo i, le_created_at = ts\<rparr>"

lemma entry_of_sel [simp]:
  "le_wallet (entry_of i e t) = in_wallet_id i" "le_amount (entry_of i e t) = in_amount i"
  "le_type (entry_of i e t) = in_type i" "le_reference_id (entry_of i e t) = in_reference_id i"
  "le_reference_type (entry_of i e t) = in_reference_type i"
  by (simp_all add: entry_of_def)

definition insert_ledger_entry :: "LedgerCreditInput \<Rightarrow> (db_error, uuid) op" where
  "insert_ledger_entry i =
     tx_bind (check_numeric (in_amount i)) (\<lambda>_.
     tx_bind (tx_gets (\<lambda>s. s)) (\<lambda>s.
     tx_bind (tx_assert (\<not> (\<exists>e\<in>set (ledger s). reference_conflict i e))
       (UniqueViolation ''uq_ledger_reference_type_dedup'')) (\<lambda>_.
     tx_bind (tx_assert (\<not> (\<exists>e\<in>set (ledger s). key_conflict i e))
       (UniqueViolation ''uq_ledger_reference_key_dedup'')) (\<lambda>_.
     tx_bind (tx_assert (find_wallet s (in_wallet_id i) \<noteq> None)
       (ForeignKeyViolation ''ledger_entries'' ''ledger_entries_wallet_id_fkey'')) (\<lambda>_.
     tx_bind fresh_uuid (\<lambda>eid.
     tx_bind (tx_modify (\<lambda>s. s\<lparr>ledger := ledger s @ [entry_of i eid (clock s)]\<rparr>)) (\<lambda>_.
     tx_return eid)))))))"

definition apply_ledger_entry :: "LedgerCreditInput \<Rightarrow> (LedgerError, uuid) op" where
  "apply_ledger_entry i =
     tx_bind (lock_wallet (in_wallet_id i)) (\<lambda>_.
     tx_bind (tx_gets (\<lambda>s. find_wallet s (in_wallet_id i))) (\<lambda>row.
     tx_bind (case row of
         Some r \<Rightarrow>
           if w_reorg_hold_at r \<noteq> None \<and> in_type i \<noteq> DEPOSIT_REVERSAL
           then tx_throw (ReorgHold (in_wallet_id i)) else tx_return ()
       | None \<Rightarrow> tx_return ()) (\<lambda>_.
     tx_bind (if in_amount i < 0 then
         tx_bind (get_wallet_balance (in_wallet_id i)) (\<lambda>balance.
           if balance + in_amount i < 0
           then tx_throw (InsufficientBalance (in_wallet_id i) balance (- in_amount i))
           else tx_return ())
       else tx_return ()) (\<lambda>_.
     tx_map_err LedgerDb (insert_ledger_entry i)))))"

section \<open>A post, characterised\<close>

text \<open>The checks that decide a post, and the state it leaves.\<close>

definition held_against :: "db \<Rightarrow> LedgerCreditInput \<Rightarrow> bool" where
  "held_against s i \<longleftrightarrow>
     (\<exists>r. find_wallet s (in_wallet_id i) = Some r \<and> w_reorg_hold_at r \<noteq> None \<and>
          in_type i \<noteq> DEPOSIT_REVERSAL)"

definition can_post :: "LedgerCreditInput \<Rightarrow> db \<Rightarrow> bool" where
  "can_post i s \<longleftrightarrow>
     find_wallet s (in_wallet_id i) \<noteq> None \<and> \<not> held_against s i \<and>
     (in_amount i < 0 \<longrightarrow> 0 \<le> wallet_balance s (in_wallet_id i) + in_amount i) \<and>
     fits_numeric (in_amount i) \<and>
     (\<forall>e\<in>set (ledger s). \<not> reference_conflict i e \<and> \<not> key_conflict i e)"

definition post_entry :: "LedgerCreditInput \<Rightarrow> db \<Rightarrow> db" where
  "post_entry i s = s
     \<lparr>row_locks := acquire (WalletLock (in_wallet_id i)) (row_locks s),
      next_id := Suc (next_id s),
      ledger := ledger s @ [entry_of i (next_id s) (clock s)]\<rparr>"

lemma lock_wallet_Inr [tx_simps]:
  "lock_wallet w s = Inr (u, s') \<longleftrightarrow>
     s' = (if find_wallet s w = None then s
           else s\<lparr>row_locks := acquire (WalletLock w) (row_locks s)\<rparr>)"
  by (auto simp: lock_wallet_def tx_simps split: option.splits)

lemma get_wallet_balance_Inr [tx_simps]:
  "get_wallet_balance w s = Inr (b, s') \<longleftrightarrow> b = wallet_balance s w \<and> s' = s"
  by (auto simp: get_wallet_balance_def tx_simps)

lemma wallet_balance_frame [frame_simps]:
  "ledger s = ledger t \<Longrightarrow> wallet_balance s w = wallet_balance t w"
  by (simp add: wallet_balance_def)

lemma find_wallet_locks [simp]: "find_wallet (s\<lparr>row_locks := l\<rparr>) w = find_wallet s w"
  by (simp add: find_wallet_def)

lemma wallet_balance_locks [simp]: "wallet_balance (s\<lparr>row_locks := l\<rparr>) w = wallet_balance s w"
  by (simp add: wallet_balance_def)

lemma wallet_balance_release [simp]: "wallet_balance (release_locks s) w = wallet_balance s w"
  by (rule wallet_balance_frame) (simp add: release_locks_def)

lemma insert_ledger_entry_Inr:
  "insert_ledger_entry i s = Inr (eid, s') \<longleftrightarrow>
     fits_numeric (in_amount i) \<and> find_wallet s (in_wallet_id i) \<noteq> None \<and>
     (\<forall>e\<in>set (ledger s). \<not> reference_conflict i e \<and> \<not> key_conflict i e) \<and> eid = next_id s \<and>
     s' = s\<lparr>next_id := Suc (next_id s), ledger := ledger s @ [entry_of i (next_id s) (clock s)]\<rparr>"
  unfolding insert_ledger_entry_def by (simp add: tx_simps) blast

lemma apply_ledger_entry_Inr [tx_simps]:
  "apply_ledger_entry i s = Inr (eid, s') \<longleftrightarrow>
     can_post i s \<and> eid = next_id s \<and> s' = post_entry i s"
proof (cases "find_wallet s (in_wallet_id i)")
  case None
  then show ?thesis
    by (simp add: apply_ledger_entry_def tx_simps insert_ledger_entry_Inr can_post_def)
next
  case (Some r)
  then show ?thesis
    unfolding apply_ledger_entry_def post_entry_def
    by (simp add: tx_simps insert_ledger_entry_Inr can_post_def held_against_def)
qed

lemma wallet_balance_post [simp]:
  "wallet_balance (post_entry i s) w =
     wallet_balance s w + (if w = in_wallet_id i then in_amount i else 0)"
  by (simp add: wallet_balance_def post_entry_def entry_of_def)

lemma post_entry_frame [simp]:
  "users (post_entry i s) = users s" "wallets (post_entry i s) = wallets s"
  "swaps (post_entry i s) = swaps s" "stakes (post_entry i s) = stakes s"
  "faucet_claims (post_entry i s) = faucet_claims s" "deposits (post_entry i s) = deposits s"
  "withdrawals (post_entry i s) = withdrawals s" "price_cache (post_entry i s) = price_cache s"
  "seasons (post_entry i s) = seasons s" "point_logs (post_entry i s) = point_logs s"
  "user_points (post_entry i s) = user_points s" "reserves (post_entry i s) = reserves s"
  "positions (post_entry i s) = positions s" "network_fees (post_entry i s) = network_fees s"
  "outbox (post_entry i s) = outbox s" "jobs (post_entry i s) = jobs s"
  "address_book (post_entry i s) = address_book s" "audit_logs (post_entry i s) = audit_logs s"
  "faucet_sites (post_entry i s) = faucet_sites s" "clock (post_entry i s) = clock s"
  "next_id (post_entry i s) = Suc (next_id s)"
  "ledger (post_entry i s) = ledger s @ [entry_of i (next_id s) (clock s)]"
  by (simp_all add: post_entry_def)

lemma find_wallet_post [simp]: "find_wallet (post_entry i s) w = find_wallet s w"
  by (simp add: find_wallet_def)

lemma wallet_id_of_post [simp]: "wallet_id_of (post_entry i s) u c k = wallet_id_of s u c k"
  by (simp add: wallet_id_of_def)

lemma row_locks_post [simp]:
  "set (row_locks (post_entry i s)) = insert (WalletLock (in_wallet_id i)) (set (row_locks s))"
  by (simp add: post_entry_def)

text \<open>A debit past the balance never posts.\<close>

lemma apply_short:
  assumes "find_wallet s (in_wallet_id i) = Some r" and "in_amount i < 0"
    and "wallet_balance s (in_wallet_id i) + in_amount i < 0"
  shows "apply_ledger_entry i s = Inl (ReorgHold (in_wallet_id i)) \<or>
    apply_ledger_entry i s =
      Inl (InsufficientBalance (in_wallet_id i) (wallet_balance s (in_wallet_id i)) (- in_amount i))"
  using assms
  by (auto simp: apply_ledger_entry_def lock_wallet_def get_wallet_balance_def take_lock_def tx_defs)

section \<open>The contract of a ledger\<close>

locale account_ledger =
  fixes balance :: "'s \<Rightarrow> 'w \<Rightarrow> int"
    and post :: "'i \<Rightarrow> ('s, 'e, 'r) tx"
    and target :: "'i \<Rightarrow> 'w"
    and amount :: "'i \<Rightarrow> int"
  assumes post_balance:
      "post i s = Inr (r, s') \<Longrightarrow> balance s' w = balance s w + (if w = target i then amount i else 0)"
    and post_covered:
      "post i s = Inr (r, s') \<Longrightarrow> amount i < 0 \<Longrightarrow> 0 \<le> balance s (target i) + amount i"
begin

lemma post_keeps_solvent:
  assumes "post i s = Inr (r, s')" and "\<And>w. w \<in> W \<Longrightarrow> 0 \<le> balance s w" and "w \<in> W"
  shows "0 \<le> balance s' w"
proof (cases "w = target i \<and> amount i < 0")
  case True
  then show ?thesis using post_balance [OF assms(1)] post_covered [OF assms(1)] by simp
next
  case False
  then show ?thesis using post_balance [OF assms(1), of w] assms(2) [OF assms(3)] by auto
qed

definition posts :: "'i list \<Rightarrow> ('s, 'e, unit) tx" where
  "posts is = tx_for_each (\<lambda>i. tx_bind (post i) (\<lambda>_. tx_return ())) is"

lemma posts_Nil: "posts [] = tx_return ()"
  by (simp add: posts_def)

lemma posts_Cons_Inr:
  "posts (i # is) s = Inr (u, s') \<longleftrightarrow> (\<exists>r s1. post i s = Inr (r, s1) \<and> posts is s1 = Inr (u, s'))"
  by (auto simp: posts_def tx_bind_Inr tx_return_Inr)

lemma posts_balance:
  "posts is s = Inr (u, s') \<Longrightarrow>
     balance s' w = balance s w + (\<Sum>i\<leftarrow>is. if w = target i then amount i else 0)"
proof (induction "is" arbitrary: s)
  case Nil
  then show ?case by (simp add: posts_Nil tx_return_Inr)
next
  case (Cons i "is")
  then obtain r s1 where "post i s = Inr (r, s1)" and "posts is s1 = Inr (u, s')"
    by (auto simp: posts_Cons_Inr)
  then show ?case using Cons.IH [of s1] post_balance [of i s r s1 w] by simp
qed

lemma post_total:
  assumes "post i s = Inr (r, s')" and "finite W"
  shows "(\<Sum>w\<in>W. balance s' w) = (\<Sum>w\<in>W. balance s w) + (if target i \<in> W then amount i else 0)"
  using assms(2) by (simp add: post_balance [OF assms(1)] sum.distrib)

lemma posts_total:
  assumes "posts is s = Inr (u, s')" and "finite W"
  shows "(\<Sum>w\<in>W. balance s' w) =
    (\<Sum>w\<in>W. balance s w) + (\<Sum>i\<leftarrow>is. if target i \<in> W then amount i else 0)"
  using assms(1)
proof (induction "is" arbitrary: s)
  case Nil
  then show ?case by (simp add: posts_Nil tx_return_Inr)
next
  case (Cons i "is")
  then obtain r s1 where "post i s = Inr (r, s1)" and "posts is s1 = Inr (u, s')"
    by (auto simp: posts_Cons_Inr)
  then show ?case using Cons.IH [of s1] post_total [of i s r s1 W] assms(2) by simp
qed

lemma posts_keep_solvent:
  assumes "posts is s = Inr (u, s')" and "\<And>w. w \<in> W \<Longrightarrow> 0 \<le> balance s w" and "w \<in> W"
  shows "0 \<le> balance s' w"
  using assms
proof (induction "is" arbitrary: s)
  case Nil
  then show ?case by (simp add: posts_Nil tx_return_Inr)
next
  case (Cons i "is")
  then obtain r s1 where "post i s = Inr (r, s1)" and "posts is s1 = Inr (u, s')"
    by (auto simp: posts_Cons_Inr)
  then show ?case using Cons.IH [of s1] Cons.prems post_keeps_solvent by blast
qed

lemma matched_posts_conserve:
  assumes "post i s = Inr (r, s1)" and "post j s1 = Inr (r', s')"
    and "finite W" and "target i \<in> W" and "target j \<in> W" and "amount i + amount j = 0"
  shows "(\<Sum>w\<in>W. balance s' w) = (\<Sum>w\<in>W. balance s w)"
  using post_total [OF assms(1,3)] post_total [OF assms(2,3)] assms(4-6) by simp

end

interpretation book: account_ledger wallet_balance apply_ledger_entry in_wallet_id in_amount
  by unfold_locales (auto simp: apply_ledger_entry_Inr can_post_def)

section \<open>Invariants\<close>

text \<open>
  What every reachable database satisfies: identifiers come from the supply, entries belong
  to a wallet, the unique indexes hold, and no balance is negative.
\<close>

definition reference_of :: "ledger_row \<Rightarrow> (uuid \<times> uuid \<times> string \<times> ledger_type) option" where
  "reference_of e = (case (le_reference_id e, le_reference_type e) of
     (Some a, Some b) \<Rightarrow> Some (le_wallet e, a, b, le_type e) | _ \<Rightarrow> None)"

definition key_of :: "ledger_row \<Rightarrow> (uuid \<times> string \<times> string \<times> ledger_type) option" where
  "key_of e = (case (le_reference_key e, le_reference_type e) of
     (Some a, Some b) \<Rightarrow> Some (le_wallet e, a, b, le_type e) | _ \<Rightarrow> None)"

definition references_unique :: "db \<Rightarrow> bool" where
  "references_unique s \<longleftrightarrow>
     distinct (List.map_filter reference_of (ledger s)) \<and> distinct (List.map_filter key_of (ledger s))"

definition entries_owned :: "db \<Rightarrow> bool" where
  "entries_owned s \<longleftrightarrow> (\<forall>e\<in>set (ledger s). le_wallet e \<in> set (map w_id (wallets s)))"

definition solvent :: "db \<Rightarrow> bool" where
  "solvent s \<longleftrightarrow> (\<forall>r\<in>set (wallets s). 0 \<le> wallet_balance s (w_id r))"

definition wallets_wf :: "db \<Rightarrow> bool" where
  "wallets_wf s \<longleftrightarrow>
     distinct (map w_id (wallets s)) \<and>
     distinct (map (\<lambda>r. (w_user r, w_coin r, w_kind r)) (wallets s)) \<and>
     (\<forall>r\<in>set (wallets s). w_id r < next_id s)"

definition books_ok :: "db \<Rightarrow> bool" where
  "books_ok s \<longleftrightarrow> wallets_wf s \<and> entries_owned s \<and> references_unique s \<and> solvent s"

lemma map_filter_snoc:
  "List.map_filter f (xs @ [x]) =
     List.map_filter f xs @ (case f x of None \<Rightarrow> [] | Some y \<Rightarrow> [y])"
  by (induction xs) (auto simp: List.map_filter_simps split: option.splits)

lemma in_map_filter: "y \<in> set (List.map_filter f xs) \<longleftrightarrow> (\<exists>x\<in>set xs. f x = Some y)"
  by (induction xs) (auto simp: List.map_filter_simps split: option.splits)

lemma reference_of_conflict:
  "reference_of (entry_of i eid ts) = Some k \<Longrightarrow> reference_of e = Some k \<Longrightarrow> reference_conflict i e"
  by (auto simp: reference_of_def entry_of_def reference_conflict_def split: option.splits)

lemma key_of_conflict:
  "key_of (entry_of i eid ts) = Some k \<Longrightarrow> key_of e = Some k \<Longrightarrow> key_conflict i e"
  by (auto simp: key_of_def entry_of_def key_conflict_def split: option.splits)

lemma references_unique_post:
  "can_post i s \<Longrightarrow> references_unique s \<Longrightarrow> references_unique (post_entry i s)"
  unfolding references_unique_def can_post_def
  by (auto simp: map_filter_snoc in_map_filter split: option.splits
      dest: reference_of_conflict key_of_conflict)

lemma can_post_wallet: "can_post i s \<Longrightarrow> in_wallet_id i \<in> w_id ` set (wallets s)"
  using find_wallet_None by (auto simp: can_post_def)

lemma entries_owned_post: "can_post i s \<Longrightarrow> entries_owned s \<Longrightarrow> entries_owned (post_entry i s)"
  using can_post_wallet by (simp add: entries_owned_def entry_of_def)

lemma solvent_post: "can_post i s \<Longrightarrow> solvent s \<Longrightarrow> solvent (post_entry i s)"
  by (auto simp: solvent_def can_post_def)

lemma wallets_wf_post: "wallets_wf s \<Longrightarrow> wallets_wf (post_entry i s)"
  by (auto simp: wallets_wf_def)

lemma books_ok_post: "can_post i s \<Longrightarrow> books_ok s \<Longrightarrow> books_ok (post_entry i s)"
  by (simp add: books_ok_def wallets_wf_post entries_owned_post references_unique_post solvent_post)

lemma keeps_apply_books [keeps_intros]: "keeps books_ok (apply_ledger_entry i)"
  by (simp add: keeps_def apply_ledger_entry_Inr books_ok_post)

text \<open>The books depend on the wallets, the ledger and the identifier supply only.\<close>

lemma books_ok_cong:
  assumes "wallets t = wallets s" and "ledger t = ledger s" and "next_id s \<le> next_id t"
  shows "books_ok s \<Longrightarrow> books_ok t"
  using assms wallet_balance_frame [of t s]
  by (auto simp: books_ok_def wallets_wf_def entries_owned_def references_unique_def solvent_def)

lemma keeps_books_fresh [keeps_intros]: "keeps books_ok fresh_uuid"
  by (auto simp: keeps_def fresh_uuid_Inr elim!: books_ok_cong [rotated -1])

lemma keeps_books_lock [keeps_intros]: "keeps books_ok (take_lock l)"
  by (auto simp: keeps_def take_lock_Inr elim!: books_ok_cong [rotated -1])

lemma keeps_books_modify:
  "(\<And>s. wallets (f s) = wallets s \<and> ledger (f s) = ledger s \<and> next_id s \<le> next_id (f s)) \<Longrightarrow>
     keeps books_ok (tx_modify f)"
  by (rule keeps_modify) (auto elim!: books_ok_cong [rotated -1])

lemma books_ok_release: "books_ok s \<Longrightarrow> books_ok (release_locks s)"
  by (erule books_ok_cong [rotated -1]) (simp_all add: release_locks_def)

lemma wallet_row_unique:
  "wallets_wf s \<Longrightarrow> r \<in> set (wallets s) \<Longrightarrow> r' \<in> set (wallets s) \<Longrightarrow> w_id r = w_id r' \<Longrightarrow> r = r'"
  by (auto simp: wallets_wf_def distinct_map inj_on_def)

lemma wallet_id_of_inj:
  assumes "wallets_wf s" and "wallet_id_of s u c k = Some w" and "wallet_id_of s u' c' k' = Some w"
  shows "u = u' \<and> c = c' \<and> k = k'"
  using wallet_id_of_Some [OF assms(2)] wallet_id_of_Some [OF assms(3)]
    wallet_row_unique [OF assms(1)] by metis

section \<open>Money of a coin\<close>

text \<open>The total of a coin over all wallets: what transfers inside the platform must conserve.\<close>

definition coin_wallets :: "db \<Rightarrow> Coin \<Rightarrow> uuid set" where
  "coin_wallets s c = set (map w_id (filter (\<lambda>r. w_coin r = c) (wallets s)))"

definition coin_total :: "db \<Rightarrow> Coin \<Rightarrow> int" where
  "coin_total s c = (\<Sum>w\<in>coin_wallets s c. wallet_balance s w)"

lemma finite_coin_wallets [simp]: "finite (coin_wallets s c)"
  by (simp add: coin_wallets_def)

lemma coin_wallets_post [simp]: "coin_wallets (post_entry i s) c = coin_wallets s c"
  by (simp add: coin_wallets_def)

lemma coin_total_post:
  "can_post i s \<Longrightarrow>
     coin_total (post_entry i s) c =
       coin_total s c + (if in_wallet_id i \<in> coin_wallets s c then in_amount i else 0)"
  using book.post_total [of i s "next_id s" "post_entry i s" "coin_wallets s c"]
  by (simp add: coin_total_def apply_ledger_entry_Inr)

lemma coin_total_cong:
  "wallets t = wallets s \<Longrightarrow> ledger t = ledger s \<Longrightarrow> coin_total t c = coin_total s c"
  by (simp add: coin_total_def coin_wallets_def wallet_balance_frame [of t s])

lemma coin_total_release [simp]: "coin_total (release_locks s) c = coin_total s c"
  by (rule coin_total_cong) (simp_all add: release_locks_def)

lemma wallet_coin:
  assumes "wallets_wf s" and "r \<in> set (wallets s)" and "w_id r = w"
  shows "w \<in> coin_wallets s c \<longleftrightarrow> c = w_coin r"
  using assms(2,3) wallet_row_unique [OF assms(1)] by (auto simp: coin_wallets_def)

section \<open>A sequence of posts\<close>

text \<open>
  A service's money movements in order: each post is checked on the state the ones before it
  left. Every service's success is characterised by these two functions.
\<close>

primrec can_post_all :: "LedgerCreditInput list \<Rightarrow> db \<Rightarrow> bool" where
  "can_post_all [] s = True"
| "can_post_all (i # is) s = (can_post i s \<and> can_post_all is (post_entry i s))"

primrec post_all :: "LedgerCreditInput list \<Rightarrow> db \<Rightarrow> db" where
  "post_all [] s = s"
| "post_all (i # is) s = post_all is (post_entry i s)"

lemma post_all_frame [simp]:
  "users (post_all is s) = users s" "wallets (post_all is s) = wallets s"
  "swaps (post_all is s) = swaps s" "stakes (post_all is s) = stakes s"
  "faucet_claims (post_all is s) = faucet_claims s" "deposits (post_all is s) = deposits s"
  "withdrawals (post_all is s) = withdrawals s" "price_cache (post_all is s) = price_cache s"
  "seasons (post_all is s) = seasons s" "reserves (post_all is s) = reserves s"
  "positions (post_all is s) = positions s" "outbox (post_all is s) = outbox s"
  "jobs (post_all is s) = jobs s" "clock (post_all is s) = clock s"
  "coin_wallets (post_all is s) c = coin_wallets s c"
  "wallet_id_of (post_all is s) u c k = wallet_id_of s u c k"
  "find_wallet (post_all is s) w = find_wallet s w"
  by (induction "is" arbitrary: s) simp_all

lemma wallet_balance_post_all:
  "wallet_balance (post_all is s) w =
     wallet_balance s w + (\<Sum>i\<leftarrow>is. if w = in_wallet_id i then in_amount i else 0)"
  by (induction "is" arbitrary: s) simp_all

lemma coin_total_post_all:
  "can_post_all is s \<Longrightarrow> coin_total (post_all is s) c =
     coin_total s c + (\<Sum>i\<leftarrow>is. if in_wallet_id i \<in> coin_wallets s c then in_amount i else 0)"
  by (induction "is" arbitrary: s) (simp_all add: coin_total_post)

lemma books_ok_post_all: "can_post_all is s \<Longrightarrow> books_ok s \<Longrightarrow> books_ok (post_all is s)"
  by (induction "is" arbitrary: s) (simp_all add: books_ok_post)

lemma next_id_post_all [simp]: "next_id (post_all is s) = next_id s + length is"
  by (induction "is" arbitrary: s) simp_all

lemma ledger_post_all:
  "\<exists>new. ledger (post_all is s) = ledger s @ new \<and> length new = length is \<and>
     map le_wallet new = map in_wallet_id is \<and> map le_amount new = map in_amount is \<and>
     map le_type new = map in_type is \<and> map le_reference_id new = map in_reference_id is"
proof (induction "is" arbitrary: s)
  case (Cons i "is")
  obtain new where "ledger (post_all is (post_entry i s)) = ledger (post_entry i s) @ new"
    "length new = length is" "map le_wallet new = map in_wallet_id is"
    "map le_amount new = map in_amount is" "map le_type new = map in_type is"
    "map le_reference_id new = map in_reference_id is"
    using Cons.IH [of "post_entry i s"] by blast
  then show ?case
    by (intro exI [of _ "entry_of i (next_id s) (clock s) # new"]) (simp add: entry_of_def)
qed simp

section \<open>Locks\<close>

lemma lock_wallets_run:
  "tx_for_each lock_wallet ws s =
     Inr ((), s\<lparr>row_locks := fold acquire
       (map WalletLock (filter (\<lambda>w. find_wallet s w \<noteq> None) ws)) (row_locks s)\<rparr>)"
proof (induction ws arbitrary: s)
  case Nil
  then show ?case by (simp add: tx_return_def)
next
  case (Cons w ws)
  have "lock_wallet w s = Inr ((), if find_wallet s w = None then s
      else s\<lparr>row_locks := acquire (WalletLock w) (row_locks s)\<rparr>)"
    by (simp add: lock_wallet_Inr)
  with Cons.IH show ?case by (auto simp: tx_bind_step)
qed

lemma fold_acquire_fresh:
  "distinct (ls @ xs) \<Longrightarrow> fold acquire xs ls = ls @ xs"
proof (induction xs arbitrary: ls)
  case (Cons x xs)
  then have "acquire x ls = ls @ [x]" by (simp add: acquire_def)
  with Cons show ?case by simp
qed simp

lemma fold_acquire_set [simp]: "set (fold acquire xs ls) = set ls \<union> set xs"
  by (induction xs arbitrary: ls) auto

lemma lock_wallets_Inr [tx_simps]:
  "lock_wallets ws s = Inr (u, s') \<longleftrightarrow>
     s' = s\<lparr>row_locks := fold acquire
       (map WalletLock (filter (\<lambda>w. find_wallet s w \<noteq> None) (remdups_adj (sort ws)))) (row_locks s)\<rparr>"
  by (auto simp: lock_wallets_def lock_wallets_run)

lemma strict_sorted_remdups_adj:
  "sorted ws \<Longrightarrow> sorted_wrt (<) (remdups_adj (ws :: nat list))"
  by (induction ws rule: remdups_adj.induct) force+

section \<open>Properties\<close>

text \<open>
  C1. The ledger stays solvent and append-only: a post that succeeds adds exactly one entry,
  the requested amount on the requested wallet, to the end of the ledger, moves that
  wallet's balance by exactly the amount and no other balance, and no balance is negative
  afterwards if none was before.
\<close>

theorem ledger_post_solvent:
  assumes "apply_ledger_entry i s = Inr (eid, s')" and "solvent s"
  shows "solvent s' \<and>
    ledger s' = ledger s @ [entry_of i eid (clock s)] \<and>
    (\<forall>w. wallet_balance s' w =
       wallet_balance s w + (if w = in_wallet_id i then in_amount i else 0)) \<and>
    wallets s' = wallets s"
  using assms by (simp add: apply_ledger_entry_Inr solvent_post)

definition demo_wallet :: "uuid \<Rightarrow> uuid \<Rightarrow> Coin \<Rightarrow> wallet_kind \<Rightarrow> wallet_row" where
  "demo_wallet w u c k =
     \<lparr>w_id = w, w_user = u, w_coin = c, w_kind = k, w_address = None, w_reorg_hold_at = None,
      w_hd_index = None\<rparr>"

definition demo_db :: db where
  "demo_db = empty_db\<lparr>next_id := 10, wallets := [demo_wallet 1 7 Btc PERSONAL],
     ledger := [entry_of (simple_input 1 500 DEPOSIT (Some 3) (Some ''Deposit'') None) 4 0]\<rparr>"

definition demo_debit :: "int \<Rightarrow> LedgerCreditInput" where
  "demo_debit x = simple_input 1 (- x) WITHDRAWAL (Some 5) (Some ''Withdrawal'') None"

lemmas demo_defs = demo_db_def demo_wallet_def demo_debit_def empty_db_def simple_input_def
  entry_of_def

lemma demo_can_post:
  "x \<le> 500 \<Longrightarrow> 0 < x \<Longrightarrow> can_post (demo_debit x) demo_db"
  by (simp add: demo_defs can_post_def find_wallet_def held_against_def wallet_balance_def
      reference_conflict_def key_conflict_def fits_numeric_def numeric_limit_def)

lemma demo_solvent: "solvent demo_db"
  by (simp add: demo_defs solvent_def wallet_balance_def)

theorem ledger_post_solvent_witness:
  "solvent (post_entry (demo_debit 200) demo_db) \<and>
   wallet_balance (post_entry (demo_debit 200) demo_db) 1 = 300"
proof -
  have "apply_ledger_entry (demo_debit 200) demo_db = Inr (10, post_entry (demo_debit 200) demo_db)"
    using demo_can_post [of 200] by (simp add: apply_ledger_entry_Inr demo_db_def)
  from ledger_post_solvent [OF this demo_solvent] show ?thesis
    by (simp add: demo_defs wallet_balance_def)
qed

text \<open>
  What a post on an existing wallet answers, on every branch: a wallet on reorganisation
  hold accepts nothing but a deposit reversal; a debit past the balance is refused with the
  balance and the shortfall; a number the column cannot hold and a repeated reference are
  database errors; everything else is posted.
\<close>

theorem apply_ledger_entry_branches:
  assumes "find_wallet s (in_wallet_id i) = Some r"
  shows "apply_ledger_entry i s =
    (if w_reorg_hold_at r \<noteq> None \<and> in_type i \<noteq> DEPOSIT_REVERSAL then Inl (ReorgHold (in_wallet_id i))
     else if in_amount i < 0 \<and> wallet_balance s (in_wallet_id i) + in_amount i < 0
       then Inl (InsufficientBalance (in_wallet_id i) (wallet_balance s (in_wallet_id i)) (- in_amount i))
     else if \<not> fits_numeric (in_amount i) then Inl (LedgerDb NumericOverflow)
     else if \<exists>e\<in>set (ledger s). reference_conflict i e
       then Inl (LedgerDb (UniqueViolation ''uq_ledger_reference_type_dedup''))
     else if \<exists>e\<in>set (ledger s). key_conflict i e
       then Inl (LedgerDb (UniqueViolation ''uq_ledger_reference_key_dedup''))
     else Inr (next_id s, post_entry i s))"
  using assms
  by (auto simp: apply_ledger_entry_def insert_ledger_entry_def lock_wallet_def
      get_wallet_balance_def check_numeric_def fresh_uuid_def take_lock_def tx_defs post_entry_def
      intro!: bexI)

theorem apply_ledger_entry_branches_witness:
  "apply_ledger_entry (demo_debit 600) demo_db = Inl (InsufficientBalance 1 500 600) \<and>
   apply_ledger_entry (demo_debit (10 ^ 40)) demo_db = Inl (InsufficientBalance 1 500 (10 ^ 40)) \<and>
   apply_ledger_entry (demo_debit 500) demo_db = Inr (10, post_entry (demo_debit 500) demo_db)"
proof -
  have demo_find: "find_wallet demo_db (in_wallet_id (demo_debit x)) = Some (demo_wallet 1 7 Btc PERSONAL)" for x
    by (simp add: demo_defs find_wallet_def)
  show ?thesis
    unfolding apply_ledger_entry_branches [OF demo_find]
    by (simp add: demo_defs wallet_balance_def reference_conflict_def key_conflict_def
      fits_numeric_def numeric_limit_def)
qed

text \<open>
  A reference posts once: after an entry with a reference is in the ledger, whatever is
  appended later, a post of the same type and reference on the same wallet fails, and the
  unique indexes stay satisfied.
\<close>

theorem reference_posts_once:
  assumes "apply_ledger_entry i s = Inr (eid, s1)" and "references_unique s"
    and "in_reference_id i = Some rid" and "in_reference_type i = Some rty"
    and "ledger s2 = ledger s1 @ later"
  shows "references_unique s1 \<and>
    \<not> can_post (i\<lparr>in_amount := a, in_memo := m, in_reference_key := k\<rparr>) s2 \<and>
    (\<forall>r s3. apply_ledger_entry (i\<lparr>in_amount := a, in_memo := m, in_reference_key := k\<rparr>) s2 \<noteq> Inr (r, s3))"
proof -
  from assms(1) have i: "can_post i s" "s1 = post_entry i s" by (simp_all add: apply_ledger_entry_Inr)
  let ?j = "i\<lparr>in_amount := a, in_memo := m, in_reference_key := k\<rparr>"
  have "reference_conflict ?j (entry_of i (next_id s) (clock s))"
    using assms(3,4) by (simp add: reference_conflict_def entry_of_def)
  moreover have "entry_of i (next_id s) (clock s) \<in> set (ledger s2)"
    using assms(5) i by simp
  ultimately have "\<not> can_post ?j s2" unfolding can_post_def by blast
  then show ?thesis using i assms(2) by (simp add: references_unique_post apply_ledger_entry_Inr)
qed

theorem reference_posts_once_witness:
  "\<not> can_post (demo_debit 200) (post_entry (demo_debit 100) demo_db)"
proof -
  have "apply_ledger_entry (demo_debit 100) demo_db = Inr (10, post_entry (demo_debit 100) demo_db)"
    using demo_can_post [of 100] by (simp add: apply_ledger_entry_Inr demo_db_def)
  moreover have "references_unique demo_db"
    by (simp add: demo_defs references_unique_def List.map_filter_simps reference_of_def key_of_def)
  ultimately show ?thesis
    using reference_posts_once [where i = "demo_debit 100" and s = demo_db and eid = 10 and rid = 5
      and rty = "''Withdrawal''" and later = "[]" and a = "- 200" and m = None and k = None]
    by (simp add: demo_debit_def simple_input_def)
qed

text \<open>
  \<open>lock_wallets\<close> takes its locks in one canonical order, whatever order the caller names
  them in: from a transaction without locks it leaves exactly the locks of the wallets that
  exist, each once, in strictly increasing order, and changes nothing else.
\<close>

theorem lock_wallets_canonical:
  assumes "row_locks s = []" and "lock_wallets ws s = Inr (u, s')"
  shows "\<exists>ids. row_locks s' = map WalletLock ids \<and> sorted_wrt (<) ids \<and>
    set ids = {w \<in> set ws. find_wallet s w \<noteq> None} \<and> s' = s\<lparr>row_locks := map WalletLock ids\<rparr>"
proof -
  let ?ids = "filter (\<lambda>w. find_wallet s w \<noteq> None) (remdups_adj (sort ws))"
  have srt: "sorted_wrt (<) ?ids"
    by (intro sorted_wrt_filter strict_sorted_remdups_adj) simp
  then have "distinct ?ids" by (simp add: strict_sorted_iff)
  then have "distinct (map WalletLock ?ids)" by (simp add: distinct_map inj_on_def)
  then have "fold acquire (map WalletLock ?ids) [] = map WalletLock ?ids"
    using fold_acquire_fresh [of "[]" "map WalletLock ?ids"] by simp
  then have "s' = s\<lparr>row_locks := map WalletLock ?ids\<rparr>"
    using assms by (simp only: lock_wallets_Inr)
  with srt show ?thesis by (intro exI [of _ ?ids]) auto
qed

theorem lock_wallets_canonical_witness:
  "\<exists>ids. sorted_wrt (<) ids \<and> set ids = {1} \<and>
     lock_wallets [9, 1, 1] demo_db = Inr ((), demo_db\<lparr>row_locks := map WalletLock ids\<rparr>)"
proof -
  have locks: "row_locks demo_db = []" by (simp add: demo_defs)
  obtain s' where s': "lock_wallets [9, 1, 1] demo_db = Inr ((), s')"
    using lock_wallets_Inr [of "[9, 1, 1]" demo_db "()"] by blast
  have "{w \<in> set [9, 1, 1]. find_wallet demo_db w \<noteq> None} = {1}"
    by (auto simp: demo_defs find_wallet_def)
  with lock_wallets_canonical [OF locks s'] s' show ?thesis by auto
qed

end
