(* ===== verification/House.thy ===== *)
theory House
  imports Ledger
begin

text \<open>
  \<open>crates/db/src/house.rs\<close>: the platform's own accounts. The boot-time provisioning of the
  system user, its HOUSE and LEND_POOL wallets, the reversal of the legacy seed and the faucet
  floor; the debits and credits of HOUSE inventory the services use; and the balance listings.

  \<open>ensure_house_inventory\<close> runs statement by statement on the pool, without a transaction; only
  its first statement can fail, so an error leaves nothing behind here either. The freshly
  hashed random password is an argument.
\<close>

section \<open>Provisioning\<close>

definition HOUSE_EMAIL :: string where
  "HOUSE_EMAIL = ''system@bitcosats.internal''"

datatype HouseError =
  HouseDb db_error
| NotInitialized
| WalletMissing Coin
| InsufficientLiquidity Coin

definition find_user_by_email :: "db \<Rightarrow> string \<Rightarrow> user_row option" where
  "find_user_by_email s email = List.find (\<lambda>u. u_email u = email) (users s)"

text \<open>\<open>ON CONFLICT (email) DO UPDATE SET email = EXCLUDED.email RETURNING id\<close>.\<close>

definition upsert_house_user :: "string \<Rightarrow> (HouseError, uuid) op" where
  "upsert_house_user password_hash =
     tx_bind (tx_gets (\<lambda>s. s)) (\<lambda>s.
     case find_user_by_email s HOUSE_EMAIL of
       Some u \<Rightarrow> tx_return (u_id u)
     | None \<Rightarrow>
         tx_bind (tx_assert (\<not> (\<exists>u\<in>set (users s). eq_ignore_case (u_username u) ''system''))
           (HouseDb (UniqueViolation ''idx_users_username_lower''))) (\<lambda>_.
         tx_bind fresh_uuid (\<lambda>uid.
         tx_bind (tx_modify (\<lambda>s. s\<lparr>users := users s @
           [\<lparr>u_id = uid, u_email = HOUSE_EMAIL, u_username = ''system'',
             u_password_hash = password_hash\<rparr>]\<rparr>)) (\<lambda>_.
         tx_return uid))))"

text \<open>
  \<open>INSERT INTO wallets \<dots> ON CONFLICT (user_id, coin, kind)\<close>, with an update that changes
  nothing or \<open>DO NOTHING\<close>.
\<close>

definition upsert_wallet :: "uuid \<Rightarrow> Coin \<Rightarrow> wallet_kind \<Rightarrow> (db_error, unit) op" where
  "upsert_wallet user coin kind =
     tx_bind (select_wallet user coin kind) (\<lambda>found.
     case found of
       Some _ \<Rightarrow> tx_return ()
     | None \<Rightarrow>
         tx_bind (check_user_fk ''wallets'' user) (\<lambda>_.
         tx_bind fresh_uuid (\<lambda>wid.
         tx_modify (\<lambda>s. s\<lparr>wallets := wallets s @
           [\<lparr>w_id = wid, w_user = user, w_coin = coin, w_kind = kind, w_address = None,
             w_reorg_hold_at = None, w_hd_index = None\<rparr>]\<rparr>))))"

text \<open>
  An \<open>INSERT \<dots> SELECT\<close>: the selected rows are computed on the state before the statement, so
  the guards do not see the rows it adds.
\<close>

fun append_entries :: "LedgerCreditInput list \<Rightarrow> db \<Rightarrow> db" where
  "append_entries [] s = s"
| "append_entries (i # is) s =
     append_entries is (s\<lparr>next_id := Suc (next_id s),
       ledger := ledger s @ [entry_of i (next_id s) (clock s)]\<rparr>)"

definition SEED_MEMO :: string where
  "SEED_MEMO = ''Platform Liquidity Reserve Seed''"

definition REVERSE_SEED_MEMO :: string where
  "REVERSE_SEED_MEMO = ''Reverse Platform Liquidity Reserve Seed''"

definition seed_reversals :: "db \<Rightarrow> LedgerCreditInput list" where
  "seed_reversals s =
     map (\<lambda>e. simple_input (le_wallet e) (- le_amount e) ADJUSTMENT None None (Some REVERSE_SEED_MEMO))
       (filter (\<lambda>e. le_memo e = Some SEED_MEMO \<and>
          \<not> (\<exists>r\<in>set (ledger s). le_wallet r = le_wallet e \<and> le_memo r = Some REVERSE_SEED_MEMO))
        (ledger s))"

definition reverse_legacy_liquidity_seed :: "(HouseError, unit) op" where
  "reverse_legacy_liquidity_seed = tx_modify (\<lambda>s. append_entries (seed_reversals s) s)"

definition FAUCET_FLOOR :: int where
  "FAUCET_FLOOR = 10000000000"

definition floor_entries :: "db \<Rightarrow> LedgerCreditInput list" where
  "floor_entries s =
     map (\<lambda>w. simple_input (w_id w) FAUCET_FLOOR ADJUSTMENT None (Some ''HouseFund'')
            (Some (''Admin fund HOUSE '' @ coin_str (w_coin w))))
       (filter (\<lambda>w. (\<exists>u\<in>set (users s). u_id u = w_user w \<and> u_email u = HOUSE_EMAIL) \<and>
          w_kind w = HOUSE \<and> wallet_balance s (w_id w) \<le> 0)
        (wallets s))"

definition ensure_faucet_floor :: "(HouseError, unit) op" where
  "ensure_faucet_floor = tx_modify (\<lambda>s. append_entries (floor_entries s) s)"

definition ensure_house_inventory :: "string \<Rightarrow> (HouseError, uuid) op" where
  "ensure_house_inventory password_hash =
     tx_bind (upsert_house_user password_hash) (\<lambda>house_id.
     tx_bind (tx_map_err HouseDb (tx_for_each (\<lambda>(kind, coin). upsert_wallet house_id coin kind)
       (List.product [HOUSE, LEND_POOL] COINS))) (\<lambda>_.
     tx_bind reverse_legacy_liquidity_seed (\<lambda>_.
     tx_bind ensure_faucet_floor (\<lambda>_.
     tx_return house_id))))"

section \<open>Inventory moves\<close>

definition house_wallet_id :: "db \<Rightarrow> wallet_kind \<Rightarrow> Coin \<Rightarrow> HouseError + uuid" where
  "house_wallet_id s kind coin =
     (case find_user_by_email s HOUSE_EMAIL of
        None \<Rightarrow> Inl NotInitialized
      | Some u \<Rightarrow>
          (case wallet_id_of s (u_id u) coin kind of
             None \<Rightarrow> Inl (WalletMissing coin)
           | Some w \<Rightarrow> Inr w))"

definition get_house_wallet_id :: "Coin \<Rightarrow> (HouseError, uuid) op" where
  "get_house_wallet_id coin = (\<lambda>s.
     case house_wallet_id s HOUSE coin of Inl e \<Rightarrow> Inl e | Inr w \<Rightarrow> Inr (w, s))"

definition get_lend_pool_wallet_id :: "Coin \<Rightarrow> (HouseError, uuid) op" where
  "get_lend_pool_wallet_id coin = (\<lambda>s.
     case house_wallet_id s LEND_POOL coin of Inl e \<Rightarrow> Inl e | Inr w \<Rightarrow> Inr (w, s))"

fun debit_house_error :: "Coin \<Rightarrow> LedgerError \<Rightarrow> HouseError" where
  "debit_house_error coin (InsufficientBalance _ _ _) = InsufficientLiquidity coin"
| "debit_house_error coin (LedgerDb e) = HouseDb e"
| "debit_house_error coin (ReorgHold _) = InsufficientLiquidity coin"

fun credit_house_error :: "LedgerError \<Rightarrow> HouseError" where
  "credit_house_error (LedgerDb e) = HouseDb e"
| "credit_house_error other = HouseDb (Protocol (ledger_error_str other))"

definition debit_house ::
    "Coin \<Rightarrow> int \<Rightarrow> ledger_type \<Rightarrow> uuid \<Rightarrow> string \<Rightarrow> string \<Rightarrow> (HouseError, unit) op" where
  "debit_house coin amount ty rid rty memo =
     (if amount = 0 then tx_return ()
      else
        tx_bind (get_house_wallet_id coin) (\<lambda>wid.
        tx_bind (tx_map_err (debit_house_error coin) (apply_ledger_entry
          (simple_input wid (- amount) ty (Some rid) (Some rty) (Some memo)))) (\<lambda>_.
        tx_return ())))"

definition credit_house ::
    "Coin \<Rightarrow> int \<Rightarrow> ledger_type \<Rightarrow> uuid \<Rightarrow> string \<Rightarrow> string \<Rightarrow> (HouseError, unit) op" where
  "credit_house coin amount ty rid rty memo =
     (if amount = 0 then tx_return ()
      else
        tx_bind (get_house_wallet_id coin) (\<lambda>wid.
        tx_bind (tx_map_err credit_house_error (apply_ledger_entry
          (simple_input wid amount ty (Some rid) (Some rty) (Some memo)))) (\<lambda>_.
        tx_return ())))"

section \<open>Listings\<close>

text \<open>
  One row per coin, ordered by coin: the wallets of one owner and kind are unique per coin,
  so the grouped sum is the balance of the wallet.
\<close>

definition list_balances_by_kind :: "db \<Rightarrow> wallet_kind \<Rightarrow> (Coin \<times> int) list" where
  "list_balances_by_kind s kind =
     (case find_user_by_email s HOUSE_EMAIL of
        None \<Rightarrow> []
      | Some u \<Rightarrow>
          map (\<lambda>c. (c, \<Sum>w\<leftarrow>filter (\<lambda>w. w_user w = u_id u \<and> w_kind w = kind \<and> w_coin w = c) (wallets s).
                        wallet_balance s (w_id w)))
            (filter (\<lambda>c. \<exists>w\<in>set (wallets s). w_user w = u_id u \<and> w_kind w = kind \<and> w_coin w = c) COINS))"

definition list_house_balances :: "db \<Rightarrow> (Coin \<times> int) list" where
  "list_house_balances s = list_balances_by_kind s HOUSE"

definition list_lend_pool_balances :: "db \<Rightarrow> (Coin \<times> int) list" where
  "list_lend_pool_balances s = list_balances_by_kind s LEND_POOL"

section \<open>Successful runs\<close>

lemma house_wallet_id_cong [frame_simps]:
  "users s = users t \<Longrightarrow> wallets s = wallets t \<Longrightarrow> house_wallet_id s k c = house_wallet_id t k c"
  using wallet_id_of_cong [of s t]
  by (auto simp: house_wallet_id_def find_user_by_email_def split: option.splits)

lemma house_wallet_id_post [simp]: "house_wallet_id (post_entry i s) k c = house_wallet_id s k c"
  by (rule house_wallet_id_cong) simp_all

lemma house_wallet_id_post_all [simp]:
  "house_wallet_id (post_all is s) k c = house_wallet_id s k c"
  by (rule house_wallet_id_cong) simp_all

lemma get_house_wallet_id_Inr [tx_simps]:
  "get_house_wallet_id c s = Inr (w, s') \<longleftrightarrow> house_wallet_id s HOUSE c = Inr w \<and> s' = s"
  by (auto simp: get_house_wallet_id_def split: sum.splits)

lemma get_lend_pool_wallet_id_Inr [tx_simps]:
  "get_lend_pool_wallet_id c s = Inr (w, s') \<longleftrightarrow> house_wallet_id s LEND_POOL c = Inr w \<and> s' = s"
  by (auto simp: get_lend_pool_wallet_id_def split: sum.splits)

lemma house_wallet_id_Inr:
  "house_wallet_id s k c = Inr w \<Longrightarrow> \<exists>r\<in>set (wallets s). w_id r = w \<and> w_coin r = c \<and> w_kind r = k"
  by (auto simp: house_wallet_id_def split: option.splits dest!: wallet_id_of_Some)

lemma debit_house_Inr [tx_simps]:
  "0 < amount \<Longrightarrow> debit_house c amount ty rid rty memo s = Inr (u, s') \<longleftrightarrow>
     (\<exists>w. house_wallet_id s HOUSE c = Inr w \<and>
        can_post (simple_input w (- amount) ty (Some rid) (Some rty) (Some memo)) s \<and>
        s' = post_entry (simple_input w (- amount) ty (Some rid) (Some rty) (Some memo)) s)"
  by (simp add: debit_house_def tx_simps)

lemma credit_house_Inr [tx_simps]:
  "0 < amount \<Longrightarrow> credit_house c amount ty rid rty memo s = Inr (u, s') \<longleftrightarrow>
     (\<exists>w. house_wallet_id s HOUSE c = Inr w \<and>
        can_post (simple_input w amount ty (Some rid) (Some rty) (Some memo)) s \<and>
        s' = post_entry (simple_input w amount ty (Some rid) (Some rty) (Some memo)) s)"
  by (simp add: credit_house_def tx_simps)

lemma simple_input_sel [simp]:
  "in_wallet_id (simple_input w a t r rt m) = w" "in_amount (simple_input w a t r rt m) = a"
  "in_type (simple_input w a t r rt m) = t" "in_reference_id (simple_input w a t r rt m) = r"
  "in_reference_type (simple_input w a t r rt m) = rt"
  "in_reference_key (simple_input w a t r rt m) = None" "in_memo (simple_input w a t r rt m) = m"
  by (simp_all add: simple_input_def)

section \<open>The wallets of an owner\<close>

lemma house_wallet_id_of:
  "house_wallet_id s k c = Inr w \<Longrightarrow> \<exists>u. find_user_by_email s HOUSE_EMAIL = Some u \<and>
     wallet_id_of s (u_id u) c k = Some w"
  by (auto simp: house_wallet_id_def split: option.splits)

lemma account_coin:
  "wallets_wf s \<Longrightarrow> wallet_id_of s u c k = Some w \<Longrightarrow> (w \<in> coin_wallets s c') = (c' = c)"
  by (auto dest!: wallet_id_of_Some simp: wallet_coin)

lemma house_coin:
  "wallets_wf s \<Longrightarrow> house_wallet_id s k c = Inr w \<Longrightarrow> (w \<in> coin_wallets s c') = (c' = c)"
  by (auto dest!: house_wallet_id_of simp: account_coin)

lemma house_user_wallets_differ:
  assumes "wallets_wf s" and "wallet_id_of s user a PERSONAL = Some w" and "house_wallet_id s k b = Inr h"
    and "k \<noteq> PERSONAL"
  shows "w \<noteq> h"
  using house_wallet_id_of [OF assms(3)] wallet_id_of_inj [OF assms(1,2)] assms(4) by blast

section \<open>Provisioning lemmas\<close>

lemma append_entries_frame [simp]:
  "wallets (append_entries is s) = wallets s" "users (append_entries is s) = users s"
  "row_locks (append_entries is s) = row_locks s" "clock (append_entries is s) = clock s"
  by (induction "is" arbitrary: s) simp_all

lemma append_entries_balance:
  "wallet_balance (append_entries is s) w =
     wallet_balance s w + (\<Sum>i\<leftarrow>is. if w = in_wallet_id i then in_amount i else 0)"
  by (induction "is" arbitrary: s) (simp_all add: wallet_balance_def entry_of_def)

lemma append_entries_ledger: "\<exists>new. ledger (append_entries is s) = ledger s @ new"
proof (induction "is" arbitrary: s)
  case (Cons i "is")
  let ?s = "s\<lparr>next_id := Suc (next_id s), ledger := ledger s @ [entry_of i (next_id s) (clock s)]\<rparr>"
  obtain new where "ledger (append_entries is ?s) = ledger ?s @ new" using Cons.IH by blast
  then show ?case by simp
qed simp

lemma upsert_wallet_Inr:
  "upsert_wallet u c k s = Inr (x, s') \<longleftrightarrow>
     (wallet_id_of s u c k \<noteq> None \<or> (\<exists>r\<in>set (users s). u_id r = u)) \<and>
     s' = (if wallet_id_of s u c k \<noteq> None then s
           else s\<lparr>next_id := Suc (next_id s), wallets := wallets s @
             [\<lparr>w_id = next_id s, w_user = u, w_coin = c, w_kind = k, w_address = None,
               w_reorg_hold_at = None, w_hd_index = None\<rparr>]\<rparr>)"
  by (cases "wallet_id_of s u c k") (simp_all add: upsert_wallet_def tx_simps)

lemma wallet_id_of_append:
  "wallets s' = wallets s @ ws \<Longrightarrow> wallet_id_of s u c k = Some w \<Longrightarrow> wallet_id_of s' u c k = Some w"
  by (auto simp: wallet_id_of_def find_append split: option.splits)

lemma upsert_wallet_present:
  "upsert_wallet u c k s = Inr (x, s') \<Longrightarrow> wallet_id_of s' u c k \<noteq> None"
  by (cases "wallet_id_of s u c k")
    (simp_all add: upsert_wallet_Inr wallet_id_of_def find_append split: option.splits)

lemma upsert_wallet_grows:
  "upsert_wallet u c k s = Inr (x, s') \<Longrightarrow>
     \<exists>ws. wallets s' = wallets s @ ws \<and> ledger s' = ledger s \<and> users s' = users s"
  by (auto simp: upsert_wallet_Inr)

lemma no_entries_balance:
  "(\<And>e. e \<in> set (ledger s) \<Longrightarrow> le_wallet e \<noteq> w) \<Longrightarrow> wallet_balance s w = 0"
  unfolding wallet_balance_def by (rule sum_map_zero) auto

lemma keeps_upsert_books [keeps_intros]: "keeps books_ok (upsert_wallet u c k)"
proof -
  have "books_ok (s\<lparr>next_id := Suc (next_id s), wallets := wallets s @
      [\<lparr>w_id = next_id s, w_user = u, w_coin = c, w_kind = k, w_address = None,
        w_reorg_hold_at = None, w_hd_index = None\<rparr>]\<rparr>)" (is "books_ok ?t")
    if ok: "books_ok s" and new: "wallet_id_of s u c k = None" for s
  proof -
    have fresh: "w_id r \<noteq> next_id s" if "r \<in> set (wallets s)" for r
      using ok that by (auto simp: books_ok_def wallets_wf_def)
    with ok have "wallet_balance s (next_id s) = 0"
      by (intro no_entries_balance) (auto simp: books_ok_def entries_owned_def)
    moreover have "wallet_balance ?t w = wallet_balance s w" for w
      by (simp add: wallet_balance_def)
    moreover have "\<not> (w_user r = u \<and> w_coin r = c \<and> w_kind r = k)" if "r \<in> set (wallets s)" for r
      using new that by (auto simp: wallet_id_of_def find_None_iff)
    ultimately show ?thesis
      using ok fresh
      by (auto simp: books_ok_def wallets_wf_def entries_owned_def references_unique_def solvent_def
        less_Suc_eq)
  qed
  then show ?thesis by (simp add: keeps_def upsert_wallet_Inr)
qed

lemma keeps_debit_books [keeps_intros]: "keeps books_ok (debit_house c a ty rid rty m)"
  unfolding debit_house_def get_house_wallet_id_def
  by (intro keeps_intros) (auto simp: keeps_def split: sum.splits)

lemma keeps_credit_books [keeps_intros]: "keeps books_ok (credit_house c a ty rid rty m)"
  unfolding credit_house_def get_house_wallet_id_def
  by (intro keeps_intros) (auto simp: keeps_def split: sum.splits)

lemma upsert_wallets_grow:
  "tx_for_each (\<lambda>(k, c). upsert_wallet u c k) ps s = Inr (x, s') \<Longrightarrow>
     \<exists>ws. wallets s' = wallets s @ ws \<and> ledger s' = ledger s \<and> users s' = users s"
proof (induction ps arbitrary: s)
  case Nil
  then show ?case by (simp add: tx_simps)
next
  case (Cons p ps)
  obtain k c where p: "p = (k, c)" by (cases p)
  from Cons.prems p obtain y s1 where 1: "upsert_wallet u c k s = Inr (y, s1)"
    and 2: "tx_for_each (\<lambda>(k, c). upsert_wallet u c k) ps s1 = Inr (x, s')"
    unfolding tx_for_each.simps tx_bind_Inr by auto
  from upsert_wallet_grows [OF 1] Cons.IH [OF 2] show ?case by fastforce
qed

lemma upsert_wallets_present:
  "tx_for_each (\<lambda>(k, c). upsert_wallet u c k) ps s = Inr (x, s') \<Longrightarrow> (k, c) \<in> set ps \<Longrightarrow>
     wallet_id_of s' u c k \<noteq> None"
proof (induction ps arbitrary: s)
  case (Cons p ps)
  obtain k0 c0 where p: "p = (k0, c0)" by (cases p)
  from Cons.prems p obtain y s1 where 1: "upsert_wallet u c0 k0 s = Inr (y, s1)"
    and 2: "tx_for_each (\<lambda>(k, c). upsert_wallet u c k) ps s1 = Inr (x, s')"
    unfolding tx_for_each.simps tx_bind_Inr by auto
  obtain ws where ws: "wallets s' = wallets s1 @ ws" using upsert_wallets_grow [OF 2] by blast
  show ?case
  proof (cases "(k, c) = (k0, c0)")
    case True
    then obtain w where "wallet_id_of s1 u c k = Some w" using upsert_wallet_present [OF 1] by auto
    then show ?thesis using wallet_id_of_append [OF ws] by simp
  next
    case False
    then show ?thesis using Cons.IH [OF 2] Cons.prems(2) p by auto
  qed
qed simp

lemma upsert_house_user_Inr:
  "upsert_house_user ph s = Inr (h, s') \<Longrightarrow>
     map_option u_id (find_user_by_email s' HOUSE_EMAIL) = Some h \<and> wallets s' = wallets s \<and>
     ledger s' = ledger s"
  by (cases "find_user_by_email s HOUSE_EMAIL")
    (simp_all add: upsert_house_user_def tx_simps, simp_all add: find_user_by_email_def find_append
      split: option.splits)

lemma reverse_legacy_Inr [tx_simps]:
  "reverse_legacy_liquidity_seed s = Inr (x, s') \<longleftrightarrow> s' = append_entries (seed_reversals s) s"
  by (simp add: reverse_legacy_liquidity_seed_def tx_simps)

lemma ensure_faucet_floor_Inr [tx_simps]:
  "ensure_faucet_floor s = Inr (x, s') \<longleftrightarrow> s' = append_entries (floor_entries s) s"
  by (simp add: ensure_faucet_floor_def tx_simps)

lemma floor_positive:
  assumes "w \<in> set (wallets s)" and "w_kind w = HOUSE" and "0 \<le> wallet_balance s (w_id w)"
    and "u \<in> set (users s)" and "u_id u = w_user w" and "u_email u = HOUSE_EMAIL"
  shows "0 < wallet_balance (append_entries (floor_entries s) s) (w_id w)"
proof -
  let ?f = "\<lambda>i. if w_id w = in_wallet_id i then in_amount i else 0"
  have pos: "0 \<le> ?f i" if "i \<in> set (floor_entries s)" for i
    using that by (auto simp: floor_entries_def FAUCET_FLOOR_def)
  show ?thesis
  proof (cases "wallet_balance s (w_id w) \<le> 0")
    case False
    with sum_map_nonneg [of "floor_entries s" ?f, OF pos] show ?thesis
      by (simp add: append_entries_balance)
  next
    case True
    let ?i = "simple_input (w_id w) FAUCET_FLOOR ADJUSTMENT None (Some ''HouseFund'')
      (Some (''Admin fund HOUSE '' @ coin_str (w_coin w)))"
    from True assms have "?i \<in> set (floor_entries s)" unfolding floor_entries_def by auto
    from sum_map_member [of ?i "floor_entries s" ?f, OF this pos] assms(3) show ?thesis
      by (simp add: append_entries_balance FAUCET_FLOOR_def)
  qed
qed

section \<open>Properties\<close>

text \<open>
  Booting provisions the platform: after \<open>ensure_house_inventory\<close> the system user has a
  HOUSE and a LEND_POOL wallet for every coin, the wallets and entries that were there are
  still there, unchanged and in front.
\<close>

theorem house_provisioned:
  assumes "ensure_house_inventory ph s = Inr (h, s')" and "kind = HOUSE \<or> kind = LEND_POOL"
  shows "(\<exists>w. house_wallet_id s' kind c = Inr w) \<and>
    (\<exists>ws. wallets s' = wallets s @ ws) \<and> (\<exists>es. ledger s' = ledger s @ es)"
proof -
  from assms(1) obtain s1 s2 where
    1: "upsert_house_user ph s = Inr (h, s1)" and
    2: "tx_for_each (\<lambda>(k, c). upsert_wallet h c k) (List.product [HOUSE, LEND_POOL] COINS) s1 = Inr ((), s2)" and
    3: "s' = append_entries (floor_entries (append_entries (seed_reversals s2) s2))
          (append_entries (seed_reversals s2) s2)"
    unfolding ensure_house_inventory_def by (auto simp: tx_simps)
  have "(kind, c) \<in> set (List.product [HOUSE, LEND_POOL] COINS)" using assms(2) by auto
  with upsert_wallets_present [OF 2] have w: "wallet_id_of s2 h c kind \<noteq> None" by blast
  obtain ws where ws: "wallets s2 = wallets s1 @ ws" "ledger s2 = ledger s1" "users s2 = users s1"
    using upsert_wallets_grow [OF 2] by blast
  note user = upsert_house_user_Inr [OF 1]
  have same: "users s' = users s1" "wallets s' = wallets s2" using ws 3 by simp_all
  have "wallet_id_of s' h c kind = wallet_id_of s2 h c kind" using same by (intro wallet_id_of_cong)
  moreover have "map_option u_id (find_user_by_email s' HOUSE_EMAIL) = Some h"
    using user same by (simp add: find_user_by_email_def)
  ultimately have "\<exists>w. house_wallet_id s' kind c = Inr w"
    using w by (auto simp: house_wallet_id_def)
  moreover obtain a b where "ledger s' = (ledger s2 @ a) @ b"
    using 3 append_entries_ledger by metis
  ultimately show ?thesis using user ws same by simp
qed

definition boot_db :: db where
  "boot_db = snd (projr (ensure_house_inventory ''hash'' empty_db))"

theorem house_provisioned_witness:
  "\<exists>w. house_wallet_id boot_db LEND_POOL Pepe = Inr w"
proof -
  have loop: "\<exists>s1. tx_for_each (\<lambda>(k, c). upsert_wallet h c k) ps s = Inr ((), s1)"
    if "\<exists>r\<in>set (users s). u_id r = h" for h ps s
    using that
  proof (induction ps arbitrary: s)
    case (Cons p ps)
    obtain k c where p: "p = (k, c)" by (cases p)
    obtain s1 where s1: "upsert_wallet h c k s = Inr ((), s1)"
      using Cons.prems by (simp add: upsert_wallet_Inr)
    with Cons.prems Cons.IH [of s1] upsert_wallet_grows [OF s1] show ?case
      by (auto simp: p tx_bind_step)
  qed (simp add: tx_return_def)
  let ?s1 = "empty_db\<lparr>next_id := 1, users := [\<lparr>u_id = 0, u_email = HOUSE_EMAIL,
    u_username = ''system'', u_password_hash = ''hash''\<rparr>]\<rparr>"
  have first: "upsert_house_user ''hash'' empty_db = Inr (0, ?s1)"
    by (simp add: upsert_house_user_def empty_db_def find_user_by_email_def tx_defs fresh_uuid_def)
  obtain s2 where "tx_for_each (\<lambda>(k, c). upsert_wallet 0 c k) (List.product [HOUSE, LEND_POOL] COINS) ?s1
      = Inr ((), s2)"
    using loop [of ?s1 0] by auto
  with first have "\<exists>r. ensure_house_inventory ''hash'' empty_db = Inr r"
    by (simp add: ensure_house_inventory_def tx_defs reverse_legacy_liquidity_seed_def
      ensure_faucet_floor_def)
  then obtain h s' where run: "ensure_house_inventory ''hash'' empty_db = Inr (h, s')" by fastforce
  then have "boot_db = s'" by (simp add: boot_db_def)
  with house_provisioned [OF run, of LEND_POOL Pepe] show ?thesis by simp
qed

text \<open>
  The faucet floor works: when no balance is negative before the floor step, every HOUSE
  wallet of the system user holds something after it, and a wallet that already did is not
  topped up.
\<close>

theorem faucet_floor_positive:
  assumes "ensure_faucet_floor s = Inr (x, s')" and "solvent s"
    and "w \<in> set (wallets s)" and "w_kind w = HOUSE"
    and "\<exists>u\<in>set (users s). u_id u = w_user w \<and> u_email u = HOUSE_EMAIL"
  shows "0 < wallet_balance s' (w_id w) \<and>
    (0 < wallet_balance s (w_id w) \<longrightarrow> wallet_balance s' (w_id w) = wallet_balance s (w_id w))"
proof
  from assms obtain u where "u \<in> set (users s)" "u_id u = w_user w" "u_email u = HOUSE_EMAIL" by blast
  with assms show "0 < wallet_balance s' (w_id w)"
    by (auto simp: ensure_faucet_floor_Inr solvent_def intro!: floor_positive)
  show "0 < wallet_balance s (w_id w) \<longrightarrow> wallet_balance s' (w_id w) = wallet_balance s (w_id w)"
  proof
    assume pos: "0 < wallet_balance s (w_id w)"
    have "w_id w \<noteq> in_wallet_id i" if "i \<in> set (floor_entries s)" for i
    proof -
      from that obtain v where "v \<in> set (wallets s)" "in_wallet_id i = w_id v"
        "wallet_balance s (w_id v) \<le> 0" unfolding floor_entries_def by auto
      with pos show ?thesis by auto
    qed
    then have "(\<Sum>i\<leftarrow>floor_entries s. if w_id w = in_wallet_id i then in_amount i else 0) = 0"
      by (intro sum_map_zero) simp
    with assms(1) show "wallet_balance s' (w_id w) = wallet_balance s (w_id w)"
      by (simp add: ensure_faucet_floor_Inr append_entries_balance)
  qed
qed

definition house_user :: user_row where
  "house_user = \<lparr>u_id = 1, u_email = HOUSE_EMAIL, u_username = ''system'', u_password_hash = []\<rparr>"

definition house_demo :: "LedgerCreditInput list \<Rightarrow> db" where
  "house_demo is = append_entries is (empty_db\<lparr>next_id := 100, users := [house_user],
     wallets := [demo_wallet 2 1 Btc HOUSE, demo_wallet 3 1 Ltc HOUSE,
                 demo_wallet 4 7 Btc PERSONAL, demo_wallet 5 7 Ltc PERSONAL]\<rparr>)"

lemmas house_demo_defs = house_demo_def house_user_def demo_wallet_def empty_db_def
  simple_input_def entry_of_def

theorem faucet_floor_positive_witness:
  "0 < wallet_balance (append_entries (floor_entries (house_demo [])) (house_demo [])) 2"
  using faucet_floor_positive [where s = "house_demo []" and w = "demo_wallet 2 1 Btc HOUSE" and x = "()"
      and s' = "append_entries (floor_entries (house_demo [])) (house_demo [])"]
  by (simp add: ensure_faucet_floor_Inr house_demo_defs solvent_def wallet_balance_def)

text \<open>
  House inventory fails closed: a debit larger than the balance is refused as insufficient
  liquidity, and a debit that goes through takes exactly the amount from the HOUSE wallet of
  the coin, which had it, and touches no other balance.
\<close>

theorem debit_house_fails_closed:
  assumes "0 < amount" and "house_wallet_id s HOUSE c = Inr w"
  shows "(wallet_balance s w < amount \<longrightarrow>
      debit_house c amount ty rid rty memo s = Inl (InsufficientLiquidity c)) \<and>
    (\<forall>u s'. debit_house c amount ty rid rty memo s = Inr (u, s') \<longrightarrow>
      amount \<le> wallet_balance s w \<and>
      (\<forall>v. wallet_balance s' v = wallet_balance s v - (if v = w then amount else 0)))"
proof (intro conjI impI allI)
  let ?i = "simple_input w (- amount) ty (Some rid) (Some rty) (Some memo)"
  assume short: "wallet_balance s w < amount"
  from house_wallet_id_Inr [OF assms(2)] have "find_wallet s w \<noteq> None"
    by (auto simp: find_wallet_None)
  then obtain r where r: "find_wallet s (in_wallet_id ?i) = Some r" by auto
  have "tx_map_err (debit_house_error c) (apply_ledger_entry ?i) s = Inl (InsufficientLiquidity c)"
    using apply_short [OF r] short assms(1) by (auto simp: tx_map_err_def)
  moreover have "get_house_wallet_id c s = Inr (w, s)" using assms(2) by (simp add: get_house_wallet_id_Inr)
  ultimately show "debit_house c amount ty rid rty memo s = Inl (InsufficientLiquidity c)"
    using assms(1) by (simp add: debit_house_def tx_bind_step tx_bind_stop)
next
  fix u s'
  assume "debit_house c amount ty rid rty memo s = Inr (u, s')"
  with assms obtain "can_post (simple_input w (- amount) ty (Some rid) (Some rty) (Some memo)) s"
    and "s' = post_entry (simple_input w (- amount) ty (Some rid) (Some rty) (Some memo)) s"
    by (auto simp: debit_house_Inr)
  then show "amount \<le> wallet_balance s w"
    and "wallet_balance s' v = wallet_balance s v - (if v = w then amount else 0)" for v
    using assms(1) by (simp_all add: can_post_def)
qed

theorem debit_house_fails_closed_witness:
  "debit_house Btc 900 FAUCET 50 ''FaucetClaim'' ''m''
     (house_demo [simple_input 2 800 DEPOSIT None None None]) = Inl (InsufficientLiquidity Btc)"
proof -
  let ?s = "house_demo [simple_input 2 800 DEPOSIT None None None]"
  have "house_wallet_id ?s HOUSE Btc = Inr 2" and "wallet_balance ?s 2 = 800"
    by (simp_all add: house_demo_defs house_wallet_id_def find_user_by_email_def wallet_id_of_def
      wallet_balance_def)
  then show ?thesis using debit_house_fails_closed [of 900 ?s Btc 2] by simp
qed

definition spent_seed_db :: db where
  "spent_seed_db = house_demo
     [simple_input 2 1000 ADJUSTMENT None None (Some SEED_MEMO),
      simple_input 2 (- 700) FAUCET None None None]"

text \<open>
  The reversal of the legacy seed bypasses \<open>apply_ledger_entry\<close>: when part of the seed has
  been paid out, it leaves the HOUSE wallet with a negative balance, from a state in which
  every balance was non-negative.
\<close>

theorem legacy_reversal_can_overdraw:
  "solvent spent_seed_db \<and>
   (\<exists>s'. reverse_legacy_liquidity_seed spent_seed_db = Inr ((), s') \<and>
      wallet_balance s' 2 = - 700 \<and> \<not> solvent s')"
  by (simp add: spent_seed_db_def house_demo_defs reverse_legacy_Inr seed_reversals_def SEED_MEMO_def
      REVERSE_SEED_MEMO_def solvent_def wallet_balance_def)

end
