(* ===== verification/Wallet.thy ===== *)
theory Wallet
  imports House
begin

text \<open>
  \<open>crates/db/src/wallet.rs\<close>: the statement and wallet listings and the transfer between the
  PERSONAL and MERCHANT wallets of one user. The \<open>MERCHANT\<close> wallet is created on the pool
  before the transaction begins, so it stays when the transfer fails; \<open>coin\<close> is the text the
  caller passes and the statement casts.
\<close>

datatype WalletError =
  WalletDb db_error
| WalletLedger LedgerError
| InvalidAmount
| WalletNotFound

record WalletView =
  wv_coin :: string
  wv_address :: "string option"
  wv_balance :: int
  wv_kind :: string

record LedgerEntryView =
  lv_id :: uuid
  lv_coin :: string
  lv_amount :: int
  lv_entry_type :: ledger_type
  lv_memo :: "string option"
  lv_created_at :: int

text \<open>Newest first; rows of the same instant in insertion order, which SQL leaves open.\<close>

definition list_ledger_entries ::
    "db \<Rightarrow> uuid \<Rightarrow> wallet_kind \<Rightarrow> string option \<Rightarrow> int \<Rightarrow> LedgerEntryView list" where
  "list_ledger_entries s user kind coin n =
     List.take (nat (min (max n 1) 500))
       (sort_key (\<lambda>v. - lv_created_at v)
         (List.map_filter (\<lambda>e.
            case find_wallet s (le_wallet e) of
              None \<Rightarrow> None
            | Some w \<Rightarrow>
                if w_user w = user \<and> w_kind w = kind \<and>
                   (coin = None \<or> coin = Some (coin_str (w_coin w)))
                then Some \<lparr>lv_id = le_id e, lv_coin = coin_str (w_coin w), lv_amount = le_amount e,
                  lv_entry_type = le_type e, lv_memo = le_memo e, lv_created_at = le_created_at e\<rparr>
                else None) (ledger s)))"

definition list_wallets :: "db \<Rightarrow> uuid \<Rightarrow> wallet_kind \<Rightarrow> WalletView list" where
  "list_wallets s user kind =
     map (\<lambda>w. \<lparr>wv_coin = coin_str (w_coin w), wv_address = w_address w,
               wv_balance = wallet_balance s (w_id w), wv_kind = kind_str (w_kind w)\<rparr>)
       (sort_key (\<lambda>w. coin_rank (w_coin w))
         (filter (\<lambda>w. w_user w = user \<and> w_kind w = kind) (wallets s)))"

definition transfer_kinds :: "bool \<Rightarrow> wallet_kind \<times> wallet_kind" where
  "transfer_kinds to_developer = (if to_developer then (PERSONAL, MERCHANT) else (MERCHANT, PERSONAL))"

definition transfer_out :: "uuid \<Rightarrow> int \<Rightarrow> uuid \<Rightarrow> wallet_kind \<Rightarrow> LedgerCreditInput" where
  "transfer_out wid amount ref_id to_kind =
     simple_input wid (- amount) TRANSFER_OUT (Some ref_id) (Some ''InternalTransfer'')
       (Some (''To '' @ map lower_char (kind_str to_kind) @ '' wallet''))"

definition transfer_in :: "uuid \<Rightarrow> int \<Rightarrow> uuid \<Rightarrow> wallet_kind \<Rightarrow> LedgerCreditInput" where
  "transfer_in wid amount ref_id from_kind =
     simple_input wid amount TRANSFER_IN (Some ref_id) (Some ''InternalTransfer'')
       (Some (''From '' @ map lower_char (kind_str from_kind) @ '' wallet''))"

definition transfer_body ::
    "uuid \<Rightarrow> Coin \<Rightarrow> int \<Rightarrow> bool \<Rightarrow> (WalletError, unit) op" where
  "transfer_body user coin amount to_developer =
     (case transfer_kinds to_developer of (from_kind, to_kind) \<Rightarrow>
     tx_bind (select_wallet user coin from_kind) (\<lambda>from_id.
     tx_bind (select_wallet user coin to_kind) (\<lambda>to_id.
     tx_bind (tx_ok_or WalletNotFound from_id) (\<lambda>from_id.
     tx_bind (tx_ok_or WalletNotFound to_id) (\<lambda>to_id.
     tx_bind (tx_map_err WalletLedger (lock_wallets [from_id, to_id])) (\<lambda>_.
     tx_bind fresh_uuid (\<lambda>ref_id.
     tx_bind (tx_map_err WalletLedger (apply_ledger_entry (transfer_out from_id amount ref_id to_kind))) (\<lambda>_.
     tx_bind (tx_map_err WalletLedger (apply_ledger_entry (transfer_in to_id amount ref_id from_kind))) (\<lambda>_.
     tx_return ())))))))))"

definition transfer_between_kinds ::
    "uuid \<Rightarrow> string \<Rightarrow> int \<Rightarrow> bool \<Rightarrow> db \<Rightarrow> (WalletError + unit) \<times> db" where
  "transfer_between_kinds user coin amount to_developer s =
     (if amount \<le> 0 then (Inl InvalidAmount, s)
      else
        case tx_bind (cast_coin coin) (\<lambda>c.
               tx_bind (upsert_wallet user c MERCHANT) (\<lambda>_. tx_return c)) s of
          Inl e \<Rightarrow> (Inl (WalletDb e), s)
        | Inr (c, s1) \<Rightarrow>
            commit_tx release_locks (transfer_body user c amount to_developer) s1)"

lemma transfer_input_sel [simp]:
  "in_wallet_id (transfer_out w a r k) = w" "in_amount (transfer_out w a r k) = - a"
  "in_wallet_id (transfer_in w a r k) = w" "in_amount (transfer_in w a r k) = a"
  by (simp_all add: transfer_out_def transfer_in_def)

lemma transfer_body_Inr:
  assumes "transfer_body user c amount dev s = Inr (u, s')" and "transfer_kinds dev = (fk, tk)"
  shows "\<exists>f t s1 i j. wallet_id_of s user c fk = Some f \<and> wallet_id_of s user c tk = Some t \<and>
    wallets s1 = wallets s \<and> ledger s1 = ledger s \<and> in_wallet_id i = f \<and> in_amount i = - amount \<and>
    in_wallet_id j = t \<and> in_amount j = amount \<and>
    can_post i s1 \<and> can_post j (post_entry i s1) \<and> s' = post_entry j (post_entry i s1)"
proof -
  from assms obtain f t where ft: "wallet_id_of s user c fk = Some f" "wallet_id_of s user c tk = Some t"
    by (simp add: transfer_body_def tx_simps) blast
  let ?s1 = "s\<lparr>row_locks := fold acquire
      (map WalletLock (filter (\<lambda>w. find_wallet s w \<noteq> None) (remdups_adj (sort [f, t])))) (row_locks s),
      next_id := Suc (next_id s)\<rparr>"
  let ?i = "transfer_out f amount (next_id s) tk" and ?j = "transfer_in t amount (next_id s) fk"
  from assms ft have "can_post ?i ?s1 \<and> can_post ?j (post_entry ?i ?s1) \<and> s' = post_entry ?j (post_entry ?i ?s1)"
    by (simp add: transfer_body_def tx_simps)
  then show ?thesis using ft
    by (intro exI [of _ f] exI [of _ t] exI [of _ ?s1] exI [of _ ?i] exI [of _ ?j]) simp
qed

lemma keeps_transfer_body: "keeps books_ok (transfer_body user c amount dev)"
  unfolding transfer_body_def lock_wallets_def lock_wallet_def select_wallet_def
  by (intro keeps_intros)

lemma transfer_success:
  assumes "transfer_between_kinds user coin amount dev s = (Inr (), s')"
    and "transfer_kinds dev = (fk, tk)"
  obtains c s1 s2 where "coin = coin_str c" and "0 < amount"
    and "upsert_wallet user c MERCHANT s = Inr ((), s1)"
    and "transfer_body user c amount dev s1 = Inr ((), s2)" and "s' = release_locks s2"
  using assms
  by (auto simp: transfer_between_kinds_def commit_tx_success tx_simps split: if_splits sum.splits)

lemma transfer_frame:
  "transfer_between_kinds user coin amount dev s = (Inl e, s') \<Longrightarrow>
     ledger s' = ledger s \<and> (\<exists>ws. wallets s' = wallets s @ ws)"
  by (auto simp: transfer_between_kinds_def commit_tx_failure tx_simps
      split: if_splits sum.splits dest!: upsert_wallet_grows)

text \<open>
  A transfer between the two wallets of a user conserves the user's money: when it
  succeeds, the amount is positive, left a wallet that had it and arrived whole in the other
  wallet of the same coin, every other balance is the same, and the books stay in order;
  when it fails no balance changes.
\<close>

theorem transfer_conserves:
  assumes "books_ok s" and "transfer_between_kinds user coin amount dev s = (r, s')"
  shows "books_ok s' \<and>
    (case r of
       Inl e \<Rightarrow> \<forall>w. wallet_balance s' w = wallet_balance s w
     | Inr _ \<Rightarrow> 0 < amount \<and>
        (\<exists>c f t. coin = coin_str c \<and> f \<noteq> t \<and>
           wallet_id_of s' user c (fst (transfer_kinds dev)) = Some f \<and>
           wallet_id_of s' user c (snd (transfer_kinds dev)) = Some t \<and>
           amount \<le> wallet_balance s f \<and>
           (\<forall>w. wallet_balance s' w = wallet_balance s w
              - (if w = f then amount else 0) + (if w = t then amount else 0))))"
proof (cases r)
  case (Inl e)
  then have fail: "transfer_between_kinds user coin amount dev s = (Inl e, s')" using assms(2) by simp
  then have "s' = s \<or> (\<exists>c s1. upsert_wallet user c MERCHANT s = Inr ((), s1) \<and> s' = s1)"
    by (auto simp: transfer_between_kinds_def commit_tx_failure tx_simps split: if_splits sum.splits)
  then have "books_ok s'" using assms(1) keeps_upsert_books by (auto dest: keepsD)
  moreover have "wallet_balance s' w = wallet_balance s w" for w
    using transfer_frame [OF fail] by (intro wallet_balance_frame) simp
  ultimately show ?thesis using Inl by simp
next
  case (Inr u)
  obtain fk tk where k: "transfer_kinds dev = (fk, tk)" by (cases "transfer_kinds dev")
  from Inr assms(2) have ok: "transfer_between_kinds user coin amount dev s = (Inr (), s')" by simp
  obtain c s1 s2 where run: "coin = coin_str c" "0 < amount"
    "upsert_wallet user c MERCHANT s = Inr ((), s1)"
    "transfer_body user c amount dev s1 = Inr ((), s2)" "s' = release_locks s2"
    by (rule transfer_success [OF ok k])
  have books1: "books_ok s1" using keeps_upsert_books run(3) assms(1) by (rule keepsD)
  then have books2: "books_ok s2" using keeps_transfer_body run(4) by (rule keepsD [rotated 2])
  obtain f t s3 i j where body: "wallet_id_of s1 user c fk = Some f" "wallet_id_of s1 user c tk = Some t"
    "wallets s3 = wallets s1" "ledger s3 = ledger s1" "in_wallet_id i = f" "in_amount i = - amount"
    "in_wallet_id j = t" "in_amount j = amount" "can_post i s3"
    "s2 = post_entry j (post_entry i s3)"
    using transfer_body_Inr [OF run(4) k] by blast
  have "fk \<noteq> tk" using k by (auto simp: transfer_kinds_def split: if_splits)
  then have ft: "f \<noteq> t"
    using wallet_id_of_inj [of s1 user c fk f user c tk] body(1,2) books1
    by (auto simp: books_ok_def)
  have bal: "wallet_balance s3 w = wallet_balance s w" for w
    using body(4) upsert_wallet_grows [OF run(3)] by (intro wallet_balance_frame) auto
  have "wallet_id_of s' user c k' = wallet_id_of s1 user c k'" for k'
    using body(3,10) run(5) by (intro wallet_id_of_cong) (simp add: release_locks_def)
  moreover have "amount \<le> wallet_balance s f"
    using body run(2) bal by (simp add: can_post_def)
  ultimately show ?thesis
    using Inr run books2 body ft k bal
    by (simp add: books_ok_release)
qed

definition transfer_demo :: db where
  "transfer_demo = append_entries [simple_input 4 900 DEPOSIT None None None]
     (empty_db\<lparr>next_id := 100,
        wallets := [demo_wallet 4 7 Btc PERSONAL, demo_wallet 5 7 Btc MERCHANT]\<rparr>)"

lemma transfer_demo_ok: "books_ok transfer_demo"
  by (simp add: transfer_demo_def demo_wallet_def empty_db_def books_ok_def wallets_wf_def
      entries_owned_def references_unique_def solvent_def wallet_balance_def
      simple_input_def entry_of_def List.map_filter_simps reference_of_def key_of_def)

theorem transfer_conserves_witness:
  "books_ok (snd (transfer_between_kinds 7 ''BTC'' 250 True transfer_demo)) \<and>
   fst (transfer_between_kinds 7 ''BTC'' 250 True transfer_demo) = Inr ()"
proof
  show "books_ok (snd (transfer_between_kinds 7 ''BTC'' 250 True transfer_demo))"
    using transfer_conserves [OF transfer_demo_ok, of 7 "''BTC''" 250 True] by (metis prod.collapse)
  show "fst (transfer_between_kinds 7 ''BTC'' 250 True transfer_demo) = Inr ()"
    by (simp add: transfer_demo_def demo_wallet_def empty_db_def transfer_between_kinds_def
        cast_coin_def COINS_def upsert_wallet_def select_wallet_def wallet_id_of_def tx_defs
        transfer_body_def transfer_kinds_def lock_wallets_def lock_wallet_def find_wallet_def
        take_lock_def fresh_uuid_def apply_ledger_entry_def get_wallet_balance_def wallet_balance_def
        insert_ledger_entry_def check_numeric_def fits_numeric_def numeric_limit_def
        reference_conflict_def key_conflict_def transfer_out_def transfer_in_def
        simple_input_def entry_of_def commit_tx_def)
qed

end
