(* ===== verification/Outbox.thy ===== *)
theory Outbox
  imports Ledger
begin

text \<open>
  \<open>crates/events/src/outbox.rs\<close> and \<open>relay.rs\<close>: staging an event inside the caller's
  transaction, and the relay that publishes pending rows and marks them.
\<close>

definition outbox_row_of :: "DomainEvent \<Rightarrow> uuid \<Rightarrow> int \<Rightarrow> outbox_row" where
  "outbox_row_of event eid ts =
     \<lparr>ob_id = eid, ob_aggregate_type = aggregate_type event, ob_aggregate_id = aggregate_id event,
      ob_event_type = event_type_name event, ob_payload = event, ob_created_at = ts,
      ob_published_at = None\<rparr>"

definition stage :: "DomainEvent \<Rightarrow> (db_error, uuid) op" where
  "stage event =
     tx_bind fresh_uuid (\<lambda>eid.
     tx_bind (tx_modify (\<lambda>s. s\<lparr>outbox := outbox s @ [outbox_row_of event eid (clock s)]\<rparr>)) (\<lambda>_.
     tx_return eid))"

text \<open>The state after staging.\<close>

definition staged :: "DomainEvent \<Rightarrow> db \<Rightarrow> db" where
  "staged event s = s\<lparr>next_id := Suc (next_id s),
     outbox := outbox s @ [outbox_row_of event (next_id s) (clock s)]\<rparr>"

lemma stage_Inr [tx_simps]:
  "stage event s = Inr (eid, s') \<longleftrightarrow> eid = next_id s \<and> s' = staged event s"
  by (simp add: stage_def staged_def tx_simps)

lemma staged_frame [simp]:
  "users (staged e s) = users s" "wallets (staged e s) = wallets s" "ledger (staged e s) = ledger s"
  "swaps (staged e s) = swaps s" "stakes (staged e s) = stakes s"
  "faucet_claims (staged e s) = faucet_claims s" "deposits (staged e s) = deposits s"
  "withdrawals (staged e s) = withdrawals s" "reserves (staged e s) = reserves s"
  "positions (staged e s) = positions s" "clock (staged e s) = clock s"
  "row_locks (staged e s) = row_locks s" "next_id (staged e s) = Suc (next_id s)"
  "network_fees (staged e s) = network_fees s"
  "outbox (staged e s) = outbox s @ [outbox_row_of e (next_id s) (clock s)]"
  by (simp_all add: staged_def)

lemma wallet_balance_staged [simp]: "wallet_balance (staged e s) w = wallet_balance s w"
  by (rule wallet_balance_frame) simp

lemma keeps_stage_books [keeps_intros]: "keeps books_ok (stage e)"
  by (auto simp: keeps_def stage_Inr elim!: books_ok_cong [rotated -1])

end
