(* ===== verification/Pricing.thy ===== *)
theory Pricing
  imports Ledger SwapMath
begin

text \<open>
  \<open>crates/db/src/pricing.rs\<close>: the cached spot prices. Reads fail closed on a missing or stale
  row; a price table covers every coin or does not exist. The oracle's answer is the argument of
  \<open>refresh_all\<close>, each price the exact value of its \<open>f64\<close>; a price written to the cache went
  through one \<open>f64\<close> multiplication and a rounding.
\<close>

datatype PricingDbError =
  PricingDb db_error
| PriceFetch string
| NoCachedPrice Coin
| StalePrice Coin int int \<comment> \<open>coin, age, budget, in microseconds\<close>

definition set_price :: "price_row \<Rightarrow> price_row list \<Rightarrow> price_row list" where
  "set_price r rows =
     (if \<exists>p\<in>set rows. pc_coin p = pc_coin r
      then update_where (\<lambda>p. pc_coin p = pc_coin r) (\<lambda>_. r) rows
      else rows @ [r])"

definition scaled_price :: "rat \<Rightarrow> nat \<Rightarrow> int" where
  "scaled_price usd dec = int (f64_round_u (f64 (usd * f64 (of_nat (10 ^ dec)))))"

definition refresh_all ::
    "string + (Coin \<times> rat) list \<Rightarrow> nat \<Rightarrow> db \<Rightarrow> (PricingDbError + unit) \<times> db" where
  "refresh_all oracle dec s =
     (case oracle of
        Inl e \<Rightarrow> (Inl (PriceFetch e), s)
      | Inr prices \<Rightarrow>
          commit_tx release_locks
            (tx_for_each (\<lambda>(coin, usd). tx_modify (\<lambda>s. s\<lparr>price_cache := set_price
               \<lparr>pc_coin = coin, pc_price_scaled = scaled_price usd dec, pc_price_decimals = int dec,
                pc_fetched_at = clock s\<rparr> (price_cache s)\<rparr>)) prices) s)"

definition cached_price :: "db \<Rightarrow> Coin \<Rightarrow> int \<Rightarrow> PricingDbError + nat \<times> nat" where
  "cached_price s coin max_stale =
     (case List.find (\<lambda>p. pc_coin p = coin) (price_cache s) of
        None \<Rightarrow> Inl (NoCachedPrice coin)
      | Some row \<Rightarrow>
          let age = max 0 (clock s - pc_fetched_at row)
          in if max_stale < age then Inl (StalePrice coin age max_stale)
             else case dec_to_u128 (pc_price_scaled row) of
                None \<Rightarrow> Inl (NoCachedPrice coin)
              | Some p \<Rightarrow> Inr (p, nat (pc_price_decimals row mod 2 ^ 32)))"

definition get_price :: "Coin \<Rightarrow> int \<Rightarrow> (PricingDbError, nat \<times> nat) op" where
  "get_price coin max_stale = (\<lambda>s.
     case cached_price s coin max_stale of Inl e \<Rightarrow> Inl e | Inr p \<Rightarrow> Inr (p, s))"

type_synonym PriceTable = "Coin \<rightharpoonup> nat \<times> nat"

definition value_usd :: "PriceTable \<Rightarrow> Coin \<Rightarrow> nat \<Rightarrow> nat \<Rightarrow> nat" where
  "value_usd prices coin amount coin_decimals =
     to_u128_or_max (amount * fst (case prices coin of None \<Rightarrow> (0, 0) | Some p \<Rightarrow> p) div
       10 ^ coin_decimals)"

definition price_scaled :: "PriceTable \<Rightarrow> Coin \<Rightarrow> nat" where
  "price_scaled prices coin = (case prices coin of None \<Rightarrow> 0 | Some (p, _) \<Rightarrow> p)"

fun load_prices :: "Coin list \<Rightarrow> int \<Rightarrow> PriceTable \<Rightarrow> (PricingDbError, PriceTable) op" where
  "load_prices [] max_stale prices = tx_return prices"
| "load_prices (c # cs) max_stale prices =
     tx_bind (get_price c max_stale) (\<lambda>p. load_prices cs max_stale (prices(c \<mapsto> p)))"

definition load_price_table :: "int \<Rightarrow> (PricingDbError, PriceTable) op" where
  "load_price_table max_stale = load_prices COINS max_stale Map.empty"

text \<open>The ticker: whatever is cached, and the decimals of the last row (8 without any).\<close>

definition list_cached_prices :: "db \<Rightarrow> nat \<times> (Coin \<rightharpoonup> nat)" where
  "list_cached_prices s =
     (fold (\<lambda>r _. nat (pc_price_decimals r mod 2 ^ 32)) (price_cache s) 8,
      fold (\<lambda>r m. case dec_to_u128 (pc_price_scaled r) of None \<Rightarrow> m
              | Some p \<Rightarrow> m(pc_coin r \<mapsto> p))
        (price_cache s) Map.empty)"

lemma get_price_Inr [tx_simps]:
  "get_price c m s = Inr (p, s') \<longleftrightarrow> cached_price s c m = Inr p \<and> s' = s"
  by (auto simp: get_price_def split: sum.splits)

lemma keeps_get_price [keeps_intros]: "keeps I (get_price c m)"
  by (simp add: keeps_def get_price_Inr)

lemma cached_price_Inr:
  "cached_price s c m = Inr (p, d) \<Longrightarrow>
     \<exists>row\<in>set (price_cache s). pc_coin row = c \<and> pc_price_scaled row = int p \<and> p \<le> u128_max \<and>
       clock s - pc_fetched_at row \<le> m"
  by (auto simp: cached_price_def Let_def dec_to_u128_def u128_max_def
      split: option.splits if_splits dest!: find_Some_props)

lemma load_prices_Inr:
  "load_prices cs m t s = Inr (t', s') \<Longrightarrow>
     s' = s \<and> (\<forall>c. t' c = (if c \<in> set cs then Some (projr (cached_price s c m)) else t c)) \<and>
     (\<forall>c\<in>set cs. \<exists>p. cached_price s c m = Inr p)"
proof (induction cs arbitrary: t)
  case (Cons c cs)
  then obtain p where p: "cached_price s c m = Inr p"
    and r: "load_prices cs m (t(c \<mapsto> p)) s = Inr (t', s')"
    by (auto simp: tx_simps)
  from Cons.IH [OF r] p show ?case by auto
qed (auto simp: tx_simps)

lemma load_price_table_Inr:
  "load_price_table m s = Inr (t, s') \<Longrightarrow>
     s' = s \<and> (\<forall>c. \<exists>p. cached_price s c m = Inr p \<and> t c = Some p)"
proof -
  assume "load_price_table m s = Inr (t, s')"
  from load_prices_Inr [OF this [unfolded load_price_table_def]]
  have s': "s' = s" and t: "t c = Some (projr (cached_price s c m))"
    and ok: "\<exists>p. cached_price s c m = Inr p" for c
    by simp_all
  have "\<exists>p. cached_price s c m = Inr p \<and> t c = Some p" for c
  proof -
    obtain p where "cached_price s c m = Inr p" using ok by blast
    with t [of c] show ?thesis by simp
  qed
  with s' show ?thesis by blast
qed

lemma keeps_load_price_table [keeps_intros]: "keeps I (load_price_table m)"
  by (auto simp: keeps_def dest!: load_price_table_Inr)

end
