(* ===== verification/SwapService.thy ===== *)
theory SwapService
  imports House Outbox Pricing
begin

text \<open>
  \<open>crates/db/src/swap.rs\<close>: the quote from cached prices, and the atomic swap against HOUSE
  inventory: user to HOUSE in the source coin, HOUSE to user in the destination coin, one
  outbox event, all in one transaction under the four wallet locks.

  Other sessions may commit between the lookup on the pool and the transaction, and between
  the lookup inside the transaction and the insert (read committed). Those two interferences
  are arguments of \<open>execute\<close>: \<open>before_begin\<close> and \<open>before_insert\<close>; a sequential run passes the
  identity.
\<close>

definition SWAP_FEE_BPS :: nat where
  "SWAP_FEE_BPS = 25"

datatype SwapServiceError =
  SwapDb db_error
| SwapHouse HouseError
| SwapOutbox db_error
| SwapQuoteError SwapError
| SwapQuotePanic
| SwapPricing PricingDbError
| SameCoin
| AmountTooSmall
| SlippageExceeded
| SwapWalletNotFound

record SwapRow =
  sr_id :: uuid
  sr_from_amount :: nat
  sr_to_amount :: nat
  sr_fee_amount :: nat

section \<open>The quote\<close>

fun lift_quote :: "(SwapError + SwapQuote) option \<Rightarrow> (SwapServiceError, SwapQuote) op" where
  "lift_quote None = tx_throw SwapQuotePanic"
| "lift_quote (Some (Inl e)) = tx_throw (SwapQuoteError e)"
| "lift_quote (Some (Inr q)) = tx_return q"

definition quote :: "Coin \<Rightarrow> Coin \<Rightarrow> nat \<Rightarrow> int \<Rightarrow> (SwapServiceError, SwapQuote) op" where
  "quote from_coin to_coin amount max_stale =
     tx_bind (tx_assert (from_coin \<noteq> to_coin) SameCoin) (\<lambda>_.
     tx_bind (tx_map_err SwapPricing (get_price from_coin max_stale)) (\<lambda>(price_from, decimals_from).
     tx_bind (tx_map_err SwapPricing (get_price to_coin max_stale)) (\<lambda>(price_to, decimals_to).
     lift_quote (compute_swap from_coin to_coin amount price_from price_to SWAP_FEE_BPS decimals_from))))"

section \<open>The swap\<close>

definition swap_row_view :: "swap_row \<Rightarrow> SwapRow" where
  "swap_row_view r =
     \<lparr>sr_id = sw_id r, sr_from_amount = dec_to_u128_or 0 (sw_from_amount r),
      sr_to_amount = dec_to_u128_or 0 (sw_to_amount r),
      sr_fee_amount = dec_to_u128_or 0 (sw_fee_amount r)\<rparr>"

definition find_by_idempotency_key :: "db \<Rightarrow> string \<Rightarrow> SwapRow option" where
  "find_by_idempotency_key s key =
     map_option swap_row_view (List.find (\<lambda>r. sw_idempotency_key r = Some key) (swaps s))"

definition insert_swap ::
    "uuid \<Rightarrow> Coin \<Rightarrow> Coin \<Rightarrow> SwapQuote \<Rightarrow> string \<Rightarrow> (db_error, uuid) op" where
  "insert_swap user from_coin to_coin q key =
     tx_bind (check_numeric (int (from_amount q))) (\<lambda>_.
     tx_bind (check_numeric (int (to_amount q))) (\<lambda>_.
     tx_bind (check_numeric (int (fee_amount q))) (\<lambda>_.
     tx_bind (check_numeric (int (price_from q))) (\<lambda>_.
     tx_bind (check_numeric (int (price_to q))) (\<lambda>_.
     tx_bind (tx_gets (\<lambda>s. \<exists>r\<in>set (swaps s). sw_idempotency_key r = Some key)) (\<lambda>taken.
     tx_bind (tx_assert (\<not> taken) (UniqueViolation ''swaps_idempotency_key_key'')) (\<lambda>_.
     tx_bind (check_user_fk ''swaps'' user) (\<lambda>_.
     tx_bind fresh_uuid (\<lambda>sid.
     tx_bind (tx_modify (\<lambda>s. s\<lparr>swaps := swaps s @
       [\<lparr>sw_id = sid, sw_user = user, sw_from_coin = from_coin, sw_to_coin = to_coin,
         sw_from_amount = int (from_amount q), sw_to_amount = int (to_amount q),
         sw_fee_amount = int (fee_amount q), sw_fee_bps = int (fee_bps q),
         sw_price_from = int (price_from q), sw_price_to = int (price_to q),
         sw_price_decimals = int (price_decimals q), sw_idempotency_key = Some key,
         sw_created_at = clock s\<rparr>]\<rparr>)) (\<lambda>_.
     tx_return sid))))))))))"

text \<open>The wallets and their locks, up to the insert.\<close>

definition swap_accounts ::
    "uuid \<Rightarrow> Coin \<Rightarrow> Coin \<Rightarrow> (SwapServiceError, uuid \<times> uuid) op" where
  "swap_accounts user from_coin to_coin =
     tx_bind (select_wallet user from_coin PERSONAL) (\<lambda>from_wallet.
     tx_bind (select_wallet user to_coin PERSONAL) (\<lambda>to_wallet.
     tx_bind (tx_ok_or SwapWalletNotFound from_wallet) (\<lambda>from_wallet.
     tx_bind (tx_ok_or SwapWalletNotFound to_wallet) (\<lambda>to_wallet.
     tx_bind (tx_map_err SwapHouse (get_house_wallet_id from_coin)) (\<lambda>from_house.
     tx_bind (tx_map_err SwapHouse (get_house_wallet_id to_coin)) (\<lambda>to_house.
     tx_bind (tx_map_err (\<lambda>e. SwapDb (Protocol (ledger_error_str e)))
       (lock_wallets [from_wallet, to_wallet, from_house, to_house])) (\<lambda>_.
     tx_return (from_wallet, to_wallet))))))))"

text \<open>\<open>&user_id.to_string()[..8]\<close> and the memos around it.\<close>

definition user_prefix :: "uuid \<Rightarrow> string" where
  "user_prefix user = List.take 8 (show_uuid user) @ utf8_ellipsis"

definition intake_memo :: "uuid \<Rightarrow> string" where
  "intake_memo user = ''Swap intake from user '' @ user_prefix user"

definition payout_memo :: "uuid \<Rightarrow> string" where
  "payout_memo user = ''Swap payout to user '' @ user_prefix user"

definition swap_debit_user :: "uuid \<Rightarrow> Coin \<Rightarrow> int \<Rightarrow> uuid \<Rightarrow> LedgerCreditInput" where
  "swap_debit_user wid to_coin amount sid =
     simple_input wid (- amount) SWAP_OUT (Some sid) (Some ''Swap'')
       (Some (''Swap '' @ utf8_arrow @ '' '' @ coin_str to_coin))"

definition swap_credit_user :: "uuid \<Rightarrow> Coin \<Rightarrow> int \<Rightarrow> uuid \<Rightarrow> LedgerCreditInput" where
  "swap_credit_user wid from_coin amount sid =
     simple_input wid amount SWAP_IN (Some sid) (Some ''Swap'')
       (Some (''Swap from '' @ coin_str from_coin))"

definition swap_event :: "Coin \<Rightarrow> Coin \<Rightarrow> SwapQuote \<Rightarrow> uuid \<Rightarrow> uuid \<Rightarrow> DomainEvent" where
  "swap_event from_coin to_coin q from_wallet sid =
     SwapExecuted sid from_wallet (coin_str from_coin) (coin_str to_coin)
       (show_nat (from_amount q)) (show_nat (to_amount q)) (show_nat (fee_amount q))"

definition swap_moves ::
    "uuid \<Rightarrow> Coin \<Rightarrow> Coin \<Rightarrow> SwapQuote \<Rightarrow> uuid \<Rightarrow> uuid \<Rightarrow> uuid \<Rightarrow> (SwapServiceError, unit) op" where
  "swap_moves user from_coin to_coin q from_wallet to_wallet sid =
     tx_bind (tx_map_err (\<lambda>e. SwapDb (Protocol (ledger_error_str e))) (apply_ledger_entry
       (swap_debit_user from_wallet to_coin (int (from_amount q)) sid))) (\<lambda>_.
     tx_bind (tx_map_err SwapHouse (credit_house from_coin (int (from_amount q)) SWAP_IN sid ''Swap''
       (intake_memo user))) (\<lambda>_.
     tx_bind (tx_map_err SwapHouse (debit_house to_coin (int (to_amount q)) SWAP_OUT sid ''Swap''
       (payout_memo user))) (\<lambda>_.
     tx_bind (tx_map_err (\<lambda>e. SwapDb (Protocol (ledger_error_str e))) (apply_ledger_entry
       (swap_credit_user to_wallet from_coin (int (to_amount q)) sid))) (\<lambda>_.
     tx_bind (tx_map_err SwapOutbox (stage (swap_event from_coin to_coin q from_wallet sid))) (\<lambda>_.
     tx_return ())))))"

definition new_swap_row :: "SwapQuote \<Rightarrow> uuid \<Rightarrow> SwapRow" where
  "new_swap_row q sid =
     \<lparr>sr_id = sid, sr_from_amount = from_amount q, sr_to_amount = to_amount q,
      sr_fee_amount = fee_amount q\<rparr>"

text \<open>
  From the insert on: a unique violation drops the transaction and looks the key up again on
  the pool (\<open>Inl (Some e)\<close> stands for a raised error, \<open>Inl None\<close> for that branch).
\<close>

definition swap_from_insert ::
    "uuid \<Rightarrow> Coin \<Rightarrow> Coin \<Rightarrow> SwapQuote \<Rightarrow> string \<Rightarrow> uuid \<Rightarrow> uuid \<Rightarrow>
     (SwapServiceError option, SwapRow) op" where
  "swap_from_insert user from_coin to_coin q key from_wallet to_wallet =
     tx_bind (tx_map_err (\<lambda>e. if is_unique_violation e then None else Some (SwapDb e))
       (insert_swap user from_coin to_coin q key)) (\<lambda>sid.
     tx_bind (tx_map_err Some (swap_moves user from_coin to_coin q from_wallet to_wallet sid)) (\<lambda>_.
     tx_return (new_swap_row q sid)))"

definition execute ::
    "(db \<Rightarrow> db) \<Rightarrow> (db \<Rightarrow> db) \<Rightarrow> uuid \<Rightarrow> Coin \<Rightarrow> Coin \<Rightarrow> nat \<Rightarrow> nat option \<Rightarrow> string \<Rightarrow> int \<Rightarrow> db \<Rightarrow>
     (SwapServiceError + SwapRow \<times> bool) \<times> db" where
  "execute before_begin before_insert user from_coin to_coin amount min_to key max_stale s =
     (case quote from_coin to_coin amount max_stale s of
        Inl e \<Rightarrow> (Inl e, s)
      | Inr (q, _) \<Rightarrow>
          if to_amount q = 0 then (Inl AmountTooSmall, s)
          else if (case min_to of None \<Rightarrow> False | Some m \<Rightarrow> to_amount q < m)
            then (Inl SlippageExceeded, s)
          else
            let scoped = scoped_key user key in
            case find_by_idempotency_key s scoped of
              Some existing \<Rightarrow> (Inr (existing, False), s)
            | None \<Rightarrow>
                let s1 = before_begin s in
                case find_by_idempotency_key s1 scoped of
                  Some existing \<Rightarrow> (Inr (existing, False), s1)
                | None \<Rightarrow>
                    (case swap_accounts user from_coin to_coin s1 of
                       Inl e \<Rightarrow> (Inl e, s1)
                     | Inr ((from_wallet, to_wallet), s2) \<Rightarrow>
                         (case swap_from_insert user from_coin to_coin q scoped from_wallet to_wallet
                                 (before_insert s2) of
                            Inr (row, s3) \<Rightarrow> (Inr (row, True), release_locks s3)
                          | Inl (Some e) \<Rightarrow> (Inl e, before_insert s1)
                          | Inl None \<Rightarrow>
                              (case find_by_idempotency_key (before_insert s1) scoped of
                                 Some existing \<Rightarrow> (Inr (existing, False), before_insert s1)
                               | None \<Rightarrow> (Inl SwapWalletNotFound, before_insert s1)))))"

section \<open>History\<close>

record SwapHistoryRecord =
  sh_id :: uuid
  sh_from_coin :: string
  sh_to_coin :: string
  sh_from_amount :: string
  sh_to_amount :: string
  sh_fee_amount :: string
  sh_fee_bps :: int
  sh_created_at :: int

definition list_user_swaps :: "db \<Rightarrow> uuid \<Rightarrow> nat \<Rightarrow> SwapHistoryRecord list" where
  "list_user_swaps s user limit =
     map (\<lambda>r. \<lparr>sh_id = sw_id r, sh_from_coin = coin_str (sw_from_coin r),
        sh_to_coin = coin_str (sw_to_coin r), sh_from_amount = show_int (sw_from_amount r),
        sh_to_amount = show_int (sw_to_amount r), sh_fee_amount = show_int (sw_fee_amount r),
        sh_fee_bps = sw_fee_bps r, sh_created_at = sw_created_at r\<rparr>)
      (List.take limit (sort_key (\<lambda>r. - sw_created_at r)
        (filter (\<lambda>r. sw_user r = user) (swaps s))))"

section \<open>A successful swap\<close>

lemma lift_quote_Inr [tx_simps]: "lift_quote r s = Inr (q, s') \<longleftrightarrow> r = Some (Inr q) \<and> s' = s"
  by (cases r rule: lift_quote.cases) (auto simp: tx_simps)

lemma quote_Inr:
  "quote a b amount m s = Inr (q, s') \<Longrightarrow>
     s' = s \<and> a \<noteq> b \<and> (\<exists>pf df pt dt. cached_price s a m = Inr (pf, df) \<and>
       cached_price s b m = Inr (pt, dt) \<and>
       compute_swap a b amount pf pt SWAP_FEE_BPS df = Some (Inr q))"
  by (auto simp: quote_def tx_simps split: prod.splits)

lemma quote_amounts:
  assumes "quote a b amount m s = Inr (q, s')"
  shows "from_amount q = amount \<and> 0 < amount \<and> to_amount q \<le> u128_max \<and> fee_amount q \<le> u128_max"
proof -
  from quote_Inr [OF assms] obtain pf df pt where
    c: "compute_swap a b amount pf pt SWAP_FEE_BPS df = Some (Inr q)" by blast
  show ?thesis using compute_swap_Inr [OF c] by simp
qed

lemma quote_closed:
  assumes "quote a b amount m s = Inr (q, s')"
  shows "\<exists>pf df pt dt. cached_price s a m = Inr (pf, df) \<and> cached_price s b m = Inr (pt, dt) \<and>
    0 < pf \<and> 0 < pt \<and> compute_swap a b amount pf pt SWAP_FEE_BPS df = Some (Inr q) \<and>
    fee_amount q = min u128_max ((amount * pf div pt) * SWAP_FEE_BPS div 10000) \<and>
    to_amount q = min u128_max
      (amount * pf div pt - (amount * pf div pt) * SWAP_FEE_BPS div 10000)"
proof -
  from quote_Inr [OF assms] obtain pf df pt dt where
    p: "cached_price s a m = Inr (pf, df)" "cached_price s b m = Inr (pt, dt)" and
    c: "compute_swap a b amount pf pt SWAP_FEE_BPS df = Some (Inr q)" by blast
  from compute_swap_Inr [OF c] have q: "0 < pf" "0 < pt"
    "fee_amount q = min u128_max ((amount * pf div pt) * SWAP_FEE_BPS div 10000)"
    "to_amount q = min u128_max
      (amount * pf div pt - (amount * pf div pt) * SWAP_FEE_BPS div 10000)"
    by (simp_all add: swap_gross_def to_u128_or_max_min)
  show ?thesis using p c q by blast
qed

definition swap_record :: "uuid \<Rightarrow> Coin \<Rightarrow> Coin \<Rightarrow> SwapQuote \<Rightarrow> string \<Rightarrow> uuid \<Rightarrow> int \<Rightarrow> swap_row" where
  "swap_record user from_coin to_coin q key sid ts =
     \<lparr>sw_id = sid, sw_user = user, sw_from_coin = from_coin, sw_to_coin = to_coin,
      sw_from_amount = int (from_amount q), sw_to_amount = int (to_amount q),
      sw_fee_amount = int (fee_amount q), sw_fee_bps = int (fee_bps q),
      sw_price_from = int (price_from q), sw_price_to = int (price_to q),
      sw_price_decimals = int (price_decimals q), sw_idempotency_key = Some key,
      sw_created_at = ts\<rparr>"

lemma insert_swap_Inr [tx_simps]:
  "insert_swap user a b q key s = Inr (sid, s') \<longleftrightarrow>
     fits_numeric (int (from_amount q)) \<and> fits_numeric (int (to_amount q)) \<and>
     fits_numeric (int (fee_amount q)) \<and> fits_numeric (int (price_from q)) \<and>
     fits_numeric (int (price_to q)) \<and>
     (\<forall>r\<in>set (swaps s). sw_idempotency_key r \<noteq> Some key) \<and> (\<exists>r\<in>set (users s). u_id r = user) \<and>
     sid = next_id s \<and>
     s' = s\<lparr>next_id := Suc (next_id s), swaps := swaps s @ [swap_record user a b q key (next_id s) (clock s)]\<rparr>"
  by (simp add: insert_swap_def tx_simps swap_record_def)

lemma swap_accounts_Inr:
  assumes "swap_accounts user a b s = Inr ((fw, tw), s')"
  shows "wallet_id_of s user a PERSONAL = Some fw \<and> wallet_id_of s user b PERSONAL = Some tw \<and>
    (\<exists>l. s' = s\<lparr>row_locks := l\<rparr>)"
  using assms by (simp add: swap_accounts_def tx_simps) blast

definition swap_posts ::
    "uuid \<Rightarrow> Coin \<Rightarrow> Coin \<Rightarrow> SwapQuote \<Rightarrow> uuid \<Rightarrow> uuid \<Rightarrow> uuid \<Rightarrow> uuid \<Rightarrow> uuid \<Rightarrow> LedgerCreditInput list" where
  "swap_posts user a b q fw tw fh th sid =
     [swap_debit_user fw b (int (from_amount q)) sid,
      simple_input fh (int (from_amount q)) SWAP_IN (Some sid) (Some ''Swap'') (Some (intake_memo user)),
      simple_input th (- int (to_amount q)) SWAP_OUT (Some sid) (Some ''Swap'') (Some (payout_memo user)),
      swap_credit_user tw a (int (to_amount q)) sid]"

lemma swap_moves_Inr [tx_simps]:
  assumes "0 < from_amount q" and "0 < to_amount q"
  shows "swap_moves user a b q fw tw sid s = Inr (u, s') \<longleftrightarrow>
    (\<exists>fh th. house_wallet_id s HOUSE a = Inr fh \<and> house_wallet_id s HOUSE b = Inr th \<and>
       can_post_all (swap_posts user a b q fw tw fh th sid) s \<and>
       s' = staged (swap_event a b q fw sid) (post_all (swap_posts user a b q fw tw fh th sid) s))"
  using assms
  by (cases "house_wallet_id s HOUSE a"; cases "house_wallet_id s HOUSE b")
    (simp_all add: swap_moves_def swap_posts_def tx_simps)

lemma swap_posts_conserve:
  assumes "wallets_wf s" and "can_post_all (swap_posts user a b q fw tw fh th sid) s"
    and "wallet_id_of s user a PERSONAL = Some fw" and "wallet_id_of s user b PERSONAL = Some tw"
    and "house_wallet_id s HOUSE a = Inr fh" and "house_wallet_id s HOUSE b = Inr th"
  shows "coin_total (post_all (swap_posts user a b q fw tw fh th sid) s) c = coin_total s c"
  using assms
  by (simp add: coin_total_post_all)
    (simp add: swap_posts_def swap_debit_user_def swap_credit_user_def account_coin house_coin)

lemma swap_posts_balances:
  assumes "wallets_wf s" and "a \<noteq> b"
    and "wallet_id_of s user a PERSONAL = Some fw" and "wallet_id_of s user b PERSONAL = Some tw"
    and "house_wallet_id s HOUSE a = Inr fh" and "house_wallet_id s HOUSE b = Inr th"
  shows "distinct [fw, tw, fh, th]"
proof -
  have "fw \<noteq> tw" using wallet_id_of_inj [OF assms(1,3)] assms(2,4) by blast
  moreover have "fh \<noteq> th"
    using house_wallet_id_of [OF assms(5)] house_wallet_id_of [OF assms(6)]
      wallet_id_of_inj [OF assms(1)] assms(2) by metis
  ultimately show ?thesis
    using house_user_wallets_differ [OF assms(1)] assms(3-6) by auto
qed

lemma find_key_stored:
  "(\<forall>r\<in>set (swaps s). sw_idempotency_key r \<noteq> Some key) \<Longrightarrow> swaps t = swaps s @ [r] \<Longrightarrow>
     sw_idempotency_key r = Some key \<Longrightarrow> find_by_idempotency_key t key = Some (swap_row_view r)"
  by (auto simp: find_by_idempotency_key_def find_append find_None_iff split: option.splits
      dest: find_Some_props)

lemma find_key_None:
  "find_by_idempotency_key s key = None \<longleftrightarrow> (\<forall>r\<in>set (swaps s). sw_idempotency_key r \<noteq> Some key)"
  by (auto simp: find_by_idempotency_key_def find_None_iff)

text \<open>The run of the transaction from the insert on, when it succeeds.\<close>

lemma swap_from_insert_Inr:
  assumes "swap_from_insert user a b q key fw tw s = Inr (row, s')"
    and "0 < from_amount q" and "0 < to_amount q"
  shows "\<exists>fh th t. house_wallet_id s HOUSE a = Inr fh \<and> house_wallet_id s HOUSE b = Inr th \<and>
    t = s\<lparr>next_id := Suc (next_id s),
      swaps := swaps s @ [swap_record user a b q key (next_id s) (clock s)]\<rparr> \<and>
    (\<forall>r\<in>set (swaps s). sw_idempotency_key r \<noteq> Some key) \<and>
    can_post_all (swap_posts user a b q fw tw fh th (next_id s)) t \<and>
    s' = staged (swap_event a b q fw (next_id s))
      (post_all (swap_posts user a b q fw tw fh th (next_id s)) t) \<and>
    row = new_swap_row q (next_id s)"
proof -
  let ?t = "s\<lparr>next_id := Suc (next_id s),
    swaps := swaps s @ [swap_record user a b q key (next_id s) (clock s)]\<rparr>"
  have "house_wallet_id ?t HOUSE c = house_wallet_id s HOUSE c" for c
    by (rule house_wallet_id_cong) simp_all
  with assms show ?thesis
    unfolding swap_from_insert_def by (simp add: tx_simps)
qed

lemma execute_new:
  assumes "execute bb bi user a b amount min_to key m s = (Inr (row, True), s')"
  shows "\<exists>q fw tw s2 s3. quote a b amount m s = Inr (q, s) \<and> 0 < to_amount q \<and>
    (\<forall>x. min_to = Some x \<longrightarrow> x \<le> to_amount q) \<and>
    find_by_idempotency_key s (scoped_key user key) = None \<and>
    swap_accounts user a b (bb s) = Inr ((fw, tw), s2) \<and>
    swap_from_insert user a b q (scoped_key user key) fw tw (bi s2) = Inr (row, s3) \<and>
    s' = release_locks s3"
  using assms unfolding execute_def Let_def
  by (auto split: sum.splits option.splits if_splits prod.splits dest: quote_Inr)

lemma execute_old:
  assumes "execute bb bi user a b amount min_to key m s = (Inr (row, False), s')"
  shows "find_by_idempotency_key s' (scoped_key user key) = Some row \<and>
    (s' = s \<or> s' = bb s \<or> s' = bi (bb s))"
  using assms unfolding execute_def Let_def
  by (auto split: sum.splits option.splits if_splits prod.splits)

lemma execute_failed:
  assumes "execute bb bi user a b amount min_to key m s = (Inl e, s')"
  shows "s' = s \<or> s' = bb s \<or> s' = bi (bb s)"
  using assms unfolding execute_def Let_def
  by (auto split: sum.splits option.splits if_splits prod.splits)

lemma books_ok_swap_row:
  "books_ok s \<Longrightarrow> books_ok (s\<lparr>next_id := Suc (next_id s), swaps := x\<rparr>)"
  by (erule books_ok_cong [rotated -1]) simp_all

lemma swap_accounts_books:
  "swap_accounts user a b s = Inr (x, s') \<Longrightarrow> books_ok s \<Longrightarrow> books_ok s'"
  by (cases x) (auto dest!: swap_accounts_Inr elim!: books_ok_cong [rotated -1])

text \<open>
  What one sequential run of a new swap does: the two matched pairs of posts, the row, the
  event; and it conserves every coin.
\<close>

lemma execute_new_effect:
  assumes "execute id id user a b amount min_to key m s = (Inr (row, True), s')" and "books_ok s"
    and "amount \<le> u128_max"
  shows "\<exists>q fw tw fh th. quote a b amount m s = Inr (q, s) \<and> row = new_swap_row q (sr_id row) \<and>
    (\<forall>x. min_to = Some x \<longrightarrow> x \<le> to_amount q) \<and> distinct [fw, tw, fh, th] \<and>
    wallet_id_of s user a PERSONAL = Some fw \<and> wallet_id_of s user b PERSONAL = Some tw \<and>
    house_wallet_id s HOUSE a = Inr fh \<and> house_wallet_id s HOUSE b = Inr th \<and>
    (\<forall>w. wallet_balance s' w = wallet_balance s w
       + (if w = fw then - int (from_amount q) else 0) + (if w = fh then int (from_amount q) else 0)
       + (if w = th then - int (to_amount q) else 0) + (if w = tw then int (to_amount q) else 0)) \<and>
    books_ok s' \<and> (\<forall>c. coin_total s' c = coin_total s c) \<and>
    (\<exists>e. outbox s' = outbox s @ [e] \<and> ob_aggregate_id e = sr_id row) \<and>
    find_by_idempotency_key s' (scoped_key user key) = Some row"
proof -
  let ?k = "scoped_key user key"
  obtain q fw tw s2 s3 where q: "quote a b amount m s = Inr (q, s)" "0 < to_amount q"
    and min: "\<forall>x. min_to = Some x \<longrightarrow> x \<le> to_amount q"
    and acc: "swap_accounts user a b s = Inr ((fw, tw), s2)"
    and ins: "swap_from_insert user a b q ?k fw tw s2 = Inr (row, s3)"
    and s': "s' = release_locks s3"
    using execute_new [OF assms(1)] by auto
  obtain l where wl: "wallet_id_of s user a PERSONAL = Some fw"
    "wallet_id_of s user b PERSONAL = Some tw" and s2: "s2 = s\<lparr>row_locks := l\<rparr>"
    using swap_accounts_Inr [OF acc] by blast
  have ab: "a \<noteq> b" using quote_Inr [OF q(1)] by simp
  have am: "0 < from_amount q" "from_amount q = amount" using quote_amounts [OF q(1)] by simp_all
  have hc: "house_wallet_id s2 k c = house_wallet_id s k c" for k c
    by (rule house_wallet_id_cong) (simp_all add: s2)
  obtain fh th t where h: "house_wallet_id s HOUSE a = Inr fh" "house_wallet_id s HOUSE b = Inr th"
    and t: "t = s2\<lparr>next_id := Suc (next_id s2),
      swaps := swaps s2 @ [swap_record user a b q ?k (next_id s2) (clock s2)]\<rparr>"
    and fresh: "\<forall>r\<in>set (swaps s2). sw_idempotency_key r \<noteq> Some ?k"
    and cp: "can_post_all (swap_posts user a b q fw tw fh th (next_id s2)) t"
    and s3: "s3 = staged (swap_event a b q fw (next_id s2))
      (post_all (swap_posts user a b q fw tw fh th (next_id s2)) t)"
    and row: "row = new_swap_row q (next_id s2)"
    using swap_from_insert_Inr [OF ins am(1) q(2)] hc by auto
  have wf: "wallets_wf s" using assms(2) by (simp add: books_ok_def)
  have same: "wallets t = wallets s" "ledger t = ledger s" "users t = users s"
    using t s2 by simp_all
  have books_t: "books_ok t"
    using assms(2) by (rule books_ok_cong [rotated -1]) (simp_all add: t s2)
  have tw: "wallet_id_of t u c k = wallet_id_of s u c k" "house_wallet_id t k c = house_wallet_id s k c"
    for u k c
    using same by (auto intro: wallet_id_of_cong house_wallet_id_cong)
  have dist: "distinct [fw, tw, fh, th]" using swap_posts_balances [OF wf ab wl h] .
  have bal: "wallet_balance t w = wallet_balance s w" for w
    using same by (intro wallet_balance_frame)
  have total: "coin_total s' c = coin_total s c" for c
  proof -
    have "coin_total s' c = coin_total (post_all (swap_posts user a b q fw tw fh th (next_id s2)) t) c"
      by (rule coin_total_cong) (simp_all add: s' s3 release_locks_def)
    also have "\<dots> = coin_total t c"
      using swap_posts_conserve [of t user a b q fw tw fh th "next_id s2" c] cp books_t wl h tw
      by (simp add: books_ok_def)
    also have "\<dots> = coin_total s c" using same by (intro coin_total_cong)
    finally show ?thesis .
  qed
  have "books_ok s'"
    using books_ok_post_all [OF cp books_t] unfolding s' s3
    by (intro books_ok_release) (erule books_ok_cong [rotated -1], simp_all)
  moreover have "wallet_balance s' w = wallet_balance s w
       + (if w = fw then - int (from_amount q) else 0) + (if w = fh then int (from_amount q) else 0)
       + (if w = th then - int (to_amount q) else 0) + (if w = tw then int (to_amount q) else 0)" for w
    by (simp add: s' s3 wallet_balance_post_all bal)
      (simp add: swap_posts_def swap_debit_user_def swap_credit_user_def)
  moreover have "find_by_idempotency_key s' ?k = Some row"
  proof -
    have "swaps s' = swaps s2 @ [swap_record user a b q ?k (next_id s2) (clock s2)]"
      by (simp add: s' s3 t release_locks_def)
    from find_key_stored [OF fresh this] show ?thesis
      using quote_amounts [OF q(1)] row assms(3)
      by (simp add: swap_record_def swap_row_view_def new_swap_row_def)
  qed
  ultimately show ?thesis
    using q(1) min dist wl h total row
    by (intro exI [of _ q] exI [of _ fw] exI [of _ tw] exI [of _ fh] exI [of _ th])
      (simp add: s' s3 t s2 release_locks_def outbox_row_of_def new_swap_row_def swap_event_def)
qed

section \<open>Idempotency\<close>

lemma execute_replay:
  assumes "find_by_idempotency_key s (scoped_key user key) = Some r"
    and "execute bb bi user a b amount min_to key m s = (x, s')"
  shows "s' = s \<and> (\<forall>y. x = Inr y \<longrightarrow> y = (r, False))"
  using assms unfolding execute_def Let_def
  by (auto split: sum.splits option.splits if_splits prod.splits)

lemma execute_stored:
  assumes "execute bb bi user a b amount min_to key m s = (Inr (row, new), s')" and "amount \<le> u128_max"
  shows "find_by_idempotency_key s' (scoped_key user key) = Some row"
proof (cases new)
  case False
  then show ?thesis using execute_old [of bb bi user a b amount min_to key m s row s'] assms(1) by simp
next
  case True
  let ?k = "scoped_key user key"
  obtain q fw tw s2 s3 where q: "quote a b amount m s = Inr (q, s)" "0 < to_amount q"
    and ins: "swap_from_insert user a b q ?k fw tw (bi s2) = Inr (row, s3)"
    and s': "s' = release_locks s3"
    using execute_new [of bb bi user a b amount min_to key m s row s'] assms(1) True by auto
  note am = quote_amounts [OF q(1)]
  obtain fh th t where t: "t = bi s2\<lparr>next_id := Suc (next_id (bi s2)),
      swaps := swaps (bi s2) @ [swap_record user a b q ?k (next_id (bi s2)) (clock (bi s2))]\<rparr>"
    and fresh: "\<forall>r\<in>set (swaps (bi s2)). sw_idempotency_key r \<noteq> Some ?k"
    and s3: "s3 = staged (swap_event a b q fw (next_id (bi s2)))
      (post_all (swap_posts user a b q fw tw fh th (next_id (bi s2))) t)"
    and row: "row = new_swap_row q (next_id (bi s2))"
    using swap_from_insert_Inr [OF ins _ q(2)] am by auto
  have "swaps s' = swaps (bi s2) @ [swap_record user a b q ?k (next_id (bi s2)) (clock (bi s2))]"
    by (simp add: s' s3 t release_locks_def)
  from find_key_stored [OF fresh this] show ?thesis
    using am row assms(2) by (simp add: swap_record_def swap_row_view_def new_swap_row_def)
qed

text \<open>A swap request as it arrives: the amounts are \<open>u128\<close>, no other session interferes.\<close>

definition swap_request ::
    "uuid \<Rightarrow> Coin \<Rightarrow> Coin \<Rightarrow> 128 word \<Rightarrow> nat option \<Rightarrow> int \<Rightarrow> string \<Rightarrow> db \<Rightarrow>
     (SwapServiceError + SwapRow \<times> bool) \<times> db" where
  "swap_request user from_coin to_coin amount min_to max_stale key =
     execute id id user from_coin to_coin (unat amount) min_to key max_stale"

lemma unat_u128: "unat (x :: 128 word) \<le> u128_max"
proof -
  have "unat x < 2 ^ LENGTH(128)" by (rule unsigned_less)
  then show ?thesis by (simp add: u128_max_def)
qed

interpretation swap_once: keyed_operation
    "\<lambda>s key. find_by_idempotency_key s (scoped_key user key)"
    "swap_request user a b amt min_to m"
  for user a b amt min_to m
proof
  fix s s' :: db and k r x new e
  show "find_by_idempotency_key s (scoped_key user k) = Some r \<Longrightarrow>
      swap_request user a b amt min_to m k s = (x, s') \<Longrightarrow> s' = s \<and> (\<forall>y. x = Inr y \<longrightarrow> y = (r, False))"
    unfolding swap_request_def by (rule execute_replay)
  show "swap_request user a b amt min_to m k s = (Inr (r, new), s') \<Longrightarrow>
      find_by_idempotency_key s' (scoped_key user k) = Some r"
    unfolding swap_request_def by (rule execute_stored [OF _ unat_u128])
  show "swap_request user a b amt min_to m k s = (Inl e, s') \<Longrightarrow> s' = s"
    unfolding swap_request_def by (auto dest: execute_failed)
qed

section \<open>Properties\<close>

text \<open>
  C2. A swap is all or nothing and conserves every coin. On an error the database is as before; a
  new swap is priced at the two cached prices: its fee is the floor of the fee rate of the gross
  amount at these prices and its payout the gross amount less the fee, which is what
  \<open>compute_swap\<close> quotes. It took the sold amount from the user's wallet to HOUSE and exactly this
  payout from HOUSE to the user's other wallet, moved no other wallet, paid at least the requested
  minimum, stored its row under the caller's key and staged one event about it; either way the total of every coin over all wallets is the same
  and the books are in order.
\<close>

theorem swap_atomic_and_conserving:
  assumes "books_ok s" and "amount \<le> u128_max"
    and "execute id id user a b amount min_to key m s = (r, s')"
  shows "books_ok s' \<and> (\<forall>c. coin_total s' c = coin_total s c) \<and>
    (case r of
       Inl e \<Rightarrow> s' = s
     | Inr (row, new) \<Rightarrow>
         if \<not> new then s' = s
         else \<exists>fw tw fh th pf df pt dt q. distinct [fw, tw, fh, th] \<and>
           cached_price s a m = Inr (pf, df) \<and> cached_price s b m = Inr (pt, dt) \<and>
           compute_swap a b amount pf pt SWAP_FEE_BPS df = Some (Inr q) \<and>
           sr_to_amount row = to_amount q \<and> sr_fee_amount row = fee_amount q \<and>
           fee_amount q = min u128_max ((amount * pf div pt) * SWAP_FEE_BPS div 10000) \<and>
           to_amount q = min u128_max
             (amount * pf div pt - (amount * pf div pt) * SWAP_FEE_BPS div 10000) \<and>
           wallet_id_of s user a PERSONAL = Some fw \<and> wallet_id_of s user b PERSONAL = Some tw \<and>
           house_wallet_id s HOUSE a = Inr fh \<and> house_wallet_id s HOUSE b = Inr th \<and>
           sr_from_amount row = amount \<and> (\<forall>x. min_to = Some x \<longrightarrow> x \<le> sr_to_amount row) \<and>
           (\<forall>w. wallet_balance s' w = wallet_balance s w
              + (if w = fw then - int amount else 0) + (if w = fh then int amount else 0)
              + (if w = th then - int (sr_to_amount row) else 0)
              + (if w = tw then int (sr_to_amount row) else 0)) \<and>
           find_by_idempotency_key s' (scoped_key user key) = Some row \<and>
           (\<exists>e. outbox s' = outbox s @ [e] \<and> ob_aggregate_id e = sr_id row))"
proof (cases r)
  case (Inl e)
  with assms(3) have "s' = s" using execute_failed [of id id user a b amount min_to key m s e s'] by simp
  with Inl assms(1) show ?thesis by simp
next
  case (Inr p)
  obtain row new where p: "p = (row, new)" by (cases p)
  show ?thesis
  proof (cases new)
    case False
    with assms(3) Inr p have "s' = s"
      using execute_old [of id id user a b amount min_to key m s row s'] by simp
    with Inr p False assms(1) show ?thesis by simp
  next
    case True
    with assms(3) Inr p have run: "execute id id user a b amount min_to key m s = (Inr (row, True), s')"
      by simp
    from execute_new_effect [OF run assms(1,2)]
    obtain q fw tw fh th where q: "quote a b amount m s = Inr (q, s)" "row = new_swap_row q (sr_id row)"
      and eff: "\<forall>x. min_to = Some x \<longrightarrow> x \<le> to_amount q" "distinct [fw, tw, fh, th]"
      "wallet_id_of s user a PERSONAL = Some fw" "wallet_id_of s user b PERSONAL = Some tw"
      "house_wallet_id s HOUSE a = Inr fh" "house_wallet_id s HOUSE b = Inr th"
      and bal: "\<forall>w. wallet_balance s' w = wallet_balance s w
       + (if w = fw then - int (from_amount q) else 0) + (if w = fh then int (from_amount q) else 0)
       + (if w = th then - int (to_amount q) else 0) + (if w = tw then int (to_amount q) else 0)"
      and ok: "books_ok s'" "\<forall>c. coin_total s' c = coin_total s c"
      and ev: "\<exists>e. outbox s' = outbox s @ [e] \<and> ob_aggregate_id e = sr_id row"
      and st: "find_by_idempotency_key s' (scoped_key user key) = Some row"
      by (elim exE conjE) (rule, (assumption | rule exI conjI)+)
    have am: "sr_from_amount row = amount" "to_amount q = sr_to_amount row" "from_amount q = amount"
      and fee: "sr_fee_amount row = fee_amount q"
      using arg_cong [OF q(2), of sr_from_amount] arg_cong [OF q(2), of sr_to_amount]
        arg_cong [OF q(2), of sr_fee_amount] quote_amounts [OF q(1)]
      by (simp_all add: new_swap_row_def)
    have paid: "sr_to_amount row = to_amount q" by (rule am(2) [symmetric])
    from quote_closed [OF q(1)] obtain pf df pt dt where
      pr: "cached_price s a m = Inr (pf, df)" "cached_price s b m = Inr (pt, dt)"
      "compute_swap a b amount pf pt SWAP_FEE_BPS df = Some (Inr q)"
      "fee_amount q = min u128_max ((amount * pf div pt) * SWAP_FEE_BPS div 10000)"
      "to_amount q = min u128_max
        (amount * pf div pt - (amount * pf div pt) * SWAP_FEE_BPS div 10000)" by blast
    note eff = eff [unfolded am] and bal = bal [unfolded am]
    have minimum: "\<forall>x. min_to = Some x \<longrightarrow> x \<le> sr_to_amount row" using eff(1) .
    have is_new: "(\<not> new) = False" using True by simp
    show ?thesis
      unfolding Inr p sum.case prod.case is_new if_False
      by (rule conjI, fact, rule conjI, fact, rule exI [of _ fw],
        rule exI [of _ tw], rule exI [of _ fh], rule exI [of _ th], rule exI [of _ pf],
        rule exI [of _ df], rule exI [of _ pt], rule exI [of _ dt], rule exI [of _ q],
        intro conjI; fact)
  qed
qed

definition swap_demo :: db where
  "swap_demo = append_entries
     [simple_input 4 1000 DEPOSIT None None None, simple_input 3 5000000 DEPOSIT None None None]
     (empty_db\<lparr>next_id := 100, clock := 60,
        users := [house_user, \<lparr>u_id = 7, u_email = ''a'', u_username = ''a'', u_password_hash = []\<rparr>],
        wallets := [demo_wallet 2 1 Btc HOUSE, demo_wallet 3 1 Ltc HOUSE,
                    demo_wallet 4 7 Btc PERSONAL, demo_wallet 5 7 Ltc PERSONAL],
        price_cache := [\<lparr>pc_coin = Btc, pc_price_scaled = 60000, pc_price_decimals = 8, pc_fetched_at = 50\<rparr>,
                        \<lparr>pc_coin = Ltc, pc_price_scaled = 80, pc_price_decimals = 8, pc_fetched_at = 50\<rparr>]\<rparr>)"

lemmas swap_demo_defs = swap_demo_def house_user_def demo_wallet_def empty_db_def
  simple_input_def entry_of_def

lemma swap_demo_ok: "books_ok swap_demo"
  by (simp add: swap_demo_defs books_ok_def wallets_wf_def entries_owned_def references_unique_def
      solvent_def wallet_balance_def List.map_filter_simps reference_of_def key_of_def)

lemma swap_demo_run:
  "\<exists>row. fst (execute id id 7 Btc Ltc 1000 (Some 740000) ''k'' 20 swap_demo) = Inr (row, True)"
  by (simp add: swap_demo_defs execute_def quote_def get_price_def cached_price_def dec_to_u128_def
      compute_swap_def SWAP_FEE_BPS_def to_u128_or_max_def nat_to_u128_def u128_max_def
      find_by_idempotency_key_def swap_accounts_def select_wallet_def wallet_id_of_def
      get_house_wallet_id_def house_wallet_id_def find_user_by_email_def lock_wallets_def
      lock_wallet_def find_wallet_def take_lock_def swap_from_insert_def insert_swap_def
      check_numeric_def fits_numeric_def numeric_limit_def check_user_fk_def fresh_uuid_def
      swap_moves_def apply_ledger_entry_def get_wallet_balance_def wallet_balance_def
      insert_ledger_entry_def reference_conflict_def key_conflict_def swap_debit_user_def
      swap_credit_user_def credit_house_def debit_house_def stage_def tx_defs Let_def)

theorem swap_atomic_and_conserving_witness:
  "\<exists>row s'. execute id id 7 Btc Ltc 1000 (Some 740000) ''k'' 20 swap_demo = (Inr (row, True), s') \<and>
     books_ok s' \<and> coin_total s' Btc = coin_total swap_demo Btc \<and>
     sr_to_amount row = 748125 \<and> sr_fee_amount row = 1875 \<and>
     wallet_balance s' 5 = wallet_balance swap_demo 5 + 748125"
proof -
  obtain row s' where run: "execute id id 7 Btc Ltc 1000 (Some 740000) ''k'' 20 swap_demo = (Inr (row, True), s')"
    using swap_demo_run by (metis prod.collapse)
  have "(1000 :: nat) \<le> u128_max" by (simp add: u128_max_def)
  note all = swap_atomic_and_conserving [OF swap_demo_ok this run, simplified]
  have prices: "cached_price swap_demo Btc 20 = Inr (60000, 8)" "cached_price swap_demo Ltc 20 = Inr (80, 8)"
    by (simp_all add: swap_demo_defs cached_price_def dec_to_u128_def u128_max_def)
  have tw: "wallet_id_of swap_demo 7 Ltc PERSONAL = Some 5"
    by (simp add: swap_demo_defs wallet_id_of_def)
  from all have ok: "books_ok s'" "coin_total s' Btc = coin_total swap_demo Btc" by simp_all
  from all show ?thesis
    using run ok unfolding prices tw by (auto simp: SWAP_FEE_BPS_def u128_max_def)
qed


text \<open>
  C3. Exactly once per key, whatever other sessions commit meanwhile: a request that answers with
  a row leaves that row stored under the user's key; if it answers "not new" it has itself
  changed nothing; and any number of later requests with the same key, for any amount, leave
  the database untouched and never report a new swap. Another user's keys are unaffected.
\<close>

theorem swap_exactly_once:
  assumes "execute bb bi user a b amount min_to key m s = (Inr (row, new), s')"
    and "amount \<le> u128_max"
  shows "find_by_idempotency_key s' (scoped_key user key) = Some row \<and>
    (\<not> new \<longrightarrow> s' = s \<or> s' = bb s \<or> s' = bi (bb s)) \<and>
    swap_once.retries user a' b' amt min' m' n key s' = s' \<and>
    (\<forall>y t. swap_request user a' b' amt min' m' key s' = (Inr y, t) \<longrightarrow> y = (row, False)) \<and>
    (user < 2 ^ 128 \<longrightarrow> user' < 2 ^ 128 \<longrightarrow> user' \<noteq> user \<longrightarrow>
       scoped_key user' key' \<noteq> scoped_key user key)"
proof -
  have st: "find_by_idempotency_key s' (scoped_key user key) = Some row"
    using execute_stored [OF assms] .
  moreover have "\<not> new \<longrightarrow> s' = s \<or> s' = bb s \<or> s' = bi (bb s)"
    using execute_old [of bb bi user a b amount min_to key m s row s'] assms(1) by auto
  moreover have "swap_once.retries user a' b' amt min' m' n key s' = s'"
    using st by (rule swap_once.retries_after)
  moreover have "y = (row, False)" if "swap_request user a' b' amt min' m' key s' = (Inr y, t)" for y t
    using swap_once.replay [OF st that] by simp
  moreover have "scoped_key user' key' \<noteq> scoped_key user key"
    if "user < 2 ^ 128" "user' < 2 ^ 128" "user' \<noteq> user"
    using that scoped_key_inj [of user' user key' key] by auto
  ultimately show ?thesis by blast
qed

theorem swap_exactly_once_witness:
  "\<exists>row s'. execute id id 7 Btc Ltc 1000 (Some 740000) ''k'' 20 swap_demo = (Inr (row, True), s') \<and>
     find_by_idempotency_key s' (scoped_key 7 ''k'') = Some row \<and>
     snd (swap_request 7 Btc Ltc 500 None 20 ''k'' s') = s'"
proof -
  obtain row s' where run: "execute id id 7 Btc Ltc 1000 (Some 740000) ''k'' 20 swap_demo = (Inr (row, True), s')"
    using swap_demo_run by (metis prod.collapse)
  have u: "(1000 :: nat) \<le> u128_max" by (simp add: u128_max_def)
  have "swap_once.retries 7 Btc Ltc 500 None 20 (Suc 0) ''k'' s' = s'"
    using swap_exactly_once [OF run u, where n = "Suc 0" and a' = Btc and b' = Ltc and amt = 500
      and min' = None and m' = 20 and user' = 0 and key' = "''''"] by blast
  moreover have "find_by_idempotency_key s' (scoped_key 7 ''k'') = Some row"
    using swap_exactly_once [OF run u, where n = 0 and a' = Btc and b' = Ltc and amt = 500
      and min' = None and m' = 20 and user' = 0 and key' = "''''"] by blast
  ultimately show ?thesis using run by auto
qed

text \<open>
  A retry is not always answered with the original swap: the quote is taken before the key is
  looked up, so once the cached price of the coin is gone or stale, a request whose swap is
  stored under its key is answered with the pricing error.
\<close>

theorem swap_replay_needs_fresh_price:
  assumes "find_by_idempotency_key s (scoped_key user key) = Some row" and "a \<noteq> b"
    and "cached_price s a m = Inl e"
  shows "execute bb bi user a b amount min_to key m s = (Inl (SwapPricing e), s)"
proof -
  have "quote a b amount m s = Inl (SwapPricing e)"
    using assms(2,3) by (simp add: quote_def tx_defs get_price_def)
  then show ?thesis by (simp add: execute_def)
qed

theorem swap_replay_needs_fresh_price_witness:
  "execute id id 7 Btc Ltc 1000 None ''k'' 20
     (empty_db\<lparr>swaps := [swap_record 7 Btc Ltc
        \<lparr>from_amount = 1000, to_amount = 748125, fee_amount = 1875, fee_bps = 25, price_from = 60000,
         price_to = 80, price_decimals = 8\<rparr> (scoped_key 7 ''k'') 9 50]\<rparr>) =
   (Inl (SwapPricing (NoCachedPrice Btc)),
    empty_db\<lparr>swaps := [swap_record 7 Btc Ltc
        \<lparr>from_amount = 1000, to_amount = 748125, fee_amount = 1875, fee_bps = 25, price_from = 60000,
         price_to = 80, price_decimals = 8\<rparr> (scoped_key 7 ''k'') 9 50]\<rparr>)"
  by (rule swap_replay_needs_fresh_price)
    (simp_all add: find_by_idempotency_key_def swap_record_def cached_price_def empty_db_def)

end
