(* ===== verification/StakeService.thy ===== *)
theory StakeService
  imports House StakeMath
begin

text \<open>
  \<open>crates/db/src/stake.rs\<close>: opening a stake debits the principal, claiming it returns the
  principal and pays the reward out of HOUSE inventory, cancelling returns the principal only.
  Claim and cancel lock the stake row before they read its status.

  The lemmas show that wallets plus locked principal are conserved per coin, that a stake is
  paid out once and only to its owner, not before maturity unless flexible, and with at most
  the advertised rate, and that a stake once claimed or cancelled refuses every later claim and
  cancel along \<open>stake_run\<close>.
\<close>

datatype StakeError =
  StakeDb db_error
| StakeHouse HouseError
| InvalidPlan
| StakeWalletNotFound
| StakeNotFound
| NotActive
| NotMatured

text \<open>The net rate shown for an external strategy, in \<open>u32\<close>.\<close>

definition net_apy_bps :: "nat \<Rightarrow> nat \<Rightarrow> nat" where
  "net_apy_bps base fee = base - (base * fee mod 2 ^ 32) div 10000"

record StakeRow =
  sk_id :: uuid
  sk_coin :: Coin
  sk_principal :: nat
  sk_reward_bps :: nat
  sk_lock_days :: nat
  sk_reward :: nat
  sk_status :: stake_status
  sk_started_at :: int
  sk_matures_at :: int

definition as_u32 :: "int \<Rightarrow> nat" where
  "as_u32 x = nat (x mod 2 ^ 32)"

definition day_micros :: int where
  "day_micros = 24 * 60 * 60 * 1000000"

section \<open>Opening\<close>

definition stake_error :: "LedgerError \<Rightarrow> StakeError" where
  "stake_error e = StakeDb (Protocol (ledger_error_str e))"

definition stake_input :: "uuid \<Rightarrow> int \<Rightarrow> ledger_type \<Rightarrow> uuid \<Rightarrow> string \<Rightarrow> LedgerCreditInput" where
  "stake_input wid amount ty sid memo =
     simple_input wid amount ty (Some sid) (Some ''Stake'') (Some memo)"

definition new_stake :: "uuid \<Rightarrow> uuid \<Rightarrow> Coin \<Rightarrow> nat \<Rightarrow> StakePlan \<Rightarrow> nat \<Rightarrow> int \<Rightarrow> stake_row" where
  "new_stake sid user coin amount plan days ts =
     \<lparr>st_id = sid, st_user = user, st_coin = coin, st_principal = int amount,
      st_reward_bps = int (reward_bps plan), st_lock_days = int days, st_reward = 0,
      st_status = Active, st_started_at = ts, st_matures_at = ts + int days * day_micros,
      st_claimed_at = None\<rparr>"

definition create_stake_tx ::
    "StakePlan \<Rightarrow> uuid \<Rightarrow> Coin \<Rightarrow> nat \<Rightarrow> nat \<Rightarrow> (StakeError, StakeRow) op" where
  "create_stake_tx plan user coin amount days =
     tx_bind (select_wallet user coin PERSONAL) (\<lambda>found.
     tx_bind (tx_ok_or StakeWalletNotFound found) (\<lambda>wid.
     tx_bind (tx_map_err StakeDb (check_numeric (int amount))) (\<lambda>_.
     tx_bind (tx_map_err StakeDb (check_user_fk ''stakes'' user)) (\<lambda>_.
     tx_bind fresh_uuid (\<lambda>sid.
     tx_bind now (\<lambda>ts.
     tx_bind (tx_modify (\<lambda>s. s\<lparr>stakes := stakes s @ [new_stake sid user coin amount plan days ts]\<rparr>)) (\<lambda>_.
     tx_bind (tx_map_err stake_error (apply_ledger_entry (stake_input wid (- int amount) STAKE_LOCK sid
       (''Stake locked '' @ utf8_middot @ '' '' @ plan_label plan)))) (\<lambda>_.
     tx_return
       \<lparr>sk_id = sid, sk_coin = coin, sk_principal = amount, sk_reward_bps = reward_bps plan,
        sk_lock_days = days, sk_reward = 0, sk_status = Active, sk_started_at = ts,
        sk_matures_at = ts + int days * day_micros\<rparr>))))))))"

definition create_stake ::
    "uuid \<Rightarrow> Coin \<Rightarrow> nat \<Rightarrow> nat \<Rightarrow> db \<Rightarrow> (StakeError + StakeRow) \<times> db" where
  "create_stake user coin amount days s =
     (case List.find (\<lambda>p. lock_days p = days) STAKE_PLANS of
        None \<Rightarrow> (Inl InvalidPlan, s)
      | Some plan \<Rightarrow> commit_tx release_locks (create_stake_tx plan user coin amount days) s)"

section \<open>Listing\<close>

definition row_to_stake :: "stake_row \<Rightarrow> StakeRow" where
  "row_to_stake r =
     \<lparr>sk_id = st_id r, sk_coin = st_coin r, sk_principal = dec_to_u128_or 0 (st_principal r),
      sk_reward_bps = as_u32 (st_reward_bps r), sk_lock_days = as_u32 (st_lock_days r),
      sk_reward = dec_to_u128_or 0 (st_reward r), sk_status = st_status r,
      sk_started_at = st_started_at r, sk_matures_at = st_matures_at r\<rparr>"

fun stake_status_rank :: "stake_status \<Rightarrow> int" where
  "stake_status_rank Active = 0"
| "stake_status_rank Completed = 1"
| "stake_status_rank Canceled = 2"

definition list_stakes :: "db \<Rightarrow> uuid \<Rightarrow> StakeRow list" where
  "list_stakes s user =
     map row_to_stake
       (sort_key (\<lambda>r. stake_status_rank (st_status r))
         (sort_key (\<lambda>r. - st_started_at r) (filter (\<lambda>r. st_user r = user) (stakes s))))"

section \<open>Closing\<close>

definition find_stake :: "db \<Rightarrow> uuid \<Rightarrow> stake_row option" where
  "find_stake s sid = List.find (\<lambda>r. st_id r = sid) (stakes s)"

text \<open>The row lock, the owner and status checks, shared by claim and cancel.\<close>

definition open_stake :: "uuid \<Rightarrow> uuid \<Rightarrow> (StakeError, stake_row) op" where
  "open_stake user sid =
     tx_bind (tx_gets (\<lambda>s. find_stake s sid)) (\<lambda>locked.
     tx_bind (case locked of None \<Rightarrow> tx_return () | Some _ \<Rightarrow> take_lock (StakeLock sid)) (\<lambda>_.
     tx_bind (tx_gets (\<lambda>s. find_stake s sid)) (\<lambda>row.
     tx_bind (tx_ok_or StakeNotFound row) (\<lambda>r.
     tx_bind (tx_assert (st_user r = user) StakeNotFound) (\<lambda>_.
     tx_bind (tx_assert (st_status r = Active) NotActive) (\<lambda>_.
     tx_return r))))))"

definition set_stake :: "uuid \<Rightarrow> (stake_row \<Rightarrow> stake_row) \<Rightarrow> (StakeError, unit) op" where
  "set_stake sid f =
     tx_modify (\<lambda>s. s\<lparr>stakes := update_where (\<lambda>r. st_id r = sid) f (stakes s)\<rparr>)"

text \<open>\<open>format!("{}", bps as f64 / 100.0)\<close>: two decimals at most, without trailing zeros.\<close>

definition show_hundredths :: "int \<Rightarrow> string" where
  "show_hundredths n =
     (if n < 0 then ''-'' else []) @ show_nat (nat \<bar>n\<bar> div 100) @
     (let frac = trim_end_char (CHR ''0'') (show_padded 2 (nat \<bar>n\<bar> mod 100))
      in if frac = [] then [] else ''.'' @ frac)"

definition reward_memo :: "stake_row \<Rightarrow> string" where
  "reward_memo r =
     ''Stake reward paid '' @ utf8_middot @ '' '' @ show_hundredths (st_reward_bps r) @ ''% APY '' @
     utf8_times @ '' '' @ show_int (st_lock_days r) @ ''d''"

definition is_flexible :: "stake_row \<Rightarrow> bool" where
  "is_flexible r = is_flexible_plan (as_u32 (st_lock_days r))"

definition stake_reward :: "stake_row \<Rightarrow> int \<Rightarrow> nat" where
  "stake_reward r ts =
     (let p = dec_to_u128_or 0 (st_principal r)
      in if is_flexible r
         then calc_flex_reward p (as_u32 (st_reward_bps r)) ((ts - st_started_at r) sdiv 1000)
         else calc_stake_reward p (as_u32 (st_reward_bps r)) (as_u32 (st_lock_days r)))"

definition pay_reward :: "uuid \<Rightarrow> stake_row \<Rightarrow> nat \<Rightarrow> (StakeError, unit) op" where
  "pay_reward wid r reward =
     (if 0 < reward then
        tx_bind (tx_map_err StakeHouse (debit_house (st_coin r) (int reward) STAKE_REWARD (st_id r)
          ''Stake'' (reward_memo r))) (\<lambda>_.
        tx_bind (tx_map_err stake_error (apply_ledger_entry
          (stake_input wid (int reward) STAKE_REWARD (st_id r) (reward_memo r)))) (\<lambda>_.
        tx_return ()))
      else tx_return ())"

text \<open>The two status updates.\<close>

definition claimed :: "stake_row \<Rightarrow> int \<Rightarrow> stake_row \<Rightarrow> stake_row" where
  "claimed r ts r' = r'\<lparr>st_status := Completed, st_claimed_at := Some ts,
     st_reward := int (stake_reward r ts)\<rparr>"

definition canceled :: "int \<Rightarrow> stake_row \<Rightarrow> stake_row" where
  "canceled ts r' = r'\<lparr>st_status := Canceled, st_claimed_at := Some ts\<rparr>"

definition claim_stake_tx :: "uuid \<Rightarrow> uuid \<Rightarrow> (StakeError, StakeRow) op" where
  "claim_stake_tx user sid =
     tx_bind (open_stake user sid) (\<lambda>r.
     tx_bind now (\<lambda>ts.
     tx_bind (tx_assert (is_flexible r \<or> st_matures_at r \<le> ts) NotMatured) (\<lambda>_.
     tx_bind (select_wallet user (st_coin r) PERSONAL) (\<lambda>found.
     tx_bind (tx_ok_or StakeWalletNotFound found) (\<lambda>wid.
     tx_bind (tx_map_err stake_error (apply_ledger_entry
       (stake_input wid (st_principal r) STAKE_UNLOCK sid ''Stake principal returned''))) (\<lambda>_.
     tx_bind (pay_reward wid r (stake_reward r ts)) (\<lambda>_.
     tx_bind (tx_map_err StakeDb (check_numeric (int (stake_reward r ts)))) (\<lambda>_.
     tx_bind (set_stake sid (claimed r ts)) (\<lambda>_.
     tx_return ((row_to_stake r)\<lparr>sk_reward := stake_reward r ts, sk_status := Completed\<rparr>))))))))))"

definition claim_stake :: "uuid \<Rightarrow> uuid \<Rightarrow> db \<Rightarrow> (StakeError + StakeRow) \<times> db" where
  "claim_stake user sid = commit_tx release_locks (claim_stake_tx user sid)"

definition cancel_stake_tx :: "uuid \<Rightarrow> uuid \<Rightarrow> (StakeError, unit) op" where
  "cancel_stake_tx user sid =
     tx_bind (open_stake user sid) (\<lambda>r.
     tx_bind (select_wallet user (st_coin r) PERSONAL) (\<lambda>found.
     tx_bind (tx_ok_or StakeWalletNotFound found) (\<lambda>wid.
     tx_bind (tx_map_err stake_error (apply_ledger_entry
       (stake_input wid (st_principal r) STAKE_UNLOCK sid ''Stake canceled early (no reward)''))) (\<lambda>_.
     tx_bind now (\<lambda>ts.
     set_stake sid (canceled ts))))))"

definition cancel_stake :: "uuid \<Rightarrow> uuid \<Rightarrow> db \<Rightarrow> (StakeError + unit) \<times> db" where
  "cancel_stake user sid = commit_tx release_locks (cancel_stake_tx user sid)"

section \<open>Successful runs\<close>

lemma open_stake_Inr [tx_simps]:
  "open_stake user sid s = Inr (r, s') \<longleftrightarrow>
     find_stake s sid = Some r \<and> st_user r = user \<and> st_status r = Active \<and>
     s' = s\<lparr>row_locks := acquire (StakeLock sid) (row_locks s)\<rparr>"
proof -
  have "find_stake (s\<lparr>row_locks := l\<rparr>) sid = find_stake s sid" for l
    by (simp add: find_stake_def)
  then show ?thesis
    by (cases "find_stake s sid") (auto simp: open_stake_def take_lock_def tx_simps)
qed

lemma set_stake_Inr [tx_simps]:
  "set_stake sid f s = Inr (u, s') \<longleftrightarrow>
     s' = s\<lparr>stakes := update_where (\<lambda>r. st_id r = sid) f (stakes s)\<rparr>"
  by (simp add: set_stake_def tx_simps)

lemma stake_input_sel [simp]:
  "in_wallet_id (stake_input w a t i m) = w" "in_amount (stake_input w a t i m) = a"
  "in_type (stake_input w a t i m) = t" "in_reference_id (stake_input w a t i m) = Some i"
  "in_reference_type (stake_input w a t i m) = Some ''Stake''"
  by (simp_all add: stake_input_def)

lemma find_stake_Some: "find_stake s sid = Some r \<Longrightarrow> r \<in> set (stakes s) \<and> st_id r = sid"
  unfolding find_stake_def by (rule find_key_Some)

definition reward_posts :: "uuid \<Rightarrow> uuid \<Rightarrow> stake_row \<Rightarrow> nat \<Rightarrow> LedgerCreditInput list" where
  "reward_posts wid hw r reward =
     (if 0 < reward then
        [simple_input hw (- int reward) STAKE_REWARD (Some (st_id r)) (Some ''Stake'') (Some (reward_memo r)),
         stake_input wid (int reward) STAKE_REWARD (st_id r) (reward_memo r)]
      else [])"

lemma pay_reward_Inr:
  "pay_reward wid r reward s = Inr (u, s') \<Longrightarrow>
     \<exists>hw. (0 < reward \<longrightarrow> house_wallet_id s HOUSE (st_coin r) = Inr hw) \<and>
       can_post_all (reward_posts wid hw r reward) s \<and> s' = post_all (reward_posts wid hw r reward) s"
  by (cases "house_wallet_id s HOUSE (st_coin r)")
    (simp_all add: pay_reward_def reward_posts_def tx_simps split: if_splits)

definition claim_posts :: "uuid \<Rightarrow> uuid \<Rightarrow> uuid \<Rightarrow> stake_row \<Rightarrow> int \<Rightarrow> LedgerCreditInput list" where
  "claim_posts sid wid hw r ts =
     stake_input wid (st_principal r) STAKE_UNLOCK sid ''Stake principal returned''
       # reward_posts wid hw r (stake_reward r ts)"

definition locked_state :: "uuid \<Rightarrow> db \<Rightarrow> db" where
  "locked_state sid s = s\<lparr>row_locks := acquire (StakeLock sid) (row_locks s)\<rparr>"

lemma claim_stake_tx_Inr:
  assumes "claim_stake_tx user sid s = Inr (row, s')"
  shows "\<exists>r wid hw. find_stake s sid = Some r \<and> st_user r = user \<and> st_status r = Active \<and>
    (is_flexible r \<or> st_matures_at r \<le> clock s) \<and> wallet_id_of s user (st_coin r) PERSONAL = Some wid \<and>
    (0 < stake_reward r (clock s) \<longrightarrow> house_wallet_id s HOUSE (st_coin r) = Inr hw) \<and>
    can_post_all (claim_posts sid wid hw r (clock s)) (locked_state sid s) \<and>
    s' = (post_all (claim_posts sid wid hw r (clock s)) (locked_state sid s))
      \<lparr>stakes := update_where (\<lambda>r'. st_id r' = sid) (claimed r (clock s)) (stakes s)\<rparr> \<and>
    row = (row_to_stake r)\<lparr>sk_reward := stake_reward r (clock s), sk_status := Completed\<rparr>"
proof -
  have wl: "wallet_id_of (locked_state sid s) u c k = wallet_id_of s u c k" for u c k
    by (rule wallet_id_of_cong) (simp add: locked_state_def)
  have hl: "house_wallet_id (locked_state sid s) k c = house_wallet_id s k c" for k c
    by (rule house_wallet_id_cong) (simp_all add: locked_state_def)
  have cl: "clock (locked_state sid s) = clock s" "stakes (locked_state sid s) = stakes s"
    by (simp_all add: locked_state_def)
  from assms obtain r wid s2 where r: "find_stake s sid = Some r" "st_user r = user" "st_status r = Active"
      "is_flexible r \<or> st_matures_at r \<le> clock s" "wallet_id_of s user (st_coin r) PERSONAL = Some wid"
    and post: "can_post (stake_input wid (st_principal r) STAKE_UNLOCK sid ''Stake principal returned'')
        (locked_state sid s)"
    and pay: "pay_reward wid r (stake_reward r (clock s)) (post_entry (stake_input wid (st_principal r)
        STAKE_UNLOCK sid ''Stake principal returned'') (locked_state sid s)) = Inr ((), s2)"
    and s': "s' = s2\<lparr>stakes := update_where (\<lambda>r'. st_id r' = sid) (claimed r (clock s)) (stakes s2)\<rparr>"
    and row: "row = (row_to_stake r)\<lparr>sk_reward := stake_reward r (clock s), sk_status := Completed\<rparr>"
    unfolding claim_stake_tx_def
    by (simp add: tx_simps flip: locked_state_def) (auto simp: wl cl)
  from pay_reward_Inr [OF pay] obtain hw where
    hw: "0 < stake_reward r (clock s) \<longrightarrow> house_wallet_id s HOUSE (st_coin r) = Inr hw"
    and all: "can_post_all (reward_posts wid hw r (stake_reward r (clock s))) (post_entry (stake_input wid
        (st_principal r) STAKE_UNLOCK sid ''Stake principal returned'') (locked_state sid s))"
    and s2: "s2 = post_all (reward_posts wid hw r (stake_reward r (clock s))) (post_entry (stake_input wid
        (st_principal r) STAKE_UNLOCK sid ''Stake principal returned'') (locked_state sid s))"
    using hl by auto
  show ?thesis
    using r post hw all s' row s2
    by (intro exI [of _ r] exI [of _ wid] exI [of _ hw]) (simp add: cl claim_posts_def)
qed

lemma cancel_stake_tx_Inr:
  assumes "cancel_stake_tx user sid s = Inr (u, s')"
  shows "\<exists>r wid i. find_stake s sid = Some r \<and> st_user r = user \<and> st_status r = Active \<and>
    wallet_id_of s user (st_coin r) PERSONAL = Some wid \<and>
    in_wallet_id i = wid \<and> in_amount i = st_principal r \<and> can_post i (locked_state sid s) \<and>
    s' = (post_entry i (locked_state sid s))
      \<lparr>stakes := update_where (\<lambda>r'. st_id r' = sid) (canceled (clock s)) (stakes s)\<rparr>"
proof -
  have wl: "wallet_id_of (locked_state sid s) u c k = wallet_id_of s u c k" for u c k
    by (rule wallet_id_of_cong) (simp add: locked_state_def)
  have cl: "clock (locked_state sid s) = clock s" "stakes (locked_state sid s) = stakes s"
    by (simp_all add: locked_state_def)
  from assms obtain r wid where r: "find_stake s sid = Some r" "st_user r = user" "st_status r = Active"
      "wallet_id_of s user (st_coin r) PERSONAL = Some wid"
    and post: "can_post (stake_input wid (st_principal r) STAKE_UNLOCK sid ''Stake canceled early (no reward)'')
        (locked_state sid s)"
    and s': "s' = (post_entry (stake_input wid (st_principal r) STAKE_UNLOCK sid
          ''Stake canceled early (no reward)'') (locked_state sid s))
        \<lparr>stakes := update_where (\<lambda>r'. st_id r' = sid) (canceled (clock s)) (stakes s)\<rparr>"
    unfolding cancel_stake_tx_def
    by (simp add: tx_simps flip: locked_state_def) (auto simp: wl cl)
  then show ?thesis
    by (intro exI [of _ r] exI [of _ wid] exI [of _ "stake_input wid (st_principal r) STAKE_UNLOCK sid
      ''Stake canceled early (no reward)''"]) simp
qed

lemma create_stake_tx_Inr:
  assumes "create_stake_tx plan user coin amount days s = Inr (row, s')"
  shows "\<exists>wid i t. wallet_id_of s user coin PERSONAL = Some wid \<and>
    t = s\<lparr>next_id := Suc (next_id s),
      stakes := stakes s @ [new_stake (next_id s) user coin amount plan days (clock s)]\<rparr> \<and>
    in_wallet_id i = wid \<and> in_amount i = - int amount \<and> can_post i t \<and> s' = post_entry i t \<and>
    sk_id row = next_id s \<and> sk_reward_bps row = reward_bps plan"
  using assms unfolding create_stake_tx_def
  by (simp add: tx_simps) (metis stake_input_sel(1,2) StakeRow.select_convs(1,4))

section \<open>Locked principal\<close>

definition locked_principal :: "db \<Rightarrow> Coin \<Rightarrow> int" where
  "locked_principal s c =
     (\<Sum>r\<leftarrow>stakes s. if st_coin r = c \<and> st_status r = Active then st_principal r else 0)"

definition held_total :: "db \<Rightarrow> Coin \<Rightarrow> int" where
  "held_total s c = coin_total s c + locked_principal s c"

lemma locked_principal_close:
  assumes "distinct (map st_id (stakes s))" and "find_stake s sid = Some r" and "st_status r = Active"
    and "\<And>r'. st_status (f r') \<noteq> Active"
  shows "(\<Sum>x\<leftarrow>update_where (\<lambda>x. st_id x = sid) f (stakes s).
      if st_coin x = c \<and> st_status x = Active then st_principal x else 0) =
    locked_principal s c - (if st_coin r = c then st_principal r else 0)"
  using find_stake_Some [OF assms(2)] assms(3,4)
    sum_update_where_key [OF assms(1), of r "\<lambda>x. if st_coin x = c \<and> st_status x = Active then st_principal x else 0" f]
  by (auto simp: locked_principal_def)

lemma coin_total_stakes [simp]: "coin_total (s\<lparr>stakes := x\<rparr>) c = coin_total s c"
  by (rule coin_total_cong) simp_all

lemma coin_total_locked_state [simp]:
  "coin_total (locked_state sid s) c = coin_total s c"
  "coin_wallets (locked_state sid s) c = coin_wallets s c"
  "wallets (locked_state sid s) = wallets s" "ledger (locked_state sid s) = ledger s"
  "stakes (locked_state sid s) = stakes s"
  by (auto simp: locked_state_def coin_wallets_def intro: coin_total_cong)

lemma books_ok_stakes: "books_ok s \<Longrightarrow> books_ok (s\<lparr>stakes := x\<rparr>)"
  by (erule books_ok_cong [rotated -1]) simp_all

lemma books_ok_locked_state: "books_ok s \<Longrightarrow> books_ok (locked_state sid s)"
  by (erule books_ok_cong [rotated -1]) (simp_all add: locked_state_def)

definition stakes_ok :: "db \<Rightarrow> bool" where
  "stakes_ok s \<longleftrightarrow> distinct (map st_id (stakes s)) \<and> (\<forall>r\<in>set (stakes s). st_id r < next_id s)"

lemma reward_posts_sum:
  assumes "wallets_wf s" and "wallet_id_of s user c PERSONAL = Some wid"
    and "0 < reward \<longrightarrow> house_wallet_id s HOUSE c = Inr hw" and "st_coin r = c"
  shows "(\<Sum>i\<leftarrow>reward_posts wid hw r reward. if in_wallet_id i \<in> coin_wallets s c' then in_amount i else 0) = 0"
  using assms by (auto simp: reward_posts_def account_coin house_coin)

lemma claim_conserves:
  assumes "claim_stake_tx user sid s = Inr (row, s')" and "books_ok s" and "stakes_ok s"
  shows "held_total s' c = held_total s c \<and> books_ok s' \<and> stakes_ok s'"
proof -
  obtain r wid hw where r: "find_stake s sid = Some r" "st_status r = Active"
    and wid: "wallet_id_of s user (st_coin r) PERSONAL = Some wid"
    and hw: "0 < stake_reward r (clock s) \<longrightarrow> house_wallet_id s HOUSE (st_coin r) = Inr hw"
    and cp: "can_post_all (claim_posts sid wid hw r (clock s)) (locked_state sid s)"
    and s': "s' = (post_all (claim_posts sid wid hw r (clock s)) (locked_state sid s))
      \<lparr>stakes := update_where (\<lambda>r'. st_id r' = sid) (claimed r (clock s)) (stakes s)\<rparr>"
    using claim_stake_tx_Inr [OF assms(1)] by (elim exE conjE) rule
  have wf: "wallets_wf s" using assms(2) by (simp add: books_ok_def)
  have "coin_total s' c = coin_total (post_all (claim_posts sid wid hw r (clock s)) (locked_state sid s)) c"
    unfolding s' by (rule coin_total_stakes)
  also have "\<dots> = coin_total s c + (if st_coin r = c then st_principal r else 0)"
    unfolding coin_total_post_all [OF cp]
    using reward_posts_sum [OF wf wid hw refl, of c] account_coin [OF wf wid, of c]
    by (simp add: claim_posts_def)
  moreover have "locked_principal s' c = locked_principal s c - (if st_coin r = c then st_principal r else 0)"
  proof -
    have "locked_principal s' c = (\<Sum>x\<leftarrow>update_where (\<lambda>r'. st_id r' = sid) (claimed r (clock s)) (stakes s).
        if st_coin x = c \<and> st_status x = Active then st_principal x else 0)"
      unfolding locked_principal_def s' by simp
    also have "\<dots> = locked_principal s c - (if st_coin r = c then st_principal r else 0)"
      using assms(3) r by (intro locked_principal_close) (simp_all add: stakes_ok_def claimed_def)
    finally show ?thesis .
  qed
  moreover have "books_ok s'"
    unfolding s' by (intro books_ok_stakes books_ok_post_all [OF cp] books_ok_locked_state assms(2))
  moreover have "stakes_ok s'"
    using assms(3) by (auto simp: stakes_ok_def s' map_update_where claimed_def set_update_where locked_state_def)
  ultimately show ?thesis by (simp add: held_total_def)
qed

lemma cancel_conserves:
  assumes "cancel_stake_tx user sid s = Inr (u, s')" and "books_ok s" and "stakes_ok s"
  shows "held_total s' c = held_total s c \<and> books_ok s' \<and> stakes_ok s'"
proof -
  obtain r wid i where r: "find_stake s sid = Some r" "st_status r = Active"
    and wid: "wallet_id_of s user (st_coin r) PERSONAL = Some wid"
    and i: "in_wallet_id i = wid" "in_amount i = st_principal r"
    and cp: "can_post i (locked_state sid s)"
    and s': "s' = (post_entry i (locked_state sid s))
      \<lparr>stakes := update_where (\<lambda>r'. st_id r' = sid) (canceled (clock s)) (stakes s)\<rparr>"
    using cancel_stake_tx_Inr [OF assms(1)] by (elim exE conjE) rule
  have wf: "wallets_wf s" using assms(2) by (simp add: books_ok_def)
  have "coin_total s' c = coin_total s c + (if st_coin r = c then st_principal r else 0)"
    unfolding s' using coin_total_post [OF cp] account_coin [OF wf wid, of c] i by simp
  moreover have "locked_principal s' c = (\<Sum>x\<leftarrow>update_where (\<lambda>r'. st_id r' = sid) (canceled (clock s)) (stakes s).
      if st_coin x = c \<and> st_status x = Active then st_principal x else 0)"
    unfolding locked_principal_def s' by simp
  then have "locked_principal s' c = locked_principal s c - (if st_coin r = c then st_principal r else 0)"
    using locked_principal_close [OF _ r, of "canceled (clock s)"] assms(3)
    by (simp add: stakes_ok_def canceled_def)
  moreover have "books_ok s'"
    unfolding s' by (intro books_ok_stakes books_ok_post [OF cp] books_ok_locked_state assms(2))
  moreover have "stakes_ok s'"
    using assms(3) by (auto simp: stakes_ok_def s' map_update_where canceled_def set_update_where locked_state_def)
  ultimately show ?thesis by (simp add: held_total_def)
qed

lemma create_conserves:
  assumes "create_stake_tx plan user coin amount days s = Inr (row, s')" and "books_ok s" and "stakes_ok s"
  shows "held_total s' c = held_total s c \<and> books_ok s' \<and> stakes_ok s'"
proof -
  obtain wid i t where wid: "wallet_id_of s user coin PERSONAL = Some wid"
    and t: "t = s\<lparr>next_id := Suc (next_id s),
      stakes := stakes s @ [new_stake (next_id s) user coin amount plan days (clock s)]\<rparr>"
    and i: "in_wallet_id i = wid" "in_amount i = - int amount" and cp: "can_post i t"
    and s': "s' = post_entry i t"
    using create_stake_tx_Inr [OF assms(1)] by (elim exE conjE) rule
  have wf: "wallets_wf s" using assms(2) by (simp add: books_ok_def)
  have t_eq: "coin_total t c = coin_total s c" "coin_wallets t c = coin_wallets s c"
    by (auto simp: t coin_wallets_def intro: coin_total_cong)
  have "coin_total s' c = coin_total s c + (if coin = c then - int amount else 0)"
    unfolding s' using coin_total_post [OF cp] account_coin [OF wf wid, of c] i t_eq by simp
  moreover have "locked_principal s' c = locked_principal s c + (if coin = c then int amount else 0)"
    by (simp add: locked_principal_def s' t new_stake_def)
  moreover have "books_ok s'"
    unfolding s' using assms(2)
    by (intro books_ok_post [OF cp]) (erule books_ok_cong [rotated -1], simp_all add: t)
  moreover have "stakes_ok s'"
    using assms(3) by (auto simp: stakes_ok_def s' t new_stake_def less_Suc_eq)
  ultimately show ?thesis by (simp add: held_total_def)
qed

section \<open>The life of a stake\<close>

text \<open>One request served, successful or not, and any number of them.\<close>

inductive stake_step :: "db \<Rightarrow> db \<Rightarrow> bool" where
  step_create: "create_stake user coin amount days s = (r, s') \<Longrightarrow> stake_step s s'"
| step_claim: "claim_stake user sid s = (r, s') \<Longrightarrow> stake_step s s'"
| step_cancel: "cancel_stake user sid s = (r', s') \<Longrightarrow> stake_step s s'"

inductive_cases stake_stepE: "stake_step s s'"

lemma held_total_release [simp]: "held_total (release_locks s) c = held_total s c"
  by (simp add: held_total_def locked_principal_def) (simp add: release_locks_def)

lemma stakes_ok_release [simp]: "stakes_ok (release_locks s) = stakes_ok s"
  by (simp add: stakes_ok_def release_locks_def)

lemma stake_step_inv:
  assumes "stake_step s s'" and "books_ok s" and "stakes_ok s"
  shows "held_total s' c = held_total s c \<and> books_ok s' \<and> stakes_ok s'"
  using assms(1)
proof (rule stake_stepE)
  fix user coin amount days r
  assume run: "create_stake user coin amount days s = (r, s')"
  show ?thesis
  proof (cases "List.find (\<lambda>p. lock_days p = days) STAKE_PLANS")
    case None
    with run assms show ?thesis by (simp add: create_stake_def)
  next
    case (Some plan)
    with run have "commit_tx release_locks (create_stake_tx plan user coin amount days) s = (r, s')"
      by (simp add: create_stake_def)
    then show ?thesis using assms(2,3)
      by (cases rule: commit_cases) (auto simp: books_ok_release dest!: create_conserves [where c = c])
  qed
next
  fix user sid r
  assume "claim_stake user sid s = (r, s')"
  then show ?thesis unfolding claim_stake_def using assms(2,3)
    by (cases rule: commit_cases) (auto simp: books_ok_release dest!: claim_conserves [where c = c])
next
  fix user sid r
  assume "cancel_stake user sid s = (r, s')"
  then show ?thesis unfolding cancel_stake_def using assms(2,3)
    by (cases rule: commit_cases) (auto simp: books_ok_release dest!: cancel_conserves [where c = c])
qed

section \<open>Properties\<close>

text \<open>
  Staking neither creates nor destroys money: along any sequence of create, claim and cancel
  requests, successful or not, the total of every coin over all wallets plus the principal
  locked in active stakes of that coin never changes, and the books stay in order.
\<close>

theorem staking_conserves:
  assumes "stake_step\<^sup>*\<^sup>* s s'" and "books_ok s" and "stakes_ok s"
  shows "held_total s' c = held_total s c \<and> books_ok s' \<and> solvent s'"
proof -
  have "held_total s' c = held_total s c \<and> books_ok s' \<and> stakes_ok s'"
    using assms
  proof (induction rule: rtranclp_induct)
    case (step t u)
    then show ?case using stake_step_inv [of t u c] by simp
  qed simp
  then show ?thesis by (simp add: books_ok_def)
qed

lemma closed_stake_stays:
  assumes "find_stake s sid = Some r" and "st_status r \<noteq> Active"
  shows "snd (claim_stake user sid s) = s \<and> snd (cancel_stake user sid s) = s \<and>
    (\<exists>e. fst (claim_stake user sid s) = Inl e) \<and> (\<exists>e. fst (cancel_stake user sid s) = Inl e)"
proof -
  have no: "\<not> (\<exists>x. open_stake user sid s = Inr x)"
    using assms open_stake_Inr [of user sid s] by auto
  then obtain e where "open_stake user sid s = Inl e" by (cases "open_stake user sid s") auto
  then have "claim_stake_tx user sid s = Inl e" "cancel_stake_tx user sid s = Inl e"
    by (simp_all add: claim_stake_tx_def cancel_stake_tx_def tx_bind_stop)
  then show ?thesis by (simp add: claim_stake_def cancel_stake_def commit_tx_Inl)
qed

lemma claimed_row:
  "find_stake s sid = Some r \<Longrightarrow>
     List.find (\<lambda>x. st_id x = sid) (update_where (\<lambda>x. st_id x = sid) (claimed r0 ts) (stakes s)) =
       Some (claimed r0 ts r)"
  using find_update_where_key [of st_id "claimed r0 ts" sid sid "stakes s"]
  by (simp add: find_stake_def claimed_def)

text \<open>Any other part of the platform leaves the stakes alone.\<close>

definition stake_run :: "db \<Rightarrow> db \<Rightarrow> bool" where
  "stake_run = (\<lambda>s t. stake_step s t \<or> stakes t = stakes s)\<^sup>*\<^sup>*"

definition closed_stake :: "uuid \<Rightarrow> db \<Rightarrow> bool" where
  "closed_stake sid s \<longleftrightarrow> (\<exists>r. find_stake s sid = Some r \<and> st_status r \<noteq> Active)"

lemma find_stake_cong: "stakes t = stakes s \<Longrightarrow> find_stake t sid = find_stake s sid"
  by (simp add: find_stake_def)

lemma closed_updated:
  assumes "closed_stake sid s" and "stakes t = update_where (\<lambda>r. st_id r = i) f (stakes s)"
    and "\<And>r. st_id (f r) = st_id r" and "\<And>r. st_status (f r) \<noteq> Active"
  shows "closed_stake sid t"
  using assms(1,4) find_update_where_key [of st_id f sid i "stakes s", OF assms(3)]
  by (auto simp: closed_stake_def find_stake_def assms(2) split: if_splits)

lemma closed_step:
  assumes "stake_step s t" and "closed_stake sid s"
  shows "closed_stake sid t"
  using assms(1)
proof (rule stake_stepE)
  fix user coin amount days r
  assume run: "create_stake user coin amount days s = (r, t)"
  show ?thesis
  proof (cases "List.find (\<lambda>p. lock_days p = days) STAKE_PLANS")
    case None
    with run assms show ?thesis by (simp add: create_stake_def)
  next
    case (Some plan)
    with run have "commit_tx release_locks (create_stake_tx plan user coin amount days) s = (r, t)"
      by (simp add: create_stake_def)
    then show ?thesis
    proof (cases rule: commit_cases)
      case (committed x u)
      from create_stake_tx_Inr [OF committed(2)] obtain n where "stakes u = stakes s @ [n]" by auto
      then have "stakes t = stakes s @ [n]" by (simp add: committed(3) release_locks_def)
      with assms(2) show ?thesis by (auto simp: closed_stake_def find_stake_def find_append)
    qed (use assms in simp)
  qed
next
  fix user i r
  assume "claim_stake user i s = (r, t)"
  then show ?thesis unfolding claim_stake_def
  proof (cases rule: commit_cases)
    case (committed x u)
    from claim_stake_tx_Inr [OF committed(2)] obtain q where
      "stakes u = update_where (\<lambda>r'. st_id r' = i) (claimed q (clock s)) (stakes s)" by auto
    then show ?thesis by (intro closed_updated [OF assms(2), where f = "claimed q (clock s)" and i = i])
      (simp_all add: committed(3) release_locks_def claimed_def)
  qed (use assms in simp)
next
  fix user i r
  assume "cancel_stake user i s = (r, t)"
  then show ?thesis unfolding cancel_stake_def
  proof (cases rule: commit_cases)
    case (committed x u)
    from cancel_stake_tx_Inr [OF committed(2)] have
      "stakes u = update_where (\<lambda>r'. st_id r' = i) (canceled (clock s)) (stakes s)" by auto
    then show ?thesis by (intro closed_updated [OF assms(2), where f = "canceled (clock s)" and i = i])
      (simp_all add: committed(3) release_locks_def canceled_def)
  qed (use assms in simp)
qed

lemma closed_run: "stake_run s t \<Longrightarrow> closed_stake sid s \<Longrightarrow> closed_stake sid t"
  unfolding stake_run_def
proof (induction rule: rtranclp_induct)
  case (step t u)
  then show ?case using closed_step [of t u sid] find_stake_cong [of u t sid] by (auto simp: closed_stake_def)
qed

lemma closed_refuses:
  assumes "closed_stake sid u"
  shows "(\<exists>e. claim_stake user sid u = (Inl e, u)) \<and> (\<exists>e. cancel_stake user sid u = (Inl e, u))"
proof -
  from assms obtain r where "find_stake u sid = Some r" "st_status r \<noteq> Active" by (auto simp: closed_stake_def)
  from closed_stake_stays [OF this, of user] show ?thesis
    by (cases "claim_stake user sid u"; cases "cancel_stake user sid u") auto
qed

text \<open>What a successful claim and a successful cancel are.\<close>

definition claim_effect :: "uuid \<Rightarrow> uuid \<Rightarrow> db \<Rightarrow> StakeRow \<Rightarrow> db \<Rightarrow> bool" where
  "claim_effect user sid s row s' \<longleftrightarrow>
     (\<exists>r wid hw. find_stake s sid = Some r \<and> st_user r = user \<and> st_status r = Active \<and>
       (is_flexible r \<or> st_matures_at r \<le> clock s) \<and> sk_reward row = stake_reward r (clock s) \<and>
       wallet_id_of s user (st_coin r) PERSONAL = Some wid \<and> wid \<noteq> hw \<and>
       (\<forall>w. wallet_balance s' w = wallet_balance s w
          + (if w = wid then st_principal r + int (sk_reward row) else 0)
          - (if w = hw then int (sk_reward row) else 0)) \<and>
       (\<exists>r'. find_stake s' sid = Some r' \<and> st_status r' = Completed))"

definition cancel_effect :: "uuid \<Rightarrow> uuid \<Rightarrow> db \<Rightarrow> db \<Rightarrow> bool" where
  "cancel_effect user sid s s' \<longleftrightarrow>
     (\<exists>r wid. find_stake s sid = Some r \<and> st_user r = user \<and> st_status r = Active \<and>
       wallet_id_of s user (st_coin r) PERSONAL = Some wid \<and>
       (\<forall>w. wallet_balance s' w = wallet_balance s w + (if w = wid then st_principal r else 0)) \<and>
       (\<exists>r'. find_stake s' sid = Some r' \<and> st_status r' = Canceled))"

lemma claim_has_effect:
  assumes "claim_stake user sid s = (Inr row, s')" and "books_ok s"
  shows "claim_effect user sid s row s'"
proof -
  from assms(1) obtain t where run: "claim_stake_tx user sid s = Inr (row, t)" and s': "s' = release_locks t"
    by (auto simp: claim_stake_def commit_tx_success)
  obtain r wid hw0 where r: "find_stake s sid = Some r" "st_user r = user" "st_status r = Active"
      "is_flexible r \<or> st_matures_at r \<le> clock s"
    and wid: "wallet_id_of s user (st_coin r) PERSONAL = Some wid"
    and hw0: "0 < stake_reward r (clock s) \<longrightarrow> house_wallet_id s HOUSE (st_coin r) = Inr hw0"
    and t: "t = (post_all (claim_posts sid wid hw0 r (clock s)) (locked_state sid s))
      \<lparr>stakes := update_where (\<lambda>r'. st_id r' = sid) (claimed r (clock s)) (stakes s)\<rparr>"
    and row: "row = (row_to_stake r)\<lparr>sk_reward := stake_reward r (clock s), sk_status := Completed\<rparr>"
    using claim_stake_tx_Inr [OF run] by (elim exE conjE) rule
  have wf: "wallets_wf s" using assms(2) by (simp add: books_ok_def)
  define hw where "hw = (if 0 < stake_reward r (clock s) then hw0 else Suc wid)"
  have ne: "wid \<noteq> hw"
    using house_user_wallets_differ [OF wf wid] hw0 by (auto simp: hw_def)
  have b0: "wallet_balance (locked_state sid s) w = wallet_balance s w" for w
    by (rule wallet_balance_frame) (simp add: locked_state_def)
  have bt: "wallet_balance s' w = wallet_balance (post_all (claim_posts sid wid hw0 r (clock s)) (locked_state sid s)) w" for w
    by (rule wallet_balance_frame) (simp add: s' t release_locks_def)
  have bal: "wallet_balance s' w = wallet_balance s w
       + (if w = wid then st_principal r + int (sk_reward row) else 0)
       - (if w = hw then int (sk_reward row) else 0)" for w
    using ne unfolding bt wallet_balance_post_all b0
    by (cases "0 < stake_reward r (clock s)") (simp_all add: claim_posts_def reward_posts_def row hw_def)
  have done': "find_stake s' sid = Some (claimed r (clock s) r)"
    unfolding find_stake_def using claimed_row [OF r(1)] by (simp add: s' t release_locks_def)
  show ?thesis unfolding claim_effect_def
    using r wid ne bal done'
    by (intro exI [of _ r] exI [of _ wid] exI [of _ hw]) (simp add: row claimed_def)
qed

lemma cancel_has_effect:
  assumes "cancel_stake user sid s = (Inr u, s')"
  shows "cancel_effect user sid s s'"
proof -
  from assms obtain t where run: "cancel_stake_tx user sid s = Inr (u, t)" and s': "s' = release_locks t"
    by (auto simp: cancel_stake_def commit_tx_success)
  obtain r wid i where r: "find_stake s sid = Some r" "st_user r = user" "st_status r = Active"
    and wid: "wallet_id_of s user (st_coin r) PERSONAL = Some wid"
    and i: "in_wallet_id i = wid" "in_amount i = st_principal r"
    and t: "t = (post_entry i (locked_state sid s))
      \<lparr>stakes := update_where (\<lambda>r'. st_id r' = sid) (canceled (clock s)) (stakes s)\<rparr>"
    using cancel_stake_tx_Inr [OF run] by (elim exE conjE) rule
  have b0: "wallet_balance (locked_state sid s) w = wallet_balance s w" for w
    by (rule wallet_balance_frame) (simp add: locked_state_def)
  have "wallet_balance s' w = wallet_balance (post_entry i (locked_state sid s)) w" for w
    by (rule wallet_balance_frame) (simp add: s' t release_locks_def)
  then have bal: "wallet_balance s' w = wallet_balance s w + (if w = wid then st_principal r else 0)" for w
    using i b0 by (simp add: wallet_balance_post)
  have "find_stake s' sid = Some (canceled (clock s) r)"
    using r(1) find_update_where_key [of st_id "canceled (clock s)" sid sid "stakes s"]
    by (simp add: find_stake_def s' t release_locks_def canceled_def)
  then show ?thesis using r wid bal unfolding cancel_effect_def by (auto simp: canceled_def)
qed

text \<open>
  C22. A stake is paid out once. A successful claim was of an active stake of the caller, mature or
  flexible; it credits the caller's wallet with exactly principal plus reward, takes exactly
  the reward from HOUSE, and changes no other balance. A successful cancel was of an active stake of the
  caller and credits exactly the principal. After either, along every run of requests of any users and
  of anything else that leaves the stakes alone, every claim and every cancel of that stake, by anyone,
  is refused with an error and changes nothing.
\<close>

theorem stake_paid_once:
  assumes "books_ok s"
    and "(\<exists>row. claim_stake user sid s = (Inr row, s')) \<or> cancel_stake user sid s = (Inr (), s')"
    and "stake_run s' u"
  shows "((\<exists>row. claim_stake user sid s = (Inr row, s') \<and> claim_effect user sid s row s') \<or>
      cancel_stake user sid s = (Inr (), s') \<and> cancel_effect user sid s s') \<and>
    (\<exists>e. claim_stake user' sid u = (Inl e, u)) \<and> (\<exists>e. cancel_stake user' sid u = (Inl e, u))"
proof -
  have eff: "(\<exists>row. claim_stake user sid s = (Inr row, s') \<and> claim_effect user sid s row s') \<or>
      cancel_stake user sid s = (Inr (), s') \<and> cancel_effect user sid s s'"
    using assms(1,2) claim_has_effect cancel_has_effect by blast
  then have "\<exists>r'. find_stake s' sid = Some r' \<and> (st_status r' = Completed \<or> st_status r' = Canceled)"
    unfolding claim_effect_def cancel_effect_def by blast
  then have "closed_stake sid s'" by (auto simp: closed_stake_def)
  from closed_refuses [OF closed_run [OF assms(3) this]] eff show ?thesis by blast
qed

definition stake_demo :: db where
  "stake_demo = append_entries
     [simple_input 4 1000 DEPOSIT None None None, simple_input 2 5000000 DEPOSIT None None None]
     (empty_db\<lparr>next_id := 100, clock := 30 * day_micros,
        users := [house_user],
        wallets := [demo_wallet 2 1 Btc HOUSE, demo_wallet 4 7 Btc PERSONAL],
        stakes := [new_stake 9 7 Btc 1000000 \<lparr>lock_days = 30, reward_bps = 600, plan_label = []\<rparr> 30 0]\<rparr>)"

lemmas stake_demo_defs = stake_demo_def house_user_def demo_wallet_def empty_db_def
  simple_input_def entry_of_def new_stake_def day_micros_def

lemma stake_demo_ok: "books_ok stake_demo \<and> stakes_ok stake_demo"
  by (simp add: stake_demo_defs books_ok_def stakes_ok_def wallets_wf_def entries_owned_def
      references_unique_def solvent_def wallet_balance_def List.map_filter_simps reference_of_def
      key_of_def)

lemma stake_demo_run:
  "\<exists>row t. claim_stake_tx 7 9 stake_demo = Inr (row, t) \<and> sk_reward row = 4931 \<and>
     row_locks t = [StakeLock 9, WalletLock 4, WalletLock 2]"
  by (simp add: stake_demo_defs claim_stake_tx_def open_stake_def find_stake_def take_lock_def
      acquire_def now_def is_flexible_def is_flexible_plan_def as_u32_def stake_reward_def
      calc_stake_reward_def dec_to_u128_or_def dec_to_u128_def u128_max_def select_wallet_def
      wallet_id_of_def pay_reward_def debit_house_def get_house_wallet_id_def house_wallet_id_def
      find_user_by_email_def apply_ledger_entry_def lock_wallet_def find_wallet_def
      get_wallet_balance_def wallet_balance_def insert_ledger_entry_def check_numeric_def
      fits_numeric_def numeric_limit_def reference_conflict_def key_conflict_def fresh_uuid_def
      stake_input_def set_stake_def row_to_stake_def tx_defs Let_def)

theorem staking_conserves_witness:
  "held_total (snd (claim_stake 7 9 stake_demo)) Btc = held_total stake_demo Btc \<and>
   solvent (snd (claim_stake 7 9 stake_demo))"
proof -
  have "stake_step stake_demo (snd (claim_stake 7 9 stake_demo))"
    by (rule step_claim [of _ _ _ "fst (claim_stake 7 9 stake_demo)"]) simp
  then show ?thesis
    using staking_conserves [of stake_demo _ Btc] stake_demo_ok by blast
qed

theorem stake_paid_once_witness:
  "\<exists>row s'. claim_stake 7 9 stake_demo = (Inr row, s') \<and> sk_reward row = 4931 \<and> claim_effect 7 9 stake_demo row s' \<and>
     (\<exists>e. claim_stake 7 9 s' = (Inl e, s')) \<and> (\<exists>e. cancel_stake 7 9 s' = (Inl e, s'))"
proof -
  obtain row t where run: "claim_stake_tx 7 9 stake_demo = Inr (row, t)" and rw: "sk_reward row = 4931"
    using stake_demo_run by blast
  then have c: "claim_stake 7 9 stake_demo = (Inr row, release_locks t)"
    by (simp add: claim_stake_def commit_tx_Inr)
  have "stake_run (release_locks t) (release_locks t)" by (simp add: stake_run_def)
  from stake_paid_once [OF _ _ this, of stake_demo 7 9 7] stake_demo_ok c
  have "((\<exists>row. claim_stake 7 9 stake_demo = (Inr row, release_locks t) \<and> claim_effect 7 9 stake_demo row (release_locks t)) \<or>
      cancel_stake 7 9 stake_demo = (Inr (), release_locks t) \<and> cancel_effect 7 9 stake_demo (release_locks t)) \<and>
    (\<exists>e. claim_stake 7 9 (release_locks t) = (Inl e, release_locks t)) \<and>
    (\<exists>e. cancel_stake 7 9 (release_locks t) = (Inl e, release_locks t))"
    by blast
  moreover have "claim_effect 7 9 stake_demo row (release_locks t)"
    using c stake_demo_ok by (intro claim_has_effect) simp_all
  ultimately show ?thesis using c rw by blast
qed

text \<open>
  Claiming a stake takes its wallet locks in the order user, then HOUSE, not through
  \<open>lock_wallets\<close>: here the second lock has the smaller identifier, the opposite of the
  canonical order a swap takes them in.
\<close>

theorem claim_locks_out_of_order:
  "\<exists>row t ids. claim_stake_tx 7 9 stake_demo = Inr (row, t) \<and>
     row_locks t = StakeLock 9 # map WalletLock ids \<and> \<not> sorted ids"
proof -
  obtain row t where "claim_stake_tx 7 9 stake_demo = Inr (row, t)"
    "row_locks t = [StakeLock 9, WalletLock 4, WalletLock 2]"
    using stake_demo_run by blast
  then show ?thesis by (intro exI [of _ row] exI [of _ t] exI [of _ "[4, 2]"]) simp
qed

end
