(* ===== verification/Airdrop.thy ===== *)
theory Airdrop
  imports Ledger F64
begin

text \<open>
  \<open>crates/db/src/airdrop.rs\<close>: the active season, the award of points inside the caller's
  transaction, and the tiers. The multiplied total is computed in \<open>f64\<close>; the multipliers are
  exact doubles. Point columns are \<open>bigint\<close>, whose overflow is a database error.
\<close>

datatype AwardResult = Awarded | NoActiveSeason

definition get_active_season :: "db \<Rightarrow> season_row option" where
  "get_active_season s =
     (case sort_key (\<lambda>r. - se_number r) (filter (\<lambda>r. se_status r = ''ACTIVE'') (seasons s)) of
        [] \<Rightarrow> None | r # _ \<Rightarrow> Some r)"

definition calculate_tier :: "int \<Rightarrow> string \<times> rat" where
  "calculate_tier points =
     (if 5000000 \<le> points then (''DIAMOND'', 5 / 2)
      else if 1000000 \<le> points then (''PLATINUM'', 2)
      else if 250000 \<le> points then (''GOLD'', 3 / 2)
      else if 50000 \<le> points then (''SILVER'', 5 / 4)
      else (''BRONZE'', 1))"

text \<open>\<open>i64\<close> addition wraps in a release build.\<close>

definition i64_add :: "int \<Rightarrow> int \<Rightarrow> int" where
  "i64_add a b = (a + b + 2 ^ 63) mod 2 ^ 64 - 2 ^ 63"

text \<open>\<open>(raw as f64 * mult).round() as i64\<close>; rounding is symmetric around zero.\<close>

definition multiplied :: "int \<Rightarrow> rat \<Rightarrow> int" where
  "multiplied raw mult = sgn raw * int (f64_round_u (f64 (f64 (of_nat (nat \<bar>raw\<bar>)) * mult)))"

definition c_cedilla_tilde :: string where \<comment> \<open>the letters c cedilla, a tilde, o\<close>
  "c_cedilla_tilde = [CHR 0xC3, CHR 0xA7, CHR 0xC3, CHR 0xA3, CHR ''o'']"

definition bonus_word :: string where
  "bonus_word = ''B'' @ [CHR 0xC3, CHR 0xB4] @ ''nus''"

definition award_description :: "string \<Rightarrow> string" where
  "award_description activity =
     (if activity = ''REFERRAL_SIGNUP'' then
        bonus_word @ '' de Indica'' @ c_cedilla_tilde @
        '': amigo cadastrado pelo seu link exclusivo (+50 pts)''
      else if activity = ''REFERRAL_WELCOME'' then
        bonus_word @ '' de Boas-Vindas: cadastro via link de convite (+50 pts)''
      else if activity = ''FAUCET_CLAIM'' then
        ''Reivindica'' @ c_cedilla_tilde @ '' de Torneira / Faucet (+50 pts)''
      else if activity = ''SWAP_EXECUTE'' then
        ''Opera'' @ c_cedilla_tilde @ '' de Convers'' @ [CHR 0xC3, CHR 0xA3] @ ''o Instant'' @
        [CHR 0xC3, CHR 0xA2] @ ''nea / Swap (+100 pts)''
      else if activity = ''COMMISSION_EARNED'' then
        ''Comiss'' @ [CHR 0xC3, CHR 0xA3] @ ''o de Afiliado: atividade gerada por indicado (+10 pts)''
      else if activity = ''DEPOSIT_CONFIRMED'' then
        ''Dep'' @ [CHR 0xC3, CHR 0xB3] @ ''sito Confirmado On-Chain (+100 pts)''
      else activity)"

definition check_bigint :: "int \<Rightarrow> (db_error, unit) op" where
  "check_bigint x = tx_assert (- (2 ^ 63) \<le> x \<and> x < 2 ^ 63) NumericOverflow"

definition find_points :: "db \<Rightarrow> uuid \<Rightarrow> uuid \<Rightarrow> user_points_row option" where
  "find_points s season user =
     List.find (\<lambda>r. up_season r = season \<and> up_user r = user) (user_points s)"

text \<open>The upsert that increments the stored points, returning the new base and bonus.\<close>

definition add_points :: "uuid \<Rightarrow> uuid \<Rightarrow> int \<Rightarrow> int \<Rightarrow> (db_error, int \<times> int) op" where
  "add_points season user base_add bonus_add =
     tx_bind (check_bigint (base_add + bonus_add)) (\<lambda>_.
     tx_bind (tx_gets (\<lambda>s. find_points s season user)) (\<lambda>found.
     case found of
       Some r \<Rightarrow>
         tx_bind (check_bigint (up_base_points r + base_add)) (\<lambda>_.
         tx_bind (check_bigint (up_bonus_points r + bonus_add)) (\<lambda>_.
         tx_bind (tx_modify (\<lambda>s. s\<lparr>user_points :=
           update_where (\<lambda>r. up_season r = season \<and> up_user r = user)
             (\<lambda>r. r\<lparr>up_base_points := up_base_points r + base_add,
                     up_bonus_points := up_bonus_points r + bonus_add\<rparr>) (user_points s)\<rparr>)) (\<lambda>_.
         tx_return (up_base_points r + base_add, up_bonus_points r + bonus_add))))
     | None \<Rightarrow>
         tx_bind (tx_modify (\<lambda>s. s\<lparr>user_points := user_points s @
           [\<lparr>up_season = season, up_user = user, up_base_points = base_add,
             up_bonus_points = bonus_add, up_total_points = base_add + bonus_add,
             up_tier = ''BRONZE'', up_multiplier = 1\<rparr>]\<rparr>)) (\<lambda>_.
         tx_return (base_add, bonus_add))))"

definition award_airdrop_points_tx ::
    "uuid \<Rightarrow> int \<Rightarrow> int \<Rightarrow> string \<Rightarrow> (db_error, AwardResult) op" where
  "award_airdrop_points_tx user base_add bonus_add activity =
     tx_bind (tx_gets get_active_season) (\<lambda>season.
     case season of
       None \<Rightarrow> tx_return NoActiveSeason
     | Some se \<Rightarrow>
         tx_bind (check_user_fk ''airdrop_point_logs'' user) (\<lambda>_.
         tx_bind (tx_modify (\<lambda>s. s\<lparr>point_logs := point_logs s @
           [\<lparr>pl_season = se_id se, pl_user = user, pl_activity = activity,
             pl_description = award_description activity, pl_points = base_add,
             pl_bonus_points = bonus_add\<rparr>]\<rparr>)) (\<lambda>_.
         tx_bind (add_points (se_id se) user base_add bonus_add) (\<lambda>(new_base, new_bonus).
         tx_bind (tx_modify (\<lambda>s. s\<lparr>user_points :=
           update_where (\<lambda>r. up_season r = se_id se \<and> up_user r = user)
             (\<lambda>r. r\<lparr>up_total_points := multiplied (i64_add new_base new_bonus)
                                         (snd (calculate_tier (i64_add new_base new_bonus))),
                     up_tier := fst (calculate_tier (i64_add new_base new_bonus)),
                     up_multiplier := snd (calculate_tier (i64_add new_base new_bonus))\<rparr>)
             (user_points s)\<rparr>)) (\<lambda>_.
         tx_return Awarded)))))"

definition award_airdrop_points ::
    "uuid \<Rightarrow> int \<Rightarrow> int \<Rightarrow> string \<Rightarrow> db \<Rightarrow> (db_error + AwardResult) \<times> db" where
  "award_airdrop_points user base_add bonus_add activity s =
     (case award_airdrop_points_tx user base_add bonus_add activity s of
        Inl e \<Rightarrow> (Inl e, s)
      | Inr (Awarded, s') \<Rightarrow> (Inr Awarded, release_locks s')
      | Inr (NoActiveSeason, _) \<Rightarrow> (Inr NoActiveSeason, s))"

text \<open>An award touches the two points tables only.\<close>

lemma check_bigint_Inr [tx_simps]:
  "check_bigint x s = Inr (u, s') \<longleftrightarrow> - (2 ^ 63) \<le> x \<and> x < 2 ^ 63 \<and> s' = s"
  by (auto simp: check_bigint_def tx_simps)

lemma add_points_frame:
  "add_points season user a b s = Inr (p, s') \<Longrightarrow> \<exists>x. s' = s\<lparr>user_points := x\<rparr>"
  by (cases "find_points s season user") (auto simp: add_points_def tx_simps)

lemma award_frame:
  assumes "award_airdrop_points_tx user a b act s = Inr (r, s')"
  shows "\<exists>x y. s' = s\<lparr>point_logs := x, user_points := y\<rparr>"
proof (cases "get_active_season s")
  case None
  with assms show ?thesis
    by (simp add: award_airdrop_points_tx_def tx_simps)
      (intro exI [of _ "point_logs s"] exI [of _ "user_points s"], simp)
next
  case (Some se)
  with assms obtain p s1 where "add_points (se_id se) user a b (s\<lparr>point_logs := point_logs s @
           [\<lparr>pl_season = se_id se, pl_user = user, pl_activity = act,
             pl_description = award_description act, pl_points = a,
             pl_bonus_points = b\<rparr>]\<rparr>) = Inr (p, s1)" and "\<exists>y. s' = s1\<lparr>user_points := y\<rparr>"
    by (auto simp: award_airdrop_points_tx_def tx_simps split: prod.splits)
  with add_points_frame show ?thesis by fastforce
qed

lemma keeps_award_books [keeps_intros]: "keeps books_ok (award_airdrop_points_tx u a b act)"
  by (auto simp: keeps_def dest!: award_frame elim!: books_ok_cong [rotated -1])

section \<open>Points and their log\<close>

definition logged_points :: "db \<Rightarrow> uuid \<Rightarrow> uuid \<Rightarrow> int" where
  "logged_points s se u =
     (\<Sum>l\<leftarrow>point_logs s. if pl_season l = se \<and> pl_user l = u then pl_points l else 0)"

definition logged_bonus :: "db \<Rightarrow> uuid \<Rightarrow> uuid \<Rightarrow> int" where
  "logged_bonus s se u =
     (\<Sum>l\<leftarrow>point_logs s. if pl_season l = se \<and> pl_user l = u then pl_bonus_points l else 0)"

text \<open>A row is the sum of its log, and its tier and multiplier are those of its points.\<close>

definition row_matches :: "db \<Rightarrow> uuid \<Rightarrow> uuid \<Rightarrow> user_points_row option \<Rightarrow> bool" where
  "row_matches s se u found =
     (case found of
        None \<Rightarrow> logged_points s se u = 0 \<and> logged_bonus s se u = 0
      | Some r \<Rightarrow>
          up_base_points r = logged_points s se u \<and> up_bonus_points r = logged_bonus s se u \<and>
          (up_tier r, up_multiplier r) = calculate_tier (i64_add (up_base_points r) (up_bonus_points r)) \<and>
          up_total_points r = multiplied (i64_add (up_base_points r) (up_bonus_points r)) (up_multiplier r))"

definition points_ok :: "db \<Rightarrow> bool" where
  "points_ok s \<longleftrightarrow> (\<forall>se u. row_matches s se u (find_points s se u))"

lemma find_points_update:
  assumes "\<And>r. up_season (f r) = up_season r" and "\<And>r. up_user (f r) = up_user r"
  shows "List.find (\<lambda>r. up_season r = se \<and> up_user r = u)
      (update_where (\<lambda>r. up_season r = se' \<and> up_user r = u') f rows) =
    (if se = se' \<and> u = u' then map_option f (List.find (\<lambda>r. up_season r = se \<and> up_user r = u) rows)
     else List.find (\<lambda>r. up_season r = se \<and> up_user r = u) rows)"
  using assms by (induction rows) auto

definition settled :: "int \<Rightarrow> int \<Rightarrow> user_points_row \<Rightarrow> user_points_row" where
  "settled b o' r = r\<lparr>up_total_points := multiplied (i64_add b o') (snd (calculate_tier (i64_add b o'))),
     up_tier := fst (calculate_tier (i64_add b o')),
     up_multiplier := snd (calculate_tier (i64_add b o'))\<rparr>"

lemma award_effect:
  assumes "award_airdrop_points_tx user a b act s = Inr (Awarded, s')"
  shows "\<exists>se base bonus. get_active_season s = Some se \<and>
    point_logs s' = point_logs s @ [\<lparr>pl_season = se_id se, pl_user = user, pl_activity = act,
      pl_description = award_description act, pl_points = a, pl_bonus_points = b\<rparr>] \<and>
    base = a + (case find_points s (se_id se) user of None \<Rightarrow> 0 | Some r \<Rightarrow> up_base_points r) \<and>
    bonus = b + (case find_points s (se_id se) user of None \<Rightarrow> 0 | Some r \<Rightarrow> up_bonus_points r) \<and>
    (\<exists>r. find_points s' (se_id se) user = Some (settled base bonus r) \<and>
       up_base_points r = base \<and> up_bonus_points r = bonus) \<and>
    (\<forall>se' u'. (se', u') \<noteq> (se_id se, user) \<longrightarrow> find_points s' se' u' = find_points s se' u')"
proof (cases "get_active_season s")
  case None
  with assms show ?thesis by (simp add: award_airdrop_points_tx_def tx_simps)
next
  case (Some se)
  define t where "t = s\<lparr>point_logs := point_logs s @ [\<lparr>pl_season = se_id se, pl_user = user,
    pl_activity = act, pl_description = award_description act, pl_points = a, pl_bonus_points = b\<rparr>]\<rparr>"
  from assms Some obtain base bonus s1 where
    add: "add_points (se_id se) user a b t = Inr ((base, bonus), s1)" and
    s': "s' = s1\<lparr>user_points := update_where (\<lambda>r. up_season r = se_id se \<and> up_user r = user)
             (settled base bonus) (user_points s1)\<rparr>"
    unfolding award_airdrop_points_tx_def settled_def t_def
    by (simp add: tx_simps split: prod.splits) blast
  have ft: "find_points t se' u' = find_points s se' u'" for se' u'
    by (simp add: find_points_def t_def)
  have logs: "point_logs s' = point_logs t"
    using s' add_points_frame [OF add] by auto
  have fin: "find_points s' se' u' =
      (if se' = se_id se \<and> u' = user then map_option (settled base bonus) (find_points s1 se' u')
       else find_points s1 se' u')" for se' u'
    unfolding find_points_def s' by (simp add: find_points_update settled_def)
  show ?thesis
  proof (cases "find_points s (se_id se) user")
    case None
    with add ft have s1: "s1 = t\<lparr>user_points := user_points t @
           [\<lparr>up_season = se_id se, up_user = user, up_base_points = a,
             up_bonus_points = b, up_total_points = a + b,
             up_tier = ''BRONZE'', up_multiplier = 1\<rparr>]\<rparr>" and bb: "base = a" "bonus = b"
      by (simp_all add: add_points_def tx_simps)
    have "find_points s1 se' u' = (case find_points s se' u' of Some r \<Rightarrow> Some r | None \<Rightarrow>
        if se' = se_id se \<and> u' = user then Some \<lparr>up_season = se_id se, up_user = user, up_base_points = a,
             up_bonus_points = b, up_total_points = a + b, up_tier = ''BRONZE'', up_multiplier = 1\<rparr> else None)"
      for se' u'
      using ft [of se' u'] by (auto simp: find_points_def s1 find_append split: option.splits)
    with fin None Some logs bb show ?thesis
      by (intro exI [of _ se] exI [of _ base] exI [of _ bonus]) (auto simp: t_def split: option.splits)
  next
    case (Some r)
    with add ft have s1: "s1 = t\<lparr>user_points := update_where (\<lambda>r. up_season r = se_id se \<and> up_user r = user)
             (\<lambda>r. r\<lparr>up_base_points := up_base_points r + a,
                     up_bonus_points := up_bonus_points r + b\<rparr>) (user_points t)\<rparr>"
      and bb: "base = up_base_points r + a" "bonus = up_bonus_points r + b"
      by (simp_all add: add_points_def tx_simps)
    have "find_points s1 se' u' =
      (if se' = se_id se \<and> u' = user
       then map_option (\<lambda>r. r\<lparr>up_base_points := up_base_points r + a, up_bonus_points := up_bonus_points r + b\<rparr>)
              (find_points s se' u')
       else find_points s se' u')" for se' u'
      unfolding s1 by (simp add: find_points_def find_points_update t_def)
    with fin Some \<open>get_active_season s = Some se\<close> logs bb show ?thesis
      by (intro exI [of _ se] exI [of _ base] exI [of _ bonus]) (auto simp: t_def)
  qed
qed

text \<open>
  Points always add up: an award adds exactly the given points to the log and to the user's
  row of the active season, whose base and bonus stay the sums of the log and whose tier,
  multiplier and total stay those of the sum; no other user's row changes.
\<close>

theorem award_points_consistent:
  assumes "award_airdrop_points_tx user a b act s = Inr (r, s')" and "points_ok s"
  shows "points_ok s' \<and>
    (r = Awarded \<longrightarrow> (\<exists>se. get_active_season s = Some se \<and>
       logged_points s' (se_id se) user = logged_points s (se_id se) user + a \<and>
       logged_bonus s' (se_id se) user = logged_bonus s (se_id se) user + b)) \<and>
    (\<forall>u se. u \<noteq> user \<longrightarrow> find_points s' se u = find_points s se u)"
proof (cases r)
  case NoActiveSeason
  with assms(1) have "s' = s"
    by (cases "get_active_season s") (auto simp: award_airdrop_points_tx_def tx_simps split: prod.splits)
  with NoActiveSeason assms(2) show ?thesis by simp
next
  case Awarded
  with assms(1) have "award_airdrop_points_tx user a b act s = Inr (Awarded, s')" by simp
  from award_effect [OF this] obtain se base bonus r' where se: "get_active_season s = Some se"
    and logs: "point_logs s' = point_logs s @ [\<lparr>pl_season = se_id se, pl_user = user, pl_activity = act,
      pl_description = award_description act, pl_points = a, pl_bonus_points = b\<rparr>]"
    and sums: "base = a + (case find_points s (se_id se) user of None \<Rightarrow> 0 | Some r \<Rightarrow> up_base_points r)"
      "bonus = b + (case find_points s (se_id se) user of None \<Rightarrow> 0 | Some r \<Rightarrow> up_bonus_points r)"
    and here: "find_points s' (se_id se) user = Some (settled base bonus r')"
      "up_base_points r' = base" "up_bonus_points r' = bonus"
    and others: "\<forall>se' u'. (se', u') \<noteq> (se_id se, user) \<longrightarrow> find_points s' se' u' = find_points s se' u'"
    by (elim exE conjE) rule
  have lp: "logged_points s' x y = logged_points s x y + (if x = se_id se \<and> y = user then a else 0)"
    "logged_bonus s' x y = logged_bonus s x y + (if x = se_id se \<and> y = user then b else 0)" for x y
    by (auto simp: logged_points_def logged_bonus_def logs)
  have old: "row_matches s x y (find_points s x y)" for x y
    using assms(2) by (simp add: points_ok_def)
  have base: "base = logged_points s' (se_id se) user" "bonus = logged_bonus s' (se_id se) user"
    using old [of "se_id se" user] sums lp by (auto simp: row_matches_def split: option.splits)
  have "row_matches s' x y (find_points s' x y)" for x y
  proof (cases "x = se_id se \<and> y = user")
    case True
    with here base show ?thesis by (simp add: row_matches_def settled_def)
  next
    case False
    with others old [of x y] lp [of x y] show ?thesis
      by (auto simp: row_matches_def split: option.splits)
  qed
  with se lp others show ?thesis by (auto simp: points_ok_def)
qed

definition airdrop_demo :: db where
  "airdrop_demo = empty_db\<lparr>users := [\<lparr>u_id = 7, u_email = ''a'', u_username = ''a'', u_password_hash = []\<rparr>],
     seasons := [\<lparr>se_id = 3, se_number = 1, se_status = ''ACTIVE'', se_start_at = 0, se_end_at = 9\<rparr>]\<rparr>"

theorem award_points_consistent_witness:
  "\<exists>s'. award_airdrop_points_tx 7 50 0 ''FAUCET_CLAIM'' airdrop_demo = Inr (Awarded, s') \<and>
     points_ok s' \<and> logged_points s' 3 7 = 50"
proof -
  have ok: "points_ok airdrop_demo"
    by (simp add: points_ok_def row_matches_def airdrop_demo_def empty_db_def find_points_def
        logged_points_def logged_bonus_def)
  obtain s' where run: "award_airdrop_points_tx 7 50 0 ''FAUCET_CLAIM'' airdrop_demo = Inr (Awarded, s')"
    by (simp add: award_airdrop_points_tx_def airdrop_demo_def empty_db_def get_active_season_def
        add_points_def find_points_def check_bigint_def check_user_fk_def tx_defs)
  from award_points_consistent [OF run ok] have "points_ok s'" "logged_points s' 3 7 = 50"
    by (auto simp: airdrop_demo_def empty_db_def get_active_season_def logged_points_def)
  with run show ?thesis by blast
qed

end
