(* ===== verification/Faucet.thy ===== *)
theory Faucet
  imports House Airdrop
begin

text \<open>
  \<open>crates/db/src/faucet.rs\<close>: the per-user, per-coin cooldown, the payout from HOUSE inventory
  and the points awarded in the same transaction. The hash of the advisory lock key (the first
  eight bytes of SHA-256, a third-party function) is an argument; the lock only delays.

  The lemmas show that a claim pays exactly the configured reward out of HOUSE, that claims of
  one user and coin are at least a cooldown apart in every reachable state, and that the
  cooldown listing agrees with what a claim would answer.
\<close>

datatype FaucetError =
  FaucetDb db_error
| FaucetHouse HouseError
| FaucetWalletNotFound
| Cooldown int

record ClaimResult =
  cr_amount :: nat
  cr_coin :: Coin
  cr_next_claim_at :: int
  cr_points_awarded :: bool
  cr_season_active :: bool

record FaucetCooldownRow =
  cd_coin :: string
  cd_next_claim_at :: "int option"

definition cooldown_micros :: "int \<Rightarrow> int" where
  "cooldown_micros minutes = minutes * 60000000"

text \<open>\<open>MAX(created_at)\<close>, or the newest row by \<open>created_at\<close>, of one user and coin.\<close>

definition last_claim :: "db \<Rightarrow> uuid \<Rightarrow> Coin \<Rightarrow> int option" where
  "last_claim s user coin =
     (case map fc_created_at (filter (\<lambda>r. fc_user r = user \<and> fc_coin r = coin) (faucet_claims s)) of
        [] \<Rightarrow> None | x # xs \<Rightarrow> Some (fold max xs x))"

definition cooldowns :: "db \<Rightarrow> uuid \<Rightarrow> int \<Rightarrow> FaucetCooldownRow list" where
  "cooldowns s user minutes =
     map (\<lambda>coin. \<lparr>cd_coin = coin_str coin,
        cd_next_claim_at =
          (case last_claim s user coin of
             None \<Rightarrow> None
           | Some t \<Rightarrow> if clock s < t + cooldown_micros minutes
                then Some (t + cooldown_micros minutes) else None)\<rparr>) COINS"

definition faucet_ip_lock_key :: "(string \<Rightarrow> int) \<Rightarrow> string \<Rightarrow> Coin \<Rightarrow> int" where
  "faucet_ip_lock_key hash ip coin = hash (''faucet:'' @ coin_str coin @ '':'' @ ip)"

definition faucet_error :: "LedgerError \<Rightarrow> FaucetError" where
  "faucet_error e = FaucetDb (Protocol (ledger_error_str e))"

definition insert_faucet_claim :: "uuid \<Rightarrow> Coin \<Rightarrow> int \<Rightarrow> string \<Rightarrow> (db_error, uuid) op" where
  "insert_faucet_claim user coin amount ip =
     tx_bind (check_numeric amount) (\<lambda>_.
     tx_bind (check_user_fk ''faucet_claims'' user) (\<lambda>_.
     tx_bind fresh_uuid (\<lambda>cid.
     tx_bind (tx_modify (\<lambda>s. s\<lparr>faucet_claims := faucet_claims s @
       [\<lparr>fc_id = cid, fc_user = user, fc_coin = coin, fc_amount = amount, fc_ip = ip,
         fc_created_at = clock s\<rparr>]\<rparr>)) (\<lambda>_.
     tx_return cid))))"

definition faucet_credit :: "uuid \<Rightarrow> Coin \<Rightarrow> int \<Rightarrow> uuid \<Rightarrow> LedgerCreditInput" where
  "faucet_credit wid coin amount cid =
     simple_input wid amount FAUCET (Some cid) (Some ''FaucetClaim'')
       (Some (''Faucet reward '' @ coin_str coin))"

definition payout_to :: "Coin \<Rightarrow> string" where
  "payout_to coin = ''Faucet payout '' @ coin_str coin"

text \<open>The locks and the cooldown check, then the payout.\<close>

definition claim_guard ::
    "(string \<Rightarrow> int) \<Rightarrow> uuid \<Rightarrow> Coin \<Rightarrow> string \<Rightarrow> int \<Rightarrow> (FaucetError, uuid) op" where
  "claim_guard hash user coin ip minutes =
     tx_bind (take_lock (AdvisoryLock (faucet_ip_lock_key hash ip coin))) (\<lambda>_.
     tx_bind (select_wallet user coin PERSONAL) (\<lambda>found.
     tx_bind (tx_ok_or FaucetWalletNotFound found) (\<lambda>wid.
     tx_bind (tx_map_err faucet_error (lock_wallet wid)) (\<lambda>_.
     tx_bind (tx_gets (\<lambda>s. last_claim s user coin)) (\<lambda>last_by_user.
     tx_bind now (\<lambda>ts.
     tx_bind (case last_by_user of
         None \<Rightarrow> tx_return ()
       | Some t \<Rightarrow> tx_assert (t + cooldown_micros minutes \<le> ts) (Cooldown (t + cooldown_micros minutes))) (\<lambda>_.
     tx_return wid)))))))"

definition claim_pay ::
    "uuid \<Rightarrow> uuid \<Rightarrow> Coin \<Rightarrow> string \<Rightarrow> int \<Rightarrow> (FaucetError, ClaimResult) op" where
  "claim_pay wid user coin ip minutes =
     tx_bind (tx_map_err FaucetDb (insert_faucet_claim user coin
       (int (faucet_reward (coin_config coin))) ip)) (\<lambda>cid.
     tx_bind (tx_map_err FaucetHouse (debit_house coin (int (faucet_reward (coin_config coin))) FAUCET cid
       ''FaucetClaim'' (payout_to coin))) (\<lambda>_.
     tx_bind (tx_map_err faucet_error (apply_ledger_entry
       (faucet_credit wid coin (int (faucet_reward (coin_config coin))) cid))) (\<lambda>_.
     tx_bind (tx_map_err FaucetDb (award_airdrop_points_tx user 50 0 ''FAUCET_CLAIM'')) (\<lambda>award.
     tx_bind now (\<lambda>ts.
     tx_return
       \<lparr>cr_amount = faucet_reward (coin_config coin), cr_coin = coin,
        cr_next_claim_at = ts + cooldown_micros minutes, cr_points_awarded = (award = Awarded),
        cr_season_active = (award = Awarded)\<rparr>)))))"

definition claim_tx ::
    "(string \<Rightarrow> int) \<Rightarrow> uuid \<Rightarrow> Coin \<Rightarrow> string \<Rightarrow> int \<Rightarrow> (FaucetError, ClaimResult) op" where
  "claim_tx hash user coin ip minutes =
     tx_bind (claim_guard hash user coin ip minutes) (\<lambda>wid.
     claim_pay wid user coin ip minutes)"

definition claim ::
    "(string \<Rightarrow> int) \<Rightarrow> uuid \<Rightarrow> Coin \<Rightarrow> string \<Rightarrow> int \<Rightarrow> db \<Rightarrow> (FaucetError + ClaimResult) \<times> db" where
  "claim hash user coin ip minutes = commit_tx release_locks (claim_tx hash user coin ip minutes)"

section \<open>A successful claim\<close>

definition claim_row :: "uuid \<Rightarrow> uuid \<Rightarrow> Coin \<Rightarrow> int \<Rightarrow> string \<Rightarrow> int \<Rightarrow> faucet_claim_row" where
  "claim_row cid user coin amount ip ts =
     \<lparr>fc_id = cid, fc_user = user, fc_coin = coin, fc_amount = amount, fc_ip = ip, fc_created_at = ts\<rparr>"

definition faucet_posts :: "uuid \<Rightarrow> uuid \<Rightarrow> Coin \<Rightarrow> uuid \<Rightarrow> LedgerCreditInput list" where
  "faucet_posts wid hw coin cid =
     [simple_input hw (- 1) FAUCET (Some cid) (Some ''FaucetClaim'') (Some (payout_to coin)),
      faucet_credit wid coin 1 cid]"

lemma insert_faucet_claim_Inr [tx_simps]:
  "insert_faucet_claim user coin amount ip s = Inr (cid, s') \<longleftrightarrow>
     fits_numeric amount \<and> (\<exists>r\<in>set (users s). u_id r = user) \<and> cid = next_id s \<and>
     s' = s\<lparr>next_id := Suc (next_id s),
       faucet_claims := faucet_claims s @ [claim_row (next_id s) user coin amount ip (clock s)]\<rparr>"
  by (simp add: insert_faucet_claim_def tx_simps claim_row_def)

lemma cooldown_check_Inr [tx_simps]:
  "(case l of None \<Rightarrow> tx_return () | Some t \<Rightarrow> tx_assert (P t) (E t)) s = Inr (u, s') \<longleftrightarrow>
     (\<forall>t. l = Some t \<longrightarrow> P t) \<and> s' = s"
  by (cases l) (auto simp: tx_simps)

lemma claim_guard_Inr:
  assumes "claim_guard hash user coin ip minutes s = Inr (wid, s')"
  shows "wallet_id_of s user coin PERSONAL = Some wid \<and>
    (\<forall>l. last_claim s user coin = Some l \<longrightarrow> l + cooldown_micros minutes \<le> clock s) \<and>
    (\<exists>l. s' = s\<lparr>row_locks := l\<rparr>)"
proof -
  have same: "wallet_id_of (s\<lparr>row_locks := x\<rparr>) u c k = wallet_id_of s u c k"
    "last_claim (s\<lparr>row_locks := x\<rparr>) u c = last_claim s u c" for x u c k
    by (simp_all add: wallet_id_of_def last_claim_def)
  show ?thesis using assms
    unfolding claim_guard_def by (cases "find_wallet s wid") (auto simp: tx_simps same)
qed

lemma claim_pay_Inr:
  assumes "claim_pay wid user coin ip minutes s = Inr (res, s')"
  shows "\<exists>hw t. house_wallet_id s HOUSE coin = Inr hw \<and>
    t = s\<lparr>next_id := Suc (next_id s),
      faucet_claims := faucet_claims s @ [claim_row (next_id s) user coin 1 ip (clock s)]\<rparr> \<and>
    can_post_all (faucet_posts wid hw coin (next_id s)) t \<and>
    (\<exists>x y. s' = (post_all (faucet_posts wid hw coin (next_id s)) t)\<lparr>point_logs := x, user_points := y\<rparr>) \<and>
    cr_amount res = 1 \<and> cr_next_claim_at res = clock s + cooldown_micros minutes"
proof -
  let ?t = "s\<lparr>next_id := Suc (next_id s),
    faucet_claims := faucet_claims s @ [claim_row (next_id s) user coin 1 ip (clock s)]\<rparr>"
  have house: "house_wallet_id ?t HOUSE coin = house_wallet_id s HOUSE coin"
    by (rule house_wallet_id_cong) simp_all
  from assms obtain hw award where
    hw: "house_wallet_id s HOUSE coin = Inr hw" and
    cp: "can_post_all (faucet_posts wid hw coin (next_id s)) ?t" and
    aw: "award_airdrop_points_tx user 50 0 ''FAUCET_CLAIM''
      (post_all (faucet_posts wid hw coin (next_id s)) ?t) = Inr (award, s')" and
    res: "cr_amount res = 1" "cr_next_claim_at res = clock s' + cooldown_micros minutes"
    unfolding claim_pay_def by (auto simp: tx_simps house faucet_posts_def)
  from award_frame [OF aw] obtain x y where
    s': "s' = (post_all (faucet_posts wid hw coin (next_id s)) ?t)\<lparr>point_logs := x, user_points := y\<rparr>"
    by blast
  then have nxt: "cr_next_claim_at res = clock s + cooldown_micros minutes" using res(2) by simp
  from s' have ex: "\<exists>x y. s' = (post_all (faucet_posts wid hw coin (next_id s)) ?t)
      \<lparr>point_logs := x, user_points := y\<rparr>"
    by (intro exI)
  show ?thesis
    by (rule exI [of _ hw], rule exI [of _ ?t], intro conjI) (fact hw refl cp ex res(1) nxt)+
qed

lemma fold_max_ge: "x \<le> fold max xs x \<and> (\<forall>y\<in>set xs. y \<le> fold max xs (x :: int))"
proof (induction xs arbitrary: x)
  case (Cons z zs)
  have "max z x \<le> fold max zs (max z x)" using Cons.IH by blast
  with Cons.IH [of "max z x"] show ?case by auto
qed simp

lemma last_claim_max:
  assumes "r \<in> set (faucet_claims s)" and "fc_user r = user" and "fc_coin r = coin"
  shows "\<exists>l. last_claim s user coin = Some l \<and> fc_created_at r \<le> l"
proof -
  let ?xs = "map fc_created_at (filter (\<lambda>r. fc_user r = user \<and> fc_coin r = coin) (faucet_claims s))"
  have "fc_created_at r \<in> set ?xs" using assms by auto
  then obtain x xs where "?xs = x # xs" by (cases ?xs) auto
  with \<open>fc_created_at r \<in> set ?xs\<close> fold_max_ge [of x xs] show ?thesis
    unfolding last_claim_def by auto
qed

lemma claim_success:
  assumes "claim hash user coin ip minutes s = (Inr res, s')"
  obtains wid hw l t where "wallet_id_of s user coin PERSONAL = Some wid"
    and "\<forall>x. last_claim s user coin = Some x \<longrightarrow> x + cooldown_micros minutes \<le> clock s"
    and "house_wallet_id s HOUSE coin = Inr hw"
    and "t = s\<lparr>row_locks := l, next_id := Suc (next_id s),
      faucet_claims := faucet_claims s @ [claim_row (next_id s) user coin 1 ip (clock s)]\<rparr>"
    and "can_post_all (faucet_posts wid hw coin (next_id s)) t"
    and "wallets s' = wallets t" and "ledger s' = ledger (post_all (faucet_posts wid hw coin (next_id s)) t)"
    and "faucet_claims s' = faucet_claims t" and "next_id s' = next_id t + 2" and "users s' = users t"
    and "clock s' = clock s" and "cr_amount res = 1"
    and "cr_next_claim_at res = clock s + cooldown_micros minutes"
proof -
  from assms obtain s1 s2 wid where g: "claim_guard hash user coin ip minutes s = Inr (wid, s1)"
    and p: "claim_pay wid user coin ip minutes s1 = Inr (res, s2)" and s': "s' = release_locks s2"
    by (auto simp: claim_def claim_tx_def commit_tx_success tx_simps)
  from claim_guard_Inr [OF g] obtain l where
    guard: "wallet_id_of s user coin PERSONAL = Some wid"
    "\<forall>x. last_claim s user coin = Some x \<longrightarrow> x + cooldown_micros minutes \<le> clock s"
    and s1: "s1 = s\<lparr>row_locks := l\<rparr>" by blast
  have house: "house_wallet_id s1 HOUSE coin = house_wallet_id s HOUSE coin"
    by (rule house_wallet_id_cong) (simp_all add: s1)
  from claim_pay_Inr [OF p, unfolded house] obtain hw t x y where hw: "house_wallet_id s HOUSE coin = Inr hw"
    and t: "t = s1\<lparr>next_id := Suc (next_id s1), faucet_claims := faucet_claims s1 @
      [claim_row (next_id s1) user coin 1 ip (clock s1)]\<rparr>"
    and cp: "can_post_all (faucet_posts wid hw coin (next_id s1)) t"
    and s2: "s2 = (post_all (faucet_posts wid hw coin (next_id s1)) t)\<lparr>point_logs := x, user_points := y\<rparr>"
    and res: "cr_amount res = 1" "cr_next_claim_at res = clock s1 + cooldown_micros minutes"
    by (elim exE conjE) rule
  show thesis
    by (rule that [OF guard hw, of t l])
      (use t cp s' s2 res s1 in \<open>simp_all add: release_locks_def faucet_posts_def\<close>)
qed

section \<open>Properties\<close>

text \<open>
  A claim pays exactly one unit out of HOUSE: when it succeeds, the user's previous claim of
  the coin is at least a cooldown old, one unit moved from the HOUSE wallet of the coin to the
  user's wallet and nothing else moved, the claim is recorded at the current instant, every
  coin's total is conserved and the books stay in order; when it fails nothing changes.
\<close>

theorem faucet_claim_pays_from_house:
  assumes "claim hash user coin ip minutes s = (r, s')" and "books_ok s"
  shows "books_ok s' \<and> (\<forall>c. coin_total s' c = coin_total s c) \<and>
    (case r of
       Inl e \<Rightarrow> s' = s
     | Inr res \<Rightarrow>
         (\<forall>x\<in>set (faucet_claims s). fc_user x = user \<and> fc_coin x = coin \<longrightarrow>
            fc_created_at x + cooldown_micros minutes \<le> clock s) \<and>
         (\<exists>wid hw. wid \<noteq> hw \<and> wallet_id_of s user coin PERSONAL = Some wid \<and>
            house_wallet_id s HOUSE coin = Inr hw \<and>
            (\<forall>w. wallet_balance s' w =
               wallet_balance s w + (if w = wid then 1 else 0) - (if w = hw then 1 else 0))) \<and>
         (\<exists>cid. faucet_claims s' = faucet_claims s @ [claim_row cid user coin 1 ip (clock s)]))"
proof (cases r)
  case (Inl e)
  with assms show ?thesis by (auto simp: claim_def commit_tx_failure)
next
  case (Inr res)
  with assms(1) have run: "claim hash user coin ip minutes s = (Inr res, s')" by simp
  obtain wid hw l t where wid: "wallet_id_of s user coin PERSONAL = Some wid"
    and cd: "\<forall>x. last_claim s user coin = Some x \<longrightarrow> x + cooldown_micros minutes \<le> clock s"
    and hw: "house_wallet_id s HOUSE coin = Inr hw"
    and t: "t = s\<lparr>row_locks := l, next_id := Suc (next_id s),
      faucet_claims := faucet_claims s @ [claim_row (next_id s) user coin 1 ip (clock s)]\<rparr>"
    and cp: "can_post_all (faucet_posts wid hw coin (next_id s)) t"
    and s': "wallets s' = wallets t" "ledger s' = ledger (post_all (faucet_posts wid hw coin (next_id s)) t)"
      "faucet_claims s' = faucet_claims t" "next_id s' = next_id t + 2"
    by (rule claim_success [OF run])
  have wf: "wallets_wf s" using assms(2) by (simp add: books_ok_def)
  have same: "wallets t = wallets s" "ledger t = ledger s" using t by simp_all
  have bt: "books_ok t" using assms(2) by (rule books_ok_cong [rotated -1]) (simp_all add: t)
  have books: "books_ok s'"
    using books_ok_post_all [OF cp bt] by (rule books_ok_cong [rotated -1])
      (simp_all add: s' faucet_posts_def)
  have bal0: "wallet_balance t w = wallet_balance s w" for w using same by (intro wallet_balance_frame)
  have bal: "wallet_balance s' w = wallet_balance s w + (if w = wid then 1 else 0) - (if w = hw then 1 else 0)" for w
    unfolding wallet_balance_frame [OF s'(2)] wallet_balance_post_all bal0
    by (simp add: faucet_posts_def faucet_credit_def)
  have cw: "coin_wallets t c = coin_wallets s c" for c using same by (simp add: coin_wallets_def)
  have total: "coin_total s' c = coin_total s c" for c
  proof -
    have "coin_total s' c = coin_total (post_all (faucet_posts wid hw coin (next_id s)) t) c"
      using s' by (intro coin_total_cong) simp_all
    also have "\<dots> = coin_total t c"
      using account_coin [OF wf wid] house_coin [OF wf hw]
      by (simp add: coin_total_post_all [OF cp]) (simp add: faucet_posts_def faucet_credit_def cw)
    also have "\<dots> = coin_total s c" using same by (intro coin_total_cong)
    finally show ?thesis .
  qed
  have ne: "wid \<noteq> hw" using house_user_wallets_differ [OF wf wid hw] by simp
  have spaced: "fc_created_at x + cooldown_micros minutes \<le> clock s"
    if "x \<in> set (faucet_claims s)" "fc_user x = user" "fc_coin x = coin" for x
    using last_claim_max [OF that] cd by force
  have rows: "faucet_claims s' = faucet_claims s @ [claim_row (next_id s) user coin 1 ip (clock s)]"
    by (simp add: s' t)
  show ?thesis
    unfolding Inr sum.case
    using books total ne wid hw bal spaced rows by blast
qed

text \<open>Serving requests one after the other, while the clock may jump.\<close>

inductive faucet_step :: "int \<Rightarrow> db \<Rightarrow> db \<Rightarrow> bool" for minutes where
  step_serve: "claim hash user coin ip minutes s = (r, s') \<Longrightarrow> faucet_step minutes s s'"
| step_clock: "faucet_step minutes s (s\<lparr>clock := ts\<rparr>)"

definition claims_spaced :: "int \<Rightarrow> db \<Rightarrow> bool" where
  "claims_spaced minutes s \<longleftrightarrow>
     sorted_wrt (\<lambda>x y. fc_user x = fc_user y \<and> fc_coin x = fc_coin y \<longrightarrow>
       fc_created_at x + cooldown_micros minutes \<le> fc_created_at y) (faucet_claims s)"

lemma claims_spaced_step:
  assumes "faucet_step minutes s s'" and "claims_spaced minutes s"
  shows "claims_spaced minutes s'"
  using assms
proof (induction rule: faucet_step.induct)
  case (step_serve hash user coin ip s r s')
  show ?case
  proof (cases r)
    case (Inl e)
    with step_serve show ?thesis by (auto simp: claim_def commit_tx_failure)
  next
    case (Inr res)
    with step_serve have run: "claim hash user coin ip minutes s = (Inr res, s')" by simp
    show ?thesis
    proof (rule claim_success [OF run])
      fix wid hw l t
      assume cd: "\<forall>x. last_claim s user coin = Some x \<longrightarrow> x + cooldown_micros minutes \<le> clock s"
        and t: "t = s\<lparr>row_locks := l, next_id := Suc (next_id s),
          faucet_claims := faucet_claims s @ [claim_row (next_id s) user coin 1 ip (clock s)]\<rparr>"
        and s': "faucet_claims s' = faucet_claims t"
      have "fc_created_at x + cooldown_micros minutes \<le> clock s"
        if "x \<in> set (faucet_claims s)" "fc_user x = user" "fc_coin x = coin" for x
        using last_claim_max [OF that] cd by force
      with step_serve.prems show ?thesis
        by (simp add: claims_spaced_def s' t sorted_wrt_append claim_row_def)
    qed
  qed
qed (simp add: claims_spaced_def)

text \<open>
  C25. The cooldown holds in every reachable state, whatever the clock does: serving claims in any
  order, for any users and coins, two claims of the same user and coin are always at least a
  cooldown apart.
\<close>

theorem faucet_cooldown_invariant:
  assumes "(faucet_step minutes)\<^sup>*\<^sup>* s s'" and "faucet_claims s = []"
  shows "claims_spaced minutes s'"
  using assms
proof (induction rule: rtranclp_induct)
  case base
  then show ?case by (simp add: claims_spaced_def)
next
  case (step t u)
  then show ?case by (simp add: claims_spaced_step)
qed

text \<open>
  The cooldown listing tells the truth: for a user with a wallet of the coin, a claim is
  refused with exactly the instant listed, and a coin listed as ready is not refused for its
  cooldown.
\<close>

theorem cooldowns_agree_with_claim:
  assumes "wallet_id_of s user coin PERSONAL = Some wid"
    and "row \<in> set (cooldowns s user minutes)" and "cd_coin row = coin_str coin"
  shows "(case cd_next_claim_at row of
      Some t \<Rightarrow> claim hash user coin ip minutes s = (Inl (Cooldown t), s)
    | None \<Rightarrow> \<forall>t. fst (claim hash user coin ip minutes s) \<noteq> Inl (Cooldown t))"
proof -
  let ?n = "case last_claim s user coin of None \<Rightarrow> None
    | Some t \<Rightarrow> if clock s < t + cooldown_micros minutes then Some (t + cooldown_micros minutes) else None"
  have row: "cd_next_claim_at row = ?n"
    using assms(2,3) by (auto simp: cooldowns_def)
  have same: "wallet_id_of (s\<lparr>row_locks := x\<rparr>) u c k = wallet_id_of s u c k"
    "last_claim (s\<lparr>row_locks := x\<rparr>) u c = last_claim s u c" for x u c k
    by (simp_all add: wallet_id_of_def last_claim_def)
  show ?thesis
  proof (cases ?n)
    case (Some t)
    then obtain l where l: "last_claim s user coin = Some l" "clock s < l + cooldown_micros minutes"
      "t = l + cooldown_micros minutes" by (auto split: option.splits if_splits)
    then have "claim_guard hash user coin ip minutes s = Inl (Cooldown t)"
      using assms(1)
      by (simp add: claim_guard_def take_lock_def select_wallet_def lock_wallet_def now_def tx_defs same
        split: option.splits)
    then have "claim hash user coin ip minutes s = (Inl (Cooldown t), s)"
      by (simp add: claim_def claim_tx_def commit_tx_Inl tx_bind_stop)
    with Some row show ?thesis by simp
  next
    case None
    then have ready: "\<forall>l. last_claim s user coin = Some l \<longrightarrow> l + cooldown_micros minutes \<le> clock s"
      by (auto split: option.splits if_splits)
    then have "\<exists>s1. claim_guard hash user coin ip minutes s = Inr (wid, s1)"
      using assms(1)
      by (auto simp: claim_guard_def take_lock_def select_wallet_def lock_wallet_def now_def tx_defs same
        split: option.splits)
    then obtain s1 where g: "claim_guard hash user coin ip minutes s = Inr (wid, s1)" by blast
    have "claim_pay wid user coin ip minutes s1 \<noteq> Inl (Cooldown t)" for t
      by (auto simp: claim_pay_def tx_bind_Inl tx_map_err_Inl now_def tx_gets_def tx_return_def faucet_error_def)
    then have "fst (claim hash user coin ip minutes s) \<noteq> Inl (Cooldown t)" for t
      using g by (auto simp: claim_def claim_tx_def commit_tx_def tx_bind_step split: sum.splits)
    with None row show ?thesis by simp
  qed
qed

definition faucet_demo :: db where
  "faucet_demo = append_entries [simple_input 2 5000000 DEPOSIT None None None]
     (empty_db\<lparr>next_id := 100, clock := 7200000000,
        users := [house_user, \<lparr>u_id = 7, u_email = ''a'', u_username = ''a'', u_password_hash = []\<rparr>],
        wallets := [demo_wallet 2 1 Btc HOUSE, demo_wallet 4 7 Btc PERSONAL],
        faucet_claims := [claim_row 9 7 Btc 1 ''ip'' 3600000000]\<rparr>)"

lemmas faucet_demo_defs = faucet_demo_def house_user_def demo_wallet_def empty_db_def
  simple_input_def entry_of_def claim_row_def

lemma faucet_demo_ok: "books_ok faucet_demo"
  by (simp add: faucet_demo_defs books_ok_def wallets_wf_def entries_owned_def references_unique_def
      solvent_def wallet_balance_def List.map_filter_simps reference_of_def key_of_def)

lemma faucet_demo_run: "\<exists>res. fst (claim (\<lambda>_. 0) 7 Btc ''ip'' 60 faucet_demo) = Inr res"
  by (simp add: faucet_demo_defs claim_def claim_tx_def claim_guard_def claim_pay_def take_lock_def
      select_wallet_def wallet_id_of_def lock_wallet_def find_wallet_def last_claim_def now_def
      cooldown_micros_def insert_faucet_claim_def check_numeric_def fits_numeric_def
      numeric_limit_def check_user_fk_def fresh_uuid_def debit_house_def get_house_wallet_id_def
      house_wallet_id_def find_user_by_email_def apply_ledger_entry_def get_wallet_balance_def
      wallet_balance_def insert_ledger_entry_def reference_conflict_def key_conflict_def
      faucet_credit_def award_airdrop_points_tx_def get_active_season_def commit_tx_def tx_defs)

theorem faucet_claim_pays_from_house_witness:
  "\<exists>res s'. claim (\<lambda>_. 0) 7 Btc ''ip'' 60 faucet_demo = (Inr res, s') \<and> books_ok s' \<and>
     coin_total s' Btc = coin_total faucet_demo Btc"
proof -
  obtain res s' where run: "claim (\<lambda>_. 0) 7 Btc ''ip'' 60 faucet_demo = (Inr res, s')"
    using faucet_demo_run by (metis prod.collapse)
  from faucet_claim_pays_from_house [OF run faucet_demo_ok] run show ?thesis by blast
qed

theorem faucet_cooldown_invariant_witness:
  "claims_spaced 60 (snd (claim (\<lambda>_. 0) 7 Btc ''ip'' 60
     (snd (claim (\<lambda>_. 0) 7 Btc ''ip'' 60 (faucet_demo\<lparr>faucet_claims := []\<rparr>)))))"
proof (rule faucet_cooldown_invariant)
  have one: "faucet_step 60 s (snd (claim (\<lambda>_. 0) 7 Btc ''ip'' 60 s))" for s
    by (rule step_serve [of _ _ _ _ _ _ "fst (claim (\<lambda>_. 0) 7 Btc ''ip'' 60 s)"]) simp
  show "(faucet_step 60)\<^sup>*\<^sup>* (faucet_demo\<lparr>faucet_claims := []\<rparr>)
      (snd (claim (\<lambda>_. 0) 7 Btc ''ip'' 60 (snd (claim (\<lambda>_. 0) 7 Btc ''ip'' 60 (faucet_demo\<lparr>faucet_claims := []\<rparr>)))))"
    using one by (meson rtranclp.rtrancl_into_rtrancl rtranclp.rtrancl_refl)
qed simp

theorem cooldowns_agree_with_claim_witness:
  "claim (\<lambda>_. 0) 7 Btc ''ip'' 90 faucet_demo = (Inl (Cooldown 9000000000), faucet_demo)"
proof -
  let ?row = "\<lparr>cd_coin = coin_str Btc, cd_next_claim_at = Some 9000000000\<rparr>"
  have "wallet_id_of faucet_demo 7 Btc PERSONAL = Some 4"
    by (simp add: faucet_demo_defs wallet_id_of_def)
  moreover have "?row \<in> set (cooldowns faucet_demo 7 90)"
    by (simp add: cooldowns_def COINS_def faucet_demo_defs last_claim_def cooldown_micros_def)
  ultimately show ?thesis
    using cooldowns_agree_with_claim [of faucet_demo 7 Btc 4 ?row 90] by simp
qed

end
