(* ===== verification/Crypto.thy ===== *)
theory Crypto
  imports Text
begin

text \<open>
  \<open>crates/crypto/src\<close>: the secrets service (\<open>secrets.rs\<close>), sealed personal data (\<open>pii.rs\<close>), the
  comparison helpers (\<open>ct.rs\<close>) and the bootstrap of the hot mnemonic (\<open>hot_mnemonic.rs\<close>).

  The primitives of other crates are the fields of \<open>primitives\<close>: AES-256-GCM (sealing returns
  the ciphertext with its tag appended), base64, HKDF, HMAC-SHA256, SHA-256 and hex. The
  random nonce is an argument. \<open>aead_ok\<close> and \<open>base64_ok\<close> state what their documentation
  promises; lemmas that need them assume them.
\<close>

record primitives =
  gcm_encrypt :: "string \<Rightarrow> string \<Rightarrow> string \<Rightarrow> string \<Rightarrow> string" \<comment> \<open>key, nonce, aad, message\<close>
  gcm_decrypt :: "string \<Rightarrow> string \<Rightarrow> string \<Rightarrow> string \<Rightarrow> string option" \<comment> \<open>key, nonce, aad, sealed\<close>
  b64_encode :: "string \<Rightarrow> string"
  b64_decode :: "string \<Rightarrow> string option"
  hkdf_expand :: "string \<Rightarrow> string \<Rightarrow> string" \<comment> \<open>master, info\<close>
  hmac_sha256 :: "string \<Rightarrow> string \<Rightarrow> string" \<comment> \<open>key, message\<close>
  sha256 :: "string \<Rightarrow> string"
  hex_encode :: "string \<Rightarrow> string"
  hex_decode :: "string \<Rightarrow> string option"

definition IV_LEN :: nat where
  "IV_LEN = 12"

definition TAG_LEN :: nat where
  "TAG_LEN = 16"

datatype CryptoError = InvalidMasterKeyLength | InvalidBase64 | PayloadTooShort | DecryptionFailed

record SecretsService =
  aes_key :: string
  hmac_key :: string
  refresh_hmac_key :: string
  webhook_hmac_key :: string
  email_hmac_key :: string
  ip_hmac_key :: string

section \<open>UTF-8\<close>

text \<open>\<open>String::from_utf8\<close>: the well-formed byte sequences of the Unicode standard.\<close>

definition byte_in :: "nat \<Rightarrow> nat \<Rightarrow> char \<Rightarrow> bool" where
  "byte_in lo hi c \<longleftrightarrow> lo \<le> (of_char c :: nat) \<and> (of_char c :: nat) \<le> hi"

fun utf8_valid :: "string \<Rightarrow> bool" where
  "utf8_valid [] = True"
| "utf8_valid (a # cs) =
    (if byte_in 0 0x7F a then utf8_valid cs
     else case cs of [] \<Rightarrow> False | b # cs2 \<Rightarrow>
       if byte_in 0xC2 0xDF a then byte_in 0x80 0xBF b \<and> utf8_valid cs2
       else case cs2 of [] \<Rightarrow> False | c # cs3 \<Rightarrow>
         if byte_in 0xE0 0xEF a then
           byte_in (if byte_in 0xE0 0xE0 a then 0xA0 else 0x80)
             (if byte_in 0xED 0xED a then 0x9F else 0xBF) b \<and>
           byte_in 0x80 0xBF c \<and> utf8_valid cs3
         else case cs3 of [] \<Rightarrow> False | d # cs4 \<Rightarrow>
           byte_in 0xF0 0xF4 a \<and>
           byte_in (if byte_in 0xF0 0xF0 a then 0x90 else 0x80)
             (if byte_in 0xF4 0xF4 a then 0x8F else 0xBF) b \<and>
           byte_in 0x80 0xBF c \<and> byte_in 0x80 0xBF d \<and> utf8_valid cs4)"

section \<open>The secrets service\<close>

definition AES_INFO :: string where "AES_INFO = ''bitcosats:aes-256-gcm:v1''"
definition HMAC_INFO :: string where "HMAC_INFO = ''bitcosats:hmac-sha256:v1''"
definition REFRESH_HMAC_INFO :: string where
  "REFRESH_HMAC_INFO = ''bitcosats:refresh-token-hmac:v1''"
definition WEBHOOK_HMAC_INFO :: string where "WEBHOOK_HMAC_INFO = ''bitcosats:webhook:v1''"
definition EMAIL_INDEX_INFO :: string where "EMAIL_INDEX_INFO = ''bitcosats:email-index:v1''"
definition IP_HMAC_INFO :: string where "IP_HMAC_INFO = ''bitcosats:ip-hmac:v1''"
definition REFRESH_HASH_PREFIX :: string where "REFRESH_HASH_PREFIX = ''v2:''"

definition from_hex :: "primitives \<Rightarrow> string \<Rightarrow> CryptoError + SecretsService" where
  "from_hex P master_key_hex =
     (case hex_decode P master_key_hex of
        None \<Rightarrow> Inl InvalidMasterKeyLength
      | Some master \<Rightarrow>
          if length master \<noteq> 32 then Inl InvalidMasterKeyLength
          else Inr \<lparr>aes_key = hkdf_expand P master AES_INFO,
            hmac_key = hkdf_expand P master HMAC_INFO,
            refresh_hmac_key = hkdf_expand P master REFRESH_HMAC_INFO,
            webhook_hmac_key = hkdf_expand P master WEBHOOK_HMAC_INFO,
            email_hmac_key = hkdf_expand P master EMAIL_INDEX_INFO,
            ip_hmac_key = hkdf_expand P master IP_HMAC_INFO\<rparr>)"

definition encrypt_with_aad ::
    "primitives \<Rightarrow> SecretsService \<Rightarrow> string \<Rightarrow> string \<Rightarrow> string \<Rightarrow> string" where
  "encrypt_with_aad P ss iv plaintext aad =
     (let ct_with_tag = gcm_encrypt P (aes_key ss) iv aad plaintext;
          ct = take (length ct_with_tag - TAG_LEN) ct_with_tag;
          tag = drop (length ct_with_tag - TAG_LEN) ct_with_tag
      in b64_encode P (iv @ tag @ ct))"

definition encrypt :: "primitives \<Rightarrow> SecretsService \<Rightarrow> string \<Rightarrow> string \<Rightarrow> string" where
  "encrypt P ss iv plaintext = encrypt_with_aad P ss iv plaintext []"

definition open_payload ::
    "primitives \<Rightarrow> SecretsService \<Rightarrow> string \<Rightarrow> string \<Rightarrow> CryptoError + string" where
  "open_payload P ss payload aad =
     (case b64_decode P payload of
        None \<Rightarrow> Inl InvalidBase64
      | Some buf \<Rightarrow>
          if length buf < IV_LEN + TAG_LEN then Inl PayloadTooShort
          else let iv = take IV_LEN buf; rest = drop IV_LEN buf;
                   tag = take TAG_LEN rest; ct = drop TAG_LEN rest
            in case gcm_decrypt P (aes_key ss) iv aad (ct @ tag) of
                 None \<Rightarrow> Inl DecryptionFailed
               | Some plaintext \<Rightarrow>
                   if utf8_valid plaintext then Inr plaintext else Inl DecryptionFailed)"

definition decrypt :: "primitives \<Rightarrow> SecretsService \<Rightarrow> string \<Rightarrow> CryptoError + string" where
  "decrypt P ss payload = open_payload P ss payload []"

definition decrypt_with_aad ::
    "primitives \<Rightarrow> SecretsService \<Rightarrow> string \<Rightarrow> string \<Rightarrow> CryptoError + string" where
  "decrypt_with_aad P ss payload aad =
     (case open_payload P ss payload aad of
        Inr plain \<Rightarrow> Inr plain
      | Inl e \<Rightarrow> if aad \<noteq> [] then open_payload P ss payload [] else Inl e)"

text \<open>\<open>ct_eq\<close> compares in constant time; its value is equality.\<close>

definition ct_eq_str :: "string \<Rightarrow> string \<Rightarrow> bool" where
  "ct_eq_str a b = (if length a \<noteq> length b then False else a = b)"

definition hmac_hex_with_key :: "primitives \<Rightarrow> string \<Rightarrow> string \<Rightarrow> string" where
  "hmac_hex_with_key P key input = hex_encode P (hmac_sha256 P key input)"

definition hmac_hex :: "primitives \<Rightarrow> SecretsService \<Rightarrow> string \<Rightarrow> string" where
  "hmac_hex P ss input = hmac_hex_with_key P (hmac_key ss) input"

definition verify_hmac_hex :: "primitives \<Rightarrow> SecretsService \<Rightarrow> string \<Rightarrow> string \<Rightarrow> bool" where
  "verify_hmac_hex P ss input expected = ct_eq_str (hmac_hex P ss input) expected"

definition sha256_hex :: "primitives \<Rightarrow> string \<Rightarrow> string" where
  "sha256_hex P input = hex_encode P (sha256 P input)"

definition refresh_token_hash :: "primitives \<Rightarrow> SecretsService \<Rightarrow> string \<Rightarrow> string" where
  "refresh_token_hash P ss token =
     REFRESH_HASH_PREFIX @ hmac_hex_with_key P (refresh_hmac_key ss) token"

definition refresh_token_lookup_hashes ::
    "primitives \<Rightarrow> SecretsService \<Rightarrow> string \<Rightarrow> string list" where
  "refresh_token_lookup_hashes P ss token = [refresh_token_hash P ss token, sha256_hex P token]"

definition webhook_signing_secret :: "primitives \<Rightarrow> SecretsService \<Rightarrow> string \<Rightarrow> string" where
  "webhook_signing_secret P ss merchant =
     hmac_hex_with_key P (webhook_hmac_key ss) (''merchant:'' @ merchant)"

definition sign_webhook_payload ::
    "primitives \<Rightarrow> SecretsService \<Rightarrow> string \<Rightarrow> string \<Rightarrow> string" where
  "sign_webhook_payload P ss merchant payload =
     hex_encode P (hmac_sha256 P (webhook_signing_secret P ss merchant) payload)"

definition verify_webhook_payload ::
    "primitives \<Rightarrow> SecretsService \<Rightarrow> string \<Rightarrow> string \<Rightarrow> string \<Rightarrow> bool" where
  "verify_webhook_payload P ss merchant payload expected =
     ct_eq_str (sign_webhook_payload P ss merchant payload) expected"

section \<open>Personal data\<close>

definition PII_PREFIX :: string where
  "PII_PREFIX = ''enc:v1:''"

definition ALLOWED_API_SCOPES :: "string list" where
  "ALLOWED_API_SCOPES = [''deposits'', ''send'', ''balance'', ''*'']"

definition starts_with :: "string \<Rightarrow> string \<Rightarrow> bool" where
  "starts_with p s \<longleftrightarrow> take (length p) s = p"

definition strip_prefix :: "string \<Rightarrow> string \<Rightarrow> string option" where
  "strip_prefix p s = (if starts_with p s then Some (drop (length p) s) else None)"

definition normalize_email :: "string \<Rightarrow> string" where
  "normalize_email email = map lower_char (trim email)"

definition email_index :: "primitives \<Rightarrow> SecretsService \<Rightarrow> string \<Rightarrow> string" where
  "email_index P ss email = hmac_hex_with_key P (email_hmac_key ss) (normalize_email email)"

definition ip_fingerprint :: "primitives \<Rightarrow> SecretsService \<Rightarrow> string \<Rightarrow> string" where
  "ip_fingerprint P ss ip = hmac_hex_with_key P (ip_hmac_key ss) (trim ip)"

definition seal_pii ::
    "primitives \<Rightarrow> SecretsService \<Rightarrow> string \<Rightarrow> string \<Rightarrow> string \<Rightarrow> string \<Rightarrow> string" where
  "seal_pii P ss iv kind row_key plaintext =
     (if plaintext = [] \<or> starts_with PII_PREFIX plaintext then plaintext
      else PII_PREFIX @ encrypt_with_aad P ss iv plaintext (kind @ '':'' @ row_key))"

definition open_pii :: "primitives \<Rightarrow> SecretsService \<Rightarrow> string \<Rightarrow> string \<Rightarrow> string \<Rightarrow> string" where
  "open_pii P ss kind row_key stored =
     (case strip_prefix PII_PREFIX stored of
        None \<Rightarrow> stored
      | Some ct \<Rightarrow>
          (case decrypt_with_aad P ss ct (kind @ '':'' @ row_key) of
             Inr plain \<Rightarrow> plain
           | Inl _ \<Rightarrow> stored))"

fun validate_api_scopes_from :: "string list \<Rightarrow> string + unit" where
  "validate_api_scopes_from [] = Inr ()"
| "validate_api_scopes_from (s # rest) =
     (if s \<notin> set ALLOWED_API_SCOPES then Inl (''unknown scope: '' @ s)
      else validate_api_scopes_from rest)"

definition validate_api_scopes :: "string list \<Rightarrow> string + unit" where
  "validate_api_scopes scopes =
     (if scopes = [] then Inl ''scopes must not be empty'' else validate_api_scopes_from scopes)"

section \<open>The hot mnemonic\<close>

datatype HotMnemonicError = PlaintextForbiddenInProduction | MnemonicDecrypt CryptoError

definition HOT_MNEMONIC_AAD :: string where
  "HOT_MNEMONIC_AAD = ''bitcosats:hot_mnemonic:v1''"

definition nonempty_trimmed :: "string option \<Rightarrow> string option" where
  "nonempty_trimmed v =
     (case v of None \<Rightarrow> None | Some s \<Rightarrow> if trim s = [] then None else Some (trim s))"

text \<open>
  The three environment variables are arguments (\<open>NODE_ENV\<close>, \<open>HOT_MNEMONIC_ENC\<close>,
  \<open>HOT_MNEMONIC\<close>); the second component of the answer is \<open>HOT_MNEMONIC\<close> after the call.
\<close>

definition bootstrap_hot_mnemonic ::
    "primitives \<Rightarrow> SecretsService \<Rightarrow> string option \<Rightarrow> string option \<Rightarrow> string option \<Rightarrow>
     (HotMnemonicError + string option) \<times> string option" where
  "bootstrap_hot_mnemonic P ss node_env enc_var plain_var =
     (let is_production =
            eq_ignore_case (case node_env of None \<Rightarrow> ''development'' | Some e \<Rightarrow> e) ''production'';
          enc = nonempty_trimmed enc_var;
          plain = nonempty_trimmed plain_var
      in case enc of
           Some ct \<Rightarrow>
             ((case decrypt_with_aad P ss ct HOT_MNEMONIC_AAD of
                 Inl e \<Rightarrow> Inl (MnemonicDecrypt e)
               | Inr mnemonic \<Rightarrow> Inr (Some mnemonic)),
              (if plain \<noteq> None then None else plain_var))
         | None \<Rightarrow>
             (case plain of
                None \<Rightarrow> (Inr None, plain_var)
              | Some m \<Rightarrow>
                  if is_production then (Inl PlaintextForbiddenInProduction, plain_var)
                  else (Inr (Some m), plain_var)))"

definition encrypt_hot_mnemonic ::
    "primitives \<Rightarrow> SecretsService \<Rightarrow> string \<Rightarrow> string \<Rightarrow> string" where
  "encrypt_hot_mnemonic P ss iv mnemonic = encrypt_with_aad P ss iv (trim mnemonic) HOT_MNEMONIC_AAD"

section \<open>What the primitives promise\<close>

text \<open>AES-GCM opens what it sealed, and appends a tag of sixteen bytes; base64 decodes what it encoded.\<close>

definition aead_ok :: "primitives \<Rightarrow> bool" where
  "aead_ok P \<longleftrightarrow> (\<forall>key iv aad m. length iv = IV_LEN \<longrightarrow>
     gcm_decrypt P key iv aad (gcm_encrypt P key iv aad m) = Some m \<and>
     length (gcm_encrypt P key iv aad m) = length m + TAG_LEN)"

definition base64_ok :: "primitives \<Rightarrow> bool" where
  "base64_ok P \<longleftrightarrow> (\<forall>x. b64_decode P (b64_encode P x) = Some x)"

text \<open>A sealed message does not open under other associated data.\<close>

definition rejects_aad ::
    "primitives \<Rightarrow> SecretsService \<Rightarrow> string \<Rightarrow> string \<Rightarrow> string \<Rightarrow> string \<Rightarrow> bool" where
  "rejects_aad P ss iv m aad other \<longleftrightarrow>
     gcm_decrypt P (aes_key ss) iv other (gcm_encrypt P (aes_key ss) iv aad m) = None"

section \<open>The envelope\<close>

lemma open_payload_encrypt:
  assumes "aead_ok P" and "base64_ok P" and "length iv = IV_LEN"
  shows "open_payload P ss (encrypt_with_aad P ss iv m aad) other =
    (case gcm_decrypt P (aes_key ss) iv other (gcm_encrypt P (aes_key ss) iv aad m) of
       None \<Rightarrow> Inl DecryptionFailed
     | Some p \<Rightarrow> if utf8_valid p then Inr p else Inl DecryptionFailed)"
proof -
  let ?c = "gcm_encrypt P (aes_key ss) iv aad m"
  have len: "length ?c = length m + TAG_LEN" using assms(1,3) by (simp add: aead_ok_def)
  have "length (drop (length ?c - TAG_LEN) ?c) = TAG_LEN" using len by simp
  then show ?thesis
    using assms(2,3) len
    by (simp add: open_payload_def encrypt_with_aad_def Let_def base64_ok_def)
qed

lemma starts_with_append [simp]: "starts_with p (p @ s)"
  by (simp add: starts_with_def)

lemma open_pii_sealed:
  "open_pii P ss kind row (PII_PREFIX @ ct) =
     (case decrypt_with_aad P ss ct (kind @ '':'' @ row) of Inr p \<Rightarrow> p | Inl _ \<Rightarrow> PII_PREFIX @ ct)"
  by (simp add: open_pii_def strip_prefix_def)

lemma decrypt_encrypt:
  assumes "aead_ok P" and "base64_ok P" and "length iv = IV_LEN" and "utf8_valid m"
  shows "decrypt_with_aad P ss (encrypt_with_aad P ss iv m aad) aad = Inr m"
  using assms by (simp add: decrypt_with_aad_def open_payload_encrypt aead_ok_def)

lemma decrypt_legacy:
  assumes "aead_ok P" and "base64_ok P" and "length iv = IV_LEN" and "utf8_valid m"
    and "rejects_aad P ss iv m [] aad"
  shows "decrypt_with_aad P ss (encrypt P ss iv m) aad = Inr m"
  using assms
  by (cases "aad = []")
    (simp_all add: decrypt_with_aad_def encrypt_def open_payload_encrypt aead_ok_def rejects_aad_def)

lemma append_colon_inj:
  "a @ '':'' @ x = b @ '':'' @ y \<Longrightarrow> CHR '':'' \<notin> set a \<Longrightarrow> CHR '':'' \<notin> set b \<Longrightarrow> a = b \<and> x = y"
proof (induction a arbitrary: b)
  case Nil
  then show ?case by (cases b) auto
next
  case (Cons c a)
  then show ?case by (cases b) auto
qed

section \<open>Properties\<close>

text \<open>
  C27. Sealed personal data opens to what was sealed under its own kind and row and under no
  other: for a text that is not itself marked as sealed, the stored form opens to the text; if
  the cipher rejects foreign associated data, another kind or row reads back the stored
  ciphertext and never the text.
\<close>

theorem pii_bound_to_row:
  assumes "aead_ok P" and "base64_ok P" and "length iv = IV_LEN" and "utf8_valid m"
    and "\<not> starts_with PII_PREFIX m"
  shows "open_pii P ss kind row (seal_pii P ss iv kind row m) = m \<and>
    (m \<noteq> [] \<longrightarrow> starts_with PII_PREFIX (seal_pii P ss iv kind row m) \<and>
      (CHR '':'' \<notin> set kind \<longrightarrow> CHR '':'' \<notin> set kind' \<longrightarrow> (kind', row') \<noteq> (kind, row) \<longrightarrow>
        (\<forall>aad. aad \<noteq> kind @ '':'' @ row \<longrightarrow> aad \<in> {[], kind' @ '':'' @ row'} \<longrightarrow>
          rejects_aad P ss iv m (kind @ '':'' @ row) aad) \<longrightarrow>
        open_pii P ss kind' row' (seal_pii P ss iv kind row m) = seal_pii P ss iv kind row m))"
proof (cases "m = []")
  case True
  then show ?thesis by (simp add: seal_pii_def open_pii_def strip_prefix_def starts_with_def PII_PREFIX_def)
next
  case False
  let ?aad = "kind @ '':'' @ row"
  let ?ct = "encrypt_with_aad P ss iv m ?aad"
  have seal: "seal_pii P ss iv kind row m = PII_PREFIX @ ?ct"
    using False assms(5) by (simp add: seal_pii_def)
  have own: "open_pii P ss kind row (PII_PREFIX @ ?ct) = m"
    unfolding open_pii_sealed using decrypt_encrypt [OF assms(1-4)] by simp
  have other: "open_pii P ss kind' row' (PII_PREFIX @ ?ct) = PII_PREFIX @ ?ct"
    if k: "CHR '':'' \<notin> set kind" "CHR '':'' \<notin> set kind'" "(kind', row') \<noteq> (kind, row)"
      and rej: "\<forall>aad. aad \<noteq> ?aad \<longrightarrow> aad \<in> {[], kind' @ '':'' @ row'} \<longrightarrow> rejects_aad P ss iv m ?aad aad"
  proof -
    have "kind' @ '':'' @ row' \<noteq> ?aad" using append_colon_inj [OF _ k(2,1)] k(3) by blast
    with rej have "rejects_aad P ss iv m ?aad (kind' @ '':'' @ row')" and "rejects_aad P ss iv m ?aad []"
      by auto
    then show ?thesis
      unfolding open_pii_sealed decrypt_with_aad_def open_payload_encrypt [OF assms(1-3)]
      by (simp add: rejects_aad_def)
  qed
  show ?thesis unfolding seal using own other by simp
qed

text \<open>A concrete cipher with the contract: the tag is the key and the associated data, cut to length.\<close>

definition demo_tag :: "string \<Rightarrow> string \<Rightarrow> string" where
  "demo_tag key aad = take TAG_LEN (key @ aad @ replicate TAG_LEN (CHR ''.''))"

definition demo_primitives :: primitives where
  "demo_primitives =
     \<lparr>gcm_encrypt = (\<lambda>key iv aad m. m @ demo_tag key aad),
      gcm_decrypt = (\<lambda>key iv aad c.
        if drop (length c - TAG_LEN) c = demo_tag key aad then Some (take (length c - TAG_LEN) c) else None),
      b64_encode = id, b64_decode = Some, hkdf_expand = (\<lambda>m i. take 32 (m @ i)),
      hmac_sha256 = (\<lambda>k m. take 32 (k @ m)), sha256 = take 32, hex_encode = id, hex_decode = Some\<rparr>"

definition demo_secrets :: SecretsService where
  "demo_secrets = \<lparr>aes_key = ''k'', hmac_key = ''h'', refresh_hmac_key = ''r'', webhook_hmac_key = ''w'',
     email_hmac_key = ''e'', ip_hmac_key = ''i''\<rparr>"

lemma length_demo_tag [simp]: "length (demo_tag key aad) = TAG_LEN"
  by (simp add: demo_tag_def)

lemma demo_primitives_ok: "aead_ok demo_primitives" "base64_ok demo_primitives"
  by (simp_all add: aead_ok_def base64_ok_def demo_primitives_def)

theorem pii_bound_to_row_witness:
  "open_pii demo_primitives demo_secrets ''to'' ''1''
     (seal_pii demo_primitives demo_secrets (replicate 12 (CHR ''n'')) ''to'' ''1'' ''addr'') = ''addr'' \<and>
   open_pii demo_primitives demo_secrets ''to'' ''2''
     (seal_pii demo_primitives demo_secrets (replicate 12 (CHR ''n'')) ''to'' ''1'' ''addr'') \<noteq> ''addr''"
proof -
  let ?iv = "replicate 12 (CHR ''n'')"
  have iv: "length ?iv = IV_LEN" by (simp add: IV_LEN_def)
  have u: "utf8_valid ''addr''" by (simp add: byte_in_def)
  have p: "\<not> starts_with PII_PREFIX ''addr''" by (simp add: starts_with_def PII_PREFIX_def)
  have rej: "\<forall>aad. aad \<noteq> ''to'' @ '':'' @ ''1'' \<longrightarrow> aad \<in> {[], ''to'' @ '':'' @ ''2''} \<longrightarrow>
      rejects_aad demo_primitives demo_secrets ?iv ''addr'' (''to'' @ '':'' @ ''1'') aad"
    by (auto simp: rejects_aad_def demo_primitives_def demo_secrets_def demo_tag_def TAG_LEN_def
        numeral_eq_Suc)
  from pii_bound_to_row [OF demo_primitives_ok iv u p, of demo_secrets "''to''" "''1''" "''to''" "''2''"] rej
  have "open_pii demo_primitives demo_secrets ''to'' ''1'' (seal_pii demo_primitives demo_secrets ?iv ''to'' ''1'' ''addr'') = ''addr''"
    and other: "open_pii demo_primitives demo_secrets ''to'' ''2'' (seal_pii demo_primitives demo_secrets ?iv ''to'' ''1'' ''addr'') =
      seal_pii demo_primitives demo_secrets ?iv ''to'' ''1'' ''addr''"
    and "starts_with PII_PREFIX (seal_pii demo_primitives demo_secrets ?iv ''to'' ''1'' ''addr'')"
    by simp_all
  with p show ?thesis by metis
qed

text \<open>
  In production the hot mnemonic only ever comes out of its ciphertext: whatever the
  environment holds, a mnemonic is returned only as the decryption of \<open>HOT_MNEMONIC_ENC\<close>, a bare
  plaintext is an error, and after a ciphertext was used no plaintext is left in the
  environment, in production or not.
\<close>

theorem hot_mnemonic_never_plaintext_in_production:
  assumes "bootstrap_hot_mnemonic P ss node_env enc_var plain_var = (r, plain_after)"
  shows "(\<forall>e m. node_env = Some e \<longrightarrow> eq_ignore_case e ''production'' \<longrightarrow> r = Inr (Some m) \<longrightarrow>
       (\<exists>ct. nonempty_trimmed enc_var = Some ct \<and> decrypt_with_aad P ss ct HOT_MNEMONIC_AAD = Inr m)) \<and>
    (\<forall>e. node_env = Some e \<longrightarrow> eq_ignore_case e ''production'' \<longrightarrow> nonempty_trimmed enc_var = None \<longrightarrow>
       r = (if nonempty_trimmed plain_var = None then Inr None else Inl PlaintextForbiddenInProduction)) \<and>
    (nonempty_trimmed enc_var \<noteq> None \<longrightarrow> nonempty_trimmed plain_after = None)"
proof (cases "nonempty_trimmed enc_var")
  case None
  with assms show ?thesis
    by (cases "nonempty_trimmed plain_var")
      (auto simp: bootstrap_hot_mnemonic_def Let_def split: option.splits if_splits)
next
  case (Some ct)
  have "nonempty_trimmed plain_after = None"
    using assms Some by (auto simp: bootstrap_hot_mnemonic_def Let_def nonempty_trimmed_def split: if_splits option.splits)
  with assms Some show ?thesis
    by (auto simp: bootstrap_hot_mnemonic_def Let_def split: sum.splits)
qed

theorem hot_mnemonic_never_plaintext_in_production_witness:
  "fst (bootstrap_hot_mnemonic demo_primitives demo_secrets (Some ''Production'') None (Some ''words'')) =
     Inl PlaintextForbiddenInProduction"
proof -
  have e: "eq_ignore_case ''Production'' ''production''"
    by code_simp
  have n: "nonempty_trimmed (None :: string option) = None" "nonempty_trimmed (Some ''words'') = Some ''words''"
    by (simp_all add: nonempty_trimmed_def trim_def is_space_def)
  obtain r p where run: "bootstrap_hot_mnemonic demo_primitives demo_secrets (Some ''Production'') None (Some ''words'') = (r, p)"
    by (cases "bootstrap_hot_mnemonic demo_primitives demo_secrets (Some ''Production'') None (Some ''words'')")
  from hot_mnemonic_never_plaintext_in_production [OF run] e n run show ?thesis by auto
qed

end
