(* ===== verification/Privacy.thy ===== *)
theory Privacy
  imports House Crypto
begin

text \<open>
  The helpers of \<open>crates/db/src/privacy.rs\<close> that the services store and read personal data
  with: they work without a secrets service (plain text) and with one (sealed, fingerprinted).
  The export and erasure of a user's data are not modelled.
\<close>

definition KIND_USER_EMAIL :: string where
  "KIND_USER_EMAIL = ''user.email''"

definition KIND_WD_TO :: string where
  "KIND_WD_TO = ''withdrawal.to''"

definition looks_like_ip :: "string \<Rightarrow> bool" where
  "looks_like_ip value =
     (let v = trim value
      in v \<noteq> [] \<and> (CHR ''.'' \<in> set v \<or> CHR '':'' \<in> set v) \<and> \<not> starts_with PII_PREFIX v)"

definition store_ip :: "primitives \<Rightarrow> SecretsService option \<Rightarrow> string \<Rightarrow> string" where
  "store_ip P secrets ip =
     (case secrets of
        Some ss \<Rightarrow> if looks_like_ip ip then ip_fingerprint P ss ip else ip
      | None \<Rightarrow> ip)"

definition seal_opt ::
    "primitives \<Rightarrow> SecretsService option \<Rightarrow> string \<Rightarrow> string \<Rightarrow> string \<Rightarrow> string \<Rightarrow> string" where
  "seal_opt P secrets iv kind row_key plaintext =
     (case secrets of Some ss \<Rightarrow> seal_pii P ss iv kind row_key plaintext | None \<Rightarrow> plaintext)"

definition open_opt ::
    "primitives \<Rightarrow> SecretsService option \<Rightarrow> string \<Rightarrow> string \<Rightarrow> string \<Rightarrow> string" where
  "open_opt P secrets kind row_key stored =
     (case secrets of Some ss \<Rightarrow> open_pii P ss kind row_key stored | None \<Rightarrow> stored)"

definition reveal_stored_email ::
    "primitives \<Rightarrow> SecretsService option \<Rightarrow> uuid \<Rightarrow> string \<Rightarrow> string option \<Rightarrow> string" where
  "reveal_stored_email P secrets user email email_enc =
     (if eq_ignore_case email HOUSE_EMAIL then email
      else case secrets of
        None \<Rightarrow> email
      | Some ss \<Rightarrow>
          (case email_enc of
             Some enc \<Rightarrow>
               if starts_with PII_PREFIX enc then open_pii P ss KIND_USER_EMAIL (show_uuid user) enc
               else if starts_with PII_PREFIX email
                 then open_pii P ss KIND_USER_EMAIL (show_uuid user) email
               else email
           | None \<Rightarrow>
               if starts_with PII_PREFIX email
               then open_pii P ss KIND_USER_EMAIL (show_uuid user) email
               else email))"

lemma open_opt_seal_opt:
  assumes "aead_ok P" and "base64_ok P" and "length iv = IV_LEN" and "utf8_valid m"
    and "\<not> starts_with PII_PREFIX m"
  shows "open_opt P secrets kind row (seal_opt P secrets iv kind row m) = m"
proof (cases secrets)
  case (Some ss)
  show ?thesis
  proof (cases "m = []")
    case True
    then show ?thesis using Some
      by (simp add: open_opt_def seal_opt_def seal_pii_def open_pii_def strip_prefix_def
          starts_with_def PII_PREFIX_def)
  next
    case False
    then show ?thesis using Some assms(5) decrypt_encrypt [OF assms(1-4)]
      by (simp add: open_opt_def seal_opt_def seal_pii_def open_pii_sealed)
  qed
qed (simp add: open_opt_def seal_opt_def)

end
