(* ===== verification/AuditLog.thy ===== *)
theory AuditLog
  imports Ledger
begin

text \<open>
  \<open>crates/db/src/audit.rs\<close> (\<open>record_log\<close>) and the same \<open>INSERT INTO audit_logs\<close> in the other
  modules, and the JSON objects they store as metadata.
\<close>

definition json_char :: "char \<Rightarrow> string" where
  "json_char c =
     (let k = of_char c :: nat; backslash = CHR 0x5C in
      if k = 0x22 then [backslash, CHR 0x22]
      else if k = 0x5C then [backslash, backslash]
      else if k = 8 then [backslash, CHR ''b'']
      else if k = 9 then [backslash, CHR ''t'']
      else if k = 10 then [backslash, CHR ''n'']
      else if k = 12 then [backslash, CHR ''f'']
      else if k = 13 then [backslash, CHR ''r'']
      else if k < 32 then [backslash, CHR ''u''] @ hex_digits 4 k
      else [c])"

definition json_text :: "string \<Rightarrow> string" where
  "json_text v = [CHR 0x22] @ concat (map json_char v) @ [CHR 0x22]"

text \<open>An object of fields whose values are JSON already.\<close>

fun json_members :: "(string \<times> string) list \<Rightarrow> string" where
  "json_members [] = []"
| "json_members [(k, v)] = json_text k @ '':'' @ v"
| "json_members ((k, v) # kvs) = json_text k @ '':'' @ v @ '','' @ json_members kvs"

definition json_object :: "(string \<times> string) list \<Rightarrow> string" where
  "json_object kvs = ''{'' @ json_members kvs @ ''}''"

definition record_log ::
    "uuid option \<Rightarrow> string \<Rightarrow> string \<Rightarrow> uuid option \<Rightarrow> string option \<Rightarrow> string option \<Rightarrow>
     (db_error, uuid) op" where
  "record_log user action entity entity_id ip metadata =
     tx_bind (case user of None \<Rightarrow> tx_return () | Some u \<Rightarrow> check_user_fk ''audit_logs'' u) (\<lambda>_.
     tx_bind fresh_uuid (\<lambda>aid.
     tx_bind (tx_modify (\<lambda>s. s\<lparr>audit_logs := audit_logs s @
       [\<lparr>al_user = user, al_action = action, al_entity = entity, al_entity_id = entity_id,
         al_metadata = metadata, al_ip = ip, al_created_at = clock s\<rparr>]\<rparr>)) (\<lambda>_.
     tx_return aid)))"

definition audited ::
    "uuid option \<Rightarrow> string \<Rightarrow> string \<Rightarrow> uuid option \<Rightarrow> string option \<Rightarrow> string option \<Rightarrow> db \<Rightarrow> db" where
  "audited user action entity entity_id ip metadata s = s\<lparr>next_id := Suc (next_id s),
     audit_logs := audit_logs s @
       [\<lparr>al_user = user, al_action = action, al_entity = entity, al_entity_id = entity_id,
         al_metadata = metadata, al_ip = ip, al_created_at = clock s\<rparr>]\<rparr>"

lemma record_log_Inr [tx_simps]:
  "record_log user action entity eid ip meta s = Inr (x, s') \<longleftrightarrow>
     (\<forall>u. user = Some u \<longrightarrow> (\<exists>r\<in>set (users s). u_id r = u)) \<and> x = next_id s \<and>
     s' = audited user action entity eid ip meta s"
  by (cases user) (simp_all add: record_log_def audited_def tx_simps)

lemma audited_frame [simp]:
  "users (audited u a e i ip m s) = users s" "wallets (audited u a e i ip m s) = wallets s"
  "ledger (audited u a e i ip m s) = ledger s" "deposits (audited u a e i ip m s) = deposits s"
  "withdrawals (audited u a e i ip m s) = withdrawals s" "outbox (audited u a e i ip m s) = outbox s"
  "clock (audited u a e i ip m s) = clock s" "row_locks (audited u a e i ip m s) = row_locks s"
  "next_id (audited u a e i ip m s) = Suc (next_id s)"
  "network_fees (audited u a e i ip m s) = network_fees s"
  "positions (audited u a e i ip m s) = positions s" "reserves (audited u a e i ip m s) = reserves s"
  "faucet_sites (audited u a e i ip m s) = faucet_sites s"
  "length (audit_logs (audited u a e i ip m s)) = Suc (length (audit_logs s))"
  by (simp_all add: audited_def)

lemma wallet_balance_audited [simp]: "wallet_balance (audited u a e i ip m s) w = wallet_balance s w"
  by (rule wallet_balance_frame) simp

lemma books_ok_audited: "books_ok s \<Longrightarrow> books_ok (audited u a e i ip m s)"
  by (erule books_ok_cong [rotated -1]) simp_all

end
