(* ===== verification/NetworkFees.thy ===== *)
theory NetworkFees
  imports Ledger
begin

text \<open>
  \<open>crates/db/src/network_fees.rs\<close>: the log of on-chain fees the hot wallet paid. It never
  touches the ledger; a fee of a transaction is recorded once per coin.
\<close>

datatype NetworkFeeKind = FeeWithdrawal | FeeSweep | FeeDexDeposit | FeeGasTopup

fun network_fee_kind_str :: "NetworkFeeKind \<Rightarrow> string" where
  "network_fee_kind_str FeeWithdrawal = ''WITHDRAWAL''"
| "network_fee_kind_str FeeSweep = ''SWEEP''"
| "network_fee_kind_str FeeDexDeposit = ''DEX_DEPOSIT''"
| "network_fee_kind_str FeeGasTopup = ''GAS_TOPUP''"

record RecordNetworkFeeInput =
  fee_coin :: Coin
  fee_kind :: NetworkFeeKind
  fee_paid :: nat
  fee_tx_hash :: "string option"
  fee_reference_id :: "uuid option"
  fee_reference_type :: "string option"

definition fee_recorded :: "db \<Rightarrow> RecordNetworkFeeInput \<Rightarrow> bool" where
  "fee_recorded s i \<longleftrightarrow> fee_tx_hash i \<noteq> None \<and>
     (\<exists>r\<in>set (network_fees s). nf_coin r = fee_coin i \<and> nf_tx_hash r = fee_tx_hash i)"

definition fee_row :: "RecordNetworkFeeInput \<Rightarrow> network_fee_row" where
  "fee_row i = \<lparr>nf_coin = fee_coin i, nf_kind = network_fee_kind_str (fee_kind i),
     nf_amount = int (fee_paid i), nf_tx_hash = fee_tx_hash i,
     nf_reference_id = fee_reference_id i, nf_reference_type = fee_reference_type i\<rparr>"

definition record_network_fee_tx :: "RecordNetworkFeeInput \<Rightarrow> (db_error, bool) op" where
  "record_network_fee_tx i =
     (if fee_paid i = 0 then tx_return False
      else tx_bind (check_numeric (int (fee_paid i))) (\<lambda>_.
        tx_bind (tx_gets (\<lambda>s. fee_recorded s i)) (\<lambda>dup.
        if dup then tx_return False
        else tx_bind (tx_modify (\<lambda>s. s\<lparr>network_fees := network_fees s @ [fee_row i]\<rparr>)) (\<lambda>_.
          tx_return True))))"

definition record_network_fee ::
    "RecordNetworkFeeInput \<Rightarrow> db \<Rightarrow> (db_error + bool) \<times> db" where
  "record_network_fee i = commit_tx release_locks (record_network_fee_tx i)"

definition fees_unique :: "db \<Rightarrow> bool" where
  "fees_unique s \<longleftrightarrow> distinct (List.map_filter
     (\<lambda>r. map_option (\<lambda>h. (nf_coin r, h)) (nf_tx_hash r)) (network_fees s))"

lemma record_network_fee_tx_Inr:
  "record_network_fee_tx i s = Inr (b, s') \<longleftrightarrow>
     (if fee_paid i = 0 then \<not> b \<and> s' = s
      else fits_numeric (int (fee_paid i)) \<and>
        (if fee_recorded s i then \<not> b \<and> s' = s
         else b \<and> s' = s\<lparr>network_fees := network_fees s @ [fee_row i]\<rparr>))"
  by (auto simp: record_network_fee_tx_def tx_simps)

text \<open>The fee log is best effort: whatever happens, only its own table changes.\<close>

lemma record_network_fee_frame [simp]:
  "users (snd (record_network_fee i s)) = users s" "wallets (snd (record_network_fee i s)) = wallets s"
  "ledger (snd (record_network_fee i s)) = ledger s" "next_id (snd (record_network_fee i s)) = next_id s"
  "withdrawals (snd (record_network_fee i s)) = withdrawals s"
  "deposits (snd (record_network_fee i s)) = deposits s"
  "outbox (snd (record_network_fee i s)) = outbox s" "clock (snd (record_network_fee i s)) = clock s"
proof -
  have "\<exists>x l. snd (record_network_fee i s) = s\<lparr>network_fees := x, row_locks := l\<rparr>"
  proof (cases "record_network_fee_tx i s")
    case (Inl e)
    then show ?thesis
      by (intro exI [of _ "network_fees s"] exI [of _ "row_locks s"]) (simp add: record_network_fee_def commit_tx_def)
  next
    case (Inr p)
    obtain b s' where p: "p = (b, s')" by (cases p)
    with Inr have run: "record_network_fee_tx i s = Inr (b, s')" by simp
    have same: "s = s\<lparr>network_fees := network_fees s\<rparr>" by simp
    from run have "s' = s \<or> s' = s\<lparr>network_fees := network_fees s @ [fee_row i]\<rparr>"
      by (auto simp: record_network_fee_tx_Inr split: if_splits)
    then obtain x where "s' = s\<lparr>network_fees := x\<rparr>" using same by metis
    with run have "snd (record_network_fee i s) = s\<lparr>network_fees := x, row_locks := []\<rparr>"
      by (simp add: record_network_fee_def commit_tx_def release_locks_def)
    then show ?thesis by blast
  qed
  then obtain x l where "snd (record_network_fee i s) = s\<lparr>network_fees := x, row_locks := l\<rparr>" by blast
  then show "users (snd (record_network_fee i s)) = users s" "wallets (snd (record_network_fee i s)) = wallets s"
    "ledger (snd (record_network_fee i s)) = ledger s" "next_id (snd (record_network_fee i s)) = next_id s"
    "withdrawals (snd (record_network_fee i s)) = withdrawals s"
    "deposits (snd (record_network_fee i s)) = deposits s"
    "outbox (snd (record_network_fee i s)) = outbox s" "clock (snd (record_network_fee i s)) = clock s"
    by simp_all
qed

text \<open>
  A fee is logged once: a recorded transaction of a coin is never recorded again, whatever the
  amount, and the log stays without duplicates; a zero amount is not a fee.
\<close>

theorem network_fee_once:
  assumes "record_network_fee i s = (Inr b, s')" and "fees_unique s"
  shows "fees_unique s' \<and> (b \<longrightarrow> 0 < fee_paid i \<and> network_fees s' = network_fees s @ [fee_row i]) \<and>
    (\<not> b \<longrightarrow> network_fees s' = network_fees s) \<and>
    (fee_tx_hash i \<noteq> None \<longrightarrow> 0 < fee_paid i \<longrightarrow> 0 < paid \<longrightarrow> fits_numeric (int paid) \<longrightarrow>
       record_network_fee (i\<lparr>fee_paid := paid\<rparr>) s' = (Inr False, s'))"
proof -
  obtain t where run: "record_network_fee_tx i s = Inr (b, t)" and s': "s' = release_locks t"
    using assms(1) by (auto simp: record_network_fee_def commit_tx_success)
  have nf: "network_fees s' = network_fees t" by (simp add: s' release_locks_def)
  have rel: "release_locks s' = s'" by (simp add: s' release_locks_def)
  have cases: "b \<and> 0 < fee_paid i \<and> \<not> fee_recorded s i \<and> network_fees t = network_fees s @ [fee_row i] \<or>
      \<not> b \<and> network_fees t = network_fees s \<and> (fee_paid i = 0 \<or> fee_recorded s i)"
    using run by (auto simp: record_network_fee_tx_Inr split: if_splits)
  have "fees_unique t"
    using cases assms(2)
    by (auto simp: fees_unique_def map_filter_snoc in_map_filter fee_row_def fee_recorded_def
        split: option.splits)
  then have u: "fees_unique s'" by (simp add: fees_unique_def nf)
  have again: "record_network_fee (i\<lparr>fee_paid := paid\<rparr>) s' = (Inr False, s')"
    if "fee_tx_hash i \<noteq> None" "0 < fee_paid i" "0 < paid" "fits_numeric (int paid)"
  proof -
    have "fee_recorded s' (i\<lparr>fee_paid := paid\<rparr>)"
      using cases that by (auto simp: fee_recorded_def nf fee_row_def)
    then have "record_network_fee_tx (i\<lparr>fee_paid := paid\<rparr>) s' = Inr (False, s')"
      using that by (simp add: record_network_fee_tx_Inr)
    then show ?thesis by (simp add: record_network_fee_def commit_tx_def rel)
  qed
  show ?thesis using u cases again by (auto simp: nf)
qed

theorem network_fee_once_witness:
  "\<exists>s'. record_network_fee \<lparr>fee_coin = Btc, fee_kind = FeeWithdrawal, fee_paid = 300,
       fee_tx_hash = Some ''h'', fee_reference_id = None, fee_reference_type = None\<rparr> empty_db = (Inr True, s') \<and>
     length (network_fees s') = 1 \<and>
     record_network_fee \<lparr>fee_coin = Btc, fee_kind = FeeWithdrawal, fee_paid = 400,
       fee_tx_hash = Some ''h'', fee_reference_id = None, fee_reference_type = None\<rparr> s' = (Inr False, s')"
proof -
  let ?i = "\<lparr>fee_coin = Btc, fee_kind = FeeWithdrawal, fee_paid = 300,
       fee_tx_hash = Some ''h'', fee_reference_id = None, fee_reference_type = None\<rparr>"
  have "fst (record_network_fee ?i empty_db) = Inr True"
    by (simp add: record_network_fee_def record_network_fee_tx_def fee_recorded_def empty_db_def
        check_numeric_def fits_numeric_def numeric_limit_def commit_tx_def tx_defs)
  then obtain s' where run: "record_network_fee ?i empty_db = (Inr True, s')" by (metis prod.collapse)
  have "fees_unique empty_db" by (simp add: fees_unique_def empty_db_def List.map_filter_simps)
  from network_fee_once [OF run this, of 400] run show ?thesis
    by (auto simp: empty_db_def fits_numeric_def numeric_limit_def)
qed

end
