(* ===== verification/Deposits.thy ===== *)
theory Deposits
  imports House Outbox AuditLog
begin

text \<open>
  \<open>crates/db/src/deposits.rs\<close>: the deposit address of a wallet, the credit of a confirmed
  on-chain output, and the reconciliation of an output that disappeared from the chain.

  The chain client is the argument \<open>generate\<close> (the answer of \<open>generate_address\<close> for a user).
  A transaction hash is ASCII, so the twelve bytes of the memo end on a character boundary.

  The invariant of the runs, \<open>deposits_ok\<close>, keeps for every deposit the list of the ledger's entries
  that refer to it: one credit at most, and one reversal at most.
\<close>

datatype DepositsError =
  DepositDb db_error
| DepositLedger LedgerError
| DepositOutbox db_error
| DepositNotFound
| DepositChain string

record GeneratedAddress =
  ga_address :: string
  ga_hd_index :: "nat option"

section \<open>The deposit address\<close>

definition set_address :: "uuid \<Rightarrow> GeneratedAddress \<Rightarrow> (db_error, unit) op" where
  "set_address wid g =
     tx_bind (tx_gets (\<lambda>s. \<exists>r\<in>set (wallets s). w_id r \<noteq> wid \<and> w_address r = Some (ga_address g))) (\<lambda>taken.
     tx_bind (tx_assert (\<not> taken) (UniqueViolation ''wallets_address_key'')) (\<lambda>_.
     tx_modify (\<lambda>s. s\<lparr>wallets := update_where (\<lambda>r. w_id r = wid)
       (\<lambda>r. r\<lparr>w_address := Some (ga_address g), w_hd_index := map_option int (ga_hd_index g)\<rparr>)
       (wallets s)\<rparr>)))"

definition assign_address ::
    "(string \<Rightarrow> string + GeneratedAddress) \<Rightarrow> uuid \<Rightarrow> uuid \<Rightarrow> (DepositsError, string) op" where
  "assign_address generate user wid =
     tx_bind (tx_map_err DepositLedger (lock_wallet wid)) (\<lambda>_.
     tx_bind (tx_gets (\<lambda>s. find_wallet s wid)) (\<lambda>row.
     tx_bind (tx_ok_or (DepositDb RowNotFound) row) (\<lambda>r.
     case w_address r of
       Some address \<Rightarrow> tx_return address
     | None \<Rightarrow>
         (case generate (show_uuid user) of
            Inl e \<Rightarrow> tx_throw (DepositChain e)
          | Inr g \<Rightarrow>
              tx_bind (tx_map_err DepositDb (set_address wid g)) (\<lambda>_.
              tx_return (ga_address g))))))"

text \<open>
  The two inserts and the first read run on the pool, each its own transaction; \<open>before_begin\<close>
  is what other sessions commit before the address is assigned.
\<close>

definition get_or_create_address ::
    "(string \<Rightarrow> string + GeneratedAddress) \<Rightarrow> (db \<Rightarrow> db) \<Rightarrow> uuid \<Rightarrow> Coin \<Rightarrow> db \<Rightarrow>
     (DepositsError + string) \<times> db" where
  "get_or_create_address generate before_begin user coin s =
     (case commit_tx release_locks (tx_map_err DepositDb (upsert_wallet user coin PERSONAL)) s of
        (Inl e, s1) \<Rightarrow> (Inl e, s1)
      | (Inr _, s1) \<Rightarrow>
     (case commit_tx release_locks (tx_map_err DepositDb (upsert_wallet user coin DEVELOPER)) s1 of
        (Inl e, s2) \<Rightarrow> (Inl e, s2)
      | (Inr _, s2) \<Rightarrow>
     (case wallet_id_of s2 user coin PERSONAL of
        None \<Rightarrow> (Inl DepositNotFound, s2)
      | Some wid \<Rightarrow>
     (case find_wallet s2 wid of
        None \<Rightarrow> (Inl (DepositDb RowNotFound), s2)
      | Some r \<Rightarrow>
     (case w_address r of
        Some address \<Rightarrow> (Inr address, s2)
      | None \<Rightarrow> commit_tx release_locks (assign_address generate user wid) (before_begin s2))))))"

section \<open>Crediting an output\<close>

datatype CreditDepositOutcome = Noop | Recorded | NewlyCredited

definition find_deposit :: "db \<Rightarrow> string \<Rightarrow> int \<Rightarrow> deposit_row option" where
  "find_deposit s tx_hash vout =
     List.find (\<lambda>d. dp_tx_hash d = tx_hash \<and> dp_vout d = vout) (deposits s)"

definition update_deposit :: "uuid \<Rightarrow> (deposit_row \<Rightarrow> deposit_row) \<Rightarrow> ('e, unit) op" where
  "update_deposit did f =
     tx_modify (\<lambda>s. s\<lparr>deposits := update_where (\<lambda>d. dp_id d = did) f (deposits s)\<rparr>)"

definition insert_deposit ::
    "uuid \<Rightarrow> string \<Rightarrow> int \<Rightarrow> int \<Rightarrow> int \<Rightarrow> deposit_status \<Rightarrow> (db_error, uuid) op" where
  "insert_deposit wid tx_hash vout amount confirmations status =
     tx_bind (check_numeric amount) (\<lambda>_.
     tx_bind (tx_gets (\<lambda>s. find_deposit s tx_hash vout)) (\<lambda>taken.
     tx_bind (tx_assert (taken = None) (UniqueViolation ''deposits_tx_hash_vout_key'')) (\<lambda>_.
     tx_bind (tx_gets (\<lambda>s. find_wallet s wid)) (\<lambda>row.
     tx_bind (tx_assert (row \<noteq> None) (ForeignKeyViolation ''deposits'' ''deposits_wallet_id_fkey'')) (\<lambda>_.
     tx_bind fresh_uuid (\<lambda>did.
     tx_bind (tx_modify (\<lambda>s. s\<lparr>deposits := deposits s @
       [\<lparr>dp_id = did, dp_wallet = wid, dp_tx_hash = tx_hash, dp_vout = vout, dp_amount = amount,
         dp_confirmations = confirmations, dp_status = status, dp_detected_at = clock s,
         dp_credited_at = None, dp_orphaned_at = None\<rparr>]\<rparr>)) (\<lambda>_.
     tx_return did)))))))"

definition min_confs :: "Coin \<Rightarrow> int" where
  "min_confs coin = int (min_confirmations (coin_config coin))"

definition deposit_input :: "uuid \<Rightarrow> int \<Rightarrow> uuid \<Rightarrow> string \<Rightarrow> LedgerCreditInput" where
  "deposit_input wid amount did tx_hash =
     simple_input wid amount DEPOSIT (Some did) (Some ''Deposit'')
       (Some (''Deposit '' @ take 12 tx_hash @ utf8_ellipsis))"

definition deposit_event :: "uuid \<Rightarrow> uuid \<Rightarrow> Coin \<Rightarrow> int \<Rightarrow> string \<Rightarrow> int \<Rightarrow> DomainEvent" where
  "deposit_event wid did coin amount tx_hash ts =
     DepositConfirmed wid did (coin_str coin) (show_int amount) tx_hash ts"

definition record_deposit ::
    "uuid \<Rightarrow> string \<Rightarrow> int \<Rightarrow> int \<Rightarrow> int \<Rightarrow> deposit_status \<Rightarrow> deposit_row option \<Rightarrow>
     (DepositsError, uuid) op" where
  "record_deposit wid tx_hash vout amount confirmations status existing =
     (case existing of
        Some row \<Rightarrow>
          tx_bind (update_deposit (dp_id row)
            (\<lambda>d. d\<lparr>dp_confirmations := confirmations, dp_status := status\<rparr>)) (\<lambda>_.
          tx_return (dp_id row))
      | None \<Rightarrow>
          tx_map_err DepositDb (insert_deposit wid tx_hash vout amount confirmations status))"

definition credit_recorded ::
    "uuid \<Rightarrow> Coin \<Rightarrow> string \<Rightarrow> int \<Rightarrow> uuid \<Rightarrow> (DepositsError, unit) op" where
  "credit_recorded wid coin tx_hash amount did =
     tx_bind (tx_map_err DepositLedger (apply_ledger_entry (deposit_input wid amount did tx_hash))) (\<lambda>_.
     tx_bind now (\<lambda>ts.
     tx_bind (update_deposit did (\<lambda>d. d\<lparr>dp_status := DepCredited, dp_credited_at := Some ts\<rparr>)) (\<lambda>_.
     tx_bind (tx_map_err DepositOutbox (stage (deposit_event wid did coin amount tx_hash ts))) (\<lambda>_.
     tx_return ()))))"

definition credit_deposit_tx ::
    "uuid \<Rightarrow> Coin \<Rightarrow> string \<Rightarrow> int \<Rightarrow> int \<Rightarrow> int \<Rightarrow> (DepositsError, CreditDepositOutcome) op" where
  "credit_deposit_tx wid coin tx_hash vout amount confirmations =
     tx_bind (tx_map_err DepositLedger (lock_wallet wid)) (\<lambda>_.
     tx_bind (tx_gets (\<lambda>s. find_deposit s tx_hash vout)) (\<lambda>existing.
     if (case existing of None \<Rightarrow> False | Some row \<Rightarrow> dp_status row = DepCredited)
     then tx_return Noop
     else
       let new_status = (if min_confs coin \<le> confirmations then DepConfirmed else DepPending) in
       tx_bind (record_deposit wid tx_hash vout amount confirmations new_status existing) (\<lambda>did.
       if new_status = DepConfirmed
       then tx_bind (credit_recorded wid coin tx_hash amount did) (\<lambda>_. tx_return NewlyCredited)
       else tx_return Recorded)))"

text \<open>\<open>Noop\<close> returns before the commit, which drops the transaction.\<close>

definition credit_deposit ::
    "uuid \<Rightarrow> Coin \<Rightarrow> string \<Rightarrow> int \<Rightarrow> int \<Rightarrow> int \<Rightarrow> db \<Rightarrow>
     (DepositsError + CreditDepositOutcome) \<times> db" where
  "credit_deposit wid coin tx_hash vout amount confirmations s =
     (case credit_deposit_tx wid coin tx_hash vout amount confirmations s of
        Inl e \<Rightarrow> (Inl e, s)
      | Inr (Noop, _) \<Rightarrow> (Inr Noop, s)
      | Inr (outcome, s') \<Rightarrow> (Inr outcome, release_locks s'))"

section \<open>Reconciling an output\<close>

definition reorg_reason :: "int option \<Rightarrow> Coin \<Rightarrow> string" where
  "reorg_reason onchain coin =
     (case onchain of
        None \<Rightarrow> ''Output no longer present in successful chain snapshot''
      | Some confs \<Rightarrow> ''Confirmations dropped below required minimum ('' @ show_int confs @ ''/'' @
          show_int (min_confs coin) @ '')'')"

definition reversal_input :: "uuid \<Rightarrow> int \<Rightarrow> uuid \<Rightarrow> string \<Rightarrow> LedgerCreditInput" where
  "reversal_input wid amount did reason =
     simple_input wid (- amount) DEPOSIT_REVERSAL (Some did) (Some ''Deposit'')
       (Some (''Reorg reversal: '' @ reason))"

definition orphan_deposit :: "uuid \<Rightarrow> int option \<Rightarrow> ('e, unit) op" where
  "orphan_deposit did onchain =
     tx_bind now (\<lambda>ts.
     update_deposit did (\<lambda>d. d\<lparr>dp_status := DepOrphaned,
       dp_confirmations := (case onchain of None \<Rightarrow> 0 | Some c \<Rightarrow> c), dp_orphaned_at := Some ts\<rparr>))"

definition hold_wallet :: "uuid \<Rightarrow> ('e, unit) op" where
  "hold_wallet wid =
     tx_modify (\<lambda>s. s\<lparr>wallets := update_where (\<lambda>r. w_id r = wid)
       (\<lambda>r. r\<lparr>w_reorg_hold_at := Some (clock s)\<rparr>) (wallets s)\<rparr>)"

definition deposit_log :: "string \<Rightarrow> uuid \<Rightarrow> (string \<times> string) list \<Rightarrow> (DepositsError, unit) op" where
  "deposit_log action did kvs =
     tx_bind (tx_map_err DepositDb
       (record_log None action ''Deposit'' (Some did) None (Some (json_object kvs)))) (\<lambda>_.
     tx_return ())"

text \<open>The answer is whether the transaction reached its commit; every other return drops it.\<close>

definition reconcile_deposit_tx ::
    "uuid \<Rightarrow> Coin \<Rightarrow> string \<Rightarrow> int \<Rightarrow> int option \<Rightarrow> (DepositsError, bool) op" where
  "reconcile_deposit_tx wid coin tx_hash vout onchain =
     tx_bind (tx_map_err DepositLedger (lock_wallet wid)) (\<lambda>_.
     tx_bind (tx_gets (\<lambda>s. find_deposit s tx_hash vout)) (\<lambda>found.
     case found of
       None \<Rightarrow> tx_return False
     | Some row \<Rightarrow>
         if dp_wallet row \<noteq> wid \<or> dp_status row = DepOrphaned then tx_return False
         else
           let reason = reorg_reason onchain coin; did = dp_id row; amount = dp_amount row in
           if dp_status row \<noteq> DepCredited then
             tx_bind (orphan_deposit did onchain) (\<lambda>_.
             tx_bind (deposit_log ''DEPOSIT_ORPHANED_UNCREDITED'' did
               [(''reason'', json_text reason)]) (\<lambda>_.
             tx_return True))
           else
             tx_bind (tx_map_err DepositLedger (get_wallet_balance wid)) (\<lambda>balance.
             tx_bind (orphan_deposit did onchain) (\<lambda>_.
             tx_bind
               (if amount \<le> balance then
                  tx_bind (tx_map_err DepositLedger
                    (apply_ledger_entry (reversal_input wid amount did reason))) (\<lambda>_.
                  deposit_log ''DEPOSIT_REORG_REVERSED'' did [(''reason'', json_text reason)])
                else
                  tx_bind (hold_wallet wid) (\<lambda>_.
                  deposit_log ''DEPOSIT_REORG_REVERSAL_BLOCKED'' did
                    [(''reason'', json_text reason), (''amount'', json_text (show_int amount)),
                     (''availableBalance'', json_text (show_int balance))])) (\<lambda>_.
             tx_return True)))))"

definition reconcile_deposit ::
    "uuid \<Rightarrow> Coin \<Rightarrow> string \<Rightarrow> int \<Rightarrow> int option \<Rightarrow> db \<Rightarrow> (DepositsError + unit) \<times> db" where
  "reconcile_deposit wid coin tx_hash vout onchain s =
     (if (case onchain of None \<Rightarrow> False | Some confs \<Rightarrow> min_confs coin \<le> confs) then (Inr (), s)
      else case reconcile_deposit_tx wid coin tx_hash vout onchain s of
          Inl e \<Rightarrow> (Inl e, s)
        | Inr (False, _) \<Rightarrow> (Inr (), s)
        | Inr (True, s') \<Rightarrow> (Inr (), release_locks s'))"

section \<open>History\<close>

record DepositHistoryRecord =
  dh_id :: uuid
  dh_coin :: string
  dh_tx_hash :: string
  dh_vout :: int
  dh_amount :: string
  dh_confirmations :: int
  dh_min_confirmations :: int
  dh_status :: deposit_status
  dh_detected_at :: int
  dh_credited_at :: "int option"

definition list_user_deposits :: "db \<Rightarrow> uuid \<Rightarrow> Coin option \<Rightarrow> nat \<Rightarrow> DepositHistoryRecord list" where
  "list_user_deposits s user coin_filter limit =
     map (\<lambda>(d, w). \<lparr>dh_id = dp_id d, dh_coin = coin_str (w_coin w), dh_tx_hash = dp_tx_hash d,
        dh_vout = dp_vout d, dh_amount = show_int (dp_amount d),
        dh_confirmations = dp_confirmations d, dh_min_confirmations = min_confs (w_coin w),
        dh_status = dp_status d, dh_detected_at = dp_detected_at d, dh_credited_at = dp_credited_at d\<rparr>)
      (take limit (sort_key (\<lambda>(d, w). - dp_detected_at d)
        [(d, w). d \<leftarrow> deposits s, w \<leftarrow> wallets s, w_id w = dp_wallet d \<and> w_user w = user \<and>
           (case coin_filter of None \<Rightarrow> True | Some c \<Rightarrow> w_coin w = c)]))"

section \<open>Successful runs\<close>

lemma update_deposit_Inr [tx_simps]:
  "update_deposit did f s = Inr (u, s') \<longleftrightarrow>
     s' = s\<lparr>deposits := update_where (\<lambda>d. dp_id d = did) f (deposits s)\<rparr>"
  by (simp add: update_deposit_def tx_simps)

definition new_deposit :: "uuid \<Rightarrow> string \<Rightarrow> int \<Rightarrow> int \<Rightarrow> int \<Rightarrow> deposit_status \<Rightarrow> uuid \<Rightarrow> int \<Rightarrow> deposit_row" where
  "new_deposit wid tx_hash vout amount confirmations status did ts =
     \<lparr>dp_id = did, dp_wallet = wid, dp_tx_hash = tx_hash, dp_vout = vout, dp_amount = amount,
      dp_confirmations = confirmations, dp_status = status, dp_detected_at = ts,
      dp_credited_at = None, dp_orphaned_at = None\<rparr>"

lemma insert_deposit_Inr [tx_simps]:
  "insert_deposit wid h v amount confs st s = Inr (did, s') \<longleftrightarrow>
     fits_numeric amount \<and> find_deposit s h v = None \<and> find_wallet s wid \<noteq> None \<and> did = next_id s \<and>
     s' = s\<lparr>next_id := Suc (next_id s),
       deposits := deposits s @ [new_deposit wid h v amount confs st (next_id s) (clock s)]\<rparr>"
  by (simp add: insert_deposit_def tx_simps new_deposit_def)

text \<open>The row a credit works on: found and updated, or new.\<close>

definition recorded :: "uuid \<Rightarrow> string \<Rightarrow> int \<Rightarrow> int \<Rightarrow> int \<Rightarrow> deposit_status \<Rightarrow> db \<Rightarrow> uuid \<times> db" where
  "recorded wid h v amount confs st s =
     (case find_deposit s h v of
        Some d \<Rightarrow> (dp_id d, s\<lparr>deposits := update_where (\<lambda>x. dp_id x = dp_id d)
          (\<lambda>x. x\<lparr>dp_confirmations := confs, dp_status := st\<rparr>) (deposits s)\<rparr>)
      | None \<Rightarrow> (next_id s, s\<lparr>next_id := Suc (next_id s),
          deposits := deposits s @ [new_deposit wid h v amount confs st (next_id s) (clock s)]\<rparr>))"

lemma record_deposit_Inr:
  "record_deposit wid h v amount confs st (find_deposit s h v) s = Inr r \<Longrightarrow>
     r = recorded wid h v amount confs st s"
  by (cases r; cases "find_deposit s h v") (simp_all add: record_deposit_def recorded_def tx_simps)

lemma recorded_frame [simp]:
  "wallets (snd (recorded w h v a c st s)) = wallets s"
  "ledger (snd (recorded w h v a c st s)) = ledger s"
  "outbox (snd (recorded w h v a c st s)) = outbox s"
  "clock (snd (recorded w h v a c st s)) = clock s"
  "find_wallet (snd (recorded w h v a c st s)) x = find_wallet s x"
  "next_id s \<le> next_id (snd (recorded w h v a c st s))"
  by (simp_all add: recorded_def find_wallet_def split: option.splits)

definition credited_row :: "int \<Rightarrow> deposit_row \<Rightarrow> deposit_row" where
  "credited_row ts d = d\<lparr>dp_status := DepCredited, dp_credited_at := Some ts\<rparr>"

definition credited :: "uuid \<Rightarrow> Coin \<Rightarrow> string \<Rightarrow> int \<Rightarrow> uuid \<Rightarrow> db \<Rightarrow> db" where
  "credited wid coin h amount did t =
     staged (deposit_event wid did coin amount h (clock t))
       ((post_entry (deposit_input wid amount did h) t)
          \<lparr>deposits := update_where (\<lambda>d. dp_id d = did) (credited_row (clock t)) (deposits t)\<rparr>)"

lemma credit_recorded_Inr [tx_simps]:
  "credit_recorded wid coin h amount did t = Inr (u, s') \<longleftrightarrow>
     can_post (deposit_input wid amount did h) t \<and> s' = credited wid coin h amount did t"
  by (simp add: credit_recorded_def tx_simps credited_def credited_row_def [abs_def])

definition with_lock :: "uuid \<Rightarrow> db \<Rightarrow> db" where
  "with_lock wid s = (if find_wallet s wid = None then s
     else s\<lparr>row_locks := acquire (WalletLock wid) (row_locks s)\<rparr>)"

lemma with_lock_frame [simp]:
  "wallets (with_lock w s) = wallets s" "ledger (with_lock w s) = ledger s"
  "deposits (with_lock w s) = deposits s" "outbox (with_lock w s) = outbox s"
  "clock (with_lock w s) = clock s" "next_id (with_lock w s) = next_id s"
  "find_deposit (with_lock w s) h v = find_deposit s h v"
  "find_wallet (with_lock w s) x = find_wallet s x"
  "wallet_balance (with_lock w s) x = wallet_balance s x"
  by (simp_all add: with_lock_def find_deposit_def)

lemma lock_wallet_with: "lock_wallet w s = Inr (u, s') \<longleftrightarrow> s' = with_lock w s"
  by (simp add: lock_wallet_Inr with_lock_def)

lemma credit_deposit_cases:
  assumes "credit_deposit_tx wid coin h v amount confs s = Inr (outcome, s')"
  obtains (noop) d where "outcome = Noop" "find_deposit s h v = Some d" "dp_status d = DepCredited"
  | (pending) did where "outcome = Recorded" "confs < min_confs coin"
      "\<And>d. find_deposit s h v = Some d \<Longrightarrow> dp_status d \<noteq> DepCredited"
      "(did, s') = recorded wid h v amount confs DepPending (with_lock wid s)"
  | (posted) did t where "outcome = NewlyCredited" "min_confs coin \<le> confs"
      "\<And>d. find_deposit s h v = Some d \<Longrightarrow> dp_status d \<noteq> DepCredited"
      "(did, t) = recorded wid h v amount confs DepConfirmed (with_lock wid s)"
      "can_post (deposit_input wid amount did h) t" "s' = credited wid coin h amount did t"
proof (cases "case find_deposit s h v of None \<Rightarrow> False | Some row \<Rightarrow> dp_status row = DepCredited")
  case True
  with assms show thesis
    by (auto simp: credit_deposit_tx_def tx_bind_Inr tx_map_err_Inr lock_wallet_with tx_gets_Inr
        tx_return_Inr split: option.splits intro: noop)
next
  case False
  have not_credited: "dp_status d \<noteq> DepCredited" if "find_deposit s h v = Some d" for d
    using False that by simp
  let ?st = "if min_confs coin \<le> confs then DepConfirmed else DepPending"
  have "\<exists>did t. record_deposit wid h v amount confs ?st (find_deposit (with_lock wid s) h v) (with_lock wid s) = Inr (did, t) \<and>
      (if ?st = DepConfirmed
       then tx_bind (credit_recorded wid coin h amount did) (\<lambda>_. tx_return NewlyCredited)
       else tx_return Recorded) t = Inr (outcome, s')"
    using assms False unfolding credit_deposit_tx_def Let_def
    by (simp add: tx_bind_Inr tx_map_err_Inr lock_wallet_with tx_gets_Inr)
  then obtain did t where
    rec: "record_deposit wid h v amount confs ?st (find_deposit (with_lock wid s) h v) (with_lock wid s) = Inr (did, t)" and
    rest: "(if ?st = DepConfirmed
       then tx_bind (credit_recorded wid coin h amount did) (\<lambda>_. tx_return NewlyCredited)
       else tx_return Recorded) t = Inr (outcome, s')"
    by (elim exE conjE) rule
  have rec': "(did, t) = recorded wid h v amount confs ?st (with_lock wid s)"
    using record_deposit_Inr [OF rec] .
  show thesis
  proof (cases "min_confs coin \<le> confs")
    case True
    with rest have "outcome = NewlyCredited" "can_post (deposit_input wid amount did h) t"
      "s' = credited wid coin h amount did t"
      by (simp_all add: tx_bind_Inr tx_return_Inr credit_recorded_Inr)
    with True rec' not_credited show thesis by (intro posted) simp_all
  next
    case F: False
    with rest have "outcome = Recorded" "s' = t" by (simp_all add: tx_return_Inr)
    with F rec' not_credited show thesis by (intro pending) simp_all
  qed
qed


definition orphaned_row :: "int option \<Rightarrow> int \<Rightarrow> deposit_row \<Rightarrow> deposit_row" where
  "orphaned_row onchain ts d = d\<lparr>dp_status := DepOrphaned,
     dp_confirmations := (case onchain of None \<Rightarrow> 0 | Some c \<Rightarrow> c), dp_orphaned_at := Some ts\<rparr>"

definition orphaned :: "uuid \<Rightarrow> int option \<Rightarrow> db \<Rightarrow> db" where
  "orphaned did onchain s = s\<lparr>deposits := update_where (\<lambda>d. dp_id d = did)
     (orphaned_row onchain (clock s)) (deposits s)\<rparr>"

definition held_wallet :: "uuid \<Rightarrow> db \<Rightarrow> db" where
  "held_wallet wid s = s\<lparr>wallets := update_where (\<lambda>r. w_id r = wid)
     (\<lambda>r. r\<lparr>w_reorg_hold_at := Some (clock s)\<rparr>) (wallets s)\<rparr>"

lemma orphan_deposit_Inr [tx_simps]:
  "orphan_deposit did onchain s = Inr (u, s') \<longleftrightarrow> s' = orphaned did onchain s"
  by (simp add: orphan_deposit_def orphaned_def orphaned_row_def [abs_def] tx_simps)

lemma hold_wallet_Inr [tx_simps]: "hold_wallet wid s = Inr (u, s') \<longleftrightarrow> s' = held_wallet wid s"
  by (simp add: hold_wallet_def held_wallet_def tx_simps)

lemma deposit_log_Inr [tx_simps]:
  "deposit_log action did kvs s = Inr (u, s') \<longleftrightarrow>
     s' = audited None action ''Deposit'' (Some did) None (Some (json_object kvs)) s"
  by (simp add: deposit_log_def tx_simps)

lemma orphaned_frame [simp]:
  "wallets (orphaned did oc s) = wallets s" "ledger (orphaned did oc s) = ledger s"
  "next_id (orphaned did oc s) = next_id s" "clock (orphaned did oc s) = clock s"
  "outbox (orphaned did oc s) = outbox s"
  by (simp_all add: orphaned_def)

lemma held_wallet_frame [simp]:
  "ledger (held_wallet w s) = ledger s" "deposits (held_wallet w s) = deposits s"
  "next_id (held_wallet w s) = next_id s" "clock (held_wallet w s) = clock s"
  "outbox (held_wallet w s) = outbox s"
  by (simp_all add: held_wallet_def)

text \<open>What a committed reconciliation did.\<close>

lemma reconcile_deposit_cases:
  assumes "reconcile_deposit_tx wid coin h v onchain s = Inr (True, s')"
  obtains (uncredited) d m where "find_deposit s h v = Some d" "dp_wallet d = wid"
      "dp_status d \<noteq> DepCredited" "dp_status d \<noteq> DepOrphaned"
      "s' = audited None ''DEPOSIT_ORPHANED_UNCREDITED'' ''Deposit'' (Some (dp_id d)) None m
        (orphaned (dp_id d) onchain (with_lock wid s))"
  | (reversed) d m where "find_deposit s h v = Some d" "dp_wallet d = wid" "dp_status d = DepCredited"
      "dp_amount d \<le> wallet_balance s wid"
      "can_post (reversal_input wid (dp_amount d) (dp_id d) (reorg_reason onchain coin))
        (orphaned (dp_id d) onchain (with_lock wid s))"
      "s' = audited None ''DEPOSIT_REORG_REVERSED'' ''Deposit'' (Some (dp_id d)) None m
        (post_entry (reversal_input wid (dp_amount d) (dp_id d) (reorg_reason onchain coin))
          (orphaned (dp_id d) onchain (with_lock wid s)))"
  | (blocked) d m where "find_deposit s h v = Some d" "dp_wallet d = wid" "dp_status d = DepCredited"
      "wallet_balance s wid < dp_amount d"
      "s' = audited None ''DEPOSIT_REORG_REVERSAL_BLOCKED'' ''Deposit'' (Some (dp_id d)) None m
        (held_wallet wid (orphaned (dp_id d) onchain (with_lock wid s)))"
proof (cases "find_deposit s h v")
  case None
  with assms show thesis
    by (simp add: reconcile_deposit_tx_def tx_bind_Inr tx_map_err_Inr lock_wallet_with tx_gets_Inr tx_return_Inr)
next
  case (Some d)
  have d: "dp_wallet d = wid" "dp_status d \<noteq> DepOrphaned"
    using assms Some
    by (auto simp: reconcile_deposit_tx_def tx_bind_Inr tx_map_err_Inr lock_wallet_with tx_gets_Inr
        tx_return_Inr split: if_splits)
  show thesis
  proof (cases "dp_status d = DepCredited")
    case False
    with assms Some d have "\<exists>m. s' = audited None ''DEPOSIT_ORPHANED_UNCREDITED'' ''Deposit'' (Some (dp_id d)) None m
        (orphaned (dp_id d) onchain (with_lock wid s))"
      by (simp add: reconcile_deposit_tx_def Let_def tx_bind_Inr tx_map_err_Inr lock_wallet_with
          tx_gets_Inr tx_return_Inr orphan_deposit_Inr deposit_log_Inr) blast
    with Some d False show thesis by (elim exE) (rule uncredited)
  next
    case True
    show thesis
    proof (cases "dp_amount d \<le> wallet_balance s wid")
      case le: True
      with assms Some d True have "can_post (reversal_input wid (dp_amount d) (dp_id d) (reorg_reason onchain coin))
        (orphaned (dp_id d) onchain (with_lock wid s)) \<and>
        (\<exists>m. s' = audited None ''DEPOSIT_REORG_REVERSED'' ''Deposit'' (Some (dp_id d)) None m
        (post_entry (reversal_input wid (dp_amount d) (dp_id d) (reorg_reason onchain coin))
          (orphaned (dp_id d) onchain (with_lock wid s))))"
        by (simp add: reconcile_deposit_tx_def Let_def tx_bind_Inr tx_map_err_Inr lock_wallet_with
          tx_gets_Inr tx_return_Inr orphan_deposit_Inr deposit_log_Inr get_wallet_balance_Inr
          apply_ledger_entry_Inr) blast
      with Some d True le show thesis by (elim conjE exE) (rule reversed)
    next
      case lt: False
      with assms Some d True have "\<exists>m. s' = audited None ''DEPOSIT_REORG_REVERSAL_BLOCKED'' ''Deposit'' (Some (dp_id d)) None m
        (held_wallet wid (orphaned (dp_id d) onchain (with_lock wid s)))"
        by (simp add: reconcile_deposit_tx_def Let_def tx_bind_Inr tx_map_err_Inr lock_wallet_with
          tx_gets_Inr tx_return_Inr orphan_deposit_Inr deposit_log_Inr get_wallet_balance_Inr
          hold_wallet_Inr) blast
      with Some d True lt show thesis by (elim exE) (rule blocked, simp_all)
    qed
  qed
qed

section \<open>Deposits and their entries\<close>

text \<open>
  Each output of the chain is one deposit at most, and the entries that refer to a deposit are
  at most one credit of its amount and then at most one reversal of it. \<open>out\<close> is the chain:
  the wallet an output pays and the amount it carries.
\<close>

definition dep_entry :: "uuid \<Rightarrow> ledger_type \<Rightarrow> ledger_row \<Rightarrow> bool" where
  "dep_entry did ty e \<longleftrightarrow>
     le_type e = ty \<and> le_reference_id e = Some did \<and> le_reference_type e = Some ''Deposit''"

definition entries_for :: "db \<Rightarrow> uuid \<Rightarrow> ledger_type \<Rightarrow> ledger_row list" where
  "entries_for s did ty = filter (dep_entry did ty) (ledger s)"

definition on_hold :: "db \<Rightarrow> uuid \<Rightarrow> bool" where
  "on_hold s w \<longleftrightarrow> (\<exists>r\<in>set (wallets s). w_id r = w \<and> w_reorg_hold_at r \<noteq> None)"

definition output_of :: "deposit_row \<Rightarrow> string \<times> int" where
  "output_of d = (dp_tx_hash d, dp_vout d)"

definition entries_match :: "deposit_row \<Rightarrow> ledger_row list \<Rightarrow> ledger_row list \<Rightarrow> bool" where
  "entries_match d cr rv \<longleftrightarrow>
     (\<forall>e\<in>set cr. le_wallet e = dp_wallet d \<and> le_amount e = dp_amount d) \<and>
     (\<forall>e\<in>set rv. le_wallet e = dp_wallet d \<and> le_amount e = - dp_amount d)"

text \<open>Not credited, credited (or its reversal blocked by a hold), credited and reversed.\<close>

definition phase_ok :: "deposit_status \<Rightarrow> bool \<Rightarrow> nat \<Rightarrow> nat \<Rightarrow> bool" where
  "phase_ok st held cr rv \<longleftrightarrow>
     cr = 0 \<and> rv = 0 \<and> st \<noteq> DepCredited \<or>
     cr = 1 \<and> rv = 0 \<and> (st = DepCredited \<or> held) \<or>
     cr = 1 \<and> rv = 1 \<and> st \<noteq> DepCredited"

lemma phase_ok_mono: "phase_ok st h cr rv \<Longrightarrow> (h \<Longrightarrow> h') \<Longrightarrow> phase_ok st h' cr rv"
  by (auto simp: phase_ok_def)

definition backed :: "(string \<times> int \<Rightarrow> uuid \<times> int) \<Rightarrow> db \<Rightarrow> deposit_row \<Rightarrow> bool" where
  "backed out s d \<longleftrightarrow>
     (dp_wallet d, dp_amount d) = out (output_of d) \<and>
     entries_match d (entries_for s (dp_id d) DEPOSIT) (entries_for s (dp_id d) DEPOSIT_REVERSAL) \<and>
     phase_ok (dp_status d) (on_hold s (dp_wallet d))
       (length (entries_for s (dp_id d) DEPOSIT)) (length (entries_for s (dp_id d) DEPOSIT_REVERSAL))"

definition deposits_ok :: "(string \<times> int \<Rightarrow> uuid \<times> int) \<Rightarrow> db \<Rightarrow> bool" where
  "deposits_ok out s \<longleftrightarrow>
     distinct (map output_of (deposits s)) \<and> distinct (map dp_id (deposits s)) \<and>
     (\<forall>d\<in>set (deposits s). dp_id d < next_id s \<and> backed out s d) \<and>
     (\<forall>e\<in>set (ledger s). le_type e \<in> {DEPOSIT, DEPOSIT_REVERSAL} \<and>
        le_reference_type e = Some ''Deposit'' \<longrightarrow>
        (\<exists>d\<in>set (deposits s). le_reference_id e = Some (dp_id d)))"

lemma find_deposit_Some:
  "find_deposit s h v = Some d \<Longrightarrow> d \<in> set (deposits s) \<and> output_of d = (h, v)"
  by (auto simp: find_deposit_def output_of_def dest!: find_Some_props)

lemma find_deposit_None:
  "find_deposit s h v = None \<longleftrightarrow> (h, v) \<notin> output_of ` set (deposits s)"
  by (auto simp: find_deposit_def output_of_def find_None_iff)

lemma entries_for_append:
  "ledger t = ledger s @ new \<Longrightarrow>
     entries_for t did ty = entries_for s did ty @ filter (dep_entry did ty) new"
  by (simp add: entries_for_def)

lemma entries_for_same: "ledger t = ledger s \<Longrightarrow> entries_for t did ty = entries_for s did ty"
  by (simp add: entries_for_def)

lemma backed_cong:
  assumes "backed out s d"
    and "entries_for t (dp_id d) DEPOSIT = entries_for s (dp_id d) DEPOSIT"
    and "entries_for t (dp_id d) DEPOSIT_REVERSAL = entries_for s (dp_id d) DEPOSIT_REVERSAL"
    and "\<And>w. on_hold s w \<Longrightarrow> on_hold t w"
  shows "backed out t d"
proof -
  have "phase_ok (dp_status d) (on_hold t (dp_wallet d))
       (length (entries_for s (dp_id d) DEPOSIT)) (length (entries_for s (dp_id d) DEPOSIT_REVERSAL))"
    by (rule phase_ok_mono [of _ "on_hold s (dp_wallet d)"])
      (use assms(1) in \<open>simp add: backed_def\<close>, rule assms(4))
  with assms(1-3) show ?thesis by (simp add: backed_def)
qed

text \<open>Another operation: it appends entries of other kinds and never lifts a hold.\<close>

definition unrelated :: "ledger_row \<Rightarrow> bool" where
  "unrelated e \<longleftrightarrow>
     \<not> (le_type e \<in> {DEPOSIT, DEPOSIT_REVERSAL} \<and> le_reference_type e = Some ''Deposit'')"

lemma unrelated_filter:
  "\<forall>e\<in>set new. unrelated e \<Longrightarrow> ty \<in> {DEPOSIT, DEPOSIT_REVERSAL} \<Longrightarrow> filter (dep_entry did ty) new = []"
  by (auto simp: unrelated_def dep_entry_def filter_empty_conv)

lemma backed_unrelated:
  assumes "backed out s d" and "ledger t = ledger s @ new" and "\<forall>e\<in>set new. unrelated e"
    and "\<And>w. on_hold s w \<Longrightarrow> on_hold t w"
  shows "backed out t d"
proof (rule backed_cong [OF assms(1)])
  show "entries_for t (dp_id d) DEPOSIT = entries_for s (dp_id d) DEPOSIT"
    and "entries_for t (dp_id d) DEPOSIT_REVERSAL = entries_for s (dp_id d) DEPOSIT_REVERSAL"
    by (simp_all add: entries_for_append [OF assms(2)] unrelated_filter [OF assms(3)])
qed (rule assms(4))

lemma deposits_ok_unrelated:
  assumes "deposits_ok out s" and "deposits t = deposits s" and "ledger t = ledger s @ new"
    and "\<forall>e\<in>set new. unrelated e" and "\<And>w. on_hold s w \<Longrightarrow> on_hold t w" and "next_id s \<le> next_id t"
  shows "deposits_ok out t"
proof -
  have "backed out t d" if "d \<in> set (deposits s)" for d
    using assms(1) that by (intro backed_unrelated [OF _ assms(3-5)]) (simp add: deposits_ok_def)
  moreover have "dp_id d < next_id t" if "d \<in> set (deposits s)" for d
    using assms(1,6) that unfolding deposits_ok_def by (meson order.strict_trans2)
  moreover have "\<exists>d\<in>set (deposits s). le_reference_id e = Some (dp_id d)"
    if "e \<in> set (ledger t)" "\<not> unrelated e" for e
  proof -
    have "e \<in> set (ledger s)" using assms(3,4) that by auto
    with assms(1) that(2) show ?thesis by (simp add: deposits_ok_def unrelated_def)
  qed
  ultimately show ?thesis
    using assms(1,2) by (simp add: deposits_ok_def unrelated_def)
qed

text \<open>A change of one row, with entries that refer to it.\<close>

lemma deposits_ok_update:
  assumes ok: "deposits_ok out s" and d: "d \<in> set (deposits s)"
    and dt: "deposits t = update_where (\<lambda>x. dp_id x = dp_id d) f (deposits s)"
    and keep: "\<And>x. dp_id (f x) = dp_id x \<and> output_of (f x) = output_of x"
    and lt: "ledger t = ledger s @ new"
    and own: "\<forall>e\<in>set new. le_reference_id e = Some (dp_id d)"
    and hold: "\<And>w. on_hold s w \<Longrightarrow> on_hold t w" and nid: "next_id s \<le> next_id t"
    and bck: "backed out t (f d)"
  shows "deposits_ok out t"
proof -
  have uniq: "x = d" if "x \<in> set (deposits s)" "dp_id x = dp_id d" for x
    using ok d that by (auto simp: deposits_ok_def distinct_map dest: inj_onD)
  have rows: "dp_id x < next_id t \<and> backed out t x" if x: "x \<in> set (deposits t)" for x
  proof -
    obtain x0 where x0: "x0 \<in> set (deposits s)" "x = (if dp_id x0 = dp_id d then f x0 else x0)"
      using x by (auto simp: dt in_set_update_where)
    have lt0: "dp_id x0 < next_id s" "backed out s x0" using ok x0(1) by (simp_all add: deposits_ok_def)
    show ?thesis
    proof (cases "dp_id x0 = dp_id d")
      case True
      with x0 uniq [OF x0(1)] have "x = f d" by simp
      then show ?thesis using bck keep [of d] lt0(1) True nid by simp
    next
      case False
      have "filter (dep_entry (dp_id x0) ty) new = []" for ty
        using own False by (auto simp: filter_empty_conv dep_entry_def)
      then have same: "entries_for t (dp_id x0) ty = entries_for s (dp_id x0) ty" for ty
        by (simp add: entries_for_append [OF lt])
      have "backed out t x0" by (rule backed_cong [OF lt0(2) same same hold])
      with False x0(2) lt0(1) nid show ?thesis by simp
    qed
  qed
  have maps: "map output_of (deposits t) = map output_of (deposits s)"
    "map dp_id (deposits t) = map dp_id (deposits s)"
    unfolding dt by (simp_all add: map_update_where keep)
  have owned: "\<exists>x\<in>set (deposits t). le_reference_id e = Some (dp_id x)"
    if e: "e \<in> set (ledger t)" "le_type e \<in> {DEPOSIT, DEPOSIT_REVERSAL}" "le_reference_type e = Some ''Deposit''" for e
  proof -
    have "\<exists>x\<in>set (deposits s). le_reference_id e = Some (dp_id x)"
    proof (cases "e \<in> set (ledger s)")
      case True
      with ok e(2,3) show ?thesis by (simp add: deposits_ok_def)
    next
      case False
      with e(1) lt own d show ?thesis by auto
    qed
    then obtain i where "le_reference_id e = Some i" and "i \<in> dp_id ` set (deposits s)" by auto
    moreover have "dp_id ` set (deposits t) = dp_id ` set (deposits s)"
      using maps(2) by (metis set_map)
    ultimately show ?thesis by auto
  qed
  show ?thesis using ok rows owned by (simp add: deposits_ok_def maps)
qed


section \<open>The steps keep it\<close>

lemma deposits_ok_insert:
  assumes ok: "deposits_ok out s" and new: "(h, v) \<notin> output_of ` set (deposits s)"
    and chain: "out (h, v) = (wid, amount)" and st: "st \<noteq> DepCredited"
  shows "deposits_ok out (s\<lparr>next_id := Suc (next_id s),
    deposits := deposits s @ [new_deposit wid h v amount confs st (next_id s) (clock s)]\<rparr>)"
    (is "deposits_ok out ?t")
proof -
  let ?d = "new_deposit wid h v amount confs st (next_id s) (clock s)"
  have old: "backed out ?t d" if "d \<in> set (deposits s)" for d
    using ok that by (intro backed_cong [of out s d ?t])
      (simp_all add: deposits_ok_def entries_for_def on_hold_def)
  have none: "entries_for ?t (next_id s) ty = []" if "ty \<in> {DEPOSIT, DEPOSIT_REVERSAL}" for ty
  proof -
    have "\<not> dep_entry (next_id s) ty e" if e: "e \<in> set (ledger s)" for e
    proof
      assume "dep_entry (next_id s) ty e"
      with \<open>ty \<in> _\<close> e ok obtain d where "d \<in> set (deposits s)" "next_id s = dp_id d"
        unfolding deposits_ok_def dep_entry_def by fastforce
      with ok show False by (auto simp: deposits_ok_def)
    qed
    then show ?thesis by (simp add: entries_for_def filter_empty_conv)
  qed
  have "backed out ?t ?d"
    using chain st none [of DEPOSIT] none [of DEPOSIT_REVERSAL]
    by (simp add: backed_def new_deposit_def output_of_def entries_match_def phase_ok_def)
  moreover have "dp_id ?d = next_id s" and "output_of ?d = (h, v)"
    by (simp_all add: new_deposit_def output_of_def)
  moreover have "next_id s \<notin> dp_id ` set (deposits s)" using ok by (auto simp: deposits_ok_def)
  ultimately show ?thesis
    using ok old new unfolding deposits_ok_def by (simp add: less_Suc_eq)
qed

lemma deposits_ok_with_lock: "deposits_ok out s \<Longrightarrow> deposits_ok out (with_lock w s)"
  by (erule deposits_ok_unrelated [where new = "[]"]) (simp_all add: on_hold_def)

lemma deposits_ok_recorded:
  assumes ok: "deposits_ok out s" and chain: "out (h, v) = (wid, amount)" and st: "st \<noteq> DepCredited"
    and not_credited: "\<And>d. find_deposit s h v = Some d \<Longrightarrow> dp_status d \<noteq> DepCredited"
    and r: "(did, t) = recorded wid h v amount confs st s"
  shows "deposits_ok out t \<and> (\<exists>d\<in>set (deposits t). dp_id d = did \<and> dp_status d = st \<and> output_of d = (h, v))"
proof (cases "find_deposit s h v")
  case None
  with r have t: "t = s\<lparr>next_id := Suc (next_id s),
      deposits := deposits s @ [new_deposit wid h v amount confs st (next_id s) (clock s)]\<rparr>" "did = next_id s"
    by (simp_all add: recorded_def)
  show ?thesis
    using deposits_ok_insert [OF ok _ chain st] None unfolding t find_deposit_None
    by (simp add: new_deposit_def output_of_def)
next
  case (Some d)
  let ?f = "\<lambda>x. x\<lparr>dp_confirmations := confs, dp_status := st\<rparr>"
  have d: "d \<in> set (deposits s)" "output_of d = (h, v)" using find_deposit_Some [OF Some] by simp_all
  have t: "t = s\<lparr>deposits := update_where (\<lambda>x. dp_id x = dp_id d) ?f (deposits s)\<rparr>" "did = dp_id d"
    using r Some by (simp_all add: recorded_def)
  have b: "backed out s d" using ok d by (simp add: deposits_ok_def)
  have "backed out t (?f d)"
    using b not_credited [OF Some] st
    by (auto simp: backed_def output_of_def entries_match_def phase_ok_def t entries_for_def on_hold_def)
  then have "deposits_ok out t"
    by (intro deposits_ok_update [OF ok d(1), where f = ?f and new = "[]"])
      (simp_all add: t output_of_def on_hold_def)
  moreover have "?f d \<in> set (deposits t)" 
    using d(1) by (simp add: t in_set_update_where) (rule bexI [of _ d], simp_all)
  ultimately show ?thesis using d(2) t(2) by (intro conjI bexI [of _ "?f d"]) (simp_all add: output_of_def)
qed

lemma credited_frame [simp]:
  "wallets (credited w c h a did t) = wallets t"
  "ledger (credited w c h a did t) = ledger t @ [entry_of (deposit_input w a did h) (next_id t) (clock t)]"
  "deposits (credited w c h a did t) =
     update_where (\<lambda>d. dp_id d = did) (credited_row (clock t)) (deposits t)"
  "next_id (credited w c h a did t) = next_id t + 2"
  "outbox (credited w c h a did t) = outbox t @
     [outbox_row_of (deposit_event w did c a h (clock t)) (Suc (next_id t)) (clock t)]"
  "clock (credited w c h a did t) = clock t"
  by (simp_all add: credited_def)

lemma deposit_input_sel [simp]:
  "in_wallet_id (deposit_input w a did h) = w" "in_amount (deposit_input w a did h) = a"
  "in_type (deposit_input w a did h) = DEPOSIT"
  "in_reference_id (deposit_input w a did h) = Some did"
  "in_reference_type (deposit_input w a did h) = Some ''Deposit''"
  "in_wallet_id (reversal_input w a did m) = w" "in_amount (reversal_input w a did m) = - a"
  "in_type (reversal_input w a did m) = DEPOSIT_REVERSAL"
  "in_reference_id (reversal_input w a did m) = Some did"
  "in_reference_type (reversal_input w a did m) = Some ''Deposit''"
  by (simp_all add: deposit_input_def reversal_input_def simple_input_def)

lemma deposits_ok_credited:
  assumes ok: "deposits_ok out t" and d: "d \<in> set (deposits t)" "dp_id d = did" "dp_status d \<noteq> DepCredited"
    and chain: "out (output_of d) = (wid, amount)"
    and post: "can_post (deposit_input wid amount did h) t"
  shows "deposits_ok out (credited wid coin h amount did t)" (is "deposits_ok out ?t")
proof -
  have b: "backed out t d" using ok d(1) by (simp add: deposits_ok_def)
  have d': "dp_wallet d = wid" "dp_amount d = amount" using b chain by (simp_all add: backed_def)
  have "entries_for t did DEPOSIT = []"
  proof (rule ccontr)
    assume "entries_for t did DEPOSIT \<noteq> []"
    then obtain e where e: "e \<in> set (entries_for t did DEPOSIT)" by (cases "entries_for t did DEPOSIT") auto
    then have "le_wallet e = wid" using b d(2) d'(1) by (simp add: backed_def entries_match_def)
    with e have "reference_conflict (deposit_input wid amount did h) e" and "e \<in> set (ledger t)"
      by (simp_all add: reference_conflict_def entries_for_def dep_entry_def)
    with post show False by (auto simp: can_post_def)
  qed
  moreover from this have "entries_for t did DEPOSIT_REVERSAL = []"
    using b d(2) by (simp add: backed_def phase_ok_def)
  moreover have "ledger ?t = ledger t @ [entry_of (deposit_input wid amount did h) (next_id t) (clock t)]"
    by simp
  note entries_for_append [OF this]
  ultimately have "entries_for ?t did DEPOSIT = [entry_of (deposit_input wid amount did h) (next_id t) (clock t)]"
    and "entries_for ?t did DEPOSIT_REVERSAL = []"
    by (simp_all add: dep_entry_def)
  then have "backed out ?t (credited_row (clock t) d)"
    using b d(2) d' by (simp add: backed_def credited_row_def output_of_def entries_match_def phase_ok_def)
  then show ?thesis
    by (intro deposits_ok_update [OF ok d(1), where f = "credited_row (clock t)"
        and new = "[entry_of (deposit_input wid amount did h) (next_id t) (clock t)]"])
      (simp_all add: d(2) credited_row_def output_of_def on_hold_def)
qed

lemma deposits_ok_release: "deposits_ok out s \<Longrightarrow> deposits_ok out (release_locks s)"
  by (erule deposits_ok_unrelated [where new = "[]"]) (simp_all add: on_hold_def release_locks_def)

lemma deposits_ok_audited: "deposits_ok out s \<Longrightarrow> deposits_ok out (audited u a e i ip m s)"
  by (erule deposits_ok_unrelated [where new = "[]"]) (simp_all add: on_hold_def)

lemma deposits_ok_orphan_uncredited:
  assumes ok: "deposits_ok out s" and d: "d \<in> set (deposits s)" "dp_status d \<noteq> DepCredited"
  shows "deposits_ok out (orphaned (dp_id d) oc s)"
proof -
  have b: "backed out s d" using ok d(1) by (simp add: deposits_ok_def)
  have "backed out (orphaned (dp_id d) oc s) (orphaned_row oc (clock s) d)"
    using b d(2)
    by (auto simp: backed_def orphaned_row_def output_of_def entries_match_def phase_ok_def
        entries_for_def on_hold_def)
  then show ?thesis
    by (intro deposits_ok_update [OF ok d(1), where f = "orphaned_row oc (clock s)" and new = "[]"])
      (simp_all add: orphaned_def orphaned_row_def output_of_def on_hold_def)
qed

lemma credited_counts:
  assumes "backed out s d" and "dp_status d = DepCredited"
  shows "length (entries_for s (dp_id d) DEPOSIT) = 1" and "entries_for s (dp_id d) DEPOSIT_REVERSAL = []"
  using assms by (auto simp: backed_def phase_ok_def)

lemma deposits_ok_reversed:
  assumes ok: "deposits_ok out s" and d: "d \<in> set (deposits s)" "dp_status d = DepCredited"
  shows "deposits_ok out (post_entry (reversal_input (dp_wallet d) (dp_amount d) (dp_id d) m)
    (orphaned (dp_id d) oc s))" (is "deposits_ok out ?t")
proof -
  let ?e = "entry_of (reversal_input (dp_wallet d) (dp_amount d) (dp_id d) m) (next_id s) (clock s)"
  have b: "backed out s d" using ok d(1) by (simp add: deposits_ok_def)
  have l: "ledger ?t = ledger s @ [?e]" by simp
  have "entries_for ?t (dp_id d) DEPOSIT = entries_for s (dp_id d) DEPOSIT"
    and "entries_for ?t (dp_id d) DEPOSIT_REVERSAL = [?e]"
    unfolding entries_for_append [OF l] credited_counts(2) [OF b d(2)] by (simp_all add: dep_entry_def)
  then have "backed out ?t (orphaned_row oc (clock s) d)"
    using b credited_counts(1) [OF b d(2)]
    by (simp add: backed_def orphaned_row_def output_of_def entries_match_def phase_ok_def)
  then show ?thesis
    by (intro deposits_ok_update [OF ok d(1), where f = "orphaned_row oc (clock s)" and new = "[?e]"])
      (simp_all add: orphaned_def orphaned_row_def output_of_def on_hold_def)
qed

lemma on_hold_held_wallet:
  "on_hold (held_wallet wid s) w \<longleftrightarrow> on_hold s w \<or> w = wid \<and> wid \<in> w_id ` set (wallets s)"
proof -
  have "(\<exists>r\<in>set (update_where (\<lambda>r. w_id r = wid) (\<lambda>r. r\<lparr>w_reorg_hold_at := Some ts\<rparr>) ws).
      w_id r = w \<and> w_reorg_hold_at r \<noteq> None) \<longleftrightarrow>
    (\<exists>r\<in>set ws. w_id r = w \<and> w_reorg_hold_at r \<noteq> None) \<or> w = wid \<and> wid \<in> w_id ` set ws" for ws ts
    by (induction ws) auto
  then show ?thesis by (simp add: on_hold_def held_wallet_def)
qed

lemma deposits_ok_blocked:
  assumes ok: "deposits_ok out s" and d: "d \<in> set (deposits s)" "dp_status d = DepCredited"
    and w: "dp_wallet d \<in> w_id ` set (wallets s)"
  shows "deposits_ok out (held_wallet (dp_wallet d) (orphaned (dp_id d) oc s))" (is "deposits_ok out ?t")
proof -
  have b: "backed out s d" using ok d(1) by (simp add: deposits_ok_def)
  have hold: "on_hold ?t (dp_wallet d)" using w by (simp add: on_hold_held_wallet)
  have "entries_for ?t (dp_id d) ty = entries_for s (dp_id d) ty" for ty by (simp add: entries_for_def)
  then have "backed out ?t (orphaned_row oc (clock s) d)"
    using b hold credited_counts [OF b d(2)]
    by (simp add: backed_def orphaned_row_def output_of_def entries_match_def phase_ok_def)
  moreover have "on_hold ?t w" if "on_hold s w" for w
    using that by (simp add: on_hold_held_wallet) (simp add: on_hold_def)
  ultimately show ?thesis
    by (intro deposits_ok_update [OF ok d(1), where f = "orphaned_row oc (clock s)" and new = "[]"])
      (simp_all add: orphaned_def orphaned_row_def output_of_def)
qed

lemma books_ok_wallet_columns:
  assumes "books_ok s" and "wallets t = update_where p f (wallets s)" and "ledger t = ledger s"
    and "next_id s \<le> next_id t"
    and "\<And>r. w_id (f r) = w_id r \<and> w_user (f r) = w_user r \<and> w_coin (f r) = w_coin r \<and> w_kind (f r) = w_kind r"
  shows "books_ok t"
proof -
  have m: "map w_id (wallets t) = map w_id (wallets s)"
    "map (\<lambda>r. (w_user r, w_coin r, w_kind r)) (wallets t) = map (\<lambda>r. (w_user r, w_coin r, w_kind r)) (wallets s)"
    unfolding assms(2) by (simp_all add: map_update_where assms(5))
  have ids: "(\<forall>r\<in>set (wallets t). P (w_id r)) \<longleftrightarrow> (\<forall>r\<in>set (wallets s). P (w_id r))" for P
    using arg_cong [OF m(1), of "\<lambda>l. \<forall>i\<in>set l. P i"] by simp
  have bal: "wallet_balance t w = wallet_balance s w" for w using assms(3) by (rule wallet_balance_frame)
  from assms(1) have s: "distinct (map w_id (wallets s))"
    "distinct (map (\<lambda>r. (w_user r, w_coin r, w_kind r)) (wallets s))"
    "\<forall>r\<in>set (wallets s). w_id r < next_id s" "entries_owned s" "references_unique s" "solvent s"
    by (simp_all add: books_ok_def wallets_wf_def)
  have "\<forall>r\<in>set (wallets s). w_id r < next_id t" using s(3) assms(4) by force
  then have "\<forall>r\<in>set (wallets t). w_id r < next_id t" using ids [of "\<lambda>i. i < next_id t"] by simp
  then have "wallets_wf t" unfolding wallets_wf_def m using s(1,2) by simp
  moreover have "entries_owned t" using s(4) by (simp only: entries_owned_def m assms(3))
  moreover have "references_unique t" using s(5) assms(3) by (simp add: references_unique_def)
  moreover have "solvent t" using s(6) ids [of "\<lambda>i. 0 \<le> wallet_balance s i"] by (simp add: solvent_def bal)
  ultimately show ?thesis by (simp add: books_ok_def)
qed

lemma books_ok_with_lock: "books_ok s \<Longrightarrow> books_ok (with_lock w s)"
  by (erule books_ok_cong [rotated -1]) simp_all

lemma books_ok_orphaned: "books_ok s \<Longrightarrow> books_ok (orphaned d oc s)"
  by (erule books_ok_cong [rotated -1]) simp_all

lemma books_ok_held: "books_ok s \<Longrightarrow> books_ok (held_wallet w s)"
  by (erule books_ok_wallet_columns [where p = "\<lambda>r. w_id r = w"
        and f = "\<lambda>r. r\<lparr>w_reorg_hold_at := Some (clock s)\<rparr>"]) (simp_all add: held_wallet_def)

lemma books_ok_recorded: "books_ok s \<Longrightarrow> books_ok (snd (recorded w h v a c st s))"
  by (erule books_ok_cong [rotated -1]) simp_all

lemma books_ok_credited:
  "books_ok t \<Longrightarrow> can_post (deposit_input w a did h) t \<Longrightarrow> books_ok (credited w coin h a did t)"
  by (rule books_ok_cong [OF _ _ _ books_ok_post [of "deposit_input w a did h" t]]) simp_all

section \<open>Runs\<close>

text \<open>
  The watcher's calls about the outputs of one chain, in any order and with any confirmation
  counts, between any other operations that post entries of other kinds, leave the deposits
  alone and never lift a hold.
\<close>

inductive deposit_step :: "(string \<times> int \<Rightarrow> uuid \<times> int) \<Rightarrow> db \<Rightarrow> db \<Rightarrow> bool" for out where
  credit: "out (h, v) = (wid, amount) \<Longrightarrow> credit_deposit wid coin h v amount confs s = (r, s') \<Longrightarrow>
    deposit_step out s s'"
| reconcile: "out (h, v) = (wid, amount) \<Longrightarrow> reconcile_deposit wid coin h v onchain s = (r, s') \<Longrightarrow>
    deposit_step out s s'"
| other: "deposits t = deposits s \<Longrightarrow> ledger t = ledger s @ new \<Longrightarrow> \<forall>e\<in>set new. unrelated e \<Longrightarrow>
    (\<And>w. on_hold s w \<Longrightarrow> on_hold t w) \<Longrightarrow> next_id s \<le> next_id t \<Longrightarrow> (books_ok s \<Longrightarrow> books_ok t) \<Longrightarrow>
    deposit_step out s t"

lemma credit_step_ok:
  assumes run: "credit_deposit wid coin h v amount confs s = (r, s')"
    and chain: "out (h, v) = (wid, amount)" and ok: "deposits_ok out s" and books: "books_ok s"
  shows "deposits_ok out s' \<and> books_ok s'"
proof (cases "credit_deposit_tx wid coin h v amount confs s")
  case (Inl e)
  with run ok books show ?thesis by (simp add: credit_deposit_def)
next
  case (Inr p)
  obtain oc t where p: "p = (oc, t)" by (cases p)
  from Inr p have tx: "credit_deposit_tx wid coin h v amount confs s = Inr (oc, t)" by simp
  have okl: "deposits_ok out (with_lock wid s)" "books_ok (with_lock wid s)"
    using ok books by (simp_all add: deposits_ok_with_lock books_ok_with_lock)
  show ?thesis
  proof (rule credit_deposit_cases [OF tx])
    fix d assume "oc = Noop"
    with run tx ok books show ?thesis by (simp add: credit_deposit_def)
  next
    fix did
    assume oc: "oc = Recorded" and nc: "\<And>d. find_deposit s h v = Some d \<Longrightarrow> dp_status d \<noteq> DepCredited"
      and r: "(did, t) = recorded wid h v amount confs DepPending (with_lock wid s)"
    have "deposits_ok out t" using deposits_ok_recorded [OF okl(1) chain _ _ r] nc by simp
    moreover have "books_ok t" using books_ok_recorded [OF okl(2)] r by (metis snd_conv)
    moreover have "s' = release_locks t" using run tx oc by (simp add: credit_deposit_def)
    ultimately show ?thesis by (simp add: deposits_ok_release books_ok_release)
  next
    fix did u
    assume oc: "oc = NewlyCredited" and nc: "\<And>d. find_deposit s h v = Some d \<Longrightarrow> dp_status d \<noteq> DepCredited"
      and r: "(did, u) = recorded wid h v amount confs DepConfirmed (with_lock wid s)"
      and post: "can_post (deposit_input wid amount did h) u"
      and t: "t = credited wid coin h amount did u"
    have u: "deposits_ok out u \<and> (\<exists>d\<in>set (deposits u). dp_id d = did \<and> dp_status d = DepConfirmed \<and> output_of d = (h, v))"
      using deposits_ok_recorded [OF okl(1) chain _ _ r] nc by simp
    then obtain d where d: "d \<in> set (deposits u)" "dp_id d = did" "dp_status d = DepConfirmed" "output_of d = (h, v)"
      by blast
    have "deposits_ok out t"
      unfolding t using u by (intro deposits_ok_credited [OF _ d(1,2) _ _ post]) (simp_all add: d chain)
    moreover have "books_ok u" using books_ok_recorded [OF okl(2)] r by (metis snd_conv)
    then have "books_ok t" unfolding t using post by (rule books_ok_credited)
    moreover have "s' = release_locks t" using run tx oc by (simp add: credit_deposit_def)
    ultimately show ?thesis by (simp add: deposits_ok_release books_ok_release)
  qed
qed

lemma reconcile_step_ok:
  assumes run: "reconcile_deposit wid coin h v onchain s = (r, s')"
    and ok: "deposits_ok out s" and books: "books_ok s"
  shows "deposits_ok out s' \<and> books_ok s'"
proof (cases "s' = s")
  case True
  with ok books show ?thesis by simp
next
  case False
  then obtain t where tx: "reconcile_deposit_tx wid coin h v onchain s = Inr (True, t)" and s': "s' = release_locks t"
    using run by (auto simp: reconcile_deposit_def split: if_splits sum.splits bool.splits)
  let ?l = "with_lock wid s"
  have okl: "deposits_ok out ?l" "books_ok ?l"
    using ok books by (simp_all add: deposits_ok_with_lock books_ok_with_lock)
  have "deposits_ok out t \<and> books_ok t"
  proof (rule reconcile_deposit_cases [OF tx])
    fix d m
    assume d: "find_deposit s h v = Some d" "dp_status d \<noteq> DepCredited"
      and t: "t = audited None ''DEPOSIT_ORPHANED_UNCREDITED'' ''Deposit'' (Some (dp_id d)) None m (orphaned (dp_id d) onchain ?l)"
    have "d \<in> set (deposits ?l)" using find_deposit_Some [OF d(1)] by simp
    from deposits_ok_orphan_uncredited [OF okl(1) this d(2)] okl(2) show ?thesis
      unfolding t by (simp add: deposits_ok_audited books_ok_audited books_ok_orphaned)
  next
    fix d m
    assume d: "find_deposit s h v = Some d" "dp_wallet d = wid" "dp_status d = DepCredited"
      and post: "can_post (reversal_input wid (dp_amount d) (dp_id d) (reorg_reason onchain coin)) (orphaned (dp_id d) onchain ?l)"
      and t: "t = audited None ''DEPOSIT_REORG_REVERSED'' ''Deposit'' (Some (dp_id d)) None m
        (post_entry (reversal_input wid (dp_amount d) (dp_id d) (reorg_reason onchain coin)) (orphaned (dp_id d) onchain ?l))"
    have "d \<in> set (deposits ?l)" using find_deposit_Some [OF d(1)] by simp
    from deposits_ok_reversed [OF okl(1) this d(3)] d(2) books_ok_post [OF post] okl(2) show ?thesis
      unfolding t by (simp add: deposits_ok_audited books_ok_audited books_ok_orphaned)
  next
    fix d m
    assume d: "find_deposit s h v = Some d" "dp_wallet d = wid" "dp_status d = DepCredited"
      and t: "t = audited None ''DEPOSIT_REORG_REVERSAL_BLOCKED'' ''Deposit'' (Some (dp_id d)) None m
        (held_wallet wid (orphaned (dp_id d) onchain ?l))"
    have din: "d \<in> set (deposits ?l)" using find_deposit_Some [OF d(1)] by simp
    have b: "backed out ?l d" using okl(1) din by (simp add: deposits_ok_def)
    obtain e where e: "e \<in> set (entries_for ?l (dp_id d) DEPOSIT)"
      using credited_counts(1) [OF b d(3)] by (cases "entries_for ?l (dp_id d) DEPOSIT") auto
    then have "le_wallet e = dp_wallet d" and "e \<in> set (ledger ?l)"
      using b by (simp_all add: backed_def entries_match_def entries_for_def)
    then have "dp_wallet d \<in> w_id ` set (wallets ?l)" using okl(2) 
      unfolding books_ok_def entries_owned_def by (metis set_map)
    from deposits_ok_blocked [OF okl(1) din d(3) this] d(2) okl(2) show ?thesis
      unfolding t by (simp add: deposits_ok_audited books_ok_audited books_ok_orphaned books_ok_held)
  qed
  then show ?thesis unfolding s' by (simp add: deposits_ok_release books_ok_release)
qed

lemma deposit_step_ok:
  "deposit_step out s s' \<Longrightarrow> deposits_ok out s \<Longrightarrow> books_ok s \<Longrightarrow> deposits_ok out s' \<and> books_ok s'"
proof (induction rule: deposit_step.induct)
  case (credit h v wid amount coin confs s r s')
  then show ?case by (intro credit_step_ok)
next
  case (reconcile h v wid amount coin onchain s r s')
  then show ?case by (intro reconcile_step_ok)
next
  case (other t s new)
  then show ?case by (intro conjI deposits_ok_unrelated [OF other.prems(1) other.hyps(1-5)]) simp
qed

section \<open>Properties\<close>

text \<open>The entries of a deposit: none, one credit, or one credit and one reversal, all of its amount.\<close>

definition accounted :: "db \<Rightarrow> deposit_row \<Rightarrow> bool" where
  "accounted s d \<longleftrightarrow>
     (\<exists>credits reversals. entries_for s (dp_id d) DEPOSIT = credits \<and>
        entries_for s (dp_id d) DEPOSIT_REVERSAL = reversals \<and>
        map (\<lambda>e. (le_wallet e, le_amount e)) credits \<in> {[], [(dp_wallet d, dp_amount d)]} \<and>
        map (\<lambda>e. (le_wallet e, le_amount e)) reversals \<in> {[], [(dp_wallet d, - dp_amount d)]} \<and>
        (credits = [] \<longrightarrow> reversals = []) \<and>
        (dp_status d = DepCredited \<longrightarrow> credits \<noteq> [] \<and> reversals = []) \<and>
        (credits \<noteq> [] \<longrightarrow> reversals = [] \<longrightarrow> dp_status d = DepCredited \<or> on_hold s (dp_wallet d)))"

lemma backed_accounted:
  assumes "backed out s d"
  shows "accounted s d"
proof -
  let ?cr = "entries_for s (dp_id d) DEPOSIT" and ?rv = "entries_for s (dp_id d) DEPOSIT_REVERSAL"
  have single: "length es = 1 \<Longrightarrow> \<forall>e\<in>set es. le_wallet e = w \<and> le_amount e = x \<Longrightarrow>
      map (\<lambda>e. (le_wallet e, le_amount e)) es = [(w, x)]" for es w x
    by (cases es) auto
  have "entries_match d ?cr ?rv" and "phase_ok (dp_status d) (on_hold s (dp_wallet d)) (length ?cr) (length ?rv)"
    using assms by (simp_all add: backed_def)
  then show ?thesis
    using single [of ?cr "dp_wallet d" "dp_amount d"] single [of ?rv "dp_wallet d" "- dp_amount d"]
    unfolding accounted_def phase_ok_def entries_match_def by auto
qed

text \<open>
  C21. The ledger credits exactly what the chain backs. After any run of credits and
  reconciliations of the outputs of a chain, mixed with any other operations, every output is
  one deposit at most, with the wallet and the amount of the output. The entries that refer to a deposit
  are one credit at most, of its amount on its wallet, and then one reversal at most, of the same
  amount: exactly the credit while the deposit is credited, and a credit without a credited status and
  without its reversal is left only on a wallet that is on hold. Every deposit entry of the ledger refers to
  one of these deposits, and no balance is negative.
\<close>

theorem deposits_match_chain:
  assumes "(deposit_step out)\<^sup>*\<^sup>* s s'" and "deposits s = []" and "\<forall>e\<in>set (ledger s). unrelated e"
    and "books_ok s"
  shows "books_ok s' \<and> distinct (map output_of (deposits s')) \<and>
    (\<forall>d\<in>set (deposits s'). (dp_wallet d, dp_amount d) = out (output_of d) \<and> accounted s' d) \<and>
    (\<forall>e\<in>set (ledger s'). le_type e \<in> {DEPOSIT, DEPOSIT_REVERSAL} \<and> le_reference_type e = Some ''Deposit'' \<longrightarrow>
       (\<exists>d\<in>set (deposits s'). le_reference_id e = Some (dp_id d)))"
proof -
  have "deposits_ok out s" using assms(2,3) by (auto simp: deposits_ok_def unrelated_def)
  with assms(1,4) have ok: "deposits_ok out s' \<and> books_ok s'"
  proof (induction rule: rtranclp_induct)
    case (step t u)
    then show ?case using deposit_step_ok by blast
  qed simp
  then have b: "backed out s' d" if "d \<in> set (deposits s')" for d using that by (simp add: deposits_ok_def)
  have "(dp_wallet d, dp_amount d) = out (output_of d)" if "d \<in> set (deposits s')" for d
    using b [OF that] by (simp add: backed_def)
  with ok backed_accounted [OF b] show ?thesis by (simp add: deposits_ok_def)
qed

lemma credited_rows:
  "\<forall>d\<in>set (update_where (\<lambda>d. dp_id d = i) (credited_row ts) rows). dp_id d = i \<longrightarrow> dp_status d = DepCredited"
  by (induction rows) (simp_all add: credited_row_def)

text \<open>
  A credit is one transaction: an error and a repeated report change nothing; a report below
  the required confirmations records the output and neither pays nor tells anyone; a first
  confirmed report writes exactly one entry, of the reported amount on the wallet, marks the
  deposit credited, and stages exactly one event about it.
\<close>

theorem credit_deposit_atomic:
  assumes "credit_deposit wid coin h v amount confs s = (r, s')"
  shows "(case r of
      Inl e \<Rightarrow> s' = s
    | Inr Noop \<Rightarrow> s' = s \<and> (\<exists>d\<in>set (deposits s). output_of d = (h, v) \<and> dp_status d = DepCredited)
    | Inr Recorded \<Rightarrow> confs < min_confs coin \<and> ledger s' = ledger s \<and> outbox s' = outbox s \<and>
        wallets s' = wallets s
    | Inr NewlyCredited \<Rightarrow> min_confs coin \<le> confs \<and>
        (\<exists>did eid. ledger s' = ledger s @ [entry_of (deposit_input wid amount did h) eid (clock s)] \<and>
          (\<exists>oid. outbox s' = outbox s @
            [outbox_row_of (deposit_event wid did coin amount h (clock s)) oid (clock s)]) \<and>
          (\<forall>d\<in>set (deposits s'). dp_id d = did \<longrightarrow> dp_status d = DepCredited) \<and>
          (\<forall>w. wallet_balance s' w = wallet_balance s w + (if w = wid then amount else 0))))"
proof (cases "credit_deposit_tx wid coin h v amount confs s")
  case (Inl e)
  with assms show ?thesis by (auto simp: credit_deposit_def)
next
  case (Inr p)
  obtain oc t where p: "p = (oc, t)" by (cases p)
  with Inr have tx: "credit_deposit_tx wid coin h v amount confs s = Inr (oc, t)" by simp
  show ?thesis
  proof (rule credit_deposit_cases [OF tx])
    fix d assume oc: "oc = Noop" and d: "find_deposit s h v = Some d" "dp_status d = DepCredited"
    from assms tx oc have "r = Inr Noop" "s' = s" by (auto simp: credit_deposit_def)
    with find_deposit_Some [OF d(1)] d(2) show ?thesis by auto
  next
    fix did
    assume oc: "oc = Recorded" and c: "confs < min_confs coin"
      and rec: "(did, t) = recorded wid h v amount confs DepPending (with_lock wid s)"
    have "t = snd (recorded wid h v amount confs DepPending (with_lock wid s))" using rec by (metis snd_conv)
    moreover from assms tx oc have "r = Inr Recorded" "s' = release_locks t" by (auto simp: credit_deposit_def)
    ultimately show ?thesis using c by (simp add: release_locks_def)
  next
    fix did u
    assume oc: "oc = NewlyCredited" and c: "min_confs coin \<le> confs"
      and rec: "(did, u) = recorded wid h v amount confs DepConfirmed (with_lock wid s)"
      and t: "t = credited wid coin h amount did u"
    have u: "u = snd (recorded wid h v amount confs DepConfirmed (with_lock wid s))" using rec by (metis snd_conv)
    from assms tx oc have r: "r = Inr NewlyCredited" and s': "s' = release_locks t" by (auto simp: credit_deposit_def)
    have l: "ledger s' = ledger s @ [entry_of (deposit_input wid amount did h) (next_id u) (clock s)]"
      by (simp add: s' t release_locks_def) (simp add: u)
    have o: "outbox s' = outbox s @
        [outbox_row_of (deposit_event wid did coin amount h (clock s)) (Suc (next_id u)) (clock s)]"
      by (simp add: s' t release_locks_def) (simp add: u)
    have d: "\<forall>d\<in>set (deposits s'). dp_id d = did \<longrightarrow> dp_status d = DepCredited"
      by (simp add: s' t release_locks_def) (rule credited_rows)
    have b: "wallet_balance s' w = wallet_balance s w + (if w = wid then amount else 0)" for w
      unfolding wallet_balance_def l by simp
    show ?thesis unfolding r sum.case CreditDepositOutcome.case
      by (rule conjI [OF c], rule exI [of _ did], rule exI [of _ "next_id u"], intro conjI allI)
        (rule l, rule exI, rule o, rule d, rule b)
  qed
qed

text \<open>
  A credit that was reversed is final: once the ledger holds the credit of a deposit that is no
  longer marked credited (the output left the chain and came back), every later confirmed
  report of the output is an error and pays nothing, although the output is on the chain.
\<close>

theorem reversed_deposit_never_recredited:
  assumes "find_deposit s h v = Some d" and "dp_status d \<noteq> DepCredited"
    and "e \<in> set (ledger s)" and "dep_entry (dp_id d) DEPOSIT e" and "le_wallet e = wid"
    and "min_confs coin \<le> confs"
  shows "\<exists>err. credit_deposit wid coin h v amount confs s = (Inl err, s)"
proof (cases "credit_deposit_tx wid coin h v amount confs s")
  case (Inl err)
  then show ?thesis by (simp add: credit_deposit_def)
next
  case (Inr p)
  obtain oc t where p: "p = (oc, t)" by (cases p)
  with Inr have tx: "credit_deposit_tx wid coin h v amount confs s = Inr (oc, t)" by simp
  have False
  proof (rule credit_deposit_cases [OF tx])
    fix d' assume "find_deposit s h v = Some d'" and "dp_status d' = DepCredited"
    with assms(1,2) show False by simp
  next
    assume "confs < min_confs coin"
    with assms(6) show False by simp
  next
    fix did u
    assume rec: "(did, u) = recorded wid h v amount confs DepConfirmed (with_lock wid s)"
      and post: "can_post (deposit_input wid amount did h) u"
    have u: "u = snd (recorded wid h v amount confs DepConfirmed (with_lock wid s))" using rec by (metis snd_conv)
    have "did = dp_id d" using rec assms(1) by (simp add: recorded_def)
    then have "reference_conflict (deposit_input wid amount did h) e"
      using assms(4,5) by (simp add: reference_conflict_def dep_entry_def)
    moreover have "e \<in> set (ledger u)" using assms(3) by (simp add: u)
    ultimately show False using post by (auto simp: can_post_def)
  qed
  then show ?thesis ..
qed

section \<open>The address of a wallet\<close>

text \<open>What concurrent sessions may do to the wallets: add some, and assign missing addresses.\<close>

definition extends :: "db \<Rightarrow> db \<Rightarrow> bool" where
  "extends s t \<longleftrightarrow>
     (\<forall>u c k w. wallet_id_of s u c k = Some w \<longrightarrow> wallet_id_of t u c k = Some w) \<and>
     (\<forall>w r. find_wallet s w = Some r \<longrightarrow>
        (\<exists>r'. find_wallet t w = Some r' \<and> (\<forall>a. w_address r = Some a \<longrightarrow> w_address r' = Some a)))"

lemma extends_refl: "extends s s"
  by (simp add: extends_def)

lemma extends_trans: "extends s t \<Longrightarrow> extends t u \<Longrightarrow> extends s u"
  unfolding extends_def by meson

lemma extends_append: "wallets t = wallets s @ ws \<Longrightarrow> extends s t"
  using wallet_id_of_append [of t s ws]
  by (simp add: extends_def find_wallet_def find_append)

lemma extends_release: "extends s (release_locks s)"
  by (rule extends_append [of _ _ "[]"]) (simp add: release_locks_def)

lemma wallet_id_of_update:
  assumes "wallets t = update_where p f (wallets s)"
    and "\<And>r. w_id (f r) = w_id r \<and> w_user (f r) = w_user r \<and> w_coin (f r) = w_coin r \<and> w_kind (f r) = w_kind r"
  shows "wallet_id_of t u c k = wallet_id_of s u c k"
proof -
  have "map_option w_id (List.find (\<lambda>r. w_user r = u \<and> w_coin r = c \<and> w_kind r = k) (update_where p f ws)) =
    map_option w_id (List.find (\<lambda>r. w_user r = u \<and> w_coin r = c \<and> w_kind r = k) ws)" for ws
    using assms(2) by (induction ws) auto
  then show ?thesis by (simp add: wallet_id_of_def assms(1))
qed

lemma extends_set_address:
  assumes "find_wallet s wid = Some r" and "w_address r = None"
    and "wallets t = update_where (\<lambda>r. w_id r = wid) (\<lambda>r. r\<lparr>w_address := Some a, w_hd_index := i\<rparr>) (wallets s)"
  shows "extends s t \<and> (\<exists>r'. find_wallet t wid = Some r' \<and> w_address r' = Some a)"
proof -
  have f: "find_wallet t w = (if w = wid then map_option (\<lambda>r. r\<lparr>w_address := Some a, w_hd_index := i\<rparr>) (find_wallet s w)
      else find_wallet s w)" for w
    unfolding find_wallet_def assms(3) by (rule find_update_where_key) simp
  have "wallet_id_of t u c k = wallet_id_of s u c k" for u c k
    using assms(3) by (rule wallet_id_of_update) simp
  with f assms(1,2) show ?thesis by (simp add: extends_def)
qed

lemma assign_address_Inr:
  assumes "assign_address generate user wid s = Inr (a, s')"
  shows "extends s s' \<and> (\<exists>r. find_wallet s' wid = Some r \<and> w_address r = Some a)"
proof -
  from assms obtain r where r: "find_wallet s wid = Some r"
    and rest: "(case w_address r of Some address \<Rightarrow> tx_return address
     | None \<Rightarrow> (case generate (show_uuid user) of Inl e \<Rightarrow> tx_throw (DepositChain e)
          | Inr g \<Rightarrow> tx_bind (tx_map_err DepositDb (set_address wid g)) (\<lambda>_. tx_return (ga_address g))))
      (with_lock wid s) = Inr (a, s')"
    by (auto simp: assign_address_def tx_bind_Inr tx_map_err_Inr lock_wallet_with tx_gets_Inr tx_ok_or_Inr)
  have l: "extends s (with_lock wid s)" by (rule extends_append [of _ _ "[]"]) simp
  show ?thesis
  proof (cases "w_address r")
    case (Some x)
    with rest l r show ?thesis by (simp add: tx_return_Inr)
  next
    case None
    with rest obtain g where g: "generate (show_uuid user) = Inr g" "ga_address g = a"
      and set: "set_address wid g (with_lock wid s) = Inr ((), s')"
      by (cases "generate (show_uuid user)") (auto simp: tx_bind_Inr tx_map_err_Inr tx_return_Inr tx_throw_Inr)
    then have "wallets s' = update_where (\<lambda>r. w_id r = wid)
        (\<lambda>r. r\<lparr>w_address := Some a, w_hd_index := map_option int (ga_hd_index g)\<rparr>) (wallets (with_lock wid s))"
      by (simp add: set_address_def tx_simps)
    from extends_set_address [OF _ None this] r l show ?thesis using extends_trans by auto
  qed
qed

lemma upsert_commit:
  assumes "commit_tx release_locks (tx_map_err f (upsert_wallet u c k)) s = (Inr x, t)"
  shows "extends s t \<and> wallet_id_of t u c k \<noteq> None \<and> row_locks t = []"
proof -
  from assms obtain t0 where t0: "upsert_wallet u c k s = Inr (x, t0)" "t = release_locks t0"
    by (auto simp: commit_tx_success tx_map_err_Inr)
  obtain ws where "wallets t0 = wallets s @ ws" using upsert_wallet_grows [OF t0(1)] by blast
  then have "extends s t0" by (rule extends_append)
  moreover have "extends t0 t" unfolding t0(2) by (rule extends_release)
  moreover have "wallet_id_of t u c k \<noteq> None"
    using upsert_wallet_present [OF t0(1)] by (simp add: t0(2) wallet_id_of_def release_locks_def)
  ultimately show ?thesis using extends_trans t0(2) by (auto simp: release_locks_def)
qed

lemma upsert_commit_present:
  assumes "wallet_id_of s u c k \<noteq> None" and "row_locks s = []"
  shows "commit_tx release_locks (tx_map_err f (upsert_wallet u c k)) s = (Inr (), s)"
proof -
  have "upsert_wallet u c k s = Inr ((), s)" using assms(1) by (simp add: upsert_wallet_Inr)
  moreover have "release_locks s = s" using assms(2) by (simp add: release_locks_def)
  ultimately show ?thesis by (simp add: commit_tx_def tx_map_err_def)
qed

text \<open>
  A wallet gets its deposit address once. Whatever other sessions commit in between, as long
  as they only add wallets and assign missing addresses, the address a request answers with is
  the one stored on the user's wallet, no address that was stored before is replaced, and every
  later request of the user, whatever the chain client would generate, answers with the same
  address and changes nothing.
\<close>

theorem deposit_address_assigned_once:
  assumes "get_or_create_address generate before user coin s = (Inr a, s')"
    and "\<And>t. extends t (before t)"
  shows "extends s s' \<and>
    (\<exists>wid r. wallet_id_of s' user coin PERSONAL = Some wid \<and> find_wallet s' wid = Some r \<and>
       w_address r = Some a) \<and>
    get_or_create_address generate' before' user coin s' = (Inr a, s')"
proof -
  obtain x1 s1 where c1: "commit_tx release_locks (tx_map_err DepositDb (upsert_wallet user coin PERSONAL)) s = (x1, s1)"
    by (cases "commit_tx release_locks (tx_map_err DepositDb (upsert_wallet user coin PERSONAL)) s")
  with assms(1) obtain u1 where x1: "x1 = Inr u1"
    by (cases x1) (auto simp: get_or_create_address_def)
  obtain x2 s2 where c2: "commit_tx release_locks (tx_map_err DepositDb (upsert_wallet user coin DEVELOPER)) s1 = (x2, s2)"
    by (cases "commit_tx release_locks (tx_map_err DepositDb (upsert_wallet user coin DEVELOPER)) s1")
  with assms(1) c1 x1 obtain u2 where x2: "x2 = Inr u2"
    by (cases x2) (auto simp: get_or_create_address_def)
  note e1 = upsert_commit [OF c1 [unfolded x1]] and e2 = upsert_commit [OF c2 [unfolded x2]]
  obtain wid where wid: "wallet_id_of s2 user coin PERSONAL = Some wid"
    using e1 e2 by (auto simp: extends_def)
  have dev: "wallet_id_of s2 user coin DEVELOPER \<noteq> None" using e2 by simp
  obtain r where r: "find_wallet s2 wid = Some r"
    using assms(1) c1 c2 x1 x2 wid by (cases "find_wallet s2 wid") (auto simp: get_or_create_address_def)
  have ext2: "extends s s2" using e1 e2 extends_trans by blast
  have fin: "extends s2 s' \<and> (\<exists>r'. find_wallet s' wid = Some r' \<and> w_address r' = Some a) \<and> row_locks s' = []"
  proof (cases "w_address r")
    case (Some b)
    with assms(1) c1 c2 x1 x2 wid r have "b = a" "s2 = s'" by (simp_all add: get_or_create_address_def)
    with Some r e2 show ?thesis by (simp add: extends_refl)
  next
    case None
    with assms(1) c1 c2 x1 x2 wid r
    have "commit_tx release_locks (assign_address generate user wid) (before s2) = (Inr a, s')"
      by (simp add: get_or_create_address_def)
    then obtain t where t: "assign_address generate user wid (before s2) = Inr (a, t)" "s' = release_locks t"
      by (auto simp: commit_tx_success)
    have "extends s2 t" using assign_address_Inr [OF t(1)] assms(2) [of s2] extends_trans by blast
    moreover have "extends t s'" unfolding t(2) by (rule extends_release)
    ultimately show ?thesis
      using assign_address_Inr [OF t(1)] extends_trans by (auto simp: t(2) release_locks_def find_wallet_def)
  qed
  then obtain r' where r': "find_wallet s' wid = Some r'" "w_address r' = Some a" by blast
  have w': "wallet_id_of s' user coin PERSONAL = Some wid" and d': "wallet_id_of s' user coin DEVELOPER \<noteq> None"
    using fin wid dev by (auto simp: extends_def)
  have "get_or_create_address generate' before' user coin s' = (Inr a, s')"
    using fin w' d' r' by (simp add: get_or_create_address_def upsert_commit_present)
  with ext2 fin w' r' extends_trans show ?thesis by blast
qed

section \<open>Witnesses\<close>

definition deposit_demo :: db where
  "deposit_demo = empty_db\<lparr>next_id := 10, clock := 60,
     users := [\<lparr>u_id = 7, u_email = ''a'', u_username = ''a'', u_password_hash = []\<rparr>],
     wallets := [demo_wallet 1 7 Btc PERSONAL]\<rparr>"

lemmas deposit_demo_defs = deposit_demo_def demo_wallet_def empty_db_def

lemmas deposit_run_defs = credit_deposit_def credit_deposit_tx_def lock_wallet_def find_wallet_def
  take_lock_def find_deposit_def record_deposit_def insert_deposit_def check_numeric_def
  fits_numeric_def numeric_limit_def fresh_uuid_def update_deposit_def credit_recorded_def
  apply_ledger_entry_def insert_ledger_entry_def get_wallet_balance_def wallet_balance_def
  reference_conflict_def key_conflict_def deposit_input_def simple_input_def stage_def now_def
  min_confs_def tx_defs Let_def

lemma deposit_demo_ok: "books_ok deposit_demo"
  by (simp add: deposit_demo_defs books_ok_def wallets_wf_def entries_owned_def references_unique_def
      solvent_def wallet_balance_def List.map_filter_simps)

lemma deposit_demo_credit:
  "fst (credit_deposit 1 Btc ''h'' 0 500 6 deposit_demo) = Inr NewlyCredited"
  by (simp add: deposit_demo_defs deposit_run_defs)

theorem credit_deposit_atomic_witness:
  "\<exists>s'. credit_deposit 1 Btc ''h'' 0 500 6 deposit_demo = (Inr NewlyCredited, s') \<and>
     wallet_balance s' 1 = 500 \<and> length (outbox s') = 1"
proof -
  obtain s' where run: "credit_deposit 1 Btc ''h'' 0 500 6 deposit_demo = (Inr NewlyCredited, s')"
    using deposit_demo_credit by (metis prod.collapse)
  from credit_deposit_atomic [OF run]
  have "length (outbox s') = 1 \<and> wallet_balance s' 1 = 500"
    unfolding sum.case CreditDepositOutcome.case
    by (elim conjE exE) (simp add: deposit_demo_defs wallet_balance_def)
  with run show ?thesis by blast
qed

definition deposit_out :: "string \<times> int \<Rightarrow> uuid \<times> int" where
  "deposit_out _ = (1, 500)"

theorem deposits_match_chain_witness:
  "let s = snd (reconcile_deposit 1 Btc ''h'' 0 None
       (snd (credit_deposit 1 Btc ''h'' 0 500 6 deposit_demo)))
   in books_ok s \<and> map (\<lambda>d. (dp_wallet d, dp_amount d)) (deposits s) = map (\<lambda>d. deposit_out (output_of d)) (deposits s) \<and>
     list_all (accounted s) (deposits s)"
proof -
  let ?s1 = "snd (credit_deposit 1 Btc ''h'' 0 500 6 deposit_demo)"
  let ?s2 = "snd (reconcile_deposit 1 Btc ''h'' 0 None ?s1)"
  have out: "deposit_out (''h'', 0) = (1, 500)" by (simp add: deposit_out_def)
  have "deposit_step deposit_out deposit_demo ?s1"
    by (rule deposit_step.credit [where h = "''h''" and v = 0 and wid = 1 and amount = 500 and coin = Btc
        and confs = 6 and r = "fst (credit_deposit 1 Btc ''h'' 0 500 6 deposit_demo)"]) (simp_all add: out)
  moreover have "deposit_step deposit_out ?s1 ?s2"
    by (rule deposit_step.reconcile [where h = "''h''" and v = 0 and wid = 1 and amount = 500 and coin = Btc
        and onchain = None and r = "fst (reconcile_deposit 1 Btc ''h'' 0 None ?s1)"]) (simp_all add: out)
  ultimately have run: "(deposit_step deposit_out)\<^sup>*\<^sup>* deposit_demo ?s2"
    by (meson rtranclp.rtrancl_into_rtrancl rtranclp.rtrancl_refl)
  have start: "deposits deposit_demo = []" "\<forall>e\<in>set (ledger deposit_demo). unrelated e"
    by (simp_all add: deposit_demo_defs)
  from deposits_match_chain [OF run start deposit_demo_ok]
  have "books_ok ?s2 \<and> (\<forall>d\<in>set (deposits ?s2). (dp_wallet d, dp_amount d) = deposit_out (output_of d) \<and> accounted ?s2 d)"
    by blast
  then show ?thesis unfolding Let_def map_eq_conv list_all_iff by blast
qed

theorem reversed_deposit_never_recredited_witness:
  "\<exists>err. credit_deposit 1 Btc ''h'' 0 500 6
     (deposit_demo\<lparr>deposits := [(new_deposit 1 ''h'' 0 500 0 DepOrphaned 3 0)],
        ledger := [entry_of (deposit_input 1 500 3 ''h'') 4 0, entry_of (reversal_input 1 500 3 ''m'') 5 0]\<rparr>) =
     (Inl err, deposit_demo\<lparr>deposits := [(new_deposit 1 ''h'' 0 500 0 DepOrphaned 3 0)],
        ledger := [entry_of (deposit_input 1 500 3 ''h'') 4 0, entry_of (reversal_input 1 500 3 ''m'') 5 0]\<rparr>)"
  by (rule reversed_deposit_never_recredited [where e = "entry_of (deposit_input 1 500 3 ''h'') 4 0"
      and d = "new_deposit 1 ''h'' 0 500 0 DepOrphaned 3 0"])
    (simp_all add: find_deposit_def new_deposit_def dep_entry_def min_confs_def)

theorem deposit_address_assigned_once_witness:
  "\<exists>s'. get_or_create_address (\<lambda>_. Inr \<lparr>ga_address = ''bc1'', ga_hd_index = Some 0\<rparr>) id 7 Btc deposit_demo =
       (Inr ''bc1'', s') \<and>
     get_or_create_address (\<lambda>_. Inl ''down'') id 7 Btc s' = (Inr ''bc1'', s')"
proof -
  let ?g = "\<lambda>_. Inr \<lparr>ga_address = ''bc1'', ga_hd_index = Some 0\<rparr>"
  have "fst (get_or_create_address ?g id 7 Btc deposit_demo) = Inr ''bc1''"
    by (simp add: deposit_demo_defs get_or_create_address_def upsert_wallet_def select_wallet_def
        wallet_id_of_def check_user_fk_def fresh_uuid_def find_wallet_def assign_address_def lock_wallet_def
        take_lock_def set_address_def commit_tx_def release_locks_def tx_defs)
  then obtain s' where run: "get_or_create_address ?g id 7 Btc deposit_demo = (Inr ''bc1'', s')"
    by (metis prod.collapse)
  have "\<And>t. extends t (id t)" by (simp add: extends_refl)
  from deposit_address_assigned_once [OF run this, of "\<lambda>_. Inl ''down''" id] run show ?thesis by blast
qed

end
