(* ===== verification/Withdrawals.thy ===== *)
theory Withdrawals
  imports Privacy Outbox AuditLog NetworkFees
begin

text \<open>
  \<open>crates/db/src/withdrawals.rs\<close>: the request (debit and hold in one transaction, keyed), the
  broadcast state machine of the worker, the finalisation, the listings and the address book.

  The chain client is a parameter: \<open>valid\<close> is \<open>validate_address\<close>, \<open>broadcast\<close> is
  \<open>broadcast_withdrawal\<close> of the client the registry gives for a coin. The environment variable
  of the approval threshold is an argument, as is the nonce of the sealed address. The two
  points of a request where another session may commit are \<open>before_begin\<close> and \<open>before_insert\<close>.
\<close>

section \<open>The approval threshold\<close>

definition resolve_approval_threshold :: "Coin \<Rightarrow> string option \<Rightarrow> nat" where
  "resolve_approval_threshold coin env_val =
     (case env_val of
        None \<Rightarrow> approval_threshold (coin_config coin)
      | Some raw \<Rightarrow>
          let trimmed = trim raw in
          if trimmed = [] then approval_threshold (coin_config coin)
          else case parse_u128 trimmed of
              None \<Rightarrow> approval_threshold (coin_config coin)
            | Some v \<Rightarrow> v)"

text \<open>\<open>std::env::var\<close> of \<open>WITHDRAWAL_APPROVAL_THRESHOLD_<COIN>\<close>.\<close>

definition approval_threshold_key :: "Coin \<Rightarrow> string" where
  "approval_threshold_key coin = ''WITHDRAWAL_APPROVAL_THRESHOLD_'' @ map upper_char (coin_str coin)"

definition approval_threshold_atomic :: "(string \<rightharpoonup> string) \<Rightarrow> Coin \<Rightarrow> nat" where
  "approval_threshold_atomic env coin =
     (case env (approval_threshold_key coin) of
        Some raw \<Rightarrow>
          let trimmed = trim raw in
          if trimmed = [] then approval_threshold (coin_config coin)
          else (case parse_u128 trimmed of
              Some v \<Rightarrow> v
            | None \<Rightarrow> approval_threshold (coin_config coin))
      | None \<Rightarrow> approval_threshold (coin_config coin))"

section \<open>The request\<close>

datatype WithdrawalsError =
  WithdrawalDb db_error
| WithdrawalOutbox db_error
| InvalidAddress
| BelowMinimum nat
| WithdrawalNotFound

record WithdrawalRow =
  wr_id :: uuid
  wr_wallet_id :: uuid
  wr_to_address :: string
  wr_amount :: int
  wr_fee_amount :: int
  wr_status :: withdrawal_status
  wr_requires_approval :: bool

fun sqlx_from_ledger :: "LedgerError \<Rightarrow> db_error" where
  "sqlx_from_ledger (LedgerDb e) = e"
| "sqlx_from_ledger other = Protocol (ledger_error_str other)"

definition withdrawal_view ::
    "primitives \<Rightarrow> SecretsService option \<Rightarrow> withdrawal_row \<Rightarrow> WithdrawalRow" where
  "withdrawal_view P secrets r =
     \<lparr>wr_id = wd_id r, wr_wallet_id = wd_wallet r,
      wr_to_address = open_opt P secrets KIND_WD_TO (show_uuid (wd_id r)) (wd_to_address r),
      wr_amount = wd_amount r, wr_fee_amount = wd_fee_amount r, wr_status = wd_status r,
      wr_requires_approval = wd_requires_approval r\<rparr>"

definition find_withdrawal_by_key ::
    "primitives \<Rightarrow> SecretsService option \<Rightarrow> db \<Rightarrow> string \<Rightarrow> WithdrawalRow option" where
  "find_withdrawal_by_key P secrets s key =
     map_option (withdrawal_view P secrets)
       (List.find (\<lambda>r. wd_idempotency_key r = Some key) (withdrawals s))"

definition lookup_scoped ::
    "primitives \<Rightarrow> SecretsService option \<Rightarrow> db \<Rightarrow> string option \<Rightarrow> WithdrawalRow option" where
  "lookup_scoped P secrets s scoped =
     (case scoped of None \<Rightarrow> None | Some key \<Rightarrow> find_withdrawal_by_key P secrets s key)"

definition new_withdrawal ::
    "uuid \<Rightarrow> uuid \<Rightarrow> string \<Rightarrow> int \<Rightarrow> int \<Rightarrow> bool \<Rightarrow> string \<Rightarrow> string option \<Rightarrow> int \<Rightarrow> withdrawal_row" where
  "new_withdrawal wdid wid stored_addr amount fee requires_approval stored_ip scoped ts =
     \<lparr>wd_id = wdid, wd_wallet = wid, wd_to_address = stored_addr, wd_amount = amount,
      wd_fee_amount = fee, wd_status = (if requires_approval then WPending else WQueued),
      wd_tx_hash = None, wd_requires_approval = requires_approval, wd_approved_by = None,
      wd_approved_at = None, wd_requested_ip = Some stored_ip, wd_idempotency_key = scoped,
      wd_created_at = ts, wd_updated_at = ts\<rparr>"

definition insert_withdrawal :: "withdrawal_row \<Rightarrow> (db_error, unit) op" where
  "insert_withdrawal r =
     tx_bind (check_numeric (wd_amount r)) (\<lambda>_.
     tx_bind (check_numeric (wd_fee_amount r)) (\<lambda>_.
     tx_bind (tx_gets (\<lambda>s. wd_idempotency_key r \<noteq> None \<and>
       (\<exists>x\<in>set (withdrawals s). wd_idempotency_key x = wd_idempotency_key r))) (\<lambda>taken.
     tx_bind (tx_assert (\<not> taken) (UniqueViolation ''withdrawals_idempotency_key_key'')) (\<lambda>_.
     tx_bind (tx_gets (\<lambda>s. find_wallet s (wd_wallet r))) (\<lambda>row.
     tx_bind (tx_assert (row \<noteq> None)
       (ForeignKeyViolation ''withdrawals'' ''withdrawals_wallet_id_fkey'')) (\<lambda>_.
     tx_modify (\<lambda>s. s\<lparr>withdrawals := withdrawals s @ [r]\<rparr>)))))))"

definition withdrawal_debit :: "uuid \<Rightarrow> int \<Rightarrow> uuid \<Rightarrow> LedgerCreditInput" where
  "withdrawal_debit wid amount wdid =
     simple_input wid (- amount) WITHDRAWAL (Some wdid) (Some ''Withdrawal'')
       (Some (''withdrawal:'' @ show_uuid wdid))"

definition withdrawal_fee_debit :: "uuid \<Rightarrow> int \<Rightarrow> uuid \<Rightarrow> LedgerCreditInput" where
  "withdrawal_fee_debit wid fee wdid =
     simple_input wid (- fee) WITHDRAWAL_FEE (Some wdid) (Some ''Withdrawal'')
       (Some ''Withdrawal network fee (-25% discount)'')"

text \<open>
  From the insert to the commit; \<open>Inl None\<close> is the branch of a unique violation, which drops
  the transaction.
\<close>

definition hold_funds ::
    "primitives \<Rightarrow> SecretsService option \<Rightarrow> string \<Rightarrow> Coin \<Rightarrow> string \<Rightarrow> int \<Rightarrow> bool \<Rightarrow> string \<Rightarrow>
     string option \<Rightarrow> uuid \<Rightarrow> (WithdrawalsError option, WithdrawalRow) op" where
  "hold_funds P secrets iv coin to_address amount requires_approval ip scoped wid =
     tx_bind fresh_uuid (\<lambda>wdid.
     tx_bind now (\<lambda>ts.
     let fee = int (withdrawal_fee (coin_config coin));
         stored_addr = seal_opt P secrets iv KIND_WD_TO (show_uuid wdid) to_address;
         r = new_withdrawal wdid wid stored_addr amount fee requires_approval
               (store_ip P secrets ip) scoped ts in
     tx_bind (tx_map_err (\<lambda>e. if is_unique_violation e then None else Some (WithdrawalDb e))
       (insert_withdrawal r)) (\<lambda>_.
     tx_bind (tx_map_err (\<lambda>e. Some (WithdrawalDb (sqlx_from_ledger e)))
       (apply_ledger_entry (withdrawal_debit wid amount wdid))) (\<lambda>_.
     tx_bind
       (if 0 < withdrawal_fee (coin_config coin) then
          tx_map_err (\<lambda>e. Some (WithdrawalDb (sqlx_from_ledger e)))
            (tx_bind (apply_ledger_entry (withdrawal_fee_debit wid fee wdid)) (\<lambda>_. tx_return ()))
        else tx_return ()) (\<lambda>_.
     tx_return \<lparr>wr_id = wdid, wr_wallet_id = wid, wr_to_address = to_address, wr_amount = amount,
       wr_fee_amount = fee, wr_status = (if requires_approval then WPending else WQueued),
       wr_requires_approval = requires_approval\<rparr>)))))"

definition request_withdrawal ::
    "primitives \<Rightarrow> SecretsService option \<Rightarrow> string \<Rightarrow> (string \<Rightarrow> bool) \<Rightarrow> (string \<rightharpoonup> string) \<Rightarrow>
     (db \<Rightarrow> db) \<Rightarrow> (db \<Rightarrow> db) \<Rightarrow> uuid \<Rightarrow> Coin \<Rightarrow> string \<Rightarrow> int \<Rightarrow> string \<Rightarrow> string option \<Rightarrow> db \<Rightarrow>
     (WithdrawalsError + WithdrawalRow \<times> bool) \<times> db" where
  "request_withdrawal P secrets iv valid env before_begin before_insert user coin to_address amount
     ip key s =
     (let cfg = coin_config coin in
      if \<not> valid to_address then (Inl InvalidAddress, s)
      else if amount < int (min_withdrawal cfg) then (Inl (BelowMinimum (min_withdrawal cfg)), s)
      else
        let scoped = map_option (scoped_key user) key in
        case lookup_scoped P secrets s scoped of
          Some existing \<Rightarrow> (Inr (existing, False), s)
        | None \<Rightarrow>
            let requires_approval = (int (approval_threshold_atomic env coin) \<le> amount);
                s1 = before_begin s in
            case lookup_scoped P secrets s1 scoped of
              Some existing \<Rightarrow> (Inr (existing, False), s1)
            | None \<Rightarrow>
                (case wallet_id_of s1 user coin PERSONAL of
                   None \<Rightarrow> (Inl WithdrawalNotFound, s1)
                 | Some wid \<Rightarrow>
                     (case hold_funds P secrets iv coin to_address amount requires_approval ip scoped
                             wid (before_insert s1) of
                        Inr (row, s2) \<Rightarrow> (Inr (row, True), release_locks s2)
                      | Inl (Some e) \<Rightarrow> (Inl e, before_insert s1)
                      | Inl None \<Rightarrow>
                          (case lookup_scoped P secrets (before_insert s1) scoped of
                             Some existing \<Rightarrow> (Inr (existing, False), before_insert s1)
                           | None \<Rightarrow> (Inl WithdrawalNotFound, before_insert s1)))))"

section \<open>The broadcast\<close>

record BroadcastResult =
  br_tx_hash :: string
  br_fee_amount :: nat

record BroadcastError =
  be_message :: string
  be_safe_to_reverse :: bool

definition find_withdrawal :: "db \<Rightarrow> uuid \<Rightarrow> withdrawal_row option" where
  "find_withdrawal s wdid = List.find (\<lambda>r. wd_id r = wdid) (withdrawals s)"

definition set_withdrawal :: "uuid \<Rightarrow> (withdrawal_row \<Rightarrow> withdrawal_row) \<Rightarrow> db \<Rightarrow> db" where
  "set_withdrawal wdid f s = s\<lparr>withdrawals := update_where (\<lambda>r. wd_id r = wdid) f (withdrawals s)\<rparr>"

definition with_status :: "withdrawal_status \<Rightarrow> int \<Rightarrow> withdrawal_row \<Rightarrow> withdrawal_row" where
  "with_status st ts r = r\<lparr>wd_status := st, wd_updated_at := ts\<rparr>"

text \<open>The compare-and-swap claim.\<close>

definition claim_broadcast :: "uuid \<Rightarrow> db \<Rightarrow> bool \<times> db" where
  "claim_broadcast wdid s =
     (case find_withdrawal s wdid of
        None \<Rightarrow> (False, s)
      | Some r \<Rightarrow>
          if wd_status r \<in> {WQueued, WApproved}
          then (True, set_withdrawal wdid (with_status WBroadcasting (clock s)) s)
          else (False, s))"

definition finalize_tx :: "uuid \<Rightarrow> (WithdrawalsError, bool) op" where
  "finalize_tx wdid =
     tx_bind (tx_gets (\<lambda>s. find_withdrawal s wdid)) (\<lambda>found.
     case found of
       None \<Rightarrow> tx_return False
     | Some r \<Rightarrow>
         if wd_status r \<noteq> WBroadcasted then tx_return False
         else
           tx_bind (tx_modify (\<lambda>s. set_withdrawal wdid (with_status WConfirmed (clock s)) s)) (\<lambda>_.
           tx_bind (tx_map_err WithdrawalOutbox (stage (WithdrawalConfirmed (wd_wallet r) wdid 1))) (\<lambda>_.
           tx_return True)))"

definition finalize_broadcasted :: "uuid \<Rightarrow> db \<Rightarrow> (WithdrawalsError + unit) \<times> db" where
  "finalize_broadcasted wdid s =
     (case finalize_tx wdid s of
        Inl e \<Rightarrow> (Inl e, s)
      | Inr (False, _) \<Rightarrow> (Inr (), s)
      | Inr (True, s') \<Rightarrow> (Inr (), release_locks s'))"

definition reversal_of :: "uuid \<Rightarrow> int \<Rightarrow> uuid \<Rightarrow> string \<Rightarrow> LedgerCreditInput" where
  "reversal_of wid refund wdid memo =
     simple_input wid refund WITHDRAWAL_REVERSAL (Some wdid) (Some ''Withdrawal'') (Some memo)"

text \<open>The transaction of a failure that is safe to reverse, and the log entry after it.\<close>

definition fail_safely_tx :: "uuid \<Rightarrow> withdrawal_row \<Rightarrow> string \<Rightarrow> (WithdrawalsError, unit) op" where
  "fail_safely_tx wdid r message =
     tx_bind (tx_modify (\<lambda>s. set_withdrawal wdid (with_status WFailed (clock s)) s)) (\<lambda>_.
     tx_bind (tx_map_err (\<lambda>e. WithdrawalDb (sqlx_from_ledger e))
       (apply_ledger_entry (reversal_of (wd_wallet r) (wd_amount r + wd_fee_amount r) wdid
          (''Reversal (safe): '' @ message)))) (\<lambda>_.
     tx_bind (tx_map_err WithdrawalOutbox (stage (WithdrawalFailed (wd_wallet r) wdid message True))) (\<lambda>_.
     tx_return ())))"

definition fail_safely :: "uuid \<Rightarrow> withdrawal_row \<Rightarrow> string \<Rightarrow> db \<Rightarrow> (WithdrawalsError + unit) \<times> db" where
  "fail_safely wdid r message = commit_tx release_locks (fail_safely_tx wdid r message)"

definition log_failure :: "uuid \<Rightarrow> uuid \<Rightarrow> Coin \<Rightarrow> string \<Rightarrow> db \<Rightarrow> db" where
  "log_failure owner wdid coin message s =
     snd (commit_tx release_locks
       (record_log (Some owner) ''WITHDRAWAL_FAILED'' ''Withdrawal'' (Some wdid) None
         (Some (json_object [(''coin'', json_text (coin_str coin)), (''reason'', json_text message),
            (''safeToReverse'', ''true'')]))) s)"

definition persist_broadcast_tx ::
    "uuid \<Rightarrow> withdrawal_row \<Rightarrow> Coin \<Rightarrow> string \<Rightarrow> (WithdrawalsError, unit) op" where
  "persist_broadcast_tx wdid r coin tx_hash =
     tx_bind (tx_modify (\<lambda>s. set_withdrawal wdid
       (\<lambda>x. (with_status WBroadcasted (clock s) x)\<lparr>wd_tx_hash := Some tx_hash\<rparr>) s)) (\<lambda>_.
     tx_bind (tx_map_err WithdrawalOutbox (stage (WithdrawalBroadcasted (wd_wallet r) wdid
       (coin_str coin) (show_int (wd_amount r)) tx_hash))) (\<lambda>_.
     tx_return ()))"

definition persist_broadcast ::
    "uuid \<Rightarrow> withdrawal_row \<Rightarrow> Coin \<Rightarrow> string \<Rightarrow> db \<Rightarrow> (WithdrawalsError + unit) \<times> db" where
  "persist_broadcast wdid r coin tx_hash = commit_tx release_locks (persist_broadcast_tx wdid r coin tx_hash)"

definition withdrawal_fee_input :: "uuid \<Rightarrow> Coin \<Rightarrow> BroadcastResult \<Rightarrow> RecordNetworkFeeInput" where
  "withdrawal_fee_input wdid coin b =
     \<lparr>fee_coin = coin, fee_kind = FeeWithdrawal, fee_paid = br_fee_amount b,
      fee_tx_hash = Some (br_tx_hash b), fee_reference_id = Some wdid,
      fee_reference_type = Some ''Withdrawal''\<rparr>"

text \<open>What the worker does with the answer of the chain client.\<close>

definition settle_broadcast ::
    "uuid \<Rightarrow> withdrawal_row \<Rightarrow> uuid \<Rightarrow> Coin \<Rightarrow> BroadcastError + BroadcastResult \<Rightarrow> db \<Rightarrow>
     (WithdrawalsError + unit) \<times> db" where
  "settle_broadcast wdid r owner coin answer s =
     (case answer of
        Inl err \<Rightarrow>
          if be_safe_to_reverse err then
            (case fail_safely wdid r (be_message err) s of
               (Inl e, s1) \<Rightarrow> (Inl e, s1)
             | (Inr _, s1) \<Rightarrow> (Inr (), log_failure owner wdid coin (be_message err) s1))
          else (Inr (), s)
      | Inr b \<Rightarrow>
          (case persist_broadcast wdid r coin (br_tx_hash b) s of
             (Inl e, s1) \<Rightarrow> (Inl e, s1)
           | (Inr _, s1) \<Rightarrow>
               finalize_broadcasted wdid (snd (record_network_fee (withdrawal_fee_input wdid coin b) s1))))"

definition process_broadcast ::
    "primitives \<Rightarrow> SecretsService option \<Rightarrow> (Coin \<Rightarrow> string \<Rightarrow> nat \<Rightarrow> BroadcastError + BroadcastResult) \<Rightarrow>
     uuid \<Rightarrow> db \<Rightarrow> (WithdrawalsError + unit) \<times> db" where
  "process_broadcast P secrets broadcast wdid s =
     (case claim_broadcast wdid s of
        (False, s1) \<Rightarrow>
          (if map_option wd_status (find_withdrawal s1 wdid) = Some WBroadcasted
           then finalize_broadcasted wdid s1 else (Inr (), s1))
      | (True, s1) \<Rightarrow>
          (case find_withdrawal s1 wdid of
             None \<Rightarrow> (Inr (), s1)
           | Some r \<Rightarrow>
               (case find_wallet s1 (wd_wallet r) of
                  None \<Rightarrow> (Inr (), s1)
                | Some w \<Rightarrow>
                    settle_broadcast wdid r (w_user w) (w_coin w)
                      (broadcast (w_coin w)
                        (open_opt P secrets KIND_WD_TO (show_uuid wdid) (wd_to_address r))
                        (dec_to_u128_or 0 (wd_amount r))) s1)))"

definition list_eligible_for_requeue :: "db \<Rightarrow> nat \<Rightarrow> uuid list" where
  "list_eligible_for_requeue s n =
     map wd_id (take (min n 500) (sort_key wd_created_at
       (filter (\<lambda>r. wd_status r \<in> {WQueued, WApproved}) (withdrawals s))))"

section \<open>History\<close>

record WithdrawalHistoryRecord =
  wh_id :: uuid
  wh_coin :: string
  wh_to_address :: string
  wh_amount :: string
  wh_fee_amount :: string
  wh_status :: withdrawal_status
  wh_tx_hash :: "string option"
  wh_requires_approval :: bool
  wh_created_at :: int
  wh_updated_at :: int

definition list_user_withdrawals ::
    "primitives \<Rightarrow> SecretsService option \<Rightarrow> db \<Rightarrow> uuid \<Rightarrow> Coin option \<Rightarrow> nat \<Rightarrow>
     WithdrawalHistoryRecord list" where
  "list_user_withdrawals P secrets s user coin_filter limit =
     map (\<lambda>(r, w). \<lparr>wh_id = wd_id r, wh_coin = coin_str (w_coin w),
        wh_to_address = open_opt P secrets KIND_WD_TO (show_uuid (wd_id r)) (wd_to_address r),
        wh_amount = show_int (wd_amount r), wh_fee_amount = show_int (wd_fee_amount r),
        wh_status = wd_status r, wh_tx_hash = wd_tx_hash r,
        wh_requires_approval = wd_requires_approval r, wh_created_at = wd_created_at r,
        wh_updated_at = wd_updated_at r\<rparr>)
      (take limit (sort_key (\<lambda>(r, w). - wd_created_at r)
        [(r, w). r \<leftarrow> withdrawals s, w \<leftarrow> wallets s, w_id w = wd_wallet r \<and> w_user w = user \<and>
           (case coin_filter of None \<Rightarrow> True | Some c \<Rightarrow> w_coin w = c)]))"

section \<open>The address book\<close>

definition list_address_book :: "db \<Rightarrow> uuid \<Rightarrow> address_row list" where
  "list_address_book s user =
     take 100 (sort_key (\<lambda>r. - ab_created_at r) (filter (\<lambda>r. ab_user r = user) (address_book s)))"

text \<open>
  \<open>len()\<close> counts bytes, the \<open>CHECK\<close> of the table counts characters; a byte that continues a
  character does not start one.
\<close>

definition char_length :: "string \<Rightarrow> nat" where
  "char_length v = length (filter (\<lambda>c. \<not> (0x80 \<le> (of_char c :: nat) \<and> (of_char c :: nat) \<le> 0xBF)) v)"

definition add_address_book_tx ::
    "uuid \<Rightarrow> Coin \<Rightarrow> string \<Rightarrow> string \<Rightarrow> (WithdrawalsError, address_row) op" where
  "add_address_book_tx user coin lbl addr =
     (let lbl = trim lbl; addr = trim addr in
      if lbl = [] \<or> 64 < length lbl then tx_throw InvalidAddress
      else if length addr < 8 \<or> 256 < length addr then tx_throw InvalidAddress
      else tx_map_err WithdrawalDb (
        tx_bind (tx_assert (1 \<le> char_length lbl \<and> char_length lbl \<le> 64)
          (CheckViolation ''withdrawal_address_book'' ''withdrawal_address_book_label_check'')) (\<lambda>_.
        tx_bind (tx_assert (8 \<le> char_length addr \<and> char_length addr \<le> 256)
          (CheckViolation ''withdrawal_address_book'' ''withdrawal_address_book_address_check'')) (\<lambda>_.
        tx_bind (tx_gets (\<lambda>s. List.find (\<lambda>r. ab_user r = user \<and> ab_coin r = coin \<and> ab_address r = addr)
          (address_book s))) (\<lambda>found.
        case found of
          Some r \<Rightarrow>
            tx_bind (tx_modify (\<lambda>s. s\<lparr>address_book := update_where (\<lambda>x. ab_id x = ab_id r)
              (\<lambda>x. x\<lparr>ab_label := lbl\<rparr>) (address_book s)\<rparr>)) (\<lambda>_.
            tx_return (r\<lparr>ab_label := lbl\<rparr>))
        | None \<Rightarrow>
            tx_bind (check_user_fk ''withdrawal_address_book'' user) (\<lambda>_.
            tx_bind fresh_uuid (\<lambda>aid.
            tx_bind now (\<lambda>ts.
            let r = \<lparr>ab_id = aid, ab_user = user, ab_coin = coin, ab_label = lbl,
                     ab_address = addr, ab_created_at = ts\<rparr> in
            tx_bind (tx_modify (\<lambda>s. s\<lparr>address_book := address_book s @ [r]\<rparr>)) (\<lambda>_.
            tx_return r)))))))))"

definition add_address_book ::
    "uuid \<Rightarrow> Coin \<Rightarrow> string \<Rightarrow> string \<Rightarrow> db \<Rightarrow> (WithdrawalsError + address_row) \<times> db" where
  "add_address_book user coin lbl addr =
     commit_tx release_locks (add_address_book_tx user coin lbl addr)"

definition delete_address_book :: "uuid \<Rightarrow> uuid \<Rightarrow> db \<Rightarrow> bool \<times> db" where
  "delete_address_book user aid s =
     (\<exists>r\<in>set (address_book s). ab_id r = aid \<and> ab_user r = user,
      s\<lparr>address_book := filter (\<lambda>r. \<not> (ab_id r = aid \<and> ab_user r = user)) (address_book s)\<rparr>)"

section \<open>Successful runs\<close>

lemma set_withdrawal_frame [simp]:
  "users (set_withdrawal i f s) = users s" "wallets (set_withdrawal i f s) = wallets s"
  "ledger (set_withdrawal i f s) = ledger s" "deposits (set_withdrawal i f s) = deposits s"
  "outbox (set_withdrawal i f s) = outbox s" "next_id (set_withdrawal i f s) = next_id s"
  "clock (set_withdrawal i f s) = clock s" "row_locks (set_withdrawal i f s) = row_locks s"
  "withdrawals (set_withdrawal i f s) = update_where (\<lambda>r. wd_id r = i) f (withdrawals s)"
  by (simp_all add: set_withdrawal_def)

lemma find_wallet_set_withdrawal [simp]: "find_wallet (set_withdrawal i f s) w = find_wallet s w"
  by (simp add: find_wallet_def)

lemma wallet_balance_set_withdrawal [simp]:
  "wallet_balance (set_withdrawal i f s) w = wallet_balance s w"
  by (rule wallet_balance_frame) simp

lemma books_ok_set_withdrawal: "books_ok s \<Longrightarrow> books_ok (set_withdrawal i f s)"
  by (erule books_ok_cong [rotated -1]) simp_all

lemma insert_withdrawal_Inr [tx_simps]:
  "insert_withdrawal r s = Inr (u, s') \<longleftrightarrow>
     fits_numeric (wd_amount r) \<and> fits_numeric (wd_fee_amount r) \<and>
     (wd_idempotency_key r \<noteq> None \<longrightarrow>
        (\<forall>x\<in>set (withdrawals s). wd_idempotency_key x \<noteq> wd_idempotency_key r)) \<and>
     find_wallet s (wd_wallet r) \<noteq> None \<and> s' = s\<lparr>withdrawals := withdrawals s @ [r]\<rparr>"
  by (auto simp: insert_withdrawal_def tx_simps)

definition hold_posts :: "uuid \<Rightarrow> int \<Rightarrow> Coin \<Rightarrow> uuid \<Rightarrow> LedgerCreditInput list" where
  "hold_posts wid amount coin wdid =
     [withdrawal_debit wid amount wdid,
      withdrawal_fee_debit wid (int (withdrawal_fee (coin_config coin))) wdid]"

definition held_row ::
    "primitives \<Rightarrow> SecretsService option \<Rightarrow> string \<Rightarrow> Coin \<Rightarrow> string \<Rightarrow> int \<Rightarrow> bool \<Rightarrow> string \<Rightarrow>
     string option \<Rightarrow> uuid \<Rightarrow> uuid \<Rightarrow> int \<Rightarrow> withdrawal_row" where
  "held_row P secrets iv coin to_address amount approval ip scoped wid wdid ts =
     new_withdrawal wdid wid (seal_opt P secrets iv KIND_WD_TO (show_uuid wdid) to_address) amount
       (int (withdrawal_fee (coin_config coin))) approval (store_ip P secrets ip) scoped ts"

lemma new_withdrawal_sel [simp]:
  "wd_id (new_withdrawal i w a x f ra ip k ts) = i" "wd_wallet (new_withdrawal i w a x f ra ip k ts) = w"
  "wd_to_address (new_withdrawal i w a x f ra ip k ts) = a"
  "wd_amount (new_withdrawal i w a x f ra ip k ts) = x"
  "wd_fee_amount (new_withdrawal i w a x f ra ip k ts) = f"
  "wd_idempotency_key (new_withdrawal i w a x f ra ip k ts) = k"
  "wd_requires_approval (new_withdrawal i w a x f ra ip k ts) = ra"
  "wd_status (new_withdrawal i w a x f ra ip k ts) = (if ra then WPending else WQueued)"
  by (simp_all add: new_withdrawal_def)

definition held_view :: "string \<Rightarrow> withdrawal_row \<Rightarrow> WithdrawalRow" where
  "held_view to_address r =
     \<lparr>wr_id = wd_id r, wr_wallet_id = wd_wallet r, wr_to_address = to_address,
      wr_amount = wd_amount r, wr_fee_amount = wd_fee_amount r, wr_status = wd_status r,
      wr_requires_approval = wd_requires_approval r\<rparr>"

lemma hold_funds_Inr:
  "hold_funds P secrets iv coin to_address amount approval ip scoped wid s = Inr (row, s') \<longleftrightarrow>
     (let r = held_row P secrets iv coin to_address amount approval ip scoped wid (next_id s) (clock s);
          t = s\<lparr>next_id := Suc (next_id s), withdrawals := withdrawals s @ [r]\<rparr> in
      fits_numeric amount \<and>
      (scoped \<noteq> None \<longrightarrow> (\<forall>x\<in>set (withdrawals s). wd_idempotency_key x \<noteq> scoped)) \<and>
      find_wallet s wid \<noteq> None \<and> can_post_all (hold_posts wid amount coin (next_id s)) t \<and>
      row = held_view to_address r \<and> s' = post_all (hold_posts wid amount coin (next_id s)) t)"
proof -
  have fee: "0 < withdrawal_fee (coin_config coin)" by (rule coin_config_fee_pos)
  have fits: "fits_numeric (int (withdrawal_fee (coin_config coin)))"
    using coin_config_fits [of coin] by simp
  show ?thesis
    using fee fits
    by (simp add: hold_funds_def Let_def tx_simps held_row_def hold_posts_def held_view_def find_wallet_def)
qed


section \<open>Outcomes of a request\<close>

lemma request_new:
  assumes "request_withdrawal P secrets iv valid env bb bi user coin to_address amount ip key s =
      (Inr (row, True), s')"
  shows "valid to_address \<and> int (min_withdrawal (coin_config coin)) \<le> amount \<and>
    (\<exists>wid s2. wallet_id_of (bb s) user coin PERSONAL = Some wid \<and>
       hold_funds P secrets iv coin to_address amount
         (int (approval_threshold_atomic env coin) \<le> amount) ip (map_option (scoped_key user) key)
         wid (bi (bb s)) = Inr (row, s2) \<and> s' = release_locks s2)"
  using assms unfolding request_withdrawal_def Let_def
  by (auto split: if_splits option.splits sum.splits)

lemma request_old:
  assumes "request_withdrawal P secrets iv valid env bb bi user coin to_address amount ip key s =
      (Inr (row, False), s')"
  shows "(s' = s \<or> s' = bb s \<or> s' = bi (bb s)) \<and>
    lookup_scoped P secrets s' (map_option (scoped_key user) key) = Some row"
  using assms unfolding request_withdrawal_def Let_def
  by (auto split: if_splits option.splits sum.splits)

lemma request_failed:
  assumes "request_withdrawal P secrets iv valid env bb bi user coin to_address amount ip key s =
      (Inl e, s')"
  shows "s' = s \<or> s' = bb s \<or> s' = bi (bb s)"
  using assms unfolding request_withdrawal_def Let_def
  by (auto split: if_splits option.splits sum.splits)

lemma request_replay:
  assumes "lookup_scoped P secrets s (map_option (scoped_key user) key) = Some row"
    and "request_withdrawal P secrets iv valid env bb bi user coin to_address amount ip key s = (x, s')"
  shows "s' = s \<and> (\<forall>y. x = Inr y \<longrightarrow> y = (row, False))"
  using assms unfolding request_withdrawal_def Let_def by (auto split: if_splits)

lemma withdrawals_post_all [simp]: "withdrawals (post_all is s) = withdrawals s"
  by simp

lemma request_new_rows:
  assumes "request_withdrawal P secrets iv valid env bb bi user coin to_address amount ip key s =
      (Inr (row, True), s')"
  shows "\<exists>wid. withdrawals s' = withdrawals (bi (bb s)) @
      [held_row P secrets iv coin to_address amount (int (approval_threshold_atomic env coin) \<le> amount)
         ip (map_option (scoped_key user) key) wid (next_id (bi (bb s))) (clock (bi (bb s)))] \<and>
    row = held_view to_address (held_row P secrets iv coin to_address amount
       (int (approval_threshold_atomic env coin) \<le> amount) ip (map_option (scoped_key user) key) wid
       (next_id (bi (bb s))) (clock (bi (bb s)))) \<and>
    (key \<noteq> None \<longrightarrow> (\<forall>x\<in>set (withdrawals (bi (bb s))). wd_idempotency_key x \<noteq> map_option (scoped_key user) key))"
proof -
  let ?s = "bi (bb s)" and ?ra = "int (approval_threshold_atomic env coin) \<le> amount"
    and ?k = "map_option (scoped_key user) key"
  obtain wid s2 where h: "hold_funds P secrets iv coin to_address amount ?ra ip ?k wid ?s = Inr (row, s2)"
    and s': "s' = release_locks s2"
    using request_new [OF assms] by blast
  have "withdrawals s2 = withdrawals ?s @ [held_row P secrets iv coin to_address amount ?ra ip ?k wid (next_id ?s) (clock ?s)]"
    and "row = held_view to_address (held_row P secrets iv coin to_address amount ?ra ip ?k wid (next_id ?s) (clock ?s))"
    and "key \<noteq> None \<longrightarrow> (\<forall>x\<in>set (withdrawals ?s). wd_idempotency_key x \<noteq> ?k)"
    using h by (simp_all add: hold_funds_Inr Let_def)
  then show ?thesis by (intro exI [of _ wid]) (simp add: s' release_locks_def)
qed

section \<open>Once per key\<close>

text \<open>The row stored under a key of the user, by its identifier.\<close>

definition keyed_withdrawal :: "uuid \<Rightarrow> db \<Rightarrow> string \<Rightarrow> uuid option" where
  "keyed_withdrawal user s key = map_option wd_id
     (List.find (\<lambda>r. wd_idempotency_key r = Some (scoped_key user key)) (withdrawals s))"

definition request_keyed ::
    "primitives \<Rightarrow> SecretsService option \<Rightarrow> string \<Rightarrow> (string \<Rightarrow> bool) \<Rightarrow> (string \<rightharpoonup> string) \<Rightarrow>
     uuid \<Rightarrow> Coin \<Rightarrow> string \<Rightarrow> int \<Rightarrow> string \<Rightarrow> string \<Rightarrow> db \<Rightarrow> (WithdrawalsError + uuid \<times> bool) \<times> db" where
  "request_keyed P secrets iv valid env user coin to_address amount ip key s =
     apfst (map_sum id (apfst wr_id))
       (request_withdrawal P secrets iv valid env id id user coin to_address amount ip (Some key) s)"

lemma keyed_lookup:
  "lookup_scoped P secrets s (Some (scoped_key user key)) = Some row \<Longrightarrow>
     keyed_withdrawal user s key = Some (wr_id row)"
  by (auto simp: lookup_scoped_def find_withdrawal_by_key_def keyed_withdrawal_def withdrawal_view_def)

lemma keyed_lookup_Some:
  "keyed_withdrawal user s key = Some i \<Longrightarrow>
     \<exists>row. lookup_scoped P secrets s (Some (scoped_key user key)) = Some row \<and> wr_id row = i"
  by (auto simp: lookup_scoped_def find_withdrawal_by_key_def keyed_withdrawal_def withdrawal_view_def)

lemma request_stored:
  assumes "request_withdrawal P secrets iv valid env bb bi user coin to_address amount ip (Some key) s =
      (Inr (row, new), s')"
  shows "keyed_withdrawal user s' key = Some (wr_id row)"
proof (cases new)
  case False
  with assms show ?thesis using request_old [of P secrets iv valid env bb bi user coin to_address amount ip "Some key" s row s']
      keyed_lookup [of P secrets s' user key row] by simp
next
  case True
  let ?k = "map_option (scoped_key user) (Some key)"
  from assms True have run: "request_withdrawal P secrets iv valid env bb bi user coin to_address amount ip (Some key) s =
      (Inr (row, True), s')" by simp
  obtain wid where
    rows: "withdrawals s' = withdrawals (bi (bb s)) @
      [held_row P secrets iv coin to_address amount (int (approval_threshold_atomic env coin) \<le> amount)
         ip ?k wid (next_id (bi (bb s))) (clock (bi (bb s)))]"
    and row: "row = held_view to_address (held_row P secrets iv coin to_address amount
       (int (approval_threshold_atomic env coin) \<le> amount) ip ?k wid
       (next_id (bi (bb s))) (clock (bi (bb s))))"
    and fresh: "Some key \<noteq> None \<longrightarrow> (\<forall>x\<in>set (withdrawals (bi (bb s))). wd_idempotency_key x \<noteq> ?k)"
    using request_new_rows [OF run] by (elim exE conjE) rule
  have "List.find (\<lambda>r. wd_idempotency_key r = Some (scoped_key user key)) (withdrawals (bi (bb s))) = None"
    using fresh by (simp add: find_None_iff)
  then show ?thesis
    by (simp add: keyed_withdrawal_def rows find_append held_row_def row held_view_def)
qed

interpretation withdrawal_once: keyed_operation "keyed_withdrawal user"
    "request_keyed P secrets iv valid env user coin to_address amount ip"
  for P secrets iv valid env user coin to_address amount ip
proof
  fix s s' :: db and k r x new e
  show "s' = s \<and> (\<forall>y. x = Inr y \<longrightarrow> y = (r, False))"
    if old: "keyed_withdrawal user s k = Some r"
      and run: "request_keyed P secrets iv valid env user coin to_address amount ip k s = (x, s')"
  proof -
    obtain row where row: "lookup_scoped P secrets s (Some (scoped_key user k)) = Some row" "wr_id row = r"
      using keyed_lookup_Some [OF old] by blast
    obtain y t where q: "request_withdrawal P secrets iv valid env id id user coin to_address amount ip (Some k) s = (y, t)"
      by (cases "request_withdrawal P secrets iv valid env id id user coin to_address amount ip (Some k) s")
    have "t = s \<and> (\<forall>z. y = Inr z \<longrightarrow> z = (row, False))" using request_replay [OF _ q] row(1) by auto
    with run q row(2) show ?thesis by (cases y) (auto simp: request_keyed_def)
  qed
  show "keyed_withdrawal user s' k = Some r"
    if "request_keyed P secrets iv valid env user coin to_address amount ip k s = (Inr (r, new), s')"
  proof -
    obtain y t where q: "request_withdrawal P secrets iv valid env id id user coin to_address amount ip (Some k) s = (y, t)"
      by (cases "request_withdrawal P secrets iv valid env id id user coin to_address amount ip (Some k) s")
    with that obtain row b where "y = Inr (row, b)" "t = s'" "wr_id row = r"
      by (cases y) (auto simp: request_keyed_def)
    with q request_stored show ?thesis by blast
  qed
  show "s' = s" if "request_keyed P secrets iv valid env user coin to_address amount ip k s = (Inl e, s')"
  proof -
    obtain y t where q: "request_withdrawal P secrets iv valid env id id user coin to_address amount ip (Some k) s = (y, t)"
      by (cases "request_withdrawal P secrets iv valid env id id user coin to_address amount ip (Some k) s")
    with that have "y = Inl e" "t = s'" by (cases y; auto simp: request_keyed_def)+
    with q request_failed [of P secrets iv valid env id id user coin to_address amount ip "Some k" s e s'] show ?thesis by simp
  qed
qed

lemma withdrawal_debit_sel [simp]:
  "in_wallet_id (withdrawal_debit w a i) = w" "in_amount (withdrawal_debit w a i) = - a"
  "in_wallet_id (withdrawal_fee_debit w f i) = w" "in_amount (withdrawal_fee_debit w f i) = - f"
  "in_type (withdrawal_debit w a i) = WITHDRAWAL" "in_type (withdrawal_fee_debit w f i) = WITHDRAWAL_FEE"
  "in_reference_id (withdrawal_debit w a i) = Some i" "in_reference_id (withdrawal_fee_debit w f i) = Some i"
  "in_reference_type (withdrawal_debit w a i) = Some ''Withdrawal''"
  "in_reference_type (withdrawal_fee_debit w f i) = Some ''Withdrawal''"
  by (simp_all add: withdrawal_debit_def withdrawal_fee_debit_def simple_input_def)

lemma withdrawals_frame_balance [simp]:
  "wallet_balance (s\<lparr>next_id := n, withdrawals := x\<rparr>) w = wallet_balance s w"
  by (rule wallet_balance_frame) simp

lemma hold_funds_effect:
  assumes run: "hold_funds P secrets iv coin to_address amount ra ip k wid s = Inr (row, s')"
    and books: "books_ok s" and pos: "0 < amount"
  shows "books_ok s' \<and> amount + int (withdrawal_fee (coin_config coin)) \<le> wallet_balance s wid \<and>
    (\<forall>w. wallet_balance s' w = wallet_balance s w -
       (if w = wid then amount + int (withdrawal_fee (coin_config coin)) else 0)) \<and>
    withdrawals s' = withdrawals s @ [held_row P secrets iv coin to_address amount ra ip k wid (wr_id row) (clock s)] \<and>
    row = held_view to_address (held_row P secrets iv coin to_address amount ra ip k wid (wr_id row) (clock s)) \<and>
    wr_id row = next_id s"
proof -
  let ?r = "held_row P secrets iv coin to_address amount ra ip k wid (next_id s) (clock s)"
  let ?t = "s\<lparr>next_id := Suc (next_id s), withdrawals := withdrawals s @ [?r]\<rparr>"
  let ?fee = "int (withdrawal_fee (coin_config coin))"
  have cp: "can_post_all (hold_posts wid amount coin (next_id s)) ?t"
    and s': "s' = post_all (hold_posts wid amount coin (next_id s)) ?t"
    and row: "row = held_view to_address ?r"
    using run by (simp_all add: hold_funds_Inr Let_def)
  have bt: "books_ok ?t" using books by (rule books_ok_cong [rotated -1]) simp_all
  have fee: "0 < ?fee" by simp
  have "0 \<le> wallet_balance (post_entry (withdrawal_debit wid amount (next_id s)) ?t) wid - ?fee"
    using cp fee by (simp add: hold_posts_def can_post_def)
  then have enough: "amount + ?fee \<le> wallet_balance s wid" by simp
  have id: "wr_id row = next_id s" by (simp add: row held_view_def held_row_def)
  have "wallet_balance s' w = wallet_balance s w - (if w = wid then amount + ?fee else 0)" for w
    unfolding s' wallet_balance_post_all by (simp add: hold_posts_def)
  then show ?thesis
    using books_ok_post_all [OF cp bt] enough id by (simp add: s' row)
qed

section \<open>Properties\<close>

text \<open>
  C4. A withdrawal holds its funds when it is requested: a new request was to a valid address, of
  at least the minimum, and the personal wallet covered amount and fee; exactly that was taken
  from it and from no other wallet, and the row is stored, waiting for approval exactly when
  the amount reaches the coin's threshold and queued otherwise. Every other answer changes
  nothing.
\<close>

theorem withdrawal_request_holds_funds:
  assumes "request_withdrawal P secrets iv valid env id id user coin to_address amount ip key s = (r, s')"
    and "books_ok s"
  shows "books_ok s' \<and>
    (case r of
       Inl e \<Rightarrow> s' = s
     | Inr (row, new) \<Rightarrow>
         if \<not> new then s' = s
         else valid to_address \<and> int (min_withdrawal (coin_config coin)) \<le> amount \<and>
           (\<exists>wid. wallet_id_of s user coin PERSONAL = Some wid \<and>
              amount + int (withdrawal_fee (coin_config coin)) \<le> wallet_balance s wid \<and>
              (\<forall>w. wallet_balance s' w = wallet_balance s w -
                 (if w = wid then amount + int (withdrawal_fee (coin_config coin)) else 0)) \<and>
              withdrawals s' = withdrawals s @
                [held_row P secrets iv coin to_address amount
                   (int (approval_threshold_atomic env coin) \<le> amount) ip
                   (map_option (scoped_key user) key) wid (wr_id row) (clock s)] \<and>
              wr_status row = (if int (approval_threshold_atomic env coin) \<le> amount then WPending else WQueued)))"
proof (cases r)
  case (Inl e)
  with assms request_failed [of P secrets iv valid env id id user coin to_address amount ip key s e s']
  show ?thesis by simp
next
  case (Inr p)
  obtain row new where p: "p = (row, new)" by (cases p)
  show ?thesis
  proof (cases new)
    case False
    with assms Inr p request_old [of P secrets iv valid env id id user coin to_address amount ip key s row s']
    show ?thesis by simp
  next
    case True
    with assms(1) Inr p have "request_withdrawal P secrets iv valid env id id user coin to_address amount ip key s =
      (Inr (row, True), s')" by simp
    from request_new [OF this] obtain wid s2 where new: "valid to_address" "int (min_withdrawal (coin_config coin)) \<le> amount"
      "wallet_id_of s user coin PERSONAL = Some wid"
      and h: "hold_funds P secrets iv coin to_address amount (int (approval_threshold_atomic env coin) \<le> amount) ip
         (map_option (scoped_key user) key) wid s = Inr (row, s2)" and s': "s' = release_locks s2"
      unfolding id_apply by (elim conjE exE) rule
    have pos: "0 < amount" using new(2) by simp
    note eff = hold_funds_effect [OF h assms(2) pos]
    have "wr_status row = (if int (approval_threshold_atomic env coin) \<le> amount then WPending else WQueued)"
      using eff by (metis (no_types, lifting) WithdrawalRow.select_convs(6) held_row_def held_view_def new_withdrawal_sel(8))
    moreover have "withdrawals s' = withdrawals s2" by (simp add: s' release_locks_def)
    ultimately show ?thesis
      unfolding Inr p sum.case prod.case using True eff new
      by (simp add: s' books_ok_release)
  qed
qed

text \<open>
  C5. A key is used once: whatever other sessions commit meanwhile, an answer with a row leaves
  that row under the user's key; "not new" means the request itself changed nothing; and every
  later request of the user under the key, whatever its parameters, changes nothing and can
  only answer with the stored row. Keys of different users never meet.
\<close>

theorem withdrawal_exactly_once:
  assumes "request_withdrawal P secrets iv valid env bb bi user coin to_address amount ip (Some key) s =
      (Inr (row, new), s')"
    and "\<And>k. open_opt P secrets KIND_WD_TO k (seal_opt P secrets iv KIND_WD_TO k to_address) = to_address"
  shows "lookup_scoped P secrets s' (Some (scoped_key user key)) = Some row \<and>
    (\<not> new \<longrightarrow> s' = s \<or> s' = bb s \<or> s' = bi (bb s)) \<and>
    withdrawal_once.retries P secrets iv' valid' env' user coin' to' amount' ip' n key s' = s' \<and>
    (\<forall>y t. request_withdrawal P secrets iv' valid' env' id id user coin' to' amount' ip' (Some key) s' = (Inr y, t) \<longrightarrow>
       y = (row, False) \<and> t = s') \<and>
    (user < 2 ^ 128 \<longrightarrow> user' < 2 ^ 128 \<longrightarrow> user' \<noteq> user \<longrightarrow> scoped_key user' key' \<noteq> scoped_key user key)"
proof -
  let ?k = "map_option (scoped_key user) (Some key)"
  have stored: "lookup_scoped P secrets s' ?k = Some row"
  proof (cases new)
    case False
    with assms(1) request_old [of P secrets iv valid env bb bi user coin to_address amount ip "Some key" s row s']
    show ?thesis by simp
  next
    case True
    from assms(1) True have run: "request_withdrawal P secrets iv valid env bb bi user coin to_address amount ip (Some key) s =
      (Inr (row, True), s')" by simp
    obtain wid where
      rows: "withdrawals s' = withdrawals (bi (bb s)) @
        [held_row P secrets iv coin to_address amount (int (approval_threshold_atomic env coin) \<le> amount)
         ip ?k wid (next_id (bi (bb s))) (clock (bi (bb s)))]"
      and row: "row = held_view to_address (held_row P secrets iv coin to_address amount
       (int (approval_threshold_atomic env coin) \<le> amount) ip ?k wid
       (next_id (bi (bb s))) (clock (bi (bb s))))"
      and fresh: "Some key \<noteq> None \<longrightarrow> (\<forall>x\<in>set (withdrawals (bi (bb s))). wd_idempotency_key x \<noteq> ?k)"
      using request_new_rows [OF run] by (elim exE conjE) rule
    have none: "List.find (\<lambda>r. wd_idempotency_key r = Some (scoped_key user key)) (withdrawals (bi (bb s))) = None"
      using fresh by (simp add: find_None_iff)
    show ?thesis
      by (simp add: lookup_scoped_def find_withdrawal_by_key_def rows find_append none)
        (simp add: held_row_def row held_view_def withdrawal_view_def assms(2))
  qed
  moreover have "\<not> new \<longrightarrow> s' = s \<or> s' = bb s \<or> s' = bi (bb s)"
    using request_old [of P secrets iv valid env bb bi user coin to_address amount ip "Some key" s row s'] assms(1) by auto
  moreover have "withdrawal_once.retries P secrets iv' valid' env' user coin' to' amount' ip' n key s' = s'"
    using request_stored [OF assms(1)] by (rule withdrawal_once.retries_after)
  moreover have "y = (row, False) \<and> t = s'"
    if "request_withdrawal P secrets iv' valid' env' id id user coin' to' amount' ip' (Some key) s' = (Inr y, t)" for y t
    using request_replay [OF stored that] by simp
  moreover have "scoped_key user' key' \<noteq> scoped_key user key"
    if "user < 2 ^ 128" "user' < 2 ^ 128" "user' \<noteq> user"
    using that scoped_key_inj [of user' user key' key] by auto
  ultimately show ?thesis by simp
qed

section \<open>Witnesses\<close>

definition withdrawal_demo :: db where
  "withdrawal_demo = append_entries [simple_input 1 5000 DEPOSIT None None None]
     (empty_db\<lparr>next_id := 10, clock := 60,
        users := [\<lparr>u_id = 7, u_email = ''a'', u_username = ''a'', u_password_hash = []\<rparr>],
        wallets := [demo_wallet 1 7 Btc PERSONAL]\<rparr>)"

lemmas withdrawal_demo_defs = withdrawal_demo_def demo_wallet_def empty_db_def simple_input_def entry_of_def

lemma withdrawal_demo_ok: "books_ok withdrawal_demo"
  by (simp add: withdrawal_demo_defs books_ok_def wallets_wf_def entries_owned_def references_unique_def
      solvent_def wallet_balance_def List.map_filter_simps reference_of_def key_of_def)

abbreviation demo_request ::
    "string \<Rightarrow> db \<Rightarrow> (WithdrawalsError + WithdrawalRow \<times> bool) \<times> db" where
  "demo_request to \<equiv> request_withdrawal demo_primitives None ''iv'' (\<lambda>_. True) Map.empty id id 7 Btc to
     1000 ''ip'' (Some ''k'')"

lemma withdrawal_demo_run: "\<exists>row. fst (demo_request ''bc1q'' withdrawal_demo) = Inr (row, True)"
proof -
  let ?k = "Some (scoped_key 7 ''k'')" and ?ra = "int (approval_threshold_atomic Map.empty Btc) \<le> 1000"
  have "\<exists>row s'. hold_funds demo_primitives None ''iv'' Btc ''bc1q'' 1000 ?ra ''ip'' ?k 1 withdrawal_demo = Inr (row, s')"
    by (simp add: hold_funds_Inr Let_def hold_posts_def can_post_def withdrawal_demo_defs find_wallet_def
      fits_numeric_def numeric_limit_def wallet_balance_def held_against_def references_unique_def post_entry_def entry_of_def
      reference_conflict_def key_conflict_def withdrawal_debit_def withdrawal_fee_debit_def
      List.map_filter_simps reference_of_def key_of_def)
  moreover have "wallet_id_of withdrawal_demo 7 Btc PERSONAL = Some 1"
    by (simp add: withdrawal_demo_defs wallet_id_of_def)
  moreover have "withdrawals withdrawal_demo = []" by (simp add: withdrawal_demo_defs)
  ultimately show ?thesis
    by (auto simp: request_withdrawal_def Let_def lookup_scoped_def find_withdrawal_by_key_def)
qed


theorem withdrawal_request_holds_funds_witness:
  "\<exists>row s'. demo_request ''bc1q'' withdrawal_demo = (Inr (row, True), s') \<and> books_ok s' \<and>
     wallet_balance s' 1 = 5000 - 1000 - int (withdrawal_fee (coin_config Btc))"
proof -
  obtain row s' where run: "demo_request ''bc1q'' withdrawal_demo = (Inr (row, True), s')"
    using withdrawal_demo_run by (metis prod.collapse)
  have wid: "wallet_id_of withdrawal_demo 7 Btc PERSONAL = Some 1" "wallet_balance withdrawal_demo 1 = 5000"
    by (simp_all add: withdrawal_demo_defs wallet_id_of_def wallet_balance_def)
  from withdrawal_request_holds_funds [OF run withdrawal_demo_ok] run wid show ?thesis by auto
qed

theorem withdrawal_exactly_once_witness:
  "\<exists>row s'. demo_request ''bc1q'' withdrawal_demo = (Inr (row, True), s') \<and>
     lookup_scoped demo_primitives None s' (Some (scoped_key 7 ''k'')) = Some row \<and>
     withdrawal_once.retries demo_primitives None ''iv'' (\<lambda>_. True) Map.empty 7 Btc ''bc1z'' 900 ''ip'' 3 ''k'' s' = s'"
proof -
  obtain row s' where run: "demo_request ''bc1q'' withdrawal_demo = (Inr (row, True), s')"
    using withdrawal_demo_run by (metis prod.collapse)
  have plain: "\<And>k. open_opt demo_primitives None KIND_WD_TO k
      (seal_opt demo_primitives None ''iv'' KIND_WD_TO k ''bc1q'') = ''bc1q''"
    by (simp add: open_opt_def seal_opt_def)
  from withdrawal_exactly_once [OF run plain, of "''iv''" "\<lambda>_. True" Map.empty Btc "''bc1z''" 900 "''ip''" 3] run
  show ?thesis by blast
qed

end
