(* ===== verification/Admin.thy ===== *)
theory Admin
  imports Withdrawals
begin

text \<open>
  The operations of \<open>crates/db/src/admin.rs\<close> that change state: the decision on a withdrawal
  that needs approval, the funding of HOUSE and of the lending pool, and the moderation of the
  faucet list. The dashboards and reports of the module only read and are not modelled; the
  moderation of merchants is not modelled either.
\<close>

datatype AdminError =
  AdminDb db_error
| AdminHouse HouseError
| AdminWithdrawalNotFound
| AdminMerchantNotFound
| NotPending
| InvalidAmount

definition admin_log ::
    "uuid \<Rightarrow> string \<Rightarrow> string \<Rightarrow> uuid \<Rightarrow> string option \<Rightarrow> string option \<Rightarrow> (AdminError, unit) op" where
  "admin_log admin action entity entity_id ip metadata =
     tx_bind (tx_map_err AdminDb (record_log (Some admin) action entity (Some entity_id) ip metadata)) (\<lambda>_.
     tx_return ())"

section \<open>Withdrawals\<close>

definition approve_withdrawal_tx :: "uuid \<Rightarrow> uuid \<Rightarrow> string option \<Rightarrow> (AdminError, unit) op" where
  "approve_withdrawal_tx wdid admin ip =
     tx_bind (tx_gets (\<lambda>s. find_withdrawal s wdid)) (\<lambda>found.
     if (case found of None \<Rightarrow> True | Some r \<Rightarrow> wd_status r \<noteq> WPending) then tx_throw NotPending
     else
       tx_bind (tx_gets (\<lambda>s. \<exists>u\<in>set (users s). u_id u = admin)) (\<lambda>known.
       tx_bind (tx_assert known (AdminDb
         (ForeignKeyViolation ''withdrawals'' ''withdrawals_approved_by_id_fkey''))) (\<lambda>_.
       tx_bind (tx_modify (\<lambda>s. set_withdrawal wdid (\<lambda>r. r\<lparr>wd_status := WApproved,
         wd_approved_by := Some admin, wd_approved_at := Some (clock s)\<rparr>) s)) (\<lambda>_.
       admin_log admin ''WITHDRAWAL_APPROVE'' ''Withdrawal'' wdid ip None))))"

definition approve_withdrawal ::
    "uuid \<Rightarrow> uuid \<Rightarrow> string option \<Rightarrow> db \<Rightarrow> (AdminError + unit) \<times> db" where
  "approve_withdrawal wdid admin ip = commit_tx release_locks (approve_withdrawal_tx wdid admin ip)"

definition reject_withdrawal_tx :: "uuid \<Rightarrow> uuid \<Rightarrow> string option \<Rightarrow> (AdminError, unit) op" where
  "reject_withdrawal_tx wdid admin ip =
     tx_bind (tx_gets (\<lambda>s. find_withdrawal s wdid)) (\<lambda>found.
     tx_bind (tx_ok_or AdminWithdrawalNotFound found) (\<lambda>r.
     if wd_status r \<noteq> WPending then tx_throw NotPending
     else
       tx_bind (tx_modify (\<lambda>s. set_withdrawal wdid (with_status WCanceled (clock s)) s)) (\<lambda>_.
       tx_bind (tx_map_err (\<lambda>e. AdminDb (Protocol (ledger_error_str e)))
         (apply_ledger_entry (reversal_of (wd_wallet r) (wd_amount r + wd_fee_amount r) wdid
            ''Rejected by admin''))) (\<lambda>_.
       admin_log admin ''WITHDRAWAL_REJECT'' ''Withdrawal'' wdid ip None))))"

definition reject_withdrawal ::
    "uuid \<Rightarrow> uuid \<Rightarrow> string option \<Rightarrow> db \<Rightarrow> (AdminError + unit) \<times> db" where
  "reject_withdrawal wdid admin ip = commit_tx release_locks (reject_withdrawal_tx wdid admin ip)"

section \<open>Funding\<close>

definition fund_metadata :: "Coin \<Rightarrow> nat \<Rightarrow> string" where
  "fund_metadata coin amount =
     json_object [(''coin'', json_text (coin_str coin)), (''amount'', json_text (show_nat amount))]"

definition fund_house_tx :: "Coin \<Rightarrow> nat \<Rightarrow> uuid \<Rightarrow> (AdminError, unit) op" where
  "fund_house_tx coin amount admin =
     tx_bind (tx_assert (amount \<noteq> 0) InvalidAmount) (\<lambda>_.
     tx_bind (tx_map_err AdminHouse (get_house_wallet_id coin)) (\<lambda>wid.
     tx_bind fresh_uuid (\<lambda>rid.
     tx_bind (tx_map_err (\<lambda>e. AdminDb (Protocol (ledger_error_str e)))
       (apply_ledger_entry (simple_input wid (int amount) ADJUSTMENT (Some rid) (Some ''HouseFund'')
          (Some (''Admin fund HOUSE '' @ coin_str coin))))) (\<lambda>_.
     admin_log admin ''HOUSE_FUND'' ''Wallet'' wid None (Some (fund_metadata coin amount))))))"

definition fund_house :: "Coin \<Rightarrow> nat \<Rightarrow> uuid \<Rightarrow> db \<Rightarrow> (AdminError + unit) \<times> db" where
  "fund_house coin amount admin = commit_tx release_locks (fund_house_tx coin amount admin)"

definition fund_lend_pool_tx :: "Coin \<Rightarrow> nat \<Rightarrow> uuid \<Rightarrow> (AdminError, unit) op" where
  "fund_lend_pool_tx coin amount admin =
     tx_bind (tx_assert (amount \<noteq> 0) InvalidAmount) (\<lambda>_.
     tx_bind (tx_map_err AdminHouse (get_lend_pool_wallet_id coin)) (\<lambda>wid.
     tx_bind fresh_uuid (\<lambda>rid.
     tx_bind (tx_map_err (\<lambda>e. AdminDb (Protocol (ledger_error_str e)))
       (apply_ledger_entry (simple_input wid (int amount) ADJUSTMENT (Some rid) (Some ''LendPoolFund'')
          (Some (''Admin seed LEND_POOL '' @ coin_str coin))))) (\<lambda>_.
     admin_log admin ''LEND_POOL_FUND'' ''Wallet'' wid None (Some (fund_metadata coin amount))))))"

definition fund_lend_pool :: "Coin \<Rightarrow> nat \<Rightarrow> uuid \<Rightarrow> db \<Rightarrow> (AdminError + unit) \<times> db" where
  "fund_lend_pool coin amount admin = commit_tx release_locks (fund_lend_pool_tx coin amount admin)"

section \<open>The faucet list\<close>

definition transition_faucet_site_tx ::
    "uuid \<Rightarrow> uuid \<Rightarrow> site_status list \<Rightarrow> site_status \<Rightarrow> string \<Rightarrow> string option \<Rightarrow> (AdminError, unit) op" where
  "transition_faucet_site_tx sid admin from_statuses to_status action reason =
     tx_bind (tx_gets (\<lambda>s. \<exists>r\<in>set (faucet_sites s). fs_id r = sid \<and> fs_status r \<in> set from_statuses)) (\<lambda>found.
     tx_bind (tx_assert found NotPending) (\<lambda>_.
     tx_bind (tx_modify (\<lambda>s. s\<lparr>faucet_sites := update_where
       (\<lambda>r. fs_id r = sid \<and> fs_status r \<in> set from_statuses)
       (\<lambda>r. r\<lparr>fs_status := to_status, fs_rejection_reason := reason, fs_reviewed_by := Some admin,
               fs_reviewed_at := Some (clock s)\<rparr>) (faucet_sites s)\<rparr>)) (\<lambda>_.
     admin_log admin action ''FaucetSite'' sid None None)))"

definition transition_faucet_site ::
    "uuid \<Rightarrow> uuid \<Rightarrow> site_status list \<Rightarrow> site_status \<Rightarrow> string \<Rightarrow> string option \<Rightarrow> db \<Rightarrow>
     (AdminError + unit) \<times> db" where
  "transition_faucet_site sid admin from_statuses to_status action reason =
     commit_tx release_locks (transition_faucet_site_tx sid admin from_statuses to_status action reason)"

definition approve_faucet_site :: "uuid \<Rightarrow> uuid \<Rightarrow> db \<Rightarrow> (AdminError + unit) \<times> db" where
  "approve_faucet_site sid admin =
     transition_faucet_site sid admin [SitePending, SiteSuspended] SiteApproved ''FAUCETSITE_APPROVE'' None"

definition reject_faucet_site :: "uuid \<Rightarrow> uuid \<Rightarrow> string \<Rightarrow> db \<Rightarrow> (AdminError + unit) \<times> db" where
  "reject_faucet_site sid admin reason =
     transition_faucet_site sid admin [SitePending, SiteApproved, SiteSuspended] SiteRejected
       ''FAUCETSITE_REJECT'' (Some reason)"

definition suspend_faucet_site :: "uuid \<Rightarrow> uuid \<Rightarrow> db \<Rightarrow> (AdminError + unit) \<times> db" where
  "suspend_faucet_site sid admin =
     transition_faucet_site sid admin [SiteApproved] SiteSuspended ''FAUCETSITE_SUSPEND'' None"

end
