(* ===== verification/WithdrawalFlow.thy ===== *)
theory WithdrawalFlow
  imports Admin
begin

text \<open>
  The life of a withdrawal across \<open>request_withdrawal\<close>, \<open>process_broadcast\<close>,
  \<open>finalize_broadcasted\<close> (\<open>crates/db/src/withdrawals.rs\<close>) and the decisions of an administrator
  (\<open>crates/db/src/admin.rs\<close>), as a step relation: the configuration is the database, the workers
  in flight (a worker owns its withdrawal between the committed claim and the commit that
  records the outcome) and, as a ghost, the withdrawals whose coins left the hot wallet. Any
  number of workers and requests interleave, a worker may crash at any point, and the rest of
  the platform may do anything that leaves the withdrawals and their ledger entries alone.
\<close>

section \<open>Configurations and steps\<close>

datatype worker =
  Claimed uuid
| Answered uuid withdrawal_row Coin "BroadcastError + BroadcastResult"

fun worker_of :: "worker \<Rightarrow> uuid" where
  "worker_of (Claimed i) = i"
| "worker_of (Answered i r c a) = i"

type_synonym flow = "db \<times> worker list \<times> uuid list"

text \<open>
  What the chain client promises: a result means the coins left, an error marked safe to
  reverse that they did not; any other error says nothing.
\<close>

fun chain_contract :: "BroadcastError + BroadcastResult \<Rightarrow> bool \<Rightarrow> bool" where
  "chain_contract (Inr b) sent = sent"
| "chain_contract (Inl e) sent = (be_safe_to_reverse e \<longrightarrow> \<not> sent)"

definition withdrawal_entry :: "uuid \<Rightarrow> ledger_row \<Rightarrow> bool" where
  "withdrawal_entry i e \<longleftrightarrow> le_reference_type e = Some ''Withdrawal'' \<and> le_reference_id e = Some i"

text \<open>What the rest of the platform may do.\<close>

definition leaves_withdrawals :: "db \<Rightarrow> db \<Rightarrow> bool" where
  "leaves_withdrawals s s' \<longleftrightarrow>
     withdrawals s' = withdrawals s \<and> next_id s \<le> next_id s' \<and>
     (\<exists>es. ledger s' = ledger s @ es \<and> (\<forall>e\<in>set es. le_reference_type e \<noteq> Some ''Withdrawal''))"

inductive flow_step :: "primitives \<Rightarrow> SecretsService option \<Rightarrow> flow \<Rightarrow> flow \<Rightarrow> bool"
  for P secrets where
  request: "request_withdrawal P secrets iv valid env id id user coin to_address amount ip key s = (r, s') \<Longrightarrow>
    flow_step P secrets (s, ws, sent) (s', ws, sent)"
| approve: "approve_withdrawal i admin ip s = (ra, s') \<Longrightarrow> flow_step P secrets (s, ws, sent) (s', ws, sent)"
| reject: "reject_withdrawal i admin ip s = (ra, s') \<Longrightarrow> flow_step P secrets (s, ws, sent) (s', ws, sent)"
| claim: "claim_broadcast i s = (True, s') \<Longrightarrow> flow_step P secrets (s, ws, sent) (s', Claimed i # ws, sent)"
| send: "Claimed i \<in> set ws \<Longrightarrow> find_withdrawal s i = Some r \<Longrightarrow> find_wallet s (wd_wallet r) = Some w \<Longrightarrow>
    chain_contract a out \<Longrightarrow>
    flow_step P secrets (s, ws, sent)
      (s, Answered i r (w_coin w) a # remove1 (Claimed i) ws, if out then i # sent else sent)"
| refund: "Answered i r c (Inl e) \<in> set ws \<Longrightarrow> be_safe_to_reverse e \<Longrightarrow>
    fail_safely i r (be_message e) s = (rf, s') \<Longrightarrow>
    flow_step P secrets (s, ws, sent) (s', remove1 (Answered i r c (Inl e)) ws, sent)"
| persist: "Answered i r c (Inr b) \<in> set ws \<Longrightarrow> persist_broadcast i r c (br_tx_hash b) s = (rp, s') \<Longrightarrow>
    flow_step P secrets (s, ws, sent) (s', remove1 (Answered i r c (Inr b)) ws, sent)"
| finalize: "finalize_broadcasted i s = (rz, s') \<Longrightarrow> flow_step P secrets (s, ws, sent) (s', ws, sent)"
| crash: "w \<in> set ws \<Longrightarrow> flow_step P secrets (s, ws, sent) (s, remove1 w ws, sent)"
| other: "leaves_withdrawals s s' \<Longrightarrow> flow_step P secrets (s, ws, sent) (s', ws, sent)"

section \<open>The invariant\<close>

definition withdrawal_net :: "db \<Rightarrow> uuid \<Rightarrow> int" where
  "withdrawal_net s i = (\<Sum>e\<leftarrow>filter (withdrawal_entry i) (ledger s). le_amount e)"

fun worker_ok :: "nat \<Rightarrow> withdrawal_row \<Rightarrow> worker \<Rightarrow> bool" where
  "worker_ok n r (Claimed i) = (n = 0)"
| "worker_ok n r (Answered i q c a) =
     (wd_amount q + wd_fee_amount q = wd_amount r + wd_fee_amount r \<and> chain_contract a (n = 1))"

abbreviation refunded :: "withdrawal_row \<Rightarrow> bool" where
  "refunded r \<equiv> wd_status r = WFailed \<or> wd_status r = WCanceled"

abbreviation paid_out :: "withdrawal_row \<Rightarrow> bool" where
  "paid_out r \<equiv> wd_status r = WBroadcasted \<or> wd_status r = WConfirmed"

text \<open>One withdrawal: what the ledger says of it, how often it was sent, and its workers.\<close>

definition payout_ok :: "int \<Rightarrow> nat \<Rightarrow> worker list \<Rightarrow> withdrawal_row \<Rightarrow> bool" where
  "payout_ok net n ws r \<longleftrightarrow>
     net = (if refunded r then 0 else - (wd_amount r + wd_fee_amount r)) \<and>
     (paid_out r \<longrightarrow> wd_tx_hash r \<noteq> None) \<and>
     (if wd_status r = WBroadcasting then n \<le> 1 \<and> (ws = [] \<or> (\<exists>w. ws = [w] \<and> worker_ok n r w))
      else ws = [] \<and> n = (if paid_out r then 1 else 0))"

definition workers_on :: "uuid \<Rightarrow> worker list \<Rightarrow> worker list" where
  "workers_on i ws = filter (\<lambda>w. worker_of w = i) ws"

definition flow_ok :: "flow \<Rightarrow> bool" where
  "flow_ok c \<longleftrightarrow> (case c of (s, ws, sent) \<Rightarrow>
     distinct (map wd_id (withdrawals s)) \<and>
     (\<forall>r\<in>set (withdrawals s). wd_id r < next_id s \<and>
        payout_ok (withdrawal_net s (wd_id r)) (count_list sent (wd_id r)) (workers_on (wd_id r) ws) r) \<and>
     (\<forall>e\<in>set (ledger s). \<forall>i. withdrawal_entry i e \<longrightarrow> i \<in> wd_id ` set (withdrawals s)) \<and>
     set sent \<subseteq> wd_id ` set (withdrawals s) \<and>
     worker_of ` set ws \<subseteq> wd_id ` set (withdrawals s))"

lemma withdrawal_net_append:
  "ledger s' = ledger s @ es \<Longrightarrow>
     withdrawal_net s' i = withdrawal_net s i + (\<Sum>e\<leftarrow>filter (withdrawal_entry i) es. le_amount e)"
  by (simp add: withdrawal_net_def)

lemma withdrawal_net_cong: "ledger s' = ledger s \<Longrightarrow> withdrawal_net s' i = withdrawal_net s i"
  by (simp add: withdrawal_net_def)

lemma net_unrelated:
  "(\<And>e. e \<in> set es \<Longrightarrow> \<not> withdrawal_entry i e) \<Longrightarrow> (\<Sum>e\<leftarrow>filter (withdrawal_entry i) es. le_amount e) = 0"
  by (simp add: filter_empty_conv [THEN iffD2])

text \<open>The row of one withdrawal changes, with its workers, its sends and its entries.\<close>

lemma flow_ok_at:
  assumes ok: "flow_ok (s, ws, sent)" and r: "r \<in> set (withdrawals s)" and id: "wd_id (f r) = wd_id r"
    and rows: "withdrawals s' = update_where (\<lambda>x. wd_id x = wd_id r) f (withdrawals s)"
    and led: "ledger s' = ledger s @ es" and es: "\<And>e j. e \<in> set es \<Longrightarrow> withdrawal_entry j e \<Longrightarrow> j = wd_id r"
    and next_id: "next_id s \<le> next_id s'"
    and ws: "\<And>j. j \<noteq> wd_id r \<Longrightarrow> workers_on j ws' = workers_on j ws"
    and sent: "\<And>j. j \<noteq> wd_id r \<Longrightarrow> count_list sent' j = count_list sent j"
    and new: "payout_ok (withdrawal_net s' (wd_id r)) (count_list sent' (wd_id r)) (workers_on (wd_id r) ws') (f r)"
  shows "flow_ok (s', ws', sent')"
proof -
  have d: "distinct (map wd_id (withdrawals s))" using ok by (simp add: flow_ok_def)
  have same: "x = r" if "x \<in> set (withdrawals s)" "wd_id x = wd_id r" for x
    using d r that by (simp add: distinct_map inj_on_def)
  have upd: "withdrawals s' = map (\<lambda>x. if wd_id x = wd_id r then f x else x) (withdrawals s)"
    by (simp add: rows update_where_def)
  have ids: "map wd_id (withdrawals s') = map wd_id (withdrawals s)"
    unfolding upd map_map by (rule map_cong [OF refl]) (use same id in auto)
  then have idset: "wd_id ` set (withdrawals s') = wd_id ` set (withdrawals s)"
    by (metis set_map)
  have mem: "set (withdrawals s') \<subseteq> insert (f r) {x \<in> set (withdrawals s). wd_id x \<noteq> wd_id r}"
    unfolding upd using same by auto
  have net: "withdrawal_net s' j = withdrawal_net s j" if "j \<noteq> wd_id r" for j
  proof -
    have "(\<Sum>e\<leftarrow>filter (withdrawal_entry j) es. le_amount e) = 0"
      by (rule net_unrelated) (use es that in blast)
    then show ?thesis by (simp add: withdrawal_net_append [OF led])
  qed
  have row: "wd_id x < next_id s' \<and>
      payout_ok (withdrawal_net s' (wd_id x)) (count_list sent' (wd_id x)) (workers_on (wd_id x) ws') x"
    if "x \<in> set (withdrawals s')" for x
  proof (cases "x = f r")
    case True
    have "wd_id r < next_id s" using ok r by (simp add: flow_ok_def)
    with True id new next_id show ?thesis by simp
  next
    case False
    with that mem have x: "x \<in> set (withdrawals s)" "wd_id x \<noteq> wd_id r" by auto
    with ok have "wd_id x < next_id s \<and>
      payout_ok (withdrawal_net s (wd_id x)) (count_list sent (wd_id x)) (workers_on (wd_id x) ws) x"
      by (simp add: flow_ok_def)
    with x(2) next_id show ?thesis by (simp add: net ws sent)
  qed
  have "i \<in> wd_id ` set (withdrawals s)" if "e \<in> set (ledger s')" "withdrawal_entry i e" for i e
    using that ok r es [of e i] by (auto simp: led flow_ok_def)
  moreover have "set sent' \<subseteq> wd_id ` set (withdrawals s)"
  proof
    fix j assume "j \<in> set sent'"
    then have "count_list sent' j \<noteq> 0" by (simp add: count_list_0_iff)
    then have "j = wd_id r \<or> j \<in> set sent" using sent [of j] by (metis count_list_0_iff)
    then show "j \<in> wd_id ` set (withdrawals s)" using ok r by (auto simp: flow_ok_def)
  qed
  moreover have "worker_of ` set ws' \<subseteq> wd_id ` set (withdrawals s)"
  proof
    fix j assume "j \<in> worker_of ` set ws'"
    then have "workers_on j ws' \<noteq> []" by (auto simp: workers_on_def filter_empty_conv)
    then have "workers_on j ws \<noteq> [] \<or> j = wd_id r" using ws by metis
    then show "j \<in> wd_id ` set (withdrawals s)" using ok r
      by (auto simp: flow_ok_def workers_on_def filter_empty_conv)
  qed
  ultimately show ?thesis using d row by (auto simp: flow_ok_def ids idset)
qed

section \<open>What each operation does to the withdrawals\<close>

text \<open>
  Either nothing happened, or the row moved by \<open>f\<close> from a status in \<open>from\<close> and the ledger grew
  by the entries \<open>es\<close>.
\<close>

definition moves ::
    "uuid \<Rightarrow> (withdrawal_row \<Rightarrow> bool) \<Rightarrow> (withdrawal_row \<Rightarrow> withdrawal_row) \<Rightarrow> ledger_row list \<Rightarrow> db \<Rightarrow> db \<Rightarrow> bool" where
  "moves i ready f es s s' \<longleftrightarrow>
     (\<exists>r. find_withdrawal s i = Some r \<and> ready r) \<and>
     withdrawals s' = update_where (\<lambda>x. wd_id x = i) f (withdrawals s) \<and>
     ledger s' = ledger s @ es \<and> next_id s \<le> next_id s'"

lemma movesI:
  "find_withdrawal s i = Some r \<Longrightarrow> ready r \<Longrightarrow> withdrawals s' = update_where (\<lambda>x. wd_id x = i) f (withdrawals s) \<Longrightarrow>
     ledger s' = ledger s @ es \<Longrightarrow> next_id s \<le> next_id s' \<Longrightarrow> moves i ready f es s s'"
  by (auto simp: moves_def)

lemma release_frame [simp]:
  "withdrawals (release_locks s) = withdrawals s" "ledger (release_locks s) = ledger s"
  "next_id (release_locks s) = next_id s"
  by (simp_all add: release_locks_def)

lemma admin_log_Inr [tx_simps]:
  "admin_log admin action entity i ip m s = Inr (u, s') \<longleftrightarrow>
     (\<exists>r\<in>set (users s). u_id r = admin) \<and> s' = audited (Some admin) action entity (Some i) ip m s"
  by (simp add: admin_log_def tx_simps record_log_Inr)

lemma approve_moves:
  assumes "approve_withdrawal i admin ip s = (ra, s')"
  shows "s' = s \<or> moves i (\<lambda>r. wd_status r = WPending)
    (\<lambda>r. r\<lparr>wd_status := WApproved, wd_approved_by := Some admin, wd_approved_at := Some (clock s)\<rparr>) [] s s'"
proof (cases ra)
  case (Inl e)
  with assms show ?thesis by (simp add: approve_withdrawal_def commit_tx_failure)
next
  case (Inr u)
  with assms obtain t where run: "approve_withdrawal_tx i admin ip s = Inr (u, t)" and s': "s' = release_locks t"
    by (auto simp: approve_withdrawal_def commit_tx_success)
  from run obtain r where r: "find_withdrawal s i = Some r" "wd_status r = WPending"
    by (auto simp: approve_withdrawal_tx_def tx_simps split: option.splits if_splits)
  from run r have "withdrawals t = update_where (\<lambda>x. wd_id x = i)
      (\<lambda>r. r\<lparr>wd_status := WApproved, wd_approved_by := Some admin, wd_approved_at := Some (clock s)\<rparr>) (withdrawals s) \<and>
      ledger t = ledger s @ [] \<and> next_id s \<le> next_id t"
    by (auto simp: approve_withdrawal_tx_def tx_simps)
  with r show ?thesis by (intro disjI2 movesI [where r = r]) (simp_all add: s')
qed

definition reversal_entry :: "withdrawal_row \<Rightarrow> string \<Rightarrow> uuid \<Rightarrow> int \<Rightarrow> ledger_row" where
  "reversal_entry r memo = entry_of (reversal_of (wd_wallet r) (wd_amount r + wd_fee_amount r) (wd_id r) memo)"

lemma find_withdrawal_id: "find_withdrawal s i = Some r \<Longrightarrow> wd_id r = i \<and> r \<in> set (withdrawals s)"
  using find_Some_props [of "\<lambda>r. wd_id r = i" "withdrawals s" r] by (simp add: find_withdrawal_def)

lemma reject_moves:
  assumes "reject_withdrawal i admin ip s = (ra, s')"
  shows "s' = s \<or> (\<exists>r eid. find_withdrawal s i = Some r \<and>
    moves i (\<lambda>r. wd_status r = WPending) (with_status WCanceled (clock s))
      [reversal_entry r ''Rejected by admin'' eid (clock s)] s s')"
proof (cases ra)
  case (Inl e)
  with assms show ?thesis by (simp add: reject_withdrawal_def commit_tx_failure)
next
  case (Inr u)
  with assms obtain t where run: "reject_withdrawal_tx i admin ip s = Inr (u, t)" and s': "s' = release_locks t"
    by (auto simp: reject_withdrawal_def commit_tx_success)
  from run obtain r where r: "find_withdrawal s i = Some r" "wd_status r = WPending"
    by (auto simp: reject_withdrawal_tx_def tx_simps split: if_splits)
  have id: "wd_id r = i" using find_withdrawal_id [OF r(1)] by simp
  from run r have "withdrawals t = update_where (\<lambda>x. wd_id x = i) (with_status WCanceled (clock s)) (withdrawals s) \<and>
      ledger t = ledger s @ [reversal_entry r ''Rejected by admin'' (next_id s) (clock s)] \<and> next_id s \<le> next_id t"
    by (auto simp: reject_withdrawal_tx_def tx_simps reversal_entry_def id post_entry_def)
  with r show ?thesis
    by (intro disjI2 exI [of _ r] exI [of _ "next_id s"] conjI movesI [where r = r]) (simp_all add: s')
qed

lemma claim_moves:
  assumes "claim_broadcast i s = (True, s')"
  shows "moves i (\<lambda>r. wd_status r = WQueued \<or> wd_status r = WApproved) (with_status WBroadcasting (clock s)) [] s s'"
proof (cases "find_withdrawal s i")
  case (Some r)
  with assms have "wd_status r = WQueued \<or> wd_status r = WApproved"
    and "s' = set_withdrawal i (with_status WBroadcasting (clock s)) s"
    by (simp_all add: claim_broadcast_def split: if_splits)
  with Some show ?thesis by (intro movesI [where r = r]) simp_all
qed (use assms in \<open>simp add: claim_broadcast_def\<close>)

lemma finalize_moves:
  assumes "finalize_broadcasted i s = (rz, s')"
  shows "s' = s \<or> moves i (\<lambda>r. wd_status r = WBroadcasted) (with_status WConfirmed (clock s)) [] s s'"
proof (cases "finalize_tx i s")
  case (Inl e)
  with assms show ?thesis by (simp add: finalize_broadcasted_def)
next
  case (Inr p)
  obtain b t where p: "p = (b, t)" by (cases p)
  show ?thesis
  proof (cases b)
    case False
    with assms Inr p show ?thesis by (simp add: finalize_broadcasted_def)
  next
    case True
    with assms Inr p have s': "s' = release_locks t" by (simp add: finalize_broadcasted_def)
    from Inr p True obtain r where r: "find_withdrawal s i = Some r" "wd_status r = WBroadcasted"
      by (auto simp: finalize_tx_def tx_simps split: option.splits if_splits)
    from Inr p True r have "withdrawals t = update_where (\<lambda>x. wd_id x = i) (with_status WConfirmed (clock s)) (withdrawals s) \<and>
        ledger t = ledger s @ [] \<and> next_id s \<le> next_id t"
      by (auto simp: finalize_tx_def tx_simps)
    with r show ?thesis by (intro disjI2 movesI [where r = r]) (simp_all add: s')
  qed
qed

text \<open>The two commits of a worker do not look at the status: they trust the claim.\<close>

lemma refund_moves:
  assumes "fail_safely i q m s = (rf, s')" and "find_withdrawal s i = Some r" and "ready r"
  shows "s' = s \<or> (\<exists>eid. moves i ready (with_status WFailed (clock s))
      [entry_of (reversal_of (wd_wallet q) (wd_amount q + wd_fee_amount q) i (''Reversal (safe): '' @ m)) eid (clock s)] s s')"
proof (cases rf)
  case (Inl e)
  with assms show ?thesis by (simp add: fail_safely_def commit_tx_failure)
next
  case (Inr u)
  with assms obtain t where run: "fail_safely_tx i q m s = Inr (u, t)" and s': "s' = release_locks t"
    by (auto simp: fail_safely_def commit_tx_success)
  from run have "withdrawals t = update_where (\<lambda>x. wd_id x = i) (with_status WFailed (clock s)) (withdrawals s) \<and>
      ledger t = ledger s @ [entry_of (reversal_of (wd_wallet q) (wd_amount q + wd_fee_amount q) i (''Reversal (safe): '' @ m))
        (next_id s) (clock s)] \<and> next_id s \<le> next_id t"
    by (auto simp: fail_safely_tx_def tx_simps post_entry_def)
  with assms(2,3) show ?thesis
    by (intro disjI2 exI [of _ "next_id s"] movesI [where r = r]) (simp_all add: s')
qed

lemma persist_moves:
  assumes "persist_broadcast i q c h s = (rp, s')" and "find_withdrawal s i = Some r" and "ready r"
  shows "s' = s \<or> moves i ready (\<lambda>x. (with_status WBroadcasted (clock s) x)\<lparr>wd_tx_hash := Some h\<rparr>) [] s s'"
proof (cases rp)
  case (Inl e)
  with assms show ?thesis by (simp add: persist_broadcast_def commit_tx_failure)
next
  case (Inr u)
  with assms obtain t where run: "persist_broadcast_tx i q c h s = Inr (u, t)" and s': "s' = release_locks t"
    by (auto simp: persist_broadcast_def commit_tx_success)
  from run have "withdrawals t = update_where (\<lambda>x. wd_id x = i)
      (\<lambda>x. (with_status WBroadcasted (clock s) x)\<lparr>wd_tx_hash := Some h\<rparr>) (withdrawals s) \<and>
      ledger t = ledger s @ [] \<and> next_id s \<le> next_id t"
    by (auto simp: persist_broadcast_tx_def tx_simps)
  with assms(2,3) show ?thesis by (intro disjI2 movesI [where r = r]) (simp_all add: s')
qed

lemma flow_ok_moves:
  assumes ok: "flow_ok (s, ws, sent)" and m: "moves i ready f es s s'"
    and id: "\<And>x. wd_id (f x) = wd_id x"
    and es: "\<And>e. e \<in> set es \<Longrightarrow> le_reference_id e = Some i"
    and ws: "\<And>j. j \<noteq> i \<Longrightarrow> workers_on j ws' = workers_on j ws"
    and sent: "\<And>j. j \<noteq> i \<Longrightarrow> count_list sent' j = count_list sent j"
    and new: "\<And>r. ready r \<Longrightarrow> wd_id r = i \<Longrightarrow> r \<in> set (withdrawals s) \<Longrightarrow> find_withdrawal s i = Some r \<Longrightarrow>
      payout_ok (withdrawal_net s i) (count_list sent i) (workers_on i ws) r \<Longrightarrow>
      payout_ok (withdrawal_net s i + (\<Sum>e\<leftarrow>filter (withdrawal_entry i) es. le_amount e))
        (count_list sent' i) (workers_on i ws') (f r)"
  shows "flow_ok (s', ws', sent')"
proof -
  from m obtain r where r: "find_withdrawal s i = Some r" "ready r"
    and upd: "withdrawals s' = update_where (\<lambda>x. wd_id x = i) f (withdrawals s)"
    and led: "ledger s' = ledger s @ es" and ni: "next_id s \<le> next_id s'"
    unfolding moves_def by (elim conjE exE) rule
  have i: "wd_id r = i" and mem: "r \<in> set (withdrawals s)" using find_withdrawal_id [OF r(1)] by simp_all
  have "payout_ok (withdrawal_net s i) (count_list sent i) (workers_on i ws) r"
    using ok mem i by (auto simp: flow_ok_def)
  from new [OF r(2) i mem r(1) this]
  have "payout_ok (withdrawal_net s' (wd_id r)) (count_list sent' (wd_id r)) (workers_on (wd_id r) ws') (f r)"
    by (simp add: i withdrawal_net_append [OF led])
  then show ?thesis
    using flow_ok_at [where f = f and s' = s' and ws' = ws' and sent' = sent', OF ok mem id _ led _ ni]
      upd es ws sent i by (auto simp: withdrawal_entry_def)
qed

lemma flow_ok_request:
  assumes ok: "flow_ok (s, ws, sent)"
    and run: "request_withdrawal P secrets iv valid env id id user coin to_address amount ip key s = (r, s')"
  shows "flow_ok (s', ws, sent)"
proof (cases "s' = s")
  case True
  with ok show ?thesis by simp
next
  case False
  then obtain row where new: "request_withdrawal P secrets iv valid env id id user coin to_address amount ip key s = (Inr (row, True), s')"
  proof (cases r)
    case (Inl e)
    with run False request_failed [of P secrets iv valid env id id user coin to_address amount ip key s e s']
    show thesis by simp
  next
    case (Inr p)
    then obtain row b where p: "r = Inr (row, b)" by (cases p) auto
    with run False request_old [of P secrets iv valid env id id user coin to_address amount ip key s row s']
    have "b" by (cases b) simp_all
    with run p show thesis by (intro that [of row]) simp
  qed
  let ?ra = "int (approval_threshold_atomic env coin) \<le> amount" and ?k = "map_option (scoped_key user) key"
  let ?fee = "int (withdrawal_fee (coin_config coin))"
  from request_new [OF new] obtain wid s2 where
    h: "hold_funds P secrets iv coin to_address amount ?ra ip ?k wid s = Inr (row, s2)" and s': "s' = release_locks s2"
    unfolding id_apply by (elim conjE exE) rule
  let ?r = "held_row P secrets iv coin to_address amount ?ra ip ?k wid (next_id s) (clock s)"
  let ?t = "s\<lparr>next_id := Suc (next_id s), withdrawals := withdrawals s @ [?r]\<rparr>"
  let ?es = "[entry_of (withdrawal_debit wid amount (next_id s)) (Suc (next_id s)) (clock s),
    entry_of (withdrawal_fee_debit wid ?fee (next_id s)) (Suc (Suc (next_id s))) (clock s)]"
  have s2: "s2 = post_all (hold_posts wid amount coin (next_id s)) ?t" using h by (simp add: hold_funds_Inr Let_def)
  have rows: "withdrawals s' = withdrawals s @ [?r]" by (simp add: s' s2)
  have ni: "next_id s < next_id s'" by (simp add: s' s2)
  have led: "ledger s' = ledger s @ ?es" by (simp add: s' s2 hold_posts_def post_entry_def)
  have r: "wd_id ?r = next_id s" "wd_amount ?r = amount" "wd_fee_amount ?r = ?fee"
    "wd_status ?r = WPending \<or> wd_status ?r = WQueued" by (simp_all add: held_row_def)
  have refs: "withdrawal_entry j e \<longleftrightarrow> j = next_id s" if "e \<in> set ?es" for e j
    using that by (auto simp: withdrawal_entry_def)
  have old: "wd_id x < next_id s" if "x \<in> set (withdrawals s)" for x using ok that by (auto simp: flow_ok_def)
  then have fresh: "next_id s \<notin> wd_id ` set (withdrawals s)" by (metis imageE less_irrefl)
  have net: "withdrawal_net s' j = withdrawal_net s j + (if j = next_id s then - amount - ?fee else 0)" for j
    by (simp add: withdrawal_net_append [OF led] refs)
  have sub: "worker_of ` set ws \<subseteq> wd_id ` set (withdrawals s)" "set sent \<subseteq> wd_id ` set (withdrawals s)"
    "\<And>e i. e \<in> set (ledger s) \<Longrightarrow> withdrawal_entry i e \<Longrightarrow> i \<in> wd_id ` set (withdrawals s)"
    using ok by (auto simp: flow_ok_def)
  have "next_id s \<notin> worker_of ` set ws" "next_id s \<notin> set sent" using sub(1,2) fresh by blast+
  moreover have "(\<Sum>e\<leftarrow>filter (withdrawal_entry (next_id s)) (ledger s). le_amount e) = 0"
    using sub(3) fresh by (intro net_unrelated) blast
  ultimately have none: "withdrawal_net s (next_id s) = 0" "count_list sent (next_id s) = 0" "workers_on (next_id s) ws = []"
    by (simp_all add: withdrawal_net_def workers_on_def filter_empty_conv count_list_0_iff) (metis imageI)
  have "payout_ok (withdrawal_net s' (next_id s)) (count_list sent (next_id s)) (workers_on (next_id s) ws) ?r"
    using r by (auto simp: payout_ok_def net none)
  then have new_row: "wd_id ?r < next_id s' \<and>
      payout_ok (withdrawal_net s' (wd_id ?r)) (count_list sent (wd_id ?r)) (workers_on (wd_id ?r) ws) ?r"
    using ni by (simp add: r)
  have "wd_id x < next_id s' \<and>
      payout_ok (withdrawal_net s' (wd_id x)) (count_list sent (wd_id x)) (workers_on (wd_id x) ws) x"
    if x: "x \<in> set (withdrawals s)" for x
    using ok x old [OF x] ni by (auto simp: flow_ok_def net)
  with new_row have rows_ok: "\<forall>x\<in>set (withdrawals s'). wd_id x < next_id s' \<and>
      payout_ok (withdrawal_net s' (wd_id x)) (count_list sent (wd_id x)) (workers_on (wd_id x) ws) x"
    by (simp add: rows)
  have "i \<in> wd_id ` set (withdrawals s')" if "e \<in> set (ledger s')" "withdrawal_entry i e" for e i
    using that ok r(1) refs [of e i] by (auto simp: led rows flow_ok_def)
  then show ?thesis using ok rows_ok fresh r(1) by (auto simp: flow_ok_def rows)
qed

lemma flow_ok_other: "flow_ok (s, ws, sent) \<Longrightarrow> leaves_withdrawals s s' \<Longrightarrow> flow_ok (s', ws, sent)"
proof -
  assume ok: "flow_ok (s, ws, sent)" and l: "leaves_withdrawals s s'"
  then obtain es where es: "ledger s' = ledger s @ es" "\<forall>e\<in>set es. le_reference_type e \<noteq> Some ''Withdrawal''"
    and w: "withdrawals s' = withdrawals s" and ni: "next_id s \<le> next_id s'"
    unfolding leaves_withdrawals_def by (elim conjE exE) rule
  have "\<not> withdrawal_entry i e" if "e \<in> set es" for e i using that es(2) by (auto simp: withdrawal_entry_def)
  then have net: "withdrawal_net s' i = withdrawal_net s i" and refs: "e \<in> set es \<Longrightarrow> \<not> withdrawal_entry i e" for i e
    using net_unrelated [of es i] by (simp_all add: withdrawal_net_append [OF es(1)])
  show "flow_ok (s', ws, sent)" using ok ni refs by (auto simp: flow_ok_def w net es(1) intro: order_less_le_trans)
qed

lemma workers_on_Cons [simp]:
  "workers_on j (w # ws) = (if worker_of w = j then w # workers_on j ws else workers_on j ws)"
  by (simp add: workers_on_def)

lemma workers_on_remove1 [simp]: "workers_on j (remove1 w ws) = remove1 w (workers_on j ws)"
  by (simp add: workers_on_def filter_remove1)

lemma remove1_other [simp]: "worker_of w \<noteq> j \<Longrightarrow> remove1 w (workers_on j ws) = workers_on j ws"
  by (rule remove1_idem) (auto simp: workers_on_def)

lemma worker_owns:
  assumes ok: "flow_ok (s, ws, sent)" and w: "w \<in> set ws"
  shows "\<exists>r. find_withdrawal s (worker_of w) = Some r \<and> wd_status r = WBroadcasting \<and>
    workers_on (worker_of w) ws = [w] \<and> worker_ok (count_list sent (worker_of w)) r w"
proof -
  have d: "distinct (map wd_id (withdrawals s))" using ok by (simp add: flow_ok_def)
  have "worker_of w \<in> wd_id ` set (withdrawals s)" using ok w by (auto simp: flow_ok_def)
  then obtain r where r: "r \<in> set (withdrawals s)" "wd_id r = worker_of w" by auto
  then have find: "find_withdrawal s (worker_of w) = Some r"
    using find_key_distinct [OF d r(1)] by (simp add: find_withdrawal_def)
  have mem: "w \<in> set (workers_on (worker_of w) ws)" using w by (simp add: workers_on_def)
  have "payout_ok (withdrawal_net s (wd_id r)) (count_list sent (wd_id r)) (workers_on (wd_id r) ws) r"
    using ok r(1) by (simp add: flow_ok_def)
  then have "wd_status r = WBroadcasting \<and> workers_on (worker_of w) ws = [w] \<and> worker_ok (count_list sent (worker_of w)) r w"
    using mem r(2) by (auto simp: payout_ok_def split: if_splits)
  with find show ?thesis by blast
qed

lemma moves_same: "find_withdrawal s i = Some r \<Longrightarrow> ready r \<Longrightarrow> moves i ready (\<lambda>x. x) [] s s"
  by (rule movesI) (simp_all add: update_where_def)

lemma with_status_sel [simp]:
  "wd_id (with_status st t r) = wd_id r" "wd_status (with_status st t r) = st"
  "wd_amount (with_status st t r) = wd_amount r" "wd_fee_amount (with_status st t r) = wd_fee_amount r"
  "wd_tx_hash (with_status st t r) = wd_tx_hash r"
  by (simp_all add: with_status_def)

lemma reversal_of_sel [simp]:
  "in_amount (reversal_of w a i m) = a" "in_reference_id (reversal_of w a i m) = Some i"
  "in_reference_type (reversal_of w a i m) = Some ''Withdrawal''"
  by (simp_all add: reversal_of_def simple_input_def)

lemma flow_ok_reject:
  assumes ok: "flow_ok (s, ws, sent)" and run: "reject_withdrawal i admin ip s = (ra, s')"
  shows "flow_ok (s', ws, sent)"
  using reject_moves [OF run]
proof (elim disjE exE conjE)
  fix r eid assume r: "find_withdrawal s i = Some r"
    and m: "moves i (\<lambda>r. wd_status r = WPending) (with_status WCanceled (clock s))
      [reversal_entry r ''Rejected by admin'' eid (clock s)] s s'"
  have "wd_id r = i" using find_withdrawal_id [OF r] by simp
  with r show ?thesis
    by (intro flow_ok_moves [OF ok m]) (auto simp: reversal_entry_def withdrawal_entry_def payout_ok_def)
qed (use ok in simp)

lemma flow_ok_claim:
  assumes ok: "flow_ok (s, ws, sent)" and run: "claim_broadcast i s = (True, s')"
  shows "flow_ok (s', Claimed i # ws, sent)"
  by (rule flow_ok_moves [OF ok claim_moves [OF run]]) (auto simp: payout_ok_def)

lemma flow_ok_send:
  assumes ok: "flow_ok (s, ws, sent)" and w: "Claimed i \<in> set ws" and r: "find_withdrawal s i = Some r"
    and a: "chain_contract a out"
  shows "flow_ok (s, Answered i r c a # remove1 (Claimed i) ws, if out then i # sent else sent)"
proof -
  from worker_owns [OF ok w] r have own: "wd_status r = WBroadcasting" "workers_on i ws = [Claimed i]"
    "count_list sent i = 0" by simp_all
  show ?thesis
  proof (rule flow_ok_moves [OF ok moves_same [where ready = "\<lambda>x. x = r", OF r]])
    fix q assume q: "q = r" and p: "payout_ok (withdrawal_net s i) (count_list sent i) (workers_on i ws) q"
    have "chain_contract a (count_list (if out then i # sent else sent) i = 1)"
      using a own(3) by (cases out) simp_all
    then show "payout_ok (withdrawal_net s i + (\<Sum>e\<leftarrow>filter (withdrawal_entry i) []. le_amount e))
        (count_list (if out then i # sent else sent) i)
        (workers_on i (Answered i r c a # remove1 (Claimed i) ws)) q"
      using p own q by (simp add: payout_ok_def)
  qed (simp_all add: own)
qed

lemma flow_ok_crash:
  assumes ok: "flow_ok (s, ws, sent)" and w: "w \<in> set ws"
  shows "flow_ok (s, remove1 w ws, sent)"
proof -
  from worker_owns [OF ok w] obtain r where r: "find_withdrawal s (worker_of w) = Some r"
    and own: "wd_status r = WBroadcasting" "workers_on (worker_of w) ws = [w]" by blast
  show ?thesis
    by (rule flow_ok_moves [OF ok moves_same [where ready = "\<lambda>x. x = r", OF r refl]])
      (use own in \<open>auto simp: payout_ok_def\<close>)
qed

lemma flow_ok_refund:
  assumes ok: "flow_ok (s, ws, sent)" and w: "Answered i q c (Inl e) \<in> set ws" and safe: "be_safe_to_reverse e"
    and run: "fail_safely i q m s = (rf, s')"
  shows "flow_ok (s', remove1 (Answered i q c (Inl e)) ws, sent)"
proof -
  from worker_owns [OF ok w] obtain r where r: "find_withdrawal s i = Some r" and own: "wd_status r = WBroadcasting"
    "workers_on i ws = [Answered i q c (Inl e)]" "wd_amount q + wd_fee_amount q = wd_amount r + wd_fee_amount r"
    "count_list sent i \<noteq> 1" using safe by auto
  show ?thesis
  proof (rule disjE [OF refund_moves [where ready = "\<lambda>x. x = r", OF run r refl]])
    assume "s' = s"
    with flow_ok_crash [OF ok w] show ?thesis by simp
  next
    assume "\<exists>eid. moves i (\<lambda>x. x = r) (with_status WFailed (clock s))
      [entry_of (reversal_of (wd_wallet q) (wd_amount q + wd_fee_amount q) i (''Reversal (safe): '' @ m)) eid (clock s)] s s'"
    then obtain eid where mv: "moves i (\<lambda>x. x = r) (with_status WFailed (clock s))
      [entry_of (reversal_of (wd_wallet q) (wd_amount q + wd_fee_amount q) i (''Reversal (safe): '' @ m)) eid (clock s)] s s'" ..
    show ?thesis
      by (rule flow_ok_moves [OF ok mv]) (use own in \<open>auto simp: withdrawal_entry_def payout_ok_def\<close>)
  qed
qed

lemma flow_ok_persist:
  assumes ok: "flow_ok (s, ws, sent)" and w: "Answered i q c (Inr b) \<in> set ws"
    and run: "persist_broadcast i q c h s = (rp, s')"
  shows "flow_ok (s', remove1 (Answered i q c (Inr b)) ws, sent)"
proof -
  from worker_owns [OF ok w] obtain r where r: "find_withdrawal s i = Some r" and own: "wd_status r = WBroadcasting"
    "workers_on i ws = [Answered i q c (Inr b)]" "count_list sent i = 1" by auto
  show ?thesis
  proof (rule disjE [OF persist_moves [where ready = "\<lambda>x. x = r", OF run r refl]])
    assume "s' = s"
    with flow_ok_crash [OF ok w] show ?thesis by simp
  next
    assume mv: "moves i (\<lambda>x. x = r) (\<lambda>x. (with_status WBroadcasted (clock s) x)\<lparr>wd_tx_hash := Some h\<rparr>) [] s s'"
    show ?thesis by (rule flow_ok_moves [OF ok mv]) (use own in \<open>auto simp: payout_ok_def\<close>)
  qed
qed

lemma flow_step_ok:
  assumes "flow_step P secrets c c'" and "flow_ok c"
  shows "flow_ok c'"
  using assms
proof (cases rule: flow_step.cases)
  case (approve i admin ip s ra s' ws sent)
  then show ?thesis using assms(2)
    by (auto dest!: approve_moves intro!: flow_ok_moves [of s ws sent] simp: payout_ok_def)
next
  case (finalize i s rz s' ws sent)
  then show ?thesis using assms(2)
    by (auto dest!: finalize_moves intro!: flow_ok_moves [of s ws sent] simp: payout_ok_def)
next
  case (send i ws s r w a out sent)
  then show ?thesis using assms(2) flow_ok_send [of s ws sent i r a out "w_coin w"] by simp
qed (use assms(2) in \<open>auto intro: flow_ok_request flow_ok_reject flow_ok_claim flow_ok_refund
  flow_ok_persist flow_ok_crash flow_ok_other simp del: workers_on_remove1\<close>)

section \<open>Properties\<close>

text \<open>
  C11. A withdrawal is paid at most once and never both paid and refunded. Along every run of any
  number of requests, administrators' decisions and workers that interleave and crash
  anywhere, with a chain client that keeps its contract: the coins of a withdrawal leave at
  most once; one that failed or was canceled never left and its ledger entries add up to
  zero; every other keeps exactly its amount and fee taken; one that is broadcast or
  confirmed left exactly once and carries its transaction.
\<close>

theorem withdrawal_paid_at_most_once:
  assumes "(flow_step P secrets)\<^sup>*\<^sup>* (s, [], []) (s', ws, sent)"
    and "withdrawals s = []" and "\<forall>e\<in>set (ledger s). le_reference_type e \<noteq> Some ''Withdrawal''"
  shows "distinct sent \<and> set sent \<subseteq> wd_id ` set (withdrawals s') \<and>
    (\<forall>r\<in>set (withdrawals s').
       (refunded r \<longrightarrow> wd_id r \<notin> set sent \<and> withdrawal_net s' (wd_id r) = 0) \<and>
       (\<not> refunded r \<longrightarrow> withdrawal_net s' (wd_id r) = - (wd_amount r + wd_fee_amount r)) \<and>
       (paid_out r \<longrightarrow> wd_id r \<in> set sent \<and> wd_tx_hash r \<noteq> None) \<and>
       (wd_id r \<in> set sent \<longrightarrow> paid_out r \<or> wd_status r = WBroadcasting))"
proof -
  have "flow_ok (s, [], [])" using assms(2,3) by (auto simp: flow_ok_def withdrawal_entry_def)
  with assms(1) have ok: "flow_ok (s', ws, sent)"
    by (induction rule: rtranclp_induct) (auto intro: flow_step_ok)
  have rows: "payout_ok (withdrawal_net s' (wd_id r)) (count_list sent (wd_id r)) (workers_on (wd_id r) ws) r"
    if "r \<in> set (withdrawals s')" for r using ok that by (simp add: flow_ok_def)
  have sub: "set sent \<subseteq> wd_id ` set (withdrawals s')" using ok by (simp add: flow_ok_def)
  have "count_list sent i \<le> 1" for i
  proof (cases "i \<in> set sent")
    case True
    with sub obtain r where "r \<in> set (withdrawals s')" "wd_id r = i" by auto
    with rows [of r] show ?thesis by (auto simp: payout_ok_def split: if_splits)
  qed (simp add: count_list_0_iff [THEN iffD2])
  then have "distinct sent"
  proof (induction sent)
    case (Cons i xs)
    have "count_list xs j \<le> 1" for j using Cons.prems [of j] by (simp split: if_splits)
    moreover have "i \<notin> set xs" using Cons.prems [of i] by (simp add: count_list_0_iff)
    ultimately show ?case using Cons.IH by simp
  qed simp
  moreover have "(refunded r \<longrightarrow> wd_id r \<notin> set sent \<and> withdrawal_net s' (wd_id r) = 0) \<and>
       (\<not> refunded r \<longrightarrow> withdrawal_net s' (wd_id r) = - (wd_amount r + wd_fee_amount r)) \<and>
       (paid_out r \<longrightarrow> wd_id r \<in> set sent \<and> wd_tx_hash r \<noteq> None) \<and>
       (wd_id r \<in> set sent \<longrightarrow> paid_out r \<or> wd_status r = WBroadcasting)"
    if "r \<in> set (withdrawals s')" for r
  proof -
    have mem: "wd_id r \<in> set sent \<longleftrightarrow> count_list sent (wd_id r) \<noteq> 0" by (simp add: count_list_0_iff)
    show ?thesis using rows [OF that] unfolding mem by (auto simp: payout_ok_def split: if_splits)
  qed
  ultimately show ?thesis using sub by blast
qed

lemma leaves_fee: "leaves_withdrawals s (snd (record_network_fee i s))"
  by (simp add: leaves_withdrawals_def)

lemma leaves_log: "leaves_withdrawals s (log_failure owner i c m s)"
  by (cases "record_log (Some owner) ''WITHDRAWAL_FAILED'' ''Withdrawal'' (Some i) None
         (Some (json_object [(''coin'', json_text (coin_str c)), (''reason'', json_text m),
            (''safeToReverse'', ''true'')])) s")
    (auto simp: log_failure_def commit_tx_def leaves_withdrawals_def record_log_Inr)

lemma settle_refines:
  assumes run: "settle_broadcast i r owner c a s = (res, s')" and w: "Answered i r c a \<in> set ws"
  shows "(flow_step P secrets)\<^sup>*\<^sup>* (s, ws, sent) (s', remove1 (Answered i r c a) ws, sent)"
proof (cases a)
  case (Inl e)
  show ?thesis
  proof (cases "be_safe_to_reverse e")
    case True
    obtain x t where f: "fail_safely i r (be_message e) s = (x, t)" by (cases "fail_safely i r (be_message e) s")
    from flow_step.refund [OF w [unfolded Inl] True f]
    have 1: "flow_step P secrets (s, ws, sent) (t, remove1 (Answered i r c a) ws, sent)" by (simp add: Inl)
    have "s' = t \<or> s' = log_failure owner i c (be_message e) t"
      using run Inl True f by (cases x) (auto simp: settle_broadcast_def)
    then have "(flow_step P secrets)\<^sup>*\<^sup>* (t, remove1 (Answered i r c a) ws, sent) (s', remove1 (Answered i r c a) ws, sent)"
      using flow_step.other [OF leaves_log] by blast
    with 1 show ?thesis by (rule converse_rtranclp_into_rtranclp)
  next
    case False
    with run Inl have "s' = s" by (simp add: settle_broadcast_def)
    with flow_step.crash [OF w] show ?thesis by blast
  qed
next
  case (Inr b)
  obtain x t where f: "persist_broadcast i r c (br_tx_hash b) s = (x, t)" by (cases "persist_broadcast i r c (br_tx_hash b) s")
  from flow_step.persist [OF w [unfolded Inr] f]
  have 1: "flow_step P secrets (s, ws, sent) (t, remove1 (Answered i r c a) ws, sent)" by (simp add: Inr)
  let ?u = "snd (record_network_fee (withdrawal_fee_input i c b) t)"
  have 2: "flow_step P secrets (t, vs, sent) (?u, vs, sent)" for vs by (rule flow_step.other [OF leaves_fee])
  have "s' = t \<or> finalize_broadcasted i ?u = (res, s')"
    using run Inr f by (cases x) (auto simp: settle_broadcast_def)
  then have "(flow_step P secrets)\<^sup>*\<^sup>* (t, remove1 (Answered i r c a) ws, sent) (s', remove1 (Answered i r c a) ws, sent)"
    using 2 flow_step.finalize by (metis (no_types, lifting) r_into_rtranclp rtranclp.rtrancl_refl converse_rtranclp_into_rtranclp)
  with 1 show ?thesis by (rule converse_rtranclp_into_rtranclp)
qed

text \<open>
  C12. The worker implements the protocol: one call of \<open>process_broadcast\<close>, whatever the chain client
  answers and whichever of its transactions fail, is a run of protocol steps that sends at
  most the withdrawal it was called for, and leaves no worker behind.
\<close>

theorem process_broadcast_refines:
  assumes "process_broadcast P secrets broadcast i s = (res, s')"
  shows "\<exists>sent'. (flow_step P secrets)\<^sup>*\<^sup>* (s, ws, sent) (s', ws, sent') \<and> (sent' = sent \<or> sent' = i # sent)"
proof -
  obtain b t where c: "claim_broadcast i s = (b, t)" by (cases "claim_broadcast i s")
  show ?thesis
  proof (cases b)
    case False
    with c have "t = s" by (auto simp: claim_broadcast_def split: option.splits if_splits)
    with assms c False have "s' = s \<or> finalize_broadcasted i s = (res, s')"
      by (auto simp: process_broadcast_def split: if_splits)
    then have "(flow_step P secrets)\<^sup>*\<^sup>* (s, ws, sent) (s', ws, sent)"
      using flow_step.finalize by blast
    then show ?thesis by blast
  next
    case True
    with c have 1: "flow_step P secrets (s, ws, sent) (t, Claimed i # ws, sent)" by (auto intro: flow_step.claim)
    have stop: "flow_step P secrets (t, Claimed i # ws, sent) (t, ws, sent)"
      using flow_step.crash [of "Claimed i" "Claimed i # ws" P secrets t sent] by simp
    show ?thesis
    proof (cases "\<exists>r w. find_withdrawal t i = Some r \<and> find_wallet t (wd_wallet r) = Some w")
      case False
      with assms c True have "s' = t"
        by (auto simp: process_broadcast_def split: option.splits)
      with 1 stop have "(flow_step P secrets)\<^sup>*\<^sup>* (s, ws, sent) (s', ws, sent)" by auto
      then show ?thesis by blast
    next
      case found: True
      then obtain r w where r: "find_withdrawal t i = Some r" "find_wallet t (wd_wallet r) = Some w" by blast
      let ?a = "broadcast (w_coin w) (open_opt P secrets KIND_WD_TO (show_uuid i) (wd_to_address r)) (dec_to_u128_or 0 (wd_amount r))"
      let ?out = "\<exists>b. ?a = Inr b"
      let ?sent = "if ?out then i # sent else sent" and ?w = "Answered i r (w_coin w) ?a"
      have contract: "chain_contract ?a ?out" by (cases ?a) auto
      from flow_step.send [OF _ r contract, of "Claimed i # ws" P secrets sent]
      have 2: "flow_step P secrets (t, Claimed i # ws, sent) (t, ?w # ws, ?sent)" by simp
      have "settle_broadcast i r (w_user w) (w_coin w) ?a t = (res, s')"
        using assms c True r by (simp add: process_broadcast_def)
      from settle_refines [OF this, of "?w # ws" P secrets ?sent]
      have 3: "(flow_step P secrets)\<^sup>*\<^sup>* (t, ?w # ws, ?sent) (s', ws, ?sent)" by simp
      from 1 2 3 have "(flow_step P secrets)\<^sup>*\<^sup>* (s, ws, sent) (s', ws, ?sent)"
        by (meson converse_rtranclp_into_rtranclp)
      moreover have "?sent = sent \<or> ?sent = i # sent" by simp
      ultimately show ?thesis by blast
    qed
  qed
qed


theorem process_broadcast_refines_witness:
  "\<exists>sent'. (flow_step demo_primitives None)\<^sup>*\<^sup>* (withdrawal_demo, [], [])
     (snd (process_broadcast demo_primitives None (\<lambda>_ _ _. Inr \<lparr>br_tx_hash = ''h'', br_fee_amount = 9\<rparr>) 11 withdrawal_demo), [], sent')"
  using process_broadcast_refines [of demo_primitives None _ 11 withdrawal_demo _ _ "[]" "[]"] by (metis prod.collapse)

theorem withdrawal_paid_at_most_once_witness:
  "\<exists>row s1 s2 sent. demo_request ''bc1q'' withdrawal_demo = (Inr (row, True), s1) \<and>
     s2 = snd (approve_withdrawal (wr_id row) 7 None s1) \<and>
     set sent \<subseteq> wd_id ` set (withdrawals s2) \<and> distinct sent"
proof -
  obtain row s1 where run: "demo_request ''bc1q'' withdrawal_demo = (Inr (row, True), s1)"
    using withdrawal_demo_run by (metis prod.collapse)
  let ?s2 = "snd (approve_withdrawal (wr_id row) 7 None s1)"
  from flow_step.request [OF run] have 1: "flow_step demo_primitives None (withdrawal_demo, [], []) (s1, [], [])" .
  have 2: "flow_step demo_primitives None (s1, [], []) (?s2, [], [])"
    by (rule flow_step.approve [where ra = "fst (approve_withdrawal (wr_id row) 7 None s1)"]) simp
  from 1 2 have steps: "(flow_step demo_primitives None)\<^sup>*\<^sup>* (withdrawal_demo, [], []) (?s2, [], [])"
    by (meson converse_rtranclp_into_rtranclp rtranclp.rtrancl_refl)
  have "withdrawals withdrawal_demo = []" "\<forall>e\<in>set (ledger withdrawal_demo). le_reference_type e \<noteq> Some ''Withdrawal''"
    by (simp_all add: withdrawal_demo_defs)
  from withdrawal_paid_at_most_once [OF steps this] run show ?thesis by blast
qed

end
