(* ===== verification/Queue.thy ===== *)
theory Queue
  imports Database
begin

text \<open>
  \<open>crates/queue/src/lib.rs\<close>: the internal job queue, and the loop that the worker's runners
  share (claim, work, complete or fail, until nothing is due). \<open>skip\<close> is the set of rows other
  sessions hold a lock on, which \<open>FOR UPDATE SKIP LOCKED\<close> passes over.
\<close>

section \<open>The operations\<close>

record Job =
  job_id :: uuid
  job_kind :: string
  job_payload :: string
  job_attempts :: int

definition new_job :: "uuid \<Rightarrow> string \<Rightarrow> string \<Rightarrow> int \<Rightarrow> job_row" where
  "new_job jid kind payload ts =
     \<lparr>jb_id = jid, jb_type = kind, jb_payload = payload, jb_status = JPending, jb_attempts = 0,
      jb_max_attempts = 5, jb_run_after = ts, jb_locked_by = None, jb_locked_at = None,
      jb_last_error = None\<rparr>"

definition enqueue :: "string \<Rightarrow> string \<Rightarrow> db \<Rightarrow> uuid \<times> db" where
  "enqueue kind payload s =
     (next_id s, s\<lparr>next_id := Suc (next_id s), jobs := jobs s @ [new_job (next_id s) kind payload (clock s)]\<rparr>)"

definition due :: "uuid set \<Rightarrow> string \<Rightarrow> int \<Rightarrow> job_row \<Rightarrow> bool" where
  "due skip kind t j \<longleftrightarrow> jb_type j = kind \<and> jb_status j = JPending \<and> jb_run_after j \<le> t \<and> jb_id j \<notin> skip"

definition claimed_job :: "string \<Rightarrow> int \<Rightarrow> job_row \<Rightarrow> job_row" where
  "claimed_job who t j = j\<lparr>jb_status := JRunning, jb_attempts := jb_attempts j + 1,
     jb_locked_by := Some who, jb_locked_at := Some t\<rparr>"

definition claim_next :: "uuid set \<Rightarrow> string \<Rightarrow> string \<Rightarrow> db \<Rightarrow> Job option \<times> db" where
  "claim_next skip kind who s =
     (case sort_key jb_run_after (filter (due skip kind (clock s)) (jobs s)) of
        [] \<Rightarrow> (None, s)
      | j # _ \<Rightarrow>
          (Some \<lparr>job_id = jb_id j, job_kind = jb_type j, job_payload = jb_payload j,
             job_attempts = jb_attempts j + 1\<rparr>,
           s\<lparr>jobs := update_where (\<lambda>x. jb_id x = jb_id j) (claimed_job who (clock s)) (jobs s)\<rparr>))"

definition complete_job :: "uuid \<Rightarrow> db \<Rightarrow> db" where
  "complete_job jid s = s\<lparr>jobs := update_where (\<lambda>x. jb_id x = jid) (\<lambda>x. x\<lparr>jb_status := JDone\<rparr>) (jobs s)\<rparr>"

text \<open>The new status and the backoff read the row as it was; the interval is in microseconds.\<close>

definition failed_job :: "string \<Rightarrow> int \<Rightarrow> job_row \<Rightarrow> job_row" where
  "failed_job err t j = j
     \<lparr>jb_status := (if jb_max_attempts j \<le> jb_attempts j then JFailed else JPending),
      jb_run_after := t + 30 * jb_attempts j * 1000000, jb_last_error := Some err,
      jb_locked_by := None, jb_locked_at := None\<rparr>"

definition fail_job :: "uuid \<Rightarrow> string \<Rightarrow> db \<Rightarrow> db" where
  "fail_job jid err s = s\<lparr>jobs := update_where (\<lambda>x. jb_id x = jid) (failed_job err (clock s)) (jobs s)\<rparr>"

section \<open>The drain loop\<close>

text \<open>
  \<open>work\<close> is what a runner does with a claimed job: the error to record, if any. The clock moves
  on by \<open>elapse\<close> between two jobs. The loop of the code has no bound, so it is a partial
  function.
\<close>

definition settle_job :: "Job \<Rightarrow> string option \<times> db \<Rightarrow> db" where
  "settle_job j res = (case res of (None, s) \<Rightarrow> complete_job (job_id j) s | (Some err, s) \<Rightarrow> fail_job (job_id j) err s)"

definition run_job :: "(Job \<Rightarrow> db \<Rightarrow> string option \<times> db) \<Rightarrow> (Job \<Rightarrow> nat) \<Rightarrow> Job \<Rightarrow> db \<Rightarrow> db" where
  "run_job work elapse j s = (let s' = settle_job j (work j s) in s'\<lparr>clock := clock s' + int (elapse j)\<rparr>)"

partial_function (option) drain ::
    "(Job \<Rightarrow> db \<Rightarrow> string option \<times> db) \<Rightarrow> (Job \<Rightarrow> nat) \<Rightarrow> uuid set \<Rightarrow> string \<Rightarrow> string \<Rightarrow> db \<Rightarrow> db option" where
  "drain work elapse skip kind who s =
     (case claim_next skip kind who s of
        (None, s') \<Rightarrow> Some s'
      | (Some j, s') \<Rightarrow> drain work elapse skip kind who (run_job work elapse j s'))"

section \<open>Job rows\<close>

text \<open>A job never runs more often than allowed, and a waiting one has an attempt left.\<close>

definition job_ok :: "job_row \<Rightarrow> bool" where
  "job_ok j \<longleftrightarrow> 0 \<le> jb_attempts j \<and> jb_attempts j \<le> jb_max_attempts j \<and>
     (jb_status j = JPending \<longrightarrow> jb_attempts j < jb_max_attempts j)"

definition queue_ok :: "db \<Rightarrow> bool" where
  "queue_ok s \<longleftrightarrow> distinct (map jb_id (jobs s)) \<and> (\<forall>j\<in>set (jobs s). jb_id j < next_id s \<and> job_ok j)"

lemma claimed_job_sel [simp]:
  "jb_id (claimed_job w t j) = jb_id j" "jb_type (claimed_job w t j) = jb_type j"
  "jb_status (claimed_job w t j) = JRunning" "jb_attempts (claimed_job w t j) = jb_attempts j + 1"
  "jb_max_attempts (claimed_job w t j) = jb_max_attempts j"
  by (simp_all add: claimed_job_def)

lemma failed_job_sel [simp]:
  "jb_id (failed_job e t j) = jb_id j" "jb_type (failed_job e t j) = jb_type j"
  "jb_status (failed_job e t j) = (if jb_max_attempts j \<le> jb_attempts j then JFailed else JPending)"
  "jb_attempts (failed_job e t j) = jb_attempts j" "jb_max_attempts (failed_job e t j) = jb_max_attempts j"
  by (simp_all add: failed_job_def)

lemma claim_next_None:
  "claim_next skip kind who s = (None, s') \<longleftrightarrow> s' = s \<and> (\<forall>j\<in>set (jobs s). \<not> due skip kind (clock s) j)"
proof (cases "sort_key jb_run_after (filter (due skip kind (clock s)) (jobs s))")
  case Nil
  then have "filter (due skip kind (clock s)) (jobs s) = []" by (metis set_empty set_sort)
  with Nil show ?thesis by (auto simp: claim_next_def filter_empty_conv)
next
  case (Cons j js)
  then have "j \<in> set (filter (due skip kind (clock s)) (jobs s))" by (metis list.set_intros(1) set_sort)
  with Cons show ?thesis by (auto simp: claim_next_def)
qed

lemma claim_next_Some:
  assumes "claim_next skip kind who s = (Some j, s')"
  shows "\<exists>r\<in>set (jobs s). due skip kind (clock s) r \<and> job_id j = jb_id r \<and>
    job_payload j = jb_payload r \<and> job_attempts j = jb_attempts r + 1 \<and>
    (\<forall>x\<in>set (jobs s). due skip kind (clock s) x \<longrightarrow> jb_run_after r \<le> jb_run_after x) \<and>
    s' = s\<lparr>jobs := update_where (\<lambda>x. jb_id x = jb_id r) (claimed_job who (clock s)) (jobs s)\<rparr>"
proof (cases "sort_key jb_run_after (filter (due skip kind (clock s)) (jobs s))")
  case Nil
  with assms show ?thesis by (simp add: claim_next_def)
next
  case (Cons r rs)
  then have mem: "r \<in> set (filter (due skip kind (clock s)) (jobs s))" by (metis list.set_intros(1) set_sort)
  have "sorted (map jb_run_after (r # rs))" using Cons by (metis sorted_sort_key)
  then have "jb_run_after r \<le> jb_run_after x" if "x \<in> set (jobs s)" "due skip kind (clock s) x" for x
  proof -
    have "x \<in> set (filter (due skip kind (clock s)) (jobs s))" using that by simp
    then have "x \<in> set (r # rs)" using Cons by (metis set_sort)
    with \<open>sorted (map jb_run_after (r # rs))\<close> show ?thesis by auto
  qed
  with assms Cons mem show ?thesis by (intro bexI [of _ r]) (auto simp: claim_next_def)
qed

section \<open>What a runner may rely on\<close>

text \<open>One round of the loop changes the claimed row, whatever the work did.\<close>

definition job_round :: "string \<Rightarrow> int \<Rightarrow> string option \<Rightarrow> int \<Rightarrow> job_row \<Rightarrow> job_row" where
  "job_round who t e t' j = (case e of None \<Rightarrow> (claimed_job who t j)\<lparr>jb_status := JDone\<rparr>
     | Some err \<Rightarrow> failed_job err t' (claimed_job who t j))"

lemma job_round_sel [simp]:
  "jb_id (job_round w t e t' j) = jb_id j" "jb_type (job_round w t e t' j) = jb_type j"
  "jb_max_attempts (job_round w t e t' j) = jb_max_attempts j"
  "jb_attempts (job_round w t e t' j) = jb_attempts j + 1"
  "jb_status (job_round w t e t' j) =
     (if e = None then JDone else if jb_max_attempts j \<le> jb_attempts j + 1 then JFailed else JPending)"
  by (simp_all add: job_round_def split: option.splits)

definition weight :: "string \<Rightarrow> job_row \<Rightarrow> nat" where
  "weight kind j = (if jb_type j = kind \<and> jb_status j = JPending then Suc (nat (jb_max_attempts j - jb_attempts j)) else 0)"

lemma sum_update_le:
  fixes w :: "'a \<Rightarrow> nat"
  shows "(\<And>x. x \<in> set xs \<Longrightarrow> p x \<Longrightarrow> w (g x) \<le> w x) \<Longrightarrow> (\<Sum>x\<leftarrow>update_where p g xs. w x) \<le> (\<Sum>x\<leftarrow>xs. w x)"
  unfolding update_where_def map_map by (rule sum_list_mono) simp

lemma sum_update_less:
  fixes w :: "'a \<Rightarrow> nat"
  assumes "\<And>x. x \<in> set xs \<Longrightarrow> p x \<Longrightarrow> w (g x) < w x" and "\<exists>x\<in>set xs. p x"
  shows "(\<Sum>x\<leftarrow>update_where p g xs. w x) < (\<Sum>x\<leftarrow>xs. w x)"
  using assms
proof (induction xs)
  case (Cons x xs)
  have le: "(\<Sum>x\<leftarrow>update_where p g xs. w x) \<le> (\<Sum>x\<leftarrow>xs. w x)"
    using Cons.prems(1) by (intro sum_update_le less_imp_le) simp
  show ?case
  proof (cases "\<exists>y\<in>set xs. p y")
    case True
    with Cons have "(\<Sum>x\<leftarrow>update_where p g xs. w x) < (\<Sum>x\<leftarrow>xs. w x)" by simp
    with Cons.prems(1) [of x] show ?thesis by (cases "p x") simp_all
  next
    case False
    with Cons.prems(2) have "p x" by auto
    with Cons.prems(1) [of x] le show ?thesis by simp
  qed
qed simp

lemma update_where_twice:
  "(\<And>x. p (f x) = p x) \<Longrightarrow> update_where p g (update_where p f xs) = update_where p (\<lambda>x. g (f x)) xs"
  by (simp add: update_where_def)

text \<open>Rows that were attempted are ahead; the others are as they were.\<close>

definition progressed :: "db \<Rightarrow> db \<Rightarrow> bool" where
  "progressed s s' \<longleftrightarrow> clock s \<le> clock s' \<and> next_id s \<le> next_id s' \<and>
     list_all2 (\<lambda>j j'. j' = j \<or> jb_id j' = jb_id j \<and> jb_type j' = jb_type j \<and>
       jb_max_attempts j' = jb_max_attempts j \<and> jb_attempts j < jb_attempts j') (jobs s) (jobs s')"

lemma progressed_refl: "progressed s s"
  by (simp add: progressed_def list_all2_same)

lemma progressed_trans:
  assumes "progressed s t" and "progressed t u"
  shows "progressed s u"
proof -
  have "list_all2 (\<lambda>j j'. j' = j \<or> jb_id j' = jb_id j \<and> jb_type j' = jb_type j \<and>
       jb_max_attempts j' = jb_max_attempts j \<and> jb_attempts j < jb_attempts j') (jobs s) (jobs u)"
    by (rule list_all2_trans [OF _ conjunct2 [OF conjunct2 [OF assms(1) [unfolded progressed_def]]]
          conjunct2 [OF conjunct2 [OF assms(2) [unfolded progressed_def]]]]) auto
  with assms show ?thesis by (auto simp: progressed_def)
qed

locale job_runner =
  fixes work :: "Job \<Rightarrow> db \<Rightarrow> string option \<times> db"
  assumes keeps_jobs: "jobs (snd (work j s)) = jobs s"
    and clock_forward: "clock s \<le> clock (snd (work j s))"
    and ids_forward: "next_id s \<le> next_id (snd (work j s))"
begin

lemma one_round:
  assumes "claim_next skip kind who s = (Some j, s1)"
  shows "\<exists>r\<in>set (jobs s). \<exists>e t'. due skip kind (clock s) r \<and> job_payload j = jb_payload r \<and>
    jobs (run_job work elapse j s1) = update_where (\<lambda>x. jb_id x = jb_id r) (job_round who (clock s) e t') (jobs s) \<and>
    clock s \<le> clock (run_job work elapse j s1) \<and> next_id s \<le> next_id (run_job work elapse j s1)"
proof -
  from claim_next_Some [OF assms] obtain r where r: "r \<in> set (jobs s)" "due skip kind (clock s) r" "job_id j = jb_id r"
    "job_payload j = jb_payload r" and s1: "s1 = s\<lparr>jobs := update_where (\<lambda>x. jb_id x = jb_id r) (claimed_job who (clock s)) (jobs s)\<rparr>" by blast
  obtain e s2 where w: "work j s1 = (e, s2)" by (cases "work j s1")
  have js: "jobs s2 = update_where (\<lambda>x. jb_id x = jb_id r) (claimed_job who (clock s)) (jobs s)"
    and ck: "clock s \<le> clock s2" and ni: "next_id s \<le> next_id s2"
    using keeps_jobs [of j s1] clock_forward [of s1 j] ids_forward [of s1 j] w s1 by simp_all
  have "jobs (run_job work elapse j s1) = update_where (\<lambda>x. jb_id x = jb_id r) (job_round who (clock s) e (clock s2)) (jobs s)"
    by (cases e) (simp_all add: run_job_def settle_job_def w complete_job_def fail_job_def js r(3)
        update_where_twice job_round_def [abs_def])
  moreover have "clock s \<le> clock (run_job work elapse j s1) \<and> next_id s \<le> next_id (run_job work elapse j s1)"
    using ck ni by (cases e) (simp_all add: run_job_def settle_job_def w complete_job_def fail_job_def)
  ultimately show ?thesis using r(1,2,4) by blast
qed

lemma round_progress:
  assumes "claim_next skip kind who s = (Some j, s1)" and ok: "queue_ok s"
  shows "queue_ok (run_job work elapse j s1) \<and> progressed s (run_job work elapse j s1) \<and>
    (\<Sum>j\<leftarrow>jobs (run_job work elapse j s1). weight kind j) < (\<Sum>j\<leftarrow>jobs s. weight kind j)"
proof -
  let ?s = "run_job work elapse j s1"
  from one_round [OF assms(1), of elapse] obtain r e t' where r: "r \<in> set (jobs s)" "due skip kind (clock s) r"
    and js: "jobs ?s = update_where (\<lambda>x. jb_id x = jb_id r) (job_round who (clock s) e t') (jobs s)"
    and fwd: "clock s \<le> clock ?s" "next_id s \<le> next_id ?s" by blast
  have same: "x = r" if "x \<in> set (jobs s)" "jb_id x = jb_id r" for x
    using ok r(1) that by (auto simp: queue_ok_def distinct_map inj_on_def)
  have left: "jb_attempts r < jb_max_attempts r" "0 \<le> jb_attempts r"
    using ok r by (auto simp: queue_ok_def job_ok_def due_def)
  have "map jb_id (jobs ?s) = map jb_id (jobs s)" unfolding js by (rule map_update_where) simp
  moreover have "jb_id x < next_id ?s \<and> job_ok x" if x: "x \<in> set (jobs ?s)" for x
  proof -
    from x obtain y where y: "y \<in> set (jobs s)" "x = (if jb_id y = jb_id r then job_round who (clock s) e t' y else y)"
      unfolding js in_set_update_where by blast
    then show ?thesis
      using ok fwd(2) left same [OF y(1)] by (auto simp: queue_ok_def job_ok_def intro: order_less_le_trans)
  qed
  ultimately have "queue_ok ?s" using ok by (simp add: queue_ok_def)
  moreover have "progressed s ?s"
    using fwd by (simp add: progressed_def js update_where_def list_all2_map2 list_all2_same)
  moreover have "(\<Sum>j\<leftarrow>jobs ?s. weight kind j) < (\<Sum>j\<leftarrow>jobs s. weight kind j)"
    unfolding js
  proof (rule sum_update_less)
    show "weight kind (job_round who (clock s) e t' x) < weight kind x" if "x \<in> set (jobs s)" "jb_id x = jb_id r" for x
      using same [OF that] r(2) left by (auto simp: weight_def due_def)
  qed (use r(1) in blast)
  ultimately show ?thesis by blast
qed

lemma drains:
  "queue_ok s \<Longrightarrow> \<exists>s'. drain work elapse skip kind who s = Some s' \<and> queue_ok s' \<and> progressed s s' \<and>
     (\<forall>j\<in>set (jobs s'). \<not> due skip kind (clock s') j)"
proof (induction "\<Sum>j\<leftarrow>jobs s. weight kind j" arbitrary: s rule: less_induct)
  case less
  obtain c s1 where c: "claim_next skip kind who s = (c, s1)" by (cases "claim_next skip kind who s")
  show ?case
  proof (cases c)
    case None
    with c have stop: "claim_next skip kind who s = (None, s1)" by simp
    then have "s1 = s" "\<forall>j\<in>set (jobs s). \<not> due skip kind (clock s) j" unfolding claim_next_None by blast+
    with less.prems show ?thesis by (subst drain.simps) (simp add: stop progressed_refl)
  next
    case (Some j)
    with c have run: "claim_next skip kind who s = (Some j, s1)" by simp
    note p = round_progress [OF run less.prems, of elapse]
    from less.hyps [OF conjunct2 [OF conjunct2 [OF p]] conjunct1 [OF p]] p
    show ?thesis unfolding drain.simps [of _ _ _ _ _ s] run prod.case option.case by (blast intro: progressed_trans)
  qed
qed

text \<open>So every job that is due is attempted.\<close>

lemma attempted:
  assumes "queue_ok s" and "drain work elapse skip kind who s = Some s'"
    and "j \<in> set (jobs s)" and "due skip kind (clock s) j"
  shows "\<exists>j'\<in>set (jobs s'). jb_id j' = jb_id j \<and> jb_attempts j < jb_attempts j'"
proof -
  from drains [OF assms(1), of elapse skip kind who] assms(2) have p: "progressed s s'"
    and none: "\<forall>j\<in>set (jobs s'). \<not> due skip kind (clock s') j" by auto
  obtain i where i: "i < length (jobs s)" "jobs s ! i = j" using assms(3) by (auto simp: in_set_conv_nth)
  from p have rows: "list_all2 (\<lambda>j j'. j' = j \<or> jb_id j' = jb_id j \<and> jb_type j' = jb_type j \<and>
       jb_max_attempts j' = jb_max_attempts j \<and> jb_attempts j < jb_attempts j') (jobs s) (jobs s')"
    by (simp add: progressed_def)
  let ?j = "jobs s' ! i"
  have j': "?j \<in> set (jobs s')" "?j = j \<or> jb_id ?j = jb_id j \<and> jb_attempts j < jb_attempts ?j"
    using list_all2_nthD [OF rows i(1)] list_all2_lengthD [OF rows] i by auto
  have "clock s \<le> clock s'" using p by (simp add: progressed_def)
  then have "?j \<noteq> j" using none j'(1) assms(4) by (force simp: due_def)
  with j' show ?thesis by blast
qed

text \<open>
  What the work on a job establishes, and no later work undoes, holds after the drain when a
  job with that payload was due.
\<close>

lemma handled:
  assumes est: "\<And>j t. job_payload j = p \<Longrightarrow> Q (snd (work j t))" and keep: "\<And>j t. Q t \<Longrightarrow> Q (snd (work j t))"
    and frame: "\<And>t js. Q t \<Longrightarrow> Q (t\<lparr>jobs := js\<rparr>)" "\<And>t c. Q t \<Longrightarrow> Q (t\<lparr>clock := c\<rparr>)"
  shows "queue_ok s \<Longrightarrow> drain work elapse skip kind who s = Some s' \<Longrightarrow>
    Q s \<or> (\<exists>r\<in>set (jobs s). due skip kind (clock s) r \<and> jb_payload r = p) \<Longrightarrow> Q s'"
proof (induction "\<Sum>j\<leftarrow>jobs s. weight kind j" arbitrary: s rule: less_induct)
  case less
  have settle: "Q (run_job work elapse j t)" if "Q (snd (work j t))" for j t
    using that frame
    by (cases "work j t"; cases "fst (work j t)")
      (simp_all add: run_job_def settle_job_def complete_job_def fail_job_def)
  obtain c s1 where c: "claim_next skip kind who s = (c, s1)" by (cases "claim_next skip kind who s")
  show ?case
  proof (cases c)
    case None
    with c have stop: "claim_next skip kind who s = (None, s1)" by simp
    then have "s1 = s" "\<forall>j\<in>set (jobs s). \<not> due skip kind (clock s) j" unfolding claim_next_None by blast+
    moreover have "s' = s1" using less.prems(2) by (subst (asm) drain.simps) (simp add: stop)
    ultimately show ?thesis using less.prems(3) by blast
  next
    case (Some j)
    with c have run: "claim_next skip kind who s = (Some j, s1)" by simp
    let ?t = "run_job work elapse j s1"
    note p = round_progress [OF run less.prems(1), of elapse]
    have rest: "drain work elapse skip kind who ?t = Some s'"
      using less.prems(2) by (subst (asm) drain.simps) (simp add: run)
    from claim_next_Some [OF run] obtain r0 :: job_row where
      s1: "s1 = s\<lparr>jobs := update_where (\<lambda>x. jb_id x = jb_id r0) (claimed_job who (clock s)) (jobs s)\<rparr>"
      by blast
    have "Q ?t \<or> (\<exists>r\<in>set (jobs ?t). due skip kind (clock ?t) r \<and> jb_payload r = p)"
    proof (cases "Q s \<or> job_payload j = p")
      case True
      then have "Q (snd (work j s1))" using est keep frame(1) s1 by blast
      then show ?thesis using settle by blast
    next
      case False
      with less.prems(3) obtain r where r: "r \<in> set (jobs s)" "due skip kind (clock s) r" "jb_payload r = p" by blast
      from one_round [OF run, of elapse] obtain q e t' where
        q: "q \<in> set (jobs s)" and js: "jobs ?t = update_where (\<lambda>x. jb_id x = jb_id q) (job_round who (clock s) e t') (jobs s)"
        and ck: "clock s \<le> clock ?t" and jq: "job_payload j = jb_payload q" by blast
      have "jb_id r \<noteq> jb_id q"
        using less.prems(1) r q jq False by (auto simp: queue_ok_def distinct_map inj_on_def)
      with r(1) have "r \<in> set (jobs ?t)" by (force simp: js in_set_update_where)
      moreover have "due skip kind (clock ?t) r" using r(2) ck by (auto simp: due_def)
      ultimately show ?thesis using r(3) by blast
    qed
    from less.hyps [OF conjunct2 [OF conjunct2 [OF p]] conjunct1 [OF p] rest this] show ?thesis .
  qed
qed

end

end
