(* ===== verification/Reconciler.thy ===== *)
theory Reconciler
  imports Queue WithdrawalFlow
begin

text \<open>
  \<open>crates/worker/src/withdrawal_reconciler.rs\<close>: draining the broadcast queue and putting
  withdrawals that never reached a worker back on it. Reading a job's payload
  (\<open>serde_json::from_value\<close>) and printing an error are parameters.

  One round requeues a batch of at most a hundred withdrawals and drains the queue;
  \<open>reconcile_rounds\<close> repeats it. The lemmas show that a round ends with its batch picked up, and that
  enough rounds leave no withdrawal behind.
\<close>

section \<open>The runner\<close>

definition broadcast_work ::
    "primitives \<Rightarrow> SecretsService option \<Rightarrow> (Job \<Rightarrow> Coin \<Rightarrow> string \<Rightarrow> nat \<Rightarrow> BroadcastError + BroadcastResult) \<Rightarrow>
     (string \<Rightarrow> string + uuid) \<Rightarrow> (WithdrawalsError \<Rightarrow> string) \<Rightarrow> Job \<Rightarrow> db \<Rightarrow> string option \<times> db" where
  "broadcast_work P secrets client parse show_error job s =
     (case parse (job_payload job) of
        Inr wdid \<Rightarrow>
          (case process_broadcast P secrets (client job) wdid s of
             (Inr _, s') \<Rightarrow> (None, s')
           | (Inl e, s') \<Rightarrow> (Some (show_error e), s'))
      | Inl m \<Rightarrow> (Some (''malformed job payload: '' @ m), s))"

definition drain_broadcast_queue ::
    "primitives \<Rightarrow> SecretsService option \<Rightarrow> (Job \<Rightarrow> Coin \<Rightarrow> string \<Rightarrow> nat \<Rightarrow> BroadcastError + BroadcastResult) \<Rightarrow>
     (string \<Rightarrow> string + uuid) \<Rightarrow> (WithdrawalsError \<Rightarrow> string) \<Rightarrow> (Job \<Rightarrow> nat) \<Rightarrow> uuid set \<Rightarrow> string \<Rightarrow>
     db \<Rightarrow> db option" where
  "drain_broadcast_queue P secrets client parse show_error elapse skip who =
     drain (broadcast_work P secrets client parse show_error) elapse skip ''withdrawal_broadcast'' who"

definition broadcast_payload :: "uuid \<Rightarrow> string" where
  "broadcast_payload wdid = json_object [(''withdrawalId'', json_text (show_uuid wdid))]"

fun requeue_all :: "uuid list \<Rightarrow> db \<Rightarrow> db" where
  "requeue_all [] s = s"
| "requeue_all (i # ids) s = requeue_all ids (snd (enqueue ''withdrawal_broadcast'' (broadcast_payload i) s))"

definition requeue_eligible :: "db \<Rightarrow> db" where
  "requeue_eligible s = requeue_all (list_eligible_for_requeue s 100) s"

section \<open>What a worker preserves\<close>

text \<open>
  Everything \<open>process_broadcast\<close> does is built from a few effects: what they preserve, it
  preserves, on every path.
\<close>

locale worker_invariant =
  fixes I :: "db \<Rightarrow> bool"
  assumes status: "st = WBroadcasting \<or> st = WFailed \<or> st = WConfirmed \<Longrightarrow> I s \<Longrightarrow>
      I (set_withdrawal i (with_status st t) s)"
    and hash: "I s \<Longrightarrow> I (set_withdrawal i (\<lambda>x. (with_status WBroadcasted t x)\<lparr>wd_tx_hash := Some h\<rparr>) s)"
    and staging: "keeps I (stage e)"
    and posting: "keeps I (apply_ledger_entry p)"
    and logging: "keeps I (record_log u a en ei ip m)"
    and fees: "keeps I (record_network_fee_tx n)"
    and release: "I s \<Longrightarrow> I (release_locks s)"
begin

lemma kept_commit: "keeps I m \<Longrightarrow> I s \<Longrightarrow> I (snd (commit_tx release_locks m s))"
  by (rule keeps_commit) (auto intro: release)

lemma kept_status: "st = WBroadcasting \<or> st = WFailed \<or> st = WConfirmed \<Longrightarrow>
    keeps I (tx_modify (\<lambda>s. set_withdrawal i (with_status st (clock s)) s))"
  by (rule keeps_modify) (rule status)

lemma kept_hash: "keeps I (tx_modify (\<lambda>s. set_withdrawal i (\<lambda>x. (with_status WBroadcasted (clock s) x)\<lparr>wd_tx_hash := Some h\<rparr>) s))"
  by (rule keeps_modify) (rule hash)

lemmas kept_intros = keeps_intros staging posting logging fees kept_hash kept_status [of WFailed, simplified]
  kept_status [of WConfirmed, simplified]

lemma kept_fail: "I s \<Longrightarrow> I (snd (fail_safely i r m s))"
  unfolding fail_safely_def fail_safely_tx_def by (intro kept_commit kept_intros)

lemma kept_persist: "I s \<Longrightarrow> I (snd (persist_broadcast i r c x s))"
  unfolding persist_broadcast_def persist_broadcast_tx_def by (intro kept_commit kept_intros)

lemma kept_log: "I s \<Longrightarrow> I (log_failure w i c m s)"
  unfolding log_failure_def by (intro kept_commit logging)

lemma kept_fee: "I s \<Longrightarrow> I (snd (record_network_fee n s))"
  unfolding record_network_fee_def by (intro kept_commit fees)

lemma kept_finalize:
  assumes "I s"
  shows "I (snd (finalize_broadcasted i s))"
proof (cases "finalize_tx i s")
  case (Inr p)
  obtain b t where p: "p = (b, t)" by (cases p)
  have "keeps I (finalize_tx i)" unfolding finalize_tx_def by (intro kept_intros)
  from keepsD [OF this Inr [unfolded p] assms] Inr p assms show ?thesis
    by (cases b) (simp_all add: finalize_broadcasted_def release)
qed (simp add: finalize_broadcasted_def assms)

lemma kept_settle:
  assumes "I s"
  shows "I (snd (settle_broadcast i r w c a s))"
proof (cases a)
  case (Inl e)
  then show ?thesis
    using assms kept_fail [OF assms, of i r "be_message e"]
    by (cases "fail_safely i r (be_message e) s"; cases "fst (fail_safely i r (be_message e) s)")
      (auto simp: settle_broadcast_def kept_log)
next
  case (Inr b)
  then show ?thesis
    using kept_persist [OF assms, of i r c "br_tx_hash b"]
    by (cases "persist_broadcast i r c (br_tx_hash b) s"; cases "fst (persist_broadcast i r c (br_tx_hash b) s)")
      (auto simp: settle_broadcast_def intro!: kept_finalize kept_fee)
qed

lemma kept_after_claim:
  assumes "I (snd (claim_broadcast i s))"
  shows "I (snd (process_broadcast P secrets client i s))"
proof -
  obtain b t where c: "claim_broadcast i s = (b, t)" by (cases "claim_broadcast i s")
  with assms have t: "I t" by simp
  show ?thesis
    using c t kept_finalize [OF t] kept_settle [OF t]
    by (cases b) (auto simp: process_broadcast_def split: option.splits)
qed

lemma kept_process: "I s \<Longrightarrow> I (snd (process_broadcast P secrets client i s))"
  by (rule kept_after_claim) (auto simp: claim_broadcast_def status split: option.splits)

lemma kept_work: "I s \<Longrightarrow> I (snd (broadcast_work P secrets client parse show_error j s))"
  using kept_process [of s P secrets "client j"]
  by (auto simp: broadcast_work_def split: sum.splits prod.splits) (metis snd_conv)+

end

section \<open>The queue is not touched\<close>

definition quiet :: "db \<Rightarrow> db \<Rightarrow> bool" where
  "quiet s s' \<longleftrightarrow> jobs s' = jobs s \<and> clock s' = clock s \<and> next_id s \<le> next_id s'"

interpretation quiet: worker_invariant "quiet s" for s
  by unfold_locales
    (auto simp: quiet_def keeps_def set_withdrawal_def release_locks_def staged_def post_entry_def
      audited_def tx_simps record_log_Inr record_network_fee_tx_Inr split: if_splits)

interpretation broadcasts: job_runner "broadcast_work P secrets client parse show_error"
  for P secrets client parse show_error
proof
  fix j :: Job and s :: db
  have "quiet s (snd (broadcast_work P secrets client parse show_error j s))"
    by (rule quiet.kept_work) (simp add: quiet_def)
  then show "jobs (snd (broadcast_work P secrets client parse show_error j s)) = jobs s"
    "clock s \<le> clock (snd (broadcast_work P secrets client parse show_error j s))"
    "next_id s \<le> next_id (snd (broadcast_work P secrets client parse show_error j s))"
    by (simp_all add: quiet_def)
qed

section \<open>Picked up\<close>

definition picked_up :: "uuid \<Rightarrow> db \<Rightarrow> bool" where
  "picked_up i s \<longleftrightarrow> (\<forall>r. find_withdrawal s i = Some r \<longrightarrow> wd_status r \<noteq> WQueued \<and> wd_status r \<noteq> WApproved)"

lemma picked_up_cong: "withdrawals s' = withdrawals s \<Longrightarrow> picked_up i s' = picked_up i s"
  by (simp add: picked_up_def find_withdrawal_def)

lemma picked_up_set:
  assumes "\<And>r. wd_id (f r) = wd_id r" and "\<And>r. wd_status (f r) \<noteq> WQueued \<and> wd_status (f r) \<noteq> WApproved"
    and "j = i \<or> picked_up i s"
  shows "picked_up i (set_withdrawal j f s)"
  using assms by (auto simp: picked_up_def find_withdrawal_def find_update_where_key split: if_splits)

interpretation picked: worker_invariant "picked_up i" for i
proof
  show "keeps (picked_up i) (stage e)" "keeps (picked_up i) (apply_ledger_entry p)"
    "keeps (picked_up i) (record_log u a en ei ip m)" "keeps (picked_up i) (record_network_fee_tx n)"
    for e p u a en ei ip m n
    by (auto simp: keeps_def tx_simps record_log_Inr record_network_fee_tx_Inr split: if_splits
        elim!: picked_up_cong [THEN iffD2, rotated])
  show "picked_up i (release_locks s)" if "picked_up i s" for s
    using that by (simp add: picked_up_cong [of "release_locks s" s])
qed (rule picked_up_set; auto)+

lemma work_picks_up:
  assumes "parse (job_payload j) = Inr i"
  shows "picked_up i (snd (broadcast_work P secrets client parse show_error j s))"
proof -
  have "picked_up i (snd (claim_broadcast i s))"
    by (auto simp: claim_broadcast_def picked_up_def find_withdrawal_def find_update_where_key split: option.splits)
  from picked.kept_after_claim [OF this] assms show ?thesis
    by (auto simp: broadcast_work_def split: sum.splits prod.splits) (metis snd_conv)+
qed

section \<open>Properties\<close>

lemma enqueue_ok:
  assumes "queue_ok s"
  shows "queue_ok (snd (enqueue kind p s))"
  using assms by (auto simp: queue_ok_def enqueue_def new_job_def job_ok_def less_Suc_eq)

lemma requeue_all_effect:
  "queue_ok s \<Longrightarrow> queue_ok (requeue_all ids s) \<and> clock (requeue_all ids s) = clock s \<and>
     withdrawals (requeue_all ids s) = withdrawals s \<and> next_id s \<le> next_id (requeue_all ids s) \<and>
     set (jobs s) \<subseteq> set (jobs (requeue_all ids s)) \<and>
     (\<forall>i\<in>set ids. \<exists>n\<ge>next_id s.
        new_job n ''withdrawal_broadcast'' (broadcast_payload i) (clock s) \<in> set (jobs (requeue_all ids s)))"
proof (induction ids arbitrary: s)
  case (Cons i ids)
  let ?t = "snd (enqueue ''withdrawal_broadcast'' (broadcast_payload i) s)"
  have t: "clock ?t = clock s" "withdrawals ?t = withdrawals s" "next_id ?t = Suc (next_id s)"
    "jobs ?t = jobs s @ [new_job (next_id s) ''withdrawal_broadcast'' (broadcast_payload i) (clock s)]"
    by (simp_all add: enqueue_def)
  note rest = Cons.IH [OF enqueue_ok [OF Cons.prems], of "''withdrawal_broadcast''" "broadcast_payload i"]
  have "new_job (next_id s) ''withdrawal_broadcast'' (broadcast_payload i) (clock s) \<in> set (jobs (requeue_all ids ?t))"
    using rest t(4) by auto
  moreover have "\<exists>n\<ge>next_id s. new_job n ''withdrawal_broadcast'' (broadcast_payload k) (clock s) \<in> set (jobs (requeue_all ids ?t))"
    if "k \<in> set ids" for k
    using rest that unfolding t by (meson Suc_leD)
  ultimately show ?case using rest t by auto
qed simp

lemma drain_keeps:
  assumes run: "drain work elapse skip kind who s = Some s'" and start: "I s"
    and keep: "\<And>j t. I t \<Longrightarrow> I (snd (work j t))"
    and frame: "\<And>t js. I t \<Longrightarrow> I (t\<lparr>jobs := js\<rparr>)" "\<And>t c. I t \<Longrightarrow> I (t\<lparr>clock := c\<rparr>)"
  shows "I s'"
proof -
  have settle: "I (run_job work elapse j t)" if "I t" for j t
    using keep [OF that, of j] frame
    by (cases "work j t"; cases "fst (work j t)")
      (simp_all add: run_job_def settle_job_def complete_job_def fail_job_def)
  have claim: "I t" if "claim_next skip kind who u = (c, t)" "I u" for c t u
    using that frame(1) by (auto simp: claim_next_def split: list.splits)
  have "I s \<longrightarrow> (\<forall>j t. I t \<longrightarrow> I (run_job work elapse j t)) \<longrightarrow>
      (\<forall>c t u. claim_next skip kind who u = (c, t) \<longrightarrow> I u \<longrightarrow> I t) \<longrightarrow> I s'"
    using run
  proof (rule drain.raw_induct [where P = "\<lambda>w el sk k n s s'. I s \<longrightarrow> (\<forall>j t. I t \<longrightarrow> I (run_job w el j t)) \<longrightarrow>
      (\<forall>c t u. claim_next sk k n u = (c, t) \<longrightarrow> I u \<longrightarrow> I t) \<longrightarrow> I s'", rotated])
    fix dr w el sk k n u y
    assume ih: "\<And>w el sk k n u y. dr w el sk k n u = Some y \<Longrightarrow>
        I u \<longrightarrow> (\<forall>j t. I t \<longrightarrow> I (run_job w el j t)) \<longrightarrow>
        (\<forall>c t u. claim_next sk k n u = (c, t) \<longrightarrow> I u \<longrightarrow> I t) \<longrightarrow> I y"
      and body: "(case claim_next sk k n u of (None, s') \<Rightarrow> Some s'
        | (Some j, s') \<Rightarrow> dr w el sk k n (run_job w el j s')) = Some y"
    obtain c t where c: "claim_next sk k n u = (c, t)" by (cases "claim_next sk k n u")
    show "I u \<longrightarrow> (\<forall>j t. I t \<longrightarrow> I (run_job w el j t)) \<longrightarrow>
        (\<forall>c t u. claim_next sk k n u = (c, t) \<longrightarrow> I u \<longrightarrow> I t) \<longrightarrow> I y"
    proof (intro impI)
      assume h: "I u" "\<forall>j t. I t \<longrightarrow> I (run_job w el j t)"
        "\<forall>c t u. claim_next sk k n u = (c, t) \<longrightarrow> I u \<longrightarrow> I t"
      then have "I t" using c by blast
      with body c ih h show "I y" by (cases c) auto
    qed
  qed
  with start settle claim show ?thesis by blast
qed

section \<open>Rounds of the reconciler\<close>

definition eligible :: "withdrawal_row \<Rightarrow> bool" where
  "eligible r \<longleftrightarrow> wd_status r \<in> {WQueued, WApproved}"

text \<open>Workers keep the rows and put no withdrawal back into a state that is eligible.\<close>

definition advanced :: "db \<Rightarrow> db \<Rightarrow> bool" where
  "advanced s s' \<longleftrightarrow> list_all2 (\<lambda>r r'. wd_id r' = wd_id r \<and> (eligible r' \<longrightarrow> eligible r)) (withdrawals s) (withdrawals s')"

lemma advanced_refl [simp]: "advanced s s"
  by (simp add: advanced_def list_all2_same)

lemma advanced_cong: "withdrawals t = withdrawals u \<Longrightarrow> advanced s t = advanced s u"
  by (simp add: advanced_def)

lemma advanced_set:
  assumes "advanced s t" and "\<And>r. wd_id (f r) = wd_id r" and "\<And>r. \<not> eligible (f r)"
  shows "advanced s (set_withdrawal i f t)"
  using assms
  by (auto simp: advanced_def set_withdrawal_def update_where_def list_all2_map2 elim!: list_all2_mono)

interpretation advancing: worker_invariant "advanced s" for s
proof
  show "keeps (advanced s) (stage e)" "keeps (advanced s) (apply_ledger_entry p)"
    "keeps (advanced s) (record_log u a en ei ip m)" "keeps (advanced s) (record_network_fee_tx n)"
    for e p u a en ei ip m n
    by (auto simp: keeps_def tx_simps record_log_Inr record_network_fee_tx_Inr split: if_splits
        elim!: advanced_cong [THEN iffD2, rotated])
  show "advanced s (release_locks t)" if "advanced s t" for t
    using that by (simp add: advanced_cong [of "release_locks t" t])
qed (rule advanced_set; auto simp: eligible_def)+

lemma advanced_ids: "advanced s s' \<Longrightarrow> map wd_id (withdrawals s') = map wd_id (withdrawals s)"
  unfolding advanced_def by (induction rule: list_all2_induct) simp_all

lemma advanced_eligible:
  assumes "advanced s s'" and "r' \<in> set (withdrawals s')" and "eligible r'"
  shows "\<exists>r\<in>set (withdrawals s). wd_id r = wd_id r' \<and> eligible r"
proof -
  from assms(2) obtain i where i: "i < length (withdrawals s')" "withdrawals s' ! i = r'" by (auto simp: in_set_conv_nth)
  from list_all2_nthD2 [OF assms(1) [unfolded advanced_def] i(1)] i assms(3)
    list_all2_lengthD [OF assms(1) [unfolded advanced_def]]
  show ?thesis by (intro bexI [of _ "withdrawals s ! i"]) auto
qed

lemma picked_up_rows:
  assumes "distinct (map wd_id (withdrawals s))"
  shows "picked_up i s \<longleftrightarrow> (\<forall>r\<in>set (withdrawals s). wd_id r = i \<longrightarrow> \<not> eligible r)"
proof -
  have "find_withdrawal s (wd_id r) = Some r" if "r \<in> set (withdrawals s)" for r
    unfolding find_withdrawal_def using assms that by (rule find_key_distinct)
  moreover have "r \<in> set (withdrawals s) \<and> wd_id r = i" if "find_withdrawal s i = Some r" for r
    using that find_Some_props unfolding find_withdrawal_def by fastforce
  ultimately show ?thesis by (auto simp: picked_up_def eligible_def)
qed

definition waiting :: "db \<Rightarrow> uuid set" where
  "waiting s = {wd_id r | r. r \<in> set (withdrawals s) \<and> eligible r}"

lemma card_waiting:
  assumes "distinct (map wd_id (withdrawals s))"
  shows "card (waiting s) = length (filter eligible (withdrawals s))"
proof -
  have "waiting s = set (map wd_id (filter eligible (withdrawals s)))" by (auto simp: waiting_def)
  moreover have "distinct (map wd_id (filter eligible (withdrawals s)))" using assms by (rule distinct_map_filter)
  ultimately show ?thesis using distinct_card by fastforce
qed

lemma batch:
  assumes "distinct (map wd_id (withdrawals s))"
  shows "set (list_eligible_for_requeue s 100) \<subseteq> waiting s"
    and "card (set (list_eligible_for_requeue s 100)) = min 100 (card (waiting s))"
proof -
  let ?E = "sort_key wd_created_at (filter eligible (withdrawals s))"
  have l: "list_eligible_for_requeue s 100 = map wd_id (take 100 ?E)"
    by (simp add: list_eligible_for_requeue_def eligible_def [abs_def])
  show "set (list_eligible_for_requeue s 100) \<subseteq> waiting s"
    unfolding l by (auto simp: waiting_def dest!: in_set_takeD)
  have "distinct (map wd_id (filter eligible (withdrawals s)))" using assms by (rule distinct_map_filter)
  then have "distinct (map wd_id ?E)" by (simp add: distinct_map)
  then have "distinct (list_eligible_for_requeue s 100)" unfolding l by (simp add: take_map [symmetric])
  then show "card (set (list_eligible_for_requeue s 100)) = min 100 (card (waiting s))"
    by (simp add: distinct_card card_waiting [OF assms]) (simp add: l min.commute)
qed

text \<open>The two ticks of the worker, one after the other, \<open>n\<close> times.\<close>

fun reconcile_rounds :: "(db \<Rightarrow> db option) \<Rightarrow> nat \<Rightarrow> db \<Rightarrow> db option" where
  "reconcile_rounds dr 0 s = Some s"
| "reconcile_rounds dr (Suc n) s =
     (case dr (requeue_eligible s) of None \<Rightarrow> None | Some s' \<Rightarrow> reconcile_rounds dr n s')"

definition round_ok :: "(string \<Rightarrow> string + uuid) \<Rightarrow> uuid set \<Rightarrow> db \<Rightarrow> bool" where
  "round_ok parse skip s \<longleftrightarrow> queue_ok s \<and> distinct (map wd_id (withdrawals s)) \<and>
     (\<forall>r\<in>set (withdrawals s). parse (broadcast_payload (wd_id r)) = Inr (wd_id r)) \<and> (\<forall>n\<in>skip. n < next_id s)"

lemma reconcile_round:
  assumes "round_ok parse skip s"
  shows "\<exists>s'. drain_broadcast_queue P secrets client parse show_error elapse skip who (requeue_eligible s) = Some s' \<and>
    (\<forall>i\<in>set (list_eligible_for_requeue s 100). picked_up i s') \<and> queue_ok s' \<and>
    (\<forall>j\<in>set (jobs s'). \<not> due skip ''withdrawal_broadcast'' (clock s') j) \<and> advanced s s' \<and> next_id s \<le> next_id s'"
proof -
  let ?ids = "list_eligible_for_requeue s 100" and ?t = "requeue_eligible s"
  from assms have q: "queue_ok s" and skip: "n \<in> skip \<Longrightarrow> n < next_id s"
    and ids: "i \<in> set ?ids \<Longrightarrow> parse (broadcast_payload i) = Inr i" for n i
    using batch(1) [of s] unfolding round_ok_def waiting_def by blast+
  note t = requeue_all_effect [OF q, of ?ids, folded requeue_eligible_def]
  obtain s' where run: "drain (broadcast_work P secrets client parse show_error) elapse skip ''withdrawal_broadcast'' who ?t = Some s'"
    and ok: "queue_ok s'" "\<forall>j\<in>set (jobs s'). \<not> due skip ''withdrawal_broadcast'' (clock s') j"
    and fwd: "progressed ?t s'"
    using broadcasts.drains [OF conjunct1 [OF t], of P secrets client parse show_error elapse skip "''withdrawal_broadcast''" who] by blast
  have "picked_up i s'" if i: "i \<in> set ?ids" for i
  proof -
    from t i obtain n where n: "next_id s \<le> n"
      "new_job n ''withdrawal_broadcast'' (broadcast_payload i) (clock s) \<in> set (jobs ?t)" by blast
    have "due skip ''withdrawal_broadcast'' (clock ?t) (new_job n ''withdrawal_broadcast'' (broadcast_payload i) (clock s))"
      using n(1) skip [of n] t by (auto simp: due_def new_job_def)
    with n(2) have waiting: "\<exists>r\<in>set (jobs ?t). due skip ''withdrawal_broadcast'' (clock ?t) r \<and> jb_payload r = broadcast_payload i"
      by (intro bexI [OF _ n(2)]) (simp add: new_job_def)
    show ?thesis
    proof (rule broadcasts.handled [where Q = "picked_up i" and p = "broadcast_payload i", OF _ _ _ _ conjunct1 [OF t] run])
      show "picked_up i (snd (broadcast_work P secrets client parse show_error j u))"
        if "job_payload j = broadcast_payload i" for j u
        by (rule work_picks_up) (simp add: that ids [OF i])
      show "picked_up i (snd (broadcast_work P secrets client parse show_error j u))" if "picked_up i u" for j u
        using that by (rule picked.kept_work)
      show "picked_up i (u\<lparr>jobs := js\<rparr>)" "picked_up i (u\<lparr>clock := c\<rparr>)" if "picked_up i u" for u js c
        using that by (simp_all add: picked_up_def find_withdrawal_def)
    qed (use waiting in blast)
  qed
  moreover have "advanced s s'"
  proof (rule drain_keeps [OF run, where I = "advanced s"])
    show "advanced s ?t" using t by (simp add: advanced_cong [of ?t s])
    show "advanced s (snd (broadcast_work P secrets client parse show_error j u))" if "advanced s u" for j u
      using that by (rule advancing.kept_work)
  qed (simp_all add: advanced_def)
  moreover have "next_id s \<le> next_id s'" using t fwd by (auto simp: progressed_def)
  ultimately show ?thesis using run ok unfolding drain_broadcast_queue_def by blast
qed

lemma rounds_pick_up:
  assumes "round_ok parse skip s" and "length (filter eligible (withdrawals s)) \<le> 100 * n"
  shows "\<exists>s'. reconcile_rounds (drain_broadcast_queue P secrets client parse show_error elapse skip who) n s = Some s' \<and>
    (\<forall>r\<in>set (withdrawals s). picked_up (wd_id r) s')"
  using assms
proof (induction n arbitrary: s)
  case 0
  then have d: "distinct (map wd_id (withdrawals s))" and "filter eligible (withdrawals s) = []" by (simp_all add: round_ok_def)
  then show ?case by (auto simp: picked_up_rows [OF d] filter_empty_conv)
next
  case (Suc n)
  have d: "distinct (map wd_id (withdrawals s))" using Suc.prems(1) by (simp add: round_ok_def)
  obtain u where u: "drain_broadcast_queue P secrets client parse show_error elapse skip who (requeue_eligible s) = Some u"
    and pick: "\<forall>i\<in>set (list_eligible_for_requeue s 100). picked_up i u" and ok: "queue_ok u"
    and adv: "advanced s u" "next_id s \<le> next_id u"
    using reconcile_round [OF Suc.prems(1), of P secrets client show_error elapse who] by blast
  note same = advanced_ids [OF adv(1)]
  have du: "distinct (map wd_id (withdrawals u))" using d same by simp
  have ids: "(\<forall>r\<in>set (withdrawals u). Q (wd_id r)) \<longleftrightarrow> (\<forall>r\<in>set (withdrawals s). Q (wd_id r))" for Q
    using arg_cong [OF same, of set] by (metis (no_types, lifting) imageE imageI image_set)
  have r: "round_ok parse skip u"
    using Suc.prems(1) ok du adv(2) ids [of "\<lambda>i. parse (broadcast_payload i) = Inr i"]
    unfolding round_ok_def by (meson less_le_trans)
  have "waiting u \<subseteq> waiting s - set (list_eligible_for_requeue s 100)"
  proof
    fix i
    assume "i \<in> waiting u"
    then obtain r' where r': "r' \<in> set (withdrawals u)" "eligible r'" "wd_id r' = i" by (auto simp: waiting_def)
    from advanced_eligible [OF adv(1) r'(1,2)] r'(3) have "i \<in> waiting s" unfolding waiting_def by (metis (mono_tags, lifting) mem_Collect_eq)
    moreover have "\<not> picked_up i u" using r' picked_up_rows [OF du] by blast
    ultimately show "i \<in> waiting s - set (list_eligible_for_requeue s 100)" using pick by blast
  qed
  moreover have "finite (waiting s)" by (simp add: waiting_def)
  ultimately have "card (waiting u) \<le> card (waiting s) - min 100 (card (waiting s))"
    using batch [OF d] by (metis card_Diff_subset card_mono finite_Diff finite_set)
  then have "length (filter eligible (withdrawals u)) \<le> 100 * n"
    using Suc.prems(2) by (simp add: card_waiting [OF d] card_waiting [OF du])
  from Suc.IH [OF r this] ids [of "\<lambda>i. picked_up i _"] u show ?case by fastforce
qed

text \<open>
  C13. No withdrawal is stranded. Putting eligible withdrawals back on the queue and draining it
  always comes to an end; the first hundred eligible withdrawals, the batch of one round, have then
  been picked up by a worker, no job is left due and none has run more often than it may. And rounds
  enough for the number of eligible withdrawals, one for every hundred, leave every withdrawal of
  the table picked up. Both hold whatever the chain client answers, however its transactions fail
  and however often the jobs had been queued before.
\<close>

theorem requeued_withdrawals_are_picked_up:
  assumes "queue_ok s" and "distinct (map wd_id (withdrawals s))"
    and "\<And>r. r \<in> set (withdrawals s) \<Longrightarrow> parse (broadcast_payload (wd_id r)) = Inr (wd_id r)"
    and "\<And>n. n \<in> skip \<Longrightarrow> n < next_id s"
  shows "(\<exists>s'. drain_broadcast_queue P secrets client parse show_error elapse skip who (requeue_eligible s) = Some s' \<and>
      (\<forall>i\<in>set (list_eligible_for_requeue s 100). picked_up i s') \<and> queue_ok s' \<and>
      (\<forall>j\<in>set (jobs s'). \<not> due skip ''withdrawal_broadcast'' (clock s') j)) \<and>
    (\<forall>n. length (filter (\<lambda>r. wd_status r \<in> {WQueued, WApproved}) (withdrawals s)) \<le> 100 * n \<longrightarrow>
      (\<exists>s'. reconcile_rounds (drain_broadcast_queue P secrets client parse show_error elapse skip who) n s = Some s' \<and>
        (\<forall>r\<in>set (withdrawals s). picked_up (wd_id r) s')))"
proof -
  have r: "round_ok parse skip s" using assms by (simp add: round_ok_def)
  from reconcile_round [OF r] rounds_pick_up [OF r] show ?thesis unfolding eligible_def [abs_def] by meson
qed

definition requeue_demo :: db where
  "requeue_demo = empty_db\<lparr>next_id := 10, clock := 60,
     withdrawals := [new_withdrawal 9 1 ''bc1q'' 1000 2000 False ''ip'' None 5]\<rparr>"

theorem requeued_withdrawals_are_picked_up_witness:
  "\<exists>s'. reconcile_rounds (drain_broadcast_queue demo_primitives None
       (\<lambda>_ _ _ _. Inl \<lparr>be_message = ''down'', be_safe_to_reverse = False\<rparr>)
       (\<lambda>p. if p = broadcast_payload 9 then Inr 9 else Inl ''bad'') (\<lambda>_. ''e'') (\<lambda>_. 1) {} ''w'') 1
       requeue_demo = Some s' \<and> picked_up 9 s'"
proof -
  have rows: "withdrawals requeue_demo = [new_withdrawal 9 1 ''bc1q'' 1000 2000 False ''ip'' None 5]"
    by (simp add: requeue_demo_def)
  have "queue_ok requeue_demo" by (simp add: queue_ok_def requeue_demo_def empty_db_def)
  note all = requeued_withdrawals_are_picked_up [OF this,
      where parse = "\<lambda>p. if p = broadcast_payload 9 then Inr 9 else Inl ''bad''" and skip = "{}", THEN conjunct2,
      THEN spec [of _ 1]]
  show ?thesis by (rule exE [OF all [THEN mp]]) (auto simp: rows)
qed

end
