(* ===== verification/Relay.thy ===== *)
theory Relay
  imports Outbox
begin

text \<open>
  \<open>crates/events/src/relay.rs\<close>: the out-of-band relay of the transactional outbox. Kafka is a
  parameter that answers per row; \<open>skip\<close> is the set of rows another relay holds a lock on. A stored
  event is a \<open>DomainEvent\<close>, as \<open>stage\<close> writes it: the error of a payload that no longer
  deserialises is not modelled.
\<close>

section \<open>One poll\<close>

text \<open>The broker acknowledges, refuses, or takes the message and fails to say so.\<close>

datatype ack = Acked | Refused | Unacked

datatype RelayError = RelayProducer uuid | RelayNoTopic

record Message =
  ms_topic :: string
  ms_key :: string
  ms_event_id :: uuid
  ms_event :: DomainEvent

definition pending_rows :: "uuid set \<Rightarrow> nat \<Rightarrow> db \<Rightarrow> outbox_row list" where
  "pending_rows skip n s =
     take n (filter (\<lambda>r. ob_id r \<notin> skip)
       (sort_key ob_created_at (filter (\<lambda>r. ob_published_at r = None) (outbox s))))"

definition message_of :: "string \<Rightarrow> outbox_row \<Rightarrow> Message" where
  "message_of topic r =
     \<lparr>ms_topic = topic, ms_key = show_uuid (ob_aggregate_id r), ms_event_id = ob_id r, ms_event = ob_payload r\<rparr>"

definition mark_published :: "uuid \<Rightarrow> db \<Rightarrow> db" where
  "mark_published i s = s\<lparr>outbox := update_where (\<lambda>r. ob_id r = i) (\<lambda>r. r\<lparr>ob_published_at := Some (clock s)\<rparr>) (outbox s)\<rparr>"

text \<open>The loop over the batch, with the messages the broker has taken so far.\<close>

fun relay_rows ::
    "(outbox_row \<Rightarrow> ack) \<Rightarrow> outbox_row list \<Rightarrow> Message list \<Rightarrow> db \<Rightarrow> (RelayError + db) \<times> Message list" where
  "relay_rows broker [] taken s = (Inr s, taken)"
| "relay_rows broker (r # rs) taken s =
     (case topic_for (ob_payload r) of
        None \<Rightarrow> (Inl RelayNoTopic, taken)
      | Some topic \<Rightarrow>
          (case broker r of
             Refused \<Rightarrow> (Inl (RelayProducer (ob_id r)), taken)
           | Unacked \<Rightarrow> (Inl (RelayProducer (ob_id r)), taken @ [message_of topic r])
           | Acked \<Rightarrow> relay_rows broker rs (taken @ [message_of topic r]) (mark_published (ob_id r) s)))"

definition relay_once ::
    "(outbox_row \<Rightarrow> ack) \<Rightarrow> uuid set \<Rightarrow> nat \<Rightarrow> db \<Rightarrow> (RelayError + nat) \<times> Message list \<times> db" where
  "relay_once broker skip n s =
     (let rows = pending_rows skip n s in
      case relay_rows broker rows [] s of
        (Inl e, taken) \<Rightarrow> (Inl e, taken, s)
      | (Inr s', taken) \<Rightarrow> (Inr (length rows), taken, release_locks s'))"

section \<open>What a poll does\<close>

definition marked :: "uuid set \<Rightarrow> int \<Rightarrow> outbox_row list \<Rightarrow> outbox_row list" where
  "marked ids t rows = map (\<lambda>r. if ob_id r \<in> ids then r\<lparr>ob_published_at := Some t\<rparr> else r) rows"

definition routed :: "outbox_row \<Rightarrow> Message" where
  "routed r = message_of (''bitcosats.'' @ aggregate_type (ob_payload r) @ ''.events'') r"

abbreviation messages :: "outbox_row list \<Rightarrow> Message list" where
  "messages rows \<equiv> map routed rows"

lemma relay_rows_effect:
  "relay_rows broker rows taken s = (x, taken') \<Longrightarrow>
     (\<exists>sent rest. rows = sent @ rest \<and> taken' = taken @ messages sent \<and>
        (case x of
           Inl e \<Rightarrow> \<exists>r. r \<in> set rows \<and> broker r \<noteq> Acked \<and> e = RelayProducer (ob_id r)
         | Inr s' \<Rightarrow> rest = [] \<and> (\<forall>r\<in>set rows. broker r = Acked) \<and>
             s' = s\<lparr>outbox := marked (ob_id ` set rows) (clock s) (outbox s)\<rparr>))"
proof (induction rows arbitrary: taken s)
  case Nil
  then show ?case by (auto simp: marked_def)
next
  case (Cons r rows)
  show ?case
  proof (cases "broker r")
    case Acked
    with Cons.prems have rest: "relay_rows broker rows (taken @ [routed r]) (mark_published (ob_id r) s) = (x, taken')"
      by (simp add: topic_for_eq routed_def)
    from Cons.IH [OF this] obtain sent rest where d: "rows = sent @ rest" "taken' = (taken @ [routed r]) @ messages sent"
      and x: "case x of
           Inl e \<Rightarrow> \<exists>r. r \<in> set rows \<and> broker r \<noteq> Acked \<and> e = RelayProducer (ob_id r)
         | Inr s' \<Rightarrow> rest = [] \<and> (\<forall>r\<in>set rows. broker r = Acked) \<and>
             s' = (mark_published (ob_id r) s)\<lparr>outbox := marked (ob_id ` set rows) (clock (mark_published (ob_id r) s))
               (outbox (mark_published (ob_id r) s))\<rparr>" by blast
    have "marked (ob_id ` set rows) (clock s) (outbox (mark_published (ob_id r) s)) =
        marked (ob_id ` set (r # rows)) (clock s) (outbox s)"
      by (auto simp: marked_def mark_published_def update_where_def)
    with d x Acked show ?thesis
      by (intro exI [of _ "r # sent"] exI [of _ rest])
        (auto simp: mark_published_def split: sum.splits)
  next
    case Refused
    with Cons.prems show ?thesis
      by - (rule exI [of _ "[]"], rule exI [of _ "r # rows"], auto simp: topic_for_eq intro!: exI [of _ r])
  next
    case Unacked
    with Cons.prems show ?thesis
      by - (rule exI [of _ "[r]"], rule exI [of _ rows], auto simp: topic_for_eq routed_def intro!: exI [of _ r])
  qed
qed

text \<open>A poll either takes its whole batch or changes nothing in the database.\<close>

lemma relay_once_Inr:
  assumes "relay_once broker skip n s = (Inr k, taken, s')"
  shows "let rows = pending_rows skip n s in
    k = length rows \<and> taken = messages rows \<and> (\<forall>r\<in>set rows. broker r = Acked) \<and>
    s' = release_locks (s\<lparr>outbox := marked (ob_id ` set rows) (clock s) (outbox s)\<rparr>)"
proof -
  obtain x t where run: "relay_rows broker (pending_rows skip n s) [] s = (x, t)"
    by (cases "relay_rows broker (pending_rows skip n s) [] s")
  from relay_rows_effect [OF run] run assms show ?thesis
    by (cases x) (auto simp: relay_once_def Let_def)
qed

lemma relay_once_Inl:
  assumes "relay_once broker skip n s = (Inl e, taken, s')"
  shows "s' = s \<and> (\<exists>sent rest. pending_rows skip n s = sent @ rest \<and> taken = messages sent) \<and>
    (\<exists>r\<in>set (pending_rows skip n s). broker r \<noteq> Acked \<and> e = RelayProducer (ob_id r))"
proof -
  obtain x t where run: "relay_rows broker (pending_rows skip n s) [] s = (x, t)"
    by (cases "relay_rows broker (pending_rows skip n s) [] s")
  from relay_rows_effect [OF run] run assms show ?thesis
    by (cases x) (auto simp: relay_once_def Let_def)
qed

lemma pending_rows_mem: "r \<in> set (pending_rows skip n s) \<Longrightarrow> r \<in> set (outbox s) \<and> ob_published_at r = None"
  unfolding pending_rows_def by (drule in_set_takeD) simp

section \<open>Delivery\<close>

text \<open>
  The platform stages events, polls run, and a relay may die after the broker has taken part of
  its batch and before the commit.
\<close>

definition only_stages :: "db \<Rightarrow> db \<Rightarrow> bool" where
  "only_stages s s' \<longleftrightarrow> next_id s \<le> next_id s' \<and>
     (\<exists>rows. outbox s' = outbox s @ rows \<and> distinct (map ob_id rows) \<and>
        (\<forall>r\<in>set rows. ob_published_at r = None \<and> next_id s \<le> ob_id r \<and> ob_id r < next_id s'))"

inductive relay_step :: "db \<times> Message list \<Rightarrow> db \<times> Message list \<Rightarrow> bool" where
  poll: "relay_once broker skip n s = (x, taken, s') \<Longrightarrow> relay_step (s, sent_log) (s', sent_log @ taken)"
| crash: "relay_once broker skip n s = (x, taken, s') \<Longrightarrow> relay_step (s, sent_log) (s, sent_log @ taken)"
| staging: "only_stages s s' \<Longrightarrow> relay_step (s, sent_log) (s', sent_log)"

definition relay_ok :: "db \<times> Message list \<Rightarrow> bool" where
  "relay_ok c \<longleftrightarrow> (case c of (s, sent_log) \<Rightarrow>
     distinct (map ob_id (outbox s)) \<and> (\<forall>r\<in>set (outbox s). ob_id r < next_id s) \<and>
     (\<forall>r\<in>set (outbox s). ob_published_at r \<noteq> None \<longrightarrow> routed r \<in> set sent_log) \<and>
     set sent_log \<subseteq> routed ` set (outbox s))"

lemma routed_mark [simp]: "routed (r\<lparr>ob_published_at := t\<rparr>) = routed r"
  by (simp add: routed_def message_of_def)

lemma map_marked:
  "map ob_id (marked ids t rows) = map ob_id rows" "map routed (marked ids t rows) = map routed rows"
  by (simp_all add: marked_def)

lemma set_marked: "routed ` set (marked ids t rows) = routed ` set rows"
  by (metis map_marked(2) set_map)

lemma taken_staged:
  assumes "relay_once broker skip n s = (x, taken, s')"
  shows "set taken \<subseteq> routed ` set (outbox s)"
proof (cases x)
  case (Inl e)
  from relay_once_Inl [OF assms [unfolded Inl]] obtain sent rest where
    "pending_rows skip n s = sent @ rest" "taken = messages sent" by blast
  then show ?thesis using pending_rows_mem [of _ skip n s] by auto
next
  case (Inr k)
  from relay_once_Inr [OF assms [unfolded Inr]] have "taken = messages (pending_rows skip n s)" by (simp add: Let_def)
  then show ?thesis using pending_rows_mem [of _ skip n s] by auto
qed

lemma relay_step_ok:
  assumes "relay_step c c'" and "relay_ok c"
  shows "relay_ok c'"
  using assms
proof (cases rule: relay_step.cases)
  case (poll broker skip n s x taken s' sent_log)
  note t = taken_staged [OF poll(3)]
  show ?thesis
  proof (cases x)
    case (Inl e)
    with poll relay_once_Inl [of broker skip n s e taken s'] t assms(2) show ?thesis
      by (auto simp: relay_ok_def)
  next
    case (Inr k)
    let ?rows = "pending_rows skip n s"
    from relay_once_Inr [OF poll(3) [unfolded Inr]] have taken: "taken = messages ?rows"
      and out: "outbox s' = marked (ob_id ` set ?rows) (clock s) (outbox s)" and ni: "next_id s' = next_id s"
      by (simp_all add: Let_def release_locks_def)
    from poll assms(2) have d: "distinct (map ob_id (outbox s))" and ids: "\<forall>r\<in>set (outbox s). ob_id r < next_id s"
      and pub: "\<forall>r\<in>set (outbox s). ob_published_at r \<noteq> None \<longrightarrow> routed r \<in> set sent_log"
      and sub: "set sent_log \<subseteq> routed ` set (outbox s)"
      by (simp_all add: relay_ok_def)
    have same: "r = q" if "r \<in> set (outbox s)" "q \<in> set ?rows" "ob_id r = ob_id q" for r q
      using d that pending_rows_mem [of q skip n s] by (auto simp: distinct_map inj_on_def)
    have "routed r \<in> set (sent_log @ taken)" if r: "r \<in> set (outbox s')" "ob_published_at r \<noteq> None" for r
    proof -
      from r(1) obtain q where q: "q \<in> set (outbox s)"
        "r = (if ob_id q \<in> ob_id ` set ?rows then q\<lparr>ob_published_at := Some (clock s)\<rparr> else q)"
        unfolding out marked_def by auto
      show ?thesis
      proof (cases "ob_id q \<in> ob_id ` set ?rows")
        case True
        then have "q \<in> set ?rows" using same [OF q(1)] by auto
        with True q(2) show ?thesis by (simp add: taken)
      next
        case False
        with q r(2) pub show ?thesis by simp
      qed
    qed
    moreover have "\<forall>r\<in>set (outbox s'). ob_id r < next_id s'"
      using ids ni by (auto simp: out marked_def)
    ultimately show ?thesis using poll d sub t by (auto simp: relay_ok_def out map_marked set_marked)
  qed
next
  case (crash broker skip n s x taken s' sent_log)
  with assms(2) taken_staged [OF crash(3)] show ?thesis by (auto simp: relay_ok_def)
next
  case (staging s s' sent_log)
  then obtain rows where rows: "outbox s' = outbox s @ rows" "distinct (map ob_id rows)" "next_id s \<le> next_id s'"
    "\<And>r. r \<in> set rows \<Longrightarrow> ob_published_at r = None \<and> next_id s \<le> ob_id r \<and> ob_id r < next_id s'"
    unfolding only_stages_def by blast
  from staging assms(2) have old: "\<And>r. r \<in> set (outbox s) \<Longrightarrow> ob_id r < next_id s" by (simp add: relay_ok_def)
  have "ob_id ` set (outbox s) \<inter> ob_id ` set rows = {}" using old rows(4) by fastforce
  then have "distinct (map ob_id (outbox s'))" using rows(1,2) staging assms(2) by (auto simp: relay_ok_def)
  moreover have "\<forall>r\<in>set (outbox s'). ob_id r < next_id s'" using old rows by (auto intro: order_less_le_trans)
  ultimately show ?thesis using staging assms(2) rows by (auto simp: relay_ok_def)
qed

text \<open>Without foreign locks, a poll of an answering broker publishes a full batch.\<close>

abbreviation unpublished :: "db \<Rightarrow> outbox_row list" where
  "unpublished s \<equiv> filter (\<lambda>r. ob_published_at r = None) (outbox s)"

primrec polls :: "(outbox_row \<Rightarrow> ack) \<Rightarrow> nat \<Rightarrow> nat \<Rightarrow> db \<Rightarrow> db" where
  "polls broker n 0 s = s"
| "polls broker n (Suc k) s = polls broker n k (snd (snd (relay_once broker {} n s)))"

lemma filter_marked:
  "filter (\<lambda>r. ob_published_at r = None) (marked ids t rows) =
     filter (\<lambda>r. ob_id r \<notin> ids) (filter (\<lambda>r. ob_published_at r = None) rows)"
  by (induction rows) (simp_all add: marked_def)

lemma distinct_length_diff:
  assumes "distinct (map f xs)" and "distinct ys" and "set ys \<subseteq> set xs"
  shows "length (filter (\<lambda>x. f x \<notin> f ` set ys) xs) = length xs - length ys"
proof -
  have d: "distinct xs" using assms(1) by (simp add: distinct_map)
  have inj: "f x \<in> f ` set ys \<longleftrightarrow> x \<in> set ys" if "x \<in> set xs" for x
    using assms(1,3) that by (auto simp: distinct_map inj_on_def)
  then have "filter (\<lambda>x. f x \<notin> f ` set ys) xs = filter (\<lambda>x. x \<notin> set ys) xs"
    by (intro filter_cong) simp_all
  moreover have "set (filter (\<lambda>x. x \<notin> set ys) xs) = set xs - set ys" by auto
  then have "length (filter (\<lambda>x. x \<notin> set ys) xs) = card (set xs - set ys)"
    using d by (metis distinct_card distinct_filter)
  ultimately show ?thesis
    using d assms(2,3) by (simp add: card_Diff_subset distinct_card)
qed

lemma poll_publishes:
  assumes acks: "\<And>r. broker r = Acked" and d: "distinct (map ob_id (outbox s))"
  shows "length (unpublished (snd (snd (relay_once broker {} n s)))) = length (unpublished s) - n \<and>
    distinct (map ob_id (outbox (snd (snd (relay_once broker {} n s)))))"
proof -
  obtain x taken s' where run: "relay_once broker {} n s = (x, taken, s')" by (cases "relay_once broker {} n s")
  obtain k where "x = Inr k"
    using relay_once_Inl [of broker "{}" n s _ taken s'] run acks by (cases x) auto
  with relay_once_Inr [of broker "{}" n s k taken s'] run
  have out: "outbox s' = marked (ob_id ` set (pending_rows {} n s)) (clock s) (outbox s)"
    by (simp add: Let_def release_locks_def)
  have dm: "distinct (map ob_id (unpublished s))" using d by (simp add: distinct_map_filter)
  then have "distinct (unpublished s)" by (simp add: distinct_map)
  then have p: "distinct (pending_rows {} n s)" "set (pending_rows {} n s) \<subseteq> set (unpublished s)"
    "length (pending_rows {} n s) = min (length (unpublished s)) n"
    by (auto simp: pending_rows_def dest: in_set_takeD)
  have "length (unpublished s') = length (unpublished s) - n"
    unfolding out filter_marked distinct_length_diff [OF dm p(1,2)] p(3) by simp
  with run d show ?thesis by (simp add: out map_marked)
qed

section \<open>Properties\<close>

text \<open>
  C14. No event is lost and none invented. Whatever is staged meanwhile, however the broker answers
  and wherever a relay dies, an event is marked published only after the broker has taken its
  message, under the topic of its aggregate; and every message taken is of a staged event.
\<close>

theorem relay_at_least_once:
  assumes "relay_step\<^sup>*\<^sup>* (s, []) (s', sent_log)" and "outbox s = []"
  shows "(\<forall>r\<in>set (outbox s'). ob_published_at r \<noteq> None \<longrightarrow>
      (\<exists>m\<in>set sent_log. ms_event_id m = ob_id r \<and> ms_event m = ob_payload r \<and>
         Some (ms_topic m) = topic_for (ob_payload r))) \<and>
    (\<forall>m\<in>set sent_log. \<exists>r\<in>set (outbox s'). ms_event_id m = ob_id r \<and> ms_event m = ob_payload r)"
proof -
  have "relay_ok (s, [])" using assms(2) by (simp add: relay_ok_def)
  with assms(1) have "relay_ok (s', sent_log)"
    by (induction rule: rtranclp_induct) (auto intro: relay_step_ok)
  then have pub: "\<forall>r\<in>set (outbox s'). ob_published_at r \<noteq> None \<longrightarrow> routed r \<in> set sent_log"
    and sub: "set sent_log \<subseteq> routed ` set (outbox s')" by (simp_all add: relay_ok_def)
  have sel: "ms_event_id (routed r) = ob_id r" "ms_event (routed r) = ob_payload r"
    "Some (ms_topic (routed r)) = topic_for (ob_payload r)" for r
    by (simp_all add: routed_def message_of_def topic_for_eq)
  show ?thesis
  proof (intro conjI ballI impI)
    fix r assume "r \<in> set (outbox s')" "ob_published_at r \<noteq> None"
    with pub have "routed r \<in> set sent_log" by blast
    with sel show "\<exists>m\<in>set sent_log. ms_event_id m = ob_id r \<and> ms_event m = ob_payload r \<and>
         Some (ms_topic m) = topic_for (ob_payload r)" by (intro bexI [of _ "routed r"]) simp_all
  next
    fix m assume "m \<in> set sent_log"
    with sub obtain r where "r \<in> set (outbox s')" "m = routed r" by blast
    with sel show "\<exists>r\<in>set (outbox s'). ms_event_id m = ob_id r \<and> ms_event m = ob_payload r"
      by (intro bexI [of _ r]) simp_all
  qed
qed

text \<open>
  With a broker that answers, every staged event is published: as many polls as there are
  batches of pending events leave none pending.
\<close>

theorem relay_drains:
  assumes "\<And>r. broker r = Acked" and "distinct (map ob_id (outbox s))" and "length (unpublished s) \<le> k * n"
  shows "unpublished (polls broker n k s) = []"
  using assms(2,3)
proof (induction k arbitrary: s)
  case (Suc k)
  note p = poll_publishes [where n = n, OF assms(1) Suc.prems(1)]
  have "length (unpublished (snd (snd (relay_once broker {} n s)))) \<le> k * n" using p Suc.prems(2) by simp
  with Suc.IH p show ?case by simp
qed simp

text \<open>
  One event the broker does not acknowledge holds up everything behind it: the poll fails, marks
  nothing, not even the events of the batch the broker took before it, and so the next poll
  starts with the same batch again.
\<close>

theorem unacknowledged_event_blocks_batch:
  assumes "r \<in> set (pending_rows skip n s)" and "broker r \<noteq> Acked"
  shows "\<exists>e taken. relay_once broker skip n s = (Inl e, taken, s) \<and> (\<exists>rest. messages (pending_rows skip n s) = taken @ rest)"
proof -
  obtain x taken s' where run: "relay_once broker skip n s = (x, taken, s')" by (cases "relay_once broker skip n s")
  obtain e where x: "x = Inl e"
    using relay_once_Inr [of broker skip n s _ taken s'] run assms by (cases x) (auto simp: Let_def)
  from relay_once_Inl [OF run [unfolded x]] obtain sent rest where
    "s' = s" "pending_rows skip n s = sent @ rest" "taken = messages sent" by blast
  with run x show ?thesis by auto
qed

section \<open>Witnesses\<close>

definition relay_demo :: db where
  "relay_demo = empty_db\<lparr>next_id := 10, clock := 60,
     outbox := [outbox_row_of (StakeClosed 1 2 ''0'') 3 50, outbox_row_of (StakeClosed 4 2 ''1'') 5 40]\<rparr>"

theorem relay_drains_witness:
  "unpublished (polls (\<lambda>_. Acked) 1 2 relay_demo) = []"
  by (rule relay_drains) (simp_all add: relay_demo_def empty_db_def outbox_row_of_def)

theorem relay_at_least_once_witness:
  "\<exists>s' sent_log. relay_step\<^sup>*\<^sup>* (empty_db, []) (s', sent_log) \<and> length (outbox s') = 1 \<and>
     set (map ms_event sent_log) \<subseteq> set (map ob_payload (outbox s'))"
proof -
  let ?s = "staged (StakeClosed 1 2 ''0'') empty_db"
  obtain x taken s' where run: "relay_once (\<lambda>_. Acked) {} 5 ?s = (x, taken, s')"
    by (cases "relay_once (\<lambda>_. Acked) {} 5 ?s")
  have "only_stages empty_db ?s"
    by (auto simp: only_stages_def staged_def outbox_row_of_def empty_db_def)
  from relay_step.staging [OF this] have 1: "relay_step (empty_db, []) (?s, [])" .
  have 2: "relay_step (?s, []) (s', taken)" using relay_step.poll [OF run, of "[]"] by simp
  have steps: "relay_step\<^sup>*\<^sup>* (empty_db, []) (s', taken)"
    by (rule converse_rtranclp_into_rtranclp [OF 1 r_into_rtranclp [where r = relay_step, OF 2]])
  have "length (outbox s') = 1"
  proof (cases x)
    case (Inl e)
    with relay_once_Inl [of "\<lambda>_. Acked" "{}" 5 ?s e taken s'] run show ?thesis by simp
  next
    case (Inr k)
    with relay_once_Inr [of "\<lambda>_. Acked" "{}" 5 ?s k taken s'] run show ?thesis
      by (simp add: Let_def release_locks_def marked_def staged_def empty_db_def)
  qed
  moreover have "outbox empty_db = []" by (simp add: empty_db_def)
  note relay_at_least_once [OF steps this]
  then have "set (map ms_event taken) \<subseteq> set (map ob_payload (outbox s'))" by fastforce
  ultimately show ?thesis using steps by blast
qed

theorem unacknowledged_event_blocks_batch_witness:
  "\<exists>e taken. relay_once (\<lambda>r. if ob_id r = 3 then Refused else Acked) {} 5 relay_demo = (Inl e, taken, relay_demo)"
proof -
  have "outbox_row_of (StakeClosed 1 2 ''0'') 3 50 \<in> set (pending_rows {} 5 relay_demo)"
    by (simp add: pending_rows_def relay_demo_def empty_db_def outbox_row_of_def)
  from unacknowledged_event_blocks_batch [OF this, of "\<lambda>r. if ob_id r = 3 then Refused else Acked"]
  show ?thesis by (auto simp: outbox_row_of_def)
qed

end
