(* ===== verification/LendService.thy ===== *)
theory LendService
  imports House Pricing LendMath AuditLog
begin

text \<open>
  \<open>crates/db/src/lend.rs\<close>: reserves and their interest, positions, supply, withdraw, borrow,
  repay and liquidate, each one transaction, and the reads. \<open>u128\<close> products and sums wrap as in
  a release build; an \<open>expect\<close> that fails unwinds the request, which rolls the transaction back:
  \<open>LendPanic\<close>. The rates of Aave are an argument of the market listing.
\<close>

section \<open>Reserves\<close>

datatype LendError =
  LendDb db_error
| LendHouse HouseError
| LendPricing PricingDbError
| LendInvalidAmount
| LendWalletNotFound
| BorrowDisabled Coin
| LendInsufficientLiquidity
| NoSupply
| NoDebt
| UnsafeWithdraw
| InsufficientCollateral
| SelfLiquidation
| NoBorrowerDebt
| NoSeizableCollateral
| PositionHealthy
| LiquidationTooSmall
| LendPanic

record ReserveState =
  liquidity_index :: nat
  borrow_index :: nat

definition lend_ledger_error :: "LedgerError \<Rightarrow> LendError" where
  "lend_ledger_error e = LendDb (Protocol (ledger_error_str e))"

definition lend_value_usd :: "PriceTable \<Rightarrow> Coin \<Rightarrow> nat \<Rightarrow> nat" where
  "lend_value_usd prices coin amount = value_usd prices coin amount (decimals (coin_config coin))"

definition find_reserve :: "db \<Rightarrow> Coin \<Rightarrow> reserve_row option" where
  "find_reserve s coin = List.find (\<lambda>r. rs_coin r = coin) (reserves s)"

definition fresh_reserve :: "Coin \<Rightarrow> int \<Rightarrow> reserve_row" where
  "fresh_reserve coin ts =
     \<lparr>rs_coin = coin, rs_liquidity_index = int RAY, rs_borrow_index = int RAY,
      rs_total_scaled_supply = 0, rs_total_scaled_debt = 0, rs_last_accrued_at = ts\<rparr>"

definition ensure_lend_reserve :: "Coin \<Rightarrow> (LendError, unit) op" where
  "ensure_lend_reserve coin = tx_modify (\<lambda>s.
     if find_reserve s coin \<noteq> None then s else s\<lparr>reserves := reserves s @ [fresh_reserve coin (clock s)]\<rparr>)"

definition ensure_lend_reserves :: "db \<Rightarrow> (LendError + unit) \<times> db" where
  "ensure_lend_reserves = commit_tx release_locks (tx_for_each ensure_lend_reserve COINS)"

definition update_reserve :: "Coin \<Rightarrow> (reserve_row \<Rightarrow> reserve_row) \<Rightarrow> (LendError, unit) op" where
  "update_reserve coin f =
     tx_modify (\<lambda>s. s\<lparr>reserves := update_where (\<lambda>r. rs_coin r = coin) f (reserves s)\<rparr>)"

definition reserve_state :: "reserve_row \<Rightarrow> ReserveState" where
  "reserve_state r = \<lparr>liquidity_index = dec_to_u128_or RAY (rs_liquidity_index r),
     borrow_index = dec_to_u128_or RAY (rs_borrow_index r)\<rparr>"

text \<open>\<open>num_milliseconds\<close> truncates towards zero; the clock is in microseconds.\<close>

definition num_milliseconds :: "int \<Rightarrow> int" where
  "num_milliseconds d = (if 0 \<le> d then d div 1000 else - (- d div 1000))"

definition lock_reserve :: "Coin \<Rightarrow> (LendError, reserve_row) op" where
  "lock_reserve coin =
     tx_bind (tx_gets (\<lambda>s. find_reserve s coin)) (\<lambda>row.
     case row of
       Some r \<Rightarrow> tx_bind (take_lock (ReserveLock coin)) (\<lambda>_. tx_return r)
     | None \<Rightarrow>
         tx_bind now (\<lambda>ts.
         tx_bind (tx_modify (\<lambda>s. s\<lparr>reserves := reserves s @ [fresh_reserve coin ts]\<rparr>)) (\<lambda>_.
         tx_return (fresh_reserve coin ts))))"

text \<open>The new indexes, from the debt, the cash of the pool and the time since the last accrual.\<close>

definition accrued ::
    "LendMarket \<Rightarrow> ReserveState \<Rightarrow> nat \<Rightarrow> nat \<Rightarrow> int \<Rightarrow> ReserveState option" where
  "accrued market idx total_scaled_debt available elapsed_ms =
     (case scaled_to_amount total_scaled_debt (borrow_index idx) of
        None \<Rightarrow> None
      | Some real_debt \<Rightarrow>
          let util_bps = calc_utilization_bps real_debt available;
              borrow_rate_bps = calc_borrow_rate_bps util_bps market;
              supply_rate_bps = calc_supply_rate_bps borrow_rate_bps util_bps (reserve_factor_bps market)
          in case accrue_index (borrow_index idx) borrow_rate_bps elapsed_ms of
               None \<Rightarrow> None
             | Some new_borrow \<Rightarrow>
                 (case accrue_index (liquidity_index idx) supply_rate_bps elapsed_ms of
                    None \<Rightarrow> None
                  | Some new_liquidity \<Rightarrow>
                      Some \<lparr>liquidity_index = new_liquidity, borrow_index = new_borrow\<rparr>))"

definition accrue :: "Coin \<Rightarrow> (LendError, ReserveState) op" where
  "accrue coin =
     tx_bind (lock_reserve coin) (\<lambda>row.
     tx_bind now (\<lambda>ts.
     tx_bind (tx_map_err LendHouse (get_lend_pool_wallet_id coin)) (\<lambda>pool_id.
     tx_bind (tx_map_err lend_ledger_error (get_wallet_balance pool_id)) (\<lambda>available.
     tx_bind (tx_ok_or LendPanic (accrued (lend_market coin) (reserve_state row)
       (dec_to_u128_or 0 (rs_total_scaled_debt row)) (dec_to_u128_or 0 available)
       (num_milliseconds (ts - rs_last_accrued_at row)))) (\<lambda>idx.
     tx_bind (update_reserve coin (\<lambda>r. r\<lparr>rs_liquidity_index := int (liquidity_index idx),
       rs_borrow_index := int (borrow_index idx), rs_last_accrued_at := ts\<rparr>)) (\<lambda>_.
     tx_return idx))))))"

definition get_user_wallet_id :: "uuid \<Rightarrow> Coin \<Rightarrow> (LendError, uuid) op" where
  "get_user_wallet_id user coin =
     tx_bind (select_wallet user coin PERSONAL) (\<lambda>w. tx_ok_or LendWalletNotFound w)"

section \<open>Positions\<close>

record Position =
  ps_id :: uuid
  scaled_supply :: nat
  scaled_debt :: nat
  use_as_collateral :: bool

definition find_position :: "db \<Rightarrow> uuid \<Rightarrow> Coin \<Rightarrow> position_row option" where
  "find_position s user coin = List.find (\<lambda>r. po_user r = user \<and> po_coin r = coin) (positions s)"

definition position_of :: "position_row \<Rightarrow> Position" where
  "position_of r = \<lparr>ps_id = po_id r, scaled_supply = dec_to_u128_or 0 (po_scaled_supply r),
     scaled_debt = dec_to_u128_or 0 (po_scaled_debt r), use_as_collateral = po_use_as_collateral r\<rparr>"

definition fresh_position :: "uuid \<Rightarrow> uuid \<Rightarrow> Coin \<Rightarrow> position_row" where
  "fresh_position pid user coin =
     \<lparr>po_id = pid, po_user = user, po_coin = coin, po_scaled_supply = 0, po_scaled_debt = 0,
      po_use_as_collateral = True\<rparr>"

definition get_or_create_position :: "uuid \<Rightarrow> Coin \<Rightarrow> (LendError, Position) op" where
  "get_or_create_position user coin =
     tx_bind (tx_gets (\<lambda>s. find_position s user coin)) (\<lambda>row.
     case row of
       Some r \<Rightarrow> tx_return (position_of r)
     | None \<Rightarrow>
         tx_bind (tx_map_err LendDb (check_user_fk ''lend_positions'' user)) (\<lambda>_.
         tx_bind fresh_uuid (\<lambda>pid.
         tx_bind (tx_modify (\<lambda>s. s\<lparr>positions := positions s @ [fresh_position pid user coin]\<rparr>)) (\<lambda>_.
         tx_return \<lparr>ps_id = pid, scaled_supply = 0, scaled_debt = 0, use_as_collateral = True\<rparr>))))"

definition update_position :: "uuid \<Rightarrow> (position_row \<Rightarrow> position_row) \<Rightarrow> (LendError, unit) op" where
  "update_position pid f =
     tx_modify (\<lambda>s. s\<lparr>positions := update_where (\<lambda>r. po_id r = pid) f (positions s)\<rparr>)"

text \<open>
  One row of the health check adds to the collateral that counts for liquidation, to the
  borrow power and to the debt.
\<close>

definition row_liquidity ::
    "PriceTable \<Rightarrow> ReserveState \<Rightarrow> position_row \<Rightarrow> nat \<times> nat \<times> nat \<Rightarrow> (nat \<times> nat \<times> nat) option" where
  "row_liquidity prices idx r totals =
     (case totals of (liq_collateral, borrow_power, debt_usd) \<Rightarrow>
        let coin = po_coin r; market = lend_market coin;
            supply = dec_to_u128_or 0 (po_scaled_supply r); debt = dec_to_u128_or 0 (po_scaled_debt r) in
        case (if 0 < supply \<and> po_use_as_collateral r \<and> can_be_collateral market
              then map_option (\<lambda>supply_real.
                let usd = lend_value_usd prices coin supply_real in
                (u128_add liq_collateral (u128_mul usd (liquidation_threshold_bps market) div 10000),
                 u128_add borrow_power (u128_mul usd (collateral_factor_bps market) div 10000)))
                (scaled_to_amount supply (liquidity_index idx))
              else Some (liq_collateral, borrow_power)) of
          None \<Rightarrow> None
        | Some (liq_collateral, borrow_power) \<Rightarrow>
            if 0 < debt then
              map_option (\<lambda>debt_real. (liq_collateral, borrow_power,
                u128_add debt_usd (lend_value_usd prices coin debt_real)))
                (scaled_to_amount debt (borrow_index idx))
            else Some (liq_collateral, borrow_power, debt_usd))"

definition index_for :: "db \<Rightarrow> (Coin \<times> ReserveState) list \<Rightarrow> Coin \<Rightarrow> ReserveState" where
  "index_for s fresh coin =
     (case List.find (\<lambda>(c, _). c = coin) fresh of
        Some (_, r) \<Rightarrow> r
      | None \<Rightarrow>
          (case find_reserve s coin of
             Some r \<Rightarrow> reserve_state r
           | None \<Rightarrow> \<lparr>liquidity_index = RAY, borrow_index = RAY\<rparr>))"

fun sum_liquidity ::
    "PriceTable \<Rightarrow> (Coin \<Rightarrow> ReserveState) \<Rightarrow> position_row list \<Rightarrow> nat \<times> nat \<times> nat \<Rightarrow> (nat \<times> nat \<times> nat) option" where
  "sum_liquidity prices idx [] totals = Some totals"
| "sum_liquidity prices idx (r # rows) totals =
     (case row_liquidity prices (idx (po_coin r)) r totals of
        None \<Rightarrow> None
      | Some totals' \<Rightarrow> sum_liquidity prices idx rows totals')"

definition account_liquidity ::
    "db \<Rightarrow> uuid \<Rightarrow> (Coin \<times> ReserveState) list \<Rightarrow> PriceTable \<Rightarrow> (nat \<times> nat \<times> nat) option" where
  "account_liquidity s user fresh prices =
     sum_liquidity prices (index_for s fresh) (filter (\<lambda>r. po_user r = user) (positions s)) (0, 0, 0)"

definition compute_account_liquidity ::
    "uuid \<Rightarrow> (Coin \<times> ReserveState) list \<Rightarrow> PriceTable \<Rightarrow> (LendError, nat \<times> nat \<times> nat) op" where
  "compute_account_liquidity user fresh prices =
     tx_bind (tx_gets (\<lambda>s. account_liquidity s user fresh prices)) (tx_ok_or LendPanic)"

section \<open>Ledger moves\<close>

definition lend_leg :: "uuid \<Rightarrow> int \<Rightarrow> ledger_type \<Rightarrow> string \<Rightarrow> string \<Rightarrow> LedgerCreditInput" where
  "lend_leg wid amount ty ref memo =
     \<lparr>in_wallet_id = wid, in_amount = amount, in_type = ty, in_reference_id = None,
      in_reference_type = Some ''LendPosition'', in_reference_key = Some ref, in_memo = Some memo\<rparr>"

definition ledger_move ::
    "uuid \<Rightarrow> uuid \<Rightarrow> nat \<Rightarrow> ledger_type \<Rightarrow> string \<Rightarrow> string \<Rightarrow> string \<Rightarrow> (LendError, unit) op" where
  "ledger_move from_wallet to_wallet amount ty ref memo_out memo_in =
     tx_bind (tx_map_err lend_ledger_error
       (apply_ledger_entry (lend_leg from_wallet (- int amount) ty ref memo_out))) (\<lambda>_.
     tx_bind (tx_map_err lend_ledger_error
       (apply_ledger_entry (lend_leg to_wallet (int amount) ty ref memo_in))) (\<lambda>_.
     tx_return ()))"

definition lend_reference :: "uuid \<Rightarrow> Coin \<Rightarrow> string" where
  "lend_reference user coin = show_uuid user @ '':'' @ coin_str coin"

text \<open>The wallets of an operation, in the order it looks them up, and their locks.\<close>

definition lend_wallets :: "uuid \<Rightarrow> Coin \<Rightarrow> (LendError, uuid \<times> uuid) op" where
  "lend_wallets user coin =
     tx_bind (get_user_wallet_id user coin) (\<lambda>wallet_id.
     tx_bind (tx_map_err LendHouse (get_lend_pool_wallet_id coin)) (\<lambda>pool_id.
     tx_bind (tx_map_err lend_ledger_error (lock_wallets [wallet_id, pool_id])) (\<lambda>_.
     tx_return (wallet_id, pool_id))))"

definition pool_cash :: "uuid \<Rightarrow> (LendError, nat) op" where
  "pool_cash pool_id =
     tx_bind (tx_map_err lend_ledger_error (get_wallet_balance pool_id)) (\<lambda>b. tx_return (dec_to_u128_or 0 b))"

section \<open>Supply and withdraw\<close>

text \<open>\<open>UPDATE \<dots> SET column = column + $2\<close> overflows when the sum of a row does.\<close>

definition add_supply :: "uuid \<Rightarrow> Coin \<Rightarrow> nat \<Rightarrow> (LendError, unit) op" where
  "add_supply pid coin scaled =
     tx_bind (tx_gets (\<lambda>s. \<forall>r\<in>set (positions s). po_id r = pid \<longrightarrow> fits_numeric (po_scaled_supply r + int scaled)))
       (\<lambda>fits. tx_bind (tx_assert fits (LendDb NumericOverflow)) (\<lambda>_.
     tx_bind (update_position pid (\<lambda>r. r\<lparr>po_scaled_supply := po_scaled_supply r + int scaled\<rparr>)) (\<lambda>_.
     tx_bind (tx_gets (\<lambda>s. \<forall>r\<in>set (reserves s). rs_coin r = coin \<longrightarrow> fits_numeric (rs_total_scaled_supply r + int scaled)))
       (\<lambda>fits. tx_bind (tx_assert fits (LendDb NumericOverflow)) (\<lambda>_.
     update_reserve coin (\<lambda>r. r\<lparr>rs_total_scaled_supply := rs_total_scaled_supply r + int scaled\<rparr>))))))"

definition supply_tx :: "uuid \<Rightarrow> Coin \<Rightarrow> nat \<Rightarrow> (LendError, nat) op" where
  "supply_tx user coin amount =
     tx_bind (tx_assert (amount \<noteq> 0) LendInvalidAmount) (\<lambda>_.
     tx_bind (accrue coin) (\<lambda>idx.
     tx_bind (lend_wallets user coin) (\<lambda>(wallet_id, pool_id).
     tx_bind (ledger_move wallet_id pool_id amount LEND_SUPPLY (lend_reference user coin)
       (''Supply '' @ coin_str coin) (''Supply intake '' @ coin_str coin)) (\<lambda>_.
     tx_bind (tx_ok_or LendPanic (amount_to_scaled amount (liquidity_index idx))) (\<lambda>scaled.
     tx_bind (get_or_create_position user coin) (\<lambda>position.
     tx_bind (add_supply (ps_id position) coin scaled) (\<lambda>_.
     tx_return amount)))))))"

definition lend_supply :: "uuid \<Rightarrow> Coin \<Rightarrow> nat \<Rightarrow> db \<Rightarrow> (LendError + nat) \<times> db" where
  "lend_supply user coin amount = commit_tx release_locks (supply_tx user coin amount)"

definition set_supply :: "uuid \<Rightarrow> Coin \<Rightarrow> nat \<Rightarrow> nat \<Rightarrow> (LendError, unit) op" where
  "set_supply pid coin new_scaled removed =
     tx_bind (update_position pid (\<lambda>r. r\<lparr>po_scaled_supply := int new_scaled\<rparr>)) (\<lambda>_.
     update_reserve coin (\<lambda>r. r\<lparr>rs_total_scaled_supply := max (rs_total_scaled_supply r - int removed) 0\<rparr>))"

text \<open>Taking out collateral must leave the liquidation collateral at or above the debt.\<close>

definition withdraw_safe ::
    "PriceTable \<Rightarrow> Coin \<Rightarrow> Position \<Rightarrow> nat \<Rightarrow> nat \<times> nat \<times> nat \<Rightarrow> bool" where
  "withdraw_safe prices coin position out totals =
     (case totals of (liq_collateral, _, debt_usd) \<Rightarrow>
        if use_as_collateral position \<and> can_be_collateral (lend_market coin) \<and> 0 < debt_usd
        then let removed_usd = lend_value_usd prices coin out;
                 removed_liq = u128_mul removed_usd (liquidation_threshold_bps (lend_market coin)) div 10000
             in \<not> liq_collateral - removed_liq < debt_usd
        else True)"

definition withdraw_tx :: "uuid \<Rightarrow> Coin \<Rightarrow> nat \<Rightarrow> int \<Rightarrow> (LendError, nat) op" where
  "withdraw_tx user coin amount max_stale =
     tx_bind (tx_assert (amount \<noteq> 0) LendInvalidAmount) (\<lambda>_.
     tx_bind (accrue coin) (\<lambda>idx.
     tx_bind (tx_map_err LendPricing (load_price_table max_stale)) (\<lambda>prices.
     tx_bind (lend_wallets user coin) (\<lambda>(wallet_id, pool_id).
     tx_bind (get_or_create_position user coin) (\<lambda>position.
     tx_bind (tx_assert (scaled_supply position \<noteq> 0) NoSupply) (\<lambda>_.
     tx_bind (tx_ok_or LendPanic (scaled_to_amount (scaled_supply position) (liquidity_index idx))) (\<lambda>supply_real.
     let out = min amount supply_real in
     tx_bind (pool_cash pool_id) (\<lambda>available.
     tx_bind (tx_assert (out \<le> available) LendInsufficientLiquidity) (\<lambda>_.
     tx_bind (compute_account_liquidity user [(coin, idx)] prices) (\<lambda>totals.
     tx_bind (tx_assert (withdraw_safe prices coin position out totals) UnsafeWithdraw) (\<lambda>_.
     tx_bind (ledger_move pool_id wallet_id out LEND_WITHDRAW (lend_reference user coin)
       (''Withdraw payout '' @ coin_str coin) (''Withdraw '' @ coin_str coin @ '' (incl. interest)'')) (\<lambda>_.
     tx_bind (tx_ok_or LendPanic (amount_to_scaled out (liquidity_index idx))) (\<lambda>scaled_out.
     tx_bind (set_supply (ps_id position) coin (scaled_supply position - scaled_out) scaled_out) (\<lambda>_.
     tx_return out))))))))))))))"

definition lend_withdraw :: "uuid \<Rightarrow> Coin \<Rightarrow> nat \<Rightarrow> int \<Rightarrow> db \<Rightarrow> (LendError + nat) \<times> db" where
  "lend_withdraw user coin amount max_stale = commit_tx release_locks (withdraw_tx user coin amount max_stale)"

section \<open>Borrow and repay\<close>

definition add_debt :: "uuid \<Rightarrow> Coin \<Rightarrow> nat \<Rightarrow> (LendError, unit) op" where
  "add_debt pid coin scaled =
     tx_bind (tx_gets (\<lambda>s. \<forall>r\<in>set (positions s). po_id r = pid \<longrightarrow> fits_numeric (po_scaled_debt r + int scaled)))
       (\<lambda>fits. tx_bind (tx_assert fits (LendDb NumericOverflow)) (\<lambda>_.
     tx_bind (update_position pid (\<lambda>r. r\<lparr>po_scaled_debt := po_scaled_debt r + int scaled\<rparr>)) (\<lambda>_.
     tx_bind (tx_gets (\<lambda>s. \<forall>r\<in>set (reserves s). rs_coin r = coin \<longrightarrow> fits_numeric (rs_total_scaled_debt r + int scaled)))
       (\<lambda>fits. tx_bind (tx_assert fits (LendDb NumericOverflow)) (\<lambda>_.
     update_reserve coin (\<lambda>r. r\<lparr>rs_total_scaled_debt := rs_total_scaled_debt r + int scaled\<rparr>))))))"

definition borrow_tx :: "uuid \<Rightarrow> Coin \<Rightarrow> nat \<Rightarrow> int \<Rightarrow> (LendError, nat) op" where
  "borrow_tx user coin amount max_stale =
     tx_bind (tx_assert (amount \<noteq> 0) LendInvalidAmount) (\<lambda>_.
     tx_bind (tx_assert (borrow_enabled (lend_market coin)) (BorrowDisabled coin)) (\<lambda>_.
     tx_bind (accrue coin) (\<lambda>idx.
     tx_bind (tx_map_err LendPricing (load_price_table max_stale)) (\<lambda>prices.
     tx_bind (lend_wallets user coin) (\<lambda>(wallet_id, pool_id).
     tx_bind (pool_cash pool_id) (\<lambda>available.
     tx_bind (tx_assert (amount \<le> available) LendInsufficientLiquidity) (\<lambda>_.
     tx_bind (compute_account_liquidity user [(coin, idx)] prices) (\<lambda>(_, borrow_power, debt_usd).
     tx_bind (tx_assert (u128_add debt_usd (lend_value_usd prices coin amount) \<le> borrow_power)
       InsufficientCollateral) (\<lambda>_.
     tx_bind (ledger_move pool_id wallet_id amount LEND_BORROW (lend_reference user coin)
       (''Borrow disbursement '' @ coin_str coin) (''Borrow '' @ coin_str coin)) (\<lambda>_.
     tx_bind (tx_ok_or LendPanic (amount_to_scaled amount (borrow_index idx))) (\<lambda>scaled.
     tx_bind (get_or_create_position user coin) (\<lambda>position.
     tx_bind (add_debt (ps_id position) coin scaled) (\<lambda>_.
     tx_return amount)))))))))))))"

definition lend_borrow :: "uuid \<Rightarrow> Coin \<Rightarrow> nat \<Rightarrow> int \<Rightarrow> db \<Rightarrow> (LendError + nat) \<times> db" where
  "lend_borrow user coin amount max_stale = commit_tx release_locks (borrow_tx user coin amount max_stale)"

definition set_debt :: "uuid \<Rightarrow> Coin \<Rightarrow> nat \<Rightarrow> nat \<Rightarrow> (LendError, unit) op" where
  "set_debt pid coin new_scaled removed =
     tx_bind (update_position pid (\<lambda>r. r\<lparr>po_scaled_debt := int new_scaled\<rparr>)) (\<lambda>_.
     update_reserve coin (\<lambda>r. r\<lparr>rs_total_scaled_debt := max (rs_total_scaled_debt r - int removed) 0\<rparr>))"

definition repay_tx :: "uuid \<Rightarrow> Coin \<Rightarrow> nat \<Rightarrow> (LendError, nat) op" where
  "repay_tx user coin amount =
     tx_bind (tx_assert (amount \<noteq> 0) LendInvalidAmount) (\<lambda>_.
     tx_bind (accrue coin) (\<lambda>idx.
     tx_bind (lend_wallets user coin) (\<lambda>(wallet_id, pool_id).
     tx_bind (get_or_create_position user coin) (\<lambda>position.
     tx_bind (tx_assert (scaled_debt position \<noteq> 0) NoDebt) (\<lambda>_.
     tx_bind (tx_ok_or LendPanic (scaled_to_amount (scaled_debt position) (borrow_index idx))) (\<lambda>debt_real.
     let pay = min amount debt_real in
     tx_bind (ledger_move wallet_id pool_id pay LEND_REPAY (lend_reference user coin)
       (''Repay '' @ coin_str coin @ '' (incl. interest)'') (''Repay intake '' @ coin_str coin)) (\<lambda>_.
     tx_bind (tx_ok_or LendPanic (amount_to_scaled pay (borrow_index idx))) (\<lambda>scaled_paid.
     tx_bind (set_debt (ps_id position) coin (scaled_debt position - scaled_paid) scaled_paid) (\<lambda>_.
     tx_return pay)))))))))"

definition lend_repay :: "uuid \<Rightarrow> Coin \<Rightarrow> nat \<Rightarrow> db \<Rightarrow> (LendError + nat) \<times> db" where
  "lend_repay user coin amount = commit_tx release_locks (repay_tx user coin amount)"

section \<open>Liquidation\<close>

definition usd_to_amount :: "PriceTable \<Rightarrow> Coin \<Rightarrow> nat \<Rightarrow> nat" where
  "usd_to_amount prices coin usd_scaled =
     (let price = price_scaled prices coin
      in if price = 0 then 0
         else to_u128_or_max (usd_scaled * 10 ^ decimals (coin_config coin) div price))"

record LiquidationResult =
  lq_borrower_id :: uuid
  lq_debt_coin :: Coin
  lq_collateral_coin :: Coin
  lq_repaid :: nat
  lq_seized :: nat

text \<open>
  How much is repaid and seized: at most the close factor of the debt, worth the bonus more in
  collateral, and with too little collateral all of it for a repayment scaled down.
\<close>

definition liquidation_amounts ::
    "PriceTable \<Rightarrow> Coin \<Rightarrow> Coin \<Rightarrow> nat \<Rightarrow> nat \<Rightarrow> nat \<Rightarrow> nat \<Rightarrow> nat \<times> nat" where
  "liquidation_amounts prices debt_coin collateral_coin amount close_factor_bps debt_real coll_real =
     (let bonus = liquidation_bonus_bps (lend_market collateral_coin);
          max_close = u128_mul debt_real close_factor_bps div 10000;
          repay = min amount max_close;
          repay_usd = lend_value_usd prices debt_coin repay;
          seize_usd = u128_mul repay_usd (10000 + bonus) div 10000;
          seize = usd_to_amount prices collateral_coin seize_usd
      in if coll_real < seize then
           let capped_repay_usd = u128_mul (lend_value_usd prices collateral_coin coll_real) 10000 div (10000 + bonus)
           in (usd_to_amount prices debt_coin capped_repay_usd, coll_real)
         else (repay, seize))"

definition liquidate_moves ::
    "uuid \<Rightarrow> uuid \<Rightarrow> Coin \<Rightarrow> Coin \<Rightarrow> nat \<Rightarrow> nat \<Rightarrow> (LendError, unit) op" where
  "liquidate_moves liquidator borrower debt_coin collateral_coin repay seize =
     tx_bind (get_user_wallet_id liquidator debt_coin) (\<lambda>liq_debt_wallet.
     tx_bind (get_user_wallet_id liquidator collateral_coin) (\<lambda>liq_coll_wallet.
     tx_bind (tx_map_err LendHouse (get_lend_pool_wallet_id debt_coin)) (\<lambda>pool_debt.
     tx_bind (tx_map_err LendHouse (get_lend_pool_wallet_id collateral_coin)) (\<lambda>pool_coll.
     tx_bind (tx_map_err lend_ledger_error
       (lock_wallets [liq_debt_wallet, liq_coll_wallet, pool_debt, pool_coll])) (\<lambda>_.
     tx_bind (ledger_move liq_debt_wallet pool_debt repay LIQUIDATION (lend_reference borrower debt_coin)
       (''Liquidation repay '' @ coin_str debt_coin @ '' for '' @ take 8 (show_uuid borrower) @ utf8_ellipsis)
       (''Liquidation repay intake '' @ coin_str debt_coin)) (\<lambda>_.
     ledger_move pool_coll liq_coll_wallet seize LIQUIDATION (lend_reference borrower collateral_coin)
       (''Liquidation collateral release '' @ coin_str collateral_coin)
       (''Liquidation collateral seized '' @ coin_str collateral_coin @ '' (incl. bonus)'')))))))"

definition liquidation_log ::
    "uuid \<Rightarrow> uuid \<Rightarrow> Coin \<Rightarrow> Coin \<Rightarrow> nat \<Rightarrow> nat \<Rightarrow> (LendError, uuid) op" where
  "liquidation_log liquidator borrower debt_coin collateral_coin repay seize =
     tx_map_err LendDb (record_log (Some liquidator) ''LEND_LIQUIDATE'' ''LendPosition'' (Some borrower) None
       (Some (json_object [(''collateralCoin'', json_text (coin_str collateral_coin)),
          (''debtCoin'', json_text (coin_str debt_coin)), (''repaid'', json_text (show_nat repay)),
          (''seized'', json_text (show_nat seize))])))"

definition liquidate_tx ::
    "uuid \<Rightarrow> uuid \<Rightarrow> Coin \<Rightarrow> Coin \<Rightarrow> nat \<Rightarrow> nat \<Rightarrow> int \<Rightarrow> (LendError, LiquidationResult) op" where
  "liquidate_tx liquidator borrower debt_coin collateral_coin amount close_factor_bps max_stale =
     tx_bind (tx_assert (amount \<noteq> 0) LendInvalidAmount) (\<lambda>_.
     tx_bind (tx_assert (liquidator \<noteq> borrower) SelfLiquidation) (\<lambda>_.
     tx_bind (tx_map_err LendPricing (load_price_table max_stale)) (\<lambda>prices.
     tx_bind (accrue debt_coin) (\<lambda>idx_debt.
     tx_bind (if collateral_coin = debt_coin then tx_return idx_debt else accrue collateral_coin) (\<lambda>idx_coll.
     tx_bind (get_or_create_position borrower debt_coin) (\<lambda>debt_position.
     tx_bind (tx_assert (scaled_debt debt_position \<noteq> 0) NoBorrowerDebt) (\<lambda>_.
     tx_bind (get_or_create_position borrower collateral_coin) (\<lambda>coll_position.
     tx_bind (tx_assert (scaled_supply coll_position \<noteq> 0 \<and> use_as_collateral coll_position \<and>
       can_be_collateral (lend_market collateral_coin)) NoSeizableCollateral) (\<lambda>_.
     let fresh = (if collateral_coin = debt_coin then [(debt_coin, idx_debt)]
       else [(debt_coin, idx_debt), (collateral_coin, idx_coll)]) in
     tx_bind (compute_account_liquidity borrower fresh prices) (\<lambda>(liq_collateral, _, debt_usd).
     tx_bind (tx_assert (0 < debt_usd \<and> liq_collateral < debt_usd) PositionHealthy) (\<lambda>_.
     tx_bind (tx_ok_or LendPanic (scaled_to_amount (scaled_debt debt_position) (borrow_index idx_debt))) (\<lambda>debt_real.
     tx_bind (tx_ok_or LendPanic (scaled_to_amount (scaled_supply coll_position) (liquidity_index idx_coll))) (\<lambda>coll_real.
     case liquidation_amounts prices debt_coin collateral_coin amount close_factor_bps debt_real coll_real of
       (repay, seize) \<Rightarrow>
     tx_bind (tx_assert (repay \<noteq> 0 \<and> seize \<noteq> 0) LiquidationTooSmall) (\<lambda>_.
     tx_bind (liquidate_moves liquidator borrower debt_coin collateral_coin repay seize) (\<lambda>_.
     tx_bind (tx_ok_or LendPanic (amount_to_scaled repay (borrow_index idx_debt))) (\<lambda>scaled_repaid.
     tx_bind (set_debt (ps_id debt_position) debt_coin (scaled_debt debt_position - scaled_repaid) scaled_repaid) (\<lambda>_.
     tx_bind (tx_ok_or LendPanic (amount_to_scaled seize (liquidity_index idx_coll))) (\<lambda>scaled_seized.
     tx_bind (set_supply (ps_id coll_position) collateral_coin (scaled_supply coll_position - scaled_seized) scaled_seized) (\<lambda>_.
     tx_bind (liquidation_log liquidator borrower debt_coin collateral_coin repay seize) (\<lambda>_.
     tx_return \<lparr>lq_borrower_id = borrower, lq_debt_coin = debt_coin, lq_collateral_coin = collateral_coin,
       lq_repaid = repay, lq_seized = seize\<rparr>))))))))))))))))))))"

definition liquidate ::
    "uuid \<Rightarrow> uuid \<Rightarrow> Coin \<Rightarrow> Coin \<Rightarrow> nat \<Rightarrow> nat \<Rightarrow> int \<Rightarrow> db \<Rightarrow> (LendError + LiquidationResult) \<times> db" where
  "liquidate liquidator borrower debt_coin collateral_coin amount close_factor_bps max_stale =
     commit_tx release_locks
       (liquidate_tx liquidator borrower debt_coin collateral_coin amount close_factor_bps max_stale)"

section \<open>Reads\<close>

record PositionView =
  pv_coin :: Coin
  pv_supplied :: nat
  pv_debt :: nat
  pv_use_as_collateral :: bool

record AccountLiquidityView =
  av_positions :: "PositionView list"
  av_debt_usd :: nat
  av_borrow_power_usd :: nat
  av_available_borrow_usd :: nat
  av_liquidation_collateral_usd :: nat
  av_health_factor_bps :: "nat option"

definition position_view :: "db \<Rightarrow> position_row \<Rightarrow> PositionView option" where
  "position_view s r =
     (let idx = index_for s [] (po_coin r) in
      case (scaled_to_amount (dec_to_u128_or 0 (po_scaled_supply r)) (liquidity_index idx),
            scaled_to_amount (dec_to_u128_or 0 (po_scaled_debt r)) (borrow_index idx)) of
        (Some supply_real, Some debt_real) \<Rightarrow>
          Some \<lparr>pv_coin = po_coin r, pv_supplied = supply_real, pv_debt = debt_real,
            pv_use_as_collateral = po_use_as_collateral r\<rparr>
      | _ \<Rightarrow> None)"

definition open_position :: "position_row \<Rightarrow> bool" where
  "open_position r \<longleftrightarrow> 0 < dec_to_u128_or 0 (po_scaled_supply r) \<or> 0 < dec_to_u128_or 0 (po_scaled_debt r)"

definition health_factor :: "nat \<Rightarrow> nat \<Rightarrow> nat option" where
  "health_factor liq_collateral debt_usd =
     (if debt_usd = 0 then None else Some (u128_mul liq_collateral 10000 div debt_usd))"

definition get_user_positions :: "uuid \<Rightarrow> int \<Rightarrow> db \<Rightarrow> LendError + AccountLiquidityView" where
  "get_user_positions user max_stale s =
     (case load_price_table max_stale s of
        Inl e \<Rightarrow> Inl (LendPricing e)
      | Inr (prices, _) \<Rightarrow>
          let rows = filter (\<lambda>r. po_user r = user) (positions s);
              views = map (position_view s) rows in
          if None \<in> set views then Inl LendPanic
          else case account_liquidity s user [] prices of
              None \<Rightarrow> Inl LendPanic
            | Some (liq_collateral, borrow_power, debt_usd) \<Rightarrow>
                Inr \<lparr>av_positions = map (\<lambda>r. the (position_view s r)) (filter open_position rows),
                  av_debt_usd = debt_usd, av_borrow_power_usd = borrow_power,
                  av_available_borrow_usd = borrow_power - debt_usd,
                  av_liquidation_collateral_usd = liq_collateral,
                  av_health_factor_bps = health_factor liq_collateral debt_usd\<rparr>)"

record LiquidatablePosition =
  lp_user_id :: uuid
  lp_email :: string
  lp_health_factor_bps :: "nat option"
  lp_debt_usd :: nat

fun liquidatable_from :: "int \<Rightarrow> db \<Rightarrow> uuid list \<Rightarrow> LendError + LiquidatablePosition list" where
  "liquidatable_from max_stale s [] = Inr []"
| "liquidatable_from max_stale s (u # us) =
     (case get_user_positions u max_stale s of
        Inl e \<Rightarrow> Inl e
      | Inr view \<Rightarrow>
          (case liquidatable_from max_stale s us of
             Inl e \<Rightarrow> Inl e
           | Inr rest \<Rightarrow>
               (case av_health_factor_bps view of
                  None \<Rightarrow> Inr rest
                | Some hf \<Rightarrow>
                    if hf < 10000 then
                      Inr (\<lparr>lp_user_id = u,
                        lp_email = (case List.find (\<lambda>r. u_id r = u) (users s) of None \<Rightarrow> ''?'' | Some r \<Rightarrow> u_email r),
                        lp_health_factor_bps = Some hf, lp_debt_usd = av_debt_usd view\<rparr> # rest)
                    else Inr rest)))"

definition list_liquidatable_positions :: "int \<Rightarrow> db \<Rightarrow> LendError + LiquidatablePosition list" where
  "list_liquidatable_positions max_stale s =
     liquidatable_from max_stale s
       (remdups (map po_user (filter (\<lambda>r. 0 < po_scaled_debt r) (positions s))))"

text \<open>
  The market listing. \<open>rates\<close> stands for the rows of Aave's rates (none when they cannot be
  read); the better of the two rates of each side is shown.
\<close>

record AaveMarketRate =
  ar_coin :: string
  ar_supply_apy_bps :: nat
  ar_borrow_apy_bps :: nat
  ar_utilization_bps :: nat
  ar_collateral_factor_bps :: nat
  ar_liquidation_threshold_bps :: nat
  ar_total_liquidity_usd :: rat
  ar_protocol :: string
  ar_updated_at :: int

record MarketView =
  mv_coin :: Coin
  mv_total_supply :: nat
  mv_total_debt :: nat
  mv_available :: nat
  mv_utilization_bps :: nat
  mv_supply_apy_bps :: nat
  mv_borrow_apy_bps :: nat
  mv_collateral_factor_bps :: nat
  mv_liquidation_threshold_bps :: nat
  mv_borrow_enabled :: bool
  mv_can_be_collateral :: bool

definition market_view ::
    "(Coin \<rightharpoonup> AaveMarketRate) \<Rightarrow> Coin \<Rightarrow> nat \<Rightarrow> nat \<Rightarrow> nat \<Rightarrow> MarketView" where
  "market_view rates coin total_supply total_debt available =
     (let market = lend_market coin;
          utilization_bps = calc_utilization_bps total_debt available;
          borrow_apy = calc_borrow_rate_bps utilization_bps market;
          supply_apy = calc_supply_rate_bps borrow_apy utilization_bps (reserve_factor_bps market);
          (supply_apy_bps, borrow_apy_bps, ltv_bps, liq_thresh_bps) =
            (case rates coin of
               Some ar \<Rightarrow> (max (ar_supply_apy_bps ar) supply_apy, max (ar_borrow_apy_bps ar) borrow_apy,
                 ar_collateral_factor_bps ar, ar_liquidation_threshold_bps ar)
             | None \<Rightarrow> (supply_apy, borrow_apy, collateral_factor_bps market, liquidation_threshold_bps market))
      in \<lparr>mv_coin = coin, mv_total_supply = total_supply, mv_total_debt = total_debt, mv_available = available,
          mv_utilization_bps = utilization_bps, mv_supply_apy_bps = supply_apy_bps, mv_borrow_apy_bps = borrow_apy_bps,
          mv_collateral_factor_bps = ltv_bps, mv_liquidation_threshold_bps = liq_thresh_bps,
          mv_borrow_enabled = borrow_enabled market, mv_can_be_collateral = can_be_collateral market\<rparr>)"

definition coin_market :: "(Coin \<rightharpoonup> AaveMarketRate) \<Rightarrow> (Coin \<rightharpoonup> nat) \<Rightarrow> db \<Rightarrow> Coin \<Rightarrow> MarketView option" where
  "coin_market rates available s coin =
     (let (idx, tss, tsd) = (case find_reserve s coin of
            Some r \<Rightarrow> (reserve_state r, dec_to_u128_or 0 (rs_total_scaled_supply r), dec_to_u128_or 0 (rs_total_scaled_debt r))
          | None \<Rightarrow> (\<lparr>liquidity_index = RAY, borrow_index = RAY\<rparr>, 0, 0))
      in case (scaled_to_amount tss (liquidity_index idx), scaled_to_amount tsd (borrow_index idx)) of
           (Some total_supply, Some total_debt) \<Rightarrow>
             Some (market_view rates coin total_supply total_debt (case available coin of None \<Rightarrow> 0 | Some x \<Rightarrow> x))
         | _ \<Rightarrow> None)"

definition get_markets :: "(Coin \<rightharpoonup> AaveMarketRate) \<Rightarrow> db \<Rightarrow> LendError + MarketView list" where
  "get_markets rates s =
     (let available = map_of (map (\<lambda>(c, b). (c, dec_to_u128_or 0 b)) (list_lend_pool_balances s));
          views = map (coin_market rates available s) COINS
      in if None \<in> set views then Inl LendPanic else Inr (map the views))"

end
