(* ===== verification/Lending.thy ===== *)
theory Lending
  imports LendService
begin

text \<open>
  What \<open>crates/db/src/lend.rs\<close> promises: its money, the totals of its reserves, the limits of
  loans and liquidations. Each operation is first opened into its successful run (\<open>supply_run\<close>,
  \<open>withdraw_run\<close>, \<open>borrow_run\<close>, \<open>repay_run\<close>, \<open>liquidate_run\<close>); what a run keeps is
  \<open>lend_kept\<close>, which composes along runs. \<open>liquidation_finds\<close> ties a liquidation to the positions that
  were stored before it and to the interest settled at that moment.
\<close>

section \<open>What each step leaves alone\<close>

definition no_money :: "db \<Rightarrow> db \<Rightarrow> bool" where
  "no_money s s' \<longleftrightarrow> wallets s' = wallets s \<and> users s' = users s \<and> ledger s' = ledger s \<and>
     next_id s \<le> next_id s' \<and> clock s' = clock s \<and> price_cache s' = price_cache s"

definition no_lending :: "db \<Rightarrow> db \<Rightarrow> bool" where
  "no_lending s s' \<longleftrightarrow> wallets s' = wallets s \<and> users s' = users s \<and> reserves s' = reserves s \<and>
     positions s' = positions s \<and> next_id s \<le> next_id s' \<and> clock s' = clock s \<and> price_cache s' = price_cache s"

lemma no_money_refl [simp]: "no_money s s" by (simp add: no_money_def)

lemma no_money_trans: "no_money s t \<Longrightarrow> no_money t u \<Longrightarrow> no_money s u"
  by (simp add: no_money_def)

lemma no_money_books: "no_money s s' \<Longrightarrow> books_ok s \<Longrightarrow> books_ok s'"
  unfolding no_money_def using books_ok_cong [of s' s] by blast

lemma no_money_balance: "no_money s s' \<Longrightarrow> wallet_balance s' w = wallet_balance s w"
  by (rule wallet_balance_frame) (simp add: no_money_def)

lemma update_reserve_Inr [tx_simps]:
  "update_reserve c f s = Inr (u, s') \<longleftrightarrow> s' = s\<lparr>reserves := update_where (\<lambda>r. rs_coin r = c) f (reserves s)\<rparr>"
  by (simp add: update_reserve_def tx_simps)

lemma update_position_Inr [tx_simps]:
  "update_position i f s = Inr (u, s') \<longleftrightarrow> s' = s\<lparr>positions := update_where (\<lambda>r. po_id r = i) f (positions s)\<rparr>"
  by (simp add: update_position_def tx_simps)

lemma get_user_wallet_id_Inr [tx_simps]:
  "get_user_wallet_id u c s = Inr (w, s') \<longleftrightarrow> wallet_id_of s u c PERSONAL = Some w \<and> s' = s"
  by (auto simp: get_user_wallet_id_def tx_simps)

lemma pool_cash_Inr [tx_simps]:
  "pool_cash p s = Inr (x, s') \<longleftrightarrow> x = dec_to_u128_or 0 (wallet_balance s p) \<and> s' = s"
  by (simp add: pool_cash_def tx_simps)

lemma compute_account_liquidity_Inr [tx_simps]:
  "compute_account_liquidity u fresh prices s = Inr (x, s') \<longleftrightarrow> account_liquidity s u fresh prices = Some x \<and> s' = s"
  by (auto simp: compute_account_liquidity_def tx_simps)

lemma lend_wallets_Inr:
  assumes "lend_wallets u c s = Inr (ws, s')"
  shows "wallet_id_of s u c PERSONAL = Some (fst ws) \<and> house_wallet_id s LEND_POOL c = Inr (snd ws) \<and>
    no_money s s' \<and> no_lending s s'"
  using assms by (auto simp: lend_wallets_def tx_simps no_money_def no_lending_def)

lemma lock_reserve_effect:
  assumes "lock_reserve c s = Inr (r, s')"
  shows "no_money s s' \<and> positions s' = positions s \<and> find_reserve s' c = Some r \<and>
    (reserves s' = reserves s \<or> find_reserve s c = None \<and> reserves s' = reserves s @ [fresh_reserve c (clock s)])"
proof (cases "find_reserve s c")
  case None
  with assms show ?thesis
    by (auto simp: lock_reserve_def tx_simps no_money_def find_reserve_def find_append fresh_reserve_def)
next
  case (Some x)
  with assms show ?thesis by (auto simp: lock_reserve_def tx_simps no_money_def find_reserve_def)
qed

definition keeps_totals :: "(reserve_row \<Rightarrow> reserve_row) \<Rightarrow> bool" where
  "keeps_totals f \<longleftrightarrow> (\<forall>r. rs_coin (f r) = rs_coin r \<and> rs_total_scaled_supply (f r) = rs_total_scaled_supply r \<and>
     rs_total_scaled_debt (f r) = rs_total_scaled_debt r)"

lemma accrue_effect:
  assumes "accrue c s = Inr (idx, s')"
  shows "no_money s s' \<and> positions s' = positions s \<and>
    (\<exists>f rs. (rs = reserves s \<or> find_reserve s c = None \<and> rs = reserves s @ [fresh_reserve c (clock s)]) \<and>
       List.find (\<lambda>r. rs_coin r = c) rs \<noteq> None \<and> keeps_totals f \<and>
       reserves s' = update_where (\<lambda>r. rs_coin r = c) f rs)"
proof -
  let ?f = "\<lambda>ts r. r\<lparr>rs_liquidity_index := int (liquidity_index idx), rs_borrow_index := int (borrow_index idx),
    rs_last_accrued_at := ts\<rparr>"
  from assms obtain row t where t: "lock_reserve c s = Inr (row, t)"
    and s': "s' = t\<lparr>reserves := update_where (\<lambda>r. rs_coin r = c) (?f (clock t)) (reserves t)\<rparr>"
    unfolding accrue_def by (auto simp: tx_simps)
  note e = lock_reserve_effect [OF t]
  have "keeps_totals (?f (clock t))" by (simp add: keeps_totals_def)
  then have "\<exists>f rs. (rs = reserves s \<or> find_reserve s c = None \<and> rs = reserves s @ [fresh_reserve c (clock s)]) \<and>
       List.find (\<lambda>r. rs_coin r = c) rs \<noteq> None \<and> keeps_totals f \<and>
       reserves s' = update_where (\<lambda>r. rs_coin r = c) f rs"
    using e by (intro exI [of _ "?f (clock t)"] exI [of _ "reserves t"]) (auto simp: s' find_reserve_def)
  with e show ?thesis by (simp add: s' no_money_def)
qed

lemma get_or_create_position_effect:
  assumes "get_or_create_position u c s = Inr (p, s')"
  shows "no_money s s' \<and> reserves s' = reserves s \<and>
    (\<exists>r. find_position s' u c = Some r \<and> p = position_of r \<and>
       (positions s' = positions s \<or>
        find_position s u c = None \<and> r = fresh_position (next_id s) u c \<and>
        positions s' = positions s @ [r] \<and> next_id s' = Suc (next_id s)))"
proof (cases "find_position s u c")
  case None
  with assms show ?thesis
    by (auto simp: get_or_create_position_def tx_simps no_money_def find_position_def find_append
        fresh_position_def position_of_def dec_to_u128_or_def dec_to_u128_def)
next
  case (Some r)
  with assms show ?thesis by (auto simp: get_or_create_position_def tx_simps)
qed

section \<open>Money\<close>

text \<open>\<open>x\<close> moves from \<open>a\<close> to \<open>b\<close>, and nothing else.\<close>

definition money_moved :: "db \<Rightarrow> db \<Rightarrow> uuid \<Rightarrow> uuid \<Rightarrow> int \<Rightarrow> bool" where
  "money_moved s s' a b x \<longleftrightarrow> wallets s' = wallets s \<and> users s' = users s \<and>
     (books_ok s \<longrightarrow> books_ok s') \<and>
     (\<forall>w. wallet_balance s' w = wallet_balance s w - (if w = a then x else 0) + (if w = b then x else 0))"

lemma lend_leg_sel [simp]:
  "in_wallet_id (lend_leg w a t r m) = w" "in_amount (lend_leg w a t r m) = a"
  "in_type (lend_leg w a t r m) = t" "in_reference_id (lend_leg w a t r m) = None"
  "in_reference_type (lend_leg w a t r m) = Some ''LendPosition''"
  "in_reference_key (lend_leg w a t r m) = Some r"
  by (simp_all add: lend_leg_def)

lemma ledger_move_Inr [tx_simps]:
  "ledger_move a b x ty ref m1 m2 s = Inr (u, s') \<longleftrightarrow>
     can_post (lend_leg a (- int x) ty ref m1) s \<and>
     can_post (lend_leg b (int x) ty ref m2) (post_entry (lend_leg a (- int x) ty ref m1) s) \<and>
     s' = post_entry (lend_leg b (int x) ty ref m2) (post_entry (lend_leg a (- int x) ty ref m1) s)"
  by (auto simp: ledger_move_def tx_simps)

lemma ledger_move_effect:
  assumes "ledger_move a b x ty ref m1 m2 s = Inr (u, s')"
  shows "money_moved s s' a b (int x) \<and> no_lending s s' \<and>
    (0 < x \<longrightarrow> int x \<le> wallet_balance s a) \<and>
    ledger s' = ledger s @ [entry_of (lend_leg a (- int x) ty ref m1) (next_id s) (clock s),
      entry_of (lend_leg b (int x) ty ref m2) (Suc (next_id s)) (clock s)]"
proof -
  let ?i = "lend_leg a (- int x) ty ref m1" and ?j = "lend_leg b (int x) ty ref m2"
  have p: "can_post ?i s" "can_post ?j (post_entry ?i s)" and s': "s' = post_entry ?j (post_entry ?i s)"
    using assms by (simp_all add: ledger_move_Inr)
  have "books_ok s \<longrightarrow> books_ok s'" using p by (simp add: s' books_ok_post)
  moreover have "0 < x \<longrightarrow> int x \<le> wallet_balance s a" using p(1) by (simp add: can_post_def)
  moreover have "ledger s' = ledger s @ [entry_of ?i (next_id s) (clock s), entry_of ?j (Suc (next_id s)) (clock s)]"
    by (simp add: s' post_entry_def)
  ultimately show ?thesis by (simp add: money_moved_def no_lending_def s')
qed

lemma money_moved_frame:
  assumes "no_money s t" and "money_moved t u a b x" and "no_money u v"
  shows "money_moved s v a b x"
  using assms no_money_balance [OF assms(1)] no_money_balance [OF assms(3)]
    no_money_books [OF assms(1)] no_money_books [OF assms(3)]
  by (simp add: money_moved_def no_money_def)

lemma money_moved_total:
  assumes "money_moved s s' a b x" and "w_id ra = a" and "ra \<in> set (wallets s)" and "w_id rb = b" and "rb \<in> set (wallets s)"
    and "w_coin ra = w_coin rb" and "books_ok s"
  shows "coin_total s' c = coin_total s c"
proof -
  have wf: "wallets_wf s" using assms(7) by (simp add: books_ok_def)
  have cw: "coin_wallets s' c = coin_wallets s c" using assms(1) by (simp add: coin_wallets_def money_moved_def)
  have ab: "a \<in> coin_wallets s c \<longleftrightarrow> b \<in> coin_wallets s c"
    using wallet_coin [OF wf assms(3,2)] wallet_coin [OF wf assms(5,4)] assms(6) by simp
  have "coin_total s' c = (\<Sum>w\<in>coin_wallets s c. wallet_balance s w - (if w = a then x else 0) + (if w = b then x else 0))"
    using assms(1) by (simp add: coin_total_def cw money_moved_def)
  also have "\<dots> = coin_total s c - (if a \<in> coin_wallets s c then x else 0) + (if b \<in> coin_wallets s c then x else 0)"
    by (simp add: coin_total_def sum.distrib sum_subtractf)
  finally show ?thesis using ab by simp
qed

section \<open>Successful runs\<close>

lemmas run_simps = tx_bind_Inr tx_assert_Inr tx_ok_or_Inr tx_return_Inr tx_map_err_Inr Let_def
  case_prod_unfold pool_cash_Inr compute_account_liquidity_Inr

lemma supply_run:
  "supply_tx u c x s = Inr (y, s') \<Longrightarrow>
     \<exists>idx s1 ws s2 s3 scaled pos s4. y = x \<and> 0 < x \<and> accrue c s = Inr (idx, s1) \<and> lend_wallets u c s1 = Inr (ws, s2) \<and>
       ledger_move (fst ws) (snd ws) x LEND_SUPPLY (lend_reference u c) (''Supply '' @ coin_str c)
         (''Supply intake '' @ coin_str c) s2 = Inr ((), s3) \<and>
       amount_to_scaled x (liquidity_index idx) = Some scaled \<and>
       get_or_create_position u c s3 = Inr (pos, s4) \<and> add_supply (ps_id pos) c scaled s4 = Inr ((), s')"
  apply (simp add: supply_tx_def run_simps)
  apply (elim exE conjE)
  apply (intro exI conjI)
          apply (assumption | simp)+
  done

lemma withdraw_run:
  "withdraw_tx u c x m s = Inr (y, s') \<Longrightarrow>
     \<exists>idx s1 prices t1 ws s2 pos s3 supply_real totals s4 scaled.
       0 < x \<and> accrue c s = Inr (idx, s1) \<and> load_price_table m s1 = Inr (prices, t1) \<and>
       lend_wallets u c t1 = Inr (ws, s2) \<and> get_or_create_position u c s2 = Inr (pos, s3) \<and>
       0 < scaled_supply pos \<and> scaled_to_amount (scaled_supply pos) (liquidity_index idx) = Some supply_real \<and>
       y = min x supply_real \<and> min x supply_real \<le> dec_to_u128_or 0 (wallet_balance s3 (snd ws)) \<and>
       account_liquidity s3 u [(c, idx)] prices = Some totals \<and> withdraw_safe prices c pos (min x supply_real) totals \<and>
       ledger_move (snd ws) (fst ws) (min x supply_real) LEND_WITHDRAW (lend_reference u c) (''Withdraw payout '' @ coin_str c)
         (''Withdraw '' @ coin_str c @ '' (incl. interest)'') s3 = Inr ((), s4) \<and>
       amount_to_scaled (min x supply_real) (liquidity_index idx) = Some scaled \<and>
       set_supply (ps_id pos) c (scaled_supply pos - scaled) scaled s4 = Inr ((), s')"
  apply (simp del: min_less_iff_conj min_le_iff_disj add: withdraw_tx_def run_simps)
  apply (elim exE conjE)
  apply (intro exI conjI)
               apply assumption+
  done

lemma borrow_run:
  "borrow_tx u c x m s = Inr (y, s') \<Longrightarrow>
     \<exists>idx s1 prices t1 ws s2 totals s3 scaled pos s4. y = x \<and>
       0 < x \<and> borrow_enabled (lend_market c) \<and> accrue c s = Inr (idx, s1) \<and>
       load_price_table m s1 = Inr (prices, t1) \<and> lend_wallets u c t1 = Inr (ws, s2) \<and>
       x \<le> dec_to_u128_or 0 (wallet_balance s2 (snd ws)) \<and>
       account_liquidity s2 u [(c, idx)] prices = Some totals \<and>
       u128_add (snd (snd totals)) (lend_value_usd prices c x) \<le> fst (snd totals) \<and>
       ledger_move (snd ws) (fst ws) x LEND_BORROW (lend_reference u c) (''Borrow disbursement '' @ coin_str c)
         (''Borrow '' @ coin_str c) s2 = Inr ((), s3) \<and>
       amount_to_scaled x (borrow_index idx) = Some scaled \<and>
       get_or_create_position u c s3 = Inr (pos, s4) \<and> add_debt (ps_id pos) c scaled s4 = Inr ((), s')"
  apply (simp del: split_paired_Ex add: borrow_tx_def run_simps)
  apply (elim exE conjE)
  apply (intro exI conjI)
               apply (assumption | rule refl)+
  done

lemma repay_run:
  "repay_tx u c x s = Inr (y, s') \<Longrightarrow>
     \<exists>idx s1 ws s2 pos s3 debt_real s4 scaled.
       0 < x \<and> accrue c s = Inr (idx, s1) \<and> lend_wallets u c s1 = Inr (ws, s2) \<and>
       get_or_create_position u c s2 = Inr (pos, s3) \<and> 0 < scaled_debt pos \<and>
       scaled_to_amount (scaled_debt pos) (borrow_index idx) = Some debt_real \<and> y = min x debt_real \<and>
       ledger_move (fst ws) (snd ws) (min x debt_real) LEND_REPAY (lend_reference u c)
         (''Repay '' @ coin_str c @ '' (incl. interest)'') (''Repay intake '' @ coin_str c) s3 = Inr ((), s4) \<and>
       amount_to_scaled (min x debt_real) (borrow_index idx) = Some scaled \<and>
       set_debt (ps_id pos) c (scaled_debt pos - scaled) scaled s4 = Inr ((), s')"
  apply (simp del: split_paired_Ex add: repay_tx_def run_simps)
  apply (elim exE conjE)
  apply (intro exI conjI)
           apply (assumption | rule refl)+
  done

lemma liquidate_moves_run:
  "liquidate_moves l b dc cc repay seize s = Inr ((), s') \<Longrightarrow>
     \<exists>ld lc pd pc s1 s2. wallet_id_of s l dc PERSONAL = Some ld \<and> wallet_id_of s l cc PERSONAL = Some lc \<and>
       house_wallet_id s LEND_POOL dc = Inr pd \<and> house_wallet_id s LEND_POOL cc = Inr pc \<and>
       lock_wallets [ld, lc, pd, pc] s = Inr ((), s1) \<and>
       ledger_move ld pd repay LIQUIDATION (lend_reference b dc)
         (''Liquidation repay '' @ coin_str dc @ '' for '' @ take 8 (show_uuid b) @ utf8_ellipsis)
         (''Liquidation repay intake '' @ coin_str dc) s1 = Inr ((), s2) \<and>
       ledger_move pc lc seize LIQUIDATION (lend_reference b cc)
         (''Liquidation collateral release '' @ coin_str cc)
         (''Liquidation collateral seized '' @ coin_str cc @ '' (incl. bonus)'') s2 = Inr ((), s')"
  apply (simp only: liquidate_moves_def tx_bind_Inr tx_map_err_Inr get_user_wallet_id_Inr get_lend_pool_wallet_id_Inr)
  apply (elim exE conjE)
  apply hypsubst
  apply (intro exI conjI)
        apply (assumption | rule refl)+
      apply simp_all
  done

lemma liquidate_run:
  "liquidate_tx l b dc cc x cf m s = Inr (y, s') \<Longrightarrow>
     \<exists>prices s0 idx_debt s1 idx_coll s2 dpos s3 cpos s4 totals debt_real coll_real s5 scaled_repaid s6 scaled_seized s7 i repay seize.
       0 < x \<and> l \<noteq> b \<and> load_price_table m s = Inr (prices, s0) \<and> accrue dc s0 = Inr (idx_debt, s1) \<and>
       (if cc = dc then tx_return idx_debt else accrue cc) s1 = Inr (idx_coll, s2) \<and>
       get_or_create_position b dc s2 = Inr (dpos, s3) \<and> 0 < scaled_debt dpos \<and>
       get_or_create_position b cc s3 = Inr (cpos, s4) \<and>
       0 < scaled_supply cpos \<and> use_as_collateral cpos \<and> can_be_collateral (lend_market cc) \<and>
       account_liquidity s4 b (if cc = dc then [(dc, idx_debt)] else [(dc, idx_debt), (cc, idx_coll)]) prices = Some totals \<and>
       0 < snd (snd totals) \<and> fst totals < snd (snd totals) \<and>
       scaled_to_amount (scaled_debt dpos) (borrow_index idx_debt) = Some debt_real \<and>
       scaled_to_amount (scaled_supply cpos) (liquidity_index idx_coll) = Some coll_real \<and>
       liquidation_amounts prices dc cc x cf debt_real coll_real = (repay, seize) \<and> 0 < repay \<and> 0 < seize \<and>
       liquidate_moves l b dc cc repay seize s4 = Inr ((), s5) \<and>
       amount_to_scaled repay (borrow_index idx_debt) = Some scaled_repaid \<and>
       set_debt (ps_id dpos) dc (scaled_debt dpos - scaled_repaid) scaled_repaid s5 = Inr ((), s6) \<and>
       amount_to_scaled seize (liquidity_index idx_coll) = Some scaled_seized \<and>
       set_supply (ps_id cpos) cc (scaled_supply cpos - scaled_seized) scaled_seized s6 = Inr ((), s7) \<and>
       liquidation_log l b dc cc repay seize s7 = Inr (i, s') \<and>
       y = \<lparr>lq_borrower_id = b, lq_debt_coin = dc, lq_collateral_coin = cc, lq_repaid = repay, lq_seized = seize\<rparr>"
  apply (simp only: liquidate_tx_def run_simps neq0_conv [symmetric])
  apply (elim exE conjE)
  apply hypsubst
  apply (intro exI conjI)
                      apply (assumption | rule refl prod.collapse [symmetric])+
     apply simp_all
  done

section \<open>The totals of a reserve\<close>

definition supplied :: "Coin \<Rightarrow> position_row list \<Rightarrow> int" where
  "supplied c ps = (\<Sum>p\<leftarrow>ps. if po_coin p = c then po_scaled_supply p else 0)"

definition owed :: "Coin \<Rightarrow> position_row list \<Rightarrow> int" where
  "owed c ps = (\<Sum>p\<leftarrow>ps. if po_coin p = c then po_scaled_debt p else 0)"

text \<open>Every reserve totals its positions, and no position is without a reserve.\<close>

definition totals_ok :: "db \<Rightarrow> bool" where
  "totals_ok s \<longleftrightarrow> distinct (map rs_coin (reserves s)) \<and> distinct (map po_id (positions s)) \<and>
     (\<forall>p\<in>set (positions s). po_id p < next_id s \<and> 0 \<le> po_scaled_supply p \<and> 0 \<le> po_scaled_debt p \<and>
        po_coin p \<in> rs_coin ` set (reserves s)) \<and>
     (\<forall>r\<in>set (reserves s). rs_total_scaled_supply r = supplied (rs_coin r) (positions s) \<and>
        rs_total_scaled_debt r = owed (rs_coin r) (positions s))"

lemma totals_ok_cong:
  "reserves t = reserves s \<Longrightarrow> positions t = positions s \<Longrightarrow> next_id s \<le> next_id t \<Longrightarrow> totals_ok s \<Longrightarrow> totals_ok t"
  by (simp add: totals_ok_def) (meson order_less_le_trans)

lemma totals_no_lending: "no_lending s t \<Longrightarrow> totals_ok s \<Longrightarrow> totals_ok t"
  using totals_ok_cong [of t s] by (simp add: no_lending_def)

lemma find_reserve_mem: "find_reserve s c \<noteq> None \<longleftrightarrow> c \<in> rs_coin ` set (reserves s)"
  by (auto simp: find_reserve_def find_None_iff)

lemma update_coins: "(\<And>r. rs_coin (f r) = rs_coin r) \<Longrightarrow> map rs_coin (update_where p f rs) = map rs_coin rs"
  by (rule map_update_where) simp

lemma totals_accrue:
  assumes run: "accrue c s = Inr (idx, s')" and ok: "totals_ok s"
  shows "totals_ok s' \<and> c \<in> rs_coin ` set (reserves s') \<and> rs_coin ` set (reserves s) \<subseteq> rs_coin ` set (reserves s')"
proof -
  from accrue_effect [OF run] obtain f rs where nm: "no_money s s'" and ps: "positions s' = positions s"
    and rs: "rs = reserves s \<or> find_reserve s c = None \<and> rs = reserves s @ [fresh_reserve c (clock s)]"
    and here: "List.find (\<lambda>r. rs_coin r = c) rs \<noteq> None" and f: "keeps_totals f"
    and rs': "reserves s' = update_where (\<lambda>r. rs_coin r = c) f rs" by blast
  have coins: "map rs_coin (reserves s') = map rs_coin rs"
    unfolding rs' by (rule update_coins) (use f in \<open>simp add: keeps_totals_def\<close>)
  then have coin_set: "rs_coin ` set (reserves s') = rs_coin ` set rs" by (metis set_map)
  have new: "c \<notin> rs_coin ` set (reserves s)" if "find_reserve s c = None" using that find_reserve_mem [of s c] by blast
  have none: "supplied c (positions s) = 0 \<and> owed c (positions s) = 0" if "find_reserve s c = None"
    using ok new [OF that] unfolding supplied_def owed_def
    by (intro conjI sum_map_zero) (auto simp: totals_ok_def)
  have d: "distinct (map rs_coin rs)" using rs ok new by (auto simp: totals_ok_def fresh_reserve_def)
  have old: "\<forall>r\<in>set rs. rs_total_scaled_supply r = supplied (rs_coin r) (positions s) \<and>
      rs_total_scaled_debt r = owed (rs_coin r) (positions s)"
    using rs ok none by (auto simp: totals_ok_def fresh_reserve_def)
  have rows: "\<forall>r\<in>set (reserves s'). rs_total_scaled_supply r = supplied (rs_coin r) (positions s) \<and>
      rs_total_scaled_debt r = owed (rs_coin r) (positions s)"
  proof
    fix r assume "r \<in> set (reserves s')"
    then obtain q where "q \<in> set rs" "r = (if rs_coin q = c then f q else q)" unfolding rs' in_set_update_where by blast
    with old f show "rs_total_scaled_supply r = supplied (rs_coin r) (positions s) \<and>
      rs_total_scaled_debt r = owed (rs_coin r) (positions s)" by (simp add: keeps_totals_def)
  qed
  have sub: "rs_coin ` set (reserves s) \<subseteq> rs_coin ` set (reserves s')" using rs coin_set by auto
  have "c \<in> rs_coin ` set rs" using here by (auto simp: find_None_iff)
  moreover have "next_id s \<le> next_id s'" using nm by (simp add: no_money_def)
  then have "\<forall>p\<in>set (positions s). po_id p < next_id s' \<and> 0 \<le> po_scaled_supply p \<and> 0 \<le> po_scaled_debt p \<and>
        po_coin p \<in> rs_coin ` set (reserves s')"
    using ok sub unfolding totals_ok_def by (meson order_less_le_trans subsetD)
  then have "totals_ok s'" using ok d rows coins by (simp add: totals_ok_def ps)
  ultimately show ?thesis using coin_set sub by simp
qed

lemma totals_position:
  assumes run: "get_or_create_position u c s = Inr (p, s')" and ok: "totals_ok s" and here: "c \<in> rs_coin ` set (reserves s)"
  shows "totals_ok s' \<and> reserves s' = reserves s \<and> set (positions s) \<subseteq> set (positions s') \<and>
    (\<exists>r\<in>set (positions s'). po_id r = ps_id p \<and> po_coin r = c \<and> p = position_of r)"
proof -
  from get_or_create_position_effect [OF run] obtain r where nm: "no_money s s'" and rs: "reserves s' = reserves s"
    and r: "find_position s' u c = Some r" "p = position_of r"
    and pos: "positions s' = positions s \<or> find_position s u c = None \<and> r = fresh_position (next_id s) u c \<and>
        positions s' = positions s @ [r] \<and> next_id s' = Suc (next_id s)" by blast
  have mem: "r \<in> set (positions s')" "po_coin r = c" using r(1) by (auto simp: find_position_def dest: find_Some_props)
  have le: "next_id s \<le> next_id s'" using nm by (simp add: no_money_def)
  have "totals_ok s'"
  proof (cases "positions s' = positions s")
    case True
    show ?thesis by (rule totals_ok_cong [OF rs True le ok])
  next
    case False
    with pos have new: "r = fresh_position (next_id s) u c" "positions s' = positions s @ [r]" "next_id s' = Suc (next_id s)" by auto
    have zero: "supplied d (ps @ [fresh_position i u c]) = supplied d ps" "owed d (ps @ [fresh_position i u c]) = owed d ps" for d ps i
      by (simp_all add: supplied_def owed_def fresh_position_def)
    have sel: "po_id (fresh_position i u c) = i" "po_coin (fresh_position i u c) = c"
      "po_scaled_supply (fresh_position i u c) = 0" "po_scaled_debt (fresh_position i u c) = 0" for i
      by (simp_all add: fresh_position_def)
    have ids: "next_id s \<notin> po_id ` set (positions s)" using ok by (auto simp: totals_ok_def)
    have lt: "\<forall>p\<in>set (positions s). po_id p < Suc (next_id s)" using ok by (auto simp: totals_ok_def less_Suc_eq)
    show ?thesis using ok here ids lt unfolding totals_ok_def new(2,3) rs by (simp add: new(1) zero sel)
  qed
  moreover have "set (positions s) \<subseteq> set (positions s')" using pos by auto
  ultimately show ?thesis using mem r(2) rs by (auto simp: position_of_def)
qed

text \<open>One position moves together with the totals of its reserve.\<close>

lemma totals_shift:
  assumes ok: "totals_ok s" and p: "p \<in> set (positions s)"
    and f: "\<And>q. po_id (f q) = po_id q \<and> po_coin (f q) = po_coin q"
    and fp: "po_scaled_supply (f p) = po_scaled_supply p + ds" "po_scaled_debt (f p) = po_scaled_debt p + dd"
    and pos: "0 \<le> po_scaled_supply p + ds" "0 \<le> po_scaled_debt p + dd"
    and g: "\<And>r. rs_coin (g r) = rs_coin r"
    and gr: "\<And>r. r \<in> set (reserves s) \<Longrightarrow> rs_coin r = po_coin p \<Longrightarrow>
      rs_total_scaled_supply (g r) = rs_total_scaled_supply r + ds \<and> rs_total_scaled_debt (g r) = rs_total_scaled_debt r + dd"
    and s': "positions s' = update_where (\<lambda>q. po_id q = po_id p) f (positions s)"
      "reserves s' = update_where (\<lambda>r. rs_coin r = po_coin p) g (reserves s)" "next_id s' = next_id s"
  shows "totals_ok s'"
proof -
  have d: "distinct (map po_id (positions s))" using ok by (simp add: totals_ok_def)
  have same: "q = p" if "q \<in> set (positions s)" "po_id q = po_id p" for q
    using d p that by (auto simp: distinct_map inj_on_def)
  have sup: "supplied c (positions s') = supplied c (positions s) + (if po_coin p = c then ds else 0)" for c
    unfolding supplied_def s'(1) sum_update_where_key [OF d p] using f fp by simp
  have owe: "owed c (positions s') = owed c (positions s) + (if po_coin p = c then dd else 0)" for c
    unfolding owed_def s'(1) sum_update_where_key [OF d p] using f fp by simp
  have ids: "map po_id (positions s') = map po_id (positions s)" unfolding s'(1) by (rule map_update_where) (use f in simp)
  have coins: "map rs_coin (reserves s') = map rs_coin (reserves s)" unfolding s'(2) by (rule update_coins) (rule g)
  then have coin_set: "rs_coin ` set (reserves s') = rs_coin ` set (reserves s)" by (metis set_map)
  have rows: "po_id q < next_id s' \<and> 0 \<le> po_scaled_supply q \<and> 0 \<le> po_scaled_debt q \<and> po_coin q \<in> rs_coin ` set (reserves s')"
    if "q \<in> set (positions s')" for q
  proof -
    from that obtain q0 where q0: "q0 \<in> set (positions s)" "q = (if po_id q0 = po_id p then f q0 else q0)"
      unfolding s'(1) in_set_update_where by blast
    show ?thesis
      using ok q0 same [OF q0(1)] f [of p] fp pos by (cases "po_id q0 = po_id p") (auto simp: totals_ok_def coin_set s'(3))
  qed
  have tot: "rs_total_scaled_supply r = supplied (rs_coin r) (positions s') \<and> rs_total_scaled_debt r = owed (rs_coin r) (positions s')"
    if "r \<in> set (reserves s')" for r
  proof -
    from that obtain r0 where r0: "r0 \<in> set (reserves s)" "r = (if rs_coin r0 = po_coin p then g r0 else r0)"
      unfolding s'(2) in_set_update_where by blast
    then show ?thesis
      using ok gr [OF r0(1)] g [of r0] by (cases "rs_coin r0 = po_coin p") (auto simp: totals_ok_def sup owe)
  qed
  show ?thesis using ok rows tot ids coins by (simp add: totals_ok_def)
qed

lemma div_le_times: "b \<noteq> 0 \<Longrightarrow> a \<le> c * b \<Longrightarrow> a div b \<le> (c :: nat)"
  using div_le_mono [of a "c * b" b] by simp

lemma dec_to_u128_or_exact: "0 < dec_to_u128_or 0 x \<Longrightarrow> int (dec_to_u128_or 0 x) = x"
  by (auto simp: dec_to_u128_or_def dec_to_u128_def split: if_splits)

lemma total_covers:
  assumes ok: "totals_ok s" and p: "p \<in> set (positions s)" and r: "r \<in> set (reserves s)" and c: "rs_coin r = po_coin p"
  shows "po_scaled_supply p \<le> rs_total_scaled_supply r" and "po_scaled_debt p \<le> rs_total_scaled_debt r"
proof -
  have nn: "0 \<le> po_scaled_supply q" "0 \<le> po_scaled_debt q" if "q \<in> set (positions s)" for q
    using ok that by (simp_all add: totals_ok_def)
  have "(if po_coin p = rs_coin r then po_scaled_supply p else 0) \<le> supplied (rs_coin r) (positions s)"
    unfolding supplied_def by (rule sum_map_member [OF p, where f = "\<lambda>p. if po_coin p = rs_coin r then po_scaled_supply p else 0"]) (simp add: nn)
  then show "po_scaled_supply p \<le> rs_total_scaled_supply r" using ok r c by (simp add: totals_ok_def)
  have "(if po_coin p = rs_coin r then po_scaled_debt p else 0) \<le> owed (rs_coin r) (positions s)"
    unfolding owed_def by (rule sum_map_member [OF p, where f = "\<lambda>p. if po_coin p = rs_coin r then po_scaled_debt p else 0"]) (simp add: nn)
  then show "po_scaled_debt p \<le> rs_total_scaled_debt r" using ok r c by (simp add: totals_ok_def)
qed

lemma add_supply_Inr [tx_simps]:
  "add_supply i c x s = Inr (u, s') \<Longrightarrow>
     s' = s\<lparr>positions := update_where (\<lambda>r. po_id r = i) (\<lambda>r. r\<lparr>po_scaled_supply := po_scaled_supply r + int x\<rparr>) (positions s),
       reserves := update_where (\<lambda>r. rs_coin r = c) (\<lambda>r. r\<lparr>rs_total_scaled_supply := rs_total_scaled_supply r + int x\<rparr>) (reserves s)\<rparr>"
  by (simp add: add_supply_def tx_simps)

lemma add_debt_Inr [tx_simps]:
  "add_debt i c x s = Inr (u, s') \<Longrightarrow>
     s' = s\<lparr>positions := update_where (\<lambda>r. po_id r = i) (\<lambda>r. r\<lparr>po_scaled_debt := po_scaled_debt r + int x\<rparr>) (positions s),
       reserves := update_where (\<lambda>r. rs_coin r = c) (\<lambda>r. r\<lparr>rs_total_scaled_debt := rs_total_scaled_debt r + int x\<rparr>) (reserves s)\<rparr>"
  by (simp add: add_debt_def tx_simps)

lemma set_supply_Inr [tx_simps]:
  "set_supply i c n x s = Inr (u, s') \<longleftrightarrow>
     s' = s\<lparr>positions := update_where (\<lambda>r. po_id r = i) (\<lambda>r. r\<lparr>po_scaled_supply := int n\<rparr>) (positions s),
       reserves := update_where (\<lambda>r. rs_coin r = c)
         (\<lambda>r. r\<lparr>rs_total_scaled_supply := max (rs_total_scaled_supply r - int x) 0\<rparr>) (reserves s)\<rparr>"
  by (simp add: set_supply_def tx_simps)

lemma set_debt_Inr [tx_simps]:
  "set_debt i c n x s = Inr (u, s') \<longleftrightarrow>
     s' = s\<lparr>positions := update_where (\<lambda>r. po_id r = i) (\<lambda>r. r\<lparr>po_scaled_debt := int n\<rparr>) (positions s),
       reserves := update_where (\<lambda>r. rs_coin r = c)
         (\<lambda>r. r\<lparr>rs_total_scaled_debt := max (rs_total_scaled_debt r - int x) 0\<rparr>) (reserves s)\<rparr>"
  by (simp add: set_debt_def tx_simps)

lemma totals_add_supply:
  assumes run: "add_supply (po_id p) (po_coin p) x s = Inr (u, s')" and ok: "totals_ok s" and p: "p \<in> set (positions s)"
  shows "totals_ok s'"
proof -
  have "0 \<le> po_scaled_supply p" "0 \<le> po_scaled_debt p" using ok p by (simp_all add: totals_ok_def)
  then show ?thesis
    by (intro totals_shift [OF ok p, where ds = "int x" and dd = 0 and
        f = "\<lambda>r. r\<lparr>po_scaled_supply := po_scaled_supply r + int x\<rparr>" and
        g = "\<lambda>r. r\<lparr>rs_total_scaled_supply := rs_total_scaled_supply r + int x\<rparr>"])
      (simp_all add: add_supply_Inr [OF run])
qed

lemma totals_add_debt:
  assumes run: "add_debt (po_id p) (po_coin p) x s = Inr (u, s')" and ok: "totals_ok s" and p: "p \<in> set (positions s)"
  shows "totals_ok s'"
proof -
  have "0 \<le> po_scaled_supply p" "0 \<le> po_scaled_debt p" using ok p by (simp_all add: totals_ok_def)
  then show ?thesis
    by (intro totals_shift [OF ok p, where ds = 0 and dd = "int x" and
        f = "\<lambda>r. r\<lparr>po_scaled_debt := po_scaled_debt r + int x\<rparr>" and
        g = "\<lambda>r. r\<lparr>rs_total_scaled_debt := rs_total_scaled_debt r + int x\<rparr>"])
      (simp_all add: add_debt_Inr [OF run])
qed

text \<open>A removal no larger than the position moves the total by exactly the same.\<close>

lemma totals_set_supply:
  assumes run: "set_supply (po_id p) (po_coin p) (n - x) x s = Inr (u, s')" and ok: "totals_ok s" and p: "p \<in> set (positions s)"
    and n: "int n = po_scaled_supply p" and x: "x \<le> n"
  shows "totals_ok s'"
proof -
  have "0 \<le> po_scaled_debt p" using ok p by (simp add: totals_ok_def)
  moreover have "int x \<le> rs_total_scaled_supply r" if "r \<in> set (reserves s)" "rs_coin r = po_coin p" for r
    using total_covers(1) [OF ok p that] n x by linarith
  ultimately show ?thesis using n x
    by (intro totals_shift [OF ok p, where ds = "- int x" and dd = 0 and
        f = "\<lambda>r. r\<lparr>po_scaled_supply := int (n - x)\<rparr>" and
        g = "\<lambda>r. r\<lparr>rs_total_scaled_supply := max (rs_total_scaled_supply r - int x) 0\<rparr>"])
      (simp_all add: set_supply_Inr [THEN iffD1, OF run])
qed

lemma totals_set_debt:
  assumes run: "set_debt (po_id p) (po_coin p) (n - x) x s = Inr (u, s')" and ok: "totals_ok s" and p: "p \<in> set (positions s)"
    and n: "int n = po_scaled_debt p" and x: "x \<le> n"
  shows "totals_ok s'"
proof -
  have "0 \<le> po_scaled_supply p" using ok p by (simp add: totals_ok_def)
  moreover have "int x \<le> rs_total_scaled_debt r" if "r \<in> set (reserves s)" "rs_coin r = po_coin p" for r
    using total_covers(2) [OF ok p that] n x by linarith
  ultimately show ?thesis using n x
    by (intro totals_shift [OF ok p, where ds = 0 and dd = "- int x" and
        f = "\<lambda>r. r\<lparr>po_scaled_debt := int (n - x)\<rparr>" and
        g = "\<lambda>r. r\<lparr>rs_total_scaled_debt := max (rs_total_scaled_debt r - int x) 0\<rparr>"])
      (simp_all add: set_debt_Inr [THEN iffD1, OF run])
qed

section \<open>How much is burned\<close>

lemma burn_within:
  assumes "scaled_to_amount n i = Some whole" and "amount \<le> whole" and "amount_to_scaled amount i = Some x"
  shows "x \<le> n"
proof (cases "i = 0")
  case False
  have "amount \<le> n * i div RAY" using assms(1,2) by (auto simp: scaled_to_amount_def nat_to_u128_def split: if_splits)
  then have "amount * RAY \<le> n * i" by (simp add: less_eq_div_iff_mult_less_eq RAY_def)
  then have "amount * RAY div i \<le> n" using False by (simp add: div_le_times)
  moreover have "x = amount * RAY div i" using assms(3) False by (auto simp: amount_to_scaled_def nat_to_u128_def split: if_splits)
  ultimately show ?thesis by simp
qed (use assms(3) in \<open>simp add: amount_to_scaled_def\<close>)

lemma u128_mul_le: "u128_mul a b \<le> a * b"
  by (simp add: u128_mul_def)

lemma close_factor_within: "close_factor \<le> 10000 \<Longrightarrow> u128_mul debt close_factor div 10000 \<le> debt"
proof -
  assume "close_factor \<le> 10000"
  then have "u128_mul debt close_factor \<le> debt * 10000" by (meson u128_mul_le mult_le_mono2 order_trans)
  then show ?thesis by (metis div_le_mono nonzero_mult_div_cancel_right zero_neq_numeral)
qed

text \<open>A liquidation never repays more than the close factor allows, nor seizes more than the collateral.\<close>

lemma price_of: "value_usd prices c a d = to_u128_or_max (a * price_scaled prices c div 10 ^ d)"
  by (cases "prices c") (auto simp: value_usd_def price_scaled_def)

lemma usd_to_amount_le: "usd_to_amount prices c u \<le> u * 10 ^ decimals (coin_config c) div price_scaled prices c"
  unfolding usd_to_amount_def Let_def by (simp add: to_u128_or_max_le)

lemma usd_to_amount_zero: "price_scaled prices c = 0 \<Longrightarrow> usd_to_amount prices c u = 0"
  by (simp add: usd_to_amount_def)

lemma usd_roundtrip: "usd_to_amount prices c u \<le> a" if "u \<le> lend_value_usd prices c a"
proof -
  let ?p = "price_scaled prices c" and ?d = "10 ^ decimals (coin_config c) :: nat"
  have "u \<le> a * ?p div ?d" using that to_u128_or_max_le order_trans unfolding lend_value_usd_def price_of by blast
  then have "u * ?d \<le> a * ?p" by (simp add: less_eq_div_iff_mult_less_eq)
  then have "u * ?d div ?p \<le> a" if "?p \<noteq> 0" using div_le_times [OF that] by blast
  then show ?thesis using usd_to_amount_le [of prices c u] usd_to_amount_zero [of prices c u]
    by (cases "?p = 0") simp_all
qed

lemma usd_of_less: "lend_value_usd prices c a \<le> u" if "a < usd_to_amount prices c u"
proof -
  let ?p = "price_scaled prices c" and ?d = "10 ^ decimals (coin_config c) :: nat"
  have p: "?p \<noteq> 0"
  proof
    assume "?p = 0"
    then show False using that usd_to_amount_zero [of prices c u] by simp
  qed
  have "a \<le> u * ?d div ?p" using that usd_to_amount_le [of prices c u] by linarith
  then have "a * ?p \<le> u * ?d" using p by (simp add: less_eq_div_iff_mult_less_eq)
  then have "a * ?p div ?d \<le> u" by (simp add: div_le_times)
  then show ?thesis unfolding lend_value_usd_def price_of using to_u128_or_max_le order_trans by blast
qed

lemma liquidation_within:
  assumes "liquidation_amounts prices dc cc x cf debt coll = (repay, seize)"
  shows "repay \<le> min x (u128_mul debt cf div 10000)" and "seize \<le> coll"
proof -
  let ?b = "10000 + liquidation_bonus_bps (lend_market cc)" and ?r = "min x (u128_mul debt cf div 10000)"
  let ?u = "u128_mul (lend_value_usd prices dc ?r) ?b div 10000"
  show "seize \<le> coll" using assms by (auto simp: liquidation_amounts_def Let_def split: if_splits)
  show "repay \<le> ?r"
  proof (cases "coll < usd_to_amount prices cc ?u")
    case True
    have "lend_value_usd prices cc coll \<le> ?u" using usd_of_less [OF True] .
    also have "\<dots> \<le> lend_value_usd prices dc ?r * ?b div 10000" by (intro div_le_mono u128_mul_le)
    finally have "lend_value_usd prices cc coll * 10000 \<le> lend_value_usd prices dc ?r * ?b"
      by (simp add: less_eq_div_iff_mult_less_eq)
    then have "u128_mul (lend_value_usd prices cc coll) 10000 \<le> lend_value_usd prices dc ?r * ?b"
      using u128_mul_le order_trans by blast
    then have "u128_mul (lend_value_usd prices cc coll) 10000 div ?b \<le> lend_value_usd prices dc ?r * ?b div ?b"
      by (rule div_le_mono)
    also have "\<dots> = lend_value_usd prices dc ?r" by simp
    finally have "usd_to_amount prices dc (u128_mul (lend_value_usd prices cc coll) 10000 div ?b) \<le> ?r"
      by (rule usd_roundtrip)
    moreover have "repay = usd_to_amount prices dc (u128_mul (lend_value_usd prices cc coll) 10000 div ?b)"
      using assms [unfolded liquidation_amounts_def Let_def if_P [OF True]] by (elim Pair_inject) (rule sym)
    ultimately show ?thesis by (simp only:)
  qed (use assms in \<open>auto simp: liquidation_amounts_def Let_def\<close>)
qed

section \<open>Every operation keeps the books and the totals\<close>

text \<open>What a lending operation promises of the state it commits.\<close>

definition lend_kept :: "db \<Rightarrow> db \<Rightarrow> bool" where
  "lend_kept s s' \<longleftrightarrow> (books_ok s \<longrightarrow> books_ok s' \<and> (\<forall>c. coin_total s' c = coin_total s c)) \<and>
     (totals_ok s \<longrightarrow> totals_ok s')"

lemma moved_between_accounts:
  assumes moved: "money_moved s s' a b x"
    and a: "wallet_id_of s u c k = Some a \<or> house_wallet_id s k c = Inr a"
    and b: "wallet_id_of s v c k' = Some b \<or> house_wallet_id s k' c = Inr b"
  shows "books_ok s \<longrightarrow> books_ok s' \<and> (\<forall>c. coin_total s' c = coin_total s c)"
proof
  assume ok: "books_ok s"
  have row: "\<exists>r\<in>set (wallets s). w_id r = i \<and> w_coin r = c"
    if "wallet_id_of s y c z = Some i \<or> house_wallet_id s z c = Inr i" for i y z
    using that by (elim disjE) (metis wallet_id_of_Some, metis house_wallet_id_Inr)
  from row [OF a] obtain ra where ra: "ra \<in> set (wallets s)" "w_id ra = a" "w_coin ra = c" by blast
  from row [OF b] obtain rb where rb: "rb \<in> set (wallets s)" "w_id rb = b" "w_coin rb = c" by blast
  have "coin_total s' d = coin_total s d" for d
    using money_moved_total [OF moved ra(2,1) rb(2,1) _ ok] ra(3) rb(3) by simp
  with moved ok show "books_ok s' \<and> (\<forall>c. coin_total s' c = coin_total s c)" by (simp add: money_moved_def)
qed

lemma no_money_accounts:
  assumes "no_money s t"
  shows "wallet_id_of t u c k = wallet_id_of s u c k" "house_wallet_id t k c = house_wallet_id s k c"
  using assms wallet_id_of_cong [of t s] house_wallet_id_cong [of t s] by (simp_all add: no_money_def)

lemma no_money_lend_kept: "no_money s s' \<Longrightarrow> books_ok s \<longrightarrow> books_ok s' \<and> (\<forall>c. coin_total s' c = coin_total s c)"
  using no_money_books [of s s'] coin_total_cong [of s' s] by (auto simp: no_money_def)

lemma burns_no_money:
  "add_supply i c x s = Inr (u, s') \<Longrightarrow> no_money s s'" "add_debt i c x s = Inr (u, s') \<Longrightarrow> no_money s s'"
  "set_supply i c n x s = Inr (u, s') \<Longrightarrow> no_money s s'" "set_debt i c n x s = Inr (u, s') \<Longrightarrow> no_money s s'"
  by (auto dest!: add_supply_Inr add_debt_Inr simp: set_supply_Inr set_debt_Inr no_money_def)

text \<open>One move between a user and the pool, framed by steps that move nothing.\<close>

lemma one_move_kept:
  assumes "no_money s t" and "money_moved t t' a b x" and "no_money t' s'"
    and "wallet_id_of s u c PERSONAL = Some w" and "house_wallet_id s LEND_POOL c = Inr p" and "(a, b) = (w, p) \<or> (a, b) = (p, w)"
  shows "books_ok s \<longrightarrow> books_ok s' \<and> (\<forall>c. coin_total s' c = coin_total s c)"
  using moved_between_accounts [OF money_moved_frame [OF assms(1-3)], of u c PERSONAL u LEND_POOL]
    moved_between_accounts [OF money_moved_frame [OF assms(1-3)], of u c LEND_POOL u PERSONAL] assms(4-6) by auto

lemma supply_kept: "lend_kept s s'" if run: "supply_tx u c x s = Inr (y, s')"
proof -
  from supply_run [OF run] obtain idx s1 ws s2 s3 scaled pos s4 where
    acc: "accrue c s = Inr (idx, s1)" and ws: "lend_wallets u c s1 = Inr (ws, s2)" and
    mv: "ledger_move (fst ws) (snd ws) x LEND_SUPPLY (lend_reference u c) (''Supply '' @ coin_str c)
         (''Supply intake '' @ coin_str c) s2 = Inr ((), s3)" and
    gp: "get_or_create_position u c s3 = Inr (pos, s4)" and add: "add_supply (ps_id pos) c scaled s4 = Inr ((), s')" by blast
  have nm1: "no_money s s1" using accrue_effect [OF acc] by blast
  note w = lend_wallets_Inr [OF ws] and m = ledger_move_effect [OF mv]
  have nm: "no_money s s2" using no_money_trans [OF nm1] w by blast
  have "no_money s3 s4" using get_or_create_position_effect [OF gp] by blast
  with burns_no_money(1) [OF add] have nm': "no_money s3 s'" using no_money_trans by blast
  have books: "books_ok s \<longrightarrow> books_ok s' \<and> (\<forall>c. coin_total s' c = coin_total s c)"
    using one_move_kept [OF nm _ nm'] m w no_money_accounts [OF nm1] by metis
  have "totals_ok s'" if ok: "totals_ok s"
  proof -
    note t1 = totals_accrue [OF acc ok]
    have t3: "totals_ok s3" "c \<in> rs_coin ` set (reserves s3)"
      using totals_no_lending [of s1 s2] totals_no_lending [of s2 s3] t1 w m by (simp_all add: no_lending_def)
    note t4 = totals_position [OF gp t3]
    from t4 obtain r where "r \<in> set (positions s4)" "po_id r = ps_id pos" "po_coin r = c" by blast
    with totals_add_supply [of r scaled s4 "()" s'] add t4 show ?thesis by simp
  qed
  with books show ?thesis by (simp add: lend_kept_def)
qed

lemma withdraw_kept: "lend_kept s s'" if run: "withdraw_tx u c x st s = Inr (y, s')"
proof -
  from withdraw_run [OF run] obtain idx s1 prices t1 ws s2 pos s3 supply_real totals s4 scaled where
    acc: "accrue c s = Inr (idx, s1)" and lp: "load_price_table st s1 = Inr (prices, t1)" and
    ws: "lend_wallets u c t1 = Inr (ws, s2)" and gp: "get_or_create_position u c s2 = Inr (pos, s3)" and
    pos: "0 < scaled_supply pos" "scaled_to_amount (scaled_supply pos) (liquidity_index idx) = Some supply_real" and
    mv: "ledger_move (snd ws) (fst ws) (min x supply_real) LEND_WITHDRAW (lend_reference u c) (''Withdraw payout '' @ coin_str c)
         (''Withdraw '' @ coin_str c @ '' (incl. interest)'') s3 = Inr ((), s4)" and
    sc: "amount_to_scaled (min x supply_real) (liquidity_index idx) = Some scaled" and
    set: "set_supply (ps_id pos) c (scaled_supply pos - scaled) scaled s4 = Inr ((), s')" by blast
  have t1 [simp]: "t1 = s1" using load_price_table_Inr [OF lp] by blast
  have nm1: "no_money s s1" using accrue_effect [OF acc] by blast
  note w = lend_wallets_Inr [OF ws [unfolded t1]] and m = ledger_move_effect [OF mv] and e = get_or_create_position_effect [OF gp]
  have nm: "no_money s s3" using nm1 w e no_money_trans by blast
  have books: "books_ok s \<longrightarrow> books_ok s' \<and> (\<forall>c. coin_total s' c = coin_total s c)"
    using one_move_kept [OF nm _ burns_no_money(3) [OF set]] m w no_money_accounts [OF nm1] by metis
  have "totals_ok s'" if ok: "totals_ok s"
  proof -
    note t1 = totals_accrue [OF acc ok]
    have t2: "totals_ok s2" "c \<in> rs_coin ` set (reserves s2)"
      using totals_no_lending [of s1 s2] t1 w by (simp_all add: no_lending_def)
    note t3 = totals_position [OF gp t2]
    from t3 obtain r where r: "r \<in> set (positions s3)" "po_id r = ps_id pos" "po_coin r = c" "pos = position_of r" by blast
    have "totals_ok s4" "positions s4 = positions s3" using totals_no_lending [of s3 s4] t3 m by (simp_all add: no_lending_def)
    moreover have "int (scaled_supply pos) = po_scaled_supply r"
      using pos(1) unfolding r(4) position_of_def by (simp add: dec_to_u128_or_exact)
    moreover have "scaled \<le> scaled_supply pos" using burn_within [OF pos(2) _ sc] by simp
    ultimately show ?thesis using totals_set_supply [of r "scaled_supply pos" scaled s4 "()" s'] set r(1-3) by simp
  qed
  with books show ?thesis by (simp add: lend_kept_def)
qed

lemma borrow_kept: "lend_kept s s'" if run: "borrow_tx u c x st s = Inr (y, s')"
proof -
  from borrow_run [OF run] obtain idx s1 prices t1 ws s2 totals s3 scaled pos s4 where
    acc: "accrue c s = Inr (idx, s1)" and lp: "load_price_table st s1 = Inr (prices, t1)" and
    ws: "lend_wallets u c t1 = Inr (ws, s2)" and
    mv: "ledger_move (snd ws) (fst ws) x LEND_BORROW (lend_reference u c) (''Borrow disbursement '' @ coin_str c)
         (''Borrow '' @ coin_str c) s2 = Inr ((), s3)" and
    gp: "get_or_create_position u c s3 = Inr (pos, s4)" and add: "add_debt (ps_id pos) c scaled s4 = Inr ((), s')" by blast
  have t1 [simp]: "t1 = s1" using load_price_table_Inr [OF lp] by blast
  have nm1: "no_money s s1" using accrue_effect [OF acc] by blast
  note w = lend_wallets_Inr [OF ws [unfolded t1]] and m = ledger_move_effect [OF mv]
  have nm: "no_money s s2" using no_money_trans [OF nm1] w by blast
  have "no_money s3 s4" using get_or_create_position_effect [OF gp] by blast
  with burns_no_money(2) [OF add] have nm': "no_money s3 s'" using no_money_trans by blast
  have books: "books_ok s \<longrightarrow> books_ok s' \<and> (\<forall>c. coin_total s' c = coin_total s c)"
    using one_move_kept [OF nm _ nm'] m w no_money_accounts [OF nm1] by metis
  have "totals_ok s'" if ok: "totals_ok s"
  proof -
    note t1 = totals_accrue [OF acc ok]
    have t3: "totals_ok s3" "c \<in> rs_coin ` set (reserves s3)"
      using totals_no_lending [of s1 s2] totals_no_lending [of s2 s3] t1 w m by (simp_all add: no_lending_def)
    note t4 = totals_position [OF gp t3]
    from t4 obtain r where "r \<in> set (positions s4)" "po_id r = ps_id pos" "po_coin r = c" by blast
    with totals_add_debt [of r scaled s4 "()" s'] add t4 show ?thesis by simp
  qed
  with books show ?thesis by (simp add: lend_kept_def)
qed

lemma repay_kept: "lend_kept s s'" if run: "repay_tx u c x s = Inr (y, s')"
proof -
  from repay_run [OF run] obtain idx s1 ws s2 pos s3 debt_real s4 scaled where
    acc: "accrue c s = Inr (idx, s1)" and
    ws: "lend_wallets u c s1 = Inr (ws, s2)" and gp: "get_or_create_position u c s2 = Inr (pos, s3)" and
    pos: "0 < scaled_debt pos" "scaled_to_amount (scaled_debt pos) (borrow_index idx) = Some debt_real" and
    mv: "ledger_move (fst ws) (snd ws) (min x debt_real) LEND_REPAY (lend_reference u c)
         (''Repay '' @ coin_str c @ '' (incl. interest)'') (''Repay intake '' @ coin_str c) s3 = Inr ((), s4)" and
    sc: "amount_to_scaled (min x debt_real) (borrow_index idx) = Some scaled" and
    set: "set_debt (ps_id pos) c (scaled_debt pos - scaled) scaled s4 = Inr ((), s')" by blast
  have nm1: "no_money s s1" using accrue_effect [OF acc] by blast
  note w = lend_wallets_Inr [OF ws] and m = ledger_move_effect [OF mv] and e = get_or_create_position_effect [OF gp]
  have nm: "no_money s s3" using nm1 w e no_money_trans by blast
  have books: "books_ok s \<longrightarrow> books_ok s' \<and> (\<forall>c. coin_total s' c = coin_total s c)"
    using one_move_kept [OF nm _ burns_no_money(4) [OF set]] m w no_money_accounts [OF nm1] by metis
  have "totals_ok s'" if ok: "totals_ok s"
  proof -
    note t1 = totals_accrue [OF acc ok]
    have t2: "totals_ok s2" "c \<in> rs_coin ` set (reserves s2)"
      using totals_no_lending [of s1 s2] t1 w by (simp_all add: no_lending_def)
    note t3 = totals_position [OF gp t2]
    from t3 obtain r where r: "r \<in> set (positions s3)" "po_id r = ps_id pos" "po_coin r = c" "pos = position_of r" by blast
    have "totals_ok s4" "positions s4 = positions s3" using totals_no_lending [of s3 s4] t3 m by (simp_all add: no_lending_def)
    moreover have "int (scaled_debt pos) = po_scaled_debt r"
      using pos(1) unfolding r(4) position_of_def by (simp add: dec_to_u128_or_exact)
    moreover have "scaled \<le> scaled_debt pos" using burn_within [OF pos(2) _ sc] by simp
    ultimately show ?thesis using totals_set_debt [of r "scaled_debt pos" scaled s4 "()" s'] set r(1-3) by simp
  qed
  with books show ?thesis by (simp add: lend_kept_def)
qed

lemma accrue_opt_effect:
  assumes "(if cc = dc then tx_return idx else accrue cc) s = Inr (idx', s')"
  shows "no_money s s' \<and> positions s' = positions s \<and>
    (totals_ok s \<and> dc \<in> rs_coin ` set (reserves s) \<longrightarrow> totals_ok s' \<and> {dc, cc} \<subseteq> rs_coin ` set (reserves s'))"
proof (cases "cc = dc")
  case False
  with assms have acc: "accrue cc s = Inr (idx', s')" by simp
  show ?thesis using accrue_effect [OF acc] totals_accrue [OF acc] by blast
qed (use assms in \<open>simp add: tx_simps\<close>)

lemma liquidation_log_effect:
  assumes "liquidation_log l b dc cc repay seize s = Inr (i, s')"
  shows "no_money s s' \<and> no_lending s s'"
  using assms by (auto simp: liquidation_log_def tx_map_err_Inr record_log_Inr audited_def no_money_def no_lending_def)

text \<open>The two moves of a liquidation.\<close>

lemma liquidate_money:
  assumes mv: "liquidate_moves l b dc cc repay seize s = Inr ((), s')"
  shows "(books_ok s \<longrightarrow> books_ok s' \<and> (\<forall>c. coin_total s' c = coin_total s c)) \<and> no_lending s s' \<and>
    (\<exists>ld lc pd pc. wallet_id_of s l dc PERSONAL = Some ld \<and> wallet_id_of s l cc PERSONAL = Some lc \<and>
       house_wallet_id s LEND_POOL dc = Inr pd \<and> house_wallet_id s LEND_POOL cc = Inr pc \<and>
       (\<exists>t. money_moved s t ld pd (int repay) \<and> money_moved t s' pc lc (int seize)))"
proof -
  from liquidate_moves_run [OF mv] obtain ld lc pd pc s1 s2 where
    ids: "wallet_id_of s l dc PERSONAL = Some ld" "wallet_id_of s l cc PERSONAL = Some lc"
       "house_wallet_id s LEND_POOL dc = Inr pd" "house_wallet_id s LEND_POOL cc = Inr pc" and
    lk: "lock_wallets [ld, lc, pd, pc] s = Inr ((), s1)" and
    m1: "ledger_move ld pd repay LIQUIDATION (lend_reference b dc)
         (''Liquidation repay '' @ coin_str dc @ '' for '' @ take 8 (show_uuid b) @ utf8_ellipsis)
         (''Liquidation repay intake '' @ coin_str dc) s1 = Inr ((), s2)" and
    m2: "ledger_move pc lc seize LIQUIDATION (lend_reference b cc)
         (''Liquidation collateral release '' @ coin_str cc)
         (''Liquidation collateral seized '' @ coin_str cc @ '' (incl. bonus)'') s2 = Inr ((), s')" by blast
  note e1 = ledger_move_effect [OF m1] and e2 = ledger_move_effect [OF m2]
  have l: "no_money s s1" "no_lending s s1" using lk by (auto simp: lock_wallets_Inr no_money_def no_lending_def)
  have m: "money_moved s s2 ld pd (int repay)" using money_moved_frame [OF l(1) _ no_money_refl] e1 by blast
  have w: "wallets s2 = wallets s" "users s2 = users s" using m by (simp_all add: money_moved_def)
  have ids2: "wallet_id_of s2 l cc PERSONAL = Some lc" "house_wallet_id s2 LEND_POOL cc = Inr pc"
    using ids wallet_id_of_cong [OF w(1)] house_wallet_id_cong [OF w(2,1)] by simp_all
  have b1: "books_ok s \<longrightarrow> books_ok s2 \<and> (\<forall>c. coin_total s2 c = coin_total s c)"
    using moved_between_accounts [OF m, of l dc PERSONAL l LEND_POOL] ids by blast
  have b2: "books_ok s2 \<longrightarrow> books_ok s' \<and> (\<forall>c. coin_total s' c = coin_total s2 c)"
    using moved_between_accounts [of s2 s' pc lc "int seize" l cc LEND_POOL l PERSONAL] e2 ids2 by blast
  have "no_lending s s'" using l(2) e1 e2 by (simp add: no_lending_def)
  moreover have "books_ok s \<longrightarrow> books_ok s' \<and> (\<forall>c. coin_total s' c = coin_total s c)" using b1 b2 by simp
  ultimately show ?thesis using ids m e2 by blast
qed

lemma update_where_mem: "r \<in> set rows \<Longrightarrow> (if p r then f r else r) \<in> set (update_where p f rows)"
  by (auto simp: in_set_update_where)

lemma liquidate_kept: "lend_kept s s'"
  if run: "liquidate_tx l b dc cc x cf st s = Inr (y, s')" and cf: "cf \<le> 10000"
proof -
  from liquidate_run [OF run] obtain prices s0 idx_debt s1 idx_coll s2 dpos s3 cpos s4 debt_real coll_real s5
      scaled_repaid s6 scaled_seized s7 i repay seize where
    lp: "load_price_table st s = Inr (prices, s0)" and acc: "accrue dc s0 = Inr (idx_debt, s1)" and
    acc2: "(if cc = dc then tx_return idx_debt else accrue cc) s1 = Inr (idx_coll, s2)" and
    gd: "get_or_create_position b dc s2 = Inr (dpos, s3)" and d0: "0 < scaled_debt dpos" and
    gc: "get_or_create_position b cc s3 = Inr (cpos, s4)" and c0: "0 < scaled_supply cpos" and
    dr: "scaled_to_amount (scaled_debt dpos) (borrow_index idx_debt) = Some debt_real" and
    cr: "scaled_to_amount (scaled_supply cpos) (liquidity_index idx_coll) = Some coll_real" and
    la: "liquidation_amounts prices dc cc x cf debt_real coll_real = (repay, seize)" and
    mv: "liquidate_moves l b dc cc repay seize s4 = Inr ((), s5)" and
    sr: "amount_to_scaled repay (borrow_index idx_debt) = Some scaled_repaid" and
    sd: "set_debt (ps_id dpos) dc (scaled_debt dpos - scaled_repaid) scaled_repaid s5 = Inr ((), s6)" and
    ss: "amount_to_scaled seize (liquidity_index idx_coll) = Some scaled_seized" and
    sp: "set_supply (ps_id cpos) cc (scaled_supply cpos - scaled_seized) scaled_seized s6 = Inr ((), s7)" and
    lg: "liquidation_log l b dc cc repay seize s7 = Inr (i, s')"
    by (elim exE conjE) (rule that; assumption)
  have s0: "s0 = s" using load_price_table_Inr [OF lp] by blast
  note acc = acc [unfolded s0]
  note e1 = accrue_effect [OF acc] and e2 = accrue_opt_effect [OF acc2]
    and e3 = get_or_create_position_effect [OF gd] and e4 = get_or_create_position_effect [OF gc]
    and m = liquidate_money [OF mv] and e6 = burns_no_money(4) [OF sd] and e7 = burns_no_money(3) [OF sp]
  have nm: "no_money s s4" using e1 e2 e3 e4 no_money_trans by meson
  note e8 = liquidation_log_effect [OF lg]
  have nm': "no_money s5 s'" using no_money_trans [OF no_money_trans [OF e6 e7]] e8 by blast
  have books: "books_ok s \<longrightarrow> books_ok s' \<and> (\<forall>c. coin_total s' c = coin_total s c)"
    using no_money_lend_kept [OF nm] no_money_lend_kept [OF nm'] m by simp
  have "totals_ok s'" if ok: "totals_ok s"
  proof -
    note t1 = totals_accrue [OF acc ok]
    have t2: "totals_ok s2" "dc \<in> rs_coin ` set (reserves s2)" "cc \<in> rs_coin ` set (reserves s2)" using e2 t1 by auto
    note t3 = totals_position [OF gd t2(1,2)]
    have t3': "totals_ok s3" "cc \<in> rs_coin ` set (reserves s3)" using t3 t2 by simp_all
    note t4 = totals_position [OF gc t3']
    from t3 obtain r where r: "r \<in> set (positions s3)" "po_id r = ps_id dpos" "po_coin r = dc" "dpos = position_of r" by blast
    from t4 obtain q where q: "q \<in> set (positions s4)" "po_id q = ps_id cpos" "po_coin q = cc" "cpos = position_of q" by blast
    have r4: "r \<in> set (positions s4)" using t4 r(1) by blast
    have t5: "totals_ok s5" "positions s5 = positions s4" using totals_no_lending [of s4 s5] t4 m by (simp_all add: no_lending_def)
    have nd: "int (scaled_debt dpos) = po_scaled_debt r" using d0 unfolding r(4) position_of_def by (simp add: dec_to_u128_or_exact)
    have nc: "int (scaled_supply cpos) = po_scaled_supply q" using c0 unfolding q(4) position_of_def by (simp add: dec_to_u128_or_exact)
    have "repay \<le> debt_real" using liquidation_within(1) [OF la] close_factor_within [OF cf, of debt_real] by simp
    then have br: "scaled_repaid \<le> scaled_debt dpos" by (rule burn_within [OF dr _ sr])
    have bs: "scaled_seized \<le> scaled_supply cpos" by (rule burn_within [OF cr liquidation_within(2) [OF la] ss])
    have t6: "totals_ok s6"
      using totals_set_debt [of r "scaled_debt dpos" scaled_repaid s5 "()" s6] sd r(2,3) r4 t5 nd br by simp
    let ?f = "\<lambda>r. r\<lparr>po_scaled_debt := int (scaled_debt dpos - scaled_repaid)\<rparr>"
    let ?q = "if po_id q = ps_id dpos then ?f q else q"
    have "positions s6 = update_where (\<lambda>r. po_id r = ps_id dpos) ?f (positions s4)"
      using sd t5(2) by (simp add: set_debt_Inr)
    then have q6: "?q \<in> set (positions s6)"
      using update_where_mem [OF q(1), of "\<lambda>r. po_id r = ps_id dpos" ?f] by simp
    have qs: "po_id ?q = ps_id cpos" "po_coin ?q = cc" "po_scaled_supply ?q = int (scaled_supply cpos)" using q nc by simp_all
    have "totals_ok s7"
      using totals_set_supply [of ?q "scaled_supply cpos" scaled_seized s6 "()" s7] sp qs q6 t6 bs by simp
    then show ?thesis using totals_no_lending [of s7 s'] e8 by blast
  qed
  with books show ?thesis by (simp add: lend_kept_def)
qed

section \<open>Runs\<close>

text \<open>A call of the service by its caller, and what it leaves; a failed call rolls back.\<close>

datatype lend_call =
  Supply uuid Coin nat
| Withdraw uuid Coin nat
| Borrow uuid Coin nat
| Repay uuid Coin nat
| Liquidate uuid uuid Coin Coin nat
| Tick int

definition lend_apply :: "nat \<Rightarrow> int \<Rightarrow> lend_call \<Rightarrow> db \<Rightarrow> db" where
  "lend_apply close_factor max_stale call s =
     (case call of
        Supply u c x \<Rightarrow> snd (lend_supply u c x s)
      | Withdraw u c x \<Rightarrow> snd (lend_withdraw u c x max_stale s)
      | Borrow u c x \<Rightarrow> snd (lend_borrow u c x max_stale s)
      | Repay u c x \<Rightarrow> snd (lend_repay u c x s)
      | Liquidate l b dc cc x \<Rightarrow> snd (liquidate l b dc cc x close_factor max_stale s)
      | Tick t \<Rightarrow> s\<lparr>clock := t\<rparr>)"

lemma lend_kept_refl: "lend_kept s s" by (simp add: lend_kept_def)

lemma lend_kept_trans: "lend_kept s t \<Longrightarrow> lend_kept t u \<Longrightarrow> lend_kept s u"
  by (simp add: lend_kept_def)

lemma lend_kept_frame:
  "wallets t = wallets s \<Longrightarrow> ledger t = ledger s \<Longrightarrow> reserves t = reserves s \<Longrightarrow> positions t = positions s \<Longrightarrow>
     next_id t = next_id s \<Longrightarrow> lend_kept s t"
  unfolding lend_kept_def using books_ok_cong [of t s] coin_total_cong [of t s] totals_ok_cong [of t s] by simp

lemma lend_kept_commit:
  assumes "\<And>y s'. m s = Inr (y, s') \<Longrightarrow> lend_kept s s'"
  shows "lend_kept s (snd (commit_tx release_locks m s))"
proof (cases "m s")
  case (Inl e)
  then show ?thesis by (simp add: commit_tx_Inl lend_kept_refl)
next
  case (Inr p)
  obtain y s' where p: "p = (y, s')" by (cases p)
  have "lend_kept s' (release_locks s')" by (rule lend_kept_frame) (simp_all add: release_locks_def)
  with assms [of y s'] Inr p show ?thesis using lend_kept_trans [of s s' "release_locks s'"] by (simp add: commit_tx_Inr)
qed

lemma lend_apply_kept:
  assumes "cf \<le> 10000"
  shows "lend_kept s (lend_apply cf st call s)"
proof (cases call)
  case (Tick t)
  have "lend_kept s (s\<lparr>clock := t\<rparr>)" by (rule lend_kept_frame) simp_all
  with Tick show ?thesis by (simp add: lend_apply_def)
qed (simp_all add: lend_apply_def lend_supply_def lend_withdraw_def lend_borrow_def lend_repay_def liquidate_def
     lend_kept_commit supply_kept withdraw_kept borrow_kept repay_kept liquidate_kept [OF _ assms])

lemma lend_run_kept:
  assumes "cf \<le> 10000"
  shows "lend_kept s (fold (lend_apply cf st) calls s)"
proof (induction calls arbitrary: s)
  case (Cons a as)
  show ?case using lend_kept_trans [OF lend_apply_kept [OF assms, of s st a] Cons [of "lend_apply cf st a s"]] by simp
qed (simp add: lend_kept_refl)

section \<open>Properties\<close>

text \<open>
  C23. Lending conserves money: along every sequence of supplies, withdrawals, borrows, repayments
  and liquidations, whether they succeed or fail and however time passes between them, the total
  of every coin stays what it was, no balance goes negative, and the totals of each reserve stay
  the sum of its positions.
\<close>

theorem lending_conserves:
  assumes "books_ok s" and "totals_ok s" and "close_factor \<le> 10000"
    and "s' = fold (lend_apply close_factor max_stale) calls s"
  shows "books_ok s' \<and> totals_ok s' \<and> (\<forall>c. coin_total s' c = coin_total s c)"
  using lend_run_kept [OF assms(3), of s max_stale calls] assms(1,2,4) by (simp add: lend_kept_def)

lemma account_liquidity_cong:
  "reserves t = reserves s \<Longrightarrow> positions t = positions s \<Longrightarrow> account_liquidity t u fresh prices = account_liquidity s u fresh prices"
proof -
  assume e: "reserves t = reserves s" "positions t = positions s"
  then have "find_reserve t = find_reserve s" by (intro ext) (simp add: find_reserve_def)
  then have "index_for t fresh = index_for s fresh" unfolding index_for_def by (simp only:)
  then show ?thesis using e by (simp add: account_liquidity_def)
qed

lemma dec_to_u128_or_le: "0 \<le> b \<Longrightarrow> int (dec_to_u128_or 0 b) \<le> b"
  by (simp add: dec_to_u128_or_def dec_to_u128_def)

lemma money_moved_release: "money_moved s s' a b x \<Longrightarrow> money_moved s (release_locks s') a b x"
  using money_moved_frame [OF no_money_refl _, of s s' a b x "release_locks s'"]
  by (simp add: no_money_def release_locks_def)

text \<open>
  A loan stays within its limits: it is for an enabled market, covered by the cash of the pool,
  and with it the user's debt stays within the borrow power at the accrued indexes; exactly the
  amount moves from the pool to the user, and no other balance changes.
\<close>

theorem borrow_within_limits:
  assumes "lend_borrow u c x max_stale s = (Inr y, s')"
  shows "y = x \<and> 0 < x \<and> borrow_enabled (lend_market c) \<and>
    (\<exists>idx s1 prices collateral power debt w p.
       accrue c s = Inr (idx, s1) \<and> load_price_table max_stale s1 = Inr (prices, s1) \<and>
       account_liquidity s1 u [(c, idx)] prices = Some (collateral, power, debt) \<and>
       u128_add debt (lend_value_usd prices c x) \<le> power \<and>
       wallet_id_of s u c PERSONAL = Some w \<and> house_wallet_id s LEND_POOL c = Inr p \<and>
       int x \<le> wallet_balance s p \<and>
       (\<forall>v. wallet_balance s' v = wallet_balance s v - (if v = p then int x else 0) + (if v = w then int x else 0)))"
proof -
  from assms obtain t where run: "borrow_tx u c x max_stale s = Inr (y, t)" and s': "s' = release_locks t"
    by (auto simp: lend_borrow_def commit_tx_success)
  from borrow_run [OF run] obtain idx s1 prices t1 ws s2 totals s3 scaled pos s4 where
    y: "y = x" "0 < x" "borrow_enabled (lend_market c)" and
    acc: "accrue c s = Inr (idx, s1)" and lp: "load_price_table max_stale s1 = Inr (prices, t1)" and
    ws: "lend_wallets u c t1 = Inr (ws, s2)" and
    al: "account_liquidity s2 u [(c, idx)] prices = Some totals" and
    lim: "u128_add (snd (snd totals)) (lend_value_usd prices c x) \<le> fst (snd totals)" and
    mv: "ledger_move (snd ws) (fst ws) x LEND_BORROW (lend_reference u c) (''Borrow disbursement '' @ coin_str c)
         (''Borrow '' @ coin_str c) s2 = Inr ((), s3)" and
    gp: "get_or_create_position u c s3 = Inr (pos, s4)" and add: "add_debt (ps_id pos) c scaled s4 = Inr ((), t)" by blast
  have t1 [simp]: "t1 = s1" using load_price_table_Inr [OF lp] by blast
  have nm1: "no_money s s1" using accrue_effect [OF acc] by blast
  note w = lend_wallets_Inr [OF ws [unfolded t1]] and m = ledger_move_effect [OF mv]
  have nm: "no_money s s2" using no_money_trans [OF nm1] w by blast
  have "no_money s3 s4" using get_or_create_position_effect [OF gp] by blast
  with burns_no_money(2) [OF add] have nm': "no_money s3 t" using no_money_trans by blast
  have moved: "money_moved s t (snd ws) (fst ws) (int x)" using money_moved_frame [OF nm _ nm'] m by blast
  have al1: "account_liquidity s1 u [(c, idx)] prices = Some (fst totals, fst (snd totals), snd (snd totals))"
    using al account_liquidity_cong [of s2 s1] w by (simp add: no_lending_def)
  have cash: "int x \<le> wallet_balance s (snd ws)" using m y(2) no_money_balance [OF nm] by simp
  have bal: "\<forall>v. wallet_balance s' v = wallet_balance s v - (if v = snd ws then int x else 0) + (if v = fst ws then int x else 0)"
    using moved by (simp add: money_moved_def s')
  have accounts: "wallet_id_of s u c PERSONAL = Some (fst ws)" "house_wallet_id s LEND_POOL c = Inr (snd ws)"
    using w no_money_accounts [OF nm1] by simp_all
  show ?thesis
    by (intro conjI y, rule exI [of _ idx], rule exI [of _ s1], rule exI [of _ prices], rule exI [of _ "fst totals"],
        rule exI [of _ "fst (snd totals)"], rule exI [of _ "snd (snd totals)"], rule exI [of _ "fst ws"],
        rule exI [of _ "snd ws"], intro conjI acc lp [unfolded t1] al1 lim accounts cash bal)
qed

lemma found_position:
  assumes "get_or_create_position u c s = Inr (p, s')" and "0 < scaled_debt p \<or> 0 < scaled_supply p"
  shows "s' = s \<and> (\<exists>r. find_position s u c = Some r \<and> p = position_of r)"
proof (cases "find_position s u c")
  case None
  with assms show ?thesis by (auto simp: get_or_create_position_def tx_simps fresh_position_def)
next
  case (Some r)
  with assms(1) show ?thesis by (auto simp: get_or_create_position_def tx_simps)
qed

text \<open>
  What a liquidation finds when both interests are settled: the borrower's two positions, as they are
  stored, what they are worth at the settled indexes, and an account whose collateral is worth less
  than its debt.
\<close>

lemma liquidation_finds:
  assumes "liquidate_tx l b dc cc x cf m s = Inr (r, t)"
  shows "\<exists>prices idx_debt sa idx_coll sb power collateral debt dpos cpos debt_real coll_real s5 scaled_repaid scaled_seized.
       load_price_table m s = Inr (prices, s) \<and> accrue dc s = Inr (idx_debt, sa) \<and>
       (if cc = dc then tx_return idx_debt else accrue cc) sa = Inr (idx_coll, sb) \<and> positions sb = positions s \<and>
       account_liquidity sb b (if cc = dc then [(dc, idx_debt)] else [(dc, idx_debt), (cc, idx_coll)]) prices
         = Some (collateral, power, debt) \<and> collateral < debt \<and>
       find_position s b dc = Some dpos \<and> find_position s b cc = Some cpos \<and> po_use_as_collateral cpos \<and>
       scaled_to_amount (scaled_debt (position_of dpos)) (borrow_index idx_debt) = Some debt_real \<and>
       scaled_to_amount (scaled_supply (position_of cpos)) (liquidity_index idx_coll) = Some coll_real \<and>
       liquidation_amounts prices dc cc x cf debt_real coll_real = (lq_repaid r, lq_seized r) \<and>
       amount_to_scaled (lq_repaid r) (borrow_index idx_debt) = Some scaled_repaid \<and>
       amount_to_scaled (lq_seized r) (liquidity_index idx_coll) = Some scaled_seized \<and>
       no_money s sb \<and> liquidate_moves l b dc cc (lq_repaid r) (lq_seized r) sb = Inr ((), s5) \<and> no_money s5 t \<and>
       positions t = update_where (\<lambda>p. po_id p = po_id cpos)
         (\<lambda>p. p\<lparr>po_scaled_supply := int (scaled_supply (position_of cpos) - scaled_seized)\<rparr>)
         (update_where (\<lambda>p. po_id p = po_id dpos)
           (\<lambda>p. p\<lparr>po_scaled_debt := int (scaled_debt (position_of dpos) - scaled_repaid)\<rparr>) (positions s))"
proof -
  from liquidate_run [OF assms] obtain prices s0 idx_debt s1 idx_coll s2 dpos s3 cpos s4 totals debt_real coll_real s5
      scaled_repaid s6 scaled_seized s7 i repay seize where
    lp: "load_price_table m s = Inr (prices, s0)" and acc: "accrue dc s0 = Inr (idx_debt, s1)" and
    acc2: "(if cc = dc then tx_return idx_debt else accrue cc) s1 = Inr (idx_coll, s2)" and
    gd: "get_or_create_position b dc s2 = Inr (dpos, s3)" and d0: "0 < scaled_debt dpos" and
    gc: "get_or_create_position b cc s3 = Inr (cpos, s4)" and c0: "0 < scaled_supply cpos" and uc: "use_as_collateral cpos" and
    al: "account_liquidity s4 b (if cc = dc then [(dc, idx_debt)] else [(dc, idx_debt), (cc, idx_coll)]) prices = Some totals" and
    under: "fst totals < snd (snd totals)" and
    dr: "scaled_to_amount (scaled_debt dpos) (borrow_index idx_debt) = Some debt_real" and
    cr: "scaled_to_amount (scaled_supply cpos) (liquidity_index idx_coll) = Some coll_real" and
    la: "liquidation_amounts prices dc cc x cf debt_real coll_real = (repay, seize)" and
    mv: "liquidate_moves l b dc cc repay seize s4 = Inr ((), s5)" and
    ss: "amount_to_scaled repay (borrow_index idx_debt) = Some scaled_repaid"
      "amount_to_scaled seize (liquidity_index idx_coll) = Some scaled_seized" and
    sd: "set_debt (ps_id dpos) dc (scaled_debt dpos - scaled_repaid) scaled_repaid s5 = Inr ((), s6)" and
    sp: "set_supply (ps_id cpos) cc (scaled_supply cpos - scaled_seized) scaled_seized s6 = Inr ((), s7)" and
    lg: "liquidation_log l b dc cc repay seize s7 = Inr (i, t)" and
    r: "r = \<lparr>lq_borrower_id = b, lq_debt_coin = dc, lq_collateral_coin = cc, lq_repaid = repay, lq_seized = seize\<rparr>"
    by (elim exE conjE) (rule that; assumption)
  have s0: "s0 = s" using load_price_table_Inr [OF lp] by blast
  from found_position [OF gd disjI1 [OF d0]] obtain rd where d: "s3 = s2" "find_position s2 b dc = Some rd" "dpos = position_of rd" by blast
  from found_position [OF gc disjI2 [OF c0]] d(1) obtain rc where
    c: "s4 = s2" "find_position s2 b cc = Some rc" "cpos = position_of rc" by blast
  note settled = accrue_effect [OF acc [unfolded s0]] and settled' = accrue_opt_effect [OF acc2]
  have ps: "positions s2 = positions s"
    by (rule trans [OF conjunct1 [OF conjunct2 [OF settled']] conjunct1 [OF conjunct2 [OF settled]]])
  have nm: "no_money s s2" by (rule no_money_trans [OF conjunct1 [OF settled] conjunct1 [OF settled']])
  have found: "find_position s b dc = Some rd" "find_position s b cc = Some rc"
    using d(2) c(2) ps by (simp_all add: find_position_def)
  have nm': "no_money s5 t"
    using no_money_trans [OF burns_no_money(4) [OF sd] burns_no_money(3) [OF sp]] liquidation_log_effect [OF lg] no_money_trans by blast
  have after: "positions t = update_where (\<lambda>p. po_id p = po_id rc)
         (\<lambda>p. p\<lparr>po_scaled_supply := int (scaled_supply (position_of rc) - scaled_seized)\<rparr>)
         (update_where (\<lambda>p. po_id p = po_id rd)
           (\<lambda>p. p\<lparr>po_scaled_debt := int (scaled_debt (position_of rd) - scaled_repaid)\<rparr>) (positions s))"
    using liquidation_log_effect [OF lg] sp sd liquidate_money [OF mv]
    by (simp add: set_debt_Inr set_supply_Inr no_lending_def c(1,3) d(3) ps position_of_def)
  have coll: "po_use_as_collateral rc" using uc by (simp add: c(3) position_of_def)
  have tot: "account_liquidity s2 b (if cc = dc then [(dc, idx_debt)] else [(dc, idx_debt), (cc, idx_coll)]) prices
      = Some (fst totals, fst (snd totals), snd (snd totals))" using al c(1) by simp
  show ?thesis unfolding r LiquidationResult.simps
    by (rule exI, rule exI, rule exI, rule exI, rule exI, rule exI, rule exI, rule exI, rule exI, rule exI, rule exI, rule exI,
        rule exI, rule exI, rule exI, intro conjI, rule lp [unfolded s0], rule acc [unfolded s0], rule acc2, rule ps, rule tot, rule under,
        rule found(1), rule found(2), rule coll, rule dr [unfolded d(3)], rule cr [unfolded c(3)], rule la, rule ss(1), rule ss(2),
        rule nm, rule mv [unfolded c(1)], rule nm', rule after)
qed

text \<open>
  C24. A liquidation is bounded: only another user's underwater position is liquidated, by the account
  as it is stored and the interest settled at that moment; the repayment is at most what was asked for
  and at most the close factor's share of the stored debt, no more than the stored collateral is seized,
  the two positions lose what was repaid and seized at the settled indexes and no other position
  changes, and exactly these two amounts move between the liquidator and the pools.
\<close>

theorem liquidation_bounded:
  assumes "liquidate l b dc cc x close_factor max_stale s = (Inr r, s')"
  shows "l \<noteq> b \<and> 0 < lq_repaid r \<and> lq_repaid r \<le> x \<and> 0 < lq_seized r \<and> can_be_collateral (lend_market cc) \<and>
    (\<exists>prices idx_debt sa idx_coll sb collateral power debt dpos cpos debt_real coll_real scaled_repaid scaled_seized.
       load_price_table max_stale s = Inr (prices, s) \<and> accrue dc s = Inr (idx_debt, sa) \<and>
       (if cc = dc then tx_return idx_debt else accrue cc) sa = Inr (idx_coll, sb) \<and> positions sb = positions s \<and>
       account_liquidity sb b (if cc = dc then [(dc, idx_debt)] else [(dc, idx_debt), (cc, idx_coll)]) prices
         = Some (collateral, power, debt) \<and> collateral < debt \<and>
       find_position s b dc = Some dpos \<and> find_position s b cc = Some cpos \<and> po_use_as_collateral cpos \<and>
       scaled_to_amount (scaled_debt (position_of dpos)) (borrow_index idx_debt) = Some debt_real \<and>
       scaled_to_amount (scaled_supply (position_of cpos)) (liquidity_index idx_coll) = Some coll_real \<and>
       lq_repaid r \<le> debt_real * close_factor div 10000 \<and> lq_seized r \<le> coll_real \<and>
       amount_to_scaled (lq_repaid r) (borrow_index idx_debt) = Some scaled_repaid \<and>
       amount_to_scaled (lq_seized r) (liquidity_index idx_coll) = Some scaled_seized \<and>
       positions s' = update_where (\<lambda>p. po_id p = po_id cpos)
         (\<lambda>p. p\<lparr>po_scaled_supply := int (scaled_supply (position_of cpos) - scaled_seized)\<rparr>)
         (update_where (\<lambda>p. po_id p = po_id dpos)
           (\<lambda>p. p\<lparr>po_scaled_debt := int (scaled_debt (position_of dpos) - scaled_repaid)\<rparr>) (positions s))) \<and>
    (\<exists>ld lc pd pc. wallet_id_of s l dc PERSONAL = Some ld \<and> wallet_id_of s l cc PERSONAL = Some lc \<and>
       house_wallet_id s LEND_POOL dc = Inr pd \<and> house_wallet_id s LEND_POOL cc = Inr pc \<and>
       (\<forall>v. wallet_balance s' v = wallet_balance s v
          - (if v = ld then int (lq_repaid r) else 0) + (if v = pd then int (lq_repaid r) else 0)
          - (if v = pc then int (lq_seized r) else 0) + (if v = lc then int (lq_seized r) else 0)))"
proof -
  from assms obtain t where run: "liquidate_tx l b dc cc x close_factor max_stale s = Inr (r, t)" and s': "s' = release_locks t"
    by (auto simp: liquidate_def commit_tx_success)
  have guards: "l \<noteq> b \<and> can_be_collateral (lend_market cc) \<and> 0 < lq_repaid r \<and> 0 < lq_seized r"
    using liquidate_run [OF run] by (elim exE conjE) simp
  have ps: "positions s' = positions t" and rel: "\<And>u. no_money u t \<Longrightarrow> no_money u s'" by (simp_all add: s' release_locks_def no_money_def)
  from liquidation_finds [OF run] obtain prices idx_debt sa idx_coll sb power collateral debt dpos cpos debt_real coll_real s5
      scaled_repaid scaled_seized where
    facts: "load_price_table max_stale s = Inr (prices, s)" "accrue dc s = Inr (idx_debt, sa)"
      "(if cc = dc then tx_return idx_debt else accrue cc) sa = Inr (idx_coll, sb)" "positions sb = positions s"
      "account_liquidity sb b (if cc = dc then [(dc, idx_debt)] else [(dc, idx_debt), (cc, idx_coll)]) prices
         = Some (collateral, power, debt)" "collateral < debt"
      "find_position s b dc = Some dpos" "find_position s b cc = Some cpos" "po_use_as_collateral cpos"
      "scaled_to_amount (scaled_debt (position_of dpos)) (borrow_index idx_debt) = Some debt_real"
      "scaled_to_amount (scaled_supply (position_of cpos)) (liquidity_index idx_coll) = Some coll_real"
    and la: "liquidation_amounts prices dc cc x close_factor debt_real coll_real = (lq_repaid r, lq_seized r)"
    and burnt: "amount_to_scaled (lq_repaid r) (borrow_index idx_debt) = Some scaled_repaid"
      "amount_to_scaled (lq_seized r) (liquidity_index idx_coll) = Some scaled_seized"
    and nm: "no_money s sb" and mv: "liquidate_moves l b dc cc (lq_repaid r) (lq_seized r) sb = Inr ((), s5)" and nm': "no_money s5 t"
    and after: "positions t = update_where (\<lambda>p. po_id p = po_id cpos)
         (\<lambda>p. p\<lparr>po_scaled_supply := int (scaled_supply (position_of cpos) - scaled_seized)\<rparr>)
         (update_where (\<lambda>p. po_id p = po_id dpos)
           (\<lambda>p. p\<lparr>po_scaled_debt := int (scaled_debt (position_of dpos) - scaled_repaid)\<rparr>) (positions s))"
    by (elim exE conjE) (rule that; assumption)
  have bound: "lq_repaid r \<le> x" "lq_repaid r \<le> debt_real * close_factor div 10000" "lq_seized r \<le> coll_real"
    using liquidation_within [OF la] div_le_mono [OF u128_mul_le [of debt_real close_factor], of 10000] by simp_all
  from liquidate_money [OF mv] obtain ld lc pd pc u where
    ids: "wallet_id_of sb l dc PERSONAL = Some ld" "wallet_id_of sb l cc PERSONAL = Some lc"
      "house_wallet_id sb LEND_POOL dc = Inr pd" "house_wallet_id sb LEND_POOL cc = Inr pc"
    and mm: "money_moved sb u ld pd (int (lq_repaid r))" "money_moved u s5 pc lc (int (lq_seized r))" by blast
  have bal: "\<forall>v. wallet_balance s' v = wallet_balance s v
          - (if v = ld then int (lq_repaid r) else 0) + (if v = pd then int (lq_repaid r) else 0)
          - (if v = pc then int (lq_seized r) else 0) + (if v = lc then int (lq_seized r) else 0)"
    using money_moved_frame [OF nm mm(1) no_money_refl] money_moved_frame [OF no_money_refl mm(2) rel [OF nm']]
    by (simp add: money_moved_def)
  show ?thesis
    by (intro conjI, use guards in blast, use guards in blast, rule bound(1), use guards in blast, use guards in blast,
        (rule exI)+, intro conjI, (rule facts)+, rule bound(2), rule bound(3), rule burnt(1), rule burnt(2),
        unfold ps, rule after, rule exI [of _ ld], rule exI [of _ lc], rule exI [of _ pd], rule exI [of _ pc],
        use ids bal in \<open>simp add: no_money_accounts [OF nm]\<close>)
qed

text \<open>The entry that stands for an operation of a user on a coin: its key names only those two.\<close>

definition keyed_entry :: "uuid \<Rightarrow> ledger_type \<Rightarrow> uuid \<Rightarrow> Coin \<Rightarrow> db \<Rightarrow> bool" where
  "keyed_entry w ty u c s \<longleftrightarrow> (\<exists>e\<in>set (ledger s). le_wallet e = w \<and> le_type e = ty \<and>
     le_reference_key e = Some (lend_reference u c) \<and> le_reference_type e = Some ''LendPosition'')"

lemma entry_key [simp]: "le_reference_key (entry_of i e t) = in_reference_key i"
  by (simp add: entry_of_def)

lemma move_keys:
  assumes "ledger_move a b x ty (lend_reference u c) m1 m2 s = Inr (y, s')"
  shows "\<not> keyed_entry a ty u c s \<and> \<not> keyed_entry b ty u c s \<and> keyed_entry a ty u c s' \<and> keyed_entry b ty u c s'"
proof -
  let ?i = "lend_leg a (- int x) ty (lend_reference u c) m1" and ?j = "lend_leg b (int x) ty (lend_reference u c) m2"
  have p: "can_post ?i s" "can_post ?j (post_entry ?i s)" and s': "s' = post_entry ?j (post_entry ?i s)"
    using assms by (simp_all add: ledger_move_Inr)
  have "set (ledger s) \<subseteq> set (ledger (post_entry ?i s))" by (auto simp: post_entry_def)
  with p have "\<forall>e\<in>set (ledger s). \<not> key_conflict ?i e \<and> \<not> key_conflict ?j e" unfolding can_post_def by blast
  then have "\<not> keyed_entry a ty u c s \<and> \<not> keyed_entry b ty u c s"
    by (auto simp: keyed_entry_def key_conflict_def)
  moreover have "keyed_entry a ty u c s' \<and> keyed_entry b ty u c s'"
    by (simp add: keyed_entry_def s' post_entry_def)
  ultimately show ?thesis by blast
qed

definition keys_once :: "(LendError, nat) op \<Rightarrow> ledger_type \<Rightarrow> uuid \<Rightarrow> Coin \<Rightarrow> bool" where
  "keys_once m ty u c \<longleftrightarrow> (\<forall>s y s'. m s = Inr (y, s') \<longrightarrow> (\<exists>w. wallet_id_of s u c PERSONAL = Some w \<and>
     \<not> keyed_entry w ty u c s \<and> keyed_entry w ty u c s' \<and> wallets s' = wallets s))"

lemma keyed_entry_cong: "ledger t = ledger s \<Longrightarrow> keyed_entry w ty u c t = keyed_entry w ty u c s"
  by (simp add: keyed_entry_def)

lemma keys_onceI:
  assumes "\<And>s y s'. m s = Inr (y, s') \<Longrightarrow> \<exists>t t' a b x m1 m2 w. no_money s t \<and>
     ledger_move a b x ty (lend_reference u c) m1 m2 t = Inr ((), t') \<and> no_money t' s' \<and> wallet_id_of s u c PERSONAL = Some w \<and> w \<in> {a, b}"
  shows "keys_once m ty u c"
  unfolding keys_once_def
proof (intro allI impI)
  fix s y s' assume "m s = Inr (y, s')"
  from assms [OF this] obtain t t' a b x m1 m2 w where f: "no_money s t" "no_money t' s'" and
     mv: "ledger_move a b x ty (lend_reference u c) m1 m2 t = Inr ((), t')" and
     w: "wallet_id_of s u c PERSONAL = Some w" "w \<in> {a, b}" by blast
  have l: "ledger t = ledger s" "ledger s' = ledger t'" using f by (simp_all add: no_money_def)
  have "wallets s' = wallets s" using f ledger_move_effect [OF mv] by (simp add: no_money_def no_lending_def)
  then show "\<exists>w. wallet_id_of s u c PERSONAL = Some w \<and> \<not> keyed_entry w ty u c s \<and> keyed_entry w ty u c s' \<and> wallets s' = wallets s"
    using move_keys [OF mv] keyed_entry_cong [OF l(1)] keyed_entry_cong [OF l(2)] w by blast
qed

lemma supply_keys: "keys_once (supply_tx u c x) LEND_SUPPLY u c"
proof (rule keys_onceI)
  fix s y s' assume run: "supply_tx u c x s = Inr (y, s')"
  from supply_run [OF run] obtain idx s1 ws s2 s3 scaled pos s4 where
    acc: "accrue c s = Inr (idx, s1)" and ws: "lend_wallets u c s1 = Inr (ws, s2)" and
    mv: "ledger_move (fst ws) (snd ws) x LEND_SUPPLY (lend_reference u c) (''Supply '' @ coin_str c)
         (''Supply intake '' @ coin_str c) s2 = Inr ((), s3)" and
    gp: "get_or_create_position u c s3 = Inr (pos, s4)" and add: "add_supply (ps_id pos) c scaled s4 = Inr ((), s')" by blast
  have nm1: "no_money s s1" using accrue_effect [OF acc] by blast
  note w = lend_wallets_Inr [OF ws]
  have "no_money s s2" using no_money_trans [OF nm1] w by blast
  moreover have "no_money s3 s'" using get_or_create_position_effect [OF gp] burns_no_money(1) [OF add] no_money_trans by blast
  moreover have "wallet_id_of s u c PERSONAL = Some (fst ws)" using w no_money_accounts(1) [OF nm1] by simp
  ultimately show "\<exists>t t' a b x m1 m2 w. no_money s t \<and> ledger_move a b x LEND_SUPPLY (lend_reference u c) m1 m2 t = Inr ((), t') \<and>
      no_money t' s' \<and> wallet_id_of s u c PERSONAL = Some w \<and> w \<in> {a, b}" using mv by blast
qed

lemma withdraw_keys: "keys_once (withdraw_tx u c x st) LEND_WITHDRAW u c"
proof (rule keys_onceI)
  fix s y s' assume run: "withdraw_tx u c x st s = Inr (y, s')"
  from withdraw_run [OF run] obtain idx s1 prices t1 ws s2 pos s3 supply_real s4 scaled where
    acc: "accrue c s = Inr (idx, s1)" and lp: "load_price_table st s1 = Inr (prices, t1)" and
    ws: "lend_wallets u c t1 = Inr (ws, s2)" and gp: "get_or_create_position u c s2 = Inr (pos, s3)" and
    mv: "ledger_move (snd ws) (fst ws) (min x supply_real) LEND_WITHDRAW (lend_reference u c) (''Withdraw payout '' @ coin_str c)
         (''Withdraw '' @ coin_str c @ '' (incl. interest)'') s3 = Inr ((), s4)" and
    set: "set_supply (ps_id pos) c (scaled_supply pos - scaled) scaled s4 = Inr ((), s')" by blast
  have t1 [simp]: "t1 = s1" using load_price_table_Inr [OF lp] by blast
  have nm1: "no_money s s1" using accrue_effect [OF acc] by blast
  note w = lend_wallets_Inr [OF ws [unfolded t1]]
  have "no_money s s3" using nm1 w get_or_create_position_effect [OF gp] no_money_trans by blast
  moreover have "wallet_id_of s u c PERSONAL = Some (fst ws)" using w no_money_accounts(1) [OF nm1] by simp
  ultimately show "\<exists>t t' a b x m1 m2 w. no_money s t \<and> ledger_move a b x LEND_WITHDRAW (lend_reference u c) m1 m2 t = Inr ((), t') \<and>
      no_money t' s' \<and> wallet_id_of s u c PERSONAL = Some w \<and> w \<in> {a, b}" using mv burns_no_money(3) [OF set] by blast
qed

lemma borrow_keys: "keys_once (borrow_tx u c x st) LEND_BORROW u c"
proof (rule keys_onceI)
  fix s y s' assume run: "borrow_tx u c x st s = Inr (y, s')"
  from borrow_run [OF run] obtain idx s1 prices t1 ws s2 s3 scaled pos s4 where
    acc: "accrue c s = Inr (idx, s1)" and lp: "load_price_table st s1 = Inr (prices, t1)" and
    ws: "lend_wallets u c t1 = Inr (ws, s2)" and
    mv: "ledger_move (snd ws) (fst ws) x LEND_BORROW (lend_reference u c) (''Borrow disbursement '' @ coin_str c)
         (''Borrow '' @ coin_str c) s2 = Inr ((), s3)" and
    gp: "get_or_create_position u c s3 = Inr (pos, s4)" and add: "add_debt (ps_id pos) c scaled s4 = Inr ((), s')" by blast
  have t1 [simp]: "t1 = s1" using load_price_table_Inr [OF lp] by blast
  have nm1: "no_money s s1" using accrue_effect [OF acc] by blast
  note w = lend_wallets_Inr [OF ws [unfolded t1]]
  have "no_money s s2" using no_money_trans [OF nm1] w by blast
  moreover have "no_money s3 s'" using get_or_create_position_effect [OF gp] burns_no_money(2) [OF add] no_money_trans by blast
  moreover have "wallet_id_of s u c PERSONAL = Some (fst ws)" using w no_money_accounts(1) [OF nm1] by simp
  ultimately show "\<exists>t t' a b x m1 m2 w. no_money s t \<and> ledger_move a b x LEND_BORROW (lend_reference u c) m1 m2 t = Inr ((), t') \<and>
      no_money t' s' \<and> wallet_id_of s u c PERSONAL = Some w \<and> w \<in> {a, b}" using mv by blast
qed

lemma repay_keys: "keys_once (repay_tx u c x) LEND_REPAY u c"
proof (rule keys_onceI)
  fix s y s' assume run: "repay_tx u c x s = Inr (y, s')"
  from repay_run [OF run] obtain idx s1 ws s2 pos s3 debt_real s4 scaled where
    acc: "accrue c s = Inr (idx, s1)" and
    ws: "lend_wallets u c s1 = Inr (ws, s2)" and gp: "get_or_create_position u c s2 = Inr (pos, s3)" and
    mv: "ledger_move (fst ws) (snd ws) (min x debt_real) LEND_REPAY (lend_reference u c)
         (''Repay '' @ coin_str c @ '' (incl. interest)'') (''Repay intake '' @ coin_str c) s3 = Inr ((), s4)" and
    set: "set_debt (ps_id pos) c (scaled_debt pos - scaled) scaled s4 = Inr ((), s')" by blast
  have nm1: "no_money s s1" using accrue_effect [OF acc] by blast
  note w = lend_wallets_Inr [OF ws]
  have "no_money s s3" using nm1 w get_or_create_position_effect [OF gp] no_money_trans by blast
  moreover have "wallet_id_of s u c PERSONAL = Some (fst ws)" using w no_money_accounts(1) [OF nm1] by simp
  ultimately show "\<exists>t t' a b x m1 m2 w. no_money s t \<and> ledger_move a b x LEND_REPAY (lend_reference u c) m1 m2 t = Inr ((), t') \<and>
      no_money t' s' \<and> wallet_id_of s u c PERSONAL = Some w \<and> w \<in> {a, b}" using mv burns_no_money(4) [OF set] by blast
qed

lemma once_only:
  assumes keys: "keys_once m ty u c" "keys_once m' ty u c"
    and run: "commit_tx release_locks m s = (Inr y, s')" and later: "ledger t = ledger s' @ rest" "wallets t = wallets s'"
  shows "\<exists>e. commit_tx release_locks m' t = (Inl e, t)"
proof (cases "m' t")
  case (Inr p)
  obtain z t' where p: "p = (z, t')" by (cases p)
  from run obtain s0 where r: "m s = Inr (y, s0)" "s' = release_locks s0" by (auto simp: commit_tx_success)
  from keys(1) r(1) obtain w where w: "wallet_id_of s u c PERSONAL = Some w" "keyed_entry w ty u c s0" "wallets s0 = wallets s"
    unfolding keys_once_def by blast
  from keys(2) Inr p obtain v where v: "wallet_id_of t u c PERSONAL = Some v" "\<not> keyed_entry v ty u c t"
    unfolding keys_once_def by blast
  have "wallets t = wallets s" using later(2) r(2) w(3) by (simp add: release_locks_def)
  then have "v = w" using v(1) w(1) wallet_id_of_cong [of t s] by simp
  moreover have "keyed_entry w ty u c t" using w(2) later(1) r(2) by (auto simp: keyed_entry_def release_locks_def)
  ultimately show ?thesis using v(2) by simp
qed (simp add: commit_tx_Inl)

text \<open>
  A user supplies, withdraws, borrows and repays each coin only once: the reference key of the
  ledger entries names just the user and the coin, so after one success every later call of the same
  operation fails on the unique index, whatever happened in between, and changes nothing.
\<close>

theorem lend_operation_runs_once:
  assumes "lend_op \<in> {lend_supply u c, \<lambda>x. lend_withdraw u c x max_stale, \<lambda>x. lend_borrow u c x max_stale, lend_repay u c}"
    and "lend_op x s = (Inr y, s')" and "ledger t = ledger s' @ later" and "wallets t = wallets s'"
  shows "\<exists>e. lend_op x' t = (Inl e, t)"
proof -
  from assms(1) consider "lend_op = lend_supply u c" | "lend_op = (\<lambda>x. lend_withdraw u c x max_stale)"
    | "lend_op = (\<lambda>x. lend_borrow u c x max_stale)" | "lend_op = lend_repay u c" by blast
  then show ?thesis
  proof cases
    case 1 then show ?thesis using once_only [OF supply_keys supply_keys _ assms(3,4)] assms(2) by (simp add: lend_supply_def)
  next
    case 2 then show ?thesis using once_only [OF withdraw_keys withdraw_keys _ assms(3,4)] assms(2) by (simp add: lend_withdraw_def)
  next
    case 3 then show ?thesis using once_only [OF borrow_keys borrow_keys _ assms(3,4)] assms(2) by (simp add: lend_borrow_def)
  next
    case 4 then show ?thesis using once_only [OF repay_keys repay_keys _ assms(3,4)] assms(2) by (simp add: lend_repay_def)
  qed
qed

section \<open>Concrete runs\<close>

definition demo_prices :: "price_row list" where
  "demo_prices = map (\<lambda>c. \<lparr>pc_coin = c, pc_price_scaled = 100000000, pc_price_decimals = 8, pc_fetched_at = 0\<rparr>) COINS"

definition demo_user :: "uuid \<Rightarrow> user_row" where
  "demo_user u = \<lparr>u_id = u, u_email = show_nat u, u_username = show_nat u, u_password_hash = []\<rparr>"

definition demo_reserve :: "Coin \<Rightarrow> int \<Rightarrow> int \<Rightarrow> reserve_row" where
  "demo_reserve c x y = \<lparr>rs_coin = c, rs_liquidity_index = int RAY, rs_borrow_index = int RAY,
     rs_total_scaled_supply = x, rs_total_scaled_debt = y, rs_last_accrued_at = 0\<rparr>"

definition demo_position :: "uuid \<Rightarrow> uuid \<Rightarrow> Coin \<Rightarrow> int \<Rightarrow> int \<Rightarrow> position_row" where
  "demo_position i u c x y = \<lparr>po_id = i, po_user = u, po_coin = c, po_scaled_supply = x, po_scaled_debt = y,
     po_use_as_collateral = True\<rparr>"

text \<open>User 8 owes 900 of a coin worth as much as the 1000 of collateral; user 7 can liquidate.\<close>

definition lend_demo :: db where
  "lend_demo = append_entries
     [simple_input 2 5000 DEPOSIT None None None, simple_input 3 5000 DEPOSIT None None None,
      simple_input 4 1000 DEPOSIT None None None]
     (empty_db\<lparr>next_id := 100, users := [house_user, demo_user 7, demo_user 8],
        wallets := [demo_wallet 2 1 Btc LEND_POOL, demo_wallet 3 1 Ltc LEND_POOL, demo_wallet 4 7 Btc PERSONAL,
          demo_wallet 5 7 Ltc PERSONAL, demo_wallet 6 8 Btc PERSONAL],
        price_cache := demo_prices,
        reserves := [demo_reserve Btc 0 900, demo_reserve Ltc 3000 0],
        positions := [demo_position 20 8 Ltc 1000 0, demo_position 21 8 Btc 0 900, demo_position 22 7 Ltc 2000 0]\<rparr>)"

lemmas lend_demo_defs = lend_demo_def house_user_def demo_wallet_def empty_db_def
  simple_input_def entry_of_def demo_reserve_def demo_position_def demo_user_def

lemma lend_demo_ok: "books_ok lend_demo \<and> totals_ok lend_demo"
  by (simp add: lend_demo_defs books_ok_def wallets_wf_def entries_owned_def totals_ok_def supplied_def owed_def
      references_unique_def solvent_def wallet_balance_def List.map_filter_simps reference_of_def key_of_def)

lemmas lend_eval = take_lock_def acquire_def now_def
  get_user_wallet_id_def select_wallet_def wallet_id_of_def get_lend_pool_wallet_id_def house_wallet_id_def
  find_user_by_email_def get_wallet_balance_def wallet_balance_def find_wallet_def tx_defs

lemma demo_idle [simp]:
  assumes "elapsed \<le> 0" and "scaled_to_amount d b \<noteq> None"
  shows "accrued m \<lparr>liquidity_index = l, borrow_index = b\<rparr> d av elapsed = Some \<lparr>liquidity_index = l, borrow_index = b\<rparr>"
  using assms by (auto simp: accrued_def accrue_index_def Let_def)

lemmas index_eval = reserve_state_def num_milliseconds_def dec_to_u128_or_def dec_to_u128_def
  scaled_to_amount_def amount_to_scaled_def nat_to_u128_def u128_max_def RAY_def

lemma accrue_demo:
  "accrue Btc (lend_demo\<lparr>row_locks := ls\<rparr>) = Inr (\<lparr>liquidity_index = RAY, borrow_index = RAY\<rparr>, lend_demo\<lparr>row_locks := acquire (ReserveLock Btc) ls\<rparr>)"
  "accrue Ltc (lend_demo\<lparr>row_locks := ls\<rparr>) = Inr (\<lparr>liquidity_index = RAY, borrow_index = RAY\<rparr>, lend_demo\<lparr>row_locks := acquire (ReserveLock Ltc) ls\<rparr>)"
  by (simp_all add: accrue_def lock_reserve_def lend_demo_defs find_reserve_def lend_eval update_reserve_def index_eval
      del: lend_market.simps)

lemma demo_no_locks: "lend_demo = lend_demo\<lparr>row_locks := []\<rparr>"
  by (simp add: lend_demo_defs)

lemmas move_eval = ledger_move_def lend_wallets_def apply_ledger_entry_def lock_wallet_def lock_wallets_def
  insert_ledger_entry_def check_numeric_def fits_numeric_def numeric_limit_def reference_conflict_def key_conflict_def
  fresh_uuid_def lend_leg_def get_or_create_position_def find_position_def update_position_def check_user_fk_def
  entry_of_def

lemma supply_demo: "\<exists>s'. lend_supply 7 Btc 300 lend_demo = (Inr 300, s')"
proof -
  have "\<exists>s'. supply_tx 7 Btc 300 lend_demo = Inr (300, s')"
    by (simp add: supply_tx_def accrue_def lock_reserve_def find_reserve_def lend_demo_defs lend_eval move_eval index_eval add_supply_def update_reserve_def fresh_position_def del: lend_market.simps)
  then show ?thesis by (auto simp: lend_supply_def commit_tx_Inr)
qed

lemmas price_eval = load_price_table_def load_prices.simps get_price_def cached_price_def demo_prices_def

lemmas health_eval = compute_account_liquidity_def account_liquidity_def row_liquidity_def index_for_def
  lend_value_usd_def value_usd_def price_scaled_def to_u128_or_max_def u128_mul_def u128_add_def

definition demo_table :: PriceTable where
  "demo_table c = Some (100000000, 8)"

lemma prices_demo [simp]:
  assumes "price_cache s = demo_prices" and "clock s = 0" and "0 \<le> m"
  shows "load_price_table m s = Inr (demo_table, s)"
proof -
  have c: "cached_price s c m = Inr (100000000, 8)" for c
    using assms by (cases c) (simp_all add: cached_price_def demo_prices_def COINS_def dec_to_u128_def)
  have "load_prices cs m t s = Inr (\<lambda>c. if c \<in> set cs then Some (100000000, 8) else t c, s)" for cs t
    by (induction cs arbitrary: t) (auto simp: get_price_def c tx_bind_def tx_return_def)
  moreover have "(\<lambda>c. if c \<in> set COINS then Some (100000000, 8) else None) = demo_table"
    by (rule ext) (simp add: demo_table_def COINS_def, metis Coin.exhaust)
  ultimately show ?thesis by (simp add: load_price_table_def)
qed

lemma value_demo [simp]: "x \<le> u128_max \<Longrightarrow> c \<in> {Btc, Ltc} \<Longrightarrow> lend_value_usd demo_table c x = x"
  by (auto simp: lend_value_usd_def value_usd_def demo_table_def)

lemma amount_demo [simp]: "x \<le> u128_max \<Longrightarrow> c \<in> {Btc, Ltc} \<Longrightarrow> usd_to_amount demo_table c x = x"
  by (auto simp: usd_to_amount_def price_scaled_def demo_table_def)

abbreviation at_par :: ReserveState where
  "at_par \<equiv> \<lparr>liquidity_index = RAY, borrow_index = RAY\<rparr>"

lemma at_par_scale [simp]: "x \<le> u128_max \<Longrightarrow> scaled_to_amount x RAY = Some x" "x \<le> u128_max \<Longrightarrow> amount_to_scaled x RAY = Some x"
  by (simp_all add: scaled_to_amount_def amount_to_scaled_def nat_to_u128_def RAY_def)

lemma account_demo:
  "account_liquidity (lend_demo\<lparr>row_locks := ls\<rparr>) 8 [(Btc, at_par), (Ltc, at_par)] demo_table = Some (750, 700, 900)"
  "account_liquidity (lend_demo\<lparr>row_locks := ls\<rparr>) 7 [(Btc, at_par)] demo_table = Some (1500, 1400, 0)"
  by (simp_all add: account_liquidity_def lend_demo_defs row_liquidity_def index_for_def find_reserve_def reserve_state_def
      dec_to_u128_or_def dec_to_u128_def u128_mul_def u128_add_def RAY_def [symmetric] u128_max_def Let_def)

lemma lend_demo_sel [simp]: "price_cache lend_demo = demo_prices" "clock lend_demo = 0" "row_locks lend_demo = []"
  by (simp_all add: lend_demo_defs)

lemma position_demo:
  "get_or_create_position 8 Btc (lend_demo\<lparr>row_locks := ls\<rparr>) =
     Inr (\<lparr>ps_id = 21, scaled_supply = 0, scaled_debt = 900, use_as_collateral = True\<rparr>, lend_demo\<lparr>row_locks := ls\<rparr>)"
  "get_or_create_position 8 Ltc (lend_demo\<lparr>row_locks := ls\<rparr>) =
     Inr (\<lparr>ps_id = 20, scaled_supply = 1000, scaled_debt = 0, use_as_collateral = True\<rparr>, lend_demo\<lparr>row_locks := ls\<rparr>)"
  by (simp_all add: get_or_create_position_def find_position_def lend_demo_defs position_of_def
      dec_to_u128_or_def dec_to_u128_def tx_defs)

lemma two_moves_demo:
  "\<exists>t t'. ledger_move 4 2 300 LIQUIDATION r m1 m2 (lend_demo\<lparr>row_locks := ls\<rparr>) = Inr ((), t) \<and>
     ledger_move 3 5 322 LIQUIDATION r' m3 m4 t = Inr ((), t')"
  by (simp add: lend_demo_defs lend_eval move_eval)

lemma wallets_demo:
  "wallet_id_of (lend_demo\<lparr>row_locks := ls\<rparr>) 7 Btc PERSONAL = Some 4" "wallet_id_of (lend_demo\<lparr>row_locks := ls\<rparr>) 7 Ltc PERSONAL = Some 5"
  "house_wallet_id (lend_demo\<lparr>row_locks := ls\<rparr>) LEND_POOL Btc = Inr 2" "house_wallet_id (lend_demo\<lparr>row_locks := ls\<rparr>) LEND_POOL Ltc = Inr 3"
  by (simp_all add: lend_demo_defs wallet_id_of_def house_wallet_id_def find_user_by_email_def)

lemma moves_demo:
  "\<exists>t. liquidate_moves 7 8 Btc Ltc 300 322 (lend_demo\<lparr>row_locks := ls\<rparr>) = Inr ((), t)"
proof -
  obtain ls' where l: "lock_wallets [4, 5, 2, 3] (lend_demo\<lparr>row_locks := ls\<rparr>) = Inr ((), lend_demo\<lparr>row_locks := ls'\<rparr>)"
    by (simp add: lock_wallets_Inr)
  show ?thesis
    unfolding liquidate_moves_def tx_bind_Inr tx_map_err_Inr get_user_wallet_id_Inr get_lend_pool_wallet_id_Inr
    using wallets_demo [of ls] l two_moves_demo [of _ _ _ ls'] by meson
qed

lemma amounts_demo: "liquidation_amounts demo_table Btc Ltc 300 5000 900 1000 = (300, 322)"
  by (simp add: liquidation_amounts_def u128_mul_def u128_max_def Let_def)

lemma liquidate_demo: "\<exists>r s'. liquidate 7 8 Btc Ltc 300 5000 60 lend_demo = (Inr r, s') \<and> lq_repaid r = 300"
proof -
  obtain t where t: "liquidate_moves 7 8 Btc Ltc 300 322 (lend_demo\<lparr>row_locks := [ReserveLock Btc, ReserveLock Ltc]\<rparr>) = Inr ((), t)"
    using moves_demo by blast
  have u: "\<exists>r\<in>set (users t). u_id r = 7"
    using liquidate_money [OF t] by (auto simp: no_lending_def lend_demo_defs)
  have "\<exists>r s'. liquidate_tx 7 8 Btc Ltc 300 5000 60 (lend_demo\<lparr>row_locks := []\<rparr>) = Inr (r, s') \<and> lq_repaid r = 300"
    by (simp add: liquidate_tx_def accrue_demo position_demo t amounts_demo account_demo
        compute_account_liquidity_def tx_defs acquire_def u128_max_def set_debt_def set_supply_def update_position_def update_reserve_def
        liquidation_log_def record_log_def check_user_fk_def fresh_uuid_def u)
  then show ?thesis by (auto simp: liquidate_def commit_tx_Inr demo_no_locks [symmetric])
qed

lemma borrow_demo: "\<exists>s'. lend_borrow 7 Btc 100 60 lend_demo = (Inr 100, s')"
proof -
  obtain ls where w: "lend_wallets 7 Btc (lend_demo\<lparr>row_locks := [ReserveLock Btc]\<rparr>) = Inr ((4, 2), lend_demo\<lparr>row_locks := ls\<rparr>)"
    by (simp add: lend_wallets_def tx_bind_Inr tx_map_err_Inr get_user_wallet_id_Inr get_lend_pool_wallet_id_Inr wallets_demo
        lock_wallets_Inr tx_return_Inr)
  have cash: "wallet_balance lend_demo 2 = 5000" by (simp add: lend_demo_defs wallet_balance_def)
  have mv: "\<exists>t. ledger_move 2 4 100 LEND_BORROW r m1 m2 (lend_demo\<lparr>row_locks := ls\<rparr>) = Inr ((), t) \<and>
      (\<exists>u. get_or_create_position 7 Btc t = Inr (\<lparr>ps_id = 105, scaled_supply = 0, scaled_debt = 0, use_as_collateral = True\<rparr>, u) \<and>
        (\<exists>v. add_debt 105 Btc 100 u = Inr ((), v)))" for r m1 m2
    by (simp add: lend_demo_defs lend_eval move_eval add_debt_def update_reserve_def fresh_position_def)
  have "\<exists>s'. borrow_tx 7 Btc 100 60 (lend_demo\<lparr>row_locks := []\<rparr>) = Inr (100, s')"
    using mv [of "lend_reference 7 Btc" "''Borrow disbursement '' @ coin_str Btc" "''Borrow '' @ coin_str Btc"]
    by (elim exE conjE) (simp add: borrow_tx_def accrue_demo w account_demo pool_cash_def cash get_wallet_balance_def
        compute_account_liquidity_def tx_defs acquire_def u128_max_def u128_add_def dec_to_u128_or_def dec_to_u128_def)
  then show ?thesis by (auto simp: lend_borrow_def commit_tx_Inr demo_no_locks [symmetric])
qed

theorem lending_conserves_witness:
  "coin_total (snd (liquidate 7 8 Btc Ltc 300 5000 60 (snd (lend_supply 7 Btc 300 lend_demo)))) Btc = coin_total lend_demo Btc \<and>
   totals_ok (snd (liquidate 7 8 Btc Ltc 300 5000 60 (snd (lend_supply 7 Btc 300 lend_demo))))"
  using lending_conserves [OF conjunct1 [OF lend_demo_ok] conjunct2 [OF lend_demo_ok] _ refl, of 5000 60
    "[Supply 7 Btc 300, Liquidate 7 8 Btc Ltc 300]"] by (simp add: lend_apply_def)

theorem borrow_within_limits_witness:
  "\<exists>s' w. lend_borrow 7 Btc 100 60 lend_demo = (Inr 100, s') \<and> wallet_id_of lend_demo 7 Btc PERSONAL = Some w \<and> 100 \<le> wallet_balance lend_demo 2"
proof -
  obtain s' where run: "lend_borrow 7 Btc 100 60 lend_demo = (Inr 100, s')" using borrow_demo by blast
  have p: "house_wallet_id lend_demo LEND_POOL Btc = Inr 2"
    using wallets_demo(3) [of "[]"] by (simp add: demo_no_locks [symmetric])
  from borrow_within_limits [OF run] have
    "\<exists>w p. wallet_id_of lend_demo 7 Btc PERSONAL = Some w \<and> house_wallet_id lend_demo LEND_POOL Btc = Inr p \<and> int 100 \<le> wallet_balance lend_demo p"
    by blast
  with run p show ?thesis by auto
qed

theorem liquidation_bounded_witness:
  "\<exists>r s'. liquidate 7 8 Btc Ltc 300 5000 60 lend_demo = (Inr r, s') \<and> lq_repaid r = 300 \<and> 0 < lq_seized r"
proof -
  obtain r s' where run: "liquidate 7 8 Btc Ltc 300 5000 60 lend_demo = (Inr r, s')" "lq_repaid r = 300"
    using liquidate_demo by blast
  with liquidation_bounded [OF run(1)] show ?thesis by blast
qed

theorem lend_operation_runs_once_witness:
  "\<exists>s' e. lend_supply 7 Btc 300 lend_demo = (Inr 300, s') \<and> lend_supply 7 Btc 1 s' = (Inl e, s')"
proof -
  obtain s' where run: "lend_supply 7 Btc 300 lend_demo = (Inr 300, s')" using supply_demo by blast
  have "\<exists>e. lend_supply 7 Btc 1 s' = (Inl e, s')"
    using lend_operation_runs_once [where lend_op = "lend_supply 7 Btc" and u = 7 and c = Btc and max_stale = 60
      and x = 300 and s = lend_demo and y = 300 and s' = s' and t = s' and later = "[]" and x' = 1] run by simp
  with run show ?thesis by blast
qed

end
