(* ===== verification/MerchantDeposits.thy ===== *)
theory MerchantDeposits
  imports House Privacy
begin

text \<open>
  \<open>crates/db/src/merchant_deposits.rs\<close>: the invoices of the merchant gateway, their two
  settlement paths (the watcher's \<open>confirm_invoice\<close> and the checkout's
  \<open>pay_invoice_with_balance\<close>), and the state of their webhooks. Amounts are whole ledger units,
  as the handler admits them, in \<open>NUMERIC(38, 18)\<close> columns; \<open>api_key_id\<close> is the key the request
  was authenticated with. The lengths of the \<open>VARCHAR\<close> columns are not modelled.
\<close>

datatype MerchantDepositError =
  MdDb db_error
| MdLedger LedgerError
| MdNotFound
| MdInvalidStatus
| MdInsufficientBalance
| MerchantWalletNotFound
| PayerWalletNotFound
| PayerIsMerchant
| DuplicateOrderId

definition fits_money :: "int \<Rightarrow> bool" where
  "fits_money x \<longleftrightarrow> \<bar>x\<bar> < 10 ^ 20"

definition check_money :: "int \<Rightarrow> (db_error, unit) op" where
  "check_money x = tx_assert (fits_money x) NumericOverflow"

definition check_money_opt :: "int option \<Rightarrow> (db_error, unit) op" where
  "check_money_opt x = (case x of None \<Rightarrow> tx_return () | Some v \<Rightarrow> check_money v)"

record CreateDepositInvoiceInput =
  ci_merchant_id :: uuid
  ci_api_key_id :: "uuid option"
  ci_site_user_id :: "string option"
  ci_order_id :: string
  ci_site_name :: "string option"
  ci_coin :: Coin
  ci_amount :: int
  ci_deposit_address :: string
  ci_hd_index :: "int option"
  ci_callback_url :: string
  ci_success_url :: "string option"
  ci_cancel_url :: "string option"
  ci_customer_email :: "string option"
  ci_customer_name :: "string option"
  ci_description :: "string option"
  ci_expiry_minutes :: "int option"
  ci_accepted_coins :: "Coin list"
  ci_price_usd_scaled :: "int option"
  ci_price_decimals :: "int option"
  ci_quote_price_scaled :: "int option"

section \<open>Personal data of an invoice\<close>

definition invoice_row_key :: "string \<Rightarrow> string \<Rightarrow> string" where
  "invoice_row_key merchant order_id = merchant @ '':'' @ order_id"

definition invoice_pii_key :: "uuid \<Rightarrow> string \<Rightarrow> string" where
  "invoice_pii_key merchant order_id = invoice_row_key (show_uuid merchant) order_id"

text \<open>Each sealed column draws a nonce of its own: \<open>ivs\<close> by the column's kind.\<close>

definition seal_invoice_pii ::
    "primitives \<Rightarrow> SecretsService \<Rightarrow> (string \<Rightarrow> string) \<Rightarrow> CreateDepositInvoiceInput \<Rightarrow> CreateDepositInvoiceInput" where
  "seal_invoice_pii P ss ivs i =
     (let key = invoice_pii_key (ci_merchant_id i) (ci_order_id i);
          seal = (\<lambda>kind. seal_pii P ss (ivs kind) kind key)
      in i\<lparr>ci_callback_url := seal ''invoice.callback'' (ci_callback_url i),
           ci_success_url := map_option (seal ''invoice.success'') (ci_success_url i),
           ci_cancel_url := map_option (seal ''invoice.cancel'') (ci_cancel_url i),
           ci_customer_email := map_option (seal ''invoice.customer_email'') (ci_customer_email i),
           ci_customer_name := map_option (seal ''invoice.customer_name'') (ci_customer_name i),
           ci_site_user_id := map_option (seal ''invoice.site_user'') (ci_site_user_id i)\<rparr>)"

definition reveal_invoice_pii :: "primitives \<Rightarrow> SecretsService \<Rightarrow> invoice_row \<Rightarrow> invoice_row" where
  "reveal_invoice_pii P ss r =
     (let key = invoice_pii_key (iv_merchant r) (iv_order_id r);
          reveal = (\<lambda>kind. open_pii P ss kind key)
      in r\<lparr>iv_callback_url := reveal ''invoice.callback'' (iv_callback_url r),
             iv_success_url := map_option (reveal ''invoice.success'') (iv_success_url r),
             iv_cancel_url := map_option (reveal ''invoice.cancel'') (iv_cancel_url r),
             iv_customer_email := map_option (reveal ''invoice.customer_email'') (iv_customer_email r),
             iv_customer_name := map_option (reveal ''invoice.customer_name'') (iv_customer_name r),
             iv_site_user := map_option (reveal ''invoice.site_user'') (iv_site_user r)\<rparr>)"

section \<open>Fee\<close>

definition GATEWAY_FEE_BPS :: int where
  "GATEWAY_FEE_BPS = 25"

text \<open>\<open>with_scale(0)\<close> drops the fraction, towards zero.\<close>

definition trunc_div :: "int \<Rightarrow> int \<Rightarrow> int" where
  "trunc_div a b = (if 0 \<le> a then a div b else - (- a div b))"

definition split_fee :: "int \<Rightarrow> int \<times> int" where
  "split_fee amount = (let fee = trunc_div (amount * GATEWAY_FEE_BPS) 10000 in (fee, amount - fee))"

section \<open>Creating an invoice\<close>

definition minute_micros :: int where
  "minute_micros = 60 * 1000000"

definition expiry_minutes :: "int option \<Rightarrow> int" where
  "expiry_minutes m = min (max (case m of None \<Rightarrow> 60 | Some x \<Rightarrow> x) 5) 1440"

definition accepted_coins :: "CreateDepositInvoiceInput \<Rightarrow> Coin list" where
  "accepted_coins i =
     (if ci_coin i \<in> set (ci_accepted_coins i) then ci_accepted_coins i
      else ci_accepted_coins i @ [ci_coin i])"

definition fresh_webhook :: webhook_state where
  "fresh_webhook = \<lparr>hk_delivered = False, hk_status_code = None, hk_attempts = 0, hk_last_error = None,
     hk_last_attempt_at = None, hk_next_retry_at = None\<rparr>"

definition new_invoice :: "uuid \<Rightarrow> CreateDepositInvoiceInput \<Rightarrow> int \<Rightarrow> invoice_row" where
  "new_invoice iid i ts =
     \<lparr>iv_id = iid, iv_merchant = ci_merchant_id i, iv_api_key = ci_api_key_id i, iv_site_user = ci_site_user_id i,
      iv_order_id = ci_order_id i, iv_site_name = ci_site_name i, iv_coin = ci_coin i, iv_amount = ci_amount i,
      iv_fee_amount = fst (split_fee (ci_amount i)), iv_net_amount = snd (split_fee (ci_amount i)),
      iv_deposit_address = ci_deposit_address i, iv_hd_index = ci_hd_index i, iv_tx_hash = None,
      iv_confirmations = 0, iv_received_amount = 0, iv_callback_url = ci_callback_url i,
      iv_success_url = ci_success_url i, iv_cancel_url = ci_cancel_url i,
      iv_customer_email = ci_customer_email i, iv_customer_name = ci_customer_name i,
      iv_description = ci_description i, iv_status = IvPending,
      iv_expires_at = ts + expiry_minutes (ci_expiry_minutes i) * minute_micros, iv_paid_at = None,
      iv_webhook = fresh_webhook, iv_accepted_coins = accepted_coins i,
      iv_price_usd_scaled = ci_price_usd_scaled i, iv_price_decimals = ci_price_decimals i,
      iv_coin_locked_at = (if length (accepted_coins i) \<le> 1 then Some ts else None),
      iv_quote_price_scaled = ci_quote_price_scaled i, iv_created_at = ts\<rparr>"

definition find_invoice :: "db \<Rightarrow> uuid \<Rightarrow> invoice_row option" where
  "find_invoice s iid = List.find (\<lambda>r. iv_id r = iid) (invoices s)"

definition order_taken :: "db \<Rightarrow> uuid \<Rightarrow> string \<Rightarrow> bool" where
  "order_taken s merchant order_id \<longleftrightarrow>
     (\<exists>r\<in>set (invoices s). iv_merchant r = merchant \<and> iv_order_id r = order_id)"

definition insert_invoice :: "CreateDepositInvoiceInput \<Rightarrow> (MerchantDepositError, invoice_row) op" where
  "insert_invoice i =
     tx_bind (tx_map_err MdDb (check_money (ci_amount i))) (\<lambda>_.
     tx_bind (tx_map_err MdDb (check_money_opt (ci_price_usd_scaled i))) (\<lambda>_.
     tx_bind (tx_map_err MdDb (check_money_opt (ci_quote_price_scaled i))) (\<lambda>_.
     tx_bind (tx_gets (\<lambda>s. order_taken s (ci_merchant_id i) (ci_order_id i))) (\<lambda>taken.
     tx_bind (tx_assert (\<not> taken) DuplicateOrderId) (\<lambda>_.
     tx_bind (tx_map_err MdDb (check_user_fk ''merchant_deposit_invoices'' (ci_merchant_id i))) (\<lambda>_.
     tx_bind fresh_uuid (\<lambda>iid.
     tx_bind now (\<lambda>ts.
     tx_bind (tx_modify (\<lambda>s. s\<lparr>invoices := invoices s @ [new_invoice iid i ts]\<rparr>)) (\<lambda>_.
     tx_return (new_invoice iid i ts))))))))))"

text \<open>\<open>merchant_multicoin::upsert_invoice_address\<close>: the row of \<open>(invoice, coin)\<close> is never replaced.\<close>

definition find_invoice_address :: "db \<Rightarrow> uuid \<Rightarrow> Coin \<Rightarrow> invoice_address_row option" where
  "find_invoice_address s iid coin =
     List.find (\<lambda>a. ia_invoice a = iid \<and> ia_coin a = coin) (invoice_addresses s)"

definition upsert_invoice_address_tx ::
    "uuid \<Rightarrow> Coin \<Rightarrow> string \<Rightarrow> int option \<Rightarrow> int \<Rightarrow> int option \<Rightarrow> (db_error, invoice_address_row) op" where
  "upsert_invoice_address_tx iid coin address hd_index amount quote =
     tx_bind (check_money amount) (\<lambda>_.
     tx_bind (check_money_opt quote) (\<lambda>_.
     tx_bind (tx_gets (\<lambda>s. find_invoice_address s iid coin)) (\<lambda>found.
     case found of
       Some row \<Rightarrow> tx_return row
     | None \<Rightarrow>
         tx_bind (tx_gets (\<lambda>s. find_invoice s iid)) (\<lambda>inv.
         tx_bind (tx_assert (inv \<noteq> None)
           (ForeignKeyViolation ''merchant_invoice_addresses'' ''merchant_invoice_addresses_invoice_id_fkey'')) (\<lambda>_.
         tx_bind fresh_uuid (\<lambda>aid.
         tx_bind now (\<lambda>ts.
         let row = \<lparr>ia_id = aid, ia_invoice = iid, ia_coin = coin, ia_address = address, ia_hd_index = hd_index,
           ia_amount = amount, ia_quote_price_scaled = quote, ia_created_at = ts\<rparr> in
         tx_bind (tx_modify (\<lambda>s. s\<lparr>invoice_addresses := invoice_addresses s @ [row]\<rparr>)) (\<lambda>_.
         tx_return row))))))))"

definition upsert_invoice_address ::
    "uuid \<Rightarrow> Coin \<Rightarrow> string \<Rightarrow> int option \<Rightarrow> int \<Rightarrow> int option \<Rightarrow> db \<Rightarrow> (db_error + invoice_address_row) \<times> db" where
  "upsert_invoice_address iid coin address hd_index amount quote =
     commit_tx release_locks (upsert_invoice_address_tx iid coin address hd_index amount quote)"

text \<open>Two statements, each committed on its own: the invoice stays when its address fails.\<close>

definition create_invoice :: "CreateDepositInvoiceInput \<Rightarrow> db \<Rightarrow> (MerchantDepositError + invoice_row) \<times> db" where
  "create_invoice i s =
     (case commit_tx release_locks (insert_invoice i) s of
        (Inl e, s1) \<Rightarrow> (Inl e, s1)
      | (Inr row, s1) \<Rightarrow>
          (case upsert_invoice_address (iv_id row) (ci_coin i) (ci_deposit_address i) (ci_hd_index i)
                  (ci_amount i) (ci_quote_price_scaled i) s1 of
             (Inl e, s2) \<Rightarrow> (Inl (MdDb (Protocol (db_error_str e))), s2)
           | (Inr _, s2) \<Rightarrow> (Inr row, s2)))"

section \<open>Reads\<close>

definition get_invoice_by_id :: "db \<Rightarrow> uuid \<Rightarrow> MerchantDepositError + invoice_row" where
  "get_invoice_by_id s iid = (case find_invoice s iid of None \<Rightarrow> Inl MdNotFound | Some r \<Rightarrow> Inr r)"

definition get_invoice_by_order_id :: "db \<Rightarrow> uuid \<Rightarrow> string \<Rightarrow> MerchantDepositError + invoice_row" where
  "get_invoice_by_order_id s merchant order_id =
     (case List.find (\<lambda>r. iv_merchant r = merchant \<and> iv_order_id r = order_id) (invoices s) of
        None \<Rightarrow> Inl MdNotFound | Some r \<Rightarrow> Inr r)"

definition clamp :: "int \<Rightarrow> int \<Rightarrow> int \<Rightarrow> nat" where
  "clamp lo hi n = nat (min (max n lo) hi)"

definition list_invoices_by_merchant :: "db \<Rightarrow> uuid \<Rightarrow> int \<Rightarrow> int \<Rightarrow> invoice_row list" where
  "list_invoices_by_merchant s merchant limit offset =
     take (clamp 1 100 limit) (drop (nat (max offset 0))
       (sort_key (\<lambda>r. - iv_created_at r) (filter (\<lambda>r. iv_merchant r = merchant) (invoices s))))"

definition open_invoice :: "int \<Rightarrow> invoice_row \<Rightarrow> bool" where
  "open_invoice ts r \<longleftrightarrow> iv_status r \<in> {IvPending, IvDetected} \<and> ts < iv_expires_at r"

definition list_open_invoices :: "db \<Rightarrow> int \<Rightarrow> invoice_row list" where
  "list_open_invoices s limit =
     take (clamp 1 1000 limit) (sort_key iv_expires_at (filter (open_invoice (clock s)) (invoices s)))"

definition retry_due :: "int \<Rightarrow> int \<Rightarrow> invoice_row \<Rightarrow> bool" where
  "retry_due max_attempts ts r \<longleftrightarrow>
     iv_status r = IvConfirmed \<and> \<not> hk_delivered (iv_webhook r) \<and> hk_attempts (iv_webhook r) < max_attempts \<and>
     (case hk_next_retry_at (iv_webhook r) of None \<Rightarrow> False | Some t \<Rightarrow> t \<le> ts)"

definition list_webhook_retries :: "db \<Rightarrow> int \<Rightarrow> int \<Rightarrow> invoice_row list" where
  "list_webhook_retries s max_attempts limit =
     take (clamp 1 200 limit) (sort_key (\<lambda>r. case hk_next_retry_at (iv_webhook r) of None \<Rightarrow> 0 | Some t \<Rightarrow> t)
       (filter (retry_due max_attempts (clock s)) (invoices s)))"

definition count_invoices_at_address :: "db \<Rightarrow> string \<Rightarrow> nat" where
  "count_invoices_at_address s address = length (filter (\<lambda>r. iv_deposit_address r = address) (invoices s))"

section \<open>Settlement\<close>

definition update_invoice :: "uuid \<Rightarrow> (invoice_row \<Rightarrow> invoice_row) \<Rightarrow> db \<Rightarrow> db" where
  "update_invoice iid f s = s\<lparr>invoices := update_where (\<lambda>r. iv_id r = iid) f (invoices s)\<rparr>"

definition lock_invoice :: "uuid \<Rightarrow> (MerchantDepositError, invoice_row) op" where
  "lock_invoice iid =
     tx_bind (tx_gets (\<lambda>s. find_invoice s iid)) (\<lambda>row.
     tx_bind (tx_ok_or MdNotFound row) (\<lambda>r.
     tx_bind (take_lock (InvoiceLock iid)) (\<lambda>_.
     tx_return r)))"

definition merchant_credit_ref :: "uuid \<Rightarrow> string" where
  "merchant_credit_ref iid = ''merchant_dep:'' @ show_uuid iid"

definition merchant_credit :: "uuid \<Rightarrow> invoice_row \<Rightarrow> LedgerCreditInput" where
  "merchant_credit wid r =
     \<lparr>in_wallet_id = wid, in_amount = iv_net_amount r, in_type = MERCHANT_DEPOSIT,
      in_reference_id = Some (iv_id r), in_reference_type = Some ''MERCHANT_DEPOSIT'',
      in_reference_key = Some (merchant_credit_ref (iv_id r)),
      in_memo = Some (''Deposit from Site X (Order: '' @ iv_order_id r @ '')'')\<rparr>"

definition payer_debit :: "uuid \<Rightarrow> invoice_row \<Rightarrow> LedgerCreditInput" where
  "payer_debit wid r =
     \<lparr>in_wallet_id = wid, in_amount = - iv_amount r, in_type = MERCHANT_CHECKOUT,
      in_reference_id = Some (iv_id r), in_reference_type = Some ''MERCHANT_CHECKOUT'',
      in_reference_key = Some (''pay_invoice:'' @ show_uuid (iv_id r)),
      in_memo = Some (''Payment to merchant (Order: '' @ iv_order_id r @ '')'')\<rparr>"

text \<open>The merchant's wallet of the invoice's coin is created on demand, locked and credited.\<close>

definition credit_merchant :: "invoice_row \<Rightarrow> (MerchantDepositError, unit) op" where
  "credit_merchant r =
     tx_bind (tx_map_err MdDb (upsert_wallet (iv_merchant r) (iv_coin r) MERCHANT)) (\<lambda>_.
     tx_bind (select_wallet (iv_merchant r) (iv_coin r) MERCHANT) (\<lambda>found.
     tx_bind (tx_ok_or MerchantWalletNotFound found) (\<lambda>wid.
     tx_bind (tx_map_err MdLedger (lock_wallet wid)) (\<lambda>_.
     tx_bind (tx_map_err MdLedger (apply_ledger_entry (merchant_credit wid r))) (\<lambda>_.
     tx_return ())))))"

definition coalesce :: "'a option \<Rightarrow> 'a option \<Rightarrow> 'a option" where
  "coalesce a b = (case a of None \<Rightarrow> b | Some _ \<Rightarrow> a)"

definition confirmed :: "string option \<Rightarrow> int \<Rightarrow> invoice_row \<Rightarrow> invoice_row" where
  "confirmed tx_hash ts r = r\<lparr>iv_status := IvConfirmed, iv_tx_hash := coalesce tx_hash (iv_tx_hash r), iv_paid_at := Some ts\<rparr>"

definition confirm_invoice_tx :: "uuid \<Rightarrow> string option \<Rightarrow> (MerchantDepositError, unit) op" where
  "confirm_invoice_tx iid tx_hash =
     tx_bind (lock_invoice iid) (\<lambda>r.
     if iv_status r = IvConfirmed then tx_return ()
     else
       tx_bind (tx_assert (iv_status r \<notin> {IvCancelled, IvExpired}) MdInvalidStatus) (\<lambda>_.
       tx_bind (credit_merchant r) (\<lambda>_.
       tx_bind now (\<lambda>ts.
       tx_modify (update_invoice iid (confirmed tx_hash ts))))))"

text \<open>After the commit (or the early return) the row is read again.\<close>

definition reread :: "uuid \<Rightarrow> (MerchantDepositError + unit) \<times> db \<Rightarrow> (MerchantDepositError + invoice_row) \<times> db" where
  "reread iid result =
     (case result of
        (Inl e, s) \<Rightarrow> (Inl e, s)
      | (Inr _, s) \<Rightarrow> (get_invoice_by_id s iid, s))"

definition confirm_invoice :: "uuid \<Rightarrow> string option \<Rightarrow> db \<Rightarrow> (MerchantDepositError + invoice_row) \<times> db" where
  "confirm_invoice iid tx_hash s = reread iid (commit_tx release_locks (confirm_invoice_tx iid tx_hash) s)"

definition paid_internally :: "int \<Rightarrow> invoice_row \<Rightarrow> invoice_row" where
  "paid_internally ts r =
     r\<lparr>iv_status := IvConfirmed, iv_tx_hash := Some ''internal_satspay'', iv_received_amount := iv_amount r,
       iv_paid_at := Some ts\<rparr>"

definition pay_invoice_tx :: "uuid \<Rightarrow> uuid \<Rightarrow> (MerchantDepositError, unit) op" where
  "pay_invoice_tx iid payer =
     tx_bind (lock_invoice iid) (\<lambda>r.
     tx_bind (tx_assert (iv_status r \<in> {IvPending, IvDetected}) MdInvalidStatus) (\<lambda>_.
     tx_bind now (\<lambda>ts.
     tx_bind (tx_assert (\<not> iv_expires_at r < ts) MdInvalidStatus) (\<lambda>_.
     tx_bind (tx_assert (payer \<noteq> iv_merchant r) PayerIsMerchant) (\<lambda>_.
     tx_bind (select_wallet payer (iv_coin r) PERSONAL) (\<lambda>found.
     tx_bind (tx_ok_or PayerWalletNotFound found) (\<lambda>wid.
     tx_bind (tx_map_err MdLedger (lock_wallet wid)) (\<lambda>_.
     tx_bind (tx_map_err MdLedger (get_wallet_balance wid)) (\<lambda>balance.
     tx_bind (tx_assert (\<not> balance < iv_amount r) MdInsufficientBalance) (\<lambda>_.
     tx_bind (tx_map_err MdLedger (apply_ledger_entry (payer_debit wid r))) (\<lambda>_.
     tx_bind (credit_merchant r) (\<lambda>_.
     tx_modify (update_invoice iid (paid_internally ts))))))))))))))"

definition pay_invoice_with_balance :: "uuid \<Rightarrow> uuid \<Rightarrow> db \<Rightarrow> (MerchantDepositError + invoice_row) \<times> db" where
  "pay_invoice_with_balance iid payer s = reread iid (commit_tx release_locks (pay_invoice_tx iid payer) s)"

section \<open>The watcher's and the dispatcher's updates\<close>

definition mark_invoice_detected ::
    "uuid \<Rightarrow> int \<Rightarrow> int \<Rightarrow> string option \<Rightarrow> db \<Rightarrow> (MerchantDepositError + unit) \<times> db" where
  "mark_invoice_detected iid received confirmations tx_hash s =
     (let hit = (\<lambda>r. iv_id r = iid \<and> iv_status r \<in> {IvPending, IvDetected}) in
      if (\<exists>r\<in>set (invoices s). hit r) \<and> \<not> fits_money received then (Inl (MdDb NumericOverflow), s)
      else (Inr (), s\<lparr>invoices := update_where hit
        (\<lambda>r. r\<lparr>iv_status := IvDetected, iv_received_amount := received, iv_confirmations := confirmations,
          iv_tx_hash := coalesce tx_hash (iv_tx_hash r)\<rparr>) (invoices s)\<rparr>))"

definition overdue :: "int \<Rightarrow> invoice_row \<Rightarrow> bool" where
  "overdue ts r \<longleftrightarrow> iv_status r \<in> {IvPending, IvDetected} \<and> iv_expires_at r \<le> ts"

definition expire_due_invoices :: "db \<Rightarrow> nat \<times> db" where
  "expire_due_invoices s =
     (length (filter (overdue (clock s)) (invoices s)),
      s\<lparr>invoices := update_where (overdue (clock s)) (\<lambda>r. r\<lparr>iv_status := IvExpired\<rparr>) (invoices s)\<rparr>)"

definition record_webhook_delivery :: "uuid \<Rightarrow> bool \<Rightarrow> int option \<Rightarrow> string option \<Rightarrow> db \<Rightarrow> db" where
  "record_webhook_delivery iid delivered status_code error_msg s =
     update_invoice iid (\<lambda>r. r\<lparr>iv_webhook := (iv_webhook r)\<lparr>hk_delivered := delivered, hk_status_code := status_code,
       hk_attempts := hk_attempts (iv_webhook r) + 1, hk_last_error := error_msg,
       hk_last_attempt_at := Some (clock s)\<rparr>\<rparr>) s"

definition schedule_webhook_retry :: "uuid \<Rightarrow> int option \<Rightarrow> db \<Rightarrow> db" where
  "schedule_webhook_retry iid next_at =
     update_invoice iid (\<lambda>r. r\<lparr>iv_webhook := (iv_webhook r)\<lparr>hk_next_retry_at := next_at\<rparr>\<rparr>)"

definition mark_invoice_swept :: "uuid \<Rightarrow> db \<Rightarrow> db" where
  "mark_invoice_swept iid = update_invoice iid (\<lambda>r. r\<lparr>iv_hd_index := None\<rparr>)"

end
