(* ===== verification/MultiCoin.thy ===== *)
theory MultiCoin
  imports MerchantDeposits Pricing
begin

text \<open>
  \<open>crates/db/src/merchant_multicoin.rs\<close>: pricing an invoice in each coin it accepts, and moving
  its selection between them. A quotient of two \<open>BigDecimal\<close>s is the exact rational: its hundred
  digits tell every fraction over a \<open>u64\<close> price from the integers around it.
\<close>

datatype MultiCoinError =
  McDb db_error
| McInvoice MerchantDepositError
| McPricing PricingDbError
| McNotFound
| CoinNotAccepted
| CoinLocked
| NotPayable
| AmountTooSmall string

record CoinOption =
  co_coin :: Coin
  co_amount :: int
  co_price_scaled :: int

definition truncate_rat :: "rat \<Rightarrow> int" where
  "truncate_rat v = (if 0 \<le> v then \<lfloor>v\<rfloor> else \<lceil>v\<rceil>)"

definition ceil_to_integer :: "rat \<Rightarrow> int" where
  "ceil_to_integer v = (let truncated = truncate_rat v in if of_int truncated < v then truncated + 1 else truncated)"

definition usd_to_ledger_units :: "int \<Rightarrow> int \<Rightarrow> int option" where
  "usd_to_ledger_units price_usd_scaled coin_price_scaled =
     (if coin_price_scaled \<le> 0 then None
      else
        let units_per_coin = 10 ^ decimals (coin_config Btc);
            exact = of_int (price_usd_scaled * units_per_coin) / of_int coin_price_scaled
        in Some (ceil_to_integer exact))"

definition u64_max :: nat where
  "u64_max = 2 ^ 64 - 1"

definition price_to_u64 :: "nat \<Rightarrow> int" where
  "price_to_u64 price = (if price \<le> u64_max then int price else 0)"

definition payable_onchain :: "Coin \<Rightarrow> int \<Rightarrow> bool" where
  "payable_onchain coin amount =
     (case dec_to_u128 amount of None \<Rightarrow> False | Some u \<Rightarrow> to_onchain_amount coin u \<noteq> 0)"

definition price_option :: "db \<Rightarrow> int \<Rightarrow> int \<Rightarrow> Coin \<Rightarrow> CoinOption option" where
  "price_option s price_usd_scaled max_stale coin =
     (case cached_price s coin max_stale of
        Inl _ \<Rightarrow> None
      | Inr (price, _) \<Rightarrow>
          (case usd_to_ledger_units price_usd_scaled (price_to_u64 price) of
             None \<Rightarrow> None
           | Some amount \<Rightarrow>
               if amount \<le> 0 then None
               else if \<not> payable_onchain coin amount then None
               else Some \<lparr>co_coin = coin, co_amount = amount, co_price_scaled = price_to_u64 price\<rparr>))"

definition price_options :: "db \<Rightarrow> Coin list \<Rightarrow> int \<Rightarrow> int \<Rightarrow> CoinOption list" where
  "price_options s coins price_usd_scaled max_stale =
     List.map_filter (price_option s price_usd_scaled max_stale) coins"

definition list_invoice_addresses :: "db \<Rightarrow> uuid \<Rightarrow> invoice_address_row list" where
  "list_invoice_addresses s iid =
     sort_key ia_created_at (filter (\<lambda>a. ia_invoice a = iid) (invoice_addresses s))"

section \<open>The selection\<close>

definition pointed_at :: "Coin \<Rightarrow> invoice_address_row \<Rightarrow> invoice_row \<Rightarrow> invoice_row" where
  "pointed_at coin addr r =
     (let (fee, net) = split_fee (ia_amount addr) in
      r\<lparr>iv_coin := coin, iv_amount := ia_amount addr, iv_fee_amount := fee, iv_net_amount := net,
        iv_deposit_address := ia_address addr, iv_hd_index := ia_hd_index addr,
        iv_quote_price_scaled := ia_quote_price_scaled addr\<rparr>)"

definition selectable :: "int \<Rightarrow> invoice_row \<Rightarrow> bool" where
  "selectable ts r \<longleftrightarrow> iv_coin_locked_at r = None \<and> iv_status r = IvPending \<and> ts < iv_expires_at r"

definition locked_if :: "bool \<Rightarrow> int \<Rightarrow> invoice_row \<Rightarrow> invoice_row" where
  "locked_if lock ts r = (if lock then r\<lparr>iv_coin_locked_at := Some ts\<rparr> else r)"

definition read_invoice :: "db \<Rightarrow> uuid \<Rightarrow> MultiCoinError + invoice_row" where
  "read_invoice s iid = (case get_invoice_by_id s iid of Inl e \<Rightarrow> Inl (McInvoice e) | Inr r \<Rightarrow> Inr r)"

text \<open>An address row's amount has passed its own column, so the update's columns hold it.\<close>

definition select_coin ::
    "uuid \<Rightarrow> Coin \<Rightarrow> invoice_address_row \<Rightarrow> bool \<Rightarrow> db \<Rightarrow> (MultiCoinError + invoice_row) \<times> db" where
  "select_coin iid coin addr lock s =
     (let hit = (\<lambda>r. iv_id r = iid \<and> selectable (clock s) r);
          s' = s\<lparr>invoices := update_where hit (\<lambda>r. locked_if lock (clock s) (pointed_at coin addr r)) (invoices s)\<rparr>
      in if \<exists>r\<in>set (invoices s). hit r then (read_invoice s' iid, s')
         else (case read_invoice s iid of
             Inl e \<Rightarrow> (Inl e, s)
           | Inr r \<Rightarrow> (Inl (if iv_coin_locked_at r \<noteq> None then CoinLocked else NotPayable), s)))"

definition lock_coin :: "uuid \<Rightarrow> db \<Rightarrow> db" where
  "lock_coin iid s =
     s\<lparr>invoices := update_where (\<lambda>r. iv_id r = iid \<and> iv_coin_locked_at r = None)
       (\<lambda>r. r\<lparr>iv_coin_locked_at := Some (clock s)\<rparr>) (invoices s)\<rparr>"

definition point_selection_at :: "uuid \<Rightarrow> Coin \<Rightarrow> invoice_address_row \<Rightarrow> db \<Rightarrow> db" where
  "point_selection_at iid coin addr s =
     s\<lparr>invoices := update_where (\<lambda>r. iv_id r = iid \<and> iv_status r \<noteq> IvConfirmed) (pointed_at coin addr) (invoices s)\<rparr>"

end
