(* ===== verification/Webhooks.thy ===== *)
theory Webhooks
  imports MerchantDeposits "HOL-Library.Word"
begin

text \<open>
  \<open>crates/webhooks/src/lib.rs\<close>: the signed webhooks of the gateway, their SSRF gate and their
  retries. What lies outside is a record of functions: parsing a URL and an IP literal, resolving a
  host, sending the request, and the text of decimals, instants and JSON values. Resolving a host is
  a function: an answer that changes between the check and the request (DNS rebinding) is not modelled.
\<close>

unbundle bit_operations_syntax

definition EVENT_DEPOSIT_CONFIRMED :: string where
  "EVENT_DEPOSIT_CONFIRMED = ''deposit.confirmed''"

definition MAX_WEBHOOK_ATTEMPTS :: int where
  "MAX_WEBHOOK_ATTEMPTS = 8"

datatype CallbackUrlError = NotAUrl | NotHttps | NoHost | PrivateHost

fun callback_url_error_str :: "CallbackUrlError \<Rightarrow> string" where
  "callback_url_error_str NotAUrl = ''callbackUrl is not a valid URL''"
| "callback_url_error_str NotHttps = ''callbackUrl must use https''"
| "callback_url_error_str NoHost = ''callbackUrl has no host''"
| "callback_url_error_str PrivateHost = ''callbackUrl must point at a public host''"

record DeliveryOutcome =
  delivered :: bool
  status_code :: "int option"
  delivery_error :: "string option"

section \<open>Addresses the server never dials\<close>

text \<open>The octets of an IPv4 address and the segments of an IPv6 address, first to last.\<close>

datatype IpAddr =
  V4 "8 word" "8 word" "8 word" "8 word"
| V6 "16 word" "16 word" "16 word" "16 word" "16 word" "16 word" "16 word" "16 word"

fun is_blocked_v4 :: "8 word \<Rightarrow> 8 word \<Rightarrow> 8 word \<Rightarrow> 8 word \<Rightarrow> bool" where
  "is_blocked_v4 a b c d \<longleftrightarrow>
     a = 127 \<or>
     (a = 10 \<or> a = 172 \<and> 16 \<le> b \<and> b \<le> 31 \<or> a = 192 \<and> b = 168) \<or>
     a = 169 \<and> b = 254 \<or>
     a = 255 \<and> b = 255 \<and> c = 255 \<and> d = 255 \<or>
     (a = 192 \<and> b = 0 \<and> c = 2 \<or> a = 198 \<and> b = 51 \<and> c = 100 \<or> a = 203 \<and> b = 0 \<and> c = 113) \<or>
     224 \<le> a \<and> a \<le> 239 \<or>
     a = 0 \<and> b = 0 \<and> c = 0 \<and> d = 0 \<or>
     a = 100 \<and> 64 \<le> b \<and> b < 128 \<or>
     a = 0 \<or>
     a = 192 \<and> b = 0 \<and> c = 0"

fun is_blocked_ip :: "IpAddr \<Rightarrow> bool" where
  "is_blocked_ip (V4 a b c d) = is_blocked_v4 a b c d"
| "is_blocked_ip (V6 s0 s1 s2 s3 s4 s5 s6 s7) \<longleftrightarrow>
     [s0, s1, s2, s3, s4, s5, s6, s7] = [0, 0, 0, 0, 0, 0, 0, 1] \<or>
     [s0, s1, s2, s3, s4, s5, s6, s7] = [0, 0, 0, 0, 0, 0, 0, 0] \<or>
     s0 AND 0xFF00 = 0xFF00 \<or>
     s0 AND 0xFE00 = 0xFC00 \<or>
     s0 AND 0xFFC0 = 0xFE80 \<or>
     [s0, s1, s2, s3, s4, s5] = [0, 0, 0, 0, 0, 0xFFFF] \<and>
       is_blocked_v4 (ucast (drop_bit 8 s6)) (ucast s6) (ucast (drop_bit 8 s7)) (ucast s7)"

section \<open>The gate\<close>

record Url =
  url_scheme :: string
  url_host :: "string option"
  url_port :: "nat option" \<comment> \<open>the explicit port, or the one known for the scheme\<close>

record web =
  parse_url :: "string \<Rightarrow> Url option"
  parse_ip :: "string \<Rightarrow> IpAddr option"
  lookup_host :: "string \<Rightarrow> nat \<Rightarrow> IpAddr list option"
  send_post :: "string \<Rightarrow> (string \<times> string) list \<Rightarrow> string \<Rightarrow> string + int" \<comment> \<open>URL, headers, body; the status\<close>
  decimal_text :: "int \<Rightarrow> string"
  instant_text :: "int \<Rightarrow> string"
  json_text :: "json \<Rightarrow> string"

text \<open>\<open>url::Url::parse\<close> lower-cases the scheme and a domain; the code folds the case again.\<close>

definition trim_start_char :: "char \<Rightarrow> string \<Rightarrow> string" where
  "trim_start_char c s = dropWhile (\<lambda>x. x = c) s"

definition ends_with :: "string \<Rightarrow> string \<Rightarrow> bool" where
  "ends_with suf s \<longleftrightarrow> length suf \<le> length s \<and> drop (length s - length suf) s = suf"

definition validate_callback_url :: "web \<Rightarrow> string \<Rightarrow> CallbackUrlError option" where
  "validate_callback_url W raw =
     (case parse_url W raw of
        None \<Rightarrow> Some NotAUrl
      | Some url \<Rightarrow>
          if url_scheme url \<noteq> ''https'' then Some NotHttps
          else
            (case url_host url of
               None \<Rightarrow> Some NoHost
             | Some host \<Rightarrow>
                 if map lower_char host = ''localhost'' \<or> ends_with ''.localhost'' (map lower_char host)
                 then Some PrivateHost
                 else
                   (case parse_ip W (trim_end_char (CHR 0x5D) (trim_start_char (CHR 0x5B) host)) of
                      Some ip \<Rightarrow> if is_blocked_ip ip then Some PrivateHost else None
                    | None \<Rightarrow> None)))"

text \<open>The loop answers at the first blocked address.\<close>

definition resolve_is_public :: "web \<Rightarrow> Url \<Rightarrow> CallbackUrlError option" where
  "resolve_is_public W url =
     (case url_host url of
        None \<Rightarrow> Some NoHost
      | Some host \<Rightarrow>
          if parse_ip W host \<noteq> None then None
          else
            (case lookup_host W host (case url_port url of None \<Rightarrow> 443 | Some p \<Rightarrow> p) of
               None \<Rightarrow> Some NoHost
             | Some resolved \<Rightarrow>
                 if \<exists>ip\<in>set resolved. is_blocked_ip ip then Some PrivateHost
                 else if resolved = [] then Some NoHost else None))"

section \<open>Delivery\<close>

text \<open>In seconds: the shift is of a \<open>u64\<close> by at most 8.\<close>

definition next_retry_delay :: "int \<Rightarrow> int" where
  "next_retry_delay attempts_so_far =
     (let e = nat (min (max attempts_so_far 0) 8)
      in uint (min (push_bit e (30 :: 64 word)) 3600))"

fun iv_status_str :: "invoice_status \<Rightarrow> string" where
  "iv_status_str IvPending = ''PENDING''"
| "iv_status_str IvDetected = ''DETECTED''"
| "iv_status_str IvConfirmed = ''CONFIRMED''"
| "iv_status_str IvExpired = ''EXPIRED''"
| "iv_status_str IvCancelled = ''CANCELLED''"

definition json_opt :: "string option \<Rightarrow> json" where
  "json_opt v = (case v of None \<Rightarrow> JNull | Some t \<Rightarrow> JStr t)"

definition timestamp :: "int \<Rightarrow> int" where
  "timestamp ts = ts div 1000000"

definition invoice_payload :: "web \<Rightarrow> invoice_row \<Rightarrow> int \<Rightarrow> int \<Rightarrow> json" where
  "invoice_payload W r attempt ts =
     JObj [(''event'', JStr EVENT_DEPOSIT_CONFIRMED),
       (''invoiceId'', JStr (show_uuid (iv_id r))),
       (''orderId'', JStr (iv_order_id r)),
       (''siteUserId'', json_opt (iv_site_user r)),
       (''coin'', JStr (coin_str (iv_coin r))),
       (''amount'', JStr (decimal_text W (iv_amount r))),
       (''fee'', JStr (decimal_text W (iv_fee_amount r))),
       (''netAmount'', JStr (decimal_text W (iv_net_amount r))),
       (''txHash'', JStr (case iv_tx_hash r of None \<Rightarrow> ''internal_satspay'' | Some h \<Rightarrow> h)),
       (''status'', JStr (iv_status_str (iv_status r))),
       (''paidAt'', JStr (instant_text W (case iv_paid_at r of None \<Rightarrow> ts | Some t \<Rightarrow> t))),
       (''customerEmail'', json_opt (iv_customer_email r)),
       (''timestamp'', JNum (show_int (timestamp ts))),
       (''attempt'', JNum (show_int attempt))]"

definition failed :: "string \<Rightarrow> DeliveryOutcome" where
  "failed msg = \<lparr>delivered = False, status_code = None, delivery_error = Some msg\<rparr>"

definition webhook_headers :: "string \<Rightarrow> int \<Rightarrow> uuid \<Rightarrow> (string \<times> string) list" where
  "webhook_headers signature ts delivery_id =
     [(''Content-Type'', ''application/json''),
      (''X-SatsPay-Signature'', ''sha256='' @ signature),
      (''X-SatsPay-Event'', EVENT_DEPOSIT_CONFIRMED),
      (''X-SatsPay-Timestamp'', show_int (timestamp ts)),
      (''X-SatsPay-Delivery'', show_uuid delivery_id)]"

definition response_outcome :: "int \<Rightarrow> DeliveryOutcome" where
  "response_outcome st =
     (let ok = 200 \<le> st \<and> st < 300 in
      \<lparr>delivered = ok, status_code = Some st,
       delivery_error = (if ok then None else Some (''HTTP status '' @ show_int st))\<rparr>)"

definition post_signed :: "web \<Rightarrow> string \<Rightarrow> string \<Rightarrow> string \<Rightarrow> int \<Rightarrow> uuid \<Rightarrow> DeliveryOutcome" where
  "post_signed W callback_url payload signature ts delivery_id =
     (case parse_url W callback_url of
        None \<Rightarrow> failed (callback_url_error_str NotAUrl)
      | Some url \<Rightarrow>
          (case validate_callback_url W callback_url of
             Some e \<Rightarrow> failed (callback_url_error_str e)
           | None \<Rightarrow>
               (case resolve_is_public W url of
                  Some e \<Rightarrow> failed (callback_url_error_str e)
                | None \<Rightarrow>
                    (case send_post W callback_url (webhook_headers signature ts delivery_id) payload of
                       Inr st \<Rightarrow> response_outcome st
                     | Inl e \<Rightarrow> failed e))))"

definition next_retry :: "DeliveryOutcome \<Rightarrow> int \<Rightarrow> int \<Rightarrow> int option" where
  "next_retry outcome attempt ts =
     (if delivered outcome \<or> MAX_WEBHOOK_ATTEMPTS \<le> attempt then None
      else Some (ts + next_retry_delay attempt * 1000000))"

text \<open>The delivery id is drawn and not stored. The two writes are best effort.\<close>

definition dispatch_invoice_webhook ::
    "web \<Rightarrow> primitives \<Rightarrow> SecretsService \<Rightarrow> invoice_row \<Rightarrow> db \<Rightarrow> DeliveryOutcome \<times> db" where
  "dispatch_invoice_webhook W P ss row s =
     (let r = reveal_invoice_pii P ss row;
          attempt = hk_attempts (iv_webhook r) + 1;
          ts = clock s;
          delivery_id = next_id s;
          payload = json_text W (invoice_payload W r attempt ts);
          signature = sign_webhook_payload P ss (show_uuid (iv_merchant r)) payload;
          outcome = post_signed W (iv_callback_url r) payload signature ts delivery_id;
          s1 = s\<lparr>next_id := Suc delivery_id\<rparr>;
          s2 = record_webhook_delivery (iv_id r) (delivered outcome) (status_code outcome) (delivery_error outcome) s1
      in (outcome, schedule_webhook_retry (iv_id r) (next_retry outcome attempt ts) s2))"

end
