(* ===== verification/InvoiceWatcher.thy ===== *)
theory InvoiceWatcher
  imports MultiCoin Webhooks Withdrawals
begin

text \<open>
  \<open>crates/worker/src/invoice_watcher.rs\<close>: one tick of the job that settles invoices from the
  chain. The chain client is two functions of the coin; the tick's statements run with no other
  session between them, while \<open>Gateway\<close> interleaves the same operations with any others.
\<close>

record OnchainTx =
  tx_hash_of :: string
  tx_vout :: nat
  tx_amount :: nat
  tx_confirmations :: nat
  tx_address :: string

record chain =
  fetch_deposits :: "Coin \<Rightarrow> string \<Rightarrow> string + OnchainTx list"
  sweep_deposit_to_hot :: "Coin \<Rightarrow> nat \<Rightarrow> BroadcastError + BroadcastResult option"

definition SCAN_BATCH :: int where
  "SCAN_BATCH = 200"

definition RETRY_BATCH :: int where
  "RETRY_BATCH = 50"

section \<open>One address\<close>

text \<open>What the outputs at an address add up to: seen, confirmed, the deepest and the first one.\<close>

definition seen_amount :: "OnchainTx list \<Rightarrow> int" where
  "seen_amount ds = int (sum_list (map tx_amount ds))"

definition confirmed_amount :: "Coin \<Rightarrow> OnchainTx list \<Rightarrow> int" where
  "confirmed_amount coin ds =
     int (sum_list (map tx_amount (filter (\<lambda>d. min_confirmations (coin_config coin) \<le> tx_confirmations d) ds)))"

definition best_confirmations :: "OnchainTx list \<Rightarrow> int" where
  "best_confirmations ds = int (min (fold (\<lambda>d best. max best (tx_confirmations d)) ds 0) (2 ^ 31 - 1))"

definition sweep_fee_input :: "Coin \<Rightarrow> uuid \<Rightarrow> BroadcastResult \<Rightarrow> RecordNetworkFeeInput" where
  "sweep_fee_input coin iid tx =
     \<lparr>fee_coin = coin, fee_kind = FeeSweep, fee_paid = br_fee_amount tx, fee_tx_hash = Some (br_tx_hash tx),
      fee_reference_id = Some iid, fee_reference_type = Some ''MerchantInvoiceSweep''\<rparr>"

definition u32_of :: "int \<Rightarrow> nat option" where
  "u32_of i = (if 0 \<le> i \<and> i < 2 ^ 32 then Some (nat i) else None)"

definition sweep_invoice_address :: "chain \<Rightarrow> invoice_row \<Rightarrow> int option \<Rightarrow> Coin \<Rightarrow> db \<Rightarrow> db" where
  "sweep_invoice_address C r hd_index coin s =
     (case hd_index of None \<Rightarrow> s | Some h \<Rightarrow>
     (case u32_of h of None \<Rightarrow> s | Some idx \<Rightarrow>
     (case sweep_deposit_to_hot C coin idx of
        Inr (Some tx) \<Rightarrow>
          mark_invoice_swept (iv_id r) (snd (record_network_fee (sweep_fee_input coin (iv_id r) tx) s))
      | Inr None \<Rightarrow> s
      | Inl _ \<Rightarrow> s)))"

definition repoint :: "invoice_row \<Rightarrow> invoice_address_row \<Rightarrow> db \<Rightarrow> db" where
  "repoint inv_row addr s =
     (if iv_coin inv_row \<noteq> ia_coin addr then point_selection_at (iv_id inv_row) (ia_coin addr) addr s else s)"

definition settle_paid ::
    "chain \<Rightarrow> web \<Rightarrow> primitives \<Rightarrow> SecretsService \<Rightarrow> invoice_row \<Rightarrow> invoice_address_row \<Rightarrow> string \<Rightarrow> db \<Rightarrow> bool \<times> db" where
  "settle_paid C W P ss inv_row addr tx_hash s =
     (case confirm_invoice (iv_id inv_row) (Some tx_hash) s of
        (Inl _, s1) \<Rightarrow> (False, s1)
      | (Inr r, s1) \<Rightarrow>
          (True, snd (dispatch_invoice_webhook W P ss r (sweep_invoice_address C r (ia_hd_index addr) (ia_coin addr) s1))))"

definition scan_address ::
    "chain \<Rightarrow> web \<Rightarrow> primitives \<Rightarrow> SecretsService \<Rightarrow> invoice_row \<Rightarrow> invoice_address_row \<Rightarrow> db \<Rightarrow> bool \<times> db" where
  "scan_address C W P ss inv_row addr s =
     (case fetch_deposits C (ia_coin addr) (ia_address addr) of
        Inl _ \<Rightarrow> (False, s)
      | Inr [] \<Rightarrow> (False, s)
      | Inr (d # ds) \<Rightarrow>
          if 1 < count_invoices_at_address s (ia_address addr) then (False, s)
          else
            let s1 = repoint inv_row addr (lock_coin (iv_id inv_row) s) in
            (case mark_invoice_detected (iv_id inv_row) (seen_amount (d # ds)) (best_confirmations (d # ds))
                    (Some (tx_hash_of d)) s1 of
               (Inl _, s2) \<Rightarrow> (False, s2)
             | (Inr _, s2) \<Rightarrow>
                 if confirmed_amount (ia_coin addr) (d # ds) < ia_amount addr then (False, s2)
                 else settle_paid C W P ss inv_row addr (tx_hash_of d) s2))"

section \<open>The tick\<close>

fun scan_addresses ::
    "chain \<Rightarrow> web \<Rightarrow> primitives \<Rightarrow> SecretsService \<Rightarrow> invoice_row \<Rightarrow> invoice_address_row list \<Rightarrow> db \<Rightarrow> db" where
  "scan_addresses C W P ss inv_row [] s = s"
| "scan_addresses C W P ss inv_row (a # as) s =
     (case scan_address C W P ss inv_row a s of
        (True, s1) \<Rightarrow> s1
      | (False, s1) \<Rightarrow> scan_addresses C W P ss inv_row as s1)"

definition scan_invoice :: "chain \<Rightarrow> web \<Rightarrow> primitives \<Rightarrow> SecretsService \<Rightarrow> invoice_row \<Rightarrow> db \<Rightarrow> db" where
  "scan_invoice C W P ss inv_row s = scan_addresses C W P ss inv_row (list_invoice_addresses s (iv_id inv_row)) s"

text \<open>The invoices whose last attempt failed are reported to the error log, which is not modelled.\<close>

fun redeliver_each ::
    "web \<Rightarrow> primitives \<Rightarrow> SecretsService \<Rightarrow> invoice_row list \<Rightarrow> db \<Rightarrow> uuid list \<times> db" where
  "redeliver_each W P ss [] s = ([], s)"
| "redeliver_each W P ss (r # rs) s =
     (let (outcome, s1) = dispatch_invoice_webhook W P ss r s;
          gone = \<not> delivered outcome \<and> MAX_WEBHOOK_ATTEMPTS \<le> hk_attempts (iv_webhook r) + 1;
          (rest, s2) = redeliver_each W P ss rs s1
      in ((if gone then [iv_id r] else []) @ rest, s2))"

definition redeliver_webhooks :: "web \<Rightarrow> primitives \<Rightarrow> SecretsService \<Rightarrow> db \<Rightarrow> uuid list \<times> db" where
  "redeliver_webhooks W P ss s = redeliver_each W P ss (list_webhook_retries s MAX_WEBHOOK_ATTEMPTS RETRY_BATCH) s"

definition watch_invoices :: "chain \<Rightarrow> web \<Rightarrow> primitives \<Rightarrow> SecretsService \<Rightarrow> db \<Rightarrow> uuid list \<times> db" where
  "watch_invoices C W P ss s =
     (let s1 = snd (expire_due_invoices s)
      in redeliver_webhooks W P ss (fold (scan_invoice C W P ss) (list_open_invoices s1 SCAN_BATCH) s1))"

end
