(* ===== verification/Gateway.thy ===== *)
theory Gateway
  imports InvoiceWatcher
begin

text \<open>
  What the merchant gateway promises. \<open>gateway_step\<close> is any operation of the gateway, or any
  change of another part of the platform that leaves the invoices and the merchant credits alone;
  a tick of the watcher is a run of such steps. \<open>watcher_step\<close> is what the watcher alone may do, each
  step with the answer of the chain that allows it, and a tick is a run of these too.
\<close>

section \<open>Frames\<close>

lemma post_entry_gateway [simp]:
  "invoices (post_entry i s) = invoices s" "invoice_addresses (post_entry i s) = invoice_addresses s"
  by (simp_all add: post_entry_def)

lemma release_gateway [simp]:
  "invoices (release_locks s) = invoices s" "invoice_addresses (release_locks s) = invoice_addresses s"
  "ledger (release_locks s) = ledger s" "wallets (release_locks s) = wallets s"
  "next_id (release_locks s) = next_id s" "clock (release_locks s) = clock s"
  by (simp_all add: release_locks_def)

lemma check_money_Inr [tx_simps]: "check_money x s = Inr (u, s') \<longleftrightarrow> fits_money x \<and> s' = s"
  by (simp add: check_money_def tx_simps)

lemma check_money_opt_Inr [tx_simps]:
  "check_money_opt x s = Inr (u, s') \<longleftrightarrow> (case x of None \<Rightarrow> True | Some v \<Rightarrow> fits_money v) \<and> s' = s"
  by (cases x) (simp_all add: check_money_opt_def tx_simps)

lemma lock_invoice_Inr [tx_simps]:
  "lock_invoice iid s = Inr (r, s') \<longleftrightarrow>
     find_invoice s iid = Some r \<and> s' = s\<lparr>row_locks := acquire (InvoiceLock iid) (row_locks s)\<rparr>"
  by (auto simp: lock_invoice_def tx_simps)

lemma find_invoice_Some: "find_invoice s iid = Some r \<Longrightarrow> r \<in> set (invoices s) \<and> iv_id r = iid"
  by (auto simp: find_invoice_def dest: find_Some_props)

definition merchant_entries :: "db \<Rightarrow> ledger_row list" where
  "merchant_entries s = filter (\<lambda>e. le_type e = MERCHANT_DEPOSIT) (ledger s)"

text \<open>The rest of the platform may do anything but touch invoices and merchant credits.\<close>

definition wallets_stay :: "db \<Rightarrow> db \<Rightarrow> bool" where
  "wallets_stay s s' \<longleftrightarrow> (\<forall>u c k w. wallet_id_of s u c k = Some w \<longrightarrow> wallet_id_of s' u c k = Some w)"

definition other_sessions :: "db \<Rightarrow> db \<Rightarrow> bool" where
  "other_sessions s s' \<longleftrightarrow> invoices s' = invoices s \<and> merchant_entries s' = merchant_entries s \<and>
     next_id s \<le> next_id s' \<and> wallets_stay s s'"

lemma wallets_stay_refl [simp]: "wallets_stay s s" by (simp add: wallets_stay_def)

lemma wallets_stay_append: "wallets s' = wallets s @ ws \<Longrightarrow> wallets_stay s s'"
  by (simp add: wallets_stay_def wallet_id_of_append)

section \<open>The invariant\<close>

definition credits_of :: "db \<Rightarrow> uuid \<Rightarrow> ledger_row list" where
  "credits_of s iid = filter (\<lambda>e. le_reference_id e = Some iid) (merchant_entries s)"

definition credited_as :: "db \<Rightarrow> invoice_row \<Rightarrow> bool" where
  "credited_as s r \<longleftrightarrow> (\<exists>e. credits_of s (iv_id r) = [e] \<and> le_amount e = iv_net_amount r \<and>
     wallet_id_of s (iv_merchant r) (iv_coin r) MERCHANT = Some (le_wallet e))"

definition settled_ok :: "db \<Rightarrow> invoice_row \<Rightarrow> bool" where
  "settled_ok s r \<longleftrightarrow> iv_fee_amount r + iv_net_amount r = iv_amount r \<and>
     (if iv_status r = IvConfirmed then credited_as s r else credits_of s (iv_id r) = [])"

definition gateway_ok :: "db \<Rightarrow> bool" where
  "gateway_ok s \<longleftrightarrow> distinct (map iv_id (invoices s)) \<and>
     (\<forall>r\<in>set (invoices s). iv_id r < next_id s \<and> settled_ok s r) \<and>
     (\<forall>e\<in>set (merchant_entries s). le_reference_id e \<in> Some ` iv_id ` set (invoices s))"

lemma split_fee_sum: "fst (split_fee a) + snd (split_fee a) = a"
  by (simp add: split_fee_def Let_def)

text \<open>An update of a row that is not a settlement.\<close>

definition keeps_row :: "(invoice_row \<Rightarrow> invoice_row) \<Rightarrow> invoice_row \<Rightarrow> bool" where
  "keeps_row g r \<longleftrightarrow> iv_id (g r) = iv_id r \<and> iv_merchant (g r) = iv_merchant r \<and>
     (iv_status (g r) = IvConfirmed \<longleftrightarrow> iv_status r = IvConfirmed) \<and>
     (iv_status r = IvConfirmed \<longrightarrow> iv_coin (g r) = iv_coin r \<and> iv_net_amount (g r) = iv_net_amount r) \<and>
     (iv_fee_amount r + iv_net_amount r = iv_amount r \<longrightarrow> iv_fee_amount (g r) + iv_net_amount (g r) = iv_amount (g r))"

lemma credits_of_cong: "merchant_entries s' = merchant_entries s \<Longrightarrow> credits_of s' i = credits_of s i"
  by (simp add: credits_of_def)

lemma settled_ok_keeps:
  assumes "settled_ok s r" and "keeps_row g r" and "merchant_entries s' = merchant_entries s" and "wallets_stay s s'"
  shows "settled_ok s' (g r)"
proof -
  note c = credits_of_cong [OF assms(3)]
  have w: "wallet_id_of s (iv_merchant r) (iv_coin r) MERCHANT = Some x \<longrightarrow>
      wallet_id_of s' (iv_merchant r) (iv_coin r) MERCHANT = Some x" for x
    using assms(4) by (simp add: wallets_stay_def)
  show ?thesis
  proof (cases "iv_status r = IvConfirmed")
    case True
    with assms(1) obtain e where "credits_of s (iv_id r) = [e]" "le_amount e = iv_net_amount r"
      "wallet_id_of s (iv_merchant r) (iv_coin r) MERCHANT = Some (le_wallet e)"
      by (auto simp: settled_ok_def credited_as_def)
    with True assms(1,2) w show ?thesis
      by (simp add: settled_ok_def credited_as_def keeps_row_def c)
  next
    case False
    with assms(1,2) show ?thesis by (simp add: settled_ok_def keeps_row_def c)
  qed
qed

lemma gateway_rows:
  assumes "gateway_ok s" and "invoices s' = map g (invoices s)"
    and "\<And>r. r \<in> set (invoices s) \<Longrightarrow> keeps_row g r"
    and "merchant_entries s' = merchant_entries s" and "next_id s \<le> next_id s'" and "wallets_stay s s'"
  shows "gateway_ok s'"
proof -
  have ids: "map iv_id (invoices s') = map iv_id (invoices s)"
    using assms(2,3) by (simp add: keeps_row_def)
  then have idset: "iv_id ` set (invoices s') = iv_id ` set (invoices s)" by (metis set_map)
  have "iv_id q < next_id s' \<and> settled_ok s' q" if "q \<in> set (invoices s')" for q
  proof -
    from that assms(2) obtain r where r: "r \<in> set (invoices s)" "q = g r" by auto
    with assms(1) have "iv_id r < next_id s" "settled_ok s r" by (simp_all add: gateway_ok_def)
    with assms(3) [OF r(1)] settled_ok_keeps [OF _ assms(3) [OF r(1)] assms(4,6)] assms(5) r(2)
    show ?thesis by (simp add: keeps_row_def)
  qed
  with assms(1) ids show ?thesis by (simp add: gateway_ok_def idset assms(4))
qed

lemma gateway_update:
  assumes "gateway_ok s" and "\<And>r. p r \<Longrightarrow> keeps_row f r"
    and "invoices s' = update_where p f (invoices s)"
    and "ledger s' = ledger s" and "next_id s \<le> next_id s'" and "wallets s' = wallets s"
  shows "gateway_ok s'"
  using assms(1) assms(3) [unfolded update_where_def]
proof (rule gateway_rows)
  show "keeps_row (\<lambda>r. if p r then f r else r) r" for r
    using assms(2) [of r] by (simp add: keeps_row_def)
qed (use assms wallets_stay_append [of s' s "[]"] in \<open>simp_all add: merchant_entries_def\<close>)

lemma gateway_other: "gateway_ok s \<Longrightarrow> other_sessions s s' \<Longrightarrow> gateway_ok s'"
  unfolding other_sessions_def
  by (elim conjE, rule gateway_rows [where g = "\<lambda>r. r"]) (simp_all add: keeps_row_def)

section \<open>Each operation\<close>

lemma insert_invoice_run:
  "insert_invoice i s = Inr (row, t) \<Longrightarrow> row = new_invoice (next_id s) i (clock s) \<and>
     t = s\<lparr>next_id := Suc (next_id s), invoices := invoices s @ [new_invoice (next_id s) i (clock s)]\<rparr>"
  by (simp add: insert_invoice_def tx_simps)

lemma create_invoice_ok:
  assumes "gateway_ok s"
  shows "gateway_ok (snd (commit_tx release_locks (insert_invoice i) s))"
proof (cases "insert_invoice i s")
  case (Inl e)
  with assms show ?thesis by (simp add: commit_tx_def)
next
  case (Inr z)
  obtain row t where z: "z = (row, t)" by (cases z)
  have t: "t = s\<lparr>next_id := Suc (next_id s), invoices := invoices s @ [new_invoice (next_id s) i (clock s)]\<rparr>"
    using insert_invoice_run [of i s row t] Inr z by simp
  let ?r = "new_invoice (next_id s) i (clock s)"
  have me: "merchant_entries t = merchant_entries s" by (simp add: t merchant_entries_def)
  have "le_reference_id e \<noteq> Some (next_id s)" if "e \<in> set (merchant_entries s)" for e
    using assms that by (force simp: gateway_ok_def)
  then have "credits_of t (next_id s) = []" by (simp add: credits_of_def me filter_empty_conv)
  then have new: "settled_ok t ?r"
    by (simp add: settled_ok_def new_invoice_def split_fee_sum)
  have old: "settled_ok t r" if "r \<in> set (invoices s)" for r
  proof -
    have "settled_ok s r" using assms that by (simp add: gateway_ok_def)
    moreover have "wallets_stay s t" by (simp add: t wallets_stay_append)
    ultimately show ?thesis
      using settled_ok_keeps [of s r "\<lambda>r. r" t, OF _ _ me] by (simp add: keeps_row_def)
  qed
  have "gateway_ok t" using assms new old
    by (auto simp: gateway_ok_def me) (auto simp: t new_invoice_def less_Suc_eq)
  then have "gateway_ok (release_locks t)" by (rule gateway_other) (simp add: other_sessions_def merchant_entries_def wallets_stay_append)
  with Inr z show ?thesis by (simp add: commit_tx_def)
qed

section \<open>Settlement\<close>

lemma merchant_credit_sel [simp]:
  "in_wallet_id (merchant_credit w r) = w" "in_amount (merchant_credit w r) = iv_net_amount r"
  "in_type (merchant_credit w r) = MERCHANT_DEPOSIT" "in_reference_id (merchant_credit w r) = Some (iv_id r)"
  by (simp_all add: merchant_credit_def)

lemma payer_debit_sel [simp]:
  "in_wallet_id (payer_debit w r) = w" "in_amount (payer_debit w r) = - iv_amount r"
  "in_type (payer_debit w r) = MERCHANT_CHECKOUT"
  by (simp_all add: payer_debit_def)

text \<open>The merchant's wallet may be new; the credit is the last thing that happens.\<close>

definition provisioned :: "db \<Rightarrow> db \<Rightarrow> bool" where
  "provisioned s t \<longleftrightarrow> (\<exists>ws. wallets t = wallets s @ ws) \<and> ledger t = ledger s \<and> invoices t = invoices s \<and>
     next_id s \<le> next_id t \<and> clock t = clock s \<and> invoice_addresses t = invoice_addresses s \<and>
     (books_ok s \<longrightarrow> books_ok t)"

lemma credit_merchant_run:
  assumes "credit_merchant r s = Inr (u, s')"
  obtains w t where "provisioned s t" and "wallet_id_of t (iv_merchant r) (iv_coin r) MERCHANT = Some w"
    and "can_post (merchant_credit w r) t" and "s' = post_entry (merchant_credit w r) t"
proof -
  from assms obtain s1 w t where
    up: "upsert_wallet (iv_merchant r) (iv_coin r) MERCHANT s = Inr ((), s1)" and
    w: "wallet_id_of s1 (iv_merchant r) (iv_coin r) MERCHANT = Some w" and
    lk: "lock_wallet w s1 = Inr ((), t)" and
    ps: "can_post (merchant_credit w r) t" "s' = post_entry (merchant_credit w r) t"
    by (auto simp: credit_merchant_def tx_bind_Inr tx_map_err_Inr tx_ok_or_Inr tx_return_Inr select_wallet_Inr
        apply_ledger_entry_Inr)
  have t: "t = s1\<lparr>row_locks := row_locks t\<rparr>" using lk by (simp add: lock_wallet_Inr split: if_splits)
  have f: "wallets t = wallets s1" "ledger t = ledger s1" "invoices t = invoices s1" "next_id t = next_id s1"
    "clock t = clock s1" "invoice_addresses t = invoice_addresses s1"
    by (subst t, simp)+
  have "provisioned s s1"
    using up keepsD [OF keeps_upsert_books up] by (simp add: provisioned_def upsert_wallet_Inr)
  then have "provisioned s t"
    using f books_ok_cong [of t s1] by (simp add: provisioned_def)
  moreover have "wallet_id_of t (iv_merchant r) (iv_coin r) MERCHANT = Some w"
    using w wallet_id_of_cong [OF f(1)] by simp
  ultimately show thesis using ps that by blast
qed

definition settles :: "(invoice_row \<Rightarrow> invoice_row) \<Rightarrow> bool" where
  "settles f \<longleftrightarrow> (\<forall>r. iv_id (f r) = iv_id r \<and> iv_merchant (f r) = iv_merchant r \<and> iv_coin (f r) = iv_coin r \<and>
     iv_amount (f r) = iv_amount r \<and> iv_fee_amount (f r) = iv_fee_amount r \<and>
     iv_net_amount (f r) = iv_net_amount r \<and> iv_status (f r) = IvConfirmed)"

lemma settles_confirmed [simp]: "settles (confirmed h ts)" "settles (paid_internally ts)"
  by (simp_all add: settles_def confirmed_def paid_internally_def)

lemma gateway_settle:
  assumes ok: "gateway_ok s" and r: "r \<in> set (invoices s)" "iv_status r \<noteq> IvConfirmed"
    and f: "settles f" and inv: "invoices u = update_where (\<lambda>q. iv_id q = iv_id r) f (invoices s)"
    and me: "merchant_entries u = merchant_entries s @ [e]"
    and e: "le_reference_id e = Some (iv_id r)" "le_amount e = iv_net_amount r"
      "wallet_id_of u (iv_merchant r) (iv_coin r) MERCHANT = Some (le_wallet e)"
    and stay: "wallets_stay s u" and nid: "next_id s \<le> next_id u"
  shows "gateway_ok u"
proof -
  have d: "distinct (map iv_id (invoices s))" and rows: "iv_id q < next_id s \<and> settled_ok s q" if "q \<in> set (invoices s)" for q
    using ok that by (simp_all add: gateway_ok_def)
  have dd: "distinct (map iv_id (invoices s))" using ok by (simp add: gateway_ok_def)
  have fs: "iv_id (f q) = iv_id q" for q using f by (simp add: settles_def)
  have ids: "map iv_id (invoices u) = map iv_id (invoices s)" unfolding inv by (rule map_update_where) (simp add: fs)
  then have idset: "iv_id ` set (invoices u) = iv_id ` set (invoices s)" by (metis set_map)
  have cr: "credits_of u i = credits_of s i @ (if i = iv_id r then [e] else [])" for i
    using e(1) by (simp add: credits_of_def me)
  have row: "iv_id q < next_id u \<and> settled_ok u q" if q: "q \<in> set (invoices u)" for q
  proof -
    from q obtain q0 where q0: "q0 \<in> set (invoices s)" "q = (if iv_id q0 = iv_id r then f q0 else q0)"
      unfolding inv in_set_update_where by blast
    note ok0 = rows [OF q0(1)]
    show ?thesis
    proof (cases "iv_id q0 = iv_id r")
      case True
      then have "q0 = r" using dd q0(1) r(1) by (simp add: distinct_map inj_on_def)
      then have q: "q = f r" using q0(2) by simp
      have "credits_of s (iv_id r) = []" using rows [OF r(1)] r(2) by (simp add: settled_ok_def)
      then show ?thesis using ok0 f e nid \<open>q0 = r\<close>
        by (simp add: q settled_ok_def credited_as_def settles_def cr)
    next
      case False
      then have q: "q = q0" using q0(2) by simp
      have "credits_of u (iv_id q0) = credits_of s (iv_id q0)" using False by (simp add: cr)
      moreover have "wallet_id_of u a b k = Some w" if "wallet_id_of s a b k = Some w" for a b k w
        using stay that by (simp add: wallets_stay_def)
      ultimately show ?thesis using ok0 nid
        by (auto simp: q settled_ok_def credited_as_def split: if_splits)
    qed
  qed
  have "le_reference_id x \<in> Some ` iv_id ` set (invoices u)" if "x \<in> set (merchant_entries u)" for x
    using that ok r(1) e(1) by (auto simp: me idset gateway_ok_def)
  with row dd ids show ?thesis by (simp add: gateway_ok_def)
qed

lemma release_update_invoice [simp]: "invoices (update_invoice i f s) = update_where (\<lambda>r. iv_id r = i) f (invoices s)"
  "ledger (update_invoice i f s) = ledger s" "wallets (update_invoice i f s) = wallets s"
  "next_id (update_invoice i f s) = next_id s" "clock (update_invoice i f s) = clock s"
  "invoice_addresses (update_invoice i f s) = invoice_addresses s"
  by (simp_all add: update_invoice_def)

lemma confirm_invoice_run:
  assumes "confirm_invoice_tx iid h s = Inr (u, s')"
  obtains (already) r where "find_invoice s iid = Some r" "iv_status r = IvConfirmed"
      "s' = s\<lparr>row_locks := acquire (InvoiceLock iid) (row_locks s)\<rparr>"
    | (credited) r w t where "find_invoice s iid = Some r" "iv_status r \<notin> {IvConfirmed, IvCancelled, IvExpired}"
      "provisioned s t" "wallet_id_of t (iv_merchant r) (iv_coin r) MERCHANT = Some w"
      "can_post (merchant_credit w r) t"
      "s' = update_invoice iid (confirmed h (clock s)) (post_entry (merchant_credit w r) t)"
proof -
  let ?l = "s\<lparr>row_locks := acquire (InvoiceLock iid) (row_locks s)\<rparr>"
  from assms obtain r where r: "find_invoice s iid = Some r" and
    rest: "iv_status r = IvConfirmed \<and> s' = ?l \<or>
      iv_status r \<notin> {IvConfirmed, IvCancelled, IvExpired} \<and>
      (\<exists>s1. credit_merchant r ?l = Inr ((), s1) \<and> s' = update_invoice iid (confirmed h (clock s1)) s1)"
    by (auto simp: confirm_invoice_tx_def tx_bind_Inr lock_invoice_Inr tx_assert_Inr tx_return_Inr now_Inr tx_modify_Inr
        split: if_splits)
  show thesis
  proof (cases "iv_status r = IvConfirmed")
    case True
    with rest r already show ?thesis by simp
  next
    case False
    with rest obtain s1 where n: "iv_status r \<notin> {IvConfirmed, IvCancelled, IvExpired}" and
      c: "credit_merchant r ?l = Inr ((), s1)" and s': "s' = update_invoice iid (confirmed h (clock s1)) s1"
      by blast
    from credit_merchant_run [OF c] obtain w t where t: "provisioned ?l t"
      "wallet_id_of t (iv_merchant r) (iv_coin r) MERCHANT = Some w"
      "can_post (merchant_credit w r) t" "s1 = post_entry (merchant_credit w r) t" .
    have "books_ok s \<longrightarrow> books_ok ?l" using books_ok_cong [of ?l s] by simp
    with t(1) have "provisioned s t" by (simp add: provisioned_def)
    moreover have "clock s1 = clock s" using t by (simp add: provisioned_def)
    ultimately show ?thesis using credited [OF r n _ t(2,3)] t(4) s' by simp
  qed
qed

lemma pay_invoice_run:
  assumes "pay_invoice_tx iid payer s = Inr (u, s')"
  obtains r w m t t2 where "find_invoice s iid = Some r" "iv_status r \<in> {IvPending, IvDetected}"
    "clock s \<le> iv_expires_at r" "payer \<noteq> iv_merchant r"
    "wallet_id_of s payer (iv_coin r) PERSONAL = Some w" "iv_amount r \<le> wallet_balance s w"
    "wallets t = wallets s" "ledger t = ledger s" "invoices t = invoices s" "next_id t = next_id s" "clock t = clock s"
    "can_post (payer_debit w r) t" "provisioned (post_entry (payer_debit w r) t) t2"
    "wallet_id_of t2 (iv_merchant r) (iv_coin r) MERCHANT = Some m" "can_post (merchant_credit m r) t2"
    "s' = update_invoice iid (paid_internally (clock s)) (post_entry (merchant_credit m r) t2)"
proof -
  let ?l = "s\<lparr>row_locks := acquire (InvoiceLock iid) (row_locks s)\<rparr>"
  from assms obtain r w t s1 where r: "find_invoice s iid = Some r" "iv_status r \<in> {IvPending, IvDetected}"
    "clock s \<le> iv_expires_at r" "payer \<noteq> iv_merchant r"
    "wallet_id_of s payer (iv_coin r) PERSONAL = Some w" and
    lk: "lock_wallet w ?l = Inr ((), t)" and b: "iv_amount r \<le> wallet_balance t w" and
    p: "can_post (payer_debit w r) t" and c: "credit_merchant r (post_entry (payer_debit w r) t) = Inr ((), s1)" and
    s': "s' = update_invoice iid (paid_internally (clock s)) s1"
    by (auto simp: pay_invoice_tx_def tx_bind_Inr lock_invoice_Inr tx_assert_Inr tx_return_Inr now_Inr tx_modify_Inr
        select_wallet_Inr tx_ok_or_Inr tx_map_err_Inr get_wallet_balance_Inr apply_ledger_entry_Inr not_less
        wallet_id_of_cong [of ?l s])
  have t: "t = s\<lparr>row_locks := row_locks t\<rparr>" using lk by (simp add: lock_wallet_Inr split: if_splits)
  have f: "wallets t = wallets s" "ledger t = ledger s" "invoices t = invoices s" "next_id t = next_id s"
    "clock t = clock s"
    by (subst t, simp)+
  have b': "iv_amount r \<le> wallet_balance s w" using b wallet_balance_frame [OF f(2)] by simp
  from credit_merchant_run [OF c] obtain m t2 where t2: "provisioned (post_entry (payer_debit w r) t) t2"
      "wallet_id_of t2 (iv_merchant r) (iv_coin r) MERCHANT = Some m"
      "can_post (merchant_credit m r) t2" "s1 = post_entry (merchant_credit m r) t2" .
  show thesis using that [OF r b' f p t2(1,2,3)] s' t2(4) by simp
qed

lemma provisioned_merchant: "provisioned s t \<Longrightarrow> merchant_entries t = merchant_entries s \<and> wallets_stay s t"
  by (auto simp: provisioned_def merchant_entries_def wallets_stay_append)

lemma wallets_stay_trans: "wallets_stay s t \<Longrightarrow> wallets_stay t u \<Longrightarrow> wallets_stay s u"
  by (simp add: wallets_stay_def)

lemma provisioned_total:
  assumes "provisioned s t" and "books_ok s"
  shows "coin_total t c = coin_total s c"
proof -
  obtain ws where ws: "wallets t = wallets s @ ws" "ledger t = ledger s" and ok: "books_ok t"
    using assms by (auto simp: provisioned_def)
  have b: "wallet_balance t w = wallet_balance s w" for w using wallet_balance_frame [OF ws(2)] .
  have zero: "wallet_balance s w = 0" if "w \<in> coin_wallets t c - coin_wallets s c" for w
  proof (rule no_entries_balance)
    fix e assume "e \<in> set (ledger s)"
    then have old: "le_wallet e \<in> w_id ` set (wallets s)" using assms(2) by (simp add: books_ok_def entries_owned_def)
    have "w \<in> w_id ` set ws" using that by (auto simp: coin_wallets_def ws)
    moreover have "w_id ` set (wallets s) \<inter> w_id ` set ws = {}"
      using ok by (simp add: books_ok_def wallets_wf_def ws)
    ultimately show "le_wallet e \<noteq> w" using old by blast
  qed
  have "coin_wallets s c \<subseteq> coin_wallets t c" by (auto simp: coin_wallets_def ws)
  then have "(\<Sum>w\<in>coin_wallets t c. wallet_balance s w) = (\<Sum>w\<in>coin_wallets s c. wallet_balance s w)"
    by (intro sum.mono_neutral_right) (use zero in auto)
  then show ?thesis by (simp add: coin_total_def b)
qed

definition confirmed_ids :: "db \<Rightarrow> uuid set" where
  "confirmed_ids s = iv_id ` {r \<in> set (invoices s). iv_status r = IvConfirmed}"

definition credits_final :: "db \<Rightarrow> db \<Rightarrow> bool" where
  "credits_final s s' \<longleftrightarrow> (\<forall>i\<in>confirmed_ids s. i \<in> confirmed_ids s' \<and> credits_of s' i = credits_of s i)"

lemma credits_final_refl [simp]: "credits_final s s" by (simp add: credits_final_def)

lemma credits_final_trans: "credits_final s t \<Longrightarrow> credits_final t u \<Longrightarrow> credits_final s u"
  by (simp add: credits_final_def)

lemma credits_final_rows:
  assumes "invoices s' = map g (invoices s)" and "\<And>r. r \<in> set (invoices s) \<Longrightarrow> keeps_row g r"
    and "merchant_entries s' = merchant_entries s"
  shows "credits_final s s'"
proof -
  have "iv_id r \<in> confirmed_ids s'" if "r \<in> set (invoices s)" "iv_status r = IvConfirmed" for r
    using assms(1) assms(2) [OF that(1)] that image_eqI [of "iv_id r" iv_id "g r"]
    by (simp add: confirmed_ids_def keeps_row_def)
  then show ?thesis by (auto simp: credits_final_def confirmed_ids_def credits_of_cong [OF assms(3)])
qed

lemma credits_final_update:
  assumes "\<And>r. p r \<Longrightarrow> keeps_row f r" and "invoices s' = update_where p f (invoices s)" and "ledger s' = ledger s"
  shows "credits_final s s'"
  using assms(2) [unfolded update_where_def]
proof (rule credits_final_rows)
  show "keeps_row (\<lambda>r. if p r then f r else r) r" for r
    using assms(1) [of r] by (simp add: keeps_row_def)
qed (simp add: merchant_entries_def assms(3))

lemma credits_final_settle:
  assumes "gateway_ok s" and "r \<in> set (invoices s)" "iv_status r \<noteq> IvConfirmed" and "settles f"
    and "invoices u = update_where (\<lambda>q. iv_id q = iv_id r) f (invoices s)"
    and "merchant_entries u = merchant_entries s @ [e]" and "le_reference_id e = Some (iv_id r)"
  shows "credits_final s u"
proof -
  have "iv_id q \<in> confirmed_ids u \<and> credits_of u (iv_id q) = credits_of s (iv_id q)"
    if q: "q \<in> set (invoices s)" "iv_status q = IvConfirmed" for q
  proof -
    have "iv_id q \<noteq> iv_id r"
      using q assms(1-3) by (auto simp: gateway_ok_def distinct_map inj_on_def)
    then have "q \<in> set (invoices u)" and "credits_of u (iv_id q) = credits_of s (iv_id q)"
      using q assms(5,6,7) by (auto simp: in_set_update_where credits_of_def)
    with q show ?thesis by (auto simp: confirmed_ids_def)
  qed
  then show ?thesis by (auto simp: credits_final_def confirmed_ids_def)
qed

section \<open>Runs of the gateway\<close>

inductive gateway_step :: "db \<Rightarrow> db \<Rightarrow> bool" where
  create: "gateway_step s (snd (create_invoice i s))"
| show_coin: "gateway_step s (snd (upsert_invoice_address iid coin a h amount quote s))"
| select: "gateway_step s (snd (select_coin iid coin addr lock s))"
| freeze: "gateway_step s (lock_coin iid s)"
| repoint: "gateway_step s (point_selection_at iid coin addr s)"
| detect: "gateway_step s (snd (mark_invoice_detected iid received confs h s))"
| confirm: "gateway_step s (snd (confirm_invoice iid h s))"
| pay: "gateway_step s (snd (pay_invoice_with_balance iid payer s))"
| expire: "gateway_step s (snd (expire_due_invoices s))"
| delivery: "gateway_step s (record_webhook_delivery iid ok code msg s)"
| retry: "gateway_step s (schedule_webhook_retry iid at_time s)"
| swept: "gateway_step s (mark_invoice_swept iid s)"
| elsewhere: "other_sessions s s' \<Longrightarrow> gateway_step s s'"

definition gateway_kept :: "db \<Rightarrow> db \<Rightarrow> bool" where
  "gateway_kept s s' \<longleftrightarrow> gateway_ok s' \<and> credits_final s s'"

lemma gateway_kept_refl: "gateway_ok s \<Longrightarrow> gateway_kept s s"
  by (simp add: gateway_kept_def)

lemma gateway_kept_trans: "gateway_kept s t \<Longrightarrow> gateway_kept t u \<Longrightarrow> gateway_kept s u"
  using credits_final_trans by (auto simp: gateway_kept_def)

lemma kept_other: "gateway_ok s \<Longrightarrow> other_sessions s s' \<Longrightarrow> gateway_kept s s'"
  using credits_final_rows [of s' "\<lambda>r. r" s] gateway_other
  by (simp add: gateway_kept_def other_sessions_def keeps_row_def)

lemma kept_update:
  assumes "gateway_ok s" and "\<And>r. p r \<Longrightarrow> keeps_row f r"
    and "invoices s' = update_where p f (invoices s)"
    and "ledger s' = ledger s" and "next_id s \<le> next_id s'" and "wallets s' = wallets s"
  shows "gateway_kept s s'"
  unfolding gateway_kept_def
  using gateway_update [OF assms] credits_final_update [OF assms(2,3,4)] by simp

lemma gkept_settle:
  assumes "gateway_ok s" and "r \<in> set (invoices s)" "iv_status r \<noteq> IvConfirmed" and "settles f"
    and "invoices u = update_where (\<lambda>q. iv_id q = iv_id r) f (invoices s)"
    and "merchant_entries u = merchant_entries s @ [entry_of (merchant_credit w r) eid ts]"
    and "wallet_id_of u (iv_merchant r) (iv_coin r) MERCHANT = Some w"
    and "wallets_stay s u" and "next_id s \<le> next_id u"
  shows "gateway_kept s u"
  unfolding gateway_kept_def
  using gateway_settle [OF assms(1-6) _ _ _ assms(8,9)] credits_final_settle [OF assms(1-6)] assms(7) by simp

lemma kept_release: "gateway_kept s t \<Longrightarrow> gateway_kept s (release_locks t)"
  using kept_other [of t "release_locks t"]
  by (auto simp: gateway_kept_def other_sessions_def merchant_entries_def wallets_stay_append intro: credits_final_trans)

lemma snd_reread [simp]: "snd (reread iid z) = snd z"
  by (auto simp: reread_def split: prod.splits sum.splits)

lemma gkept_commit:
  assumes "gateway_ok s" and "\<And>x t. m s = Inr (x, t) \<Longrightarrow> gateway_kept s t"
  shows "gateway_kept s (snd (commit_tx release_locks m s))"
proof (cases "m s")
  case (Inl e)
  with gateway_kept_refl [OF assms(1)] show ?thesis by (simp add: commit_tx_def)
next
  case (Inr z)
  then have "gateway_kept s (release_locks (snd z))" using assms(2) [of "fst z" "snd z"] kept_release by simp
  with Inr show ?thesis by (cases z) (simp add: commit_tx_def)
qed

lemma kept_confirm:
  assumes "gateway_ok s" shows "gateway_kept s (snd (confirm_invoice iid h s))"
proof -
  have "gateway_kept s t" if "confirm_invoice_tx iid h s = Inr (x, t)" for x t
    using that
  proof (cases rule: confirm_invoice_run)
    case (already r)
    then show ?thesis using assms by (intro kept_other) (simp_all add: other_sessions_def merchant_entries_def wallets_stay_append)
  next
    case (credited r w t1)
    note r = find_invoice_Some [OF credited(1)]
    note p = provisioned_merchant [OF credited(3)]
    show ?thesis
    proof (rule gkept_settle [OF assms, of r "confirmed h (clock s)"])
      show "invoices t = update_where (\<lambda>q. iv_id q = iv_id r) (confirmed h (clock s)) (invoices s)"
        using credited(3,6) r by (simp add: provisioned_def)
      show "merchant_entries t = merchant_entries s @ [entry_of (merchant_credit w r) (next_id t1) (clock t1)]"
        using p by (simp add: credited(6) merchant_entries_def)
      show "wallet_id_of t (iv_merchant r) (iv_coin r) MERCHANT = Some w"
        using credited(4) wallet_id_of_cong [of t t1] by (simp add: credited(6))
      show "wallets_stay s t" using p wallets_stay_append [of t t1 "[]"] wallets_stay_trans by (auto simp: credited(6))
      show "next_id s \<le> next_id t" using credited(3) by (simp add: credited(6) provisioned_def)
    qed (use r credited in auto)
  qed
  then show ?thesis unfolding confirm_invoice_def snd_reread by (rule gkept_commit [OF assms])
qed

lemma kept_pay:
  assumes "gateway_ok s" shows "gateway_kept s (snd (pay_invoice_with_balance iid payer s))"
proof -
  have "gateway_kept s t" if "pay_invoice_tx iid payer s = Inr (x, t)" for x t
    using that
  proof (cases rule: pay_invoice_run)
    case (1 r w m t1 t2)
    note r = find_invoice_Some [OF 1(1)]
    note p = provisioned_merchant [OF 1(13)]
    show ?thesis
    proof (rule gkept_settle [OF assms, of r "paid_internally (clock s)"])
      show "invoices t = update_where (\<lambda>q. iv_id q = iv_id r) (paid_internally (clock s)) (invoices s)"
        using 1 r by (simp add: provisioned_def)
      show "merchant_entries t = merchant_entries s @ [entry_of (merchant_credit m r) (next_id t2) (clock t2)]"
        using p 1(8) by (simp add: 1(16) merchant_entries_def)
      show "wallet_id_of t (iv_merchant r) (iv_coin r) MERCHANT = Some m"
        using 1(14) wallet_id_of_cong [of t t2] by (simp add: 1(16))
      have "wallets_stay s t2" using p wallets_stay_append [of "post_entry (payer_debit w r) t1" s "[]"] 1(7) wallets_stay_trans by auto
      then show "wallets_stay s t" using wallets_stay_append [of t t2 "[]"] wallets_stay_trans by (auto simp: 1(16))
      show "next_id s \<le> next_id t" using 1(13,10) by (simp add: 1(16) provisioned_def)
    qed (use r 1(2) in auto)
  qed
  then show ?thesis unfolding pay_invoice_with_balance_def snd_reread by (rule gkept_commit [OF assms])
qed

lemma other_simps:
  "invoices s' = invoices s \<Longrightarrow> ledger s' = ledger s \<Longrightarrow> wallets s' = wallets s \<Longrightarrow> next_id s \<le> next_id s' \<Longrightarrow> other_sessions s s'"
  by (simp add: other_sessions_def merchant_entries_def wallets_stay_append)

lemma upsert_address_other: "other_sessions s (snd (upsert_invoice_address iid coin a h amount quote s))"
proof (cases "upsert_invoice_address_tx iid coin a h amount quote s")
  case (Inl e)
  then show ?thesis by (simp add: upsert_invoice_address_def commit_tx_def other_simps)
next
  case (Inr z)
  obtain row t where z: "z = (row, t)" by (cases z)
  with Inr have "invoices t = invoices s \<and> ledger t = ledger s \<and> wallets t = wallets s \<and> next_id s \<le> next_id t"
    by (cases "find_invoice_address s iid coin") (auto simp: upsert_invoice_address_tx_def tx_simps Let_def)
  with Inr z show ?thesis by (simp add: upsert_invoice_address_def commit_tx_def other_simps)
qed

lemma kept_create:
  assumes "gateway_ok s" shows "gateway_kept s (snd (create_invoice i s))"
proof -
  let ?t = "snd (commit_tx release_locks (insert_invoice i) s)"
  have ok: "gateway_ok ?t" by (rule create_invoice_ok [OF assms])
  have "credits_final s ?t"
  proof (cases "insert_invoice i s")
    case (Inl e)
    then show ?thesis by (simp add: commit_tx_def)
  next
    case (Inr z)
    obtain row t where z: "z = (row, t)" by (cases z)
    then have t: "?t = release_locks t" and f: "invoices t = invoices s @ [row]" "ledger t = ledger s"
      using Inr insert_invoice_run [of i s row t] by (simp_all add: commit_tx_def)
    show ?thesis unfolding t
      by (auto simp: credits_final_def confirmed_ids_def credits_of_def merchant_entries_def f)
  qed
  with ok have kept: "gateway_kept s ?t" by (simp add: gateway_kept_def)
  have "other_sessions ?t (snd (create_invoice i s))"
  proof (cases "commit_tx release_locks (insert_invoice i) s")
    case (Pair x t)
    let ?u = "\<lambda>iid. upsert_invoice_address iid (ci_coin i) (ci_deposit_address i) (ci_hd_index i)
          (ci_amount i) (ci_quote_price_scaled i) t"
    show ?thesis
    proof (cases x)
      case (Inl e)
      with Pair show ?thesis by (simp add: create_invoice_def other_simps)
    next
      case (Inr row)
      with Pair have "snd (create_invoice i s) = snd (?u (iv_id row))"
        by (cases "?u (iv_id row)") (simp add: create_invoice_def split: sum.splits)
      with Pair upsert_address_other show ?thesis by simp
    qed
  qed
  with kept_other [OF ok] kept gateway_kept_trans show ?thesis by blast
qed

lemma keeps_pointed:
  "iv_status r \<noteq> IvConfirmed \<Longrightarrow> keeps_row (pointed_at coin addr) r"
  by (simp add: keeps_row_def pointed_at_def split_beta split_fee_sum)

lemma kept_select:
  assumes "gateway_ok s" shows "gateway_kept s (snd (select_coin iid coin addr lock s))"
proof -
  let ?hit = "\<lambda>r. iv_id r = iid \<and> selectable (clock s) r"
  have "keeps_row (\<lambda>r. locked_if lock (clock s) (pointed_at coin addr r)) r" if "?hit r" for r
    using keeps_pointed [of r coin addr] that by (simp add: keeps_row_def locked_if_def selectable_def)
  then have "gateway_kept s (s\<lparr>invoices := update_where ?hit (\<lambda>r. locked_if lock (clock s) (pointed_at coin addr r)) (invoices s)\<rparr>)"
    by (intro kept_update [OF assms, where p = ?hit]) simp_all
  then show ?thesis using gateway_kept_refl [OF assms]
    by (simp add: select_coin_def Let_def split: sum.splits)
qed

lemma keeps_webhook: "keeps_row (\<lambda>r. r\<lparr>iv_webhook := w r\<rparr>) r"
  by (simp add: keeps_row_def)

lemma gateway_step_kept:
  assumes "gateway_step s s'" and ok: "gateway_ok s"
  shows "gateway_kept s s'"
  using assms(1)
proof cases
  case (create i)
  then show ?thesis using kept_create [OF ok] by simp
next
  case (show_coin iid coin a h amount quote)
  then show ?thesis using kept_other [OF ok upsert_address_other] by simp
next
  case (select iid coin addr lock)
  then show ?thesis using kept_select [OF ok] by simp
next
  case (freeze iid)
  then show ?thesis by (intro kept_update [OF ok]) (simp_all add: lock_coin_def keeps_row_def)
next
  case (repoint iid coin addr)
  show ?thesis by (rule kept_update [OF ok keeps_pointed]) (auto simp: repoint point_selection_at_def)
next
  case (detect iid received confs h)
  then have "s' = s \<or> s' = s\<lparr>invoices := update_where (\<lambda>r. iv_id r = iid \<and> iv_status r \<in> {IvPending, IvDetected})
        (\<lambda>r. r\<lparr>iv_status := IvDetected, iv_received_amount := received, iv_confirmations := confs,
          iv_tx_hash := coalesce h (iv_tx_hash r)\<rparr>) (invoices s)\<rparr>"
    by (auto simp: mark_invoice_detected_def Let_def)
  then show ?thesis
  proof
    assume "s' = s" then show ?thesis using gateway_kept_refl [OF ok] by simp
  next
    assume s': "s' = s\<lparr>invoices := update_where (\<lambda>r. iv_id r = iid \<and> iv_status r \<in> {IvPending, IvDetected})
        (\<lambda>r. r\<lparr>iv_status := IvDetected, iv_received_amount := received, iv_confirmations := confs,
          iv_tx_hash := coalesce h (iv_tx_hash r)\<rparr>) (invoices s)\<rparr>"
    show ?thesis unfolding s'
      by (rule kept_update [OF ok, where p = "\<lambda>r. iv_id r = iid \<and> iv_status r \<in> {IvPending, IvDetected}"])
        (auto simp: keeps_row_def)
  qed
next
  case (confirm iid h)
  then show ?thesis using kept_confirm [OF ok] by simp
next
  case (pay iid payer)
  then show ?thesis using kept_pay [OF ok] by simp
next
  case expire
  show ?thesis by (rule kept_update [OF ok, where p = "overdue (clock s)"]) (auto simp: expire expire_due_invoices_def keeps_row_def overdue_def)
next
  case (delivery iid okay code msg)
  then show ?thesis by (intro kept_update [OF ok keeps_webhook]) (simp_all add: record_webhook_delivery_def)
next
  case (retry iid at_time)
  then show ?thesis by (intro kept_update [OF ok keeps_webhook]) (simp_all add: schedule_webhook_retry_def)
next
  case (swept iid)
  show ?thesis by (rule kept_update [OF ok, where f = "\<lambda>r. r\<lparr>iv_hd_index := None\<rparr>"]) (simp_all add: swept mark_invoice_swept_def keeps_row_def)
next
  case elsewhere
  then show ?thesis using kept_other [OF ok] by simp
qed

lemma gateway_run_kept: "gateway_step\<^sup>*\<^sup>* s s' \<Longrightarrow> gateway_ok s \<Longrightarrow> gateway_kept s s'"
proof (induction rule: rtranclp_induct)
  case base
  then show ?case by (rule gateway_kept_refl)
next
  case (step t u)
  then have "gateway_kept s t" by simp
  moreover then have "gateway_kept t u" using gateway_step_kept [OF step.hyps(2)] by (simp add: gateway_kept_def)
  ultimately show ?case by (rule gateway_kept_trans)
qed

section \<open>The watcher's tick\<close>

lemma gateway_then: "gateway_step\<^sup>*\<^sup>* s t \<Longrightarrow> gateway_step t u \<Longrightarrow> gateway_step\<^sup>*\<^sup>* s u"
  by (rule rtranclp.rtrancl_into_rtrancl)

lemma dispatch_run: "gateway_step\<^sup>*\<^sup>* s (snd (dispatch_invoice_webhook W P ss r s))"
proof -
  have "gateway_step s (s\<lparr>next_id := Suc (next_id s)\<rparr>)" by (rule elsewhere) (simp add: other_simps)
  then show ?thesis unfolding dispatch_invoice_webhook_def Let_def snd_conv
    by (rule gateway_then [OF gateway_then [OF r_into_rtranclp [OF _] delivery] retry])
qed

lemma sweep_run: "gateway_step\<^sup>*\<^sup>* s (sweep_invoice_address C r h coin s)"
proof -
  have "gateway_step s (snd (record_network_fee i s))" for i
    by (rule elsewhere, cases "record_network_fee_tx i s")
      (auto simp: record_network_fee_def commit_tx_def other_simps record_network_fee_tx_Inr split: if_splits)
  then have "gateway_step\<^sup>*\<^sup>* s (mark_invoice_swept j (snd (record_network_fee i s)))" for i j
    by (rule gateway_then [OF r_into_rtranclp [where r = gateway_step] swept])
  then show ?thesis by (simp add: sweep_invoice_address_def split: option.split sum.split)
qed

lemma scan_address_run: "gateway_step\<^sup>*\<^sup>* s (snd (scan_address C W P ss row addr s))"
proof (cases "fetch_deposits C (ia_coin addr) (ia_address addr)")
  case (Inl e)
  then show ?thesis by (simp add: scan_address_def)
next
  case (Inr ds0)
  show ?thesis
  proof (cases "ds0 = [] \<or> 1 < count_invoices_at_address s (ia_address addr)")
    case True
    with Inr show ?thesis by (cases ds0) (auto simp: scan_address_def)
  next
    case False
    then obtain d ds where ds: "ds0 = d # ds" by (cases ds0) auto
    define s1 where "s1 = repoint row addr (lock_coin (iv_id row) s)"
    have "gateway_step\<^sup>*\<^sup>* s (lock_coin (iv_id row) s)" by (intro r_into_rtranclp freeze)
    then have r1: "gateway_step\<^sup>*\<^sup>* s s1"
      using gateway_then [OF _ gateway_step.repoint, of s "lock_coin (iv_id row) s"]
      by (simp add: s1_def InvoiceWatcher.repoint_def)
    define m where "m = mark_invoice_detected (iv_id row) (seen_amount (d # ds)) (best_confirmations (d # ds)) (Some (tx_hash_of d)) s1"
    have r2: "gateway_step\<^sup>*\<^sup>* s (snd m)" using gateway_then [OF r1 detect] by (simp add: m_def)
    define c where "c = confirm_invoice (iv_id row) (Some (tx_hash_of d)) (snd m)"
    have r3: "gateway_step\<^sup>*\<^sup>* s (snd c)" using gateway_then [OF r2 confirm] by (simp add: c_def)
    have r4: "gateway_step\<^sup>*\<^sup>* s (snd (settle_paid C W P ss row addr (tx_hash_of d) (snd m)))"
    proof (cases c)
      case (Pair x t)
      show ?thesis
      proof (cases x)
        case (Inl e)
        with r3 Pair show ?thesis by (simp add: settle_paid_def c_def)
      next
        case (Inr q)
        define u where "u = sweep_invoice_address C q (ia_hd_index addr) (ia_coin addr) t"
        have "gateway_step\<^sup>*\<^sup>* s u" using rtranclp_trans [OF r3 sweep_run] Pair by (simp add: u_def)
        then have "gateway_step\<^sup>*\<^sup>* s (snd (dispatch_invoice_webhook W P ss q u))"
          by (rule rtranclp_trans [OF _ dispatch_run])
        with Inr Pair show ?thesis by (simp add: settle_paid_def c_def u_def)
      qed
    qed
    have "scan_address C W P ss row addr s = (case m of (Inl _, s2) \<Rightarrow> (False, s2)
        | (Inr _, s2) \<Rightarrow> if confirmed_amount (ia_coin addr) (d # ds) < ia_amount addr then (False, s2)
           else settle_paid C W P ss row addr (tx_hash_of d) s2)"
      using Inr False ds by (simp add: scan_address_def Let_def s1_def m_def)
    with r2 r4 show ?thesis by (auto split: prod.splits sum.splits)
  qed
qed

lemma scan_addresses_run: "gateway_step\<^sup>*\<^sup>* s (scan_addresses C W P ss row as s)"
proof (induction "as" arbitrary: s)
  case (Cons a "as")
  obtain b t where bt: "scan_address C W P ss row a s = (b, t)" by (cases "scan_address C W P ss row a s")
  then have "gateway_step\<^sup>*\<^sup>* s t" using scan_address_run [of s C W P ss row a] by simp
  with Cons.IH [of t] bt show ?case by (cases b) auto
qed simp

lemma redeliver_run: "gateway_step\<^sup>*\<^sup>* s (snd (redeliver_each W P ss rs s))"
proof (induction rs arbitrary: s)
  case (Cons r rs)
  let ?t = "snd (dispatch_invoice_webhook W P ss r s)"
  have "gateway_step\<^sup>*\<^sup>* s (snd (redeliver_each W P ss rs ?t))"
    using rtranclp_trans [OF dispatch_run Cons.IH] .
  then show ?case by (simp add: split_beta Let_def)
qed simp

section \<open>Paid on the chain\<close>

text \<open>
  What the outputs at an address are worth with enough confirmations, and an invoice that is paid: one
  of the addresses it ever showed holds the amount asked for there.
\<close>

definition confirmed_on_chain :: "Coin \<Rightarrow> OnchainTx list \<Rightarrow> nat" where
  "confirmed_on_chain coin ds =
     (\<Sum>d\<leftarrow>ds. if min_confirmations (coin_config coin) \<le> tx_confirmations d then tx_amount d else 0)"

definition paid_on_chain :: "chain \<Rightarrow> db \<Rightarrow> uuid \<Rightarrow> bool" where
  "paid_on_chain C s iid \<longleftrightarrow>
     (\<exists>addr ds. addr \<in> set (invoice_addresses s) \<and> ia_invoice addr = iid \<and>
        fetch_deposits C (ia_coin addr) (ia_address addr) = Inr ds \<and> ds \<noteq> [] \<and>
        ia_amount addr \<le> int (confirmed_on_chain (ia_coin addr) ds))"

lemma confirmed_amount_on_chain: "confirmed_amount coin ds = int (confirmed_on_chain coin ds)"
  by (induction ds) (simp_all add: confirmed_amount_def confirmed_on_chain_def)

lemma paid_on_chain_cong: "invoice_addresses t = invoice_addresses s \<Longrightarrow> paid_on_chain C t i = paid_on_chain C s i"
  by (simp add: paid_on_chain_def)

text \<open>The chain shows outputs at an address that no other invoice points at.\<close>

definition chain_shows :: "chain \<Rightarrow> db \<Rightarrow> invoice_address_row \<Rightarrow> OnchainTx list \<Rightarrow> bool" where
  "chain_shows C s addr ds \<longleftrightarrow> addr \<in> set (invoice_addresses s) \<and> ds \<noteq> [] \<and>
     fetch_deposits C (ia_coin addr) (ia_address addr) = Inr ds \<and> count_invoices_at_address s (ia_address addr) \<le> 1"

text \<open>What is written down about an arrival before it is decided on.\<close>

definition noted :: "invoice_row \<Rightarrow> invoice_address_row \<Rightarrow> OnchainTx list \<Rightarrow> db \<Rightarrow> db" where
  "noted r addr ds s =
     snd (mark_invoice_detected (iv_id r) (seen_amount ds) (best_confirmations ds) (Some (tx_hash_of (hd ds)))
       (InvoiceWatcher.repoint r addr (lock_coin (iv_id r) s)))"

definition money_view :: "db \<Rightarrow> (uuid \<times> invoice_status \<times> Coin \<times> int \<times> string) list" where
  "money_view s = map (\<lambda>r. (iv_id r, iv_status r, iv_coin r, iv_net_amount r, iv_deposit_address r)) (invoices s)"

definition upkeep :: "db \<Rightarrow> db \<Rightarrow> bool" where
  "upkeep s s' \<longleftrightarrow> ledger s' = ledger s \<and> wallets s' = wallets s \<and> invoice_addresses s' = invoice_addresses s \<and>
     money_view s' = money_view s"

text \<open>
  The steps of the watcher, with what has to hold for each: an invoice moves only for an address of
  its own at which the chain shows outputs and which it shares with no other invoice, and it is
  confirmed only when the confirmed outputs there reach the amount asked for.
\<close>

inductive watcher_step :: "chain \<Rightarrow> db \<Rightarrow> db \<Rightarrow> bool" for C where
  expired: "watcher_step C s (snd (expire_due_invoices s))"
| arrived: "chain_shows C s addr ds \<Longrightarrow> iv_id r = ia_invoice addr \<Longrightarrow> watcher_step C s (noted r addr ds s)"
| settled: "chain_shows C s addr ds \<Longrightarrow> iv_id r = ia_invoice addr \<Longrightarrow>
    ia_amount addr \<le> int (confirmed_on_chain (ia_coin addr) ds) \<Longrightarrow>
    watcher_step C s (snd (confirm_invoice (iv_id r) (Some (tx_hash_of (hd ds))) (noted r addr ds s)))"
| kept_up: "upkeep s s' \<Longrightarrow> watcher_step C s s'"

lemma money_view_update:
  assumes "\<And>r. iv_id (f r) = iv_id r \<and> iv_status (f r) = iv_status r \<and> iv_coin (f r) = iv_coin r \<and>
      iv_net_amount (f r) = iv_net_amount r \<and> iv_deposit_address (f r) = iv_deposit_address r"
    and "invoices s' = update_where p f (invoices s)"
  shows "money_view s' = money_view s"
  using assms by (simp add: money_view_def update_where_def)

lemma upkeep_update:
  assumes "\<And>r. iv_id (f r) = iv_id r \<and> iv_status (f r) = iv_status r \<and> iv_coin (f r) = iv_coin r \<and>
      iv_net_amount (f r) = iv_net_amount r \<and> iv_deposit_address (f r) = iv_deposit_address r"
  shows "upkeep t (update_invoice i f t)"
  using money_view_update [OF assms, of "update_invoice i f t" "\<lambda>r. iv_id r = i" t] by (simp add: upkeep_def)

lemma upkeep_trans: "upkeep s t \<Longrightarrow> upkeep t u \<Longrightarrow> upkeep s u"
  by (simp add: upkeep_def)

lemma upkeep_dispatch: "upkeep s (snd (dispatch_invoice_webhook W P ss r s))"
proof -
  have d: "upkeep t (record_webhook_delivery i ok code msg t)" for t i ok code msg
    unfolding record_webhook_delivery_def by (rule upkeep_update) simp
  have r: "upkeep t (schedule_webhook_retry i at_time t)" for t i at_time
    unfolding schedule_webhook_retry_def by (rule upkeep_update) simp
  have n: "upkeep s (s\<lparr>next_id := n\<rparr>)" for n by (simp add: upkeep_def money_view_def)
  show ?thesis
    unfolding dispatch_invoice_webhook_def Let_def snd_conv by (rule upkeep_trans [OF upkeep_trans [OF n d] r])
qed

lemma upkeep_sweep: "upkeep s (sweep_invoice_address C r h coin s)"
proof -
  have f: "upkeep t (snd (record_network_fee i t))" for t i
    by (cases "record_network_fee_tx i t")
      (auto simp: upkeep_def money_view_def record_network_fee_def commit_tx_def record_network_fee_tx_Inr split: if_splits)
  have m: "upkeep t (mark_invoice_swept i t)" for t i
    unfolding mark_invoice_swept_def by (rule upkeep_update) simp
  have "upkeep s s" by (simp add: upkeep_def)
  with upkeep_trans [OF f m] show ?thesis by (simp add: sweep_invoice_address_def split: option.split sum.split)
qed

subsection \<open>What a step leaves\<close>

definition paid_only :: "chain \<Rightarrow> db \<Rightarrow> db \<Rightarrow> bool" where
  "paid_only C s s' \<longleftrightarrow> invoice_addresses s' = invoice_addresses s \<and>
     set (merchant_entries s') \<subseteq> set (merchant_entries s) \<union>
       {e. \<exists>i. le_reference_id e = Some i \<and> paid_on_chain C s i} \<and>
     confirmed_ids s' \<subseteq> confirmed_ids s \<union> {i. paid_on_chain C s i}"

lemma paid_only_trans: "paid_only C s t \<Longrightarrow> paid_only C t u \<Longrightarrow> paid_only C s u"
  unfolding paid_only_def by (auto simp: paid_on_chain_cong [of t s])

text \<open>An update that confirms no invoice.\<close>

lemma not_confirming:
  assumes "invoices s' = update_where p f (invoices s)"
    and "\<And>r. p r \<Longrightarrow> iv_status (f r) = IvConfirmed \<Longrightarrow> iv_status r = IvConfirmed" and "\<And>r. iv_id (f r) = iv_id r"
  shows "confirmed_ids s' \<subseteq> confirmed_ids s"
  using assms by (auto simp: confirmed_ids_def in_set_update_where split: if_splits)

lemma noted_frame:
  "ledger (noted r addr ds s) = ledger s" "invoice_addresses (noted r addr ds s) = invoice_addresses s"
  "confirmed_ids (noted r addr ds s) \<subseteq> confirmed_ids s"
proof -
  let ?t = "InvoiceWatcher.repoint r addr (lock_coin (iv_id r) s)"
  have l: "confirmed_ids (lock_coin (iv_id r) s) \<subseteq> confirmed_ids s"
    by (rule not_confirming [where p = "\<lambda>x. iv_id x = iv_id r \<and> iv_coin_locked_at x = None"
          and f = "\<lambda>x. x\<lparr>iv_coin_locked_at := Some (clock s)\<rparr>"]) (simp_all add: lock_coin_def)
  have "confirmed_ids (point_selection_at (iv_id r) (ia_coin addr) addr u) \<subseteq> confirmed_ids u" for u
    by (rule not_confirming [where p = "\<lambda>x. iv_id x = iv_id r \<and> iv_status x \<noteq> IvConfirmed"
          and f = "pointed_at (ia_coin addr) addr"]) (simp_all add: point_selection_at_def pointed_at_def split_beta)
  with l have t: "confirmed_ids ?t \<subseteq> confirmed_ids s" by (auto simp: InvoiceWatcher.repoint_def)
  let ?f = "\<lambda>x. x\<lparr>iv_status := IvDetected, iv_received_amount := seen_amount ds, iv_confirmations := best_confirmations ds,
          iv_tx_hash := coalesce (Some (tx_hash_of (hd ds))) (iv_tx_hash x)\<rparr>"
  have "snd (mark_invoice_detected i n c (Some h) u) = u \<or> snd (mark_invoice_detected i n c (Some h) u) =
      u\<lparr>invoices := update_where (\<lambda>x. iv_id x = i \<and> iv_status x \<in> {IvPending, IvDetected})
         (\<lambda>x. x\<lparr>iv_status := IvDetected, iv_received_amount := n, iv_confirmations := c,
            iv_tx_hash := coalesce (Some h) (iv_tx_hash x)\<rparr>) (invoices u)\<rparr>" for i n c h u
    by (simp add: mark_invoice_detected_def Let_def)
  then have eq: "noted r addr ds s = ?t \<or>
      noted r addr ds s = ?t\<lparr>invoices := update_where (\<lambda>x. iv_id x = iv_id r \<and> iv_status x \<in> {IvPending, IvDetected}) ?f (invoices ?t)\<rparr>"
    unfolding noted_def by blast
  have u: "confirmed_ids (?t\<lparr>invoices := update_where (\<lambda>x. iv_id x = iv_id r \<and> iv_status x \<in> {IvPending, IvDetected}) ?f (invoices ?t)\<rparr>)
      \<subseteq> confirmed_ids ?t"
    by (rule not_confirming [where p = "\<lambda>x. iv_id x = iv_id r \<and> iv_status x \<in> {IvPending, IvDetected}" and f = ?f]) simp_all
  from eq show "confirmed_ids (noted r addr ds s) \<subseteq> confirmed_ids s"
  proof
    assume "noted r addr ds s = ?t"
    then show ?thesis by (simp only: t)
  next
    assume e: "noted r addr ds s = ?t\<lparr>invoices := update_where (\<lambda>x. iv_id x = iv_id r \<and> iv_status x \<in> {IvPending, IvDetected}) ?f (invoices ?t)\<rparr>"
    show ?thesis unfolding e by (rule subset_trans [OF u t])
  qed
  show "ledger (noted r addr ds s) = ledger s" "invoice_addresses (noted r addr ds s) = invoice_addresses s"
    by (simp_all add: noted_def mark_invoice_detected_def Let_def InvoiceWatcher.repoint_def point_selection_at_def lock_coin_def)
qed

lemma confirm_frame:
  "invoice_addresses (snd (confirm_invoice iid h s)) = invoice_addresses s \<and>
   set (merchant_entries (snd (confirm_invoice iid h s))) \<subseteq> set (merchant_entries s) \<union> {e. le_reference_id e = Some iid} \<and>
   confirmed_ids (snd (confirm_invoice iid h s)) \<subseteq> insert iid (confirmed_ids s)"
proof (cases "confirm_invoice_tx iid h s")
  case (Inl e)
  then show ?thesis by (auto simp: confirm_invoice_def commit_tx_def)
next
  case (Inr z)
  obtain u t where z: "z = (u, t)" by (cases z)
  have r: "snd (confirm_invoice iid h s) = release_locks t" using Inr z by (simp add: confirm_invoice_def commit_tx_def)
  have rel: "merchant_entries (release_locks t) = merchant_entries t" "confirmed_ids (release_locks t) = confirmed_ids t"
    by (simp_all add: merchant_entries_def confirmed_ids_def)
  from Inr z have "confirm_invoice_tx iid h s = Inr (u, t)" by simp
  then show ?thesis
  proof (cases rule: confirm_invoice_run)
    case (already q)
    then show ?thesis unfolding r rel by (auto simp: merchant_entries_def confirmed_ids_def)
  next
    case (credited q w t1)
    have "iv_id q = iid" using find_invoice_Some [OF credited(1)] by simp
    with credited(3) show ?thesis unfolding r rel credited(6)
      by (auto simp: provisioned_def merchant_entries_def confirmed_ids_def in_set_update_where confirmed_def split: if_splits)
  qed
qed

lemma watcher_step_paid:
  assumes "watcher_step C s s'"
  shows "paid_only C s s'"
  using assms
proof cases
  case expired
  have "confirmed_ids (snd (expire_due_invoices s)) \<subseteq> confirmed_ids s"
    by (rule not_confirming [where p = "overdue (clock s)" and f = "\<lambda>r. r\<lparr>iv_status := IvExpired\<rparr>"])
      (simp_all add: expire_due_invoices_def)
  with expired show ?thesis by (auto simp: paid_only_def expire_due_invoices_def merchant_entries_def)
next
  case (arrived addr ds r)
  with noted_frame [of r addr ds s] show ?thesis by (auto simp: paid_only_def merchant_entries_def)
next
  case (settled addr ds r)
  then have "paid_on_chain C s (iv_id r)" unfolding paid_on_chain_def chain_shows_def by metis
  moreover have "merchant_entries (noted r addr ds s) = merchant_entries s" by (simp add: merchant_entries_def noted_frame)
  ultimately show ?thesis
    using settled confirm_frame [of "iv_id r" "Some (tx_hash_of (hd ds))" "noted r addr ds s"] noted_frame(2,3) [of r addr ds s]
    unfolding paid_only_def by auto
next
  case kept_up
  have "confirmed_ids x = fst ` {v \<in> set (money_view x). fst (snd v) = IvConfirmed}" for x
  proof -
    have "{v \<in> set (money_view x). fst (snd v) = IvConfirmed} =
        (\<lambda>r. (iv_id r, iv_status r, iv_coin r, iv_net_amount r, iv_deposit_address r)) `
          {r \<in> set (invoices x). iv_status r = IvConfirmed}"
      by (auto simp: money_view_def)
    then show ?thesis by (simp add: confirmed_ids_def image_image)
  qed
  with kept_up show ?thesis by (auto simp: paid_only_def upkeep_def merchant_entries_def)
qed

lemma watcher_run_paid: "(watcher_step C)\<^sup>*\<^sup>* s s' \<Longrightarrow> paid_only C s s'"
proof (induction rule: rtranclp_induct)
  case base
  show ?case by (auto simp: paid_only_def)
next
  case (step t u)
  from step.IH watcher_step_paid [OF step.hyps(2)] show ?case by (rule paid_only_trans)
qed

subsection \<open>A tick is a run of these steps\<close>

lemma scan_address_steps:
  assumes "addr \<in> set (invoice_addresses s)" and "ia_invoice addr = iv_id row"
  shows "(watcher_step C)\<^sup>*\<^sup>* s (snd (scan_address C W P ss row addr s))"
proof (cases "fetch_deposits C (ia_coin addr) (ia_address addr)")
  case (Inl e)
  then show ?thesis by (simp add: scan_address_def)
next
  case (Inr ds0)
  show ?thesis
  proof (cases "ds0 = [] \<or> 1 < count_invoices_at_address s (ia_address addr)")
    case True
    with Inr show ?thesis by (cases ds0) (auto simp: scan_address_def)
  next
    case False
    then obtain d ds where ds: "ds0 = d # ds" by (cases ds0) auto
    have shows': "chain_shows C s addr (d # ds)" using assms Inr ds False by (simp add: chain_shows_def)
    let ?n = "noted row addr (d # ds) s"
    let ?c = "snd (confirm_invoice (iv_id row) (Some (tx_hash_of d)) ?n)"
    define m where "m = mark_invoice_detected (iv_id row) (seen_amount (d # ds)) (best_confirmations (d # ds))
        (Some (tx_hash_of d)) (InvoiceWatcher.repoint row addr (lock_coin (iv_id row) s))"
    have n: "snd m = ?n" by (simp add: m_def noted_def)
    have arr: "watcher_step C s ?n" by (rule watcher_step.arrived [OF shows' assms(2) [symmetric]])
    have scan: "scan_address C W P ss row addr s = (case m of (Inl _, s2) \<Rightarrow> (False, s2)
        | (Inr _, s2) \<Rightarrow> if confirmed_amount (ia_coin addr) (d # ds) < ia_amount addr then (False, s2)
           else settle_paid C W P ss row addr (tx_hash_of d) s2)"
      using Inr False ds by (simp add: scan_address_def Let_def m_def)
    show ?thesis
    proof (cases "snd (scan_address C W P ss row addr s) = ?n")
      case True
      with arr show ?thesis by simp
    next
      case unsettled: False
      have paid: "ia_amount addr \<le> int (confirmed_on_chain (ia_coin addr) (d # ds))"
        and st: "scan_address C W P ss row addr s = settle_paid C W P ss row addr (tx_hash_of d) ?n"
        using unsettled n unfolding scan
        by (auto simp: confirmed_amount_on_chain not_less split: prod.splits sum.splits if_splits)
      have con: "watcher_step C s ?c"
        using watcher_step.settled [OF shows' assms(2) [symmetric] paid] by simp
      have "snd (settle_paid C W P ss row addr (tx_hash_of d) ?n) = ?c \<or>
          upkeep ?c (snd (settle_paid C W P ss row addr (tx_hash_of d) ?n))"
        using upkeep_trans [OF upkeep_sweep upkeep_dispatch]
        by (auto simp: settle_paid_def split: prod.splits sum.splits)
      then show ?thesis unfolding st
        using con watcher_step.kept_up by (metis converse_rtranclp_into_rtranclp rtranclp.rtrancl_refl)
    qed
  qed
qed

lemma scan_addresses_steps:
  assumes "\<And>a. a \<in> set as \<Longrightarrow> a \<in> set (invoice_addresses s) \<and> ia_invoice a = iv_id row"
  shows "(watcher_step C)\<^sup>*\<^sup>* s (scan_addresses C W P ss row as s)"
  using assms
proof (induction "as" arbitrary: s)
  case (Cons a "as")
  obtain b t where bt: "scan_address C W P ss row a s = (b, t)" by (cases "scan_address C W P ss row a s")
  have t: "(watcher_step C)\<^sup>*\<^sup>* s t" using scan_address_steps [of a s row C W P ss] Cons.prems [of a] bt by simp
  then have "invoice_addresses t = invoice_addresses s" using watcher_run_paid [OF t] by (simp add: paid_only_def)
  then have "(watcher_step C)\<^sup>*\<^sup>* t (scan_addresses C W P ss row as t)" using Cons.prems by (intro Cons.IH) simp
  with t bt show ?case by (cases b) auto
qed simp

lemma scan_invoice_steps: "(watcher_step C)\<^sup>*\<^sup>* s (scan_invoice C W P ss row s)"
  unfolding scan_invoice_def by (rule scan_addresses_steps) (simp add: list_invoice_addresses_def)

lemma redeliver_upkeep: "upkeep s (snd (redeliver_each W P ss rs s))"
proof (induction rs arbitrary: s)
  case Nil
  show ?case by (simp add: upkeep_def)
next
  case (Cons r rs)
  have "upkeep s (snd (redeliver_each W P ss rs (snd (dispatch_invoice_webhook W P ss r s))))"
    using upkeep_trans [OF upkeep_dispatch Cons.IH] .
  then show ?case by (simp add: split_beta Let_def)
qed

lemma fold_steps: "(\<And>x t. R\<^sup>*\<^sup>* t (f x t)) \<Longrightarrow> R\<^sup>*\<^sup>* s (fold f xs s)"
proof (induction xs arbitrary: s)
  case (Cons x xs)
  have "R\<^sup>*\<^sup>* s (f x s)" by (rule Cons.prems)
  moreover have "R\<^sup>*\<^sup>* (f x s) (fold f xs (f x s))" by (rule Cons.IH) (rule Cons.prems)
  ultimately show ?case by simp
qed simp

lemma watcher_tick_gateway: "gateway_step\<^sup>*\<^sup>* s (snd (watch_invoices C W P ss s))"
proof -
  define s1 where "s1 = snd (expire_due_invoices s)"
  have "gateway_step\<^sup>*\<^sup>* s s1" unfolding s1_def by (intro r_into_rtranclp expire)
  also have "gateway_step\<^sup>*\<^sup>* s1 (fold (scan_invoice C W P ss) (list_open_invoices s1 SCAN_BATCH) s1)"
    by (rule fold_steps) (simp add: scan_invoice_def scan_addresses_run)
  also have "gateway_step\<^sup>*\<^sup>* \<dots> (snd (redeliver_webhooks W P ss (fold (scan_invoice C W P ss) (list_open_invoices s1 SCAN_BATCH) s1)))"
    unfolding redeliver_webhooks_def by (rule redeliver_run)
  finally show ?thesis by (simp add: watch_invoices_def Let_def s1_def)
qed


end
