(* ===== verification/Checkout.thy ===== *)
theory Checkout
  imports Gateway
begin

text \<open>
  A checkout end to end: the payment of an invoice from a SatsPay balance, the price of an invoice
  in the coins it accepts, the webhook that tells the merchant, and one settlement that goes wrong.
  The hosts a webhook is never sent to are given apart from the code's tests (\<open>internal_host\<close>): the
  internal networks by number and prefix length, literals bare and in brackets, names by what they
  resolve to.
\<close>

section \<open>A concrete gateway\<close>

definition demo_input :: CreateDepositInvoiceInput where
  "demo_input = \<lparr>ci_merchant_id = 1, ci_api_key_id = None, ci_site_user_id = None, ci_order_id = ''A1'',
     ci_site_name = None, ci_coin = Btc, ci_amount = 400000, ci_deposit_address = ''bc1'', ci_hd_index = Some 7,
     ci_callback_url = ''https://shop'', ci_success_url = None, ci_cancel_url = None, ci_customer_email = None,
     ci_customer_name = None, ci_description = None, ci_expiry_minutes = None, ci_accepted_coins = [Btc, Ltc],
     ci_price_usd_scaled = Some 40000000000, ci_price_decimals = Some 8, ci_quote_price_scaled = Some 10000000000000\<rparr>"

definition demo_user :: "uuid \<Rightarrow> user_row" where
  "demo_user u = \<lparr>u_id = u, u_email = '''', u_username = '''', u_password_hash = ''''\<rparr>"

definition demo_invoice :: invoice_row where
  "demo_invoice = new_invoice 5 demo_input 0"

definition gateway_demo :: db where
  "gateway_demo = empty_db\<lparr>users := [demo_user 1, demo_user 2], wallets := [demo_wallet 3 2 Btc PERSONAL],
     ledger := [entry_of (simple_input 3 500000 DEPOSIT (Some 4) (Some ''Deposit'') None) 6 0],
     invoices := [demo_invoice], next_id := 10\<rparr>"

definition demo_paid :: db where
  "demo_paid = gateway_demo\<lparr>wallets := [demo_wallet 3 2 Btc PERSONAL, demo_wallet 11 1 Btc MERCHANT],
     ledger := ledger gateway_demo @ [entry_of (payer_debit 3 demo_invoice) 10 0, entry_of (merchant_credit 11 demo_invoice) 12 0],
     invoices := [paid_internally 0 demo_invoice], next_id := 13\<rparr>"

lemma demo_invoice_sel [simp]:
  "iv_id demo_invoice = 5" "iv_merchant demo_invoice = 1" "iv_coin demo_invoice = Btc" "iv_status demo_invoice = IvPending"
  "iv_amount demo_invoice = 400000" "iv_fee_amount demo_invoice = 1000" "iv_net_amount demo_invoice = 399000"
  "iv_expires_at demo_invoice = 3600000000"
  by (simp_all add: demo_invoice_def new_invoice_def demo_input_def split_fee_def trunc_div_def GATEWAY_FEE_BPS_def
      expiry_minutes_def minute_micros_def)

lemma gateway_demo_sel [simp]:
  "users gateway_demo = [demo_user 1, demo_user 2]" "wallets gateway_demo = [demo_wallet 3 2 Btc PERSONAL]"
  "ledger gateway_demo = [entry_of (simple_input 3 500000 DEPOSIT (Some 4) (Some ''Deposit'') None) 6 0]"
  "invoices gateway_demo = [demo_invoice]" "next_id gateway_demo = 10" "clock gateway_demo = 0" "row_locks gateway_demo = []"
  by (simp_all add: gateway_demo_def empty_db_def)

lemma paid_sel [simp]:
  "iv_id (paid_internally ts r) = iv_id r" "iv_merchant (paid_internally ts r) = iv_merchant r"
  "iv_coin (paid_internally ts r) = iv_coin r" "iv_status (paid_internally ts r) = IvConfirmed"
  "iv_amount (paid_internally ts r) = iv_amount r" "iv_fee_amount (paid_internally ts r) = iv_fee_amount r"
  "iv_net_amount (paid_internally ts r) = iv_net_amount r"
  by (simp_all add: paid_internally_def)

lemma gateway_demo_ok: "gateway_ok gateway_demo"
  by (simp add: gateway_ok_def settled_ok_def credits_of_def merchant_entries_def)

lemma pay_demo: "pay_invoice_with_balance 5 2 gateway_demo = (Inr (paid_internally 0 demo_invoice), demo_paid)"
proof -
  let ?t = "gateway_demo\<lparr>row_locks := [InvoiceLock 5, WalletLock 3]\<rparr>"
  have d: "can_post (payer_debit 3 demo_invoice) ?t"
    by (simp add: can_post_def find_wallet_def demo_wallet_def held_against_def wallet_balance_def payer_debit_def
        reference_conflict_def key_conflict_def fits_numeric_def numeric_limit_def simple_input_def entry_of_def)
  let ?t1 = "post_entry (payer_debit 3 demo_invoice) ?t"
  let ?t2 = "?t1\<lparr>next_id := 12, wallets := [demo_wallet 3 2 Btc PERSONAL, demo_wallet 11 1 Btc MERCHANT],
    row_locks := [InvoiceLock 5, WalletLock 3, WalletLock 11]\<rparr>"
  have c: "can_post (merchant_credit 11 demo_invoice) ?t2"
    by (simp add: can_post_def find_wallet_def demo_wallet_def held_against_def wallet_balance_def payer_debit_def
        reference_conflict_def key_conflict_def fits_numeric_def numeric_limit_def simple_input_def entry_of_def
        merchant_credit_def)
  have cm: "credit_merchant demo_invoice ?t1 = Inr ((), post_entry (merchant_credit 11 demo_invoice) ?t2)"
    using c
    by (simp add: credit_merchant_def tx_bind_Inr tx_map_err_Inr tx_ok_or_Inr tx_return_Inr select_wallet_Inr
        apply_ledger_entry_Inr upsert_wallet_Inr lock_wallet_Inr wallet_id_of_def demo_wallet_def demo_user_def
        find_wallet_def post_entry_def acquire_def)
  have "pay_invoice_tx 5 2 gateway_demo = Inr ((), update_invoice 5 (paid_internally 0)
      (post_entry (merchant_credit 11 demo_invoice) ?t2))"
    using d cm
    by (simp add: pay_invoice_tx_def tx_bind_Inr lock_invoice_Inr tx_assert_Inr tx_return_Inr now_Inr tx_modify_Inr
        select_wallet_Inr tx_ok_or_Inr tx_map_err_Inr get_wallet_balance_Inr apply_ledger_entry_Inr find_invoice_def
        wallet_id_of_def demo_wallet_def lock_wallet_Inr find_wallet_def acquire_def wallet_balance_def simple_input_def
        entry_of_def)
  moreover have "release_locks (update_invoice 5 (paid_internally 0) (post_entry (merchant_credit 11 demo_invoice) ?t2)) = demo_paid"
    by (simp add: demo_paid_def update_invoice_def release_locks_def post_entry_def)
  ultimately show ?thesis
    by (simp add: pay_invoice_with_balance_def commit_tx_def reread_def get_invoice_by_id_def find_invoice_def demo_paid_def)
qed

section \<open>One credit per invoice\<close>

text \<open>
  C15. Along every run of the gateway, whatever operations interleave and whatever the rest of the
  platform does, an invoice is credited to its merchant at most once: a confirmed invoice has
  exactly one ledger entry, of its net amount, on the merchant's wallet of its coin, every other
  invoice has none, and a confirmed invoice stays confirmed with the same entry.
\<close>

theorem invoice_credited_exactly_once:
  assumes "gateway_ok s" and "gateway_step\<^sup>*\<^sup>* s s'"
  shows "gateway_ok s' \<and> credits_final s s' \<and>
    (\<forall>r\<in>set (invoices s'). if iv_status r = IvConfirmed
       then \<exists>e. credits_of s' (iv_id r) = [e] \<and> le_amount e = iv_net_amount r \<and>
         wallet_id_of s' (iv_merchant r) (iv_coin r) MERCHANT = Some (le_wallet e)
       else credits_of s' (iv_id r) = [])"
proof -
  have "gateway_kept s s'" by (rule gateway_run_kept [OF assms(2,1)])
  then have ok: "gateway_ok s'" "credits_final s s'" by (simp_all add: gateway_kept_def)
  have "if iv_status r = IvConfirmed
       then \<exists>e. credits_of s' (iv_id r) = [e] \<and> le_amount e = iv_net_amount r \<and>
         wallet_id_of s' (iv_merchant r) (iv_coin r) MERCHANT = Some (le_wallet e)
       else credits_of s' (iv_id r) = []" if "r \<in> set (invoices s')" for r
  proof -
    have "settled_ok s' r" using ok(1) that by (simp add: gateway_ok_def)
    then show ?thesis by (simp add: settled_ok_def credited_as_def split: if_splits)
  qed
  with ok show ?thesis by blast
qed

theorem invoice_credited_exactly_once_witness:
  "gateway_ok demo_paid \<and> (\<exists>e. credits_of demo_paid 5 = [e] \<and> le_wallet e = 11 \<and> le_amount e = 399000)"
proof -
  have "gateway_step gateway_demo demo_paid" using pay [of gateway_demo 5 2] by (simp add: pay_demo)
  from invoice_credited_exactly_once [OF gateway_demo_ok r_into_rtranclp [of gateway_step, OF this]]
  show ?thesis by (simp add: demo_paid_def wallet_id_of_def demo_wallet_def) auto
qed

section \<open>Paying from a balance\<close>

lemma update_invoice_find:
  "(\<And>r. iv_id (f r) = iv_id r) \<Longrightarrow> find_invoice (update_invoice i f s) i = map_option f (find_invoice s i)"
  unfolding find_invoice_def release_update_invoice by (simp add: find_update_where_key)

lemma find_invoice_cong: "invoices s = invoices t \<Longrightarrow> find_invoice s i = find_invoice t i"
  by (simp add: find_invoice_def)

lemma pay_outcome:
  "pay_invoice_with_balance iid payer s = (res, s') \<Longrightarrow>
     (\<exists>e. res = Inl e \<and> s' = s) \<or>
     (\<exists>t. pay_invoice_tx iid payer s = Inr ((), t) \<and> s' = release_locks t \<and> res = get_invoice_by_id s' iid)"
  by (cases "pay_invoice_tx iid payer s") (auto simp: pay_invoice_with_balance_def commit_tx_def reread_def)

text \<open>
  C17. Paying an invoice from a balance is all or nothing. An error changes nothing. A payment needs
  an open, unexpired invoice of another user and a balance that covers it; it takes exactly the
  amount from the payer's wallet and puts exactly the net amount on the merchant's wallet of the
  same coin, touches no other wallet, takes the fee (and nothing else) out of the coin's total, and
  leaves the invoice confirmed.
\<close>

theorem pay_invoice_settles:
  assumes "books_ok s" and "gateway_ok s" and "pay_invoice_with_balance iid payer s = (res, s')"
  shows "(\<exists>e. res = Inl e \<and> s' = s) \<or>
    (\<exists>r w m. find_invoice s iid = Some r \<and> iv_status r \<in> {IvPending, IvDetected} \<and> clock s \<le> iv_expires_at r \<and>
       payer \<noteq> iv_merchant r \<and> wallet_id_of s payer (iv_coin r) PERSONAL = Some w \<and>
       wallet_id_of s' (iv_merchant r) (iv_coin r) MERCHANT = Some m \<and> w \<noteq> m \<and>
       iv_amount r \<le> wallet_balance s w \<and>
       (\<forall>x. wallet_balance s' x =
          wallet_balance s x - (if x = w then iv_amount r else 0) + (if x = m then iv_net_amount r else 0)) \<and>
       (\<forall>c. coin_total s' c = coin_total s c - (if c = iv_coin r then iv_fee_amount r else 0)) \<and>
       books_ok s' \<and> res = Inr (paid_internally (clock s) r) \<and>
       find_invoice s' iid = Some (paid_internally (clock s) r))"
  using pay_outcome [OF assms(3)]
proof
  assume "\<exists>t. pay_invoice_tx iid payer s = Inr ((), t) \<and> s' = release_locks t \<and> res = get_invoice_by_id s' iid"
  then obtain t where t: "pay_invoice_tx iid payer s = Inr ((), t)" "s' = release_locks t"
    "res = get_invoice_by_id s' iid" by blast
  from pay_invoice_run [OF t(1)] obtain r w m t1 t2 where run:
    "find_invoice s iid = Some r" "iv_status r \<in> {IvPending, IvDetected}"
    "clock s \<le> iv_expires_at r" "payer \<noteq> iv_merchant r"
    "wallet_id_of s payer (iv_coin r) PERSONAL = Some w" "iv_amount r \<le> wallet_balance s w"
    "wallets t1 = wallets s" "ledger t1 = ledger s" "invoices t1 = invoices s" "next_id t1 = next_id s" "clock t1 = clock s"
    "can_post (payer_debit w r) t1" "provisioned (post_entry (payer_debit w r) t1) t2"
    "wallet_id_of t2 (iv_merchant r) (iv_coin r) MERCHANT = Some m" "can_post (merchant_credit m r) t2"
    "t = update_invoice iid (paid_internally (clock s)) (post_entry (merchant_credit m r) t2)"
    by metis
  let ?d = "post_entry (payer_debit w r) t1" and ?c = "post_entry (merchant_credit m r) t2"
  have split: "iv_fee_amount r + iv_net_amount r = iv_amount r"
    using assms(2) find_invoice_Some [OF run(1)] by (simp add: gateway_ok_def settled_ok_def)
  have b1: "books_ok t1" using books_ok_cong [of t1 s] run assms(1) by simp
  have bd: "books_ok ?d" by (rule books_ok_post [OF run(12) b1])
  have b2: "books_ok t2" using run(13) bd by (simp add: provisioned_def)
  have bc: "books_ok ?c" by (rule books_ok_post [OF run(15) b2])
  have s': "wallets s' = wallets ?c" "ledger s' = ledger ?c" "next_id s' = next_id ?c" by (simp_all add: t(2) run(16))
  have books: "books_ok s'" using books_ok_cong [OF s'(1,2)] s'(3) bc by simp
  have bal2: "wallet_balance t2 x = wallet_balance ?d x" for x
    using run(13) wallet_balance_frame [of t2 ?d] by (simp add: provisioned_def)
  have bal: "wallet_balance s' x = wallet_balance s x - (if x = w then iv_amount r else 0) + (if x = m then iv_net_amount r else 0)" for x
    using wallet_balance_frame [OF s'(2)] wallet_balance_frame [OF run(8)] by (simp add: bal2)
  have mw: "wallet_id_of s' (iv_merchant r) (iv_coin r) MERCHANT = Some m"
    using run(14) wallet_id_of_cong [OF s'(1)] by simp
  have pw: "wallet_id_of t2 payer (iv_coin r) PERSONAL = Some w"
    using run(5,7,13) provisioned_merchant [OF run(13)] wallet_id_of_cong [of ?d s] by (simp add: wallets_stay_def)
  have wf2: "wallets_wf t2" using b2 by (simp add: books_ok_def)
  have diff: "w \<noteq> m"
  proof
    assume "w = m"
    with wallet_id_of_inj [OF wf2 pw] run(14) show False by auto
  qed
  have wf1: "wallets_wf t1" using b1 by (simp add: books_ok_def)
  have wc: "w \<in> coin_wallets t1 c \<longleftrightarrow> c = iv_coin r" for c
    using account_coin [OF wf1, of payer "iv_coin r" PERSONAL w] run(5) wallet_id_of_cong [OF run(7)] by simp
  have mc: "m \<in> coin_wallets t2 c \<longleftrightarrow> c = iv_coin r" for c
    by (rule account_coin [OF wf2 run(14)])
  have total: "coin_total s' c = coin_total s c - (if c = iv_coin r then iv_fee_amount r else 0)" for c
    using coin_total_cong [OF s'(1,2), of c] coin_total_post [OF run(15), of c] provisioned_total [OF run(13) bd, of c]
      coin_total_post [OF run(12), of c] coin_total_cong [OF run(7,8), of c] split wc mc by simp
  have "find_invoice s' iid = map_option (paid_internally (clock s)) (find_invoice ?c iid)"
    using update_invoice_find [of "paid_internally (clock s)" iid ?c] find_invoice_cong [of s' t] by (simp add: t(2) run(16))
  moreover have "find_invoice ?c iid = Some r"
    using run(1,9,13) find_invoice_cong [of ?c s] by (simp add: provisioned_def)
  ultimately have fi: "find_invoice s' iid = Some (paid_internally (clock s) r)" by simp
  then have "res = Inr (paid_internally (clock s) r)" by (simp add: t(3) get_invoice_by_id_def)
  with run(1-6) mw diff bal total books fi show ?thesis by blast
qed blast

lemma gateway_demo_books: "books_ok gateway_demo"
  by (simp add: books_ok_def wallets_wf_def entries_owned_def references_unique_def solvent_def demo_wallet_def
      wallet_balance_def simple_input_def entry_of_def reference_of_def key_of_def List.map_filter_def)

theorem pay_invoice_settles_witness:
  "wallet_balance demo_paid 3 = 100000 \<and> wallet_balance demo_paid 11 = 399000 \<and>
   coin_total demo_paid Btc = coin_total gateway_demo Btc - 1000"
proof -
  have w: "wallet_id_of demo_paid 1 Btc MERCHANT = Some 11" "wallet_id_of gateway_demo 2 Btc PERSONAL = Some 3"
    by (simp_all add: demo_paid_def wallet_id_of_def demo_wallet_def)
  have b: "wallet_balance gateway_demo 3 = 500000" "wallet_balance gateway_demo 11 = 0"
    by (simp_all add: wallet_balance_def simple_input_def entry_of_def)
  from pay_invoice_settles [OF gateway_demo_books gateway_demo_ok pay_demo] w b show ?thesis
    by (auto simp: find_invoice_def)
qed

section \<open>Prices\<close>

lemma ceil_to_integer_ceiling: "ceil_to_integer v = \<lceil>v\<rceil>"
proof (cases "0 \<le> v")
  case True
  have "\<lceil>v\<rceil> = (if of_int \<lfloor>v\<rfloor> < v then \<lfloor>v\<rfloor> + 1 else \<lfloor>v\<rfloor>)"
    using ceiling_altdef [of v] of_int_floor_le [of v] by (auto simp: order.strict_iff_order)
  with True show ?thesis by (simp add: ceil_to_integer_def truncate_rat_def)
next
  case False
  have "\<not> of_int \<lceil>v\<rceil> < v" by (simp add: not_less)
  with False show ?thesis by (simp add: ceil_to_integer_def truncate_rat_def)
qed

lemma usd_to_ledger_units_eq:
  "usd_to_ledger_units usd price = (if price \<le> 0 then None else Some (- (- (usd * 10 ^ 8) div price)))"
proof -
  have "\<lceil>(of_int (usd * 10 ^ 8) :: rat) / of_int price\<rceil> = - (- (usd * 10 ^ 8) div price)"
    by (rule ceiling_divide_eq_div)
  then show ?thesis
    by (simp add: usd_to_ledger_units_def ceil_to_integer_ceiling)
qed

lemma ceil_div_bounds:
  fixes x p :: int
  assumes "0 < p"
  shows "x \<le> - (- x div p) * p \<and> (- (- x div p) - 1) * p < x"
proof -
  define q where "q = - x div p"
  have "- x = p * q + - x mod p" and "0 \<le> - x mod p" and "- x mod p < p"
    using assms by (simp_all add: q_def)
  moreover have "- q * p = - (p * q)" and "(- q - 1) * p = - (p * q) - p" by (simp_all add: algebra_simps)
  ultimately show ?thesis unfolding q_def [symmetric] by linarith
qed

text \<open>
  Every coin offered for an invoice of \<open>usd\<close> dollars is one of the accepted coins, has a
  price no older than the budget, and costs the least whole number of ledger units that is worth the
  price: the merchant is never short, and the customer never pays one unit more than that. The
  amount is positive and does not vanish when it is expressed on chain.
\<close>

theorem offered_amount_covers_price:
  assumes "opt \<in> set (price_options s coins usd max_stale)"
  shows "co_coin opt \<in> set coins \<and> 0 < co_price_scaled opt \<and>
    (\<exists>row\<in>set (price_cache s). pc_coin row = co_coin opt \<and> pc_price_scaled row = co_price_scaled opt \<and>
       clock s - pc_fetched_at row \<le> max_stale) \<and>
    usd * 10 ^ 8 \<le> co_amount opt * co_price_scaled opt \<and>
    (co_amount opt - 1) * co_price_scaled opt < usd * 10 ^ 8 \<and>
    0 < co_amount opt \<and> 0 < to_onchain_amount (co_coin opt) (nat (co_amount opt))"
proof -
  from assms obtain coin where coin: "coin \<in> set coins" "price_option s usd max_stale coin = Some opt"
    by (auto simp: price_options_def in_map_filter)
  then obtain price d where p: "cached_price s coin max_stale = Inr (price, d)"
    and rest: "(case usd_to_ledger_units usd (price_to_u64 price) of None \<Rightarrow> None
           | Some amount \<Rightarrow> if amount \<le> 0 then None else if \<not> payable_onchain coin amount then None
               else Some \<lparr>co_coin = coin, co_amount = amount, co_price_scaled = price_to_u64 price\<rparr>) = Some opt"
    by (auto simp: price_option_def split: sum.splits prod.splits)
  let ?p = "price_to_u64 price"
  have pos: "0 < ?p" and q: "co_amount opt = - (- (usd * 10 ^ 8) div ?p)" and opt: "co_coin opt = coin" "co_price_scaled opt = ?p"
    "0 < co_amount opt" "payable_onchain coin (co_amount opt)"
    using rest by (auto simp: usd_to_ledger_units_eq split: if_splits)
  have "price \<le> u64_max" and pp: "?p = int price" using pos by (simp_all add: price_to_u64_def split: if_splits)
  from cached_price_Inr [OF p] pp
  have row: "\<exists>row\<in>set (price_cache s). pc_coin row = coin \<and> pc_price_scaled row = ?p \<and> clock s - pc_fetched_at row \<le> max_stale"
    by auto
  from ceil_div_bounds [OF pos, of "usd * 10 ^ 8"]
  have low: "usd * 10 ^ 8 \<le> co_amount opt * ?p" and high: "(co_amount opt - 1) * ?p < usd * 10 ^ 8"
    unfolding q by simp_all
  have "0 < to_onchain_amount coin (nat (co_amount opt))"
    using opt(4) by (auto simp: payable_onchain_def dec_to_u128_def split: if_splits)
  with coin(1) pos row low high opt show ?thesis by simp
qed

definition price_demo :: db where
  "price_demo = gateway_demo\<lparr>price_cache := [\<lparr>pc_coin = Ltc, pc_price_scaled = 30000000, pc_price_decimals = 8, pc_fetched_at = 0\<rparr>]\<rparr>"

lemma option_demo:
  "price_options price_demo [Btc, Ltc] 100000000 60 = [\<lparr>co_coin = Ltc, co_amount = 333333334, co_price_scaled = 30000000\<rparr>]"
proof -
  have u: "usd_to_ledger_units 100000000 30000000 = Some 333333334" by (simp add: usd_to_ledger_units_eq)
  have "cached_price price_demo Ltc 60 = Inr (30000000, 8)" and "\<exists>e. cached_price price_demo Btc 60 = Inl e"
    by (simp_all add: price_demo_def gateway_demo_def empty_db_def cached_price_def dec_to_u128_def Let_def)
  then show ?thesis
    by (auto simp: price_options_def List.map_filter_simps price_option_def u payable_onchain_def dec_to_u128_def
        to_onchain_amount_def price_to_u64_def u64_max_def u128_sat_mul_def u128_max_def)
qed

theorem offered_amount_covers_price_witness:
  "(333333334 - 1) * 30000000 < (100000000 * 10 ^ 8 :: int) \<and>
   (\<exists>opt. price_options price_demo [Btc, Ltc] 100000000 60 = [opt] \<and> 100000000 * 10 ^ 8 \<le> co_amount opt * co_price_scaled opt)"
  using offered_amount_covers_price [of "\<lparr>co_coin = Ltc, co_amount = 333333334, co_price_scaled = 30000000\<rparr>"
      price_demo "[Btc, Ltc]" 100000000 60]
  by (simp add: option_demo)

section \<open>The blocked ranges\<close>

text \<open>The ranges as networks: the first address and the length of the prefix.\<close>

definition ipv4_number :: "nat \<Rightarrow> nat \<Rightarrow> nat \<Rightarrow> nat \<Rightarrow> nat" where
  "ipv4_number a b c d = a * 2 ^ 24 + b * 2 ^ 16 + c * 2 ^ 8 + d"

definition blocked_networks :: "(nat \<times> nat) list" where
  "blocked_networks =
     [(ipv4_number 0 0 0 0, 8), (ipv4_number 10 0 0 0, 8), (ipv4_number 100 64 0 0, 10), (ipv4_number 127 0 0 0, 8),
      (ipv4_number 169 254 0 0, 16), (ipv4_number 172 16 0 0, 12), (ipv4_number 192 0 0 0, 24),
      (ipv4_number 192 0 2 0, 24), (ipv4_number 192 168 0 0, 16), (ipv4_number 198 51 100 0, 24),
      (ipv4_number 203 0 113 0, 24), (ipv4_number 224 0 0 0, 4), (ipv4_number 255 255 255 255, 32)]"

definition in_network :: "nat \<Rightarrow> nat \<Rightarrow> nat \<times> nat \<Rightarrow> bool" where
  "in_network width ip net \<longleftrightarrow> ip div 2 ^ (width - snd net) = fst net div 2 ^ (width - snd net)"

lemma ipv4_prefix:
  assumes "b < 256" "c < 256" "d < 256"
  shows "ipv4_number a b c d div 2 ^ 24 = a" "ipv4_number a b c d div 2 ^ 16 = a * 256 + b"
    "ipv4_number a b c d div 2 ^ 8 = a * 65536 + b * 256 + c" "ipv4_number a b c d div 2 ^ 28 = a div 16"
    "ipv4_number a b c d div 2 ^ 20 = a * 16 + b div 16" "ipv4_number a b c d div 2 ^ 22 = a * 4 + b div 64"
  using assms unfolding ipv4_number_def by simp_all

lemma word8_eq: "(a = (numeral n :: 8 word)) = (unat a = numeral n mod 256)"
  by (simp add: word_unat_eq_iff unsigned_numeral take_bit_eq_mod)

lemma word8_zero: "(a = (0 :: 8 word)) = (unat a = 0)"
  by (simp add: unat_eq_zero)

lemma word8_le: "(numeral n \<le> (a :: 8 word)) = (numeral n mod 256 \<le> unat a)"
  "((a :: 8 word) \<le> numeral n) = (unat a \<le> numeral n mod 256)"
  "((a :: 8 word) < numeral n) = (unat a < numeral n mod 256)"
  by (simp_all add: word_le_nat_alt word_less_nat_alt unsigned_numeral take_bit_eq_mod)

lemma digits_eq:
  fixes n :: nat
  assumes "b < n" and "y < n"
  shows "a * n + b = x * n + y \<longleftrightarrow> a = x \<and> b = y"
proof
  assume eq: "a * n + b = x * n + y"
  have "(a * n + b) div n = a" "(x * n + y) div n = x" using assms by simp_all
  with eq show "a = x \<and> b = y" by simp
qed simp

lemma blocked_v4_networks:
  fixes a b c d :: nat
  assumes "a < 256" "b < 256" "c < 256" "d < 256"
  shows "(\<exists>net\<in>set blocked_networks. in_network 32 (ipv4_number a b c d) net) \<longleftrightarrow>
    a = 0 \<or> a = 10 \<or> a = 100 \<and> b div 64 = 1 \<or> a = 127 \<or> a = 169 \<and> b = 254 \<or> a = 172 \<and> b div 16 = 1 \<or>
    a = 192 \<and> b = 0 \<and> c = 0 \<or> a = 192 \<and> b = 0 \<and> c = 2 \<or> a = 192 \<and> b = 168 \<or> a = 198 \<and> b = 51 \<and> c = 100 \<or>
    a = 203 \<and> b = 0 \<and> c = 113 \<or> a div 16 = 14 \<or> a = 255 \<and> b = 255 \<and> c = 255 \<and> d = 255"
proof -
  note p = ipv4_prefix [OF assms(2-4), of a]
  have n8: "in_network 32 (ipv4_number a b c d) (ipv4_number x 0 0 0, 8) \<longleftrightarrow> a = x" for x
    using p(1) ipv4_prefix(1) [of 0 0 0 x] by (simp add: in_network_def)
  have n16: "in_network 32 (ipv4_number a b c d) (ipv4_number x y 0 0, 16) \<longleftrightarrow> a = x \<and> b = y" if "y < 256" for x y
    using p(2) ipv4_prefix(2) [of y 0 0 x] that digits_eq [OF assms(2) that, of a x] by (simp add: in_network_def)
  have n24: "in_network 32 (ipv4_number a b c d) (ipv4_number x y z 0, 24) \<longleftrightarrow> a = x \<and> b = y \<and> c = z"
    if "y < 256" "z < 256" for x y z
  proof -
    have "ipv4_number a b c d div 2 ^ 8 = (a * 256 + b) * 256 + c" using p(3) by simp
    moreover have "ipv4_number x y z 0 div 2 ^ 8 = (x * 256 + y) * 256 + z" using ipv4_prefix(3) [of y z 0 x] that by simp
    ultimately show ?thesis
      using digits_eq [OF assms(3) that(2), of "a * 256 + b" "x * 256 + y"] digits_eq [OF assms(2) that(1), of a x]
      by (simp add: in_network_def)
  qed
  have m: "in_network 32 (ipv4_number a b c d) (ipv4_number 224 0 0 0, 4) \<longleftrightarrow> a div 16 = 14"
    using p(4) ipv4_prefix(4) [of 0 0 0 224] by (simp add: in_network_def)
  have h: "b div 16 < 16" "b div 64 < 4" using assms by simp_all
  have n12: "in_network 32 (ipv4_number a b c d) (ipv4_number 172 16 0 0, 12) \<longleftrightarrow> a = 172 \<and> b div 16 = 1"
    using p(5) ipv4_prefix(5) [of 16 0 0 172] digits_eq [OF h(1), of 1 a 172] by (simp add: in_network_def)
  have n10: "in_network 32 (ipv4_number a b c d) (ipv4_number 100 64 0 0, 10) \<longleftrightarrow> a = 100 \<and> b div 64 = 1"
    using p(6) ipv4_prefix(6) [of 64 0 0 100] digits_eq [OF h(2), of 1 a 100] by (simp add: in_network_def)
  have num: "ipv4_number x y z w = ((x * 256 + y) * 256 + z) * 256 + w" for x y z w by (simp add: ipv4_number_def)
  have n32: "in_network 32 (ipv4_number a b c d) (ipv4_number 255 255 255 255, 32) \<longleftrightarrow> a = 255 \<and> b = 255 \<and> c = 255 \<and> d = 255"
    using digits_eq [OF assms(4), of 255 "(a * 256 + b) * 256 + c" "(255 * 256 + 255) * 256 + 255"]
      digits_eq [OF assms(3), of 255 "a * 256 + b" "255 * 256 + 255"] digits_eq [OF assms(2), of 255 a 255]
    by (simp add: in_network_def num)
  show ?thesis by (simp add: blocked_networks_def n8 n16 n24 m n12 n10 n32)
qed

lemma div_range: "0 < n \<Longrightarrow> x div n = q \<longleftrightarrow> q * n \<le> x \<and> x < q * n + n" for x n q :: nat
  using div_mult_mod_eq [of x n] dividend_less_div_times [of n x] by (auto intro: div_nat_eqI simp: algebra_simps)

lemma word8_lt: "unat (a :: 8 word) < 256"
  using unsigned_less [of a] by simp

text \<open>
  The octet tests block exactly the union of thirteen networks: this network, the three private
  ranges, carrier-grade NAT, loopback, link local, the protocol assignments, the three documentation
  ranges, multicast and the broadcast address. An IPv4-mapped IPv6 address is blocked exactly when
  the address it maps is.
\<close>

theorem blocked_ip_is_network_list:
  "(is_blocked_ip (V4 a b c d) \<longleftrightarrow>
     (\<exists>net\<in>set blocked_networks. in_network 32 (ipv4_number (unat a) (unat b) (unat c) (unat d)) net)) \<and>
   is_blocked_ip (V6 0 0 0 0 0 0xFFFF (push_bit 8 (ucast a) OR ucast b) (push_bit 8 (ucast c) OR ucast d)) =
     is_blocked_ip (V4 a b c d)"
proof
  have ranges: "16 \<le> x \<and> x \<le> 31 \<longleftrightarrow> x div 16 = 1" "64 \<le> x \<and> x < 128 \<longleftrightarrow> x div 64 = 1"
    "224 \<le> x \<and> x \<le> 239 \<longleftrightarrow> x div 16 = 14" for x :: nat
    using div_range [of 16 x 1] div_range [of 64 x 1] div_range [of 16 x 14] by auto
  show "is_blocked_ip (V4 a b c d) \<longleftrightarrow>
     (\<exists>net\<in>set blocked_networks. in_network 32 (ipv4_number (unat a) (unat b) (unat c) (unat d)) net)"
    unfolding blocked_v4_networks [OF word8_lt word8_lt word8_lt word8_lt]
    apply (simp add: word8_eq word8_zero word8_le)
    apply (unfold ranges [unfolded One_nat_def, symmetric])
    apply argo
    done
  have hi: "ucast (drop_bit 8 (push_bit 8 (ucast x) OR ucast y :: 16 word)) = x"
    and lo: "ucast (push_bit 8 (ucast x) OR ucast y :: 16 word) = y" for x y :: "8 word"
    by (rule bit_word_eqI, auto simp: bit_simps dest: bit_imp_le_length)+
  show "is_blocked_ip (V6 0 0 0 0 0 0xFFFF (push_bit 8 (ucast a) OR ucast b) (push_bit 8 (ucast c) OR ucast d)) =
     is_blocked_ip (V4 a b c d)"
    unfolding is_blocked_ip.simps hi lo by (simp del: is_blocked_v4.simps)
qed

section \<open>Webhooks\<close>

text \<open>
  The addresses the server never dials, by their numbers: the networks above, for IPv6 the loopback
  and the unspecified address, unique local, link local and multicast, and every IPv4-mapped address
  whose embedded address is in one of the networks above.
\<close>

definition ipv6_number :: "16 word list \<Rightarrow> nat" where
  "ipv6_number segments = foldl (\<lambda>n s. n * 2 ^ 16 + unat s) 0 segments"

definition blocked_networks6 :: "(nat \<times> nat) list" where
  "blocked_networks6 = [(0, 128), (1, 128), (0xFC00 * 2 ^ 112, 7), (0xFE80 * 2 ^ 112, 10), (0xFF00 * 2 ^ 112, 8)]"

fun internal_ip :: "IpAddr \<Rightarrow> bool" where
  "internal_ip (V4 a b c d) \<longleftrightarrow>
     (\<exists>net\<in>set blocked_networks. in_network 32 (ipv4_number (unat a) (unat b) (unat c) (unat d)) net)"
| "internal_ip (V6 s0 s1 s2 s3 s4 s5 s6 s7) \<longleftrightarrow>
     (let n = ipv6_number [s0, s1, s2, s3, s4, s5, s6, s7] in
      (\<exists>net\<in>set blocked_networks6. in_network 128 n net) \<or>
      n div 2 ^ 32 = 0xFFFF \<and> (\<exists>net\<in>set blocked_networks. in_network 32 (n mod 2 ^ 32) net))"

lemma word16_lt: "unat (a :: 16 word) < 65536"
  using unsigned_less [of a] by simp

lemma masked_prefix:
  fixes x k :: "16 word"
  assumes "k AND NOT (mask n) = k"
  shows "x AND NOT (mask n) = k \<longleftrightarrow> unat x div 2 ^ n = unat k div 2 ^ n"
proof -
  have drop: "drop_bit n (y AND NOT (mask n)) = drop_bit n y" for y :: "16 word"
    by (rule bit_word_eqI) (auto simp: bit_simps dest: bit_imp_le_length)
  have cut: "push_bit n (drop_bit n y) = y AND NOT (mask n)" for y :: "16 word"
    by (rule bit_word_eqI) (auto simp: bit_simps)
  have "x AND NOT (mask n) = k \<longleftrightarrow> drop_bit n x = drop_bit n k"
    using drop [of x] cut [of x] cut [of k] assms by metis
  also have "\<dots> \<longleftrightarrow> unat x div 2 ^ n = unat k div 2 ^ n"
    by (simp only: word_unat_eq_iff unat_drop_bit_eq) (simp add: drop_bit_eq_div)
  finally show ?thesis .
qed

lemma v6_prefixes:
  "s AND 0xFF00 = (0xFF00 :: 16 word) \<longleftrightarrow> unat s div 256 = 255"
  "s AND 0xFE00 = (0xFC00 :: 16 word) \<longleftrightarrow> unat s div 512 = 126"
  "s AND 0xFFC0 = (0xFE80 :: 16 word) \<longleftrightarrow> unat s div 64 = 1018"
proof -
  have m: "NOT (mask 8) = (0xFF00 :: 16 word)" "NOT (mask 9) = (0xFE00 :: 16 word)" "NOT (mask 6) = (0xFFC0 :: 16 word)"
    by (simp_all add: mask_eq_exp_minus_1)
  show "s AND 0xFF00 = (0xFF00 :: 16 word) \<longleftrightarrow> unat s div 256 = 255"
    using masked_prefix [of "0xFF00" 8 s] unfolding m by simp
  show "s AND 0xFE00 = (0xFC00 :: 16 word) \<longleftrightarrow> unat s div 512 = 126"
    using masked_prefix [of "0xFC00" 9 s] unfolding m by simp
  show "s AND 0xFFC0 = (0xFE80 :: 16 word) \<longleftrightarrow> unat s div 64 = 1018"
    using masked_prefix [of "0xFE80" 6 s] unfolding m by simp
qed

lemma ipv6_split:
  fixes s0 s1 s2 s3 s4 s5 s6 s7 :: "16 word"
  defines "n \<equiv> ipv6_number [s0, s1, s2, s3, s4, s5, s6, s7]"
  shows "n div 2 ^ 112 = unat s0" "n div 2 ^ 32 = ipv6_number [s0, s1, s2, s3, s4, s5]"
    "n mod 2 ^ 32 = unat s6 * 65536 + unat s7"
proof -
  note lt = word16_lt [of s1] word16_lt [of s2] word16_lt [of s3] word16_lt [of s4] word16_lt [of s5] word16_lt [of s6] word16_lt [of s7]
  have low: "unat s6 * 65536 + unat s7 < 2 ^ 32" using lt by simp
  have n: "n = ipv6_number [s0, s1, s2, s3, s4, s5] * 2 ^ 32 + (unat s6 * 65536 + unat s7)"
    by (simp add: n_def ipv6_number_def)
  show "n div 2 ^ 32 = ipv6_number [s0, s1, s2, s3, s4, s5]" "n mod 2 ^ 32 = unat s6 * 65536 + unat s7"
    unfolding n using low by simp_all
  have rest: "ipv6_number [s1, s2, s3, s4, s5, s6, s7] < 2 ^ 112" using lt by (simp add: ipv6_number_def)
  have "n = unat s0 * 2 ^ 112 + ipv6_number [s1, s2, s3, s4, s5, s6, s7]" by (simp add: n_def ipv6_number_def)
  then show "n div 2 ^ 112 = unat s0" using rest by simp
qed

lemma ipv6_last: "x < 65536 \<Longrightarrow> ipv6_number (segments @ [s]) = x \<longleftrightarrow> ipv6_number segments = 0 \<and> unat s = x"
  using digits_eq [OF word16_lt [of s], of x "ipv6_number segments" 0] by (simp add: ipv6_number_def)

lemma octets_number: "x div 256 * 256 + x mod 256 = x" "x div 256 * 16777216 + x mod 256 * 65536 = x * 65536" for x :: nat
proof -
  have "(q * 256 + r) * 65536 = q * 16777216 + r * 65536" for q r :: nat by simp
  from this [of "x div 256" "x mod 256", symmetric]
  show "x div 256 * 16777216 + x mod 256 * 65536 = x * 65536" by (simp only: div_mult_mod_eq)
qed simp

text \<open>The octet and segment tests of the code are exactly these networks.\<close>

lemma is_blocked_ip_internal: "is_blocked_ip ip \<longleftrightarrow> internal_ip ip"
proof (cases ip)
  case (V4 a b c d)
  then show ?thesis using blocked_ip_is_network_list [of a b c d] by simp
next
  case (V6 s0 s1 s2 s3 s4 s5 s6 s7)
  let ?n = "ipv6_number [s0, s1, s2, s3, s4, s5, s6, s7]"
  note split = ipv6_split [of s0 s1 s2 s3 s4 s5 s6 s7]
  note lt = word16_lt [of s1] word16_lt [of s2] word16_lt [of s3] word16_lt [of s4] word16_lt [of s5] word16_lt [of s6] word16_lt [of s7]
  have pre: "?n div 2 ^ (112 + k) = unat s0 div 2 ^ k" for k
    using split(1) by (simp add: power_add div_mult2_eq)
  have nets: "in_network 128 ?n (0xFF00 * 2 ^ 112, 8) \<longleftrightarrow> s0 AND 0xFF00 = 0xFF00"
      "in_network 128 ?n (0xFC00 * 2 ^ 112, 7) \<longleftrightarrow> s0 AND 0xFE00 = 0xFC00"
      "in_network 128 ?n (0xFE80 * 2 ^ 112, 10) \<longleftrightarrow> s0 AND 0xFFC0 = 0xFE80"
    using pre [of 8] pre [of 9] pre [of 6] by (simp_all add: in_network_def v6_prefixes)
  have ends: "in_network 128 ?n (1, 128) \<longleftrightarrow> [s0, s1, s2, s3, s4, s5, s6, s7] = [0, 0, 0, 0, 0, 0, 0, 1]"
      "in_network 128 ?n (0, 128) \<longleftrightarrow> [s0, s1, s2, s3, s4, s5, s6, s7] = [0, 0, 0, 0, 0, 0, 0, 0]"
    using ipv6_last [where x = 1 and segments = "[s0, s1, s2, s3, s4, s5, s6]" and s = s7] ipv6_last [where x = 0 and segments = "[s0, s1, s2, s3, s4, s5, s6]" and s = s7]
    by (auto simp: in_network_def ipv6_number_def word_unat_eq_iff)
  have mapped: "?n div 2 ^ 32 = 0xFFFF \<longleftrightarrow> [s0, s1, s2, s3, s4, s5] = [0, 0, 0, 0, 0, 0xFFFF]"
    unfolding split(2) using ipv6_last [where x = 65535 and segments = "[s0, s1, s2, s3, s4]" and s = s5] by (auto simp: ipv6_number_def word_unat_eq_iff)
  have oct: "unat (drop_bit 8 s) mod 256 = unat s div 256" "unat (ucast s :: 8 word) = unat s mod 256" for s :: "16 word"
    using word16_lt [of s] by (simp_all add: unsigned_ucast_eq take_bit_eq_mod unat_div_distrib drop_bit_eq_div)
  have "ipv4_number (unat s6 div 256) (unat s6 mod 256) (unat s7 div 256) (unat s7 mod 256) = ?n mod 2 ^ 32"
    unfolding split(3) using octets_number [of "unat s6"] octets_number [of "unat s7"] by (simp add: ipv4_number_def)
  then have v4: "is_blocked_v4 (ucast (drop_bit 8 s6)) (ucast s6) (ucast (drop_bit 8 s7)) (ucast s7) \<longleftrightarrow>
      (\<exists>net\<in>set blocked_networks. in_network 32 (?n mod 2 ^ 32) net)"
    using conjunct1 [OF blocked_ip_is_network_list [of "ucast (drop_bit 8 s6)" "ucast s6" "ucast (drop_bit 8 s7)" "ucast s7"]]
    unfolding is_blocked_ip.simps(1) oct by (simp only:)
  show ?thesis
    unfolding V6 internal_ip.simps is_blocked_ip.simps Let_def v4 mapped
    by (simp only: blocked_networks6_def list.set bex_simps nets ends) blast
qed

text \<open>
  What a host stands for: \<open>localhost\<close> and the names under it, an address literal, bare or in the
  brackets a URL puts around an IPv6 address, or a name, which stands for what it resolves to.
\<close>

definition names_localhost :: "string \<Rightarrow> bool" where
  "names_localhost host \<longleftrightarrow> map lower_char host = ''localhost'' \<or> (\<exists>sub. map lower_char host = sub @ ''.localhost'')"

definition names_literal :: "web \<Rightarrow> string \<Rightarrow> IpAddr \<Rightarrow> bool" where
  "names_literal W host ip \<longleftrightarrow> parse_ip W host = Some ip \<or> (\<exists>lit. host = ''['' @ lit @ '']'' \<and> parse_ip W lit = Some ip)"

definition resolves_to :: "web \<Rightarrow> Url \<Rightarrow> string \<Rightarrow> IpAddr \<Rightarrow> bool" where
  "resolves_to W u host ip \<longleftrightarrow> parse_ip W host = None \<and>
     (\<exists>ips. lookup_host W host (case url_port u of None \<Rightarrow> 443 | Some p \<Rightarrow> p) = Some ips \<and> ip \<in> set ips)"

definition internal_host :: "web \<Rightarrow> Url \<Rightarrow> string \<Rightarrow> bool" where
  "internal_host W u host \<longleftrightarrow> names_localhost host \<or> (\<exists>ip. (names_literal W host ip \<or> resolves_to W u host ip) \<and> internal_ip ip)"

lemma ends_with_append: "ends_with suf s \<longleftrightarrow> (\<exists>pre. s = pre @ suf)"
proof
  assume "ends_with suf s"
  then have "s = take (length s - length suf) s @ suf" unfolding ends_with_def by (metis append_take_drop_id)
  then show "\<exists>pre. s = pre @ suf" by blast
qed (auto simp: ends_with_def)

lemma trim_brackets:
  assumes "CHR 0x5B \<notin> set lit" and "CHR 0x5D \<notin> set lit"
  shows "trim_end_char (CHR 0x5D) (trim_start_char (CHR 0x5B) lit) = lit"
    and "trim_end_char (CHR 0x5D) (trim_start_char (CHR 0x5B) (''['' @ lit @ '']'')) = lit"
proof -
  have start: "dropWhile (\<lambda>x. x = CHR 0x5B) (lit @ rest) = lit @ rest"
    if "rest = [] \<or> hd rest \<noteq> CHR 0x5B" for rest
    using assms(1) that by (cases lit; cases rest) auto
  have finish: "dropWhile (\<lambda>x. x = CHR 0x5D) (rev lit) = rev lit" using assms(2) by (cases lit rule: rev_cases) auto
  show "trim_end_char (CHR 0x5D) (trim_start_char (CHR 0x5B) lit) = lit"
    using start [of "[]"] finish by (simp add: trim_start_char_def trim_end_char_def)
  show "trim_end_char (CHR 0x5D) (trim_start_char (CHR 0x5B) (''['' @ lit @ '']'')) = lit"
    using start [of "'']''"] finish by (simp add: trim_start_char_def trim_end_char_def)
qed

lemma gate_literal:
  assumes "\<forall>lit ip. parse_ip W lit = Some ip \<longrightarrow> CHR 0x5B \<notin> set lit \<and> CHR 0x5D \<notin> set lit"
    and "parse_url W url = Some u" and "url_host u = Some host" and "names_literal W host ip" and "internal_ip ip"
  shows "validate_callback_url W url \<noteq> None"
proof -
  from assms(4) obtain lit where lit: "parse_ip W lit = Some ip" and host: "host = lit \<or> host = ''['' @ lit @ '']''"
    by (auto simp: names_literal_def)
  have "trim_end_char (CHR 0x5D) (trim_start_char (CHR 0x5B) host) = lit"
    using host trim_brackets [of lit] assms(1) lit by blast
  then show ?thesis using assms(2,3,5) lit by (simp add: validate_callback_url_def is_blocked_ip_internal)
qed

lemma gate_resolved:
  assumes "url_host u = Some host" and "resolves_to W u host ip" and "internal_ip ip"
  shows "resolve_is_public W u \<noteq> None"
  using assms by (auto simp: resolves_to_def resolve_is_public_def is_blocked_ip_internal)

lemma send_post_frame:
  "parse_url (W\<lparr>send_post := a\<rparr>) = parse_url W" "parse_ip (W\<lparr>send_post := a\<rparr>) = parse_ip W"
  "lookup_host (W\<lparr>send_post := a\<rparr>) = lookup_host W"
  by simp_all

text \<open>
  C26. A webhook is never sent to a host of the internal network. A host is internal when it is
  \<open>localhost\<close> or a name under it, an address literal, bare or in brackets, in one of the internal
  networks of IPv4 and IPv6, given by their numbers and prefix lengths, or a name that resolves to at
  least one such address. For a callback that is not an https URL with a host, or whose host is internal,
  the delivery fails with the same outcome, without a status code, whatever answer the network would
  give to a request (\<open>answer\<close> is any function in its place). An address literal is taken to have no
  bracket in it, as the parser of the standard library has it.
\<close>

theorem internal_host_never_dialled:
  assumes "\<forall>lit ip. parse_ip W lit = Some ip \<longrightarrow> CHR 0x5B \<notin> set lit \<and> CHR 0x5D \<notin> set lit"
    and "\<forall>u host. parse_url W url = Some u \<and> url_scheme u = ''https'' \<and> url_host u = Some host \<longrightarrow> internal_host W u host"
  shows "\<exists>msg. \<forall>answer. post_signed (W\<lparr>send_post := answer\<rparr>) url payload signature ts delivery_id = failed msg"
proof (cases "parse_url W url")
  case None
  then show ?thesis by (auto simp: post_signed_def send_post_frame)
next
  case (Some u)
  let ?W = "\<lambda>answer. W\<lparr>send_post := answer\<rparr>"
  have v: "validate_callback_url (?W answer) url = validate_callback_url W url"
    and res: "resolve_is_public (?W answer) u = resolve_is_public W u" for answer
    by (simp_all only: validate_callback_url_def resolve_is_public_def send_post_frame)
  have "validate_callback_url W url \<noteq> None \<or> resolve_is_public W u \<noteq> None"
  proof (cases "\<exists>host. url_scheme u = ''https'' \<and> url_host u = Some host")
    case True
    then obtain host where h: "url_scheme u = ''https''" "url_host u = Some host" by blast
    with assms(2) Some have "internal_host W u host" by blast
    then consider "names_localhost host" | ip where "names_literal W host ip" "internal_ip ip" | ip where "resolves_to W u host ip" "internal_ip ip"
      unfolding internal_host_def by blast
    then show ?thesis
    proof cases
      case 1
      then show ?thesis using Some h by (simp add: validate_callback_url_def names_localhost_def ends_with_append)
    next
      case 2
      then show ?thesis using gate_literal [OF assms(1) Some h(2)] by blast
    next
      case 3
      then show ?thesis using gate_resolved [OF h(2)] by blast
    qed
  next
    case False
    then show ?thesis using Some by (auto simp: validate_callback_url_def split: option.split)
  qed
  then show ?thesis
    by (cases "validate_callback_url W url"; cases "resolve_is_public W u") (auto simp: post_signed_def Some v res send_post_frame)
qed

text \<open>A web whose URLs are their hosts: the metadata service, an IPv6 unique local address and a private name.\<close>

definition internal_web :: web where
  "internal_web = \<lparr>parse_url = (\<lambda>h. Some \<lparr>url_scheme = ''https'', url_host = Some h, url_port = None\<rparr>),
     parse_ip = (\<lambda>h. if h = ''169.254.169.254'' then Some (V4 169 254 169 254)
       else if h = ''fd00::1'' then Some (V6 0xFD00 0 0 0 0 0 0 1) else None),
     lookup_host = (\<lambda>h p. if h = ''db.lan'' then Some [V4 8 8 8 8, V4 192 168 1 9] else None), send_post = (\<lambda>_ _ _. Inr 200),
     decimal_text = show_int, instant_text = show_int, json_text = (\<lambda>_. [])\<rparr>"

lemma internal_web_hosts:
  assumes "h \<in> {''169.254.169.254'', ''[fd00::1]'', ''db.lan'', ''a.LOCALHOST''}"
  shows "internal_host internal_web u h"
proof -
  have ips: "internal_ip (V4 169 254 169 254)" "internal_ip (V6 0xFD00 0 0 0 0 0 0 1)" "internal_ip (V4 192 168 1 9)"
    by (simp_all add: is_blocked_ip_internal [symmetric])
  have "names_literal internal_web ''169.254.169.254'' (V4 169 254 169 254)" "names_literal internal_web ''[fd00::1]'' (V6 0xFD00 0 0 0 0 0 0 1)"
    "resolves_to internal_web u ''db.lan'' (V4 192 168 1 9)"
    by (simp_all add: names_literal_def resolves_to_def internal_web_def)
  moreover have "names_localhost ''a.LOCALHOST''"
    unfolding names_localhost_def by (intro disjI2 exI [of _ "''a''"]) code_simp
  ultimately show ?thesis using assms ips unfolding internal_host_def by blast
qed

theorem internal_host_never_dialled_witness:
  "\<not> delivered (post_signed internal_web ''169.254.169.254'' ''{}'' ''sig'' 0 1) \<and>
   \<not> delivered (post_signed internal_web ''[fd00::1]'' ''{}'' ''sig'' 0 1) \<and>
   \<not> delivered (post_signed internal_web ''db.lan'' ''{}'' ''sig'' 0 1) \<and>
   \<not> delivered (post_signed internal_web ''a.LOCALHOST'' ''{}'' ''sig'' 0 1)"
proof -
  have lits: "\<forall>lit ip. parse_ip internal_web lit = Some ip \<longrightarrow> CHR 0x5B \<notin> set lit \<and> CHR 0x5D \<notin> set lit"
    by (auto simp: internal_web_def)
  have "\<not> delivered (post_signed internal_web h ''{}'' ''sig'' 0 1)"
    if h: "h \<in> {''169.254.169.254'', ''[fd00::1]'', ''db.lan'', ''a.LOCALHOST''}" for h
  proof -
    have "\<forall>u host. parse_url internal_web h = Some u \<and> url_scheme u = ''https'' \<and> url_host u = Some host \<longrightarrow> internal_host internal_web u host"
      using internal_web_hosts [OF h] by (auto simp: internal_web_def)
    from internal_host_never_dialled [OF lits this, of "''{}''" "''sig''" 0 1] obtain msg where
      "post_signed (internal_web\<lparr>send_post := send_post internal_web\<rparr>) h ''{}'' ''sig'' 0 1 = failed msg" by blast
    then show ?thesis by (simp add: failed_def)
  qed
  then show ?thesis by blast
qed

section \<open>Retries\<close>

lemma next_retry_delay_values:
  "next_retry_delay 1 = 60" "next_retry_delay 2 = 120" "next_retry_delay 3 = 240" "next_retry_delay 4 = 480"
  "next_retry_delay 5 = 960" "next_retry_delay 6 = 1920" "next_retry_delay 7 = 3600"
  by (simp_all add: next_retry_delay_def Let_def push_bit_eq_mult min_def)

lemma next_retry_delay_bounds:
  assumes "1 \<le> k" and "k < MAX_WEBHOOK_ATTEMPTS"
  shows "60 \<le> next_retry_delay k \<and> next_retry_delay k \<le> 3600"
proof -
  have "k = 1 \<or> k = 2 \<or> k = 3 \<or> k = 4 \<or> k = 5 \<or> k = 6 \<or> k = 7"
    using assms unfolding MAX_WEBHOOK_ATTEMPTS_def by presburger
  then show ?thesis by (elim disjE) (simp_all only: next_retry_delay_values, simp_all)
qed

lemma reveal_sel [simp]:
  "iv_id (reveal_invoice_pii P ss r) = iv_id r" "iv_webhook (reveal_invoice_pii P ss r) = iv_webhook r"
  by (simp_all add: reveal_invoice_pii_def Let_def)

lemma dispatch_find:
  assumes "dispatch_invoice_webhook W P ss r s = (out, s')" and "find_invoice s (iv_id r) = Some q"
  shows "find_invoice s' (iv_id r) = Some (q\<lparr>iv_webhook := (iv_webhook q)
      \<lparr>hk_delivered := delivered out, hk_status_code := status_code out, hk_attempts := hk_attempts (iv_webhook q) + 1,
       hk_last_error := delivery_error out, hk_last_attempt_at := Some (clock s),
       hk_next_retry_at := next_retry out (hk_attempts (iv_webhook r) + 1) (clock s)\<rparr>\<rparr>)"
  using assms
  by (auto simp: dispatch_invoice_webhook_def Let_def schedule_webhook_retry_def record_webhook_delivery_def
      update_invoice_find find_invoice_cong [of "s\<lparr>next_id := n\<rparr>" s for n])

text \<open>
  What an attempt to deliver a webhook leaves: it is counted once; a delivery that succeeded or
  the eighth attempt is the last one, for the row is never due again at any later time; any other is
  scheduled between one minute and one hour later and is not due before.
\<close>

theorem webhook_retry_policy:
  assumes "find_invoice s (iv_id r) = Some r" and "0 \<le> hk_attempts (iv_webhook r)"
    and "dispatch_invoice_webhook W P ss r s = (out, s')"
  shows "\<exists>q. find_invoice s' (iv_id r) = Some q \<and> hk_attempts (iv_webhook q) = hk_attempts (iv_webhook r) + 1 \<and>
    hk_delivered (iv_webhook q) = delivered out \<and>
    (if delivered out \<or> MAX_WEBHOOK_ATTEMPTS \<le> hk_attempts (iv_webhook q)
     then \<forall>t. \<not> retry_due MAX_WEBHOOK_ATTEMPTS t q
     else \<exists>d. 60 \<le> d \<and> d \<le> 3600 \<and> hk_next_retry_at (iv_webhook q) = Some (clock s + d * 1000000) \<and>
       (\<forall>t < clock s + d * 1000000. \<not> retry_due MAX_WEBHOOK_ATTEMPTS t q))"
proof (intro exI conjI)
  let ?k = "hk_attempts (iv_webhook r) + 1"
  show f: "find_invoice s' (iv_id r) = Some (r\<lparr>iv_webhook := (iv_webhook r)
      \<lparr>hk_delivered := delivered out, hk_status_code := status_code out, hk_attempts := ?k,
       hk_last_error := delivery_error out, hk_last_attempt_at := Some (clock s),
       hk_next_retry_at := next_retry out ?k (clock s)\<rparr>\<rparr>)" (is "_ = Some ?q")
    by (rule dispatch_find [OF assms(3,1)])
  show "hk_attempts (iv_webhook ?q) = ?k" "hk_delivered (iv_webhook ?q) = delivered out" by simp_all
  show "if delivered out \<or> MAX_WEBHOOK_ATTEMPTS \<le> hk_attempts (iv_webhook ?q)
     then \<forall>t. \<not> retry_due MAX_WEBHOOK_ATTEMPTS t ?q
     else \<exists>d. 60 \<le> d \<and> d \<le> 3600 \<and> hk_next_retry_at (iv_webhook ?q) = Some (clock s + d * 1000000) \<and>
       (\<forall>t < clock s + d * 1000000. \<not> retry_due MAX_WEBHOOK_ATTEMPTS t ?q)"
  proof (cases "delivered out \<or> MAX_WEBHOOK_ATTEMPTS \<le> ?k")
    case True
    then show ?thesis by (simp add: retry_due_def next_retry_def)
  next
    case False
    then have "60 \<le> next_retry_delay ?k \<and> next_retry_delay ?k \<le> 3600"
      using assms(2) by (intro next_retry_delay_bounds) simp_all
    with False show ?thesis by (auto simp: retry_due_def next_retry_def)
  qed
qed

theorem webhook_retry_policy_witness:
  "\<exists>q. find_invoice (snd (dispatch_invoice_webhook metadata_web demo_primitives demo_secrets demo_invoice gateway_demo)) 5 = Some q \<and>
     hk_attempts (iv_webhook q) = 1"
proof -
  have "find_invoice gateway_demo (iv_id demo_invoice) = Some demo_invoice" by (simp add: find_invoice_def)
  moreover have n: "hk_attempts (iv_webhook demo_invoice) = 0"
    by (simp add: demo_invoice_def new_invoice_def fresh_webhook_def)
  ultimately show ?thesis
    using webhook_retry_policy [of gateway_demo demo_invoice metadata_web demo_primitives demo_secrets
        "fst (dispatch_invoice_webhook metadata_web demo_primitives demo_secrets demo_invoice gateway_demo)"
        "snd (dispatch_invoice_webhook metadata_web demo_primitives demo_secrets demo_invoice gateway_demo)"]
    by auto
qed

section \<open>A settlement in the wrong coin\<close>

definition btc_address :: invoice_address_row where
  "btc_address = \<lparr>ia_id = 20, ia_invoice = 5, ia_coin = Btc, ia_address = ''bc1'', ia_hd_index = None,
     ia_amount = 400000, ia_quote_price_scaled = None, ia_created_at = 0\<rparr>"

definition ltc_address :: invoice_address_row where
  "ltc_address = \<lparr>ia_id = 21, ia_invoice = 5, ia_coin = Ltc, ia_address = ''ltc1'', ia_hd_index = None,
     ia_amount = 500000000, ia_quote_price_scaled = None, ia_created_at = 1\<rparr>"

definition switched_invoice :: invoice_row where
  "switched_invoice = pointed_at Ltc ltc_address demo_invoice"

definition switched_db :: db where
  "switched_db = gateway_demo\<lparr>invoices := [switched_invoice], invoice_addresses := [btc_address, ltc_address],
     wallets := [demo_wallet 8 1 Btc MERCHANT, demo_wallet 9 1 Ltc MERCHANT], ledger := []\<rparr>"

text \<open>One unit on the abandoned Bitcoin address, the whole price in Litecoin.\<close>

definition switched_chain :: chain where
  "switched_chain = \<lparr>fetch_deposits = (\<lambda>coin address.
       if coin = Btc then Inr [\<lparr>tx_hash_of = ''dust'', tx_vout = 0, tx_amount = 1, tx_confirmations = 100, tx_address = address\<rparr>]
       else Inr [\<lparr>tx_hash_of = ''paid'', tx_vout = 0, tx_amount = 500000000, tx_confirmations = 100, tx_address = address\<rparr>]),
     sweep_deposit_to_hot = (\<lambda>_ _. Inr None)\<rparr>"

definition detected_row :: "int \<Rightarrow> string \<Rightarrow> invoice_row" where
  "detected_row received h = (pointed_at Btc btc_address (switched_invoice\<lparr>iv_coin_locked_at := Some 0\<rparr>))
     \<lparr>iv_status := IvDetected, iv_received_amount := received, iv_confirmations := 100, iv_tx_hash := Some h\<rparr>"

lemma btc_address_sel [simp]:
  "ia_invoice btc_address = 5" "ia_coin btc_address = Btc" "ia_address btc_address = ''bc1''"
  "ia_amount btc_address = 400000" "ia_created_at btc_address = 0" "ia_hd_index btc_address = None"
  by (simp_all add: btc_address_def)

lemma ltc_address_sel [simp]:
  "ia_invoice ltc_address = 5" "ia_coin ltc_address = Ltc" "ia_address ltc_address = ''ltc1''"
  "ia_amount ltc_address = 500000000" "ia_created_at ltc_address = 1" "ia_hd_index ltc_address = None"
  by (simp_all add: ltc_address_def)

lemma switched_sel [simp]:
  "iv_id switched_invoice = 5" "iv_merchant switched_invoice = 1" "iv_coin switched_invoice = Ltc"
  "iv_status switched_invoice = IvPending" "iv_deposit_address switched_invoice = ''ltc1''"
  "iv_coin_locked_at switched_invoice = None"
  by (simp_all add: switched_invoice_def pointed_at_def split_beta demo_invoice_def new_invoice_def demo_input_def accepted_coins_def)

lemma detected_sel [simp]:
  "iv_id (detected_row n h) = 5" "iv_merchant (detected_row n h) = 1" "iv_coin (detected_row n h) = Btc"
  "iv_status (detected_row n h) = IvDetected" "iv_deposit_address (detected_row n h) = ''bc1''"
  "iv_coin_locked_at (detected_row n h) = Some 0" "iv_net_amount (detected_row n h) = 399000"
  by (simp_all add: detected_row_def pointed_at_def split_beta split_fee_def trunc_div_def GATEWAY_FEE_BPS_def)

lemma switched_db_sel [simp]:
  "invoices switched_db = [switched_invoice]" "invoice_addresses switched_db = [btc_address, ltc_address]"
  "wallets switched_db = [demo_wallet 8 1 Btc MERCHANT, demo_wallet 9 1 Ltc MERCHANT]" "ledger switched_db = []"
  "clock switched_db = 0" "row_locks switched_db = []"
  by (simp_all add: switched_db_def)

lemma scan_btc_address:
  "scan_address switched_chain W P ss switched_invoice btc_address switched_db =
     (False, switched_db\<lparr>invoices := [detected_row 1 ''dust'']\<rparr>)"
  by (simp add: scan_address_def switched_chain_def count_invoices_at_address_def InvoiceWatcher.repoint_def
      point_selection_at_def lock_coin_def mark_invoice_detected_def Let_def seen_amount_def best_confirmations_def
      confirmed_amount_def fits_money_def coalesce_def)
    (simp add: pointed_at_def split_beta detected_row_def)

definition wrong_coin_db :: db where
  "wrong_coin_db = switched_db\<lparr>next_id := Suc (next_id switched_db),
     ledger := [entry_of (merchant_credit 8 (detected_row 500000000 ''paid'')) (next_id switched_db) 0],
     invoices := [confirmed (Some ''paid'') 0 (detected_row 500000000 ''paid'')]\<rparr>"

lemma confirmed_sel [simp]:
  "iv_id (confirmed h ts r) = iv_id r" "iv_merchant (confirmed h ts r) = iv_merchant r"
  "iv_coin (confirmed h ts r) = iv_coin r" "iv_status (confirmed h ts r) = IvConfirmed"
  by (simp_all add: confirmed_def)

lemma confirm_wrong_coin:
  "confirm_invoice 5 (Some ''paid'') (switched_db\<lparr>invoices := [detected_row 500000000 ''paid'']\<rparr>) =
     (Inr (confirmed (Some ''paid'') 0 (detected_row 500000000 ''paid'')), wrong_coin_db)"
proof -
  let ?r = "detected_row 500000000 ''paid''"
  let ?s = "switched_db\<lparr>invoices := [?r]\<rparr>"
  let ?t = "?s\<lparr>row_locks := [InvoiceLock 5, WalletLock 8]\<rparr>"
  have p: "can_post (merchant_credit 8 ?r) ?t"
    by (simp add: can_post_def find_wallet_def demo_wallet_def held_against_def fits_numeric_def numeric_limit_def)
  have c: "credit_merchant ?r (?s\<lparr>row_locks := [InvoiceLock 5]\<rparr>) = Inr ((), post_entry (merchant_credit 8 ?r) ?t)"
    using p
    by (simp add: credit_merchant_def tx_bind_Inr tx_map_err_Inr tx_ok_or_Inr tx_return_Inr select_wallet_Inr
        apply_ledger_entry_Inr upsert_wallet_Inr lock_wallet_Inr wallet_id_of_def demo_wallet_def find_wallet_def acquire_def)
  have "confirm_invoice_tx 5 (Some ''paid'') ?s =
      Inr ((), update_invoice 5 (confirmed (Some ''paid'') 0) (post_entry (merchant_credit 8 ?r) ?t))"
    using c
    by (simp add: confirm_invoice_tx_def tx_bind_Inr lock_invoice_Inr tx_assert_Inr tx_return_Inr now_Inr tx_modify_Inr
        find_invoice_def acquire_def)
  moreover have "release_locks (update_invoice 5 (confirmed (Some ''paid'') 0) (post_entry (merchant_credit 8 ?r) ?t)) = wrong_coin_db"
    by (simp add: wrong_coin_db_def update_invoice_def release_locks_def post_entry_def)
  ultimately show ?thesis
    by (simp add: confirm_invoice_def commit_tx_def reread_def get_invoice_by_id_def find_invoice_def wrong_coin_db_def)
qed

lemma scan_ltc_address:
  "scan_address switched_chain W P ss switched_invoice ltc_address (switched_db\<lparr>invoices := [detected_row 1 ''dust'']\<rparr>) =
     (True, snd (dispatch_invoice_webhook W P ss (confirmed (Some ''paid'') 0 (detected_row 500000000 ''paid'')) wrong_coin_db))"
proof -
  have "update_where (\<lambda>r. iv_id r = 5 \<and> iv_status r \<in> {IvPending, IvDetected})
        (\<lambda>r. r\<lparr>iv_status := IvDetected, iv_received_amount := 500000000, iv_confirmations := 100,
          iv_tx_hash := Some ''paid''\<rparr>) [detected_row 1 ''dust''] = [detected_row 500000000 ''paid'']"
    by simp (simp add: detected_row_def)
  then have "scan_address switched_chain W P ss switched_invoice ltc_address (switched_db\<lparr>invoices := [detected_row 1 ''dust'']\<rparr>) =
      settle_paid switched_chain W P ss switched_invoice ltc_address ''paid'' (switched_db\<lparr>invoices := [detected_row 500000000 ''paid'']\<rparr>)"
    by (simp add: scan_address_def switched_chain_def count_invoices_at_address_def InvoiceWatcher.repoint_def
      lock_coin_def mark_invoice_detected_def Let_def seen_amount_def best_confirmations_def
      confirmed_amount_def fits_money_def coalesce_def)
  then show ?thesis by (simp add: settle_paid_def confirm_wrong_coin sweep_invoice_address_def)
qed

lemma dispatch_frame:
  "ledger (snd (dispatch_invoice_webhook W P ss r s)) = ledger s"
  "wallets (snd (dispatch_invoice_webhook W P ss r s)) = wallets s"
  "map (\<lambda>q. (iv_id q, iv_status q, iv_coin q)) (invoices (snd (dispatch_invoice_webhook W P ss r s))) =
     map (\<lambda>q. (iv_id q, iv_status q, iv_coin q)) (invoices s)"
  by (simp_all add: dispatch_invoice_webhook_def Let_def schedule_webhook_retry_def record_webhook_delivery_def
      map_update_where)

text \<open>
  A customer is shown a Bitcoin address, switches to Litecoin and pays the whole price there; one
  unit of dust lies on the abandoned Bitcoin address. One tick confirms the invoice, as it should,
  but in Bitcoin: the dust repoints the row to Bitcoin, the later payment compares its coin with the
  copy of the row read at the start of the tick and does not point it back, so the merchant's
  Bitcoin wallet is credited the Bitcoin price and the Litecoin wallet gets nothing, whatever the
  webhook answers.
\<close>

theorem dust_on_old_address_settles_wrong_coin:
  "map (\<lambda>q. (iv_id q, iv_status q, iv_coin q)) (invoices (scan_invoice switched_chain W P ss switched_invoice switched_db)) =
     [(5, IvConfirmed, Btc)] \<and>
   wallet_balance (scan_invoice switched_chain W P ss switched_invoice switched_db) 8 = 399000 \<and>
   wallet_balance (scan_invoice switched_chain W P ss switched_invoice switched_db) 9 = 0 \<and>
   wallet_id_of switched_db 1 Btc MERCHANT = Some 8 \<and> wallet_id_of switched_db 1 Ltc MERCHANT = Some 9 \<and>
   (\<exists>d. fetch_deposits switched_chain Btc ''bc1'' = Inr [d] \<and> tx_amount d = 1)"
proof -
  have l: "list_invoice_addresses switched_db (iv_id switched_invoice) = [btc_address, ltc_address]"
    by (simp add: list_invoice_addresses_def)
  have s: "scan_invoice switched_chain W P ss switched_invoice switched_db =
      snd (dispatch_invoice_webhook W P ss (confirmed (Some ''paid'') 0 (detected_row 500000000 ''paid'')) wrong_coin_db)"
    by (simp add: scan_invoice_def l scan_btc_address scan_ltc_address del: switched_sel)
  have w: "wallet_balance (scan_invoice switched_chain W P ss switched_invoice switched_db) x = wallet_balance wrong_coin_db x" for x
    unfolding s by (rule wallet_balance_frame) (rule dispatch_frame)
  have rows: "map (\<lambda>q. (iv_id q, iv_status q, iv_coin q))
      (invoices (scan_invoice switched_chain W P ss switched_invoice switched_db)) = [(5, IvConfirmed, Btc)]"
    unfolding s by (simp add: dispatch_frame wrong_coin_db_def)
  have "fetch_deposits switched_chain Btc ''bc1'' = Inr [\<lparr>tx_hash_of = ''dust'', tx_vout = 0, tx_amount = 1,
      tx_confirmations = 100, tx_address = ''bc1''\<rparr>]"
    by (simp add: switched_chain_def)
  then show ?thesis
    unfolding w rows by (simp add: wrong_coin_db_def wallet_balance_def entry_of_def wallet_id_of_def demo_wallet_def)
qed

end
