(* ===== verification/DexSwap.thy ===== *)
theory DexSwap
  imports Ledger
begin

text \<open>
  \<open>crates/db/src/dex_swap.rs\<close>: swaps filled by an outside provider. The source amount is locked when
  the swap is created, and the swap ends in a credit of the target coin or in a refund. The lemmas
  are about single operations; theory \<open>DexRunner\<close> has the worker that drives them and the claims.

  A row is returned as it is stored: its amounts are text in the code and are parsed back where they
  are used. The points of a lock where another session may commit are \<open>before_begin\<close>, \<open>before_insert\<close> and
  \<open>after_commit\<close>.
\<close>

section \<open>Errors and status\<close>

datatype DexSwapError =
  DexDb db_error
| DexLedger LedgerError
| DexSameCoin
| DexWalletNotFound
| DexIdempotencyConflict
| DexBadStatus string
| DexSwapNotFound
| DexSlippageExceeded

fun dex_error_str :: "DexSwapError \<Rightarrow> string" where
  "dex_error_str (DexDb e) = db_error_str e"
| "dex_error_str (DexLedger e) = ledger_error_str e"
| "dex_error_str DexSameCoin = ''fromCoin and toCoin must differ''"
| "dex_error_str DexWalletNotFound = ''wallet not found''"
| "dex_error_str DexIdempotencyConflict = ''idempotency conflict''"
| "dex_error_str (DexBadStatus s) = ''invalid status transition from '' @ s"
| "dex_error_str DexSwapNotFound = ''swap not found''"
| "dex_error_str DexSlippageExceeded = ''slippage exceeded''"

fun dex_status_str :: "dex_status \<Rightarrow> string" where
  "dex_status_str DxQuoted = ''QUOTED''"
| "dex_status_str DxLocked = ''LOCKED''"
| "dex_status_str DxBroadcasting = ''BROADCASTING''"
| "dex_status_str DxInFlight = ''IN_FLIGHT''"
| "dex_status_str DxCrediting = ''CREDITING''"
| "dex_status_str DxCompleted = ''COMPLETED''"
| "dex_status_str DxFailed = ''FAILED''"
| "dex_status_str DxRefunding = ''REFUNDING''"
| "dex_status_str DxRefunded = ''REFUNDED''"

definition dex_status_from_db :: "string \<Rightarrow> dex_status option" where
  "dex_status_from_db s =
     (if s = ''QUOTED'' then Some DxQuoted else if s = ''LOCKED'' then Some DxLocked
      else if s = ''BROADCASTING'' then Some DxBroadcasting else if s = ''IN_FLIGHT'' then Some DxInFlight
      else if s = ''CREDITING'' then Some DxCrediting else if s = ''COMPLETED'' then Some DxCompleted
      else if s = ''FAILED'' then Some DxFailed else if s = ''REFUNDING'' then Some DxRefunding
      else if s = ''REFUNDED'' then Some DxRefunded else None)"

lemma dex_status_roundtrip: "dex_status_from_db s = Some st \<longleftrightarrow> s = dex_status_str st"
  by (cases st) (auto simp: dex_status_from_db_def)

section \<open>Locking the funds\<close>

record LockDexSwapInput =
  lx_user :: uuid
  lx_from_coin :: Coin
  lx_to_coin :: Coin
  lx_from_amount :: nat
  lx_expected_to_amount :: nat
  lx_min_to_amount :: "nat option"
  lx_provider :: string
  lx_providers :: "string list"
  lx_route_id :: "string option"
  lx_quote_id :: "string option"
  lx_platform_fee_bps :: "32 word"
  lx_platform_fee_amount :: nat
  lx_fees :: json
  lx_eta_seconds :: "int option"
  lx_tx_hint :: "string option"
  lx_destination_address :: "string option"
  lx_source_address :: "string option"
  lx_payload :: "json option"
  lx_idempotency_key :: string

definition new_dex_swap :: "LockDexSwapInput \<Rightarrow> uuid \<Rightarrow> int \<Rightarrow> dex_swap_row" where
  "new_dex_swap i sid ts =
     \<lparr>dx_id = sid, dx_user = lx_user i, dx_from_coin = lx_from_coin i, dx_to_coin = lx_to_coin i,
      dx_from_amount = int (lx_from_amount i), dx_expected_to_amount = int (lx_expected_to_amount i),
      dx_min_to_amount = map_option int (lx_min_to_amount i), dx_actual_to_amount = None,
      dx_status = DxLocked, dx_provider = lx_provider i, dx_providers = lx_providers i,
      dx_route_id = lx_route_id i, dx_quote_id = lx_quote_id i,
      dx_platform_fee_bps = sint (lx_platform_fee_bps i),
      dx_platform_fee_amount = int (lx_platform_fee_amount i), dx_fees = lx_fees i,
      dx_eta_seconds = lx_eta_seconds i, dx_tx_hint = lx_tx_hint i, dx_inbound_memo = None,
      dx_deposit_address = None, dx_destination_address = lx_destination_address i,
      dx_source_address = lx_source_address i, dx_inbound_tx = None, dx_outbound_tx = None,
      dx_payload = lx_payload i, dx_error = None,
      dx_idempotency_key = scoped_key (lx_user i) (lx_idempotency_key i),
      dx_broadcast_at = None, dx_completed_at = None, dx_created_at = ts, dx_updated_at = ts\<rparr>"

definition find_dex_by_key :: "db \<Rightarrow> string \<Rightarrow> dex_swap_row option" where
  "find_dex_by_key s key = List.find (\<lambda>r. dx_idempotency_key r = key) (dex_swaps s)"

definition find_dex :: "db \<Rightarrow> uuid \<Rightarrow> dex_swap_row option" where
  "find_dex s sid = List.find (\<lambda>r. dx_id r = sid) (dex_swaps s)"

definition insert_dex_swap :: "dex_swap_row \<Rightarrow> (db_error, unit) op" where
  "insert_dex_swap r =
     tx_bind (check_numeric (dx_from_amount r)) (\<lambda>_.
     tx_bind (check_numeric (dx_expected_to_amount r)) (\<lambda>_.
     tx_bind (case dx_min_to_amount r of None \<Rightarrow> tx_return () | Some m \<Rightarrow> check_numeric m) (\<lambda>_.
     tx_bind (check_numeric (dx_platform_fee_amount r)) (\<lambda>_.
     tx_bind (tx_gets (\<lambda>s. find_dex_by_key s (dx_idempotency_key r))) (\<lambda>found.
     tx_bind (tx_assert (found = None) (UniqueViolation ''dex_swaps_idempotency_key_key'')) (\<lambda>_.
     tx_bind (check_user_fk ''dex_swaps'' (dx_user r)) (\<lambda>_.
     tx_modify (\<lambda>s. s\<lparr>dex_swaps := dex_swaps s @ [r]\<rparr>))))))))"

definition dex_out :: "uuid \<Rightarrow> int \<Rightarrow> uuid \<Rightarrow> Coin \<Rightarrow> LedgerCreditInput" where
  "dex_out wid amount sid coin =
     simple_input wid (- amount) DEX_SWAP_OUT (Some sid) (Some ''DexSwap'')
       (Some (''DEX swap '' @ utf8_arrow @ '' '' @ coin_str coin))"

text \<open>From the wallet's lock to the commit; \<open>Inl None\<close> is the branch of a unique violation.\<close>

definition lock_tx :: "LockDexSwapInput \<Rightarrow> uuid \<Rightarrow> (DexSwapError option, uuid) op" where
  "lock_tx i wid =
     tx_bind (tx_map_err (\<lambda>e. Some (DexLedger e)) (lock_wallets [wid])) (\<lambda>_.
     tx_bind fresh_uuid (\<lambda>sid.
     tx_bind now (\<lambda>ts.
     tx_bind (tx_map_err (\<lambda>e. if is_unique_violation e then None else Some (DexDb e))
       (insert_dex_swap (new_dex_swap i sid ts))) (\<lambda>_.
     tx_bind (tx_map_err (\<lambda>e. Some (DexLedger e))
       (apply_ledger_entry (dex_out wid (int (lx_from_amount i)) sid (lx_to_coin i)))) (\<lambda>_.
     tx_return sid)))))"

definition lock_and_create ::
    "LockDexSwapInput \<Rightarrow> (db \<Rightarrow> db) \<Rightarrow> (db \<Rightarrow> db) \<Rightarrow> (db \<Rightarrow> db) \<Rightarrow> db \<Rightarrow>
     (DexSwapError + dex_swap_row \<times> bool) \<times> db" where
  "lock_and_create i before_begin before_insert after_commit s =
     (if lx_from_coin i = lx_to_coin i then (Inl DexSameCoin, s)
      else if (case lx_min_to_amount i of None \<Rightarrow> False | Some m \<Rightarrow> lx_expected_to_amount i < m)
      then (Inl DexSlippageExceeded, s)
      else
        let key = scoped_key (lx_user i) (lx_idempotency_key i) in
        case find_dex_by_key s key of
          Some existing \<Rightarrow> (Inr (existing, False), s)
        | None \<Rightarrow>
            let s1 = before_begin s in
            case find_dex_by_key s1 key of
              Some existing \<Rightarrow> (Inr (existing, False), s1)
            | None \<Rightarrow>
                (case (wallet_id_of s1 (lx_user i) (lx_from_coin i) PERSONAL,
                       wallet_id_of s1 (lx_user i) (lx_to_coin i) PERSONAL) of
                   (Some wid, Some _) \<Rightarrow>
                     let s2 = before_insert s1 in
                     (case lock_tx i wid s2 of
                        Inr (sid, s3) \<Rightarrow>
                          let s4 = after_commit (release_locks s3) in
                          (case find_dex s4 sid of
                             None \<Rightarrow> (Inl DexSwapNotFound, s4)
                           | Some r \<Rightarrow> (Inr (r, True), s4))
                      | Inl (Some e) \<Rightarrow> (Inl e, s2)
                      | Inl None \<Rightarrow>
                          (case find_dex_by_key s2 key of
                             Some existing \<Rightarrow> (Inr (existing, False), s2)
                           | None \<Rightarrow> (Inl DexIdempotencyConflict, s2)))
                 | _ \<Rightarrow> (Inl DexWalletNotFound, s1)))"

section \<open>Listings\<close>

definition list_user_dex :: "db \<Rightarrow> uuid \<Rightarrow> nat \<Rightarrow> dex_swap_row list" where
  "list_user_dex s user limit =
     take limit (sort_key (\<lambda>r. - dx_created_at r) (filter (\<lambda>r. dx_user r = user) (dex_swaps s)))"

definition list_active_dex :: "db \<Rightarrow> nat \<Rightarrow> dex_swap_row list" where
  "list_active_dex s limit =
     take limit (sort_key dx_updated_at (filter (\<lambda>r. dx_status r \<in>
       {DxLocked, DxBroadcasting, DxInFlight, DxCrediting, DxFailed, DxRefunding}) (dex_swaps s)))"

section \<open>The transitions\<close>

definition set_dex :: "uuid \<Rightarrow> dex_status set \<Rightarrow> (dex_swap_row \<Rightarrow> dex_swap_row) \<Rightarrow> db \<Rightarrow> db" where
  "set_dex sid from_states f s =
     s\<lparr>dex_swaps := update_where (\<lambda>r. dx_id r = sid \<and> dx_status r \<in> from_states) f (dex_swaps s)\<rparr>"

definition dex_in :: "db \<Rightarrow> uuid \<Rightarrow> dex_status set \<Rightarrow> bool" where
  "dex_in s sid sts \<longleftrightarrow> (\<exists>r\<in>set (dex_swaps s). dx_id r = sid \<and> dx_status r \<in> sts)"

definition mark_broadcasting ::
    "uuid \<Rightarrow> string \<Rightarrow> string option \<Rightarrow> json \<Rightarrow> db \<Rightarrow> (DexSwapError + unit) \<times> db" where
  "mark_broadcasting sid address memo payload s =
     (if dex_in s sid {DxLocked, DxBroadcasting}
      then (Inr (), set_dex sid {DxLocked, DxBroadcasting} (\<lambda>r. r\<lparr>dx_status := DxBroadcasting,
          dx_deposit_address := Some address, dx_inbound_memo := memo, dx_payload := Some payload,
          dx_updated_at := clock s\<rparr>) s)
      else (Inl (DexBadStatus ''not LOCKED''), s))"

definition mark_in_flight :: "uuid \<Rightarrow> string \<Rightarrow> db \<Rightarrow> (DexSwapError + unit) \<times> db" where
  "mark_in_flight sid inbound s =
     (if dex_in s sid {DxBroadcasting, DxInFlight}
      then (Inr (), set_dex sid {DxBroadcasting, DxInFlight} (\<lambda>r. r\<lparr>dx_status := DxInFlight,
          dx_inbound_tx := Some inbound,
          dx_broadcast_at := (case dx_broadcast_at r of None \<Rightarrow> Some (clock s) | Some t \<Rightarrow> Some t),
          dx_updated_at := clock s\<rparr>) s)
      else (Inl (DexBadStatus ''not BROADCASTING''), s))"

definition mark_failed :: "uuid \<Rightarrow> string \<Rightarrow> db \<Rightarrow> db" where
  "mark_failed sid err s =
     set_dex sid (- {DxCompleted, DxRefunded})
       (\<lambda>r. r\<lparr>dx_status := DxFailed, dx_error := Some err, dx_updated_at := clock s\<rparr>) s"

definition dex_credit :: "uuid \<Rightarrow> nat \<Rightarrow> uuid \<Rightarrow> LedgerCreditInput" where
  "dex_credit wid amount sid =
     simple_input wid (int amount) DEX_SWAP_IN (Some sid) (Some ''DexSwap'') (Some ''DEX swap credit'')"

text \<open>The transaction, from the change to \<open>CREDITING\<close> on and as a whole.\<close>

definition pay_out :: "dex_swap_row \<Rightarrow> nat \<Rightarrow> string option \<Rightarrow> (DexSwapError, unit) op" where
  "pay_out row amount outbound =
     tx_bind (tx_modify (\<lambda>s. set_dex (dx_id row) UNIV (\<lambda>r. r\<lparr>dx_status := DxCrediting, dx_updated_at := clock s\<rparr>) s)) (\<lambda>_.
     tx_bind (select_wallet (dx_user row) (dx_to_coin row) PERSONAL) (\<lambda>w.
     tx_bind (tx_ok_or DexWalletNotFound w) (\<lambda>wid.
     tx_bind (tx_map_err DexLedger (lock_wallets [wid])) (\<lambda>_.
     tx_bind (tx_map_err DexLedger (apply_ledger_entry (dex_credit wid amount (dx_id row)))) (\<lambda>_.
     tx_bind (tx_map_err DexDb (check_numeric (int amount))) (\<lambda>_.
     tx_modify (\<lambda>s. set_dex (dx_id row) UNIV (\<lambda>r. r\<lparr>dx_status := DxCompleted,
       dx_actual_to_amount := Some (int amount),
       dx_outbound_tx := (case outbound of None \<Rightarrow> dx_outbound_tx r | Some h \<Rightarrow> Some h),
       dx_completed_at := Some (clock s), dx_updated_at := clock s, dx_error := None\<rparr>) s)))))))"

definition credit_tx :: "uuid \<Rightarrow> nat \<Rightarrow> string option \<Rightarrow> (DexSwapError, unit) op" where
  "credit_tx sid amount outbound =
     tx_bind (tx_gets (\<lambda>s. find_dex s sid)) (\<lambda>found.
     case found of
       None \<Rightarrow> tx_throw DexSwapNotFound
     | Some row \<Rightarrow>
         tx_bind (take_lock (DexSwapLock sid)) (\<lambda>_.
         if dx_status row = DxCompleted then tx_return ()
         else if dx_status row \<notin> {DxInFlight, DxCrediting, DxBroadcasting}
         then tx_throw (DexBadStatus (dex_status_str (dx_status row)))
         else pay_out row amount outbound))"

definition credit_and_complete ::
    "uuid \<Rightarrow> nat \<Rightarrow> string option \<Rightarrow> db \<Rightarrow> (DexSwapError + unit) \<times> db" where
  "credit_and_complete sid amount outbound = commit_tx release_locks (credit_tx sid amount outbound)"

definition dex_refund :: "uuid \<Rightarrow> int \<Rightarrow> uuid \<Rightarrow> string \<Rightarrow> LedgerCreditInput" where
  "dex_refund wid amount sid reason =
     \<lparr>in_wallet_id = wid, in_amount = amount, in_type = DEX_SWAP_REFUND, in_reference_id = Some sid,
      in_reference_type = Some ''DexSwap'',
      in_reference_key = Some (''dex-swap-refund:'' @ show_uuid sid), in_memo = Some reason\<rparr>"

definition pay_back :: "dex_swap_row \<Rightarrow> string \<Rightarrow> (DexSwapError, unit) op" where
  "pay_back row reason =
     tx_bind (tx_modify (\<lambda>s. set_dex (dx_id row) UNIV (\<lambda>r. r\<lparr>dx_status := DxRefunding,
       dx_error := Some reason, dx_updated_at := clock s\<rparr>) s)) (\<lambda>_.
     tx_bind (select_wallet (dx_user row) (dx_from_coin row) PERSONAL) (\<lambda>w.
     tx_bind (tx_ok_or DexWalletNotFound w) (\<lambda>wid.
     tx_bind (tx_map_err DexLedger (lock_wallets [wid])) (\<lambda>_.
     tx_bind (tx_map_err DexLedger (apply_ledger_entry (dex_refund wid (dx_from_amount row) (dx_id row) reason))) (\<lambda>_.
     tx_modify (\<lambda>s. set_dex (dx_id row) UNIV (\<lambda>r. r\<lparr>dx_status := DxRefunded,
       dx_completed_at := Some (clock s), dx_updated_at := clock s\<rparr>) s))))))"

definition refund_tx :: "uuid \<Rightarrow> string \<Rightarrow> (DexSwapError, unit) op" where
  "refund_tx sid reason =
     tx_bind (tx_gets (\<lambda>s. find_dex s sid)) (\<lambda>found.
     case found of
       None \<Rightarrow> tx_throw DexSwapNotFound
     | Some row \<Rightarrow>
         tx_bind (take_lock (DexSwapLock sid)) (\<lambda>_.
         if dx_status row = DxRefunded then tx_return ()
         else if dx_status row \<in> {DxCompleted, DxCrediting}
         then tx_throw (DexBadStatus (dex_status_str (dx_status row)))
         else pay_back row reason))"

definition refund :: "uuid \<Rightarrow> string \<Rightarrow> db \<Rightarrow> (DexSwapError + unit) \<times> db" where
  "refund sid reason = commit_tx release_locks (refund_tx sid reason)"

section \<open>Telemetry\<close>

text \<open>The average is the pair of the sum and the count that \<open>avg\<close> divides.\<close>

record DexSwapTelemetry =
  dt_open_count :: nat
  dt_completed_24h :: nat
  dt_failed_24h :: nat
  dt_refunded_24h :: nat
  dt_avg_platform_fee_bps_24h :: "(int \<times> nat) option"

definition day_ago :: "db \<Rightarrow> int" where
  "day_ago s = clock s - 24 * 3600 * 1000000"

definition dex_telemetry :: "db \<Rightarrow> DexSwapTelemetry" where
  "dex_telemetry s =
     (let count = (\<lambda>p. length (filter p (dex_swaps s)));
          recent = filter (\<lambda>r. day_ago s < dx_created_at r) (dex_swaps s);
          completed_since = (\<lambda>r. case dx_completed_at r of None \<Rightarrow> False | Some t \<Rightarrow> day_ago s < t) in
      \<lparr>dt_open_count = count (\<lambda>r. dx_status r \<notin> {DxCompleted, DxRefunded}),
       dt_completed_24h = count (\<lambda>r. dx_status r = DxCompleted \<and> completed_since r),
       dt_failed_24h = count (\<lambda>r. dx_status r = DxFailed \<and> day_ago s < dx_updated_at r),
       dt_refunded_24h = count (\<lambda>r. dx_status r = DxRefunded \<and> completed_since r),
       dt_avg_platform_fee_bps_24h = (if recent = [] then None
         else Some (\<Sum>r\<leftarrow>recent. dx_platform_fee_bps r, length recent))\<rparr>)"

end
