(* ===== verification/Json.thy ===== *)
theory Json
  imports Database Crypto
begin

text \<open>
  \<open>serde_json::Value\<close> as the code reads it, what a derived \<open>Deserialize\<close> accepts for a field, the
  string functions the provider clients share, and an HTTP client as a parameter. A number keeps its
  text; an object is the list of its members, and a lookup takes the first of a name.
\<close>

section \<open>Reading a value\<close>

fun json_get :: "string \<Rightarrow> json \<Rightarrow> json option" where
  "json_get k (JObj m) = map_of m k"
| "json_get k _ = None"

fun json_as_str :: "json \<Rightarrow> string option" where
  "json_as_str (JStr t) = Some t"
| "json_as_str _ = None"

fun json_as_bool :: "json \<Rightarrow> bool option" where
  "json_as_bool (JBool b) = Some b"
| "json_as_bool _ = None"

fun json_as_array :: "json \<Rightarrow> json list option" where
  "json_as_array (JArr vs) = Some vs"
| "json_as_array _ = None"

fun json_as_object :: "json \<Rightarrow> (string \<times> json) list option" where
  "json_as_object (JObj m) = Some m"
| "json_as_object _ = None"

text \<open>\<open>as_u64\<close>: a number written as digits only that fits 64 bits.\<close>

fun json_as_u64 :: "json \<Rightarrow> nat option" where
  "json_as_u64 (JNum t) =
     (if t = [] then None
      else case parse_digits 0 t of None \<Rightarrow> None | Some n \<Rightarrow> if n < 2 ^ 64 then Some n else None)"
| "json_as_u64 _ = None"

text \<open>The text of a number: \<open>as_f64\<close> is \<open>Some\<close> exactly for numbers.\<close>

fun json_as_number :: "json \<Rightarrow> string option" where
  "json_as_number (JNum t) = Some t"
| "json_as_number _ = None"

definition get_str :: "string \<Rightarrow> json \<Rightarrow> string option" where
  "get_str k v = Option.bind (json_get k v) json_as_str"

text \<open>\<open>Option::or_else\<close>, on values.\<close>

fun or_else :: "'a option \<Rightarrow> 'a option \<Rightarrow> 'a option" where
  "or_else None b = b"
| "or_else (Some x) b = Some x"

lemma or_else_None [simp]: "or_else a None = a"
  by (cases a) simp_all

text \<open>\<open>Value::pointer\<close>, by its tokens; a token indexes an array when it is a plain number.\<close>

definition json_index :: "string \<Rightarrow> nat option" where
  "json_index k = (if k = [] \<or> (hd k = CHR ''0'' \<and> 1 < length k) then None else parse_digits 0 k)"

fun json_step :: "string \<Rightarrow> json \<Rightarrow> json option" where
  "json_step k (JObj m) = map_of m k"
| "json_step k (JArr vs) =
     (case json_index k of None \<Rightarrow> None | Some i \<Rightarrow> if i < length vs then Some (vs ! i) else None)"
| "json_step k _ = None"

fun json_pointer :: "string list \<Rightarrow> json \<Rightarrow> json option" where
  "json_pointer [] v = Some v"
| "json_pointer (k # ks) v = (case json_step k v of None \<Rightarrow> None | Some w \<Rightarrow> json_pointer ks w)"

text \<open>\<open>v[k] = x\<close> on an object.\<close>

fun json_set :: "string \<Rightarrow> json \<Rightarrow> json \<Rightarrow> json" where
  "json_set k x (JObj m) =
     JObj (if map_of m k = None then m @ [(k, x)] else map (\<lambda>(j, y). if j = k then (j, x) else (j, y)) m)"
| "json_set k x v = v"

lemma json_get_set [simp]: "json_get k (json_set k x (JObj m)) = Some x"
proof (cases "map_of m k")
  case None
  then show ?thesis by (simp add: map_add_def)
next
  case (Some y)
  have "map_of (map (\<lambda>(j, y). if j = k then (j, x) else (j, y)) m) k = Some x" if "map_of m k = Some y" for y
    using that by (induction m) (auto split: if_splits)
  with Some show ?thesis by simp
qed

section \<open>Derived deserialisation\<close>

text \<open>
  A field of a struct: \<open>None\<close> is a refusal of the whole value. A field of type \<open>Option\<close> may be absent
  or null; a \<open>default\<close> field may be absent; any other must be there.
\<close>

definition de_opt_str :: "string \<Rightarrow> json \<Rightarrow> string option option" where
  "de_opt_str k v =
     (case json_get k v of None \<Rightarrow> Some None | Some JNull \<Rightarrow> Some None
      | Some (JStr t) \<Rightarrow> Some (Some t) | Some _ \<Rightarrow> None)"

definition de_str :: "string \<Rightarrow> json \<Rightarrow> string option" where
  "de_str k v = (case json_get k v of Some (JStr t) \<Rightarrow> Some t | _ \<Rightarrow> None)"

definition de_str_default :: "string \<Rightarrow> json \<Rightarrow> string option" where
  "de_str_default k v = (case json_get k v of None \<Rightarrow> Some [] | Some (JStr t) \<Rightarrow> Some t | Some _ \<Rightarrow> None)"

definition de_opt_value :: "string \<Rightarrow> json \<Rightarrow> json option" where
  "de_opt_value k v = (case json_get k v of Some JNull \<Rightarrow> None | x \<Rightarrow> x)"

fun traverse :: "('a \<Rightarrow> 'b option) \<Rightarrow> 'a list \<Rightarrow> 'b list option" where
  "traverse f [] = Some []"
| "traverse f (x # xs) =
     (case f x of None \<Rightarrow> None | Some y \<Rightarrow> (case traverse f xs of None \<Rightarrow> None | Some ys \<Rightarrow> Some (y # ys)))"

definition de_vec :: "(json \<Rightarrow> 'a option) \<Rightarrow> string \<Rightarrow> json \<Rightarrow> 'a list option" where
  "de_vec f k v =
     (case json_get k v of None \<Rightarrow> Some [] | Some (JArr vs) \<Rightarrow> traverse f vs | Some _ \<Rightarrow> None)"

text \<open>The members \<open>#[serde(flatten)]\<close> collects: those no field of the struct is named after.\<close>

fun de_flatten :: "string list \<Rightarrow> json \<Rightarrow> json" where
  "de_flatten ks (JObj m) = JObj (filter (\<lambda>(k, _). k \<notin> set ks) m)"
| "de_flatten ks v = v"

section \<open>Strings\<close>

text \<open>\<open>str::contains\<close> and \<open>str::split_once\<close>; letters outside ASCII have no case here.\<close>

fun contains :: "string \<Rightarrow> string \<Rightarrow> bool" where
  "contains [] p = (p = [])"
| "contains (c # cs) p = (starts_with p (c # cs) \<or> contains cs p)"

definition split_at_char :: "char \<Rightarrow> string \<Rightarrow> string \<times> string" where
  "split_at_char c s = (takeWhile (\<lambda>x. x \<noteq> c) s, tl (dropWhile (\<lambda>x. x \<noteq> c) s))"

definition upper :: "string \<Rightarrow> string" where
  "upper = map upper_char"

definition lower :: "string \<Rightarrow> string" where
  "lower = map lower_char"

text \<open>\<open>format!("{s:0<width$}")\<close>.\<close>

definition pad_right :: "nat \<Rightarrow> string \<Rightarrow> string" where
  "pad_right width s = s @ replicate (width - length s) (CHR ''0'')"

text \<open>\<open>uN::from_str_radix(s, 16)\<close>: an optional \<open>+\<close>, at least one digit, and the value fits.\<close>

definition hex_value :: "char \<Rightarrow> nat option" where
  "hex_value c =
     (let k = of_char c :: nat in
      if 48 \<le> k \<and> k \<le> 57 then Some (k - 48) else if 65 \<le> k \<and> k \<le> 70 then Some (k - 55)
      else if 97 \<le> k \<and> k \<le> 102 then Some (k - 87) else None)"

fun parse_hex_digits :: "nat \<Rightarrow> string \<Rightarrow> nat option" where
  "parse_hex_digits acc [] = Some acc"
| "parse_hex_digits acc (c # cs) =
     (case hex_value c of None \<Rightarrow> None | Some d \<Rightarrow> parse_hex_digits (acc * 16 + d) cs)"

definition parse_radix ::
    "(nat \<Rightarrow> string \<Rightarrow> nat option) \<Rightarrow> nat \<Rightarrow> string \<Rightarrow> nat option" where
  "parse_radix digits bound s =
     (let body = (case s of [] \<Rightarrow> [] | c # cs \<Rightarrow> if c = CHR ''+'' then cs else s)
      in if body = [] then None
         else case digits 0 body of None \<Rightarrow> None | Some n \<Rightarrow> if n < bound then Some n else None)"

lemma parse_u128_radix: "parse_u128 s = parse_radix parse_digits (2 ^ 128) s"
  by (simp add: parse_u128_def parse_radix_def Let_def u128_max_def less_eq_Suc_le split: option.splits)

section \<open>The HTTP client\<close>

text \<open>
  \<open>reqwest\<close> as a parameter: the answer to a request is the text of a transport error, or a status with
  a body (an unreadable body is empty). \<open>parse_json\<close> is \<open>serde_json::from_str\<close> into a \<open>Value\<close>, with the
  text of its error; \<open>status_text\<close> is how a status prints, and the last two fields print an \<open>f64\<close> read from the text of a
  number: in its shortest form, and with ten decimals.
\<close>

datatype http_method = HttpGet | HttpPost

record http_request =
  rq_method :: http_method
  rq_url :: string
  rq_headers :: "(string \<times> string) list"
  rq_body :: "json option"

record http =
  http_send :: "http_request \<Rightarrow> string + nat \<times> string"
  parse_json :: "string \<Rightarrow> string + json"
  serde_error :: "json \<Rightarrow> string"
  status_text :: "nat \<Rightarrow> string"
  float_display :: "string \<Rightarrow> string"
  float_fixed10 :: "string \<Rightarrow> string"

definition is_success_status :: "nat \<Rightarrow> bool" where
  "is_success_status st \<longleftrightarrow> 200 \<le> st \<and> st < 300"

definition api_key_header :: "string \<Rightarrow> string option \<Rightarrow> (string \<times> string) list" where
  "api_key_header name key = (case key of None \<Rightarrow> [] | Some k \<Rightarrow> [(name, k)])"

end
