(* ===== verification/RelayApi.thy ===== *)
theory RelayApi
  imports Json
begin

text \<open>
  \<open>crates/relay/src/lib.rs\<close>: the client of the Relay protocol: which pairs it serves, the reading of a
  quote and of an intent's status, and the payload a swap stores of a quote.
\<close>

section \<open>Assets\<close>

definition POLYGON_CHAIN_ID :: nat where "POLYGON_CHAIN_ID = 137"

definition SOLANA_CHAIN_ID :: nat where "SOLANA_CHAIN_ID = 792703809"

definition BSC_CHAIN_ID :: nat where "BSC_CHAIN_ID = 56"

definition EVM_NATIVE :: string where "EVM_NATIVE = ''0x0000000000000000000000000000000000000000''"

definition SOL_NATIVE :: string where "SOL_NATIVE = ''11111111111111111111111111111111''"

definition BSC_PEPE :: string where "BSC_PEPE = ''0x25d887ce7a35172c62febfd67a1856f20faebb00''"

definition RELAY_BASE_URL :: string where "RELAY_BASE_URL = ''https://api.relay.link''"

record RelayAsset =
  ra_chain_id :: nat
  ra_currency :: string

fun relay_asset :: "Coin \<Rightarrow> RelayAsset option" where
  "relay_asset Pol = Some \<lparr>ra_chain_id = POLYGON_CHAIN_ID, ra_currency = EVM_NATIVE\<rparr>"
| "relay_asset Usdt = Some \<lparr>ra_chain_id = POLYGON_CHAIN_ID, ra_currency = ''0xc2132d05d31c914a87c6611c10748aeb04b58e8f''\<rparr>"
| "relay_asset Usdc = Some \<lparr>ra_chain_id = POLYGON_CHAIN_ID, ra_currency = ''0x3c499c542cef5e3811e1192ce70d8cc03d5c3359''\<rparr>"
| "relay_asset Sol = Some \<lparr>ra_chain_id = SOLANA_CHAIN_ID, ra_currency = SOL_NATIVE\<rparr>"
| "relay_asset Pepe = Some \<lparr>ra_chain_id = BSC_CHAIN_ID, ra_currency = BSC_PEPE\<rparr>"
| "relay_asset _ = None"

fun is_polygon_l2 :: "Coin \<Rightarrow> bool" where
  "is_polygon_l2 c = (c = Pol \<or> c = Usdt \<or> c = Usdc)"

definition is_bsc_pepe :: "Coin \<Rightarrow> bool" where
  "is_bsc_pepe c \<longleftrightarrow> c = Pepe"

definition relay_bridge_pair :: "Coin \<Rightarrow> Coin \<Rightarrow> bool" where
  "relay_bridge_pair a b =
     (if a = b then False
      else if (a = Sol \<and> is_polygon_l2 b) \<or> (b = Sol \<and> is_polygon_l2 a) then True
      else if is_bsc_pepe a \<and> (is_polygon_l2 b \<or> b = Sol) then True
      else if is_bsc_pepe b \<and> (is_polygon_l2 a \<or> a = Sol) then True
      else False)"

definition relay_supports_pair :: "Coin \<Rightarrow> Coin \<Rightarrow> bool" where
  "relay_supports_pair a b =
     (if a = b then False
      else if is_polygon_l2 a \<and> is_polygon_l2 b then True
      else relay_bridge_pair a b)"

section \<open>Errors and configuration\<close>

datatype RelayApiError =
  RlNotConfigured
| RlUnsupportedCoin Coin
| RlHttp nat string
| RlMsg string
| RlReqwest string
| RlSerde string

text \<open>\<open>{0:?}\<close> of a coin prints the name of its constructor.\<close>

fun coin_debug :: "Coin \<Rightarrow> string" where
  "coin_debug c = (case coin_str c of [] \<Rightarrow> [] | x # xs \<Rightarrow> x # map lower_char xs)"

fun relay_api_error_str :: "RelayApiError \<Rightarrow> string" where
  "relay_api_error_str RlNotConfigured = ''relay not configured (set RELAY_ENABLED=true)''"
| "relay_api_error_str (RlUnsupportedCoin c) = ''unsupported coin for relay: '' @ coin_debug c"
| "relay_api_error_str (RlHttp st body) = ''relay http '' @ show_nat st @ '': '' @ body"
| "relay_api_error_str (RlMsg m) = ''relay: '' @ m"
| "relay_api_error_str (RlReqwest e) = e"
| "relay_api_error_str (RlSerde e) = e"

fun upstream_code :: "http \<Rightarrow> RelayApiError \<Rightarrow> string option" where
  "upstream_code H (RlHttp _ body) =
     (case parse_json H body of Inl _ \<Rightarrow> None | Inr v \<Rightarrow> get_str ''errorCode'' v)"
| "upstream_code H _ = None"

record RelayClient =
  rl_base_url :: string
  rl_api_key :: "string option"
  rl_enabled :: bool

section \<open>Intent status\<close>

record RelayIntentStatus =
  is_status :: string
  is_outbound_tx :: "string option"
  is_raw :: json

definition intent_from_value :: "json \<Rightarrow> RelayIntentStatus" where
  "intent_from_value v =
     \<lparr>is_status = (case get_str ''status'' v of None \<Rightarrow> [] | Some s \<Rightarrow> s),
      is_outbound_tx =
        or_else (Option.bind (json_pointer [''txHashes'', ''1''] v) json_as_str)
          (or_else (Option.bind (json_pointer [''destinationTxHash''] v) json_as_str)
            (or_else (get_str ''txHash'' v)
              (Option.bind (Option.bind (json_get ''txHashes'' v) json_as_array)
                (\<lambda>vs. if vs = [] then None else json_as_str (last vs))))),
      is_raw = v\<rparr>"

definition intent_is_success :: "RelayIntentStatus \<Rightarrow> bool" where
  "intent_is_success r \<longleftrightarrow> lower (is_status r) \<in> {''success'', ''completed'', ''complete'', ''fulfilled'', ''settled''}"

definition intent_is_failed :: "RelayIntentStatus \<Rightarrow> bool" where
  "intent_is_failed r \<longleftrightarrow> lower (is_status r) \<in>
     {''failure'', ''refund'', ''failed'', ''refunded'', ''cancelled'', ''canceled'', ''error''}"

definition fail_reason :: "RelayIntentStatus \<Rightarrow> string option" where
  "fail_reason r =
     Option.bind (or_else (json_get ''failReason'' (is_raw r)) (json_get ''refundFailReason'' (is_raw r))) json_as_str"

section \<open>Steps of a quote\<close>

record RelayStepItem =
  si_status :: string
  si_data :: json
  si_check :: "json option"

record RelayStep =
  st_id :: string
  st_action :: string
  st_description :: string
  st_kind :: string
  st_items :: "RelayStepItem list"
  st_request_id :: "string option"

definition de_step_item :: "json \<Rightarrow> RelayStepItem option" where
  "de_step_item v =
     (case (json_as_object v, de_str ''status'' v, json_get ''data'' v) of
        (Some _, Some status, Some d) \<Rightarrow> Some \<lparr>si_status = status, si_data = d, si_check = de_opt_value ''check'' v\<rparr>
      | _ \<Rightarrow> None)"

definition de_step :: "json \<Rightarrow> RelayStep option" where
  "de_step v =
     (case (json_as_object v, de_str ''id'' v, de_str ''action'' v, de_str ''description'' v) of
        (Some _, Some i, Some a, Some d) \<Rightarrow>
          (case (de_str ''kind'' v, de_vec de_step_item ''items'' v, de_opt_str ''requestId'' v) of
             (Some k, Some items, Some rid) \<Rightarrow>
               Some \<lparr>st_id = i, st_action = a, st_description = d, st_kind = k, st_items = items, st_request_id = rid\<rparr>
           | _ \<Rightarrow> None)
      | _ \<Rightarrow> None)"

definition first_item :: "RelayStep \<Rightarrow> RelayStepItem option" where
  "first_item s =
     or_else (List.find (\<lambda>i. eq_ignore_case (si_status i) ''incomplete'' \<or> eq_ignore_case (si_status i) ''ready'') (st_items s))
       (case st_items s of [] \<Rightarrow> None | i # _ \<Rightarrow> Some i)"

definition non_empty_str :: "string \<Rightarrow> json \<Rightarrow> bool" where
  "non_empty_str k v \<longleftrightarrow> (case get_str k v of None \<Rightarrow> False | Some s \<Rightarrow> s \<noteq> [])"

definition step_has_executable :: "RelayStep \<Rightarrow> bool" where
  "step_has_executable s =
     (if \<not> eq_ignore_case (st_kind s) ''transaction'' then False
      else \<exists>i\<in>set (st_items s).
        (non_empty_str ''to'' (si_data i) \<and> non_empty_str ''data'' (si_data i)) \<or>
        (case Option.bind (json_get ''instructions'' (si_data i)) json_as_array of
           None \<Rightarrow> False | Some a \<Rightarrow> a \<noteq> []))"

definition extract_check_url :: "string \<Rightarrow> RelayStepItem \<Rightarrow> string option" where
  "extract_check_url base i =
     (case si_check i of
        None \<Rightarrow> None
      | Some check \<Rightarrow>
          (case json_as_str check of
             Some s \<Rightarrow> Some (if starts_with ''http'' s then s else base @ s)
           | None \<Rightarrow>
               (case get_str ''endpoint'' check of
                  None \<Rightarrow> None
                | Some e \<Rightarrow> Some (if starts_with ''http'' e then e else base @ e))))"

text \<open>A prefix that \<open>trim\<close> uncovers is \<open>0x\<close> only; the data of a transaction is ASCII.\<close>

definition erc20_approve_spender :: "string \<Rightarrow> string option" where
  "erc20_approve_spender data_hex =
     (case (if starts_with ''0x'' (trim data_hex) then Some (drop 2 (trim data_hex))
            else if starts_with ''0X'' data_hex then Some (drop 2 data_hex) else None) of
        None \<Rightarrow> None
      | Some hex \<Rightarrow>
          if length hex < 8 + 64 then None
          else if \<not> eq_ignore_case (take 8 hex) ''095ea7b3'' then None
          else Some (''0x'' @ take 40 (drop 24 (take 64 (drop 8 hex)))))"

section \<open>Fees\<close>

record RelayNetworkFee =
  rf_fee_type :: string
  rf_amount :: string
  rf_asset :: string
  rf_amount_usd :: "string option"

definition fee_entry :: "string \<Rightarrow> json \<Rightarrow> RelayNetworkFee" where
  "fee_entry key e =
     \<lparr>rf_fee_type = key, rf_amount = (case get_str ''amountFormatted'' e of None \<Rightarrow> ''0'' | Some s \<Rightarrow> s),
      rf_asset = (case Option.bind (json_pointer [''currency'', ''symbol''] e) json_as_str of None \<Rightarrow> ''?'' | Some s \<Rightarrow> s),
      rf_amount_usd = (case get_str ''amountUsd'' e of
         Some s \<Rightarrow> if s \<noteq> [] \<and> s \<noteq> ''0'' then Some s else None | None \<Rightarrow> None)\<rparr>"

fun collect_fees :: "(string \<times> json) list \<Rightarrow> bool \<Rightarrow> string list \<Rightarrow> RelayNetworkFee list" where
  "collect_fees fees seen [] = []"
| "collect_fees fees seen (key # ks) =
     (case map_of fees key of
        None \<Rightarrow> collect_fees fees seen ks
      | Some e \<Rightarrow>
          let fmt = (case get_str ''amountFormatted'' e of None \<Rightarrow> ''0'' | Some s \<Rightarrow> s);
              raw = (case get_str ''amount'' e of None \<Rightarrow> ''0'' | Some s \<Rightarrow> s) in
          if raw = ''0'' \<or> fmt = ''0'' \<or> fmt = ''0.0'' then collect_fees fees seen ks
          else if key = ''relayer'' \<and> seen then collect_fees fees seen ks
          else fee_entry key e #
            collect_fees fees (seen \<or> key = ''relayerService'' \<or> key = ''relayerGas'') ks)"

definition parse_network_fees :: "json \<Rightarrow> RelayNetworkFee list" where
  "parse_network_fees v =
     (case Option.bind (json_get ''fees'' v) json_as_object of
        None \<Rightarrow> []
      | Some fees \<Rightarrow> collect_fees fees False
          [''relayerService'', ''relayerGas'', ''relayer'', ''gas'', ''app'', ''subsidized''])"

section \<open>Quotes\<close>

record RelayQuote =
  rq_route_id :: string
  rq_expected_out_ledger :: nat
  rq_expected_out_onchain :: string
  rq_steps :: "RelayStep list"
  rq_approval_address :: "string option"
  rq_request_id :: "string option"
  rq_check_url :: "string option"
  rq_origin_chain_id :: nat
  rq_destination_chain_id :: nat
  rq_is_bridge :: bool
  rq_tx_hint :: string
  rq_network_fees :: "RelayNetworkFee list"
  rq_raw :: json

definition find_map :: "('a \<Rightarrow> 'b option) \<Rightarrow> 'a list \<Rightarrow> 'b option" where
  "find_map f xs = (case List.map_filter f xs of [] \<Rightarrow> None | y # _ \<Rightarrow> Some y)"

definition is_approve_step :: "RelayStep \<Rightarrow> bool" where
  "is_approve_step s \<longleftrightarrow> eq_ignore_case (st_id s) ''approve'' \<or>
     contains (lower (st_action s)) ''approv'' \<or> contains (lower (st_description s)) ''approv''"

definition quote_approval :: "RelayStep list \<Rightarrow> Coin \<Rightarrow> string option" where
  "quote_approval steps src =
     (case Option.bind (Option.bind (List.find is_approve_step steps) first_item)
         (\<lambda>i. Option.bind (get_str ''data'' (si_data i)) erc20_approve_spender) of
        Some a \<Rightarrow> Some a
      | None \<Rightarrow>
          if src = Usdt \<or> src = Usdc \<or> src = Pepe then
            (case Option.bind (Option.bind
                (List.find (\<lambda>s. step_has_executable s \<and> \<not> eq_ignore_case (st_id s) ''approve'') (rev steps)) first_item)
                (\<lambda>i. get_str ''to'' (si_data i)) of
               Some a \<Rightarrow> if starts_with ''0x'' a \<and> length a = 42 then Some a else None
             | None \<Rightarrow> None)
          else None)"

definition quote_request_id :: "json \<Rightarrow> RelayStep list \<Rightarrow> string option" where
  "quote_request_id v steps =
     or_else (get_str ''requestId'' v)
       (or_else (find_map st_request_id steps)
         (Option.bind (json_pointer [''steps'', ''0'', ''requestId''] v) json_as_str))"

text \<open>\<open>fresh\<close> is the random identifier a quote without a request id is given.\<close>

definition parse_quote_response ::
    "http \<Rightarrow> uuid \<Rightarrow> json \<Rightarrow> Coin \<Rightarrow> Coin \<Rightarrow> RelayApiError + RelayQuote" where
  "parse_quote_response H fresh v src dst =
     (case relay_asset src of
        None \<Rightarrow> Inl (RlUnsupportedCoin src)
      | Some origin \<Rightarrow>
     (case relay_asset dst of
        None \<Rightarrow> Inl (RlUnsupportedCoin dst)
      | Some dest \<Rightarrow>
     (let raw = (case json_get ''steps'' v of None \<Rightarrow> JArr [] | Some x \<Rightarrow> x) in
      case Option.bind (json_as_array raw) (traverse de_step) of
        None \<Rightarrow> Inl (RlMsg (''steps parse: '' @ serde_error H raw))
      | Some steps \<Rightarrow>
          if \<not> (\<exists>s\<in>set steps. step_has_executable s)
          then Inl (RlMsg ''no executable transaction steps in relay quote'')
          else
            (case Option.bind (json_pointer [''details'', ''currencyOut'', ''amount''] v) json_as_str of
               None \<Rightarrow> Inl (RlMsg ''relay quote missing details.currencyOut.amount'')
             | Some out \<Rightarrow>
                 (case parse_u128 out of
                    None \<Rightarrow> Inl (RlMsg (''bad currencyOut.amount: '' @ out))
                  | Some n \<Rightarrow>
                      let rid = quote_request_id v steps in
                      Inr \<lparr>rq_route_id = ''relay:'' @ (case rid of None \<Rightarrow> show_uuid fresh | Some r \<Rightarrow> r),
                        rq_expected_out_ledger = from_onchain_amount dst n,
                        rq_expected_out_onchain = out, rq_steps = steps,
                        rq_approval_address = quote_approval steps src, rq_request_id = rid,
                        rq_check_url = find_map (\<lambda>s. Option.bind (first_item s) (extract_check_url RELAY_BASE_URL)) (rev steps),
                        rq_origin_chain_id = ra_chain_id origin, rq_destination_chain_id = ra_chain_id dest,
                        rq_is_bridge = (ra_chain_id origin \<noteq> ra_chain_id dest),
                        rq_tx_hint = (if ra_chain_id origin = SOLANA_CHAIN_ID then ''solanaRelay'' else ''contractCall''),
                        rq_network_fees = parse_network_fees v, rq_raw = v\<rparr>)))))"

definition executable_step :: "RelayQuote \<Rightarrow> RelayStep option" where
  "executable_step q =
     List.find (\<lambda>s. eq_ignore_case (st_kind s) ''transaction'' \<and> \<not> eq_ignore_case (st_id s) ''approve'' \<and>
       first_item s \<noteq> None) (rev (rq_steps q))"

record RelayEvmTx =
  et_to :: string
  et_data :: string
  et_value :: string
  et_chain_id :: "nat option"

definition evm_tx :: "RelayQuote \<Rightarrow> RelayEvmTx option" where
  "evm_tx q =
     (case Option.bind (executable_step q) first_item of
        None \<Rightarrow> None
      | Some i \<Rightarrow>
          (case (get_str ''to'' (si_data i), get_str ''data'' (si_data i)) of
             (Some dest, Some body) \<Rightarrow>
               if dest = [] \<or> body = [] then None
               else Some \<lparr>et_to = dest, et_data = body,
                 et_value = (case get_str ''value'' (si_data i) of None \<Rightarrow> ''0'' | Some s \<Rightarrow> s),
                 et_chain_id = Option.bind (json_get ''chainId'' (si_data i)) json_as_u64\<rparr>
           | _ \<Rightarrow> None))"

definition solana_tx_data :: "RelayQuote \<Rightarrow> json option" where
  "solana_tx_data q =
     (case Option.bind (executable_step q) first_item of
        None \<Rightarrow> None
      | Some i \<Rightarrow> if json_get ''instructions'' (si_data i) \<noteq> None then Some (si_data i) else None)"

section \<open>The stored payload\<close>

definition str_or_null :: "string option \<Rightarrow> json" where
  "str_or_null v = (case v of None \<Rightarrow> JNull | Some s \<Rightarrow> JStr s)"

definition ser_step_item :: "RelayStepItem \<Rightarrow> json" where
  "ser_step_item i = JObj [(''status'', JStr (si_status i)), (''data'', si_data i),
     (''check'', case si_check i of None \<Rightarrow> JNull | Some v \<Rightarrow> v)]"

definition ser_step :: "RelayStep \<Rightarrow> json" where
  "ser_step s = JObj [(''id'', JStr (st_id s)), (''action'', JStr (st_action s)),
     (''description'', JStr (st_description s)), (''kind'', JStr (st_kind s)),
     (''items'', JArr (map ser_step_item (st_items s))), (''requestId'', str_or_null (st_request_id s))]"

definition ser_fee :: "RelayNetworkFee \<Rightarrow> json" where
  "ser_fee f = JObj [(''feeType'', JStr (rf_fee_type f)), (''amount'', JStr (rf_amount f)),
     (''asset'', JStr (rf_asset f)), (''amountUsd'', str_or_null (rf_amount_usd f))]"

definition relay_payload :: "RelayQuote \<Rightarrow> json" where
  "relay_payload q =
     (let base = JObj
        [(''provider'', JStr ''relay''), (''source'', JStr ''relay''), (''routeId'', JStr (rq_route_id q)),
         (''requestId'', str_or_null (rq_request_id q)), (''checkUrl'', str_or_null (rq_check_url q)),
         (''approvalAddress'', str_or_null (rq_approval_address q)),
         (''expectedBuyAmountOnchain'', JStr (rq_expected_out_onchain q)),
         (''expectedBuyAmountLedger'', JStr (show_nat (rq_expected_out_ledger q))),
         (''originChainId'', JNum (show_nat (rq_origin_chain_id q))),
         (''destinationChainId'', JNum (show_nat (rq_destination_chain_id q))),
         (''isBridge'', JBool (rq_is_bridge q)), (''txHint'', JStr (rq_tx_hint q)),
         (''networkFees'', JArr (map ser_fee (rq_network_fees q))), (''steps'', JArr (map ser_step (rq_steps q)))];
       with_tx = (case evm_tx q of
           None \<Rightarrow> base
         | Some tx \<Rightarrow> json_set ''tx'' (JObj [(''to'', JStr (et_to tx)), (''data'', JStr (et_data tx)),
             (''value'', JStr (if et_value tx = [] then ''0'' else et_value tx))]) base)
     in case solana_tx_data q of None \<Rightarrow> with_tx | Some sol \<Rightarrow> json_set ''solanaTx'' sol with_tx)"

section \<open>Requests\<close>

definition relay_read :: "http \<Rightarrow> string + nat \<times> string \<Rightarrow> RelayApiError + json" where
  "relay_read H answer =
     (case answer of
        Inl e \<Rightarrow> Inl (RlReqwest e)
      | Inr (st, text) \<Rightarrow>
          if \<not> is_success_status st then Inl (RlHttp st (take 800 text))
          else (case parse_json H text of Inl e \<Rightarrow> Inl (RlSerde e) | Inr v \<Rightarrow> Inr v))"

definition relay_quote ::
    "http \<Rightarrow> uuid \<Rightarrow> RelayClient \<Rightarrow> Coin \<Rightarrow> Coin \<Rightarrow> nat \<Rightarrow> string \<Rightarrow> string \<Rightarrow> RelayApiError + RelayQuote" where
  "relay_quote H fresh c src dst amount_ledger user recipient =
     (if \<not> rl_enabled c then Inl RlNotConfigured
      else case relay_asset src of
        None \<Rightarrow> Inl (RlUnsupportedCoin src)
      | Some origin \<Rightarrow>
          (case relay_asset dst of
             None \<Rightarrow> Inl (RlUnsupportedCoin dst)
           | Some dest \<Rightarrow>
               let body = JObj
                     [(''user'', JStr user), (''recipient'', JStr recipient),
                      (''originChainId'', JNum (show_nat (ra_chain_id origin))),
                      (''destinationChainId'', JNum (show_nat (ra_chain_id dest))),
                      (''originCurrency'', JStr (ra_currency origin)), (''destinationCurrency'', JStr (ra_currency dest)),
                      (''amount'', JStr (show_nat (to_onchain_amount src amount_ledger))),
                      (''tradeType'', JStr ''EXACT_INPUT''), (''explicitDeposit'', JBool False)];
                   body = (if ra_chain_id origin = SOLANA_CHAIN_ID then json_set ''maxRouteLength'' (JNum ''4'') body else body)
               in case relay_read H (http_send H \<lparr>rq_method = HttpPost, rq_url = rl_base_url c @ ''/quote/v2'',
                     rq_headers = api_key_header ''x-api-key'' (rl_api_key c), rq_body = Some body\<rparr>) of
                 Inl e \<Rightarrow> Inl e
               | Inr v \<Rightarrow> parse_quote_response H fresh v src dst))"

definition intent_status :: "http \<Rightarrow> RelayClient \<Rightarrow> string \<Rightarrow> RelayApiError + RelayIntentStatus" where
  "intent_status H c request_id =
     (if \<not> rl_enabled c then Inl RlNotConfigured
      else case relay_read H (http_send H
          \<lparr>rq_method = HttpGet, rq_url = rl_base_url c @ ''/intents/status/v3?requestId='' @ request_id,
           rq_headers = api_key_header ''x-api-key'' (rl_api_key c), rq_body = None\<rparr>) of
        Inl e \<Rightarrow> Inl e
      | Inr v \<Rightarrow> Inr (intent_from_value v))"

end
