(* ===== verification/SwapKit.thy ===== *)
theory SwapKit
  imports Json
begin

text \<open>
  \<open>crates/swapkit/src/lib.rs\<close>: the client of the SwapKit API: quotes, swaps and their tracking, and the
  pieces of its answers the worker reads. \<open>format_amount\<close> of \<open>crates/shared\<close> is here with the two
  parsers that read amounts back.
\<close>

section \<open>Assets and fees\<close>

definition DEFAULT_FEE_BPS_SAME :: nat where
  "DEFAULT_FEE_BPS_SAME = 25"

definition DEFAULT_FEE_BPS_CROSS :: nat where
  "DEFAULT_FEE_BPS_CROSS = 25"

definition SAME_CHAIN_PROVIDERS :: "string list" where
  "SAME_CHAIN_PROVIDERS =
     [''JUPITER'', ''ONEINCH'', ''1INCH'', ''UNISWAP'', ''UNISWAP_V2'', ''UNISWAP_V3'', ''SUSHISWAP'',
      ''KYBERSWAP'', ''PANCAKESWAP'', ''RELAY'', ''ZEROX'', ''0X'', ''PARASWAP'']"

datatype SwapKitError = SkHttp string | SkApi string | SkNoRoutes | SkUnsupportedAsset string | SkInvalidAmount

fun swapkit_error_str :: "SwapKitError \<Rightarrow> string" where
  "swapkit_error_str (SkHttp e) = ''http error: '' @ e"
| "swapkit_error_str (SkApi e) = ''swapkit api error: '' @ e"
| "swapkit_error_str SkNoRoutes = ''no routes found''"
| "swapkit_error_str (SkUnsupportedAsset a) = ''asset not supported on SwapKit: '' @ a"
| "swapkit_error_str SkInvalidAmount = ''invalid amount''"

text \<open>The client's configuration; the slippage is the text of an \<open>f64\<close>.\<close>

record SwapKitClient =
  sk_base_url :: string
  sk_api_key :: "string option"
  sk_enabled :: bool
  sk_fee_bps_same :: nat
  sk_fee_bps_cross :: nat
  sk_slippage :: string

definition sk_is_configured :: "SwapKitClient \<Rightarrow> bool" where
  "sk_is_configured c \<longleftrightarrow> sk_enabled c \<and> sk_api_key c \<noteq> None"

fun asset_id :: "Coin \<Rightarrow> string option" where
  "asset_id Btc = Some ''BTC.BTC''"
| "asset_id Ltc = Some ''LTC.LTC''"
| "asset_id Doge = Some ''DOGE.DOGE''"
| "asset_id Bch = Some ''BCH.BCH''"
| "asset_id Sol = Some ''SOL.SOL''"
| "asset_id Pol = Some ''POL.POL''"
| "asset_id Usdt = Some ''POL.USDT-0xc2132D05D31c914a87C6611C10748AEb04B58e8F''"
| "asset_id Usdc = Some ''POL.USDC-0x3c499c542cEF5E3811e1192ce70d8cC03d5c3359''"
| "asset_id Dgb = None"
| "asset_id Zer = None"
| "asset_id Pepe = None"

fun chain_key :: "Coin \<Rightarrow> string option" where
  "chain_key Btc = Some ''BTC''"
| "chain_key Ltc = Some ''LTC''"
| "chain_key Doge = Some ''DOGE''"
| "chain_key Bch = Some ''BCH''"
| "chain_key Sol = Some ''SOL''"
| "chain_key Pol = Some ''POL''"
| "chain_key Usdt = Some ''POL''"
| "chain_key Usdc = Some ''POL''"
| "chain_key Dgb = None"
| "chain_key Zer = None"
| "chain_key Pepe = None"

definition is_same_chain :: "Coin \<Rightarrow> Coin \<Rightarrow> bool" where
  "is_same_chain a b = (case (chain_key a, chain_key b) of (Some x, Some y) \<Rightarrow> x = y | _ \<Rightarrow> False)"

definition is_same_chain_provider :: "string \<Rightarrow> bool" where
  "is_same_chain_provider name \<longleftrightarrow> (\<exists>p\<in>set SAME_CHAIN_PROVIDERS. contains (upper name) p)"

definition platform_fee_bps :: "SwapKitClient \<Rightarrow> string list \<Rightarrow> Coin \<Rightarrow> Coin \<Rightarrow> nat" where
  "platform_fee_bps c ps a b =
     (if is_same_chain a b \<or> (\<exists>p\<in>set ps. is_same_chain_provider p) then sk_fee_bps_same c else sk_fee_bps_cross c)"

definition route_priority :: "string option \<Rightarrow> nat" where
  "route_priority hint =
     (if hint = Some ''simpleTransfer'' then 0 else if hint = Some ''transferWithMemo'' then 1
      else if hint = Some ''contractCall'' \<or> hint = Some ''solanaRelay'' then 2 else 3)"

section \<open>Amounts as text\<close>

text \<open>\<open>shared::format_amount\<close>.\<close>

definition format_amount :: "nat \<Rightarrow> Coin \<Rightarrow> string" where
  "format_amount amount coin =
     (let cfg = coin_config coin;
          divisor = 10 ^ decimals cfg;
          whole = amount div divisor;
          frac_str = show_padded (decimals cfg) (amount mod divisor);
          trimmed = trim_end_char (CHR ''0'') frac_str
      in if trimmed = [] then show_nat whole else show_nat whole @ ''.'' @ trimmed)"

text \<open>
  A slice of the fraction that would cut a character in two panics; the amounts of the API are ASCII.
\<close>

definition parse_human_to_ledger :: "string \<Rightarrow> Coin \<Rightarrow> nat option" where
  "parse_human_to_ledger amount coin =
     (let places = decimals (coin_config coin); s = trim amount in
      if s = [] then None
      else let (whole, frac) = split_at_char (CHR ''.'') s in
        case parse_u128 whole of
          None \<Rightarrow> None
        | Some w \<Rightarrow>
            let frac_padded = pad_right places (take (min (length frac) places) frac) in
            case (if frac_padded = [] then Some 0 else parse_u128 frac_padded) of
              None \<Rightarrow> None
            | Some f \<Rightarrow> Some (u128_sat_add (u128_sat_mul w (10 ^ places)) f))"

section \<open>Contract calls\<close>

record ContractCallTx =
  cc_to :: string
  cc_data :: string
  cc_value_wei :: nat
  cc_gas_limit :: "nat option"
  cc_gas_price_wei :: "nat option"
  cc_from :: "string option"
  cc_approval_address :: "string option"

definition extract_approval_address :: "json \<Rightarrow> string option" where
  "extract_approval_address doc =
     (case Option.bind (or_else (Option.bind (json_get ''meta'' doc) (json_get ''approvalAddress''))
         (json_get ''approvalAddress'' doc)) json_as_str of
        Some t \<Rightarrow> if starts_with ''0x'' t \<and> length t = 42 then Some t else None
      | None \<Rightarrow> None)"

text \<open>\<open>parse_u128_loose\<close> and \<open>parse_u64_loose\<close> differ in the width only.\<close>

definition parse_loose :: "nat \<Rightarrow> json option \<Rightarrow> nat option" where
  "parse_loose bound v =
     (case v of
        None \<Rightarrow> None
      | Some x \<Rightarrow>
          (case json_as_u64 x of
             Some n \<Rightarrow> Some n
           | None \<Rightarrow>
               (case json_as_str x of
                  None \<Rightarrow> None
                | Some t \<Rightarrow>
                    let s = trim t in
                    if starts_with ''0x'' s \<or> starts_with ''0X'' s
                    then parse_radix parse_hex_digits bound (drop 2 s)
                    else parse_radix parse_digits bound s)))"

definition parse_u128_loose :: "json option \<Rightarrow> nat option" where
  "parse_u128_loose = parse_loose (2 ^ 128)"

definition parse_u64_loose :: "json option \<Rightarrow> nat option" where
  "parse_u64_loose = parse_loose (2 ^ 64)"

definition extract_contract_call_tx :: "json \<Rightarrow> ContractCallTx option" where
  "extract_contract_call_tx doc =
     (case or_else (json_get ''tx'' doc)
         (or_else (json_get ''transaction'' doc) (json_get ''evmTransaction'' doc)) of
        None \<Rightarrow> None
      | Some tx \<Rightarrow>
          (case get_str ''to'' tx of
             None \<Rightarrow> None
           | Some dest \<Rightarrow>
               if dest = [] then None
               else (case get_str ''data'' tx of
                  None \<Rightarrow> None
                | Some body \<Rightarrow>
                    if \<not> (starts_with ''0x'' body \<or> starts_with ''0X'' body) then None
                    else Some \<lparr>cc_to = dest, cc_data = body,
                      cc_value_wei = (case parse_u128_loose (json_get ''value'' tx) of None \<Rightarrow> 0 | Some n \<Rightarrow> n),
                      cc_gas_limit = parse_u64_loose (or_else (json_get ''gas'' tx) (json_get ''gasLimit'' tx)),
                      cc_gas_price_wei = parse_u128_loose (json_get ''gasPrice'' tx),
                      cc_from = get_str ''from'' tx,
                      cc_approval_address = extract_approval_address doc\<rparr>)))"

section \<open>The answers\<close>

record SwapResponse =
  sr_route_id :: "string option"
  sr_providers :: "string list"
  sr_target_address :: "string option"
  sr_inbound_address :: "string option"
  sr_memo :: "string option"
  sr_tx_type :: "string option"
  sr_tx_hint :: "string option"
  sr_meta :: "json option"
  sr_extra :: json

definition de_swap_response :: "json \<Rightarrow> SwapResponse option" where
  "de_swap_response v =
     (case (json_as_object v, de_opt_str ''routeId'' v, de_vec json_as_str ''providers'' v) of
        (Some _, Some rid, Some ps) \<Rightarrow>
          (case (de_opt_str ''targetAddress'' v, de_opt_str ''inboundAddress'' v, de_opt_str ''memo'' v) of
             (Some target, Some inbound, Some memo) \<Rightarrow>
               (case (de_opt_str ''txType'' v, de_opt_str ''txHint'' v) of
                  (Some ty, Some hint) \<Rightarrow>
                    Some \<lparr>sr_route_id = rid, sr_providers = ps, sr_target_address = target,
                      sr_inbound_address = inbound, sr_memo = memo, sr_tx_type = ty, sr_tx_hint = hint,
                      sr_meta = de_opt_value ''meta'' v,
                      sr_extra = de_flatten [''routeId'', ''providers'', ''targetAddress'',
                        ''inboundAddress'', ''memo'', ''txType'', ''txHint'', ''meta''] v\<rparr>
                | _ \<Rightarrow> None)
           | _ \<Rightarrow> None)
      | _ \<Rightarrow> None)"

definition deposit_address_of :: "SwapResponse \<Rightarrow> string option" where
  "deposit_address_of r =
     or_else (sr_target_address r) (or_else (sr_inbound_address r)
       (Option.bind (or_else (json_get ''depositAddress'' (sr_extra r))
          (or_else (json_get ''inboundAddress'' (sr_extra r)) (json_get ''targetAddress'' (sr_extra r)))) json_as_str))"

definition memo_str :: "SwapResponse \<Rightarrow> string option" where
  "memo_str r = or_else (sr_memo r) (get_str ''memo'' (sr_extra r))"

definition contract_call_tx :: "SwapResponse \<Rightarrow> ContractCallTx option" where
  "contract_call_tx r =
     or_else (extract_contract_call_tx (sr_extra r)) (Option.bind (sr_meta r) extract_contract_call_tx)"

definition parse_contract_call_tx :: "json \<Rightarrow> ContractCallTx option" where
  "parse_contract_call_tx payload =
     or_else (extract_contract_call_tx payload) (Option.bind (de_swap_response payload) contract_call_tx)"

record TrackResponse =
  tk_status :: "string option"
  tk_tracking_status :: "string option"
  tk_legs :: "json option"
  tk_inbound :: "json option"
  tk_outbound :: "json option"
  tk_extra :: json

definition de_track_response :: "json \<Rightarrow> TrackResponse option" where
  "de_track_response v =
     (case (json_as_object v, de_opt_str ''status'' v, de_opt_str ''trackingStatus'' v) of
        (Some _, Some st, Some tracking) \<Rightarrow>
          Some \<lparr>tk_status = st, tk_tracking_status = tracking, tk_legs = de_opt_value ''legs'' v,
            tk_inbound = de_opt_value ''inbound'' v, tk_outbound = de_opt_value ''outbound'' v,
            tk_extra = de_flatten [''status'', ''trackingStatus'', ''legs'', ''inbound'', ''outbound''] v\<rparr>
      | _ \<Rightarrow> None)"

definition track_status :: "TrackResponse \<Rightarrow> string" where
  "track_status t = upper (case or_else (tk_status t) (tk_tracking_status t) of None \<Rightarrow> [] | Some s \<Rightarrow> s)"

definition track_is_complete :: "TrackResponse \<Rightarrow> bool" where
  "track_is_complete t \<longleftrightarrow>
     track_status t \<in> {''COMPLETED'', ''COMPLETE'', ''SUCCESS'', ''DONE'', ''OUTBOUND'', ''SWAPPED''} \<or>
     contains (track_status t) ''COMPLETE'' \<or> contains (track_status t) ''SUCCESS''"

definition track_is_failed :: "TrackResponse \<Rightarrow> bool" where
  "track_is_failed t \<longleftrightarrow>
     contains (track_status t) ''FAIL'' \<or> contains (track_status t) ''REFUND'' \<or>
     contains (track_status t) ''ERROR'' \<or> track_status t = ''REVERTED''"

lemma incomplete_counts_as_complete:
  "track_is_complete \<lparr>tk_status = Some ''INCOMPLETE'', tk_tracking_status = None, tk_legs = None, tk_inbound = None,
     tk_outbound = None, tk_extra = JNull\<rparr>"
  by (simp add: track_is_complete_def track_status_def upper_def upper_char_def starts_with_def)

definition track_outbound_tx :: "TrackResponse \<Rightarrow> string option" where
  "track_outbound_tx t =
     or_else (Option.bind (Option.bind (tk_outbound t) (\<lambda>x.
         or_else (json_get ''hash'' x) (or_else (json_get ''txHash'' x) (json_get ''txid'' x)))) json_as_str)
       (Option.bind (or_else (json_get ''outboundTx'' (tk_extra t)) (json_get ''txHash'' (tk_extra t))) json_as_str)"

definition outbound_amount_human :: "http \<Rightarrow> TrackResponse \<Rightarrow> string option" where
  "outbound_amount_human H t =
     Option.bind (Option.bind (tk_outbound t) (\<lambda>x. or_else (json_get ''amount'' x) (json_get ''finalAmount'' x)))
       (\<lambda>v. or_else (json_as_str v) (map_option (float_display H) (json_as_number v)))"

section \<open>Requests\<close>

definition sk_post :: "http \<Rightarrow> SwapKitClient \<Rightarrow> string \<Rightarrow> json \<Rightarrow> string + nat \<times> string" where
  "sk_post H c path body = http_send H
     \<lparr>rq_method = HttpPost, rq_url = trim_end_char (CHR ''/'') (sk_base_url c) @ path,
      rq_headers = api_key_header ''x-api-key'' (sk_api_key c), rq_body = Some body\<rparr>"

text \<open>\<open>serde_json::from_str\<close> into a struct: the text parses, and the value has the struct's fields.\<close>

definition sk_decode :: "http \<Rightarrow> (json \<Rightarrow> 'a option) \<Rightarrow> string \<Rightarrow> SwapKitError + 'a" where
  "sk_decode H de text =
     (case parse_json H text of
        Inl e \<Rightarrow> Inl (SkApi e)
      | Inr v \<Rightarrow> (case de v of None \<Rightarrow> Inl (SkApi (serde_error H v)) | Some x \<Rightarrow> Inr x))"

definition sk_swap :: "http \<Rightarrow> SwapKitClient \<Rightarrow> string \<Rightarrow> string \<Rightarrow> string \<Rightarrow> SwapKitError + SwapResponse" where
  "sk_swap H c route_id source destination =
     (case sk_post H c ''/v3/swap'' (JObj [(''routeId'', JStr route_id), (''sourceAddress'', JStr source),
         (''destinationAddress'', JStr destination)]) of
        Inl e \<Rightarrow> Inl (SkHttp e)
      | Inr (st, text) \<Rightarrow>
          if \<not> is_success_status st then Inl (SkApi (status_text H st @ '': '' @ text))
          else sk_decode H de_swap_response text)"

definition sk_track :: "http \<Rightarrow> SwapKitClient \<Rightarrow> string \<Rightarrow> SwapKitError + TrackResponse" where
  "sk_track H c hash =
     (case sk_post H c ''/track'' (JObj [(''hash'', JStr hash)]) of
        Inl e \<Rightarrow> Inl (SkHttp e)
      | Inr (st, text) \<Rightarrow>
          if \<not> is_success_status st then Inl (SkApi (status_text H st @ '': '' @ text))
          else sk_decode H de_track_response text)"

end
