(* ===== verification/ChangeNow.thy ===== *)
theory ChangeNow
  imports SwapKit
begin

text \<open>
  \<open>crates/changenow/src/lib.rs\<close>: the client of the ChangeNOW API: its pairs, estimates, exchanges and
  their status, and the parser of its amounts. The lemmas show that both parsers read back what
  \<open>format_amount\<close> printed.
\<close>

section \<open>Pairs\<close>

record CnAsset =
  cn_ticker :: string
  cn_network :: string

fun cn_asset :: "Coin \<Rightarrow> CnAsset option" where
  "cn_asset Btc = Some \<lparr>cn_ticker = ''btc'', cn_network = ''btc''\<rparr>"
| "cn_asset Ltc = Some \<lparr>cn_ticker = ''ltc'', cn_network = ''ltc''\<rparr>"
| "cn_asset Doge = Some \<lparr>cn_ticker = ''doge'', cn_network = ''doge''\<rparr>"
| "cn_asset Bch = Some \<lparr>cn_ticker = ''bch'', cn_network = ''bch''\<rparr>"
| "cn_asset Dgb = Some \<lparr>cn_ticker = ''dgb'', cn_network = ''dgb''\<rparr>"
| "cn_asset Pol = Some \<lparr>cn_ticker = ''matic'', cn_network = ''matic''\<rparr>"
| "cn_asset Usdt = Some \<lparr>cn_ticker = ''usdt'', cn_network = ''matic''\<rparr>"
| "cn_asset Usdc = Some \<lparr>cn_ticker = ''usdc'', cn_network = ''matic''\<rparr>"
| "cn_asset Sol = Some \<lparr>cn_ticker = ''sol'', cn_network = ''sol''\<rparr>"
| "cn_asset Zer = None"
| "cn_asset Pepe = None"

definition cn_supports_pair :: "Coin \<Rightarrow> Coin \<Rightarrow> bool" where
  "cn_supports_pair a b \<longleftrightarrow> a \<noteq> b \<and> cn_asset a \<noteq> None \<and> cn_asset b \<noteq> None"

definition is_l1_utxo :: "Coin \<Rightarrow> bool" where
  "is_l1_utxo c \<longleftrightarrow> c = Btc \<or> c = Ltc \<or> c = Doge \<or> c = Bch \<or> c = Dgb"

definition prefers_changenow :: "Coin \<Rightarrow> Coin \<Rightarrow> bool" where
  "prefers_changenow a b \<longleftrightarrow> cn_supports_pair a b \<and> (is_l1_utxo a \<or> is_l1_utxo b)"

section \<open>Errors and configuration\<close>

datatype ChangeNowError =
  CnNotConfigured
| CnUnsupportedCoin Coin
| CnHttp nat string
| CnMsg string
| CnReqwest string
| CnSerde string

fun changenow_error_str :: "ChangeNowError \<Rightarrow> string" where
  "changenow_error_str CnNotConfigured =
     ''changenow not configured (set CHANGENOW_ENABLED=true + CHANGENOW_API_KEY)''"
| "changenow_error_str (CnUnsupportedCoin c) =
     ''unsupported coin for changenow: '' @ (case coin_str c of [] \<Rightarrow> [] | x # xs \<Rightarrow> x # map lower_char xs)"
| "changenow_error_str (CnHttp st body) = ''changenow http '' @ show_nat st @ '': '' @ body"
| "changenow_error_str (CnMsg m) = ''changenow: '' @ m"
| "changenow_error_str (CnReqwest e) = e"
| "changenow_error_str (CnSerde e) = e"

record ChangeNowClient =
  cl_base_url :: string
  cl_api_key :: "string option"
  cl_enabled :: bool

definition cn_is_configured :: "ChangeNowClient \<Rightarrow> bool" where
  "cn_is_configured c \<longleftrightarrow> cl_enabled c \<and> (case cl_api_key c of None \<Rightarrow> False | Some k \<Rightarrow> k \<noteq> [])"

definition auth_header :: "ChangeNowClient \<Rightarrow> ChangeNowError + string" where
  "auth_header c = (case cl_api_key c of
     Some k \<Rightarrow> if k = [] then Inl CnNotConfigured else Inr k | None \<Rightarrow> Inl CnNotConfigured)"

section \<open>Amounts\<close>

definition is_digit :: "char \<Rightarrow> bool" where
  "is_digit c \<longleftrightarrow> digit_value c \<noteq> None"

definition human_to_ledger :: "string \<Rightarrow> nat option" where
  "human_to_ledger human =
     (let s = filter (\<lambda>c. c \<noteq> CHR '','') (trim human) in
      if s = [] then None
      else if starts_with ''-'' s then None
      else let (whole, frac) = split_at_char (CHR ''.'') s in
        if \<not> list_all is_digit whole then None
        else if \<not> list_all is_digit frac then None
        else
          case (if whole = [] then Some 0 else parse_u128 whole) of
            None \<Rightarrow> None
          | Some w \<Rightarrow>
              let frac_cut = take 8 (pad_right 8 frac) in
              case (if frac_cut = [] then Some 0 else parse_u128 frac_cut) of
                None \<Rightarrow> None
              | Some f \<Rightarrow>
                  (case nat_to_u128 (w * 100000000) of
                     None \<Rightarrow> None
                   | Some m \<Rightarrow> nat_to_u128 (m + f)))"

definition format_float_trim :: "http \<Rightarrow> string \<Rightarrow> string" where
  "format_float_trim H n = trim_end_char (CHR ''.'') (trim_end_char (CHR ''0'') (float_fixed10 H n))"

text \<open>A number is an \<open>f64\<close> before it can be a \<open>u64\<close>, so the last branch of the code is never reached.\<close>

definition value_to_human :: "http \<Rightarrow> json \<Rightarrow> ChangeNowError + string" where
  "value_to_human H v =
     (case json_as_str v of
        Some s \<Rightarrow> Inr (trim s)
      | None \<Rightarrow>
          (case json_as_number v of
             Some n \<Rightarrow> Inr (format_float_trim H n)
           | None \<Rightarrow> Inl (CnMsg (''expected amount, got '' @ serde_error H v))))"

definition urlencoding_lite :: "string \<Rightarrow> string" where
  "urlencoding_lite s = concat (map (\<lambda>c.
     let k = of_char c :: nat in
     if (65 \<le> k \<and> k \<le> 90) \<or> (97 \<le> k \<and> k \<le> 122) \<or> (48 \<le> k \<and> k \<le> 57) \<or> c \<in> set ''-_.~'' then [c]
     else [CHR ''%'', upper_char (hex_char (k div 16)), upper_char (hex_char (k mod 16))]) s)"

section \<open>The answers\<close>

record ChangeNowStatus =
  cs_status :: string
  cs_to_amount_human :: "string option"
  cs_payout_hash :: "string option"
  cs_raw :: json

definition cn_status_from_value :: "http \<Rightarrow> json \<Rightarrow> ChangeNowStatus" where
  "cn_status_from_value H v =
     \<lparr>cs_status = (case get_str ''status'' v of None \<Rightarrow> [] | Some s \<Rightarrow> s),
      cs_to_amount_human = Option.bind (or_else (json_get ''amountTo'' v) (json_get ''toAmount'' v))
        (\<lambda>x. or_else (json_as_str x) (map_option (format_float_trim H) (json_as_number x))),
      cs_payout_hash = Option.bind (or_else (json_get ''payoutHash'' v) (json_get ''payinHash'' v)) json_as_str,
      cs_raw = v\<rparr>"

definition cn_is_success :: "ChangeNowStatus \<Rightarrow> bool" where
  "cn_is_success r \<longleftrightarrow> lower (cs_status r) \<in> {''finished'', ''completed'', ''success''}"

definition cn_is_failed :: "ChangeNowStatus \<Rightarrow> bool" where
  "cn_is_failed r \<longleftrightarrow> lower (cs_status r) \<in> {''failed'', ''refunded'', ''expired''}"

record ChangeNowEstimate =
  ce_from :: Coin
  ce_to :: Coin
  ce_from_amount_ledger :: nat
  ce_to_amount_ledger :: nat
  ce_to_amount_human :: string
  ce_deposit_fee_human :: "string option"
  ce_raw :: json

text \<open>\<open>.map(value_to_human).transpose()?\<close>.\<close>

definition opt_human :: "http \<Rightarrow> json option \<Rightarrow> ChangeNowError + string option" where
  "opt_human H v = (case v of None \<Rightarrow> Inr None
     | Some x \<Rightarrow> (case value_to_human H x of Inl e \<Rightarrow> Inl e | Inr s \<Rightarrow> Inr (Some s)))"

definition parse_estimate :: "http \<Rightarrow> json \<Rightarrow> Coin \<Rightarrow> Coin \<Rightarrow> nat \<Rightarrow> ChangeNowError + ChangeNowEstimate" where
  "parse_estimate H v src dst amount =
     (case opt_human H (or_else (json_get ''toAmount'' v) (json_get ''estimatedAmount'' v)) of
        Inl e \<Rightarrow> Inl e
      | Inr None \<Rightarrow> Inl (CnMsg ''estimate missing toAmount'')
      | Inr (Some to_human) \<Rightarrow>
          (case human_to_ledger to_human of
             None \<Rightarrow> Inl (CnMsg (''bad toAmount: '' @ to_human))
           | Some n \<Rightarrow> Inr \<lparr>ce_from = src, ce_to = dst, ce_from_amount_ledger = amount,
               ce_to_amount_ledger = n, ce_to_amount_human = to_human,
               ce_deposit_fee_human = (case opt_human H (json_get ''depositFee'' v) of Inl _ \<Rightarrow> None | Inr x \<Rightarrow> x),
               ce_raw = v\<rparr>))"

record ChangeNowExchange =
  cx_id :: string
  cx_payin_address :: string
  cx_payin_extra_id :: "string option"
  cx_from :: Coin
  cx_to :: Coin
  cx_from_amount_ledger :: nat
  cx_to_amount_ledger :: nat
  cx_to_amount_human :: string
  cx_raw :: json

definition parse_exchange :: "http \<Rightarrow> json \<Rightarrow> Coin \<Rightarrow> Coin \<Rightarrow> ChangeNowError + ChangeNowExchange" where
  "parse_exchange H v src dst =
     (case get_str ''id'' v of
        None \<Rightarrow> Inl (CnMsg ''create missing id'')
      | Some i \<Rightarrow>
     (case get_str ''payinAddress'' v of
        None \<Rightarrow> Inl (CnMsg ''create missing payinAddress'')
      | Some addr \<Rightarrow>
     (case opt_human H (json_get ''fromAmount'' v) of
        Inl e \<Rightarrow> Inl e
      | Inr f \<Rightarrow>
     (case opt_human H (json_get ''toAmount'' v) of
        Inl e \<Rightarrow> Inl e
      | Inr t \<Rightarrow>
          let from_human = (case f of None \<Rightarrow> [] | Some s \<Rightarrow> s);
              to_human = (case t of None \<Rightarrow> ''0'' | Some s \<Rightarrow> s) in
          Inr \<lparr>cx_id = i, cx_payin_address = addr,
            cx_payin_extra_id = (case get_str ''payinExtraId'' v of
               Some s \<Rightarrow> if s = [] then None else Some s | None \<Rightarrow> None),
            cx_from = src, cx_to = dst,
            cx_from_amount_ledger = (if from_human = [] then 0
              else case human_to_ledger from_human of None \<Rightarrow> 0 | Some n \<Rightarrow> n),
            cx_to_amount_ledger = (case human_to_ledger to_human of None \<Rightarrow> 0 | Some n \<Rightarrow> n),
            cx_to_amount_human = to_human, cx_raw = v\<rparr>))))"

definition cn_route_id :: "ChangeNowExchange \<Rightarrow> string" where
  "cn_route_id x = ''changenow:'' @ cx_id x"

definition cn_payload :: "ChangeNowExchange \<Rightarrow> json" where
  "cn_payload x = JObj
     [(''provider'', JStr ''CHANGENOW''), (''exchangeId'', JStr (cx_id x)),
      (''payinAddress'', JStr (cx_payin_address x)),
      (''payinExtraId'', case cx_payin_extra_id x of None \<Rightarrow> JNull | Some s \<Rightarrow> JStr s),
      (''fromAmount'', JStr (show_nat (cx_from_amount_ledger x))),
      (''toAmount'', JStr (show_nat (cx_to_amount_ledger x))),
      (''toAmountHuman'', JStr (cx_to_amount_human x)), (''raw'', cx_raw x)]"

section \<open>Requests\<close>

definition cn_read :: "http \<Rightarrow> string + nat \<times> string \<Rightarrow> ChangeNowError + json" where
  "cn_read H answer =
     (case answer of
        Inl e \<Rightarrow> Inl (CnReqwest e)
      | Inr (st, text) \<Rightarrow>
          if \<not> is_success_status st then Inl (CnHttp st (take 800 text))
          else (case parse_json H text of Inl e \<Rightarrow> Inl (CnSerde e) | Inr v \<Rightarrow> Inr v))"

definition cn_estimate ::
    "http \<Rightarrow> ChangeNowClient \<Rightarrow> Coin \<Rightarrow> Coin \<Rightarrow> nat \<Rightarrow> ChangeNowError + ChangeNowEstimate" where
  "cn_estimate H c src dst amount =
     (if \<not> cn_is_configured c then Inl CnNotConfigured
      else case cn_asset src of
        None \<Rightarrow> Inl (CnUnsupportedCoin src)
      | Some a \<Rightarrow>
     (case cn_asset dst of
        None \<Rightarrow> Inl (CnUnsupportedCoin dst)
      | Some b \<Rightarrow>
     (case auth_header c of
        Inl e \<Rightarrow> Inl e
      | Inr key \<Rightarrow>
          let url = cl_base_url c @ ''/exchange/estimated-amount?fromCurrency='' @ cn_ticker a @
                ''&toCurrency='' @ cn_ticker b @ ''&fromAmount='' @ urlencoding_lite (format_amount amount src) @
                ''&fromNetwork='' @ cn_network a @ ''&toNetwork='' @ cn_network b @ ''&flow=standard'' in
          case cn_read H (http_send H \<lparr>rq_method = HttpGet, rq_url = url,
              rq_headers = [(''x-changenow-api-key'', key)], rq_body = None\<rparr>) of
            Inl e \<Rightarrow> Inl e
          | Inr v \<Rightarrow> parse_estimate H v src dst amount)))"

definition create_exchange ::
    "http \<Rightarrow> ChangeNowClient \<Rightarrow> Coin \<Rightarrow> Coin \<Rightarrow> nat \<Rightarrow> string \<Rightarrow> string \<Rightarrow> ChangeNowError + ChangeNowExchange" where
  "create_exchange H c src dst amount payout refund_to =
     (if \<not> cn_is_configured c then Inl CnNotConfigured
      else case cn_asset src of
        None \<Rightarrow> Inl (CnUnsupportedCoin src)
      | Some a \<Rightarrow>
     (case cn_asset dst of
        None \<Rightarrow> Inl (CnUnsupportedCoin dst)
      | Some b \<Rightarrow>
     (case auth_header c of
        Inl e \<Rightarrow> Inl e
      | Inr key \<Rightarrow>
          let body = JObj [(''fromCurrency'', JStr (cn_ticker a)), (''toCurrency'', JStr (cn_ticker b)),
                (''fromNetwork'', JStr (cn_network a)), (''toNetwork'', JStr (cn_network b)),
                (''fromAmount'', JStr (format_amount amount src)), (''address'', JStr payout),
                (''refundAddress'', JStr refund_to), (''flow'', JStr ''standard''), (''type'', JStr ''direct'')] in
          case cn_read H (http_send H \<lparr>rq_method = HttpPost, rq_url = cl_base_url c @ ''/exchange'',
              rq_headers = [(''x-changenow-api-key'', key), (''Content-Type'', ''application/json'')], rq_body = Some body\<rparr>) of
            Inl e \<Rightarrow> Inl e
          | Inr v \<Rightarrow> parse_exchange H v src dst)))"

definition cn_status :: "http \<Rightarrow> ChangeNowClient \<Rightarrow> string \<Rightarrow> ChangeNowError + ChangeNowStatus" where
  "cn_status H c exchange_id =
     (if \<not> cn_is_configured c then Inl CnNotConfigured
      else case auth_header c of
        Inl e \<Rightarrow> Inl e
      | Inr key \<Rightarrow>
          (case cn_read H (http_send H
              \<lparr>rq_method = HttpGet, rq_url = cl_base_url c @ ''/exchange/by-id?id='' @ urlencoding_lite exchange_id,
               rq_headers = [(''x-changenow-api-key'', key)], rq_body = None\<rparr>) of
             Inl e \<Rightarrow> Inl e
           | Inr v \<Rightarrow> Inr (cn_status_from_value H v)))"

section \<open>Amounts come back as they were printed\<close>

lemma length_show_nat: "n < 10 ^ k \<Longrightarrow> 0 < k \<Longrightarrow> length (show_nat n) \<le> k"
proof (induction n arbitrary: k rule: show_nat.induct)
  case (1 n)
  show ?case
  proof (cases "n < 10")
    case True
    with "1.prems"(2) show ?thesis by (subst show_nat.simps) simp
  next
    case False
    then obtain j where k: "k = Suc j" "0 < j" using "1.prems" by (cases k; cases "k - 1") auto
    then have "n div 10 < 10 ^ j" using "1.prems"(1) by (simp add: less_mult_imp_div_less mult.commute)
    from "1.IH" [OF False this k(2)] False k show ?thesis by (subst show_nat.simps) simp
  qed
qed

lemma is_digit_show_nat: "list_all is_digit (show_nat n)"
  unfolding list_all_iff using show_nat_digits by (auto simp: is_digit_def) (metis digit_value_char option.discI)

lemma is_digit_show_padded: "list_all is_digit (show_padded w n)"
  using is_digit_show_nat [of n] by (auto simp: show_padded_def list_all_iff is_digit_def digit_value_def)

lemma length_show_padded: "n < 10 ^ w \<Longrightarrow> 0 < w \<Longrightarrow> length (show_padded w n) = w"
  using length_show_nat [of n w] by (simp add: show_padded_def)

lemma parse_digits_zeros: "parse_digits 0 (replicate k (CHR ''0'') @ s) = parse_digits 0 s"
  by (induction k) (simp_all add: digit_value_def)

lemma parse_digits_show_padded: "parse_digits 0 (show_padded w n) = Some n"
  by (simp add: show_padded_def parse_digits_zeros parse_digits_show_nat)

lemma is_digit_plain: "is_digit c \<Longrightarrow> c \<noteq> CHR ''+'' \<and> c \<noteq> CHR ''.'' \<and> c \<noteq> CHR '','' \<and> c \<noteq> CHR ''-'' \<and> \<not> is_space c"
  by (auto simp: is_digit_def digit_value_def is_space_def Let_def split: if_splits)

lemma parse_u128_digits:
  assumes "list_all is_digit s" and "s \<noteq> []" and "parse_digits 0 s = Some n" and "n \<le> u128_max"
  shows "parse_u128 s = Some n"
  using assms is_digit_plain by (cases s) (auto simp: parse_u128_def Let_def)

lemma takeWhile_replicate: "takeWhile (\<lambda>x. x = c) t = replicate (length (takeWhile (\<lambda>x. x = c) t)) c"
  by (induction t) simp_all

lemma trim_end_char_split: "\<exists>k. s = trim_end_char c s @ replicate k c"
proof -
  have "rev s = takeWhile (\<lambda>x. x = c) (rev s) @ dropWhile (\<lambda>x. x = c) (rev s)" by simp
  then have "s = rev (dropWhile (\<lambda>x. x = c) (rev s)) @ rev (takeWhile (\<lambda>x. x = c) (rev s))"
    by (metis rev_append rev_rev_ident)
  also have "rev (takeWhile (\<lambda>x. x = c) (rev s)) = replicate (length (takeWhile (\<lambda>x. x = c) (rev s))) c"
    by (subst takeWhile_replicate) (rule rev_replicate)
  finally show ?thesis unfolding trim_end_char_def by (rule exI)
qed

lemma pad_right_trimmed: "length s = w \<Longrightarrow> pad_right w (trim_end_char (CHR ''0'') s) = s"
  using trim_end_char_split [of s "CHR ''0''"] by (metis add_diff_cancel_left' length_append length_replicate pad_right_def)

lemma split_at_char_dot:
  assumes "list_all is_digit w"
  shows "split_at_char (CHR ''.'') (w @ CHR ''.'' # f) = (w, f)" "split_at_char (CHR ''.'') w = (w, [])"
proof -
  have "\<forall>x\<in>set w. x \<noteq> CHR ''.''" using assms is_digit_plain by (auto simp: list_all_iff)
  then show "split_at_char (CHR ''.'') (w @ CHR ''.'' # f) = (w, f)" "split_at_char (CHR ''.'') w = (w, [])"
    by (simp_all add: split_at_char_def takeWhile_append2 dropWhile_append2 takeWhile_eq_all_conv iffD2 [OF dropWhile_eq_Nil_conv])
qed

lemma trim_plain: "\<forall>c\<in>set s. \<not> is_space c \<Longrightarrow> trim s = s"
proof -
  assume s: "\<forall>c\<in>set s. \<not> is_space c"
  have d: "dropWhile is_space t = t" if "set t \<subseteq> set s" for t
    using that s by (cases t) auto
  show ?thesis by (simp add: trim_def d)
qed

text \<open>The two parts of a printed amount, and the text they make.\<close>

lemma format_amount_parts:
  assumes "n \<le> u128_max"
  shows "\<exists>w f. list_all is_digit w \<and> list_all is_digit f \<and> w \<noteq> [] \<and> length f \<le> 8 \<and>
    parse_u128 w = Some (n div 10 ^ 8) \<and> parse_u128 (pad_right 8 f) = Some (n mod 10 ^ 8) \<and>
    format_amount n c = (if f = [] then w else w @ CHR ''.'' # f)"
proof -
  let ?s = "show_padded 8 (n mod 10 ^ 8)"
  let ?f = "trim_end_char (CHR ''0'') ?s"
  have len: "length ?s = 8" by (rule length_show_padded) simp_all
  have le: "n div 10 ^ 8 \<le> u128_max" "n mod 10 ^ 8 \<le> u128_max"
    using assms by (meson div_le_dividend order_trans, meson mod_less_eq_dividend order_trans)
  obtain k where k: "?s = ?f @ replicate k (CHR ''0'')" using trim_end_char_split by blast
  have f: "list_all is_digit ?f" "length ?f \<le> 8"
    using is_digit_show_padded [of 8 "n mod 10 ^ 8"] len by (metis k list_all_append, metis k le_add1 length_append)
  have "parse_u128 ?s = Some (n mod 10 ^ 8)"
    by (rule parse_u128_digits [OF is_digit_show_padded _ parse_digits_show_padded le(2)]) (use len in auto)
  then have p: "parse_u128 (pad_right 8 ?f) = Some (n mod 10 ^ 8)" using pad_right_trimmed [OF len] by simp
  show ?thesis
    using f p parse_u128_show_nat [OF le(1)] is_digit_show_nat
    by (intro exI [of _ "show_nat (n div 10 ^ 8)"] exI [of _ ?f]) (simp add: format_amount_def Let_def)
qed

text \<open>
  An amount survives the trip through a provider's API: what \<open>format_amount\<close> prints for any
  ledger amount of any coin, each provider's parser reads back as that amount.
\<close>

theorem printed_amount_reads_back:
  assumes "n \<le> u128_max"
  shows "human_to_ledger (format_amount n c) = Some n \<and> parse_human_to_ledger (format_amount n c) d = Some n"
proof -
  obtain w f where w: "list_all is_digit w" "list_all is_digit f" "w \<noteq> []" "length f \<le> 8"
    "parse_u128 w = Some (n div 10 ^ 8)" "parse_u128 (pad_right 8 f) = Some (n mod 10 ^ 8)"
    and fmt: "format_amount n c = (if f = [] then w else w @ CHR ''.'' # f)"
    using format_amount_parts [OF assms, of c] by blast
  have plain: "\<forall>x\<in>set (format_amount n c). \<not> is_space x \<and> x \<noteq> CHR '',''"
    using w(1,2) is_digit_plain by (auto simp: fmt list_all_iff is_space_def)
  then have tr: "trim (format_amount n c) = format_amount n c" by (intro trim_plain) blast
  have cm: "filter (\<lambda>x. x \<noteq> CHR '','') (format_amount n c) = format_amount n c"
    using plain by (intro filter_True) blast
  have sp: "split_at_char (CHR ''.'') (format_amount n c) = (w, f)"
    using split_at_char_dot [OF w(1)] by (simp add: fmt)
  have nonempty: "format_amount n c \<noteq> []" and hyp: "\<not> starts_with ''-'' (format_amount n c)"
    using w(1,3) is_digit_plain by (cases w; auto simp: fmt starts_with_def)+
  have cut: "take 8 (pad_right 8 f) = pad_right 8 f" "pad_right 8 f \<noteq> []" and tk: "take (min (length f) 8) f = f"
    using w(4) by (auto simp: pad_right_def)
  have whole: "n div 10 ^ 8 * 10 ^ 8 + n mod 10 ^ 8 = n" by simp
  have le: "n div 10 ^ 8 * 10 ^ 8 \<le> u128_max" using whole assms by linarith
  have "human_to_ledger (format_amount n c) = Some n"
    using le whole assms by (simp add: human_to_ledger_def Let_def tr cm sp nonempty hyp w cut nat_to_u128_def)
  moreover have "parse_human_to_ledger (format_amount n c) d = Some n"
    using le whole assms
    by (simp add: parse_human_to_ledger_def Let_def tr sp nonempty w cut tk u128_sat_mul_def u128_sat_add_def)
  ultimately show ?thesis by simp
qed

theorem printed_amount_reads_back_witness:
  "human_to_ledger (format_amount 150000000 Ltc) = Some 150000000 \<and> 150000000 \<le> u128_max"
  using printed_amount_reads_back [of 150000000 Ltc Ltc] by (simp add: u128_max_def)

end
