(* ===== verification/DexRunner.thy ===== *)
theory DexRunner
  imports DexSwap RelayApi ChangeNow Withdrawals Queue
begin

text \<open>
  \<open>crates/worker/src/dex_swap_runner.rs\<close>: the worker that broadcasts the deposit of a locked swap, asks the
  providers what became of it, and credits or refunds the user. The chain client of the registry
  is a parameter, as is the HTTP client under the three provider clients. Reading a job's payload is a
  parameter too; the timeouts the code reports to the telemetry are the identifiers a tick returns.
\<close>

section \<open>The outside world\<close>

record EvmContractCall =
  ec_to :: string
  ec_data_hex :: string
  ec_value_wei :: nat
  ec_gas_limit_hint :: "nat option"
  ec_gas_price_hint :: "nat option"
  ec_from_hint :: "string option"
  ec_erc20_sell_amount :: "nat option"
  ec_approval_address :: "string option"

type_synonym broadcast_result = "BroadcastError + BroadcastResult"

record chain_client =
  send_coins :: "Coin \<Rightarrow> string \<Rightarrow> nat \<Rightarrow> broadcast_result" \<comment> \<open>\<open>broadcast_withdrawal\<close>\<close>
  send_contract_call :: "Coin \<Rightarrow> EvmContractCall \<Rightarrow> broadcast_result"
  send_solana_tx :: "Coin \<Rightarrow> json \<Rightarrow> broadcast_result"

record swap_providers =
  sp_http :: http
  sp_swapkit :: SwapKitClient
  sp_relay :: RelayClient
  sp_changenow :: ChangeNowClient

section \<open>Reading a row\<close>

definition payload_provider_is :: "string \<Rightarrow> dex_swap_row \<Rightarrow> bool" where
  "payload_provider_is name r =
     (case Option.bind (dx_payload r) (get_str ''provider'') of None \<Rightarrow> False | Some s \<Rightarrow> eq_ignore_case s name)"

definition is_relay_row :: "dex_swap_row \<Rightarrow> bool" where
  "is_relay_row r \<longleftrightarrow> eq_ignore_case (dx_provider r) ''RELAY'' \<or> payload_provider_is ''relay'' r"

definition is_changenow_row :: "dex_swap_row \<Rightarrow> bool" where
  "is_changenow_row r \<longleftrightarrow> eq_ignore_case (dx_provider r) ''CHANGENOW'' \<or> payload_provider_is ''changenow'' r"

definition relay_is_bridge :: "json \<Rightarrow> bool" where
  "relay_is_bridge v = (case Option.bind (json_get ''isBridge'' v) json_as_bool of None \<Rightarrow> False | Some b \<Rightarrow> b)"

definition relay_request_id :: "json \<Rightarrow> string option" where
  "relay_request_id v = or_else (get_str ''requestId'' v) (get_str ''quoteId'' v)"

definition below_min :: "dex_swap_row \<Rightarrow> nat \<Rightarrow> bool" where
  "below_min r amount = (case Option.bind (dx_min_to_amount r) dec_to_u128 of None \<Rightarrow> False | Some m \<Rightarrow> amount < m)"

section \<open>Crediting\<close>

text \<open>A database call's result as the runner's: \<open>map_err(|e| e.to_string())\<close>.\<close>

definition as_text :: "(DexSwapError + unit) \<times> db \<Rightarrow> (string + unit) \<times> db" where
  "as_text res = (case res of (Inl e, s) \<Rightarrow> (Inl (dex_error_str e), s) | (Inr u, s) \<Rightarrow> (Inr u, s))"

definition try_credit_changenow :: "swap_providers \<Rightarrow> uuid \<Rightarrow> db \<Rightarrow> (string + unit) \<times> db" where
  "try_credit_changenow P sid s =
     (if \<not> cn_is_configured (sp_changenow P) then (Inl ''changenow not configured'', s)
      else case find_dex s sid of
        None \<Rightarrow> (Inl ''not found'', s)
      | Some row \<Rightarrow>
          if dx_status row \<noteq> DxInFlight \<and> dx_status row \<noteq> DxCrediting then (Inr (), s)
          else (case dx_payload row of
             None \<Rightarrow> (Inl ''missing swap_payload'', s)
           | Some payload \<Rightarrow>
               (case or_else (get_str ''exchangeId'' payload) (dx_quote_id row) of
                  None \<Rightarrow> (Inl ''missing exchangeId'', s)
                | Some exchange_id \<Rightarrow>
                    (case cn_status (sp_http P) (sp_changenow P) exchange_id of
                       Inl e \<Rightarrow> (Inl (changenow_error_str e), s)
                     | Inr st \<Rightarrow>
                         if cn_is_failed st
                         then (Inl (''changenow failed: '' @ cs_status st),
                               mark_failed sid (''changenow status: '' @ cs_status st) s)
                         else if \<not> cn_is_success st then (Inl (''changenow status='' @ cs_status st), s)
                         else
                           (case or_else (Option.bind (cs_to_amount_human st) human_to_ledger)
                               (dec_to_u128 (dx_expected_to_amount row)) of
                              None \<Rightarrow> (Inl ''cannot resolve changenow to_amount'', s)
                            | Some to_amount \<Rightarrow>
                                if below_min row to_amount
                                then (Inl ''slippage'', mark_failed sid ''slippage: received below minToAmount'' s)
                                else as_text (credit_and_complete sid to_amount (cs_payout_hash st) s))))))"

definition same_chain_provider_names :: "string list" where
  "same_chain_provider_names =
     [''ONEINCH'', ''1INCH'', ''UNISWAP'', ''SUSHISWAP'', ''KYBERSWAP'', ''PANCAKE'', ''JUPITER'', ''RELAY'']"

definition credit_same_chain_after_receipt :: "uuid \<Rightarrow> string \<Rightarrow> db \<Rightarrow> (string + unit) \<times> db" where
  "credit_same_chain_after_receipt sid inbound s =
     (case find_dex s sid of
        None \<Rightarrow> (Inl ''not found'', s)
      | Some row \<Rightarrow>
          if dx_status row \<noteq> DxInFlight then (Inr (), s)
          else if \<not> (is_same_chain (dx_from_coin row) (dx_to_coin row) \<or>
              (\<exists>p\<in>set (dx_providers row). \<exists>n\<in>set same_chain_provider_names. contains (upper p) n))
          then (Inl ''not same-chain'', s)
          else if (case dx_payload row of None \<Rightarrow> False | Some v \<Rightarrow> relay_is_bridge v)
          then (Inl ''relay bridge'', s)
          else (case dec_to_u128 (dx_expected_to_amount row) of
             None \<Rightarrow> (Inl ''bad expected_to_amount'', s)
           | Some expected \<Rightarrow>
               if below_min row expected then (Inl ''expected below min'', s)
               else as_text (credit_and_complete sid expected (Some inbound) s)))"

definition try_credit_relay :: "swap_providers \<Rightarrow> uuid \<Rightarrow> db \<Rightarrow> (string + unit) \<times> db" where
  "try_credit_relay P sid s =
     (if \<not> rl_enabled (sp_relay P) then (Inl ''relay not configured'', s)
      else case find_dex s sid of
        None \<Rightarrow> (Inl ''not found'', s)
      | Some row \<Rightarrow>
          if dx_status row \<noteq> DxInFlight \<and> dx_status row \<noteq> DxCrediting then (Inr (), s)
          else (case dx_payload row of
             None \<Rightarrow> (Inl ''missing swap_payload'', s)
           | Some payload \<Rightarrow>
               (case relay_request_id payload of
                  None \<Rightarrow> (Inl ''missing requestId'', s)
                | Some request_id \<Rightarrow>
                    (case intent_status (sp_http P) (sp_relay P) request_id of
                       Inl e \<Rightarrow> (Inl (relay_api_error_str e), s)
                     | Inr st \<Rightarrow>
                         if intent_is_failed st
                         then (Inl (''relay failed: '' @ is_status st),
                               mark_failed sid (case fail_reason st of
                                 Some reason \<Rightarrow> ''relay status: '' @ is_status st @ '' ('' @ reason @ '')''
                               | None \<Rightarrow> ''relay status: '' @ is_status st) s)
                         else if \<not> intent_is_success st
                         then (Inl (''relay status='' @ is_status st),
                               (case dx_inbound_tx row of
                                  Some inbound \<Rightarrow> if relay_is_bridge payload then s
                                    else snd (credit_same_chain_after_receipt sid inbound s)
                                | None \<Rightarrow> s))
                         else
                           (case dec_to_u128 (dx_expected_to_amount row) of
                              None \<Rightarrow> (Inl ''bad expected_to_amount'', s)
                            | Some expected \<Rightarrow>
                                if below_min row expected
                                then (Inl ''slippage'', mark_failed sid ''slippage: expected below minToAmount'' s)
                                else as_text (credit_and_complete sid expected (is_outbound_tx st) s))))))"

definition try_track_and_credit :: "swap_providers \<Rightarrow> uuid \<Rightarrow> db \<Rightarrow> (string + unit) \<times> db" where
  "try_track_and_credit P sid s =
     (case find_dex s sid of
        None \<Rightarrow> (Inl ''not found'', s)
      | Some row \<Rightarrow>
          (case dx_inbound_tx row of
             None \<Rightarrow> (Inl ''no inbound tx'', s)
           | Some hash \<Rightarrow>
               (case sk_track (sp_http P) (sp_swapkit P) hash of
                  Inl e \<Rightarrow> (Inl (swapkit_error_str e), s)
                | Inr tk \<Rightarrow>
                    if \<not> track_is_complete tk then (Inl ''not complete'', s)
                    else
                      (case or_else (Option.bind (outbound_amount_human (sp_http P) tk)
                            (\<lambda>h. parse_human_to_ledger h (dx_to_coin row)))
                          (dec_to_u128 (dx_expected_to_amount row)) of
                         None \<Rightarrow> (Inl ''cannot resolve to_amount'', s)
                       | Some to_amount \<Rightarrow>
                           if below_min row to_amount
                           then (Inl ''slippage'', mark_failed sid ''slippage: received below minToAmount'' s)
                           else as_text (credit_and_complete sid to_amount (track_outbound_tx tk) s)))))"

section \<open>The broadcast\<close>

definition dex_fee_input :: "Coin \<Rightarrow> uuid \<Rightarrow> BroadcastResult \<Rightarrow> RecordNetworkFeeInput" where
  "dex_fee_input coin sid b =
     \<lparr>fee_coin = coin, fee_kind = FeeDexDeposit, fee_paid = br_fee_amount b,
      fee_tx_hash = Some (br_tx_hash b), fee_reference_id = Some sid, fee_reference_type = Some ''DexSwap''\<rparr>"

definition broadcast_failed :: "uuid \<Rightarrow> BroadcastError \<Rightarrow> db \<Rightarrow> (string + unit) \<times> db" where
  "broadcast_failed sid e s =
     (Inl (be_message e),
      if be_safe_to_reverse e
      then snd (refund sid (''broadcast failed: '' @ be_message e) (mark_failed sid (be_message e) s))
      else mark_failed sid (''ambiguous broadcast: '' @ be_message e) s)"

text \<open>\<open>credit\<close> is what is tried once the deposit is on its way; its errors are dropped.\<close>

definition settle_deposit ::
    "uuid \<Rightarrow> Coin \<Rightarrow> (string \<Rightarrow> db \<Rightarrow> db) \<Rightarrow> broadcast_result \<Rightarrow> db \<Rightarrow> (string + unit) \<times> db" where
  "settle_deposit sid coin credit answer s =
     (case answer of
        Inl e \<Rightarrow> broadcast_failed sid e s
      | Inr b \<Rightarrow>
          (case mark_in_flight sid (br_tx_hash b) s of
             (Inl e, s1) \<Rightarrow> (Inl (dex_error_str e), s1)
           | (Inr _, s1) \<Rightarrow>
               (Inr (), credit (br_tx_hash b) (snd (record_network_fee (dex_fee_input coin sid b) s1)))))"

definition fail_and_refund :: "uuid \<Rightarrow> string \<Rightarrow> string \<Rightarrow> string \<Rightarrow> db \<Rightarrow> (string + unit) \<times> db" where
  "fail_and_refund sid err reason answer s = (Inl answer, snd (refund sid reason (mark_failed sid err s)))"

definition track_or_receipt :: "swap_providers \<Rightarrow> uuid \<Rightarrow> string \<Rightarrow> db \<Rightarrow> db" where
  "track_or_receipt P sid hash s =
     (case try_track_and_credit P sid s of
        (Inr _, s1) \<Rightarrow> s1
      | (Inl _, s1) \<Rightarrow> snd (credit_same_chain_after_receipt sid hash s1))"

definition value_mismatch :: "nat \<Rightarrow> nat \<Rightarrow> bool" where
  "value_mismatch quoted_value expected =
     (let delta = max quoted_value expected - min quoted_value expected in
      expected div 1000000 < delta \<and> 1000000000 < delta)"

definition evm_call_of :: "Coin \<Rightarrow> nat \<Rightarrow> json \<Rightarrow> ContractCallTx \<Rightarrow> EvmContractCall" where
  "evm_call_of coin onchain payload call =
     \<lparr>ec_to = cc_to call, ec_data_hex = cc_data call, ec_value_wei = cc_value_wei call,
      ec_gas_limit_hint = cc_gas_limit call, ec_gas_price_hint = cc_gas_price_wei call,
      ec_from_hint = cc_from call,
      ec_erc20_sell_amount = (if coin = Usdt \<or> coin = Usdc \<or> coin = Pepe then Some onchain else None),
      ec_approval_address = or_else (cc_approval_address call) (get_str ''approvalAddress'' payload)\<rparr>"

definition broadcast_contract_call ::
    "chain_client \<Rightarrow> swap_providers \<Rightarrow> dex_swap_row \<Rightarrow> nat \<Rightarrow> db \<Rightarrow> (string + unit) \<times> db" where
  "broadcast_contract_call C P row onchain s =
     (case dx_payload row of
        None \<Rightarrow> (Inl ''missing swap_payload for contractCall'', s)
      | Some payload \<Rightarrow>
          (case parse_contract_call_tx payload of
             None \<Rightarrow> (Inl ''swap_payload missing EVM tx for contractCall'', s)
           | Some call \<Rightarrow>
               if dx_from_coin row = Pol \<and> 0 < cc_value_wei call \<and> value_mismatch (cc_value_wei call) onchain
               then fail_and_refund (dx_id row)
                 (''contractCall value mismatch: quote='' @ show_nat (cc_value_wei call) @ '' expected='' @ show_nat onchain)
                 (''contractCall value mismatch '' @ [CHR 0xE2, CHR 0x80, CHR 0x94] @ '' refunded'')
                 ''contractCall value mismatch'' s
               else settle_deposit (dx_id row) (dx_from_coin row)
                 (\<lambda>hash s1. if is_relay_row row \<and> relay_is_bridge payload
                    then snd (try_credit_relay P (dx_id row) s1)
                    else track_or_receipt P (dx_id row) hash s1)
                 (send_contract_call C (dx_from_coin row) (evm_call_of (dx_from_coin row) onchain payload call)) s))"

definition broadcast_solana ::
    "chain_client \<Rightarrow> swap_providers \<Rightarrow> dex_swap_row \<Rightarrow> db \<Rightarrow> (string + unit) \<times> db" where
  "broadcast_solana C P row s =
     (case dx_payload row of
        None \<Rightarrow> (Inl ''missing swap_payload for solanaRelay'', s)
      | Some payload \<Rightarrow>
          (case json_get ''solanaTx'' payload of
             None \<Rightarrow> (Inl ''swap_payload missing solanaTx'', s)
           | Some tx \<Rightarrow> settle_deposit (dx_id row) (dx_from_coin row)
               (\<lambda>_ s1. snd (try_credit_relay P (dx_id row) s1)) (send_solana_tx C (dx_from_coin row) tx) s))"

definition broadcast_transfer ::
    "chain_client \<Rightarrow> swap_providers \<Rightarrow> dex_swap_row \<Rightarrow> string \<Rightarrow> nat \<Rightarrow> db \<Rightarrow> (string + unit) \<times> db" where
  "broadcast_transfer C P row hint onchain s =
     (let deposit = (case dx_deposit_address row of None \<Rightarrow> [] | Some a \<Rightarrow> a) in
      if deposit = [] then (Inl ''missing deposit address'', s)
      else if (case dx_inbound_memo row of None \<Rightarrow> False | Some m \<Rightarrow> m \<noteq> []) \<and> hint = ''transferWithMemo''
      then fail_and_refund (dx_id row) ''transferWithMemo not yet supported by hot wallet''
        (''memo transfer unsupported '' @ [CHR 0xE2, CHR 0x80, CHR 0x94] @ '' refunded'') ''transferWithMemo not supported'' s
      else settle_deposit (dx_id row) (dx_from_coin row)
        (\<lambda>_ s1. if is_changenow_row row then snd (try_credit_changenow P (dx_id row) s1)
           else snd (try_track_and_credit P (dx_id row) s1))
        (send_coins C (dx_from_coin row) deposit onchain) s)"

definition dex_process_broadcast ::
    "chain_client \<Rightarrow> swap_providers \<Rightarrow> uuid \<Rightarrow> db \<Rightarrow> (string + unit) \<times> db" where
  "dex_process_broadcast C P sid s =
     (case find_dex s sid of
        None \<Rightarrow> (Inl ''dex swap not found'', s)
      | Some row \<Rightarrow>
          if dx_status row \<in> {DxCompleted, DxRefunded, DxInFlight, DxCrediting} then (Inr (), s)
          else (case dec_to_u128 (dx_from_amount row) of
             None \<Rightarrow> (Inl ''bad from_amount'', s)
           | Some from_amount \<Rightarrow>
               let onchain = to_onchain_amount (dx_from_coin row) from_amount;
                   hint = (case dx_tx_hint row of None \<Rightarrow> ''simpleTransfer'' | Some h \<Rightarrow> h) in
               if hint = ''solanaRelay'' then broadcast_solana C P row s
               else if hint = ''contractCall'' then broadcast_contract_call C P row onchain s
               else broadcast_transfer C P row hint onchain s))"

definition dex_work ::
    "(Job \<Rightarrow> chain_client) \<Rightarrow> (Job \<Rightarrow> swap_providers) \<Rightarrow> (string \<Rightarrow> string + uuid) \<Rightarrow> Job \<Rightarrow> db \<Rightarrow> string option \<times> db" where
  "dex_work C P parse job s =
     (case parse (job_payload job) of
        Inl m \<Rightarrow> (Some (''malformed job payload: '' @ m), s)
      | Inr sid \<Rightarrow>
          (case dex_process_broadcast (C job) (P job) sid s of
             (Inr _, s1) \<Rightarrow> (None, s1)
           | (Inl e, s1) \<Rightarrow> (Some e, s1)))"

definition drain_dex_queue ::
    "(Job \<Rightarrow> chain_client) \<Rightarrow> (Job \<Rightarrow> swap_providers) \<Rightarrow> (string \<Rightarrow> string + uuid) \<Rightarrow> (Job \<Rightarrow> nat) \<Rightarrow>
     uuid set \<Rightarrow> string \<Rightarrow> db \<Rightarrow> db option" where
  "drain_dex_queue C P parse elapse skip who = drain (dex_work C P parse) elapse skip ''dex_swap_broadcast'' who"

section \<open>Tracking\<close>

definition dex_job_payload :: "uuid \<Rightarrow> string" where
  "dex_job_payload sid = json_object [(''dexSwapId'', json_text (show_uuid sid))]"

definition dex_timed_out :: "dex_swap_row \<Rightarrow> int \<Rightarrow> bool" where
  "dex_timed_out row t =
     (case dx_eta_seconds row of None \<Rightarrow> False
      | Some eta \<Rightarrow> max eta 600 * 2 < (t - dx_updated_at row) div 1000000)"

definition track_row :: "swap_providers \<Rightarrow> dex_swap_row \<Rightarrow> db \<Rightarrow> db" where
  "track_row P row s =
     (if dx_status row = DxInFlight \<or> dx_status row = DxCrediting then
        (if is_changenow_row row then snd (try_credit_changenow P (dx_id row) s)
         else if is_relay_row row then snd (try_credit_relay P (dx_id row) s)
         else snd (try_track_and_credit P (dx_id row) s))
      else if dx_status row = DxLocked \<or> dx_status row = DxBroadcasting then
        (if dx_inbound_tx row = None
         then snd (enqueue ''dex_swap_broadcast'' (dex_job_payload (dx_id row)) s) else s)
      else if dx_status row = DxFailed then
        snd (refund (dx_id row) (case dx_error row of None \<Rightarrow> ''failed'' | Some e \<Rightarrow> e) s)
      else s)"

fun track_rows :: "swap_providers \<Rightarrow> dex_swap_row list \<Rightarrow> db \<Rightarrow> uuid list \<times> db" where
  "track_rows P [] s = ([], s)"
| "track_rows P (row # rows) s =
     (let s1 = track_row P row s;
          late = (if (dx_status row = DxInFlight \<or> dx_status row = DxCrediting) \<and> dex_timed_out row (clock s1)
                  then [dx_id row] else []);
          (rest, s2) = track_rows P rows s1
      in (late @ rest, s2))"

definition track_inflight :: "swap_providers \<Rightarrow> db \<Rightarrow> uuid list \<times> db" where
  "track_inflight P s = track_rows P (list_active_dex s 50) s"

end
