(* ===== verification/DexFlow.thy ===== *)
theory DexFlow
  imports DexRunner
begin

text \<open>
  What provider-backed swaps promise. \<open>dex_step\<close> is any operation of \<open>DexSwap\<close>, or any change another part of the
  platform makes; \<open>dex_ok\<close> ties every swap to the entries of the ledger that carry its id, and every
  run keeps it. The two tasks of the worker are runs, whatever the chain and the providers answer, and runs of
  \<open>worker_step\<close>: the operations of the worker, each with the answer of a provider or of the chain that allows it.
\<close>

section \<open>A swap and its entries\<close>

definition of_swap :: "uuid \<Rightarrow> ledger_type \<Rightarrow> ledger_row \<Rightarrow> bool" where
  "of_swap sid ty e \<longleftrightarrow> le_type e = ty \<and> le_reference_id e = Some sid \<and> le_reference_type e = Some ''DexSwap''"

definition moved :: "db \<Rightarrow> uuid \<Rightarrow> ledger_type \<Rightarrow> (uuid \<times> int) list" where
  "moved s sid ty = map (\<lambda>e. (le_wallet e, le_amount e)) (filter (of_swap sid ty) (ledger s))"

text \<open>
  The source amount left the user's wallet once. A completed swap paid its amount into the user's wallet of the target
  coin, once, and a refunded one paid the source amount back, once; no other swap paid anything.
\<close>

definition swap_row_ok :: "db \<Rightarrow> dex_swap_row \<Rightarrow> bool" where
  "swap_row_ok s r \<longleftrightarrow>
     (\<exists>w v. wallet_id_of s (dx_user r) (dx_from_coin r) PERSONAL = Some w \<and>
        wallet_id_of s (dx_user r) (dx_to_coin r) PERSONAL = Some v \<and>
        moved s (dx_id r) DEX_SWAP_OUT = [(w, - dx_from_amount r)] \<and>
        moved s (dx_id r) DEX_SWAP_REFUND = (if dx_status r = DxRefunded then [(w, dx_from_amount r)] else []) \<and>
        (if dx_status r = DxCompleted then \<exists>a\<ge>0. dx_actual_to_amount r = Some a \<and> moved s (dx_id r) DEX_SWAP_IN = [(v, a)]
         else moved s (dx_id r) DEX_SWAP_IN = []))"

definition dex_ok :: "db \<Rightarrow> bool" where
  "dex_ok s \<longleftrightarrow> distinct (map dx_id (dex_swaps s)) \<and>
     (\<forall>r\<in>set (dex_swaps s). dx_id r < next_id s \<and> swap_row_ok s r) \<and>
     (\<forall>e\<in>set (ledger s). le_reference_type e = Some ''DexSwap'' \<longrightarrow> (\<exists>i<next_id s. le_reference_id e = Some i))"

lemma of_swap_entry [simp]:
  "of_swap sid ty (entry_of i e t) \<longleftrightarrow>
     in_type i = ty \<and> in_reference_id i = Some sid \<and> in_reference_type i = Some ''DexSwap''"
  by (simp add: of_swap_def)

lemma moved_append:
  "ledger t = ledger s @ [entry_of i e c] \<Longrightarrow> moved t sid ty = moved s sid ty @
     (if of_swap sid ty (entry_of i e c) then [(in_wallet_id i, in_amount i)] else [])"
  by (simp add: moved_def)

lemma moved_cong: "ledger t = ledger s \<Longrightarrow> moved t sid ty = moved s sid ty"
  by (simp add: moved_def)

lemma dex_frames [simp]:
  "dex_swaps (post_entry i s) = dex_swaps s" "dex_swaps (release_locks s) = dex_swaps s"
  "ledger (release_locks s) = ledger s" "next_id (release_locks s) = next_id s"
  "wallets (release_locks s) = wallets s" "clock (release_locks s) = clock s"
  by (simp_all add: post_entry_def release_locks_def)

lemma set_dex_frames [simp]:
  "ledger (set_dex i st f s) = ledger s" "next_id (set_dex i st f s) = next_id s"
  "wallets (set_dex i st f s) = wallets s" "clock (set_dex i st f s) = clock s"
  "row_locks (set_dex i st f s) = row_locks s"
  "wallet_id_of (set_dex i st f s) u c k = wallet_id_of s u c k"
  "dex_swaps (set_dex i st f s) = update_where (\<lambda>r. dx_id r = i \<and> dx_status r \<in> st) f (dex_swaps s)"
  by (simp_all add: set_dex_def wallet_id_of_def)

lemma dex_ok_rows:
  "dex_ok s \<Longrightarrow> r \<in> set (dex_swaps s) \<Longrightarrow> dx_id r < next_id s \<and> swap_row_ok s r"
  by (simp add: dex_ok_def)

text \<open>What a state must share with another for the same rows to be in order in both.\<close>

lemma swap_row_ok_cong:
  assumes "\<And>ty. moved t (dx_id r) ty = moved s (dx_id r) ty"
    and "\<And>c w. wallet_id_of s (dx_user r) c PERSONAL = Some w \<Longrightarrow> wallet_id_of t (dx_user r) c PERSONAL = Some w"
    and "swap_row_ok s r"
  shows "swap_row_ok t r"
  using assms(3) unfolding swap_row_ok_def assms(1) by (elim exE conjE) (blast intro: assms(2))

section \<open>Steps\<close>

text \<open>Anything else the platform does: it leaves the swaps and their entries alone, and removes no wallet.\<close>

definition beside_dex :: "db \<Rightarrow> db \<Rightarrow> bool" where
  "beside_dex s s' \<longleftrightarrow> dex_swaps s' = dex_swaps s \<and> next_id s \<le> next_id s' \<and>
     filter (\<lambda>e. le_reference_type e = Some ''DexSwap'') (ledger s') =
       filter (\<lambda>e. le_reference_type e = Some ''DexSwap'') (ledger s) \<and>
     (\<forall>u c k w. wallet_id_of s u c k = Some w \<longrightarrow> wallet_id_of s' u c k = Some w)"

inductive dex_step :: "db \<Rightarrow> db \<Rightarrow> bool" where
  lock: "lock_tx i w s = Inr (sid, s') \<Longrightarrow> wallet_id_of s (lx_user i) (lx_from_coin i) PERSONAL = Some w \<Longrightarrow>
    wallet_id_of s (lx_user i) (lx_to_coin i) PERSONAL \<noteq> None \<Longrightarrow> dex_step s (release_locks s')"
| broadcasting: "dex_step s (snd (mark_broadcasting sid addr memo payload s))"
| in_flight: "dex_step s (snd (mark_in_flight sid h s))"
| credit: "dex_step s (snd (credit_and_complete sid amount h s))"
| fail: "dex_step s (mark_failed sid m s)"
| refunding: "dex_step s (snd (refund sid m s))"
| beside: "beside_dex s s' \<Longrightarrow> dex_step s s'"

lemma dex_ok_beside:
  assumes "beside_dex s s'" and "dex_ok s"
  shows "dex_ok s'"
proof -
  let ?p = "\<lambda>e. le_reference_type e = Some ''DexSwap''"
  have rows: "dex_swaps s' = dex_swaps s" and le: "next_id s \<le> next_id s'"
    and es: "filter ?p (ledger s') = filter ?p (ledger s)"
    and w: "wallet_id_of s u c k = Some x \<Longrightarrow> wallet_id_of s' u c k = Some x" for u c k x
    using assms(1) by (simp_all add: beside_dex_def)
  have flt: "filter (of_swap sid ty) (ledger t) = filter (of_swap sid ty) (filter ?p (ledger t))" for t sid ty
    unfolding filter_filter by (rule filter_cong) (auto simp: of_swap_def)
  have m: "moved s' sid ty = moved s sid ty" for sid ty by (simp only: moved_def flt es)
  have "\<exists>i<next_id s'. le_reference_id e = Some i" if "e \<in> set (ledger s')" "?p e" for e
  proof -
    have "e \<in> set (filter ?p (ledger s))" using that by (simp only: es [symmetric] set_filter mem_Collect_eq)
    then have "\<exists>i<next_id s. le_reference_id e = Some i" using assms(2) by (auto simp: dex_ok_def)
    then show ?thesis using le by (meson order_less_le_trans)
  qed
  moreover have "dx_id r < next_id s' \<and> swap_row_ok s' r" if "r \<in> set (dex_swaps s)" for r
    using dex_ok_rows [OF assms(2) that] le swap_row_ok_cong [of s' r s, OF m w] by simp
  ultimately show ?thesis using assms(2) by (simp add: dex_ok_def rows)
qed

text \<open>A change of a row that is neither final nor made final, and of no money.\<close>

definition open_change :: "dex_status set \<Rightarrow> (dex_swap_row \<Rightarrow> dex_swap_row) \<Rightarrow> bool" where
  "open_change sts f \<longleftrightarrow> DxCompleted \<notin> sts \<and> DxRefunded \<notin> sts \<and>
     (\<forall>r. dx_id (f r) = dx_id r \<and> dx_user (f r) = dx_user r \<and> dx_from_coin (f r) = dx_from_coin r \<and>
        dx_to_coin (f r) = dx_to_coin r \<and> dx_from_amount (f r) = dx_from_amount r \<and>
        dx_status (f r) \<noteq> DxCompleted \<and> dx_status (f r) \<noteq> DxRefunded)"

lemma dex_ok_open:
  assumes "open_change sts f" and "dex_ok s"
  shows "dex_ok (set_dex sid sts f s)"
proof -
  let ?t = "set_dex sid sts f s"
  have f: "dx_id (f r) = dx_id r" "dx_user (f r) = dx_user r" "dx_from_coin (f r) = dx_from_coin r"
    "dx_to_coin (f r) = dx_to_coin r" "dx_from_amount (f r) = dx_from_amount r"
    "dx_status (f r) \<noteq> DxCompleted" "dx_status (f r) \<noteq> DxRefunded" for r
    using assms(1) by (simp_all add: open_change_def)
  have sts: "DxCompleted \<notin> sts" "DxRefunded \<notin> sts" using assms(1) by (simp_all add: open_change_def)
  have "map dx_id (dex_swaps ?t) = map dx_id (dex_swaps s)" unfolding set_dex_frames by (rule map_update_where) (rule f)
  then have d: "distinct (map dx_id (dex_swaps ?t))" using assms(2) by (simp add: dex_ok_def)
  have m: "moved ?t i ty = moved s i ty" for i ty by (rule moved_cong) simp
  have row: "dx_id r < next_id ?t \<and> swap_row_ok ?t r" if "r \<in> set (dex_swaps ?t)" for r
  proof -
    from that obtain q where q: "q \<in> set (dex_swaps s)"
      and r: "r = (if dx_id q = sid \<and> dx_status q \<in> sts then f q else q)"
      unfolding set_dex_frames in_set_update_where by blast
    note ok = dex_ok_rows [OF assms(2) q]
    have q': "swap_row_ok ?t q" by (rule swap_row_ok_cong [OF m]) (use ok in simp_all)
    show ?thesis
    proof (cases "dx_id q = sid \<and> dx_status q \<in> sts")
      case True
      then have "dx_status q \<noteq> DxCompleted" "dx_status q \<noteq> DxRefunded" using sts by metis+
      with q' have "swap_row_ok ?t (f q)" by (simp add: swap_row_ok_def f)
      with True ok show ?thesis by (simp add: r f)
    next
      case False
      then have "r = q" by (simp only: r if_False)
      with ok q' show ?thesis by simp
    qed
  qed
  show ?thesis using d row assms(2) unfolding dex_ok_def by simp
qed

lemma dex_ok_locks:
  assumes "dex_swaps t = dex_swaps s" "ledger t = ledger s" "next_id t = next_id s" "wallets t = wallets s"
  shows "dex_ok t = dex_ok s"
proof -
  have "swap_row_ok t r = swap_row_ok s r" for r
    unfolding swap_row_ok_def using assms moved_cong [OF assms(2)] by (simp add: wallet_id_of_cong [OF assms(4)])
  then show ?thesis using assms by (simp add: dex_ok_def)
qed

text \<open>
  A transaction that changes one row and posts one entry of that swap: the other rows are untouched.
\<close>

lemma dex_ok_settled:
  assumes "dex_ok s" and "find_dex s sid = Some q"
    and rows: "dex_swaps t = update_where (\<lambda>r. dx_id r = sid) g (dex_swaps s)"
    and entry: "ledger t = ledger s @ [entry_of i e c]" "in_reference_id i = Some sid" "in_reference_type i = Some ''DexSwap''"
    and frame: "next_id t = Suc (next_id s)" "wallets t = wallets s"
    and core: "\<And>r. dx_id (g r) = dx_id r" and ok: "swap_row_ok t (g q)"
  shows "dex_ok t"
proof -
  have q: "dx_id q = sid" "q \<in> set (dex_swaps s)" using assms(2) by (auto simp: find_dex_def dest: find_Some_props)
  have d: "distinct (map dx_id (dex_swaps s))" using assms(1) by (simp add: dex_ok_def)
  have only: "r = q" if "r \<in> set (dex_swaps s)" "dx_id r = sid" for r
    using that q d by (simp add: distinct_map inj_on_def)
  have "map dx_id (dex_swaps t) = map dx_id (dex_swaps s)" unfolding rows by (rule map_update_where) (rule core)
  then have "distinct (map dx_id (dex_swaps t))" using d by simp
  moreover have "dx_id r < next_id t \<and> swap_row_ok t r" if "r \<in> set (dex_swaps t)" for r
  proof -
    from that obtain p where p: "p \<in> set (dex_swaps s)" and r: "r = (if dx_id p = sid then g p else p)"
      unfolding rows in_set_update_where by blast
    note okp = dex_ok_rows [OF assms(1) p]
    show ?thesis
    proof (cases "dx_id p = sid")
      case True
      with only [OF p] ok okp q show ?thesis by (simp add: r core frame)
    next
      case False
      have "swap_row_ok t p"
      proof (rule swap_row_ok_cong)
        show "moved t (dx_id p) ty = moved s (dx_id p) ty" for ty
          using False entry(2) by (simp add: moved_append [OF entry(1)])
        show "wallet_id_of t (dx_user p) k PERSONAL = Some w" if "wallet_id_of s (dx_user p) k PERSONAL = Some w" for k w
          using that by (simp add: wallet_id_of_cong [OF frame(2)])
      qed (use okp in simp)
      with False okp show ?thesis by (simp add: r frame)
    qed
  qed
  moreover have "\<exists>j<next_id t. le_reference_id x = Some j" if "x \<in> set (ledger t)" "le_reference_type x = Some ''DexSwap''" for x
  proof (cases "x \<in> set (ledger s)")
    case True
    then have "\<exists>j<next_id s. le_reference_id x = Some j" using assms(1) that(2) by (simp add: dex_ok_def)
    then show ?thesis using frame(1) less_SucI by auto
  next
    case False
    then have "le_reference_id x = Some sid" using that(1) entry by simp
    moreover have "sid < next_id s" using dex_ok_rows [OF assms(1) q(2)] q(1) by simp
    ultimately show ?thesis using frame(1) by simp
  qed
  ultimately show ?thesis by (simp add: dex_ok_def)
qed

section \<open>Successful transactions\<close>

lemma find_dex_Some: "find_dex s sid = Some q \<Longrightarrow> dx_id q = sid \<and> q \<in> set (dex_swaps s)"
  unfolding find_dex_def by (drule find_Some_props) simp

lemma update_where_UNIV:
  "(\<And>r. dx_id (f r) = dx_id r) \<Longrightarrow>
   update_where (\<lambda>r. dx_id r = i \<and> dx_status r \<in> UNIV) g (update_where (\<lambda>r. dx_id r = i \<and> dx_status r \<in> UNIV) f rows) =
     update_where (\<lambda>r. dx_id r = i) (\<lambda>r. g (f r)) rows"
  by (simp add: update_where_def)

definition credited_row :: "nat \<Rightarrow> string option \<Rightarrow> int \<Rightarrow> dex_swap_row \<Rightarrow> dex_swap_row" where
  "credited_row amount outbound t r = r\<lparr>dx_status := DxCompleted, dx_actual_to_amount := Some (int amount),
     dx_outbound_tx := (case outbound of None \<Rightarrow> dx_outbound_tx r | Some h \<Rightarrow> Some h),
     dx_completed_at := Some t, dx_updated_at := t, dx_error := None\<rparr>"

definition refunded_row :: "string \<Rightarrow> int \<Rightarrow> dex_swap_row \<Rightarrow> dex_swap_row" where
  "refunded_row reason t r = r\<lparr>dx_status := DxRefunded, dx_error := Some reason, dx_completed_at := Some t, dx_updated_at := t\<rparr>"

lemma wallet_id_of_locks [simp]: "wallet_id_of (s\<lparr>row_locks := l\<rparr>) u c k = wallet_id_of s u c k"
  by (simp add: wallet_id_of_def)

lemma settle_rows:
  assumes "\<And>r. dx_id (f r) = dx_id r" and "\<And>r. g (f r) = h r"
  shows "dex_swaps (set_dex i UNIV g (post_entry p ((set_dex i UNIV f s)\<lparr>row_locks := l\<rparr>))) =
    update_where (\<lambda>r. dx_id r = i) h (dex_swaps s)"
  using assms by (simp add: update_where_def)

lemma lock_wallets_only_locks:
  assumes "lock_wallets ws s = Inr (u, t)"
  obtains l where "t = s\<lparr>row_locks := l\<rparr>"
  using assms by (simp only: lock_wallets_Inr)

lemma pay_out_Inr:
  assumes "pay_out q amount outbound s = Inr (u, t)"
  obtains w where "wallet_id_of s (dx_user q) (dx_to_coin q) PERSONAL = Some w"
    "ledger t = ledger s @ [entry_of (dex_credit w amount (dx_id q)) (next_id s) (clock s)]"
    "dex_swaps t = update_where (\<lambda>r. dx_id r = dx_id q) (credited_row amount outbound (clock s)) (dex_swaps s)"
    "next_id t = Suc (next_id s)" "wallets t = wallets s" "clock t = clock s"
proof -
  let ?s = "set_dex (dx_id q) UNIV (\<lambda>r. r\<lparr>dx_status := DxCrediting, dx_updated_at := clock s\<rparr>) s"
  obtain w s1 where w: "wallet_id_of s (dx_user q) (dx_to_coin q) PERSONAL = Some w"
    and lk: "lock_wallets [w] ?s = Inr ((), s1)"
    and t: "t = set_dex (dx_id q) UNIV (\<lambda>r. r\<lparr>dx_status := DxCompleted, dx_actual_to_amount := Some (int amount),
        dx_outbound_tx := (case outbound of None \<Rightarrow> dx_outbound_tx r | Some h \<Rightarrow> Some h),
        dx_completed_at := Some (clock s1), dx_updated_at := clock s1, dx_error := None\<rparr>)
      (post_entry (dex_credit w amount (dx_id q)) s1)"
    by (atomize_elim, insert assms, simp add: pay_out_def tx_simps del: lock_wallets_Inr, elim exE conjE, intro exI conjI, assumption+)
  from lk obtain l where s1: "s1 = ?s\<lparr>row_locks := l\<rparr>" by (rule lock_wallets_only_locks)
  have "dex_swaps t = update_where (\<lambda>r. dx_id r = dx_id q) (credited_row amount outbound (clock s)) (dex_swaps s)"
    unfolding t s1 by (rule settle_rows) (simp_all add: credited_row_def split: option.split)
  moreover have "ledger t = ledger s @ [entry_of (dex_credit w amount (dx_id q)) (next_id s) (clock s)]"
    "next_id t = Suc (next_id s)" "wallets t = wallets s" "clock t = clock s"
    unfolding t s1 by simp_all
  ultimately show thesis using w by (intro that)
qed

lemma pay_back_Inr:
  assumes "pay_back q reason s = Inr (u, t)"
  obtains w where "wallet_id_of s (dx_user q) (dx_from_coin q) PERSONAL = Some w"
    "ledger t = ledger s @ [entry_of (dex_refund w (dx_from_amount q) (dx_id q) reason) (next_id s) (clock s)]"
    "dex_swaps t = update_where (\<lambda>r. dx_id r = dx_id q) (refunded_row reason (clock s)) (dex_swaps s)"
    "next_id t = Suc (next_id s)" "wallets t = wallets s" "clock t = clock s"
proof -
  let ?s = "set_dex (dx_id q) UNIV (\<lambda>r. r\<lparr>dx_status := DxRefunding, dx_error := Some reason, dx_updated_at := clock s\<rparr>) s"
  obtain w s1 where w: "wallet_id_of s (dx_user q) (dx_from_coin q) PERSONAL = Some w"
    and lk: "lock_wallets [w] ?s = Inr ((), s1)"
    and t: "t = set_dex (dx_id q) UNIV (\<lambda>r. r\<lparr>dx_status := DxRefunded, dx_completed_at := Some (clock s1), dx_updated_at := clock s1\<rparr>)
      (post_entry (dex_refund w (dx_from_amount q) (dx_id q) reason) s1)"
    by (atomize_elim, insert assms, simp add: pay_back_def tx_simps del: lock_wallets_Inr, elim exE conjE, intro exI conjI, assumption+)
  from lk obtain l where s1: "s1 = ?s\<lparr>row_locks := l\<rparr>" by (rule lock_wallets_only_locks)
  have "dex_swaps t = update_where (\<lambda>r. dx_id r = dx_id q) (refunded_row reason (clock s)) (dex_swaps s)"
    unfolding t s1 by (rule settle_rows) (simp_all add: refunded_row_def)
  moreover have "ledger t = ledger s @ [entry_of (dex_refund w (dx_from_amount q) (dx_id q) reason) (next_id s) (clock s)]"
    "next_id t = Suc (next_id s)" "wallets t = wallets s" "clock t = clock s"
    unfolding t s1 by simp_all
  ultimately show thesis using w by (intro that)
qed

section \<open>Every step keeps the swaps in order\<close>

lemma dex_inputs [simp]:
  "in_wallet_id (dex_credit w a i) = w" "in_amount (dex_credit w a i) = int a" "in_type (dex_credit w a i) = DEX_SWAP_IN"
  "in_reference_id (dex_credit w a i) = Some i" "in_reference_type (dex_credit w a i) = Some ''DexSwap''"
  "in_wallet_id (dex_refund w x i m) = w" "in_amount (dex_refund w x i m) = x" "in_type (dex_refund w x i m) = DEX_SWAP_REFUND"
  "in_reference_id (dex_refund w x i m) = Some i" "in_reference_type (dex_refund w x i m) = Some ''DexSwap''"
  "in_wallet_id (dex_out w x i c) = w" "in_amount (dex_out w x i c) = - x" "in_type (dex_out w x i c) = DEX_SWAP_OUT"
  "in_reference_id (dex_out w x i c) = Some i" "in_reference_type (dex_out w x i c) = Some ''DexSwap''"
  by (simp_all add: dex_credit_def dex_refund_def dex_out_def simple_input_def)

lemma settled_rows_sel [simp]:
  "dx_id (credited_row a h t r) = dx_id r" "dx_user (credited_row a h t r) = dx_user r"
  "dx_from_coin (credited_row a h t r) = dx_from_coin r" "dx_to_coin (credited_row a h t r) = dx_to_coin r"
  "dx_from_amount (credited_row a h t r) = dx_from_amount r" "dx_status (credited_row a h t r) = DxCompleted"
  "dx_actual_to_amount (credited_row a h t r) = Some (int a)"
  "dx_id (refunded_row m t r) = dx_id r" "dx_user (refunded_row m t r) = dx_user r"
  "dx_from_coin (refunded_row m t r) = dx_from_coin r" "dx_to_coin (refunded_row m t r) = dx_to_coin r"
  "dx_from_amount (refunded_row m t r) = dx_from_amount r" "dx_status (refunded_row m t r) = DxRefunded"
  by (simp_all add: credited_row_def refunded_row_def)

lemma pay_out_kept:
  assumes "dex_ok s" and "find_dex s sid = Some q" and "dx_status q \<noteq> DxCompleted" and "dx_status q \<noteq> DxRefunded"
    and "pay_out q amount h s = Inr (u, t)"
  shows "dex_ok t"
proof -
  have q: "dx_id q = sid" "q \<in> set (dex_swaps s)" using find_dex_Some [OF assms(2)] by simp_all
  obtain w where w: "wallet_id_of s (dx_user q) (dx_to_coin q) PERSONAL = Some w"
    and led: "ledger t = ledger s @ [entry_of (dex_credit w amount (dx_id q)) (next_id s) (clock s)]"
    and rows: "dex_swaps t = update_where (\<lambda>r. dx_id r = dx_id q) (credited_row amount h (clock s)) (dex_swaps s)"
    and fr: "next_id t = Suc (next_id s)" "wallets t = wallets s"
    using assms(5) by (rule pay_out_Inr)
  note m = moved_append [OF led]
  have "swap_row_ok s q" using dex_ok_rows [OF assms(1) q(2)] by simp
  then have "swap_row_ok t (credited_row amount h (clock s) q)"
    using w assms(3,4) by (simp add: swap_row_ok_def m wallet_id_of_cong [OF fr(2)])
  then show ?thesis
    by (rule dex_ok_settled [OF assms(1,2) rows [unfolded q(1)] led _ _ fr, rotated -1]) (simp_all add: q(1))
qed

lemma pay_back_kept:
  assumes "dex_ok s" and "find_dex s sid = Some q" and "dx_status q \<noteq> DxCompleted" and "dx_status q \<noteq> DxRefunded"
    and "pay_back q reason s = Inr (u, t)"
  shows "dex_ok t"
proof -
  have q: "dx_id q = sid" "q \<in> set (dex_swaps s)" using find_dex_Some [OF assms(2)] by simp_all
  obtain w where w: "wallet_id_of s (dx_user q) (dx_from_coin q) PERSONAL = Some w"
    and led: "ledger t = ledger s @ [entry_of (dex_refund w (dx_from_amount q) (dx_id q) reason) (next_id s) (clock s)]"
    and rows: "dex_swaps t = update_where (\<lambda>r. dx_id r = dx_id q) (refunded_row reason (clock s)) (dex_swaps s)"
    and fr: "next_id t = Suc (next_id s)" "wallets t = wallets s"
    using assms(5) by (rule pay_back_Inr)
  note m = moved_append [OF led]
  have "swap_row_ok s q" using dex_ok_rows [OF assms(1) q(2)] by simp
  then have "swap_row_ok t (refunded_row reason (clock s) q)"
    using w assms(3,4) by (simp add: swap_row_ok_def m wallet_id_of_cong [OF fr(2)])
  then show ?thesis
    by (rule dex_ok_settled [OF assms(1,2) rows [unfolded q(1)] led _ _ fr, rotated -1]) (simp_all add: q(1))
qed

lemma dex_ok_release [simp]: "dex_ok (release_locks s) = dex_ok s"
  by (rule dex_ok_locks) simp_all

lemma dex_ok_row_locks [simp]: "dex_ok (s\<lparr>row_locks := l\<rparr>) = dex_ok s"
  by (rule dex_ok_locks) simp_all

lemma find_dex_row_locks [simp]: "find_dex (s\<lparr>row_locks := l\<rparr>) i = find_dex s i"
  by (simp add: find_dex_def)

lemma credit_kept:
  assumes "dex_ok s"
  shows "dex_ok (snd (credit_and_complete sid amount h s))"
proof -
  have "dex_ok t" if run: "credit_tx sid amount h s = Inr (u, t)" for u t
  proof -
    obtain q where q: "find_dex s sid = Some q"
      using run by (cases "find_dex s sid") (simp_all add: credit_tx_def tx_simps)
    let ?s = "s\<lparr>row_locks := acquire (DexSwapLock sid) (row_locks s)\<rparr>"
    from run q have "t = ?s \<or> dx_status q \<noteq> DxCompleted \<and> dx_status q \<noteq> DxRefunded \<and> pay_out q amount h ?s = Inr (u, t)"
      by (auto simp: credit_tx_def tx_simps split: if_splits)
    then show ?thesis using pay_out_kept [of ?s sid q amount h u t] assms q by auto
  qed
  then show ?thesis using assms
    by (cases "credit_tx sid amount h s") (auto simp: credit_and_complete_def commit_tx_def)
qed

lemma refund_kept:
  assumes "dex_ok s"
  shows "dex_ok (snd (refund sid m s))"
proof -
  have "dex_ok t" if run: "refund_tx sid m s = Inr (u, t)" for u t
  proof -
    obtain q where q: "find_dex s sid = Some q"
      using run by (cases "find_dex s sid") (simp_all add: refund_tx_def tx_simps)
    let ?s = "s\<lparr>row_locks := acquire (DexSwapLock sid) (row_locks s)\<rparr>"
    from run q have "t = ?s \<or> dx_status q \<noteq> DxCompleted \<and> dx_status q \<noteq> DxRefunded \<and> pay_back q m ?s = Inr (u, t)"
      by (auto simp: refund_tx_def tx_simps split: if_splits)
    then show ?thesis using pay_back_kept [of ?s sid q m u t] assms q by auto
  qed
  then show ?thesis using assms
    by (cases "refund_tx sid m s") (auto simp: refund_def commit_tx_def)
qed

lemma mark_failed_kept: "dex_ok s \<Longrightarrow> dex_ok (mark_failed sid m s)"
  unfolding mark_failed_def by (rule dex_ok_open) (simp_all add: open_change_def)

lemma mark_broadcasting_kept: "dex_ok s \<Longrightarrow> dex_ok (snd (mark_broadcasting sid a m p s))"
  unfolding mark_broadcasting_def by (simp add: dex_ok_open open_change_def)

lemma mark_in_flight_kept: "dex_ok s \<Longrightarrow> dex_ok (snd (mark_in_flight sid h s))"
  unfolding mark_in_flight_def by (simp add: dex_ok_open open_change_def)

lemma insert_dex_swap_Inr:
  "insert_dex_swap r s = Inr (u, t) \<Longrightarrow>
     t = s\<lparr>dex_swaps := dex_swaps s @ [r]\<rparr> \<and> find_dex_by_key s (dx_idempotency_key r) = None"
  by (auto simp: insert_dex_swap_def tx_simps split: option.splits)

lemma lock_tx_Inr:
  assumes "lock_tx i w s = Inr (sid, t)"
  shows "sid = next_id s \<and> next_id t = Suc (Suc (next_id s)) \<and> wallets t = wallets s \<and>
    dex_swaps t = dex_swaps s @ [new_dex_swap i sid (clock s)] \<and>
    ledger t = ledger s @ [entry_of (dex_out w (int (lx_from_amount i)) sid (lx_to_coin i)) (Suc sid) (clock s)] \<and>
    find_dex_by_key s (scoped_key (lx_user i) (lx_idempotency_key i)) = None \<and> clock t = clock s \<and>
    (0 < lx_from_amount i \<longrightarrow> int (lx_from_amount i) \<le> wallet_balance s w)"
proof -
  obtain s1 s2 where lk: "lock_wallets [w] s = Inr ((), s1)" and sid: "sid = next_id s1"
    and ins: "insert_dex_swap (new_dex_swap i (next_id s1) (clock s1)) (s1\<lparr>next_id := Suc (next_id s1)\<rparr>) = Inr ((), s2)"
    and cp: "can_post (dex_out w (int (lx_from_amount i)) (next_id s1) (lx_to_coin i)) s2"
    and t: "t = post_entry (dex_out w (int (lx_from_amount i)) (next_id s1) (lx_to_coin i)) s2"
    by (atomize_elim, insert assms, simp add: lock_tx_def tx_simps del: lock_wallets_Inr, elim exE conjE, intro exI conjI, assumption+)
  from lk obtain l where s1: "s1 = s\<lparr>row_locks := l\<rparr>" by (rule lock_wallets_only_locks)
  from insert_dex_swap_Inr [OF ins]
  have s2: "s2 = s\<lparr>row_locks := l, next_id := Suc (next_id s), dex_swaps := dex_swaps s @ [new_dex_swap i (next_id s) (clock s)]\<rparr>"
    and key: "find_dex_by_key s (scoped_key (lx_user i) (lx_idempotency_key i)) = None"
    by (simp_all add: s1 find_dex_by_key_def new_dex_swap_def)
  have "wallet_balance s2 w = wallet_balance s w" by (rule wallet_balance_frame) (simp add: s2)
  with cp have "0 < lx_from_amount i \<longrightarrow> int (lx_from_amount i) \<le> wallet_balance s w" by (simp add: can_post_def)
  with key show ?thesis unfolding t sid s2 s1 by simp
qed

lemma new_dex_swap_sel [simp]:
  "dx_id (new_dex_swap i sid t) = sid" "dx_user (new_dex_swap i sid t) = lx_user i"
  "dx_from_coin (new_dex_swap i sid t) = lx_from_coin i" "dx_to_coin (new_dex_swap i sid t) = lx_to_coin i"
  "dx_from_amount (new_dex_swap i sid t) = int (lx_from_amount i)" "dx_status (new_dex_swap i sid t) = DxLocked"
  "dx_idempotency_key (new_dex_swap i sid t) = scoped_key (lx_user i) (lx_idempotency_key i)"
  "dx_expected_to_amount (new_dex_swap i sid t) = int (lx_expected_to_amount i)"
  by (simp_all add: new_dex_swap_def)

lemma no_entries_yet:
  assumes "dex_ok s" and "next_id s \<le> sid"
  shows "moved s sid ty = []"
proof -
  have "\<not> of_swap sid ty e" if "e \<in> set (ledger s)" for e
    using assms that by (auto simp: dex_ok_def of_swap_def)
  then show ?thesis by (simp add: moved_def filter_empty_conv)
qed

lemma lock_kept:
  assumes "dex_ok s" and run: "lock_tx i w s = Inr (sid, t)"
    and w: "wallet_id_of s (lx_user i) (lx_from_coin i) PERSONAL = Some w"
    and v: "wallet_id_of s (lx_user i) (lx_to_coin i) PERSONAL \<noteq> None"
  shows "dex_ok t"
proof -
  let ?r = "new_dex_swap i sid (clock s)"
  from lock_tx_Inr [OF run] have sid: "sid = next_id s" and nid: "next_id t = Suc (Suc (next_id s))" and wl: "wallets t = wallets s"
    and rows: "dex_swaps t = dex_swaps s @ [?r]"
    and led: "ledger t = ledger s @ [entry_of (dex_out w (int (lx_from_amount i)) sid (lx_to_coin i)) (Suc sid) (clock s)]"
    by simp_all
  note m = moved_append [OF led] and wid = wallet_id_of_cong [OF wl]
  obtain x where x: "wallet_id_of s (lx_user i) (lx_to_coin i) PERSONAL = Some x" using v by blast
  have new: "swap_row_ok t ?r"
    using w x no_entries_yet [OF assms(1), of sid] by (simp add: swap_row_ok_def m wid sid)
  have old: "swap_row_ok t r" "dx_id r < next_id t" "dx_id r \<noteq> sid" if r: "r \<in> set (dex_swaps s)" for r
  proof -
    note ok = dex_ok_rows [OF assms(1) r]
    then show "dx_id r < next_id t" and ne: "dx_id r \<noteq> sid" by (simp_all add: nid sid)
    show "swap_row_ok t r" by (rule swap_row_ok_cong [of t r s]) (use ok ne in \<open>simp_all add: m wid\<close>)
  qed
  have "distinct (map dx_id (dex_swaps t))" using assms(1) old(3) by (auto simp: rows dex_ok_def)
  moreover have "dx_id r < next_id t \<and> swap_row_ok t r" if "r \<in> set (dex_swaps t)" for r
    using that new old by (auto simp: rows nid sid)
  moreover have "\<exists>j<next_id t. le_reference_id e = Some j" if "e \<in> set (ledger t)" "le_reference_type e = Some ''DexSwap''" for e
  proof (cases "e \<in> set (ledger s)")
    case True
    then have "\<exists>j<next_id s. le_reference_id e = Some j" using assms(1) that(2) by (simp add: dex_ok_def)
    then show ?thesis unfolding nid by (meson less_SucI)
  next
    case False
    then show ?thesis using that(1) by (simp add: led nid sid)
  qed
  ultimately show ?thesis by (simp add: dex_ok_def)
qed

lemma dex_step_kept: "dex_step s s' \<Longrightarrow> dex_ok s \<Longrightarrow> dex_ok s'"
proof (induction rule: dex_step.induct)
  case (lock i w s sid s')
  then show ?case using lock_kept [of s i w sid s'] by simp
next
  case (beside s s')
  then show ?case by (rule dex_ok_beside)
qed (rule mark_broadcasting_kept mark_in_flight_kept credit_kept mark_failed_kept refund_kept; assumption)+

lemma dex_run_kept: "dex_step\<^sup>*\<^sup>* s s' \<Longrightarrow> dex_ok s \<Longrightarrow> dex_ok s'"
  by (induction rule: rtranclp_induct) (simp_all add: dex_step_kept)

section \<open>The worker's tasks are runs\<close>

lemma beside_refl [simp]: "beside_dex s s"
  by (simp add: beside_dex_def)

lemma beside_frame:
  assumes "dex_swaps t = dex_swaps s" "ledger t = ledger s" "wallets t = wallets s" "next_id s \<le> next_id t"
  shows "beside_dex s t"
  using assms by (simp add: beside_dex_def wallet_id_of_cong [OF assms(3)])

lemma dex_run_step: "dex_step s t \<Longrightarrow> dex_step\<^sup>*\<^sup>* s t"
  by (rule r_into_rtranclp)

lemma fee_dex_swaps [simp]: "dex_swaps (snd (record_network_fee i s)) = dex_swaps s"
proof (cases "record_network_fee_tx i s")
  case (Inr p)
  obtain b t where p: "p = (b, t)" by (cases p)
  with Inr have "dex_swaps t = dex_swaps s" by (auto simp: record_network_fee_tx_Inr split: if_splits)
  with Inr p show ?thesis by (simp add: record_network_fee_def commit_tx_def)
qed (simp add: record_network_fee_def commit_tx_def)

lemma fee_run: "dex_step\<^sup>*\<^sup>* s (snd (record_network_fee i s))"
  by (intro dex_run_step beside beside_frame) simp_all

lemma as_text_state [simp]: "snd (as_text res) = snd res"
  by (cases res; cases "fst res") (auto simp: as_text_def)

text \<open>Everything the worker does to the database is one of five effects: what they keep, it keeps.\<close>

locale dex_worker =
  fixes I :: "db \<Rightarrow> bool"
  assumes crediting: "I s \<Longrightarrow> I (snd (credit_and_complete sid amount h s))"
    and failing: "I s \<Longrightarrow> I (mark_failed sid m s)"
    and giving_back: "I s \<Longrightarrow> I (snd (refund sid m s))"
    and flying: "I s \<Longrightarrow> I (snd (mark_in_flight sid hash s))"
    and fee_log: "I s \<Longrightarrow> I (snd (record_network_fee f s))"
begin

lemma kept_changenow: "I s \<Longrightarrow> I (snd (try_credit_changenow P sid s))"
  by (auto simp: try_credit_changenow_def intro: failing crediting split: option.splits sum.splits)

lemma kept_receipt: "I s \<Longrightarrow> I (snd (credit_same_chain_after_receipt sid h s))"
  by (auto simp: credit_same_chain_after_receipt_def intro: crediting split: option.splits)

lemma kept_relay: "I s \<Longrightarrow> I (snd (try_credit_relay P sid s))"
  by (auto simp: try_credit_relay_def intro: failing crediting kept_receipt split: option.splits sum.splits)

lemma kept_tracking: "I s \<Longrightarrow> I (snd (try_track_and_credit P sid s))"
  by (auto simp: try_track_and_credit_def intro: failing crediting split: option.splits sum.splits)

lemma kept_track_or_receipt:
  assumes "I s"
  shows "I (track_or_receipt P sid h s)"
proof (cases "try_track_and_credit P sid s")
  case (Pair r t)
  then show ?thesis using kept_tracking [OF assms, of P sid] kept_receipt [of t sid h]
    by (cases r) (simp_all add: track_or_receipt_def)
qed

lemma kept_broadcast_failed: "I s \<Longrightarrow> I (snd (broadcast_failed sid e s))"
  by (simp add: broadcast_failed_def failing giving_back)

lemma kept_fail_and_refund: "I s \<Longrightarrow> I (snd (fail_and_refund sid e m a s))"
  by (simp add: fail_and_refund_def failing giving_back)

lemma kept_settle_deposit:
  assumes "\<And>h s. I s \<Longrightarrow> I (credit h s)" and "I s"
  shows "I (snd (settle_deposit sid coin credit answer s))"
proof (cases answer)
  case (Inl e)
  then show ?thesis by (simp add: settle_deposit_def kept_broadcast_failed assms(2))
next
  case (Inr b)
  obtain r t where m: "mark_in_flight sid (br_tx_hash b) s = (r, t)" by (cases "mark_in_flight sid (br_tx_hash b) s")
  then have "I t" using flying [OF assms(2), of sid "br_tx_hash b"] by simp
  with m Inr show ?thesis by (cases r) (simp_all add: settle_deposit_def assms(1) fee_log)
qed

lemma kept_solana: "I s \<Longrightarrow> I (snd (broadcast_solana C P row s))"
  by (auto simp: broadcast_solana_def intro!: kept_settle_deposit kept_relay split: option.split)

lemma kept_contract_call: "I s \<Longrightarrow> I (snd (broadcast_contract_call C P row n s))"
  by (auto simp: broadcast_contract_call_def intro!: kept_settle_deposit kept_relay kept_track_or_receipt kept_fail_and_refund
      split: option.split)

lemma kept_transfer: "I s \<Longrightarrow> I (snd (broadcast_transfer C P row h n s))"
  by (auto simp: broadcast_transfer_def Let_def intro!: kept_settle_deposit kept_changenow kept_tracking kept_fail_and_refund)

lemma kept_broadcast: "I s \<Longrightarrow> I (snd (dex_process_broadcast C P sid s))"
  by (auto simp: dex_process_broadcast_def Let_def intro: kept_solana kept_contract_call kept_transfer split: option.split)

lemma kept_work: "I s \<Longrightarrow> I (snd (dex_work C P parse j s))"
  using kept_broadcast [of s "C j" "P j"]
  by (auto simp: dex_work_def split: sum.splits prod.splits) (metis snd_conv)+

end

lemma dex_then: "dex_step t u \<Longrightarrow> dex_step\<^sup>*\<^sup>* s t \<Longrightarrow> dex_step\<^sup>*\<^sup>* s u"
  by (rule rtranclp.rtrancl_into_rtrancl)

interpretation runs: dex_worker "dex_step\<^sup>*\<^sup>* s" for s
proof
  show "dex_step\<^sup>*\<^sup>* s (snd (record_network_fee f t))" if "dex_step\<^sup>*\<^sup>* s t" for f t
    using that by (rule dex_then [rotated]) (intro dex_step.beside beside_frame, simp_all)
qed (erule dex_then [rotated], rule dex_step.intros)+

lemma track_row_run: "dex_step\<^sup>*\<^sup>* s (track_row P row s)"
proof -
  have "dex_step\<^sup>*\<^sup>* s (snd (enqueue kind p s))" for kind p
    by (intro dex_run_step beside beside_frame) (simp_all add: enqueue_def)
  then show ?thesis
    by (auto simp: track_row_def
        intro: runs.kept_changenow runs.kept_relay runs.kept_tracking dex_run_step dex_step.refunding)
qed

lemma track_rows_run: "dex_step\<^sup>*\<^sup>* s (snd (track_rows P rows s))"
proof (induction rows arbitrary: s)
  case (Cons row rows)
  have "dex_step\<^sup>*\<^sup>* s (snd (track_rows P rows (track_row P row s)))"
    using track_row_run Cons.IH by (rule rtranclp_trans)
  then show ?case by (cases "track_rows P rows (track_row P row s)") (simp add: Let_def)
qed simp

text \<open>The queue is left alone, so a drain comes to an end.\<close>

definition same_queue :: "db \<Rightarrow> db \<Rightarrow> bool" where
  "same_queue s t \<longleftrightarrow> jobs t = jobs s \<and> clock t = clock s \<and> next_id s \<le> next_id t"

lemma set_dex_jobs [simp]: "jobs (set_dex i st f s) = jobs s"
  by (simp add: set_dex_def)

text \<open>A new lock is one step between what the other sessions commit in its gaps.\<close>

lemma lock_and_create_run:
  assumes "\<And>s. beside_dex s (bb s)" and "\<And>s. beside_dex s (bi s)" and "\<And>s. beside_dex s (ac s)"
  shows "dex_step\<^sup>*\<^sup>* s (snd (lock_and_create i bb bi ac s))"
proof -
  note gap1 = dex_run_step [OF beside [OF assms(1)], of s] and gap2 = dex_run_step [OF beside [OF assms(2)], of "bb s"]
  have "dex_step\<^sup>*\<^sup>* (bi (bb s)) (ac (release_locks t))"
    if "lock_tx i w (bi (bb s)) = Inr (sid, t)" and "wallet_id_of (bb s) (lx_user i) (lx_from_coin i) PERSONAL = Some w"
      and "wallet_id_of (bb s) (lx_user i) (lx_to_coin i) PERSONAL = Some v" for w v sid t
  proof -
    have "wallet_id_of (bi (bb s)) (lx_user i) (lx_from_coin i) PERSONAL = Some w"
      "wallet_id_of (bi (bb s)) (lx_user i) (lx_to_coin i) PERSONAL \<noteq> None"
      using that(2,3) assms(2) [of "bb s"] by (auto simp: beside_dex_def)
    with that(1) have "dex_step (bi (bb s)) (release_locks t)" by (rule dex_step.lock)
    then show ?thesis using beside [OF assms(3)] by (meson converse_rtranclp_into_rtranclp dex_run_step)
  qed
  then have "dex_step\<^sup>*\<^sup>* (bb s) (snd (lock_and_create i bb bi ac s)) \<or> dex_step\<^sup>*\<^sup>* s (snd (lock_and_create i bb bi ac s))"
    using gap1 gap2 by (auto simp: lock_and_create_def Let_def split: option.split sum.split intro: rtranclp_trans)
  then show ?thesis using gap1 by (meson rtranclp_trans)
qed

lemma same_queue_statements:
  "keeps (same_queue s) (take_lock l)" "keeps (same_queue s) (select_wallet u c k)" "keeps (same_queue s) (lock_wallets ws)"
  "keeps (same_queue s) (check_numeric x)" "keeps (same_queue s) (apply_ledger_entry i)"
  "keeps (same_queue s) (tx_modify (\<lambda>t. set_dex sid st (f t) t))"
  by (auto simp: keeps_def tx_simps same_queue_def post_entry_def)

lemma same_queue_release [simp]: "same_queue s (release_locks t) = same_queue s t"
  by (simp add: same_queue_def release_locks_def)

interpretation queue_kept: dex_worker "same_queue s" for s
proof
  fix t sid amount h m hash f
  assume t: "same_queue s t"
  have "keeps (same_queue s) (credit_tx sid amount h)"
    unfolding credit_tx_def pay_out_def by (intro keeps_intros same_queue_statements)
  then show "same_queue s (snd (credit_and_complete sid amount h t))"
    unfolding credit_and_complete_def using t by (rule keeps_commit) simp
  have "keeps (same_queue s) (refund_tx sid m)"
    unfolding refund_tx_def pay_back_def by (intro keeps_intros same_queue_statements)
  then show "same_queue s (snd (refund sid m t))"
    unfolding refund_def using t by (rule keeps_commit) simp
  have "keeps (same_queue s) (record_network_fee_tx f)"
    by (auto simp: keeps_def record_network_fee_tx_Inr same_queue_def split: if_splits)
  then show "same_queue s (snd (record_network_fee f t))"
    unfolding record_network_fee_def using t by (rule keeps_commit) simp
  show "same_queue s (mark_failed sid m t)" "same_queue s (snd (mark_in_flight sid hash t))"
    using t by (simp_all add: mark_failed_def mark_in_flight_def same_queue_def)
qed

interpretation dex_jobs: job_runner "dex_work C P parse" for C P parse
proof
  fix j :: Job and s :: db
  have "same_queue s (snd (dex_work C P parse j s))"
    by (rule queue_kept.kept_work) (simp add: same_queue_def)
  then show "jobs (snd (dex_work C P parse j s)) = jobs s" "clock s \<le> clock (snd (dex_work C P parse j s))"
    "next_id s \<le> next_id (snd (dex_work C P parse j s))"
    by (simp_all add: same_queue_def)
qed

section \<open>Successful refunds\<close>

lemma can_post_frame:
  assumes "wallets t = wallets s" and "ledger t = ledger s"
  shows "can_post i t = can_post i s"
  by (simp add: can_post_def held_against_def find_wallet_cong [OF assms(1)] wallet_balance_frame [OF assms(2)] assms(2))

lemma lock_wallets_succeeds: "\<exists>l. lock_wallets ws s = Inr ((), s\<lparr>row_locks := l\<rparr>)"
  unfolding lock_wallets_Inr by (rule exI) (rule refl)

lemma pay_back_succeeds:
  assumes "wallet_id_of s (dx_user q) (dx_from_coin q) PERSONAL = Some w"
    and "can_post (dex_refund w (dx_from_amount q) (dx_id q) m) s"
  shows "\<exists>t. pay_back q m s = Inr ((), t)"
proof -
  let ?s = "set_dex (dx_id q) UNIV (\<lambda>r. r\<lparr>dx_status := DxRefunding, dx_error := Some m, dx_updated_at := clock s\<rparr>) s"
  obtain l where l: "lock_wallets [w] ?s = Inr ((), ?s\<lparr>row_locks := l\<rparr>)" using lock_wallets_succeeds by blast
  have c: "can_post (dex_refund w (dx_from_amount q) (dx_id q) m) (?s\<lparr>row_locks := l\<rparr>)"
    using assms(2) by (simp add: can_post_frame [of "?s\<lparr>row_locks := l\<rparr>" s])
  show ?thesis unfolding pay_back_def using assms(1) l c
    by (simp add: tx_bind_Inr tx_modify_Inr select_wallet_Inr tx_ok_or_Inr tx_map_err_Inr apply_ledger_entry_Inr del: lock_wallets_Inr)
qed

lemma refund_succeeds:
  assumes "find_dex s sid = Some q" and "dx_status q \<notin> {DxRefunded, DxCompleted, DxCrediting}"
    and "wallet_id_of s (dx_user q) (dx_from_coin q) PERSONAL = Some w"
    and "can_post (dex_refund w (dx_from_amount q) sid m) s"
  shows "fst (refund sid m s) = Inr () \<and> find_dex (snd (refund sid m s)) sid = Some (refunded_row m (clock s) q) \<and>
    (\<forall>x. wallet_balance (snd (refund sid m s)) x = wallet_balance s x + (if x = w then dx_from_amount q else 0)) \<and>
    dex_swaps (snd (refund sid m s)) = update_where (\<lambda>r. dx_id r = sid) (refunded_row m (clock s)) (dex_swaps s)"
proof -
  let ?s = "s\<lparr>row_locks := acquire (DexSwapLock sid) (row_locks s)\<rparr>"
  have id: "dx_id q = sid" using find_dex_Some [OF assms(1)] by simp
  have c: "can_post (dex_refund w (dx_from_amount q) (dx_id q) m) ?s"
    using assms(4) by (simp add: can_post_frame [of ?s s] id)
  have w: "wallet_id_of ?s (dx_user q) (dx_from_coin q) PERSONAL = Some w" using assms(3) by simp
  obtain t where t: "pay_back q m ?s = Inr ((), t)" using pay_back_succeeds [OF w c] by blast
  have run: "refund sid m s = (Inr (), release_locks t)"
    using assms(1,2) t
    by (simp add: refund_def commit_tx_def refund_tx_def tx_bind_def tx_gets_def take_lock_def tx_modify_def)
  obtain x where x: "wallet_id_of ?s (dx_user q) (dx_from_coin q) PERSONAL = Some x"
    and led: "ledger t = ledger ?s @ [entry_of (dex_refund x (dx_from_amount q) (dx_id q) m) (next_id ?s) (clock ?s)]"
    and rows: "dex_swaps t = update_where (\<lambda>r. dx_id r = dx_id q) (refunded_row m (clock ?s)) (dex_swaps ?s)"
    using t by (rule pay_back_Inr)
  have "x = w" using w x by simp
  then have "wallet_balance t y = wallet_balance s y + (if y = w then dx_from_amount q else 0)" for y
    using led by (simp add: wallet_balance_def)
  moreover have "find_dex t sid = Some (refunded_row m (clock s) q)"
    using assms(1) rows id by (simp add: find_dex_def find_update_where_key)
  moreover have "dex_swaps t = update_where (\<lambda>r. dx_id r = sid) (refunded_row m (clock s)) (dex_swaps s)"
    using rows id by simp
  ultimately show ?thesis by (simp add: run) (simp add: find_dex_def)
qed

section \<open>Properties\<close>

text \<open>
  C18. A provider-backed swap is settled once: along every run of its operations, the worker's tasks and
  anything else on the platform, its source amount has left the user's wallet exactly once, and
  it has either been paid in the target coin once, when it is completed, or been paid back
  once in full, when it is refunded, and otherwise neither.
\<close>

theorem dex_swap_settles_once:
  assumes "dex_ok s" and "dex_step\<^sup>*\<^sup>* s s'" and "r \<in> set (dex_swaps s')"
  shows "\<exists>w v. wallet_id_of s' (dx_user r) (dx_from_coin r) PERSONAL = Some w \<and>
    wallet_id_of s' (dx_user r) (dx_to_coin r) PERSONAL = Some v \<and>
    moved s' (dx_id r) DEX_SWAP_OUT = [(w, - dx_from_amount r)] \<and>
    (moved s' (dx_id r) DEX_SWAP_IN, moved s' (dx_id r) DEX_SWAP_REFUND) =
      (if dx_status r = DxCompleted then ([(v, the (dx_actual_to_amount r))], [])
       else if dx_status r = DxRefunded then ([], [(w, dx_from_amount r)]) else ([], []))"
proof -
  have "swap_row_ok s' r" using dex_ok_rows [OF dex_run_kept [OF assms(2,1)] assms(3)] by simp
  then show ?thesis by (cases "dx_status r = DxCompleted") (auto simp: swap_row_ok_def)
qed

subsection \<open>What the worker may do, and when\<close>

text \<open>What a provider answers about a row, read the way its interface documents it.\<close>

definition cn_answer :: "swap_providers \<Rightarrow> dex_swap_row \<Rightarrow> ChangeNowStatus \<Rightarrow> bool" where
  "cn_answer P row st \<longleftrightarrow> cn_is_configured (sp_changenow P) \<and> dx_status row \<in> {DxInFlight, DxCrediting} \<and>
     (\<exists>payload i. dx_payload row = Some payload \<and> or_else (get_str ''exchangeId'' payload) (dx_quote_id row) = Some i \<and>
        cn_status (sp_http P) (sp_changenow P) i = Inr st)"

definition relay_answer :: "swap_providers \<Rightarrow> dex_swap_row \<Rightarrow> RelayIntentStatus \<Rightarrow> bool" where
  "relay_answer P row st \<longleftrightarrow> rl_enabled (sp_relay P) \<and> dx_status row \<in> {DxInFlight, DxCrediting} \<and>
     (\<exists>payload i. dx_payload row = Some payload \<and> relay_request_id payload = Some i \<and>
        intent_status (sp_http P) (sp_relay P) i = Inr st)"

definition swapkit_answer :: "swap_providers \<Rightarrow> dex_swap_row \<Rightarrow> TrackResponse \<Rightarrow> bool" where
  "swapkit_answer P row tk \<longleftrightarrow>
     (\<exists>h. dx_inbound_tx row = Some h \<and> sk_track (sp_http P) (sp_swapkit P) h = Inr tk)"

text \<open>A provider reports the swap as done, and the amount that is due for it.\<close>

inductive reported :: "swap_providers \<Rightarrow> dex_swap_row \<Rightarrow> nat \<Rightarrow> string option \<Rightarrow> bool" for P row where
  by_changenow: "cn_answer P row st \<Longrightarrow> lower (cs_status st) \<in> {''finished'', ''completed'', ''success''} \<Longrightarrow>
    or_else (Option.bind (cs_to_amount_human st) human_to_ledger) (dec_to_u128 (dx_expected_to_amount row)) = Some amount \<Longrightarrow>
    reported P row amount (cs_payout_hash st)"
| by_relay: "relay_answer P row st \<Longrightarrow>
    lower (is_status st) \<in> {''success'', ''completed'', ''complete'', ''fulfilled'', ''settled''} \<Longrightarrow>
    dec_to_u128 (dx_expected_to_amount row) = Some amount \<Longrightarrow> reported P row amount (is_outbound_tx st)"
| by_swapkit: "swapkit_answer P row tk \<Longrightarrow>
    track_status tk \<in> {''DONE'', ''OUTBOUND'', ''SWAPPED''} \<or> contains (track_status tk) ''COMPLETE'' \<or>
      contains (track_status tk) ''SUCCESS'' \<Longrightarrow>
    or_else (Option.bind (outbound_amount_human (sp_http P) tk) (\<lambda>h. parse_human_to_ledger h (dx_to_coin row)))
      (dec_to_u128 (dx_expected_to_amount row)) = Some amount \<Longrightarrow> reported P row amount (track_outbound_tx tk)"

definition reaches_min :: "dex_swap_row \<Rightarrow> nat \<Rightarrow> bool" where
  "reaches_min row amount \<longleftrightarrow>
     (case Option.bind (dx_min_to_amount row) dec_to_u128 of None \<Rightarrow> True | Some m \<Rightarrow> m \<le> amount)"

text \<open>A deposit whose own receipt pays out: the swap ends on the chain it began on.\<close>

definition receipt_pays :: "dex_swap_row \<Rightarrow> nat \<Rightarrow> bool" where
  "receipt_pays row amount \<longleftrightarrow> dx_status row = DxInFlight \<and>
     (is_same_chain (dx_from_coin row) (dx_to_coin row) \<or>
      (\<exists>p\<in>set (dx_providers row). \<exists>n\<in>set same_chain_provider_names. contains (upper p) n)) \<and>
     \<not> (\<exists>v. dx_payload row = Some v \<and> relay_is_bridge v) \<and> dec_to_u128 (dx_expected_to_amount row) = Some amount"

definition lost_at_provider :: "swap_providers \<Rightarrow> dex_swap_row \<Rightarrow> bool" where
  "lost_at_provider P row \<longleftrightarrow>
     (\<exists>st. cn_answer P row st \<and> lower (cs_status st) \<in> {''failed'', ''refunded'', ''expired''}) \<or>
     (\<exists>st. relay_answer P row st \<and> lower (is_status st) \<in>
        {''failure'', ''refund'', ''failed'', ''refunded'', ''cancelled'', ''canceled'', ''error''}) \<or>
     (\<exists>amount h. reported P row amount h \<and> \<not> reaches_min row amount)"

text \<open>
  The chain client's answer to the deposit of a row that has none yet, by the channel its hint names, and the rows
  whose deposit is refused before anything is sent.
\<close>

definition undeposited :: "dex_swap_row \<Rightarrow> bool" where
  "undeposited row \<longleftrightarrow> dx_status row \<notin> {DxCompleted, DxRefunded, DxInFlight, DxCrediting}"

definition hint_of :: "dex_swap_row \<Rightarrow> string" where
  "hint_of row = (case dx_tx_hint row of None \<Rightarrow> ''simpleTransfer'' | Some h \<Rightarrow> h)"

definition mismatched :: "dex_swap_row \<Rightarrow> nat \<Rightarrow> ContractCallTx \<Rightarrow> bool" where
  "mismatched row onchain call \<longleftrightarrow>
     dx_from_coin row = Pol \<and> 0 < cc_value_wei call \<and> value_mismatch (cc_value_wei call) onchain"

definition wants_memo :: "dex_swap_row \<Rightarrow> bool" where
  "wants_memo row \<longleftrightarrow> hint_of row = ''transferWithMemo'' \<and> (\<exists>m. dx_inbound_memo row = Some m \<and> m \<noteq> [])"

inductive deposit_answer :: "chain_client \<Rightarrow> dex_swap_row \<Rightarrow> broadcast_result \<Rightarrow> bool" for C row where
  transfer: "hint_of row \<notin> {''solanaRelay'', ''contractCall''} \<Longrightarrow> \<not> wants_memo row \<Longrightarrow>
    dx_deposit_address row = Some a \<Longrightarrow> a \<noteq> [] \<Longrightarrow> dec_to_u128 (dx_from_amount row) = Some n \<Longrightarrow>
    deposit_answer C row (send_coins C (dx_from_coin row) a (to_onchain_amount (dx_from_coin row) n))"
| contract: "hint_of row = ''contractCall'' \<Longrightarrow> dec_to_u128 (dx_from_amount row) = Some n \<Longrightarrow>
    dx_payload row = Some v \<Longrightarrow> parse_contract_call_tx v = Some call \<Longrightarrow>
    \<not> mismatched row (to_onchain_amount (dx_from_coin row) n) call \<Longrightarrow>
    deposit_answer C row (send_contract_call C (dx_from_coin row)
      (evm_call_of (dx_from_coin row) (to_onchain_amount (dx_from_coin row) n) v call))"
| solana: "hint_of row = ''solanaRelay'' \<Longrightarrow> dx_payload row = Some v \<Longrightarrow> json_get ''solanaTx'' v = Some tx \<Longrightarrow>
    deposit_answer C row (send_solana_tx C (dx_from_coin row) tx)"

definition not_sent :: "chain_client \<Rightarrow> dex_swap_row \<Rightarrow> bool" where
  "not_sent C row \<longleftrightarrow> (\<exists>e. deposit_answer C row (Inl e) \<and> be_safe_to_reverse e) \<or> wants_memo row \<or>
     (\<exists>n v call. dec_to_u128 (dx_from_amount row) = Some n \<and> dx_payload row = Some v \<and>
        parse_contract_call_tx v = Some call \<and> mismatched row (to_onchain_amount (dx_from_coin row) n) call)"

text \<open>
  The steps of the worker with what has to hold for each. \<open>F\<close> holds the swaps that had failed when the tracker read its
  list. A swap is paid out only when its provider reports it as done, or on the receipt of a same-chain deposit, and
  never below the minimum the user accepted; it fails only when the provider lost it, paid less than that, or the chain
  client refused its deposit; it is paid back at once only when nothing was sent, and otherwise after it had failed.
\<close>

inductive worker_step :: "chain_client \<Rightarrow> swap_providers \<Rightarrow> uuid set \<Rightarrow> db \<Rightarrow> db \<Rightarrow> bool" for C P F where
  paid_out: "find_dex s sid = Some row \<Longrightarrow> reported P row amount h \<Longrightarrow> reaches_min row amount \<Longrightarrow>
    worker_step C P F s (snd (credit_and_complete sid amount h s))"
| on_receipt: "find_dex s sid = Some row \<Longrightarrow> receipt_pays row amount \<Longrightarrow> reaches_min row amount \<Longrightarrow>
    worker_step C P F s (snd (credit_and_complete sid amount (Some inbound) s))"
| lost: "find_dex s sid = Some row \<Longrightarrow> lost_at_provider P row \<Longrightarrow> worker_step C P F s (mark_failed sid m s)"
| unclear: "find_dex s sid = Some row \<Longrightarrow> undeposited row \<Longrightarrow> deposit_answer C row (Inl e) \<Longrightarrow>
    \<not> be_safe_to_reverse e \<Longrightarrow> worker_step C P F s (mark_failed sid m s)"
| reversed: "find_dex s sid = Some row \<Longrightarrow> undeposited row \<Longrightarrow> not_sent C row \<Longrightarrow>
    worker_step C P F s (snd (refund sid m (mark_failed sid m' s)))"
| deposited: "find_dex s sid = Some row \<Longrightarrow> undeposited row \<Longrightarrow> deposit_answer C row (Inr b) \<Longrightarrow>
    worker_step C P F s (snd (mark_in_flight sid (br_tx_hash b) s))"
| failed_before: "sid \<in> F \<Longrightarrow> worker_step C P F s (snd (refund sid m s))"
| aside: "dex_swaps s' = dex_swaps s \<Longrightarrow> ledger s' = ledger s \<Longrightarrow> wallets s' = wallets s \<Longrightarrow> worker_step C P F s s'"

lemma below_min_iff: "below_min row amount \<longleftrightarrow> \<not> reaches_min row amount"
  by (auto simp: below_min_def reaches_min_def split: option.splits)

lemma worker_refl [simp]: "(worker_step C P F)\<^sup>*\<^sup>* s s"
  by simp

lemma worker_one: "worker_step C P F s t \<Longrightarrow> (worker_step C P F)\<^sup>*\<^sup>* s t"
  by (rule r_into_rtranclp)

lemma changenow_steps: "(worker_step C P F)\<^sup>*\<^sup>* s (snd (try_credit_changenow P sid s))"
proof (cases "snd (try_credit_changenow P sid s) = s")
  case False
  then obtain row payload i st where row: "find_dex s sid = Some row" "dx_status row = DxInFlight \<or> dx_status row = DxCrediting"
    and c: "cn_is_configured (sp_changenow P)"
    and q: "dx_payload row = Some payload" "or_else (get_str ''exchangeId'' payload) (dx_quote_id row) = Some i"
      "cn_status (sp_http P) (sp_changenow P) i = Inr st"
    unfolding try_credit_changenow_def by (auto split: if_splits option.splits sum.splits)
  have ans: "cn_answer P row st" using row(2) c q by (auto simp: cn_answer_def)
  show ?thesis
  proof (cases "cn_is_failed st")
    case True
    then have "lost_at_provider P row" using ans by (auto simp: lost_at_provider_def cn_is_failed_def)
    moreover have "snd (try_credit_changenow P sid s) = mark_failed sid (''changenow status: '' @ cs_status st) s"
      using row c q True by (auto simp: try_credit_changenow_def)
    ultimately show ?thesis using worker_step.lost [OF row(1)] by (metis worker_one)
  next
    case no: False
    with False row c q obtain amount where ok: "cn_is_success st" and
      am: "or_else (Option.bind (cs_to_amount_human st) human_to_ledger) (dec_to_u128 (dx_expected_to_amount row)) = Some amount"
      unfolding try_credit_changenow_def by (auto split: if_splits option.splits)
    have rep: "reported P row amount (cs_payout_hash st)"
      using ans ok am by (intro reported.by_changenow) (simp_all add: cn_is_success_def)
    have r: "snd (try_credit_changenow P sid s) = (if reaches_min row amount
        then snd (credit_and_complete sid amount (cs_payout_hash st) s)
        else mark_failed sid ''slippage: received below minToAmount'' s)"
      using row c q no ok am by (auto simp: try_credit_changenow_def below_min_iff)
    have "lost_at_provider P row" if "\<not> reaches_min row amount" using rep that by (auto simp: lost_at_provider_def)
    then show ?thesis unfolding r using worker_step.paid_out [OF row(1) rep] worker_step.lost [OF row(1)] by (simp add: worker_one)
  qed
qed simp

lemma receipt_steps: "(worker_step C P F)\<^sup>*\<^sup>* s (snd (credit_same_chain_after_receipt sid h s))"
proof (cases "snd (credit_same_chain_after_receipt sid h s) = s")
  case False
  then obtain row amount where row: "find_dex s sid = Some row" and pays: "receipt_pays row amount" and mn: "reaches_min row amount"
    and r: "credit_same_chain_after_receipt sid h s = as_text (credit_and_complete sid amount (Some h) s)"
    unfolding credit_same_chain_after_receipt_def
    by (auto simp: receipt_pays_def below_min_iff split: if_splits option.splits)
  show ?thesis unfolding r as_text_state by (rule worker_one [OF worker_step.on_receipt [OF row pays mn]])
qed simp

lemma relay_steps: "(worker_step C P F)\<^sup>*\<^sup>* s (snd (try_credit_relay P sid s))"
proof (cases "snd (try_credit_relay P sid s) = s")
  case False
  then obtain row payload i st where row: "find_dex s sid = Some row" "dx_status row = DxInFlight \<or> dx_status row = DxCrediting"
    and c: "rl_enabled (sp_relay P)"
    and q: "dx_payload row = Some payload" "relay_request_id payload = Some i"
      "intent_status (sp_http P) (sp_relay P) i = Inr st"
    unfolding try_credit_relay_def by (auto split: if_splits option.splits sum.splits)
  have ans: "relay_answer P row st" using row(2) c q by (auto simp: relay_answer_def)
  show ?thesis
  proof (cases "intent_is_failed st")
    case True
    then have l: "lost_at_provider P row" using ans by (auto simp: lost_at_provider_def intent_is_failed_def)
    obtain m where "snd (try_credit_relay P sid s) = mark_failed sid m s"
      using row c q True by (auto simp: try_credit_relay_def)
    then show ?thesis using worker_one [OF worker_step.lost [OF row(1) l]] by metis
  next
    case no: False
    show ?thesis
    proof (cases "intent_is_success st")
      case True
      with False no row c q obtain amount where am: "dec_to_u128 (dx_expected_to_amount row) = Some amount"
        unfolding try_credit_relay_def by (auto split: if_splits option.splits)
      have rep: "reported P row amount (is_outbound_tx st)"
        using ans True am by (intro reported.by_relay) (simp_all add: intent_is_success_def)
      have r: "snd (try_credit_relay P sid s) = (if reaches_min row amount
          then snd (credit_and_complete sid amount (is_outbound_tx st) s)
          else mark_failed sid ''slippage: expected below minToAmount'' s)"
        using row c q no True am by (auto simp: try_credit_relay_def below_min_iff)
      have "lost_at_provider P row" if "\<not> reaches_min row amount" using rep that by (auto simp: lost_at_provider_def)
      then show ?thesis unfolding r using worker_step.paid_out [OF row(1) rep] worker_step.lost [OF row(1)] by (simp add: worker_one)
    next
      case pending: False
      with False no row c q obtain h where
        "snd (try_credit_relay P sid s) = snd (credit_same_chain_after_receipt sid h s)"
        unfolding try_credit_relay_def by (auto split: if_splits option.splits)
      then show ?thesis using receipt_steps by metis
    qed
  qed
qed simp

lemma complete_status:
  "track_is_complete tk \<Longrightarrow> track_status tk \<in> {''DONE'', ''OUTBOUND'', ''SWAPPED''} \<or>
     contains (track_status tk) ''COMPLETE'' \<or> contains (track_status tk) ''SUCCESS''"
  by (auto simp: track_is_complete_def starts_with_def)

lemma tracking_steps: "(worker_step C P F)\<^sup>*\<^sup>* s (snd (try_track_and_credit P sid s))"
proof (cases "snd (try_track_and_credit P sid s) = s")
  case False
  then obtain row h tk amount where row: "find_dex s sid = Some row" and h: "dx_inbound_tx row = Some h"
    "sk_track (sp_http P) (sp_swapkit P) h = Inr tk" and ok: "track_is_complete tk" and
    am: "or_else (Option.bind (outbound_amount_human (sp_http P) tk) (\<lambda>h. parse_human_to_ledger h (dx_to_coin row)))
      (dec_to_u128 (dx_expected_to_amount row)) = Some amount"
    unfolding try_track_and_credit_def by (auto split: if_splits option.splits sum.splits)
  have rep: "reported P row amount (track_outbound_tx tk)"
    using h by (intro reported.by_swapkit [OF _ complete_status [OF ok] am]) (auto simp: swapkit_answer_def)
  have r: "snd (try_track_and_credit P sid s) = (if reaches_min row amount
      then snd (credit_and_complete sid amount (track_outbound_tx tk) s)
      else mark_failed sid ''slippage: received below minToAmount'' s)"
    using row h ok am by (auto simp: try_track_and_credit_def below_min_iff)
  have "lost_at_provider P row" if "\<not> reaches_min row amount" using rep that by (auto simp: lost_at_provider_def)
  then show ?thesis unfolding r using worker_step.paid_out [OF row rep] worker_step.lost [OF row] by (simp add: worker_one)
qed simp

lemma track_or_receipt_steps: "(worker_step C P F)\<^sup>*\<^sup>* s (track_or_receipt P sid h s)"
proof (cases "try_track_and_credit P sid s")
  case (Pair r t)
  have t: "(worker_step C P F)\<^sup>*\<^sup>* s t" using tracking_steps [of C P F s sid] Pair by simp
  show ?thesis
    using t rtranclp_trans [OF t receipt_steps] Pair by (cases r) (simp_all add: track_or_receipt_def)
qed

lemma settle_steps:
  assumes row: "find_dex s sid = Some row" "undeposited row" "deposit_answer C row answer"
    and credit: "\<And>h t. (worker_step C P F)\<^sup>*\<^sup>* t (credit h t)"
  shows "(worker_step C P F)\<^sup>*\<^sup>* s (snd (settle_deposit sid coin credit answer s))"
proof (cases answer)
  case (Inl e)
  with row(3) have a: "deposit_answer C row (Inl e)" by simp
  then have "not_sent C row" if "be_safe_to_reverse e" using that by (auto simp: not_sent_def)
  with worker_step.reversed [OF row(1,2)] worker_step.unclear [OF row(1,2) a]
  show ?thesis by (simp add: Inl settle_deposit_def broadcast_failed_def worker_one)
next
  case (Inr b)
  with row(3) have a: "deposit_answer C row (Inr b)" by simp
  obtain r t where m: "mark_in_flight sid (br_tx_hash b) s = (r, t)" by (cases "mark_in_flight sid (br_tx_hash b) s")
  have t: "worker_step C P F s t" using worker_step.deposited [OF row(1,2) a] m by simp
  have "worker_step C P F t (snd (record_network_fee i t))" for i by (rule worker_step.aside) simp_all
  then have "(worker_step C P F)\<^sup>*\<^sup>* s (credit (br_tx_hash b) (snd (record_network_fee i t)))" for i
    using t credit by (meson converse_rtranclp_into_rtranclp)
  with t m Inr show ?thesis by (cases r) (simp_all add: settle_deposit_def worker_one)
qed

lemma broadcast_steps: "(worker_step C P F)\<^sup>*\<^sup>* s (snd (dex_process_broadcast C P sid s))"
proof (cases "snd (dex_process_broadcast C P sid s) = s")
  case False
  then obtain row n where row: "find_dex s sid = Some row" and und: "undeposited row" and n: "dec_to_u128 (dx_from_amount row) = Some n"
    unfolding dex_process_broadcast_def by (auto simp: undeposited_def split: if_splits option.splits)
  have id: "dx_id row = sid" using find_dex_Some [OF row] by simp
  let ?on = "to_onchain_amount (dx_from_coin row) n"
  have r: "dex_process_broadcast C P sid s =
      (if hint_of row = ''solanaRelay'' then broadcast_solana C P row s
       else if hint_of row = ''contractCall'' then broadcast_contract_call C P row ?on s
       else broadcast_transfer C P row (hint_of row) ?on s)"
    using row und n by (simp add: dex_process_broadcast_def undeposited_def hint_of_def Let_def)
  note settle = settle_steps [OF row und]
  have give_back: "(worker_step C P F)\<^sup>*\<^sup>* s (snd (fail_and_refund sid e m a s))" if "not_sent C row" for e m a
    using worker_one [OF worker_step.reversed [OF row und that]] by (simp add: fail_and_refund_def)
  consider (sol) "hint_of row = ''solanaRelay''" | (call) "hint_of row = ''contractCall''"
    | (plain) "hint_of row \<notin> {''solanaRelay'', ''contractCall''}" by blast
  then show ?thesis
  proof cases
    case sol
    show ?thesis
    proof (cases "Option.bind (dx_payload row) (json_get ''solanaTx'')")
      case None
      then show ?thesis using sol by (cases "dx_payload row") (simp_all add: r broadcast_solana_def)
    next
      case (Some tx)
      then obtain v where v: "dx_payload row = Some v" "json_get ''solanaTx'' v = Some tx"
        by (cases "dx_payload row") simp_all
      have "(worker_step C P F)\<^sup>*\<^sup>* s (snd (settle_deposit sid (dx_from_coin row) (\<lambda>_ s1. snd (try_credit_relay P sid s1))
          (send_solana_tx C (dx_from_coin row) tx) s))"
        by (rule settle [OF deposit_answer.solana [OF sol v] relay_steps])
      then show ?thesis using sol v id by (simp add: r broadcast_solana_def)
    qed
  next
    case call
    show ?thesis
    proof (cases "Option.bind (dx_payload row) parse_contract_call_tx")
      case None
      then show ?thesis using call by (cases "dx_payload row") (simp_all add: r broadcast_contract_call_def)
    next
      case (Some cc)
      then obtain v where v: "dx_payload row = Some v" "parse_contract_call_tx v = Some cc"
        by (cases "dx_payload row") simp_all
      show ?thesis
      proof (cases "mismatched row ?on cc")
        case True
        then have "not_sent C row" using n v by (auto simp: not_sent_def)
        then have back_run: "(worker_step C P F)\<^sup>*\<^sup>* s (snd (fail_and_refund sid e m a s))" for e m a by (rule give_back)
        have t: "(dx_from_coin row = Pol \<and> 0 < cc_value_wei cc \<and> value_mismatch (cc_value_wei cc) ?on) = True"
          using True unfolding mismatched_def by (rule eqTrueI)
        have "dex_process_broadcast C P sid s = broadcast_contract_call C P row ?on s" using call by (simp add: r)
        with back_run show ?thesis by (simp only: broadcast_contract_call_def v id option.case t if_True)
      next
        case ok: False
        let ?credit = "\<lambda>hash s1. if is_relay_row row \<and> relay_is_bridge v
            then snd (try_credit_relay P sid s1) else track_or_receipt P sid hash s1"
        have "(worker_step C P F)\<^sup>*\<^sup>* t (?credit h t)" for h t using relay_steps track_or_receipt_steps by simp
        then have st: "(worker_step C P F)\<^sup>*\<^sup>* s (snd (settle_deposit sid (dx_from_coin row) ?credit
            (send_contract_call C (dx_from_coin row) (evm_call_of (dx_from_coin row) ?on v cc)) s))"
          by (rule settle [OF deposit_answer.contract [OF call n v ok]])
        have t: "(dx_from_coin row = Pol \<and> 0 < cc_value_wei cc \<and> value_mismatch (cc_value_wei cc) ?on) = False"
          using ok unfolding mismatched_def by (rule Eq_FalseI [THEN meta_eq_to_obj_eq])
        have "dex_process_broadcast C P sid s = broadcast_contract_call C P row ?on s" using call by (simp add: r)
        with st show ?thesis by (simp only: broadcast_contract_call_def v id option.case t if_False)
      qed
    qed
  next
    case plain
    then have p: "dex_process_broadcast C P sid s = broadcast_transfer C P row (hint_of row) ?on s" by (simp add: r)
    let ?memo = "case dx_inbound_memo row of None \<Rightarrow> False | Some m \<Rightarrow> m \<noteq> []"
    have memo: "wants_memo row \<longleftrightarrow> ?memo \<and> hint_of row = ''transferWithMemo''"
      by (auto simp: wants_memo_def split: option.splits)
    from False obtain a where a: "dx_deposit_address row = Some a" "a \<noteq> []"
      unfolding p broadcast_transfer_def by (cases "dx_deposit_address row") (auto simp: Let_def split: if_splits)
    show ?thesis
    proof (cases "wants_memo row")
      case True
      then have "not_sent C row" by (simp add: not_sent_def)
      then show ?thesis using give_back True [unfolded memo] a id by (simp add: p broadcast_transfer_def)
    next
      case no: False
      let ?credit = "\<lambda>_ s1. if is_changenow_row row then snd (try_credit_changenow P sid s1)
          else snd (try_track_and_credit P sid s1)"
      have "(worker_step C P F)\<^sup>*\<^sup>* t (?credit h t)" for h :: string and t using changenow_steps tracking_steps by simp
      then have st: "(worker_step C P F)\<^sup>*\<^sup>* s (snd (settle_deposit sid (dx_from_coin row) ?credit
          (send_coins C (dx_from_coin row) a ?on) s))"
        by (rule settle [OF deposit_answer.transfer [OF plain no a n]])
      have t: "(?memo \<and> hint_of row = ''transferWithMemo'') = False" using no unfolding memo by (rule Eq_FalseI [THEN meta_eq_to_obj_eq])
      have "(a = []) = False" using a(2) by simp
      with st show ?thesis by (simp only: p broadcast_transfer_def Let_def a(1) id option.case t if_False)
    qed
  qed
qed simp

definition failed_ids :: "db \<Rightarrow> uuid set" where
  "failed_ids s = {dx_id r | r. r \<in> set (dex_swaps s) \<and> dx_status r = DxFailed}"

lemma track_row_steps:
  assumes "dx_status row = DxFailed \<Longrightarrow> dx_id row \<in> F"
  shows "(worker_step C P F)\<^sup>*\<^sup>* s (track_row P row s)"
proof -
  have "(worker_step C P F)\<^sup>*\<^sup>* s (snd (enqueue kind p s))" for kind p
    by (rule worker_one [OF worker_step.aside]) (simp_all add: enqueue_def)
  then show ?thesis
    using changenow_steps relay_steps tracking_steps worker_one [OF worker_step.failed_before [OF assms]]
    by (simp add: track_row_def)
qed

lemma track_rows_steps:
  assumes "\<And>r. r \<in> set rows \<Longrightarrow> dx_status r = DxFailed \<Longrightarrow> dx_id r \<in> F"
  shows "(worker_step C P F)\<^sup>*\<^sup>* s (snd (track_rows P rows s))"
  using assms
proof (induction rows arbitrary: s)
  case (Cons row rows)
  have "(worker_step C P F)\<^sup>*\<^sup>* s (track_row P row s)" using Cons.prems [of row] by (intro track_row_steps) simp
  moreover have "(worker_step C P F)\<^sup>*\<^sup>* (track_row P row s) (snd (track_rows P rows (track_row P row s)))"
    by (rule Cons.IH) (use Cons.prems in simp)
  ultimately have "(worker_step C P F)\<^sup>*\<^sup>* s (snd (track_rows P rows (track_row P row s)))" by (rule rtranclp_trans)
  then show ?case by (cases "track_rows P rows (track_row P row s)") (simp add: Let_def)
qed simp

lemma tracker_steps: "(worker_step C P (failed_ids s))\<^sup>*\<^sup>* s (snd (track_inflight P s))"
  unfolding track_inflight_def
  by (rule track_rows_steps) (auto simp: failed_ids_def list_active_dex_def dest!: in_set_takeD)


text \<open>
  C20. Draining the swap queue comes to an end, whatever happens to the jobs: the loop returns, no job
  is left due, and every job that was due has been attempted.
\<close>

theorem dex_queue_drains:
  assumes "queue_ok s"
  shows "\<exists>s'. drain_dex_queue C P parse elapse skip who s = Some s' \<and> queue_ok s' \<and>
    (\<forall>j\<in>set (jobs s'). \<not> due skip ''dex_swap_broadcast'' (clock s') j) \<and>
    (\<forall>j\<in>set (jobs s). due skip ''dex_swap_broadcast'' (clock s) j \<longrightarrow>
       (\<exists>j'\<in>set (jobs s'). jb_id j' = jb_id j \<and> jb_attempts j < jb_attempts j'))"
proof -
  obtain s' where run: "drain (dex_work C P parse) elapse skip ''dex_swap_broadcast'' who s = Some s'"
    and ok: "queue_ok s'" "\<forall>j\<in>set (jobs s'). \<not> due skip ''dex_swap_broadcast'' (clock s') j"
    using dex_jobs.drains [OF assms, of C P parse elapse skip "''dex_swap_broadcast''" who] by (elim exE conjE)
  have "\<forall>j\<in>set (jobs s). due skip ''dex_swap_broadcast'' (clock s) j \<longrightarrow>
      (\<exists>j'\<in>set (jobs s'). jb_id j' = jb_id j \<and> jb_attempts j < jb_attempts j')"
    using dex_jobs.attempted [OF assms run] by blast
  with run ok show ?thesis unfolding drain_dex_queue_def by (intro exI conjI)
qed

text \<open>
  A broadcast that may have gone through is refunded. The chain client's contract is that
  \<open>safe_to_reverse\<close> is false whenever coins may still move, so that the user is not credited; the runner
  marks such a swap as failed, and the next tick of the tracker refunds every failed swap: the user has the
  whole amount back while the deposit may confirm.
\<close>

theorem ambiguous_broadcast_is_refunded:
  assumes "find_dex s sid = Some r" and "dx_status r = DxBroadcasting" and "dx_tx_hint r = Some ''simpleTransfer''"
    and "dx_deposit_address r = Some a" and "a \<noteq> []" and "dec_to_u128 (dx_from_amount r) = Some n"
    and "send_coins C (dx_from_coin r) a (to_onchain_amount (dx_from_coin r) n) = Inl e" and "\<not> be_safe_to_reverse e"
    and "wallet_id_of s (dx_user r) (dx_from_coin r) PERSONAL = Some w"
    and "can_post (dex_refund w (dx_from_amount r) sid (''ambiguous broadcast: '' @ be_message e)) s"
  shows "\<exists>q. find_dex (snd (dex_process_broadcast C P sid s)) sid = Some q \<and> dx_status q = DxFailed \<and>
    ledger (snd (dex_process_broadcast C P sid s)) = ledger s \<and>
    wallet_balance (track_row P' q (snd (dex_process_broadcast C P sid s))) w = wallet_balance s w + dx_from_amount r"
proof -
  define m where "m = ''ambiguous broadcast: '' @ be_message e"
  let ?s = "mark_failed sid m s"
  let ?q = "r\<lparr>dx_status := DxFailed, dx_error := Some m, dx_updated_at := clock s\<rparr>"
  have id: "dx_id r = sid" using find_dex_Some [OF assms(1)] by simp
  have "dex_process_broadcast C P sid s = (Inl (be_message e), ?s)"
    using assms(1-8) id
    by (simp add: dex_process_broadcast_def broadcast_transfer_def Let_def settle_deposit_def broadcast_failed_def m_def)
  then have s: "snd (dex_process_broadcast C P sid s) = ?s" by simp
  have rows: "dex_swaps ?s = update_where (\<lambda>x. dx_id x = sid \<and> dx_status x \<in> - {DxCompleted, DxRefunded})
      (\<lambda>x. x\<lparr>dx_status := DxFailed, dx_error := Some m, dx_updated_at := clock s\<rparr>) (dex_swaps s)"
    by (simp add: mark_failed_def)
  have upd: "List.find (\<lambda>x. dx_id x = sid) (update_where (\<lambda>x. dx_id x = sid \<and> dx_status x \<in> A) f rs) = Some (f r)"
    if "List.find (\<lambda>x. dx_id x = sid) rs = Some r" and "dx_status r \<in> A" and "\<And>x. dx_id (f x) = dx_id x" for rs A f
    using that by (induction rs) (auto split: if_splits)
  have q: "find_dex ?s sid = Some ?q"
    using assms(1,2) unfolding find_dex_def rows by (intro upd) simp_all
  have fr: "ledger ?s = ledger s" "wallets ?s = wallets s" by (simp_all add: mark_failed_def)
  have "can_post (dex_refund w (dx_from_amount ?q) sid m) ?s"
    using assms(10) [folded m_def] can_post_frame [OF fr(2,1)] by simp
  moreover have "wallet_id_of ?s (dx_user ?q) (dx_from_coin ?q) PERSONAL = Some w"
    using assms(9) by (simp add: wallet_id_of_cong [OF fr(2)])
  ultimately have "wallet_balance (snd (refund sid m ?s)) w = wallet_balance ?s w + dx_from_amount r"
    using refund_succeeds [OF q, of w m] by simp
  then have "wallet_balance (track_row P' ?q ?s) w = wallet_balance s w + dx_from_amount r"
    using id wallet_balance_frame [OF fr(1)] by (simp add: track_row_def)
  with s q fr(1) show ?thesis by (intro exI [of _ ?q]) simp
qed

text \<open>
  A swap that is still \<open>LOCKED\<close> broadcasts without a trace. The tracker queues such swaps, the runner sends their
  contract call, and only then does \<open>mark_in_flight\<close> refuse the status: the job fails and the database is as it was
  before the coins left, so the retry of the job sends them again.
\<close>

theorem locked_swap_broadcast_leaves_no_trace:
  assumes "find_dex s sid = Some r" and "dx_status r = DxLocked" and "distinct (map dx_id (dex_swaps s))"
    and "dx_tx_hint r = Some ''contractCall''"
    and "dx_payload r = Some payload" and "parse_contract_call_tx payload = Some call" and "dx_from_coin r \<noteq> Pol"
    and "dec_to_u128 (dx_from_amount r) = Some n"
    and "send_contract_call C (dx_from_coin r) (evm_call_of (dx_from_coin r) (to_onchain_amount (dx_from_coin r) n) payload call) = Inr b"
  shows "dex_process_broadcast C P sid s = (Inl ''invalid status transition from not BROADCASTING'', s)"
proof -
  have r: "dx_id r = sid" "r \<in> set (dex_swaps s)" using find_dex_Some [OF assms(1)] by simp_all
  have "q = r" if "q \<in> set (dex_swaps s)" "dx_id q = sid" for q
    using that r assms(3) by (simp add: distinct_map inj_on_def)
  then have "\<not> dex_in s sid {DxBroadcasting, DxInFlight}" using assms(2) by (auto simp: dex_in_def)
  then have "mark_in_flight sid h s = (Inl (DexBadStatus ''not BROADCASTING''), s)" for h
    by (simp add: mark_in_flight_def)
  then show ?thesis
    using assms r(1) by (simp add: dex_process_broadcast_def broadcast_contract_call_def Let_def settle_deposit_def)
qed

section \<open>Once per key\<close>

lemma lock_replay:
  assumes "find_dex_by_key s (scoped_key (lx_user i) (lx_idempotency_key i)) = Some r"
    and "lock_and_create i bb bi ac s = (x, s')"
  shows "s' = s \<and> (\<forall>y. x = Inr y \<longrightarrow> y = (r, False))"
  using assms unfolding lock_and_create_def Let_def by (auto split: if_splits)

lemma lock_old:
  assumes "lock_and_create i bb bi ac s = (Inr (r, False), s')"
  shows "(s' = s \<or> s' = bb s \<or> s' = bi (bb s)) \<and> find_dex_by_key s' (scoped_key (lx_user i) (lx_idempotency_key i)) = Some r"
  using assms unfolding lock_and_create_def Let_def by (auto split: if_splits option.splits sum.splits)

lemma find_dex_release [simp]: "find_dex (release_locks s) i = find_dex s i"
  by (simp add: find_dex_def)

lemma lock_new:
  assumes "lock_and_create i bb bi ac s = (Inr (r, True), s')"
  shows "\<exists>w sid t. lock_tx i w (bi (bb s)) = Inr (sid, t) \<and> s' = ac (release_locks t) \<and> find_dex s' sid = Some r \<and>
    wallet_id_of (bb s) (lx_user i) (lx_from_coin i) PERSONAL = Some w"
  using assms unfolding lock_and_create_def Let_def by (auto split: if_splits option.splits sum.splits)

lemma lock_stored:
  assumes "lock_and_create i bb bi id s = (Inr (r, b), s')" and "dex_ok (bi (bb s))"
  shows "find_dex_by_key s' (scoped_key (lx_user i) (lx_idempotency_key i)) = Some r"
proof (cases b)
  case False
  with assms(1) lock_old [of i bb bi id s r s'] show ?thesis by simp
next
  case True
  let ?s = "bi (bb s)" and ?k = "scoped_key (lx_user i) (lx_idempotency_key i)"
  obtain w sid t where t: "lock_tx i w ?s = Inr (sid, t)" "s' = release_locks t" "find_dex s' sid = Some r"
    using lock_new [of i bb bi id s r s'] assms(1) True by auto
  from lock_tx_Inr [OF t(1)] have sid: "sid = next_id ?s" and rows: "dex_swaps t = dex_swaps ?s @ [new_dex_swap i sid (clock ?s)]"
    and key: "find_dex_by_key ?s ?k = None" by simp_all
  have "List.find (\<lambda>q. dx_id q = sid) (dex_swaps ?s) = None"
    using assms(2) sid by (auto simp: find_None_iff dex_ok_def)
  then have "r = new_dex_swap i sid (clock ?s)" using t(2,3) rows by (simp add: find_dex_def find_append)
  with key rows t(2) show ?thesis by (simp add: find_dex_by_key_def find_append)
qed

text \<open>
  A provider-backed swap locks its funds once per key of the user, whatever other sessions commit in the gaps of
  the first attempt and however often it is repeated: a new swap is stored under the key, debits exactly its
  amount from the source wallet and nothing else, and every later call with the key changes nothing and answers that swap.
\<close>

theorem dex_swap_locked_once:
  assumes "lock_and_create i bb bi id s = (Inr (r, True), s')" and "dex_ok (bi (bb s))"
  shows "find_dex_by_key s' (scoped_key (lx_user i) (lx_idempotency_key i)) = Some r \<and> dx_status r = DxLocked \<and>
    (\<exists>w. wallet_id_of (bb s) (lx_user i) (lx_from_coin i) PERSONAL = Some w \<and>
       (\<forall>x. wallet_balance s' x = wallet_balance (bi (bb s)) x - (if x = w then int (lx_from_amount i) else 0)) \<and>
       (0 < lx_from_amount i \<longrightarrow> int (lx_from_amount i) \<le> wallet_balance (bi (bb s)) w)) \<and>
    (\<forall>j y t. lx_user j = lx_user i \<longrightarrow> lx_idempotency_key j = lx_idempotency_key i \<longrightarrow>
       lock_and_create j bb' bi' ac' s' = (y, t) \<longrightarrow> t = s' \<and> (\<forall>z. y = Inr z \<longrightarrow> z = (r, False)))"
proof -
  let ?s = "bi (bb s)"
  have key: "find_dex_by_key s' (scoped_key (lx_user i) (lx_idempotency_key i)) = Some r"
    by (rule lock_stored [OF assms])
  obtain w sid t where t: "lock_tx i w ?s = Inr (sid, t)" "s' = release_locks t" "find_dex s' sid = Some r"
    and w: "wallet_id_of (bb s) (lx_user i) (lx_from_coin i) PERSONAL = Some w"
    using lock_new [OF assms(1)] by auto
  from lock_tx_Inr [OF t(1)] have sid: "sid = next_id ?s" and rows: "dex_swaps t = dex_swaps ?s @ [new_dex_swap i sid (clock ?s)]"
    and led: "ledger t = ledger ?s @ [entry_of (dex_out w (int (lx_from_amount i)) sid (lx_to_coin i)) (Suc sid) (clock ?s)]"
    by simp_all
  have "List.find (\<lambda>q. dx_id q = sid) (dex_swaps ?s) = None"
    using assms(2) sid by (auto simp: find_None_iff dex_ok_def)
  then have r: "r = new_dex_swap i sid (clock ?s)" using t(2,3) rows by (simp add: find_dex_def find_append)
  have bal: "wallet_balance s' x = wallet_balance ?s x - (if x = w then int (lx_from_amount i) else 0)" for x
    using led t(2) by (simp add: wallet_balance_def)
  have cover: "0 < lx_from_amount i \<longrightarrow> int (lx_from_amount i) \<le> wallet_balance ?s w"
    using lock_tx_Inr [OF t(1)] by simp
  have again: "t' = s' \<and> (\<forall>z. y = Inr z \<longrightarrow> z = (r, False))"
    if "lx_user j = lx_user i" "lx_idempotency_key j = lx_idempotency_key i" "lock_and_create j bb' bi' ac' s' = (y, t')" for j y t'
    by (rule lock_replay [OF _ that(3)]) (simp add: that key)
  have "dx_status r = DxLocked" by (simp add: r)
  with key w bal cover again show ?thesis by (intro conjI exI [of _ w] allI impI) (assumption | blast)+
qed

section \<open>Witnesses\<close>

definition dex_demo :: db where
  "dex_demo = empty_db\<lparr>next_id := 10, clock := 60,
     users := [\<lparr>u_id = 7, u_email = ''a'', u_username = ''a'', u_password_hash = []\<rparr>],
     wallets := [demo_wallet 1 7 Btc PERSONAL, demo_wallet 2 7 Ltc PERSONAL],
     ledger := [entry_of (simple_input 1 5000 DEPOSIT None None None) 3 0]\<rparr>"

definition demo_lock :: LockDexSwapInput where
  "demo_lock = \<lparr>lx_user = 7, lx_from_coin = Btc, lx_to_coin = Ltc, lx_from_amount = 1000, lx_expected_to_amount = 90000,
     lx_min_to_amount = Some 80000, lx_provider = ''CHANGENOW'', lx_providers = [''CHANGENOW''], lx_route_id = None,
     lx_quote_id = None, lx_platform_fee_bps = 25, lx_platform_fee_amount = 2, lx_fees = JArr [], lx_eta_seconds = None,
     lx_tx_hint = Some ''simpleTransfer'', lx_destination_address = None, lx_source_address = None, lx_payload = None,
     lx_idempotency_key = ''k''\<rparr>"

lemma dex_demo_sel [simp]:
  "dex_swaps dex_demo = []" "next_id dex_demo = 10" "clock dex_demo = 60" "row_locks dex_demo = []"
  "ledger dex_demo = [entry_of (simple_input 1 5000 DEPOSIT None None None) 3 0]"
  "wallet_id_of dex_demo 7 Btc PERSONAL = Some 1" "wallet_id_of dex_demo 7 Ltc PERSONAL = Some 2"
  "find_wallet dex_demo 1 = Some (demo_wallet 1 7 Btc PERSONAL)"
  "users dex_demo = [\<lparr>u_id = 7, u_email = ''a'', u_username = ''a'', u_password_hash = []\<rparr>]"
  by (simp_all add: dex_demo_def empty_db_def wallet_id_of_def demo_wallet_def find_wallet_def)

lemma demo_lock_sel [simp]:
  "lx_user demo_lock = 7" "lx_from_coin demo_lock = Btc" "lx_to_coin demo_lock = Ltc" "lx_from_amount demo_lock = 1000"
  "lx_expected_to_amount demo_lock = 90000" "lx_min_to_amount demo_lock = Some 80000" "lx_idempotency_key demo_lock = ''k''"
  "lx_platform_fee_amount demo_lock = 2"
  by (simp_all add: demo_lock_def)

lemma dex_demo_ok: "dex_ok dex_demo"
  by (simp add: dex_ok_def simple_input_def entry_of_def)

definition demo_swap :: dex_swap_row where
  "demo_swap = new_dex_swap demo_lock 10 60"

definition dex_demo_locked :: db where
  "dex_demo_locked = dex_demo\<lparr>next_id := 12, dex_swaps := [demo_swap],
     ledger := ledger dex_demo @ [entry_of (dex_out 1 1000 10 Ltc) 11 60]\<rparr>"

lemma demo_can_lock: "can_post (dex_out 1 1000 10 Ltc) (dex_demo\<lparr>row_locks := l, next_id := 11, dex_swaps := [demo_swap]\<rparr>)"
  by (simp add: can_post_def held_against_def find_wallet_def dex_demo_def empty_db_def demo_wallet_def wallet_balance_def
      fits_numeric_def numeric_limit_def reference_conflict_def key_conflict_def simple_input_def entry_of_def)

lemma demo_lock_run: "lock_and_create demo_lock id id id dex_demo = (Inr (demo_swap, True), dex_demo_locked)"
proof -
  obtain l where l: "lock_wallets [1] dex_demo = Inr ((), dex_demo\<lparr>row_locks := l\<rparr>)" using lock_wallets_succeeds by blast
  let ?s = "dex_demo\<lparr>row_locks := l, next_id := 11\<rparr>"
  have ins: "insert_dex_swap demo_swap ?s = Inr ((), ?s\<lparr>dex_swaps := [demo_swap]\<rparr>)"
    by (simp add: insert_dex_swap_def demo_swap_def new_dex_swap_def tx_defs check_numeric_def check_user_fk_def
        fits_numeric_def numeric_limit_def find_dex_by_key_def)
  have app: "apply_ledger_entry (dex_out 1 1000 10 Ltc) (?s\<lparr>dex_swaps := [demo_swap]\<rparr>) =
      Inr (11, post_entry (dex_out 1 1000 10 Ltc) (?s\<lparr>dex_swaps := [demo_swap]\<rparr>))"
    using demo_can_lock [of l] by (simp add: apply_ledger_entry_Inr)
  have "lock_tx demo_lock 1 dex_demo = Inr (10, post_entry (dex_out 1 1000 10 Ltc) (?s\<lparr>dex_swaps := [demo_swap]\<rparr>))"
    using l ins app by (simp add: lock_tx_def tx_bind_Inr tx_map_err_Inr fresh_uuid_Inr now_Inr tx_return_Inr demo_swap_def)
  moreover have "release_locks (post_entry (dex_out 1 1000 10 Ltc) (?s\<lparr>dex_swaps := [demo_swap]\<rparr>)) = dex_demo_locked"
    by (simp add: release_locks_def post_entry_def dex_demo_locked_def)
  moreover have "find_dex dex_demo_locked 10 = Some demo_swap"
    by (simp add: find_dex_def dex_demo_locked_def demo_swap_def)
  moreover have "find_dex (post_entry (dex_out 1 1000 10 Ltc) (?s\<lparr>dex_swaps := [demo_swap]\<rparr>)) 10 = Some demo_swap"
    by (simp add: find_dex_def post_entry_def demo_swap_def)
  ultimately show ?thesis by (simp add: lock_and_create_def Let_def find_dex_by_key_def)
qed

theorem dex_swap_locked_once_witness:
  "wallet_balance dex_demo_locked 1 = 4000 \<and> find_dex_by_key dex_demo_locked (scoped_key 7 ''k'') = Some demo_swap \<and>
   snd (lock_and_create (demo_lock\<lparr>lx_from_amount := 2000\<rparr>) id id id dex_demo_locked) = dex_demo_locked"
proof -
  let ?j = "demo_lock\<lparr>lx_from_amount := 2000\<rparr>"
  obtain y t where y: "lock_and_create ?j id id id dex_demo_locked = (y, t)" by (cases "lock_and_create ?j id id id dex_demo_locked")
  have ok: "dex_ok (id (id dex_demo))" by (simp add: dex_demo_ok)
  note once = dex_swap_locked_once [OF demo_lock_run ok, of id id id]
  have all: "\<forall>j. lx_user j = lx_user demo_lock \<longrightarrow> lx_idempotency_key j = lx_idempotency_key demo_lock \<longrightarrow>
      (\<forall>y t. lock_and_create j id id id dex_demo_locked = (y, t) \<longrightarrow>
        t = dex_demo_locked \<and> (\<forall>z. y = Inr z \<longrightarrow> z = (demo_swap, False)))"
    using once by blast
  have "t = dex_demo_locked" using all [THEN spec, of ?j] y by simp
  moreover have "wallet_balance dex_demo 1 = 5000" by (simp add: wallet_balance_def simple_input_def entry_of_def)
  ultimately show ?thesis using once y by simp
qed

theorem dex_swap_settles_once_witness:
  "\<exists>s' r w. dex_step\<^sup>*\<^sup>* dex_demo s' \<and> dex_swaps s' = [r] \<and> dx_status r = DxRefunded \<and>
     moved s' 10 DEX_SWAP_OUT = [(w, - 1000)] \<and> moved s' 10 DEX_SWAP_REFUND = [(w, 1000)] \<and> moved s' 10 DEX_SWAP_IN = []"
proof -
  let ?s = "snd (refund 10 ''no route'' dex_demo_locked)"
  have find: "find_dex dex_demo_locked 10 = Some demo_swap"
    by (simp add: find_dex_def dex_demo_locked_def demo_swap_def)
  have w: "wallet_id_of dex_demo_locked (dx_user demo_swap) (dx_from_coin demo_swap) PERSONAL = Some 1"
    using dex_demo_sel(6) by (simp add: dex_demo_locked_def demo_swap_def wallet_id_of_def)
  have c: "can_post (dex_refund 1 (dx_from_amount demo_swap) 10 ''no route'') dex_demo_locked"
    by (simp add: can_post_def held_against_def find_wallet_def dex_demo_locked_def dex_demo_def empty_db_def demo_wallet_def
        fits_numeric_def numeric_limit_def reference_conflict_def key_conflict_def dex_refund_def dex_out_def demo_swap_def
        simple_input_def entry_of_def)
  have "dx_status demo_swap \<notin> {DxRefunded, DxCompleted, DxCrediting}" by (simp add: demo_swap_def)
  note done' = refund_succeeds [OF find this w c]
  let ?r = "refunded_row ''no route'' (clock dex_demo_locked) demo_swap"
  have run: "dex_step\<^sup>*\<^sup>* dex_demo ?s"
    using lock_and_create_run [of id id id dex_demo demo_lock] demo_lock_run
    by (simp add: dex_then [OF dex_step.refunding])
  have mem: "?r \<in> set (dex_swaps ?s)" using done' find_dex_Some by blast
  note once = dex_swap_settles_once [OF dex_demo_ok run mem]
  have "dex_swaps ?s = [?r]" using done' by (simp add: update_where_def dex_demo_locked_def demo_swap_def)
  moreover obtain w where "moved ?s 10 DEX_SWAP_OUT = [(w, - 1000)]" "moved ?s 10 DEX_SWAP_REFUND = [(w, 1000)]"
    "moved ?s 10 DEX_SWAP_IN = []" using once by (auto simp: demo_swap_def)
  ultimately show ?thesis using run by (intro exI [of _ ?s] exI [of _ ?r] exI [of _ w]) simp
qed

definition demo_chain :: chain_client where
  "demo_chain = \<lparr>send_coins = \<lambda>_ _ _. Inl \<lparr>be_message = ''timeout'', be_safe_to_reverse = False\<rparr>,
     send_contract_call = \<lambda>_ _. Inr \<lparr>br_tx_hash = ''h'', br_fee_amount = 9\<rparr>,
     send_solana_tx = \<lambda>_ _. Inl \<lparr>be_message = ''unsupported'', be_safe_to_reverse = True\<rparr>\<rparr>"

theorem dex_queue_drains_witness:
  "\<forall>P. \<exists>s'. drain_dex_queue (\<lambda>_. demo_chain) (\<lambda>_. P) (\<lambda>_. Inr 10) (\<lambda>_. 1) {} ''w''
      (dex_demo\<lparr>jobs := [new_job 5 ''dex_swap_broadcast'' (dex_job_payload 10) 0]\<rparr>) = Some s' \<and>
     (\<exists>j\<in>set (jobs s'). jb_id j = 5 \<and> 0 < jb_attempts j)"
proof
  fix P
  let ?s = "dex_demo\<lparr>jobs := [new_job 5 ''dex_swap_broadcast'' (dex_job_payload 10) 0]\<rparr>"
  have "queue_ok ?s" by (simp add: queue_ok_def new_job_def job_ok_def)
  note drains = dex_queue_drains [OF this, of "\<lambda>_. demo_chain" "\<lambda>_. P" "\<lambda>_. Inr 10" "\<lambda>_. 1" "{}" "''w''"]
  have "due {} ''dex_swap_broadcast'' (clock ?s) (new_job 5 ''dex_swap_broadcast'' (dex_job_payload 10) 0)"
    by (simp add: due_def new_job_def)
  moreover have "jb_id (new_job 5 k p 0) = 5" "jb_attempts (new_job 5 k p 0) = 0" for k p by (simp_all add: new_job_def)
  ultimately show "\<exists>s'. drain_dex_queue (\<lambda>_. demo_chain) (\<lambda>_. P) (\<lambda>_. Inr 10) (\<lambda>_. 1) {} ''w'' ?s = Some s' \<and>
      (\<exists>j\<in>set (jobs s'). jb_id j = 5 \<and> 0 < jb_attempts j)"
    using drains by (elim exE conjE) (intro exI conjI, assumption, simp)
qed

definition dex_demo_sending :: db where
  "dex_demo_sending = dex_demo_locked\<lparr>dex_swaps := [demo_swap\<lparr>dx_status := DxBroadcasting,
     dx_deposit_address := Some ''dep'', dx_tx_hint := Some ''simpleTransfer''\<rparr>]\<rparr>"

theorem ambiguous_broadcast_is_refunded_witness:
  "\<forall>P P'. \<exists>q. find_dex (snd (dex_process_broadcast demo_chain P 10 dex_demo_sending)) 10 = Some q \<and> dx_status q = DxFailed \<and>
     wallet_balance (track_row P' q (snd (dex_process_broadcast demo_chain P 10 dex_demo_sending))) 1 = 5000"
proof (intro allI)
  fix P P'
  let ?r = "demo_swap\<lparr>dx_status := DxBroadcasting, dx_deposit_address := Some ''dep'', dx_tx_hint := Some ''simpleTransfer''\<rparr>"
  have find: "find_dex dex_demo_sending 10 = Some ?r" by (simp add: find_dex_def dex_demo_sending_def demo_swap_def)
  have w: "wallet_id_of dex_demo_sending (dx_user ?r) (dx_from_coin ?r) PERSONAL = Some 1"
    using dex_demo_sel(6) by (simp add: dex_demo_sending_def dex_demo_locked_def demo_swap_def wallet_id_of_def)
  have c: "can_post (dex_refund 1 (dx_from_amount ?r) 10 (''ambiguous broadcast: '' @ be_message
      \<lparr>be_message = ''timeout'', be_safe_to_reverse = False\<rparr>)) dex_demo_sending"
    by (simp add: can_post_def held_against_def find_wallet_def dex_demo_sending_def dex_demo_locked_def dex_demo_def
        empty_db_def demo_wallet_def fits_numeric_def numeric_limit_def reference_conflict_def key_conflict_def
        dex_refund_def dex_out_def demo_swap_def simple_input_def entry_of_def)
  have n: "dec_to_u128 (dx_from_amount ?r) = Some 1000" by (simp add: demo_swap_def dec_to_u128_def)
  have send: "send_coins demo_chain (dx_from_coin ?r) ''dep'' (to_onchain_amount (dx_from_coin ?r) 1000) =
      Inl \<lparr>be_message = ''timeout'', be_safe_to_reverse = False\<rparr>" by (simp add: demo_chain_def)
  have bal: "wallet_balance dex_demo_sending 1 = 4000"
    by (simp add: wallet_balance_def dex_demo_sending_def dex_demo_locked_def dex_out_def simple_input_def entry_of_def)
  have "\<exists>q. find_dex (snd (dex_process_broadcast demo_chain P 10 dex_demo_sending)) 10 = Some q \<and> dx_status q = DxFailed \<and>
      ledger (snd (dex_process_broadcast demo_chain P 10 dex_demo_sending)) = ledger dex_demo_sending \<and>
      wallet_balance (track_row P' q (snd (dex_process_broadcast demo_chain P 10 dex_demo_sending))) 1 =
        wallet_balance dex_demo_sending 1 + dx_from_amount ?r"
    by (rule ambiguous_broadcast_is_refunded [OF find _ _ _ _ n send _ w c]) simp_all
  then show "\<exists>q. find_dex (snd (dex_process_broadcast demo_chain P 10 dex_demo_sending)) 10 = Some q \<and> dx_status q = DxFailed \<and>
      wallet_balance (track_row P' q (snd (dex_process_broadcast demo_chain P 10 dex_demo_sending))) 1 = 5000"
    by (elim exE conjE) (intro exI conjI, assumption+, simp add: bal [simplified] demo_swap_def)
qed

theorem locked_swap_broadcast_leaves_no_trace_witness:
  "\<forall>P. \<exists>s. dx_status (hd (dex_swaps s)) = DxLocked \<and>
     dex_process_broadcast demo_chain P 10 s = (Inl ''invalid status transition from not BROADCASTING'', s)"
proof
  fix P
  let ?p = "JObj [(''tx'', JObj [(''to'', JStr ''0xr''), (''data'', JStr ''0x00'')])]"
  let ?r = "demo_swap\<lparr>dx_tx_hint := Some ''contractCall'', dx_payload := Some ?p\<rparr>"
  let ?s = "dex_demo\<lparr>dex_swaps := [?r]\<rparr>"
  have find: "find_dex ?s 10 = Some ?r" by (simp add: find_dex_def demo_swap_def)
  obtain call where call: "parse_contract_call_tx ?p = Some call"
    by (simp add: parse_contract_call_tx_def extract_contract_call_tx_def get_str_def starts_with_def)
  have n: "dec_to_u128 (dx_from_amount ?r) = Some 1000" by (simp add: demo_swap_def dec_to_u128_def)
  have send: "send_contract_call demo_chain c e = Inr \<lparr>br_tx_hash = ''h'', br_fee_amount = 9\<rparr>" for c e
    by (simp add: demo_chain_def)
  have "dex_process_broadcast demo_chain P 10 ?s = (Inl ''invalid status transition from not BROADCASTING'', ?s)"
    by (rule locked_swap_broadcast_leaves_no_trace [OF find _ _ _ _ call _ n send]) (simp_all add: demo_swap_def)
  then show "\<exists>s. dx_status (hd (dex_swaps s)) = DxLocked \<and>
      dex_process_broadcast demo_chain P 10 s = (Inl ''invalid status transition from not BROADCASTING'', s)"
    by (intro exI [of _ ?s]) (simp add: demo_swap_def)
qed

end
