(* ===== verification/Rewards.thy ===== *)
theory Rewards
  imports House Pricing LendMath "HOL-Library.Multiset"
begin

text \<open>
  \<open>crates/db/src/rewards.rs\<close>: liquidity-mining programs. A tick pays every user with an economic weight
  a share of the emission that came due, out of HOUSE. The iteration order of the \<open>HashMap\<close> of weights is the argument
  \<open>shuffle\<close>. A panic inside \<open>scaled_to_amount\<close> is \<open>RewardPanic\<close>: the transaction is dropped.

  The lemmas show that a tick conserves every coin and pays no more than came due, and that a program pays in
  one tick only: the unique index on references refuses the second debit of HOUSE.
\<close>

datatype RewardsError =
  RewardDb db_error
| RewardHouse HouseError
| RewardPricing PricingDbError
| InvalidEmission
| RewardNotFound
| RewardPanic

section \<open>Programs\<close>

fun reward_side_str :: "reward_side \<Rightarrow> string" where
  "reward_side_str SUPPLY_SIDE = ''SUPPLY''"
| "reward_side_str BORROW_SIDE = ''BORROW''"
| "reward_side_str BOTH_SIDES = ''BOTH''"

definition cast_reward_side :: "string \<Rightarrow> (db_error, reward_side) op" where
  "cast_reward_side v = tx_ok_or (InvalidEnum ''reward_side'' v)
     (List.find (\<lambda>x. reward_side_str x = v) [SUPPLY_SIDE, BORROW_SIDE, BOTH_SIDES])"

record RewardProgramView =
  rv_id :: uuid
  rv_reward_coin :: Coin
  rv_market_coin :: Coin
  rv_side :: string
  rv_emission_per_day :: nat
  rv_start_at :: int
  rv_end_at :: "int option"
  rv_active :: bool

definition row_to_program :: "reward_program_row \<Rightarrow> RewardProgramView" where
  "row_to_program r =
     \<lparr>rv_id = rp_id r, rv_reward_coin = rp_reward_coin r, rv_market_coin = rp_market_coin r,
      rv_side = reward_side_str (rp_side r), rv_emission_per_day = dec_to_u128_or 0 (rp_emission_per_day r),
      rv_start_at = rp_start_at r, rv_end_at = rp_end_at r, rv_active = rp_active r\<rparr>"

definition create_program ::
    "uuid \<Rightarrow> Coin \<Rightarrow> Coin \<Rightarrow> string \<Rightarrow> nat \<Rightarrow> int option \<Rightarrow> int option \<Rightarrow> (RewardsError, RewardProgramView) op" where
  "create_program admin reward_coin market_coin side emission_per_day start_at end_at =
     (if emission_per_day = 0 then tx_throw InvalidEmission
      else
        tx_bind (tx_gets clock) (\<lambda>ts.
        let start = (case start_at of None \<Rightarrow> ts | Some t \<Rightarrow> t) in
        tx_bind (tx_map_err RewardDb (cast_reward_side side)) (\<lambda>sd.
        tx_bind (tx_map_err RewardDb (check_numeric (int emission_per_day))) (\<lambda>_.
        tx_bind fresh_uuid (\<lambda>pid.
        let row = \<lparr>rp_id = pid, rp_reward_coin = reward_coin, rp_market_coin = market_coin, rp_side = sd,
          rp_emission_per_day = int emission_per_day, rp_start_at = start, rp_end_at = end_at,
          rp_last_emitted_at = start, rp_active = True, rp_created_by = Some admin, rp_created_at = ts\<rparr> in
        tx_bind (tx_modify (\<lambda>s. s\<lparr>reward_programs := reward_programs s @ [row]\<rparr>)) (\<lambda>_.
        tx_return (row_to_program row)))))))"

definition list_programs :: "db \<Rightarrow> RewardProgramView list" where
  "list_programs s = map row_to_program (sort_key (\<lambda>r. - rp_created_at r) (reward_programs s))"

definition set_program :: "uuid \<Rightarrow> (reward_program_row \<Rightarrow> reward_program_row) \<Rightarrow> db \<Rightarrow> db" where
  "set_program pid f s = s\<lparr>reward_programs := update_where (\<lambda>r. rp_id r = pid) f (reward_programs s)\<rparr>"

definition set_program_active :: "uuid \<Rightarrow> bool \<Rightarrow> (RewardsError, unit) op" where
  "set_program_active pid active =
     tx_bind (tx_gets (\<lambda>s. \<exists>r\<in>set (reward_programs s). rp_id r = pid)) (\<lambda>found.
     tx_bind (tx_assert found RewardNotFound) (\<lambda>_.
     tx_modify (set_program pid (\<lambda>r. r\<lparr>rp_active := active\<rparr>))))"

definition find_program :: "db \<Rightarrow> uuid \<Rightarrow> reward_program_row option" where
  "find_program s pid = List.find (\<lambda>r. rp_id r = pid) (reward_programs s)"

definition advance_program :: "uuid \<Rightarrow> int \<Rightarrow> bool \<Rightarrow> (RewardsError, unit) op" where
  "advance_program pid ts finished =
     tx_modify (set_program pid (\<lambda>r. if finished then r\<lparr>rp_last_emitted_at := ts, rp_active := False\<rparr>
       else r\<lparr>rp_last_emitted_at := ts\<rparr>))"

section \<open>Weights\<close>

definition reward_value_usd :: "PriceTable \<Rightarrow> Coin \<Rightarrow> int \<Rightarrow> int" where
  "reward_value_usd prices coin amount =
     amount * int (price_scaled prices coin) div 10 ^ decimals (coin_config coin)"

type_synonym weights = "(uuid \<times> int) list"

definition add_weight :: "uuid option \<Rightarrow> PriceTable \<Rightarrow> uuid \<times> Coin \<times> int \<Rightarrow> weights \<Rightarrow> weights" where
  "add_weight house prices = (\<lambda>(user, coin, amount) ws.
     if Some user = house \<or> amount \<le> 0 then ws
     else let usd = reward_value_usd prices coin amount in
       if user \<in> fst ` set ws then map (\<lambda>(u, w). (u, if u = user then w + usd else w)) ws
       else ws @ [(user, usd)])"

text \<open>\<open>GROUP BY user_id, coin\<close> with a sum.\<close>

definition group_add :: "uuid \<times> Coin \<times> int \<Rightarrow> (uuid \<times> Coin \<times> int) list \<Rightarrow> (uuid \<times> Coin \<times> int) list" where
  "group_add = (\<lambda>(u, c, a) gs.
     if \<exists>(u', c', _)\<in>set gs. u' = u \<and> c' = c
     then map (\<lambda>(u', c', b). (u', c', if u' = u \<and> c' = c then b + a else b)) gs
     else gs @ [(u, c, a)])"

definition grouped :: "(uuid \<times> Coin \<times> int) list \<Rightarrow> (uuid \<times> Coin \<times> int) list" where
  "grouped xs = fold group_add xs []"

definition wallet_weights :: "db \<Rightarrow> (uuid \<times> Coin \<times> int) list" where
  "wallet_weights s = map (\<lambda>w. (w_user w, w_coin w, wallet_balance s (w_id w)))
     (filter (\<lambda>w. w_kind w = PERSONAL) (wallets s))"

definition stake_weights :: "db \<Rightarrow> (uuid \<times> Coin \<times> int) list" where
  "stake_weights s = grouped (map (\<lambda>r. (st_user r, st_coin r, st_principal r))
     (filter (\<lambda>r. st_status r = Active) (stakes s)))"

definition reserve_indexes :: "db \<Rightarrow> Coin \<Rightarrow> nat \<times> nat" where
  "reserve_indexes s coin =
     (case List.find (\<lambda>r. rs_coin r = coin) (reserves s) of
        None \<Rightarrow> (RAY, RAY)
      | Some r \<Rightarrow> (dec_to_u128_or RAY (rs_liquidity_index r), dec_to_u128_or RAY (rs_borrow_index r)))"

definition position_weights :: "db \<Rightarrow> position_row \<Rightarrow> (uuid \<times> Coin \<times> int) list option" where
  "position_weights s r =
     (let (li, bi) = reserve_indexes s (po_coin r) in
      case (scaled_to_amount (dec_to_u128_or 0 (po_scaled_supply r)) li,
            scaled_to_amount (dec_to_u128_or 0 (po_scaled_debt r)) bi) of
        (Some supply, Some debt) \<Rightarrow> Some [(po_user r, po_coin r, int supply), (po_user r, po_coin r, int debt)]
      | _ \<Rightarrow> None)"

fun lending_weights :: "db \<Rightarrow> position_row list \<Rightarrow> (uuid \<times> Coin \<times> int) list option" where
  "lending_weights s [] = Some []"
| "lending_weights s (r # rs) =
     (case (position_weights s r, lending_weights s rs) of (Some a, Some b) \<Rightarrow> Some (a @ b) | _ \<Rightarrow> None)"

definition compute_user_weights :: "PriceTable \<Rightarrow> (RewardsError, weights) op" where
  "compute_user_weights prices =
     tx_bind (tx_gets (\<lambda>s. map_option u_id (find_user_by_email s HOUSE_EMAIL))) (\<lambda>house.
     tx_bind (tx_gets (\<lambda>s. lending_weights s (positions s))) (\<lambda>lending.
     tx_bind (tx_ok_or RewardPanic lending) (\<lambda>lending.
     tx_gets (\<lambda>s. fold (add_weight house prices) (wallet_weights s @ stake_weights s @ lending) []))))"

section \<open>A tick\<close>

definition MS_PER_DAY :: int where
  "MS_PER_DAY = 24 * 60 * 60 * 1000"

text \<open>What came due, in milliseconds of elapsed time; instants are in microseconds.\<close>

definition elapsed_ms :: "reward_program_row \<Rightarrow> int \<Rightarrow> int" where
  "elapsed_ms r ts =
     ((case rp_end_at r of Some e \<Rightarrow> if e < ts then e else ts | None \<Rightarrow> ts) -
      max (rp_last_emitted_at r) (rp_start_at r)) div 1000"

definition program_finished :: "reward_program_row \<Rightarrow> int \<Rightarrow> bool" where
  "program_finished r ts = (case rp_end_at r of None \<Rightarrow> False | Some e \<Rightarrow> e \<le> ts)"

definition due_emission :: "reward_program_row \<Rightarrow> int \<Rightarrow> int" where
  "due_emission r ts = int (dec_to_u128_or 0 (rp_emission_per_day r)) * elapsed_ms r ts div MS_PER_DAY"

text \<open>A share past 128 bits is paid as zero.\<close>

definition payouts :: "Coin \<Rightarrow> int \<Rightarrow> int \<Rightarrow> weights \<Rightarrow> db \<Rightarrow> (uuid \<times> uuid \<times> nat) list" where
  "payouts coin emission weight_sum ws s = List.map_filter (\<lambda>(user, weight).
     case wallet_id_of s user coin PERSONAL of
       None \<Rightarrow> None
     | Some wid \<Rightarrow>
         let share = emission * weight div weight_sum in
         if 0 < share then Some (user, wid, case dec_to_u128 share of None \<Rightarrow> 0 | Some n \<Rightarrow> n) else None) ws"

definition sum_shares :: "(uuid \<times> uuid \<times> nat) list \<Rightarrow> nat" where
  "sum_shares ps = foldl u128_add 0 (map (snd \<circ> snd) ps)"

definition protocol_error :: "LedgerError \<Rightarrow> RewardsError" where
  "protocol_error e = RewardDb (Protocol (ledger_error_str e))"

definition add_claimed :: "uuid \<Rightarrow> uuid \<Rightarrow> int \<Rightarrow> (db_error, unit) op" where
  "add_claimed user pid amount =
     tx_bind (tx_gets (\<lambda>s. List.find (\<lambda>r. ra_user r = user \<and> ra_program r = pid) (reward_accruals s))) (\<lambda>found.
     tx_bind (check_numeric (amount + (case found of None \<Rightarrow> 0 | Some r \<Rightarrow> ra_claimed_total r))) (\<lambda>_.
     tx_modify (\<lambda>s. s\<lparr>reward_accruals :=
       (if found = None
        then reward_accruals s @ [\<lparr>ra_user = user, ra_program = pid, ra_claimed_total = amount, ra_updated_at = clock s\<rparr>]
        else update_where (\<lambda>r. ra_user r = user \<and> ra_program r = pid)
          (\<lambda>r. r\<lparr>ra_claimed_total := ra_claimed_total r + amount, ra_updated_at := clock s\<rparr>) (reward_accruals s))\<rparr>)))"

definition reward_input :: "uuid \<Rightarrow> Coin \<Rightarrow> uuid \<Rightarrow> nat \<Rightarrow> LedgerCreditInput" where
  "reward_input pid coin wid share = simple_input wid (int share) REWARD (Some pid) (Some ''RewardProgram'')
     (Some (''Reward '' @ coin_str coin))"

definition pay_share :: "uuid \<Rightarrow> Coin \<Rightarrow> uuid \<times> uuid \<times> nat \<Rightarrow> (RewardsError, unit) op" where
  "pay_share pid coin = (\<lambda>(user, wid, share).
     tx_bind (tx_map_err protocol_error (apply_ledger_entry (reward_input pid coin wid share))) (\<lambda>_.
     tx_map_err RewardDb (add_claimed user pid (int share))))"

definition reward_memo :: "Coin \<Rightarrow> string" where
  "reward_memo coin = ''Auto reward distribution '' @ coin_str coin"

definition pay_all ::
    "reward_program_row \<Rightarrow> int \<Rightarrow> bool \<Rightarrow> uuid \<Rightarrow> (uuid \<times> uuid \<times> nat) list \<Rightarrow> (RewardsError, unit) op" where
  "pay_all r ts finished house_wallet ps =
     (let pid = rp_id r; coin = rp_reward_coin r in
      if sum_shares ps = 0 then advance_program pid ts finished
      else
        tx_bind (tx_map_err protocol_error (lock_wallets (map (fst \<circ> snd) ps @ [house_wallet]))) (\<lambda>_.
        tx_bind (tx_map_err RewardHouse (debit_house coin (int (sum_shares ps)) REWARD pid ''RewardProgram'' (reward_memo coin))) (\<lambda>_.
        tx_bind (tx_for_each (pay_share pid coin) ps) (\<lambda>_.
        advance_program pid ts finished))))"

definition pay_program ::
    "int \<Rightarrow> (weights \<Rightarrow> weights) \<Rightarrow> reward_program_row \<Rightarrow> int \<Rightarrow> int \<Rightarrow> bool \<Rightarrow> (RewardsError, unit) op" where
  "pay_program max_stale shuffle r ts emission finished =
     (let coin = rp_reward_coin r in
      tx_bind (tx_gets (\<lambda>s. house_wallet_id s HOUSE coin)) (\<lambda>found.
      case found of
        Inl _ \<Rightarrow> tx_return ()
      | Inr house_wallet \<Rightarrow>
          tx_bind (tx_map_err protocol_error (get_wallet_balance house_wallet)) (\<lambda>balance.
          if balance \<le> 0 then tx_return ()
          else
            tx_bind (tx_map_err RewardPricing (load_price_table max_stale)) (\<lambda>prices.
            tx_bind (compute_user_weights prices) (\<lambda>weights.
            let ws = shuffle weights; weight_sum = sum_list (map snd ws) in
            if weight_sum \<le> 0 then advance_program (rp_id r) ts finished
            else
              tx_bind (tx_gets (payouts coin (min emission balance) weight_sum ws)) (\<lambda>ps.
              pay_all r ts finished house_wallet ps)))))) "

definition distribute_tx :: "int \<Rightarrow> (weights \<Rightarrow> weights) \<Rightarrow> uuid \<Rightarrow> (RewardsError, unit) op" where
  "distribute_tx max_stale shuffle pid =
     tx_bind (take_lock (ProgramLock pid)) (\<lambda>_.
     tx_bind (tx_gets (\<lambda>s. find_program s pid)) (\<lambda>found.
     case found of
       None \<Rightarrow> tx_return ()
     | Some r \<Rightarrow>
         tx_bind (tx_gets clock) (\<lambda>ts.
         if \<not> rp_active r then tx_return ()
         else if ts < rp_start_at r then tx_return ()
         else if elapsed_ms r ts \<le> 0 then advance_program pid ts (program_finished r ts)
         else if due_emission r ts \<le> 0 then advance_program pid ts (program_finished r ts)
         else pay_program max_stale shuffle r ts (due_emission r ts) (program_finished r ts))))"

definition distribute_program :: "int \<Rightarrow> (weights \<Rightarrow> weights) \<Rightarrow> uuid \<Rightarrow> db \<Rightarrow> (RewardsError + unit) \<times> db" where
  "distribute_program max_stale shuffle pid = commit_tx release_locks (distribute_tx max_stale shuffle pid)"

text \<open>An error of one program is logged and the next one is tried.\<close>

definition distribute_all_programs :: "int \<Rightarrow> (weights \<Rightarrow> weights) \<Rightarrow> db \<Rightarrow> db" where
  "distribute_all_programs max_stale shuffle s =
     fold (\<lambda>pid s. snd (distribute_program max_stale shuffle pid s))
       (map rp_id (filter rp_active (reward_programs s))) s"

record UserRewardView =
  uv_program :: uuid
  uv_reward_coin :: Coin
  uv_market_coin :: Coin
  uv_side :: string
  uv_received_total :: nat

definition get_user_rewards :: "db \<Rightarrow> uuid \<Rightarrow> UserRewardView list" where
  "get_user_rewards s user = List.map_filter (\<lambda>r.
       map_option (\<lambda>p. \<lparr>uv_program = ra_program r, uv_reward_coin = rp_reward_coin p,
         uv_market_coin = rp_market_coin p, uv_side = reward_side_str (rp_side p),
         uv_received_total = dec_to_u128_or 0 (ra_claimed_total r)\<rparr>) (find_program s (ra_program r)))
     (sort_key (\<lambda>r. - ra_updated_at r)
       (filter (\<lambda>r. ra_user r = user \<and> 0 < ra_claimed_total r) (reward_accruals s)))"

section \<open>What a tick does\<close>

lemma books_ok_rows:
  "books_ok (s\<lparr>reward_accruals := a\<rparr>) = books_ok s" "books_ok (s\<lparr>reward_programs := p\<rparr>) = books_ok s"
  "books_ok (s\<lparr>row_locks := l\<rparr>) = books_ok s" "books_ok (release_locks s) = books_ok s"
  by (intro iffI; elim books_ok_cong [rotated -1]; simp add: release_locks_def)+

lemma add_claimed_Inr:
  assumes "add_claimed user pid n s = Inr (u, s')"
  obtains acc where "s' = s\<lparr>reward_accruals := acc\<rparr>"
  using assms by (auto simp: add_claimed_def tx_simps)

lemma pay_share_Inr:
  assumes "pay_share pid coin (user, wid, n) s = Inr (u, s')"
  obtains acc where "can_post (reward_input pid coin wid n) s"
    and "s' = (post_entry (reward_input pid coin wid n) s)\<lparr>reward_accruals := acc\<rparr>"
proof -
  have "can_post (reward_input pid coin wid n) s \<and>
      (\<exists>s1. s1 = post_entry (reward_input pid coin wid n) s \<and> add_claimed user pid (int n) s1 = Inr (u, s'))"
    using assms by (auto simp: pay_share_def tx_bind_Inr tx_map_err_Inr apply_ledger_entry_Inr)
  then show thesis using that by (auto elim: add_claimed_Inr)
qed

definition paid_to :: "uuid \<Rightarrow> (uuid \<times> uuid \<times> nat) list \<Rightarrow> int" where
  "paid_to x ps = (\<Sum>(u, w, n)\<leftarrow>ps. if w = x then int n else 0)"

lemma paid_to_simps [simp]:
  "paid_to x [] = 0" "paid_to x ((u, w, n) # ps) = (if w = x then int n else 0) + paid_to x ps"
  by (simp_all add: paid_to_def)

lemma pay_shares_run:
  "tx_for_each (pay_share pid coin) ps s = Inr (u, s') \<Longrightarrow>
     wallets s' = wallets s \<and> users s' = users s \<and> reward_programs s' = reward_programs s \<and>
     (books_ok s \<longrightarrow> books_ok s') \<and> (\<exists>new. ledger s' = ledger s @ new) \<and>
     (\<forall>x. wallet_balance s' x = wallet_balance s x + paid_to x ps)"
proof (induction ps arbitrary: s)
  case Nil
  then show ?case by (auto simp: tx_return_Inr)
next
  case (Cons q ps)
  obtain user wid n where q: "q = (user, wid, n)" by (cases q)
  obtain s1 where one: "pay_share pid coin q s = Inr ((), s1)" and rest: "tx_for_each (pay_share pid coin) ps s1 = Inr (u, s')"
    using Cons.prems by (auto simp: tx_bind_Inr)
  obtain acc where post: "can_post (reward_input pid coin wid n) s"
    and s1: "s1 = (post_entry (reward_input pid coin wid n) s)\<lparr>reward_accruals := acc\<rparr>"
    using one q by (auto elim: pay_share_Inr)
  have "wallet_balance s1 x = wallet_balance s x + (if wid = x then int n else 0)" for x
    by (simp add: s1 wallet_balance_def reward_input_def entry_of_def)
  moreover have "books_ok s \<longrightarrow> books_ok s1" using books_ok_post [OF post] by (simp add: s1 books_ok_rows)
  moreover have "ledger s1 = ledger s @ [entry_of (reward_input pid coin wid n) (next_id s) (clock s)]"
    "wallets s1 = wallets s" "users s1 = users s" "reward_programs s1 = reward_programs s"
    by (simp_all add: s1 post_entry_def)
  moreover from this Cons.IH [OF rest] have "\<exists>new. ledger s' = ledger s @ new" by auto
  ultimately show ?case using Cons.IH [OF rest] q by simp
qed

lemma set_program_sel [simp]:
  "wallets (set_program pid f s) = wallets s" "ledger (set_program pid f s) = ledger s"
  "users (set_program pid f s) = users s" "clock (set_program pid f s) = clock s"
  "reward_accruals (set_program pid f s) = reward_accruals s"
  by (simp_all add: set_program_def)

definition house_reward :: "reward_program_row \<Rightarrow> uuid \<Rightarrow> nat \<Rightarrow> LedgerCreditInput" where
  "house_reward r h n = simple_input h (- int n) REWARD (Some (rp_id r)) (Some ''RewardProgram'') (Some (reward_memo (rp_reward_coin r)))"

lemma house_reward_sel [simp]:
  "in_wallet_id (house_reward r h n) = h" "in_amount (house_reward r h n) = - int n" "in_type (house_reward r h n) = REWARD"
  "in_reference_id (house_reward r h n) = Some (rp_id r)" "in_reference_type (house_reward r h n) = Some ''RewardProgram''"
  "in_reference_key (house_reward r h n) = None"
  by (simp_all add: house_reward_def)

lemma debit_reward:
  assumes "house_wallet_id s HOUSE (rp_reward_coin r) = Inr h" and "0 < n"
  shows "debit_house (rp_reward_coin r) (int n) REWARD (rp_id r) ''RewardProgram'' (reward_memo (rp_reward_coin r)) s = Inr (u, s') \<longleftrightarrow>
    can_post (house_reward r h n) s \<and> s' = post_entry (house_reward r h n) s"
  using assms(1) debit_house_Inr [of "int n"] assms(2) by (simp add: house_reward_def)

lemma pay_all_Inr:
  assumes "pay_all r ts finished h ps s = Inr (u, s')" and "sum_shares ps \<noteq> 0" and "house_wallet_id s HOUSE (rp_reward_coin r) = Inr h"
  shows "can_post (house_reward r h (sum_shares ps)) s \<and> wallets s' = wallets s \<and> users s' = users s \<and>
    (books_ok s \<longrightarrow> books_ok s') \<and>
    (\<exists>new. ledger s' = ledger s @ [entry_of (house_reward r h (sum_shares ps)) (next_id s) (clock s)] @ new) \<and>
    (\<forall>x. wallet_balance s' x = wallet_balance s x + (if x = h then - int (sum_shares ps) else 0) + paid_to x ps)"
proof -
  let ?i = "house_reward r h (sum_shares ps)"
  have pos: "0 < sum_shares ps" using assms(2) by simp
  obtain l where l: "lock_wallets (map (fst \<circ> snd) ps @ [h]) s = Inr ((), s\<lparr>row_locks := l\<rparr>)" unfolding lock_wallets_Inr by blast
  let ?s = "s\<lparr>row_locks := l\<rparr>"
  have h: "house_wallet_id ?s HOUSE (rp_reward_coin r) = Inr h"
    using assms(3) house_wallet_id_cong [of ?s s] by simp
  obtain t where post: "can_post ?i ?s" and run: "tx_for_each (pay_share (rp_id r) (rp_reward_coin r)) ps (post_entry ?i ?s) = Inr ((), t)"
    and adv: "advance_program (rp_id r) ts finished t = Inr (u, s')"
    using assms(1) l pos
    by (auto simp: pay_all_def Let_def tx_bind_Inr tx_map_err_Inr debit_reward [OF h] simp del: lock_wallets_Inr)
  note shares = pay_shares_run [OF run]
  have s': "ledger s' = ledger t" "wallets s' = wallets t" "users s' = users t"
    using adv by (auto simp: advance_program_def tx_modify_Inr)
  have "books_ok s \<longrightarrow> books_ok t" using shares books_ok_post [OF post] by (simp add: books_ok_rows)
  moreover have "books_ok s' = books_ok t"
    using adv by (auto simp: advance_program_def tx_modify_Inr set_program_def books_ok_rows)
  moreover have "can_post ?i s"
    using post by (simp add: can_post_def find_wallet_def wallet_balance_def held_against_def)
  moreover have "wallet_balance s' x = wallet_balance s x + (if x = h then - int (sum_shares ps) else 0) + paid_to x ps" for x
    using shares s'(1) wallet_balance_frame [OF s'(1)] by (simp add: wallet_balance_def entry_of_def)
  moreover have "\<exists>new. ledger t = ledger s @ [entry_of ?i (next_id s) (clock s)] @ new" using shares by auto
  ultimately show ?thesis using shares s' by simp
qed

definition unpaid :: "db \<Rightarrow> db \<Rightarrow> bool" where
  "unpaid s s' \<longleftrightarrow> ledger s' = ledger s \<and> wallets s' = wallets s \<and> users s' = users s \<and> (books_ok s \<longrightarrow> books_ok s')"

lemma unpaid_refl [simp]: "unpaid s s"
  by (simp add: unpaid_def)

lemma unpaid_lock [simp]: "unpaid s (s\<lparr>row_locks := l\<rparr>)"
  by (simp add: unpaid_def books_ok_rows)

lemma advance_unpaid: "advance_program pid ts finished s = Inr (u, s') \<Longrightarrow> unpaid s s'"
  by (auto simp: advance_program_def tx_modify_Inr unpaid_def) (simp add: set_program_def books_ok_rows)

lemma compute_weights_state: "compute_user_weights prices s = Inr (ws, s') \<Longrightarrow> s' = s"
  by (auto simp: compute_user_weights_def tx_simps)

section \<open>How much is paid\<close>

lemma map_filter_Cons: "List.map_filter f (x # xs) = (case f x of None \<Rightarrow> [] | Some y \<Rightarrow> [y]) @ List.map_filter f xs"
  by (simp add: List.map_filter_def split: option.split)

text \<open>The shares are floors of the emission's parts.\<close>

definition share_of :: "int \<Rightarrow> int \<Rightarrow> int \<Rightarrow> int" where
  "share_of emission weight_sum w = max 0 (emission * w div weight_sum)"

lemma payouts_within:
  assumes "0 \<le> emission" and "0 < T"
  shows "(\<Sum>(u, x, n)\<leftarrow>payouts coin emission T ws s. int n) \<le> (\<Sum>(u, w)\<leftarrow>ws. share_of emission T w)"
proof (induction ws)
  case Nil
  then show ?case by (simp add: payouts_def List.map_filter_def)
next
  case (Cons q ws)
  obtain u w where q: "q = (u, w)" by (cases q)
  let ?n = "case dec_to_u128 (emission * w div T) of None \<Rightarrow> 0 | Some n \<Rightarrow> n"
  have "int ?n \<le> share_of emission T w" by (auto simp: share_of_def dec_to_u128_def)
  moreover have "0 \<le> share_of emission T w" by (simp add: share_of_def)
  ultimately show ?case using Cons.IH
    by (auto simp: q payouts_def map_filter_Cons Let_def split: option.split)
qed

lemma floors_within:
  assumes "\<forall>(u, w)\<in>set ws. 0 \<le> w" and "0 \<le> emission" and "0 < T"
  shows "T * (\<Sum>(u, w)\<leftarrow>ws. share_of emission T w) \<le> emission * sum_list (map snd ws)"
  using assms(1)
proof (induction ws)
  case (Cons q ws)
  obtain u w where q: "q = (u, w)" by (cases q)
  have "0 \<le> w" using Cons.prems by (simp add: q)
  then have "share_of emission T w = emission * w div T" using assms(2,3) by (simp add: share_of_def pos_imp_zdiv_nonneg_iff)
  moreover have "T * (emission * w div T) \<le> emission * w"
    using assms(3) by (metis minus_mod_eq_mult_div pos_mod_sign add_le_cancel_left diff_le_eq le_add_same_cancel1)
  ultimately show ?case using Cons q by (simp add: distrib_left)
qed simp

lemma sum_shares_exact:
  assumes "(\<Sum>(u, x, n)\<leftarrow>ps. int n) < 2 ^ 128"
  shows "int (sum_shares ps) = (\<Sum>(u, x, n)\<leftarrow>ps. int n)"
proof -
  have "int (foldl u128_add a (map (snd \<circ> snd) ps)) = int a + (\<Sum>(u, x, n)\<leftarrow>ps. int n)"
    if "int a + (\<Sum>(u, x, n)\<leftarrow>ps. int n) < 2 ^ 128" for a
    using that
  proof (induction ps arbitrary: a)
    case (Cons q ps)
    obtain u x n where q: "q = (u, x, n)" by (cases q)
    have "0 \<le> (\<Sum>(u, x, n)\<leftarrow>ps. int n)" by (rule sum_list_nonneg) auto
    then have "int (a + n) < 2 ^ 128" using Cons.prems q by simp
    then have "a + n < 2 ^ 128" by (metis of_nat_less_iff of_nat_numeral of_nat_power)
    then have "u128_add a n = a + n" by (simp add: u128_add_def)
    then show ?case using Cons.IH [of "a + n"] Cons.prems q by (simp add: add.assoc)
  qed simp
  from this [of 0] assms show ?thesis by (simp add: sum_shares_def)
qed

lemma add_weight_nonneg:
  "\<forall>(u, w)\<in>set ws. 0 \<le> w \<Longrightarrow> \<forall>(u, w)\<in>set (add_weight h prices x ws). 0 \<le> w"
proof -
  assume ws: "\<forall>(u, w)\<in>set ws. 0 \<le> w"
  obtain user coin amount where x: "x = (user, coin, amount)" by (cases x)
  have "0 < amount \<Longrightarrow> 0 \<le> reward_value_usd prices coin amount"
    by (simp add: reward_value_usd_def pos_imp_zdiv_nonneg_iff)
  with ws show ?thesis by (auto simp: add_weight_def x Let_def)
qed

lemma fold_weights_nonneg:
  "\<forall>(u, w)\<in>set ws. 0 \<le> w \<Longrightarrow> \<forall>(u, w)\<in>set (fold (add_weight h prices) xs ws). 0 \<le> w"
proof (induction xs arbitrary: ws)
  case (Cons x xs)
  show ?case unfolding fold_simps by (rule Cons.IH [OF add_weight_nonneg [OF Cons.prems]])
qed simp

lemma weights_nonneg:
  assumes "compute_user_weights prices s = Inr (ws, s')"
  shows "\<forall>(u, w)\<in>set ws. 0 \<le> w"
proof -
  obtain h xs where "ws = fold (add_weight h prices) xs []"
    using assms by (auto simp: compute_user_weights_def tx_simps simp del: fold_append)
  then show ?thesis using fold_weights_nonneg [of "[]"] by simp
qed

text \<open>A successful tick left the ledger alone, or paid the shares it computed.\<close>

definition shares_of :: "(weights \<Rightarrow> weights) \<Rightarrow> reward_program_row \<Rightarrow> int \<Rightarrow> uuid \<Rightarrow> weights \<Rightarrow> db \<Rightarrow> (uuid \<times> uuid \<times> nat) list" where
  "shares_of shuffle r emission h weights s = payouts (rp_reward_coin r) (min emission (wallet_balance s h))
     (sum_list (map snd (shuffle weights))) (shuffle weights) s"

lemma pay_program_Inr:
  assumes "pay_program max_stale shuffle r ts emission finished s = Inr (u, s')" and "\<not> unpaid s s'"
  obtains h weights where "house_wallet_id s HOUSE (rp_reward_coin r) = Inr h" and "0 < wallet_balance s h"
    and "\<forall>(u, w)\<in>set weights. 0 \<le> w" and "0 < sum_list (map snd (shuffle weights))" and "sum_shares (shares_of shuffle r emission h weights s) \<noteq> 0"
    and "pay_all r ts finished h (shares_of shuffle r emission h weights s) s = Inr (u, s')"
proof -
  let ?c = "rp_reward_coin r"
  obtain h where h: "house_wallet_id s HOUSE ?c = Inr h"
    using assms by (cases "house_wallet_id s HOUSE ?c") (auto simp: pay_program_def Let_def tx_bind_Inr tx_gets_Inr tx_return_Inr)
  have pos: "0 < wallet_balance s h"
    using assms h by (auto simp: pay_program_def Let_def tx_simps split: if_splits)
  have st: "s1 = s" if "load_price_table max_stale s = Inr (p, s1)" for p s1
    using that load_price_table_Inr by blast
  obtain prices where rest: "tx_bind (compute_user_weights prices) (\<lambda>weights.
            let ws = shuffle weights; weight_sum = sum_list (map snd ws) in
            if weight_sum \<le> 0 then advance_program (rp_id r) ts finished
            else tx_bind (tx_gets (payouts ?c (min emission (wallet_balance s h)) weight_sum ws)) (\<lambda>ps.
              pay_all r ts finished h ps)) s = Inr (u, s')"
    using assms(1) h pos
    by (auto simp: pay_program_def Let_def tx_bind_Inr tx_gets_Inr tx_map_err_Inr get_wallet_balance_Inr dest!: st)
  obtain weights where w: "compute_user_weights prices s = Inr (weights, s)"
    using rest by (auto simp: tx_bind_Inr dest: compute_weights_state)
  have sum: "0 < sum_list (map snd (shuffle weights))"
    using rest w assms(2) by (auto simp: tx_bind_Inr Let_def split: if_splits dest: advance_unpaid)
  have pay: "pay_all r ts finished h (shares_of shuffle r emission h weights s) s = Inr (u, s')"
    using rest w sum by (simp add: tx_bind_Inr tx_gets_Inr Let_def shares_of_def)
  have nz: "sum_shares (shares_of shuffle r emission h weights s) \<noteq> 0"
  proof
    assume "sum_shares (shares_of shuffle r emission h weights s) = 0"
    with pay have "advance_program (rp_id r) ts finished s = Inr (u, s')" by (simp add: pay_all_def)
    with assms(2) show False by (auto dest: advance_unpaid)
  qed
  show thesis by (rule that [OF h pos weights_nonneg [OF w] sum nz pay])
qed

lemma distribute_Inr:
  assumes "distribute_tx max_stale shuffle pid s = Inr (u, s')" and "\<not> unpaid s s'"
  obtains r l where "find_program s pid = Some r" and "0 < due_emission r (clock s)"
    and "pay_program max_stale shuffle r (clock s) (due_emission r (clock s)) (program_finished r (clock s))
       (s\<lparr>row_locks := l\<rparr>) = Inr (u, s')"
proof -
  let ?s = "s\<lparr>row_locks := acquire (ProgramLock pid) (row_locks s)\<rparr>"
  have f: "find_program ?s pid = find_program s pid" by (simp add: find_program_def)
  have far: "\<not> unpaid ?s s'" using assms(2) by (auto simp: unpaid_def books_ok_rows)
  obtain r where r: "find_program s pid = Some r"
    using assms by (cases "find_program s pid") (auto simp: distribute_tx_def take_lock_Inr tx_bind_Inr tx_gets_Inr tx_return_Inr f)
  have "rp_active r" "\<not> clock s < rp_start_at r" "\<not> elapsed_ms r (clock s) \<le> 0" "\<not> due_emission r (clock s) \<le> 0"
    using assms(1) far r
    by (auto simp: distribute_tx_def take_lock_Inr tx_bind_Inr tx_gets_Inr tx_return_Inr f split: if_splits dest: advance_unpaid)
  with r assms(1) show thesis
    by (intro that [of r "acquire (ProgramLock pid) (row_locks s)"])
      (auto simp: distribute_tx_def take_lock_Inr tx_bind_Inr tx_gets_Inr f)
qed

lemma shares_within:
  assumes "\<forall>(u, w)\<in>set weights. 0 \<le> w" and "mset (shuffle weights) = mset weights" and "0 \<le> emission"
    and "0 \<le> wallet_balance s h" and "0 < sum_list (map snd (shuffle weights))"
  shows "(\<Sum>(u, x, n)\<leftarrow>shares_of shuffle r emission h weights s. int n) \<le> min emission (wallet_balance s h)"
proof -
  let ?T = "sum_list (map snd (shuffle weights))" and ?e = "min emission (wallet_balance s h)"
  have "\<forall>(u, w)\<in>set (shuffle weights). 0 \<le> w" using assms(1,2) by (metis mset_eq_setD)
  from floors_within [OF this, of ?e ?T] assms(3-5)
  have "?T * (\<Sum>(u, w)\<leftarrow>shuffle weights. share_of ?e ?T w) \<le> ?T * ?e" by (simp add: mult.commute)
  then have "(\<Sum>(u, w)\<leftarrow>shuffle weights. share_of ?e ?T w) \<le> ?e" using assms(5) by (simp add: mult_le_cancel_left_pos)
  moreover have "0 \<le> ?e" using assms(3,4) by simp
  ultimately show ?thesis using payouts_within [of ?e ?T "rp_reward_coin r" "shuffle weights" s] assms(5)
    unfolding shares_of_def by linarith
qed

lemma load_prices_fresh:
  assumes "\<And>c. cached_price s c m = Inr (p c)"
  shows "load_prices cs m t s = Inr (\<lambda>c. if c \<in> set cs then Some (p c) else t c, s)"
proof (induction cs arbitrary: t)
  case (Cons c cs)
  have "get_price c m s = Inr (p c, s)" using assms by (simp add: get_price_def)
  then show ?case by (auto simp: tx_bind_def Cons.IH)
qed (simp add: tx_return_def)

lemma load_price_table_fresh:
  assumes "\<And>c. cached_price s c m = Inr (p c)"
  shows "load_price_table m s = Inr (\<lambda>c. Some (p c), s)"
proof -
  have "c \<in> set COINS" for c by (cases c) (simp_all add: COINS_def)
  then show ?thesis by (simp add: load_price_table_def load_prices_fresh [OF assms])
qed

section \<open>The properties\<close>

lemma paid_to_total:
  assumes "finite W" and "\<forall>(u, x, n)\<in>set ps. x \<in> W"
  shows "(\<Sum>x\<in>W. paid_to x ps) = (\<Sum>(u, x, n)\<leftarrow>ps. int n)"
  using assms(2)
proof (induction ps)
  case (Cons q ps)
  obtain u x n where q: "q = (u, x, n)" by (cases q)
  show ?case using Cons assms(1) by (simp add: q sum.distrib)
qed simp

lemma paid_to_none:
  assumes "\<And>u n. (u, x, n) \<notin> set ps"
  shows "paid_to x ps = 0"
proof -
  have "\<forall>(u, w, n)\<in>set ps. w \<noteq> x" using assms by auto
  then show ?thesis by (induction ps) auto
qed

lemma payouts_wallets:
  "(u, x, n) \<in> set (payouts coin e T ws s) \<Longrightarrow> wallet_id_of s u coin PERSONAL = Some x"
  by (auto simp: payouts_def List.map_filter_def Let_def split: option.splits if_splits)

lemma pays_state:
  assumes "books_ok s" and "\<forall>ws. mset (shuffle ws) = mset ws" and "0 < emission"
    and "house_wallet_id s HOUSE (rp_reward_coin r) = Inr h" and "0 < wallet_balance s h" and "wallet_balance s h < 2 ^ 128"
    and "\<forall>(u, w)\<in>set weights. 0 \<le> w" and "0 < sum_list (map snd (shuffle weights))"
    and "sum_shares (shares_of shuffle r emission h weights s) \<noteq> 0"
    and "pay_all r ts finished h (shares_of shuffle r emission h weights s) s = Inr (u, s')"
  shows "books_ok s' \<and> coin_total s' c = coin_total s c \<and>
    (\<exists>paid. 0 < paid \<and> paid \<le> min emission (wallet_balance s h) \<and> wallet_balance s' h = wallet_balance s h - paid)"
proof -
  let ?ps = "shares_of shuffle r emission h weights s" and ?c = "rp_reward_coin r"
  note pay = pay_all_Inr [OF assms(10,9,4)]
  have wf: "wallets_wf s" using assms(1) by (simp add: books_ok_def)
  have "(\<Sum>(u, x, n)\<leftarrow>?ps. int n) \<le> min emission (wallet_balance s h)"
    using assms(2,3,5) by (intro shares_within [where shuffle = shuffle and weights = weights, OF assms(7)] assms(8)) simp_all
  moreover from this have sum: "int (sum_shares ?ps) = (\<Sum>(u, x, n)\<leftarrow>?ps. int n)"
    using assms(6) by (intro sum_shares_exact) linarith
  ultimately have cap: "int (sum_shares ?ps) \<le> min emission (wallet_balance s h)" by simp
  have to: "wallet_id_of s u ?c PERSONAL = Some x" if "(u, x, n) \<in> set ?ps" for u x n
    using that payouts_wallets unfolding shares_of_def by blast
  have "paid_to h ?ps = 0"
    by (rule paid_to_none) (auto dest!: to house_user_wallets_differ [OF wf _ assms(4)])
  then have bal: "wallet_balance s' h = wallet_balance s h - int (sum_shares ?ps)" using pay by simp
  have "(\<Sum>x\<in>coin_wallets s c. wallet_balance s' x) = (\<Sum>x\<in>coin_wallets s c. wallet_balance s x) +
      (if h \<in> coin_wallets s c then - int (sum_shares ?ps) else 0) + (\<Sum>x\<in>coin_wallets s c. paid_to x ?ps)"
    using pay by (simp add: sum.distrib)
  moreover have "h \<in> coin_wallets s c \<longleftrightarrow> c = ?c" by (rule house_coin [OF wf assms(4)])
  moreover have "(\<Sum>x\<in>coin_wallets s c. paid_to x ?ps) = (if c = ?c then int (sum_shares ?ps) else 0)"
  proof (cases "c = ?c")
    case True
    then have "\<forall>(u, x, n)\<in>set ?ps. x \<in> coin_wallets s c" by (auto dest!: to account_coin [OF wf])
    with True sum show ?thesis by (simp add: paid_to_total)
  next
    case False
    then have "paid_to x ?ps = 0" if "x \<in> coin_wallets s c" for x
      using that by (intro paid_to_none) (auto dest!: to account_coin [OF wf, where c' = c])
    with False show ?thesis by simp
  qed
  ultimately have "(\<Sum>x\<in>coin_wallets s c. wallet_balance s' x) = (\<Sum>x\<in>coin_wallets s c. wallet_balance s x)" by simp
  moreover have "coin_wallets s' c = coin_wallets s c" using pay by (simp add: coin_wallets_def)
  ultimately have "coin_total s' c = coin_total s c" by (simp add: coin_total_def)
  moreover have "0 < int (sum_shares ?ps)" using assms(9) by simp
  ultimately show ?thesis using pay assms(1) bal cap by (intro conjI exI [of _ "int (sum_shares ?ps)"]) simp_all
qed

text \<open>
  A reward tick conserves every coin and keeps the books. Either it pays nothing, or it takes from HOUSE what it pays,
  which is no more than what came due since the last tick and no more than HOUSE has, in whatever order the
  users are visited.
\<close>

theorem reward_tick_conserves:
  assumes "distribute_program max_stale shuffle pid s = (Inr (), s')" and "books_ok s"
    and "\<forall>ws. mset (shuffle ws) = mset ws" and "\<forall>c h. house_wallet_id s HOUSE c = Inr h \<longrightarrow> wallet_balance s h < 2 ^ 128"
  shows "books_ok s' \<and> (\<forall>c. coin_total s' c = coin_total s c) \<and>
    (ledger s' = ledger s \<or> (\<exists>r h paid. find_program s pid = Some r \<and> house_wallet_id s HOUSE (rp_reward_coin r) = Inr h \<and>
       0 < paid \<and> paid \<le> min (due_emission r (clock s)) (wallet_balance s h) \<and> wallet_balance s' h = wallet_balance s h - paid))"
proof -
  obtain t where t: "distribute_tx max_stale shuffle pid s = Inr ((), t)" and s': "s' = release_locks t"
    using assms(1) by (auto simp: distribute_program_def commit_tx_success)
  have books: "books_ok s' = books_ok t" and led: "ledger s' = ledger t" by (simp_all add: s' books_ok_rows release_locks_def)
  show ?thesis
  proof (cases "unpaid s t")
    case True
    then have "coin_total s' c = coin_total s c" for c
      unfolding s' coin_total_release by (intro coin_total_cong) (simp_all add: unpaid_def)
    with True books led assms(2) show ?thesis by (simp add: unpaid_def)
  next
    case False
    obtain r l where r: "find_program s pid = Some r" and due: "0 < due_emission r (clock s)"
      and pay: "pay_program max_stale shuffle r (clock s) (due_emission r (clock s)) (program_finished r (clock s))
        (s\<lparr>row_locks := l\<rparr>) = Inr ((), t)" by (rule distribute_Inr [OF t False])
    let ?s = "s\<lparr>row_locks := l\<rparr>"
    have far: "\<not> unpaid ?s t" using False by (auto simp: unpaid_def books_ok_rows)
    obtain h weights where h: "house_wallet_id ?s HOUSE (rp_reward_coin r) = Inr h" and w: "0 < wallet_balance ?s h"
      "\<forall>(u, w)\<in>set weights. 0 \<le> w" "0 < sum_list (map snd (shuffle weights))"
      "sum_shares (shares_of shuffle r (due_emission r (clock s)) h weights ?s) \<noteq> 0"
      "pay_all r (clock s) (program_finished r (clock s)) h (shares_of shuffle r (due_emission r (clock s)) h weights ?s) ?s = Inr ((), t)"
      by (rule pay_program_Inr [OF pay far])
    have same: "house_wallet_id ?s HOUSE c = house_wallet_id s HOUSE c" "wallet_balance ?s x = wallet_balance s x"
      "coin_total ?s c = coin_total s c" for c x
      by (simp_all add: house_wallet_id_cong [of ?s s] wallet_balance_def coin_total_cong [of ?s s])
    have "wallet_balance ?s h < 2 ^ 128" using assms(4) h same by simp
    note state = pays_state [OF _ assms(3) due h w(1) this w(2-5)]
    have ok: "books_ok ?s" using assms(2) by (simp add: books_ok_rows)
    have "books_ok s'" "coin_total s' c = coin_total s c" for c
      using state [OF ok, of c] books same(3) by (simp_all add: s')
    moreover have "\<exists>paid. 0 < paid \<and> paid \<le> min (due_emission r (clock s)) (wallet_balance s h) \<and> wallet_balance s' h = wallet_balance s h - paid"
      using state [OF ok] same(2) wallet_balance_frame [OF led] by simp
    ultimately show ?thesis using r h same(1) by auto
  qed
qed

lemma tick_pays:
  assumes "distribute_tx max_stale shuffle pid s = Inr ((), t)" and "ledger t \<noteq> ledger s"
  obtains r h n l w x where "find_program s pid = Some r" and "rp_id r = pid"
    and "house_wallet_id s HOUSE (rp_reward_coin r) = Inr h" and "can_post (house_reward r h n) (s\<lparr>row_locks := l\<rparr>)"
    and "entry_of (house_reward r h n) w x \<in> set (ledger t)"
proof -
  have far: "\<not> unpaid s t" using assms(2) by (simp add: unpaid_def)
  obtain r l where r: "find_program s pid = Some r"
    and pay: "pay_program max_stale shuffle r (clock s) (due_emission r (clock s)) (program_finished r (clock s)) (s\<lparr>row_locks := l\<rparr>) = Inr ((), t)"
    by (rule distribute_Inr [OF assms(1) far])
  let ?s = "s\<lparr>row_locks := l\<rparr>"
  have far: "\<not> unpaid ?s t" using far by (auto simp: unpaid_def books_ok_rows)
  obtain h weights where h: "house_wallet_id ?s HOUSE (rp_reward_coin r) = Inr h"
    and nz: "sum_shares (shares_of shuffle r (due_emission r (clock s)) h weights ?s) \<noteq> 0"
    and run: "pay_all r (clock s) (program_finished r (clock s)) h (shares_of shuffle r (due_emission r (clock s)) h weights ?s) ?s = Inr ((), t)"
    by (rule pay_program_Inr [OF pay far])
  let ?n = "sum_shares (shares_of shuffle r (due_emission r (clock s)) h weights ?s)"
  have "can_post (house_reward r h ?n) ?s" "entry_of (house_reward r h ?n) (next_id s) (clock s) \<in> set (ledger t)"
    using pay_all_Inr [OF run nz h] by auto
  moreover have "house_wallet_id s HOUSE (rp_reward_coin r) = Inr h" using h house_wallet_id_cong [of ?s s] by simp
  moreover have "rp_id r = pid" using r by (auto simp: find_program_def find_Some_iff)
  ultimately show thesis using r that by blast
qed

text \<open>
  A reward program pays once and never again. The debit of HOUSE carries the program's id under one type and reference type,
  so the unique index refuses it in every later tick: the tick fails, and nothing is paid however much came due.
\<close>

theorem reward_program_pays_once:
  assumes "distribute_program max_stale shuffle pid s = (Inr (), s1)" and "ledger s1 \<noteq> ledger s"
    and "set (ledger s1) \<subseteq> set (ledger s2)" and "users s2 = users s" and "wallets s2 = wallets s"
    and "map_option rp_reward_coin (find_program s2 pid) = map_option rp_reward_coin (find_program s pid)"
  shows "ledger (snd (distribute_program max_stale' shuffle' pid s2)) = ledger s2"
proof (cases "distribute_tx max_stale' shuffle' pid s2")
  case (Inr z)
  then obtain t2 where t2: "distribute_tx max_stale' shuffle' pid s2 = Inr ((), t2)" by (cases z) auto
  obtain t where t: "distribute_tx max_stale shuffle pid s = Inr ((), t)" "ledger s1 = ledger t"
    using assms(1) by (auto simp: distribute_program_def commit_tx_success release_locks_def)
  have grown: "ledger t \<noteq> ledger s" using t(2) assms(2) by simp
  have "ledger t2 = ledger s2"
  proof (rule ccontr)
    assume grown2: "ledger t2 \<noteq> ledger s2"
    obtain r h n w x where first: "find_program s pid = Some r" "rp_id r = pid" "house_wallet_id s HOUSE (rp_reward_coin r) = Inr h"
      "entry_of (house_reward r h n) w x \<in> set (ledger t)" by (rule tick_pays [OF t(1) grown])
    obtain r' h' n' l where second: "find_program s2 pid = Some r'" "rp_id r' = pid"
      "house_wallet_id s2 HOUSE (rp_reward_coin r') = Inr h'" "can_post (house_reward r' h' n') (s2\<lparr>row_locks := l\<rparr>)"
      by (rule tick_pays [OF t2 grown2])
    have "house_wallet_id s2 HOUSE c = house_wallet_id s HOUSE c" for c using assms(4,5) by (rule house_wallet_id_cong)
    then have "h' = h" using first second assms(6) by simp
    then have "reference_conflict (house_reward r' h' n') (entry_of (house_reward r h n) w x)"
      using first(2) second(2) by (simp add: reference_conflict_def entry_of_def)
    moreover have "entry_of (house_reward r h n) w x \<in> set (ledger s2)" using first(4) t(2) assms(3) by auto
    ultimately show False using second(4) by (auto simp: can_post_def)
  qed
  then show ?thesis using t2 by (simp add: distribute_program_def commit_tx_def release_locks_def)
qed (simp add: distribute_program_def commit_tx_def)

section \<open>Witnesses\<close>

definition reward_demo :: db where
  "reward_demo = empty_db\<lparr>users := [house_user, \<lparr>u_id = 7, u_email = ''a'', u_username = ''a'', u_password_hash = []\<rparr>],
     wallets := [demo_wallet 1 1 Btc HOUSE, demo_wallet 2 7 Btc PERSONAL],
     ledger := [entry_of (simple_input 1 5000 DEPOSIT None None None) 3 0, entry_of (simple_input 2 500 DEPOSIT None None None) 4 0],
     price_cache := map (\<lambda>c. \<lparr>pc_coin = c, pc_price_scaled = 100000000, pc_price_decimals = 8, pc_fetched_at = 0\<rparr>) COINS,
     reward_programs := [\<lparr>rp_id = 5, rp_reward_coin = Btc, rp_market_coin = Btc, rp_side = BOTH_SIDES,
       rp_emission_per_day = 86400000, rp_start_at = 0, rp_end_at = None, rp_last_emitted_at = 0, rp_active = True,
       rp_created_by = None, rp_created_at = 0\<rparr>],
     next_id := 10, clock := 1000000\<rparr>"

lemma demo_prices: "load_price_table 2000000 (reward_demo\<lparr>row_locks := l\<rparr>) = Inr (\<lambda>c. Some (100000000, 8), reward_demo\<lparr>row_locks := l\<rparr>)"
proof (rule load_price_table_fresh)
  show "cached_price (reward_demo\<lparr>row_locks := l\<rparr>) c 2000000 = Inr (100000000, 8)" for c
    by (cases c) (simp_all add: cached_price_def reward_demo_def empty_db_def COINS_def dec_to_u128_def)
qed

lemma demo_weights: "compute_user_weights (\<lambda>c. Some (100000000, 8)) (reward_demo\<lparr>row_locks := l\<rparr>) = Inr ([(7, 500)], reward_demo\<lparr>row_locks := l\<rparr>)"
  by (simp add: compute_user_weights_def reward_demo_def empty_db_def tx_defs find_user_by_email_def house_user_def
      wallet_weights_def stake_weights_def grouped_def demo_wallet_def wallet_balance_def simple_input_def entry_of_def
      add_weight_def reward_value_usd_def price_scaled_def)

definition demo_program :: reward_program_row where
  "demo_program = hd (reward_programs reward_demo)"

lemma demo_program_sel [simp]: "rp_id demo_program = 5" "rp_reward_coin demo_program = Btc"
  by (simp_all add: demo_program_def reward_demo_def)

lemmas reward_demo_defs = reward_demo_def empty_db_def house_user_def demo_wallet_def simple_input_def entry_of_def

lemma demo_house: "house_wallet_id (reward_demo\<lparr>row_locks := l\<rparr>) HOUSE Btc = Inr 1"
  by (simp add: reward_demo_defs house_wallet_id_def find_user_by_email_def wallet_id_of_def)

lemma demo_pay: "\<exists>t. pay_all demo_program 1000000 False 1 [(7, 2, 1000)] (reward_demo\<lparr>row_locks := l\<rparr>) = Inr ((), t) \<and> length (ledger t) = 4 \<and>
    users t = users reward_demo \<and> wallets t = wallets reward_demo \<and> map_option rp_reward_coin (find_program t 5) = Some Btc"
proof -
  obtain l' where lock: "lock_wallets [2, 1] (reward_demo\<lparr>row_locks := l\<rparr>) = Inr ((), reward_demo\<lparr>row_locks := l'\<rparr>)"
    unfolding lock_wallets_Inr by simp
  let ?s = "reward_demo\<lparr>row_locks := l'\<rparr>" and ?h = "house_reward demo_program 1 1000" and ?u = "reward_input 5 Btc 2 1000"
  have sum: "sum_shares [(7, 2, 1000)] = 1000" by (simp add: sum_shares_def u128_add_def)
  have "can_post ?h ?s"
    by (simp add: can_post_def held_against_def find_wallet_def wallet_balance_def fits_numeric_def numeric_limit_def
        reference_conflict_def key_conflict_def reward_demo_defs)
  then have debit: "debit_house Btc 1000 REWARD 5 ''RewardProgram'' (reward_memo Btc) ?s = Inr ((), post_entry ?h ?s)"
    using debit_reward [of ?s demo_program 1 1000] demo_house by simp
  have "can_post ?u (post_entry ?h ?s)"
    by (simp add: can_post_def held_against_def find_wallet_def wallet_balance_def fits_numeric_def numeric_limit_def
        reference_conflict_def key_conflict_def reward_demo_defs reward_input_def)
  then have post: "apply_ledger_entry ?u (post_entry ?h ?s) = Inr (11, post_entry ?u (post_entry ?h ?s))"
    by (simp add: apply_ledger_entry_Inr) (simp add: reward_demo_def)
  have acc: "reward_accruals (post_entry ?u (post_entry ?h ?s)) = []"
    "reward_programs (post_entry ?u (post_entry ?h ?s)) = reward_programs reward_demo"
    by (simp_all add: post_entry_def reward_demo_defs)
  obtain t where claim: "add_claimed 7 5 1000 (post_entry ?u (post_entry ?h ?s)) = Inr ((), t)"
    and led: "ledger t = ledger (post_entry ?u (post_entry ?h ?s))" "users t = users reward_demo" "wallets t = wallets reward_demo"
      "reward_programs t = reward_programs reward_demo"
    using acc by (simp add: add_claimed_def tx_defs check_numeric_def fits_numeric_def numeric_limit_def)
  have "pay_share 5 Btc (7, 2, 1000) (post_entry ?h ?s) = Inr ((), t)"
    using post claim by (simp add: pay_share_def tx_bind_def tx_map_err_def)
  then have "pay_all demo_program 1000000 False 1 [(7, 2, 1000)] (reward_demo\<lparr>row_locks := l\<rparr>) =
      Inr ((), set_program 5 (\<lambda>r. r\<lparr>rp_last_emitted_at := 1000000\<rparr>) t)"
    using lock debit by (simp add: pay_all_def sum tx_bind_def tx_map_err_def tx_return_def advance_program_def tx_modify_def)
  then show ?thesis using led by (simp add: reward_demo_def find_program_def set_program_def update_where_def)
qed

lemma demo_run: "\<exists>s'. distribute_program 2000000 id 5 reward_demo = (Inr (), s') \<and> length (ledger s') = 4 \<and>
  users s' = users reward_demo \<and> wallets s' = wallets reward_demo \<and> map_option rp_reward_coin (find_program s' 5) = Some Btc"
proof -
  have b: "wallet_balance (reward_demo\<lparr>row_locks := l\<rparr>) 1 = 5000" for l
    by (simp add: reward_demo_def wallet_balance_def simple_input_def entry_of_def)
  have p: "payouts Btc 1000 500 [(7, 500)] (reward_demo\<lparr>row_locks := l\<rparr>) = [(7, 2, 1000)]" for l
    by (simp add: reward_demo_def empty_db_def payouts_def List.map_filter_def wallet_id_of_def demo_wallet_def dec_to_u128_def)
  have f: "find_program (reward_demo\<lparr>row_locks := l\<rparr>) 5 = Some demo_program" "clock (reward_demo\<lparr>row_locks := l\<rparr>) = 1000000" for l
    by (simp_all add: find_program_def demo_program_def reward_demo_def)
  have e: "elapsed_ms demo_program 1000000 = 1000" "due_emission demo_program 1000000 = 1000" "\<not> program_finished demo_program 1000000"
    "rp_active demo_program" "rp_start_at demo_program = 0"
    by (simp_all add: elapsed_ms_def due_emission_def program_finished_def demo_program_def reward_demo_def dec_to_u128_or_def
        dec_to_u128_def MS_PER_DAY_def)
  let ?s = "reward_demo\<lparr>row_locks := acquire (ProgramLock 5) (row_locks reward_demo)\<rparr>"
  obtain t where t: "pay_all demo_program 1000000 False 1 [(7, 2, 1000)] ?s = Inr ((), t)" "length (ledger t) = 4"
    "users t = users reward_demo" "wallets t = wallets reward_demo" "map_option rp_reward_coin (find_program t 5) = Some Btc"
    using demo_pay by blast
  have "distribute_tx 2000000 id 5 reward_demo = Inr ((), t)"
    using t(1) f e demo_house p b demo_prices demo_weights
    by (simp add: distribute_tx_def take_lock_def tx_bind_def tx_gets_def tx_modify_def pay_program_def Let_def tx_map_err_def get_wallet_balance_def)
  with t(2-5) show ?thesis by (simp add: distribute_program_def commit_tx_def release_locks_def find_program_def)
qed
lemma reward_demo_books: "books_ok reward_demo" "house_wallet_id reward_demo HOUSE c = Inr h \<Longrightarrow> wallet_balance reward_demo h = 5000"
  by (auto simp: reward_demo_defs books_ok_def wallets_wf_def entries_owned_def references_unique_def solvent_def wallet_balance_def
      reference_of_def key_of_def List.map_filter_def house_wallet_id_def wallet_id_of_def find_user_by_email_def
      split: option.splits if_splits)

theorem reward_tick_conserves_witness:
  "\<exists>s'. distribute_program 2000000 id 5 reward_demo = (Inr (), s') \<and> length (ledger s') = 4 \<and>
     coin_total s' Btc = coin_total reward_demo Btc \<and> books_ok s'"
proof -
  obtain s' where run: "distribute_program 2000000 id 5 reward_demo = (Inr (), s')" "length (ledger s') = 4" using demo_run by blast
  have "books_ok s' \<and> (\<forall>c. coin_total s' c = coin_total reward_demo c)"
    using reward_tick_conserves [OF run(1) reward_demo_books(1)] reward_demo_books(2) by simp
  with run show ?thesis by blast
qed

theorem reward_program_pays_once_witness:
  "\<exists>s1. distribute_program 2000000 id 5 reward_demo = (Inr (), s1) \<and> length (ledger s1) = 4 \<and>
     ledger (snd (distribute_program 2000000 id 5 (s1\<lparr>clock := 2000000\<rparr>))) = ledger s1"
proof -
  obtain s1 where run: "distribute_program 2000000 id 5 reward_demo = (Inr (), s1)" and s1: "length (ledger s1) = 4"
    "users s1 = users reward_demo" "wallets s1 = wallets reward_demo" "map_option rp_reward_coin (find_program s1 5) = Some Btc"
    using demo_run by blast
  have "length (ledger reward_demo) = 2" by (simp add: reward_demo_def)
  with s1(1) have "ledger s1 \<noteq> ledger reward_demo" by auto
  moreover have "map_option rp_reward_coin (find_program (s1\<lparr>clock := 2000000\<rparr>) 5) = map_option rp_reward_coin (find_program reward_demo 5)"
    using s1(4) by (simp add: find_program_def) (simp add: reward_demo_def)
  ultimately have "ledger (snd (distribute_program 2000000 id 5 (s1\<lparr>clock := 2000000\<rparr>))) = ledger (s1\<lparr>clock := 2000000\<rparr>)"
    using s1 by (intro reward_program_pays_once [OF run]) simp_all
  with run s1(1) show ?thesis by auto
qed

end
