(* ===== verification/Referral.thy ===== *)
theory Referral
  imports Airdrop Pricing
begin

text \<open>
  \<open>crates/db/src/referral.rs\<close> and \<open>usd_from_ledger_amount\<close> of \<open>pricing.rs\<close>: who referred whom, and the
  commissions logged for the referrer. \<open>last_login\<close> is the column of \<open>users\<close> that authentication writes. The statements are not
  in a transaction; what one of them wrote stays when a later one fails. Amounts that the code prints are the
  rationals they denote.

  The lemmas show that a user has one referrer who is another user, that linking again changes
  nothing, and that a referral code is matched as a \<open>LIKE\<close> pattern, wildcards included.
\<close>

section \<open>Postgres values\<close>

text \<open>A value stored in a \<open>NUMERIC(p, d)\<close> column is rounded to \<open>d\<close> decimals, half away from zero.\<close>

definition numeric_round :: "nat \<Rightarrow> rat \<Rightarrow> rat" where
  "numeric_round d x = sgn x * of_int \<lfloor>\<bar>x\<bar> * 10 ^ d + 1 / 2\<rfloor> / 10 ^ d"

definition store_numeric :: "nat \<Rightarrow> nat \<Rightarrow> rat \<Rightarrow> (db_error, rat) op" where
  "store_numeric p d x = tx_ok_or NumericOverflow
     (if \<bar>numeric_round d x\<bar> < 10 ^ (p - d) then Some (numeric_round d x) else None)"

definition check_varchar :: "nat \<Rightarrow> string \<Rightarrow> (db_error, unit) op" where
  "check_varchar n v = tx_assert (length v \<le> n) (ValueTooLong n)"

text \<open>\<open>LIKE\<close>: a backslash takes the next character of the pattern as it is.\<close>

fun like :: "string \<Rightarrow> string \<Rightarrow> bool" where
  "like [] t = (t = [])"
| "like (p # ps) t =
     (if p = CHR ''%'' then like ps t \<or> (case t of [] \<Rightarrow> False | _ # ts \<Rightarrow> like (p # ps) ts)
      else case t of
        [] \<Rightarrow> False
      | c # ts \<Rightarrow>
          if p = CHR ''_'' then like ps ts
          else if p = CHR 0x5C then (case ps of [] \<Rightarrow> False | q # qs \<Rightarrow> q = c \<and> like qs ts)
          else p = c \<and> like ps ts)"

section \<open>Links\<close>

definition matches_code :: "string \<Rightarrow> user_row \<Rightarrow> bool" where
  "matches_code code u \<longleftrightarrow>
     map lower_char (u_username u) = map lower_char code \<or> show_uuid (u_id u) = code \<or>
     like (code @ ''%'') (show_uuid (u_id u))"

definition insert_link :: "uuid \<Rightarrow> uuid \<Rightarrow> string \<Rightarrow> (db_error, bool) op" where
  "insert_link referrer referred code =
     tx_bind (check_varchar 64 code) (\<lambda>_.
     tx_bind (tx_gets (\<lambda>s. \<exists>r\<in>set (referral_links s). rf_referred r = referred)) (\<lambda>taken.
     if taken then tx_return False
     else
       tx_bind (check_user_fk ''referral_links'' referred) (\<lambda>_.
       tx_bind (tx_modify (\<lambda>s. s\<lparr>referral_links := referral_links s @
         [\<lparr>rf_referrer = referrer, rf_referred = referred, rf_code = code, rf_created_at = clock s\<rparr>]\<rparr>)) (\<lambda>_.
       tx_return True))))"

definition link_referred_user :: "string \<Rightarrow> uuid \<Rightarrow> db \<Rightarrow> (db_error + uuid option) \<times> db" where
  "link_referred_user code_or_username new_user s =
     (let clean = trim code_or_username in
      if clean = [] then (Inr None, s)
      else case List.find (matches_code clean) (users s) of
        None \<Rightarrow> (Inr None, s)
      | Some u \<Rightarrow>
          if u_id u = new_user then (Inr None, s)
          else (case insert_link (u_id u) new_user clean s of
             Inl e \<Rightarrow> (Inl e, s)
           | Inr (inserted, s1) \<Rightarrow>
               (Inr (Some (u_id u)),
                if inserted
                then snd (award_airdrop_points new_user 50 0 ''REFERRAL_WELCOME''
                       (snd (award_airdrop_points (u_id u) 50 0 ''REFERRAL_SIGNUP'' s1)))
                else s1)))"

section \<open>Commissions\<close>

text \<open>The price's decimals are capped at 18; the quotient of the decimals is exact.\<close>

definition usd_from_ledger_amount :: "db \<Rightarrow> Coin \<Rightarrow> rat \<Rightarrow> rat" where
  "usd_from_ledger_amount s coin amount =
     (let (dec, prices) = list_cached_prices s in
      case prices coin of
        None \<Rightarrow> 0
      | Some p \<Rightarrow> amount * of_nat p / (100000000 * 10 ^ min dec 18))"

definition insert_commission :: "uuid \<Rightarrow> uuid \<Rightarrow> string \<Rightarrow> string \<Rightarrow> rat \<Rightarrow> rat \<Rightarrow> (db_error, uuid) op" where
  "insert_commission referrer referred activity coin amount amount_usd =
     tx_bind (check_varchar 32 activity) (\<lambda>_.
     tx_bind (check_varchar 16 coin) (\<lambda>_.
     tx_bind (store_numeric 36 18 amount) (\<lambda>a.
     tx_bind (store_numeric 18 4 amount_usd) (\<lambda>usd.
     tx_bind (check_user_fk ''referral_commissions'' referred) (\<lambda>_.
     tx_bind fresh_uuid (\<lambda>cid.
     tx_bind (tx_modify (\<lambda>s. s\<lparr>commissions := commissions s @
       [\<lparr>cm_id = cid, cm_referrer = referrer, cm_referred = referred, cm_activity = activity, cm_coin = coin,
         cm_amount = a, cm_amount_usd = usd, cm_created_at = clock s\<rparr>]\<rparr>)) (\<lambda>_.
     tx_return cid)))))))"

definition record_referral_commission ::
    "uuid \<Rightarrow> string \<Rightarrow> string \<Rightarrow> rat \<Rightarrow> rat \<Rightarrow> db \<Rightarrow> (db_error + uuid option) \<times> db" where
  "record_referral_commission referred activity coin amount amount_usd s =
     (case List.find (\<lambda>r. rf_referred r = referred) (referral_links s) of
        None \<Rightarrow> (Inr None, s)
      | Some r \<Rightarrow>
          (case insert_commission (rf_referrer r) referred activity coin amount amount_usd s of
             Inl e \<Rightarrow> (Inl e, s)
           | Inr (cid, s1) \<Rightarrow>
               (Inr (Some cid), snd (award_airdrop_points (rf_referrer r) 10 0 ''COMMISSION_EARNED'' s1))))"

section \<open>Listings\<close>

record CoinEarning =
  ce_coin :: string
  ce_total_amount :: rat
  ce_total_usd :: rat

record ReferralStats =
  rt_referral_code :: string
  rt_referral_link :: string
  rt_total_referred :: nat
  rt_active_referred_24h :: nat
  rt_total_earned_usd :: rat
  rt_faucet_commission_pct :: int
  rt_swap_commission_pct :: int
  rt_merchant_commission_pct :: rat
  rt_earnings_by_coin :: "CoinEarning list"

definition active_since :: "(uuid \<Rightarrow> int option) \<Rightarrow> db \<Rightarrow> uuid \<Rightarrow> bool" where
  "active_since last_login s user =
     (case last_login user of None \<Rightarrow> False | Some t \<Rightarrow> clock s - 24 * 3600 * 1000000 \<le> t)"

definition links_of :: "db \<Rightarrow> uuid \<Rightarrow> referral_link_row list" where
  "links_of s user = filter (\<lambda>r. rf_referrer r = user) (referral_links s)"

definition commissions_of :: "db \<Rightarrow> uuid \<Rightarrow> commission_row list" where
  "commissions_of s user = filter (\<lambda>r. cm_referrer r = user) (commissions s)"

definition earning :: "commission_row list \<Rightarrow> string \<Rightarrow> CoinEarning" where
  "earning rows coin =
     (let mine = filter (\<lambda>r. cm_coin r = coin) rows in
      \<lparr>ce_coin = coin, ce_total_amount = sum_list (map cm_amount mine), ce_total_usd = sum_list (map cm_amount_usd mine)\<rparr>)"

definition referral_code_of :: "db \<Rightarrow> uuid \<Rightarrow> string" where
  "referral_code_of s user =
     (case List.find (\<lambda>u. u_id u = user) (users s) of
        Some u \<Rightarrow> if u_username u \<noteq> [] then u_username u else take 8 (show_uuid user)
      | None \<Rightarrow> take 8 (show_uuid user))"

definition get_referral_stats :: "(uuid \<Rightarrow> int option) \<Rightarrow> db \<Rightarrow> uuid \<Rightarrow> ReferralStats" where
  "get_referral_stats last_login s user =
     (let code = referral_code_of s user; rows = commissions_of s user in
      \<lparr>rt_referral_code = code, rt_referral_link = ''https://www.satspay.pro/r/'' @ code,
       rt_total_referred = length (links_of s user),
       rt_active_referred_24h = length (remdups (map rf_referred (filter (\<lambda>r. active_since last_login s (rf_referred r)) (links_of s user)))),
       rt_total_earned_usd = sum_list (map cm_amount_usd rows), rt_faucet_commission_pct = 10,
       rt_swap_commission_pct = 10, rt_merchant_commission_pct = 1 / 10,
       rt_earnings_by_coin = map (earning rows) (remdups (map cm_coin rows))\<rparr>)"

definition clamp_limit :: "int \<Rightarrow> nat" where
  "clamp_limit n = nat (max 1 (min n 100))"

definition list_user_commissions :: "db \<Rightarrow> uuid \<Rightarrow> int \<Rightarrow> commission_row list" where
  "list_user_commissions s user n =
     take (clamp_limit n) (sort_key (\<lambda>r. - cm_created_at r) (commissions_of s user))"

record ReferredUserItem =
  ri_id :: uuid
  ri_username :: string
  ri_referral_code :: string
  ri_is_active_24h :: bool
  ri_total_commissions_usd :: rat
  ri_joined_at :: int

text \<open>\<open>SPLIT_PART(email, '@', 2)\<close>: what stands between the first and the second at sign.\<close>

definition masked_email :: "string \<Rightarrow> string" where
  "masked_email m = take 3 m @ ''***@'' @ takeWhile (\<lambda>c. c \<noteq> CHR ''@'') (tl (dropWhile (\<lambda>c. c \<noteq> CHR ''@'') m))"

definition referred_item :: "(uuid \<Rightarrow> int option) \<Rightarrow> db \<Rightarrow> referral_link_row \<Rightarrow> ReferredUserItem option" where
  "referred_item last_login s r = map_option (\<lambda>u.
     \<lparr>ri_id = rf_referred r, ri_username = (if u_username u \<noteq> [] then u_username u else masked_email (u_email u)),
      ri_referral_code = rf_code r, ri_is_active_24h = active_since last_login s (rf_referred r),
      ri_total_commissions_usd = sum_list (map cm_amount_usd (filter (\<lambda>c. cm_referred c = rf_referred r) (commissions_of s (rf_referrer r)))),
      ri_joined_at = rf_created_at r\<rparr>) (List.find (\<lambda>u. u_id u = rf_referred r) (users s))"

definition list_referred_users :: "(uuid \<Rightarrow> int option) \<Rightarrow> db \<Rightarrow> uuid \<Rightarrow> int \<Rightarrow> ReferredUserItem list" where
  "list_referred_users last_login s user n =
     take (clamp_limit n) (List.map_filter (referred_item last_login s) (sort_key (\<lambda>r. - rf_created_at r) (links_of s user)))"

section \<open>One referrer per user\<close>

definition links_ok :: "db \<Rightarrow> bool" where
  "links_ok s \<longleftrightarrow> distinct (map rf_referred (referral_links s)) \<and> (\<forall>r\<in>set (referral_links s). rf_referrer r \<noteq> rf_referred r)"

lemma award_frames [simp]:
  "referral_links (snd (award_airdrop_points u b n a s)) = referral_links s"
  "users (snd (award_airdrop_points u b n a s)) = users s"
  "commissions (snd (award_airdrop_points u b n a s)) = commissions s"
  by (auto simp: award_airdrop_points_def release_locks_def split: sum.splits prod.splits AwardResult.splits dest!: award_frame)

lemma insert_link_Inr:
  assumes "insert_link referrer referred code s = Inr (b, s')"
  shows "if \<exists>r\<in>set (referral_links s). rf_referred r = referred then \<not> b \<and> s' = s
    else b \<and> s' = s\<lparr>referral_links := referral_links s @
      [\<lparr>rf_referrer = referrer, rf_referred = referred, rf_code = code, rf_created_at = clock s\<rparr>]\<rparr>"
  using assms by (auto simp: insert_link_def check_varchar_def check_user_fk_def tx_simps split: if_splits)

definition referrer_of :: "db \<Rightarrow> uuid \<Rightarrow> uuid option" where
  "referrer_of s user = map_option rf_referrer (List.find (\<lambda>r. rf_referred r = user) (referral_links s))"

lemma referrer_of_None: "referrer_of s user = None \<longleftrightarrow> (\<forall>r\<in>set (referral_links s). rf_referred r \<noteq> user)"
  by (auto simp: referrer_of_def find_None_iff)

lemma link_cases:
  assumes "link_referred_user code user s = (res, s')"
  obtains (unchanged) "s' = s"
    | (linked) u t where "List.find (matches_code (trim code)) (users s) = Some u" "u_id u \<noteq> user" "referrer_of s user = None"
        "res = Inr (Some (u_id u))" "referral_links s' = referral_links s @
          [\<lparr>rf_referrer = u_id u, rf_referred = user, rf_code = trim code, rf_created_at = t\<rparr>]" "users s' = users s"
proof -
  show thesis
  proof (cases "s' = s")
    case False
    obtain u where u: "List.find (matches_code (trim code)) (users s) = Some u" "u_id u \<noteq> user"
      using assms False by (auto simp: link_referred_user_def Let_def split: if_splits option.splits)
    obtain b s1 where ins: "insert_link (u_id u) user (trim code) s = Inr (b, s1)"
      using assms False u
      by (cases "insert_link (u_id u) user (trim code) s") (auto simp: link_referred_user_def Let_def split: if_splits)
    have b: b "referrer_of s user = None" and s1: "s1 = s\<lparr>referral_links := referral_links s @
      [\<lparr>rf_referrer = u_id u, rf_referred = user, rf_code = trim code, rf_created_at = clock s\<rparr>]\<rparr>"
      using insert_link_Inr [OF ins] assms False u ins
      by (auto simp: link_referred_user_def Let_def referrer_of_None split: if_splits)
    have "res = Inr (Some (u_id u))"
      "s' = snd (award_airdrop_points user 50 0 ''REFERRAL_WELCOME'' (snd (award_airdrop_points (u_id u) 50 0 ''REFERRAL_SIGNUP'' s1)))"
      using assms False u ins b(1) by (auto simp: link_referred_user_def Let_def split: if_splits)
    then show thesis using linked [OF u b(2), of "clock s"] s1 by simp
  qed (rule unchanged)
qed

text \<open>
  A user has at most one referrer, who is another user, and keeps it: linking keeps the table of links well formed and
  every link in it, and for a user who has a referrer it changes nothing, so the signup points are given once.
\<close>

theorem referrer_fixed:
  assumes "link_referred_user code user s = (res, s')" and "links_ok s"
  shows "links_ok s' \<and> (\<forall>x r. referrer_of s x = Some r \<longrightarrow> referrer_of s' x = Some r) \<and>
    (referrer_of s user \<noteq> None \<longrightarrow> s' = s)"
  using assms(1)
proof (cases rule: link_cases)
  case unchanged
  with assms(2) show ?thesis by simp
next
  case (linked u t)
  have "links_ok s'" using linked(2,3,5) assms(2) by (auto simp: links_ok_def referrer_of_None)
  moreover have "referrer_of s' x = Some r" if "referrer_of s x = Some r" for x r
    using that linked(5) by (auto simp: referrer_of_def find_append split: option.splits)
  ultimately show ?thesis using linked(3) by simp
qed

lemma like_percent: "like ''%'' t"
  by (induction t) simp_all

text \<open>
  A referral code is a pattern: the code \<open>%\<close> matches every user, and links whoever signs up with it to the first one.
\<close>

theorem percent_links_anyone:
  assumes "users s = u # us" and "u_id u \<noteq> user" and "referrer_of s user = None" and "\<exists>x\<in>set us. u_id x = user"
  shows "referrer_of (snd (link_referred_user ''%'' user s)) user = Some (u_id u)"
proof -
  have "like (''%'' @ ''%'') (show_uuid (u_id u))" using like_percent by simp
  moreover have "trim ''%'' = ''%''" by (simp add: trim_def is_space_def)
  ultimately have "matches_code (trim ''%'') u" by (simp only: matches_code_def) blast
  then have find: "List.find (matches_code (trim ''%'')) (users s) = Some u" by (simp add: assms(1))
  have "trim ''%'' \<noteq> []" "length (trim ''%'') \<le> 64" by (simp_all add: trim_def is_space_def)
  then have "insert_link (u_id u) user (trim ''%'') s = Inr (True, s\<lparr>referral_links := referral_links s @
      [\<lparr>rf_referrer = u_id u, rf_referred = user, rf_code = trim ''%'', rf_created_at = clock s\<rparr>]\<rparr>)"
    using assms(1,3,4) by (auto simp: insert_link_def check_varchar_def check_user_fk_def referrer_of_None tx_defs)
  then show ?thesis
    using find assms(2,3) \<open>trim ''%'' \<noteq> []\<close>
    by (simp add: link_referred_user_def referrer_of_def find_append)
qed

section \<open>Witnesses\<close>

definition referral_demo :: db where
  "referral_demo = empty_db\<lparr>users := map (\<lambda>i. \<lparr>u_id = i, u_email = ''m'', u_username = ''u'', u_password_hash = []\<rparr>) [1, 7]\<rparr>"

theorem referrer_fixed_witness:
  "links_ok (snd (link_referred_user ''u'' 7 referral_demo))"
  using referrer_fixed [of "''u''" 7 referral_demo] by (simp add: prod_eq_iff links_ok_def referral_demo_def empty_db_def)

theorem percent_links_anyone_witness:
  "referrer_of (snd (link_referred_user ''%'' 7 referral_demo)) 7 = Some 1"
  using percent_links_anyone [of referral_demo "\<lparr>u_id = 1, u_email = ''m'', u_username = ''u'', u_password_hash = []\<rparr>"
      "[\<lparr>u_id = 7, u_email = ''m'', u_username = ''u'', u_password_hash = []\<rparr>]" 7]
  by (simp add: referral_demo_def empty_db_def referrer_of_def)

end
