(* ===== verification/SwapKitQuote.thy ===== *)
theory SwapKitQuote
  imports SwapKit
begin

text \<open>
  \<open>crates/swapkit/src/lib.rs\<close>, \<open>quote\<close>: the request, the answer's deserialisation with its lossy readers of numbers, and the
  platform fee of each route. \<open>str::parse::<f64>\<close> is written out: a finite result is the decimal's value rounded by
  \<open>f64\<close>, zero below half the smallest positive double.
\<close>

section \<open>Reading floats\<close>

datatype f64_value = F64_NaN | F64_Inf bool | F64_Fin rat \<comment> \<open>the flag: negative\<close>

definition is_digit_char :: "char \<Rightarrow> bool" where
  "is_digit_char c \<longleftrightarrow> digit_value c \<noteq> None"

fun digits_nat :: "nat \<Rightarrow> string \<Rightarrow> nat" where
  "digits_nat acc [] = acc"
| "digits_nat acc (c # cs) = digits_nat (acc * 10 + (case digit_value c of None \<Rightarrow> 0 | Some d \<Rightarrow> d)) cs"

definition read_sign :: "string \<Rightarrow> bool \<times> string" where
  "read_sign s = (case s of c # cs \<Rightarrow> if c = CHR ''-'' then (True, cs) else if c = CHR ''+'' then (False, cs) else (False, s)
     | [] \<Rightarrow> (False, []))"

text \<open>An exponent: its value, if the text is one or is empty.\<close>

definition read_exponent :: "string \<Rightarrow> int option" where
  "read_exponent s =
     (case s of
        [] \<Rightarrow> Some 0
      | e # rest \<Rightarrow>
          if lower_char e \<noteq> CHR ''e'' then None
          else (case read_sign rest of (neg, ds) \<Rightarrow>
            if ds = [] \<or> \<not> list_all is_digit_char ds then None
            else Some (if neg then - int (digits_nat 0 ds) else int (digits_nat 0 ds))))"

definition read_decimal :: "string \<Rightarrow> rat option" where
  "read_decimal s =
     (let whole = takeWhile is_digit_char s; rest = dropWhile is_digit_char s;
          dotted = (rest \<noteq> [] \<and> hd rest = CHR ''.'');
          frac = (if dotted then takeWhile is_digit_char (tl rest) else []);
          tail = (if dotted then dropWhile is_digit_char (tl rest) else rest)
      in if whole = [] \<and> frac = [] then None
         else case read_exponent tail of
           None \<Rightarrow> None
         | Some e \<Rightarrow> Some (of_nat (digits_nat 0 (whole @ frac)) *
             (let k = e - int (length frac) in if 0 \<le> k then 10 ^ nat k else 1 / 10 ^ nat (- k))))"

definition to_f64 :: "bool \<Rightarrow> rat \<Rightarrow> f64_value" where
  "to_f64 neg x =
     (if x * 2 ^ 1075 \<le> 1 then F64_Fin 0
      else if 2 ^ 1024 \<le> f64 x then F64_Inf neg
      else F64_Fin (if neg then - f64 x else f64 x))"

definition parse_f64 :: "string \<Rightarrow> f64_value option" where
  "parse_f64 s =
     (let (neg, body) = read_sign s in
      if lower body = ''nan'' then Some F64_NaN
      else if lower body = ''inf'' \<or> lower body = ''infinity'' then Some (F64_Inf neg)
      else map_option (to_f64 neg) (read_decimal body))"

text \<open>\<open>f.ceil().max(0.0) as u64\<close> and \<open>f.round() as i64\<close>: casts saturate, NaN gives zero.\<close>

fun ceil_u64 :: "f64_value \<Rightarrow> nat" where
  "ceil_u64 F64_NaN = 0"
| "ceil_u64 (F64_Inf neg) = (if neg then 0 else 2 ^ 64 - 1)"
| "ceil_u64 (F64_Fin x) = min (nat \<lceil>x\<rceil>) (2 ^ 64 - 1)"

definition clamp_i64 :: "int \<Rightarrow> int" where
  "clamp_i64 n = max (- (2 ^ 63)) (min n (2 ^ 63 - 1))"

fun round_i64 :: "f64_value \<Rightarrow> int" where
  "round_i64 F64_NaN = 0"
| "round_i64 (F64_Inf neg) = (if neg then - (2 ^ 63) else 2 ^ 63 - 1)"
| "round_i64 (F64_Fin x) = clamp_i64 (if x < 0 then - \<lfloor>- x + 1 / 2\<rfloor> else \<lfloor>x + 1 / 2\<rfloor>)"

section \<open>Lossy fields\<close>

text \<open>\<open>Number::as_i64\<close>: an integer text that fits.\<close>

definition json_as_i64 :: "json \<Rightarrow> int option" where
  "json_as_i64 v =
     (case json_as_u64 v of
        Some n \<Rightarrow> if n < 2 ^ 63 then Some (int n) else None
      | None \<Rightarrow> (case v of
          JNum (c # cs) \<Rightarrow> if c = CHR ''-'' \<and> cs \<noteq> [] \<and> list_all is_digit_char cs \<and> digits_nat 0 cs \<le> 2 ^ 63
            then Some (- int (digits_nat 0 cs)) else None
        | _ \<Rightarrow> None))"

definition de_opt_u64_ceil :: "string \<Rightarrow> json \<Rightarrow> nat option" where
  "de_opt_u64_ceil k v =
     (case json_get k v of
        None \<Rightarrow> None
      | Some x \<Rightarrow>
          (case x of
             JNum t \<Rightarrow>
               (case json_as_u64 x of
                  Some u \<Rightarrow> Some u
                | None \<Rightarrow> (case json_as_i64 x of Some i \<Rightarrow> Some (nat i) | None \<Rightarrow> map_option ceil_u64 (parse_f64 t)))
           | JStr t \<Rightarrow> map_option ceil_u64 (parse_f64 t)
           | _ \<Rightarrow> None))"

definition de_opt_i64_lossy :: "string \<Rightarrow> json \<Rightarrow> int option" where
  "de_opt_i64_lossy k v =
     (case json_get k v of
        None \<Rightarrow> None
      | Some x \<Rightarrow>
          (case x of
             JNum t \<Rightarrow>
               (case json_as_i64 x of
                  Some i \<Rightarrow> Some i
                | None \<Rightarrow> (case json_as_u64 x of Some u \<Rightarrow> Some (min (int u) (2 ^ 63 - 1)) | None \<Rightarrow> map_option round_i64 (parse_f64 t)))
           | JStr t \<Rightarrow> map_option round_i64 (parse_f64 t)
           | _ \<Rightarrow> None))"

section \<open>The answer\<close>

record ProviderFee =
  pf_type :: string
  pf_amount :: string
  pf_asset :: string
  pf_chain :: "string option"
  pf_protocol :: "string option"

record EstimatedTime =
  et_inbound :: "nat option"
  et_swap :: "nat option"
  et_outbound :: "nat option"
  et_total :: "nat option"

record QuoteRoute =
  qr_route_id :: string
  qr_providers :: "string list"
  qr_sell_asset :: "string option"
  qr_buy_asset :: "string option"
  qr_sell_amount :: "string option"
  qr_expected_buy_amount :: "string option"
  qr_expected_buy_amount_max_slippage :: "string option"
  qr_fees :: "ProviderFee list"
  qr_estimated_time :: "EstimatedTime option"
  qr_total_slippage_bps :: "int option"
  qr_tx_hint :: "string option"
  qr_meta :: "json option"
  qr_platform_fee_bps :: "nat option"

record QuoteResponse =
  qp_quote_id :: "string option"
  qp_routes :: "QuoteRoute list"
  qp_provider_errors :: "json option"

definition de_provider_fee :: "json \<Rightarrow> ProviderFee option" where
  "de_provider_fee v =
     (case (json_as_object v, de_str_default ''type'' v, de_str_default ''amount'' v) of
        (Some _, Some ty, Some amount) \<Rightarrow>
          (case (de_str_default ''asset'' v, de_opt_str ''chain'' v, de_opt_str ''protocol'' v) of
             (Some asset, Some chain, Some protocol) \<Rightarrow>
               Some \<lparr>pf_type = ty, pf_amount = amount, pf_asset = asset, pf_chain = chain, pf_protocol = protocol\<rparr>
           | _ \<Rightarrow> None)
      | _ \<Rightarrow> None)"

definition de_estimated_time :: "json \<Rightarrow> EstimatedTime option" where
  "de_estimated_time v = map_option (\<lambda>_.
     \<lparr>et_inbound = de_opt_u64_ceil ''inbound'' v, et_swap = de_opt_u64_ceil ''swap'' v,
      et_outbound = de_opt_u64_ceil ''outbound'' v, et_total = de_opt_u64_ceil ''total'' v\<rparr>) (json_as_object v)"

text \<open>An optional field of another type: absent or null is none.\<close>

definition de_opt_with :: "(json \<Rightarrow> 'a option) \<Rightarrow> string \<Rightarrow> json \<Rightarrow> 'a option option" where
  "de_opt_with f k v =
     (case de_opt_value k v of None \<Rightarrow> Some None | Some x \<Rightarrow> (case f x of None \<Rightarrow> None | Some y \<Rightarrow> Some (Some y)))"

definition json_as_u32 :: "json \<Rightarrow> nat option" where
  "json_as_u32 v = (case json_as_u64 v of None \<Rightarrow> None | Some n \<Rightarrow> if n < 2 ^ 32 then Some n else None)"

definition de_quote_route :: "json \<Rightarrow> QuoteRoute option" where
  "de_quote_route v =
     (case (json_as_object v, de_str ''routeId'' v, de_vec json_as_str ''providers'' v) of
        (Some _, Some rid, Some ps) \<Rightarrow>
          (case (de_opt_str ''sellAsset'' v, de_opt_str ''buyAsset'' v, de_opt_str ''sellAmount'' v) of
             (Some sell, Some buy, Some amount) \<Rightarrow>
               (case (de_opt_str ''expectedBuyAmount'' v, de_opt_str ''expectedBuyAmountMaxSlippage'' v,
                      de_vec de_provider_fee ''fees'' v) of
                  (Some expected, Some slipped, Some fees) \<Rightarrow>
                    (case (de_opt_with de_estimated_time ''estimatedTime'' v, de_opt_str ''txHint'' v,
                           de_opt_with json_as_u32 ''platformFeeBps'' v) of
                       (Some eta, Some hint, Some bps) \<Rightarrow>
                         Some \<lparr>qr_route_id = rid, qr_providers = ps, qr_sell_asset = sell, qr_buy_asset = buy,
                           qr_sell_amount = amount, qr_expected_buy_amount = expected,
                           qr_expected_buy_amount_max_slippage = slipped, qr_fees = fees, qr_estimated_time = eta,
                           qr_total_slippage_bps = de_opt_i64_lossy ''totalSlippageBps'' v, qr_tx_hint = hint,
                           qr_meta = de_opt_value ''meta'' v, qr_platform_fee_bps = bps\<rparr>
                     | _ \<Rightarrow> None)
                | _ \<Rightarrow> None)
           | _ \<Rightarrow> None)
      | _ \<Rightarrow> None)"

definition de_quote_response :: "json \<Rightarrow> QuoteResponse option" where
  "de_quote_response v =
     (case (json_as_object v, de_opt_str ''quoteId'' v, de_vec de_quote_route ''routes'' v) of
        (Some _, Some qid, Some routes) \<Rightarrow>
          Some \<lparr>qp_quote_id = qid, qp_routes = routes, qp_provider_errors = de_opt_value ''providerErrors'' v\<rparr>
      | _ \<Rightarrow> None)"

section \<open>The request\<close>

definition quote_body :: "SwapKitClient \<Rightarrow> string \<Rightarrow> string \<Rightarrow> string \<Rightarrow> nat \<Rightarrow> string option \<Rightarrow> string option \<Rightarrow> json" where
  "quote_body c sell buy amount fee_bps source destination = JObj
     ([(''sellAsset'', JStr sell), (''buyAsset'', JStr buy), (''sellAmount'', JStr amount),
       (''slippage'', JNum (sk_slippage c)), (''affiliateFee'', JNum (show_nat fee_bps)),
       (''txHints'', JArr [JStr ''simpleTransfer'', JStr ''transferWithMemo'', JStr ''contractCall''])] @
      (case source of None \<Rightarrow> [] | Some a \<Rightarrow> [(''sourceAddress'', JStr a)]) @
      (case destination of None \<Rightarrow> [] | Some a \<Rightarrow> [(''destinationAddress'', JStr a)]))"

definition sk_quote ::
    "http \<Rightarrow> SwapKitClient \<Rightarrow> Coin \<Rightarrow> Coin \<Rightarrow> nat \<Rightarrow> string option \<Rightarrow> string option \<Rightarrow> SwapKitError + QuoteResponse" where
  "sk_quote H c src dst amount source destination =
     (case asset_id src of
        None \<Rightarrow> Inl (SkUnsupportedAsset (coin_str src))
      | Some sell \<Rightarrow>
     (case asset_id dst of
        None \<Rightarrow> Inl (SkUnsupportedAsset (coin_str dst))
      | Some buy \<Rightarrow>
          if amount = 0 then Inl SkInvalidAmount
          else (case sk_post H c ''/v3/quote''
              (quote_body c sell buy (format_amount amount src) (platform_fee_bps c [] src dst) source destination) of
            Inl e \<Rightarrow> Inl (SkHttp e)
          | Inr (st, text) \<Rightarrow>
              if st = 404 then Inl SkNoRoutes
              else if \<not> is_success_status st then Inl (SkApi (status_text H st @ '': '' @ text))
              else (case sk_decode H de_quote_response text of
                 Inl e \<Rightarrow> Inl e
               | Inr q \<Rightarrow>
                   if qp_routes q = [] then Inl SkNoRoutes
                   else Inr (q\<lparr>qp_routes := map (\<lambda>r. r\<lparr>qr_platform_fee_bps :=
                     Some (platform_fee_bps c (qr_providers r) src dst)\<rparr>) (qp_routes q)\<rparr>)))))"

section \<open>Lemmas\<close>

lemma ceil_u64_fits: "ceil_u64 v < 2 ^ 64"
  by (cases v) (simp_all add: min_less_iff_disj)

lemma round_i64_fits: "- (2 ^ 63) \<le> round_i64 v \<and> round_i64 v < 2 ^ 63"
  by (cases v) (simp_all add: clamp_i64_def)

text \<open>A fractional time is rounded up: no route is promised faster than it is.\<close>

lemma ceil_u64_covers: "x \<le> 2 ^ 64 - 1 \<Longrightarrow> x \<le> of_nat (ceil_u64 (F64_Fin x))"
proof -
  assume "x \<le> 2 ^ 64 - 1"
  then have "\<lceil>x\<rceil> \<le> 2 ^ 64 - 1" by (simp add: ceiling_le_iff)
  then have "nat \<lceil>x\<rceil> \<le> 2 ^ 64 - 1" by (simp add: nat_le_iff)
  moreover have "x \<le> of_nat (nat \<lceil>x\<rceil>)"
  proof (cases "0 \<le> x")
    case True
    then have "0 \<le> \<lceil>x\<rceil>" by (simp add: le_ceiling_iff)
    then show ?thesis using le_of_int_ceiling [of x] by (simp add: of_nat_nat)
  next
    case False
    then have "x \<le> 0" by simp
    also have "(0 :: rat) \<le> of_nat (nat \<lceil>x\<rceil>)" by simp
    finally show ?thesis .
  qed
  ultimately show ?thesis by (simp add: min_def)
qed

lemma sk_quote_fee:
  assumes "sk_quote H c src dst amount source destination = Inr q" and "r \<in> set (qp_routes q)"
  shows "qr_platform_fee_bps r = Some (platform_fee_bps c (qr_providers r) src dst)"
  using assms by (auto simp: sk_quote_def split: option.splits if_splits sum.splits prod.splits)

end
