(* ===== verification/SwapRoutes.thy ===== *)
theory SwapRoutes
  imports SwapKitQuote DexRunner SwapService Referral
begin

text \<open>
  \<open>crates/api-http/src/swap.rs\<close>, the quotes: the routes the providers offer for a pair, what each promises the user and
  at least, the platform's fee, and the errors gathered on the way. The environment of the server is the record
  \<open>swap_env\<close>: the providers, the settings read from environment variables, the derivation of the hot wallet's addresses
  and the balance query, which are parameters. A handler's answer is the value its JSON encodes.
\<close>

section \<open>The environment\<close>

record swap_env =
  se_providers :: swap_providers
  se_house_enabled :: bool
  se_slippage_pct :: rat \<comment> \<open>\<open>SWAP_SLIPPAGE_PCT\<close>, 2 by default\<close>
  se_max_stale :: int
  se_fresh :: uuid \<comment> \<open>the next \<open>Uuid::new_v4\<close> of a relay quote\<close>
  se_mnemonic :: "string option" \<comment> \<open>of the server's state\<close>
  se_env_mnemonic :: "string option"
  se_env_keys :: "string option list" \<comment> \<open>the three variables, in the order they are tried\<close>
  se_from_mnemonic :: "string \<Rightarrow> Coin \<Rightarrow> string + string"
  se_from_key :: "Coin \<Rightarrow> string \<Rightarrow> string + string"
  se_bnb_balance :: "string \<Rightarrow> string + nat" \<comment> \<open>wei, or the text of the failure\<close>
  se_bnb_text :: "nat \<Rightarrow> string"

definition non_blank :: "string \<Rightarrow> bool" where
  "non_blank t \<longleftrightarrow> trim t \<noteq> []"

definition find_trimmed :: "string option \<Rightarrow> string option" where
  "find_trimmed v = (case v of None \<Rightarrow> None | Some t \<Rightarrow> if non_blank t then Some (trim t) else None)"

text \<open>Only the first of the variables that is set counts, blank or not.\<close>

definition first_set :: "string option list \<Rightarrow> string option" where
  "first_set vs = (case filter (\<lambda>v. v \<noteq> None) vs of v # _ \<Rightarrow> v | [] \<Rightarrow> None)"

definition resolve_hot_address :: "swap_env \<Rightarrow> Coin \<Rightarrow> string + string" where
  "resolve_hot_address E coin =
     (case or_else (find_trimmed (se_mnemonic E)) (find_trimmed (se_env_mnemonic E)) of
        Some m \<Rightarrow> se_from_mnemonic E m coin
      | None \<Rightarrow>
          (case first_set (se_env_keys E) of
             None \<Rightarrow> Inl (''HOT_MNEMONIC not configured for '' @ coin_str coin)
           | Some key \<Rightarrow>
               if \<not> non_blank key then Inl (''HOT_MNEMONIC not configured for '' @ coin_str coin)
               else se_from_key E coin key))"

definition MIN_BNB_WEI_FOR_PEPE_SWAP :: nat where
  "MIN_BNB_WEI_FOR_PEPE_SWAP = 5000000000000000"

definition ensure_hot_bnb_for_pepe_swap :: "swap_env \<Rightarrow> string + unit" where
  "ensure_hot_bnb_for_pepe_swap E =
     (case resolve_hot_address E Pepe of
        Inl e \<Rightarrow> Inl e
      | Inr a \<Rightarrow>
          (case se_bnb_balance E a of
             Inl e \<Rightarrow> Inl e
           | Inr wei \<Rightarrow>
               if wei < MIN_BNB_WEI_FOR_PEPE_SWAP
               then Inl (''hot wallet sem BNB para gas do PEPE na BSC (tem '' @ se_bnb_text E wei @ '' BNB, m'' @
                 [CHR 0xC3, CHR 0xAD] @ ''nimo 0.005). Abaste'' @ [CHR 0xC3, CHR 0xA7] @ ''a a hot.'')
               else Inr ()))"

section \<open>A route\<close>

record AmountCoin =
  ac_amount :: string
  ac_amount_human :: string
  ac_coin :: string

definition amount_coin :: "nat \<Rightarrow> Coin \<Rightarrow> AmountCoin" where
  "amount_coin n coin = \<lparr>ac_amount = show_nat n, ac_amount_human = format_amount n coin, ac_coin = coin_str coin\<rparr>"

record PlatformFee =
  pl_bps :: nat
  pl_amount :: string
  pl_amount_human :: string
  pl_asset :: string
  pl_label :: string

record NetworkFeeItem =
  nf_type :: string
  nf_amount :: string
  nf_asset :: string

record QuoteRouteResp =
  rr_route_id :: string
  rr_provider :: string
  rr_providers :: "string list"
  rr_tags :: "string list"
  rr_you_pay :: AmountCoin
  rr_you_receive :: AmountCoin
  rr_min_receive :: AmountCoin
  rr_network_fees :: "NetworkFeeItem list"
  rr_platform_fee :: PlatformFee
  rr_total_platform_bps :: nat
  rr_eta :: "EstimatedTime option"
  rr_tx_hint :: "string option"
  rr_source :: string

definition platform_fee :: "nat \<Rightarrow> nat \<Rightarrow> Coin \<Rightarrow> PlatformFee" where
  "platform_fee bps amount coin =
     \<lparr>pl_bps = bps, pl_amount = show_nat amount, pl_amount_human = format_amount amount coin,
      pl_asset = coin_str coin, pl_label = ''Taxa SatsPay''\<rparr>"

text \<open>\<open>amount.saturating_mul(bps as u128) / 10_000\<close>.\<close>

definition fee_of :: "nat \<Rightarrow> nat \<Rightarrow> nat" where
  "fee_of amount bps = u128_sat_mul amount bps div 10000"

definition house_route :: "Coin \<Rightarrow> Coin \<Rightarrow> nat \<Rightarrow> SwapQuote \<Rightarrow> QuoteRouteResp" where
  "house_route src dst amount q =
     \<lparr>rr_route_id = ''house:'' @ coin_str src @ '':'' @ coin_str dst @ '':'' @ show_nat amount,
      rr_provider = ''SatsPay Liquidity'', rr_providers = [''SATSPAY_LIQUIDITY''], rr_tags = [''INSTANT''],
      rr_you_pay = amount_coin amount src, rr_you_receive = amount_coin (to_amount q) dst,
      rr_min_receive = amount_coin (to_amount q) dst, rr_network_fees = [],
      rr_platform_fee = platform_fee (fee_bps q) (fee_amount q) src, rr_total_platform_bps = fee_bps q,
      rr_eta = Some \<lparr>et_inbound = Some 0, et_swap = Some 0, et_outbound = Some 0, et_total = Some 0\<rparr>,
      rr_tx_hint = None, rr_source = ''house''\<rparr>"

definition route_tags :: "json option \<Rightarrow> string list" where
  "route_tags meta =
     (case Option.bind (Option.bind meta (json_get ''tags'')) json_as_array of
        None \<Rightarrow> [] | Some vs \<Rightarrow> List.map_filter json_as_str vs)"

definition map_dex_route :: "SwapKitClient \<Rightarrow> Coin \<Rightarrow> Coin \<Rightarrow> nat \<Rightarrow> QuoteRoute \<Rightarrow> QuoteRouteResp option" where
  "map_dex_route c src dst amount route =
     (case qr_expected_buy_amount route of
        None \<Rightarrow> None
      | Some expected_human \<Rightarrow>
          (case parse_human_to_ledger expected_human dst of
             None \<Rightarrow> None
           | Some expected \<Rightarrow>
               let min_human = (case qr_expected_buy_amount_max_slippage route of None \<Rightarrow> expected_human | Some h \<Rightarrow> h);
                   min_amt = (case parse_human_to_ledger min_human dst of None \<Rightarrow> expected | Some m \<Rightarrow> m);
                   providers = qr_providers route;
                   bps = (case qr_platform_fee_bps route of None \<Rightarrow> platform_fee_bps c providers src dst | Some b \<Rightarrow> b)
               in Some
                 \<lparr>rr_route_id = qr_route_id route,
                  rr_provider = (case providers of [] \<Rightarrow> ''UNKNOWN'' | p # _ \<Rightarrow> p), rr_providers = providers,
                  rr_tags = route_tags (qr_meta route), rr_you_pay = amount_coin amount src,
                  rr_you_receive = amount_coin expected dst, rr_min_receive = amount_coin min_amt dst,
                  rr_network_fees = map (\<lambda>f. \<lparr>nf_type = pf_type f, nf_amount = pf_amount f, nf_asset = pf_asset f\<rparr>)
                    (filter (\<lambda>f. lower (pf_type f) \<noteq> ''affiliate'' \<and> pf_type f \<noteq> []) (qr_fees route)),
                  rr_platform_fee = platform_fee bps (fee_of amount bps) src, rr_total_platform_bps = bps,
                  rr_eta = qr_estimated_time route, rr_tx_hint = qr_tx_hint route, rr_source = ''swapkit''\<rparr>))"

text \<open>The tolerance, in basis points: \<open>(pct.clamp(0.0, 50.0) * 100.0) as u128\<close>.\<close>

definition slippage_bps :: "swap_env \<Rightarrow> nat" where
  "slippage_bps E = nat \<lfloor>f64 (max 0 (min (se_slippage_pct E) 50) * 100)\<rfloor>"

definition slippage_floor :: "swap_env \<Rightarrow> nat \<Rightarrow> nat" where
  "slippage_floor E expected = max (expected - fee_of expected (slippage_bps E)) 1"

definition map_relay_route :: "swap_env \<Rightarrow> Coin \<Rightarrow> Coin \<Rightarrow> nat \<Rightarrow> RelayQuote \<Rightarrow> QuoteRouteResp" where
  "map_relay_route E src dst amount q =
     (let bps = platform_fee_bps (sp_swapkit (se_providers E)) [''RELAY''] src dst;
          expected = rq_expected_out_ledger q in
      \<lparr>rr_route_id = rq_route_id q, rr_provider = ''RELAY'', rr_providers = [''RELAY''],
       rr_tags = (if rq_is_bridge q then [''RELAY'', ''BRIDGE''] else [''RELAY'']),
       rr_you_pay = amount_coin amount src, rr_you_receive = amount_coin expected dst,
       rr_min_receive = amount_coin (slippage_floor E expected) dst,
       rr_network_fees = map (\<lambda>f. \<lparr>nf_type = rf_fee_type f, nf_amount = rf_amount f, nf_asset = rf_asset f\<rparr>) (rq_network_fees q),
       rr_platform_fee = platform_fee bps (fee_of amount bps) src, rr_total_platform_bps = bps,
       rr_eta = Some (if rq_is_bridge q
         then \<lparr>et_inbound = Some 0, et_swap = Some 60, et_outbound = Some 30, et_total = Some 90\<rparr>
         else \<lparr>et_inbound = Some 0, et_swap = Some 30, et_outbound = Some 0, et_total = Some 30\<rparr>),
       rr_tx_hint = Some (rq_tx_hint q), rr_source = ''relay''\<rparr>)"

definition deposit_fee_too_high :: "nat \<Rightarrow> string option \<Rightarrow> bool" where
  "deposit_fee_too_high amount fee =
     (case Option.bind fee human_to_ledger of
        None \<Rightarrow> False
      | Some l \<Rightarrow> 0 < amount \<and> 15 < u128_sat_mul l 100 div amount)"

definition after_fee :: "nat \<Rightarrow> nat \<Rightarrow> nat" where
  "after_fee out bps = out - fee_of out bps"

definition map_changenow_route :: "swap_env \<Rightarrow> Coin \<Rightarrow> Coin \<Rightarrow> nat \<Rightarrow> ChangeNowEstimate \<Rightarrow> QuoteRouteResp option" where
  "map_changenow_route E src dst amount est =
     (let bps = platform_fee_bps (sp_swapkit (se_providers E)) [''CHANGENOW''] src dst;
          expected = max (after_fee (ce_to_amount_ledger est) bps) 1 in
      if deposit_fee_too_high amount (ce_deposit_fee_human est) then None
      else Some
        \<lparr>rr_route_id = ''changenow:'' @ coin_str src @ '':'' @ coin_str dst @ '':'' @ show_nat amount,
         rr_provider = ''CHANGENOW'', rr_providers = [''CHANGENOW''], rr_tags = [''CHANGENOW'', ''L1''],
         rr_you_pay = amount_coin amount src, rr_you_receive = amount_coin expected dst,
         rr_min_receive = amount_coin (slippage_floor E expected) dst,
         rr_network_fees = (case ce_deposit_fee_human est of None \<Rightarrow> []
           | Some fee \<Rightarrow> [\<lparr>nf_type = ''deposit'', nf_amount = fee, nf_asset = coin_str src\<rparr>]),
         rr_platform_fee = platform_fee bps (fee_of amount bps) src, rr_total_platform_bps = bps,
         rr_eta = Some \<lparr>et_inbound = Some 600, et_swap = Some 300, et_outbound = Some 600, et_total = Some 1800\<rparr>,
         rr_tx_hint = Some ''simpleTransfer'', rr_source = ''changenow''\<rparr>)"

section \<open>All routes\<close>

definition provider_error :: "string \<Rightarrow> string \<Rightarrow> json" where
  "provider_error provider message = JObj [(''provider'', JStr provider), (''message'', JStr message)]"

definition merge_provider_errors :: "json option \<Rightarrow> string \<Rightarrow> string \<Rightarrow> json" where
  "merge_provider_errors existing provider message =
     (case existing of
        Some (JArr vs) \<Rightarrow> JArr (vs @ [provider_error provider message])
      | Some other \<Rightarrow> JArr [other, provider_error provider message]
      | None \<Rightarrow> JArr [provider_error provider message])"

type_synonym routes = "QuoteRouteResp list \<times> json option"

definition sort_routes :: "QuoteRouteResp list \<Rightarrow> QuoteRouteResp list" where
  "sort_routes = sort_key (\<lambda>r. route_priority (rr_tx_hint r))"

definition swapkit_routes :: "swap_env \<Rightarrow> Coin \<Rightarrow> Coin \<Rightarrow> nat \<Rightarrow> routes" where
  "swapkit_routes E src dst amount =
     (let P = se_providers E; c = sp_swapkit P; hot = (\<lambda>coin. case resolve_hot_address E coin of Inl _ \<Rightarrow> None | Inr a \<Rightarrow> Some a) in
      if is_polygon_l2 src \<and> is_polygon_l2 dst \<and> asset_id src \<noteq> None \<and> asset_id dst \<noteq> None \<and> sk_is_configured c
      then (case sk_quote (sp_http P) c src dst amount (hot src) (hot dst) of
          Inr q \<Rightarrow> (sort_routes (List.map_filter (map_dex_route c src dst amount) (qp_routes q)), qp_provider_errors q)
        | Inl SkNoRoutes \<Rightarrow> ([], None)
        | Inl e \<Rightarrow> ([], Some (JArr [provider_error ''SWAPKIT'' (swapkit_error_str e)])))
      else ([], None))"

definition relay_routes :: "swap_env \<Rightarrow> Coin \<Rightarrow> Coin \<Rightarrow> nat \<Rightarrow> routes \<Rightarrow> routes" where
  "relay_routes E src dst amount = (\<lambda>(rs, errs).
     let P = se_providers E in
     if relay_supports_pair src dst \<and> rl_enabled (sp_relay P)
     then (case (resolve_hot_address E src, resolve_hot_address E dst) of
         (Inr user, Inr recipient) \<Rightarrow>
           (case relay_quote (sp_http P) (se_fresh E) (sp_relay P) src dst amount user recipient of
              Inr q \<Rightarrow> (rs @ [map_relay_route E src dst amount q], errs)
            | Inl e \<Rightarrow> (rs, Some (merge_provider_errors errs ''RELAY'' (relay_api_error_str e))))
       | _ \<Rightarrow> (rs, Some (merge_provider_errors errs ''RELAY'' ''hot wallet address unavailable for relay quote'')))
     else (rs, errs))"

definition dust_message :: string where
  "dust_message = ''valor pequeno demais: taxa fixa de dep'' @ [CHR 0xC3, CHR 0xB3] @ ''sito do ChangeNOW >15% do envio''"

definition changenow_routes :: "swap_env \<Rightarrow> Coin \<Rightarrow> Coin \<Rightarrow> nat \<Rightarrow> routes \<Rightarrow> routes" where
  "changenow_routes E src dst amount = (\<lambda>(rs, errs).
     let P = se_providers E in
     if cn_supports_pair src dst \<and> cn_is_configured (sp_changenow P)
     then (case cn_estimate (sp_http P) (sp_changenow P) src dst amount of
         Inr est \<Rightarrow>
           (case map_changenow_route E src dst amount est of
              Some r \<Rightarrow> (rs @ [r], errs)
            | None \<Rightarrow> (rs, Some (merge_provider_errors errs ''CHANGENOW'' dust_message)))
       | Inl e \<Rightarrow> (rs, Some (merge_provider_errors errs ''CHANGENOW'' (changenow_error_str e))))
     else (rs, errs))"

text \<open>An error is a text of the handler or the error of the HOUSE quote.\<close>

datatype QuoteFailure = QuoteText string | QuoteHouse SwapServiceError

definition build_quotes :: "swap_env \<Rightarrow> db \<Rightarrow> Coin \<Rightarrow> Coin \<Rightarrow> nat \<Rightarrow> QuoteFailure + routes" where
  "build_quotes E s src dst amount =
     (if src = dst then Inl (QuoteText ''fromCoin and toCoin must differ'')
      else if amount = 0 then Inl (QuoteText ''fromAmount must be > 0'')
      else if \<not> is_swap_pair src dst
      then Inl (QuoteText (''swap/bridge: L1 via ChangeNOW; Polygon POL/USDT/USDC DEX; SOL'' @ [CHR 0xE2, CHR 0x86, CHR 0x94] @
        ''Polygon or PEPE(BSC)'' @ [CHR 0xE2, CHR 0x86, CHR 0x94] @ ''Polygon/SOL via Relay''))
      else case (if src = Pepe then ensure_hot_bnb_for_pepe_swap E else Inr ()) of
        Inl e \<Rightarrow> Inl (QuoteText e)
      | Inr _ \<Rightarrow>
          let (rs, errs) = changenow_routes E src dst amount (relay_routes E src dst amount (swapkit_routes E src dst amount));
              rs = sort_routes rs; P = se_providers E;
              empty = (if \<not> sk_is_configured (sp_swapkit P) \<and> \<not> rl_enabled (sp_relay P) \<and> \<not> cn_is_configured (sp_changenow P)
                then QuoteText ''DEX not configured (set SWAPKIT_ENABLED, RELAY_ENABLED, and/or CHANGENOW_ENABLED)''
                else QuoteText ''no routes available'')
          in if se_house_enabled E
             then (case quote src dst amount (se_max_stale E) s of
                 Inr (q, _) \<Rightarrow> Inr (rs @ [house_route src dst amount q], errs)
               | Inl e \<Rightarrow> if rs = [] then Inl (QuoteHouse e) else Inr (rs, errs))
             else if rs = [] then Inl empty else Inr (rs, errs))"

section \<open>The handlers\<close>

datatype api_error = ApiError nat string "string option" | ApiSwap SwapServiceError "string option" \<comment> \<open>status, text, code; the error's own text\<close>

fun quote_err_response :: "QuoteFailure \<Rightarrow> api_error" where
  "quote_err_response (QuoteText e) = ApiError 400 e (Some
     (if contains e ''no routes'' then ''NO_ROUTES''
      else if contains e ''BNB'' \<and> contains e ''gas'' then ''BNB_GAS_REQUIRED''
      else if contains e ''not configured'' then ''SWAP_NOT_CONFIGURED'' else ''QUOTE_FAILED''))"
| "quote_err_response (QuoteHouse e) = ApiSwap e (Some ''QUOTE_FAILED'')"

definition parse_pair :: "string \<Rightarrow> string \<Rightarrow> string \<Rightarrow> (Coin \<times> Coin \<times> nat) option" where
  "parse_pair a b n =
     (case (coin_from_str a, coin_from_str b, parse_u128 n) of
        (Some src, Some dst, Some amount) \<Rightarrow> Some (src, dst, amount) | _ \<Rightarrow> None)"

text \<open>\<open>quote_get\<close> and \<open>quote_post\<close> differ in the text of the refusal only.\<close>

definition quote_handler :: "string \<Rightarrow> swap_env \<Rightarrow> db \<Rightarrow> string \<Rightarrow> string \<Rightarrow> string \<Rightarrow> api_error + routes" where
  "quote_handler invalid E s a b n =
     (case parse_pair a b n of
        None \<Rightarrow> Inl (ApiError 400 invalid None)
      | Some (src, dst, amount) \<Rightarrow>
          (case build_quotes E s src dst amount of Inl e \<Rightarrow> Inl (quote_err_response e) | Inr r \<Rightarrow> Inr r))"

definition quote_get :: "swap_env \<Rightarrow> db \<Rightarrow> string \<Rightarrow> string \<Rightarrow> string \<Rightarrow> api_error + routes" where
  "quote_get = quote_handler ''invalid query''"

definition quote_post :: "swap_env \<Rightarrow> db \<Rightarrow> string \<Rightarrow> string \<Rightarrow> string \<Rightarrow> api_error + routes" where
  "quote_post = quote_handler ''invalid request''"

definition swap_prices :: "db \<Rightarrow> nat \<times> (string \<times> string) list" where
  "swap_prices s = (let (dec, prices) = list_cached_prices s in
     (dec, map (\<lambda>c. (coin_str c, show_nat (case prices c of None \<Rightarrow> 0 | Some p \<Rightarrow> p))) COINS))"

end
