(* ===== verification/SwapExecute.thy ===== *)
theory SwapExecute
  imports SwapRoutes AuditLog DexFlow
begin

text \<open>
  \<open>crates/api-http/src/swap.rs\<close>, the rest: \<open>POST /swap/execute\<close> with its four paths (the house, Relay, ChangeNOW and
  SwapKit), what follows a locked swap, and the history. The theorems say which amount a swap is locked and credited for, and
  what a repeated request does: on the SwapKit path the amount credited is the one the client named, and a repeated house
  swap pays its points and its commission again.
\<close>

section \<open>Requests and answers\<close>

record ExecuteRequest =
  ex_from_coin :: string
  ex_to_coin :: string
  ex_from_amount :: string
  ex_min_to_amount :: "string option"
  ex_idempotency_key :: string
  ex_route_id :: "string option"
  ex_provider :: "string option"
  ex_expected_to_amount :: "string option"
  ex_platform_fee_bps :: "32 word option"
  ex_source :: "string option"

record ExecuteResponse =
  er_id :: string
  er_from_amount :: string
  er_to_amount :: string
  er_fee_amount :: string
  er_status :: string
  er_provider :: string
  er_source :: string

type_synonym exec_result = "(api_error + ExecuteResponse) \<times> db"

text \<open>What other sessions commit in the gaps of the request's transaction.\<close>

record gaps =
  gp_before_begin :: "db \<Rightarrow> db"
  gp_before_insert :: "db \<Rightarrow> db"
  gp_after_commit :: "db \<Rightarrow> db"

record caller =
  ca_user :: uuid
  ca_ip_print :: string \<comment> \<open>\<open>ip_fingerprint\<close> of the client's address\<close>

definition reject_unsupported_pair :: "Coin \<Rightarrow> Coin \<Rightarrow> api_error option" where
  "reject_unsupported_pair src dst =
     (if is_swap_pair src dst then None
      else Some (ApiError 400 (''swap/bridge: L1 via ChangeNOW; Polygon DEX; SOL'' @ [CHR 0xE2, CHR 0x86, CHR 0x94] @ ''Polygon or PEPE(BSC)'' @
        [CHR 0xE2, CHR 0x86, CHR 0x94] @ ''Polygon/SOL via Relay'') (Some ''SWAP_PAIR_UNSUPPORTED'')))"

definition map_relay_error :: "http \<Rightarrow> RelayApiError \<Rightarrow> string \<times> string" where
  "map_relay_error H e =
     (let code = upstream_code H e in
      if code = Some ''AMOUNT_TOO_LOW'' \<or> code = Some ''INSUFFICIENT_FUNDS''
      then (''AMOUNT_TOO_LOW'', ''valor baixo demais para esta rota: os custos de rede consumiriam tudo que seria recebido. Aumente a quantia ou escolha outro par.'')
      else if code = Some ''NO_QUOTES'' \<or> code = Some ''NO_SWAP_ROUTES_FOUND''
      then (''NO_ROUTE'', ''nenhum provedor cotou esta rota agora. Tente outro par ou um valor diferente.'')
      else (''RELAY_ERROR'', ''o provedor da rota recusou esta opera'' @ [CHR 0xC3, CHR 0xA7, CHR 0xC3, CHR 0xA3] @ ''o. Pe'' @
        [CHR 0xC3, CHR 0xA7] @ ''a uma nova cota'' @ [CHR 0xC3, CHR 0xA7, CHR 0xC3, CHR 0xA3] @ ''o e tente de novo.''))"

text \<open>\<open>record_log_spawned\<close>: the log is written by a task of its own, whose error is dropped.\<close>

definition log_spawned ::
    "uuid option \<Rightarrow> string \<Rightarrow> string \<Rightarrow> uuid option \<Rightarrow> string option \<Rightarrow> string option \<Rightarrow> db \<Rightarrow> db" where
  "log_spawned user action entity eid ip meta s =
     (case record_log user action entity eid ip meta s of Inl _ \<Rightarrow> s | Inr (_, s') \<Rightarrow> s')"

text \<open>\<open>serde_json::to_value\<close> of a SwapKit answer: the struct's own fields, then the flattened rest.\<close>

definition ser_swap_response :: "SwapResponse \<Rightarrow> json" where
  "ser_swap_response r =
     (case sr_extra r of
        JObj rest \<Rightarrow> JObj
          ([(''routeId'', str_or_null (sr_route_id r)), (''providers'', JArr (map JStr (sr_providers r))),
            (''targetAddress'', str_or_null (sr_target_address r)), (''inboundAddress'', str_or_null (sr_inbound_address r)),
            (''memo'', str_or_null (sr_memo r)), (''txType'', str_or_null (sr_tx_type r)), (''txHint'', str_or_null (sr_tx_hint r)),
            (''meta'', case sr_meta r of None \<Rightarrow> JNull | Some v \<Rightarrow> v)] @ rest)
      | _ \<Rightarrow> JObj [])"

section \<open>After the lock\<close>

text \<open>Points for the user and a tenth of the fee for the referrer; errors are logged and dropped.\<close>

definition swap_rewards :: "uuid \<Rightarrow> Coin \<Rightarrow> nat \<Rightarrow> db \<Rightarrow> db" where
  "swap_rewards user coin fee s =
     (let commission = of_nat fee / 10; usd = usd_from_ledger_amount s coin commission;
          s1 = snd (award_airdrop_points user 100 0 ''SWAP_EXECUTE'' s)
      in snd (record_referral_commission user ''SWAP_FEE'' (coin_str coin) commission usd s1))"

definition dex_response :: "dex_swap_row \<Rightarrow> string \<Rightarrow> ExecuteResponse" where
  "dex_response row source =
     \<lparr>er_id = show_uuid (dx_id row), er_from_amount = show_int (dx_from_amount row),
      er_to_amount = show_int (dx_expected_to_amount row), er_fee_amount = show_int (dx_platform_fee_amount row),
      er_status = dex_status_str (dx_status row), er_provider = dx_provider row, er_source = source\<rparr>"

definition finalize_dex_lock ::
    "caller \<Rightarrow> Coin \<Rightarrow> string \<Rightarrow> string \<Rightarrow> dex_swap_row \<Rightarrow> bool \<Rightarrow> string \<Rightarrow> string \<Rightarrow> string option \<Rightarrow> json \<Rightarrow>
     nat \<Rightarrow> string \<Rightarrow> db \<Rightarrow> exec_result" where
  "finalize_dex_lock who coin route_id primary row created deposit destination memo payload fee source s =
     (Inr (dex_response row source),
      if \<not> created then s
      else
        let s1 = snd (mark_broadcasting (dx_id row) (if deposit = [] then destination else deposit) memo payload s);
            s2 = snd (enqueue ''dex_swap_broadcast'' (dex_job_payload (dx_id row)) s1);
            s3 = swap_rewards (ca_user who) coin fee s2
        in log_spawned (Some (ca_user who)) ''DEX_SWAP_LOCK'' ''DexSwap'' (Some (dx_id row)) (Some (ca_ip_print who))
             (Some (json_object [(''fromCoin'', json_text (coin_str coin)), (''provider'', json_text primary),
               (''routeId'', json_text route_id), (''source'', json_text source)])) s3)"

text \<open>A refused lock: the log's metadata has the reason and, off the SwapKit path, the source.\<close>

definition lock_failed :: "caller \<Rightarrow> (string \<times> string) list \<Rightarrow> DexSwapError \<Rightarrow> db \<Rightarrow> exec_result" where
  "lock_failed who extra e s =
     (Inl (ApiError 400 (dex_error_str e) None),
      log_spawned (Some (ca_user who)) ''DEX_SWAP_FAILED'' ''DexSwap'' None (Some (ca_ip_print who))
        (Some (json_object ((''reason'', json_text (dex_error_str e)) # extra))) s)"

definition lock_swap :: "gaps \<Rightarrow> LockDexSwapInput \<Rightarrow> db \<Rightarrow> (DexSwapError + dex_swap_row \<times> bool) \<times> db" where
  "lock_swap g i = lock_and_create i (gp_before_begin g) (gp_before_insert g) (gp_after_commit g)"

definition given_bps :: "ExecuteRequest \<Rightarrow> nat \<Rightarrow> 32 word" where
  "given_bps body usual = (case ex_platform_fee_bps body of None \<Rightarrow> of_nat usual | Some w \<Rightarrow> w)"

section \<open>The SwapKit path\<close>

definition needs_contract_call :: "SwapResponse \<Rightarrow> bool" where
  "needs_contract_call r \<longleftrightarrow> sr_tx_hint r = Some ''contractCall'' \<or>
     (case sr_tx_type r of None \<Rightarrow> False | Some t \<Rightarrow> contains (lower t) ''contract'')"

definition named_provider :: "ExecuteRequest \<Rightarrow> string" where
  "named_provider body = (case ex_provider body of None \<Rightarrow> [] | Some p \<Rightarrow> p)"

definition swapkit_input ::
    "uuid \<Rightarrow> ExecuteRequest \<Rightarrow> Coin \<Rightarrow> Coin \<Rightarrow> nat \<Rightarrow> nat option \<Rightarrow> nat \<Rightarrow> 32 word \<Rightarrow> string \<Rightarrow> string \<Rightarrow> string \<Rightarrow>
     SwapResponse \<Rightarrow> LockDexSwapInput" where
  "swapkit_input user body src dst amount min_to expected bps route_id source destination r =
     (let providers = (if sr_providers r = [] then [named_provider body] else sr_providers r) in
      \<lparr>lx_user = user, lx_from_coin = src, lx_to_coin = dst, lx_from_amount = amount,
       lx_expected_to_amount = expected, lx_min_to_amount = min_to, lx_provider = hd providers,
       lx_providers = providers, lx_route_id = Some route_id, lx_quote_id = None, lx_platform_fee_bps = bps,
       lx_platform_fee_amount = fee_of amount (unat bps), lx_fees = JArr [], lx_eta_seconds = None,
       lx_tx_hint = sr_tx_hint r, lx_destination_address = Some destination, lx_source_address = Some source,
       lx_payload = Some (ser_swap_response r), lx_idempotency_key = ex_idempotency_key body\<rparr>)"

definition execute_swapkit ::
    "swap_env \<Rightarrow> gaps \<Rightarrow> caller \<Rightarrow> Coin \<Rightarrow> Coin \<Rightarrow> nat \<Rightarrow> nat option \<Rightarrow> ExecuteRequest \<Rightarrow> db \<Rightarrow> exec_result" where
  "execute_swapkit E g who src dst amount min_to body s =
     (let P = se_providers E; c = sp_swapkit P in
      if \<not> sk_is_configured c
      then (Inl (ApiError 503 ''DEX not configured (set SWAPKIT_ENABLED + SWAPKIT_API_KEY)'' None), s)
      else if ex_route_id body = None \<or> ex_route_id body = Some []
      then (Inl (ApiError 400 ''routeId required for DEX swap'' None), s)
      else (case Option.bind (ex_expected_to_amount body) parse_u128 of
         None \<Rightarrow> (Inl (ApiError 400 ''expectedToAmount required'' None), s)
       | Some expected \<Rightarrow>
      let route_id = the (ex_route_id body); bps = given_bps body (sk_fee_bps_cross c) in
      (case resolve_hot_address E src of Inl e \<Rightarrow> (Inl (ApiError 503 e None), s) | Inr source \<Rightarrow>
      (case resolve_hot_address E dst of Inl e \<Rightarrow> (Inl (ApiError 503 e None), s) | Inr destination \<Rightarrow>
      (case sk_swap (sp_http P) c route_id source destination of
         Inl e \<Rightarrow> (Inl (ApiError 400 (''swapkit: '' @ swapkit_error_str e) None), s)
       | Inr r \<Rightarrow>
          if deposit_address_of r = None \<and> \<not> needs_contract_call r
          then (Inl (ApiError 400 ''swapkit did not return a deposit address'' None), s)
          else
            let deposit = (case deposit_address_of r of None \<Rightarrow> [] | Some a \<Rightarrow> a);
                i = swapkit_input (ca_user who) body src dst amount min_to expected bps route_id source destination r in
            (case lock_swap g i s of
               (Inl e, s1) \<Rightarrow> lock_failed who [] e s1
             | (Inr (row, created), s1) \<Rightarrow>
                 finalize_dex_lock who src route_id (lx_provider i) row created deposit destination
                   (memo_str r) (ser_swap_response r) (fee_of amount (unat bps)) ''swapkit'' s1))))))"

section \<open>The Relay path\<close>

definition relay_input ::
    "uuid \<Rightarrow> ExecuteRequest \<Rightarrow> Coin \<Rightarrow> Coin \<Rightarrow> nat \<Rightarrow> nat option \<Rightarrow> 32 word \<Rightarrow> string \<Rightarrow> string \<Rightarrow> RelayQuote \<Rightarrow>
     LockDexSwapInput" where
  "relay_input user body src dst amount min_to bps source destination q =
     \<lparr>lx_user = user, lx_from_coin = src, lx_to_coin = dst, lx_from_amount = amount,
      lx_expected_to_amount = rq_expected_out_ledger q, lx_min_to_amount = min_to, lx_provider = ''RELAY'',
      lx_providers = [''RELAY''], lx_route_id = Some (rq_route_id q), lx_quote_id = rq_request_id q,
      lx_platform_fee_bps = bps, lx_platform_fee_amount = fee_of amount (unat bps), lx_fees = JArr [],
      lx_eta_seconds = Some (if rq_is_bridge q then 90 else 30), lx_tx_hint = Some (rq_tx_hint q),
      lx_destination_address = Some destination, lx_source_address = Some source,
      lx_payload = Some (relay_payload q), lx_idempotency_key = ex_idempotency_key body\<rparr>"

definition below_minimum :: "nat option \<Rightarrow> nat \<Rightarrow> bool" where
  "below_minimum min_to expected = (case min_to of None \<Rightarrow> False | Some m \<Rightarrow> expected < m)"

definition execute_relay ::
    "swap_env \<Rightarrow> gaps \<Rightarrow> caller \<Rightarrow> Coin \<Rightarrow> Coin \<Rightarrow> nat \<Rightarrow> nat option \<Rightarrow> ExecuteRequest \<Rightarrow> db \<Rightarrow> exec_result" where
  "execute_relay E g who src dst amount min_to body s =
     (let P = se_providers E in
      if \<not> rl_enabled (sp_relay P)
      then (Inl (ApiError 503 ''Relay not configured (set RELAY_ENABLED=true)'' None), s)
      else case (if src = Pepe then ensure_hot_bnb_for_pepe_swap E else Inr ()) of
        Inl e \<Rightarrow> (Inl (ApiError 400 e (Some ''BNB_GAS_REQUIRED'')), s)
      | Inr _ \<Rightarrow>
      if ex_route_id body = None \<or> ex_route_id body = Some []
      then (Inl (ApiError 400 ''routeId required for Relay swap'' None), s)
      else
      (case resolve_hot_address E src of Inl e \<Rightarrow> (Inl (ApiError 503 e None), s) | Inr source \<Rightarrow>
      (case resolve_hot_address E dst of Inl e \<Rightarrow> (Inl (ApiError 503 e None), s) | Inr destination \<Rightarrow>
      (case relay_quote (sp_http P) (se_fresh E) (sp_relay P) src dst amount source destination of
         Inl e \<Rightarrow> let (code, message) = map_relay_error (sp_http P) e in (Inl (ApiError 400 message (Some code)), s)
       | Inr q \<Rightarrow>
          if below_minimum min_to (rq_expected_out_ledger q)
          then (Inl (ApiError 400 ''relay output below minToAmount'' (Some ''SLIPPAGE'')), s)
          else
            let bps = given_bps body (platform_fee_bps (sp_swapkit P) [''RELAY''] src dst);
                i = relay_input (ca_user who) body src dst amount min_to bps source destination q in
            (case lock_swap g i s of
               (Inl e, s1) \<Rightarrow> lock_failed who [(''source'', json_text ''relay'')] e s1
             | (Inr (row, created), s1) \<Rightarrow>
                 finalize_dex_lock who src (rq_route_id q) ''RELAY'' row created [] destination None (relay_payload q)
                   (fee_of amount (unat bps)) ''relay'' s1)))))"

section \<open>The ChangeNOW path\<close>

definition changenow_expected :: "ExecuteRequest \<Rightarrow> ChangeNowExchange \<Rightarrow> nat \<Rightarrow> nat" where
  "changenow_expected body x bps =
     (let promised = (if 0 < cx_to_amount_ledger x then cx_to_amount_ledger x
        else case Option.bind (ex_expected_to_amount body) parse_u128 of None \<Rightarrow> 0 | Some n \<Rightarrow> n)
      in after_fee promised bps)"

definition changenow_input ::
    "uuid \<Rightarrow> ExecuteRequest \<Rightarrow> Coin \<Rightarrow> Coin \<Rightarrow> nat \<Rightarrow> nat option \<Rightarrow> nat \<Rightarrow> 32 word \<Rightarrow> string \<Rightarrow> string \<Rightarrow>
     ChangeNowExchange \<Rightarrow> LockDexSwapInput" where
  "changenow_input user body src dst amount min_to expected bps source destination x =
     \<lparr>lx_user = user, lx_from_coin = src, lx_to_coin = dst, lx_from_amount = amount,
      lx_expected_to_amount = expected, lx_min_to_amount = min_to, lx_provider = ''CHANGENOW'',
      lx_providers = [''CHANGENOW''], lx_route_id = Some (cn_route_id x), lx_quote_id = Some (cx_id x),
      lx_platform_fee_bps = bps, lx_platform_fee_amount = fee_of amount (unat bps), lx_fees = JArr [],
      lx_eta_seconds = Some 1800, lx_tx_hint = Some ''simpleTransfer'',
      lx_destination_address = Some destination, lx_source_address = Some source,
      lx_payload = Some (cn_payload x), lx_idempotency_key = ex_idempotency_key body\<rparr>"

definition execute_changenow ::
    "swap_env \<Rightarrow> gaps \<Rightarrow> caller \<Rightarrow> Coin \<Rightarrow> Coin \<Rightarrow> nat \<Rightarrow> nat option \<Rightarrow> ExecuteRequest \<Rightarrow> db \<Rightarrow> exec_result" where
  "execute_changenow E g who src dst amount min_to body s =
     (let P = se_providers E in
      if \<not> cn_is_configured (sp_changenow P)
      then (Inl (ApiError 503 ''ChangeNOW not configured (set CHANGENOW_ENABLED + CHANGENOW_API_KEY)'' None), s)
      else if \<not> cn_supports_pair src dst then (Inl (ApiError 400 ''pair not supported on ChangeNOW'' None), s)
      else
      (case resolve_hot_address E src of Inl e \<Rightarrow> (Inl (ApiError 503 e None), s) | Inr source \<Rightarrow>
      (case resolve_hot_address E dst of Inl e \<Rightarrow> (Inl (ApiError 503 e None), s) | Inr destination \<Rightarrow>
      (case create_exchange (sp_http P) (sp_changenow P) src dst amount destination source of
         Inl e \<Rightarrow> (Inl (ApiError 400 (''changenow: '' @ changenow_error_str e) None), s)
       | Inr x \<Rightarrow>
          let bps = given_bps body (platform_fee_bps (sp_swapkit P) [''CHANGENOW''] src dst);
              expected = changenow_expected body x (unat bps) in
          if expected = 0 then (Inl (ApiError 400 ''changenow estimated output too small'' None), s)
          else if below_minimum min_to expected
          then (Inl (ApiError 400 ''changenow output below minToAmount'' (Some ''SLIPPAGE'')), s)
          else if cx_payin_extra_id x \<noteq> None
          then (Inl (ApiError 400 (''changenow requires memo/extraId for this pair '' @ [CHR 0xE2, CHR 0x80, CHR 0x94] @
            '' not supported yet'') (Some ''CHANGENOW_MEMO_UNSUPPORTED'')), s)
          else
            let i = changenow_input (ca_user who) body src dst amount min_to expected bps source destination x in
            (case lock_swap g i s of
               (Inl e, s1) \<Rightarrow> lock_failed who [(''source'', json_text ''changenow'')] e s1
             | (Inr (row, created), s1) \<Rightarrow>
                 finalize_dex_lock who src (cn_route_id x) ''CHANGENOW'' row created (cx_payin_address x) destination None
                   (cn_payload x) (fee_of amount (unat bps)) ''changenow'' s1)))))"

section \<open>The house path\<close>

definition house_response :: "SwapRow \<Rightarrow> ExecuteResponse" where
  "house_response swap =
     \<lparr>er_id = show_uuid (sr_id swap), er_from_amount = show_nat (SwapService.SwapRow.sr_from_amount swap),
      er_to_amount = show_nat (sr_to_amount swap), er_fee_amount = show_nat (sr_fee_amount swap),
      er_status = ''COMPLETED'', er_provider = ''SatsPay Liquidity'', er_source = ''house''\<rparr>"

definition house_log :: "caller \<Rightarrow> Coin \<Rightarrow> Coin \<Rightarrow> uuid \<Rightarrow> db \<Rightarrow> db" where
  "house_log who src dst sid =
     log_spawned (Some (ca_user who)) ''SWAP_EXECUTE'' ''Swap'' (Some sid) (Some (ca_ip_print who))
       (Some (json_object [(''fromCoin'', json_text (coin_str src)), (''toCoin'', json_text (coin_str dst)),
         (''provider'', json_text ''SatsPay Liquidity'')]))"

definition execute_house ::
    "swap_env \<Rightarrow> gaps \<Rightarrow> caller \<Rightarrow> Coin \<Rightarrow> Coin \<Rightarrow> nat \<Rightarrow> nat option \<Rightarrow> string \<Rightarrow> db \<Rightarrow> exec_result" where
  "execute_house E g who src dst amount min_to key s =
     (case execute (gp_before_begin g) (gp_before_insert g) (ca_user who) src dst amount min_to key (se_max_stale E) s of
        (Inl e, s1) \<Rightarrow> (Inl (ApiSwap e None), s1)
      | (Inr (swap, _), s1) \<Rightarrow>
          (Inr (house_response swap),
           house_log who src dst (sr_id swap)
             (swap_rewards (ca_user who) src (sr_fee_amount swap) s1)))"

section \<open>The dispatch\<close>

definition route_is :: "string \<Rightarrow> ExecuteRequest \<Rightarrow> bool" where
  "route_is prefix body = (case ex_route_id body of None \<Rightarrow> False | Some r \<Rightarrow> starts_with prefix r)"

definition source_is :: "string \<Rightarrow> ExecuteRequest \<Rightarrow> bool" where
  "source_is name body = (case ex_source body of None \<Rightarrow> False | Some v \<Rightarrow> v = name)"

definition is_house :: "ExecuteRequest \<Rightarrow> bool" where
  "is_house body \<longleftrightarrow> source_is ''house'' body \<or> eq_ignore_case (named_provider body) ''SatsPay Liquidity'' \<or>
     eq_ignore_case (named_provider body) ''SATSPAY_LIQUIDITY'' \<or> route_is ''house:'' body"

definition is_relay :: "ExecuteRequest \<Rightarrow> bool" where
  "is_relay body \<longleftrightarrow> source_is ''relay'' body \<or> eq_ignore_case (named_provider body) ''RELAY'' \<or> route_is ''relay:'' body"

definition is_changenow :: "ExecuteRequest \<Rightarrow> bool" where
  "is_changenow body \<longleftrightarrow> source_is ''changenow'' body \<or> eq_ignore_case (named_provider body) ''CHANGENOW'' \<or>
     route_is ''changenow:'' body"

definition execute_swap :: "swap_env \<Rightarrow> gaps \<Rightarrow> caller \<Rightarrow> ExecuteRequest \<Rightarrow> db \<Rightarrow> exec_result" where
  "execute_swap E g who body s =
     (case parse_pair (ex_from_coin body) (ex_to_coin body) (ex_from_amount body) of
        None \<Rightarrow> (Inl (ApiError 400 ''invalid request'' None), s)
      | Some (src, dst, amount) \<Rightarrow>
          (case reject_unsupported_pair src dst of
             Some e \<Rightarrow> (Inl e, s)
           | None \<Rightarrow>
               if (case ex_min_to_amount body of None \<Rightarrow> False | Some t \<Rightarrow> parse_u128 t = None)
               then (Inl (ApiError 400 ''invalid minToAmount'' None), s)
               else
                 let min_to = Option.bind (ex_min_to_amount body) parse_u128 in
                 if is_house body then
                   if \<not> se_house_enabled E
                   then (Inl (ApiError 400 ''HOUSE swap disabled; use a DEX route'' (Some ''SWAP_HOUSE_DISABLED'')), s)
                   else execute_house E g who src dst amount min_to (ex_idempotency_key body) s
                 else if is_relay body then execute_relay E g who src dst amount min_to body s
                 else if is_changenow body then execute_changenow E g who src dst amount min_to body s
                 else execute_swapkit E g who src dst amount min_to body s))"

section \<open>The history and one order\<close>

text \<open>The dates are compared as the texts they print to, which are ordered as the instants they stand for.\<close>

record SwapHistoryItemResp =
  hi_id :: string
  hi_from_coin :: string
  hi_to_coin :: string
  hi_from_amount :: string
  hi_to_amount :: string
  hi_fee_amount :: string
  hi_fee_bps :: int
  hi_status :: string
  hi_provider :: string
  hi_created_at :: int
  hi_inbound_tx :: "string option"
  hi_outbound_tx :: "string option"
  hi_source :: string
  hi_error :: "string option"

definition dex_item :: "dex_swap_row \<Rightarrow> SwapHistoryItemResp" where
  "dex_item r =
     \<lparr>hi_id = show_uuid (dx_id r), hi_from_coin = coin_str (dx_from_coin r), hi_to_coin = coin_str (dx_to_coin r),
      hi_from_amount = show_int (dx_from_amount r),
      hi_to_amount = show_int (case dx_actual_to_amount r of None \<Rightarrow> dx_expected_to_amount r | Some n \<Rightarrow> n),
      hi_fee_amount = show_int (dx_platform_fee_amount r), hi_fee_bps = dx_platform_fee_bps r,
      hi_status = dex_status_str (dx_status r), hi_provider = dx_provider r, hi_created_at = dx_created_at r,
      hi_inbound_tx = dx_inbound_tx r, hi_outbound_tx = dx_outbound_tx r, hi_source = ''dex'', hi_error = dx_error r\<rparr>"

definition house_item :: "SwapHistoryRecord \<Rightarrow> SwapHistoryItemResp" where
  "house_item r =
     \<lparr>hi_id = show_uuid (sh_id r), hi_from_coin = sh_from_coin r, hi_to_coin = sh_to_coin r,
      hi_from_amount = sh_from_amount r, hi_to_amount = sh_to_amount r, hi_fee_amount = sh_fee_amount r,
      hi_fee_bps = sh_fee_bps r, hi_status = ''COMPLETED'', hi_provider = ''SatsPay Liquidity'',
      hi_created_at = sh_created_at r, hi_inbound_tx = None, hi_outbound_tx = None, hi_source = ''house'', hi_error = None\<rparr>"

definition swap_history :: "db \<Rightarrow> uuid \<Rightarrow> SwapHistoryItemResp list" where
  "swap_history s user = take 50 (sort_key (\<lambda>i. - hi_created_at i)
     (map dex_item (list_user_dex s user 50) @ map house_item (list_user_swaps s user 50)))"

definition order_status :: "db \<Rightarrow> uuid \<Rightarrow> uuid \<Rightarrow> api_error + dex_swap_row" where
  "order_status s user sid =
     (case find_dex s sid of
        None \<Rightarrow> Inl (ApiError 404 ''not found'' None)
      | Some r \<Rightarrow> if dx_user r = user then Inr r else Inl (ApiError 403 ''forbidden'' None))"

definition swap_telemetry :: "string \<Rightarrow> db \<Rightarrow> api_error + DexSwapTelemetry" where
  "swap_telemetry role s =
     (if eq_ignore_case role ''ADMIN'' then Inr (dex_telemetry s)
      else Inl (ApiError 403 ''admin access required'' None))"

section \<open>What follows a swap leaves the swaps alone\<close>

lemma award_dex [simp]:
  "dex_swaps (snd (award_airdrop_points u b n a s)) = dex_swaps s"
  "swaps (snd (award_airdrop_points u b n a s)) = swaps s"
  "wallets (snd (award_airdrop_points u b n a s)) = wallets s"
  "ledger (snd (award_airdrop_points u b n a s)) = ledger s"
  "clock (snd (award_airdrop_points u b n a s)) = clock s"
  "jobs (snd (award_airdrop_points u b n a s)) = jobs s"
  by (auto simp: award_airdrop_points_def release_locks_def split: sum.splits prod.splits AwardResult.splits dest!: award_frame)

lemma insert_commission_frame:
  "insert_commission a b act c x y s = Inr (i, t) \<Longrightarrow> \<exists>n cs. t = s\<lparr>next_id := n, commissions := cs\<rparr>"
  by (auto simp: insert_commission_def check_varchar_def store_numeric_def tx_simps)

lemma commission_dex [simp]:
  "dex_swaps (snd (record_referral_commission u act c x y s)) = dex_swaps s"
  "swaps (snd (record_referral_commission u act c x y s)) = swaps s"
  "wallets (snd (record_referral_commission u act c x y s)) = wallets s"
  "ledger (snd (record_referral_commission u act c x y s)) = ledger s"
  "clock (snd (record_referral_commission u act c x y s)) = clock s"
  "jobs (snd (record_referral_commission u act c x y s)) = jobs s"
  by (auto simp: record_referral_commission_def split: option.splits sum.splits prod.splits dest!: insert_commission_frame)

lemma swap_rewards_dex [simp]:
  "dex_swaps (swap_rewards u c f s) = dex_swaps s" "swaps (swap_rewards u c f s) = swaps s"
  "wallets (swap_rewards u c f s) = wallets s" "ledger (swap_rewards u c f s) = ledger s"
  "clock (swap_rewards u c f s) = clock s" "jobs (swap_rewards u c f s) = jobs s"
  by (simp_all add: swap_rewards_def Let_def)

lemma log_spawned_frame [simp]:
  "dex_swaps (log_spawned u a e i p m s) = dex_swaps s" "swaps (log_spawned u a e i p m s) = swaps s"
  "wallets (log_spawned u a e i p m s) = wallets s" "ledger (log_spawned u a e i p m s) = ledger s"
  "clock (log_spawned u a e i p m s) = clock s" "jobs (log_spawned u a e i p m s) = jobs s"
  "point_logs (log_spawned u a e i p m s) = point_logs s" "commissions (log_spawned u a e i p m s) = commissions s"
  by (auto simp: log_spawned_def record_log_Inr audited_def split: sum.splits)

section \<open>Who names the amount\<close>

definition quiet :: gaps where
  "quiet = \<lparr>gp_before_begin = id, gp_before_insert = id, gp_after_commit = id\<rparr>"

lemma find_set_dex:
  assumes "\<And>r. dx_id (f r) = dx_id r"
  shows "find_dex (set_dex sid st f s) sid = map_option (\<lambda>r. if dx_status r \<in> st then f r else r) (find_dex s sid)"
proof -
  have "List.find (\<lambda>r. dx_id r = sid) (update_where (\<lambda>r. dx_id r = sid \<and> dx_status r \<in> st) f rows) =
    map_option (\<lambda>r. if dx_status r \<in> st then f r else r) (List.find (\<lambda>r. dx_id r = sid) rows)" for rows
    by (induction rows) (auto simp: update_where_def assms)
  then show ?thesis by (simp add: find_dex_def)
qed

lemma find_key_set_dex:
  assumes "\<And>r. dx_id (f r) = dx_id r" and "\<And>r. dx_idempotency_key (f r) = dx_idempotency_key r"
    and "find_dex_by_key s k = Some q"
  shows "find_dex_by_key (set_dex sid st f s) k = Some (if dx_id q = sid \<and> dx_status q \<in> st then f q else q)"
proof -
  have "List.find (\<lambda>r. dx_idempotency_key r = k) (update_where (\<lambda>r. dx_id r = sid \<and> dx_status r \<in> st) f rows) =
    map_option (\<lambda>r. if dx_id r = sid \<and> dx_status r \<in> st then f r else r) (List.find (\<lambda>r. dx_idempotency_key r = k) rows)" for rows
    by (induction rows) (auto simp: update_where_def assms(1,2))
  then show ?thesis using assms(3) by (simp add: find_dex_by_key_def)
qed

lemma find_dex_frame: "dex_swaps s = dex_swaps t \<Longrightarrow> find_dex s i = find_dex t i"
  by (simp add: find_dex_def)

lemma find_key_frame: "dex_swaps s = dex_swaps t \<Longrightarrow> find_dex_by_key s k = find_dex_by_key t k"
  by (simp add: find_dex_by_key_def)

lemma wallet_id_frame: "wallets s = wallets t \<Longrightarrow> wallet_id_of s u c k = wallet_id_of t u c k"
  by (simp add: wallet_id_of_def)

lemma execute_swapkit_Inr:
  assumes "execute_swapkit E g who src dst amount min_to body s = (Inr resp, s')"
    and "Option.bind (ex_expected_to_amount body) parse_u128 = Some n"
  shows "\<exists>i row created s1 rid primary deposit destination memo payload fee.
    lock_swap g i s = (Inr (row, created), s1) \<and>
    finalize_dex_lock who src rid primary row created deposit destination memo payload fee ''swapkit'' s1 = (Inr resp, s') \<and>
    lx_user i = ca_user who \<and> lx_from_coin i = src \<and> lx_to_coin i = dst \<and> lx_from_amount i = amount \<and>
    lx_expected_to_amount i = n \<and> lx_min_to_amount i = min_to \<and> lx_idempotency_key i = ex_idempotency_key body"
proof -
  let ?P = "se_providers E" and ?rid = "the (ex_route_id body)"
  let ?bps = "given_bps body (sk_fee_bps_cross (sp_swapkit ?P))"
  obtain source destination r where r: "sk_swap (sp_http ?P) (sp_swapkit ?P) ?rid source destination = Inr r"
    and run: "(case lock_swap g (swapkit_input (ca_user who) body src dst amount min_to n ?bps ?rid source destination r) s of
        (Inl e, s1) \<Rightarrow> lock_failed who [] e s1
      | (Inr (row, created), s1) \<Rightarrow>
          finalize_dex_lock who src ?rid
            (lx_provider (swapkit_input (ca_user who) body src dst amount min_to n ?bps ?rid source destination r))
            row created (case deposit_address_of r of None \<Rightarrow> [] | Some a \<Rightarrow> a) destination
            (memo_str r) (ser_swap_response r) (fee_of amount (unat ?bps)) ''swapkit'' s1) = (Inr resp, s')"
    using assms unfolding execute_swapkit_def Let_def
    by (auto split: if_splits sum.splits)
  show ?thesis
  proof (cases "lock_swap g (swapkit_input (ca_user who) body src dst amount min_to n ?bps ?rid source destination r) s")
    case (Pair x s1)
    with run obtain row created where "x = Inr (row, created)" by (cases x) (auto simp: lock_failed_def)
    with run Pair show ?thesis
      by (intro exI conjI) (assumption | simp add: swapkit_input_def Let_def)+
  qed
qed

definition announced :: "string \<Rightarrow> string option \<Rightarrow> json \<Rightarrow> int \<Rightarrow> dex_swap_row \<Rightarrow> dex_swap_row" where
  "announced addr memo payload t r = r\<lparr>dx_status := DxBroadcasting, dx_deposit_address := Some addr,
     dx_inbound_memo := memo, dx_payload := Some payload, dx_updated_at := t\<rparr>"

lemma announced_sel [simp]:
  "dx_id (announced a m p t r) = dx_id r" "dx_user (announced a m p t r) = dx_user r"
  "dx_idempotency_key (announced a m p t r) = dx_idempotency_key r" "dx_status (announced a m p t r) = DxBroadcasting"
  "dx_from_amount (announced a m p t r) = dx_from_amount r" "dx_expected_to_amount (announced a m p t r) = dx_expected_to_amount r"
  "dx_from_coin (announced a m p t r) = dx_from_coin r" "dx_to_coin (announced a m p t r) = dx_to_coin r"
  "dx_min_to_amount (announced a m p t r) = dx_min_to_amount r" "dx_payload (announced a m p t r) = Some p"
  "dx_inbound_tx (announced a m p t r) = dx_inbound_tx r"
  by (simp_all add: announced_def)

lemma mark_broadcasting_alt:
  "mark_broadcasting sid addr memo payload s =
     (if dex_in s sid {DxLocked, DxBroadcasting}
      then (Inr (), set_dex sid {DxLocked, DxBroadcasting} (announced addr memo payload (clock s)) s)
      else (Inl (DexBadStatus ''not LOCKED''), s))"
  unfolding mark_broadcasting_def announced_def by simp

lemma finalize_created:
  assumes run: "finalize_dex_lock who coin rid primary row True deposit destination memo payload fee source s = (x, s')"
    and row: "find_dex s (dx_id row) = Some row" "dx_status row = DxLocked"
    and key: "find_dex_by_key s k = Some row"
  shows "find_dex s' (dx_id row) = Some (announced (if deposit = [] then destination else deposit) memo payload (clock s) row) \<and>
    find_dex_by_key s' k = Some (announced (if deposit = [] then destination else deposit) memo payload (clock s) row) \<and>
    wallets s' = wallets s \<and> ledger s' = ledger s \<and> clock s' = clock s"
proof -
  let ?addr = "if deposit = [] then destination else deposit"
  let ?t = "set_dex (dx_id row) {DxLocked, DxBroadcasting} (announced ?addr memo payload (clock s)) s"
  have "dex_in s (dx_id row) {DxLocked, DxBroadcasting}"
    using find_dex_Some [OF row(1)] row(2) by (auto simp: dex_in_def)
  then have rows: "dex_swaps s' = dex_swaps ?t" and rest: "wallets s' = wallets s" "ledger s' = ledger s" "clock s' = clock s"
    using run by (auto simp: finalize_dex_lock_def Let_def mark_broadcasting_alt enqueue_def)
  have "find_dex s' (dx_id row) = Some (announced ?addr memo payload (clock s) row)"
    using row unfolding find_dex_frame [OF rows] by (simp add: find_set_dex)
  moreover have "find_dex_by_key s' k = Some (announced ?addr memo payload (clock s) row)"
    unfolding find_key_frame [OF rows] using row(2) find_key_set_dex [OF _ _ key] by simp
  ultimately show ?thesis using rest by blast
qed

lemma credit_ledger:
  assumes "credit_and_complete sid amount h s = (Inr (), t)" and "find_dex s sid = Some q" and "dx_status q = DxInFlight"
  shows "\<exists>w. wallet_id_of s (dx_user q) (dx_to_coin q) PERSONAL = Some w \<and>
    ledger t = ledger s @ [entry_of (dex_credit w amount sid) (next_id s) (clock s)]"
proof -
  obtain u where u: "credit_tx sid amount h s = Inr ((), u)" and t: "t = release_locks u"
    using assms(1) by (auto simp: credit_and_complete_def commit_tx_def split: sum.splits prod.splits)
  have "pay_out q amount h (s\<lparr>row_locks := acquire (DexSwapLock sid) (row_locks s)\<rparr>) = Inr ((), u)"
    using u assms(2,3) by (auto simp: credit_tx_def tx_simps)
  from pay_out_Inr [OF this] find_dex_Some [OF assms(2)] show ?thesis unfolding t by auto
qed

definition in_flight :: "string \<Rightarrow> int \<Rightarrow> dex_swap_row \<Rightarrow> dex_swap_row" where
  "in_flight inbound t r = r\<lparr>dx_status := DxInFlight, dx_inbound_tx := Some inbound,
     dx_broadcast_at := (case dx_broadcast_at r of None \<Rightarrow> Some t | Some x \<Rightarrow> Some x), dx_updated_at := t\<rparr>"

lemma in_flight_sel [simp]:
  "dx_id (in_flight h t r) = dx_id r" "dx_user (in_flight h t r) = dx_user r" "dx_status (in_flight h t r) = DxInFlight"
  "dx_to_coin (in_flight h t r) = dx_to_coin r" "dx_from_coin (in_flight h t r) = dx_from_coin r"
  "dx_expected_to_amount (in_flight h t r) = dx_expected_to_amount r" "dx_payload (in_flight h t r) = dx_payload r"
  "dx_min_to_amount (in_flight h t r) = dx_min_to_amount r"
  by (simp_all add: in_flight_def)

lemma mark_in_flight_alt:
  "mark_in_flight sid h s =
     (if dex_in s sid {DxBroadcasting, DxInFlight}
      then (Inr (), set_dex sid {DxBroadcasting, DxInFlight} (in_flight h (clock s)) s)
      else (Inl (DexBadStatus ''not BROADCASTING''), s))"
  unfolding mark_in_flight_def in_flight_def by simp

lemma mark_in_flight_find:
  assumes "find_dex s sid = Some q" and "dx_status q = DxBroadcasting"
  shows "find_dex (snd (mark_in_flight sid h s)) sid = Some (in_flight h (clock s) q) \<and>
    wallets (snd (mark_in_flight sid h s)) = wallets s \<and> ledger (snd (mark_in_flight sid h s)) = ledger s"
proof -
  have "dex_in s sid {DxBroadcasting, DxInFlight}" using find_dex_Some [OF assms(1)] assms(2) by (auto simp: dex_in_def)
  moreover have "find_dex (set_dex sid {DxBroadcasting, DxInFlight} (in_flight h (clock s)) s) sid = Some (in_flight h (clock s) q)"
    using assms by (simp add: find_set_dex)
  ultimately show ?thesis by (simp add: mark_in_flight_alt)
qed

lemma u128_back [simp]: "n \<le> u128_max \<Longrightarrow> dec_to_u128 (int n) = Some n"
  by (simp add: dec_to_u128_def u128_max_def)

lemma parse_u128_le: "parse_u128 t = Some n \<Longrightarrow> n \<le> u128_max"
  by (auto simp: parse_u128_def Let_def split: list.splits if_splits option.splits)

text \<open>The receipt of a same-chain swap posts what the row expects.\<close>

lemma receipt_credits_expected:
  assumes "find_dex s sid = Some q" and "dx_status q = DxInFlight" and "is_same_chain (dx_from_coin q) (dx_to_coin q)"
    and "\<not> (case dx_payload q of None \<Rightarrow> False | Some v \<Rightarrow> relay_is_bridge v)"
    and "dx_expected_to_amount q = int n" and "n \<le> u128_max"
    and "credit_same_chain_after_receipt sid h s = (Inr (), t)"
  shows "\<exists>w. wallet_id_of s (dx_user q) (dx_to_coin q) PERSONAL = Some w \<and>
    ledger t = ledger s @ [entry_of (dex_credit w n sid) (next_id s) (clock s)]"
proof -
  have "credit_and_complete sid n (Some h) s = (Inr (), t)"
    using assms by (auto simp: credit_same_chain_after_receipt_def as_text_def split: if_splits prod.splits sum.splits)
  then show ?thesis by (rule credit_ledger [OF _ assms(1,2)])
qed

definition via_swapkit :: "ExecuteRequest \<Rightarrow> bool" where
  "via_swapkit body \<longleftrightarrow> \<not> is_house body \<and> \<not> is_relay body \<and> \<not> is_changenow body"

definition request_key :: "caller \<Rightarrow> ExecuteRequest \<Rightarrow> string" where
  "request_key who body = scoped_key (ca_user who) (ex_idempotency_key body)"

lemma execute_swap_swapkit:
  assumes "execute_swap E g who body s = (Inr resp, s')" and "via_swapkit body"
    and "parse_pair (ex_from_coin body) (ex_to_coin body) (ex_from_amount body) = Some (src, dst, amount)"
  shows "\<exists>m. execute_swapkit E g who src dst amount m body s = (Inr resp, s')"
  using assms by (auto simp: execute_swap_def via_swapkit_def Let_def split: option.splits if_splits)

lemma lock_quiet_new:
  assumes "lock_swap quiet i s = (Inr (row, created), s1)" and "dex_ok s"
    and "find_dex_by_key s (scoped_key (lx_user i) (lx_idempotency_key i)) = None"
  shows "created \<and> row = new_dex_swap i (next_id s) (clock s) \<and> find_dex s1 (dx_id row) = Some row \<and>
    find_dex_by_key s1 (scoped_key (lx_user i) (lx_idempotency_key i)) = Some row \<and> wallets s1 = wallets s"
proof -
  have run: "lock_and_create i id id id s = (Inr (row, created), s1)"
    using assms(1) by (simp add: lock_swap_def quiet_def)
  have c: created
  proof (rule ccontr)
    assume "\<not> created"
    with run lock_old [of i id id id s row s1] assms(3) show False by auto
  qed
  obtain w sid t where t: "lock_tx i w s = Inr (sid, t)" "s1 = release_locks t" "find_dex s1 sid = Some row"
    using lock_new [of i id id id s row s1] run c by auto
  have key: "find_dex_by_key s1 (scoped_key (lx_user i) (lx_idempotency_key i)) = Some row"
    by (rule lock_stored [OF run]) (simp add: assms(2))
  from lock_tx_Inr [OF t(1)] have sid: "sid = next_id s" and rows: "dex_swaps t = dex_swaps s @ [new_dex_swap i sid (clock s)]"
    and w: "wallets t = wallets s" by simp_all
  have "List.find (\<lambda>q. dx_id q = sid) (dex_swaps s) = None"
    using assms(2) sid by (auto simp: find_None_iff dex_ok_def)
  then have "row = new_dex_swap i sid (clock s)" using t(2,3) rows by (simp add: find_dex_def find_append)
  with c key t sid w show ?thesis by simp
qed

text \<open>
  C29. A swap over SwapKit is locked and later credited for the amount its client names: \<open>expectedToAmount\<close> of the request
  is stored whatever the amount sold and whatever the provider quotes, and once the deposit of a same-chain swap has its
  receipt the user's wallet of the target coin gains exactly that number.
\<close>

theorem swapkit_credits_named_amount:
  assumes "execute_swap E quiet who body s = (Inr resp, s')" and "dex_ok s" and "via_swapkit body"
    and "parse_pair (ex_from_coin body) (ex_to_coin body) (ex_from_amount body) = Some (src, dst, amount)"
    and "Option.bind (ex_expected_to_amount body) parse_u128 = Some n"
    and "find_dex_by_key s (request_key who body) = None"
  shows "\<exists>row payload. find_dex_by_key s' (request_key who body) = Some row \<and> dx_status row = DxBroadcasting \<and>
    dx_from_amount row = int amount \<and> dx_expected_to_amount row = int n \<and> dx_payload row = Some payload \<and>
    (is_same_chain src dst \<and> \<not> relay_is_bridge payload \<longrightarrow>
      (\<forall>h t. credit_same_chain_after_receipt (dx_id row) h (snd (mark_in_flight (dx_id row) h s')) = (Inr (), t) \<longrightarrow>
        (\<exists>w. wallet_id_of s (ca_user who) dst PERSONAL = Some w \<and> wallet_balance t w = wallet_balance s' w + int n)))"
proof -
  obtain m where m: "execute_swapkit E quiet who src dst amount m body s = (Inr resp, s')"
    using execute_swap_swapkit [OF assms(1,3,4)] by blast
  obtain i row created s1 rid primary deposit destination memo payload fee
    where lk: "lock_swap quiet i s = (Inr (row, created), s1)"
    and fin: "finalize_dex_lock who src rid primary row created deposit destination memo payload fee ''swapkit'' s1 = (Inr resp, s')"
    and i: "lx_user i = ca_user who" "lx_from_coin i = src" "lx_to_coin i = dst" "lx_from_amount i = amount"
      "lx_expected_to_amount i = n" "lx_idempotency_key i = ex_idempotency_key body"
    using execute_swapkit_Inr [OF m assms(5)] by blast
  have key: "scoped_key (lx_user i) (lx_idempotency_key i) = request_key who body" by (simp add: i request_key_def)
  from lock_quiet_new [OF lk assms(2)] assms(6) key
  have created: created and row: "row = new_dex_swap i (next_id s) (clock s)" and found: "find_dex s1 (dx_id row) = Some row"
    and stored: "find_dex_by_key s1 (request_key who body) = Some row" and ws: "wallets s1 = wallets s" by metis+
  have locked: "dx_status row = DxLocked" by (simp add: row)
  from fin have fin': "finalize_dex_lock who src rid primary row True deposit destination memo payload fee ''swapkit'' s1 = (Inr resp, s')"
    by (simp add: created)
  let ?q = "announced (if deposit = [] then destination else deposit) memo payload (clock s1) row"
  have a: "find_dex s' (dx_id row) = Some ?q" "find_dex_by_key s' (request_key who body) = Some ?q" "wallets s' = wallets s1"
    using finalize_created [OF fin' found locked stored] by blast+
  have n: "n \<le> u128_max" using assms(5) by (auto simp: bind_eq_Some_conv dest: parse_u128_le)
  have paid: "\<exists>w. wallet_id_of s (ca_user who) dst PERSONAL = Some w \<and> wallet_balance t w = wallet_balance s' w + int n"
    if "is_same_chain src dst" "\<not> relay_is_bridge payload"
      "credit_same_chain_after_receipt (dx_id row) h (snd (mark_in_flight (dx_id row) h s')) = (Inr (), t)" for h t
  proof -
    let ?u = "snd (mark_in_flight (dx_id row) h s')" and ?r = "in_flight h (clock s') ?q"
    have u: "find_dex ?u (dx_id row) = Some ?r" "wallets ?u = wallets s" "ledger ?u = ledger s'"
      using mark_in_flight_find [OF a(1)] a(3) ws by simp_all
    have who: "dx_user ?r = ca_user who" "dx_to_coin ?r = dst" by (simp_all add: row i)
    have "\<exists>w. wallet_id_of ?u (dx_user ?r) (dx_to_coin ?r) PERSONAL = Some w \<and>
        ledger t = ledger ?u @ [entry_of (dex_credit w n (dx_id row)) (next_id ?u) (clock ?u)]"
      by (rule receipt_credits_expected [OF u(1) _ _ _ _ n that(3)]) (simp_all add: row i that(1,2))
    then obtain w where w: "wallet_id_of ?u (ca_user who) dst PERSONAL = Some w"
        and l: "ledger t = ledger s' @ [entry_of (dex_credit w n (dx_id row)) (next_id ?u) (clock ?u)]"
      unfolding who u(3) by blast
    from l have "wallet_balance t w = wallet_balance s' w + int n" by (simp add: wallet_balance_def)
    with w show ?thesis unfolding wallet_id_frame [OF u(2)] by blast
  qed
  have rowp: "dx_from_amount row = int amount" "dx_expected_to_amount row = int n" by (simp_all add: row i)
  show ?thesis
    by (intro exI [of _ ?q] exI [of _ payload] conjI impI allI)
      (simp_all add: a(2) rowp paid)
qed

section \<open>A swap of one unit for nine hundred million\<close>

definition mint_demo :: db where
  "mint_demo = empty_db\<lparr>next_id := 10, clock := 60,
     users := [\<lparr>u_id = 7, u_email = ''a'', u_username = ''a'', u_password_hash = []\<rparr>],
     wallets := [demo_wallet 1 7 Usdt PERSONAL, demo_wallet 2 7 Usdc PERSONAL],
     ledger := [entry_of (simple_input 1 1 DEPOSIT None None None) 3 0]\<rparr>"

definition mint_answer :: json where
  "mint_answer = JObj [(''targetAddress'', JStr ''0xA''), (''providers'', JArr [JStr ''UNISWAP_V3''])]"

definition mint_http :: http where
  "mint_http = \<lparr>http_send = \<lambda>_. Inr (200, []), parse_json = \<lambda>_. Inr mint_answer, serde_error = \<lambda>_. [],
     status_text = \<lambda>_. [], float_display = id, float_fixed10 = id\<rparr>"

definition mint_providers :: swap_providers where
  "mint_providers = \<lparr>sp_http = mint_http,
     sp_swapkit = \<lparr>sk_base_url = [], sk_api_key = Some ''k'', sk_enabled = True, sk_fee_bps_same = 50, sk_fee_bps_cross = 50,
       sk_slippage = ''2''\<rparr>,
     sp_relay = \<lparr>rl_base_url = [], rl_api_key = None, rl_enabled = False\<rparr>,
     sp_changenow = \<lparr>cl_base_url = [], cl_api_key = None, cl_enabled = False\<rparr>\<rparr>"

definition mint_env :: swap_env where
  "mint_env = \<lparr>se_providers = mint_providers, se_house_enabled = False, se_slippage_pct = 2, se_max_stale = 60, se_fresh = 0,
     se_mnemonic = Some ''m'', se_env_mnemonic = None, se_env_keys = [], se_from_mnemonic = \<lambda>_ _. Inr ''0xB'',
     se_from_key = \<lambda>_ _. Inl [], se_bnb_balance = \<lambda>_. Inr 0, se_bnb_text = \<lambda>_. []\<rparr>"

definition mint_body :: ExecuteRequest where
  "mint_body = \<lparr>ex_from_coin = coin_str Usdt, ex_to_coin = coin_str Usdc, ex_from_amount = show_nat 1, ex_min_to_amount = None,
     ex_idempotency_key = ''k'', ex_route_id = Some ''r'', ex_provider = None,
     ex_expected_to_amount = Some (show_nat 900000000), ex_platform_fee_bps = None, ex_source = None\<rparr>"

definition mint_response :: SwapResponse where
  "mint_response = \<lparr>sr_route_id = None, sr_providers = [''UNISWAP_V3''], sr_target_address = Some ''0xA'',
     sr_inbound_address = None, sr_memo = None, sr_tx_type = None, sr_tx_hint = None, sr_meta = None, sr_extra = JObj []\<rparr>"

lemma mint_swap: "sk_swap (sp_http mint_providers) (sp_swapkit mint_providers) r a b = Inr mint_response"
  by (simp add: sk_swap_def sk_post_def sk_decode_def mint_providers_def mint_http_def mint_answer_def is_success_status_def
      de_swap_response_def de_opt_str_def de_vec_def de_opt_value_def mint_response_def)

definition mint_lock :: LockDexSwapInput where
  "mint_lock = swapkit_input 7 mint_body Usdt Usdc 1 None 900000000 50 ''r'' ''0xB'' ''0xB'' mint_response"

lemma mint_lock_sel [simp]:
  "lx_user mint_lock = 7" "lx_from_coin mint_lock = Usdt" "lx_to_coin mint_lock = Usdc" "lx_from_amount mint_lock = 1"
  "lx_expected_to_amount mint_lock = 900000000" "lx_min_to_amount mint_lock = None" "lx_idempotency_key mint_lock = ''k''"
  "lx_platform_fee_amount mint_lock = 0" "lx_provider mint_lock = ''UNISWAP_V3''"
  by (simp_all add: mint_lock_def swapkit_input_def Let_def mint_body_def mint_response_def fee_of_def u128_sat_mul_def u128_max_def)

definition mint_row :: dex_swap_row where
  "mint_row = new_dex_swap mint_lock 10 60"

definition mint_locked :: db where
  "mint_locked = mint_demo\<lparr>next_id := 12, dex_swaps := [mint_row],
     ledger := ledger mint_demo @ [entry_of (dex_out 1 1 10 Usdc) 11 60]\<rparr>"

lemma mint_demo_sel [simp]:
  "dex_swaps mint_demo = []" "next_id mint_demo = 10" "clock mint_demo = 60" "row_locks mint_demo = []"
  "ledger mint_demo = [entry_of (simple_input 1 1 DEPOSIT None None None) 3 0]"
  "wallet_id_of mint_demo 7 Usdt PERSONAL = Some 1" "wallet_id_of mint_demo 7 Usdc PERSONAL = Some 2"
  "users mint_demo = [\<lparr>u_id = 7, u_email = ''a'', u_username = ''a'', u_password_hash = []\<rparr>]"
  by (simp_all add: mint_demo_def empty_db_def wallet_id_of_def demo_wallet_def)

lemma mint_demo_ok: "dex_ok mint_demo"
  by (simp add: dex_ok_def simple_input_def entry_of_def)

lemma mint_can_lock: "can_post (dex_out 1 1 10 Usdc) (mint_demo\<lparr>row_locks := l, next_id := 11, dex_swaps := [mint_row]\<rparr>)"
  by (simp add: can_post_def held_against_def find_wallet_def mint_demo_def empty_db_def demo_wallet_def wallet_balance_def
      fits_numeric_def numeric_limit_def reference_conflict_def key_conflict_def simple_input_def entry_of_def)

lemma mint_lock_run: "lock_swap quiet mint_lock mint_demo = (Inr (mint_row, True), mint_locked)"
proof -
  obtain l where l: "lock_wallets [1] mint_demo = Inr ((), mint_demo\<lparr>row_locks := l\<rparr>)" using lock_wallets_succeeds by blast
  let ?s = "mint_demo\<lparr>row_locks := l, next_id := 11\<rparr>"
  have ins: "insert_dex_swap mint_row ?s = Inr ((), ?s\<lparr>dex_swaps := [mint_row]\<rparr>)"
    by (simp add: insert_dex_swap_def mint_row_def new_dex_swap_def tx_defs check_numeric_def check_user_fk_def
        fits_numeric_def numeric_limit_def find_dex_by_key_def)
  have app: "apply_ledger_entry (dex_out 1 1 10 Usdc) (?s\<lparr>dex_swaps := [mint_row]\<rparr>) =
      Inr (11, post_entry (dex_out 1 1 10 Usdc) (?s\<lparr>dex_swaps := [mint_row]\<rparr>))"
    using mint_can_lock [of l] by (simp add: apply_ledger_entry_Inr)
  have "lock_tx mint_lock 1 mint_demo = Inr (10, post_entry (dex_out 1 1 10 Usdc) (?s\<lparr>dex_swaps := [mint_row]\<rparr>))"
    using l ins app by (simp add: lock_tx_def tx_bind_Inr tx_map_err_Inr fresh_uuid_Inr now_Inr tx_return_Inr mint_row_def)
  moreover have "release_locks (post_entry (dex_out 1 1 10 Usdc) (?s\<lparr>dex_swaps := [mint_row]\<rparr>)) = mint_locked"
    by (simp add: release_locks_def post_entry_def mint_locked_def)
  moreover have "find_dex mint_locked 10 = Some mint_row"
    by (simp add: find_dex_def mint_locked_def mint_row_def)
  moreover have "find_dex (post_entry (dex_out 1 1 10 Usdc) (?s\<lparr>dex_swaps := [mint_row]\<rparr>)) 10 = Some mint_row"
    by (simp add: find_dex_def post_entry_def mint_row_def)
  ultimately show ?thesis by (simp add: lock_swap_def quiet_def lock_and_create_def Let_def find_dex_by_key_def)
qed

definition mint_caller :: caller where
  "mint_caller = \<lparr>ca_user = 7, ca_ip_print = ''f''\<rparr>"

lemma mint_body_routes: "via_swapkit mint_body"
  by (simp add: via_swapkit_def is_house_def is_relay_def is_changenow_def mint_body_def source_is_def named_provider_def
      route_is_def starts_with_def eq_ignore_case_def)

lemma mint_body_pair:
  "parse_pair (ex_from_coin mint_body) (ex_to_coin mint_body) (ex_from_amount mint_body) = Some (Usdt, Usdc, 1)"
  by (simp add: parse_pair_def mint_body_def parse_u128_show_nat u128_max_def del: coin_str.simps)

lemma mint_body_named: "Option.bind (ex_expected_to_amount mint_body) parse_u128 = Some 900000000"
  by (simp add: mint_body_def parse_u128_show_nat u128_max_def)

lemma mint_hot: "resolve_hot_address mint_env c = Inr ''0xB''"
  by (simp add: resolve_hot_address_def mint_env_def find_trimmed_def non_blank_def trim_def is_space_def)

lemma mint_run:
  "\<exists>s' q. execute_swap mint_env quiet mint_caller mint_body mint_demo = (Inr (dex_response mint_row ''swapkit''), s') \<and>
     ledger s' = ledger mint_locked \<and> wallets s' = wallets mint_demo \<and> find_dex s' 10 = Some q \<and>
     find_dex_by_key s' (scoped_key 7 ''k'') = Some q \<and> q = announced ''0xA'' None (ser_swap_response mint_response) 60 mint_row"
proof -
  have env: "se_providers mint_env = mint_providers" by (simp add: mint_env_def)
  have cfg: "sk_is_configured (sp_swapkit mint_providers)" by (simp add: sk_is_configured_def mint_providers_def)
  have rid: "ex_route_id mint_body = Some ''r''" by (simp add: mint_body_def)
  have bps: "given_bps mint_body (sk_fee_bps_cross (sp_swapkit mint_providers)) = 50"
    by (simp add: given_bps_def mint_body_def mint_providers_def)
  have dep: "deposit_address_of mint_response = Some ''0xA''" by (simp add: deposit_address_of_def mint_response_def)
  have who: "ca_user mint_caller = 7" by (simp add: mint_caller_def)
  have lock: "swapkit_input 7 mint_body Usdt Usdc (Suc 0) None 900000000 50 ''r'' ''0xB'' ''0xB'' mint_response = mint_lock"
    by (simp add: mint_lock_def)
  have one: "execute_swapkit mint_env quiet mint_caller Usdt Usdc 1 None mint_body mint_demo =
    finalize_dex_lock mint_caller Usdt ''r'' ''UNISWAP_V3'' mint_row True ''0xA'' ''0xB'' (memo_str mint_response)
      (ser_swap_response mint_response) (fee_of 1 50) ''swapkit'' mint_locked"
    using mint_lock_run
    by (simp add: execute_swapkit_def Let_def env cfg rid bps dep who mint_hot mint_swap mint_body_named lock)
  have "execute_swap mint_env quiet mint_caller mint_body mint_demo =
      execute_swapkit mint_env quiet mint_caller Usdt Usdc 1 None mint_body mint_demo"
    using mint_body_routes
    by (simp add: execute_swap_def mint_body_pair via_swapkit_def reject_unsupported_pair_def allowlist_defs)
      (simp add: mint_body_def)
  note exec = this [unfolded one]
  have memo: "memo_str mint_response = None" by (simp add: memo_str_def mint_response_def get_str_def)
  obtain s' where fin: "finalize_dex_lock mint_caller Usdt ''r'' ''UNISWAP_V3'' mint_row True ''0xA'' ''0xB'' (memo_str mint_response)
      (ser_swap_response mint_response) (fee_of 1 50) ''swapkit'' mint_locked = (Inr (dex_response mint_row ''swapkit''), s')"
    by (simp add: finalize_dex_lock_def)
  have "find_dex mint_locked (dx_id mint_row) = Some mint_row" "dx_status mint_row = DxLocked"
    "find_dex_by_key mint_locked (scoped_key 7 ''k'') = Some mint_row"
    by (simp_all add: find_dex_def find_dex_by_key_def mint_locked_def mint_row_def)
  note f = finalize_created [OF fin this]
  have sel: "dx_id mint_row = 10" "clock mint_locked = 60" "wallets mint_locked = wallets mint_demo"
    by (simp_all add: mint_row_def mint_locked_def)
  show ?thesis
    by (rule exI [of _ s'], rule exI [of _ "announced ''0xA'' None (ser_swap_response mint_response) 60 mint_row"], intro conjI)
      (use exec fin f in \<open>simp_all add: memo sel\<close>)
qed

lemma pay_out_succeeds:
  assumes "wallet_id_of s (dx_user q) (dx_to_coin q) PERSONAL = Some w"
    and "can_post (dex_credit w n (dx_id q)) s" and "fits_numeric (int n)"
  shows "\<exists>t. pay_out q n h s = Inr ((), t)"
proof -
  let ?s = "set_dex (dx_id q) UNIV (\<lambda>r. r\<lparr>dx_status := DxCrediting, dx_updated_at := clock s\<rparr>) s"
  obtain l where l: "lock_wallets [w] ?s = Inr ((), ?s\<lparr>row_locks := l\<rparr>)" using lock_wallets_succeeds by blast
  have c: "can_post (dex_credit w n (dx_id q)) (?s\<lparr>row_locks := l\<rparr>)"
    using assms(2) by (simp add: can_post_frame [of "?s\<lparr>row_locks := l\<rparr>" s])
  show ?thesis unfolding pay_out_def using assms(1,3) l c
    by (simp add: tx_bind_Inr tx_modify_Inr select_wallet_Inr tx_ok_or_Inr tx_map_err_Inr apply_ledger_entry_Inr
        check_numeric_Inr del: lock_wallets_Inr)
qed

lemma receipt_pays:
  assumes "find_dex s sid = Some q" and "dx_status q = DxInFlight" and "is_same_chain (dx_from_coin q) (dx_to_coin q)"
    and "\<not> (case dx_payload q of None \<Rightarrow> False | Some v \<Rightarrow> relay_is_bridge v)"
    and "dx_expected_to_amount q = int n" and "n \<le> u128_max" and "\<not> below_min q n" and "fits_numeric (int n)"
    and "wallet_id_of s (dx_user q) (dx_to_coin q) PERSONAL = Some w" and "can_post (dex_credit w n sid) s"
  shows "\<exists>t. credit_same_chain_after_receipt sid h s = (Inr (), t)"
proof -
  let ?s = "s\<lparr>row_locks := acquire (DexSwapLock sid) (row_locks s)\<rparr>"
  have id: "dx_id q = sid" using find_dex_Some [OF assms(1)] by simp
  have "can_post (dex_credit w n (dx_id q)) ?s" using assms(10) by (simp add: can_post_frame [of ?s s] id)
  then obtain t where "pay_out q n (Some h) ?s = Inr ((), t)"
    using pay_out_succeeds [of ?s q w n "Some h"] assms(8,9) by auto
  then have "credit_tx sid n (Some h) s = Inr ((), t)"
    using assms(1,2) by (simp add: credit_tx_def tx_bind_Inr tx_gets_Inr take_lock_Inr)
  then have "credit_and_complete sid n (Some h) s = (Inr (), release_locks t)"
    by (simp add: credit_and_complete_def commit_tx_def)
  then show ?thesis using assms(1-7) by (auto simp: credit_same_chain_after_receipt_def as_text_def)
qed

lemma mint_can_credit:
  "can_post (dex_credit 2 900000000 10) mint_locked"
  by (simp add: can_post_def held_against_def find_wallet_def mint_locked_def mint_demo_def empty_db_def demo_wallet_def
      wallet_balance_def fits_numeric_def numeric_limit_def reference_conflict_def key_conflict_def dex_out_def dex_credit_def
      simple_input_def entry_of_def)

theorem swapkit_credits_named_amount_witness:
  "\<exists>s' (row :: dex_swap_row) t. fst (execute_swap mint_env quiet mint_caller mint_body mint_demo) = Inr (dex_response mint_row ''swapkit'') \<and>
     dx_from_amount row = 1 \<and> wallet_balance mint_demo 2 = 0 \<and>
     credit_same_chain_after_receipt (dx_id row) ''h'' (snd (mark_in_flight (dx_id row) ''h'' s')) = (Inr (), t) \<and>
     wallet_balance t 2 = 900000000"
proof -
  obtain s' q where run: "execute_swap mint_env quiet mint_caller mint_body mint_demo = (Inr (dex_response mint_row ''swapkit''), s')"
    and led: "ledger s' = ledger mint_locked" and ws: "wallets s' = wallets mint_demo" and q: "find_dex s' 10 = Some q"
    and key: "find_dex_by_key s' (scoped_key 7 ''k'') = Some q"
    and qd: "q = announced ''0xA'' None (ser_swap_response mint_response) 60 mint_row"
    using mint_run by blast
  have rk: "request_key mint_caller mint_body = scoped_key 7 ''k''" by (simp add: request_key_def mint_caller_def mint_body_def)
  have none: "find_dex_by_key mint_demo (request_key mint_caller mint_body) = None" by (simp add: find_dex_by_key_def)
  note named = swapkit_credits_named_amount [OF run mint_demo_ok mint_body_routes mint_body_pair mint_body_named none]
  have same: "is_same_chain Usdt Usdc" by (simp add: is_same_chain_def)
  have pay: "dx_payload q = Some (ser_swap_response mint_response)" "dx_id q = 10" "dx_status q = DxBroadcasting"
    "dx_from_amount q = 1" by (simp_all add: qd mint_row_def)
  have nb: "\<not> relay_is_bridge (ser_swap_response mint_response)"
    by (simp add: relay_is_bridge_def ser_swap_response_def mint_response_def)
  let ?u = "snd (mark_in_flight 10 ''h'' s')" and ?r = "in_flight ''h'' (clock s') q"
  have u: "find_dex ?u 10 = Some ?r" "wallets ?u = wallets mint_demo" "ledger ?u = ledger mint_locked"
    using mark_in_flight_find [OF q] pay(3) ws led by simp_all
  have w2: "wallet_id_of ?u 7 Usdc PERSONAL = Some 2" using wallet_id_frame [OF u(2)] by simp
  have post: "can_post (dex_credit 2 900000000 10) ?u"
    using mint_can_credit by (simp add: can_post_frame [of ?u mint_locked] u mint_locked_def)
  have "\<exists>t. credit_same_chain_after_receipt 10 ''h'' ?u = (Inr (), t)"
    by (rule receipt_pays [OF u(1), of 900000000 2])
      (simp_all add: qd mint_row_def same nb below_min_def new_dex_swap_def w2 post fits_numeric_def numeric_limit_def u128_max_def)
  then obtain t where t: "credit_same_chain_after_receipt 10 ''h'' ?u = (Inr (), t)" by blast
  have "wallet_balance s' 2 = 0" by (simp add: wallet_balance_def led mint_locked_def simple_input_def entry_of_def dex_out_def)
  moreover have "wallet_balance mint_demo 2 = 0" by (simp add: wallet_balance_def simple_input_def entry_of_def)
  moreover have "\<exists>w. wallet_id_of mint_demo 7 Usdc PERSONAL = Some w \<and> wallet_balance t w = wallet_balance s' w + 900000000"
    using named key rk pay(1,2) same nb t by (auto simp: mint_caller_def)
  ultimately have "fst (execute_swap mint_env quiet mint_caller mint_body mint_demo) = Inr (dex_response mint_row ''swapkit'') \<and>
     dx_from_amount q = 1 \<and> wallet_balance mint_demo 2 = 0 \<and>
     credit_same_chain_after_receipt (dx_id q) ''h'' (snd (mark_in_flight (dx_id q) ''h'' s')) = (Inr (), t) \<and>
     wallet_balance t 2 = 900000000"
    using t pay run by auto
  then show ?thesis by blast
qed

section \<open>Repeated requests\<close>

text \<open>A provider-backed swap that was there already is answered from its row, with no further effect.\<close>

lemma finalize_old: "snd (finalize_dex_lock who coin rid primary row False deposit destination memo payload fee source s) = s"
  by (simp add: finalize_dex_lock_def)

definition swap_awards :: "db \<Rightarrow> uuid \<Rightarrow> point_log_row list" where
  "swap_awards s user = filter (\<lambda>l. pl_user l = user \<and> pl_activity l = ''SWAP_EXECUTE'') (point_logs s)"

lemma award_logs:
  assumes "award_airdrop_points_tx u a b act s = Inr (r, t)"
  shows "r = NoActiveSeason \<and> t = s \<or>
    r = Awarded \<and> (\<exists>l. pl_user l = u \<and> pl_activity l = act \<and> pl_points l = a \<and> point_logs t = point_logs s @ [l])"
proof (cases "get_active_season s")
  case None
  with assms show ?thesis by (simp add: award_airdrop_points_tx_def tx_simps)
next
  case (Some se)
  with assms obtain p s1 where "add_points (se_id se) u a b (s\<lparr>point_logs := point_logs s @
           [\<lparr>pl_season = se_id se, pl_user = u, pl_activity = act,
             pl_description = award_description act, pl_points = a,
             pl_bonus_points = b\<rparr>]\<rparr>) = Inr (p, s1)" and "\<exists>y. t = s1\<lparr>user_points := y\<rparr>" and "r = Awarded"
    by (auto simp: award_airdrop_points_tx_def tx_simps split: prod.splits)
  with add_points_frame show ?thesis by fastforce
qed

lemma commission_awards:
  "swap_awards (snd (record_referral_commission u act' c x y s)) user = swap_awards s user"
  by (auto simp: record_referral_commission_def award_airdrop_points_def swap_awards_def release_locks_def
      split: option.splits sum.splits prod.splits AwardResult.splits dest!: insert_commission_frame award_logs)

lemma awarded_logs:
  assumes "award_airdrop_points u 100 0 ''SWAP_EXECUTE'' s = (Inr Awarded, t)"
  shows "length (swap_awards t u) = Suc (length (swap_awards s u))"
proof -
  obtain t' where t': "award_airdrop_points_tx u 100 0 ''SWAP_EXECUTE'' s = Inr (Awarded, t')" "t = release_locks t'"
    using assms by (auto simp: award_airdrop_points_def split: sum.splits prod.splits AwardResult.splits)
  from award_logs [OF t'(1)] obtain l where "pl_user l = u" "pl_activity l = ''SWAP_EXECUTE''" "point_logs t' = point_logs s @ [l]"
    by auto
  then show ?thesis by (simp add: swap_awards_def t'(2) release_locks_def)
qed

text \<open>
  A repeated house swap pays again: a request whose key has a swap already answers that swap and moves no money, and
  the user gets the points of a swap once more.
\<close>

theorem house_replay_pays_again:
  assumes "find_by_idempotency_key s (scoped_key (ca_user who) key) = Some old"
    and "execute_house E g who src dst amount min_to key s = (Inr resp, s')"
    and "award_airdrop_points (ca_user who) 100 0 ''SWAP_EXECUTE'' s = (Inr Awarded, s1)"
  shows "resp = house_response old \<and> swaps s' = swaps s \<and> ledger s' = ledger s \<and>
    length (swap_awards s' (ca_user who)) = Suc (length (swap_awards s (ca_user who)))"
proof -
  have old: "x = old \<and> \<not> c \<and> t = s" if "execute bb bi (ca_user who) src dst amount min_to key m s = (Inr (x, c), t)" for bb bi m x c t
    using assms(1) that by (auto simp: execute_def Let_def split: sum.splits if_splits)
  obtain x c t where x: "execute (gp_before_begin g) (gp_before_insert g) (ca_user who) src dst amount min_to key (se_max_stale E) s = (Inr (x, c), t)"
    using assms(2) by (auto simp: execute_house_def split: prod.splits sum.splits)
  have s': "resp = house_response old"
    and r: "s' = house_log who src dst (sr_id old) (swap_rewards (ca_user who) src (sr_fee_amount old) s)"
    using assms(2) old [OF x] by (auto simp: execute_house_def x)
  have "swap_awards s' (ca_user who) = swap_awards s1 (ca_user who)"
    unfolding r using commission_awards assms(3) by (simp add: house_log_def swap_rewards_def Let_def swap_awards_def)
  with awarded_logs [OF assms(3)] s' show ?thesis by (simp add: r house_log_def)
qed

definition replay_row :: swap_row where
  "replay_row = \<lparr>sw_id = 40, sw_user = 7, sw_from_coin = Btc, sw_to_coin = Ltc, sw_from_amount = 1000, sw_to_amount = 740000,
     sw_fee_amount = 2, sw_fee_bps = 25, sw_price_from = 60000, sw_price_to = 80, sw_price_decimals = 8,
     sw_idempotency_key = Some (scoped_key 7 ''k''), sw_created_at = 50\<rparr>"

definition replay_demo :: db where
  "replay_demo = empty_db\<lparr>next_id := 100, clock := 60,
     users := [\<lparr>u_id = 7, u_email = ''a'', u_username = ''a'', u_password_hash = []\<rparr>],
     seasons := [\<lparr>se_id = 3, se_number = 1, se_status = ''ACTIVE'', se_start_at = 0, se_end_at = 9\<rparr>],
     swaps := [replay_row],
     price_cache := [\<lparr>pc_coin = Btc, pc_price_scaled = 60000, pc_price_decimals = 8, pc_fetched_at = 50\<rparr>,
                     \<lparr>pc_coin = Ltc, pc_price_scaled = 80, pc_price_decimals = 8, pc_fetched_at = 50\<rparr>]\<rparr>"

lemma replay_run:
  "fst (execute id id 7 Btc Ltc 1000 None ''k'' 60 replay_demo) = Inr (swap_row_view replay_row, False)"
  by (simp add: replay_demo_def empty_db_def execute_def quote_def get_price_def cached_price_def dec_to_u128_def
      compute_swap_def SWAP_FEE_BPS_def to_u128_or_max_def nat_to_u128_def u128_max_def
      find_by_idempotency_key_def tx_defs Let_def replay_row_def)

lemma replay_award: "\<exists>t. award_airdrop_points 7 100 0 ''SWAP_EXECUTE'' replay_demo = (Inr Awarded, t)"
  by (simp add: award_airdrop_points_def award_airdrop_points_tx_def replay_demo_def empty_db_def get_active_season_def
      add_points_def find_points_def check_bigint_def check_user_fk_def tx_defs)

theorem house_replay_pays_again_witness:
  "\<exists>resp s'. execute_house mint_env quiet mint_caller Btc Ltc 1000 None ''k'' replay_demo = (Inr resp, s') \<and>
     swap_awards replay_demo 7 = [] \<and> length (swap_awards s' 7) = 1"
proof -
  have who: "ca_user mint_caller = 7" "se_max_stale mint_env = 60" by (simp_all add: mint_caller_def mint_env_def)
  obtain t where ex: "execute id id 7 Btc Ltc 1000 None ''k'' 60 replay_demo = (Inr (swap_row_view replay_row, False), t)"
    using replay_run by (cases "execute id id 7 Btc Ltc 1000 None ''k'' 60 replay_demo") auto
  then obtain s' where run: "execute_house mint_env quiet mint_caller Btc Ltc 1000 None ''k'' replay_demo =
      (Inr (house_response (swap_row_view replay_row)), s')"
    by (simp add: execute_house_def quiet_def who)
  obtain s1 where aw: "award_airdrop_points (ca_user mint_caller) 100 0 ''SWAP_EXECUTE'' replay_demo = (Inr Awarded, s1)"
    using replay_award unfolding who by blast
  have old: "find_by_idempotency_key replay_demo (scoped_key (ca_user mint_caller) ''k'') = Some (swap_row_view replay_row)"
    by (simp add: find_by_idempotency_key_def replay_demo_def replay_row_def who)
  have "swap_awards replay_demo 7 = []" by (simp add: swap_awards_def replay_demo_def empty_db_def)
  with house_replay_pays_again [OF old run aw] run show ?thesis unfolding who by auto
qed

section \<open>The tolerance of a new quote\<close>

lemma slippage_bps_le: "slippage_bps E \<le> 5000"
proof -
  have "max 0 (min (se_slippage_pct E) 50) * 100 \<le> (of_nat 5000 :: rat)" by auto
  then have "f64 (max 0 (min (se_slippage_pct E) 50) * 100) \<le> f64 (of_nat 5000)" by (rule f64_mono)
  also have "f64 (of_nat 5000) = of_nat 5000" by (rule f64_of_nat) simp
  finally show ?thesis unfolding slippage_bps_def by (simp add: floor_le_iff nat_le_iff)
qed

text \<open>
  Whatever tolerance is configured, the least amount a Relay or ChangeNOW route promises is positive, at most what the
  route offers (or one unit), and at least half of it.
\<close>

theorem slippage_floor_bounds:
  "1 \<le> slippage_floor E n \<and> slippage_floor E n \<le> max 1 n \<and> n \<le> 2 * slippage_floor E n"
proof -
  have "n * slippage_bps E \<le> n * 5000" using slippage_bps_le by (rule mult_le_mono2)
  then have "u128_sat_mul n (slippage_bps E) \<le> n * 5000" by (simp add: u128_sat_mul_def min.coboundedI1)
  then have "fee_of n (slippage_bps E) \<le> n * 5000 div 10000" unfolding fee_of_def by (rule div_le_mono)
  then have "2 * fee_of n (slippage_bps E) \<le> n" by linarith
  then show ?thesis unfolding slippage_floor_def by linarith
qed

end
