(* ===== verification/AuthStore.thy ===== *)
theory AuthStore
  imports Privacy Coins
begin

text \<open>
  \<open>crates/domain/src/auth/repo.rs\<close> and \<open>crates/db/src/auth.rs\<close>: what the authentication service asks of its store, as a
  record of operations over an arbitrary state (the trait \<open>AuthRepo\<close>), and the Postgres implementation as a value of it.
  The tables of authentication are a state of their own, \<open>auth_db\<close>; the wallets a registration creates are listed in it.
\<close>

section \<open>The rows of the trait\<close>

record UserRow =
  us_id :: uuid
  us_email :: string
  us_username :: string
  us_password_hash :: string
  us_role :: string
  us_two_factor :: bool
  us_merchant_status :: string
  us_created_at :: int

record RefreshTokenRow =
  rk_id :: uuid
  rk_user :: uuid
  rk_hash :: string
  rk_expires_at :: int
  rk_revoked_at :: "int option"

record EmailOtpRow =
  eo_id :: uuid
  eo_code_hash :: string
  eo_attempts :: int

text \<open>A call returns the text of an error or a result, and the state it leaves; a lookup leaves it alone.\<close>

type_synonym ('s, 'a) repo_call = "'s \<Rightarrow> (string + 'a) \<times> 's"
type_synonym ('s, 'a) repo_read = "'s \<Rightarrow> string + 'a"

record 's AuthRepo =
  ar_now :: "'s \<Rightarrow> int" \<comment> \<open>the clock that \<open>Utc::now()\<close> and the database's \<open>now()\<close> read\<close>
  ar_find_user_by_email :: "string \<Rightarrow> ('s, UserRow option) repo_read"
  ar_find_user_by_username :: "string \<Rightarrow> ('s, UserRow option) repo_read"
  ar_find_user_by_id :: "uuid \<Rightarrow> ('s, UserRow option) repo_read"
  ar_create_user_with_wallets :: "string \<Rightarrow> string \<Rightarrow> string \<Rightarrow> Coin list \<Rightarrow> ('s, UserRow) repo_call"
  ar_update_user_role :: "uuid \<Rightarrow> string \<Rightarrow> ('s, unit) repo_call"
  ar_update_last_login :: "uuid \<Rightarrow> ('s, unit) repo_call"
  ar_update_two_factor_enabled :: "uuid \<Rightarrow> bool \<Rightarrow> ('s, unit) repo_call"
  ar_update_username :: "uuid \<Rightarrow> string \<Rightarrow> ('s, UserRow) repo_call"
  ar_create_refresh_token :: "uuid \<Rightarrow> string \<Rightarrow> int \<Rightarrow> ('s, unit) repo_call"
  ar_claim_refresh_token :: "string \<Rightarrow> int \<Rightarrow> ('s, nat) repo_call"
  ar_find_refresh_token_with_user :: "string \<Rightarrow> ('s, (RefreshTokenRow \<times> UserRow) option) repo_read"
  ar_find_refresh_token :: "string \<Rightarrow> ('s, RefreshTokenRow option) repo_read"
  ar_revoke_all_user_refresh_tokens :: "uuid \<Rightarrow> int \<Rightarrow> ('s, unit) repo_call"
  ar_delete_all_user_refresh_tokens :: "uuid \<Rightarrow> ('s, unit) repo_call"
  ar_revoke_refresh_token_by_hash :: "string \<Rightarrow> int \<Rightarrow> ('s, unit) repo_call"
  ar_find_recent_otp :: "uuid \<Rightarrow> string \<Rightarrow> int \<Rightarrow> ('s, EmailOtpRow option) repo_read"
  ar_rotate_otp :: "uuid \<Rightarrow> string \<Rightarrow> string \<Rightarrow> int \<Rightarrow> int \<Rightarrow> ('s, unit) repo_call"
  ar_find_active_otp :: "uuid \<Rightarrow> string \<Rightarrow> int \<Rightarrow> ('s, EmailOtpRow option) repo_read"
  ar_increment_otp_attempts :: "uuid \<Rightarrow> ('s, unit) repo_call"
  ar_claim_otp :: "uuid \<Rightarrow> int \<Rightarrow> ('s, nat) repo_call"

section \<open>The tables\<close>

record auth_user_row =
  au_id :: uuid
  au_email :: string
  au_email_hmac :: "string option"
  au_email_enc :: "string option"
  au_username :: string
  au_password_hash :: string
  au_role :: string
  au_two_factor :: bool
  au_merchant_status :: string
  au_created_at :: int
  au_last_login_at :: "int option"
  au_erased_at :: "int option"

record otp_row =
  ot_id :: uuid
  ot_user :: uuid
  ot_purpose :: string
  ot_code_hash :: string
  ot_expires_at :: int
  ot_consumed_at :: "int option"
  ot_attempts :: int
  ot_created_at :: int

record auth_db =
  ad_users :: "auth_user_row list"
  ad_wallets :: "(uuid \<times> Coin \<times> wallet_kind) list"
  ad_tokens :: "RefreshTokenRow list"
  ad_otps :: "otp_row list"
  ad_clock :: int
  ad_next_id :: uuid

definition empty_auth :: auth_db where
  "empty_auth = \<lparr>ad_users = [], ad_wallets = [], ad_tokens = [], ad_otps = [], ad_clock = 0, ad_next_id = 1\<rparr>"

section \<open>Users\<close>

text \<open>\<open>pg_blank\<close> is the variable \<open>PII_BLANK_EMAIL\<close>, \<open>pg_iv\<close> the nonce that seals the next e-mail address.\<close>

record PgAuthRepo =
  pg_prims :: primitives
  pg_secrets :: "SecretsService option"
  pg_blank :: bool
  pg_iv :: string

definition row_to_user :: "PgAuthRepo \<Rightarrow> auth_user_row \<Rightarrow> UserRow" where
  "row_to_user g r =
     \<lparr>us_id = au_id r, us_email = reveal_stored_email (pg_prims g) (pg_secrets g) (au_id r) (au_email r) (au_email_enc r),
      us_username = au_username r, us_password_hash = au_password_hash r, us_role = au_role r,
      us_two_factor = au_two_factor r, us_merchant_status = au_merchant_status r, us_created_at = au_created_at r\<rparr>"

lemma row_to_user_sel [simp]:
  "us_id (row_to_user g r) = au_id r" "us_password_hash (row_to_user g r) = au_password_hash r"
  "us_two_factor (row_to_user g r) = au_two_factor r" "us_role (row_to_user g r) = au_role r"
  by (simp_all add: row_to_user_def)

definition find_auth_user :: "PgAuthRepo \<Rightarrow> (auth_user_row \<Rightarrow> bool) \<Rightarrow> (auth_db, UserRow option) repo_read" where
  "find_auth_user g p s = Inr (map_option (row_to_user g) (List.find (\<lambda>r. au_erased_at r = None \<and> p r) (ad_users s)))"

definition email_matches :: "PgAuthRepo \<Rightarrow> string \<Rightarrow> auth_user_row \<Rightarrow> bool" where
  "email_matches g email r \<longleftrightarrow>
     (case pg_secrets g of None \<Rightarrow> False | Some ss \<Rightarrow> au_email_hmac r = Some (email_index (pg_prims g) ss email)) \<or>
     eq_ignore_case (au_email r) email"

definition pg_find_user_by_email :: "PgAuthRepo \<Rightarrow> string \<Rightarrow> (auth_db, UserRow option) repo_read" where
  "pg_find_user_by_email g email = find_auth_user g (email_matches g email)"

definition pg_find_user_by_id :: "PgAuthRepo \<Rightarrow> uuid \<Rightarrow> (auth_db, UserRow option) repo_read" where
  "pg_find_user_by_id g user = find_auth_user g (\<lambda>r. au_id r = user)"

definition pg_find_user_by_username :: "PgAuthRepo \<Rightarrow> string \<Rightarrow> (auth_db, UserRow option) repo_read" where
  "pg_find_user_by_username g name = find_auth_user g (\<lambda>r. eq_ignore_case (au_username r) name)"

text \<open>The unique indexes of \<open>users\<close>; they count the erased users too.\<close>

definition insert_user :: "auth_user_row \<Rightarrow> auth_db \<Rightarrow> db_error + auth_db" where
  "insert_user r s =
     (if \<exists>x\<in>set (ad_users s). au_email x = au_email r then Inl (UniqueViolation ''users_email_key'')
      else if \<exists>x\<in>set (ad_users s). eq_ignore_case (au_username x) (au_username r)
      then Inl (UniqueViolation ''idx_users_username_lower'')
      else if au_email_hmac r \<noteq> None \<and> (\<exists>x\<in>set (ad_users s). au_email_hmac x = au_email_hmac r)
      then Inl (UniqueViolation ''uq_users_email_hmac'')
      else Inr (s\<lparr>ad_users := ad_users s @ [r]\<rparr>))"

definition sealed_email :: "PgAuthRepo \<Rightarrow> uuid \<Rightarrow> string \<Rightarrow> string option \<times> string option" where
  "sealed_email g user email =
     (case pg_secrets g of
        None \<Rightarrow> (None, None)
      | Some ss \<Rightarrow> (Some (email_index (pg_prims g) ss email),
          Some (seal_pii (pg_prims g) ss (pg_iv g) ''user.email'' (show_uuid user) (normalize_email email))))"

definition new_auth_user :: "PgAuthRepo \<Rightarrow> uuid \<Rightarrow> string \<Rightarrow> string \<Rightarrow> string \<Rightarrow> int \<Rightarrow> auth_user_row" where
  "new_auth_user g user email username hash t =
     (let (hmac, enc) = sealed_email g user email in
      \<lparr>au_id = user,
       au_email = (if enc \<noteq> None \<and> pg_blank g then ''sealed+'' @ show_uuid user @ ''@invalid.local'' else email),
       au_email_hmac = hmac, au_email_enc = enc, au_username = username, au_password_hash = hash, au_role = ''USER'',
       au_two_factor = False, au_merchant_status = ''APPROVED'', au_created_at = t, au_last_login_at = None,
       au_erased_at = None\<rparr>)"

definition pg_create_user_with_wallets ::
    "PgAuthRepo \<Rightarrow> string \<Rightarrow> string \<Rightarrow> string \<Rightarrow> Coin list \<Rightarrow> (auth_db, UserRow) repo_call" where
  "pg_create_user_with_wallets g email username hash coins s =
     (let r = new_auth_user g (ad_next_id s) email username hash (ad_clock s) in
      case insert_user r s of
        Inl e \<Rightarrow> (Inl (db_error_str e), s)
      | Inr s1 \<Rightarrow> (Inr (row_to_user g r),
          s1\<lparr>ad_next_id := Suc (ad_next_id s),
            ad_wallets := ad_wallets s1 @ concat (map (\<lambda>c. map (\<lambda>k. (au_id r, c, k)) [PERSONAL, DEVELOPER]) coins)\<rparr>))"

definition set_user :: "uuid \<Rightarrow> (auth_user_row \<Rightarrow> auth_user_row) \<Rightarrow> auth_db \<Rightarrow> auth_db" where
  "set_user user f s = s\<lparr>ad_users := update_where (\<lambda>r. au_id r = user) f (ad_users s)\<rparr>"

definition pg_update_user_role :: "uuid \<Rightarrow> string \<Rightarrow> (auth_db, unit) repo_call" where
  "pg_update_user_role user role s =
     (if role \<in> {''USER'', ''ADMIN''} then (Inr (), set_user user (\<lambda>r. r\<lparr>au_role := role\<rparr>) s)
      else (Inl (db_error_str (InvalidEnum ''user_role'' role)), s))"

definition pg_update_last_login :: "uuid \<Rightarrow> (auth_db, unit) repo_call" where
  "pg_update_last_login user s = (Inr (), set_user user (\<lambda>r. r\<lparr>au_last_login_at := Some (ad_clock s)\<rparr>) s)"

definition pg_update_two_factor_enabled :: "uuid \<Rightarrow> bool \<Rightarrow> (auth_db, unit) repo_call" where
  "pg_update_two_factor_enabled user enabled s = (Inr (), set_user user (\<lambda>r. r\<lparr>au_two_factor := enabled\<rparr>) s)"

definition pg_update_username :: "PgAuthRepo \<Rightarrow> uuid \<Rightarrow> string \<Rightarrow> (auth_db, UserRow) repo_call" where
  "pg_update_username g user name s =
     (case List.find (\<lambda>r. au_id r = user) (ad_users s) of
        None \<Rightarrow> (Inl (db_error_str RowNotFound), s)
      | Some r \<Rightarrow>
          if \<exists>x\<in>set (ad_users s). au_id x \<noteq> user \<and> eq_ignore_case (au_username x) name
          then (Inl (db_error_str (UniqueViolation ''idx_users_username_lower'')), s)
          else (Inr (row_to_user g (r\<lparr>au_username := name\<rparr>)), set_user user (\<lambda>r. r\<lparr>au_username := name\<rparr>) s))"

section \<open>Refresh tokens\<close>

definition find_token :: "auth_db \<Rightarrow> string \<Rightarrow> RefreshTokenRow option" where
  "find_token s h = List.find (\<lambda>r. rk_hash r = h) (ad_tokens s)"

definition set_tokens :: "(RefreshTokenRow \<Rightarrow> bool) \<Rightarrow> (RefreshTokenRow \<Rightarrow> RefreshTokenRow) \<Rightarrow> auth_db \<Rightarrow> auth_db" where
  "set_tokens p f s = s\<lparr>ad_tokens := update_where p f (ad_tokens s)\<rparr>"

definition revoked :: "int \<Rightarrow> RefreshTokenRow \<Rightarrow> RefreshTokenRow" where
  "revoked t r = r\<lparr>rk_revoked_at := Some t\<rparr>"

definition pg_create_refresh_token :: "uuid \<Rightarrow> string \<Rightarrow> int \<Rightarrow> (auth_db, unit) repo_call" where
  "pg_create_refresh_token user h expires s =
     (if \<not> (\<exists>r\<in>set (ad_users s). au_id r = user)
      then (Inl (db_error_str (ForeignKeyViolation ''refresh_tokens'' ''refresh_tokens_user_id_fkey'')), s)
      else if find_token s h \<noteq> None then (Inl (db_error_str (UniqueViolation ''refresh_tokens_token_hash_key'')), s)
      else (Inr (), s\<lparr>ad_next_id := Suc (ad_next_id s), ad_tokens := ad_tokens s @
        [\<lparr>rk_id = ad_next_id s, rk_user = user, rk_hash = h, rk_expires_at = expires, rk_revoked_at = None\<rparr>]\<rparr>))"

definition claimable :: "string \<Rightarrow> int \<Rightarrow> RefreshTokenRow \<Rightarrow> bool" where
  "claimable h t r \<longleftrightarrow> rk_hash r = h \<and> rk_revoked_at r = None \<and> t < rk_expires_at r"

definition pg_claim_refresh_token :: "string \<Rightarrow> int \<Rightarrow> (auth_db, nat) repo_call" where
  "pg_claim_refresh_token h t s =
     (Inr (length (filter (claimable h t) (ad_tokens s))), set_tokens (claimable h t) (revoked t) s)"

definition pg_find_refresh_token :: "string \<Rightarrow> (auth_db, RefreshTokenRow option) repo_read" where
  "pg_find_refresh_token h s = Inr (find_token s h)"

text \<open>The join does not look at \<open>erased_at\<close>.\<close>

definition pg_find_refresh_token_with_user ::
    "PgAuthRepo \<Rightarrow> string \<Rightarrow> (auth_db, (RefreshTokenRow \<times> UserRow) option) repo_read" where
  "pg_find_refresh_token_with_user g h s = Inr
     (case find_token s h of
        None \<Rightarrow> None
      | Some r \<Rightarrow> map_option (\<lambda>u. (r, row_to_user g u)) (List.find (\<lambda>u. au_id u = rk_user r) (ad_users s)))"

definition pg_revoke_all_user_refresh_tokens :: "uuid \<Rightarrow> int \<Rightarrow> (auth_db, unit) repo_call" where
  "pg_revoke_all_user_refresh_tokens user t s =
     (Inr (), set_tokens (\<lambda>r. rk_user r = user \<and> rk_revoked_at r = None) (revoked t) s)"

definition pg_delete_all_user_refresh_tokens :: "uuid \<Rightarrow> (auth_db, unit) repo_call" where
  "pg_delete_all_user_refresh_tokens user s =
     (Inr (), s\<lparr>ad_tokens := filter (\<lambda>r. rk_user r \<noteq> user) (ad_tokens s)\<rparr>)"

definition pg_revoke_refresh_token_by_hash :: "string \<Rightarrow> int \<Rightarrow> (auth_db, unit) repo_call" where
  "pg_revoke_refresh_token_by_hash h t s =
     (Inr (), set_tokens (\<lambda>r. rk_hash r = h \<and> rk_revoked_at r = None) (revoked t) s)"

section \<open>One-time codes\<close>

definition otp_purposes :: "string list" where
  "otp_purposes = [''ENABLE_2FA'', ''DISABLE_2FA'', ''LOGIN'', ''WITHDRAWAL'']"

definition with_purpose :: "string \<Rightarrow> string + 'a \<Rightarrow> string + 'a" where
  "with_purpose purpose r =
     (if purpose \<in> set otp_purposes then r else Inl (db_error_str (InvalidEnum ''otp_purpose'' purpose)))"

definition otp_view :: "otp_row \<Rightarrow> EmailOtpRow" where
  "otp_view r = \<lparr>eo_id = ot_id r, eo_code_hash = ot_code_hash r, eo_attempts = ot_attempts r\<rparr>"

text \<open>\<open>ORDER BY created_at DESC LIMIT 1\<close>.\<close>

definition newest :: "(otp_row \<Rightarrow> bool) \<Rightarrow> auth_db \<Rightarrow> otp_row option" where
  "newest p s = (case sort_key (\<lambda>r. - ot_created_at r) (filter p (ad_otps s)) of [] \<Rightarrow> None | r # _ \<Rightarrow> Some r)"

definition pg_find_recent_otp :: "uuid \<Rightarrow> string \<Rightarrow> int \<Rightarrow> (auth_db, EmailOtpRow option) repo_read" where
  "pg_find_recent_otp user purpose since s = with_purpose purpose (Inr (map_option otp_view
     (newest (\<lambda>r. ot_user r = user \<and> ot_purpose r = purpose \<and> since < ot_created_at r) s)))"

definition otp_active :: "uuid \<Rightarrow> string \<Rightarrow> int \<Rightarrow> otp_row \<Rightarrow> bool" where
  "otp_active user purpose t r \<longleftrightarrow>
     ot_user r = user \<and> ot_purpose r = purpose \<and> ot_consumed_at r = None \<and> t < ot_expires_at r"

definition pg_find_active_otp :: "uuid \<Rightarrow> string \<Rightarrow> int \<Rightarrow> (auth_db, EmailOtpRow option) repo_read" where
  "pg_find_active_otp user purpose t s =
     with_purpose purpose (Inr (map_option otp_view (newest (otp_active user purpose t) s)))"

definition set_otps :: "(otp_row \<Rightarrow> bool) \<Rightarrow> (otp_row \<Rightarrow> otp_row) \<Rightarrow> auth_db \<Rightarrow> auth_db" where
  "set_otps p f s = s\<lparr>ad_otps := update_where p f (ad_otps s)\<rparr>"

definition consumed :: "int \<Rightarrow> otp_row \<Rightarrow> otp_row" where
  "consumed t r = r\<lparr>ot_consumed_at := Some t\<rparr>"

definition pg_rotate_otp :: "uuid \<Rightarrow> string \<Rightarrow> string \<Rightarrow> int \<Rightarrow> int \<Rightarrow> (auth_db, unit) repo_call" where
  "pg_rotate_otp user purpose h expires t s =
     (case with_purpose purpose (Inr ()) of
        Inl e \<Rightarrow> (Inl e, s)
      | Inr _ \<Rightarrow>
          if \<not> (\<exists>r\<in>set (ad_users s). au_id r = user)
          then (Inl (db_error_str (ForeignKeyViolation ''email_otps'' ''email_otps_user_id_fkey'')), s)
          else
            let s1 = set_otps (\<lambda>r. ot_user r = user \<and> ot_purpose r = purpose \<and> ot_consumed_at r = None) (consumed t) s in
            (Inr (), s1\<lparr>ad_next_id := Suc (ad_next_id s), ad_otps := ad_otps s1 @
              [\<lparr>ot_id = ad_next_id s, ot_user = user, ot_purpose = purpose, ot_code_hash = h, ot_expires_at = expires,
                ot_consumed_at = None, ot_attempts = 0, ot_created_at = ad_clock s\<rparr>]\<rparr>))"

definition pg_increment_otp_attempts :: "uuid \<Rightarrow> (auth_db, unit) repo_call" where
  "pg_increment_otp_attempts oid s = (Inr (), set_otps (\<lambda>r. ot_id r = oid) (\<lambda>r. r\<lparr>ot_attempts := ot_attempts r + 1\<rparr>) s)"

definition otp_unused :: "uuid \<Rightarrow> otp_row \<Rightarrow> bool" where
  "otp_unused oid r \<longleftrightarrow> ot_id r = oid \<and> ot_consumed_at r = None"

definition pg_claim_otp :: "uuid \<Rightarrow> int \<Rightarrow> (auth_db, nat) repo_call" where
  "pg_claim_otp oid t s = (Inr (length (filter (otp_unused oid) (ad_otps s))), set_otps (otp_unused oid) (consumed t) s)"

section \<open>The implementation\<close>

definition pg_repo :: "PgAuthRepo \<Rightarrow> auth_db AuthRepo" where
  "pg_repo g =
     \<lparr>ar_now = ad_clock, ar_find_user_by_email = pg_find_user_by_email g,
      ar_find_user_by_username = pg_find_user_by_username g, ar_find_user_by_id = pg_find_user_by_id g,
      ar_create_user_with_wallets = pg_create_user_with_wallets g, ar_update_user_role = pg_update_user_role,
      ar_update_last_login = pg_update_last_login, ar_update_two_factor_enabled = pg_update_two_factor_enabled,
      ar_update_username = pg_update_username g, ar_create_refresh_token = pg_create_refresh_token,
      ar_claim_refresh_token = pg_claim_refresh_token,
      ar_find_refresh_token_with_user = pg_find_refresh_token_with_user g,
      ar_find_refresh_token = pg_find_refresh_token,
      ar_revoke_all_user_refresh_tokens = pg_revoke_all_user_refresh_tokens,
      ar_delete_all_user_refresh_tokens = pg_delete_all_user_refresh_tokens,
      ar_revoke_refresh_token_by_hash = pg_revoke_refresh_token_by_hash, ar_find_recent_otp = pg_find_recent_otp,
      ar_rotate_otp = pg_rotate_otp, ar_find_active_otp = pg_find_active_otp,
      ar_increment_otp_attempts = pg_increment_otp_attempts, ar_claim_otp = pg_claim_otp\<rparr>"

lemma pg_repo_sel [simp]:
  "ar_now (pg_repo g) = ad_clock" "ar_find_user_by_email (pg_repo g) = pg_find_user_by_email g"
  "ar_find_user_by_username (pg_repo g) = pg_find_user_by_username g" "ar_find_user_by_id (pg_repo g) = pg_find_user_by_id g"
  "ar_create_user_with_wallets (pg_repo g) = pg_create_user_with_wallets g" "ar_update_user_role (pg_repo g) = pg_update_user_role"
  "ar_update_last_login (pg_repo g) = pg_update_last_login"
  "ar_update_two_factor_enabled (pg_repo g) = pg_update_two_factor_enabled"
  "ar_update_username (pg_repo g) = pg_update_username g" "ar_create_refresh_token (pg_repo g) = pg_create_refresh_token"
  "ar_claim_refresh_token (pg_repo g) = pg_claim_refresh_token"
  "ar_find_refresh_token_with_user (pg_repo g) = pg_find_refresh_token_with_user g"
  "ar_find_refresh_token (pg_repo g) = pg_find_refresh_token"
  "ar_revoke_all_user_refresh_tokens (pg_repo g) = pg_revoke_all_user_refresh_tokens"
  "ar_delete_all_user_refresh_tokens (pg_repo g) = pg_delete_all_user_refresh_tokens"
  "ar_revoke_refresh_token_by_hash (pg_repo g) = pg_revoke_refresh_token_by_hash"
  "ar_find_recent_otp (pg_repo g) = pg_find_recent_otp" "ar_rotate_otp (pg_repo g) = pg_rotate_otp"
  "ar_find_active_otp (pg_repo g) = pg_find_active_otp" "ar_increment_otp_attempts (pg_repo g) = pg_increment_otp_attempts"
  "ar_claim_otp (pg_repo g) = pg_claim_otp"
  by (simp_all add: pg_repo_def)

end
