(* ===== verification/AuthService.thy ===== *)
theory AuthService
  imports AuthStore
begin

text \<open>
  \<open>crates/domain/src/auth/service.rs\<close> and \<open>crates/crypto/src/jwt.rs\<close>: registration, login, refresh tokens and the one-time
  codes sent by mail, over any \<open>AuthRepo\<close>. A method threads the store's state through its calls; what a call wrote
  before an error stays written. Hashing, the JWT library and the random values of a call (\<open>draws\<close>) are parameters;
  a method reads one instant of the clock. The mail sender's answer is only logged.
\<close>

section \<open>The service\<close>

datatype AuthError =
  AuthForbidden | AuthConflict | InvalidCredentials | Invalid2fa | Unauthorized | RefreshReuseDetected
| RateLimited | AuthNotFound | PasswordMismatch | TermsNotAccepted | Validation string | RepoFailed string

fun auth_error_str :: "AuthError \<Rightarrow> string" where
  "auth_error_str AuthForbidden = ''this email cannot self-register''"
| "auth_error_str AuthConflict = ''unable to register with the provided credentials''"
| "auth_error_str InvalidCredentials = ''invalid email or password''"
| "auth_error_str Invalid2fa = ''invalid or expired email code''"
| "auth_error_str Unauthorized = ''invalid refresh token''"
| "auth_error_str RefreshReuseDetected = ''refresh token reuse detected; session revoked''"
| "auth_error_str RateLimited = ''please wait before requesting another code''"
| "auth_error_str AuthNotFound = ''user not found''"
| "auth_error_str PasswordMismatch = ''passwords do not match''"
| "auth_error_str TermsNotAccepted = ''you must accept the terms and conditions''"
| "auth_error_str (Validation m) = m"
| "auth_error_str (RepoFailed m) = ''auth repository error: '' @ m"

record AccessTokenClaims =
  ct_sub :: string
  ct_role :: string
  ct_two_factor :: bool
  ct_iss :: string
  ct_aud :: string
  ct_iat :: int
  ct_exp :: int

record AuthTokens =
  tk_access :: string
  tk_refresh :: string

datatype LoginResult = LoginOk UserRow AuthTokens | CodeSent string

record AuthConfig =
  cf_jwt_access_ttl_secs :: int
  cf_jwt_refresh_ttl_secs :: int
  cf_admin_emails :: "string list"
  cf_house_email :: string
  cf_otp_code_ttl_secs :: int
  cf_otp_resend_cooldown_secs :: int
  cf_otp_max_attempts :: int
  cf_refresh_reuse_grace_secs :: int

definition is_admin_email :: "AuthConfig \<Rightarrow> string \<Rightarrow> bool" where
  "is_admin_email c email \<longleftrightarrow> (\<exists>e\<in>set (cf_admin_emails c). eq_ignore_case e email)"

record JwtConfig =
  jw_issuer :: string
  jw_audience :: string

datatype JwtError = WeakSecret | EncodeFailed | InvalidToken

text \<open>\<open>jw_encode\<close> and \<open>jw_decode\<close> stand for the library: the second checks signature, issuer, audience and expiry.\<close>

record JwtService =
  jw_encode :: "AccessTokenClaims \<Rightarrow> string option"
  jw_decode :: "string \<Rightarrow> AccessTokenClaims option"
  jw_config :: JwtConfig

definition jwt_with_config :: "(string \<Rightarrow> JwtConfig \<Rightarrow> JwtService) \<Rightarrow> string \<Rightarrow> JwtConfig \<Rightarrow> JwtError + JwtService" where
  "jwt_with_config lib secret c = (if length secret < 32 then Inl WeakSecret else Inr (lib secret c))"

definition jwt_sign :: "JwtService \<Rightarrow> AccessTokenClaims \<Rightarrow> JwtError + string" where
  "jwt_sign j c = (case jw_encode j c of None \<Rightarrow> Inl EncodeFailed | Some t \<Rightarrow> Inr t)"

definition jwt_verify :: "JwtService \<Rightarrow> string \<Rightarrow> JwtError + AccessTokenClaims" where
  "jwt_verify j t = (case jw_decode j t of None \<Rightarrow> Inl InvalidToken | Some c \<Rightarrow> Inr c)"

record draws =
  dw_token :: string \<comment> \<open>\<open>random_token(48)\<close>\<close>
  dw_code :: string \<comment> \<open>\<open>generate_otp_code()\<close>\<close>
  dw_salt :: string

record 's AuthService =
  as_repo :: "'s AuthRepo"
  as_jwt :: JwtService
  as_prims :: primitives
  as_secrets :: SecretsService
  as_config :: AuthConfig
  as_hash :: "string \<Rightarrow> string \<Rightarrow> string option" \<comment> \<open>\<open>hash_password\<close>: salt, text\<close>
  as_verify :: "string \<Rightarrow> string \<Rightarrow> bool" \<comment> \<open>\<open>verify_password(text, hash).unwrap_or(false)\<close>\<close>

section \<open>Sequencing\<close>

type_synonym ('s, 'a) action = "'s \<Rightarrow> (AuthError + 'a) \<times> 's"

definition act_return :: "'a \<Rightarrow> ('s, 'a) action" where
  "act_return x s = (Inr x, s)"

definition act_throw :: "AuthError \<Rightarrow> ('s, 'a) action" where
  "act_throw e s = (Inl e, s)"

definition act_bind :: "('s, 'a) action \<Rightarrow> ('a \<Rightarrow> ('s, 'b) action) \<Rightarrow> ('s, 'b) action" where
  "act_bind m f s = (case m s of (Inl e, s') \<Rightarrow> (Inl e, s') | (Inr x, s') \<Rightarrow> f x s')"

text \<open>\<open>?\<close> on a call of the store: its error becomes \<open>AuthError::Repo\<close>.\<close>

definition repo_call :: "('s, 'a) repo_call \<Rightarrow> ('s, 'a) action" where
  "repo_call m s = (case m s of (Inl e, s') \<Rightarrow> (Inl (RepoFailed e), s') | (Inr x, s') \<Rightarrow> (Inr x, s'))"

definition repo_read :: "('s, 'a) repo_read \<Rightarrow> ('s, 'a) action" where
  "repo_read m s = (case m s of Inl e \<Rightarrow> (Inl (RepoFailed e), s) | Inr x \<Rightarrow> (Inr x, s))"

definition act_now :: "'s AuthService \<Rightarrow> ('s, int) action" where
  "act_now v s = (Inr (ar_now (as_repo v) s), s)"

definition lift_sum :: "AuthError + 'a \<Rightarrow> ('s, 'a) action" where
  "lift_sum r s = (r, s)"

lemmas act_defs = act_return_def act_throw_def act_bind_def repo_call_def repo_read_def act_now_def lift_sum_def

definition secs :: "int \<Rightarrow> int" where
  "secs n = n * 1000000"

section \<open>Validation\<close>

definition is_ascii_alpha :: "char \<Rightarrow> bool" where
  "is_ascii_alpha c \<longleftrightarrow> (let k = of_char c :: nat in 65 \<le> k \<and> k \<le> 90 \<or> 97 \<le> k \<and> k \<le> 122)"

definition is_ascii_upper :: "char \<Rightarrow> bool" where
  "is_ascii_upper c \<longleftrightarrow> (let k = of_char c :: nat in 65 \<le> k \<and> k \<le> 90)"

definition is_ascii_lower :: "char \<Rightarrow> bool" where
  "is_ascii_lower c \<longleftrightarrow> (let k = of_char c :: nat in 97 \<le> k \<and> k \<le> 122)"

definition is_ascii_digit :: "char \<Rightarrow> bool" where
  "is_ascii_digit c \<longleftrightarrow> (let k = of_char c :: nat in 48 \<le> k \<and> k \<le> 57)"

definition validate_username :: "string \<Rightarrow> AuthError + string" where
  "validate_username name =
     (let u = trim name in
      if length u < 3 \<or> 24 < length u then Inl (Validation ''username must be between 3 and 24 characters'')
      else if u = [] then Inl (Validation ''username is required'')
      else if \<not> is_ascii_alpha (hd u) then Inl (Validation ''username must start with a letter'')
      else if \<not> (\<forall>c\<in>set u. is_ascii_alpha c \<or> is_ascii_digit c \<or> c = CHR ''_'')
      then Inl (Validation ''username may only contain letters, numbers and underscore'')
      else Inr (map lower_char u))"

definition validate_password :: "string \<Rightarrow> AuthError + unit" where
  "validate_password p =
     (if length p < 10 then Inl (Validation ''password must be at least 10 characters'')
      else if 128 < length p then Inl (Validation ''password is too long'')
      else if \<not> (\<exists>c\<in>set p. is_ascii_upper c) then Inl (Validation ''password must contain an uppercase letter'')
      else if \<not> (\<exists>c\<in>set p. is_ascii_lower c) then Inl (Validation ''password must contain a lowercase letter'')
      else if \<not> (\<exists>c\<in>set p. is_ascii_digit c) then Inl (Validation ''password must contain a digit'')
      else Inr ())"

section \<open>Tokens\<close>

definition sign_access_token :: "'s AuthService \<Rightarrow> UserRow \<Rightarrow> ('s, string) action" where
  "sign_access_token v user = act_bind (act_now v) (\<lambda>t.
     case jwt_sign (as_jwt v)
       \<lparr>ct_sub = show_uuid (us_id user), ct_role = us_role user, ct_two_factor = us_two_factor user,
        ct_iss = jw_issuer (jw_config (as_jwt v)), ct_aud = jw_audience (jw_config (as_jwt v)),
        ct_iat = t div 1000000, ct_exp = (t + secs (cf_jwt_access_ttl_secs (as_config v))) div 1000000\<rparr> of
       Inl _ \<Rightarrow> act_throw Unauthorized | Inr token \<Rightarrow> act_return token)"

definition issue_tokens :: "'s AuthService \<Rightarrow> draws \<Rightarrow> UserRow \<Rightarrow> ('s, AuthTokens) action" where
  "issue_tokens v d user =
     act_bind (sign_access_token v user) (\<lambda>access.
     act_bind (act_now v) (\<lambda>t.
     act_bind (repo_call (ar_create_refresh_token (as_repo v) (us_id user)
       (refresh_token_hash (as_prims v) (as_secrets v) (dw_token d))
       (t + secs (cf_jwt_refresh_ttl_secs (as_config v))))) (\<lambda>_.
     act_return \<lparr>tk_access = access, tk_refresh = dw_token d\<rparr>)))"

section \<open>One-time codes\<close>

definition purpose_words :: "string \<Rightarrow> string" where
  "purpose_words purpose = map (\<lambda>c. if c = CHR ''_'' then CHR 0x20 else lower_char c) purpose"

text \<open>The mail: its recipient, subject and body.\<close>

definition otp_mail :: "AuthConfig \<Rightarrow> UserRow \<Rightarrow> string \<Rightarrow> string \<Rightarrow> string \<times> string \<times> string" where
  "otp_mail c user purpose code =
     (us_email user, ''BitcoSats '' @ [CHR 0xE2, CHR 0x80, CHR 0x94] @ '' your '' @ purpose_words purpose @ '' code'',
      ''Your BitcoSats verification code is: '' @ code @ [CHR 10, CHR 10] @ ''This code expires in '' @
      show_int (cf_otp_code_ttl_secs c div 60) @ '' minutes. If you didn'' @ [CHR 0x27] @ ''t request this, ignore this email.'')"

definition request_email_otp :: "'s AuthService \<Rightarrow> draws \<Rightarrow> uuid \<Rightarrow> string \<Rightarrow> ('s, string) action" where
  "request_email_otp v d user purpose =
     act_bind (repo_read (ar_find_user_by_id (as_repo v) user)) (\<lambda>found.
     case found of
       None \<Rightarrow> act_throw AuthNotFound
     | Some _ \<Rightarrow>
         act_bind (act_now v) (\<lambda>t.
         act_bind (repo_read (ar_find_recent_otp (as_repo v) user purpose
           (t - secs (cf_otp_resend_cooldown_secs (as_config v))))) (\<lambda>recent.
         if recent \<noteq> None then act_throw RateLimited
         else (case as_hash v (dw_salt d) (dw_code d) of
           None \<Rightarrow> act_throw RateLimited
         | Some h \<Rightarrow>
             act_bind (repo_call (ar_rotate_otp (as_repo v) user purpose h
               (t + secs (cf_otp_code_ttl_secs (as_config v))) t)) (\<lambda>_.
             act_return (dw_code d))))))"

definition well_formed_code :: "string \<Rightarrow> bool" where
  "well_formed_code code \<longleftrightarrow> length code = 6 \<and> (\<forall>c\<in>set code. is_ascii_digit c)"

text \<open>What follows the lookup of the code: other requests can run in between.\<close>

definition check_otp :: "'s AuthService \<Rightarrow> EmailOtpRow \<Rightarrow> string \<Rightarrow> int \<Rightarrow> ('s, bool) action" where
  "check_otp v otp code t =
     (if cf_otp_max_attempts (as_config v) \<le> eo_attempts otp
      then act_bind (repo_call (ar_claim_otp (as_repo v) (eo_id otp) t)) (\<lambda>_. act_return False)
      else if \<not> as_verify v code (eo_code_hash otp)
      then act_bind (repo_call (ar_increment_otp_attempts (as_repo v) (eo_id otp))) (\<lambda>_. act_return False)
      else act_bind (repo_call (ar_claim_otp (as_repo v) (eo_id otp) t)) (\<lambda>n. act_return (n = 1)))"

definition verify_email_otp :: "'s AuthService \<Rightarrow> uuid \<Rightarrow> string \<Rightarrow> string \<Rightarrow> ('s, bool) action" where
  "verify_email_otp v user purpose code =
     (if \<not> well_formed_code code then act_return False
      else
        act_bind (act_now v) (\<lambda>t.
        act_bind (repo_read (ar_find_active_otp (as_repo v) user purpose t)) (\<lambda>found.
        case found of None \<Rightarrow> act_return False | Some otp \<Rightarrow> check_otp v otp code t)))"

definition request_otp :: "'s AuthService \<Rightarrow> draws \<Rightarrow> uuid \<Rightarrow> string \<Rightarrow> ('s, unit) action" where
  "request_otp v d user purpose = act_bind (request_email_otp v d user purpose) (\<lambda>_. act_return ())"

definition verify_otp :: "'s AuthService \<Rightarrow> uuid \<Rightarrow> string \<Rightarrow> string \<Rightarrow> ('s, bool) action" where
  "verify_otp = verify_email_otp"

definition verify_withdrawal_otp :: "'s AuthService \<Rightarrow> uuid \<Rightarrow> string \<Rightarrow> ('s, bool) action" where
  "verify_withdrawal_otp v user code = verify_email_otp v user ''WITHDRAWAL'' code"

definition set_2fa :: "'s AuthService \<Rightarrow> string \<Rightarrow> bool \<Rightarrow> uuid \<Rightarrow> string \<Rightarrow> ('s, unit) action" where
  "set_2fa v purpose enabled user code =
     act_bind (verify_email_otp v user purpose code) (\<lambda>ok.
     if \<not> ok then act_throw Invalid2fa
     else repo_call (ar_update_two_factor_enabled (as_repo v) user enabled))"

definition enable_2fa :: "'s AuthService \<Rightarrow> uuid \<Rightarrow> string \<Rightarrow> ('s, unit) action" where
  "enable_2fa v = set_2fa v ''ENABLE_2FA'' True"

definition disable_2fa :: "'s AuthService \<Rightarrow> uuid \<Rightarrow> string \<Rightarrow> ('s, unit) action" where
  "disable_2fa v = set_2fa v ''DISABLE_2FA'' False"

section \<open>Registration and login\<close>

definition register :: "'s AuthService \<Rightarrow> draws \<Rightarrow> string \<Rightarrow> string \<Rightarrow> string \<Rightarrow> string \<Rightarrow> bool \<Rightarrow> ('s, UserRow \<times> AuthTokens) action" where
  "register v d email username password password_confirm accept_terms =
     (if \<not> accept_terms then act_throw TermsNotAccepted
      else if password \<noteq> password_confirm then act_throw PasswordMismatch
      else
        act_bind (lift_sum (validate_password password)) (\<lambda>_.
        act_bind (lift_sum (validate_username username)) (\<lambda>name.
        if is_admin_email (as_config v) email \<or> email = cf_house_email (as_config v) then act_throw AuthForbidden
        else
          act_bind (repo_read (ar_find_user_by_email (as_repo v) email)) (\<lambda>by_email.
          if by_email \<noteq> None then act_throw AuthConflict
          else
            act_bind (repo_read (ar_find_user_by_username (as_repo v) name)) (\<lambda>by_name.
            if by_name \<noteq> None then act_throw AuthConflict
            else (case as_hash v (dw_salt d) password of
              None \<Rightarrow> act_throw AuthConflict
            | Some h \<Rightarrow>
                act_bind (repo_call (ar_create_user_with_wallets (as_repo v) email name h COINS)) (\<lambda>user.
                act_bind (issue_tokens v d user) (\<lambda>tokens.
                act_return (user, tokens)))))))))"

text \<open>The role follows the list of the environment.\<close>

definition sync_role :: "'s AuthService \<Rightarrow> UserRow \<Rightarrow> ('s, UserRow) action" where
  "sync_role v user =
     (let admin = is_admin_email (as_config v) (us_email user) in
      if admin \<and> us_role user \<noteq> ''ADMIN''
      then act_bind (repo_call (ar_update_user_role (as_repo v) (us_id user) ''ADMIN'')) (\<lambda>_.
        act_return (user\<lparr>us_role := ''ADMIN''\<rparr>))
      else if \<not> admin \<and> us_role user = ''ADMIN''
      then act_bind (repo_call (ar_update_user_role (as_repo v) (us_id user) ''USER'')) (\<lambda>_.
        act_return (user\<lparr>us_role := ''USER''\<rparr>))
      else act_return user)"

definition finish_login :: "'s AuthService \<Rightarrow> draws \<Rightarrow> UserRow \<Rightarrow> ('s, LoginResult) action" where
  "finish_login v d user =
     act_bind (repo_call (ar_update_last_login (as_repo v) (us_id user))) (\<lambda>_.
     act_bind (issue_tokens v d user) (\<lambda>tokens. act_return (LoginOk user tokens)))"

definition login :: "'s AuthService \<Rightarrow> draws \<Rightarrow> string \<Rightarrow> string \<Rightarrow> string option \<Rightarrow> bool \<Rightarrow> ('s, LoginResult) action" where
  "login v d email password email_code admin_gate =
     (if email = cf_house_email (as_config v) then act_throw InvalidCredentials
      else
        act_bind (repo_read (ar_find_user_by_email (as_repo v) email)) (\<lambda>found.
        case found of
          None \<Rightarrow> act_throw InvalidCredentials
        | Some user0 \<Rightarrow>
            if \<not> as_verify v password (us_password_hash user0) then act_throw InvalidCredentials
            else
              act_bind (sync_role v user0) (\<lambda>user.
              if admin_gate \<and> us_role user \<noteq> ''ADMIN'' then act_throw InvalidCredentials
              else if us_two_factor user then
                (case email_code of
                   None \<Rightarrow> act_bind (request_email_otp v d (us_id user) ''LOGIN'') (\<lambda>_. act_return (CodeSent (us_email user)))
                 | Some code \<Rightarrow>
                     act_bind (verify_email_otp v (us_id user) ''LOGIN'' code) (\<lambda>ok.
                     if \<not> ok then act_throw Invalid2fa else finish_login v d user))
              else finish_login v d user)))"

section \<open>Sessions\<close>

text \<open>The grace of a token that was revoked: \<open>None\<close> is the end of the branch without an answer.\<close>

definition within_grace :: "AuthConfig \<Rightarrow> int \<Rightarrow> int \<Rightarrow> RefreshTokenRow \<Rightarrow> bool" where
  "within_grace c t revoked_at r \<longleftrightarrow>
     0 < cf_refresh_reuse_grace_secs c \<and> t - revoked_at < secs (max (cf_refresh_reuse_grace_secs c) 0) \<and> t < rk_expires_at r"

definition reuse_detected :: "'s AuthService \<Rightarrow> RefreshTokenRow \<Rightarrow> int \<Rightarrow> ('s, AuthTokens) action" where
  "reuse_detected v r t =
     act_bind (repo_call (ar_revoke_all_user_refresh_tokens (as_repo v) (rk_user r) t)) (\<lambda>_. act_throw RefreshReuseDetected)"

definition presented_revoked ::
    "'s AuthService \<Rightarrow> draws \<Rightarrow> string \<Rightarrow> int \<Rightarrow> RefreshTokenRow \<Rightarrow> int \<Rightarrow> ('s, AuthTokens) action" where
  "presented_revoked v d h t r revoked_at =
     (if within_grace (as_config v) t revoked_at r
      then act_bind (repo_read (ar_find_refresh_token_with_user (as_repo v) h)) (\<lambda>joined.
        case joined of Some (_, user) \<Rightarrow> issue_tokens v d user | None \<Rightarrow> reuse_detected v r t)
      else reuse_detected v r t)"

fun try_hashes :: "'s AuthService \<Rightarrow> draws \<Rightarrow> int \<Rightarrow> string list \<Rightarrow> ('s, AuthTokens) action" where
  "try_hashes v d t [] = act_throw Unauthorized"
| "try_hashes v d t (h # hs) =
     act_bind (repo_call (ar_claim_refresh_token (as_repo v) h t)) (\<lambda>claimed.
     if claimed = 1
     then act_bind (repo_read (ar_find_refresh_token_with_user (as_repo v) h)) (\<lambda>joined.
       case joined of None \<Rightarrow> act_throw Unauthorized | Some (_, user) \<Rightarrow> issue_tokens v d user)
     else act_bind (repo_read (ar_find_refresh_token (as_repo v) h)) (\<lambda>existing.
       case existing of
         Some r \<Rightarrow> (case rk_revoked_at r of
             Some revoked_at \<Rightarrow> presented_revoked v d h t r revoked_at
           | None \<Rightarrow> try_hashes v d t hs)
       | None \<Rightarrow> try_hashes v d t hs))"

definition refresh :: "'s AuthService \<Rightarrow> draws \<Rightarrow> string \<Rightarrow> ('s, AuthTokens) action" where
  "refresh v d token = act_bind (act_now v) (\<lambda>t.
     try_hashes v d t (refresh_token_lookup_hashes (as_prims v) (as_secrets v) token))"

fun revoke_hashes :: "'s AuthService \<Rightarrow> int \<Rightarrow> string list \<Rightarrow> ('s, unit) action" where
  "revoke_hashes v t [] = act_return ()"
| "revoke_hashes v t (h # hs) =
     act_bind (repo_call (ar_revoke_refresh_token_by_hash (as_repo v) h t)) (\<lambda>_. revoke_hashes v t hs)"

definition revoke_refresh_token :: "'s AuthService \<Rightarrow> string \<Rightarrow> ('s, unit) action" where
  "revoke_refresh_token v token = act_bind (act_now v) (\<lambda>t.
     revoke_hashes v t (refresh_token_lookup_hashes (as_prims v) (as_secrets v) token))"

definition revoke_other_sessions :: "'s AuthService \<Rightarrow> draws \<Rightarrow> uuid \<Rightarrow> ('s, AuthTokens) action" where
  "revoke_other_sessions v d user =
     act_bind (repo_read (ar_find_user_by_id (as_repo v) user)) (\<lambda>found.
     case found of
       None \<Rightarrow> act_throw AuthNotFound
     | Some u \<Rightarrow>
         act_bind (repo_call (ar_delete_all_user_refresh_tokens (as_repo v) user)) (\<lambda>_. issue_tokens v d u))"

section \<open>The account\<close>

definition get_user_by_id :: "'s AuthService \<Rightarrow> uuid \<Rightarrow> ('s, UserRow option) action" where
  "get_user_by_id v user = repo_read (ar_find_user_by_id (as_repo v) user)"

definition update_username :: "'s AuthService \<Rightarrow> uuid \<Rightarrow> string \<Rightarrow> ('s, UserRow) action" where
  "update_username v user name0 =
     act_bind (lift_sum (validate_username name0)) (\<lambda>name.
     act_bind (repo_read (ar_find_user_by_id (as_repo v) user)) (\<lambda>found.
     case found of
       None \<Rightarrow> act_throw AuthNotFound
     | Some current \<Rightarrow>
         if us_username current = name then act_return current
         else
           act_bind (repo_read (ar_find_user_by_username (as_repo v) name)) (\<lambda>other.
           if (case other of None \<Rightarrow> False | Some o' \<Rightarrow> us_id o' \<noteq> user) then act_throw AuthConflict
           else repo_call (ar_update_username (as_repo v) user name))))"

definition verify_access_token :: "'s AuthService \<Rightarrow> string \<Rightarrow> AuthError + AccessTokenClaims" where
  "verify_access_token v token = (case jwt_verify (as_jwt v) token of Inl _ \<Rightarrow> Inl Unauthorized | Inr c \<Rightarrow> Inr c)"

end
