(* ===== verification/Auth.thy ===== *)
theory Auth
  imports AuthService
begin

text \<open>
  The claims about \<open>AuthService\<close>. The locale \<open>auth_store\<close> is the contract of the trait \<open>AuthRepo\<close> with its client: a
  relation that every write of the store keeps is kept by every method of the service. It is interpreted on
  \<open>PgAuthRepo\<close> for the life of refresh tokens and of one-time codes, and \<open>auth_step\<close> composes the methods into runs.
\<close>

section \<open>Methods of the service keep what the store's writes keep\<close>

text \<open>\<open>H\<close> says which token hashes may be stored, \<open>Q\<close> for whom and what codes may be issued.\<close>

locale auth_store =
  fixes R :: "'s AuthRepo" and E :: "'s \<Rightarrow> 's \<Rightarrow> bool" and H :: "string \<Rightarrow> bool" and Q :: "uuid \<Rightarrow> string \<Rightarrow> bool"
  assumes same [simp]: "E s s" and compose: "E s s' \<Longrightarrow> E s' s'' \<Longrightarrow> E s s''"
    and creates_user: "E s (snd (ar_create_user_with_wallets R a b c cs s))"
    and sets_role: "E s (snd (ar_update_user_role R u r s))" and sets_login: "E s (snd (ar_update_last_login R u s))"
    and sets_2fa: "E s (snd (ar_update_two_factor_enabled R u x s))" and sets_name: "E s (snd (ar_update_username R u n s))"
    and creates_token: "H h \<Longrightarrow> E s (snd (ar_create_refresh_token R u h t s))"
    and claims_token: "E s (snd (ar_claim_refresh_token R h (ar_now R s) s))"
    and revokes_all: "E s (snd (ar_revoke_all_user_refresh_tokens R u (ar_now R s) s))"
    and deletes_all: "E s (snd (ar_delete_all_user_refresh_tokens R u s))"
    and revokes_one: "E s (snd (ar_revoke_refresh_token_by_hash R h (ar_now R s) s))"
    and rotates: "Q u p \<Longrightarrow> E s (snd (ar_rotate_otp R u p h t (ar_now R s) s))"
    and counts: "E s (snd (ar_increment_otp_attempts R i s))" and claims_otp: "E s (snd (ar_claim_otp R i (ar_now R s) s))"
    and now_claim: "ar_now R (snd (ar_claim_refresh_token R h t s)) = ar_now R s"
    and now_revoke: "ar_now R (snd (ar_revoke_refresh_token_by_hash R h t s)) = ar_now R s"
begin

lemma kept_bind:
  assumes "E s (snd (m s))" and "\<And>x. fst (m s) = Inr x \<Longrightarrow> E (snd (m s)) (snd (f x (snd (m s))))"
  shows "E s (snd (act_bind m f s))"
proof (cases "m s")
  case (Pair r t)
  with assms show ?thesis by (cases r) (auto simp: act_bind_def intro: compose)
qed

lemma kept_call: "E s (snd (m s)) \<Longrightarrow> E s (snd (repo_call m s))"
  by (auto simp: repo_call_def split: prod.splits sum.splits)

lemma kept_nothing [simp]:
  "E s (snd (act_return x s))" "E s (snd (act_throw e s))" "E s (snd (repo_read f s))" "E s (snd (act_now v s))"
  "E s (snd (lift_sum y s))"
  by (simp_all add: act_return_def act_throw_def repo_read_def act_now_def lift_sum_def same split: sum.splits)

lemma no_change [simp]:
  "snd (repo_read f s) = s" "snd (act_now v s) = s" "snd (lift_sum y s) = s" "snd (act_return x s) = s" "snd (act_throw e s) = s"
  "fst (act_now v s) = Inr t \<longleftrightarrow> t = ar_now (as_repo v) s"
  by (auto simp: act_return_def act_throw_def repo_read_def act_now_def lift_sum_def split: sum.splits)

lemma kept_if: "(b \<Longrightarrow> E s (snd (m s))) \<Longrightarrow> (\<not> b \<Longrightarrow> E s (snd (n s))) \<Longrightarrow> E s (snd ((if b then m else n) s))"
  by simp

lemma kept_sign: "E s (snd (sign_access_token v u s))"
  unfolding sign_access_token_def by (intro kept_bind) (auto split: sum.splits)

lemma sign_state: "snd (sign_access_token v u s) = s"
  by (auto simp: sign_access_token_def act_bind_def act_now_def act_throw_def act_return_def split: sum.splits)

lemma kept_issue:
  assumes "as_repo v = R" and "H (refresh_token_hash (as_prims v) (as_secrets v) (dw_token d))"
  shows "E s (snd (issue_tokens v d u s))"
  unfolding issue_tokens_def assms(1) by (intro kept_bind kept_sign kept_nothing kept_call creates_token assms(2))

lemma kept_request:
  assumes "as_repo v = R" and "Q u p"
  shows "E s (snd (request_email_otp v d u p s))"
proof -
  have rot: "E s (snd (repo_call (ar_rotate_otp R u p h x (ar_now R s)) s))" for s h x
    by (intro kept_call rotates assms(2))
  show ?thesis unfolding request_email_otp_def assms(1)
    by (intro kept_bind kept_nothing) (auto split: option.splits intro!: kept_bind intro: rot simp: assms(1))
qed

lemma kept_check:
  assumes r: "as_repo v = R"
  shows "E s (snd (check_otp v otp code (ar_now R s) s))"
  unfolding check_otp_def r by (auto intro!: kept_bind kept_call claims_otp counts)

lemma kept_verify:
  assumes r: "as_repo v = R"
  shows "E s (snd (verify_email_otp v u p code s))"
  unfolding verify_email_otp_def r by (auto simp: r intro!: kept_bind kept_check [OF r] split: option.splits)

lemma kept_set_2fa:
  assumes r: "as_repo v = R"
  shows "E s (snd (set_2fa v p x u code s))"
  unfolding set_2fa_def r by (auto intro!: kept_bind kept_verify [OF r] kept_call sets_2fa)

lemma kept_register:
  assumes "as_repo v = R" and "H (refresh_token_hash (as_prims v) (as_secrets v) (dw_token d))"
  shows "E s (snd (register v d email name pw pw' terms s))"
  unfolding register_def assms(1) by (auto intro!: kept_bind kept_call creates_user kept_issue [OF assms] split: option.splits)

lemma kept_sync:
  assumes r: "as_repo v = R"
  shows "E s (snd (sync_role v u s))"
  unfolding sync_role_def r Let_def by (auto intro!: kept_bind kept_call sets_role)

lemma kept_finish:
  assumes "as_repo v = R" and "H (refresh_token_hash (as_prims v) (as_secrets v) (dw_token d))"
  shows "E s (snd (finish_login v d u s))"
  unfolding finish_login_def assms(1) by (auto intro!: kept_bind kept_call sets_login kept_issue [OF assms])

lemma kept_login:
  assumes r: "as_repo v = R" and h: "H (refresh_token_hash (as_prims v) (as_secrets v) (dw_token d))"
    and q: "\<And>u. code = None \<Longrightarrow> Q u ''LOGIN''"
  shows "E s (snd (login v d email pw code gate s))"
  unfolding login_def r
  by (auto intro!: kept_bind kept_sync [OF r] kept_finish [OF r h] kept_request [OF r q] kept_verify [OF r] split: option.splits)

lemma kept_reuse:
  assumes r: "as_repo v = R"
  shows "E s (snd (reuse_detected v x (ar_now R s) s))"
  unfolding reuse_detected_def r by (auto intro!: kept_bind kept_call revokes_all)

lemma kept_presented:
  assumes "as_repo v = R" and "H (refresh_token_hash (as_prims v) (as_secrets v) (dw_token d))"
  shows "E s (snd (presented_revoked v d h (ar_now R s) x at' s))"
  unfolding presented_revoked_def assms(1)
  by (auto intro!: kept_bind kept_issue [OF assms] kept_reuse [OF assms(1)] split: option.splits)

lemma now_repo:
  "ar_now R (snd (repo_call (ar_claim_refresh_token R h t) s)) = ar_now R s"
  "ar_now R (snd (repo_call (ar_revoke_refresh_token_by_hash R h t) s)) = ar_now R s"
  using now_claim [of h t s] now_revoke [of h t s] by (auto simp: repo_call_def split: prod.splits sum.splits)

lemma kept_hashes:
  assumes "as_repo v = R" and "H (refresh_token_hash (as_prims v) (as_secrets v) (dw_token d))"
  shows "E s (snd (try_hashes v d (ar_now R s) hs s))"
proof (induction hs arbitrary: s)
  case (Cons h hs)
  let ?s = "snd (repo_call (ar_claim_refresh_token R h (ar_now R s)) s)"
  have "E ?s (snd (try_hashes v d (ar_now R s) hs ?s))" using Cons.IH [of ?s] by (simp add: now_repo)
  moreover have "E ?s (snd (presented_revoked v d h (ar_now R s) x a ?s))" for x a
    using kept_presented [OF assms, of ?s h x a] by (simp add: now_repo)
  ultimately show ?case
    unfolding try_hashes.simps assms(1)
    by (auto intro!: kept_bind [of s] kept_bind [of ?s] kept_call claims_token kept_issue [OF assms] split: option.splits)
qed simp

lemma kept_refresh:
  assumes "as_repo v = R" and "H (refresh_token_hash (as_prims v) (as_secrets v) (dw_token d))"
  shows "E s (snd (refresh v d token s))"
  unfolding refresh_def by (auto simp: assms(1) intro!: kept_bind kept_hashes [OF assms])

lemma kept_revoke_hashes:
  assumes r: "as_repo v = R"
  shows "E s (snd (revoke_hashes v (ar_now R s) hs s))"
proof (induction hs arbitrary: s)
  case (Cons h hs)
  let ?s = "snd (repo_call (ar_revoke_refresh_token_by_hash R h (ar_now R s)) s)"
  have "E ?s (snd (revoke_hashes v (ar_now R s) hs ?s))" using Cons.IH [of ?s] by (simp add: now_repo)
  then show ?case unfolding revoke_hashes.simps r by (auto intro!: kept_bind kept_call revokes_one)
qed simp

lemma kept_logout:
  assumes r: "as_repo v = R"
  shows "E s (snd (revoke_refresh_token v token s))"
  unfolding revoke_refresh_token_def by (auto simp: r intro!: kept_bind kept_revoke_hashes [OF r])

lemma kept_revoke_others:
  assumes "as_repo v = R" and "H (refresh_token_hash (as_prims v) (as_secrets v) (dw_token d))"
  shows "E s (snd (revoke_other_sessions v d u s))"
  unfolding revoke_other_sessions_def assms(1)
  by (auto intro!: kept_bind kept_call deletes_all kept_issue [OF assms] split: option.splits)

lemma kept_username:
  assumes r: "as_repo v = R"
  shows "E s (snd (update_username v u n s))"
  unfolding update_username_def r by (auto intro!: kept_bind kept_call sets_name split: option.splits)

end

section \<open>Runs of the service\<close>

text \<open>\<open>K\<close> is a set of token hashes that the random tokens of the run do not hit.\<close>

definition fresh_draw :: "'s AuthService \<Rightarrow> string set \<Rightarrow> draws \<Rightarrow> bool" where
  "fresh_draw v K d \<longleftrightarrow> refresh_token_hash (as_prims v) (as_secrets v) (dw_token d) \<notin> K"

inductive auth_step :: "auth_db AuthService \<Rightarrow> string set \<Rightarrow> auth_db \<Rightarrow> auth_db \<Rightarrow> bool" for v K where
  registers: "fresh_draw v K d \<Longrightarrow> auth_step v K s (snd (register v d email name pw pw' terms s))"
| logs_in: "fresh_draw v K d \<Longrightarrow> auth_step v K s (snd (login v d email pw code gate s))"
| refreshes: "fresh_draw v K d \<Longrightarrow> auth_step v K s (snd (refresh v d token s))"
| logs_out: "auth_step v K s (snd (revoke_refresh_token v token s))"
| signs_out_others: "fresh_draw v K d \<Longrightarrow> auth_step v K s (snd (revoke_other_sessions v d user s))"
| requests_code: "auth_step v K s (snd (request_otp v d user purpose s))"
| verifies_code: "auth_step v K s (snd (verify_otp v user purpose code s))"
| switches_2fa: "auth_step v K s (snd (set_2fa v purpose x user code s))"
| renames: "auth_step v K s (snd (update_username v user name s))"
| ticks: "0 \<le> dt \<Longrightarrow> auth_step v K s (s\<lparr>ad_clock := ad_clock s + dt\<rparr>)"

inductive_cases auth_stepE: "auth_step v K s s'"

inductive auth_run :: "auth_db AuthService \<Rightarrow> string set \<Rightarrow> auth_db \<Rightarrow> auth_db \<Rightarrow> bool" for v K where
  auth_start: "auth_run v K s s"
| auth_next: "auth_run v K s s' \<Longrightarrow> auth_step v K s' s'' \<Longrightarrow> auth_run v K s s''"

lemma auth_run_trans: "auth_run v K s' s'' \<Longrightarrow> auth_run v K s s' \<Longrightarrow> auth_run v K s s''"
  by (induction rule: auth_run.induct) (auto intro: auth_run.intros)

text \<open>An invariant of the store's writes is an invariant of runs.\<close>

lemma auth_run_keeps:
  assumes repo: "as_repo v = pg_repo g" and st: "auth_store (pg_repo g) E (\<lambda>h. h \<notin> K) (\<lambda>_ _. True)"
    and tick: "\<And>s dt. 0 \<le> dt \<Longrightarrow> E s (s\<lparr>ad_clock := ad_clock s + dt\<rparr>)" and run: "auth_run v K s s'"
  shows "E s s'"
proof -
  have step: "E s s'" if "auth_step v K s s'" for s s'
    using that
  proof cases
    case requests_code
    have "E s (snd (act_bind (request_email_otp v d user purpose) (\<lambda>_. act_return ()) s))" for d user purpose
      by (rule auth_store.kept_bind [OF st]) (simp_all add: auth_store.kept_request [OF st repo] auth_store.kept_nothing [OF st])
    with requests_code show ?thesis by (simp add: request_otp_def)
  next
    case logs_in
    then show ?thesis by (auto intro: auth_store.kept_login [OF st repo] simp: fresh_draw_def)
  qed (auto simp: fresh_draw_def verify_otp_def intro: tick auth_store.kept_register [OF st repo] auth_store.kept_refresh [OF st repo]
    auth_store.kept_logout [OF st repo] auth_store.kept_revoke_others [OF st repo] auth_store.kept_verify [OF st repo]
    auth_store.kept_set_2fa [OF st repo] auth_store.kept_username [OF st repo])
  show ?thesis using run
    by induction (auto intro: step auth_store.compose [OF st] auth_store.same [OF st])
qed

section \<open>The contract on the Postgres store\<close>

text \<open>A token hash no row can be claimed with, one that no row has, a code that is used up.\<close>

definition spent :: "string set \<Rightarrow> auth_db \<Rightarrow> bool" where
  "spent K s \<longleftrightarrow> (\<forall>r\<in>set (ad_tokens s). rk_hash r \<in> K \<longrightarrow> rk_revoked_at r \<noteq> None)"

definition unknown :: "string set \<Rightarrow> auth_db \<Rightarrow> bool" where
  "unknown K s \<longleftrightarrow> (\<forall>r\<in>set (ad_tokens s). rk_hash r \<notin> K)"

definition used_up :: "uuid \<Rightarrow> auth_db \<Rightarrow> bool" where
  "used_up oid s \<longleftrightarrow> oid < ad_next_id s \<and> (\<forall>r\<in>set (ad_otps s). ot_id r = oid \<longrightarrow> ot_consumed_at r \<noteq> None)"

lemma create_user_frame [simp]:
  "ad_tokens (snd (pg_create_user_with_wallets g a b c cs s)) = ad_tokens s"
  "ad_otps (snd (pg_create_user_with_wallets g a b c cs s)) = ad_otps s"
  "ad_clock (snd (pg_create_user_with_wallets g a b c cs s)) = ad_clock s"
  "ad_next_id s \<le> ad_next_id (snd (pg_create_user_with_wallets g a b c cs s))"
  by (simp_all add: pg_create_user_with_wallets_def insert_user_def Let_def split: sum.splits)

lemma user_writes_frame [simp]:
  "ad_tokens (snd (pg_update_user_role u r s)) = ad_tokens s" "ad_otps (snd (pg_update_user_role u r s)) = ad_otps s"
  "ad_next_id (snd (pg_update_user_role u r s)) = ad_next_id s"
  "ad_tokens (snd (pg_update_last_login u s)) = ad_tokens s" "ad_otps (snd (pg_update_last_login u s)) = ad_otps s"
  "ad_next_id (snd (pg_update_last_login u s)) = ad_next_id s"
  "ad_tokens (snd (pg_update_two_factor_enabled u x s)) = ad_tokens s"
  "ad_otps (snd (pg_update_two_factor_enabled u x s)) = ad_otps s"
  "ad_next_id (snd (pg_update_two_factor_enabled u x s)) = ad_next_id s"
  "ad_tokens (snd (pg_update_username g u n s)) = ad_tokens s" "ad_otps (snd (pg_update_username g u n s)) = ad_otps s"
  "ad_next_id (snd (pg_update_username g u n s)) = ad_next_id s"
  by (simp_all add: pg_update_user_role_def pg_update_last_login_def pg_update_two_factor_enabled_def
    pg_update_username_def set_user_def split: option.splits)

lemma token_writes [simp]:
  "ad_tokens (snd (pg_claim_refresh_token h t s)) = update_where (claimable h t) (revoked t) (ad_tokens s)"
  "ad_tokens (snd (pg_revoke_all_user_refresh_tokens u t s)) =
    update_where (\<lambda>r. rk_user r = u \<and> rk_revoked_at r = None) (revoked t) (ad_tokens s)"
  "ad_tokens (snd (pg_delete_all_user_refresh_tokens u s)) = filter (\<lambda>r. rk_user r \<noteq> u) (ad_tokens s)"
  "ad_tokens (snd (pg_revoke_refresh_token_by_hash h t s)) =
    update_where (\<lambda>r. rk_hash r = h \<and> rk_revoked_at r = None) (revoked t) (ad_tokens s)"
  by (simp_all add: pg_claim_refresh_token_def pg_revoke_all_user_refresh_tokens_def pg_delete_all_user_refresh_tokens_def
    pg_revoke_refresh_token_by_hash_def set_tokens_def)

lemma token_writes_frame [simp]:
  "ad_otps (snd (pg_create_refresh_token u h t s)) = ad_otps s" "ad_otps (snd (pg_claim_refresh_token h t s)) = ad_otps s"
  "ad_otps (snd (pg_revoke_all_user_refresh_tokens u t s)) = ad_otps s"
  "ad_otps (snd (pg_delete_all_user_refresh_tokens u s)) = ad_otps s"
  "ad_otps (snd (pg_revoke_refresh_token_by_hash h t s)) = ad_otps s"
  "ad_next_id s \<le> ad_next_id (snd (pg_create_refresh_token u h t s))"
  "ad_next_id (snd (pg_claim_refresh_token h t s)) = ad_next_id s"
  "ad_next_id (snd (pg_revoke_all_user_refresh_tokens u t s)) = ad_next_id s"
  "ad_next_id (snd (pg_delete_all_user_refresh_tokens u s)) = ad_next_id s"
  "ad_next_id (snd (pg_revoke_refresh_token_by_hash h t s)) = ad_next_id s"
  "ad_clock (snd (pg_claim_refresh_token h t s)) = ad_clock s" "ad_clock (snd (pg_revoke_refresh_token_by_hash h t s)) = ad_clock s"
  by (simp_all add: pg_create_refresh_token_def pg_claim_refresh_token_def pg_revoke_all_user_refresh_tokens_def
    pg_delete_all_user_refresh_tokens_def pg_revoke_refresh_token_by_hash_def set_tokens_def)

lemma create_token_rows:
  "r \<in> set (ad_tokens (snd (pg_create_refresh_token u h t s))) \<Longrightarrow> r \<in> set (ad_tokens s) \<or> rk_hash r = h \<and> rk_revoked_at r = None"
  by (auto simp: pg_create_refresh_token_def split: if_splits)

lemma otp_writes [simp]:
  "ad_otps (snd (pg_increment_otp_attempts i s)) = update_where (\<lambda>r. ot_id r = i) (\<lambda>r. r\<lparr>ot_attempts := ot_attempts r + 1\<rparr>) (ad_otps s)"
  "ad_otps (snd (pg_claim_otp i t s)) = update_where (otp_unused i) (consumed t) (ad_otps s)"
  "ad_next_id (snd (pg_increment_otp_attempts i s)) = ad_next_id s" "ad_next_id (snd (pg_claim_otp i t s)) = ad_next_id s"
  "ad_next_id s \<le> ad_next_id (snd (pg_rotate_otp u p h e t s))"
  "ad_tokens (snd (pg_increment_otp_attempts i s)) = ad_tokens s" "ad_tokens (snd (pg_claim_otp i t s)) = ad_tokens s"
  "ad_tokens (snd (pg_rotate_otp u p h e t s)) = ad_tokens s"
  by (simp_all add: pg_increment_otp_attempts_def pg_claim_otp_def pg_rotate_otp_def set_otps_def with_purpose_def Let_def)

lemma rotate_otp_rows:
  assumes "r \<in> set (ad_otps (snd (pg_rotate_otp u p h e t s)))"
  shows "r \<in> set (ad_otps s) \<or> ot_id r = ad_next_id s \<or> ot_consumed_at r \<noteq> None"
  using assms by (auto simp: pg_rotate_otp_def with_purpose_def set_otps_def in_set_update_where consumed_def Let_def split: if_splits)

interpretation spent: auth_store "pg_repo g" "\<lambda>s s'. spent K s \<longrightarrow> spent K s'" "\<lambda>h. h \<notin> K" "\<lambda>_ _. True" for g K
  by unfold_locales (simp_all add: spent_def, auto simp: in_set_update_where revoked_def dest: create_token_rows)

lemma unknown_same: "unknown K s \<Longrightarrow> ad_tokens s' = ad_tokens s \<Longrightarrow> unknown K s'"
  by (simp add: unknown_def)

lemma unknown_update:
  "unknown K s \<Longrightarrow> ad_tokens s' = update_where p (revoked t) (ad_tokens s) \<Longrightarrow> unknown K s'"
  by (auto simp: unknown_def update_where_def revoked_def)

lemma unknown_create: "h \<notin> K \<Longrightarrow> unknown K s \<Longrightarrow> unknown K (snd (pg_create_refresh_token u h t s))"
  by (auto simp: unknown_def dest: create_token_rows)

lemma unknown_delete: "unknown K s \<Longrightarrow> unknown K (snd (pg_delete_all_user_refresh_tokens u s))"
  by (simp add: unknown_def)

interpretation unknown: auth_store "pg_repo g" "\<lambda>s s'. unknown K s \<longrightarrow> unknown K s'" "\<lambda>h. h \<notin> K" "\<lambda>_ _. True" for g K
  by unfold_locales (simp_all add: unknown_create unknown_delete, (rule impI, (erule unknown_same, simp; fail | erule unknown_update, simp; fail))+)

lemma used_up_mono:
  assumes "used_up oid s" and "ad_next_id s \<le> ad_next_id s'"
    and "\<And>r. r \<in> set (ad_otps s') \<Longrightarrow> ot_id r = oid \<Longrightarrow> ot_consumed_at r = None \<Longrightarrow> r \<in> set (ad_otps s) \<or> ot_id r = ad_next_id s"
  shows "used_up oid s'"
  using assms unfolding used_up_def by (auto dest: less_le_trans)

lemma used_up_count: "used_up oid s \<Longrightarrow> used_up oid (snd (pg_increment_otp_attempts i s))"
  by (auto simp: used_up_def in_set_update_where)

lemma used_up_claim: "used_up oid s \<Longrightarrow> used_up oid (snd (pg_claim_otp i t s))"
  by (auto simp: used_up_def in_set_update_where consumed_def)

lemma used_up_rotate: "used_up oid s \<Longrightarrow> used_up oid (snd (pg_rotate_otp u p h e t s))"
  by (rule used_up_mono) (auto dest: rotate_otp_rows)

lemma used_up_same:
  "used_up oid s \<Longrightarrow> ad_otps s' = ad_otps s \<Longrightarrow> ad_next_id s \<le> ad_next_id s' \<Longrightarrow> used_up oid s'"
  by (auto simp: used_up_def)

interpretation used: auth_store "pg_repo g" "\<lambda>s s'. used_up oid s \<longrightarrow> used_up oid s'" "\<lambda>h. h \<notin> K" "\<lambda>_ _. True" for g oid K
  by unfold_locales (simp_all add: used_up_count used_up_claim used_up_rotate, (rule impI, erule used_up_same, simp, simp)+)

section \<open>A concrete service\<close>

definition demo_config :: "int \<Rightarrow> AuthConfig" where
  "demo_config grace = \<lparr>cf_jwt_access_ttl_secs = 900, cf_jwt_refresh_ttl_secs = 86400, cf_admin_emails = [],
     cf_house_email = ''house'', cf_otp_code_ttl_secs = 600, cf_otp_resend_cooldown_secs = 60, cf_otp_max_attempts = 1,
     cf_refresh_reuse_grace_secs = grace\<rparr>"

definition demo_pg :: PgAuthRepo where
  "demo_pg = \<lparr>pg_prims = demo_primitives, pg_secrets = None, pg_blank = False, pg_iv = []\<rparr>"

definition demo_auth :: "int \<Rightarrow> auth_db AuthService" where
  "demo_auth grace = \<lparr>as_repo = pg_repo demo_pg,
     as_jwt = \<lparr>jw_encode = (\<lambda>c. Some (ct_sub c)), jw_decode = (\<lambda>_. None), jw_config = \<lparr>jw_issuer = [], jw_audience = []\<rparr>\<rparr>,
     as_prims = demo_primitives, as_secrets = demo_secrets, as_config = demo_config grace,
     as_hash = (\<lambda>salt x. Some x), as_verify = (\<lambda>x h. x = h)\<rparr>"

definition demo_user :: auth_user_row where
  "demo_user = \<lparr>au_id = 7, au_email = ''ana'', au_email_hmac = None, au_email_enc = None, au_username = ''ana'',
     au_password_hash = ''pw'', au_role = ''USER'', au_two_factor = True, au_merchant_status = ''APPROVED'', au_created_at = 0,
     au_last_login_at = None, au_erased_at = None\<rparr>"

definition demo_token :: "uuid \<Rightarrow> string \<Rightarrow> int option \<Rightarrow> RefreshTokenRow" where
  "demo_token i token r = \<lparr>rk_id = i, rk_user = 7, rk_hash = refresh_token_hash demo_primitives demo_secrets token,
     rk_expires_at = 200000000, rk_revoked_at = r\<rparr>"

definition demo_code :: otp_row where
  "demo_code = \<lparr>ot_id = 4, ot_user = 7, ot_purpose = ''LOGIN'', ot_code_hash = ''123456'', ot_expires_at = 200000000,
     ot_consumed_at = None, ot_attempts = 0, ot_created_at = 0\<rparr>"

definition demo_state :: auth_db where
  "demo_state = \<lparr>ad_users = [demo_user], ad_wallets = [], ad_tokens = [demo_token 2 ''old'' (Some 0), demo_token 3 ''new'' None],
     ad_otps = [demo_code], ad_clock = 100000000, ad_next_id = 8\<rparr>"

definition demo_draw :: "string \<Rightarrow> draws" where
  "demo_draw token = \<lparr>dw_token = token, dw_code = ''000000'', dw_salt = []\<rparr>"

lemmas demo_auth_defs = demo_config_def demo_pg_def demo_auth_def demo_user_def demo_token_def demo_code_def demo_state_def demo_draw_def

lemma demo_hashes [simp]:
  "refresh_token_hash demo_primitives demo_secrets token = REFRESH_HASH_PREFIX @ take 32 (CHR ''r'' # token)"
  "sha256_hex demo_primitives token = take 32 token"
  by (simp_all add: refresh_token_hash_def hmac_hex_with_key_def sha256_hex_def demo_primitives_def demo_secrets_def)

lemma demo_parts [simp]:
  "as_repo (demo_auth k) = pg_repo demo_pg" "as_config (demo_auth k) = demo_config k" "as_prims (demo_auth k) = demo_primitives"
  "as_secrets (demo_auth k) = demo_secrets" "as_verify (demo_auth k) = (=)" "dw_token (demo_draw t) = t"
  "cf_refresh_reuse_grace_secs (demo_config k) = k" "cf_otp_max_attempts (demo_config k) = 1"
  by (simp_all add: demo_auth_def demo_config_def demo_draw_def fun_eq_iff)

end
