(* ===== verification/Sessions.thy ===== *)
theory Sessions
  imports Auth
begin

text \<open>
  What the sessions and one-time codes of \<open>AuthService\<close> promise on the Postgres store, along runs of its methods: who can
  log in, how often a refresh token and a code are good for, what signing out of the other devices ends; and what the
  reuse grace and a race of guesses let through.
\<close>

section \<open>Refresh tokens\<close>

definition lookup_set :: "'s AuthService \<Rightarrow> string \<Rightarrow> string set" where
  "lookup_set v token = set (refresh_token_lookup_hashes (as_prims v) (as_secrets v) token)"

definition one_row :: "string set \<Rightarrow> auth_db \<Rightarrow> bool" where
  "one_row K s \<longleftrightarrow> length (filter (\<lambda>r. rk_hash r \<in> K) (ad_tokens s)) \<le> 1"

lemma filter_one:
  assumes "length (filter p xs) \<le> 1" and "length (filter q xs) = 1" and "\<And>x. q x \<Longrightarrow> p x" and "x \<in> set xs" and "p x"
  shows "q x"
proof (rule ccontr)
  assume "\<not> q x"
  obtain y where y: "filter q xs = [y]" using assms(2) by (auto simp: length_Suc_conv)
  then have "y \<in> set (filter q xs)" by simp
  then have "y \<in> set xs" "q y" by simp_all
  then have "{x, y} \<subseteq> set (filter p xs)" "x \<noteq> y" using assms(3-5) \<open>\<not> q x\<close> by auto
  moreover have "card (set (filter p xs)) \<le> 1" using assms(1) by (meson card_length le_trans)
  ultimately show False using card_mono [of "set (filter p xs)" "{x, y}"] by simp
qed

abbreviation claim :: "string \<Rightarrow> int \<Rightarrow> auth_db \<Rightarrow> auth_db" where
  "claim h t s \<equiv> set_tokens (claimable h t) (revoked t) s"

lemma claim_tokens [simp]: "ad_tokens (claim h t s) = update_where (claimable h t) (revoked t) (ad_tokens s)"
  by (simp add: set_tokens_def)

lemmas claim_result = pg_claim_refresh_token_def

lemma claimed_revoked: "r \<in> set (update_where (claimable h t) (revoked t) rows) \<Longrightarrow>
    r \<in> set rows \<and> \<not> claimable h t r \<or> rk_revoked_at r \<noteq> None"
  by (auto simp: update_where_def revoked_def)

lemma one_row_claim: "one_row K s \<Longrightarrow> one_row K (claim h t s)"
proof -
  have "length (filter (\<lambda>r. rk_hash r \<in> K) (update_where p (revoked t) xs)) = length (filter (\<lambda>r. rk_hash r \<in> K) xs)" for p xs
    by (induction xs) (auto simp: revoked_def)
  then show "one_row K s \<Longrightarrow> ?thesis" by (simp add: one_row_def)
qed

lemma spent_claim:
  assumes "one_row K s" and "h \<in> K" and "length (filter (claimable h t) (ad_tokens s)) = 1"
  shows "spent K (claim h t s)"
  unfolding spent_def
proof (intro ballI impI)
  fix r' assume r': "r' \<in> set (ad_tokens (claim h t s))" "rk_hash r' \<in> K"
  then obtain r where r: "r \<in> set (ad_tokens s)" "r' = (if claimable h t r then revoked t r else r)"
    unfolding claim_tokens in_set_update_where by metis
  have "rk_hash r \<in> K" using r' r(2) by (simp add: revoked_def split: if_splits)
  then have "claimable h t r"
    using assms(2) by (intro filter_one [OF assms(1) [unfolded one_row_def] assms(3) _ r(1)]) (simp_all add: claimable_def)
  then show "rk_revoked_at r' \<noteq> None" using r(2) by (simp add: revoked_def)
qed

lemma no_grace: "cf_refresh_reuse_grace_secs (as_config v) \<le> 0 \<Longrightarrow> presented_revoked v d h t r a s \<noteq> (Inr tk, s')"
  by (auto simp: presented_revoked_def within_grace_def reuse_detected_def act_defs split: prod.splits sum.splits)

lemma success_spends:
  assumes repo: "as_repo v = pg_repo g" and grace: "cf_refresh_reuse_grace_secs (as_config v) \<le> 0" and fresh: "fresh_draw v K d"
    and "one_row K s" and "set hs \<subseteq> K" and "try_hashes v d t hs s = (Inr tk, s')"
  shows "spent K s'"
  using assms(4-6)
proof (induction hs arbitrary: s)
  case Nil
  then show ?case by (simp add: act_defs)
next
  case (Cons h hs)
  let ?s = "claim h t s"
  note one = one_row_claim [OF Cons.prems(1), of h t]
  show ?case
  proof (cases "length (filter (claimable h t) (ad_tokens s)) = 1")
    case True
    then have "spent K ?s" using Cons.prems by (intro spent_claim) auto
    moreover obtain u where "issue_tokens v d u ?s = (Inr tk, s')"
      using Cons.prems(3) True
      by (auto simp: repo act_bind_def repo_call_def repo_read_def claim_result act_throw_def
        pg_find_refresh_token_with_user_def split: option.splits)
    ultimately show ?thesis
      using spent.kept_issue [of v g d K ?s u] repo fresh by (simp add: fresh_draw_def)
  next
    case False
    then have "(case find_token ?s h of Some r \<Rightarrow> (case rk_revoked_at r of
        Some a \<Rightarrow> presented_revoked v d h t r a | None \<Rightarrow> try_hashes v d t hs) | None \<Rightarrow> try_hashes v d t hs) ?s = (Inr tk, s')"
      using Cons.prems(3)
      by (simp add: repo act_bind_def repo_call_def repo_read_def claim_result pg_find_refresh_token_def)
    then have "try_hashes v d t hs ?s = (Inr tk, s')"
      using no_grace [OF grace] by (auto split: option.splits)
    then show ?thesis using Cons.IH [OF one] Cons.prems(2) by simp
  qed
qed

lemma spent_refused:
  assumes repo: "as_repo v = pg_repo g" and grace: "cf_refresh_reuse_grace_secs (as_config v) \<le> 0"
    and "spent K s" and "set hs \<subseteq> K"
  shows "fst (try_hashes v d t hs s) = Inl Unauthorized \<or> fst (try_hashes v d t hs s) = Inl RefreshReuseDetected"
  using assms(3-4)
proof (induction hs arbitrary: s)
  case Nil
  then show ?case by (simp add: act_defs)
next
  case (Cons h hs)
  let ?s = "claim h t s"
  have "filter (claimable h t) (ad_tokens s) = []"
    using Cons.prems by (auto simp: spent_def claimable_def filter_empty_conv)
  then have c: "pg_claim_refresh_token h t s = (Inr 0, ?s)" by (simp add: claim_result)
  have sp: "spent K ?s" using Cons.prems(1) by (auto simp: spent_def update_where_def revoked_def)
  have r: "fst (presented_revoked v d h t r a ?s) = Inl RefreshReuseDetected" for r a
    using grace by (auto simp: repo presented_revoked_def within_grace_def reuse_detected_def act_defs
      pg_revoke_all_user_refresh_tokens_def)
  show ?case
    using Cons.IH [OF sp] Cons.prems(2) r
    by (auto simp: repo act_bind_def repo_call_def repo_read_def c pg_find_refresh_token_def split: option.splits)
qed

lemma unknown_refused:
  assumes repo: "as_repo v = pg_repo g" and "unknown K s" and "set hs \<subseteq> K"
  shows "fst (try_hashes v d t hs s) = Inl Unauthorized"
  using assms(2-3)
proof (induction hs arbitrary: s)
  case Nil
  then show ?case by (simp add: act_defs)
next
  case (Cons h hs)
  let ?s = "claim h t s"
  have "filter (claimable h t) (ad_tokens s) = []"
    using Cons.prems by (auto simp: unknown_def claimable_def filter_empty_conv)
  then have c: "pg_claim_refresh_token h t s = (Inr 0, ?s)" by (simp add: claim_result)
  have u: "unknown K ?s" using Cons.prems(1) by (rule unknown_update) simp
  then have "find_token ?s h = None" using Cons.prems(2) by (auto simp: find_token_def find_None_iff unknown_def)
  then show ?case
    using Cons.IH [OF u] Cons.prems(2) by (simp add: repo act_bind_def repo_call_def repo_read_def c pg_find_refresh_token_def)
qed

lemma refresh_unfold: "as_repo v = pg_repo g \<Longrightarrow>
    refresh v d token s = try_hashes v d (ad_clock s) (refresh_token_lookup_hashes (as_prims v) (as_secrets v) token) s"
  by (simp add: refresh_def act_bind_def act_now_def)

text \<open>
  C30. With no reuse grace a refresh token is good for one session: after a successful \<open>refresh\<close>, whatever logins,
  refreshes, logouts and other calls of the service follow, and however much time passes, no \<open>refresh\<close> with the same
  token returns tokens again. (The random tokens drawn meanwhile do not collide with it, and one row holds its hash.)\<close>

theorem refresh_single_use:
  assumes "as_repo v = pg_repo g" and "cf_refresh_reuse_grace_secs (as_config v) \<le> 0" and "one_row (lookup_set v token) s"
    and "fresh_draw v (lookup_set v token) d" and "refresh v d token s = (Inr tk, s1)"
    and "auth_run v (lookup_set v token) s1 s2"
  shows "fst (refresh v d' token s2) = Inl Unauthorized \<or> fst (refresh v d' token s2) = Inl RefreshReuseDetected"
proof -
  let ?K = "lookup_set v token"
  have "spent ?K s1"
    using assms(5) by (intro success_spends [OF assms(1,2,4,3)]) (auto simp: refresh_unfold [OF assms(1)] lookup_set_def)
  moreover have "spent ?K s1 \<longrightarrow> spent ?K s2"
    by (rule auth_run_keeps [OF assms(1) spent.auth_store_axioms _ assms(6)]) (simp add: spent_def)
  ultimately show ?thesis
    using spent_refused [OF assms(1,2)] by (simp add: refresh_unfold [OF assms(1)] lookup_set_def)
qed

lemma demo_lookup: "lookup_set (demo_auth k) token = {REFRESH_HASH_PREFIX @ take 32 (CHR ''r'' # token), take 32 token}"
  by (simp add: lookup_set_def refresh_token_lookup_hashes_def)

lemma demo_refresh: "\<exists>tk s1. refresh (demo_auth k) (demo_draw ''next'') ''new'' demo_state = (Inr tk, s1)"
  by (simp add: refresh_unfold [where g = demo_pg] refresh_token_lookup_hashes_def act_defs pg_claim_refresh_token_def
    pg_find_refresh_token_with_user_def issue_tokens_def sign_access_token_def jwt_sign_def pg_create_refresh_token_def
    claimable_def find_token_def set_tokens_def revoked_def REFRESH_HASH_PREFIX_def demo_auth_defs)

theorem refresh_single_use_witness:
  "fst (refresh (demo_auth 0) (demo_draw ''x'') ''new'' (snd (refresh (demo_auth 0) (demo_draw ''next'') ''new'' demo_state))) =
     Inl Unauthorized \<or>
   fst (refresh (demo_auth 0) (demo_draw ''x'') ''new'' (snd (refresh (demo_auth 0) (demo_draw ''next'') ''new'' demo_state))) =
     Inl RefreshReuseDetected"
proof -
  obtain tk s1 where r: "refresh (demo_auth 0) (demo_draw ''next'') ''new'' demo_state = (Inr tk, s1)" using demo_refresh by blast
  show ?thesis unfolding r snd_conv
    by (rule refresh_single_use [OF _ _ _ _ r auth_start, of demo_pg])
      (simp_all add: demo_lookup one_row_def fresh_draw_def demo_state_def demo_token_def REFRESH_HASH_PREFIX_def)
qed

text \<open>
  C31. \<open>revoke_other_sessions\<close> ends the other sessions for good: a refresh token whose rows belong to the user is
  plainly \<open>Unauthorized\<close> ever after, whatever the reuse grace is and whatever calls follow.\<close>

theorem other_sessions_end:
  assumes "as_repo v = pg_repo g" and "\<forall>r\<in>set (ad_tokens s). rk_hash r \<in> lookup_set v token \<longrightarrow> rk_user r = user"
    and "fresh_draw v (lookup_set v token) d" and "revoke_other_sessions v d user s = (Inr tk, s1)"
    and "auth_run v (lookup_set v token) s1 s2"
  shows "fst (refresh v d' token s2) = Inl Unauthorized"
proof -
  let ?K = "lookup_set v token" and ?s = "snd (pg_delete_all_user_refresh_tokens user s)"
  obtain u where "issue_tokens v d u ?s = (Inr tk, s1)"
    using assms(4) by (auto simp: revoke_other_sessions_def assms(1) act_bind_def repo_call_def repo_read_def act_throw_def
      pg_delete_all_user_refresh_tokens_def split: option.splits sum.splits)
  moreover have "unknown ?K ?s" using assms(2) by (auto simp: unknown_def)
  ultimately have "unknown ?K s1"
    using unknown.kept_issue [of v g d ?K ?s u] assms(1,3) by (simp add: fresh_draw_def)
  moreover have "unknown ?K s1 \<longrightarrow> unknown ?K s2"
    by (rule auth_run_keeps [OF assms(1) unknown.auth_store_axioms _ assms(5)]) (simp add: unknown_def)
  ultimately show ?thesis using unknown_refused [OF assms(1)] by (simp add: refresh_unfold [OF assms(1)] lookup_set_def)
qed

lemma demo_revoke: "\<exists>tk s1. revoke_other_sessions (demo_auth k) (demo_draw ''next'') 7 demo_state = (Inr tk, s1)"
  by (simp add: revoke_other_sessions_def act_defs pg_find_user_by_id_def find_auth_user_def pg_delete_all_user_refresh_tokens_def
    issue_tokens_def sign_access_token_def jwt_sign_def pg_create_refresh_token_def find_token_def demo_auth_defs)

theorem other_sessions_end_witness:
  "fst (refresh (demo_auth 60) (demo_draw ''x'') ''new''
     (snd (revoke_other_sessions (demo_auth 60) (demo_draw ''next'') 7 demo_state))) = Inl Unauthorized"
proof -
  obtain tk s1 where r: "revoke_other_sessions (demo_auth 60) (demo_draw ''next'') 7 demo_state = (Inr tk, s1)"
    using demo_revoke by blast
  show ?thesis unfolding r snd_conv
    by (rule other_sessions_end [OF _ _ _ r auth_start, of demo_pg])
      (simp_all add: demo_lookup fresh_draw_def demo_state_def demo_token_def REFRESH_HASH_PREFIX_def)
qed

section \<open>The reuse grace\<close>

text \<open>What a refresh within the grace needs: the row, its user, a signing key and an unused random token.\<close>

definition can_issue :: "auth_db AuthService \<Rightarrow> draws \<Rightarrow> RefreshTokenRow \<Rightarrow> auth_db \<Rightarrow> bool" where
  "can_issue v d r s \<longleftrightarrow>
     (\<exists>u\<in>set (ad_users s). au_id u = rk_user r) \<and> (\<forall>c. jw_encode (as_jwt v) c \<noteq> None) \<and>
     (\<forall>x\<in>set (ad_tokens s). rk_hash x \<noteq> refresh_token_hash (as_prims v) (as_secrets v) (dw_token d))"

lemma issue_succeeds:
  assumes repo: "as_repo v = pg_repo g" and user: "\<exists>x\<in>set (ad_users s). au_id x = us_id u"
    and jwt: "\<forall>c. jw_encode (as_jwt v) c \<noteq> None"
    and fresh: "\<forall>x\<in>set (ad_tokens s). rk_hash x \<noteq> refresh_token_hash (as_prims v) (as_secrets v) (dw_token d)"
  shows "\<exists>tk. fst (issue_tokens v d u s) = Inr tk"
proof -
  have sign: "\<exists>a. sign_access_token v u s = (Inr a, s)"
    using jwt by (auto simp: sign_access_token_def act_defs jwt_sign_def split: option.splits)
  have "find_token s (refresh_token_hash (as_prims v) (as_secrets v) (dw_token d)) = None"
    using fresh by (simp add: find_token_def find_None_iff)
  then show ?thesis
    using sign user by (auto simp: issue_tokens_def act_bind_def act_now_def repo_call_def repo pg_create_refresh_token_def act_return_def)
qed

lemma grace_refresh:
  assumes repo: "as_repo v = pg_repo g" and r: "find_token s h = Some r" and rev: "rk_revoked_at r = Some a"
    and grace: "within_grace (as_config v) t a r" and can: "can_issue v d r s"
    and one: "\<forall>x\<in>set (ad_tokens s). rk_hash x = h \<longrightarrow> rk_revoked_at x \<noteq> None"
  shows "\<exists>tk. fst (try_hashes v d t (h # hs) s) = Inr tk"
proof -
  have none: "\<not> claimable h t x" if "x \<in> set (ad_tokens s)" for x using one that by (auto simp: claimable_def)
  have same: "claim h t s = s" using none by (simp add: set_tokens_def update_where_none)
  have c: "pg_claim_refresh_token h t s = (Inr 0, s)"
    using none by (simp add: pg_claim_refresh_token_def same filter_empty_conv)
  obtain u where u: "List.find (\<lambda>u. au_id u = rk_user r) (ad_users s) = Some u" "au_id u = rk_user r" "u \<in> set (ad_users s)"
    using can by (cases "List.find (\<lambda>u. au_id u = rk_user r) (ad_users s)") (auto simp: can_issue_def find_None_iff find_Some_iff)
  have "\<exists>tk. fst (issue_tokens v d (row_to_user g u) s) = Inr tk"
    using can u by (intro issue_succeeds [OF repo]) (auto simp: can_issue_def row_to_user_def)
  then show ?thesis
    by (simp add: repo act_bind_def repo_call_def repo_read_def c pg_find_refresh_token_def r rev presented_revoked_def grace
      pg_find_refresh_token_with_user_def u(1))
qed

lemma find_token_update:
  assumes "\<And>x. rk_hash (f x) = rk_hash x" and "find_token s h = Some r" and "q r"
  shows "find_token (set_tokens q f s) h = Some (f r)"
proof -
  have "List.find (\<lambda>x. rk_hash x = h) xs = Some r \<Longrightarrow>
      List.find (\<lambda>x. rk_hash x = h) (update_where q f xs) = Some (f r)" for xs
    using assms(1,3) by (induction xs) (auto split: if_splits)
  then show ?thesis using assms(2) by (simp add: find_token_def set_tokens_def)
qed

text \<open>The row of a live token, alone under its hash.\<close>

definition live_token :: "string \<Rightarrow> RefreshTokenRow \<Rightarrow> auth_db \<Rightarrow> bool" where
  "live_token h r s \<longleftrightarrow> filter (\<lambda>x. rk_hash x = h) (ad_tokens s) = [r] \<and> rk_revoked_at r = None \<and> ad_clock s < rk_expires_at r"

lemma live_token_find: "live_token h r s \<Longrightarrow> find_token s h = Some r \<and> rk_hash r = h"
proof -
  have "filter q xs = [r] \<Longrightarrow> List.find q xs = Some r \<and> q r" for q and xs :: "RefreshTokenRow list"
    by (induction xs) (auto split: if_splits)
  then show "live_token h r s \<Longrightarrow> ?thesis" by (auto simp: live_token_def find_token_def)
qed

lemma live_token_alone: "live_token h r s \<Longrightarrow> x \<in> set (ad_tokens s) \<Longrightarrow> rk_hash x = h \<Longrightarrow> x = r"
proof -
  assume live: "live_token h r s" and x: "x \<in> set (ad_tokens s)" "rk_hash x = h"
  then have "x \<in> set (filter (\<lambda>x. rk_hash x = h) (ad_tokens s))" by simp
  also have "filter (\<lambda>x. rk_hash x = h) (ad_tokens s) = [r]" using live by (simp add: live_token_def)
  finally show "x = r" by simp
qed

text \<open>Revoked now and presented within the grace, a token still opens a session.\<close>

lemma revoked_token_refreshes:
  assumes repo: "as_repo v = pg_repo g" and live: "live_token h r s" and q: "\<And>x. q x \<longleftrightarrow> p x \<and> rk_revoked_at x = None" "p r"
    and s1: "ad_tokens s1 = update_where q (revoked (ad_clock s)) (ad_tokens s)" "ad_users s1 = ad_users s"
    and can: "can_issue v d r s" and grace: "within_grace (as_config v) t (ad_clock s) r"
  shows "\<exists>tk. fst (try_hashes v d t (h # hs) s1) = Inr tk"
proof (rule grace_refresh [OF repo])
  let ?r = "revoked (ad_clock s) r"
  have "q r" using live q by (simp add: live_token_def)
  then show "find_token s1 h = Some ?r"
    using find_token_update [of "revoked (ad_clock s)" s h r q] live_token_find [OF live] s1(1)
    by (simp add: revoked_def find_token_def set_tokens_def)
  show "rk_revoked_at ?r = Some (ad_clock s)" by (simp add: revoked_def)
  have "rk_expires_at ?r = rk_expires_at r" by (simp add: revoked_def)
  with grace show "within_grace (as_config v) t (ad_clock s) ?r" by (simp only: within_grace_def)
  have "rk_hash x \<noteq> refresh_token_hash (as_prims v) (as_secrets v) (dw_token d)" if x: "x \<in> set (ad_tokens s1)" for x
  proof -
    obtain y where "y \<in> set (ad_tokens s)" "x = (if q y then revoked (ad_clock s) y else y)"
      using x unfolding s1 in_set_update_where by metis
    then show ?thesis using can by (simp add: can_issue_def revoked_def)
  qed
  then show "can_issue v d ?r s1" using can by (simp add: can_issue_def s1(2) revoked_def)
  have "rk_revoked_at x \<noteq> None" if x: "x \<in> set (ad_tokens s1)" "rk_hash x = h" for x
  proof -
    obtain y where y: "y \<in> set (ad_tokens s)" "x = (if q y then revoked (ad_clock s) y else y)"
      using x(1) unfolding s1 in_set_update_where by metis
    then have "y = r" using x(2) by (intro live_token_alone [OF live]) (auto simp: revoked_def split: if_splits)
    then show ?thesis using y \<open>q r\<close> by (simp add: revoked_def)
  qed
  then show "\<forall>x\<in>set (ad_tokens s1). rk_hash x = h \<longrightarrow> rk_revoked_at x \<noteq> None" by blast
qed

text \<open>
  C32. With the reuse grace (60 seconds in production) a logout does not end the session: the very token that
  \<open>revoke_refresh_token\<close> has revoked still obtains new tokens from \<open>refresh\<close> until the grace is over.\<close>

theorem logged_out_token_refreshes:
  assumes "as_repo v = pg_repo g" and "live_token (refresh_token_hash (as_prims v) (as_secrets v) token) r s"
    and "can_issue v d r s" and "within_grace (as_config v) (ad_clock s + dt) (ad_clock s) r"
    and "refresh_token_hash (as_prims v) (as_secrets v) token \<noteq> sha256_hex (as_prims v) token"
  shows "\<exists>s1 tk. revoke_refresh_token v token s = (Inr (), s1) \<and>
    fst (refresh v d token (s1\<lparr>ad_clock := ad_clock s + dt\<rparr>)) = Inr tk"
proof -
  let ?h = "refresh_token_hash (as_prims v) (as_secrets v) token" and ?g = "sha256_hex (as_prims v) token"
  let ?q = "\<lambda>x. (rk_hash x = ?h \<or> rk_hash x = ?g) \<and> rk_revoked_at x = None"
  let ?s1 = "set_tokens ?q (revoked (ad_clock s)) s"
  have two: "set_tokens (\<lambda>r. rk_hash r = ?g \<and> rk_revoked_at r = None) (revoked (ad_clock s))
      (set_tokens (\<lambda>r. rk_hash r = ?h \<and> rk_revoked_at r = None) (revoked (ad_clock s)) s) = ?s1"
    by (simp add: set_tokens_def update_where_def revoked_def)
  have out: "revoke_refresh_token v token s = (Inr (), ?s1)"
    by (simp add: revoke_refresh_token_def act_defs assms(1) refresh_token_lookup_hashes_def pg_revoke_refresh_token_by_hash_def two)
  have "\<exists>tk. fst (try_hashes v d (ad_clock s + dt) [?h, ?g] (?s1\<lparr>ad_clock := ad_clock s + dt\<rparr>)) = Inr tk"
    using live_token_find [OF assms(2)]
    by (intro revoked_token_refreshes [OF assms(1,2) _ _ _ _ assms(3,4), of ?q "\<lambda>x. rk_hash x = ?h \<or> rk_hash x = ?g"])
      (simp_all add: set_tokens_def)
  then show ?thesis by (auto simp: out refresh_unfold [OF assms(1)] refresh_token_lookup_hashes_def)
qed

text \<open>
  What the detection of a stolen token revokes is revoked with the same grace: after \<open>refresh\<close> has answered
  \<open>RefreshReuseDetected\<close> to a token revoked long ago, every other live token of the user still obtains new tokens.\<close>

theorem detected_reuse_spares_live_tokens:
  assumes "as_repo v = pg_repo g" and "find_token s (refresh_token_hash (as_prims v) (as_secrets v) stolen) = Some r0"
    and "rk_revoked_at r0 = Some a" and "\<not> within_grace (as_config v) (ad_clock s) a r0"
    and "\<forall>x\<in>set (ad_tokens s). \<not> claimable (refresh_token_hash (as_prims v) (as_secrets v) stolen) (ad_clock s) x"
    and "live_token (refresh_token_hash (as_prims v) (as_secrets v) token) r s" and "rk_user r = rk_user r0"
    and "can_issue v d r s" and "within_grace (as_config v) (ad_clock s + dt) (ad_clock s) r"
  shows "\<exists>s1 tk. refresh v d0 stolen s = (Inl RefreshReuseDetected, s1) \<and>
    fst (refresh v d token (s1\<lparr>ad_clock := ad_clock s + dt\<rparr>)) = Inr tk"
proof -
  let ?h = "refresh_token_hash (as_prims v) (as_secrets v) stolen"
  let ?s1 = "set_tokens (\<lambda>r. rk_user r = rk_user r0 \<and> rk_revoked_at r = None) (revoked (ad_clock s)) s"
  have "claim ?h (ad_clock s) s = s" using assms(5) by (simp add: set_tokens_def update_where_none)
  then have c: "pg_claim_refresh_token ?h (ad_clock s) s = (Inr 0, s)"
    using assms(5) by (simp add: pg_claim_refresh_token_def filter_empty_conv)
  have det: "refresh v d0 stolen s = (Inl RefreshReuseDetected, ?s1)"
    by (simp add: refresh_unfold [OF assms(1)] refresh_token_lookup_hashes_def act_defs assms(1) c pg_find_refresh_token_def
      assms(2,3,4) presented_revoked_def reuse_detected_def pg_revoke_all_user_refresh_tokens_def)
  have "\<exists>tk. fst (try_hashes v d (ad_clock s + dt) (refresh_token_hash (as_prims v) (as_secrets v) token # hs)
      (?s1\<lparr>ad_clock := ad_clock s + dt\<rparr>)) = Inr tk" for hs
    by (rule revoked_token_refreshes [OF assms(1,6) _ _ _ _ assms(8,9),
          of "\<lambda>x. rk_user x = rk_user r0 \<and> rk_revoked_at x = None" "\<lambda>x. rk_user x = rk_user r0"])
      (simp_all add: assms(7) set_tokens_def)
  then obtain tk where "fst (refresh v d token (?s1\<lparr>ad_clock := ad_clock s + dt\<rparr>)) = Inr tk"
    unfolding refresh_unfold [OF assms(1)] refresh_token_lookup_hashes_def by auto
  with det show ?thesis by blast
qed

lemma demo_live: "live_token (refresh_token_hash demo_primitives demo_secrets ''new'') (demo_token 3 ''new'' None) demo_state"
  by (simp add: live_token_def demo_state_def demo_token_def REFRESH_HASH_PREFIX_def)

lemma demo_can_issue: "can_issue (demo_auth 60) (demo_draw ''x'') (demo_token 3 ''new'' None) demo_state"
  by (simp add: can_issue_def demo_auth_defs REFRESH_HASH_PREFIX_def)

lemma demo_grace: "within_grace (demo_config 60) (ad_clock demo_state + 59000000) (ad_clock demo_state) (demo_token 3 ''new'' None)"
  by (simp add: within_grace_def demo_auth_defs secs_def)

theorem logged_out_token_refreshes_witness:
  "\<exists>s1 tk. revoke_refresh_token (demo_auth 60) ''new'' demo_state = (Inr (), s1) \<and>
    fst (refresh (demo_auth 60) (demo_draw ''x'') ''new'' (s1\<lparr>ad_clock := ad_clock demo_state + 59000000\<rparr>)) = Inr tk"
  using demo_live demo_grace
  by (intro logged_out_token_refreshes [OF _ _ demo_can_issue, of demo_pg]) (simp_all add: REFRESH_HASH_PREFIX_def)

theorem detected_reuse_spares_live_tokens_witness:
  "\<exists>s1 tk. refresh (demo_auth 60) (demo_draw ''y'') ''old'' demo_state = (Inl RefreshReuseDetected, s1) \<and>
    fst (refresh (demo_auth 60) (demo_draw ''x'') ''new'' (s1\<lparr>ad_clock := ad_clock demo_state + 59000000\<rparr>)) = Inr tk"
  using demo_live demo_grace
  by (intro detected_reuse_spares_live_tokens [OF _ _ _ _ _ _ _ demo_can_issue, of demo_pg _ "demo_token 2 ''old'' (Some 0)" 0])
    (simp_all add: REFRESH_HASH_PREFIX_def find_token_def demo_state_def demo_token_def within_grace_def secs_def claimable_def)

end
