(* ===== verification/Codes.thy ===== *)
theory Codes
  imports Auth
begin

text \<open>
  Accounts and one-time codes of \<open>AuthService\<close>: what a validated username is, what a login needs, and how many guesses a
  code of six digits stands: the bound on sequential guesses, and the guesses that requests in parallel get past it.
\<close>

section \<open>Usernames\<close>

lemma lower_char_ascii:
  "is_ascii_alpha c \<Longrightarrow> is_ascii_lower (lower_char c)" "is_ascii_digit c \<Longrightarrow> lower_char c = c" "is_ascii_lower c \<Longrightarrow> lower_char c = c"
  "is_ascii_lower c \<Longrightarrow> is_ascii_alpha c" "lower_char (CHR ''_'') = CHR ''_''"
  by (auto simp: is_ascii_alpha_def is_ascii_lower_def is_ascii_digit_def lower_char_def Let_def)

lemma word_char_not_space: "is_ascii_lower c \<or> is_ascii_digit c \<or> c = CHR ''_'' \<Longrightarrow> \<not> is_space c"
  by (auto simp: is_ascii_lower_def is_ascii_digit_def is_space_def Let_def)

lemma trim_no_space: "(\<And>c. c \<in> set s \<Longrightarrow> \<not> is_space c) \<Longrightarrow> trim s = s"
proof -
  have d: "dropWhile is_space xs = xs" if "\<And>c. c \<in> set xs \<Longrightarrow> \<not> is_space c" for xs
    using that by (cases xs) auto
  assume s: "\<And>c. c \<in> set s \<Longrightarrow> \<not> is_space c"
  have "dropWhile is_space s = s" by (rule d) (rule s)
  moreover have "dropWhile is_space (rev s) = rev s" by (rule d) (simp add: s)
  ultimately show "trim s = s" by (simp add: trim_def)
qed

text \<open>
  C34. \<open>validate_username\<close> returns names of one form: 3 to 24 bytes, a lower-case letter and then lower-case letters,
  digits and underscores; and such a name it returns unchanged.\<close>

theorem username_form:
  assumes "validate_username x = Inr n"
  shows "3 \<le> length n \<and> length n \<le> 24 \<and> is_ascii_lower (hd n) \<and>
     (\<forall>c\<in>set n. is_ascii_lower c \<or> is_ascii_digit c \<or> c = CHR ''_'') \<and> validate_username n = Inr n"
proof -
  let ?u = "trim x"
  have u: "3 \<le> length ?u" "length ?u \<le> 24" "is_ascii_alpha (hd ?u)" "n = map lower_char ?u"
    and w: "\<forall>c\<in>set ?u. is_ascii_alpha c \<or> is_ascii_digit c \<or> c = CHR ''_''"
    using assms by (simp_all add: validate_username_def Let_def split: if_splits)
  have ne: "?u \<noteq> []" using u(1) by auto
  have hd: "is_ascii_lower (hd n)" using u ne by (simp add: hd_map lower_char_ascii)
  have all: "\<forall>c\<in>set n. is_ascii_lower c \<or> is_ascii_digit c \<or> c = CHR ''_''"
    using w u(4) lower_char_ascii by fastforce
  have "trim n = n" using all word_char_not_space by (intro trim_no_space) blast
  moreover have "map lower_char n = n" using all lower_char_ascii by (intro map_idI) metis
  ultimately have "validate_username n = Inr n"
    using hd all u ne by (simp add: validate_username_def Let_def lower_char_ascii) (use all lower_char_ascii in blast)
  then show ?thesis using hd all u by simp
qed

theorem username_form_witness:
  "3 \<le> length ''ana_1'' \<and> length ''ana_1'' \<le> 24 \<and> is_ascii_lower (hd ''ana_1'') \<and>
     is_ascii_digit (last ''ana_1'') \<and> validate_username ''ana_1'' = Inr ''ana_1''"
proof -
  have "validate_username '' ana_1'' = Inr ''ana_1''"
    by (simp add: validate_username_def trim_def is_space_def is_ascii_alpha_def is_ascii_digit_def lower_char_def)
  from username_form [OF this] show ?thesis by (simp add: is_ascii_digit_def)
qed

section \<open>The life of a code\<close>

definition live :: "uuid \<Rightarrow> string \<Rightarrow> otp_row \<Rightarrow> bool" where
  "live user purpose r \<longleftrightarrow> ot_user r = user \<and> ot_purpose r = purpose \<and> ot_consumed_at r = None"

definition one_code :: "auth_db \<Rightarrow> bool" where
  "one_code s \<longleftrightarrow> (\<forall>u p. length (filter (live u p) (ad_otps s)) \<le> 1)"

lemma one_code_same: "one_code s \<Longrightarrow> ad_otps s' = ad_otps s \<Longrightarrow> one_code s'"
  by (simp add: one_code_def)

lemma one_code_count: "one_code s \<Longrightarrow> one_code (snd (pg_increment_otp_attempts i s))"
proof -
  have "length (filter (live u p) (update_where q (\<lambda>r. r\<lparr>ot_attempts := ot_attempts r + 1\<rparr>) xs)) = length (filter (live u p) xs)" for u p q xs
    by (induction xs) (auto simp: live_def)
  then show "one_code s \<Longrightarrow> ?thesis" by (simp add: one_code_def)
qed

lemma one_code_le:
  assumes "one_code s" and "\<And>u p. length (filter (live u p) (ad_otps s')) \<le> length (filter (live u p) (ad_otps s))"
  shows "one_code s'"
  unfolding one_code_def
proof (intro allI)
  fix u p
  show "length (filter (live u p) (ad_otps s')) \<le> 1"
    using assms(1) [unfolded one_code_def, THEN spec [of _ u], THEN spec [of _ p]] assms(2) [of u p] by linarith
qed

lemma consume_fewer: "length (filter (live u p) (update_where q (consumed t) xs)) \<le> length (filter (live u p) xs)"
  by (induction xs) (auto simp: live_def consumed_def)

lemma one_code_claim: "one_code s \<Longrightarrow> one_code (snd (pg_claim_otp i t s))"
  by (erule one_code_le) (simp add: consume_fewer)

lemma rotate_consumes: "filter (live u p) (update_where (\<lambda>r. ot_user r = u \<and> ot_purpose r = p \<and> ot_consumed_at r = None) (consumed t) xs) = []"
  by (induction xs) (auto simp: live_def consumed_def)

lemma rotate_otps:
  "ad_otps (snd (pg_rotate_otp u p h e t s)) = ad_otps s \<or>
   (\<exists>i c. ad_otps (snd (pg_rotate_otp u p h e t s)) =
      update_where (\<lambda>r. ot_user r = u \<and> ot_purpose r = p \<and> ot_consumed_at r = None) (consumed t) (ad_otps s) @
      [\<lparr>ot_id = i, ot_user = u, ot_purpose = p, ot_code_hash = h, ot_expires_at = e, ot_consumed_at = None, ot_attempts = 0,
        ot_created_at = c\<rparr>])"
  by (auto simp: pg_rotate_otp_def with_purpose_def set_otps_def Let_def)

lemma one_code_rotate:
  assumes "one_code s"
  shows "one_code (snd (pg_rotate_otp u p h e t s))"
  using rotate_otps [of u p h e t s]
proof (elim disjE exE)
  fix i c
  let ?xs = "update_where (\<lambda>r. ot_user r = u \<and> ot_purpose r = p \<and> ot_consumed_at r = None) (consumed t) (ad_otps s)"
  assume eq: "ad_otps (snd (pg_rotate_otp u p h e t s)) = ?xs @
      [\<lparr>ot_id = i, ot_user = u, ot_purpose = p, ot_code_hash = h, ot_expires_at = e, ot_consumed_at = None, ot_attempts = 0,
        ot_created_at = c\<rparr>]"
  have "length (filter (live u' p') ?xs) \<le> 1" for u' p'
    using consume_fewer [of u' p' _ t "ad_otps s"] assms [unfolded one_code_def, THEN spec [of _ u'], THEN spec [of _ p']]
    by (rule le_trans)
  then show ?thesis
    unfolding one_code_def eq using rotate_consumes [of u p t "ad_otps s"] by (auto simp: live_def)
qed (rule one_code_same [OF assms])

interpretation codes: auth_store "pg_repo g" "\<lambda>s s'. one_code s \<longrightarrow> one_code s'" "\<lambda>h. h \<notin> K" "\<lambda>_ _. True" for g K
  by unfold_locales
    (simp_all add: one_code_count one_code_claim one_code_rotate, (rule impI, erule one_code_same, simp)+)

text \<open>
  A user has at most one live code per purpose, whatever calls of the service run: asking for a new code consumes
  the older ones.\<close>

theorem one_live_code:
  assumes "as_repo v = pg_repo g" and "auth_run v K empty_auth s"
  shows "length (filter (live user purpose) (ad_otps s)) \<le> 1"
proof -
  have "one_code empty_auth \<longrightarrow> one_code s"
    by (rule auth_run_keeps [OF assms(1) codes.auth_store_axioms _ assms(2)]) (simp add: one_code_def)
  then show ?thesis by (simp add: one_code_def empty_auth_def)
qed

theorem one_live_code_witness:
  "length (filter (live 7 ''LOGIN'') (ad_otps (snd (request_otp (demo_auth 0) (demo_draw ''b'') 7 ''LOGIN''
     (snd (register (demo_auth 0) (demo_draw ''a'') ''ana'' ''ana'' ''Passw0rd+1'' ''Passw0rd+1'' True empty_auth)))))) \<le> 1"
proof (rule one_live_code [of "demo_auth 0" demo_pg])
  have "fresh_draw (demo_auth 0) {} (demo_draw ''a'')" by (simp add: fresh_draw_def)
  from auth_next [OF auth_next [OF auth_start registers [OF this]] requests_code]
  show "auth_run (demo_auth 0) {} empty_auth (snd (request_otp (demo_auth 0) (demo_draw ''b'') 7 ''LOGIN''
     (snd (register (demo_auth 0) (demo_draw ''a'') ''ana'' ''ana'' ''Passw0rd+1'' ''Passw0rd+1'' True empty_auth))))" .
qed simp

section \<open>Guesses\<close>

lemma verify_unfold:
  assumes "as_repo v = pg_repo g" and "well_formed_code c" and "p \<in> set otp_purposes"
  shows "verify_otp v u p c s = (case newest (otp_active u p (ad_clock s)) s of
      None \<Rightarrow> (Inr False, s) | Some r \<Rightarrow> check_otp v (otp_view r) c (ad_clock s) s)"
  using assms by (simp add: verify_otp_def verify_email_otp_def act_defs pg_find_active_otp_def with_purpose_def
    split: option.splits)

lemma check_locked:
  "as_repo v = pg_repo g \<Longrightarrow> cf_otp_max_attempts (as_config v) \<le> eo_attempts otp \<Longrightarrow>
   check_otp v otp c t s = (Inr False, set_otps (otp_unused (eo_id otp)) (consumed t) s)"
  by (simp add: check_otp_def act_defs pg_claim_otp_def)

lemma check_wrong:
  "as_repo v = pg_repo g \<Longrightarrow> eo_attempts otp < cf_otp_max_attempts (as_config v) \<Longrightarrow> \<not> as_verify v c (eo_code_hash otp) \<Longrightarrow>
   check_otp v otp c t s = (Inr False, set_otps (\<lambda>r. ot_id r = eo_id otp) (\<lambda>r. r\<lparr>ot_attempts := ot_attempts r + 1\<rparr>) s)"
  by (simp add: check_otp_def act_defs pg_increment_otp_attempts_def)

lemma check_right:
  "as_repo v = pg_repo g \<Longrightarrow> eo_attempts otp < cf_otp_max_attempts (as_config v) \<Longrightarrow> as_verify v c (eo_code_hash otp) \<Longrightarrow>
   check_otp v otp c t s = (Inr (length (filter (otp_unused (eo_id otp)) (ad_otps s)) = 1),
     set_otps (otp_unused (eo_id otp)) (consumed t) s)"
  by (simp add: check_otp_def act_defs pg_claim_otp_def)

fun guesses :: "auth_db AuthService \<Rightarrow> uuid \<Rightarrow> string \<Rightarrow> string list \<Rightarrow> auth_db \<Rightarrow> auth_db" where
  "guesses v user purpose [] s = s"
| "guesses v user purpose (c # cs) s = guesses v user purpose cs (snd (verify_otp v user purpose c s))"

text \<open>At most one code can be accepted, its hash is \<open>h\<close> and it has \<open>k\<close> attempts or more.\<close>

definition guarded :: "uuid \<Rightarrow> string \<Rightarrow> int \<Rightarrow> string \<Rightarrow> int \<Rightarrow> auth_db \<Rightarrow> bool" where
  "guarded u p t h k s \<longleftrightarrow> filter (otp_active u p t) (ad_otps s) = [] \<or>
     (\<exists>r. filter (otp_active u p t) (ad_otps s) = [r] \<and> ot_code_hash r = h \<and> k \<le> ot_attempts r)"

lemma guarded_newest:
  assumes "guarded u p t h k s" and "newest (otp_active u p t) s = Some r"
  shows "filter (otp_active u p t) (ad_otps s) = [r] \<and> ot_code_hash r = h \<and> k \<le> ot_attempts r"
  using assms by (auto simp: guarded_def newest_def)

lemma count_active:
  "filter (otp_active u p t) (update_where q (\<lambda>r. r\<lparr>ot_attempts := ot_attempts r + 1\<rparr>) xs) =
   update_where q (\<lambda>r. r\<lparr>ot_attempts := ot_attempts r + 1\<rparr>) (filter (otp_active u p t) xs)"
  by (induction xs) (auto simp: otp_active_def)

lemma consume_active:
  "filter (otp_active u p t) (update_where q (consumed t') xs) = filter (\<lambda>r. \<not> q r) (filter (otp_active u p t) xs)"
  by (induction xs) (auto simp: otp_active_def consumed_def)

lemma guess_counts:
  assumes repo: "as_repo v = pg_repo g" and p: "p \<in> set otp_purposes" and g: "guarded u p (ad_clock s) h k s"
    and c: "well_formed_code c" "\<not> as_verify v c h"
  shows "guarded u p (ad_clock s) h (k + 1) (snd (verify_otp v u p c s)) \<and> ad_clock (snd (verify_otp v u p c s)) = ad_clock s"
proof (cases "newest (otp_active u p (ad_clock s)) s")
  case None
  then have "filter (otp_active u p (ad_clock s)) (ad_otps s) = []"
    using g by (auto simp: guarded_def newest_def)
  then show ?thesis by (simp add: verify_unfold [OF repo c(1) p] None guarded_def)
next
  case (Some r)
  note r = guarded_newest [OF g Some]
  have act: "ot_consumed_at r = None"
  proof -
    have "r \<in> set (filter (otp_active u p (ad_clock s)) (ad_otps s))" using r by simp
    then show ?thesis by (simp add: otp_active_def)
  qed
  show ?thesis
  proof (cases "cf_otp_max_attempts (as_config v) \<le> ot_attempts r")
    case True
    then show ?thesis
      using r act by (simp add: verify_unfold [OF repo c(1) p] Some check_locked [OF repo] otp_view_def set_otps_def guarded_def
        consume_active otp_unused_def)
  next
    case False
    then show ?thesis
      using r c(2) by (simp add: verify_unfold [OF repo c(1) p] Some check_wrong [OF repo] otp_view_def set_otps_def guarded_def
        count_active)
  qed
qed

lemma guesses_count:
  assumes repo: "as_repo v = pg_repo g" and p: "p \<in> set otp_purposes"
  shows "guarded u p (ad_clock s) h k s \<Longrightarrow> \<forall>c\<in>set cs. well_formed_code c \<and> \<not> as_verify v c h \<Longrightarrow>
    guarded u p (ad_clock s) h (k + int (length cs)) (guesses v u p cs s) \<and> ad_clock (guesses v u p cs s) = ad_clock s"
proof (induction cs arbitrary: s k)
  case (Cons c cs)
  let ?s = "snd (verify_otp v u p c s)"
  have g: "guarded u p (ad_clock ?s) h (k + 1) ?s" "ad_clock ?s = ad_clock s"
    using guess_counts [OF repo p Cons.prems(1), of c] Cons.prems(2) by simp_all
  show ?case using Cons.IH [OF g(1)] Cons.prems(2) g(2) by (simp add: add.assoc)
qed simp

text \<open>
  A code falls to at most \<open>otp_max_attempts\<close> guesses made one after the other: when a user has one live code and
  that many wrong codes have been tried, no code is accepted any more, not even the right one.\<close>

theorem sequential_guesses_bounded:
  assumes "as_repo v = pg_repo g" and "one_code s" and "newest (otp_active user purpose (ad_clock s)) s = Some r"
    and "\<forall>c\<in>set cs. well_formed_code c \<and> \<not> as_verify v c (ot_code_hash r)"
    and "cf_otp_max_attempts (as_config v) \<le> ot_attempts r + int (length cs)" and "purpose \<in> set otp_purposes"
  shows "fst (verify_otp v user purpose code (guesses v user purpose cs s)) = Inr False"
proof (cases "well_formed_code code")
  case True
  let ?t = "ad_clock s" and ?s = "guesses v user purpose cs s"
  have sub: "filter (otp_active user purpose ?t) (ad_otps s) = filter (\<lambda>r. ?t < ot_expires_at r) (filter (live user purpose) (ad_otps s))"
    by (simp add: otp_active_def live_def conj_ac cong: filter_cong)
  have "length (filter (live user purpose) (ad_otps s)) \<le> 1" using assms(2) by (simp add: one_code_def)
  then have "length (filter (otp_active user purpose ?t) (ad_otps s)) \<le> 1"
    unfolding sub using length_filter_le le_trans by blast
  then obtain a where "filter (otp_active user purpose ?t) (ad_otps s) = [a]"
    using assms(3) by (cases "filter (otp_active user purpose ?t) (ad_otps s)") (auto simp: newest_def)
  then have "guarded user purpose ?t (ot_code_hash r) (ot_attempts r) s"
    using assms(3) by (simp add: guarded_def newest_def)
  then have g: "guarded user purpose ?t (ot_code_hash r) (ot_attempts r + int (length cs)) ?s" "ad_clock ?s = ?t"
    using guesses_count [OF assms(1,6) _ assms(4)] by blast+
  show ?thesis
  proof (cases "newest (otp_active user purpose ?t) ?s")
    case None
    then show ?thesis by (simp add: verify_unfold [OF assms(1) True assms(6)] g(2))
  next
    case (Some a)
    then have "cf_otp_max_attempts (as_config v) \<le> ot_attempts a" using guarded_newest [OF g(1)] assms(5) by force
    then show ?thesis
      by (simp add: verify_unfold [OF assms(1) True assms(6)] g(2) Some check_locked [OF assms(1)] otp_view_def)
  qed
qed (simp add: verify_otp_def verify_email_otp_def act_return_def)

lemma demo_newest: "newest (otp_active 7 ''LOGIN'' (ad_clock demo_state)) demo_state = Some demo_code"
  by (simp add: newest_def otp_active_def demo_state_def demo_code_def)

theorem sequential_guesses_bounded_witness:
  "fst (verify_otp (demo_auth 60) 7 ''LOGIN'' ''123456'' (guesses (demo_auth 60) 7 ''LOGIN'' [''111111''] demo_state)) = Inr False"
  by (rule sequential_guesses_bounded [OF _ _ demo_newest, of _ demo_pg])
    (simp_all add: one_code_def demo_state_def demo_code_def well_formed_code_def is_ascii_digit_def otp_purposes_def)

text \<open>Requests in parallel: each has looked the code up before the first of them counts its guess.\<close>

fun parallel_guesses :: "auth_db AuthService \<Rightarrow> EmailOtpRow \<Rightarrow> int \<Rightarrow> string list \<Rightarrow> auth_db \<Rightarrow> auth_db" where
  "parallel_guesses v otp t [] s = s"
| "parallel_guesses v otp t (c # cs) s = parallel_guesses v otp t cs (snd (check_otp v otp c t s))"

lemma parallel_counts:
  assumes repo: "as_repo v = pg_repo g" and m: "ot_attempts r < cf_otp_max_attempts (as_config v)"
  shows "\<forall>c\<in>set cs. \<not> as_verify v c (ot_code_hash r) \<Longrightarrow> filter (otp_unused (ot_id r)) (ad_otps s) = [x] \<Longrightarrow>
    filter (otp_unused (ot_id r)) (ad_otps (parallel_guesses v (otp_view r) t cs s)) = [x\<lparr>ot_attempts := ot_attempts x + int (length cs)\<rparr>]"
proof (induction cs arbitrary: s x)
  case (Cons c cs)
  let ?s = "snd (check_otp v (otp_view r) c t s)"
  have k: "filter (otp_unused i) (update_where (\<lambda>r. ot_id r = i) (\<lambda>r. r\<lparr>ot_attempts := ot_attempts r + 1\<rparr>) xs) =
      map (\<lambda>r. r\<lparr>ot_attempts := ot_attempts r + 1\<rparr>) (filter (otp_unused i) xs)" for i xs
    by (induction xs) (auto simp: otp_unused_def)
  have "filter (otp_unused (ot_id r)) (ad_otps ?s) = [x\<lparr>ot_attempts := ot_attempts x + 1\<rparr>]"
    using Cons.prems m by (simp add: check_wrong [OF repo] otp_view_def set_otps_def k)
  from Cons.IH [OF _ this] Cons.prems(1) show ?case by (simp add: add.assoc add.commute)
qed simp

text \<open>
  Guesses made in parallel are not bounded: any number of requests that looked the code up before the first wrong
  guess was counted all compare their guess, and the right one among them is accepted, however far the counter has
  gone past \<open>otp_max_attempts\<close> by then.\<close>

theorem parallel_guesses_unbounded:
  assumes "as_repo v = pg_repo g" and "filter (otp_unused (ot_id r)) (ad_otps s) = [r]"
    and "ot_attempts r < cf_otp_max_attempts (as_config v)" and "\<forall>c\<in>set cs. \<not> as_verify v c (ot_code_hash r)"
    and "as_verify v code (ot_code_hash r)"
  shows "fst (check_otp v (otp_view r) code t (parallel_guesses v (otp_view r) t cs s)) = Inr True \<and>
    ot_attempts (hd (filter (otp_unused (ot_id r)) (ad_otps (parallel_guesses v (otp_view r) t cs s)))) =
      ot_attempts r + int (length cs)"
  using parallel_counts [OF assms(1,3,4,2), of t] assms(3,5)
  by (simp add: check_right [OF assms(1)] otp_view_def)

theorem parallel_guesses_unbounded_witness:
  "fst (check_otp (demo_auth 60) (otp_view demo_code) ''123456'' 0
     (parallel_guesses (demo_auth 60) (otp_view demo_code) 0 [''111111'', ''222222'', ''333333''] demo_state)) = Inr True \<and>
   ot_attempts (hd (filter (otp_unused (ot_id demo_code))
     (ad_otps (parallel_guesses (demo_auth 60) (otp_view demo_code) 0 [''111111'', ''222222'', ''333333''] demo_state)))) =
     ot_attempts demo_code + int (length [''111111'', ''222222'', ''333333''])"
  by (rule parallel_guesses_unbounded [of _ demo_pg]) (simp_all add: demo_state_def demo_code_def otp_unused_def)

section \<open>Accepted codes and logins\<close>

lemma newest_in:
  assumes "newest p s = Some r"
  shows "r \<in> set (ad_otps s) \<and> p r"
proof -
  let ?xs = "sort_key (\<lambda>r. - ot_created_at r) (filter p (ad_otps s))"
  obtain rs where "?xs = r # rs" using assms by (auto simp: newest_def split: list.splits)
  then have "r \<in> set ?xs" by (metis list.set_intros(1))
  then show ?thesis unfolding set_sort by simp
qed

text \<open>What an accepted code was, in the state before and after.\<close>

definition accepted_code :: "auth_db AuthService \<Rightarrow> uuid \<Rightarrow> string \<Rightarrow> string \<Rightarrow> auth_db \<Rightarrow> auth_db \<Rightarrow> otp_row \<Rightarrow> bool" where
  "accepted_code v u p c s s' r \<longleftrightarrow>
     r \<in> set (ad_otps s) \<and> otp_active u p (ad_clock s) r \<and> ot_attempts r < cf_otp_max_attempts (as_config v) \<and>
     as_verify v c (ot_code_hash r) \<and> (\<forall>x\<in>set (ad_otps s'). ot_id x = ot_id r \<longrightarrow> ot_consumed_at x \<noteq> None)"

lemma accepted:
  assumes repo: "as_repo v = pg_repo g" and "verify_email_otp v u p c s = (Inr True, s')"
  obtains r where "accepted_code v u p c s s' r"
    and "s' = set_otps (otp_unused (ot_id r)) (consumed (ad_clock s)) s"
proof -
  have w: "well_formed_code c" using assms(2) by (auto simp: verify_email_otp_def act_return_def split: if_splits)
  have p: "p \<in> set otp_purposes"
    using assms(2) w by (auto simp: verify_email_otp_def act_defs repo pg_find_active_otp_def with_purpose_def split: if_splits)
  note v = verify_unfold [OF repo w p, of u s, unfolded verify_otp_def]
  from assms(2) obtain r where r: "newest (otp_active u p (ad_clock s)) s = Some r"
    and ck: "check_otp v (otp_view r) c (ad_clock s) s = (Inr True, s')"
    by (cases "newest (otp_active u p (ad_clock s)) s") (simp_all add: v)
  have m: "ot_attempts r < cf_otp_max_attempts (as_config v)"
    using ck check_locked [OF repo, of "otp_view r" c "ad_clock s" s] by (cases "ot_attempts r < cf_otp_max_attempts (as_config v)")
      (simp_all add: otp_view_def)
  have h: "as_verify v c (ot_code_hash r)"
    using ck m check_wrong [OF repo, of "otp_view r" c "ad_clock s" s] by (cases "as_verify v c (ot_code_hash r)")
      (simp_all add: otp_view_def)
  have s': "s' = set_otps (otp_unused (ot_id r)) (consumed (ad_clock s)) s"
    using ck m h by (simp add: check_right [OF repo] otp_view_def)
  have "ot_consumed_at x \<noteq> None" if "x \<in> set (ad_otps s')" "ot_id x = ot_id r" for x
    using that unfolding s' by (auto simp: set_otps_def update_where_def otp_unused_def consumed_def)
  then show ?thesis
    using newest_in [OF r] m h s' by (intro that [of r]) (auto simp: accepted_code_def)
qed

text \<open>
  A code is good for one acceptance: a code that \<open>verify_otp\<close> accepts was an active row of that user and purpose
  below the bound of attempts, and that row is consumed then and stays consumed in every run of the service.\<close>

theorem code_single_use:
  assumes "as_repo v = pg_repo g" and "verify_otp v user purpose code s = (Inr True, s1)" and "auth_run v K s1 s2"
    and "\<forall>r\<in>set (ad_otps s). ot_id r < ad_next_id s"
  shows "\<exists>r. accepted_code v user purpose code s s1 r \<and> (\<forall>x\<in>set (ad_otps s2). ot_id x = ot_id r \<longrightarrow> ot_consumed_at x \<noteq> None)"
proof -
  from assms(2) obtain r where r: "accepted_code v user purpose code s s1 r"
    and s1: "s1 = set_otps (otp_unused (ot_id r)) (consumed (ad_clock s)) s"
    by (auto simp: verify_otp_def elim: accepted [OF assms(1)])
  have "used_up (ot_id r) s1"
    using r assms(4) by (auto simp: used_up_def accepted_code_def s1 set_otps_def)
  moreover have "used_up (ot_id r) s1 \<longrightarrow> used_up (ot_id r) s2"
    by (rule auth_run_keeps [OF assms(1) used.auth_store_axioms _ assms(3)]) (simp add: used_up_def)
  ultimately show ?thesis using r by (auto simp: used_up_def)
qed

lemma demo_verify:
  "verify_email_otp (demo_auth 60) 7 ''LOGIN'' ''123456'' demo_state = (Inr True, set_otps (otp_unused 4) (consumed 100000000) demo_state)"
proof -
  have "verify_email_otp (demo_auth 60) 7 ''LOGIN'' ''123456'' demo_state =
      check_otp (demo_auth 60) (otp_view demo_code) ''123456'' (ad_clock demo_state) demo_state"
    using verify_unfold [of "demo_auth 60" demo_pg "''123456''" "''LOGIN''" 7 demo_state, unfolded verify_otp_def demo_newest option.case]
    by (simp add: well_formed_code_def is_ascii_digit_def otp_purposes_def)
  also have "\<dots> = (Inr True, set_otps (otp_unused 4) (consumed 100000000) demo_state)"
    by (subst check_right [of _ demo_pg]) (simp_all add: otp_view_def demo_code_def demo_state_def otp_unused_def)
  finally show ?thesis .
qed

theorem code_single_use_witness:
  "\<exists>r. accepted_code (demo_auth 60) 7 ''LOGIN'' ''123456'' demo_state (set_otps (otp_unused 4) (consumed 100000000) demo_state) r \<and>
    filter (\<lambda>x. ot_id x = ot_id r \<and> ot_consumed_at x = None) (ad_otps (set_otps (otp_unused 4) (consumed 100000000) demo_state)) = []"
proof -
  have "\<forall>r\<in>set (ad_otps demo_state). ot_id r < ad_next_id demo_state" by (simp add: demo_state_def demo_code_def)
  from code_single_use [of "demo_auth 60" demo_pg, OF _ demo_verify [folded verify_otp_def] auth_start this]
  show ?thesis unfolding demo_parts filter_empty_conv by blast
qed

lemma sync_role_result:
  assumes "as_repo v = pg_repo g" and "sync_role v u s = (Inr u', s')"
  shows "us_id u' = us_id u \<and> us_two_factor u' = us_two_factor u \<and> us_email u' = us_email u \<and>
    (us_role u' = ''ADMIN'' \<longleftrightarrow> is_admin_email (as_config v) (us_email u)) \<and> ad_otps s' = ad_otps s \<and> ad_clock s' = ad_clock s"
  using assms(2) by (auto simp: assms(1) sync_role_def Let_def act_defs pg_update_user_role_def set_user_def split: if_splits)

lemma finish_login_otps:
  assumes "as_repo v = pg_repo g" and "finish_login v d u s = (Inr (LoginOk u' tk), s')"
  shows "u' = u \<and> ad_otps s' = ad_otps s"
  using assms(2) by (auto simp: assms(1) finish_login_def issue_tokens_def sign_access_token_def act_defs pg_update_last_login_def
    pg_create_refresh_token_def set_user_def split: if_splits sum.splits)

text \<open>
  C33. A login that issues tokens has shown the credentials: the e-mail is not the house's, a user that is not erased
  has it and the password verifies against the stored hash, behind the admin gate the e-mail is on the administrators'
  list, and with two factors on an active mailed code was presented and is consumed.\<close>

theorem login_needs_credentials:
  assumes "as_repo v = pg_repo g" and "login v d email password code gate s = (Inr (LoginOk u tk), s')"
  shows "email \<noteq> cf_house_email (as_config v) \<and>
    (\<exists>row :: auth_user_row. row \<in> set (ad_users s) \<and> au_erased_at row = None \<and> email_matches g email row \<and>
       as_verify v password (au_password_hash row) \<and> us_id u = au_id row \<and>
       (gate \<longrightarrow> is_admin_email (as_config v) (us_email u)) \<and>
       (au_two_factor row \<longrightarrow> (\<exists>c r. code = Some c \<and> accepted_code v (au_id row) ''LOGIN'' c s s' r)))"
proof -
  have house: "email \<noteq> cf_house_email (as_config v)"
    using assms(2) by (auto simp: login_def act_throw_def split: if_splits)
  define found where "found = List.find (\<lambda>r. au_erased_at r = None \<and> email_matches g email r) (ad_users s)"
  obtain row where row: "found = Some row"
    using assms(2) house by (cases found) (simp_all add: login_def assms(1) act_defs pg_find_user_by_email_def find_auth_user_def found_def)
  then have in_row: "row \<in> set (ad_users s)" "au_erased_at row = None" "email_matches g email row"
    by (auto simp: found_def find_Some_iff)
  let ?u = "row_to_user g row"
  have find: "repo_read (ar_find_user_by_email (as_repo v) email) s = (Inr (Some ?u), s)"
    using row by (simp add: assms(1) repo_read_def pg_find_user_by_email_def find_auth_user_def found_def)
  have pw: "as_verify v password (us_password_hash ?u)"
    using assms(2) house by (auto simp: login_def act_bind_def [of "repo_read _"] find act_throw_def split: if_splits)
  obtain u1 s1 where sync: "sync_role v ?u s = (Inr u1, s1)"
    and rest: "(if gate \<and> us_role u1 \<noteq> ''ADMIN'' then act_throw InvalidCredentials
      else if us_two_factor u1 then
        (case code of None \<Rightarrow> act_bind (request_email_otp v d (us_id u1) ''LOGIN'') (\<lambda>_. act_return (CodeSent (us_email u1)))
         | Some c \<Rightarrow> act_bind (verify_email_otp v (us_id u1) ''LOGIN'' c) (\<lambda>ok.
             if \<not> ok then act_throw Invalid2fa else finish_login v d u1))
      else finish_login v d u1) s1 = (Inr (LoginOk u tk), s')"
    using assms(2) house pw by (auto simp: login_def act_bind_def [of "repo_read _"] find act_bind_def [of "sync_role v ?u"]
      split: sum.splits prod.splits)
  note sy = sync_role_result [OF assms(1) sync]
  have gate: "gate \<longrightarrow> us_role u1 = ''ADMIN''" using rest by (cases "us_role u1 = ''ADMIN''") (auto simp: act_throw_def)
  show ?thesis
  proof (cases "us_two_factor u1")
    case False
    then have "finish_login v d u1 s1 = (Inr (LoginOk u tk), s')" using rest gate by (auto simp: act_throw_def split: if_splits)
    then have "u = u1" using finish_login_otps [OF assms(1)] by blast
    then show ?thesis
      using house in_row pw sy gate False by (intro conjI exI [of _ row]) (simp_all add: row_to_user_def)
  next
    case True
    then obtain c s2 where c: "code = Some c" and ver: "verify_email_otp v (us_id u1) ''LOGIN'' c s1 = (Inr True, s2)"
      and fin: "finish_login v d u1 s2 = (Inr (LoginOk u tk), s')"
      using rest gate by (cases code) (auto simp: act_bind_def act_throw_def act_return_def split: if_splits prod.splits sum.splits)
    obtain r where r: "accepted_code v (us_id u1) ''LOGIN'' c s1 s2 r" using accepted [OF assms(1) ver] by blast
    have "u = u1" "ad_otps s' = ad_otps s2" using finish_login_otps [OF assms(1) fin] by simp_all
    then have "accepted_code v (au_id row) ''LOGIN'' c s s' r" using r sy by (simp add: accepted_code_def row_to_user_def)
    then show ?thesis
      using house in_row pw sy gate c \<open>u = u1\<close> by (intro conjI exI [of _ row]) (auto simp: row_to_user_def)
  qed
qed

lemma demo_login: "\<exists>u tk s'. login (demo_auth 60) (demo_draw ''x'') ''ana'' ''pw'' (Some ''123456'') False demo_state =
    (Inr (LoginOk u tk), s')"
proof -
  have find: "repo_read (pg_find_user_by_email demo_pg ''ana'') demo_state = (Inr (Some (row_to_user demo_pg demo_user)), demo_state)"
    by (simp add: repo_read_def pg_find_user_by_email_def find_auth_user_def email_matches_def eq_ignore_case_def demo_auth_defs)
  have sync: "sync_role (demo_auth 60) (row_to_user demo_pg demo_user) demo_state = (Inr (row_to_user demo_pg demo_user), demo_state)"
    by (simp add: sync_role_def act_return_def is_admin_email_def demo_auth_defs)
  have "\<exists>tk s'. finish_login (demo_auth 60) (demo_draw ''x'') (row_to_user demo_pg demo_user) (set_otps (otp_unused 4) (consumed 100000000) demo_state) =
      (Inr (LoginOk (row_to_user demo_pg demo_user) tk), s')"
    by (simp add: finish_login_def act_defs pg_update_last_login_def set_user_def issue_tokens_def sign_access_token_def jwt_sign_def
      pg_create_refresh_token_def find_token_def set_otps_def REFRESH_HASH_PREFIX_def demo_auth_defs)
  then obtain tk s' where fin: "finish_login (demo_auth 60) (demo_draw ''x'') (row_to_user demo_pg demo_user)
      (set_otps (otp_unused 4) (consumed 100000000) demo_state) = (Inr (LoginOk (row_to_user demo_pg demo_user) tk), s')"
    by blast
  have d: "au_id demo_user = 7" "au_password_hash demo_user = ''pw''" "au_two_factor demo_user" "''ana'' \<noteq> cf_house_email (demo_config 60)"
    by (simp_all add: demo_user_def demo_config_def)
  have "login (demo_auth 60) (demo_draw ''x'') ''ana'' ''pw'' (Some ''123456'') False demo_state =
      (Inr (LoginOk (row_to_user demo_pg demo_user) tk), s')"
    using demo_verify by (simp add: login_def act_bind_def find sync d fin)
  then show ?thesis by blast
qed

theorem login_needs_credentials_witness:
  "''ana'' \<noteq> cf_house_email (demo_config 60) \<and>
   (\<exists>(row :: auth_user_row) r s'. row \<in> set (ad_users demo_state) \<and> ''pw'' = au_password_hash row \<and>
      accepted_code (demo_auth 60) (au_id row) ''LOGIN'' ''123456'' demo_state s' r)"
proof -
  obtain u tk s' where l: "login (demo_auth 60) (demo_draw ''x'') ''ana'' ''pw'' (Some ''123456'') False demo_state = (Inr (LoginOk u tk), s')"
    using demo_login by blast
  have two: "au_two_factor row" if "row \<in> set (ad_users demo_state)" for row using that by (simp add: demo_state_def demo_user_def)
  have repo: "as_repo (demo_auth 60) = pg_repo demo_pg" by simp
  from login_needs_credentials [OF repo l] two show ?thesis unfolding demo_parts by (metis option.inject)
qed

end
