(* ===== verification/OauthStore.thy ===== *)
theory OauthStore
  imports AuthStore
begin

text \<open>
  \<open>crates/db/src/oauth.rs\<close>: the applications, authorization codes, access tokens and consents of the OAuth server. Its
  tables are the state \<open>oauth_db\<close>. The statements of a function are autocommitted one by one, so a function takes the
  state and returns it also with an error. \<open>oauth_env\<close> has what other crates and the random generator provide.
\<close>

datatype OauthError =
  OauthDb string | AppNotFound | InvalidClientSecret | InvalidCode | InvalidRedirectUri | InvalidPkce | OauthInvalidToken | AppDisabled

fun oauth_error_str :: "OauthError \<Rightarrow> string" where
  "oauth_error_str (OauthDb m) = m"
| "oauth_error_str AppNotFound = ''OAuth application not found''"
| "oauth_error_str InvalidClientSecret = ''Invalid client secret''"
| "oauth_error_str InvalidCode = ''Invalid or expired authorization code''"
| "oauth_error_str InvalidRedirectUri = ''Invalid redirect URI''"
| "oauth_error_str InvalidPkce = ''PKCE verification failed''"
| "oauth_error_str OauthInvalidToken = ''OAuth token not found or revoked''"
| "oauth_error_str AppDisabled = ''Application is disabled''"

section \<open>Rows\<close>

record OauthApp =
  ap_id :: uuid
  ap_user :: uuid
  ap_name :: string
  ap_description :: "string option"
  ap_website_url :: "string option"
  ap_logo_url :: "string option"
  ap_client_id :: string
  ap_client_secret_prefix :: string
  ap_redirect_uris :: "string list"
  ap_is_active :: bool
  ap_created_at :: int
  ap_updated_at :: int

text \<open>The row of \<open>oauth_applications\<close> has the hash of the secret too; the struct never carries it.\<close>

record app_row = OauthApp +
  ap_secret_hash :: string

record OauthAppCreated =
  cr_app :: OauthApp
  cr_client_secret :: string

record code_row =
  oc_code :: string
  oc_app :: uuid
  oc_user :: uuid
  oc_redirect_uri :: string
  oc_scope :: string
  oc_state :: "string option"
  oc_expires_at :: int
  oc_used_at :: "int option"
  oc_challenge :: "string option"
  oc_method :: "string option"

record access_token_row =
  ac_token :: string
  ac_app :: uuid
  ac_user :: uuid
  ac_scope :: string
  ac_expires_at :: int
  ac_revoked_at :: "int option"

record consent_row =
  cn_user :: uuid
  cn_app :: uuid
  cn_scopes :: string
  cn_created_at :: int
  cn_updated_at :: int

record UserAuthorizedAppItem =
  ui_application_id :: uuid
  ui_name :: string
  ui_description :: "string option"
  ui_website_url :: "string option"
  ui_logo_url :: "string option"
  ui_granted_scopes :: string
  ui_authorized_at :: int

record OauthUserInfo =
  in_sub :: string
  in_id :: string
  in_username :: string
  in_email :: string
  in_name :: string
  in_picture :: string
  in_email_verified :: bool
  in_created_at :: int

record oauth_db =
  od_users :: "auth_user_row list"
  od_apps :: "app_row list"
  od_codes :: "code_row list"
  od_tokens :: "access_token_row list"
  od_consents :: "consent_row list"
  od_clock :: int
  od_next_id :: uuid

record oauth_env =
  oe_prims :: primitives
  oe_secrets :: SecretsService
  oe_b64url :: "string \<Rightarrow> string" \<comment> \<open>\<open>URL_SAFE_NO_PAD\<close>\<close>

type_synonym 'a oauth_call = "oauth_db \<Rightarrow> (OauthError + 'a) \<times> oauth_db"

definition user_exists :: "oauth_db \<Rightarrow> uuid \<Rightarrow> bool" where
  "user_exists s user \<longleftrightarrow> (\<exists>u\<in>set (od_users s). au_id u = user)"

definition app_exists :: "oauth_db \<Rightarrow> uuid \<Rightarrow> bool" where
  "app_exists s app \<longleftrightarrow> (\<exists>a\<in>set (od_apps s). ap_id a = app)"

section \<open>Applications\<close>

definition app_secret :: "string \<Rightarrow> string" where
  "app_secret rnd = ''sats_sec_'' @ rnd"

definition secret_prefix :: "string \<Rightarrow> string" where
  "secret_prefix raw = take 12 raw @ ''...''"

definition create_application ::
    "oauth_env \<Rightarrow> string \<Rightarrow> string \<Rightarrow> uuid \<Rightarrow> string \<Rightarrow> string option \<Rightarrow> string option \<Rightarrow> string option \<Rightarrow> string list \<Rightarrow>
     OauthAppCreated oauth_call" where
  "create_application W rnd_id rnd_secret user name description website logo uris s =
     (let client = ''sats_app_'' @ rnd_id; raw = app_secret rnd_secret;
          row = \<lparr>ap_id = od_next_id s, ap_user = user, ap_name = trim name, ap_description = map_option trim description,
            ap_website_url = map_option trim website, ap_logo_url = map_option trim logo, ap_client_id = client,
            ap_client_secret_prefix = secret_prefix raw, ap_redirect_uris = uris, ap_is_active = True,
            ap_created_at = od_clock s, ap_updated_at = od_clock s, ap_secret_hash = hmac_hex (oe_prims W) (oe_secrets W) raw\<rparr> in
      if \<not> user_exists s user
      then (Inl (OauthDb (db_error_str (ForeignKeyViolation ''oauth_applications'' ''oauth_applications_user_id_fkey''))), s)
      else if \<exists>a\<in>set (od_apps s). ap_client_id a = client
      then (Inl (OauthDb (db_error_str (UniqueViolation ''oauth_applications_client_id_key''))), s)
      else (Inr \<lparr>cr_app = OauthApp.truncate row, cr_client_secret = raw\<rparr>,
        s\<lparr>od_next_id := Suc (od_next_id s), od_apps := od_apps s @ [row]\<rparr>))"

definition list_user_applications :: "oauth_db \<Rightarrow> uuid \<Rightarrow> OauthApp list" where
  "list_user_applications s user =
     map OauthApp.truncate (sort_key (\<lambda>a. - ap_created_at a) (filter (\<lambda>a. ap_user a = user) (od_apps s)))"

definition find_client :: "oauth_db \<Rightarrow> string \<Rightarrow> app_row option" where
  "find_client s client = List.find (\<lambda>a. ap_client_id a = client) (od_apps s)"

definition get_application_by_client_id :: "oauth_db \<Rightarrow> string \<Rightarrow> OauthError + OauthApp" where
  "get_application_by_client_id s client =
     (case find_client s client of
        None \<Rightarrow> Inl AppNotFound
      | Some a \<Rightarrow> if \<not> ap_is_active a then Inl AppDisabled else Inr (OauthApp.truncate a))"

text \<open>An \<open>UPDATE \<dots> WHERE id = $1 AND user_id = $2 RETURNING\<close> on the applications.\<close>

definition update_own_app :: "uuid \<Rightarrow> uuid \<Rightarrow> (app_row \<Rightarrow> app_row) \<Rightarrow> OauthApp oauth_call" where
  "update_own_app user app f s =
     (let own = (\<lambda>a. ap_id a = app \<and> ap_user a = user) in
      case List.find own (od_apps s) of
        None \<Rightarrow> (Inl AppNotFound, s)
      | Some a \<Rightarrow> (Inr (OauthApp.truncate (f a)), s\<lparr>od_apps := update_where own f (od_apps s)\<rparr>))"

definition update_application ::
    "uuid \<Rightarrow> uuid \<Rightarrow> string \<Rightarrow> string option \<Rightarrow> string option \<Rightarrow> string option \<Rightarrow> string list \<Rightarrow> OauthApp oauth_call" where
  "update_application user app name description website logo uris s =
     update_own_app user app (\<lambda>a. a\<lparr>ap_name := trim name, ap_description := map_option trim description,
       ap_website_url := map_option trim website, ap_logo_url := map_option trim logo, ap_redirect_uris := uris,
       ap_updated_at := od_clock s\<rparr>) s"

definition rotate_client_secret :: "oauth_env \<Rightarrow> string \<Rightarrow> uuid \<Rightarrow> uuid \<Rightarrow> OauthAppCreated oauth_call" where
  "rotate_client_secret W rnd user app s =
     (let raw = app_secret rnd in
      case update_own_app user app (\<lambda>a. a\<lparr>ap_secret_hash := hmac_hex (oe_prims W) (oe_secrets W) raw,
          ap_client_secret_prefix := secret_prefix raw, ap_updated_at := od_clock s\<rparr>) s of
        (Inl e, s') \<Rightarrow> (Inl e, s')
      | (Inr a, s') \<Rightarrow> (Inr \<lparr>cr_app = a, cr_client_secret = raw\<rparr>, s'))"

text \<open>The foreign keys of codes, tokens and consents are \<open>ON DELETE CASCADE\<close>.\<close>

definition delete_application :: "uuid \<Rightarrow> uuid \<Rightarrow> unit oauth_call" where
  "delete_application user app s =
     (if \<not> (\<exists>a\<in>set (od_apps s). ap_id a = app \<and> ap_user a = user) then (Inl AppNotFound, s)
      else (Inr (), s\<lparr>od_apps := filter (\<lambda>a. \<not> (ap_id a = app \<and> ap_user a = user)) (od_apps s),
        od_codes := filter (\<lambda>c. oc_app c \<noteq> app) (od_codes s), od_tokens := filter (\<lambda>t. ac_app t \<noteq> app) (od_tokens s),
        od_consents := filter (\<lambda>c. cn_app c \<noteq> app) (od_consents s)\<rparr>))"

section \<open>Codes and tokens\<close>

definition record_consent :: "uuid \<Rightarrow> uuid \<Rightarrow> string \<Rightarrow> oauth_db \<Rightarrow> oauth_db" where
  "record_consent user app scope s =
     (let same = (\<lambda>c. cn_user c = user \<and> cn_app c = app) in
      if \<exists>c\<in>set (od_consents s). same c
      then s\<lparr>od_consents := update_where same (\<lambda>c. c\<lparr>cn_scopes := scope, cn_updated_at := od_clock s\<rparr>) (od_consents s)\<rparr>
      else s\<lparr>od_consents := od_consents s @ [\<lparr>cn_user = user, cn_app = app, cn_scopes = scope, cn_created_at = od_clock s,
        cn_updated_at = od_clock s\<rparr>]\<rparr>)"

definition CODE_TTL :: int where
  "CODE_TTL = 10 * 60 * 1000000"

definition create_authorization_code ::
    "string \<Rightarrow> uuid \<Rightarrow> uuid \<Rightarrow> string \<Rightarrow> string \<Rightarrow> string option \<Rightarrow> string option \<Rightarrow> string option \<Rightarrow> string oauth_call" where
  "create_authorization_code rnd app user uri scope st challenge challenge_method s =
     (let code = ''sats_code_'' @ rnd in
      if \<not> app_exists s app
      then (Inl (OauthDb (db_error_str (ForeignKeyViolation ''oauth_authorization_codes'' ''oauth_authorization_codes_application_id_fkey''))), s)
      else if \<not> user_exists s user
      then (Inl (OauthDb (db_error_str (ForeignKeyViolation ''oauth_authorization_codes'' ''oauth_authorization_codes_user_id_fkey''))), s)
      else if \<exists>c\<in>set (od_codes s). oc_code c = code
      then (Inl (OauthDb (db_error_str (UniqueViolation ''oauth_authorization_codes_pkey''))), s)
      else (Inr code, record_consent user app scope (s\<lparr>od_codes := od_codes s @
        [\<lparr>oc_code = code, oc_app = app, oc_user = user, oc_redirect_uri = uri, oc_scope = scope, oc_state = st,
          oc_expires_at = od_clock s + CODE_TTL, oc_used_at = None, oc_challenge = challenge, oc_method = challenge_method\<rparr>]\<rparr>)))"

definition verify_pkce_s256 :: "oauth_env \<Rightarrow> string \<Rightarrow> string \<Rightarrow> bool" where
  "verify_pkce_s256 W verifier challenge =
     (if length verifier < 43 \<or> 128 < length verifier then False
      else ct_eq_str (oe_b64url W (sha256 (oe_prims W) verifier)) challenge)"

definition filled :: "string option \<Rightarrow> string option" where
  "filled x = (case x of None \<Rightarrow> None | Some t \<Rightarrow> if t = [] then None else Some t)"

text \<open>Steps 1 to 2b of \<open>exchange_authorization_code\<close>: they only read.\<close>

definition check_exchange ::
    "oauth_env \<Rightarrow> string \<Rightarrow> string \<Rightarrow> string \<Rightarrow> string \<Rightarrow> string option \<Rightarrow> oauth_db \<Rightarrow> OauthError + app_row \<times> code_row" where
  "check_exchange W code client secret uri verifier s =
     (case find_client s client of
        None \<Rightarrow> Inl AppNotFound
      | Some a \<Rightarrow>
          if \<not> ap_is_active a then Inl AppDisabled
          else if \<not> verify_hmac_hex (oe_prims W) (oe_secrets W) secret (ap_secret_hash a) then Inl InvalidClientSecret
          else
            (case List.find (\<lambda>c. oc_code c = code \<and> oc_app c = ap_id a) (od_codes s) of
               None \<Rightarrow> Inl InvalidCode
             | Some c \<Rightarrow>
                 if oc_used_at c \<noteq> None \<or> oc_expires_at c < od_clock s then Inl InvalidCode
                 else if oc_redirect_uri c \<noteq> uri then Inl InvalidRedirectUri
                 else
                   (case filled (oc_challenge c) of
                      None \<Rightarrow> Inl InvalidPkce
                    | Some challenge \<Rightarrow>
                        (case filled (map_option trim verifier) of
                           None \<Rightarrow> Inl InvalidPkce
                         | Some v \<Rightarrow>
                             if (case oc_method c of None \<Rightarrow> ''S256'' | Some m \<Rightarrow> m) \<noteq> ''S256'' then Inl InvalidPkce
                             else if \<not> verify_pkce_s256 W v challenge then Inl InvalidPkce
                             else Inr (a, c)))))"

definition TOKEN_TTL_SECS :: int where
  "TOKEN_TTL_SECS = 86400 * 30"

definition mark_used :: "string \<Rightarrow> oauth_db \<Rightarrow> oauth_db" where
  "mark_used code s =
     s\<lparr>od_codes := update_where (\<lambda>c. oc_code c = code) (\<lambda>c. c\<lparr>oc_used_at := Some (od_clock s)\<rparr>) (od_codes s)\<rparr>"

text \<open>Steps 3 and 4: the code is marked used, whatever became of it since the check, and a token is inserted.\<close>

definition issue_access_token :: "string \<Rightarrow> app_row \<Rightarrow> code_row \<Rightarrow> (string \<times> int \<times> string) oauth_call" where
  "issue_access_token rnd a c s0 =
     (let s = mark_used (oc_code c) s0; token = ''sats_tok_'' @ rnd in
      if \<not> app_exists s (ap_id a)
      then (Inl (OauthDb (db_error_str (ForeignKeyViolation ''oauth_access_tokens'' ''oauth_access_tokens_application_id_fkey''))), s)
      else if \<not> user_exists s (oc_user c)
      then (Inl (OauthDb (db_error_str (ForeignKeyViolation ''oauth_access_tokens'' ''oauth_access_tokens_user_id_fkey''))), s)
      else if \<exists>t\<in>set (od_tokens s). ac_token t = token
      then (Inl (OauthDb (db_error_str (UniqueViolation ''oauth_access_tokens_pkey''))), s)
      else (Inr (token, TOKEN_TTL_SECS, oc_scope c), s\<lparr>od_tokens := od_tokens s @
        [\<lparr>ac_token = token, ac_app = ap_id a, ac_user = oc_user c, ac_scope = oc_scope c,
          ac_expires_at = od_clock s + TOKEN_TTL_SECS * 1000000, ac_revoked_at = None\<rparr>]\<rparr>))"

text \<open>\<open>gap\<close> is what other sessions commit between the check and the update.\<close>

definition exchange_authorization_code ::
    "oauth_env \<Rightarrow> (oauth_db \<Rightarrow> oauth_db) \<Rightarrow> string \<Rightarrow> string \<Rightarrow> string \<Rightarrow> string \<Rightarrow> string \<Rightarrow> string option \<Rightarrow>
     (string \<times> int \<times> string) oauth_call" where
  "exchange_authorization_code W gap rnd code client secret uri verifier s =
     (case check_exchange W code client secret uri verifier s of
        Inl e \<Rightarrow> (Inl e, s)
      | Inr (a, c) \<Rightarrow> issue_access_token rnd a c (gap s))"

definition get_user_by_oauth_token :: "oauth_db \<Rightarrow> string \<Rightarrow> OauthError + OauthUserInfo" where
  "get_user_by_oauth_token s token =
     (case List.find (\<lambda>t. ac_token t = token) (od_tokens s) of
        None \<Rightarrow> Inl OauthInvalidToken
      | Some t \<Rightarrow>
          (case List.find (\<lambda>u. au_id u = ac_user t) (od_users s) of
             None \<Rightarrow> Inl OauthInvalidToken
           | Some u \<Rightarrow>
               if ac_revoked_at t \<noteq> None \<or> ac_expires_at t < od_clock s then Inl OauthInvalidToken
               else Inr \<lparr>in_sub = show_uuid (au_id u), in_id = show_uuid (au_id u), in_username = au_username u,
                 in_email = au_email u, in_name = au_username u,
                 in_picture = ''https://api.dicebear.com/7.x/identicon/svg?seed='' @ au_username u,
                 in_email_verified = True, in_created_at = au_created_at u\<rparr>))"

section \<open>Consents\<close>

definition list_user_consents :: "oauth_db \<Rightarrow> uuid \<Rightarrow> UserAuthorizedAppItem list" where
  "list_user_consents s user =
     concat (map (\<lambda>c. map (\<lambda>a.
         \<lparr>ui_application_id = ap_id a, ui_name = ap_name a, ui_description = ap_description a,
          ui_website_url = ap_website_url a, ui_logo_url = ap_logo_url a, ui_granted_scopes = cn_scopes c,
          ui_authorized_at = cn_created_at c\<rparr>) (filter (\<lambda>a. ap_id a = cn_app c) (od_apps s)))
       (sort_key (\<lambda>c. - cn_created_at c) (filter (\<lambda>c. cn_user c = user) (od_consents s))))"

definition revoke_user_consent :: "uuid \<Rightarrow> uuid \<Rightarrow> unit oauth_call" where
  "revoke_user_consent user app s = (Inr (),
     s\<lparr>od_consents := filter (\<lambda>c. \<not> (cn_user c = user \<and> cn_app c = app)) (od_consents s),
       od_tokens := update_where (\<lambda>t. ac_user t = user \<and> ac_app t = app \<and> ac_revoked_at t = None)
         (\<lambda>t. t\<lparr>ac_revoked_at := Some (od_clock s)\<rparr>) (od_tokens s)\<rparr>)"

end
