(* ===== verification/OauthWeb.thy ===== *)
theory OauthWeb
  imports OauthStore AuthService Json
begin

text \<open>
  \<open>crates/api-http/src\<close>: the routes of the OAuth server (\<open>oauth.rs\<close>) with the checks of redirect URIs
  (\<open>oauth_redirect.rs\<close>) and PKCE challenges (\<open>oauth_pkce.rs\<close>), the extractor of the caller (\<open>middleware.rs\<close>) and the body of
  an internal error (\<open>http_error.rs\<close>). A handler returns a status with a JSON body or its answer.
\<close>

datatype http_error = HttpError nat json

text \<open>\<open>internal_error_parts\<close>: the text of the error goes to the log only.\<close>

definition internal_error :: "string \<Rightarrow> http_error" where
  "internal_error request_id = HttpError 500 (JObj [(''error'', JStr ''internal error''), (''code'', JStr ''INTERNAL''),
     (''requestId'', JStr request_id)])"

definition oauth_error :: "nat \<Rightarrow> string \<Rightarrow> string \<Rightarrow> http_error" where
  "oauth_error status error description =
     HttpError status (JObj [(''error'', JStr error), (''error_description'', JStr description)])"

definition plain_error :: "nat \<Rightarrow> string \<Rightarrow> http_error" where
  "plain_error status msg = HttpError status (JObj [(''error'', JStr msg)])"

section \<open>The caller\<close>

record AuthUser =
  ur_id :: uuid
  ur_role :: string
  ur_two_factor :: bool

definition unauthorized :: http_error where
  "unauthorized = plain_error 401 ''unauthorized''"

definition bearer :: "string \<Rightarrow> string option" where
  "bearer raw = (case strip_prefix ''Bearer '' raw of Some t \<Rightarrow> Some t | None \<Rightarrow> strip_prefix ''bearer '' raw)"

text \<open>The extractor \<open>AuthUser\<close>; \<open>parse_uuid\<close> is \<open>Uuid::parse_str\<close>, \<open>header\<close> the value of \<open>Authorization\<close> when it is text.\<close>

definition extract_user :: "(string \<Rightarrow> uuid option) \<Rightarrow> 's AuthService \<Rightarrow> string option \<Rightarrow> 's \<Rightarrow> http_error + AuthUser" where
  "extract_user parse_uuid v header s =
     (case header of
        None \<Rightarrow> Inl unauthorized
      | Some raw \<Rightarrow>
          let token = trim (case bearer raw of Some t \<Rightarrow> t | None \<Rightarrow> raw) in
          if token = [] then Inl unauthorized
          else (case verify_access_token v token of
            Inl _ \<Rightarrow> Inl unauthorized
          | Inr claims \<Rightarrow>
              (case parse_uuid (ct_sub claims) of
                 None \<Rightarrow> Inl unauthorized
               | Some i \<Rightarrow>
                   (case fst (get_user_by_id v i s) of
                      Inr (Some user) \<Rightarrow> Inr \<lparr>ur_id = i, ur_role = us_role user, ur_two_factor = us_two_factor user\<rparr>
                    | Inr None \<Rightarrow> Inl unauthorized
                    | Inl _ \<Rightarrow> Inl (plain_error 500 ''internal error'')))))"

definition require_admin :: "AuthUser \<Rightarrow> http_error option" where
  "require_admin user = (if eq_ignore_case (ur_role user) ''ADMIN'' then None else Some (plain_error 403 ''admin access required''))"

section \<open>Redirect URIs\<close>

text \<open>What \<open>url::Url::parse\<close> tells of a URI.\<close>

record parsed_uri =
  pu_scheme :: string
  pu_host :: "string option"
  pu_username :: string
  pu_password :: "string option"
  pu_cannot_be_a_base :: bool

text \<open>\<open>char::is_control\<close> on UTF-8: C0, DEL, and C1 as the bytes \<open>C2 80..9F\<close>.\<close>

fun has_control :: "string \<Rightarrow> bool" where
  "has_control [] = False"
| "has_control [c] = (byte_in 0 31 c \<or> byte_in 127 127 c)"
| "has_control (c # d # cs) =
    (byte_in 0 31 c \<or> byte_in 127 127 c \<or> byte_in 0xC2 0xC2 c \<and> byte_in 0x80 0x9F d \<or> has_control (d # cs))"

definition is_safe_redirect_uri :: "(string \<Rightarrow> parsed_uri option) \<Rightarrow> string \<Rightarrow> bool" where
  "is_safe_redirect_uri parse raw =
     (let uri = trim raw in
      if uri = [] \<or> 2048 < length uri then False
      else if has_control uri \<or> CHR 0x5C \<in> set uri then False
      else (case parse uri of
          None \<Rightarrow> False
        | Some p \<Rightarrow>
            if pu_cannot_be_a_base p then False
            else if pu_username p \<noteq> [] \<or> pu_password p \<noteq> None then False
            else if pu_scheme p = ''https'' then (case pu_host p of None \<Rightarrow> False | Some h \<Rightarrow> h \<noteq> [])
            else if pu_scheme p = ''http''
            then map_option (map lower_char) (pu_host p) \<in> {Some ''localhost'', Some ''127.0.0.1'', Some ''::1''}
            else False))"

fun check_uris :: "(string \<Rightarrow> parsed_uri option) \<Rightarrow> string list \<Rightarrow> string list \<Rightarrow> string + string list" where
  "check_uris parse out [] = Inr out"
| "check_uris parse out (raw # uris) =
    (let t = trim raw in
     if t = [] then check_uris parse out uris
     else if \<not> is_safe_redirect_uri parse t
     then Inl (''invalid redirect_uri `'' @ t @ ''` (use https://'' @ utf8_ellipsis @ '' or http://localhost)'')
     else check_uris parse (if t \<in> set out then out else out @ [t]) uris)"

definition validate_redirect_uris :: "(string \<Rightarrow> parsed_uri option) \<Rightarrow> string list \<Rightarrow> string + string list" where
  "validate_redirect_uris parse uris =
     (case check_uris parse [] uris of
        Inl e \<Rightarrow> Inl e
      | Inr out \<Rightarrow> if out = [] then Inl ''at least one redirect_uri is required'' else Inr out)"

definition assert_redirect_uri_allowed :: "(string \<Rightarrow> parsed_uri option) \<Rightarrow> string list \<Rightarrow> string \<Rightarrow> string option" where
  "assert_redirect_uri_allowed parse registered requested =
     (if registered = [] then Some ''application has no registered redirect_uris''
      else if \<not> is_safe_redirect_uri parse requested then Some ''redirect_uri is not a safe absolute URL''
      else if requested \<notin> set registered then Some ''redirect_uri not registered for this app''
      else None)"

section \<open>PKCE\<close>

definition is_unreserved :: "char \<Rightarrow> bool" where
  "is_unreserved c \<longleftrightarrow> is_ascii_alpha c \<or> is_ascii_digit c \<or> c \<in> set ''-_.~''"

definition normalize_challenge :: "string option \<Rightarrow> string option \<Rightarrow> string + string \<times> string" where
  "normalize_challenge challenge pkce_method =
     (case filled (map_option trim challenge) of
        None \<Rightarrow> Inl ''code_challenge is required (PKCE S256)''
      | Some ch \<Rightarrow>
          if length ch < 43 \<or> 128 < length ch then Inl ''code_challenge length must be 43..128''
          else if \<not> (\<forall>c\<in>set ch. is_unreserved c) then Inl ''code_challenge has invalid characters''
          else
            let m = map upper_char (trim (case pkce_method of None \<Rightarrow> ''S256'' | Some m \<Rightarrow> m)) in
            if m \<noteq> ''S256'' then Inl ''only code_challenge_method=S256 is supported'' else Inr (ch, m))"

text \<open>The second implementation of the check, \<open>oauth_pkce::verify_s256\<close>.\<close>

definition verify_s256 :: "oauth_env \<Rightarrow> string \<Rightarrow> string \<Rightarrow> bool" where
  "verify_s256 W verifier challenge =
     (let v = trim verifier in
      if length v < 43 \<or> 128 < length v then False
      else ct_eq_str (oe_b64url W (sha256 (oe_prims W) v)) challenge)"

section \<open>Authorization\<close>

definition hex_upper :: "nat \<Rightarrow> char" where
  "hex_upper d = (if d < 10 then char_of (48 + d) else char_of (55 + d))"

fun url_encode :: "string \<Rightarrow> string" where
  "url_encode [] = []"
| "url_encode (c # cs) =
    (if is_unreserved c then [c]
     else [CHR ''%'', hex_upper ((of_char c :: nat) div 16), hex_upper ((of_char c :: nat) mod 16)]) @ url_encode cs"

fun split_ws :: "string \<Rightarrow> string \<Rightarrow> string list" where
  "split_ws word [] = (if word = [] then [] else [word])"
| "split_ws word (c # cs) =
    (if is_space c then (if word = [] then split_ws [] cs else word # split_ws [] cs) else split_ws (word @ [c]) cs)"

definition split_whitespace :: "string \<Rightarrow> string list" where
  "split_whitespace = split_ws []"

definition DEFAULT_SCOPE :: string where
  "DEFAULT_SCOPE = ''openid profile email''"

record CurrentUserPreview =
  pv_id :: string
  pv_username :: string
  pv_email :: string

record AuthorizeInfoResponse =
  ai_app_id :: string
  ai_app_name :: string
  ai_description :: "string option"
  ai_website_url :: "string option"
  ai_logo_url :: "string option"
  ai_redirect_uri :: string
  ai_scopes :: "string list"
  ai_user :: "CurrentUserPreview option"

definition authorize_info ::
    "(string \<Rightarrow> parsed_uri option) \<Rightarrow> uuid option \<Rightarrow> string \<Rightarrow> string option \<Rightarrow> string option \<Rightarrow> oauth_db \<Rightarrow>
     http_error + AuthorizeInfoResponse" where
  "authorize_info parse auth_user client redirect scope s =
     (case get_application_by_client_id s client of
        Inl _ \<Rightarrow> Inl (oauth_error 400 ''invalid_client'' ''Application not found or inactive'')
      | Inr app \<Rightarrow>
          let chosen = (case filled redirect of
              Some uri \<Rightarrow> (case assert_redirect_uri_allowed parse (ap_redirect_uris app) uri of
                  Some msg \<Rightarrow> Inl msg | None \<Rightarrow> Inr uri)
            | None \<Rightarrow> (case ap_redirect_uris app of
                  [] \<Rightarrow> Inl ''application has no registered redirect_uris'' | uri # _ \<Rightarrow> Inr uri)) in
          (case chosen of
             Inl msg \<Rightarrow> Inl (oauth_error 400 ''invalid_redirect_uri'' msg)
           | Inr uri \<Rightarrow> Inr
              \<lparr>ai_app_id = show_uuid (ap_id app), ai_app_name = ap_name app, ai_description = ap_description app,
               ai_website_url = ap_website_url app, ai_logo_url = ap_logo_url app, ai_redirect_uri = uri,
               ai_scopes = split_whitespace (case scope of None \<Rightarrow> DEFAULT_SCOPE | Some t \<Rightarrow> t),
               ai_user = (case auth_user of
                   None \<Rightarrow> None
                 | Some i \<Rightarrow> map_option (\<lambda>u. \<lparr>pv_id = show_uuid (au_id u), pv_username = au_username u, pv_email = au_email u\<rparr>)
                     (List.find (\<lambda>u. au_id u = i) (od_users s)))\<rparr>))"

record AuthorizeSubmitRequest =
  sq_client_id :: string
  sq_redirect_uri :: string
  sq_scope :: "string option"
  sq_state :: "string option"
  sq_decision :: string
  sq_code_challenge :: "string option"
  sq_code_challenge_method :: "string option"

definition url_separator :: "string \<Rightarrow> string" where
  "url_separator uri = (if CHR ''?'' \<in> set uri then ''&'' else ''?'')"

definition state_param :: "string option \<Rightarrow> string" where
  "state_param st = (case st of None \<Rightarrow> [] | Some t \<Rightarrow> ''&state='' @ url_encode t)"

definition authorize_submit ::
    "(string \<Rightarrow> parsed_uri option) \<Rightarrow> string \<Rightarrow> string \<Rightarrow> uuid \<Rightarrow> AuthorizeSubmitRequest \<Rightarrow> oauth_db \<Rightarrow>
     (http_error + string) \<times> oauth_db" where
  "authorize_submit parse request_id rnd user q s =
     (case get_application_by_client_id s (sq_client_id q) of
        Inl _ \<Rightarrow> (Inl (oauth_error 400 ''invalid_client'' ''Application not found''), s)
      | Inr app \<Rightarrow>
          (case assert_redirect_uri_allowed parse (ap_redirect_uris app) (sq_redirect_uri q) of
             Some msg \<Rightarrow> (Inl (oauth_error 400 ''invalid_redirect_uri'' msg), s)
           | None \<Rightarrow>
               if sq_decision q \<noteq> ''approve''
               then (Inr (sq_redirect_uri q @ url_separator (sq_redirect_uri q) @ state_param (sq_state q) @
                   ''error=access_denied&error_description='' @ url_encode ''User denied authorization''), s)
               else
                 (case normalize_challenge (sq_code_challenge q) (sq_code_challenge_method q) of
                    Inl msg \<Rightarrow> (Inl (oauth_error 400 ''invalid_request'' msg), s)
                  | Inr (challenge, m) \<Rightarrow>
                      (case create_authorization_code rnd (ap_id app) user (sq_redirect_uri q)
                          (case sq_scope q of None \<Rightarrow> DEFAULT_SCOPE | Some t \<Rightarrow> t) (sq_state q) (Some challenge) (Some m) s of
                         (Inl _, s') \<Rightarrow> (Inl (internal_error request_id), s')
                       | (Inr code, s') \<Rightarrow>
                           (Inr (sq_redirect_uri q @ url_separator (sq_redirect_uri q) @ ''code='' @ code @ state_param (sq_state q)), s')))))"

section \<open>Tokens\<close>

record TokenRequest =
  tq_grant_type :: "string option"
  tq_code :: "string option"
  tq_client_id :: "string option"
  tq_client_secret :: "string option"
  tq_redirect_uri :: "string option"
  tq_code_verifier :: "string option"

definition empty_token_request :: TokenRequest where
  "empty_token_request = \<lparr>tq_grant_type = None, tq_code = None, tq_client_id = None, tq_client_secret = None,
     tq_redirect_uri = None, tq_code_verifier = None\<rparr>"

record TokenResponse =
  tr_access_token :: string
  tr_token_type :: string
  tr_expires_in :: int
  tr_scope :: string

definition split_once :: "char \<Rightarrow> string \<Rightarrow> (string \<times> string) option" where
  "split_once c s = (if c \<in> set s then Some (takeWhile (\<lambda>x. x \<noteq> c) s, tl (dropWhile (\<lambda>x. x \<noteq> c) s)) else None)"

definition basic_credentials :: "oauth_env \<Rightarrow> string option \<Rightarrow> (string \<times> string) option" where
  "basic_credentials W header =
     (case header of
        None \<Rightarrow> None
      | Some h \<Rightarrow>
          (case strip_prefix ''Basic '' h of
             None \<Rightarrow> None
           | Some b64 \<Rightarrow>
               (case b64_decode (oe_prims W) (trim b64) of
                  None \<Rightarrow> None
                | Some bytes \<Rightarrow> if utf8_valid bytes then split_once (CHR '':'') bytes else None)))"

definition or_empty :: "string option \<Rightarrow> string" where
  "or_empty x = (case x of None \<Rightarrow> [] | Some t \<Rightarrow> t)"

definition token_exchange ::
    "oauth_env \<Rightarrow> (oauth_db \<Rightarrow> oauth_db) \<Rightarrow> string \<Rightarrow> string option \<Rightarrow> TokenRequest option \<Rightarrow> oauth_db \<Rightarrow>
     (http_error + TokenResponse) \<times> oauth_db" where
  "token_exchange W gap rnd header body s =
     (let req0 = (case body of None \<Rightarrow> empty_token_request | Some b \<Rightarrow> b);
          req = (case basic_credentials W header of
              None \<Rightarrow> req0 | Some (cid, csec) \<Rightarrow> req0\<lparr>tq_client_id := Some cid, tq_client_secret := Some csec\<rparr>);
          code = or_empty (tq_code req); client = or_empty (tq_client_id req); secret = or_empty (tq_client_secret req) in
      if or_empty (tq_grant_type req) \<noteq> ''authorization_code''
      then (Inl (oauth_error 400 ''unsupported_grant_type'' ''Only grant_type=authorization_code is supported''), s)
      else if code = [] \<or> client = [] \<or> secret = []
      then (Inl (oauth_error 400 ''invalid_request'' ''Missing required parameters (code, client_id, client_secret)''), s)
      else
        (case exchange_authorization_code W gap rnd code client secret (or_empty (tq_redirect_uri req)) (tq_code_verifier req) s of
           (Inl e, s') \<Rightarrow> (Inl (oauth_error 400 ''invalid_grant'' (oauth_error_str e)), s')
         | (Inr (token, expires_in, scope), s') \<Rightarrow>
             (Inr \<lparr>tr_access_token = token, tr_token_type = ''Bearer'', tr_expires_in = expires_in, tr_scope = scope\<rparr>, s')))"

definition userinfo :: "string option \<Rightarrow> oauth_db \<Rightarrow> http_error + OauthUserInfo" where
  "userinfo header s =
     (case header of
        None \<Rightarrow> Inl (oauth_error 401 ''missing_token'' ''Authorization header is required'')
      | Some h \<Rightarrow>
          (case map_option trim (bearer h) of
             None \<Rightarrow> Inl (oauth_error 401 ''invalid_token'' ''Expected Bearer token'')
           | Some token \<Rightarrow>
               (case get_user_by_oauth_token s token of
                  Inl _ \<Rightarrow> Inl (oauth_error 401 ''invalid_token'' ''Token expired or invalid'')
                | Inr info \<Rightarrow> Inr info)))"

section \<open>Applications and consents\<close>

definition or_internal :: "string \<Rightarrow> (OauthError + 'a) \<times> oauth_db \<Rightarrow> (http_error + 'a) \<times> oauth_db" where
  "or_internal request_id r = (case r of (Inl _, s) \<Rightarrow> (Inl (internal_error request_id), s) | (Inr x, s) \<Rightarrow> (Inr x, s))"

record AppRequest =
  aq_name :: string
  aq_description :: "string option"
  aq_website_url :: "string option"
  aq_logo_url :: "string option"
  aq_redirect_uris :: "string list"

definition create_app ::
    "oauth_env \<Rightarrow> (string \<Rightarrow> parsed_uri option) \<Rightarrow> string \<Rightarrow> string \<Rightarrow> string \<Rightarrow> uuid \<Rightarrow> AppRequest \<Rightarrow> oauth_db \<Rightarrow>
     (http_error + OauthAppCreated) \<times> oauth_db" where
  "create_app W parse request_id rnd_id rnd_secret user q s =
     (if trim (aq_name q) = [] then (Inl (plain_error 400 ''App name is required''), s)
      else (case validate_redirect_uris parse (aq_redirect_uris q) of
        Inl msg \<Rightarrow> (Inl (plain_error 400 msg), s)
      | Inr uris \<Rightarrow> or_internal request_id (create_application W rnd_id rnd_secret user (aq_name q) (aq_description q)
          (aq_website_url q) (aq_logo_url q) uris s)))"

definition update_app ::
    "(string \<Rightarrow> parsed_uri option) \<Rightarrow> string \<Rightarrow> uuid \<Rightarrow> uuid \<Rightarrow> AppRequest \<Rightarrow> oauth_db \<Rightarrow> (http_error + OauthApp) \<times> oauth_db" where
  "update_app parse request_id user app q s =
     (case validate_redirect_uris parse (aq_redirect_uris q) of
        Inl msg \<Rightarrow> (Inl (plain_error 400 msg), s)
      | Inr uris \<Rightarrow> or_internal request_id (update_application user app (aq_name q) (aq_description q)
          (aq_website_url q) (aq_logo_url q) uris s))"

definition delete_app :: "string \<Rightarrow> uuid \<Rightarrow> uuid \<Rightarrow> oauth_db \<Rightarrow> (http_error + unit) \<times> oauth_db" where
  "delete_app request_id user app s = or_internal request_id (delete_application user app s)"

definition rotate_secret :: "oauth_env \<Rightarrow> string \<Rightarrow> string \<Rightarrow> uuid \<Rightarrow> uuid \<Rightarrow> oauth_db \<Rightarrow> (http_error + OauthAppCreated) \<times> oauth_db" where
  "rotate_secret W request_id rnd user app s = or_internal request_id (rotate_client_secret W rnd user app s)"

definition list_apps :: "uuid \<Rightarrow> oauth_db \<Rightarrow> OauthApp list" where
  "list_apps user s = list_user_applications s user"

definition list_authorized_apps :: "uuid \<Rightarrow> oauth_db \<Rightarrow> UserAuthorizedAppItem list" where
  "list_authorized_apps user s = list_user_consents s user"

definition revoke_authorized_app :: "string \<Rightarrow> uuid \<Rightarrow> uuid \<Rightarrow> oauth_db \<Rightarrow> (http_error + unit) \<times> oauth_db" where
  "revoke_authorized_app request_id user app s = or_internal request_id (revoke_user_consent user app s)"

lemma find_row: "List.find p xs = Some x \<Longrightarrow> x \<in> set xs \<and> p x"
  by (auto simp: find_Some_iff)

lemma record_consent_frame [simp]:
  "od_codes (record_consent u i sc s) = od_codes s" "od_tokens (record_consent u i sc s) = od_tokens s"
  "od_apps (record_consent u i sc s) = od_apps s"
  by (simp_all add: record_consent_def Let_def)

section \<open>A concrete server\<close>

definition demo_env :: oauth_env where
  "demo_env = \<lparr>oe_prims = \<lparr>gcm_encrypt = (\<lambda>_ _ _ m. m), gcm_decrypt = (\<lambda>_ _ _ c. Some c), b64_encode = id, b64_decode = Some,
     hkdf_expand = (\<lambda>m i. m @ i), hmac_sha256 = (\<lambda>k m. k @ m), sha256 = id, hex_encode = id, hex_decode = Some\<rparr>,
     oe_secrets = demo_secrets, oe_b64url = id\<rparr>"

definition demo_parse :: "string \<Rightarrow> parsed_uri option" where
  "demo_parse uri = Some \<lparr>pu_scheme = ''https'', pu_host = Some ''a'', pu_username = [], pu_password = None, pu_cannot_be_a_base = False\<rparr>"

definition demo_verifier :: string where
  "demo_verifier = replicate 43 (CHR ''v'')"

definition demo_app :: app_row where
  "demo_app = \<lparr>ap_id = 2, ap_user = 7, ap_name = ''shop'', ap_description = None, ap_website_url = None, ap_logo_url = None,
     ap_client_id = ''cl'', ap_client_secret_prefix = [], ap_redirect_uris = [''https://a''], ap_is_active = True,
     ap_created_at = 0, ap_updated_at = 0, ap_secret_hash = ''hsec''\<rparr>"

definition demo_oauth :: oauth_db where
  "demo_oauth = \<lparr>od_users = [\<lparr>au_id = 7, au_email = ''ana'', au_email_hmac = None, au_email_enc = None, au_username = ''ana'',
       au_password_hash = ''pw'', au_role = ''USER'', au_two_factor = False, au_merchant_status = ''APPROVED'', au_created_at = 0,
       au_last_login_at = None, au_erased_at = None\<rparr>],
     od_apps = [demo_app],
     od_codes = [\<lparr>oc_code = ''sats_code_x'', oc_app = 2, oc_user = 7, oc_redirect_uri = ''https://a'', oc_scope = ''openid'',
       oc_state = None, oc_expires_at = 600, oc_used_at = None, oc_challenge = Some demo_verifier, oc_method = Some ''S256''\<rparr>],
     od_tokens = [\<lparr>ac_token = ''sats_tok_o'', ac_app = 2, ac_user = 7, ac_scope = ''openid'', ac_expires_at = 600, ac_revoked_at = None\<rparr>],
     od_consents = [], od_clock = 0, od_next_id = 8\<rparr>"

definition demo_body :: "TokenRequest option" where
  "demo_body = Some \<lparr>tq_grant_type = Some ''authorization_code'', tq_code = Some ''sats_code_x'', tq_client_id = Some ''cl'',
     tq_client_secret = Some ''sec'', tq_redirect_uri = Some ''https://a'', tq_code_verifier = Some demo_verifier\<rparr>"

definition demo_submit :: "string \<Rightarrow> AuthorizeSubmitRequest" where
  "demo_submit decision = \<lparr>sq_client_id = ''cl'', sq_redirect_uri = ''https://a'', sq_scope = None, sq_state = Some ''s'',
     sq_decision = decision, sq_code_challenge = Some demo_verifier, sq_code_challenge_method = None\<rparr>"

lemma trim_demo_verifier [simp]: "trim demo_verifier = demo_verifier" "length demo_verifier = 43" "demo_verifier \<noteq> []"
  by (simp_all add: demo_verifier_def trim_def is_space_def)

lemma demo_exchange: "\<exists>r s'. token_exchange demo_env id ''n'' None demo_body demo_oauth = (Inr r, s')"
  by (simp add: token_exchange_def basic_credentials_def demo_body_def or_empty_def exchange_authorization_code_def check_exchange_def
    find_client_def demo_oauth_def demo_app_def verify_hmac_hex_def hmac_hex_def hmac_hex_with_key_def demo_env_def demo_secrets_def
    ct_eq_str_def filled_def verify_pkce_s256_def issue_access_token_def app_exists_def user_exists_def mark_used_def Let_def)

lemma demo_uri: "is_safe_redirect_uri demo_parse ''https://a''"
  by (simp add: is_safe_redirect_uri_def demo_parse_def trim_def is_space_def byte_in_def)

lemma demo_client: "get_application_by_client_id demo_oauth ''cl'' = Inr (OauthApp.truncate demo_app)"
  by (simp add: get_application_by_client_id_def find_client_def demo_oauth_def demo_app_def)

lemma demo_allowed: "assert_redirect_uri_allowed demo_parse (ap_redirect_uris (OauthApp.truncate demo_app)) ''https://a'' = None"
  by (simp add: assert_redirect_uri_allowed_def demo_uri OauthApp.truncate_def demo_app_def)

lemma demo_approval: "\<exists>url s'. authorize_submit demo_parse [] ''m'' 7 (demo_submit ''approve'') demo_oauth = (Inr url, s')"
proof -
  have "normalize_challenge (Some demo_verifier) None = Inr (demo_verifier, ''S256'')"
    by (simp add: normalize_challenge_def filled_def demo_verifier_def is_unreserved_def is_ascii_alpha_def trim_def is_space_def upper_char_def)
  moreover have "\<exists>code s'. create_authorization_code ''m'' 2 7 ''https://a'' DEFAULT_SCOPE (Some ''s'') (Some demo_verifier) (Some ''S256'') demo_oauth =
      (Inr code, s')"
    by (simp add: create_authorization_code_def app_exists_def user_exists_def demo_app_def demo_oauth_def Let_def)
  then obtain code s' where
    "create_authorization_code ''m'' 2 7 ''https://a'' DEFAULT_SCOPE (Some ''s'') (Some demo_verifier) (Some ''S256'') demo_oauth = (Inr code, s')"
    by blast
  moreover have "ap_id (OauthApp.truncate demo_app) = 2" by (simp add: OauthApp.truncate_def demo_app_def)
  ultimately show ?thesis
    by (simp add: authorize_submit_def demo_submit_def demo_client demo_allowed del: url_encode.simps)
qed

lemma demo_denial: "\<exists>url s'. authorize_submit demo_parse [] ''m'' 7 (demo_submit ''deny'') demo_oauth = (Inr url, s')"
  by (simp add: authorize_submit_def demo_submit_def demo_client demo_allowed del: url_encode.simps)

end
