(* ===== verification/OauthFlow.thy ===== *)
theory OauthFlow
  imports OauthWeb
begin

text \<open>
  The claims about the OAuth server. \<open>oauth_step\<close> is one request handled on its own, \<open>oauth_run\<close> a sequence of them; the locale
  \<open>oauth_invariant\<close> is what an invariant of the store's operations has to keep so that every request keeps it, and is
  interpreted for used codes, revoked tokens and the registered redirect URIs.
\<close>

section \<open>Runs\<close>

text \<open>\<open>K\<close> are codes and tokens that the random values of the run do not hit.\<close>

inductive oauth_step :: "oauth_env \<Rightarrow> (string \<Rightarrow> parsed_uri option) \<Rightarrow> string set \<Rightarrow> oauth_db \<Rightarrow> oauth_db \<Rightarrow> bool" for W parse K where
  creates_app: "oauth_step W parse K s (snd (create_app W parse rid a b user q s))"
| updates_app: "oauth_step W parse K s (snd (update_app parse rid user app q s))"
| deletes_app: "oauth_step W parse K s (snd (delete_app rid user app s))"
| rotates_secret: "oauth_step W parse K s (snd (rotate_secret W rid rnd user app s))"
| authorizes: "''sats_code_'' @ rnd \<notin> K \<Longrightarrow> oauth_step W parse K s (snd (authorize_submit parse rid rnd user sq s))"
| exchanges: "''sats_tok_'' @ rnd \<notin> K \<Longrightarrow> oauth_step W parse K s (snd (token_exchange W id rnd header body s))"
| revokes_app: "oauth_step W parse K s (snd (revoke_authorized_app rid user app s))"
| oauth_ticks: "0 \<le> dt \<Longrightarrow> oauth_step W parse K s (s\<lparr>od_clock := od_clock s + dt\<rparr>)"

inductive oauth_run :: "oauth_env \<Rightarrow> (string \<Rightarrow> parsed_uri option) \<Rightarrow> string set \<Rightarrow> oauth_db \<Rightarrow> oauth_db \<Rightarrow> bool" for W parse K where
  oauth_start: "oauth_run W parse K s s"
| oauth_next: "oauth_run W parse K s s' \<Longrightarrow> oauth_step W parse K s' s'' \<Longrightarrow> oauth_run W parse K s s''"

locale oauth_invariant =
  fixes W :: oauth_env and parse :: "string \<Rightarrow> parsed_uri option" and K :: "string set" and I :: "oauth_db \<Rightarrow> bool"
  assumes app_created: "validate_redirect_uris parse raw = Inr uris \<Longrightarrow> I s \<Longrightarrow> I (snd (create_application W a b u n d w l uris s))"
    and app_updated: "validate_redirect_uris parse raw = Inr uris \<Longrightarrow> I s \<Longrightarrow> I (snd (update_application u i n d w l uris s))"
    and app_deleted: "I s \<Longrightarrow> I (snd (delete_application u i s))"
    and secret_rotated: "I s \<Longrightarrow> I (snd (rotate_client_secret W b u i s))"
    and code_created: "''sats_code_'' @ b \<notin> K \<Longrightarrow> I s \<Longrightarrow> I (snd (create_authorization_code b i u uri sc st ch m s))"
    and token_issued: "''sats_tok_'' @ b \<notin> K \<Longrightarrow> I s \<Longrightarrow> I (snd (issue_access_token b ar cr s))"
    and consent_revoked: "I s \<Longrightarrow> I (snd (revoke_user_consent u i s))"
    and time_passed: "I s \<Longrightarrow> 0 \<le> dt \<Longrightarrow> I (s\<lparr>od_clock := od_clock s + dt\<rparr>)"
begin

lemma invariant_or_internal: "I (snd r) \<Longrightarrow> I (snd (or_internal rid r))"
  by (cases r) (auto simp: or_internal_def split: sum.splits)

lemma invariant_exchange:
  "''sats_tok_'' @ rnd \<notin> K \<Longrightarrow> I s \<Longrightarrow> I (snd (exchange_authorization_code W id rnd code client secret uri verifier s))"
  by (auto simp: exchange_authorization_code_def token_issued split: sum.splits)

lemma invariant_token_exchange:
  assumes "''sats_tok_'' @ rnd \<notin> K" and "I s"
  shows "I (snd (token_exchange W id rnd header body s))"
  unfolding token_exchange_def Let_def
  using invariant_exchange [OF assms] assms(2) by (auto split: prod.splits sum.splits) (metis snd_conv)+

lemma invariant_submit:
  assumes "''sats_code_'' @ rnd \<notin> K" and "I s"
  shows "I (snd (authorize_submit parse rid rnd user sq s))"
  using assms(2) code_created [OF assms]
  by (auto simp: authorize_submit_def Let_def split: sum.splits option.splits prod.splits) (metis snd_conv)+

lemma invariant_step:
  assumes "oauth_step W parse K s s'" and "I s"
  shows "I s'"
  using assms
proof cases
  case (creates_app rid a b user q)
  then show ?thesis using assms(2)
    by (auto simp: create_app_def intro: invariant_or_internal app_created split: sum.splits)
next
  case (updates_app rid user app q)
  then show ?thesis using assms(2) by (auto simp: update_app_def intro: invariant_or_internal app_updated split: sum.splits)
qed (auto simp: delete_app_def rotate_secret_def revoke_authorized_app_def
  intro: invariant_or_internal app_deleted secret_rotated consent_revoked invariant_submit invariant_token_exchange time_passed assms(2))

lemma invariant_run: "oauth_run W parse K s s' \<Longrightarrow> I s \<Longrightarrow> I s'"
  by (induction rule: oauth_run.induct) (auto intro: invariant_step)

end

section \<open>The invariants\<close>

definition code_used :: "string \<Rightarrow> oauth_db \<Rightarrow> bool" where
  "code_used code s \<longleftrightarrow> (\<forall>c\<in>set (od_codes s). oc_code c = code \<longrightarrow> oc_used_at c \<noteq> None)"

definition token_revoked :: "string \<Rightarrow> oauth_db \<Rightarrow> bool" where
  "token_revoked token s \<longleftrightarrow> (\<forall>t\<in>set (od_tokens s). ac_token t = token \<longrightarrow> ac_revoked_at t \<noteq> None)"

definition safe_uris :: "(string \<Rightarrow> parsed_uri option) \<Rightarrow> string list \<Rightarrow> bool" where
  "safe_uris parse uris \<longleftrightarrow> uris \<noteq> [] \<and> distinct uris \<and> (\<forall>u\<in>set uris. is_safe_redirect_uri parse u)"

definition apps_safe :: "(string \<Rightarrow> parsed_uri option) \<Rightarrow> oauth_db \<Rightarrow> bool" where
  "apps_safe parse s \<longleftrightarrow> (\<forall>a\<in>set (od_apps s). safe_uris parse (ap_redirect_uris a))"

lemma check_uris_safe:
  "check_uris parse out uris = Inr res \<Longrightarrow> distinct out \<Longrightarrow> \<forall>u\<in>set out. is_safe_redirect_uri parse u \<Longrightarrow>
   distinct res \<and> (\<forall>u\<in>set res. is_safe_redirect_uri parse u)"
proof (induction uris arbitrary: out)
  case (Cons raw uris)
  let ?out = "if trim raw \<in> set out then out else out @ [trim raw]"
  show ?case
  proof (cases "trim raw = []")
    case True
    then show ?thesis using Cons.IH [of out] Cons.prems by simp
  next
    case False
    then have safe: "is_safe_redirect_uri parse (trim raw)" and rest: "check_uris parse ?out uris = Inr res"
      using Cons.prems(1) by (simp_all add: Let_def split: if_split_asm)
    have "distinct ?out" "\<forall>u\<in>set ?out. is_safe_redirect_uri parse u" using Cons.prems(2,3) safe by auto
    from Cons.IH [OF rest this] show ?thesis .
  qed
qed simp

lemma validate_safe: "validate_redirect_uris parse uris = Inr res \<Longrightarrow> safe_uris parse res"
  using check_uris_safe [of parse "[]" uris] by (simp add: validate_redirect_uris_def safe_uris_def split: sum.splits if_splits)

lemma create_application_frame [simp]:
  "od_codes (snd (create_application W a b u n d w l uris s)) = od_codes s"
  "od_tokens (snd (create_application W a b u n d w l uris s)) = od_tokens s"
  by (simp_all add: create_application_def Let_def)

lemma update_own_app_frame [simp]:
  "od_codes (snd (update_own_app u i f s)) = od_codes s" "od_tokens (snd (update_own_app u i f s)) = od_tokens s"
  by (simp_all add: update_own_app_def Let_def split: option.splits)

lemma create_code_frame [simp]:
  "od_tokens (snd (create_authorization_code b i u uri sc st ch m s)) = od_tokens s"
  "od_apps (snd (create_authorization_code b i u uri sc st ch m s)) = od_apps s"
  by (simp_all add: create_authorization_code_def Let_def)

lemma mark_used_frame [simp]: "od_tokens (mark_used k s) = od_tokens s" "od_apps (mark_used k s) = od_apps s"
  by (simp_all add: mark_used_def)

lemma issue_frame [simp]:
  "od_apps (snd (issue_access_token b ar cr s)) = od_apps s"
  "od_codes (snd (issue_access_token b ar cr s)) = od_codes (mark_used (oc_code cr) s)"
  by (simp_all add: issue_access_token_def Let_def)

lemma revoke_consent_frame [simp]:
  "od_apps (snd (revoke_user_consent u i s)) = od_apps s" "od_codes (snd (revoke_user_consent u i s)) = od_codes s"
  by (simp_all add: revoke_user_consent_def)

lemma app_writes_frames [simp]:
  "od_codes (snd (update_application u i n d w l uris s)) = od_codes s"
  "od_tokens (snd (update_application u i n d w l uris s)) = od_tokens s"
  "od_codes (snd (rotate_client_secret W b u i s)) = od_codes s" "od_tokens (snd (rotate_client_secret W b u i s)) = od_tokens s"
  by (simp_all add: update_application_def rotate_client_secret_def Let_def split: prod.splits sum.splits)
    (metis snd_conv update_own_app_frame)+

lemma deleted_rows:
  "set (od_codes (snd (delete_application u i s))) \<subseteq> set (od_codes s)" "set (od_tokens (snd (delete_application u i s))) \<subseteq> set (od_tokens s)"
  "set (od_apps (snd (delete_application u i s))) \<subseteq> set (od_apps s)"
  by (auto simp: delete_application_def)

lemma created_code_rows:
  "c \<in> set (od_codes (snd (create_authorization_code b i u uri sc st ch m s))) \<Longrightarrow> c \<in> set (od_codes s) \<or> oc_code c = ''sats_code_'' @ b"
  by (auto simp: create_authorization_code_def record_consent_def Let_def split: if_splits)

lemma issued_token_rows:
  "t \<in> set (od_tokens (snd (issue_access_token b ar cr s))) \<Longrightarrow> t \<in> set (od_tokens s) \<or> ac_token t = ''sats_tok_'' @ b"
  by (auto simp: issue_access_token_def mark_used_def Let_def split: if_splits)

lemma update_where_None:
  assumes "r \<in> set (update_where p f rows)" and "g r = None" and "\<And>x. g (f x) \<noteq> None"
  shows "r \<in> set rows \<and> \<not> p r"
  using assms unfolding in_set_update_where by metis

lemma marked_rows: "c \<in> set (od_codes (mark_used k s)) \<Longrightarrow> oc_used_at c = None \<Longrightarrow> c \<in> set (od_codes s) \<and> oc_code c \<noteq> k"
  using update_where_None [where g = oc_used_at] by (fastforce simp: mark_used_def)

lemma revoked_rows:
  assumes "t \<in> set (od_tokens (snd (revoke_user_consent u i s)))" and "ac_revoked_at t = None"
  shows "t \<in> set (od_tokens s) \<and> \<not> (ac_user t = u \<and> ac_app t = i)"
  using update_where_None [where g = ac_revoked_at, OF assms(1) [unfolded revoke_user_consent_def, simplified] assms(2)] assms(2) by auto

lemma app_rows:
  "a \<in> set (od_apps (snd (create_application W r t u n d w l uris s))) \<Longrightarrow> a \<in> set (od_apps s) \<or> ap_redirect_uris a = uris"
  "a \<in> set (od_apps (snd (update_application u i n d w l uris s))) \<Longrightarrow> a \<in> set (od_apps s) \<or> ap_redirect_uris a = uris"
  "a \<in> set (od_apps (snd (rotate_client_secret W r u i s))) \<Longrightarrow> \<exists>x\<in>set (od_apps s). ap_redirect_uris a = ap_redirect_uris x"
  by (auto simp: create_application_def update_application_def rotate_client_secret_def update_own_app_def in_set_update_where
    Let_def split: if_splits option.splits prod.splits)

interpretation used_code: oauth_invariant W parse "{code}" "code_used code" for W parse code
  by unfold_locales
    (auto simp: code_used_def dest: created_code_rows marked_rows subsetD [OF deleted_rows(1)])

interpretation dead_token: oauth_invariant W parse "{token}" "token_revoked token" for W parse token
  by unfold_locales
    (auto simp: token_revoked_def dest: issued_token_rows revoked_rows subsetD [OF deleted_rows(2)])

interpretation safe_apps: oauth_invariant W parse K "apps_safe parse" for W parse K
  by unfold_locales
    (auto simp: apps_safe_def dest!: app_rows subsetD [OF deleted_rows(3)] dest: validate_safe)

section \<open>Codes\<close>

definition requested_code :: "TokenRequest option \<Rightarrow> string" where
  "requested_code body = or_empty (tq_code (case body of None \<Rightarrow> empty_token_request | Some b \<Rightarrow> b))"

text \<open>The request with the credentials of the header in place.\<close>

definition token_request :: "oauth_env \<Rightarrow> string option \<Rightarrow> TokenRequest option \<Rightarrow> TokenRequest" where
  "token_request W header body =
     (let req = (case body of None \<Rightarrow> empty_token_request | Some b \<Rightarrow> b) in
      case basic_credentials W header of
        None \<Rightarrow> req | Some (cid, csec) \<Rightarrow> req\<lparr>tq_client_id := Some cid, tq_client_secret := Some csec\<rparr>)"

lemma token_request_code [simp]: "or_empty (tq_code (token_request W header body)) = requested_code body"
  by (simp add: token_request_def requested_code_def Let_def split: option.splits)

definition exchange_checked :: "oauth_env \<Rightarrow> string option \<Rightarrow> TokenRequest option \<Rightarrow> oauth_db \<Rightarrow> OauthError + app_row \<times> code_row" where
  "exchange_checked W header body s =
     (let req = token_request W header body in
      check_exchange W (requested_code body) (or_empty (tq_client_id req)) (or_empty (tq_client_secret req))
        (or_empty (tq_redirect_uri req)) (tq_code_verifier req) s)"

definition well_formed_exchange :: "oauth_env \<Rightarrow> string option \<Rightarrow> TokenRequest option \<Rightarrow> bool" where
  "well_formed_exchange W header body \<longleftrightarrow>
     (let req = token_request W header body in
      or_empty (tq_grant_type req) = ''authorization_code'' \<and> requested_code body \<noteq> [] \<and> or_empty (tq_client_id req) \<noteq> [] \<and>
      or_empty (tq_client_secret req) \<noteq> [])"

definition token_response :: "string \<times> int \<times> string \<Rightarrow> TokenResponse" where
  "token_response t = \<lparr>tr_access_token = fst t, tr_token_type = ''Bearer'', tr_expires_in = fst (snd t), tr_scope = snd (snd t)\<rparr>"

lemma token_exchange_Inr:
  "token_exchange W gap rnd header body s = (Inr r, s') \<longleftrightarrow>
     well_formed_exchange W header body \<and>
     (\<exists>a c t. exchange_checked W header body s = Inr (a, c) \<and> issue_access_token rnd a c (gap s) = (Inr t, s') \<and> r = token_response t)"
proof -
  have req: "token_exchange W gap rnd header body s =
     (let req = token_request W header body; code = or_empty (tq_code req); client = or_empty (tq_client_id req);
          secret = or_empty (tq_client_secret req) in
      if or_empty (tq_grant_type req) \<noteq> ''authorization_code''
      then (Inl (oauth_error 400 ''unsupported_grant_type'' ''Only grant_type=authorization_code is supported''), s)
      else if code = [] \<or> client = [] \<or> secret = []
      then (Inl (oauth_error 400 ''invalid_request'' ''Missing required parameters (code, client_id, client_secret)''), s)
      else
        (case exchange_authorization_code W gap rnd code client secret (or_empty (tq_redirect_uri req)) (tq_code_verifier req) s of
           (Inl e, s') \<Rightarrow> (Inl (oauth_error 400 ''invalid_grant'' (oauth_error_str e)), s')
         | (Inr (token, expires_in, scope), s') \<Rightarrow>
             (Inr \<lparr>tr_access_token = token, tr_token_type = ''Bearer'', tr_expires_in = expires_in, tr_scope = scope\<rparr>, s')))"
    by (simp only: token_exchange_def token_request_def Let_def)
  show ?thesis
    unfolding req Let_def exchange_authorization_code_def
    by (auto simp: well_formed_exchange_def exchange_checked_def token_response_def Let_def split: sum.splits prod.splits)
qed

lemma check_exchange_Inr:
  assumes "check_exchange W code client secret uri verifier s = Inr (a, c)"
  shows "find_client s client = Some a \<and> ap_is_active a \<and>
    verify_hmac_hex (oe_prims W) (oe_secrets W) secret (ap_secret_hash a) \<and>
    List.find (\<lambda>c. oc_code c = code \<and> oc_app c = ap_id a) (od_codes s) = Some c \<and>
    oc_used_at c = None \<and> od_clock s \<le> oc_expires_at c \<and> oc_redirect_uri c = uri \<and>
    (\<exists>challenge v. oc_challenge c = Some challenge \<and> verifier = Some v \<and> verify_pkce_s256 W (trim v) challenge)"
  using assms
  by (simp add: check_exchange_def filled_def split: option.splits if_splits)

lemma issue_Inr:
  assumes "issue_access_token rnd a c s = (Inr t, s')"
  shows "t = (''sats_tok_'' @ rnd, TOKEN_TTL_SECS, oc_scope c)"
    and "s' = (mark_used (oc_code c) s)\<lparr>od_tokens := od_tokens s @ [\<lparr>ac_token = ''sats_tok_'' @ rnd, ac_app = ap_id a, ac_user = oc_user c,
      ac_scope = oc_scope c, ac_expires_at = od_clock s + TOKEN_TTL_SECS * 1000000, ac_revoked_at = None\<rparr>]\<rparr>"
    and "user_exists s (oc_user c)" and "app_exists s (ap_id a)" and "\<forall>t\<in>set (od_tokens s). ac_token t \<noteq> ''sats_tok_'' @ rnd"
  using assms by (auto simp: issue_access_token_def Let_def mark_used_def user_exists_def app_exists_def split: if_splits)

lemma access_token_issued:
  assumes "user_exists s (oc_user c)" and "app_exists s (ap_id a)" and "\<forall>t\<in>set (od_tokens s). ac_token t \<noteq> ''sats_tok_'' @ rnd"
  shows "\<exists>s'. issue_access_token rnd a c s = (Inr (''sats_tok_'' @ rnd, TOKEN_TTL_SECS, oc_scope c), s')"
  using assms by (auto simp: issue_access_token_def Let_def mark_used_def user_exists_def app_exists_def)

text \<open>
  C38. A token is issued only for a whole proof: the client is active and knows its secret, the code is its own, unused and
  not expired, the redirect URI is the one of the authorization, and the verifier hashes to the challenge (S256). The code
  is then used and the one new token is the code's user's, with the code's scope, for 30 days.\<close>

theorem token_needs_code_secret_and_verifier:
  assumes "token_exchange W id rnd header body s = (Inr r, s')"
  shows "\<exists>(a :: app_row) c challenge v.
    a \<in> set (od_apps s) \<and> ap_is_active a \<and> c \<in> set (od_codes s) \<and> oc_code c = requested_code body \<and> oc_app c = ap_id a \<and>
    verify_hmac_hex (oe_prims W) (oe_secrets W) (or_empty (tq_client_secret (token_request W header body))) (ap_secret_hash a) \<and>
    oc_used_at c = None \<and> od_clock s \<le> oc_expires_at c \<and>
    oc_redirect_uri c = or_empty (tq_redirect_uri (token_request W header body)) \<and>
    oc_challenge c = Some challenge \<and> oe_b64url W (sha256 (oe_prims W) v) = challenge \<and> 43 \<le> length v \<and> length v \<le> 128 \<and>
    s' = (mark_used (oc_code c) s)\<lparr>od_tokens := od_tokens s @ [\<lparr>ac_token = tr_access_token r, ac_app = oc_app c, ac_user = oc_user c,
      ac_scope = oc_scope c, ac_expires_at = od_clock s + 30 * 86400 * 1000000, ac_revoked_at = None\<rparr>]\<rparr>"
proof -
  obtain a c t where ch: "exchange_checked W header body s = Inr (a, c)" and iss: "issue_access_token rnd a c s = (Inr t, s')"
    and r: "r = token_response t"
    using assms by (auto simp: token_exchange_Inr)
  note k = check_exchange_Inr [OF ch [unfolded exchange_checked_def Let_def]]
  obtain challenge v where pk: "oc_challenge c = Some challenge" "verify_pkce_s256 W (trim v) challenge" using k by blast
  have "c \<in> set (od_codes s)" "oc_code c = requested_code body" "oc_app c = ap_id a"
    using k find_row [of _ "od_codes s" c] by blast+
  moreover have "a \<in> set (od_apps s)" using k find_row [of _ "od_apps s" a] by (auto simp: find_client_def)
  moreover have "tr_access_token r = ''sats_tok_'' @ rnd" using issue_Inr(1) [OF iss] r by (simp add: token_response_def)
  moreover have "oe_b64url W (sha256 (oe_prims W) (trim v)) = challenge" "43 \<le> length (trim v)" "length (trim v) \<le> 128"
    using pk(2) by (auto simp: verify_pkce_s256_def ct_eq_str_def split: if_splits)
  ultimately show ?thesis
    using k pk(1) issue_Inr(2) [OF iss]
    by (intro exI [of _ a] exI [of _ c] exI [of _ challenge] exI [of _ "trim v"]) (simp add: TOKEN_TTL_SECS_def)
qed

theorem token_needs_code_secret_and_verifier_witness:
  "\<exists>(a :: app_row) c challenge v. a \<in> set (od_apps demo_oauth) \<and> c \<in> set (od_codes demo_oauth) \<and> oc_code c = requested_code demo_body \<and>
    oc_challenge c = Some challenge \<and> oe_b64url demo_env (sha256 (oe_prims demo_env) v) = challenge \<and> 43 \<le> length v"
proof -
  obtain r s' where "token_exchange demo_env id ''n'' None demo_body demo_oauth = (Inr r, s')" using demo_exchange by blast
  from token_needs_code_secret_and_verifier [OF this] show ?thesis by blast
qed

text \<open>
  C35. An authorization code is good for one token: after an exchange has succeeded, whatever requests follow and whoever
  sends the code again with whatever credentials, the exchange is refused.\<close>

theorem code_exchanged_once:
  assumes "token_exchange W id rnd header body s = (Inr r, s1)" and "oauth_run W parse {requested_code body} s1 s2"
    and "requested_code body' = requested_code body"
  shows "\<exists>e. fst (token_exchange W gap rnd' header' body' s2) = Inl e"
proof -
  obtain a c t where ch: "exchange_checked W header body s = Inr (a, c)" and iss: "issue_access_token rnd a c s = (Inr t, s1)"
    using assms(1) by (auto simp: token_exchange_Inr)
  have "oc_code c = requested_code body"
    using check_exchange_Inr [OF ch [unfolded exchange_checked_def Let_def]] find_row [of _ "od_codes s" c] by blast
  then have "code_used (requested_code body) s1"
    using marked_rows [of _ "requested_code body" s] by (auto simp: code_used_def issue_Inr(2) [OF iss] mark_used_def)
  then have used: "code_used (requested_code body) s2" by (rule used_code.invariant_run [OF assms(2)])
  show ?thesis
  proof (cases "token_exchange W gap rnd' header' body' s2")
    case (Pair x t')
    show ?thesis
    proof (cases x)
      case (Inr r')
      then obtain a' c' where "exchange_checked W header' body' s2 = Inr (a', c')"
        using Pair by (auto simp: token_exchange_Inr)
      from check_exchange_Inr [OF this [unfolded exchange_checked_def Let_def]] find_row [of _ "od_codes s2" c']
      have "c' \<in> set (od_codes s2)" "oc_code c' = requested_code body'" "oc_used_at c' = None" by blast+
      then have False using used assms(3) by (auto simp: code_used_def)
      then show ?thesis ..
    qed (use Pair in simp)
  qed
qed

theorem code_exchanged_once_witness:
  "\<exists>e. fst (token_exchange demo_env id ''p'' None demo_body
     (snd (revoke_authorized_app [] 7 2 (snd (token_exchange demo_env id ''n'' None demo_body demo_oauth))))) = Inl e"
proof -
  obtain r s1 where x: "token_exchange demo_env id ''n'' None demo_body demo_oauth = (Inr r, s1)" using demo_exchange by blast
  have "oauth_run demo_env demo_parse {requested_code demo_body} s1 (snd (revoke_authorized_app [] 7 2 s1))"
    by (rule oauth_next [OF oauth_start revokes_app])
  from code_exchanged_once [OF x this refl] show ?thesis unfolding x snd_conv by blast
qed

text \<open>
  The mark on the code is not conditional: two exchanges of one code that both check it before either marks it both
  succeed, with two different tokens that are live together.\<close>

theorem code_exchanged_twice_in_parallel:
  assumes "token_exchange W id rnd header body s = (Inr r, s1)" and "\<forall>t\<in>set (od_tokens s1). ac_token t \<noteq> ''sats_tok_'' @ rnd'"
  shows "\<exists>r' s2. token_exchange W (\<lambda>_. s1) rnd' header body s = (Inr r', s2) \<and> tr_access_token r' \<noteq> tr_access_token r \<and>
    (\<exists>t\<in>set (od_tokens s2). ac_token t = tr_access_token r \<and> ac_revoked_at t = None) \<and>
    (\<exists>t\<in>set (od_tokens s2). ac_token t = tr_access_token r' \<and> ac_revoked_at t = None)"
proof -
  obtain a c t where w: "well_formed_exchange W header body" and ch: "exchange_checked W header body s = Inr (a, c)"
    and iss: "issue_access_token rnd a c s = (Inr t, s1)" and r: "r = token_response t"
    using assms(1) by (auto simp: token_exchange_Inr)
  note one = issue_Inr [OF iss]
  have "user_exists s1 (oc_user c)" "app_exists s1 (ap_id a)"
    using one by (auto simp: user_exists_def app_exists_def mark_used_def)
  from access_token_issued [OF this assms(2)] obtain s2 where two: "issue_access_token rnd' a c s1 = (Inr (''sats_tok_'' @ rnd', TOKEN_TTL_SECS, oc_scope c), s2)"
    by blast
  have r1: "tr_access_token r = ''sats_tok_'' @ rnd" using one(1) r by (simp add: token_response_def)
  have "rnd' \<noteq> rnd" using assms(2) one(2) by auto
  have ex: "token_exchange W (\<lambda>_. s1) rnd' header body s =
      (Inr (token_response (''sats_tok_'' @ rnd', TOKEN_TTL_SECS, oc_scope c)), s2)"
    using w ch two by (auto simp: token_exchange_Inr)
  show ?thesis
    using \<open>rnd' \<noteq> rnd\<close> r1
    by (intro exI [of _ "token_response (''sats_tok_'' @ rnd', TOKEN_TTL_SECS, oc_scope c)"] exI [of _ s2] conjI ex)
      (simp_all add: token_response_def issue_Inr(2) [OF two] one(2))
qed

lemma demo_exchange_tokens:
  assumes "token_exchange demo_env id ''n'' None demo_body demo_oauth = (Inr r, s1)"
  shows "\<forall>t\<in>set (od_tokens s1). ac_token t \<noteq> ''sats_tok_'' @ ''p''"
  using assms by (auto simp: token_exchange_Inr demo_oauth_def dest!: issue_Inr(2))

theorem code_exchanged_twice_in_parallel_witness:
  "\<exists>r s1 r' s2. token_exchange demo_env id ''n'' None demo_body demo_oauth = (Inr r, s1) \<and>
     token_exchange demo_env (\<lambda>_. s1) ''p'' None demo_body demo_oauth = (Inr r', s2) \<and> tr_access_token r' \<noteq> tr_access_token r"
proof -
  obtain r s1 where x: "token_exchange demo_env id ''n'' None demo_body demo_oauth = (Inr r, s1)" using demo_exchange by blast
  from code_exchanged_twice_in_parallel [OF x demo_exchange_tokens [OF x]] x show ?thesis by blast
qed

section \<open>Revocation\<close>

lemma revoke_authorized_state: "snd (revoke_authorized_app rid user app s) = snd (revoke_user_consent user app s)"
  by (simp add: revoke_authorized_app_def or_internal_def revoke_user_consent_def)

lemma find_fresh: "\<forall>x\<in>set xs. \<not> p x \<Longrightarrow> p y \<Longrightarrow> List.find p (xs @ [y]) = Some y"
  by (induction xs) auto

text \<open>
  Revoking an application ends its tokens: a token of that user and application that existed is refused from then
  on, along every run of requests.\<close>

theorem revoked_tokens_stay_refused:
  assumes "\<forall>t\<in>set (od_tokens s). ac_token t = token \<longrightarrow> ac_user t = user \<and> ac_app t = app"
    and "oauth_run W parse {token} (snd (revoke_authorized_app rid user app s)) s2"
  shows "get_user_by_oauth_token s2 token = Inl OauthInvalidToken"
proof -
  have "token_revoked token (snd (revoke_authorized_app rid user app s))"
    unfolding revoke_authorized_state token_revoked_def using assms(1) revoked_rows [of _ user app s] by blast
  then have dead: "token_revoked token s2" by (rule dead_token.invariant_run [OF assms(2)])
  show ?thesis
  proof (cases "List.find (\<lambda>t. ac_token t = token) (od_tokens s2)")
    case (Some t)
    then have "ac_revoked_at t \<noteq> None" using dead find_row [OF Some] by (simp add: token_revoked_def)
    then show ?thesis using Some by (simp add: get_user_by_oauth_token_def split: option.splits)
  qed (simp add: get_user_by_oauth_token_def)
qed

theorem revoked_tokens_stay_refused_witness:
  "get_user_by_oauth_token (snd (revoke_authorized_app [] 7 2 demo_oauth)) ''sats_tok_o'' = Inl OauthInvalidToken"
  by (rule revoked_tokens_stay_refused [OF _ oauth_start]) (simp add: demo_oauth_def)

text \<open>
  C39. Revoking an application does not end the codes it has been given: a code that could be exchanged before the user
  revoked the application is exchanged after it, for a token that reads the account.\<close>

theorem revoked_app_exchanges_its_code:
  assumes "token_exchange W id rnd header body s = (Inr r, s1)"
  shows "\<exists>s2 info. token_exchange W id rnd header body (snd (revoke_authorized_app rid user app s)) = (Inr r, s2) \<and>
    get_user_by_oauth_token s2 (tr_access_token r) = Inr info"
proof -
  let ?s = "snd (revoke_authorized_app rid user app s)"
  note s = revoke_authorized_state [of rid user app s]
  obtain a c t where w: "well_formed_exchange W header body" and ch: "exchange_checked W header body s = Inr (a, c)"
    and iss: "issue_access_token rnd a c s = (Inr t, s1)" and r: "r = token_response t"
    using assms by (auto simp: token_exchange_Inr)
  note one = issue_Inr [OF iss]
  have same: "od_apps ?s = od_apps s" "od_codes ?s = od_codes s" "od_clock ?s = od_clock s" "od_users ?s = od_users s"
    unfolding s by (simp_all add: revoke_user_consent_def)
  have "map ac_token (od_tokens ?s) = map ac_token (od_tokens s)"
    unfolding s by (simp add: revoke_user_consent_def map_update_where)
  then have "ac_token ` set (od_tokens ?s) = ac_token ` set (od_tokens s)" by (metis set_map)
  then have fresh: "\<forall>t\<in>set (od_tokens ?s). ac_token t \<noteq> ''sats_tok_'' @ rnd" using one(5) by (metis imageE imageI)
  have "exchange_checked W header body ?s = Inr (a, c)"
    using ch unfolding exchange_checked_def check_exchange_def find_client_def same .
  moreover have ex: "user_exists ?s (oc_user c)" "app_exists ?s (ap_id a)"
    using one(3,4) by (simp_all add: user_exists_def app_exists_def same)
  obtain s2 where two: "issue_access_token rnd a c ?s = (Inr (''sats_tok_'' @ rnd, TOKEN_TTL_SECS, oc_scope c), s2)"
    using access_token_issued [OF ex fresh] by blast
  ultimately have "token_exchange W id rnd header body ?s = (Inr r, s2)" using w r one(1) two by (auto simp: token_exchange_Inr)
  moreover have "\<exists>info. get_user_by_oauth_token s2 (tr_access_token r) = Inr info"
  proof -
    obtain u where u: "List.find (\<lambda>u. au_id u = oc_user c) (od_users s) = Some u"
      using one(3) by (cases "List.find (\<lambda>u. au_id u = oc_user c) (od_users s)") (auto simp: user_exists_def find_None_iff)
    have tok: "tr_access_token r = ''sats_tok_'' @ rnd" using r one(1) by (simp add: token_response_def)
    have "od_tokens s2 = od_tokens ?s @ [\<lparr>ac_token = tr_access_token r, ac_app = ap_id a, ac_user = oc_user c, ac_scope = oc_scope c,
        ac_expires_at = od_clock ?s + TOKEN_TTL_SECS * 1000000, ac_revoked_at = None\<rparr>]" "od_clock s2 = od_clock ?s" "od_users s2 = od_users ?s"
      by (simp_all add: issue_Inr(2) [OF two] tok mark_used_def)
    moreover have "\<forall>t\<in>set (od_tokens ?s). \<not> ac_token t = tr_access_token r" unfolding tok by (rule fresh)
    ultimately show ?thesis
      using u by (simp add: get_user_by_oauth_token_def find_fresh same TOKEN_TTL_SECS_def)
  qed
  ultimately show ?thesis by blast
qed

theorem revoked_app_exchanges_its_code_witness:
  "\<exists>r s2 info. token_exchange demo_env id ''n'' None demo_body (snd (revoke_authorized_app [] 7 2 demo_oauth)) = (Inr r, s2) \<and>
    get_user_by_oauth_token s2 (tr_access_token r) = Inr info"
proof -
  obtain r s1 where x: "token_exchange demo_env id ''n'' None demo_body demo_oauth = (Inr r, s1)" using demo_exchange by blast
  from revoked_app_exchanges_its_code [OF x] show ?thesis by blast
qed

end
