(* ===== verification/OauthRedirect.thy ===== *)
theory OauthRedirect
  imports OauthWeb
begin

text \<open>
  What the answers of the OAuth server's authorization endpoint lead to: registered and safe URIs only, texts that decode to
  what was encoded, the exact form of the redirect, and the query of a refusal as a client reads it.
\<close>

section \<open>Percent-encoding\<close>

text \<open>The reference reading of a percent-encoded text, and of a query.\<close>

definition hex_digit_value :: "char \<Rightarrow> nat" where
  "hex_digit_value c = (let k = of_char c :: nat in if k < 58 then k - 48 else k - 55)"

fun url_decode :: "string \<Rightarrow> string" where
  "url_decode (c # a # b # cs) =
    (if c = CHR ''%'' then char_of (hex_digit_value a * 16 + hex_digit_value b) # url_decode cs else c # url_decode (a # b # cs))"
| "url_decode cs = cs"

lemma hex_upper_value: "d < 16 \<Longrightarrow> hex_digit_value (hex_upper d) = d"
  by (simp add: hex_digit_value_def hex_upper_def Let_def)

lemma url_decode_plain: "c \<noteq> CHR ''%'' \<Longrightarrow> url_decode (c # cs) = c # url_decode cs"
  by (cases cs rule: url_decode.cases) auto

lemma unreserved_plain: "is_unreserved c \<Longrightarrow> c \<noteq> CHR ''%'' \<and> c \<noteq> CHR ''&'' \<and> c \<noteq> CHR ''=''"
  by (auto simp: is_unreserved_def is_ascii_alpha_def is_ascii_digit_def Let_def)

lemma hex_upper_unreserved: "d < 16 \<Longrightarrow> is_unreserved (hex_upper d)"
  by (auto simp: is_unreserved_def is_ascii_alpha_def is_ascii_digit_def hex_upper_def Let_def)

lemma char_nibbles: "(of_char c :: nat) div 16 < 16"
proof -
  have "(of_char c :: nat) < 16 * 16" by simp
  then show ?thesis by (rule less_mult_imp_div_less)
qed

lemma url_encode_chars: "c \<in> set (url_encode t) \<Longrightarrow> is_unreserved c \<or> c = CHR ''%''"
  using char_nibbles by (induction t) (auto simp: hex_upper_unreserved split: if_splits)

lemma url_encode_plain: "CHR ''&'' \<notin> set (url_encode t)" "CHR ''='' \<notin> set (url_encode t)"
  using url_encode_chars unreserved_plain by fastforce+

text \<open>
  \<open>url_encode\<close> loses nothing and needs no quoting: percent-decoding gives the text back, and the encoding has only
  unreserved characters and percent signs, so it is one value of a query.\<close>

theorem url_encode_roundtrip:
  "url_decode (url_encode t) = t \<and> set (url_encode t) \<subseteq> {c. is_unreserved c} \<union> {CHR ''%''}"
proof (induction t)
  case (Cons c cs)
  let ?k = "of_char c :: nat"
  have "char_of (?k div 16 * 16 + ?k mod 16) = c" by simp
  then show ?case
    using Cons unreserved_plain [of c] char_nibbles [of c]
    by (auto simp: url_decode_plain hex_upper_value hex_upper_unreserved)
qed simp

section \<open>Redirects\<close>

declare url_encode.simps [simp del]

text \<open>
  The query of a redirect, written out: it is set off by a question mark, or by an ampersand when the
  URI has a query already, and the state of the caller stands in it percent-encoded only.
\<close>

definition carries_state :: "string option \<Rightarrow> string \<Rightarrow> bool" where
  "carries_state st param \<longleftrightarrow>
     (case st of None \<Rightarrow> param = []
      | Some t \<Rightarrow> \<exists>v. param = ''&state='' @ v \<and> url_decode v = t \<and> set v \<subseteq> {c. is_unreserved c} \<union> {CHR ''%''})"

lemma state_param_carries: "carries_state st (state_param st)"
  using url_encode_roundtrip by (auto simp: carries_state_def state_param_def split: option.split)

lemma refusal_text: "url_encode ''User denied authorization'' = ''User%20denied%20authorization''"
  by code_simp

text \<open>
  C40. No open redirect: the answer to an authorization leads to a URI that is safe (https, or http on the own machine, no
  credentials) and registered for an active application of that client id. It is exactly that URI, a question mark (an
  ampersand when the URI has a query) and a query: for an approval the code and the state, for a refusal the state and the
  fixed error text, the state in percent-encoding only, so that nothing the caller sends can change the host or the path. A
  refusal stores nothing; an approval stores one code, for the caller, that application and that URI, with a challenge, and
  the answer carries that code.\<close>

theorem authorize_redirects_to_registered_uri:
  assumes "authorize_submit parse rid rnd user q s = (Inr url, s')"
  shows "\<exists>(a :: app_row) query param.
    a \<in> set (od_apps s) \<and> ap_client_id a = sq_client_id q \<and> ap_is_active a \<and> sq_redirect_uri q \<in> set (ap_redirect_uris a) \<and>
    is_safe_redirect_uri parse (sq_redirect_uri q) \<and>
    url = sq_redirect_uri q @ (if CHR ''?'' \<in> set (sq_redirect_uri q) then ''&'' else ''?'') @ query \<and> carries_state (sq_state q) param \<and>
    (if sq_decision q \<noteq> ''approve''
     then s' = s \<and> query = param @ ''error=access_denied&error_description=User%20denied%20authorization''
     else \<exists>c challenge. od_codes s' = od_codes s @ [c] \<and> oc_user c = user \<and> oc_app c = ap_id a \<and> oc_redirect_uri c = sq_redirect_uri q \<and>
       oc_used_at c = None \<and> oc_challenge c = Some challenge \<and> 43 \<le> length challenge \<and> length challenge \<le> 128 \<and>
       oc_code c = ''sats_code_'' @ rnd \<and> query = ''code=sats_code_'' @ rnd @ param)"
proof -
  obtain a where a: "find_client s (sq_client_id q) = Some a" "ap_is_active a"
    and allowed: "assert_redirect_uri_allowed parse (ap_redirect_uris a) (sq_redirect_uri q) = None"
    using assms by (auto simp: authorize_submit_def get_application_by_client_id_def OauthApp.truncate_def
      split: option.splits if_splits)
  then have in_apps: "a \<in> set (od_apps s)" "ap_client_id a = sq_client_id q" using find_row [OF a(1) [unfolded find_client_def]] by simp_all
  have uri: "sq_redirect_uri q \<in> set (ap_redirect_uris a)" "is_safe_redirect_uri parse (sq_redirect_uri q)"
    using allowed by (auto simp: assert_redirect_uri_allowed_def split: if_splits)
  have app: "get_application_by_client_id s (sq_client_id q) = Inr (OauthApp.truncate a)"
    using a by (simp add: get_application_by_client_id_def)
  have tr: "ap_redirect_uris (OauthApp.truncate a) = ap_redirect_uris a" "ap_id (OauthApp.truncate a) = ap_id a"
    by (simp_all add: OauthApp.truncate_def)
  have sep: "url_separator (sq_redirect_uri q) = (if CHR ''?'' \<in> set (sq_redirect_uri q) then ''&'' else ''?'')"
    by (rule url_separator_def)
  show ?thesis
  proof (cases "sq_decision q = ''approve''")
    case False
    then have "s' = s" "url = sq_redirect_uri q @ url_separator (sq_redirect_uri q) @ state_param (sq_state q) @
        ''error=access_denied&error_description=User%20denied%20authorization''"
      using assms by (simp_all add: authorize_submit_def app tr allowed refusal_text)
    then show ?thesis
      using False in_apps a uri state_param_carries [of "sq_state q"] unfolding sep
      by (intro exI [of _ a] exI [of _ "state_param (sq_state q) @ ''error=access_denied&error_description=User%20denied%20authorization''"]
          exI [of _ "state_param (sq_state q)"]) simp
  next
    case True
    then obtain challenge m code where n: "normalize_challenge (sq_code_challenge q) (sq_code_challenge_method q) = Inr (challenge, m)"
      and cr: "create_authorization_code rnd (ap_id a) user (sq_redirect_uri q)
        (case sq_scope q of None \<Rightarrow> DEFAULT_SCOPE | Some t \<Rightarrow> t) (sq_state q) (Some challenge) (Some m) s = (Inr code, s')"
      and url: "url = sq_redirect_uri q @ url_separator (sq_redirect_uri q) @ ''code='' @ code @ state_param (sq_state q)"
      using assms by (auto simp: authorize_submit_def app tr allowed split: sum.splits prod.splits)
    have len: "43 \<le> length challenge" "length challenge \<le> 128"
      using n by (auto simp: normalize_challenge_def Let_def split: option.splits if_splits)
    obtain c where c: "od_codes s' = od_codes s @ [c]" "oc_user c = user" "oc_app c = ap_id a" "oc_redirect_uri c = sq_redirect_uri q"
      "oc_used_at c = None" "oc_challenge c = Some challenge" and cc: "oc_code c = code"
      using cr by (auto simp: create_authorization_code_def Let_def split: if_splits)
    have code: "code = ''sats_code_'' @ rnd"
      using cr unfolding create_authorization_code_def Let_def by (simp split: if_splits)
    note c = c cc [unfolded code]
    have stored: "\<exists>c challenge. od_codes s' = od_codes s @ [c] \<and> oc_user c = user \<and> oc_app c = ap_id a \<and> oc_redirect_uri c = sq_redirect_uri q \<and>
       oc_used_at c = None \<and> oc_challenge c = Some challenge \<and> 43 \<le> length challenge \<and> length challenge \<le> 128 \<and>
       oc_code c = ''sats_code_'' @ rnd \<and> ''code=sats_code_'' @ rnd @ state_param (sq_state q) = ''code=sats_code_'' @ rnd @ state_param (sq_state q)"
      using c len by blast
    have form: "url = sq_redirect_uri q @ (if CHR ''?'' \<in> set (sq_redirect_uri q) then ''&'' else ''?'') @ ''code=sats_code_'' @ rnd @ state_param (sq_state q)"
      by (simp add: url sep code)
    have no: "\<not> sq_decision q \<noteq> ''approve''" using True by blast
    show ?thesis
      unfolding if_not_P [OF no]
      by (rule exI [of _ a], rule exI, rule exI [of _ "state_param (sq_state q)"], rule conjI, rule in_apps(1), rule conjI,
          rule in_apps(2), rule conjI, rule a(2), rule conjI, rule uri(1), rule conjI, rule uri(2), rule conjI, rule form,
          rule conjI, rule state_param_carries, rule stored)
  qed
qed

theorem authorize_redirects_to_registered_uri_witness:
  "(\<exists>url s' param. authorize_submit demo_parse [] ''m'' 7 (demo_submit ''approve'') demo_oauth = (Inr url, s') \<and>
     url = ''https://a?code=sats_code_m'' @ param \<and> carries_state (Some ''s'') param \<and> length (od_codes s') = Suc (length (od_codes demo_oauth))) \<and>
   (\<exists>url param. authorize_submit demo_parse [] ''m'' 7 (demo_submit ''deny'') demo_oauth = (Inr url, demo_oauth) \<and>
     url = ''https://a?'' @ param @ ''error=access_denied&error_description=User%20denied%20authorization'' \<and> carries_state (Some ''s'') param)"
proof
  have q: "sq_redirect_uri (demo_submit d) = ''https://a''" "sq_state (demo_submit d) = Some ''s''" "sq_decision (demo_submit d) = d" for d
    by (simp_all add: demo_submit_def)
  obtain url s' where x: "authorize_submit demo_parse [] ''m'' 7 (demo_submit ''approve'') demo_oauth = (Inr url, s')"
    using demo_approval by blast
  from authorize_redirects_to_registered_uri [OF x] show
    "\<exists>url s' param. authorize_submit demo_parse [] ''m'' 7 (demo_submit ''approve'') demo_oauth = (Inr url, s') \<and>
     url = ''https://a?code=sats_code_m'' @ param \<and> carries_state (Some ''s'') param \<and> length (od_codes s') = Suc (length (od_codes demo_oauth))"
    using x by (auto simp: q)
  obtain url' t where y: "authorize_submit demo_parse [] ''m'' 7 (demo_submit ''deny'') demo_oauth = (Inr url', t)"
    using demo_denial by blast
  from authorize_redirects_to_registered_uri [OF y] show
    "\<exists>url param. authorize_submit demo_parse [] ''m'' 7 (demo_submit ''deny'') demo_oauth = (Inr url, demo_oauth) \<and>
     url = ''https://a?'' @ param @ ''error=access_denied&error_description=User%20denied%20authorization'' \<and> carries_state (Some ''s'') param"
    using y by (auto simp: q)
qed

section \<open>The query a client reads\<close>

definition split_amp :: "string \<Rightarrow> string list" where
  "split_amp t = foldr (\<lambda>c ws. if c = CHR ''&'' then [] # ws else (case ws of [] \<Rightarrow> [[c]] | w # ws' \<Rightarrow> (c # w) # ws')) t [[]]"

definition query_pairs :: "string \<Rightarrow> (string \<times> string) list" where
  "query_pairs t = map (split_at_char (CHR ''='')) (split_amp t)"

lemma split_amp_simps [simp]:
  "split_amp [] = [[]]" "split_amp (CHR ''&'' # t) = [] # split_amp t"
  "c \<noteq> CHR ''&'' \<Longrightarrow> split_amp (c # t) = (case split_amp t of [] \<Rightarrow> [[c]] | w # ws \<Rightarrow> (c # w) # ws)"
  by (simp_all add: split_amp_def)

lemma split_amp_append: "CHR ''&'' \<notin> set w \<Longrightarrow> split_amp t = x # xs \<Longrightarrow> split_amp (w @ t) = (w @ x) # xs"
  by (induction w) auto

text \<open>
  A refusal with a state reaches the client without its error: there is no \<open>&\<close> between the state and \<open>error=\<close>, so the
  query that the client reads has no parameter \<open>error\<close>, and the state comes back with \<open>error=access_denied\<close> attached.\<close>

theorem denial_loses_error_and_state:
  assumes "authorize_submit parse rid rnd user q s = (Inr url, s')" and "sq_decision q \<noteq> ''approve''" and "sq_state q = Some t"
  shows "\<exists>query. url = sq_redirect_uri q @ url_separator (sq_redirect_uri q) @ query \<and>
    map_of (query_pairs query) ''error'' = None \<and> map_of (query_pairs query) ''state'' = Some (url_encode t @ ''error=access_denied'')"
proof -
  let ?query = "''&state='' @ url_encode t @ ''error=access_denied&error_description='' @ url_encode ''User denied authorization''"
  have url: "url = sq_redirect_uri q @ url_separator (sq_redirect_uri q) @ ?query"
    using assms by (auto simp: authorize_submit_def state_param_def simp del: url_encode.simps split: sum.splits option.splits)
  define rest where "rest = url_encode ''User denied authorization''"
  have amp: "split_amp (CHR ''&'' # ''error_description='' @ rest) = [[], ''error_description='' @ rest]"
    using split_amp_append [of "''error_description='' @ rest" "[]" "[]" "[]"] url_encode_plain(1) by (simp add: rest_def)
  have tail: "split_amp (''error=access_denied'' @ CHR ''&'' # ''error_description='' @ rest) = [''error=access_denied'', ''error_description='' @ rest]"
    using split_amp_append [OF _ amp, of "''error=access_denied''"] by simp
  have "split_amp (''state='' @ url_encode t @ ''error=access_denied&error_description='' @ rest) =
      [''state='' @ url_encode t @ ''error=access_denied'', ''error_description='' @ rest]"
    using split_amp_append [OF _ tail, of "''state='' @ url_encode t"] url_encode_plain(1) [of t] by (simp del: split_amp_simps(3))
  then have "query_pairs ?query = [([], []), (''state'', url_encode t @ ''error=access_denied''), (''error_description'', rest)]"
    by (simp add: query_pairs_def split_at_char_def rest_def)
  then show ?thesis using url by (intro exI [of _ ?query]) simp
qed

theorem denial_loses_error_and_state_witness:
  "\<exists>url s' query. authorize_submit demo_parse [] ''m'' 7 (demo_submit ''deny'') demo_oauth = (Inr url, s') \<and>
    url = ''https://a'' @ url_separator ''https://a'' @ query \<and> map_of (query_pairs query) ''error'' = None"
proof -
  obtain url s' where x: "authorize_submit demo_parse [] ''m'' 7 (demo_submit ''deny'') demo_oauth = (Inr url, s')"
    using demo_denial by blast
  have "sq_state (demo_submit ''deny'') = Some ''s''" "sq_decision (demo_submit ''deny'') \<noteq> ''approve''"
    "sq_redirect_uri (demo_submit ''deny'') = ''https://a''"
    by (simp_all add: demo_submit_def)
  then show ?thesis using denial_loses_error_and_state [OF x] x by metis
qed

end
