(* ===== verification/PublicApi.thy ===== *)
theory PublicApi
  imports OauthWeb Webhooks Referral
begin

text \<open>
  \<open>crates/db/src/public_api.rs\<close>: the keys of the public API, the two ways a request proves it holds one (the key itself,
  or a signature with a timestamp), the scopes, the transfer to another user with its daily quota, and the balances;
  with \<open>find_user_id_by_email\<close> of \<open>privacy.rs\<close>. The tables the component adds to the database are in \<open>pub_db\<close>.
\<close>

section \<open>Tables\<close>

record api_key_row =
  ak_id :: uuid
  ak_user :: uuid
  ak_label :: string
  ak_key_hash :: string
  ak_key_prefix :: string
  ak_key_enc :: string
  ak_scopes :: "string list"
  ak_allowed_ips :: "string list"
  ak_expires_at :: "int option"
  ak_require_signature :: bool
  ak_disabled_at :: "int option"
  ak_created_at :: int
  ak_last_used_at :: "int option"

record nonce_row =
  nn_key :: uuid
  nn_signature :: string
  nn_seen_at :: int

record quota_row =
  qt_key :: uuid
  qt_day :: int
  qt_count :: int

text \<open>\<open>pa_email_hmac\<close> is the column \<open>email_hmac\<close> of \<open>users\<close>; the other columns are in \<open>pa_db\<close>.\<close>

record pub_db =
  pa_db :: db
  pa_email_hmac :: "uuid \<Rightarrow> string option"
  pa_keys :: "api_key_row list"
  pa_nonces :: "nonce_row list"
  pa_quotas :: "quota_row list"

definition on_db :: "(db, 'e, 'a) tx \<Rightarrow> (pub_db, 'e, 'a) tx" where
  "on_db m s = (case m (pa_db s) of Inl e \<Rightarrow> Inl e | Inr (x, d) \<Rightarrow> Inr (x, s\<lparr>pa_db := d\<rparr>))"

definition pub_clock :: "pub_db \<Rightarrow> int" where
  "pub_clock s = clock (pa_db s)"

definition pub_release :: "pub_db \<Rightarrow> pub_db" where
  "pub_release s = s\<lparr>pa_db := release_locks (pa_db s)\<rparr>"

text \<open>
  What the code takes from elsewhere: the primitives and the secrets, \<open>str::parse::<IpAddr>\<close>, and
  \<open>Utc::now() + chrono::Duration::days(d)\<close>, which panics (\<open>None\<close>) out of its range.
\<close>

record pub_env =
  pe_prims :: primitives
  pe_secrets :: SecretsService
  pe_ip :: "string \<Rightarrow> IpAddr option"
  pe_add_days :: "int \<Rightarrow> int \<Rightarrow> int option"

section \<open>Errors and records\<close>

datatype PublicApiError =
  PublicDb db_error
| KeyNotFound
| InvalidKey
| KeyExpired
| IpNotAllowed
| RequiresSignature
| MissingScope string
| IneligibleTarget
| SendToSelf
| WalletNotFound
| DailyLimitReached
| BadTimestamp
| TimestampOutOfWindow
| SignatureMismatch
| SignatureReplay

record ApiKeyRecord =
  kr_id :: uuid
  kr_user :: uuid
  kr_scopes :: "string list"
  kr_allowed_ips :: "string list"
  kr_expires_at :: "int option"
  kr_disabled_at :: "int option"
  kr_require_signature :: bool

record ApiKeySummary =
  ks_id :: uuid
  ks_label :: string
  ks_key_prefix :: string
  ks_scopes :: "string list"
  ks_allowed_ips :: "string list"
  ks_expires_at :: "int option"
  ks_require_signature :: bool
  ks_created_at :: int
  ks_disabled_at :: "int option"
  ks_last_used_at :: "int option"

record IssuedKey =
  ik_id :: uuid
  ik_key :: string
  ik_prefix :: string

definition api_key_aad :: "uuid \<Rightarrow> string" where
  "api_key_aad i = ''api_key:'' @ show_uuid i"

definition KIND_KEY_LABEL :: string where
  "KIND_KEY_LABEL = ''api_key.label''"

section \<open>Keys\<close>

definition find_api_key :: "pub_db \<Rightarrow> uuid \<Rightarrow> api_key_row option" where
  "find_api_key s i = List.find (\<lambda>k. ak_id k = i) (pa_keys s)"

definition list_api_keys_by_user :: "primitives \<Rightarrow> SecretsService option \<Rightarrow> uuid \<Rightarrow> pub_db \<Rightarrow> ApiKeySummary list" where
  "list_api_keys_by_user P secrets user s =
     map (\<lambda>k. \<lparr>ks_id = ak_id k, ks_label = open_opt P secrets KIND_KEY_LABEL (show_uuid (ak_id k)) (ak_label k),
        ks_key_prefix = ak_key_prefix k, ks_scopes = ak_scopes k, ks_allowed_ips = ak_allowed_ips k,
        ks_expires_at = ak_expires_at k, ks_require_signature = ak_require_signature k, ks_created_at = ak_created_at k,
        ks_disabled_at = ak_disabled_at k, ks_last_used_at = ak_last_used_at k\<rparr>)
       (sort_key (\<lambda>k. - ak_created_at k) (filter (\<lambda>k. ak_user k = user) (pa_keys s)))"

definition insert_api_key :: "api_key_row \<Rightarrow> pub_db \<Rightarrow> (PublicApiError + unit) \<times> pub_db" where
  "insert_api_key k s =
     (if \<exists>x\<in>set (pa_keys s). ak_key_hash x = ak_key_hash k then (Inl (PublicDb (UniqueViolation ''api_keys_key_hash_key'')), s)
      else if \<not> (\<exists>u\<in>set (users (pa_db s)). u_id u = ak_user k)
      then (Inl (PublicDb (ForeignKeyViolation ''api_keys'' ''api_keys_user_id_fkey'')), s)
      else (Inr (), s\<lparr>pa_keys := pa_keys s @ [k]\<rparr>))"

text \<open>\<open>raw\<close> is \<open>random_token(32)\<close>, \<open>iv\<close> and \<open>iv'\<close> the nonces of the two encryptions; \<open>None\<close> is the panic.\<close>

definition issue_api_key ::
    "pub_env \<Rightarrow> string \<Rightarrow> string \<Rightarrow> string \<Rightarrow> uuid \<Rightarrow> string \<Rightarrow> string list \<Rightarrow> string list \<Rightarrow> int option \<Rightarrow> bool \<Rightarrow> pub_db \<Rightarrow>
     ((PublicApiError + IssuedKey) \<times> pub_db) option" where
  "issue_api_key W raw iv iv' user name scopes allowed_ips expires_in_days require_signature s =
     (let i = next_id (pa_db s); P = pe_prims W; ss = pe_secrets W; s0 = s\<lparr>pa_db := (pa_db s)\<lparr>next_id := Suc i\<rparr>\<rparr> in
      case (case expires_in_days of None \<Rightarrow> Some None | Some d \<Rightarrow> map_option Some (pe_add_days W (pub_clock s) d)) of
        None \<Rightarrow> None
      | Some expires_at \<Rightarrow>
          (case insert_api_key
             \<lparr>ak_id = i, ak_user = user, ak_label = seal_pii P ss iv' KIND_KEY_LABEL (show_uuid i) name,
              ak_key_hash = hmac_hex P ss raw, ak_key_prefix = take 8 raw,
              ak_key_enc = encrypt_with_aad P ss iv raw (api_key_aad i), ak_scopes = scopes, ak_allowed_ips = allowed_ips,
              ak_expires_at = expires_at, ak_require_signature = require_signature, ak_disabled_at = None,
              ak_created_at = pub_clock s, ak_last_used_at = None\<rparr> s0 of
             (Inl e, t) \<Rightarrow> Some (Inl e, t)
           | (Inr _, t) \<Rightarrow> Some (Inr \<lparr>ik_id = i, ik_key = raw, ik_prefix = take 8 raw\<rparr>, t)))"

definition update_key :: "uuid \<Rightarrow> (api_key_row \<Rightarrow> api_key_row) \<Rightarrow> pub_db \<Rightarrow> pub_db" where
  "update_key i f s = s\<lparr>pa_keys := update_where (\<lambda>k. ak_id k = i) f (pa_keys s)\<rparr>"

definition rotate_api_key ::
    "pub_env \<Rightarrow> string \<Rightarrow> string \<Rightarrow> uuid \<Rightarrow> uuid \<Rightarrow> pub_db \<Rightarrow> (PublicApiError + IssuedKey) \<times> pub_db" where
  "rotate_api_key W raw iv user i s =
     (if map_option ak_user (find_api_key s i) \<noteq> Some user then (Inl KeyNotFound, s)
      else let key_hash = hmac_hex (pe_prims W) (pe_secrets W) raw in
        if \<exists>x\<in>set (pa_keys s). ak_id x \<noteq> i \<and> ak_key_hash x = key_hash
        then (Inl (PublicDb (UniqueViolation ''api_keys_key_hash_key'')), s)
        else (Inr \<lparr>ik_id = i, ik_key = raw, ik_prefix = take 8 raw\<rparr>,
          update_key i (\<lambda>k. k\<lparr>ak_key_hash := key_hash, ak_key_prefix := take 8 raw,
            ak_key_enc := encrypt_with_aad (pe_prims W) (pe_secrets W) iv raw (api_key_aad i)\<rparr>) s))"

definition disable_api_key :: "uuid \<Rightarrow> uuid \<Rightarrow> pub_db \<Rightarrow> (PublicApiError + unit) \<times> pub_db" where
  "disable_api_key user i s =
     (if map_option ak_user (find_api_key s i) \<noteq> Some user then (Inl KeyNotFound, s)
      else (Inr (), update_key i (\<lambda>k. k\<lparr>ak_disabled_at := Some (pub_clock s)\<rparr>) s))"

definition row_to_record :: "api_key_row \<Rightarrow> ApiKeyRecord" where
  "row_to_record k =
     \<lparr>kr_id = ak_id k, kr_user = ak_user k, kr_scopes = ak_scopes k, kr_allowed_ips = ak_allowed_ips k,
      kr_expires_at = ak_expires_at k, kr_disabled_at = ak_disabled_at k, kr_require_signature = ak_require_signature k\<rparr>"

section \<open>The allow list of addresses\<close>

text \<open>\<open>u32::from(Ipv4Addr)\<close> and \<open>u128::from(Ipv6Addr)\<close>: big endian.\<close>

definition bits_v4 :: "8 word \<Rightarrow> 8 word \<Rightarrow> 8 word \<Rightarrow> 8 word \<Rightarrow> 32 word" where
  "bits_v4 a b c d = word_rcat [a, b, c, d]"

definition bits_v6 ::
    "16 word \<Rightarrow> 16 word \<Rightarrow> 16 word \<Rightarrow> 16 word \<Rightarrow> 16 word \<Rightarrow> 16 word \<Rightarrow> 16 word \<Rightarrow> 16 word \<Rightarrow> 128 word" where
  "bits_v6 s0 s1 s2 s3 s4 s5 s6 s7 = word_rcat [s0, s1, s2, s3, s4, s5, s6, s7]"

fun canonicalize_ip_addr :: "IpAddr \<Rightarrow> IpAddr" where
  "canonicalize_ip_addr (V6 s0 s1 s2 s3 s4 s5 s6 s7) =
     (if [s0, s1, s2, s3, s4, s5] = [0, 0, 0, 0, 0, 0xFFFF]
      then V4 (ucast (drop_bit 8 s6)) (ucast s6) (ucast (drop_bit 8 s7)) (ucast s7)
      else V6 s0 s1 s2 s3 s4 s5 s6 s7)"
| "canonicalize_ip_addr (V4 a b c d) = V4 a b c d"

definition canonicalize_ip :: "(string \<Rightarrow> IpAddr option) \<Rightarrow> string \<Rightarrow> IpAddr option" where
  "canonicalize_ip parse s = map_option canonicalize_ip_addr (parse s)"

text \<open>\<open>str::parse::<u8>\<close>.\<close>

definition parse_u8 :: "string \<Rightarrow> nat option" where
  "parse_u8 s = (case parse_u128 s of None \<Rightarrow> None | Some n \<Rightarrow> if n \<le> 255 then Some n else None)"

definition mask_v4 :: "nat \<Rightarrow> 32 word" where
  "mask_v4 prefix = (let shift = 32 - prefix in if shift = 32 then 0 else push_bit shift (- 1))"

definition mask_v6 :: "nat \<Rightarrow> 128 word" where
  "mask_v6 prefix = (let shift = 128 - prefix in if shift = 128 then 0 else push_bit shift (- 1))"

fun cidr_contains :: "IpAddr \<Rightarrow> nat \<Rightarrow> IpAddr \<Rightarrow> bool" where
  "cidr_contains (V4 a b c d) prefix (V4 a' b' c' d') =
     (prefix \<le> 32 \<and> bits_v4 a b c d AND mask_v4 prefix = bits_v4 a' b' c' d' AND mask_v4 prefix)"
| "cidr_contains (V6 s0 s1 s2 s3 s4 s5 s6 s7) prefix (V6 t0 t1 t2 t3 t4 t5 t6 t7) =
     (prefix \<le> 128 \<and>
      bits_v6 s0 s1 s2 s3 s4 s5 s6 s7 AND mask_v6 prefix = bits_v6 t0 t1 t2 t3 t4 t5 t6 t7 AND mask_v6 prefix)"
| "cidr_contains _ _ _ = False"

definition ip_matches_allowlist :: "(string \<Rightarrow> IpAddr option) \<Rightarrow> string \<Rightarrow> string \<Rightarrow> bool" where
  "ip_matches_allowlist parse entry0 source_ip0 =
     (let entry = trim entry0; source_ip = trim source_ip0 in
      if entry = ''*'' \<or> entry = source_ip then True
      else case parse source_ip of
        None \<Rightarrow> False
      | Some src \<Rightarrow>
          (case split_once (CHR ''/'') entry of
             None \<Rightarrow>
               (case canonicalize_ip parse entry of
                  None \<Rightarrow> False
                | Some listed \<Rightarrow> listed = canonicalize_ip_addr src)
           | Some (net_s, prefix_s) \<Rightarrow>
               (case parse_u8 prefix_s of
                  None \<Rightarrow> False
                | Some prefix \<Rightarrow>
                    (case parse net_s of
                       None \<Rightarrow> False
                     | Some net \<Rightarrow> cidr_contains net prefix (canonicalize_ip_addr src)))))"

definition check_usable :: "(string \<Rightarrow> IpAddr option) \<Rightarrow> ApiKeyRecord \<Rightarrow> string \<Rightarrow> int \<Rightarrow> PublicApiError + unit" where
  "check_usable parse r source_ip t =
     (if kr_disabled_at r \<noteq> None then Inl InvalidKey
      else if (case kr_expires_at r of None \<Rightarrow> False | Some e \<Rightarrow> e \<le> t) then Inl KeyExpired
      else if kr_allowed_ips r \<noteq> [] \<and> \<not> list_ex (\<lambda>entry. ip_matches_allowlist parse entry source_ip) (kr_allowed_ips r)
      then Inl IpNotAllowed
      else Inr ())"

section \<open>Authentication\<close>

definition touch_key :: "uuid \<Rightarrow> pub_db \<Rightarrow> pub_db" where
  "touch_key i s = update_key i (\<lambda>k. k\<lparr>ak_last_used_at := Some (pub_clock s)\<rparr>) s"

definition authenticate_by_hash :: "pub_env \<Rightarrow> string \<Rightarrow> string \<Rightarrow> pub_db \<Rightarrow> (PublicApiError + ApiKeyRecord) \<times> pub_db" where
  "authenticate_by_hash W raw_key source_ip s =
     (case List.find (\<lambda>k. ak_key_hash k = hmac_hex (pe_prims W) (pe_secrets W) raw_key) (pa_keys s) of
        None \<Rightarrow> (Inl InvalidKey, s)
      | Some row \<Rightarrow>
          let r = row_to_record row in
          (case check_usable (pe_ip W) r source_ip (pub_clock s) of
             Inl e \<Rightarrow> (Inl e, s)
           | Inr _ \<Rightarrow>
               if kr_require_signature r then (Inl RequiresSignature, s)
               else (Inr r, touch_key (kr_id r) s)))"

definition canonical_string :: "primitives \<Rightarrow> string \<Rightarrow> string \<Rightarrow> string \<Rightarrow> string \<Rightarrow> string" where
  "canonical_string P ts method path raw_body =
     ts @ [CHR 0x0A] @ map upper_char method @ [CHR 0x0A] @ path @ [CHR 0x0A] @ sha256_hex P raw_body"

definition sign_request :: "primitives \<Rightarrow> string \<Rightarrow> string \<Rightarrow> string \<Rightarrow> string \<Rightarrow> string \<Rightarrow> string" where
  "sign_request P secret ts method path raw_body =
     hex_encode P (hmac_sha256 P secret (canonical_string P ts method path raw_body))"

record VerifySignedRequestInput =
  vi_key_id :: uuid
  vi_timestamp :: string
  vi_signature :: string
  vi_method :: string
  vi_path :: string
  vi_raw_body :: string
  vi_source_ip :: string

text \<open>\<open>str::parse::<i64>\<close>, and the wrap of an \<open>i64\<close> operation in a release build.\<close>

definition parse_i64 :: "string \<Rightarrow> int option" where
  "parse_i64 s =
     (let neg = (case s of [] \<Rightarrow> False | c # _ \<Rightarrow> c = CHR ''-'');
          body = (case s of [] \<Rightarrow> [] | c # cs \<Rightarrow> if c = CHR ''+'' \<or> c = CHR ''-'' then cs else s) in
      if body = [] then None
      else case parse_digits 0 body of
        None \<Rightarrow> None
      | Some n \<Rightarrow> let x = (if neg then - int n else int n) in if - (2 ^ 63) \<le> x \<and> x < 2 ^ 63 then Some x else None)"

definition wrap_i64 :: "int \<Rightarrow> int" where
  "wrap_i64 x = signed_take_bit 63 x"

definition signed_ms :: "int \<Rightarrow> int" where
  "signed_ms ts_num = (if ts_num < 1000000000000 then wrap_i64 (ts_num * 1000) else ts_num)"

text \<open>\<open>max_skew\<close> is in whole seconds, as the setting gives it.\<close>

definition outside_window :: "nat \<Rightarrow> int \<Rightarrow> int \<Rightarrow> bool" where
  "outside_window max_skew now_ms ts_ms \<longleftrightarrow> \<bar>wrap_i64 (now_ms - ts_ms)\<bar> > int max_skew * 1000"

definition prune_nonces :: "uuid \<Rightarrow> int \<Rightarrow> pub_db \<Rightarrow> pub_db" where
  "prune_nonces i cutoff s = s\<lparr>pa_nonces := filter (\<lambda>n. \<not> (nn_key n = i \<and> nn_seen_at n < cutoff)) (pa_nonces s)\<rparr>"

definition reserve_nonce :: "uuid \<Rightarrow> string \<Rightarrow> pub_db \<Rightarrow> bool \<times> pub_db" where
  "reserve_nonce i sig s =
     (if \<exists>n\<in>set (pa_nonces s). nn_key n = i \<and> nn_signature n = sig then (False, s)
      else (True, s\<lparr>pa_nonces := pa_nonces s @ [\<lparr>nn_key = i, nn_signature = sig, nn_seen_at = pub_clock s\<rparr>]\<rparr>))"

definition verify_signed_request ::
    "pub_env \<Rightarrow> VerifySignedRequestInput \<Rightarrow> nat \<Rightarrow> pub_db \<Rightarrow> (PublicApiError + ApiKeyRecord) \<times> pub_db" where
  "verify_signed_request W input max_skew s =
     (case parse_i64 (vi_timestamp input) of
        None \<Rightarrow> (Inl BadTimestamp, s)
      | Some ts_num \<Rightarrow>
          if outside_window max_skew (pub_clock s div 1000) (signed_ms ts_num) then (Inl TimestampOutOfWindow, s)
          else case find_api_key s (vi_key_id input) of
            None \<Rightarrow> (Inl KeyNotFound, s)
          | Some row \<Rightarrow>
              let r = row_to_record row in
              (case check_usable (pe_ip W) r (vi_source_ip input) (pub_clock s) of
                 Inl e \<Rightarrow> (Inl e, s)
               | Inr _ \<Rightarrow>
                   (case decrypt_with_aad (pe_prims W) (pe_secrets W) (ak_key_enc row) (api_key_aad (kr_id r)) of
                      Inl _ \<Rightarrow> (Inl InvalidKey, s)
                    | Inr raw_key \<Rightarrow>
                        let expected = sign_request (pe_prims W) raw_key (vi_timestamp input) (vi_method input)
                              (vi_path input) (vi_raw_body input) in
                        if \<not> ct_eq_str expected (vi_signature input) then (Inl SignatureMismatch, s)
                        else case reserve_nonce (kr_id r) (vi_signature input)
                            (prune_nonces (kr_id r) (pub_clock s - int max_skew * 1000000) s) of
                          (False, t) \<Rightarrow> (Inl SignatureReplay, t)
                        | (True, t) \<Rightarrow> (Inr r, touch_key (kr_id r) t))))"

definition require_scope :: "ApiKeyRecord \<Rightarrow> string \<Rightarrow> PublicApiError + unit" where
  "require_scope r scope = (if list_ex (\<lambda>s. s = scope \<or> s = ''*'') (kr_scopes r) then Inr () else Inl (MissingScope scope))"

section \<open>Sending\<close>

definition find_user_id_by_email :: "pub_env \<Rightarrow> string \<Rightarrow> pub_db \<Rightarrow> uuid option" where
  "find_user_id_by_email W email s =
     map_option u_id (List.find (\<lambda>u. pa_email_hmac s (u_id u) = Some (email_index (pe_prims W) (pe_secrets W) email) \<or>
       eq_ignore_case (u_email u) email) (users (pa_db s)))"

text \<open>
  Amounts arrive as decimals. A post of a decimal checks the balance against the decimal itself, and the column
  \<open>numeric(39, 0)\<close> rounds it, half away from zero; the error names the shortfall as an integer. The rest is \<open>apply_ledger_entry\<close>.
\<close>

definition numeric_int :: "rat \<Rightarrow> int" where
  "numeric_int x = (if 0 \<le> x then \<lfloor>x + 1 / 2\<rfloor> else - \<lfloor>1 / 2 - x\<rfloor>)"

definition apply_decimal_entry :: "rat \<Rightarrow> LedgerCreditInput \<Rightarrow> (LedgerError, uuid) op" where
  "apply_decimal_entry x i =
     tx_bind (lock_wallet (in_wallet_id i)) (\<lambda>_.
     tx_bind (tx_gets (\<lambda>s. find_wallet s (in_wallet_id i))) (\<lambda>row.
     tx_bind (case row of
         Some r \<Rightarrow>
           if w_reorg_hold_at r \<noteq> None \<and> in_type i \<noteq> DEPOSIT_REVERSAL
           then tx_throw (ReorgHold (in_wallet_id i)) else tx_return ()
       | None \<Rightarrow> tx_return ()) (\<lambda>_.
     tx_bind (if x < 0 then
         tx_bind (get_wallet_balance (in_wallet_id i)) (\<lambda>balance.
           if of_int balance + x < 0
           then tx_throw (InsufficientBalance (in_wallet_id i) balance \<lceil>- x\<rceil>)
           else tx_return ())
       else tx_return ()) (\<lambda>_.
     tx_map_err LedgerDb (insert_ledger_entry (i\<lparr>in_amount := numeric_int x\<rparr>))))))"

definition transfer_input :: "uuid \<Rightarrow> ledger_type \<Rightarrow> string \<Rightarrow> string \<Rightarrow> LedgerCreditInput" where
  "transfer_input w ty ref_key memo =
     \<lparr>in_wallet_id = w, in_amount = 0, in_type = ty, in_reference_id = None, in_reference_type = Some ''PublicApiTransfer'',
      in_reference_key = Some ref_key, in_memo = Some memo\<rparr>"

definition send_ref :: "uuid \<Rightarrow> string \<Rightarrow> string" where
  "send_ref key idem = ''pubapi:'' @ show_uuid key @ '':'' @ idem"

definition wallet_covers :: "db \<Rightarrow> uuid \<Rightarrow> Coin \<Rightarrow> wallet_kind \<Rightarrow> rat \<Rightarrow> uuid option" where
  "wallet_covers d user coin kind amount =
     (case wallet_id_of d user coin kind of
        None \<Rightarrow> None
      | Some w \<Rightarrow> if of_int (wallet_balance d w) \<ge> amount then Some w else None)"

definition pick_wallet :: "db \<Rightarrow> uuid \<Rightarrow> Coin \<Rightarrow> rat \<Rightarrow> uuid option" where
  "pick_wallet d user coin amount =
     or_else (wallet_covers d user coin MERCHANT amount)
       (or_else (wallet_covers d user coin DEVELOPER amount)
         (or_else (wallet_id_of d user coin MERCHANT) (wallet_id_of d user coin DEVELOPER)))"

definition ledger_as_protocol :: "LedgerError \<Rightarrow> PublicApiError" where
  "ledger_as_protocol e = PublicDb (Protocol (ledger_error_str e))"

text \<open>The day of an instant in UTC.\<close>

definition day_of :: "int \<Rightarrow> int" where
  "day_of t = t div (86400 * 1000000)"

definition reserve_quota :: "uuid \<Rightarrow> int \<Rightarrow> int \<Rightarrow> (pub_db, PublicApiError, unit) tx" where
  "reserve_quota key day daily_limit s =
     (case List.find (\<lambda>q. qt_key q = key \<and> qt_day q = day) (pa_quotas s) of
        None \<Rightarrow>
          if find_api_key s key = None
          then Inl (PublicDb (ForeignKeyViolation ''api_daily_send_quotas'' ''api_daily_send_quotas_api_key_id_fkey''))
          else Inr ((), s\<lparr>pa_quotas := pa_quotas s @ [\<lparr>qt_key = key, qt_day = day, qt_count = 1\<rparr>]\<rparr>)
      | Some q \<Rightarrow>
          if qt_count q < daily_limit
          then Inr ((), s\<lparr>pa_quotas := update_where (\<lambda>q. qt_key q = key \<and> qt_day q = day)
                 (\<lambda>q. q\<lparr>qt_count := qt_count q + 1\<rparr>) (pa_quotas s)\<rparr>)
          else Inl DailyLimitReached)"

definition find_transfer :: "db \<Rightarrow> string \<Rightarrow> ledger_row option" where
  "find_transfer d ref_key =
     List.find (\<lambda>e. le_reference_type e = Some ''PublicApiTransfer'' \<and> le_reference_key e = Some ref_key) (ledger d)"

definition send_moves :: "uuid \<Rightarrow> uuid \<Rightarrow> rat \<Rightarrow> string \<Rightarrow> string \<Rightarrow> (LedgerError, unit) op" where
  "send_moves from_wallet to_wallet amount ref_key to_email =
     tx_bind (apply_decimal_entry (- amount) (transfer_input from_wallet TRANSFER_OUT ref_key (''Send to '' @ to_email))) (\<lambda>_.
     tx_bind (apply_decimal_entry amount (transfer_input to_wallet TRANSFER_IN ref_key ''Received from public API'')) (\<lambda>_.
     tx_return ()))"

definition send_tx ::
    "uuid \<Rightarrow> uuid \<Rightarrow> uuid \<Rightarrow> Coin \<Rightarrow> string \<Rightarrow> rat \<Rightarrow> string \<Rightarrow> int \<Rightarrow> (pub_db, PublicApiError, string) tx" where
  "send_tx recipient from_user key coin to_email amount idem daily_limit =
     (let ref_key = send_ref key idem in
      tx_bind (tx_gets (\<lambda>s. (pick_wallet (pa_db s) from_user coin amount, wallet_id_of (pa_db s) recipient coin PERSONAL)))
        (\<lambda>(from_wallet, to_wallet).
      tx_bind (tx_ok_or WalletNotFound from_wallet) (\<lambda>from_wallet.
      tx_bind (tx_ok_or WalletNotFound to_wallet) (\<lambda>to_wallet.
      tx_bind (tx_map_err ledger_as_protocol (on_db (lock_wallets [from_wallet, to_wallet]))) (\<lambda>_.
      tx_bind (tx_gets (\<lambda>s. find_transfer (pa_db s) ref_key)) (\<lambda>existing.
      if existing \<noteq> None then tx_return ref_key
      else
        tx_bind (tx_gets (\<lambda>s. day_of (pub_clock s))) (\<lambda>today.
        tx_bind (reserve_quota key today daily_limit) (\<lambda>_.
        tx_bind (tx_map_err ledger_as_protocol (on_db (send_moves from_wallet to_wallet amount ref_key to_email))) (\<lambda>_.
        tx_return ref_key)))))))))"

definition send_to_user ::
    "pub_env \<Rightarrow> uuid \<Rightarrow> uuid \<Rightarrow> Coin \<Rightarrow> string \<Rightarrow> rat \<Rightarrow> string \<Rightarrow> int \<Rightarrow> pub_db \<Rightarrow> (PublicApiError + string) \<times> pub_db" where
  "send_to_user W from_user key coin to_email amount idem daily_limit s =
     (case find_user_id_by_email W to_email s of
        None \<Rightarrow> (Inl IneligibleTarget, s)
      | Some recipient \<Rightarrow>
          if recipient = from_user then (Inl SendToSelf, s)
          else commit_tx pub_release (send_tx recipient from_user key coin to_email amount idem daily_limit) s)"

section \<open>Balances\<close>

text \<open>The coins are listed by their names; a coin has at most one wallet of each kind.\<close>

definition coins_by_name :: "Coin list" where
  "coins_by_name = [Bch, Btc, Dgb, Doge, Ltc, Pepe, Pol, Sol, Usdc, Usdt, Zer]"

definition kind_total :: "db \<Rightarrow> uuid \<Rightarrow> wallet_kind \<Rightarrow> Coin \<Rightarrow> int option" where
  "kind_total d user kind coin = map_option (wallet_balance d) (wallet_id_of d user coin kind)"

definition api_total :: "int option \<Rightarrow> int option \<Rightarrow> int" where
  "api_total m dev =
     (if (case m of None \<Rightarrow> False | Some v \<Rightarrow> v > 0) then the m
      else case or_else dev m of None \<Rightarrow> 0 | Some v \<Rightarrow> v)"

definition get_balance_for_api_key :: "uuid \<Rightarrow> pub_db \<Rightarrow> (Coin \<times> int) list" where
  "get_balance_for_api_key user s =
     map (\<lambda>c. (c, api_total (kind_total (pa_db s) user MERCHANT c) (kind_total (pa_db s) user DEVELOPER c)))
       (filter (\<lambda>c. wallet_id_of (pa_db s) user c MERCHANT \<noteq> None \<or> wallet_id_of (pa_db s) user c DEVELOPER \<noteq> None)
         coins_by_name)"

end
