(* ===== verification/PublicFlow.thy ===== *)
theory PublicFlow
  imports PublicApi
begin

text \<open>
  The claims about the public API. A successful send is characterised by the two posts it makes; \<open>pub_step\<close> is one
  request handled on its own, and the locale \<open>pub_invariant\<close> is what an invariant of the writes has to keep so that every
  run of requests keeps it, interpreted for disabled keys, used signatures, made transfers and the daily quotas.
\<close>

section \<open>Posts of decimals\<close>

lemma numeric_int_of_int [simp]: "numeric_int (of_int z) = z"
  by (simp add: numeric_int_def) linarith

lemma numeric_int_minus: "numeric_int (- x) = - numeric_int x"
proof (cases "x = 0")
  case True
  then show ?thesis using numeric_int_of_int [of 0] by simp
next
  case False
  then show ?thesis by (auto simp: numeric_int_def add.commute)
qed

lemma numeric_int_covered:
  assumes "0 \<le> of_int b + x" and "0 \<le> b"
  shows "0 \<le> b + numeric_int x"
proof (cases "0 \<le> x")
  case True
  then have "0 \<le> numeric_int x" by (simp add: numeric_int_def)
  with assms(2) show ?thesis by simp
next
  case False
  have "\<lfloor>1 / 2 - x\<rfloor> \<le> b" using assms(1) by linarith
  with False show ?thesis by (simp add: numeric_int_def)
qed

lemma numeric_int_neg: "numeric_int x < 0 \<Longrightarrow> x < 0"
  by (rule ccontr) (simp add: numeric_int_def)

lemma conflict_amount [simp]:
  "reference_conflict (i\<lparr>in_amount := a\<rparr>) e = reference_conflict i e" "key_conflict (i\<lparr>in_amount := a\<rparr>) e = key_conflict i e"
  by (simp_all add: reference_conflict_def key_conflict_def)

lemma apply_decimal_entry_Inr:
  "apply_decimal_entry x i d = Inr (e, d') \<longleftrightarrow>
     (x < 0 \<longrightarrow> 0 \<le> of_int (wallet_balance d (in_wallet_id i)) + x) \<and> can_post (i\<lparr>in_amount := numeric_int x\<rparr>) d \<and>
     e = next_id d \<and> d' = post_entry (i\<lparr>in_amount := numeric_int x\<rparr>) d"
proof -
  let ?b = "wallet_balance d (in_wallet_id i)"
  have b: "(x < 0 \<longrightarrow> 0 \<le> of_int ?b + x) \<Longrightarrow> numeric_int x < 0 \<longrightarrow> 0 \<le> ?b + numeric_int x"
  proof
    assume c: "x < 0 \<longrightarrow> 0 \<le> of_int ?b + x" and n: "numeric_int x < 0"
    from n have x: "x < 0" by (rule numeric_int_neg)
    with c have "\<lfloor>1 / 2 - x\<rfloor> \<le> ?b" by linarith
    with x show "0 \<le> ?b + numeric_int x" by (simp add: numeric_int_def)
  qed
  show ?thesis
  proof (cases "find_wallet d (in_wallet_id i)")
    case None
    then show ?thesis by (simp add: apply_decimal_entry_def tx_simps insert_ledger_entry_Inr can_post_def)
  next
    case (Some r)
    have neg: "(\<not> of_int ?b + x < 0) = (0 \<le> of_int ?b + x)" by auto
    show ?thesis
      unfolding apply_decimal_entry_def post_entry_def using Some b
      by (auto simp: tx_simps insert_ledger_entry_Inr can_post_def held_against_def neg)
  qed
qed

section \<open>A send, characterised\<close>

lemma on_db_Inr [tx_simps]: "on_db m s = Inr (x, t) \<longleftrightarrow> (\<exists>d. m (pa_db s) = Inr (x, d) \<and> t = s\<lparr>pa_db := d\<rparr>)"
  by (auto simp: on_db_def split: sum.splits)

definition quota_count :: "uuid \<Rightarrow> int \<Rightarrow> pub_db \<Rightarrow> int" where
  "quota_count key day s =
     (case List.find (\<lambda>q. qt_key q = key \<and> qt_day q = day) (pa_quotas s) of None \<Rightarrow> 0 | Some q \<Rightarrow> qt_count q)"

definition quota_open :: "uuid \<Rightarrow> int \<Rightarrow> int \<Rightarrow> pub_db \<Rightarrow> bool" where
  "quota_open key day daily_limit s \<longleftrightarrow>
     (case List.find (\<lambda>q. qt_key q = key \<and> qt_day q = day) (pa_quotas s) of
        None \<Rightarrow> find_api_key s key \<noteq> None | Some q \<Rightarrow> qt_count q < daily_limit)"

definition quotas_after :: "uuid \<Rightarrow> int \<Rightarrow> quota_row list \<Rightarrow> quota_row list" where
  "quotas_after key day Q =
     (case List.find (\<lambda>q. qt_key q = key \<and> qt_day q = day) Q of
        None \<Rightarrow> Q @ [\<lparr>qt_key = key, qt_day = day, qt_count = 1\<rparr>]
      | Some _ \<Rightarrow> update_where (\<lambda>q. qt_key q = key \<and> qt_day q = day) (\<lambda>q. q\<lparr>qt_count := qt_count q + 1\<rparr>) Q)"

lemma reserve_quota_Inr [tx_simps]:
  "reserve_quota key day daily_limit s = Inr (u, t) \<longleftrightarrow>
     quota_open key day daily_limit s \<and> t = s\<lparr>pa_quotas := quotas_after key day (pa_quotas s)\<rparr>"
  by (auto simp: reserve_quota_def quota_open_def quotas_after_def split: option.splits)

lemma quota_open_db [simp]: "quota_open key day l (s\<lparr>pa_db := d\<rparr>) = quota_open key day l s"
  by (simp add: quota_open_def find_api_key_def cong: option.case_cong)

definition out_input :: "uuid \<Rightarrow> rat \<Rightarrow> string \<Rightarrow> string \<Rightarrow> LedgerCreditInput" where
  "out_input w x ref_key email = (transfer_input w TRANSFER_OUT ref_key (''Send to '' @ email))\<lparr>in_amount := - numeric_int x\<rparr>"

definition in_input :: "uuid \<Rightarrow> rat \<Rightarrow> string \<Rightarrow> LedgerCreditInput" where
  "in_input w x ref_key = (transfer_input w TRANSFER_IN ref_key ''Received from public API'')\<lparr>in_amount := numeric_int x\<rparr>"

lemma send_inputs [simp]:
  "in_wallet_id (out_input w x k m) = w" "in_amount (out_input w x k m) = - numeric_int x"
  "in_wallet_id (in_input w x k) = w" "in_amount (in_input w x k) = numeric_int x"
  "in_type (out_input w x k m) = TRANSFER_OUT" "in_type (in_input w x k) = TRANSFER_IN"
  "in_reference_type (out_input w x k m) = Some ''PublicApiTransfer''" "in_reference_type (in_input w x k) = Some ''PublicApiTransfer''"
  "in_reference_key (out_input w x k m) = Some k" "in_reference_key (in_input w x k) = Some k"
  by (simp_all add: out_input_def in_input_def transfer_input_def)

definition covered :: "db \<Rightarrow> uuid \<Rightarrow> rat \<Rightarrow> bool" where
  "covered d w x \<longleftrightarrow> (x < 0 \<longrightarrow> 0 \<le> of_int (wallet_balance d w) + x)"

lemma send_moves_Inr:
  "send_moves fw tw x k m d = Inr (u, d') \<longleftrightarrow>
     covered d fw (- x) \<and> can_post (out_input fw x k m) d \<and>
     covered (post_entry (out_input fw x k m) d) tw x \<and> can_post (in_input tw x k) (post_entry (out_input fw x k m) d) \<and>
     d' = post_entry (in_input tw x k) (post_entry (out_input fw x k m) d)"
  unfolding send_moves_def
  by (simp add: tx_simps apply_decimal_entry_Inr covered_def out_input_def in_input_def transfer_input_def numeric_int_minus)

definition locked :: "uuid list \<Rightarrow> db \<Rightarrow> db" where
  "locked ws d = d\<lparr>row_locks := fold acquire
     (map WalletLock (filter (\<lambda>w. find_wallet d w \<noteq> None) (remdups_adj (sort ws)))) (row_locks d)\<rparr>"

lemma lock_wallets_locked: "lock_wallets ws d = Inr ((), locked ws d)"
  by (simp add: lock_wallets_Inr locked_def)

lemma locked_frame [simp]:
  "ledger (locked ws d) = ledger d" "wallets (locked ws d) = wallets d" "clock (locked ws d) = clock d"
  "next_id (locked ws d) = next_id d" "users (locked ws d) = users d"
  by (simp_all add: locked_def)

lemma locked_reads [simp]:
  "find_transfer (locked ws d) k = find_transfer d k" "wallet_balance (locked ws d) w = wallet_balance d w"
  "find_wallet (locked ws d) w = find_wallet d w" "covered (locked ws d) w x = covered d w x"
  by (simp_all add: find_transfer_def wallet_balance_def find_wallet_def covered_def)

lemma send_tx_run:
  "send_tx rcp user key coin email x idem l s =
     (case (pick_wallet (pa_db s) user coin x, wallet_id_of (pa_db s) rcp coin PERSONAL) of
        (Some fw, Some tw) \<Rightarrow>
          let d = locked [fw, tw] (pa_db s); r = send_ref key idem; s1 = s\<lparr>pa_db := d\<rparr> in
          if find_transfer d r \<noteq> None then Inr (r, s1)
          else (case reserve_quota key (day_of (clock d)) l s1 of
              Inl e \<Rightarrow> Inl e
            | Inr (_, s2) \<Rightarrow>
                (case send_moves fw tw x r email (pa_db s2) of
                   Inl e \<Rightarrow> Inl (ledger_as_protocol e)
                 | Inr (_, d') \<Rightarrow> Inr (r, s2\<lparr>pa_db := d'\<rparr>)))
      | _ \<Rightarrow> Inl WalletNotFound)"
proof (cases "pick_wallet (pa_db s) user coin x")
  case None
  then show ?thesis by (simp add: send_tx_def tx_defs Let_def)
next
  case (Some fw)
  note fw = Some
  show ?thesis
  proof (cases "wallet_id_of (pa_db s) rcp coin PERSONAL")
    case None
    with fw show ?thesis by (simp add: send_tx_def tx_defs Let_def)
  next
    case (Some tw)
    have lock: "on_db (lock_wallets [fw, tw]) s = Inr ((), s\<lparr>pa_db := locked [fw, tw] (pa_db s)\<rparr>)"
      by (simp add: on_db_def lock_wallets_locked)
    let ?s1 = "s\<lparr>pa_db := locked [fw, tw] (pa_db s)\<rparr>"
    show ?thesis
    proof (cases "find_transfer (pa_db s) (send_ref key idem)")
      case (Some e)
      with fw \<open>wallet_id_of (pa_db s) rcp coin PERSONAL = Some tw\<close> lock show ?thesis
        by (simp add: send_tx_def tx_defs Let_def)
    next
      case None
      note none = None
      show ?thesis
      proof (cases "reserve_quota key (day_of (clock (pa_db s))) l ?s1")
        case (Inl e)
        with fw \<open>wallet_id_of (pa_db s) rcp coin PERSONAL = Some tw\<close> lock none show ?thesis
          by (simp add: send_tx_def tx_defs Let_def pub_clock_def)
      next
        case (Inr p)
        obtain u s2 where "p = (u, s2)" by (cases p)
        with Inr fw \<open>wallet_id_of (pa_db s) rcp coin PERSONAL = Some tw\<close> lock none show ?thesis
          by (simp add: send_tx_def tx_defs Let_def pub_clock_def on_db_def split: sum.splits prod.splits)
      qed
    qed
  qed
qed

definition sent_db :: "uuid \<Rightarrow> uuid \<Rightarrow> rat \<Rightarrow> string \<Rightarrow> string \<Rightarrow> db \<Rightarrow> db" where
  "sent_db fw tw x r email d =
     post_entry (in_input tw x r) (post_entry (out_input fw x r email) (locked [fw, tw] d))"

definition can_send :: "uuid \<Rightarrow> uuid \<Rightarrow> rat \<Rightarrow> string \<Rightarrow> string \<Rightarrow> db \<Rightarrow> bool" where
  "can_send fw tw x r email d \<longleftrightarrow>
     covered d fw (- x) \<and> can_post (out_input fw x r email) (locked [fw, tw] d) \<and>
     covered (post_entry (out_input fw x r email) (locked [fw, tw] d)) tw x \<and>
     can_post (in_input tw x r) (post_entry (out_input fw x r email) (locked [fw, tw] d))"

lemma send_tx_Inr:
  "send_tx rcp user key coin email x idem l s = Inr (r, t) \<longleftrightarrow>
     r = send_ref key idem \<and>
     (\<exists>fw tw. pick_wallet (pa_db s) user coin x = Some fw \<and> wallet_id_of (pa_db s) rcp coin PERSONAL = Some tw \<and>
        (if find_transfer (pa_db s) r \<noteq> None then t = s\<lparr>pa_db := locked [fw, tw] (pa_db s)\<rparr>
         else quota_open key (day_of (pub_clock s)) l s \<and> can_send fw tw x r email (pa_db s) \<and>
           t = s\<lparr>pa_quotas := quotas_after key (day_of (pub_clock s)) (pa_quotas s),
                 pa_db := sent_db fw tw x r email (pa_db s)\<rparr>))"
proof -
  have m: "send_moves fw tw x k email (locked [fw, tw] d) = Inr ((), d') \<longleftrightarrow>
      can_send fw tw x k email d \<and> d' = sent_db fw tw x k email d" for fw tw k d d'
    by (auto simp: send_moves_Inr can_send_def sent_db_def)
  have nq: "reserve_quota key day l (s\<lparr>pa_db := d\<rparr>) = Inr (u, s2) \<longleftrightarrow> quota_open key day l s \<and>
      s2 = s\<lparr>pa_db := d, pa_quotas := quotas_after key day (pa_quotas s)\<rparr>" for day d u s2
    by (simp add: reserve_quota_Inr)
  have nq': "reserve_quota key day l (s\<lparr>pa_db := d\<rparr>) =
      Inr ((), s\<lparr>pa_db := d, pa_quotas := quotas_after key day (pa_quotas s)\<rparr>)" if "quota_open key day l s" for day d
    using that by (simp add: nq)
  have m': "send_moves fw tw x k email (locked [fw, tw] d) = Inr ((), sent_db fw tw x k email d)"
    if "can_send fw tw x k email d" for fw tw k d
    using that by (simp add: m)
  show ?thesis
    unfolding send_tx_run Let_def
    by (simp add: pub_clock_def split: option.split sum.split prod.split) (auto simp: nq m nq' m')
qed

lemma sent_db_frame [simp]:
  "wallets (sent_db fw tw x r m d) = wallets d" "clock (sent_db fw tw x r m d) = clock d" "users (sent_db fw tw x r m d) = users d"
  "next_id (sent_db fw tw x r m d) = next_id d + 2"
  "ledger (sent_db fw tw x r m d) =
     ledger d @ [entry_of (out_input fw x r m) (next_id d) (clock d), entry_of (in_input tw x r) (Suc (next_id d)) (clock d)]"
  by (simp_all add: sent_db_def post_entry_def)

lemma sent_db_balance [simp]:
  "wallet_balance (sent_db fw tw x r m d) w =
     wallet_balance d w - (if w = fw then numeric_int x else 0) + (if w = tw then numeric_int x else 0)"
  by (simp add: wallet_balance_def)

lemma or_else_case: "or_else x y = (case x of None \<Rightarrow> y | Some v \<Rightarrow> Some v)"
  by (cases x) simp_all

lemma pick_wallet_kind:
  "pick_wallet d u c x = Some w \<Longrightarrow> wallet_id_of d u c MERCHANT = Some w \<or> wallet_id_of d u c DEVELOPER = Some w"
  by (auto simp: pick_wallet_def or_else_case wallet_covers_def split: option.splits if_splits)

lemma books_ok_locked: "books_ok d \<Longrightarrow> books_ok (locked ws d)"
  by (erule books_ok_cong [rotated -1]) simp_all

lemma books_ok_sent: "can_send fw tw x r m d \<Longrightarrow> books_ok d \<Longrightarrow> books_ok (sent_db fw tw x r m d)"
  by (simp add: can_send_def sent_db_def books_ok_post books_ok_locked)

lemma coin_total_locked [simp]: "coin_total (locked ws d) c = coin_total d c"
  by (rule coin_total_cong) simp_all

lemma coin_wallets_locked [simp]: "coin_wallets (locked ws d) c = coin_wallets d c"
  by (simp add: coin_wallets_def)

lemma coin_total_sent:
  assumes "can_send fw tw x r m d" and "fw \<in> coin_wallets d c \<longleftrightarrow> tw \<in> coin_wallets d c"
  shows "coin_total (sent_db fw tw x r m d) c = coin_total d c"
  using assms by (simp add: can_send_def sent_db_def coin_total_post)

lemma wallet_id_of_coin:
  assumes "wallets_wf d" and "wallet_id_of d u c k = Some w"
  shows "w \<in> coin_wallets d c' \<longleftrightarrow> c' = c"
  using wallet_id_of_Some [OF assms(2)] wallet_coin [OF assms(1)] by metis

lemma pub_release_sel [simp]:
  "pa_keys (pub_release s) = pa_keys s" "pa_nonces (pub_release s) = pa_nonces s" "pa_quotas (pub_release s) = pa_quotas s"
  "pa_db (pub_release s) = release_locks (pa_db s)" "pub_clock (pub_release s) = pub_clock s"
  by (simp_all add: pub_release_def pub_clock_def release_locks_def)

lemma release_locks_sel [simp]:
  "ledger (release_locks d) = ledger d" "wallets (release_locks d) = wallets d" "users (release_locks d) = users d"
  "clock (release_locks d) = clock d" "next_id (release_locks d) = next_id d"
  by (simp_all add: release_locks_def)

lemma release_locked [simp]: "release_locks (locked ws d) = release_locks d"
  by (simp add: release_locks_def locked_def)

lemma send_success:
  "send_to_user W user key coin email x idem l s = (Inr r, t) \<longleftrightarrow>
     r = send_ref key idem \<and>
     (\<exists>rcp fw tw. find_user_id_by_email W email s = Some rcp \<and> rcp \<noteq> user \<and>
        pick_wallet (pa_db s) user coin x = Some fw \<and> wallet_id_of (pa_db s) rcp coin PERSONAL = Some tw \<and>
        (if find_transfer (pa_db s) r \<noteq> None then t = pub_release s
         else quota_open key (day_of (pub_clock s)) l s \<and> can_send fw tw x r email (pa_db s) \<and>
           t = s\<lparr>pa_quotas := quotas_after key (day_of (pub_clock s)) (pa_quotas s),
                 pa_db := release_locks (sent_db fw tw x r email (pa_db s))\<rparr>))"
proof (cases "find_user_id_by_email W email s")
  case None
  then show ?thesis by (simp add: send_to_user_def)
next
  case (Some rcp)
  have rel: "pub_release (s\<lparr>pa_db := locked ws (pa_db s)\<rparr>) = pub_release s" for ws
    by (simp add: pub_release_def)
  have rel': "pub_release (s\<lparr>pa_quotas := Q, pa_db := d\<rparr>) = s\<lparr>pa_quotas := Q, pa_db := release_locks d\<rparr>" for Q d
    by (simp add: pub_release_def)
  show ?thesis
  proof (cases "r = send_ref key idem \<and> rcp \<noteq> user")
    case False
    with Some show ?thesis unfolding send_to_user_def by (auto simp: commit_tx_success send_tx_Inr)
  next
    case True
    show ?thesis
    proof (cases "find_transfer (pa_db s) (send_ref key idem)")
      case None
      with Some True show ?thesis
        unfolding send_to_user_def by (simp add: commit_tx_success send_tx_Inr) (metis rel')
    next
      case (Some e)
      with \<open>find_user_id_by_email W email s = Some rcp\<close> True show ?thesis
        unfolding send_to_user_def by (simp add: commit_tx_success send_tx_Inr) (metis rel)
    qed
  qed
qed

lemma send_failure: "send_to_user W user key coin email x idem l s = (Inl e, t) \<Longrightarrow> t = s"
  by (auto simp: send_to_user_def commit_tx_failure split: option.splits if_splits)

text \<open>Every send either changes nothing but the locks or makes the two posts.\<close>

lemma send_cases:
  obtains (nothing) "snd (send_to_user W user key coin email x idem l s) \<in> {s, pub_release s}"
  | (sent) rcp fw tw r where "r = send_ref key idem" "find_transfer (pa_db s) r = None"
      "pick_wallet (pa_db s) user coin x = Some fw" "wallet_id_of (pa_db s) rcp coin PERSONAL = Some tw"
      "quota_open key (day_of (pub_clock s)) l s" "can_send fw tw x r email (pa_db s)"
      "snd (send_to_user W user key coin email x idem l s) =
         s\<lparr>pa_quotas := quotas_after key (day_of (pub_clock s)) (pa_quotas s),
           pa_db := release_locks (sent_db fw tw x r email (pa_db s))\<rparr>"
proof (cases "send_to_user W user key coin email x idem l s")
  case (Pair res t)
  show ?thesis
  proof (cases res)
    case (Inl e)
    with Pair send_failure have "t = s" by blast
    with Pair have "snd (send_to_user W user key coin email x idem l s) \<in> {s, pub_release s}" by simp
    then show ?thesis by (rule nothing)
  next
    case (Inr r)
    with Pair have "send_to_user W user key coin email x idem l s = (Inr r, t)" by simp
    then obtain rcp fw tw where r: "r = send_ref key idem" and w: "pick_wallet (pa_db s) user coin x = Some fw"
        "wallet_id_of (pa_db s) rcp coin PERSONAL = Some tw"
      and c: "if find_transfer (pa_db s) r \<noteq> None then t = pub_release s
         else quota_open key (day_of (pub_clock s)) l s \<and> can_send fw tw x r email (pa_db s) \<and>
           t = s\<lparr>pa_quotas := quotas_after key (day_of (pub_clock s)) (pa_quotas s),
                 pa_db := release_locks (sent_db fw tw x r email (pa_db s))\<rparr>"
      unfolding send_success by blast
    show ?thesis
    proof (cases "find_transfer (pa_db s) r")
      case None
      with c have q: "quota_open key (day_of (pub_clock s)) l s" and p: "can_send fw tw x r email (pa_db s)"
        and t: "t = s\<lparr>pa_quotas := quotas_after key (day_of (pub_clock s)) (pa_quotas s),
                 pa_db := release_locks (sent_db fw tw x r email (pa_db s))\<rparr>" by simp_all
      have snd: "snd (send_to_user W user key coin email x idem l s) = t" using Pair by simp
      show ?thesis by (rule sent [OF r None w q p]) (simp add: snd t)
    next
      case (Some e)
      with c Pair have "snd (send_to_user W user key coin email x idem l s) \<in> {s, pub_release s}" by simp
      then show ?thesis by (rule nothing)
    qed
  qed
qed

section \<open>Runs\<close>

text \<open>
  What the rest of the platform may do between two requests: time passes, identifiers are used and the ledger grows, by
  entries that are not transfers of the public API. Wallets and users are free.
\<close>

definition elsewhere :: "db \<Rightarrow> db \<Rightarrow> bool" where
  "elsewhere d d' \<longleftrightarrow> clock d \<le> clock d' \<and> next_id d \<le> next_id d' \<and>
     (\<exists>new. ledger d' = ledger d @ new \<and> (\<forall>e\<in>set new. le_reference_type e \<noteq> Some ''PublicApiTransfer''))"

inductive pub_step :: "pub_env \<Rightarrow> nat \<Rightarrow> int \<Rightarrow> pub_db \<Rightarrow> pub_db \<Rightarrow> bool" for W skew l where
  works_elsewhere: "elsewhere (pa_db s) d \<Longrightarrow> pub_step W skew l s (s\<lparr>pa_db := d\<rparr>)"
| issues: "issue_api_key W raw iv iv' user name scopes ips days sig s = Some (r, t) \<Longrightarrow> pub_step W skew l s t"
| rotates: "pub_step W skew l s (snd (rotate_api_key W raw iv user i s))"
| disables: "pub_step W skew l s (snd (disable_api_key user i s))"
| uses_key: "pub_step W skew l s (snd (authenticate_by_hash W raw ip s))"
| signs: "pub_step W skew l s (snd (verify_signed_request W input skew s))"
| sends: "key < 2 ^ 128 \<Longrightarrow> pub_step W skew l s (snd (send_to_user W user key coin email x idem l s))"

definition keeps_key :: "(api_key_row \<Rightarrow> api_key_row) \<Rightarrow> bool" where
  "keeps_key f \<longleftrightarrow> (\<forall>k. ak_id (f k) = ak_id k \<and> ak_user (f k) = ak_user k \<and>
     (ak_disabled_at k \<noteq> None \<longrightarrow> ak_disabled_at (f k) \<noteq> None))"

locale pub_invariant =
  fixes W :: pub_env and skew :: nat and l :: int and I :: "pub_db \<Rightarrow> bool"
  assumes kept_elsewhere: "I s \<Longrightarrow> elsewhere (pa_db s) d \<Longrightarrow> I (s\<lparr>pa_db := d\<rparr>)"
    and kept_insert: "I s \<Longrightarrow> ak_id k = next_id (pa_db s) \<Longrightarrow>
      I (snd (insert_api_key k (s\<lparr>pa_db := (pa_db s)\<lparr>next_id := Suc (next_id (pa_db s))\<rparr>\<rparr>)))"
    and kept_update: "I s \<Longrightarrow> keeps_key f \<Longrightarrow> I (update_key i f s)"
    and kept_nonce: "I s \<Longrightarrow> I (snd (reserve_nonce i sig (prune_nonces i (pub_clock s - int skew * 1000000) s)))"
    and kept_release: "I s \<Longrightarrow> I (pub_release s)"
    and kept_send: "I s \<Longrightarrow> key < 2 ^ 128 \<Longrightarrow> quota_open key (day_of (pub_clock s)) l s \<Longrightarrow>
      find_transfer (pa_db s) (send_ref key idem) = None \<Longrightarrow>
      can_send fw tw x (send_ref key idem) email (pa_db s) \<Longrightarrow>
      I (s\<lparr>pa_quotas := quotas_after key (day_of (pub_clock s)) (pa_quotas s),
           pa_db := release_locks (sent_db fw tw x (send_ref key idem) email (pa_db s))\<rparr>)"
begin

lemma kept_touch: "I s \<Longrightarrow> I (touch_key i s)"
  unfolding touch_key_def by (rule kept_update) (simp_all add: keeps_key_def)

lemma kept_step:
  assumes "pub_step W skew l s t" and "I s"
  shows "I t"
  using assms
proof cases
  case (works_elsewhere d)
  with assms(2) kept_elsewhere show ?thesis by simp
next
  case (issues raw iv iv' user name scopes ips days sig r)
  have g: "insert_api_key k (s\<lparr>pa_db := (pa_db s)\<lparr>next_id := Suc (next_id (pa_db s))\<rparr>\<rparr>) = (res, u) \<Longrightarrow>
      ak_id k = next_id (pa_db s) \<longrightarrow> I u" for k res u
    using kept_insert [OF assms(2), of k] by simp
  show ?thesis using issues unfolding issue_api_key_def Let_def
    by (auto split: option.splits prod.splits sum.splits dest!: g)
next
  case (rotates raw iv user i)
  with assms(2) show ?thesis
    by (auto simp: rotate_api_key_def Let_def keeps_key_def intro!: kept_update)
next
  case (disables user i)
  with assms(2) show ?thesis by (auto simp: disable_api_key_def keeps_key_def intro!: kept_update)
next
  case (uses_key raw ip)
  with assms(2) kept_touch show ?thesis
    by (auto simp: authenticate_by_hash_def Let_def split: option.splits sum.splits)
next
  case (signs input)
  have n: "I u" if "reserve_nonce i sig (prune_nonces i (pub_clock s - int skew * 1000000) s) = (b, u)" for i sig b u
    using kept_nonce [OF assms(2), of i sig] that by simp
  show ?thesis unfolding signs verify_signed_request_def Let_def
    using assms(2) by (auto split: option.split sum.split prod.split bool.split intro: kept_touch n)
next
  case (sends key user coin email x idem)
  show ?thesis unfolding sends(1)
  proof (rule send_cases [of W user key coin email x idem l s])
    assume "snd (send_to_user W user key coin email x idem l s) \<in> {s, pub_release s}"
    with assms(2) kept_release show "I (snd (send_to_user W user key coin email x idem l s))" by auto
  next
    fix rcp fw tw r
    assume "r = send_ref key idem" "find_transfer (pa_db s) r = None" "quota_open key (day_of (pub_clock s)) l s"
      "can_send fw tw x r email (pa_db s)"
      "snd (send_to_user W user key coin email x idem l s) =
         s\<lparr>pa_quotas := quotas_after key (day_of (pub_clock s)) (pa_quotas s),
           pa_db := release_locks (sent_db fw tw x r email (pa_db s))\<rparr>"
    with kept_send [OF assms(2) sends(2)] show "I (snd (send_to_user W user key coin email x idem l s))" by simp
  qed
qed

lemma kept_run: "(pub_step W skew l)\<^sup>*\<^sup>* s t \<Longrightarrow> I s \<Longrightarrow> I t"
  by (induction rule: rtranclp_induct) (auto intro: kept_step)

end

section \<open>Invariants\<close>

lemma insert_api_key_state:
  "snd (insert_api_key k s) = s \<or> snd (insert_api_key k s) = s\<lparr>pa_keys := pa_keys s @ [k]\<rparr>"
  by (simp add: insert_api_key_def)

lemma reserve_nonce_state:
  "snd (reserve_nonce i sig s) = s \<or>
   snd (reserve_nonce i sig s) = s\<lparr>pa_nonces := pa_nonces s @ [\<lparr>nn_key = i, nn_signature = sig, nn_seen_at = pub_clock s\<rparr>]\<rparr>"
  by (simp add: reserve_nonce_def)

lemma writes_elsewhere [simp]:
  "pa_db (snd (reserve_nonce i sig s)) = pa_db s" "pa_keys (snd (reserve_nonce i sig s)) = pa_keys s"
  "pa_quotas (snd (reserve_nonce i sig s)) = pa_quotas s" "pa_db (prune_nonces i c s) = pa_db s"
  "pa_keys (prune_nonces i c s) = pa_keys s" "pa_quotas (prune_nonces i c s) = pa_quotas s"
  "pa_db (update_key i f s) = pa_db s" "pa_nonces (update_key i f s) = pa_nonces s" "pa_quotas (update_key i f s) = pa_quotas s"
  "pa_db (snd (insert_api_key k s)) = pa_db s" "pa_nonces (snd (insert_api_key k s)) = pa_nonces s"
  "pa_quotas (snd (insert_api_key k s)) = pa_quotas s"
  "pub_clock (prune_nonces i c s) = pub_clock s"
  by (simp_all add: reserve_nonce_def prune_nonces_def update_key_def insert_api_key_def pub_clock_def)

subsection \<open>Disabled keys\<close>

definition dead_key :: "uuid \<Rightarrow> pub_db \<Rightarrow> bool" where
  "dead_key i s \<longleftrightarrow> i < next_id (pa_db s) \<and> (\<forall>k\<in>set (pa_keys s). ak_id k = i \<longrightarrow> ak_disabled_at k \<noteq> None)"

interpretation dead: pub_invariant W skew l "dead_key i" for W skew l i
proof
  fix s :: pub_db and k :: api_key_row
  assume "dead_key i s" "ak_id k = next_id (pa_db s)"
  then show "dead_key i (snd (insert_api_key k (s\<lparr>pa_db := (pa_db s)\<lparr>next_id := Suc (next_id (pa_db s))\<rparr>\<rparr>)))"
    using insert_api_key_state [of k "s\<lparr>pa_db := (pa_db s)\<lparr>next_id := Suc (next_id (pa_db s))\<rparr>\<rparr>"]
    by (auto simp: dead_key_def)
next
  fix s :: pub_db and f j
  assume "dead_key i s" "keeps_key f"
  then show "dead_key i (update_key j f s)"
    by (fastforce simp: dead_key_def update_key_def in_set_update_where keeps_key_def)
qed (auto simp: dead_key_def elsewhere_def)

lemma dead_key_by_hash:
  assumes "dead_key i s"
  shows "fst (authenticate_by_hash W raw ip s) \<noteq> Inr r \<or> kr_id r \<noteq> i"
proof -
  have "\<not> (kr_id (row_to_record k) = i \<and> check_usable p (row_to_record k) ip c = Inr u)"
    if "List.find q (pa_keys s) = Some k" for k q p c u
    using find_Some_props [OF that] assms by (auto simp: dead_key_def check_usable_def row_to_record_def)
  then show ?thesis by (auto simp: authenticate_by_hash_def Let_def split: option.split sum.split)
qed

lemma dead_key_signed:
  assumes "dead_key i s"
  shows "fst (verify_signed_request W input skew s) \<noteq> Inr r \<or> kr_id r \<noteq> i"
proof -
  have "\<not> (kr_id (row_to_record k) = i \<and> check_usable p (row_to_record k) ip c = Inr u)"
    if "find_api_key s j = Some k" for k j p ip c u
    using find_Some_props [OF that [unfolded find_api_key_def]] assms
    by (auto simp: dead_key_def check_usable_def row_to_record_def)
  then show ?thesis
    by (auto simp: verify_signed_request_def Let_def split: option.split sum.split prod.split bool.split)
qed

subsection \<open>Transfers made\<close>

lemma find_transfer_grows:
  "find_transfer d k \<noteq> None \<Longrightarrow> ledger d' = ledger d @ new \<Longrightarrow> find_transfer d' k \<noteq> None"
  by (auto simp: find_transfer_def find_None_iff)

interpretation made: pub_invariant W skew l "\<lambda>s. find_transfer (pa_db s) r \<noteq> None" for W skew l r
proof
  fix s :: pub_db and d
  assume f: "find_transfer (pa_db s) r \<noteq> None" and "elsewhere (pa_db s) d"
  then obtain new where "ledger d = ledger (pa_db s) @ new" by (auto simp: elsewhere_def)
  from find_transfer_grows [OF f this] show "find_transfer (pa_db (s\<lparr>pa_db := d\<rparr>)) r \<noteq> None" by simp
next
  fix s :: pub_db and k :: api_key_row
  assume "find_transfer (pa_db s) r \<noteq> None"
  then show "find_transfer (pa_db (snd (insert_api_key k (s\<lparr>pa_db := (pa_db s)\<lparr>next_id := Suc (next_id (pa_db s))\<rparr>\<rparr>)))) r \<noteq> None"
    by (simp add: find_transfer_def)
next
  fix s :: pub_db
  assume "find_transfer (pa_db s) r \<noteq> None"
  then show "find_transfer (pa_db (pub_release s)) r \<noteq> None" by (simp add: find_transfer_def)
next
  fix s :: pub_db and key idem fw tw x email Q
  assume "find_transfer (pa_db s) r \<noteq> None"
  then show "find_transfer (pa_db (s\<lparr>pa_quotas := quotas_after key (day_of (pub_clock s)) (pa_quotas s),
      pa_db := release_locks (sent_db fw tw x (send_ref key idem) email (pa_db s))\<rparr>)) r \<noteq> None"
    by (rule find_transfer_grows) simp
qed simp_all

subsection \<open>Daily quotas\<close>

definition sent_by :: "uuid \<Rightarrow> int \<Rightarrow> ledger_row \<Rightarrow> bool" where
  "sent_by key day e \<longleftrightarrow> le_type e = TRANSFER_OUT \<and> le_reference_type e = Some ''PublicApiTransfer'' \<and>
     (case le_reference_key e of None \<Rightarrow> False | Some k \<Rightarrow> starts_with (send_ref key []) k) \<and> day_of (le_created_at e) = day"

lemma received_not_sent [simp]: "\<not> sent_by key day (entry_of (in_input tw x r) i c)"
  by (simp add: sent_by_def entry_of_def)

definition sends_on :: "uuid \<Rightarrow> int \<Rightarrow> db \<Rightarrow> int" where
  "sends_on key day d = int (length (filter (sent_by key day) (ledger d)))"

definition quota_kept :: "int \<Rightarrow> uuid \<Rightarrow> int \<Rightarrow> pub_db \<Rightarrow> bool" where
  "quota_kept l key day s \<longleftrightarrow> sends_on key day (pa_db s) \<le> quota_count key day s \<and> quota_count key day s \<le> max 1 l"

lemma quota_count_cong: "pa_quotas t = pa_quotas s \<Longrightarrow> quota_count key day t = quota_count key day s"
  by (simp add: quota_count_def)

lemma send_ref_prefix:
  assumes "key < 2 ^ 128" and "key' < 2 ^ 128"
  shows "starts_with (send_ref key []) (send_ref key' idem) \<longleftrightarrow> key = key'"
proof -
  have "take (length (send_ref key [])) (send_ref key' idem) = send_ref key' []" by (simp add: send_ref_def)
  then show ?thesis using show_uuid_inj [OF assms] by (auto simp: starts_with_def send_ref_def)
qed

lemma find_bumped:
  "List.find (\<lambda>q. qt_key q = key \<and> qt_day q = day)
     (update_where (\<lambda>q. qt_key q = key' \<and> qt_day q = day') (\<lambda>q. q\<lparr>qt_count := qt_count q + 1\<rparr>) Q) =
    (if key = key' \<and> day = day' then map_option (\<lambda>q. q\<lparr>qt_count := qt_count q + 1\<rparr>)
       (List.find (\<lambda>q. qt_key q = key \<and> qt_day q = day) Q)
     else List.find (\<lambda>q. qt_key q = key \<and> qt_day q = day) Q)"
  by (induction Q) auto

lemma quota_count_after:
  "quota_count key day (s\<lparr>pa_quotas := quotas_after key' day' (pa_quotas s), pa_db := d\<rparr>) =
    quota_count key day s + (if key = key' \<and> day = day' then 1 else 0)"
proof (cases "key = key' \<and> day = day'")
  case True
  then show ?thesis by (auto simp: quota_count_def quotas_after_def find_append find_bumped split: option.split)
next
  case False
  then show ?thesis by (auto simp: quota_count_def quotas_after_def find_append find_bumped split: option.split)
qed

lemma quota_kept_same:
  "quota_kept l key day s \<Longrightarrow> pa_quotas t = pa_quotas s \<Longrightarrow> filter (sent_by key day) (ledger (pa_db t)) = filter (sent_by key day) (ledger (pa_db s))
   \<Longrightarrow> quota_kept l key day t"
  by (simp add: quota_kept_def sends_on_def quota_count_cong [of t s])

interpretation quotas: pub_invariant W skew l "\<lambda>s. key < 2 ^ 128 \<longrightarrow> quota_kept l key day s" for W skew l key day
proof
  fix s :: pub_db and d
  assume k: "key < 2 ^ 128 \<longrightarrow> quota_kept l key day s" and "elsewhere (pa_db s) d"
  then obtain new where "ledger d = ledger (pa_db s) @ new" "\<forall>e\<in>set new. le_reference_type e \<noteq> Some ''PublicApiTransfer''"
    by (auto simp: elsewhere_def)
  then have "filter (sent_by key day) (ledger d) = filter (sent_by key day) (ledger (pa_db s))"
    by (auto simp: sent_by_def filter_empty_conv)
  with k show "key < 2 ^ 128 \<longrightarrow> quota_kept l key day (s\<lparr>pa_db := d\<rparr>)" using quota_kept_same [of l key day s "s\<lparr>pa_db := d\<rparr>"] by simp
next
  fix s :: pub_db and key' idem fw tw x email
  assume k: "key < 2 ^ 128 \<longrightarrow> quota_kept l key day s" and k': "key' < 2 ^ 128"
    and q: "quota_open key' (day_of (pub_clock s)) l s"
  let ?d = "pa_db s" and ?r = "send_ref key' idem"
  let ?t = "s\<lparr>pa_quotas := quotas_after key' (day_of (pub_clock s)) (pa_quotas s),
      pa_db := release_locks (sent_db fw tw x ?r email ?d)\<rparr>"
  show "key < 2 ^ 128 \<longrightarrow> quota_kept l key day ?t"
  proof
    assume key: "key < 2 ^ 128"
    with k have kept: "quota_kept l key day s" by simp
    have a: "sent_by key day (entry_of (out_input fw x ?r email) i (clock ?d)) \<longleftrightarrow> key = key' \<and> day = day_of (pub_clock s)" for i
      using send_ref_prefix [OF key k'] by (auto simp: sent_by_def entry_of_def pub_clock_def)
    have "sends_on key day (pa_db ?t) = sends_on key day ?d + (if key = key' \<and> day = day_of (pub_clock s) then 1 else 0)"
      by (simp add: sends_on_def a)
    moreover have "quota_count key day ?t = quota_count key day s + (if key = key' \<and> day = day_of (pub_clock s) then 1 else 0)"
      by (rule quota_count_after)
    moreover have "quota_count key day s + 1 \<le> max 1 l" if "key = key'" "day = day_of (pub_clock s)"
      using q that by (auto simp: quota_open_def quota_count_def split: option.splits)
    ultimately show "quota_kept l key day ?t" using kept by (auto simp: quota_kept_def)
  qed
qed (auto elim!: quota_kept_same)

end
