(* ===== verification/PublicKeys.thy ===== *)
theory PublicKeys
  imports PublicFlow
begin

text \<open>
  The claims about who a request of the public API is: a disabled key authenticates nobody, an accepted signature is
  not accepted again unless its timestamp lay in the future, and an address range is the addresses that share its prefix.
\<close>

section \<open>Timestamps\<close>

lemma wrap_i64_mod: "wrap_i64 x = (x + 2 ^ 63) mod 2 ^ 64 - 2 ^ 63"
  by (simp add: wrap_i64_def signed_take_bit_eq_take_bit_shift take_bit_eq_mod)

lemma wrap_i64_small: "- (2 ^ 63) \<le> x \<Longrightarrow> x < 2 ^ 63 \<Longrightarrow> wrap_i64 x = x"
  by (simp add: wrap_i64_mod mod_pos_pos_trivial)

lemma wrap_i64_range: "- (2 ^ 63) \<le> wrap_i64 x \<and> wrap_i64 x < 2 ^ 63"
  using pos_mod_sign [of "2 ^ 64" "x + 2 ^ 63"] pos_mod_bound [of "2 ^ 64" "x + 2 ^ 63"]
  by (simp add: wrap_i64_mod)

lemma wrap_i64_over: "2 ^ 63 \<le> x \<Longrightarrow> x < 2 ^ 64 \<Longrightarrow> wrap_i64 x = x - 2 ^ 64"
proof -
  assume "2 ^ 63 \<le> x" "x < 2 ^ 64"
  then have "(x + 2 ^ 63 - 2 ^ 64) mod 2 ^ 64 = x + 2 ^ 63 - 2 ^ 64" by (intro mod_pos_pos_trivial) simp_all
  moreover have "(x + 2 ^ 63 - 2 ^ 64) mod 2 ^ 64 = (x + 2 ^ 63) mod 2 ^ 64" by (rule minus_mod_self2)
  ultimately show ?thesis unfolding wrap_i64_mod by linarith
qed

lemma parse_i64_range: "parse_i64 v = Some x \<Longrightarrow> - (2 ^ 63) \<le> x \<and> x < 2 ^ 63"
  by (auto simp: parse_i64_def Let_def split: option.splits if_splits)

lemma signed_ms_range:
  assumes "parse_i64 v = Some x"
  shows "- (2 ^ 63) \<le> signed_ms x \<and> signed_ms x < 2 ^ 63"
proof (cases "x < 1000000000000")
  case True
  then show ?thesis using wrap_i64_range [of "x * 1000"] by (simp add: signed_ms_def)
next
  case False
  then show ?thesis using parse_i64_range [OF assms] by (simp add: signed_ms_def)
qed

lemma past_outside:
  assumes "parse_i64 v = Some x" and "signed_ms x + int skew * 1000 < n" and "n < 2 ^ 62" and "int skew < 2 ^ 50"
  shows "outside_window skew n (signed_ms x)"
proof (cases "n - signed_ms x < 2 ^ 63")
  case True
  with assms(2) have "wrap_i64 (n - signed_ms x) = n - signed_ms x" by (intro wrap_i64_small) simp_all
  with assms(2) show ?thesis by (simp add: outside_window_def)
next
  case False
  with signed_ms_range [OF assms(1)] assms(3) have "wrap_i64 (n - signed_ms x) = n - signed_ms x - 2 ^ 64"
    by (intro wrap_i64_over) simp_all
  with signed_ms_range [OF assms(1)] assms(3,4) show ?thesis by (simp add: outside_window_def)
qed

section \<open>Signatures\<close>

lemma verify_accepts:
  assumes "verify_signed_request W input skew s = (Inr r, t)"
  obtains ts row raw where "parse_i64 (vi_timestamp input) = Some ts"
    "\<not> outside_window skew (pub_clock s div 1000) (signed_ms ts)"
    "find_api_key s (vi_key_id input) = Some row" "r = row_to_record row"
    "check_usable (pe_ip W) r (vi_source_ip input) (pub_clock s) = Inr ()"
    "decrypt_with_aad (pe_prims W) (pe_secrets W) (ak_key_enc row) (api_key_aad (kr_id r)) = Inr raw"
    "ct_eq_str (sign_request (pe_prims W) raw (vi_timestamp input) (vi_method input) (vi_path input) (vi_raw_body input))
       (vi_signature input)"
    "reserve_nonce (kr_id r) (vi_signature input) (prune_nonces (kr_id r) (pub_clock s - int skew * 1000000) s) =
       (True, snd (reserve_nonce (kr_id r) (vi_signature input) (prune_nonces (kr_id r) (pub_clock s - int skew * 1000000) s)))"
    "t = touch_key (kr_id r) (snd (reserve_nonce (kr_id r) (vi_signature input)
       (prune_nonces (kr_id r) (pub_clock s - int skew * 1000000) s)))"
proof -
  show ?thesis
    using assms unfolding verify_signed_request_def Let_def
    by (auto split: option.splits if_splits sum.splits prod.splits bool.splits intro: that)
qed

lemma found_key_id: "find_api_key s i = Some row \<Longrightarrow> ak_id row = i"
  unfolding find_api_key_def by (drule find_Some_props) simp

definition sig_spent :: "nat \<Rightarrow> uuid \<Rightarrow> string \<Rightarrow> int \<Rightarrow> pub_db \<Rightarrow> bool" where
  "sig_spent skew key sig T s \<longleftrightarrow>
     (\<exists>n\<in>set (pa_nonces s). nn_key n = key \<and> nn_signature n = sig \<and> T < nn_seen_at n div 1000) \<or>
     T + int skew * 1000 < pub_clock s div 1000"

lemma sig_spent_same: "sig_spent skew key sig T s \<Longrightarrow> pa_nonces t = pa_nonces s \<Longrightarrow> pub_clock t = pub_clock s \<Longrightarrow> sig_spent skew key sig T t"
  by (simp add: sig_spent_def)

lemma pub_clock_frame [simp]:
  "pub_clock (snd (insert_api_key k s)) = pub_clock s" "pub_clock (update_key i f s) = pub_clock s"
  "pub_clock (snd (reserve_nonce i sig s)) = pub_clock s"
  "pub_clock (s\<lparr>pa_quotas := Q, pa_db := release_locks (sent_db fw tw x r m (pa_db s))\<rparr>) = pub_clock s"
  "pub_clock (s\<lparr>pa_db := d\<rparr>) = clock d"
  by (simp_all add: pub_clock_def)

lemma verify_clock: "verify_signed_request W input skew s = (Inr r, t) \<Longrightarrow> pub_clock t = pub_clock s"
  by (erule verify_accepts) (simp add: touch_key_def)

interpretation spent_sig: pub_invariant W skew l "sig_spent skew key sig T" for W skew l key sig T
proof
  fix s :: pub_db and d
  assume "sig_spent skew key sig T s" "elsewhere (pa_db s) d"
  then show "sig_spent skew key sig T (s\<lparr>pa_db := d\<rparr>)"
    using zdiv_mono1 [of "clock (pa_db s)" "clock d" 1000] by (auto simp: sig_spent_def elsewhere_def pub_clock_def)
next
  fix s :: pub_db and i sig'
  assume spent: "sig_spent skew key sig T s"
  let ?p = "prune_nonces i (pub_clock s - int skew * 1000000) s"
  have "sig_spent skew key sig T ?p"
  proof (cases "T + int skew * 1000 < pub_clock s div 1000")
    case True
    then show ?thesis by (simp add: sig_spent_def)
  next
    case False
    with spent obtain n where n: "n \<in> set (pa_nonces s)" "nn_key n = key" "nn_signature n = sig" "T < nn_seen_at n div 1000"
      by (auto simp: sig_spent_def)
    have "\<not> nn_seen_at n < pub_clock s - int skew * 1000000" using n(4) False by linarith
    with n have "n \<in> set (pa_nonces ?p)" by (simp add: prune_nonces_def)
    with n show ?thesis by (auto simp: sig_spent_def)
  qed
  then show "sig_spent skew key sig T (snd (reserve_nonce i sig' ?p))"
    using reserve_nonce_state [of i sig' ?p] by (auto simp: sig_spent_def)
qed (auto elim!: sig_spent_same simp: pub_clock_def)

text \<open>
  C9. An accepted signature is accepted once: when the timestamp of a signed request lies at least a millisecond in the
  past as it is accepted, then after any run of requests no request with the same key, signature and timestamp is
  accepted again, whatever its method, path, body and source address.
\<close>

theorem signature_accepted_once:
  assumes "verify_signed_request W input skew s = (Inr r, s1)" and "parse_i64 (vi_timestamp input) = Some ts"
    and "signed_ms ts < pub_clock s div 1000" and "(pub_step W skew l)\<^sup>*\<^sup>* s1 t"
    and "pub_clock t < 2 ^ 63" and "int skew < 2 ^ 50"
    and "vi_key_id input' = vi_key_id input" and "vi_signature input' = vi_signature input"
    and "vi_timestamp input' = vi_timestamp input"
  shows "fst (verify_signed_request W input' skew t) \<noteq> Inr r'"
proof
  assume acc: "fst (verify_signed_request W input' skew t) = Inr r'"
  let ?k = "vi_key_id input" and ?sig = "vi_signature input" and ?T = "signed_ms ts"
  have "sig_spent skew ?k ?sig ?T s1"
  proof -
    from verify_accepts [OF assms(1)] obtain row where row: "find_api_key s ?k = Some row" "r = row_to_record row"
      and res: "reserve_nonce (kr_id r) ?sig (prune_nonces (kr_id r) (pub_clock s - int skew * 1000000) s) =
        (True, snd (reserve_nonce (kr_id r) ?sig (prune_nonces (kr_id r) (pub_clock s - int skew * 1000000) s)))"
      and s1: "s1 = touch_key (kr_id r) (snd (reserve_nonce (kr_id r) ?sig (prune_nonces (kr_id r) (pub_clock s - int skew * 1000000) s)))"
      by metis
    have k: "kr_id r = ?k" using row found_key_id by (simp add: row_to_record_def)
    have "\<lparr>nn_key = ?k, nn_signature = ?sig, nn_seen_at = pub_clock s\<rparr> \<in> set (pa_nonces s1)"
      using res unfolding s1 k by (auto simp: reserve_nonce_def touch_key_def split: if_splits)
    with assms(3) show ?thesis by (force simp: sig_spent_def)
  qed
  with spent_sig.kept_run [OF assms(4)] have spent: "sig_spent skew ?k ?sig ?T t" by blast
  obtain t' where v: "verify_signed_request W input' skew t = (Inr r', t')" using acc by (metis prod.collapse)
  from verify_accepts [OF v] assms(7-9) obtain ts' row' where ts': "parse_i64 (vi_timestamp input) = Some ts'"
    and w: "\<not> outside_window skew (pub_clock t div 1000) (signed_ms ts')" and row': "find_api_key t ?k = Some row'" "r' = row_to_record row'"
    and res': "reserve_nonce (kr_id r') ?sig (prune_nonces (kr_id r') (pub_clock t - int skew * 1000000) t) =
        (True, snd (reserve_nonce (kr_id r') ?sig (prune_nonces (kr_id r') (pub_clock t - int skew * 1000000) t)))"
    by metis
  have k': "kr_id r' = ?k" using row' found_key_id by (simp add: row_to_record_def)
  have n: "pub_clock t div 1000 < 2 ^ 62" using zdiv_mono1 [of "pub_clock t" "2 ^ 63" 1000] assms(5) by simp
  have "\<not> ?T + int skew * 1000 < pub_clock t div 1000"
    using past_outside [OF assms(2) _ n assms(6)] w ts' assms(2) by auto
  with spent obtain x where x: "x \<in> set (pa_nonces t)" "nn_key x = ?k" "nn_signature x = ?sig" "?T < nn_seen_at x div 1000"
    and T: "pub_clock t div 1000 \<le> ?T + int skew * 1000" by (auto simp: sig_spent_def)
  have "\<not> nn_seen_at x < pub_clock t - int skew * 1000000" using x(4) T by linarith
  with x res' k' show False by (auto simp: reserve_nonce_def prune_nonces_def split: if_splits)
qed

section \<open>A demonstration\<close>

definition demo_pub_env :: pub_env where
  "demo_pub_env = \<lparr>pe_prims = demo_primitives, pe_secrets = demo_secrets, pe_ip = (\<lambda>_. None), pe_add_days = (\<lambda>t d. Some (t + d))\<rparr>"

definition demo_key :: api_key_row where
  "demo_key = \<lparr>ak_id = 2, ak_user = 7, ak_label = ''k'', ak_key_hash = ''h'', ak_key_prefix = ''K'',
     ak_key_enc = encrypt_with_aad demo_primitives demo_secrets (replicate 12 (CHR ''n'')) ''K'' (api_key_aad 2),
     ak_scopes = [''send''], ak_allowed_ips = [], ak_expires_at = None, ak_require_signature = True, ak_disabled_at = None,
     ak_created_at = 0, ak_last_used_at = None\<rparr>"

definition demo_pub :: "db \<Rightarrow> pub_db" where
  "demo_pub d = \<lparr>pa_db = d, pa_email_hmac = (\<lambda>_. None), pa_keys = [demo_key], pa_nonces = [], pa_quotas = []\<rparr>"

definition demo_at :: "int \<Rightarrow> db" where
  "demo_at t = empty_db\<lparr>clock := t, next_id := 100\<rparr>"

definition demo_signed_input :: "string \<Rightarrow> VerifySignedRequestInput" where
  "demo_signed_input ts = \<lparr>vi_key_id = 2, vi_timestamp = ts, vi_signature = sign_request demo_primitives ''K'' ts ''POST'' ''/v1/public/send'' [],
     vi_method = ''POST'', vi_path = ''/v1/public/send'', vi_raw_body = [], vi_source_ip = ''203.0.113.9''\<rparr>"

lemma demo_decrypts:
  "decrypt_with_aad demo_primitives demo_secrets (ak_key_enc demo_key) (api_key_aad 2) = Inr ''K''"
  unfolding demo_key_def api_key_row.simps
  by (rule decrypt_encrypt [OF demo_primitives_ok]) (simp_all add: IV_LEN_def byte_in_def)

lemma demo_accepts:
  assumes "parse_i64 v = Some ts" and "\<not> outside_window 300 (t div 1000) (signed_ms ts)"
  shows "fst (verify_signed_request demo_pub_env (demo_signed_input v) 300 (demo_pub (demo_at t))) = Inr (row_to_record demo_key)"
proof -
  have r: "ak_id demo_key = 2" "ak_disabled_at demo_key = None" "ak_expires_at demo_key = None" "ak_allowed_ips demo_key = []"
    by (simp_all add: demo_key_def)
  show ?thesis
    using assms by (simp add: verify_signed_request_def Let_def demo_signed_input_def demo_pub_def demo_at_def demo_pub_env_def
        find_api_key_def r row_to_record_def check_usable_def demo_decrypts ct_eq_str_def reserve_nonce_def prune_nonces_def pub_clock_def)
qed

lemma demo_accepts_pair:
  assumes "parse_i64 v = Some ts" and "\<not> outside_window 300 (t div 1000) (signed_ms ts)"
  shows "verify_signed_request demo_pub_env (demo_signed_input v) 300 (demo_pub (demo_at t)) =
    (Inr (row_to_record demo_key), snd (verify_signed_request demo_pub_env (demo_signed_input v) 300 (demo_pub (demo_at t))))"
  using demo_accepts [OF assms] by (simp add: prod_eq_iff)

lemma demo_timestamps:
  "parse_i64 ''1999999999'' = Some 1999999999" "parse_i64 ''2000000300'' = Some 2000000300"
  by (simp_all add: parse_i64_def digit_value_def Let_def)

lemma demo_window:
  "signed_ms 1999999999 = 1999999999000" "signed_ms 2000000300 = 2000000300000"
  "\<not> outside_window 300 2000000000000 1999999999000" "\<not> outside_window 300 2000000000000 2000000300000"
  "\<not> outside_window 300 2000000301000 2000000300000"
  by (simp_all add: signed_ms_def outside_window_def wrap_i64_mod)

theorem signature_accepted_once_witness:
  "fst (verify_signed_request demo_pub_env (demo_signed_input ''1999999999'') 300
     (snd (verify_signed_request demo_pub_env (demo_signed_input ''1999999999'') 300 (demo_pub (demo_at 2000000000000000)))))
   \<noteq> Inr (row_to_record demo_key)"
proof -
  let ?v = "\<lambda>s. verify_signed_request demo_pub_env (demo_signed_input ''1999999999'') 300 s"
  let ?s = "demo_pub (demo_at 2000000000000000)"
  have acc: "?v ?s = (Inr (row_to_record demo_key), snd (?v ?s))"
    by (rule demo_accepts_pair [OF demo_timestamps(1)]) (simp add: demo_window)
  have ts: "parse_i64 (vi_timestamp (demo_signed_input ''1999999999'')) = Some 1999999999"
    by (simp add: demo_signed_input_def demo_timestamps)
  have c: "pub_clock ?s = 2000000000000000" by (simp add: demo_pub_def demo_at_def pub_clock_def)
  have "pub_clock (snd (?v ?s)) = pub_clock ?s" by (rule verify_clock [OF acc])
  with c have "pub_clock (snd (?v ?s)) < 2 ^ 63" by simp
  from signature_accepted_once [OF acc ts _ _ this, of 0 "demo_signed_input ''1999999999''" "row_to_record demo_key"] show ?thesis
    by (simp add: c demo_window)
qed

text \<open>
  A signature dated into the future can be replayed inside its own window: the nonce is forgotten once the skew has
  passed since it was seen, and a timestamp that then still lies in the window lets the same request through a second time.
\<close>

theorem future_signature_replayed:
  assumes "verify_signed_request W input skew s = (Inr r, s1)" and "parse_i64 (vi_timestamp input) = Some ts"
    and "pub_clock s + int skew * 1000000 < clock d" and "\<not> outside_window skew (clock d div 1000) (signed_ms ts)"
    and "kr_expires_at r = None"
  shows "fst (verify_signed_request W input skew (s1\<lparr>pa_db := d\<rparr>)) = Inr r"
proof -
  let ?k = "vi_key_id input" and ?sig = "vi_signature input"
  from verify_accepts [OF assms(1)] obtain row raw where row: "find_api_key s ?k = Some row" "r = row_to_record row"
    and use: "check_usable (pe_ip W) r (vi_source_ip input) (pub_clock s) = Inr ()"
    and dec: "decrypt_with_aad (pe_prims W) (pe_secrets W) (ak_key_enc row) (api_key_aad (kr_id r)) = Inr raw"
    and sig: "ct_eq_str (sign_request (pe_prims W) raw (vi_timestamp input) (vi_method input) (vi_path input) (vi_raw_body input)) ?sig"
    and res: "reserve_nonce (kr_id r) ?sig (prune_nonces (kr_id r) (pub_clock s - int skew * 1000000) s) =
        (True, snd (reserve_nonce (kr_id r) ?sig (prune_nonces (kr_id r) (pub_clock s - int skew * 1000000) s)))"
    and s1: "s1 = touch_key (kr_id r) (snd (reserve_nonce (kr_id r) ?sig (prune_nonces (kr_id r) (pub_clock s - int skew * 1000000) s)))"
    by metis
  have k: "kr_id r = ?k" using row found_key_id by (simp add: row_to_record_def)
  let ?t = "s1\<lparr>pa_db := d\<rparr>"
  let ?row = "row\<lparr>ak_last_used_at := Some (pub_clock s)\<rparr>"
  have "find_api_key ?t ?k = map_option (\<lambda>x. x\<lparr>ak_last_used_at := Some (pub_clock s)\<rparr>) (find_api_key s ?k)"
    using find_update_where_key [of ak_id "\<lambda>x. x\<lparr>ak_last_used_at := Some (pub_clock s)\<rparr>" ?k ?k "pa_keys s"]
    by (simp add: s1 k find_api_key_def touch_key_def update_key_def)
  with row have found: "find_api_key ?t ?k = Some ?row" by simp
  have same: "row_to_record ?row = r" "ak_key_enc ?row = ak_key_enc row" using row by (simp_all add: row_to_record_def)
  have use': "check_usable (pe_ip W) r (vi_source_ip input) (clock d) = Inr ()"
    using use assms(5) by (simp add: check_usable_def split: if_splits)
  have "\<not> (\<exists>n\<in>set (pa_nonces (prune_nonces ?k (clock d - int skew * 1000000) ?t)). nn_key n = ?k \<and> nn_signature n = ?sig)"
    using res assms(3) unfolding s1 k
    by (auto simp: reserve_nonce_def touch_key_def update_key_def prune_nonces_def pub_clock_def split: if_splits)
  then have "\<exists>u. reserve_nonce ?k ?sig (prune_nonces ?k (clock d - int skew * 1000000) ?t) = (True, u)"
    by (simp add: reserve_nonce_def)
  then obtain u where "reserve_nonce ?k ?sig (prune_nonces ?k (clock d - int skew * 1000000) ?t) = (True, u)" by blast
  then show ?thesis
    using assms(2,4) found same use' dec sig k by (simp add: verify_signed_request_def Let_def)
qed

theorem future_signature_replayed_witness:
  "fst (verify_signed_request demo_pub_env (demo_signed_input ''2000000300'') 300
     ((snd (verify_signed_request demo_pub_env (demo_signed_input ''2000000300'') 300 (demo_pub (demo_at 2000000000000000))))
       \<lparr>pa_db := demo_at 2000000301000000\<rparr>)) = Inr (row_to_record demo_key)"
proof -
  let ?v = "\<lambda>s. verify_signed_request demo_pub_env (demo_signed_input ''2000000300'') 300 s"
  let ?s = "demo_pub (demo_at 2000000000000000)"
  have acc: "?v ?s = (Inr (row_to_record demo_key), snd (?v ?s))"
    by (rule demo_accepts_pair [OF demo_timestamps(2)]) (simp add: demo_window)
  have ts: "parse_i64 (vi_timestamp (demo_signed_input ''2000000300'')) = Some 2000000300"
    by (simp add: demo_signed_input_def demo_timestamps)
  show ?thesis
    by (rule future_signature_replayed [OF acc ts])
      (simp_all add: demo_pub_def demo_at_def pub_clock_def demo_window row_to_record_def demo_key_def)
qed

text \<open>
  A key that its owner disabled authenticates nobody again: along every run of requests, neither the key itself nor a
  signature of it is answered with its record.
\<close>

theorem disabled_key_is_dead:
  assumes "disable_api_key user i s = (Inr u, s1)" and "i < next_id (pa_db s)" and "(pub_step W skew l)\<^sup>*\<^sup>* s1 t"
  shows "(fst (authenticate_by_hash W raw ip t) \<noteq> Inr r \<or> kr_id r \<noteq> i) \<and>
    (fst (verify_signed_request W input skew' t) \<noteq> Inr r \<or> kr_id r \<noteq> i)"
proof -
  have s1: "s1 = update_key i (\<lambda>k. k\<lparr>ak_disabled_at := Some (pub_clock s)\<rparr>) s"
    using assms(1) by (simp add: disable_api_key_def split: if_splits)
  have "ak_disabled_at k \<noteq> None" if "k \<in> set (pa_keys s1)" and "ak_id k = i" for k
  proof -
    from that(1) have "k \<in> set (update_where (\<lambda>k. ak_id k = i) (\<lambda>k. k\<lparr>ak_disabled_at := Some (pub_clock s)\<rparr>) (pa_keys s))"
      by (simp add: s1 update_key_def)
    then obtain k0 where "k = (if ak_id k0 = i then k0\<lparr>ak_disabled_at := Some (pub_clock s)\<rparr> else k0)"
      unfolding in_set_update_where by blast
    with that(2) show ?thesis by (cases "ak_id k0 = i") simp_all
  qed
  with assms(2) have "dead_key i s1" by (simp add: dead_key_def s1)
  with dead.kept_run [OF assms(3)] have "dead_key i t" by blast
  then show ?thesis using dead_key_by_hash dead_key_signed by blast
qed

theorem disabled_key_is_dead_witness:
  "fst (verify_signed_request demo_pub_env (demo_signed_input ''1999999999'') 300
     (snd (disable_api_key 7 2 (demo_pub (demo_at 2000000000000000))))) \<noteq> Inr (row_to_record demo_key)"
proof -
  let ?s = "demo_pub (demo_at 2000000000000000)"
  have d: "disable_api_key 7 2 ?s = (Inr (), snd (disable_api_key 7 2 ?s))"
    by (simp add: disable_api_key_def demo_pub_def find_api_key_def demo_key_def)
  have "2 < next_id (pa_db ?s)" by (simp add: demo_pub_def demo_at_def)
  from disabled_key_is_dead [OF d this rtranclp.rtrancl_refl, where W = demo_pub_env and r = "row_to_record demo_key"] show ?thesis
    by (simp add: row_to_record_def demo_key_def)
qed

section \<open>Address ranges\<close>

lemma masked_eq:
  fixes x y :: "'a::len word"
  shows "x AND push_bit n (- 1) = y AND push_bit n (- 1) \<longleftrightarrow> drop_bit n x = drop_bit n y"
proof
  assume e: "x AND push_bit n (- 1) = y AND push_bit n (- 1)"
  show "drop_bit n x = drop_bit n y"
  proof (rule bit_eqI)
    fix m
    from e have "bit (x AND push_bit n (- 1)) (n + m) = bit (y AND push_bit n (- 1)) (n + m)" by simp
    then show "bit (drop_bit n x) m = bit (drop_bit n y) m"
      by (auto simp: bit_simps dest: bit_imp_le_length)
  qed
next
  assume e: "drop_bit n x = drop_bit n y"
  show "x AND push_bit n (- 1) = y AND push_bit n (- 1)"
  proof (rule bit_eqI)
    fix m
    from e have "bit (drop_bit n x) (m - n) = bit (drop_bit n y) (m - n)" by simp
    then show "bit (x AND push_bit n (- 1)) m = bit (y AND push_bit n (- 1)) m"
      by (auto simp: bit_simps)
  qed
qed

text \<open>
  An entry of the allow list that names an IPv4 range admits exactly the addresses that agree with it in the leading
  \<open>prefix\<close> bits, an IPv4 address written as a mapped IPv6 one included; a longer prefix than the address admits nothing.
\<close>

theorem range_is_prefix:
  assumes "parse (trim ip) = Some src" and "canonicalize_ip_addr src = V4 a' b' c' d'"
    and "split_once (CHR ''/'') (trim entry) = Some (net_s, prefix_s)"
    and "parse net_s = Some (V4 a b c d)" and "parse_u8 prefix_s = Some prefix"
    and "trim entry \<noteq> ''*''" and "trim entry \<noteq> trim ip"
  shows "ip_matches_allowlist parse entry ip \<longleftrightarrow>
    prefix \<le> 32 \<and> drop_bit (32 - prefix) (bits_v4 a b c d) = drop_bit (32 - prefix) (bits_v4 a' b' c' d')"
proof -
  have "x AND mask_v4 prefix = y AND mask_v4 prefix \<longleftrightarrow> drop_bit (32 - prefix) x = drop_bit (32 - prefix) y"
    if "prefix \<le> 32" for x y :: "32 word"
  proof (cases "prefix = 0")
    case True
    then show ?thesis using drop_bit_word_beyond by (simp add: mask_v4_def)
  next
    case False
    with that masked_eq show ?thesis by (auto simp: mask_v4_def Let_def)
  qed
  with assms show ?thesis by (auto simp: ip_matches_allowlist_def Let_def)
qed

theorem range_is_prefix_witness:
  "ip_matches_allowlist (\<lambda>v. if v = ''10.0.0.0'' then Some (V4 10 0 0 0) else if v = ''10.9.8.7'' then Some (V4 10 9 8 7) else None)
     ''10.0.0.0/8'' ''10.9.8.7''"
proof -
  let ?parse = "\<lambda>v. if v = ''10.0.0.0'' then Some (V4 10 0 0 0) else if v = ''10.9.8.7'' then Some (V4 10 9 8 7) else None"
  have t: "trim ''10.9.8.7'' = ''10.9.8.7''" "trim ''10.0.0.0/8'' = ''10.0.0.0/8''"
    by (simp_all add: trim_def is_space_def)
  have u: "parse_u8 ''8'' = Some 8" by (simp add: parse_u8_def parse_u128_def digit_value_def u128_max_def Let_def)
  have b: "drop_bit (32 - 8) (bits_v4 10 0 0 0) = drop_bit (32 - 8) (bits_v4 10 9 8 7)"
    by (simp add: bits_v4_def word_rcat_def)
  have "ip_matches_allowlist ?parse ''10.0.0.0/8'' ''10.9.8.7'' \<longleftrightarrow>
      8 \<le> (32::nat) \<and> drop_bit (32 - 8) (bits_v4 10 0 0 0) = drop_bit (32 - 8) (bits_v4 10 9 8 7)"
    by (rule range_is_prefix [where src = "V4 10 9 8 7" and net_s = "''10.0.0.0''" and prefix_s = "''8''"])
      (simp_all add: t u split_once_def)
  with b show ?thesis by simp
qed

end
