(* ===== verification/PublicSends.thy ===== *)
theory PublicSends
  imports PublicKeys
begin

text \<open>
  The claims about the money of the public API: what a send moves, that it moves once per key and idempotency key, the
  daily quota, and what the missing check of the amount's sign lets the owner of a key do.
\<close>

section \<open>When a send goes through\<close>

definition unheld :: "db \<Rightarrow> uuid \<Rightarrow> bool" where
  "unheld d w \<longleftrightarrow> (case find_wallet d w of None \<Rightarrow> False | Some r \<Rightarrow> w_reorg_hold_at r = None)"

lemma no_key_conflict:
  "find_transfer d r = None \<Longrightarrow> e \<in> set (ledger d) \<Longrightarrow> in_reference_key i = Some r \<Longrightarrow>
   in_reference_type i = Some ''PublicApiTransfer'' \<Longrightarrow> \<not> key_conflict i e"
  by (auto simp: find_transfer_def find_None_iff key_conflict_def)

lemma no_reference_conflict [simp]:
  "\<not> reference_conflict (out_input w x r m) e" "\<not> reference_conflict (in_input w x r) e"
  by (simp_all add: reference_conflict_def out_input_def in_input_def transfer_input_def)

lemma find_wallet_posted [simp]: "find_wallet (post_entry i d) w = find_wallet d w"
  by (rule find_wallet_post)

lemma can_send_intro:
  assumes "find_transfer d r = None" and "unheld d fw" and "unheld d tw" and "fw \<noteq> tw" and "fits_numeric (numeric_int x)"
    and "0 \<le> wallet_balance d fw" and "0 \<le> wallet_balance d tw"
    and "covered d fw (- x)" and "covered d tw x"
  shows "can_send fw tw x r m d"
proof -
  let ?d0 = "locked [fw, tw] d"
  let ?d1 = "post_entry (out_input fw x r m) ?d0"
  have w: "find_wallet d fw \<noteq> None" "find_wallet d tw \<noteq> None" "\<not> held_against ?d0 (out_input fw x r m)"
    "\<not> held_against ?d1 (in_input tw x r)"
    using assms(2,3) by (auto simp: unheld_def held_against_def split: option.splits)
  have c0: "0 \<le> wallet_balance d fw - numeric_int x"
  proof (cases "- x < 0")
    case True
    with assms(6,8) numeric_int_covered [of "wallet_balance d fw" "- x"] show ?thesis by (simp add: covered_def numeric_int_minus)
  next
    case False
    with assms(6) show ?thesis using numeric_int_neg [of "- x"] by (force simp: numeric_int_minus)
  qed
  have c1: "0 \<le> wallet_balance d tw + numeric_int x"
  proof (cases "x < 0")
    case True
    with assms(7,9) numeric_int_covered show ?thesis by (simp add: covered_def)
  next
    case False
    with assms(7) show ?thesis using numeric_int_neg [of x] by force
  qed
  have p0: "can_post (out_input fw x r m) ?d0"
    using w(1,3) c0 assms(5) no_key_conflict [OF assms(1), of _ "out_input fw x r m"] by (simp add: can_post_def)
  have "\<not> key_conflict (in_input tw x r) (entry_of (out_input fw x r m) i c)" for i c
    by (simp add: key_conflict_def)
  then have p1: "can_post (in_input tw x r) ?d1"
    using w(2,4) c1 assms(4,5) no_key_conflict [OF assms(1), of _ "in_input tw x r"] by (auto simp: can_post_def)
  have "covered ?d1 tw x" using assms(4,9) by (simp add: covered_def)
  with p0 p1 assms(8) show ?thesis by (simp add: can_send_def)
qed

lemma books_wallets: "books_ok d \<Longrightarrow> wallets_wf d" "books_ok d \<Longrightarrow> wallet_id_of d u c k = Some w \<Longrightarrow> 0 \<le> wallet_balance d w"
  using wallet_id_of_Some by (fastforce simp: books_ok_def solvent_def)+

lemma own_wallets_differ:
  assumes "books_ok d" and "pick_wallet d user coin x = Some fw" and "wallet_id_of d rcp coin PERSONAL = Some tw"
  shows "fw \<noteq> tw"
  using pick_wallet_kind [OF assms(2)] wallet_id_of_inj [OF books_wallets(1) [OF assms(1)] _ assms(3)] by blast

section \<open>Properties\<close>

text \<open>
  A send that succeeds either finds the transfer of its reference made and moves nothing, or takes the amount, rounded
  to an integer, from a MERCHANT or DEVELOPER wallet of the key's owner and gives it to the PERSONAL wallet of another user,
  with one entry each and one more use of the day's quota; no other balance changes. A send that fails changes nothing.
\<close>

theorem send_moves_amount:
  assumes "send_to_user W user key coin email x idem l s = (res, t)"
  shows "case res of Inl e \<Rightarrow> t = s
    | Inr r \<Rightarrow> (if find_transfer (pa_db s) r \<noteq> None then t = pub_release s
        else \<exists>rcp fw tw. find_user_id_by_email W email s = Some rcp \<and> rcp \<noteq> user \<and>
          (wallet_id_of (pa_db s) user coin MERCHANT = Some fw \<or> wallet_id_of (pa_db s) user coin DEVELOPER = Some fw) \<and>
          wallet_id_of (pa_db s) rcp coin PERSONAL = Some tw \<and>
          ledger (pa_db t) = ledger (pa_db s) @ [entry_of (out_input fw x r email) (next_id (pa_db s)) (pub_clock s),
            entry_of (in_input tw x r) (Suc (next_id (pa_db s))) (pub_clock s)] \<and>
          (\<forall>w. wallet_balance (pa_db t) w = wallet_balance (pa_db s) w
             - (if w = fw then numeric_int x else 0) + (if w = tw then numeric_int x else 0)) \<and>
          quota_count key (day_of (pub_clock s)) t = quota_count key (day_of (pub_clock s)) s + 1)"
proof (cases res)
  case (Inl e)
  with assms send_failure have "t = s" by blast
  with Inl show ?thesis by simp
next
  case (Inr r)
  with assms have "send_to_user W user key coin email x idem l s = (Inr r, t)" by simp
  then obtain rcp fw tw where rcp: "find_user_id_by_email W email s = Some rcp" "rcp \<noteq> user"
    and w: "pick_wallet (pa_db s) user coin x = Some fw" "wallet_id_of (pa_db s) rcp coin PERSONAL = Some tw"
    and c: "if find_transfer (pa_db s) r \<noteq> None then t = pub_release s
         else quota_open key (day_of (pub_clock s)) l s \<and> can_send fw tw x r email (pa_db s) \<and>
           t = s\<lparr>pa_quotas := quotas_after key (day_of (pub_clock s)) (pa_quotas s),
                 pa_db := release_locks (sent_db fw tw x r email (pa_db s))\<rparr>"
    unfolding send_success by blast
  show ?thesis
  proof (cases "find_transfer (pa_db s) r")
    case None
    with c have t: "t = s\<lparr>pa_quotas := quotas_after key (day_of (pub_clock s)) (pa_quotas s),
                 pa_db := release_locks (sent_db fw tw x r email (pa_db s))\<rparr>" by simp
    have q: "quota_count key (day_of (pub_clock s)) t = quota_count key (day_of (pub_clock s)) s + 1"
      unfolding t by (simp add: quota_count_after)
    have l: "ledger (pa_db t) = ledger (pa_db s) @ [entry_of (out_input fw x r email) (next_id (pa_db s)) (pub_clock s),
        entry_of (in_input tw x r) (Suc (next_id (pa_db s))) (pub_clock s)]"
      unfolding t by (simp add: pub_clock_def)
    have b: "\<forall>w. wallet_balance (pa_db t) w = wallet_balance (pa_db s) w
        - (if w = fw then numeric_int x else 0) + (if w = tw then numeric_int x else 0)"
      unfolding t by simp
    have "wallet_id_of (pa_db s) user coin MERCHANT = Some fw \<or> wallet_id_of (pa_db s) user coin DEVELOPER = Some fw"
      using pick_wallet_kind [OF w(1)] .
    with None Inr rcp w(2) q l b show ?thesis by auto
  next
    case (Some e)
    with c Inr show ?thesis by simp
  qed
qed

text \<open>
  C7. A send is made once per API key and idempotency key: after one that succeeded and any run of requests, a send under
  the same two keys, whatever its amount, coin, recipient and limit, leaves the ledger and the quotas as they are.
\<close>

theorem send_once:
  assumes "send_to_user W user key coin email x idem l s = (Inr r, s1)" and "(pub_step W skew l)\<^sup>*\<^sup>* s1 t"
  shows "ledger (pa_db (snd (send_to_user W' user' key coin' email' x' idem l' t))) = ledger (pa_db t) \<and>
    pa_quotas (snd (send_to_user W' user' key coin' email' x' idem l' t)) = pa_quotas t"
proof -
  have r: "r = send_ref key idem" using assms(1) unfolding send_success by blast
  have "find_transfer (pa_db s1) r \<noteq> None"
  proof (cases "find_transfer (pa_db s) r")
    case None
    from send_moves_amount [OF assms(1)] None obtain e new where "ledger (pa_db s1) = ledger (pa_db s) @ e # new"
      "le_reference_type e = Some ''PublicApiTransfer''" "le_reference_key e = Some r"
      by (force simp: entry_of_def)
    then show ?thesis by (simp add: find_transfer_def find_append split: option.split)
  next
    case (Some e)
    with send_moves_amount [OF assms(1)] show ?thesis by (simp add: find_transfer_def)
  qed
  with made.kept_run [OF assms(2)] have f: "find_transfer (pa_db t) (send_ref key idem) \<noteq> None" by (simp add: r)
  show ?thesis
    by (rule send_cases [of W' user' key coin' email' x' idem l' t]) (use f in auto)
qed

text \<open>
  Whatever is sent, the books stay in order (no balance is negative, the references are unique) and the total of
  every coin over all wallets is what it was.
\<close>

theorem send_conserves:
  assumes "books_ok (pa_db s)"
  shows "books_ok (pa_db (snd (send_to_user W user key coin email x idem l s))) \<and>
    coin_total (pa_db (snd (send_to_user W user key coin email x idem l s))) c = coin_total (pa_db s) c"
proof (rule send_cases [of W user key coin email x idem l s])
  assume "snd (send_to_user W user key coin email x idem l s) \<in> {s, pub_release s}"
  with assms books_ok_release show ?thesis by auto
next
  fix rcp fw tw r
  assume p: "pick_wallet (pa_db s) user coin x = Some fw" and w: "wallet_id_of (pa_db s) rcp coin PERSONAL = Some tw"
    and can: "can_send fw tw x r email (pa_db s)"
    and t: "snd (send_to_user W user key coin email x idem l s) =
       s\<lparr>pa_quotas := quotas_after key (day_of (pub_clock s)) (pa_quotas s),
         pa_db := release_locks (sent_db fw tw x r email (pa_db s))\<rparr>"
  have "fw \<in> coin_wallets (pa_db s) c \<longleftrightarrow> tw \<in> coin_wallets (pa_db s) c"
    using pick_wallet_kind [OF p] wallet_id_of_coin [OF books_wallets(1) [OF assms]] w by blast
  with can assms show ?thesis unfolding t by (simp add: coin_total_sent books_ok_sent books_ok_release)
qed

text \<open>
  C8. The daily limit bounds what an API key sends: along every run of requests from a state in which the key has
  neither sent nor counted anything on a day, it makes at most \<open>max 1 limit\<close> transfers on that day (a limit of zero still
  lets one through).
\<close>

theorem daily_sends_bounded:
  assumes "(pub_step W skew l)\<^sup>*\<^sup>* s t" and "key < 2 ^ 128"
    and "sends_on key day (pa_db s) = 0" and "quota_count key day s = 0"
  shows "sends_on key day (pa_db t) \<le> max 1 l"
proof -
  have "quota_kept l key day s" using assms(3,4) by (simp add: quota_kept_def)
  with quotas.kept_run [OF assms(1), where key = key and day = day] assms(2) have "quota_kept l key day t" by blast
  then show ?thesis by (simp add: quota_kept_def)
qed

text \<open>
  C6. A negative amount takes money from the recipient: nothing checks the sign, so a send of \<open>- a\<close> units succeeds as soon
  as the recipient has them, debits the recipient's PERSONAL wallet and credits the wallet of the API key's owner.
\<close>

theorem negative_send_takes_from_recipient:
  assumes "books_ok (pa_db s)" and "find_user_id_by_email W email s = Some rcp" and "rcp \<noteq> user"
    and "wallet_id_of (pa_db s) user coin MERCHANT = Some fw" and "wallet_id_of (pa_db s) rcp coin PERSONAL = Some tw"
    and "unheld (pa_db s) fw" and "unheld (pa_db s) tw" and "find_transfer (pa_db s) (send_ref key idem) = None"
    and "quota_open key (day_of (pub_clock s)) l s" and "0 < a" and "a \<le> wallet_balance (pa_db s) tw" and "fits_numeric a"
  shows "\<exists>t. send_to_user W user key coin email (- of_int a) idem l s = (Inr (send_ref key idem), t) \<and>
    wallet_balance (pa_db t) tw = wallet_balance (pa_db s) tw - a \<and>
    wallet_balance (pa_db t) fw = wallet_balance (pa_db s) fw + a"
proof -
  let ?x = "- of_int a :: rat"
  have n: "numeric_int ?x = - a" by (simp add: numeric_int_minus)
  have pos: "0 \<le> wallet_balance (pa_db s) fw" "0 \<le> wallet_balance (pa_db s) tw"
    using books_wallets(2) [OF assms(1)] assms(4,5) by blast+
  then have p: "pick_wallet (pa_db s) user coin ?x = Some fw"
    using assms(4,10) by (simp add: pick_wallet_def wallet_covers_def or_else_case)
  have ne: "fw \<noteq> tw" by (rule own_wallets_differ [OF assms(1) p assms(5)])
  have can: "can_send fw tw ?x (send_ref key idem) email (pa_db s)"
    by (rule can_send_intro [OF assms(8,6,7) ne _ pos]) (use assms(10-12) in \<open>simp_all add: n covered_def\<close>)
  let ?t = "s\<lparr>pa_quotas := quotas_after key (day_of (pub_clock s)) (pa_quotas s),
      pa_db := release_locks (sent_db fw tw ?x (send_ref key idem) email (pa_db s))\<rparr>"
  have "send_to_user W user key coin email ?x idem l s = (Inr (send_ref key idem), ?t)"
    unfolding send_success using assms(2,3,5,8,9) p can by simp
  moreover have "wallet_balance (pa_db ?t) tw = wallet_balance (pa_db s) tw - a"
    "wallet_balance (pa_db ?t) fw = wallet_balance (pa_db s) fw + a" using ne n by simp_all
  ultimately show ?thesis by blast
qed

text \<open>
  The balance of a key hides the developer wallet: with anything in the MERCHANT wallet, the reported total of a coin
  is that wallet alone, although a larger amount that the DEVELOPER wallet covers is sent from there.
\<close>

theorem balance_hides_developer_wallet:
  assumes "wallet_id_of (pa_db s) user coin MERCHANT = Some m" and "wallet_id_of (pa_db s) user coin DEVELOPER = Some d"
    and "0 < wallet_balance (pa_db s) m" and "of_int (wallet_balance (pa_db s) m) < x"
    and "x \<le> of_int (wallet_balance (pa_db s) d)"
  shows "(coin, wallet_balance (pa_db s) m) \<in> set (get_balance_for_api_key user s) \<and>
    pick_wallet (pa_db s) user coin x = Some d"
proof -
  have "coin \<in> set coins_by_name" by (cases coin) (simp_all add: coins_by_name_def)
  then show ?thesis using assms
    by (auto simp: get_balance_for_api_key_def api_total_def kind_total_def pick_wallet_def wallet_covers_def or_else_case)
qed

section \<open>A demonstration\<close>

definition demo_sends :: pub_db where
  "demo_sends = demo_pub ((demo_at 2000000000000000)
     \<lparr>users := [\<lparr>u_id = 7, u_email = ''a@x'', u_username = ''a'', u_password_hash = []\<rparr>,
                \<lparr>u_id = 8, u_email = ''b@x'', u_username = ''b'', u_password_hash = []\<rparr>],
      wallets := [demo_wallet 11 7 Btc MERCHANT, demo_wallet 12 7 Btc DEVELOPER, demo_wallet 13 8 Btc PERSONAL],
      ledger := [entry_of (simple_input 11 5 MERCHANT_DEPOSIT (Some 3) (Some ''Invoice'') None) 21 0,
                 entry_of (simple_input 12 100 TRANSFER_IN (Some 4) (Some ''Transfer'') None) 22 0,
                 entry_of (simple_input 13 50 DEPOSIT (Some 5) (Some ''Deposit'') None) 23 0]\<rparr>)"

lemmas demo_sends_defs = demo_sends_def demo_pub_def demo_at_def demo_wallet_def empty_db_def simple_input_def entry_of_def

lemma demo_sends_facts:
  "find_user_id_by_email W ''b@x'' demo_sends = Some 8"
  "wallet_id_of (pa_db demo_sends) 7 Btc MERCHANT = Some 11" "wallet_id_of (pa_db demo_sends) 7 Btc DEVELOPER = Some 12"
  "wallet_id_of (pa_db demo_sends) 8 Btc PERSONAL = Some 13"
  "unheld (pa_db demo_sends) 11" "unheld (pa_db demo_sends) 12" "unheld (pa_db demo_sends) 13"
  "find_transfer (pa_db demo_sends) r = None" "quota_open 2 day l demo_sends" "quota_count 2 day demo_sends = 0"
  "wallet_balance (pa_db demo_sends) 11 = 5" "wallet_balance (pa_db demo_sends) 12 = 100" "wallet_balance (pa_db demo_sends) 13 = 50"
  "sends_on 2 day (pa_db demo_sends) = 0"
  by (simp_all add: demo_sends_defs find_user_id_by_email_def wallet_id_of_def unheld_def find_wallet_def find_transfer_def
      quota_open_def quota_count_def find_api_key_def demo_key_def wallet_balance_def eq_ignore_case_def lower_char_def
      sends_on_def sent_by_def)

lemma demo_sends_books: "books_ok (pa_db demo_sends)"
  by (simp add: demo_sends_defs books_ok_def wallets_wf_def entries_owned_def references_unique_def solvent_def
      wallet_balance_def List.map_filter_simps reference_of_def key_of_def)

lemma numeric_int_60 [simp]: "numeric_int 60 = 60"
  using numeric_int_of_int [of 60] by simp

lemma demo_can_send: "can_send 12 13 60 r ''b@x'' (pa_db demo_sends)"
  by (rule can_send_intro) (simp_all add: demo_sends_facts covered_def fits_numeric_def numeric_limit_def)

lemma demo_pick: "pick_wallet (pa_db demo_sends) 7 Btc 60 = Some 12"
  by (simp add: pick_wallet_def wallet_covers_def or_else_case demo_sends_facts)

lemma demo_send_ok:
  "\<exists>t. send_to_user W 7 2 Btc ''b@x'' 60 ''i'' 1 demo_sends = (Inr (send_ref 2 ''i''), t) \<and>
     wallet_balance (pa_db t) 12 = 40 \<and> wallet_balance (pa_db t) 13 = 110"
proof -
  let ?t = "demo_sends\<lparr>pa_quotas := quotas_after 2 (day_of (pub_clock demo_sends)) (pa_quotas demo_sends),
      pa_db := release_locks (sent_db 12 13 60 (send_ref 2 ''i'') ''b@x'' (pa_db demo_sends))\<rparr>"
  have "send_to_user W 7 2 Btc ''b@x'' 60 ''i'' 1 demo_sends = (Inr (send_ref 2 ''i''), ?t)"
    unfolding send_success using demo_can_send demo_pick by (simp add: demo_sends_facts)
  moreover have "wallet_balance (pa_db ?t) 12 = 40 \<and> wallet_balance (pa_db ?t) 13 = 110" by (simp add: demo_sends_facts)
  ultimately show ?thesis by blast
qed

theorem send_moves_amount_witness:
  "\<exists>t. send_to_user demo_pub_env 7 2 Btc ''b@x'' 60 ''i'' 1 demo_sends = (Inr (send_ref 2 ''i''), t) \<and>
     quota_count 2 (day_of (pub_clock demo_sends)) t = 1 \<and> length (ledger (pa_db t)) = 5"
proof -
  obtain t where t: "send_to_user demo_pub_env 7 2 Btc ''b@x'' 60 ''i'' 1 demo_sends = (Inr (send_ref 2 ''i''), t)"
    using demo_send_ok by blast
  have "length (ledger (pa_db demo_sends)) = 3" by (simp add: demo_sends_defs)
  with send_moves_amount [OF t] t show ?thesis by (auto simp: demo_sends_facts)
qed

theorem send_once_witness:
  "\<exists>t. send_to_user demo_pub_env 7 2 Btc ''b@x'' 60 ''i'' 1 demo_sends = (Inr (send_ref 2 ''i''), t) \<and>
     ledger (pa_db (snd (send_to_user demo_pub_env 7 2 Btc ''b@x'' 10 ''i'' 9 t))) = ledger (pa_db t)"
proof -
  obtain t where t: "send_to_user demo_pub_env 7 2 Btc ''b@x'' 60 ''i'' 1 demo_sends = (Inr (send_ref 2 ''i''), t)"
    using demo_send_ok by blast
  from send_once [OF t rtranclp.rtrancl_refl] t show ?thesis by blast
qed

theorem send_conserves_witness:
  "coin_total (pa_db (snd (send_to_user demo_pub_env 7 2 Btc ''b@x'' 60 ''i'' 1 demo_sends))) Btc = coin_total (pa_db demo_sends) Btc"
  using send_conserves [OF demo_sends_books] by blast

theorem daily_sends_bounded_witness:
  "sends_on 2 (day_of (pub_clock demo_sends)) (pa_db (snd (send_to_user demo_pub_env 7 2 Btc ''b@x'' 60 ''i'' 1 demo_sends))) \<le> 1"
proof -
  have "pub_step demo_pub_env 300 1 demo_sends (snd (send_to_user demo_pub_env 7 2 Btc ''b@x'' 60 ''i'' 1 demo_sends))"
    by (rule sends) simp
  then have "(pub_step demo_pub_env 300 1)\<^sup>*\<^sup>* demo_sends (snd (send_to_user demo_pub_env 7 2 Btc ''b@x'' 60 ''i'' 1 demo_sends))"
    by blast
  from daily_sends_bounded [OF this, of 2] show ?thesis by (simp add: demo_sends_facts)
qed

theorem negative_send_takes_from_recipient_witness:
  "\<exists>t. send_to_user demo_pub_env 7 2 Btc ''b@x'' (- 50) ''theft'' 1 demo_sends = (Inr (send_ref 2 ''theft''), t) \<and>
     wallet_balance (pa_db t) 13 = 0 \<and> wallet_balance (pa_db t) 11 = 55"
  using negative_send_takes_from_recipient [OF demo_sends_books demo_sends_facts(1) _ demo_sends_facts(2,4,5,7,8,9), of 50 demo_pub_env]
  by (simp add: demo_sends_facts fits_numeric_def numeric_limit_def)

theorem balance_hides_developer_wallet_witness:
  "(Btc, 5) \<in> set (get_balance_for_api_key 7 demo_sends) \<and> pick_wallet (pa_db demo_sends) 7 Btc 60 = Some 12"
  using balance_hides_developer_wallet [OF demo_sends_facts(2,3), of 60] by (simp add: demo_sends_facts)

end
