(* ===== verification/PublicWeb.thy ===== *)
theory PublicWeb
  imports PublicSends
begin

text \<open>
  \<open>crates/api-http/src\<close>: the routes of the public API (\<open>public_api.rs\<close>) and the resolution of the caller's address
  (\<open>client_ip.rs\<close>). A handler returns a status with a JSON body or its answer; the notification mail after a send is
  left out. What the crate takes from elsewhere is in \<open>web_env\<close>.
\<close>

section \<open>The address of the caller\<close>

text \<open>\<open>rp_header\<close> gives the headers whose value is text, \<open>rp_peer\<close> the address of the TCP peer.\<close>

record request_parts =
  rp_method :: string
  rp_path_and_query :: string
  rp_header :: "string \<Rightarrow> string option"
  rp_peer :: "string option"

definition is_internal_or_private :: "(string \<Rightarrow> IpAddr option) \<Rightarrow> string \<Rightarrow> bool" where
  "is_internal_or_private parse v =
     (case parse v of
        None \<Rightarrow> False
      | Some (V4 a b c d) \<Rightarrow>
          a = 127 \<or> (a = 10 \<or> a = 172 \<and> 16 \<le> b \<and> b \<le> 31 \<or> a = 192 \<and> b = 168) \<or> a = 169 \<and> b = 254
      | Some (V6 s0 s1 s2 s3 s4 s5 s6 s7) \<Rightarrow> [s0, s1, s2, s3, s4, s5, s6, s7] = [0, 0, 0, 0, 0, 0, 0, 1])"

text \<open>\<open>str::split\<close> on a character: one piece more than there are separators.\<close>

fun split_on :: "char \<Rightarrow> string \<Rightarrow> string list" where
  "split_on c [] = [[]]"
| "split_on c (x # xs) =
     (if x = c then [] # split_on c xs
      else case split_on c xs of [] \<Rightarrow> [[x]] | p # ps \<Rightarrow> (x # p) # ps)"

definition forwarded_hop :: "(string \<Rightarrow> IpAddr option) \<Rightarrow> string \<Rightarrow> string option" where
  "forwarded_hop parse xff =
     List.find (\<lambda>hop. \<not> is_internal_or_private parse hop) (rev (filter (\<lambda>h. h \<noteq> []) (map trim (split_on (CHR '','') xff))))"

definition resolve_client_ip :: "(string \<Rightarrow> IpAddr option) \<Rightarrow> request_parts \<Rightarrow> string option" where
  "resolve_client_ip parse r =
     (let real = (case rp_header r ''x-real-ip'' of
            None \<Rightarrow> None
          | Some v \<Rightarrow> let t = trim v in if t \<noteq> [] \<and> \<not> is_internal_or_private parse t then Some t else None);
          hop = (case rp_header r ''x-forwarded-for'' of None \<Rightarrow> None | Some xff \<Rightarrow> forwarded_hop parse xff)
      in or_else real (or_else hop (rp_peer r)))"

definition coded_error :: "nat \<Rightarrow> string \<Rightarrow> string \<Rightarrow> http_error" where
  "coded_error status code msg = HttpError status (JObj [(''error'', JStr msg), (''code'', JStr code)])"

definition client_ip :: "(string \<Rightarrow> IpAddr option) \<Rightarrow> request_parts \<Rightarrow> http_error + string" where
  "client_ip parse r =
     (case resolve_client_ip parse r of
        Some ip \<Rightarrow> Inr ip
      | None \<Rightarrow> Inl (coded_error 400 ''CLIENT_IP_UNAVAILABLE''
          ''client IP unavailable: request must come through the SatsPay proxy''))"

section \<open>Errors\<close>

record SendRequest =
  sq_coin :: string
  sq_to_email :: string
  sq_amount :: string
  sq_idempotency_key :: string

text \<open>
  \<open>we_uuid\<close> is \<open>str::parse::<Uuid>\<close>, \<open>we_decimal\<close> \<open>str::parse::<BigDecimal>\<close>, \<open>we_send\<close> the deserializer of a \<open>SendRequest\<close>;
  the rest are the settings and the request's id.
\<close>

record web_env =
  we_pub :: pub_env
  we_uuid :: "string \<Rightarrow> uuid option"
  we_decimal :: "string \<Rightarrow> rat option"
  we_send :: "string \<Rightarrow> SendRequest option"
  we_max_skew :: nat
  we_daily_limit :: int
  we_request_id :: string

fun public_api_error_code :: "PublicApiError \<Rightarrow> string" where
  "public_api_error_code (PublicDb _) = ''INTERNAL_ERROR''"
| "public_api_error_code KeyNotFound = ''INVALID_API_KEY''"
| "public_api_error_code InvalidKey = ''INVALID_API_KEY''"
| "public_api_error_code KeyExpired = ''API_KEY_EXPIRED''"
| "public_api_error_code IpNotAllowed = ''IP_NOT_ALLOWED''"
| "public_api_error_code RequiresSignature = ''KEY_REQUIRES_SIGNATURE''"
| "public_api_error_code (MissingScope _) = ''MISSING_SCOPE''"
| "public_api_error_code IneligibleTarget = ''TARGET_INELIGIBLE''"
| "public_api_error_code SendToSelf = ''SEND_TO_SELF''"
| "public_api_error_code WalletNotFound = ''WALLET_NOT_FOUND''"
| "public_api_error_code DailyLimitReached = ''DAILY_LIMIT_REACHED''"
| "public_api_error_code BadTimestamp = ''BAD_TIMESTAMP''"
| "public_api_error_code TimestampOutOfWindow = ''TIMESTAMP_OUT_OF_WINDOW''"
| "public_api_error_code SignatureMismatch = ''SIGNATURE_MISMATCH''"
| "public_api_error_code SignatureReplay = ''SIGNATURE_REPLAY''"

definition key_rejection_message :: "string \<Rightarrow> string" where
  "key_rejection_message code =
     (if code = ''INVALID_API_KEY'' then ''invalid api key''
      else if code = ''API_KEY_EXPIRED'' then ''api key expired''
      else if code = ''IP_NOT_ALLOWED'' then ''ip not allowed''
      else if code = ''KEY_REQUIRES_SIGNATURE'' then ''key requires signature''
      else if code = ''MISSING_SCOPE'' then ''missing scope''
      else if code = ''BAD_TIMESTAMP'' then ''bad timestamp''
      else if code = ''TIMESTAMP_OUT_OF_WINDOW'' then ''timestamp out of window''
      else if code = ''SIGNATURE_MISMATCH'' then ''signature mismatch''
      else if code = ''SIGNATURE_REPLAY'' then ''signature replay''
      else ''unauthorized'')"

fun is_public_db :: "PublicApiError \<Rightarrow> bool" where
  "is_public_db (PublicDb _) = True"
| "is_public_db _ = False"

definition key_rejection :: "PublicApiError \<Rightarrow> http_error" where
  "key_rejection e =
     (if is_public_db e then coded_error 500 ''INTERNAL_ERROR'' ''internal error''
      else coded_error 401 (public_api_error_code e) (key_rejection_message (public_api_error_code e)))"

definition key_mutation_error :: "string \<Rightarrow> PublicApiError \<Rightarrow> http_error" where
  "key_mutation_error rid e =
     (if is_public_db e then internal_error rid else coded_error 400 ''BAD_REQUEST'' ''could not issue API key'')"

definition key_lookup_error :: "string \<Rightarrow> PublicApiError \<Rightarrow> http_error" where
  "key_lookup_error rid e =
     (if is_public_db e then internal_error rid else coded_error 404 ''NOT_FOUND'' ''API key not found'')"

definition public_send_error :: "string \<Rightarrow> PublicApiError \<Rightarrow> http_error" where
  "public_send_error rid e =
     (if is_public_db e then internal_error rid
      else let code = public_api_error_code e in coded_error 400 code
        (if code = ''SEND_TO_SELF'' then ''cannot send to the SatsPay account that owns this API key. toEmail must be a different existing account. nothing was debited''
         else if code = ''TARGET_INELIGIBLE'' then ''no SatsPay account exists for toEmail. nothing was debited''
         else if code = ''WALLET_NOT_FOUND'' then ''sender or recipient wallet not found for this coin. nothing was debited''
         else if code = ''DAILY_LIMIT_REACHED'' then ''daily send limit reached for this API key. nothing was debited''
         else ''send rejected. nothing was debited''))"

section \<open>Managing keys\<close>

record IssueKeyRequest =
  iq_label :: string
  iq_scopes :: "string list"
  iq_allowed_ips :: "string list"
  iq_expires_in_days :: "int option"
  iq_require_signature :: bool

text \<open>\<open>None\<close> is the panic of the date arithmetic, which takes the connection down with it.\<close>

definition issue_key ::
    "web_env \<Rightarrow> string \<Rightarrow> string \<Rightarrow> string \<Rightarrow> AuthUser \<Rightarrow> IssueKeyRequest \<Rightarrow> pub_db \<Rightarrow> ((http_error + IssuedKey) \<times> pub_db) option" where
  "issue_key E raw iv iv' user body s =
     (case validate_api_scopes (iq_scopes body) of
        Inl msg \<Rightarrow> Some (Inl (coded_error 400 ''INVALID_SCOPE'' msg), s)
      | Inr _ \<Rightarrow>
          (case issue_api_key (we_pub E) raw iv iv' (ur_id user) (iq_label body) (iq_scopes body) (iq_allowed_ips body)
             (iq_expires_in_days body) (iq_require_signature body) s of
             None \<Rightarrow> None
           | Some (Inr key, t) \<Rightarrow> Some (Inr key, t)
           | Some (Inl e, t) \<Rightarrow> Some (Inl (key_mutation_error (we_request_id E) e), t)))"

definition rotate_key ::
    "web_env \<Rightarrow> string \<Rightarrow> string \<Rightarrow> AuthUser \<Rightarrow> uuid \<Rightarrow> pub_db \<Rightarrow> (http_error + IssuedKey) \<times> pub_db" where
  "rotate_key E raw iv user i s =
     (case rotate_api_key (we_pub E) raw iv (ur_id user) i s of
        (Inr key, t) \<Rightarrow> (Inr key, t)
      | (Inl e, t) \<Rightarrow> (Inl (key_lookup_error (we_request_id E) e), t))"

definition disable_key :: "web_env \<Rightarrow> AuthUser \<Rightarrow> uuid \<Rightarrow> pub_db \<Rightarrow> (http_error + unit) \<times> pub_db" where
  "disable_key E user i s =
     (case disable_api_key (ur_id user) i s of
        (Inr _, t) \<Rightarrow> (Inr (), t)
      | (Inl e, t) \<Rightarrow> (Inl (key_lookup_error (we_request_id E) e), t))"

definition list_keys :: "web_env \<Rightarrow> AuthUser \<Rightarrow> pub_db \<Rightarrow> ApiKeySummary list" where
  "list_keys E user s =
     list_api_keys_by_user (pe_prims (we_pub E)) (Some (pe_secrets (we_pub E))) (ur_id user) s"

section \<open>Requests with a key\<close>

definition MAX_SIGNED_BODY_BYTES :: nat where
  "MAX_SIGNED_BODY_BYTES = 1024 * 1024"

definition split_request :: "string \<Rightarrow> http_error + string" where
  "split_request body =
     (if length body > MAX_SIGNED_BODY_BYTES
      then Inl (coded_error 413 ''BODY_TOO_LARGE'' ''request body too large or unreadable'') else Inr body)"

definition is_hex_digit :: "char \<Rightarrow> bool" where
  "is_hex_digit c = (let k = of_char c :: nat in 48 \<le> k \<and> k \<le> 57 \<or> 65 \<le> k \<and> k \<le> 70 \<or> 97 \<le> k \<and> k \<le> 102)"

definition rejected :: "(PublicApiError + ApiKeyRecord) \<times> pub_db \<Rightarrow> (http_error + ApiKeyRecord) \<times> pub_db" where
  "rejected p = (case p of (Inl e, t) \<Rightarrow> (Inl (key_rejection e), t) | (Inr r, t) \<Rightarrow> (Inr r, t))"

definition signature_headers :: "request_parts \<Rightarrow> (string \<times> string \<times> string) option" where
  "signature_headers r =
     (case (rp_header r ''x-key-id'', rp_header r ''x-timestamp'', rp_header r ''x-signature'') of
        (Some k, Some t, Some g) \<Rightarrow> Some (k, t, g) | _ \<Rightarrow> None)"

definition authenticate_api_request ::
    "web_env \<Rightarrow> request_parts \<Rightarrow> string \<Rightarrow> pub_db \<Rightarrow> (http_error + ApiKeyRecord) \<times> pub_db" where
  "authenticate_api_request E r body s =
     (case resolve_client_ip (pe_ip (we_pub E)) r of
        None \<Rightarrow> (Inl (coded_error 500 ''INTERNAL_ERROR'' ''client IP unavailable''), s)
      | Some source_ip \<Rightarrow>
          (case signature_headers r of
             Some (key_id, ts, sig) \<Rightarrow>
               (case we_uuid E key_id of
                  None \<Rightarrow> (Inl (coded_error 401 ''INVALID_KEY_ID'' ''invalid x-key-id''), s)
                | Some i \<Rightarrow>
                    rejected (verify_signed_request (we_pub E)
                      \<lparr>vi_key_id = i, vi_timestamp = ts, vi_signature = sig, vi_method = rp_method r,
                       vi_path = rp_path_and_query r, vi_raw_body = body, vi_source_ip = source_ip\<rparr> (we_max_skew E) s))
           | None \<Rightarrow>
               (case rp_header r ''x-api-key'' of
                  None \<Rightarrow> (Inl (coded_error 401 ''INVALID_API_KEY'' ''missing or invalid API key''), s)
                | Some key \<Rightarrow>
                    if length key \<noteq> 64 \<or> \<not> list_all is_hex_digit key
                    then (Inl (coded_error 401 ''INVALID_API_KEY'' ''missing or invalid API key''), s)
                    else rejected (authenticate_by_hash (we_pub E) key source_ip s))))"

text \<open>The extractor \<open>ApiKeyAuth\<close>: the key's record and the body.\<close>

definition api_key_auth ::
    "web_env \<Rightarrow> request_parts \<Rightarrow> string \<Rightarrow> pub_db \<Rightarrow> (http_error + ApiKeyRecord \<times> string) \<times> pub_db" where
  "api_key_auth E r body s =
     (case split_request body of
        Inl e \<Rightarrow> (Inl e, s)
      | Inr b \<Rightarrow>
          (case authenticate_api_request E r b s of
             (Inl e, t) \<Rightarrow> (Inl e, t)
           | (Inr k, t) \<Rightarrow> (Inr (k, b), t)))"

section \<open>Handlers\<close>

definition send_body :: "web_env \<Rightarrow> ApiKeyRecord \<Rightarrow> string \<Rightarrow> pub_db \<Rightarrow> (http_error + string) \<times> pub_db" where
  "send_body E key raw_body s =
     (case require_scope key ''send'' of
        Inl _ \<Rightarrow> (Inl (coded_error 403 ''MISSING_SCOPE'' ''missing required scope: send''), s)
      | Inr _ \<Rightarrow>
          (case we_send E raw_body of
             None \<Rightarrow> (Inl (plain_error 400 ''invalid request''), s)
           | Some body \<Rightarrow>
               (case (coin_from_str (sq_coin body), we_decimal E (sq_amount body)) of
                  (Some coin, Some amount) \<Rightarrow>
                    (case send_to_user (we_pub E) (kr_user key) (kr_id key) coin (sq_to_email body) amount
                       (sq_idempotency_key body) (we_daily_limit E) s of
                       (Inr reference, t) \<Rightarrow> (Inr reference, t)
                     | (Inl e, t) \<Rightarrow> (Inl (public_send_error (we_request_id E) e), t))
                | _ \<Rightarrow> (Inl (plain_error 400 ''invalid request''), s))))"

definition send :: "web_env \<Rightarrow> request_parts \<Rightarrow> string \<Rightarrow> pub_db \<Rightarrow> (http_error + string) \<times> pub_db" where
  "send E r body s =
     (case api_key_auth E r body s of
        (Inl e, t) \<Rightarrow> (Inl e, t)
      | (Inr (key, raw_body), t) \<Rightarrow> send_body E key raw_body t)"

definition balance :: "web_env \<Rightarrow> request_parts \<Rightarrow> string \<Rightarrow> pub_db \<Rightarrow> (http_error + (string \<times> string) list) \<times> pub_db" where
  "balance E r body s =
     (case api_key_auth E r body s of
        (Inl e, t) \<Rightarrow> (Inl e, t)
      | (Inr (key, _), t) \<Rightarrow>
          (case require_scope key ''balance'' of
             Inl _ \<Rightarrow> (Inl (coded_error 403 ''MISSING_SCOPE'' ''missing required scope: balance''), t)
           | Inr _ \<Rightarrow> (Inr (map (\<lambda>(c, b). (coin_str c, show_int b)) (get_balance_for_api_key (kr_user key) t)), t)))"

section \<open>Properties\<close>

text \<open>A key a caller at the address \<open>ip\<close> may use at the time \<open>c\<close>.\<close>

definition usable_from :: "(string \<Rightarrow> IpAddr option) \<Rightarrow> string \<Rightarrow> int \<Rightarrow> api_key_row \<Rightarrow> bool" where
  "usable_from parse ip c k \<longleftrightarrow>
     ak_disabled_at k = None \<and> (case ak_expires_at k of None \<Rightarrow> True | Some e \<Rightarrow> c < e) \<and>
     (ak_allowed_ips k = [] \<or> (\<exists>entry\<in>set (ak_allowed_ips k). ip_matches_allowlist parse entry ip))"

lemma usable_facts:
  "check_usable p (row_to_record k) ip c = Inr u \<Longrightarrow> usable_from p ip c k"
  by (auto simp: check_usable_def row_to_record_def usable_from_def list_ex_iff split: if_splits option.splits)

lemma by_hash_accepts:
  assumes "authenticate_by_hash W raw ip s = (Inr r, t)"
  obtains k where "k \<in> set (pa_keys s)" "r = row_to_record k" "ak_key_hash k = hmac_hex (pe_prims W) (pe_secrets W) raw"
    "check_usable (pe_ip W) (row_to_record k) ip (pub_clock s) = Inr ()" "\<not> ak_require_signature k"
proof -
  obtain k where k: "List.find (\<lambda>k. ak_key_hash k = hmac_hex (pe_prims W) (pe_secrets W) raw) (pa_keys s) = Some k"
    and u: "check_usable (pe_ip W) (row_to_record k) ip (pub_clock s) = Inr ()" and g: "\<not> kr_require_signature (row_to_record k)"
    and r: "r = row_to_record k"
    using assms by (auto simp: authenticate_by_hash_def Let_def split: option.splits sum.splits if_splits)
  from find_Some_props [OF k] u g r show ?thesis by (intro that) (simp_all add: row_to_record_def)
qed

definition holds_key :: "web_env \<Rightarrow> request_parts \<Rightarrow> string \<Rightarrow> api_key_row \<Rightarrow> bool" where
  "holds_key E r body k \<longleftrightarrow>
     (\<exists>raw. rp_header r ''x-api-key'' = Some raw \<and> \<not> ak_require_signature k \<and>
        ak_key_hash k = hmac_hex (pe_prims (we_pub E)) (pe_secrets (we_pub E)) raw) \<or>
     (\<exists>i ts raw. signature_headers r =
          Some (i, ts, sign_request (pe_prims (we_pub E)) raw ts (rp_method r) (rp_path_and_query r) body) \<and>
        we_uuid E i = Some (ak_id k) \<and>
        decrypt_with_aad (pe_prims (we_pub E)) (pe_secrets (we_pub E)) (ak_key_enc k) (api_key_aad (ak_id k)) = Inr raw)"

lemma rejected_Inr: "rejected p = (Inr r, t) \<longleftrightarrow> p = (Inr r, t)"
  by (auto simp: rejected_def split: prod.splits sum.splits)

lemma by_hash_db: "pa_db (snd (authenticate_by_hash W raw ip s)) = pa_db s"
  by (simp add: authenticate_by_hash_def Let_def touch_key_def split: option.split sum.split)

lemma verify_db: "pa_db (snd (verify_signed_request W input skew s)) = pa_db s"
proof -
  have n: "pa_db t = pa_db s" if "reserve_nonce i g (prune_nonces i c s) = (x, t)" for i g c x t
    using writes_elsewhere(1) [of i g "prune_nonces i c s"] that by simp
  show ?thesis
    unfolding verify_signed_request_def Let_def
    by (auto simp: touch_key_def n split: option.split sum.split prod.split bool.split)
qed

text \<open>Whatever authentication answers, no wallet, balance or ledger entry has changed.\<close>

lemma authenticate_db:
  assumes "authenticate_api_request E r body s = (x, t)"
  shows "pa_db t = pa_db s"
proof -
  have rej: "pa_db (snd (rejected q)) = pa_db (snd q)" for q
    by (simp add: rejected_def split: prod.split sum.split)
  have "pa_db (snd (authenticate_api_request E r body s)) = pa_db s"
    unfolding authenticate_api_request_def
    by (simp add: rej by_hash_db verify_db split: option.split prod.split)
  with assms show ?thesis by simp
qed

lemma api_key_auth_db:
  assumes "api_key_auth E r body s = (x, t)"
  shows "pa_db t = pa_db s"
  using assms authenticate_db [of E r _ s _ t]
  by (auto simp: api_key_auth_def split: sum.splits prod.splits)

lemma authenticated_holds_key:
  assumes "authenticate_api_request E r body s = (Inr key, t)"
  shows "\<exists>ip. resolve_client_ip (pe_ip (we_pub E)) r = Some ip \<and>
    (\<exists>k\<in>set (pa_keys s). key = row_to_record k \<and> usable_from (pe_ip (we_pub E)) ip (pub_clock s) k \<and>
       holds_key E r body k)"
proof (cases "signature_headers r")
  case None
  then obtain raw ip where ip: "resolve_client_ip (pe_ip (we_pub E)) r = Some ip" and
    raw: "rp_header r ''x-api-key'' = Some raw" and a: "authenticate_by_hash (we_pub E) raw ip s = (Inr key, t)"
    using assms by (auto simp: authenticate_api_request_def rejected_Inr split: option.splits if_splits)
  from by_hash_accepts [OF a] usable_facts raw ip show ?thesis unfolding holds_key_def by metis
next
  case (Some h)
  obtain i ts sig where h: "h = (i, ts, sig)" by (cases h)
  with Some assms obtain j ip where ip: "resolve_client_ip (pe_ip (we_pub E)) r = Some ip" and j: "we_uuid E i = Some j"
    and v: "verify_signed_request (we_pub E) \<lparr>vi_key_id = j, vi_timestamp = ts, vi_signature = sig, vi_method = rp_method r,
        vi_path = rp_path_and_query r, vi_raw_body = body, vi_source_ip = ip\<rparr> (we_max_skew E) s = (Inr key, t)"
    by (auto simp: authenticate_api_request_def rejected_Inr split: option.splits)
  from verify_accepts [OF v] obtain k raw where k: "find_api_key s j = Some k" "key = row_to_record k"
    and u: "check_usable (pe_ip (we_pub E)) key ip (pub_clock s) = Inr ()"
    and d: "decrypt_with_aad (pe_prims (we_pub E)) (pe_secrets (we_pub E)) (ak_key_enc k) (api_key_aad (kr_id key)) = Inr raw"
    and g: "ct_eq_str (sign_request (pe_prims (we_pub E)) raw ts (rp_method r) (rp_path_and_query r) body) sig"
    unfolding VerifySignedRequestInput.simps by metis
  have j': "ak_id k = j" using k(1) by (rule found_key_id)
  have "k \<in> set (pa_keys s)" using find_Some_props [OF k(1) [unfolded find_api_key_def]] by simp
  moreover have "sig = sign_request (pe_prims (we_pub E)) raw ts (rp_method r) (rp_path_and_query r) body"
    using g by (simp add: ct_eq_str_def split: if_splits)
  then have "holds_key E r body k" unfolding holds_key_def using Some h j j' d k(2) by (auto simp: row_to_record_def)
  ultimately show ?thesis using usable_facts u k(2) ip by blast
qed

text \<open>What a send may do to the ledger: nothing, or a pair of opposite posts from a wallet of the key's owner.\<close>

definition send_entries :: "uuid \<Rightarrow> db \<Rightarrow> db \<Rightarrow> bool" where
  "send_entries user d d' \<longleftrightarrow> wallets d' = wallets d \<and>
     (ledger d' = ledger d \<or>
      (\<exists>e e' c. ledger d' = ledger d @ [e, e'] \<and> le_amount e' = - le_amount e \<and>
         (wallet_id_of d user c MERCHANT = Some (le_wallet e) \<or> wallet_id_of d user c DEVELOPER = Some (le_wallet e))))"

lemma sent_entries:
  assumes "send_to_user W user key coin email x idem l s = (Inr ref_key, t)"
  shows "send_entries user (pa_db s) (pa_db t)"
proof -
  from assms [unfolded send_success] obtain fw tw where fw: "pick_wallet (pa_db s) user coin x = Some fw"
    and t: "if find_transfer (pa_db s) ref_key \<noteq> None then t = pub_release s
      else quota_open key (day_of (pub_clock s)) l s \<and> can_send fw tw x ref_key email (pa_db s) \<and>
        t = s\<lparr>pa_quotas := quotas_after key (day_of (pub_clock s)) (pa_quotas s),
              pa_db := release_locks (sent_db fw tw x ref_key email (pa_db s))\<rparr>" by blast
  show ?thesis
  proof (cases "find_transfer (pa_db s) ref_key")
    case None
    with t pick_wallet_kind [OF fw] show ?thesis by (auto simp: send_entries_def)
  next
    case (Some e)
    with t show ?thesis by (simp add: send_entries_def)
  qed
qed

lemma send_body_cases:
  assumes "send_body E key b s = (answer, t)"
  shows "case answer of Inl e \<Rightarrow> t = s
    | Inr reference \<Rightarrow> require_scope key ''send'' = Inr () \<and> send_entries (kr_user key) (pa_db s) (pa_db t)"
  using assms send_failure sent_entries
  by (auto simp: send_body_def split: sum.splits option.splits prod.splits)

text \<open>
  C10. The send route moves money for holders of a key only. An error, of the authentication or of a later step, leaves
  every table of the money side as it was. Any other answer means that the caller's address is known and that a key of
  the table which is usable from that address (not disabled, not expired, its list of addresses empty or matching) and
  has the scope \<open>send\<close> (or \<open>*\<close>) was presented, either itself, when it needs no signature, or by a signature under its
  secret of exactly this timestamp, method, path with query, and body. The ledger is then unchanged (a send that was
  already made) or has one pair of opposite entries more, the first on a wallet of that key's owner.
\<close>

theorem send_needs_key:
  assumes "send E r body s = (answer, t)"
  shows "case answer of Inl e \<Rightarrow> pa_db t = pa_db s
    | Inr reference \<Rightarrow> \<exists>ip. resolve_client_ip (pe_ip (we_pub E)) r = Some ip \<and>
        (\<exists>k\<in>set (pa_keys s). ak_disabled_at k = None \<and>
           (case ak_expires_at k of None \<Rightarrow> True | Some e \<Rightarrow> pub_clock s < e) \<and>
           (ak_allowed_ips k = [] \<or>
              (\<exists>entry\<in>set (ak_allowed_ips k). ip_matches_allowlist (pe_ip (we_pub E)) entry ip)) \<and>
           (''send'' \<in> set (ak_scopes k) \<or> ''*'' \<in> set (ak_scopes k)) \<and> holds_key E r body k \<and>
           send_entries (ak_user k) (pa_db s) (pa_db t))"
proof (cases "api_key_auth E r body s")
  case (Pair x u)
  note db = api_key_auth_db [OF Pair]
  show ?thesis
  proof (cases x)
    case (Inl e)
    with assms Pair db show ?thesis by (auto simp: send_def)
  next
    case (Inr p)
    obtain key b where p: "p = (key, b)" by (cases p)
    with assms Pair Inr have sb: "send_body E key b u = (answer, t)" by (simp add: send_def)
    show ?thesis
    proof (cases answer)
      case (Inl e)
      with send_body_cases [OF sb] db show ?thesis by simp
    next
      case (Inr reference)
      from Pair \<open>x = Inr p\<close> p have "authenticate_api_request E r body s = (Inr key, u)"
        by (auto simp: api_key_auth_def split_request_def split: prod.splits sum.splits if_splits)
      from authenticated_holds_key [OF this] obtain ip k where ip: "resolve_client_ip (pe_ip (we_pub E)) r = Some ip"
        and k: "k \<in> set (pa_keys s)" "key = row_to_record k" "usable_from (pe_ip (we_pub E)) ip (pub_clock s) k"
        "holds_key E r body k" by blast
      from send_body_cases [OF sb] Inr have sc: "require_scope key ''send'' = Inr ()"
        and en: "send_entries (kr_user key) (pa_db s) (pa_db t)" by (simp_all add: db)
      from sc have "''send'' \<in> set (ak_scopes k) \<or> ''*'' \<in> set (ak_scopes k)"
        by (auto simp: require_scope_def k(2) row_to_record_def list_ex_iff split: if_splits)
      moreover from en have "send_entries (ak_user k) (pa_db s) (pa_db t)" by (simp add: k(2) row_to_record_def)
      ultimately show ?thesis using Inr ip k by (auto simp: usable_from_def)
    qed
  qed
qed

text \<open>
  A send that the chosen wallet cannot cover is answered with an internal error: the refusal of the ledger is passed
  on as a database error, so the caller sees status 500 instead of one of the documented codes, and nothing changes.
\<close>

theorem overdraft_is_internal_error:
  assumes "require_scope key ''send'' = Inr ()" and "we_send E raw_body = Some body"
    and "coin_from_str (sq_coin body) = Some coin" and "we_decimal E (sq_amount body) = Some x"
    and "find_user_id_by_email (we_pub E) (sq_to_email body) s = Some rcp" and "rcp \<noteq> kr_user key"
    and "pick_wallet (pa_db s) (kr_user key) coin x = Some fw" and "wallet_id_of (pa_db s) rcp coin PERSONAL = Some tw"
    and "find_transfer (pa_db s) (send_ref (kr_id key) (sq_idempotency_key body)) = None"
    and "quota_open (kr_id key) (day_of (pub_clock s)) (we_daily_limit E) s"
    and "of_int (wallet_balance (pa_db s) fw) < x" and "0 < x"
  shows "send_body E key raw_body s = (Inl (internal_error (we_request_id E)), s)"
proof -
  let ?r = "send_ref (kr_id key) (sq_idempotency_key body)" and ?m = "sq_to_email body"
  have "\<not> covered (pa_db s) fw (- x)" using assms(11,12) by (simp add: covered_def)
  then have "\<not> (\<exists>d'. send_moves fw tw x ?r ?m (locked [fw, tw] (pa_db s)) = Inr ((), d'))"
    by (simp add: send_moves_Inr)
  then obtain e where e: "send_moves fw tw x ?r ?m (locked [fw, tw] (pa_db s)) = Inl e"
    by (cases "send_moves fw tw x ?r ?m (locked [fw, tw] (pa_db s))") auto
  let ?s1 = "s\<lparr>pa_db := locked [fw, tw] (pa_db s)\<rparr>"
  have q: "reserve_quota (kr_id key) (day_of (pub_clock s)) (we_daily_limit E) ?s1 =
      Inr ((), ?s1\<lparr>pa_quotas := quotas_after (kr_id key) (day_of (pub_clock s)) (pa_quotas s)\<rparr>)"
    by (simp add: reserve_quota_Inr assms(10))
  have "send_tx rcp (kr_user key) (kr_id key) coin ?m x (sq_idempotency_key body) (we_daily_limit E) s = Inl (ledger_as_protocol e)"
    unfolding send_tx_run using assms(7-9) q e by (simp add: Let_def pub_clock_def)
  then have "send_to_user (we_pub E) (kr_user key) (kr_id key) coin ?m x (sq_idempotency_key body) (we_daily_limit E) s =
      (Inl (ledger_as_protocol e), s)"
    using assms(5,6) by (simp add: send_to_user_def commit_tx_def)
  with assms(1-4) show ?thesis by (simp add: send_body_def public_send_error_def ledger_as_protocol_def)
qed

section \<open>A demonstration\<close>

definition demo_body_of :: "string \<Rightarrow> SendRequest" where
  "demo_body_of v = \<lparr>sq_coin = ''BTC'', sq_to_email = ''b@x'', sq_amount = v, sq_idempotency_key = ''i''\<rparr>"

definition demo_web :: web_env where
  "demo_web = \<lparr>we_pub = demo_pub_env, we_uuid = (\<lambda>v. if v = ''two'' then Some 2 else None),
     we_decimal = (\<lambda>v. if v = ''60'' then Some 60 else if v = ''600'' then Some 600 else None),
     we_send = (\<lambda>v. Some (demo_body_of v)),
     we_max_skew = 300, we_daily_limit = 1, we_request_id = ''rid''\<rparr>"

definition demo_request :: request_parts where
  "demo_request = \<lparr>rp_method = ''POST'', rp_path_and_query = ''/v1/public/send'',
     rp_header = (\<lambda>h. if h = ''x-key-id'' then Some ''two'' else if h = ''x-timestamp'' then Some ''1999999999''
       else if h = ''x-signature'' then Some (sign_request demo_primitives ''K'' ''1999999999'' ''POST'' ''/v1/public/send'' ''60'')
       else None), rp_peer = Some ''203.0.113.9''\<rparr>"

lemma demo_coin: "coin_from_str ''BTC'' = Some Btc"
  using coin_from_str_Some [of "''BTC''" Btc] by (simp add: eq_ignore_case_def)

theorem overdraft_is_internal_error_witness:
  "send_body demo_web (row_to_record demo_key) ''600'' demo_sends = (Inl (internal_error ''rid''), demo_sends)"
proof -
  have k: "kr_user (row_to_record demo_key) = 7" "kr_id (row_to_record demo_key) = 2"
    by (simp_all add: row_to_record_def demo_key_def)
  have "send_body demo_web (row_to_record demo_key) ''600'' demo_sends = (Inl (internal_error (we_request_id demo_web)), demo_sends)"
    by (rule overdraft_is_internal_error [where body = "demo_body_of ''600''" and coin = Btc and x = 600 and rcp = 8 and fw = 11 and tw = 13])
      (simp_all add: demo_web_def demo_body_of_def k demo_sends_facts demo_coin pick_wallet_def wallet_covers_def or_else_case,
       simp add: require_scope_def row_to_record_def demo_key_def)
  then show ?thesis by (simp add: demo_web_def)
qed

definition demo_signed :: pub_db where
  "demo_signed = touch_key 2 (demo_sends\<lparr>pa_nonces := [\<lparr>nn_key = 2,
     nn_signature = sign_request demo_primitives ''K'' ''1999999999'' ''POST'' ''/v1/public/send'' ''60'',
     nn_seen_at = 2000000000000000\<rparr>]\<rparr>)"

lemma demo_key_sel:
  "ak_id demo_key = 2" "ak_disabled_at demo_key = None" "ak_expires_at demo_key = None" "ak_allowed_ips demo_key = []"
  "ak_user demo_key = 7" "ak_scopes demo_key = [''send'']"
  by (simp_all add: demo_key_def)

lemma demo_signed_sel:
  "pa_db demo_signed = pa_db demo_sends" "pub_clock demo_signed = pub_clock demo_sends" "pa_quotas demo_signed = pa_quotas demo_sends"
  "pa_email_hmac demo_signed = pa_email_hmac demo_sends" "find_api_key demo_signed 2 \<noteq> None"
  by (simp_all add: demo_signed_def touch_key_def update_key_def pub_clock_def find_api_key_def demo_sends_def demo_pub_def demo_key_sel)

lemma demo_authenticates:
  "api_key_auth demo_web demo_request ''60'' demo_sends = (Inr (row_to_record demo_key, ''60''), demo_signed)"
proof -
  let ?in = "\<lparr>vi_key_id = 2, vi_timestamp = ''1999999999'',
      vi_signature = sign_request demo_primitives ''K'' ''1999999999'' ''POST'' ''/v1/public/send'' ''60'',
      vi_method = ''POST'', vi_path = ''/v1/public/send'', vi_raw_body = ''60'', vi_source_ip = ''203.0.113.9''\<rparr>"
  have c: "pub_clock demo_sends = 2000000000000000" by (simp add: demo_sends_def demo_pub_def demo_at_def pub_clock_def)
  have f: "find_api_key demo_sends 2 = Some demo_key" by (simp add: demo_sends_def demo_pub_def find_api_key_def demo_key_sel)
  have n: "reserve_nonce 2 g (prune_nonces 2 x demo_sends) = (True, demo_sends\<lparr>pa_nonces := [\<lparr>nn_key = 2,
      nn_signature = g, nn_seen_at = 2000000000000000\<rparr>]\<rparr>)" for g x
    using c by (simp add: reserve_nonce_def prune_nonces_def demo_sends_def demo_pub_def pub_clock_def)
  have v: "verify_signed_request demo_pub_env ?in 300 demo_sends = (Inr (row_to_record demo_key), demo_signed)"
    by (simp add: verify_signed_request_def Let_def demo_timestamps demo_window c f n row_to_record_def demo_key_sel check_usable_def
        demo_pub_env_def demo_decrypts ct_eq_str_def demo_signed_def)
  have ip: "resolve_client_ip (pe_ip (we_pub demo_web)) demo_request = Some ''203.0.113.9''"
    by (simp add: resolve_client_ip_def demo_request_def or_else_case Let_def)
  have h: "signature_headers demo_request = Some (''two'', ''1999999999'',
      sign_request demo_primitives ''K'' ''1999999999'' ''POST'' ''/v1/public/send'' ''60'')"
    by (simp add: signature_headers_def demo_request_def)
  show ?thesis
    by (simp add: api_key_auth_def split_request_def MAX_SIGNED_BODY_BYTES_def authenticate_api_request_def ip h)
      (simp add: demo_web_def demo_request_def v rejected_def)
qed

theorem send_needs_key_witness:
  "\<exists>t. send demo_web demo_request ''60'' demo_sends = (Inr (send_ref 2 ''i''), t) \<and>
     (\<exists>k\<in>set (pa_keys demo_sends). holds_key demo_web demo_request ''60'' k \<and>
        send_entries (ak_user k) (pa_db demo_sends) (pa_db t))"
proof -
  have "\<exists>t. send_to_user demo_pub_env 7 2 Btc ''b@x'' 60 ''i'' 1 demo_signed = (Inr (send_ref 2 ''i''), t)"
  proof -
    have "find_user_id_by_email demo_pub_env ''b@x'' demo_signed = Some 8"
      using demo_sends_facts(1) by (simp add: find_user_id_by_email_def demo_signed_sel)
    moreover have "quota_open 2 day 1 demo_signed" for day
      using demo_signed_sel(3,5) by (simp add: quota_open_def demo_sends_def demo_pub_def)
    ultimately show ?thesis
      unfolding send_success demo_signed_sel using demo_can_send demo_pick by (simp add: demo_sends_facts)
  qed
  then obtain t where t: "send_to_user demo_pub_env 7 2 Btc ''b@x'' 60 ''i'' 1 demo_signed = (Inr (send_ref 2 ''i''), t)" by blast
  have "send demo_web demo_request ''60'' demo_sends = (Inr (send_ref 2 ''i''), t)"
    by (simp add: send_def demo_authenticates send_body_def require_scope_def row_to_record_def demo_key_sel)
      (simp add: demo_web_def demo_body_of_def demo_coin t)
  with send_needs_key [OF this] show ?thesis by auto
qed

end
