(* ===== verification/RateLimit.thy ===== *)
theory RateLimit
  imports PublicWeb "HOL-Library.AList"
begin

text \<open>
  \<open>crates/api-http/src/rate_limit.rs\<close>: the fixed-window limits by class and client address, in the process and in the
  database, and \<open>csrf.rs\<close>: the check of the origin on the routes that live on a cookie. Instants are in microseconds.
\<close>

section \<open>Classes\<close>

record Limit =
  lm_max :: nat
  lm_window :: int

definition limit_of :: "nat \<Rightarrow> int \<Rightarrow> Limit" where
  "limit_of n window_secs = \<lparr>lm_max = n, lm_window = secs window_secs\<rparr>"

definition public_pay_suffix :: "string \<Rightarrow> string option" where
  "public_pay_suffix path = or_else (strip_prefix ''/v1/public/pay'' path) (strip_prefix ''/public/pay'' path)"

definition classify :: "string \<Rightarrow> string \<Rightarrow> string \<times> Limit" where
  "classify method path =
     (if path = ''/v1/auth/login'' \<or> path = ''/v1/auth/register'' \<or> path = ''/v1/auth/admin/login''
      then (''auth-credentials'', limit_of 10 (5 * 60))
      else if starts_with ''/v1/faucet'' path \<and> method = ''POST'' then (''faucet-claim'', limit_of 20 (5 * 60))
      else if (path = ''/v1/telemetry/client-error'' \<or> path = ''/v1/telemetry/client-errors'') \<and> method = ''POST''
      then (''telemetry-ingest'', limit_of 60 60)
      else case public_pay_suffix path of
        Some rest \<Rightarrow>
          if method = ''POST'' \<and> ends_with ''/balance'' rest then (''public-pay-balance'', limit_of 10 60)
          else if method = ''POST'' \<and> ends_with ''/select-coin'' rest then (''public-pay-select'', limit_of 20 60)
          else if method = ''GET'' then (''public-pay-get'', limit_of 60 60)
          else (''api'', limit_of 2400 (5 * 60))
      | None \<Rightarrow>
          if starts_with ''/v1/withdrawals'' path \<and> method = ''POST'' then (''withdrawals-post'', limit_of 120 (5 * 60))
          else if starts_with ''/v1/withdrawals'' path then (''withdrawals-get'', limit_of 2400 (5 * 60))
          else if starts_with ''/v1/auth/'' path then (''auth-session'', limit_of 2400 (5 * 60))
          else if starts_with ''/v1/'' path then (''api'', limit_of 2400 (5 * 60))
          else (''other'', limit_of 4800 (5 * 60)))"

definition uses_shared_store :: "string \<Rightarrow> bool" where
  "uses_shared_store class_name \<longleftrightarrow> class_name \<in> set [''auth-credentials'', ''faucet-claim'', ''telemetry-ingest'',
     ''withdrawals-post'', ''public-pay-select'', ''public-pay-balance'']"

section \<open>Counters\<close>

text \<open>
  The table in the process is a map with one entry per key, from a start instant to a \<open>u32\<close>; the buckets in the database
  hold an \<open>i32\<close>, past which the statement fails.
\<close>

record counters =
  ct_hits :: "(string \<times> int \<times> nat) list"
  ct_last_prune :: int

definition MAX_TRACKED_KEYS :: nat where
  "MAX_TRACKED_KEYS = 100000"

definition PRUNE_EVERY :: int where
  "PRUNE_EVERY = secs 60"

definition prune_counters :: "int \<Rightarrow> int \<Rightarrow> counters \<Rightarrow> counters" where
  "prune_counters t window c =
     (let c1 = (if t - ct_last_prune c > PRUNE_EVERY
            then \<lparr>ct_hits = filter (\<lambda>(_, start, _). t - start < window) (ct_hits c), ct_last_prune = t\<rparr> else c)
      in if length (ct_hits c1) > MAX_TRACKED_KEYS then c1\<lparr>ct_hits := []\<rparr> else c1)"

definition current_entry :: "string \<Rightarrow> int \<Rightarrow> int \<Rightarrow> counters \<Rightarrow> int \<times> nat" where
  "current_entry key t window c =
     (case map_of (ct_hits c) key of
        None \<Rightarrow> (t, 0)
      | Some (start, n) \<Rightarrow> if t - start \<ge> window then (t, 0) else (start, n))"

text \<open>The result of a check is \<open>None\<close>, or the seconds after which to retry.\<close>

definition check_local :: "string \<Rightarrow> Limit \<Rightarrow> int \<Rightarrow> counters \<Rightarrow> nat option \<times> counters" where
  "check_local key limit t c =
     (let c1 = prune_counters t (lm_window limit) c;
          (start, n) = current_entry key t (lm_window limit) c1;
          hits = (n + 1) mod 2 ^ 32;
          c2 = c1\<lparr>ct_hits := AList.update key (start, hits) (ct_hits c1)\<rparr>
      in if hits > lm_max limit then (Some (max (nat ((lm_window limit - (t - start)) div 1000000)) 1), c2) else (None, c2))"

record limiter =
  li_buckets :: "(string \<times> int \<times> int) list"
  li_local :: counters

definition bump_bucket :: "string \<Rightarrow> int \<Rightarrow> int \<Rightarrow> (string \<times> int \<times> int) list \<Rightarrow> int \<times> int" where
  "bump_bucket key window t buckets =
     (case map_of buckets key of
        None \<Rightarrow> (t, 1)
      | Some (start, n) \<Rightarrow> if start + window < t then (t, 1) else (start, n + 1))"

text \<open>\<open>up\<close>: the database answers.\<close>

definition check_shared :: "bool \<Rightarrow> string \<Rightarrow> Limit \<Rightarrow> int \<Rightarrow> limiter \<Rightarrow> nat option \<times> limiter" where
  "check_shared up key limit t s =
     (let (start, hits) = bump_bucket key (lm_window limit) t (li_buckets s) in
      if up \<and> hits < 2 ^ 31 then
        (if hits > int (lm_max limit) then Some (max (nat (lm_window limit div 1000000)) 1) else None,
         s\<lparr>li_buckets := AList.update key (start, hits) (li_buckets s)\<rparr>)
      else (case check_local key limit t (li_local s) of (r, c) \<Rightarrow> (r, s\<lparr>li_local := c\<rparr>)))"

definition limit_key :: "string \<Rightarrow> string \<Rightarrow> string" where
  "limit_key class_name ip = class_name @ ''|'' @ ip"

definition limit_layer ::
    "(string \<Rightarrow> IpAddr option) \<Rightarrow> bool \<Rightarrow> request_parts \<Rightarrow> string \<Rightarrow> int \<Rightarrow> limiter \<Rightarrow> nat option \<times> limiter" where
  "limit_layer parse up r path t s =
     (let (class_name, limit) = classify (rp_method r) path;
          ip = (case resolve_client_ip parse r of Some ip \<Rightarrow> ip | None \<Rightarrow> ''unknown'');
          key = limit_key class_name ip
      in if uses_shared_store class_name then check_shared up key limit t s
         else (case check_local key limit t (li_local s) of (x, c) \<Rightarrow> (x, s\<lparr>li_local := c\<rparr>)))"

section \<open>Cross-site requests\<close>

definition csrf_reject :: "string \<Rightarrow> http_error" where
  "csrf_reject msg = coded_error 403 ''CSRF_BLOCKED'' msg"

text \<open>\<open>origin\<close> and \<open>referer\<close> are the headers as text; \<open>host_of\<close> is \<open>Url::parse\<close> with \<open>host_str\<close>.\<close>

definition assert_browser_csrf ::
    "(string \<Rightarrow> string option) \<Rightarrow> string option \<Rightarrow> string option \<Rightarrow> string list \<Rightarrow> http_error + unit" where
  "assert_browser_csrf host_of origin referer allowed =
     (let nonempty = (\<lambda>h. case h of None \<Rightarrow> None | Some v \<Rightarrow> if v = [] then None else Some v) in
      case or_else (nonempty origin) (nonempty referer) of
        None \<Rightarrow> Inr ()
      | Some raw \<Rightarrow>
          (case map_option (map lower_char) (host_of raw) of
             None \<Rightarrow> Inl (csrf_reject ''invalid origin'')
           | Some host \<Rightarrow>
               if list_ex (\<lambda>h. eq_ignore_case h host) allowed then Inr ()
               else if host \<in> set [''localhost'', ''127.0.0.1'', ''::1''] then Inr ()
               else Inl (csrf_reject ''cross-site request blocked'')))"

section \<open>Runs of the shared store\<close>

text \<open>\<open>admitted\<close> counts the requests of one key that a run of requests, each with its key, limit and instant, lets through.\<close>

fun admitted :: "string \<Rightarrow> (string \<times> Limit \<times> int) list \<Rightarrow> limiter \<Rightarrow> nat" where
  "admitted key [] s = 0"
| "admitted key ((k, limit, t) # rest) s =
     (let (r, s') = check_shared True k limit t s
      in (if k = key \<and> r = None then 1 else 0) + admitted key rest s')"

definition bucket_of :: "string \<Rightarrow> limiter \<Rightarrow> (int \<times> int) option" where
  "bucket_of key s = map_of (li_buckets s) key"

definition small :: "string \<Rightarrow> int \<Rightarrow> limiter \<Rightarrow> bool" where
  "small key n s \<longleftrightarrow> (case bucket_of key s of None \<Rightarrow> True | Some (_, h) \<Rightarrow> 0 \<le> h \<and> h + n < 2 ^ 31)"

lemma check_shared_other:
  "k \<noteq> key \<Longrightarrow> bucket_of key (snd (check_shared True k limit t s)) = bucket_of key s"
  by (auto simp: check_shared_def bucket_of_def Let_def update_conv split: prod.split)

lemma check_shared_own:
  assumes "small key (int (Suc n)) s" and "int (Suc n) < 2 ^ 31"
  shows "\<exists>start hits. bump_bucket key (lm_window limit) t (li_buckets s) = (start, hits) \<and>
    fst (check_shared True key limit t s) = (if hits > int (lm_max limit) then Some (max (nat (lm_window limit div 1000000)) 1) else None) \<and>
    bucket_of key (snd (check_shared True key limit t s)) = Some (start, hits) \<and>
    small key (int n) (snd (check_shared True key limit t s))"
proof -
  obtain start hits where b: "bump_bucket key (lm_window limit) t (li_buckets s) = (start, hits)"
    by (cases "bump_bucket key (lm_window limit) t (li_buckets s)")
  have h: "0 \<le> hits \<and> hits + int n < 2 ^ 31"
    using b assms by (auto simp: bump_bucket_def small_def bucket_of_def split: option.splits if_splits)
  with b have "check_shared True key limit t s = (if hits > int (lm_max limit) then Some (max (nat (lm_window limit div 1000000)) 1) else None,
      s\<lparr>li_buckets := AList.update key (start, hits) (li_buckets s)\<rparr>)"
    by (simp add: check_shared_def)
  with b h show ?thesis by (simp add: bucket_of_def small_def update_conv)
qed

lemma admitted_in_window:
  assumes "small key (int (length rs)) s" and "int (length rs) < 2 ^ 31"
    and "\<forall>(k, lm, t)\<in>set rs. k = key \<longrightarrow> lm = limit \<and> t \<le> start + lm_window limit"
    and "bucket_of key s = Some (start, h)"
  shows "int (admitted key rs s) \<le> max 0 (int (lm_max limit) - h)"
  using assms
proof (induction rs arbitrary: s h)
  case (Cons q rs)
  obtain k lm t where q: "q = (k, lm, t)" by (cases q)
  obtain r s' where c: "check_shared True k lm t s = (r, s')" by (cases "check_shared True k lm t s")
  show ?case
  proof (cases "k = key")
    case False
    with c check_shared_other [of k key lm t s] have b: "bucket_of key s' = bucket_of key s" by simp
    with Cons.prems have "small key (int (length rs)) s'" by (auto simp: small_def)
    with Cons.IH [of s' h] Cons.prems b False c q show ?thesis by simp
  next
    case True
    with Cons.prems(3) q have lm: "lm = limit" "t \<le> start + lm_window limit" by auto
    have "bump_bucket key (lm_window limit) t (li_buckets s) = (start, h + 1)"
      using lm(2) Cons.prems(4) by (simp add: bump_bucket_def bucket_of_def)
    with check_shared_own [of key "length rs" s limit t] Cons.prems(1,2) c True lm(1)
    have r: "r = (if h + 1 > int (lm_max limit) then Some (max (nat (lm_window limit div 1000000)) 1) else None)"
      and b: "bucket_of key s' = Some (start, h + 1)" and sm: "small key (int (length rs)) s'" by auto
    have ih: "int (admitted key rs s') \<le> max 0 (int (lm_max limit) - (h + 1))"
      using Cons.IH [OF sm _ _ b] Cons.prems(2,3) by simp
    have "admitted key (q # rs) s = (if r = None then 1 else 0) + admitted key rs s'"
      using q c True by simp
    with r ih show ?thesis by (cases "h + 1 > int (lm_max limit)") simp_all
  qed
qed simp

definition room :: "Limit \<Rightarrow> string \<Rightarrow> limiter \<Rightarrow> int" where
  "room limit key s = (case bucket_of key s of None \<Rightarrow> 0 | Some (_, h) \<Rightarrow> max 0 (int (lm_max limit) - h))"

lemma admitted_in_interval:
  assumes "small key (int (length rs)) s" and "int (length rs) < 2 ^ 31"
    and "\<forall>(k, lm, t)\<in>set rs. k = key \<longrightarrow> lm = limit \<and> T \<le> t \<and> t \<le> T + lm_window limit"
  shows "int (admitted key rs s) \<le> room limit key s + int (lm_max limit)"
  using assms
proof (induction rs arbitrary: s)
  case Nil
  then show ?case by (simp add: room_def split: option.split)
next
  case (Cons q rs)
  obtain k lm t where q: "q = (k, lm, t)" by (cases q)
  obtain r s' where c: "check_shared True k lm t s = (r, s')" by (cases "check_shared True k lm t s")
  show ?case
  proof (cases "k = key")
    case False
    with c check_shared_other [of k key lm t s] have b: "bucket_of key s' = bucket_of key s" by simp
    then have sm: "small key (int (length rs)) s'" and room: "room limit key s' = room limit key s"
      using Cons.prems(1) by (auto simp: small_def room_def split: option.splits)
    with Cons.IH [OF sm] Cons.prems False c q show ?thesis by simp
  next
    case True
    with Cons.prems(3) q have lm: "lm = limit" and t: "T \<le> t" "t \<le> T + lm_window limit" by auto
    obtain start hits where b: "bump_bucket key (lm_window limit) t (li_buckets s) = (start, hits)"
      and r: "r = (if hits > int (lm_max limit) then Some (max (nat (lm_window limit div 1000000)) 1) else None)"
      and b': "bucket_of key s' = Some (start, hits)" and sm: "small key (int (length rs)) s'"
      using check_shared_own [of key "length rs" s limit t] Cons.prems(1,2) c True lm by auto
    have a: "admitted key (q # rs) s = (if r = None then 1 else 0) + admitted key rs s'" using q c True by simp
    show ?thesis
    proof (cases "start = t \<and> hits = 1")
      case True
      have "\<forall>(k, lm, u)\<in>set rs. k = key \<longrightarrow> lm = limit \<and> u \<le> start + lm_window limit"
        using Cons.prems(3) t(1) True by fastforce
      from admitted_in_window [OF sm _ this b'] Cons.prems(2)
      have "int (admitted key rs s') \<le> max 0 (int (lm_max limit) - 1)" using True by simp
      moreover have "0 \<le> room limit key s" by (simp add: room_def split: option.split)
      ultimately show ?thesis using a r True by (cases "lm_max limit = 0") auto
    next
      case False
      with b obtain h where s: "bucket_of key s = Some (start, h)" and h: "hits = h + 1"
        by (auto simp: bump_bucket_def bucket_of_def split: option.splits if_splits)
      have "int (admitted key rs s') \<le> room limit key s' + int (lm_max limit)"
        using Cons.IH [OF sm] Cons.prems(2,3) by simp
      with a r s h b' show ?thesis by (auto simp: room_def)
    qed
  qed
qed

section \<open>Properties\<close>

text \<open>
  C36. The shared limiter admits at most twice the limit in any interval as long as its window: of a run of requests in
  any order among other keys, those of one key at instants of such an interval are let through at most
  \<open>2 * max\<close> times, whatever the bucket held before.
\<close>

theorem shared_limit_bounds_interval:
  assumes "small key (int (length rs)) s" and "int (length rs) < 2 ^ 31"
    and "\<forall>(k, lm, t)\<in>set rs. k = key \<longrightarrow> lm = limit \<and> T \<le> t \<and> t \<le> T + lm_window limit"
  shows "admitted key rs s \<le> 2 * lm_max limit"
proof -
  have "room limit key s \<le> int (lm_max limit)"
    using assms(1) by (auto simp: room_def small_def split: option.splits)
  with admitted_in_interval [OF assms] show ?thesis by linarith
qed

theorem shared_limit_bounds_interval_witness:
  "admitted ''k'' [(''k'', limit_of 1 60, 0), (''k'', limit_of 1 60, 5), (''k'', limit_of 1 60, 60000000)]
     \<lparr>li_buckets = [], li_local = \<lparr>ct_hits = [], ct_last_prune = 0\<rparr>\<rparr> \<le> 2"
  using shared_limit_bounds_interval [where key = "''k''" and limit = "limit_of 1 60" and T = 0 and
      rs = "[(''k'', limit_of 1 60, 0), (''k'', limit_of 1 60, 5), (''k'', limit_of 1 60, 60000000)]" and
      s = "\<lparr>li_buckets = [], li_local = \<lparr>ct_hits = [], ct_last_prune = 0\<rparr>\<rparr>"]
  by (simp add: small_def bucket_of_def limit_of_def secs_def)

text \<open>
  C37. Pruning forgets counters that still count: the prune keeps the entries younger than the window of the request that
  triggers it, so one request of a class with a short window, from any client, drops the exhausted counter of a class with a
  longer one, and a client that was refused is admitted at the same instant with a full budget.
\<close>

theorem short_window_prune_resets_budget:
  assumes "map_of (ct_hits c) key = Some (start, n)" and "distinct (map fst (ct_hits c))" and "length (ct_hits c) \<le> MAX_TRACKED_KEYS"
    and "lm_max limit \<le> n" and "n + 1 < 2 ^ 32" and "0 < lm_max limit" and "t - start < lm_window limit"
    and "PRUNE_EVERY < t - ct_last_prune c" and "lm_window brief \<le> t - start" and "key' \<noteq> key"
  shows "fst (check_local key limit t c) \<noteq> None \<and> fst (check_local key limit t (snd (check_local key' brief t c))) = None"
proof
  have in_c: "(key, start, n) \<in> set (ct_hits c)" using assms(1) by (rule map_of_SomeD)
  have pruned: "prune_counters t w c = \<lparr>ct_hits = filter (\<lambda>(_, start, _). t - start < w) (ct_hits c), ct_last_prune = t\<rparr>" for w
  proof -
    have "length (filter (\<lambda>(_, start, _). t - start < w) (ct_hits c)) \<le> MAX_TRACKED_KEYS"
      by (rule le_trans [OF length_filter_le assms(3)])
    with assms(8) show ?thesis by (simp add: prune_counters_def Let_def not_less)
  qed
  have d: "distinct (map fst (filter p (ct_hits c)))" for p using assms(2) by (rule distinct_map_filter)
  have "map_of (filter (\<lambda>(_, start, _). t - start < lm_window limit) (ct_hits c)) key = Some (start, n)"
    using d in_c assms(7) by (intro map_of_is_SomeI) simp_all
  then have "current_entry key t (lm_window limit) (prune_counters t (lm_window limit) c) = (start, n)"
    using assms(7) by (simp add: current_entry_def pruned)
  then show "fst (check_local key limit t c) \<noteq> None"
    using assms(4,5) by (simp add: check_local_def Let_def mod_less)
  let ?c' = "snd (check_local key' brief t c)"
  have gone: "map_of (filter (\<lambda>(_, start, _). t - start < lm_window brief) (ct_hits c)) key = None"
  proof (rule ccontr)
    assume "map_of (filter (\<lambda>(_, start, _). t - start < lm_window brief) (ct_hits c)) key \<noteq> None"
    then obtain v where v: "map_of (filter (\<lambda>(_, start, _). t - start < lm_window brief) (ct_hits c)) key = Some v" by blast
    from map_of_SomeD [OF v] have m: "(key, v) \<in> set (ct_hits c)" and young: "t - fst v < lm_window brief"
      by (auto split: prod.splits)
    from m in_c assms(2) have "v = (start, n)" by (metis map_of_is_SomeI option.inject)
    with young assms(9) show False by simp
  qed
  obtain st h where e: "current_entry key' t (lm_window brief) (prune_counters t (lm_window brief) c) = (st, h)"
    by (cases "current_entry key' t (lm_window brief) (prune_counters t (lm_window brief) c)")
  have c': "?c' = \<lparr>ct_hits = AList.update key' (st, (h + 1) mod 2 ^ 32)
      (filter (\<lambda>(_, start, _). t - start < lm_window brief) (ct_hits c)), ct_last_prune = t\<rparr>"
    using e by (simp add: check_local_def Let_def pruned)
  have p': "prune_counters t (lm_window limit) ?c' = ?c' \<or> ct_hits (prune_counters t (lm_window limit) ?c') = []"
    unfolding c' by (simp add: prune_counters_def Let_def PRUNE_EVERY_def secs_def)
  have "map_of (ct_hits ?c') key = None" using gone assms(10) by (simp add: c' update_conv)
  with p' have "current_entry key t (lm_window limit) (prune_counters t (lm_window limit) ?c') = (t, 0)"
    by (auto simp: current_entry_def)
  then show "fst (check_local key limit t ?c') = None"
    using assms(6) by (simp add: check_local_def Let_def)
qed

theorem short_window_prune_resets_budget_witness:
  "fst (check_local ''api|a'' (limit_of 2 300) 70000000 \<lparr>ct_hits = [(''api|a'', 0, 2)], ct_last_prune = 0\<rparr>) \<noteq> None \<and>
   fst (check_local ''api|a'' (limit_of 2 300) 70000000
     (snd (check_local ''public-pay-get|b'' (limit_of 60 60) 70000000 \<lparr>ct_hits = [(''api|a'', 0, 2)], ct_last_prune = 0\<rparr>))) = None"
  by (rule short_window_prune_resets_budget [where start = 0 and n = 2])
    (simp_all add: limit_of_def secs_def PRUNE_EVERY_def MAX_TRACKED_KEYS_def)

text \<open>
  The routes without the version prefix escape their limits: a claim of the faucet at \<open>/faucet/claim\<close> counts in the class
  \<open>other\<close>, in the process and with 4800 requests, instead of 20 in the shared store as at \<open>/v1/faucet/claim\<close>.
\<close>

theorem faucet_alias_escapes_limit:
  "classify ''POST'' (''/v1/faucet/claim'' @ rest) = (''faucet-claim'', limit_of 20 300) \<and> uses_shared_store ''faucet-claim'' \<and>
   classify ''POST'' (''/faucet/claim'' @ rest) = (''other'', limit_of 4800 300) \<and> \<not> uses_shared_store ''other''"
  by (simp add: classify_def starts_with_def public_pay_suffix_def strip_prefix_def or_else_case uses_shared_store_def)

end
