(* ===== verification/Spec2Isabelle.thy ===== *)
theory Spec2Isabelle
  imports Coins SwapMath StakeMath LendMath Events Database Ledger House Wallet Outbox Pricing
    SwapService StakeService Airdrop Faucet
    Crypto Privacy AuditLog NetworkFees Deposits Withdrawals Admin WithdrawalFlow
    Queue Reconciler Relay Lending Checkout DexFlow Rewards Referral SwapExecute
    Sessions Codes OauthFlow OauthRedirect RateLimit
begin

text \<open>
  A verification development for SatsPay, a custodial wallet with swaps, staking, lending, a faucet
  and a merchant gateway. It models the Rust code under \<open>src/crates\<close>.

  \<^bold>\<open>The program and its model.\<close> The services keep their state in Postgres. A balance is never stored:
  it is the sum of the append-only rows of \<open>ledger_entries\<close> of a wallet, and every movement of money
  is made by \<open>apply_ledger_entry\<close> inside the transaction of the operation that causes it. Theory
  \<open>Database\<close> has the tables as one record \<open>db\<close>: each table is the list of its rows in insertion order,
  a row is a record with the columns the modelled code reads or writes, ids come from a counter, and
  \<open>now()\<close> is the field \<open>clock\<close>. Theory \<open>Prelude\<close> has the transaction monad: an operation is a function
  from a state to an error or a result with the next state, and \<open>run_tx\<close> commits the result or, after an
  error, restores the state the transaction started from, as a dropped \<open>sqlx::Transaction\<close> does. An
  operation that is itself several transactions threads the state through them explicitly. Where
  another session can commit between two statements that matter (the lookup of an idempotency key and
  the insert it guards), the operation takes what the other sessions did there as a function argument.
  The unique indexes of the migrations are checks of the insertion that they guard.

  Amounts are \<open>BigDecimal\<close> columns of whole ledger units and are modelled as \<open>int\<close>. A Rust machine
  integer is a word, or \<open>int\<close>/\<open>nat\<close> with the wrap, the saturation or the checked conversion
  (\<open>to_u128\<close>, \<open>saturating_mul\<close>) written out. \<open>f64\<close> in the rate model and the airdrop multiplier is exact
  rounding to 53 bits (theory \<open>F64\<close>). Strings are lists of characters; UTF-8 is written out in \<open>Crypto\<close>.

  \<^bold>\<open>Theories.\<close>
  \<^item> \<open>Prelude\<close>, \<open>Text\<close>, \<open>F64\<close>: the monad, its automation (\<open>tx_simps\<close>), generic list and number lemmas;
    the text of numbers; floating point.
  \<^item> \<open>Coins\<close>, \<open>SwapMath\<close>, \<open>StakeMath\<close>, \<open>LendMath\<close>: the pure crate \<open>shared\<close>: coins, quotes, rewards, rates.
  \<^item> \<open>Database\<close>, \<open>Ledger\<close>, \<open>House\<close>, \<open>Wallet\<close>, \<open>Pricing\<close>: the schema of \<open>db/migrations\<close>, and
    \<open>db/src/ledger.rs\<close>, \<open>house.rs\<close>, \<open>wallet.rs\<close>, \<open>pricing.rs\<close>.
  \<^item> \<open>SwapService\<close>, \<open>StakeService\<close>, \<open>Airdrop\<close>, \<open>Faucet\<close>, \<open>LendService\<close>, \<open>Lending\<close>: the user's operations of
    \<open>db/src/swap.rs\<close>, \<open>stake.rs\<close>, \<open>airdrop.rs\<close>, \<open>faucet.rs\<close> and \<open>lend.rs\<close>; \<open>Lending\<close> has the claims about \<open>LendService\<close>.
  \<^item> \<open>Crypto\<close>, \<open>Privacy\<close>, \<open>AuditLog\<close>, \<open>NetworkFees\<close>: the sealing of personal data, \<open>crates/crypto\<close>, and the
    tables it is written to.
  \<^item> \<open>Deposits\<close>, \<open>Withdrawals\<close>, \<open>Admin\<close>, \<open>WithdrawalFlow\<close>: deposits with their reorgs; requests, decisions
    and broadcasts of withdrawals; \<open>WithdrawalFlow\<close> is the abstract protocol of a withdrawal, the
    simulation of the workers by it, and its invariant along every interleaving.
  \<^item> \<open>Queue\<close>, \<open>Reconciler\<close>: \<open>crates/queue\<close> and the worker's withdrawal tasks.
  \<^item> \<open>Events\<close>, \<open>Outbox\<close>, \<open>Relay\<close>: \<open>crates/events\<close>: the transactional outbox and its delivery to Kafka.
  \<^item> \<open>MerchantDeposits\<close>, \<open>MultiCoin\<close>, \<open>Webhooks\<close>, \<open>InvoiceWatcher\<close>, \<open>Gateway\<close>, \<open>Checkout\<close>: invoices, their price
    in several coins, webhooks, the job that settles invoices from the chain; \<open>Gateway\<close> has the
    gateway's step relation and invariant, and refines the job to it and to \<open>watcher_step\<close>, which allows
    a settlement only for an invoice the chain shows as paid; \<open>Checkout\<close> has its claims.
  \<^item> \<open>Json\<close>, \<open>SwapKit\<close>, \<open>RelayApi\<close>, \<open>ChangeNow\<close>: JSON values as \<open>serde_json\<close> reads them, and the three
    swap providers' clients, \<open>crates/swapkit\<close>, \<open>crates/relay\<close>, \<open>crates/changenow\<close>.
  \<^item> \<open>DexSwap\<close>, \<open>DexRunner\<close>, \<open>DexFlow\<close>: the custodial swap through a provider, \<open>db/src/dex_swap.rs\<close>, and the worker that
    broadcasts, tracks, credits and refunds it, \<open>worker/src/dex_swap_runner.rs\<close>; \<open>DexFlow\<close> has the steps of a
    swap, its invariant, and the refinement of the worker to those steps and to \<open>worker_step\<close>, which names
    for each of them what a provider or the chain must have answered.
  \<^item> \<open>SwapKitQuote\<close>, \<open>SwapRoutes\<close>, \<open>SwapExecute\<close>: \<open>api-http/src/swap.rs\<close>: the routes offered for a pair, the four paths of an
    execution (house, Relay, ChangeNOW, SwapKit), the history.
  \<^item> \<open>Rewards\<close>, \<open>Referral\<close>: \<open>db/src/rewards.rs\<close>, \<open>referral.rs\<close>: liquidity mining paid from HOUSE; links and commissions.
  \<^item> \<open>AuthStore\<close>, \<open>AuthService\<close>, \<open>Auth\<close>, \<open>Sessions\<close>, \<open>Codes\<close>: \<open>domain/src/auth\<close>, \<open>db/src/auth.rs\<close>, \<open>crypto/src/jwt.rs\<close>: the
    accounts, refresh tokens and mailed codes, over the tables \<open>users\<close>, \<open>refresh_tokens\<close>, \<open>email_otps\<close> (record \<open>auth_db\<close>, apart from
    \<open>db\<close>). \<open>Auth\<close> has the contract of the store (locale \<open>auth_store\<close>) and the runs of the service, \<open>Sessions\<close> the
    claims on tokens, \<open>Codes\<close> those on usernames, codes and logins.
  \<^item> \<open>OauthStore\<close>, \<open>OauthWeb\<close>, \<open>OauthFlow\<close>, \<open>OauthRedirect\<close>: the OAuth server: \<open>db/src/oauth.rs\<close>, and of \<open>api-http/src\<close> the files
    \<open>oauth.rs\<close>, \<open>oauth_pkce.rs\<close>, \<open>oauth_redirect.rs\<close>, \<open>middleware.rs\<close>, \<open>http_error.rs\<close>. \<open>OauthFlow\<close> has runs of requests (locale
    \<open>oauth_invariant\<close>) and the claims on codes and tokens, \<open>OauthRedirect\<close> those on where an answer leads.
  \<^item> \<open>PublicApi\<close>, \<open>PublicFlow\<close>, \<open>PublicKeys\<close>, \<open>PublicSends\<close>, \<open>PublicWeb\<close>: the public API of merchants: \<open>db/src/public_api.rs\<close>, and of
    \<open>api-http/src\<close> the files \<open>public_api.rs\<close> and \<open>client_ip.rs\<close>. Its tables (keys, nonces, quotas) stand beside \<open>db\<close> in the
    record \<open>pub_db\<close>. \<open>PublicFlow\<close> characterises a send and has the runs of requests (locale \<open>pub_invariant\<close>), \<open>PublicKeys\<close> the
    claims on keys, signatures and address ranges, \<open>PublicSends\<close> those on money and quotas.
  \<^item> \<open>RateLimit\<close>: \<open>api-http/src/rate_limit.rs\<close>, \<open>csrf.rs\<close>: the limits by class and client, in the process and in the database.

  \<^bold>\<open>What the lemmas show.\<close> Each operation on the ledger is a client of one contract: \<open>Ledger\<close> states that
  a post appends one entry, moves one balance by its amount and keeps every balance non-negative
  (\<open>solvent\<close>), and that the references of the unique indexes stay distinct (\<open>ledger_ok\<close>). The
  theories of the services show what each operation moves, that the total of each coin is conserved or
  changes by exactly the amount that enters or leaves the system, that an error leaves the
  state as it was, and which errors there are. Two locales carry the contracts that several
  operations share: \<open>keyed_operation\<close> (an operation with an idempotency key runs once, whatever other
  sessions commit in its gaps), interpreted on swaps and withdrawals, and \<open>worker_invariant\<close>
  (an invariant kept by steps and by foreign commits is kept by a run). A third, \<open>auth_store\<close>, is the trait \<open>AuthRepo\<close>: what the
  store's writes keep, every method of the service keeps; it is interpreted on the Postgres store four times. The invariants of the state
  machines (withdrawals, deposits, stakes, invoices, lending, the outbox) are proved by rule induction over
  inductive step relations, and the composite jobs are shown to be runs of those steps.

  \<^bold>\<open>Termination and bounds.\<close> All definitions are total, except the loop that drains a job queue: \<open>drain\<close>
  is a \<open>partial_function (option)\<close>, and \<open>Queue\<close> proves that it returns when every job that a step
  leaves pending is due later. Batches (\<open>LIMIT\<close>), the eight attempts of a webhook and the
  ages of prices are the constants of the code.
  The broadcast jobs of withdrawals and of swaps are drained by the same loop, and its termination is one theorem of the
  locale \<open>job_runner\<close>, interpreted for both.

  \<^bold>\<open>Parameters.\<close> AES-GCM, HMAC, HKDF, SHA-256, base64, hex, the HTTP client, name resolution, URL parsing, the
  price providers, the Kafka broker and the chain nodes are arguments of the definitions that use them. Where a claim
  needs a law of them (a cipher opens what it sealed, and only under its own associated data) the law
  is a hypothesis, and the claim's witness discharges it for a concrete function. A parameter is a function: a host
  that resolves differently between a check and the request it guards is outside the model.

  \<^bold>\<open>Time.\<close> One clock stands for \<open>Utc::now()\<close> of the application and \<open>now()\<close> of the database, also where an
  operation reads both (the faucet's claim, the check of a signed request).

  \<^bold>\<open>Not modelled.\<close> The HTTP layer (\<open>api-http\<close>, \<open>api-server\<close>) but the swap handlers, the OAuth server,
  the public API and the rate limits, the clients of the chains (\<open>crates/chain\<close>: node RPC, transaction building, key derivation), the price
  providers' HTTP clients, mail and captcha, telemetry and support tickets, and the
  TypeScript front end.
\<close>

end
